(* ===== verification/Prelude.thy ===== *)
theory Prelude
  imports Main "HOL-Library.AList" "HOL-Library.List_Lexorder" "HOL-Library.Char_ord"
begin

text \<open>
  Shared vocabulary of the development.

  A Python call that may raise is a value of a sum type: \<open>Inl\<close> carries the exception,
  \<open>Inr\<close> the returned value.  \<open>bind_r\<close> is sequencing (the first exception ends the
  block), \<open>traverse\<close> a comprehension or loop whose body may raise.  A dictionary whose order
  matters is an association list: \<open>AList.update\<close> keeps the position of a known key and
  appends a new one, as \<open>d[k] = v\<close> does.  \<open>group_by\<close> is a
  \<open>defaultdict(list)\<close> filled by appending; \<open>distinct_by\<close> is the
  keep-first deduplication that the code writes with \<open>seen\<close> sets and
  \<open>dict.setdefault\<close>.  Python's \<open>sorted\<close> with a key is \<open>sort_key\<close>, which
  is stable too.
\<close>

named_theorems result_simps \<open>sequencing and traversal of computations that may raise\<close>
named_theorems dict_simps \<open>lookups in ordered dictionaries after an update\<close>

type_synonym uuid = nat
  \<comment> \<open>a UUID: only equality of identifiers matters\<close>

type_synonym timestamp = int
  \<comment> \<open>a UTC instant, as the number of seconds\<close>


section \<open>Computations that may raise\<close>

definition bind_r :: "'e + 'a \<Rightarrow> ('a \<Rightarrow> 'e + 'b) \<Rightarrow> 'e + 'b" where
  "bind_r m f = (case m of Inl e \<Rightarrow> Inl e | Inr x \<Rightarrow> f x)"

lemma bind_r_simps [simp, result_simps]:
  "bind_r (Inl e) f = Inl e"
  "bind_r (Inr x) f = f x"
  by (simp_all add: bind_r_def)

lemma bind_r_eq_Inr [result_simps]:
  "bind_r m f = Inr y \<longleftrightarrow> (\<exists>x. m = Inr x \<and> f x = Inr y)"
  by (cases m) auto

lemma bind_r_eq_Inl [result_simps]:
  "bind_r m f = Inl e \<longleftrightarrow> m = Inl e \<or> (\<exists>x. m = Inr x \<and> f x = Inl e)"
  by (cases m) auto

lemma bind_r_cong [fundef_cong]:
  "m = m' \<Longrightarrow> (\<And>x. m' = Inr x \<Longrightarrow> f x = f' x) \<Longrightarrow> bind_r m f = bind_r m' f'"
  by (cases m') auto

fun traverse :: "('a \<Rightarrow> 'e + 'b) \<Rightarrow> 'a list \<Rightarrow> 'e + 'b list" where
  "traverse f [] = Inr []"
| "traverse f (x # xs) = bind_r (f x) (\<lambda>y. bind_r (traverse f xs) (\<lambda>ys. Inr (y # ys)))"

lemma traverse_cong [fundef_cong]:
  "xs = ys \<Longrightarrow> (\<And>x. x \<in> set ys \<Longrightarrow> f x = g x) \<Longrightarrow> traverse f xs = traverse g ys"
proof (induction ys arbitrary: xs)
  case Nil
  then show ?case by simp
next
  case (Cons y ys)
  then show ?case by (simp cong: bind_r_cong)
qed

lemma traverse_append [result_simps]:
  "traverse f (xs @ ys) =
     bind_r (traverse f xs) (\<lambda>us. bind_r (traverse f ys) (\<lambda>vs. Inr (us @ vs)))"
proof (induction xs)
  case Nil
  then show ?case by (cases "traverse f ys") simp_all
next
  case (Cons x xs)
  then show ?case by (cases "f x"; cases "traverse f xs"; cases "traverse f ys") simp_all
qed

lemma traverse_Inr_iff:
  "traverse f xs = Inr ys \<longleftrightarrow> list_all2 (\<lambda>x y. f x = Inr y) xs ys"
proof (induction xs arbitrary: ys)
  case Nil
  then show ?case by auto
next
  case (Cons x xs)
  then show ?case by (auto simp: result_simps list_all2_Cons1)
qed

lemma traverse_length: "traverse f xs = Inr ys \<Longrightarrow> length ys = length xs"
  by (auto simp: traverse_Inr_iff dest: list_all2_lengthD)

lemma traverse_set:
  assumes "traverse f xs = Inr ys"
  shows "set ys = {y. \<exists>x \<in> set xs. f x = Inr y}"
  using assms
proof (induction xs arbitrary: ys)
  case Nil
  then show ?case by simp
next
  case (Cons x xs)
  then show ?case by (auto simp: result_simps)
qed

lemma traverse_Inr_ex: "(\<exists>ys. traverse f xs = Inr ys) \<longleftrightarrow> (\<forall>x \<in> set xs. \<exists>y. f x = Inr y)"
  by (induction xs) (auto simp: result_simps)

lemma traverse_Inl_iff:
  "traverse f xs = Inl e \<longleftrightarrow>
     (\<exists>us x vs. xs = us @ x # vs \<and> f x = Inl e \<and> (\<forall>u \<in> set us. \<exists>y. f u = Inr y))"
proof (induction xs)
  case Nil
  then show ?case by simp
next
  case (Cons x xs)
  show ?case
  proof (cases "f x")
    case (Inl e')
    show ?thesis
    proof
      assume "traverse f (x # xs) = Inl e"
      then have "x # xs = [] @ x # xs \<and> f x = Inl e \<and> (\<forall>u \<in> set []. \<exists>y. f u = Inr y)"
        using Inl by simp
      then show "\<exists>us z vs. x # xs = us @ z # vs \<and> f z = Inl e \<and>
          (\<forall>u \<in> set us. \<exists>y. f u = Inr y)" by blast
    next
      assume "\<exists>us z vs. x # xs = us @ z # vs \<and> f z = Inl e \<and>
          (\<forall>u \<in> set us. \<exists>y. f u = Inr y)"
      then show "traverse f (x # xs) = Inl e"
        using Inl by (auto simp: Cons_eq_append_conv)
    qed
  next
    case (Inr y)
    have "traverse f (x # xs) = Inl e \<longleftrightarrow> traverse f xs = Inl e"
      using Inr by (auto simp: result_simps)
    also have "\<dots> \<longleftrightarrow> (\<exists>us z vs. x # xs = us @ z # vs \<and> f z = Inl e \<and>
        (\<forall>u \<in> set us. \<exists>y. f u = Inr y))" (is "_ \<longleftrightarrow> ?R")
    proof
      assume "traverse f xs = Inl e"
      then obtain us z vs where "xs = us @ z # vs" "f z = Inl e" "\<forall>u \<in> set us. \<exists>y. f u = Inr y"
        using Cons.IH by blast
      then have "x # xs = (x # us) @ z # vs \<and> f z = Inl e \<and> (\<forall>u \<in> set (x # us). \<exists>y. f u = Inr y)"
        using Inr by simp
      then show ?R by blast
    next
      assume ?R
      then obtain us z vs where split: "x # xs = us @ z # vs" and z: "f z = Inl e"
        and us: "\<forall>u \<in> set us. \<exists>y. f u = Inr y" by blast
      from split z Inr obtain us' where "us = x # us'" "xs = us' @ z # vs"
        by (auto simp: Cons_eq_append_conv)
      with z us show "traverse f xs = Inl e"
        using Cons.IH by auto
    qed
    finally show ?thesis .
  qed
qed

lemma traverse_pure [result_simps]: "traverse (\<lambda>x. Inr (f x)) xs = Inr (map f xs)"
  by (induction xs) simp_all

text \<open>A loop that updates a state and may raise.\<close>

fun fold_r :: "('a \<Rightarrow> 's \<Rightarrow> 'e + 's) \<Rightarrow> 'a list \<Rightarrow> 's \<Rightarrow> 'e + 's" where
  "fold_r f [] s = Inr s"
| "fold_r f (x # xs) s = bind_r (f x s) (\<lambda>s'. fold_r f xs s')"

lemma fold_r_cong [fundef_cong]:
  "xs = ys \<Longrightarrow> s = t \<Longrightarrow> (\<And>x u. x \<in> set ys \<Longrightarrow> f x u = g x u) \<Longrightarrow> fold_r f xs s = fold_r g ys t"
proof (induction ys arbitrary: xs s t)
  case Nil
  then show ?case by simp
next
  case (Cons y ys)
  then show ?case by (simp cong: bind_r_cong)
qed

lemma fold_r_append [result_simps]: "fold_r f (xs @ ys) s = bind_r (fold_r f xs s) (\<lambda>t. fold_r f ys t)"
proof (induction xs arbitrary: s)
  case Nil
  then show ?case by simp
next
  case (Cons x xs)
  then show ?case by (cases "f x s") simp_all
qed

text \<open>An invariant of the loop, relating the items done to the state.\<close>

lemma fold_r_invariant:
  assumes "fold_r f xs s = Inr t" "P [] s"
    and "\<And>x us u u'. x \<in> set xs \<Longrightarrow> P us u \<Longrightarrow> f x u = Inr u' \<Longrightarrow> P (us @ [x]) u'"
  shows "P xs t"
proof -
  have "P (us @ xs) t" if "fold_r f xs s = Inr t" "P us s"
    "\<And>x us u u'. x \<in> set xs \<Longrightarrow> P us u \<Longrightarrow> f x u = Inr u' \<Longrightarrow> P (us @ [x]) u'" for us
    using that
  proof (induction xs arbitrary: us s)
    case Nil
    then show ?case by simp
  next
    case (Cons x xs)
    from Cons.prems(1) obtain s' where s': "f x s = Inr s'" "fold_r f xs s' = Inr t"
      by (auto simp: bind_r_eq_Inr)
    have "P (us @ [x]) s'" using Cons.prems(2,3) s'(1) by simp
    from Cons.IH [OF s'(2) this] Cons.prems(3) show ?case by simp
  qed
  from this [of "[]"] assms show ?thesis by simp
qed


section \<open>Keep-first deduplication\<close>

fun distinct_by_seen :: "('a \<Rightarrow> 'k) \<Rightarrow> 'k set \<Rightarrow> 'a list \<Rightarrow> 'a list" where
  "distinct_by_seen f seen [] = []"
| "distinct_by_seen f seen (x # xs) =
     (if f x \<in> seen then distinct_by_seen f seen xs
      else x # distinct_by_seen f (insert (f x) seen) xs)"

definition distinct_by :: "('a \<Rightarrow> 'k) \<Rightarrow> 'a list \<Rightarrow> 'a list" where
  "distinct_by f xs = distinct_by_seen f {} xs"

lemma distinct_by_seen_keys:
  "distinct (map f (distinct_by_seen f seen xs)) \<and>
   f ` set (distinct_by_seen f seen xs) = f ` set xs - seen"
  by (induction f seen xs rule: distinct_by_seen.induct) auto

lemma distinct_by_seen_sub: "set (distinct_by_seen f seen xs) \<subseteq> set xs"
  by (induction f seen xs rule: distinct_by_seen.induct) auto

lemma distinct_distinct_by: "distinct (map f (distinct_by f xs))"
  by (simp add: distinct_by_def distinct_by_seen_keys)

lemma distinct_by_keys: "f ` set (distinct_by f xs) = f ` set xs"
  by (simp add: distinct_by_def distinct_by_seen_keys)

lemma distinct_by_sub: "set (distinct_by f xs) \<subseteq> set xs"
  by (simp add: distinct_by_def distinct_by_seen_sub)

lemma distinct_by_seen_filter:
  "distinct_by_seen f seen xs = distinct_by_seen f {} (filter (\<lambda>x. f x \<notin> seen) xs)"
proof (induction xs arbitrary: seen rule: length_induct)
  case (1 xs)
  show ?case
  proof (cases xs)
    case Nil
    then show ?thesis by simp
  next
    case (Cons y ys)
    have ih: "distinct_by_seen f s zs = distinct_by_seen f {} (filter (\<lambda>x. f x \<notin> s) zs)"
      if "length zs \<le> length ys" for s zs
      using "1.IH" that Cons by auto
    have eq: "filter (\<lambda>x. f x \<notin> {f y}) (filter (\<lambda>x. f x \<notin> seen) ys)
        = filter (\<lambda>x. f x \<notin> insert (f y) seen) ys"
      by (auto intro: filter_cong)
    have "distinct_by_seen f {f y} (filter (\<lambda>x. f x \<notin> seen) ys)
        = distinct_by_seen f {} (filter (\<lambda>x. f x \<notin> insert (f y) seen) ys)"
      using ih [of "filter (\<lambda>x. f x \<notin> seen) ys" "{f y}"] eq by simp
    then show ?thesis
      using Cons ih [of ys seen] ih [of ys "insert (f y) seen"] by auto
  qed
qed

lemma distinct_by_Nil [simp]: "distinct_by f [] = []"
  by (simp add: distinct_by_def)

lemma distinct_by_Cons:
  "distinct_by f (x # xs) = x # distinct_by f (filter (\<lambda>y. f y \<noteq> f x) xs)"
  by (simp add: distinct_by_def distinct_by_seen_filter [of f "{f x}"])

lemma distinct_by_id: "distinct (map f xs) \<Longrightarrow> distinct_by f xs = xs"
proof (induction xs)
  case Nil
  then show ?case by simp
next
  case (Cons x xs)
  then have "f y \<noteq> f x" if "y \<in> set xs" for y
    using that by (metis distinct.simps(2) image_eqI list.map(2) list.set_map)
  then have "filter (\<lambda>y. f y \<noteq> f x) xs = xs"
    by (simp add: filter_id_conv)
  with Cons show ?case by (simp add: distinct_by_Cons)
qed

text \<open>The element kept for a key is the first one of the list that has it.\<close>

lemma distinct_by_first:
  "x \<in> set (distinct_by f xs) \<longleftrightarrow> List.find (\<lambda>y. f y = f x) xs = Some x"
proof (induction xs rule: length_induct)
  case (1 xs)
  show ?case
  proof (cases xs)
    case Nil
    then show ?thesis by simp
  next
    case (Cons y ys)
    let ?zs = "filter (\<lambda>z. f z \<noteq> f y) ys"
    have ih: "x \<in> set (distinct_by f ?zs) \<longleftrightarrow> List.find (\<lambda>z. f z = f x) ?zs = Some x"
      using "1.IH" Cons by (simp add: le_imp_less_Suc)
    have same: "f y \<noteq> f x \<Longrightarrow> List.find (\<lambda>z. f z = f x) ?zs = List.find (\<lambda>z. f z = f x) ys"
      by (induction ys) auto
    have sub: "x \<in> set (distinct_by f ?zs) \<Longrightarrow> f x \<noteq> f y"
      using distinct_by_sub [of f ?zs] by auto
    show ?thesis
      using Cons ih same sub by (auto simp: distinct_by_Cons)
  qed
qed


section \<open>Grouping: a defaultdict of lists\<close>

definition dict_get :: "('k \<times> 'v) list \<Rightarrow> 'k \<Rightarrow> 'v \<Rightarrow> 'v" where
  "dict_get d k dflt = (case map_of d k of None \<Rightarrow> dflt | Some v \<Rightarrow> v)"

definition group_append :: "'k \<Rightarrow> 'v \<Rightarrow> ('k \<times> 'v list) list \<Rightarrow> ('k \<times> 'v list) list" where
  "group_append k v d = AList.update k (dict_get d k [] @ [v]) d"

definition group_by :: "('a \<Rightarrow> 'k) \<Rightarrow> 'a list \<Rightarrow> ('k \<times> 'a list) list" where
  "group_by f xs = foldl (\<lambda>d x. group_append (f x) x d) [] xs"

lemma dict_get_update [dict_simps]:
  "dict_get (AList.update k v d) k' dflt = (if k' = k then v else dict_get d k' dflt)"
  by (simp add: dict_get_def update_conv)

lemma dict_get_Nil [simp]: "dict_get [] k dflt = dflt"
  by (simp add: dict_get_def)

lemma dict_get_group_append [dict_simps]:
  "dict_get (group_append k v d) k' [] =
     (if k' = k then dict_get d k [] @ [v] else dict_get d k' [])"
  by (simp add: group_append_def dict_simps)

lemma group_by_fold_get:
  "dict_get (foldl (\<lambda>d x. group_append (f x) x d) d xs) k [] =
     dict_get d k [] @ filter (\<lambda>x. f x = k) xs"
  by (induction xs arbitrary: d) (auto simp: dict_simps)

lemma group_by_get [dict_simps]: "dict_get (group_by f xs) k [] = filter (\<lambda>x. f x = k) xs"
  by (simp add: group_by_def group_by_fold_get)


section \<open>Lookup in a dictionary built from a list: the last entry of a key wins\<close>

definition dict_of :: "('a \<Rightarrow> 'k) \<Rightarrow> 'a list \<Rightarrow> ('k \<times> 'a) list" where
  "dict_of f xs = foldl (\<lambda>d x. AList.update (f x) x d) [] xs"

lemma dict_of_fold_map_of:
  "map_of (foldl (\<lambda>d x. AList.update (f x) x d) d xs) k =
     (case List.find (\<lambda>x. f x = k) (rev xs) of Some x \<Rightarrow> Some x | None \<Rightarrow> map_of d k)"
proof (induction xs arbitrary: d)
  case Nil
  then show ?case by simp
next
  case (Cons x xs)
  have snoc: "List.find P (ys @ [x]) = (case List.find P ys of Some z \<Rightarrow> Some z
      | None \<Rightarrow> if P x then Some x else None)" for P ys
    by (induction ys) auto
  show ?case
    by (simp add: Cons.IH snoc update_conv split: option.split)
qed

lemma dict_of_map_of [dict_simps]:
  "map_of (dict_of f xs) k = List.find (\<lambda>x. f x = k) (rev xs)"
  by (simp add: dict_of_def dict_of_fold_map_of split: option.split)

lemma find_Some_D: "List.find P xs = Some x \<Longrightarrow> x \<in> set xs \<and> P x"
  by (induction xs) (auto split: if_splits)

lemma find_None_iff': "List.find P xs = None \<longleftrightarrow> (\<forall>x \<in> set xs. \<not> P x)"
  by (induction xs) auto

lemma dict_of_Some_D: "map_of (dict_of f xs) k = Some x \<Longrightarrow> x \<in> set xs \<and> f x = k"
  by (auto simp: dict_simps dest: find_Some_D)

lemma dict_of_None_iff: "map_of (dict_of f xs) k = None \<longleftrightarrow> (\<forall>x \<in> set xs. f x \<noteq> k)"
  by (auto simp: dict_simps find_None_iff')

lemma dict_of_distinct:
  assumes "distinct (map f xs)" and "x \<in> set xs"
  shows "map_of (dict_of f xs) (f x) = Some x"
proof -
  have "map_of (dict_of f xs) (f x) \<noteq> None"
    using assms(2) dict_of_None_iff [of f xs "f x"] by auto
  then obtain y where y: "map_of (dict_of f xs) (f x) = Some y" by blast
  then have "y \<in> set xs" "f y = f x" by (auto dest: dict_of_Some_D)
  with assms have "y = x" by (auto simp: distinct_map dest: inj_onD)
  with y show ?thesis by simp
qed

end
