(* ===== verification/Py_Text.thy ===== *)
theory Py_Text
  imports Prelude
begin

text \<open>
  The string operations of Python that the source uses, on ASCII text: stripping, lower-casing,
  splitting, joining, the decimal text of an integer, and \<open>repr\<close> of strings, integers,
  \<open>None\<close> and tuples.  On ASCII text \<open>casefold\<close> is \<open>lower\<close>.  The main results
  are that decimal text and \<open>repr\<close> are injective, the latter by showing that no
  representation continues another one (\<open>py_repr_prefix\<close>); the order by
  \<open>repr\<close> that the code sorts with is therefore a linear order on these values.
\<close>

section \<open>Characters and strings\<close>

definition code :: "char \<Rightarrow> nat" where
  "code c = of_char c"

lemma code_inj [simp]: "code c = code d \<longleftrightarrow> c = d"
  by (simp add: code_def)

lemma code_less [simp]: "code c < 256"
  by (simp add: code_def)

definition is_space :: "char \<Rightarrow> bool" where
  "is_space c \<longleftrightarrow> 9 \<le> code c \<and> code c \<le> 13 \<or> 28 \<le> code c \<and> code c \<le> 32"

definition is_digit :: "char \<Rightarrow> bool" where
  "is_digit c \<longleftrightarrow> 48 \<le> code c \<and> code c \<le> 57"

definition is_lower :: "char \<Rightarrow> bool" where
  "is_lower c \<longleftrightarrow> 97 \<le> code c \<and> code c \<le> 122"

definition lower_char :: "char \<Rightarrow> char" where
  "lower_char c = (if 65 \<le> code c \<and> code c \<le> 90 then char_of (code c + 32) else c)"

definition lower :: "string \<Rightarrow> string" where
  "lower s = map lower_char s"

definition lstrip_by :: "(char \<Rightarrow> bool) \<Rightarrow> string \<Rightarrow> string" where
  "lstrip_by P s = dropWhile P s"

definition rstrip_by :: "(char \<Rightarrow> bool) \<Rightarrow> string \<Rightarrow> string" where
  "rstrip_by P s = rev (dropWhile P (rev s))"

definition strip :: "string \<Rightarrow> string" where
  "strip s = rstrip_by is_space (lstrip_by is_space s)"

lemma code_lower_char: "code (lower_char c) = (if 65 \<le> code c \<and> code c \<le> 90 then code c + 32 else code c)"
  by (simp add: lower_char_def code_def)

lemma lower_char_idem [simp]: "lower_char (lower_char c) = lower_char c"
  by (subst code_inj [symmetric], simp only: code_lower_char) simp

lemma lower_idem [simp]: "lower (lower s) = lower s"
  by (simp add: lower_def)

lemma is_space_lower_char [simp]: "is_space (lower_char c) = is_space c"
  by (auto simp: is_space_def code_lower_char)

lemma rstrip_by_set: "set (rstrip_by P s) \<subseteq> set s"
  by (auto simp: rstrip_by_def dest: set_dropWhileD)

lemma rstrip_by_last: "rstrip_by P s \<noteq> [] \<Longrightarrow> \<not> P (last (rstrip_by P s))"
  by (simp add: rstrip_by_def last_rev hd_dropWhile)

lemma lstrip_by_hd: "lstrip_by P s \<noteq> [] \<Longrightarrow> \<not> P (hd (lstrip_by P s))"
  by (simp add: lstrip_by_def hd_dropWhile)

lemma rstrip_by_prefix: "\<exists>t. s = rstrip_by P s @ t"
proof -
  have "rev s = takeWhile P (rev s) @ dropWhile P (rev s)" by simp
  then have "rev (rev s) = rev (dropWhile P (rev s)) @ rev (takeWhile P (rev s))"
    by (metis rev_append)
  then show ?thesis unfolding rstrip_by_def by auto
qed

lemma lstrip_by_id: "s = [] \<or> \<not> P (hd s) \<Longrightarrow> lstrip_by P s = s"
  by (cases s) (auto simp: lstrip_by_def)

lemma rstrip_by_id:
  assumes "s = [] \<or> \<not> P (last s)"
  shows "rstrip_by P s = s"
proof (cases "s = []")
  case True
  then show ?thesis by (simp add: rstrip_by_def)
next
  case False
  then have "dropWhile P (rev s) = rev s"
    using assms by (metis dropWhile_eq_self_iff hd_rev)
  then show ?thesis by (simp add: rstrip_by_def)
qed

lemma hd_append_keep: "s = a @ t \<Longrightarrow> a \<noteq> [] \<Longrightarrow> hd a = hd s"
  by (cases a) auto

lemma strip_idem [simp]: "strip (strip s) = strip s"
proof -
  let ?l = "lstrip_by is_space s"
  let ?t = "rstrip_by is_space ?l"
  have "?t = [] \<or> \<not> is_space (hd ?t)"
  proof (cases "?t = []")
    case False
    obtain u where u: "?l = ?t @ u" using rstrip_by_prefix by blast
    from hd_append_keep [OF u False] have "hd ?t = hd ?l" .
    moreover have "?l \<noteq> []" using False u by auto
    ultimately show ?thesis using lstrip_by_hd [of is_space s] by simp
  qed simp
  moreover have "?t = [] \<or> \<not> is_space (last ?t)"
    using rstrip_by_last by blast
  ultimately show ?thesis
    unfolding strip_def by (simp add: lstrip_by_id rstrip_by_id)
qed

lemma strip_lower: "strip (lower s) = lower (strip s)"
proof -
  have "is_space \<circ> lower_char = is_space" by auto
  then show ?thesis
    by (simp add: strip_def lower_def lstrip_by_def rstrip_by_def dropWhile_map rev_map)
qed

text \<open>\<open>s.split(c)\<close> for a one-character separator, and \<open>s.split()\<close>.\<close>

fun split_on :: "char \<Rightarrow> string \<Rightarrow> string list" where
  "split_on c [] = [[]]"
| "split_on c (x # xs) =
     (if x = c then [] # split_on c xs
      else (case split_on c xs of [] \<Rightarrow> [[x]] | t # ts \<Rightarrow> (x # t) # ts))"

definition split_ws :: "string \<Rightarrow> string list" where
  "split_ws s = filter (\<lambda>t. t \<noteq> []) (split_on (CHR '' '') (map (\<lambda>c. if is_space c then CHR '' '' else c) s))"

fun join :: "string \<Rightarrow> string list \<Rightarrow> string" where
  "join sep [] = []"
| "join sep [t] = t"
| "join sep (t # u # ts) = t @ sep @ join sep (u # ts)"

lemma split_on_nonempty [simp]: "split_on c s \<noteq> []"
  by (induction s) (auto split: list.splits)

lemma join_Cons: "ts \<noteq> [] \<Longrightarrow> join sep (t # ts) = t @ sep @ join sep ts"
  by (cases ts) simp_all

lemma join_split_on: "join [c] (split_on c s) = s"
proof (induction s)
  case Nil
  then show ?case by simp
next
  case (Cons x xs)
  obtain t ts where ts: "split_on c xs = t # ts"
    by (meson neq_Nil_conv split_on_nonempty)
  show ?case
  proof (cases "x = c")
    case True
    then show ?thesis using Cons.IH ts by (simp add: join_Cons)
  next
    case False
    then show ?thesis using Cons.IH ts by (cases ts) simp_all
  qed
qed

lemma split_on_no_sep: "c \<notin> set s \<Longrightarrow> split_on c s = [s]"
  by (induction s) auto

lemma split_on_append: "c \<notin> set s \<Longrightarrow> split_on c (s @ c # t) = s # split_on c t"
  by (induction s) auto

lemma split_on_join:
  "ts \<noteq> [] \<Longrightarrow> (\<And>t. t \<in> set ts \<Longrightarrow> c \<notin> set t) \<Longrightarrow> split_on c (join [c] ts) = ts"
proof (induction ts rule: induct_list012)
  case 1
  then show ?case by simp
next
  case (2 t)
  then show ?case by (simp add: split_on_no_sep)
next
  case (3 t u ts)
  then show ?case by (simp add: split_on_append)
qed

text \<open>\<open>re.sub("[...]+", r, s)\<close>: every maximal run of characters of the class becomes \<open>r\<close>.\<close>

function sub_runs :: "(char \<Rightarrow> bool) \<Rightarrow> string \<Rightarrow> string \<Rightarrow> string" where
  "sub_runs P r [] = []"
| "sub_runs P r (x # xs) =
     (if P x then r @ sub_runs P r (dropWhile P xs) else x # sub_runs P r xs)"
  by pat_completeness auto
termination
  by (relation "measure (\<lambda>(P, r, s). length s)") (auto simp: le_imp_less_Suc length_dropWhile_le)

lemma sub_runs_set: "set (sub_runs P r s) \<subseteq> {c \<in> set s. \<not> P c} \<union> set r"
proof (induction P r s rule: sub_runs.induct)
  case (1 P r)
  then show ?case by simp
next
  case (2 P r x xs)
  then show ?case by (auto dest: set_dropWhileD)
qed


section \<open>Decimal text of integers\<close>

definition digit :: "nat \<Rightarrow> char" where
  "digit n = char_of (48 + n)"

fun nat_str :: "nat \<Rightarrow> string" where
  "nat_str n = (if n < 10 then [digit n] else nat_str (n div 10) @ [digit (n mod 10)])"

declare nat_str.simps [simp del]

definition int_str :: "int \<Rightarrow> string" where
  "int_str i = (if i < 0 then CHR ''-'' # nat_str (nat (- i)) else nat_str (nat i))"

definition digit_val :: "char \<Rightarrow> nat" where
  "digit_val c = code c - 48"

definition nat_val :: "string \<Rightarrow> nat" where
  "nat_val s = foldl (\<lambda>n c. 10 * n + digit_val c) 0 s"

lemma code_digit: "n < 10 \<Longrightarrow> code (digit n) = 48 + n"
  by (simp add: digit_def code_def)

lemma digit_val_digit [simp]: "n < 10 \<Longrightarrow> digit_val (digit n) = n"
  by (simp add: digit_val_def code_digit)

lemma is_digit_digit [simp]: "n < 10 \<Longrightarrow> is_digit (digit n)"
  by (simp add: is_digit_def code_digit)

lemma nat_val_nat_str [simp]: "nat_val (nat_str n) = n"
proof (induction n rule: nat_str.induct)
  case (1 n)
  show ?case
  proof (cases "n < 10")
    case True
    then show ?thesis by (simp add: nat_str.simps [of n] nat_val_def)
  next
    case False
    then show ?thesis using "1.IH" by (simp add: nat_str.simps [of n] nat_val_def)
  qed
qed

lemma nat_str_digits: "c \<in> set (nat_str n) \<Longrightarrow> is_digit c"
proof (induction n rule: nat_str.induct)
  case (1 n)
  then show ?case by (cases "n < 10") (auto simp: nat_str.simps [of n])
qed

lemma nat_str_nonempty [simp]: "nat_str n \<noteq> []"
  by (simp add: nat_str.simps [of n])

lemma nat_str_inj [simp]: "nat_str m = nat_str n \<longleftrightarrow> m = n"
  by (metis nat_val_nat_str)

lemma nat_str_hd_zero: "hd (nat_str n) = digit 0 \<Longrightarrow> n = 0"
proof (induction n rule: nat_str.induct)
  case (1 n)
  show ?case
  proof (cases "n < 10")
    case True
    with "1.prems" have "digit n = digit 0" by (simp add: nat_str.simps [of n])
    with True show ?thesis by (metis digit_val_digit zero_less_numeral)
  next
    case False
    with "1.prems" have "hd (nat_str (n div 10)) = digit 0" by (simp add: nat_str.simps [of n])
    with "1.IH" False have "n div 10 = 0" by simp
    with False show ?thesis by simp
  qed
qed

lemma nat_str_length3: "n < 256 \<Longrightarrow> length (nat_str n) \<le> 3"
  by (simp add: nat_str.simps [of n] nat_str.simps [of "n div 10"] nat_str.simps [of "n div 10 div 10"])

definition no_digit_next :: "string \<Rightarrow> bool" where
  "no_digit_next r \<longleftrightarrow> r = [] \<or> \<not> is_digit (hd r)"

lemma nat_str_prefix:
  assumes "nat_str m @ r = nat_str n @ s" and "no_digit_next r" and "no_digit_next s"
  shows "m = n \<and> r = s"
proof -
  have tw: "takeWhile is_digit (nat_str k @ t) = nat_str k" if "no_digit_next t" for k t
    using that nat_str_digits [of _ k] by (cases t) (auto simp: no_digit_next_def takeWhile_append2)
  from assms tw [of r m] tw [of s n] have "nat_str m = nat_str n" by simp
  with assms(1) show ?thesis by simp
qed

lemma not_digit_minus [simp]: "\<not> is_digit (CHR ''-'')"
  by (simp add: is_digit_def code_def)

lemma int_str_prefix:
  assumes "int_str i @ r = int_str j @ s" and "no_digit_next r" and "no_digit_next s"
  shows "i = j \<and> r = s"
proof -
  have mixed: "nat_str m @ x \<noteq> CHR ''-'' # y" for m x y
  proof
    assume eq: "nat_str m @ x = CHR ''-'' # y"
    obtain c cs where cs: "nat_str m = c # cs" by (meson neq_Nil_conv nat_str_nonempty)
    with nat_str_digits [of c m] have "is_digit c" by simp
    with eq cs show False by simp
  qed
  consider "i < 0" "j < 0" | "i < 0" "0 \<le> j" | "0 \<le> i" "j < 0" | "0 \<le> i" "0 \<le> j"
    by linarith
  then show ?thesis
  proof cases
    case 1
    with assms have "nat_str (nat (- i)) @ r = nat_str (nat (- j)) @ s"
      by (simp add: int_str_def)
    from nat_str_prefix [OF this assms(2,3)] 1 show ?thesis by (simp add: eq_nat_nat_iff)
  next
    case 2
    with assms(1) have "nat_str (nat j) @ s = CHR ''-'' # nat_str (nat (- i)) @ r"
      by (simp add: int_str_def)
    with mixed show ?thesis by blast
  next
    case 3
    with assms(1) have "nat_str (nat i) @ r = CHR ''-'' # nat_str (nat (- j)) @ s"
      by (simp add: int_str_def)
    with mixed show ?thesis by blast
  next
    case 4
    with assms have "nat_str (nat i) @ r = nat_str (nat j) @ s" by (simp add: int_str_def)
    from nat_str_prefix [OF this assms(2,3)] 4 show ?thesis by (simp add: eq_nat_nat_iff)
  qed
qed

lemma int_str_inj [simp]: "int_str i = int_str j \<longleftrightarrow> i = j"
  using int_str_prefix [of i "[]" j "[]"] by (auto simp: no_digit_next_def)


section \<open>Escaping: prefix-free character codes\<close>

text \<open>
  A code of characters is prefix-free when a coded character is never continued to another one.
  A text coded character by character and closed by a terminator can then be read back in one way.
\<close>

definition prefix_free :: "('a \<Rightarrow> 'c list) \<Rightarrow> bool" where
  "prefix_free f \<longleftrightarrow> (\<forall>a b r s. f a @ r = f b @ s \<longrightarrow> a = b \<and> r = s)"

lemma prefix_free_D: "prefix_free f \<Longrightarrow> f a @ r = f b @ s \<Longrightarrow> a = b \<and> r = s"
  by (auto simp: prefix_free_def)

lemma prefix_free_text:
  assumes pf: "prefix_free f" and q: "\<And>a. \<exists>c cs. f a = c # cs \<and> c \<noteq> q"
  shows "concat (map f xs) @ q # r = concat (map f ys) @ q # s \<Longrightarrow> xs = ys \<and> r = s"
proof (induction xs arbitrary: ys)
  case Nil
  show ?case
  proof (cases ys)
    case Nil
    with Nil.prems show ?thesis by simp
  next
    case (Cons y ys')
    obtain c cs where "f y = c # cs" "c \<noteq> q" using q by blast
    with Nil.prems Cons show ?thesis by simp
  qed
next
  case (Cons x xs)
  obtain c cs where x: "f x = c # cs" "c \<noteq> q" using q by blast
  show ?case
  proof (cases ys)
    case Nil
    with Cons.prems x show ?thesis by simp
  next
    case (Cons y ys')
    with Cons.prems have "f x @ concat (map f xs) @ q # r = f y @ concat (map f ys') @ q # s"
      by simp
    from prefix_free_D [OF pf this] have "x = y" "concat (map f xs) @ q # r = concat (map f ys') @ q # s"
      by auto
    with Cons.IH Cons show ?thesis by auto
  qed
qed

definition hex_digit :: "nat \<Rightarrow> char" where
  "hex_digit n = (if n < 10 then char_of (48 + n) else char_of (87 + n))"

lemma code_hex_digit: "n < 16 \<Longrightarrow> code (hex_digit n) = (if n < 10 then 48 + n else 87 + n)"
  by (simp add: hex_digit_def code_def)

lemma hex_digit_inj: "m < 16 \<Longrightarrow> n < 16 \<Longrightarrow> hex_digit m = hex_digit n \<longleftrightarrow> m = n"
  by (subst code_inj [symmetric]) (auto simp: code_hex_digit)

definition hex2 :: "char \<Rightarrow> string" where
  "hex2 c = [hex_digit (code c div 16), hex_digit (code c mod 16)]"

lemma hex2_prefix: "hex2 c @ r = hex2 d @ s \<Longrightarrow> c = d \<and> r = s"
proof -
  assume eq: "hex2 c @ r = hex2 d @ s"
  have "code c div 16 < 16" "code d div 16 < 16"
    using code_less [of c] code_less [of d] by linarith+
  with eq have "code c div 16 = code d div 16" "code c mod 16 = code d mod 16" "r = s"
    by (auto simp: hex2_def hex_digit_inj)
  then have "code c = code d" by (metis div_mult_mod_eq)
  with \<open>r = s\<close> show ?thesis by simp
qed


section \<open>repr of the values used as signatures\<close>

definition backslash :: char where "backslash = CHR 0x5C"
definition quote1 :: char where "quote1 = CHR 0x27"
definition quote2 :: char where "quote2 = CHR 0x22"

definition repr_char :: "char \<Rightarrow> char \<Rightarrow> string" where
  "repr_char q c =
     (if c = backslash then [backslash, backslash]
      else if c = q then [backslash, q]
      else if c = CHR 0x0A then [backslash, CHR ''n'']
      else if c = CHR 0x0D then [backslash, CHR ''r'']
      else if c = CHR 0x09 then [backslash, CHR ''t'']
      else if code c < 32 \<or> 127 \<le> code c then [backslash, CHR ''x''] @ hex2 c
      else [c])"

definition repr_quote :: "string \<Rightarrow> char" where
  "repr_quote s = (if quote1 \<in> set s \<and> quote2 \<notin> set s then quote2 else quote1)"

definition repr_str :: "string \<Rightarrow> string" where
  "repr_str s = repr_quote s # concat (map (repr_char (repr_quote s)) s) @ [repr_quote s]"

lemma repr_char_prefix_free:
  assumes "q = quote1 \<or> q = quote2"
  shows "prefix_free (repr_char q)"
  unfolding prefix_free_def
proof (intro allI impI)
  fix a b r s
  assume eq: "repr_char q a @ r = repr_char q b @ s"
  have q: "q \<noteq> backslash" "q \<noteq> CHR ''n''" "q \<noteq> CHR ''r''" "q \<noteq> CHR ''t''" "q \<noteq> CHR ''x''"
    using assms by (auto simp: quote1_def quote2_def backslash_def)
  have b: "backslash \<noteq> CHR ''n''" "backslash \<noteq> CHR ''r''" "backslash \<noteq> CHR ''t''" "backslash \<noteq> CHR ''x''"
    by (auto simp: backslash_def)
  show "a = b \<and> r = s"
    using eq q b hex2_prefix [of a r b s]
    unfolding repr_char_def by (auto split: if_splits)
qed

lemma repr_char_first:
  assumes "q = quote1 \<or> q = quote2"
  shows "\<exists>c cs. repr_char q a = c # cs \<and> c \<noteq> q"
proof -
  have "backslash \<noteq> q" using assms by (auto simp: quote1_def quote2_def backslash_def)
  then show ?thesis by (auto simp: repr_char_def)
qed

lemma repr_quote_cases: "repr_quote s = quote1 \<or> repr_quote s = quote2"
  by (simp add: repr_quote_def)

lemma repr_str_prefix:
  assumes "repr_str a @ r = repr_str b @ s"
  shows "a = b \<and> r = s"
proof -
  let ?q = "repr_quote a"
  from assms have q: "repr_quote b = ?q" by (simp add: repr_str_def)
  with assms have "concat (map (repr_char ?q) a) @ ?q # r = concat (map (repr_char ?q) b) @ ?q # s"
    by (simp add: repr_str_def)
  from prefix_free_text [OF repr_char_prefix_free [OF repr_quote_cases]
      repr_char_first [OF repr_quote_cases] this]
  show ?thesis .
qed

datatype pyval = PNone | PInt int | PStr string | PTuple "pyval list"

fun tuple_rest :: "string list \<Rightarrow> string" where
  "tuple_rest [] = '')''"
| "tuple_rest (t # ts) = '', '' @ t @ tuple_rest ts"

fun tuple_text :: "string list \<Rightarrow> string" where
  "tuple_text [] = ''()''"
| "tuple_text [t] = ''('' @ t @ '',)''"
| "tuple_text (t # u # ts) = ''('' @ t @ tuple_rest (u # ts)"

fun py_repr :: "pyval \<Rightarrow> string" where
  "py_repr PNone = ''None''"
| "py_repr (PInt i) = int_str i"
| "py_repr (PStr s) = repr_str s"
| "py_repr (PTuple vs) = tuple_text (map py_repr vs)"

fun py_str :: "pyval \<Rightarrow> string" where
  "py_str (PStr s) = s"
| "py_str v = py_repr v"

text \<open>The first character tells the kind of value, and never closes or separates a tuple.\<close>

lemma int_str_first: "\<exists>c cs. int_str i = c # cs \<and> (c = CHR ''-'' \<or> is_digit c)"
proof -
  obtain d ds where d: "nat_str (nat i) = d # ds" by (meson neq_Nil_conv nat_str_nonempty)
  with nat_str_digits [of d "nat i"] have "is_digit d" by simp
  with d show ?thesis by (simp add: int_str_def)
qed

lemma tuple_text_first: "\<exists>cs. tuple_text ts = CHR ''('' # cs"
  by (cases ts rule: tuple_text.cases) auto

lemma special_not_digit [simp]:
  "\<not> is_digit (CHR ''N'')" "\<not> is_digit (CHR ''('')" "\<not> is_digit (CHR '')'')"
  "\<not> is_digit (CHR '','')" "\<not> is_digit quote1" "\<not> is_digit quote2"
  by (simp_all add: is_digit_def code_def quote1_def quote2_def)

definition first_kind :: "char \<Rightarrow> nat" where
  "first_kind c = (if c = CHR ''N'' then 0 else if c = CHR ''-'' \<or> is_digit c then 1
     else if c = quote1 \<or> c = quote2 then 2 else if c = CHR ''('' then 3 else 4)"

fun kind_of :: "pyval \<Rightarrow> nat" where
  "kind_of PNone = 0"
| "kind_of (PInt i) = 1"
| "kind_of (PStr s) = 2"
| "kind_of (PTuple vs) = 3"

lemma first_kind_simps:
  "first_kind (CHR ''N'') = 0" "first_kind (CHR ''-'') = 1" "first_kind (CHR ''('') = 3"
  "first_kind (CHR '')'') = 4" "first_kind quote1 = 2" "first_kind quote2 = 2"
  by (simp_all add: first_kind_def quote1_def quote2_def is_digit_def code_def)

lemma first_kind_digit: "is_digit c \<Longrightarrow> first_kind c = 1"
  by (auto simp: first_kind_def)

lemma py_repr_first: "\<exists>c cs. py_repr v = c # cs \<and> first_kind c = kind_of v"
proof (cases v)
  case PNone
  then show ?thesis by (simp add: first_kind_simps)
next
  case (PInt i)
  then show ?thesis using int_str_first [of i] by (auto simp: first_kind_simps first_kind_digit)
next
  case (PStr s)
  then show ?thesis using repr_quote_cases [of s] by (auto simp: repr_str_def first_kind_simps)
next
  case (PTuple vs)
  then show ?thesis using tuple_text_first [of "map py_repr vs"] by (auto simp: first_kind_simps)
qed

lemma py_repr_kind: "py_repr x @ r = py_repr y @ s \<Longrightarrow> kind_of x = kind_of y"
  using py_repr_first [of x] py_repr_first [of y] by auto

definition ends_token :: "string \<Rightarrow> bool" where
  "ends_token r \<longleftrightarrow> r = [] \<or> hd r = CHR '','' \<or> hd r = CHR '')''"

lemma ends_token_no_digit: "ends_token r \<Longrightarrow> no_digit_next r"
  by (auto simp: ends_token_def no_digit_next_def)

lemma ends_token_tuple_rest: "ends_token (tuple_rest ts @ r)"
  by (cases ts) (auto simp: ends_token_def)

lemma tuple_rest_prefix:
  assumes "\<And>x y r s. x \<in> set xs \<Longrightarrow> ends_token r \<Longrightarrow> ends_token s \<Longrightarrow>
     py_repr x @ r = py_repr y @ s \<Longrightarrow> x = y \<and> r = s"
  shows "tuple_rest (map py_repr xs) @ r = tuple_rest (map py_repr ys) @ s \<Longrightarrow> xs = ys \<and> r = s"
  using assms
proof (induction xs arbitrary: ys)
  case Nil
  then show ?case by (cases ys) auto
next
  case (Cons x xs)
  show ?case
  proof (cases ys)
    case Nil
    with Cons.prems show ?thesis by simp
  next
    case (Cons y ys')
    with Cons.prems(1) have "py_repr x @ tuple_rest (map py_repr xs) @ r
        = py_repr y @ tuple_rest (map py_repr ys') @ s" by simp
    from Cons.prems(2) [OF _ ends_token_tuple_rest ends_token_tuple_rest this]
    have "x = y" and rest: "tuple_rest (map py_repr xs) @ r = tuple_rest (map py_repr ys') @ s"
      by auto
    have "xs = ys' \<and> r = s"
      using Cons.prems(2) by (intro Cons.IH [OF rest]) auto
    with \<open>x = y\<close> Cons show ?thesis by simp
  qed
qed

text \<open>The tuple text, with its three shapes, in one form: an opening part and a rest.\<close>

fun tuple_body :: "string list \<Rightarrow> string" where
  "tuple_body [] = '')''"
| "tuple_body [t] = t @ '',)''"
| "tuple_body (t # u # ts) = t @ tuple_rest (u # ts)"

lemma tuple_text_body: "tuple_text ts = CHR ''('' # tuple_body ts"
  by (cases ts rule: tuple_text.cases) auto

lemma py_repr_not_close: "py_repr v @ r \<noteq> CHR '')'' # s"
proof
  assume "py_repr v @ r = CHR '')'' # s"
  moreover obtain c cs where "py_repr v = c # cs" "first_kind c = kind_of v"
    using py_repr_first by blast
  ultimately have "kind_of v = 4" by (simp add: first_kind_simps)
  then show False by (cases v) simp_all
qed

definition tuple_tail :: "pyval list \<Rightarrow> string" where
  "tuple_tail vs = (case vs of [] \<Rightarrow> '',)'' | _ \<Rightarrow> tuple_rest (map py_repr vs))"

lemma tuple_body_Cons: "tuple_body (map py_repr (v # vs)) = py_repr v @ tuple_tail vs"
  by (cases vs) (simp_all add: tuple_tail_def)

lemma ends_token_tail: "ends_token (tuple_tail vs @ t)"
  by (cases vs) (auto simp: tuple_tail_def ends_token_def)

lemma tuple_tail_prefix:
  assumes el: "\<And>x y r s. x \<in> set xs \<Longrightarrow> ends_token r \<Longrightarrow> ends_token s \<Longrightarrow>
     py_repr x @ r = py_repr y @ s \<Longrightarrow> x = y \<and> r = s"
    and eq: "tuple_tail xs @ r = tuple_tail ys @ s"
  shows "xs = ys \<and> r = s"
proof (cases "xs = [] \<or> ys = []")
  case True
  then show ?thesis using eq by (cases xs; cases ys) (auto simp: tuple_tail_def)
next
  case False
  with eq have "tuple_rest (map py_repr xs) @ r = tuple_rest (map py_repr ys) @ s"
    by (cases xs; cases ys) (simp_all add: tuple_tail_def)
  from tuple_rest_prefix [OF _ this] el show ?thesis by blast
qed

lemma tuple_body_prefix:
  assumes el: "\<And>x y r s. x \<in> set xs \<Longrightarrow> ends_token r \<Longrightarrow> ends_token s \<Longrightarrow>
     py_repr x @ r = py_repr y @ s \<Longrightarrow> x = y \<and> r = s"
    and eq: "tuple_body (map py_repr xs) @ r = tuple_body (map py_repr ys) @ s"
  shows "xs = ys \<and> r = s"
proof (cases xs)
  case Nil
  show ?thesis
  proof (cases ys)
    case Nil
    with eq \<open>xs = []\<close> show ?thesis by simp
  next
    case (Cons y ys')
    with eq \<open>xs = []\<close> have "CHR '')'' # r = py_repr y @ tuple_tail ys' @ s"
      by (simp only: tuple_body_Cons) simp
    with py_repr_not_close show ?thesis by metis
  qed
next
  case (Cons x xs')
  show ?thesis
  proof (cases ys)
    case Nil
    with eq Cons have "py_repr x @ tuple_tail xs' @ r = CHR '')'' # s"
      by (simp only: tuple_body_Cons) simp
    with py_repr_not_close show ?thesis by metis
  next
    case (Cons y ys')
    with eq \<open>xs = x # xs'\<close> have "py_repr x @ tuple_tail xs' @ r = py_repr y @ tuple_tail ys' @ s"
      by (simp only: tuple_body_Cons) simp
    from el [OF _ ends_token_tail ends_token_tail this] \<open>xs = x # xs'\<close>
    have xy: "x = y" and rest: "tuple_tail xs' @ r = tuple_tail ys' @ s" by auto
    have "xs' = ys' \<and> r = s"
      using el \<open>xs = x # xs'\<close> by (intro tuple_tail_prefix [OF _ rest]) auto
    with xy Cons \<open>xs = x # xs'\<close> show ?thesis by simp
  qed
qed

lemma py_repr_prefix:
  "ends_token r \<Longrightarrow> ends_token s \<Longrightarrow> py_repr x @ r = py_repr y @ s \<Longrightarrow> x = y \<and> r = s"
proof (induction x arbitrary: y r s)
  case PNone
  from py_repr_kind [OF PNone.prems(3)] have "y = PNone" by (cases y) simp_all
  with PNone.prems show ?case by simp
next
  case (PInt i)
  from py_repr_kind [OF PInt.prems(3)] obtain j where y: "y = PInt j" by (cases y) simp_all
  with PInt.prems int_str_prefix [of i r j s] show ?case by (simp add: ends_token_no_digit)
next
  case (PStr t)
  from py_repr_kind [OF PStr.prems(3)] obtain u where y: "y = PStr u" by (cases y) simp_all
  with PStr.prems repr_str_prefix [of t r u s] show ?case by simp
next
  case (PTuple vs)
  from py_repr_kind [OF PTuple.prems(3)] obtain ws where y: "y = PTuple ws" by (cases y) simp_all
  with PTuple.prems(3) have eq: "tuple_body (map py_repr vs) @ r = tuple_body (map py_repr ws) @ s"
    by (simp add: tuple_text_body)
  have "vs = ws \<and> r = s"
    using PTuple.IH by (intro tuple_body_prefix [OF _ eq]) blast
  with y show ?case by simp
qed

lemma py_repr_inj [simp]: "py_repr x = py_repr y \<longleftrightarrow> x = y"
  using py_repr_prefix [of "[]" "[]" x y] by (auto simp: ends_token_def)

text \<open>Sorting with \<open>key=repr\<close> is sorting by this linear order.\<close>

instantiation pyval :: linorder
begin

definition less_eq_pyval :: "pyval \<Rightarrow> pyval \<Rightarrow> bool" where
  "x \<le> y \<longleftrightarrow> py_repr x \<le> py_repr y"

definition less_pyval :: "pyval \<Rightarrow> pyval \<Rightarrow> bool" where
  "x < y \<longleftrightarrow> py_repr x < py_repr y"

instance
proof
  fix x y z :: pyval
  show "x < y \<longleftrightarrow> x \<le> y \<and> \<not> y \<le> x"
    by (simp only: less_eq_pyval_def less_pyval_def less_le_not_le)
  show "x \<le> x" by (simp add: less_eq_pyval_def)
  show "x \<le> y \<Longrightarrow> y \<le> z \<Longrightarrow> x \<le> z"
    unfolding less_eq_pyval_def by (rule order.trans)
  show "x \<le> y \<Longrightarrow> y \<le> x \<Longrightarrow> x = y"
    unfolding less_eq_pyval_def by (metis order.antisym py_repr_inj)
  show "x \<le> y \<or> y \<le> x"
    unfolding less_eq_pyval_def by (rule linear)
qed

end

end
