(* ===== verification/Json_Hash.thy ===== *)
theory Json_Hash
  imports Py_Text "HOL-Library.Multiset"
begin

text \<open>
  \<open>json_hash\<close> of \<open>src/src/app/core/hashers.py\<close>, the order-independent digest
  behind the catalog fingerprint and the rule signature.  The data are nested dictionaries, lists
  and leaves (\<open>pydata\<close>); \<open>normalize\<close> sorts both and turns every leaf into its
  text, \<open>dumps\<close> is the compact JSON text, and SHA-256 is the argument \<open>sha\<close>.

  The abstract value of such data is an unordered tree (\<open>utree\<close>: lists as multisets,
  dictionaries as maps).  \<open>json_hash_text_iff\<close>: two data have the same text before hashing
  exactly when they have the same abstract value, so the digest ignores exactly the order of list
  items and of keys, and the type of a leaf.
\<close>

section \<open>The code\<close>

datatype pydata = DDict "(string \<times> pydata) list" | DList "pydata list" | DVal pyval

datatype json = JObj "(string \<times> json) list" | JArr "json list" | JStr string

definition json_char :: "char \<Rightarrow> string" where
  "json_char c =
     (if c = quote2 then [backslash, quote2]
      else if c = backslash then [backslash, backslash]
      else if c = CHR 0x0A then [backslash, CHR ''n'']
      else if c = CHR 0x0D then [backslash, CHR ''r'']
      else if c = CHR 0x09 then [backslash, CHR ''t'']
      else if c = CHR 0x0C then [backslash, CHR ''f'']
      else if c = CHR 0x08 then [backslash, CHR ''b'']
      else if code c < 32 then [backslash, CHR ''u'', CHR ''0'', CHR ''0''] @ hex2 c
      else [c])"

definition json_string :: "string \<Rightarrow> string" where
  "json_string s = quote2 # concat (map json_char s) @ [quote2]"

definition obj_text :: "(string \<times> string) list \<Rightarrow> string" where
  "obj_text kts = ''{'' @ join '','' (map (\<lambda>(k, t). json_string k @ '':'' @ t) kts) @ ''}''"

definition arr_text :: "string list \<Rightarrow> string" where
  "arr_text ts = ''['' @ join '','' ts @ '']''"

text \<open>\<open>json.dumps(obj, ensure_ascii=False, sort_keys=True, separators=(",", ":"))\<close>\<close>

fun dumps :: "json \<Rightarrow> string" where
  "dumps (JObj kvs) = obj_text (sort_key fst (map (\<lambda>(k, v). (k, dumps v)) kvs))"
| "dumps (JArr xs) = arr_text (map dumps xs)"
| "dumps (JStr s) = json_string s"

fun normalize :: "pydata \<Rightarrow> json" where
  "normalize (DDict kvs) = JObj (sort_key fst (map (\<lambda>(k, v). (k, normalize v)) kvs))"
| "normalize (DList xs) = JArr (sort_key dumps (map normalize xs))"
| "normalize (DVal v) = JStr (py_str v)"

definition json_hash :: "(string \<Rightarrow> string) \<Rightarrow> pydata \<Rightarrow> string" where
  "json_hash sha d = sha (dumps (normalize d))"


section \<open>The abstract value\<close>

datatype utree = UObj "string \<Rightarrow> utree option" | UArr "utree multiset" | UStr string

fun tree_of :: "pydata \<Rightarrow> utree" where
  "tree_of (DDict kvs) = UObj (map_of (map (\<lambda>(k, v). (k, tree_of v)) kvs))"
| "tree_of (DList xs) = UArr (mset (map tree_of xs))"
| "tree_of (DVal v) = UStr (py_str v)"

fun json_tree :: "json \<Rightarrow> utree" where
  "json_tree (JObj kvs) = UObj (map_of (map (\<lambda>(k, v). (k, json_tree v)) kvs))"
| "json_tree (JArr xs) = UArr (mset (map json_tree xs))"
| "json_tree (JStr s) = UStr s"

text \<open>A dictionary has each key once.\<close>

fun dict_wf :: "pydata \<Rightarrow> bool" where
  "dict_wf (DDict kvs) \<longleftrightarrow> distinct (map fst kvs) \<and> (\<forall>(k, v) \<in> set kvs. dict_wf v)"
| "dict_wf (DList xs) \<longleftrightarrow> (\<forall>x \<in> set xs. dict_wf x)"
| "dict_wf (DVal v) \<longleftrightarrow> True"

fun canonical :: "json \<Rightarrow> bool" where
  "canonical (JObj kvs) \<longleftrightarrow>
     sorted (map fst kvs) \<and> distinct (map fst kvs) \<and> (\<forall>(k, v) \<in> set kvs. canonical v)"
| "canonical (JArr xs) \<longleftrightarrow> sorted (map dumps xs) \<and> (\<forall>x \<in> set xs. canonical x)"
| "canonical (JStr s) \<longleftrightarrow> True"


section \<open>The JSON text determines a canonical tree\<close>

lemma fst_comp_pair [simp]: "fst \<circ> (\<lambda>(k, v). (k, f v)) = fst"
  by auto

lemma map_fst_pair [simp]: "map fst (map (\<lambda>(k, v). (k, f v)) xs) = map fst xs"
  by simp

lemma mset_map_sort: "mset (map f (sort_key g xs)) = mset (map f xs)"
  by simp

lemma set_map_sort: "set (map f (sort_key g xs)) = set (map f xs)"
  by simp

lemma distinct_map_sort: "distinct (map f (sort_key g xs)) \<longleftrightarrow> distinct (map f xs)"
  using mset_map_sort mset_eq_imp_distinct_iff by blast

lemma json_char_prefix_free: "prefix_free json_char"
  unfolding prefix_free_def
proof (intro allI impI)
  fix a b r s
  assume eq: "json_char a @ r = json_char b @ s"
  show "a = b \<and> r = s"
    using eq hex2_prefix [of a r b s]
    unfolding json_char_def backslash_def quote2_def by (auto split: if_splits)
qed

lemma json_char_first: "\<exists>c cs. json_char a = c # cs \<and> c \<noteq> quote2"
  by (auto simp: json_char_def backslash_def quote2_def)

lemma json_string_prefix:
  assumes "json_string a @ r = json_string b @ s"
  shows "a = b \<and> r = s"
  using assms prefix_free_text [OF json_char_prefix_free json_char_first, of a r b s]
  by (simp add: json_string_def)

lemma join_map_Cons:
  "join sep (f x # map f xs) = f x @ concat (map (\<lambda>z. sep @ f z) xs)"
  by (induction xs arbitrary: x) simp_all

lemma join_rest_prefix:
  assumes "\<And>x y r s. x \<in> set xs \<Longrightarrow> y \<in> set ys \<Longrightarrow> f x @ r = f y @ s \<Longrightarrow> x = y \<and> r = s"
    and "q \<noteq> CHR '',''"
    and "concat (map (\<lambda>z. '','' @ f z) xs) @ q # r = concat (map (\<lambda>z. '','' @ f z) ys) @ q # s"
  shows "xs = ys \<and> r = s"
  using assms
proof (induction xs arbitrary: ys)
  case Nil
  then show ?case by (cases ys) auto
next
  case (Cons x xs)
  show ?case
  proof (cases ys)
    case Nil
    with Cons.prems show ?thesis by simp
  next
    case (Cons y ys')
    with Cons.prems(3) have "f x @ concat (map (\<lambda>z. '','' @ f z) xs) @ q # r
        = f y @ concat (map (\<lambda>z. '','' @ f z) ys') @ q # s" by simp
    from Cons.prems(1) [OF _ _ this] Cons have xy: "x = y"
      and rest: "concat (map (\<lambda>z. '','' @ f z) xs) @ q # r
        = concat (map (\<lambda>z. '','' @ f z) ys') @ q # s" by auto
    have "xs = ys' \<and> r = s"
      using Cons.prems(1) Cons by (intro Cons.IH [OF _ Cons.prems(2) rest]) auto
    with xy Cons show ?thesis by simp
  qed
qed

lemma join_prefix:
  assumes el: "\<And>x y r s. x \<in> set xs \<Longrightarrow> y \<in> set ys \<Longrightarrow> f x @ r = f y @ s \<Longrightarrow> x = y \<and> r = s"
    and first: "\<And>z. \<exists>c cs. f z = c # cs \<and> c \<noteq> q"
    and q: "q \<noteq> CHR '',''"
    and eq: "join '','' (map f xs) @ q # r = join '','' (map f ys) @ q # s"
  shows "xs = ys \<and> r = s"
proof -
  have ne: "f z @ t \<noteq> q # u" for z t u using first [of z] by auto
  show ?thesis
  proof (cases xs)
    case Nil
    with eq ne [symmetric] show ?thesis by (cases ys) (auto simp: join_map_Cons)
  next
    case (Cons x xs')
    show ?thesis
    proof (cases ys)
      case Nil
      with eq Cons ne show ?thesis by (auto simp: join_map_Cons)
    next
      case (Cons y ys')
      with eq \<open>xs = x # xs'\<close> have "f x @ concat (map (\<lambda>z. '','' @ f z) xs') @ q # r
          = f y @ concat (map (\<lambda>z. '','' @ f z) ys') @ q # s" by (simp add: join_map_Cons)
      from el [OF _ _ this] Cons \<open>xs = x # xs'\<close> have xy: "x = y"
        and rest: "concat (map (\<lambda>z. '','' @ f z) xs') @ q # r
          = concat (map (\<lambda>z. '','' @ f z) ys') @ q # s" by auto
      have "xs' = ys' \<and> r = s"
        using el Cons \<open>xs = x # xs'\<close> by (intro join_rest_prefix [OF _ q rest]) auto
      with xy Cons \<open>xs = x # xs'\<close> show ?thesis by simp
    qed
  qed
qed

lemma dumps_first:
  "\<exists>cs. dumps j = (case j of JObj _ \<Rightarrow> CHR ''{'' | JArr _ \<Rightarrow> CHR ''['' | JStr _ \<Rightarrow> quote2) # cs"
  by (cases j) (simp_all add: obj_text_def arr_text_def json_string_def)

definition item_text :: "string \<times> json \<Rightarrow> string" where
  "item_text kv = json_string (fst kv) @ '':'' @ dumps (snd kv)"

lemma dumps_sorted_obj:
  assumes "sorted (map fst kvs)"
  shows "dumps (JObj kvs) = ''{'' @ join '','' (map item_text kvs) @ ''}''"
proof -
  have "sort_key fst (map (\<lambda>(k, v). (k, dumps v)) kvs) = map (\<lambda>(k, v). (k, dumps v)) kvs"
    using assms by (intro sort_key_id_if_sorted) simp
  moreover have "item_text = (\<lambda>kv. json_string (fst kv) @ '':'' @ dumps (snd kv))"
    by (simp add: fun_eq_iff item_text_def)
  ultimately show ?thesis
    by (simp add: obj_text_def comp_def case_prod_unfold)
qed

lemma dumps_prefix:
  "canonical x \<Longrightarrow> canonical y \<Longrightarrow> dumps x @ r = dumps y @ s \<Longrightarrow> x = y \<and> r = s"
proof (induction x arbitrary: y r s)
  case (JObj kvs)
  obtain kvs' where y: "y = JObj kvs'"
    using JObj.prems(3) dumps_first [of "JObj kvs"] dumps_first [of y]
    by (cases y) (auto simp: quote2_def)
  have eq: "join '','' (map item_text kvs) @ CHR ''}'' # r
      = join '','' (map item_text kvs') @ CHR ''}'' # s"
    using JObj.prems y by (simp add: dumps_sorted_obj del: dumps.simps)
  have el: "kv = kv' \<and> t = u"
    if "kv \<in> set kvs" "kv' \<in> set kvs'" "item_text kv @ t = item_text kv' @ u" for kv kv' t u
  proof -
    obtain k v k' v' where kv: "kv = (k, v)" "kv' = (k', v')" by (meson surj_pair)
    with that(3) have "json_string k @ CHR '':'' # dumps v @ t = json_string k' @ CHR '':'' # dumps v' @ u"
      by (simp add: item_text_def)
    from json_string_prefix [OF this] have "k = k'" "dumps v @ t = dumps v' @ u" by auto
    moreover have "canonical v" "canonical v'" using that kv JObj.prems y by auto
    ultimately show ?thesis
      using JObj.IH [of kv v v' t u] that(1) kv by auto
  qed
  have first: "\<exists>c cs. item_text z = c # cs \<and> c \<noteq> CHR ''}''" for z
    by (simp add: item_text_def json_string_def quote2_def)
  have "kvs = kvs' \<and> r = s"
    by (rule join_prefix [OF el first _ eq]) simp_all
  with y show ?case by simp
next
  case (JArr xs)
  obtain ys where y: "y = JArr ys"
    using JArr.prems(3) dumps_first [of "JArr xs"] dumps_first [of y]
    by (cases y) (auto simp: quote2_def)
  have eq: "join '','' (map dumps xs) @ CHR '']'' # r = join '','' (map dumps ys) @ CHR '']'' # s"
    using JArr.prems y by (simp add: arr_text_def)
  have first: "\<exists>c cs. dumps z = c # cs \<and> c \<noteq> CHR '']''" for z
    using dumps_first [of z] by (cases z) (auto simp: quote2_def)
  have "xs = ys \<and> r = s"
    using JArr y by (intro join_prefix [OF _ first _ eq]) auto
  with y show ?case by simp
next
  case (JStr t)
  obtain u where y: "y = JStr u"
    using JStr.prems(3) dumps_first [of "JStr t"] dumps_first [of y]
    by (cases y) (auto simp: quote2_def)
  with JStr.prems json_string_prefix [of t r u s] show ?case by simp
qed

lemma dumps_inj: "canonical x \<Longrightarrow> canonical y \<Longrightarrow> dumps x = dumps y \<longleftrightarrow> x = y"
  using dumps_prefix [of x y "[]" "[]"] by auto


section \<open>A canonical tree is determined by its abstract value\<close>

lemma map_of_sorted_eq:
  assumes "map_of xs = map_of ys" "sorted (map fst xs)" "sorted (map fst ys)"
    "distinct (map fst xs)" "distinct (map fst ys)"
  shows "xs = ys"
proof -
  have "set xs = set ys"
    using assms by (metis map_of_eqI map_of_inject_set)
  then have "mset xs = mset ys"
    using assms by (simp add: set_eq_iff_mset_eq_distinct distinct_map)
  moreover have "inj_on fst (set xs)" using assms by (simp add: distinct_map)
  ultimately have "sort_key fst xs = ys" using assms(3) by (intro sort_key_inj_key_eq) auto
  moreover have "sort_key fst xs = xs" using assms(2) by (rule sort_key_id_if_sorted)
  ultimately show ?thesis by simp
qed

lemma json_tree_inj:
  "canonical x \<Longrightarrow> canonical y \<Longrightarrow> json_tree x = json_tree y \<Longrightarrow> x = y"
proof (induction x arbitrary: y)
  case (JObj kvs)
  obtain kvs' where y: "y = JObj kvs'" using JObj.prems(3) by (cases y) simp_all
  let ?t = "\<lambda>(k, v). (k, json_tree v)"
  have "map ?t kvs = map ?t kvs'"
    using JObj.prems y by (intro map_of_sorted_eq) simp_all
  moreover have "kv = kv'" if t: "kv \<in> set kvs" "kv' \<in> set kvs'" "?t kv = ?t kv'" for kv kv'
  proof -
    obtain k v v' where kv: "kv = (k, v)" "kv' = (k, v')" and v: "json_tree v = json_tree v'"
      using t(3) by (cases kv; cases kv') auto
    moreover have "canonical v" "canonical v'" using t(1,2) JObj.prems y kv by auto
    ultimately show ?thesis using JObj.IH [of kv v v'] t(1) by auto
  qed
  ultimately have "kvs = kvs'" by (rule list.inj_map_strong [rotated]) blast
  with y show ?case by simp
next
  case (JArr xs)
  obtain ys where y: "y = JArr ys" using JArr.prems(3) by (cases y) simp_all
  with JArr.prems have img: "image_mset json_tree (mset xs) = image_mset json_tree (mset ys)" by simp
  have el: "z = z'" if "z \<in> set xs" "z' \<in> set ys" "json_tree z = json_tree z'" for z z'
    using that JArr.prems(1,2) y by (intro JArr.IH) auto
  have "mset xs = mset ys"
    by (rule multiset.inj_map_strong [OF _ img]) (use el in simp)
  moreover have "inj_on dumps (set xs)"
    using JArr.prems(1) by (auto simp: inj_on_def dumps_inj)
  ultimately have "sort_key dumps xs = ys"
    using JArr.prems(2) y by (intro sort_key_inj_key_eq) auto
  moreover have "sort_key dumps xs = xs"
    using JArr.prems(1) by (intro sort_key_id_if_sorted) simp
  ultimately show ?case using y by simp
next
  case (JStr t)
  then show ?case by (cases y) simp_all
qed


section \<open>normalize produces the canonical tree\<close>

lemma normalize_canonical: "dict_wf d \<Longrightarrow> canonical (normalize d)"
proof (induction d)
  case (DDict kvs)
  then show ?case by (auto simp: distinct_map_sort)
next
  case (DList xs)
  then show ?case by auto
qed simp

lemma json_tree_normalize: "dict_wf d \<Longrightarrow> json_tree (normalize d) = tree_of d"
proof (induction d)
  case (DDict kvs)
  let ?n = "map (\<lambda>(k, v). (k, normalize v)) kvs"
  let ?j = "\<lambda>(k, v). (k, json_tree v)"
  have "map_of (map ?j (sort_key fst ?n)) = map_of (map ?j ?n)"
  proof (rule map_of_inject_set [THEN iffD2])
    show "distinct (map fst (map ?j (sort_key fst ?n)))" "distinct (map fst (map ?j ?n))"
      using DDict.prems by (simp_all only: map_fst_pair distinct_map_sort dict_wf.simps)
    show "set (map ?j (sort_key fst ?n)) = set (map ?j ?n)"
      by (rule set_map_sort)
  qed
  moreover have "map ?j ?n = map (\<lambda>(k, v). (k, tree_of v)) kvs"
    using DDict by (auto simp: case_prod_unfold)
  ultimately show ?case by (simp only: normalize.simps json_tree.simps tree_of.simps)
next
  case (DList xs)
  have "mset (map json_tree (sort_key dumps (map normalize xs))) = mset (map json_tree (map normalize xs))"
    by (rule mset_map_sort)
  also have "map json_tree (map normalize xs) = map tree_of xs" using DList by simp
  finally show ?case by simp
qed simp

lemma normalize_eq_iff:
  assumes "dict_wf d" "dict_wf e"
  shows "normalize d = normalize e \<longleftrightarrow> tree_of d = tree_of e"
  using assms json_tree_inj normalize_canonical json_tree_normalize by metis

lemma json_hash_text_iff:
  assumes "dict_wf d" "dict_wf e"
  shows "dumps (normalize d) = dumps (normalize e) \<longleftrightarrow> tree_of d = tree_of e"
  using assms by (simp add: dumps_inj normalize_canonical normalize_eq_iff)

text \<open>
  The digest.  Equal abstract values have equal digests for every \<open>sha\<close>; the converse needs
  that \<open>sha\<close> does not collide on the two texts.
\<close>

definition no_collision :: "(string \<Rightarrow> string) \<Rightarrow> pydata \<Rightarrow> pydata \<Rightarrow> bool" where
  "no_collision sha d e \<longleftrightarrow> inj_on sha {dumps (normalize d), dumps (normalize e)}"

lemma json_hash_iff:
  assumes "dict_wf d" "dict_wf e" "no_collision sha d e"
  shows "json_hash sha d = json_hash sha e \<longleftrightarrow> tree_of d = tree_of e"
proof -
  have "json_hash sha d = json_hash sha e \<longleftrightarrow> dumps (normalize d) = dumps (normalize e)"
    unfolding json_hash_def using assms(3) [unfolded no_collision_def] by (rule inj_on_eq_iff) simp_all
  with assms(1,2) show ?thesis by (simp add: json_hash_text_iff)
qed

end
