(* ===== verification/Ipv4.thy ===== *)
theory Ipv4
  imports Py_Text "HOL-Library.Word"
begin

unbundle bit_operations_syntax

text \<open>
  What the source uses of Python's \<open>ipaddress\<close>: IPv4 addresses as 32-bit words, networks
  as an address with a prefix length, their text and the parsing of that text, strict and
  non-strict.  An address is read from and written to dotted decimal without loss
  (\<open>parse_ipv4_text\<close>, \<open>ipv4_text_parse\<close>), and the interval from the network address
  to the broadcast address is exactly the set of addresses of the network
  (\<open>network_interval\<close>).
\<close>

type_synonym ipv4 = "32 word"

record ipv4_network =
  net_addr :: ipv4
  prefixlen :: nat

section \<open>Addresses as text\<close>

definition octets :: "ipv4 \<Rightarrow> nat list" where
  "octets a = (let n = unat a in
     [n div 16777216, n div 65536 mod 256, n div 256 mod 256, n mod 256])"

definition of_octets :: "nat list \<Rightarrow> ipv4" where
  "of_octets os = word_of_nat (foldl (\<lambda>n k. 256 * n + k) 0 os)"

definition ipv4_text :: "ipv4 \<Rightarrow> string" where
  "ipv4_text a = join ''.'' (map nat_str (octets a))"

definition parse_octet :: "string \<Rightarrow> nat option" where
  "parse_octet s =
     (if s = [] then None
      else if \<not> list_all is_digit s then None
      else if 3 < length s then None
      else if s \<noteq> ''0'' \<and> hd s = CHR ''0'' then None
      else if 255 < nat_val s then None
      else Some (nat_val s))"

definition parse_ipv4 :: "string \<Rightarrow> ipv4 option" where
  "parse_ipv4 s =
     (let parts = split_on CHR ''.'' s in
      if length parts \<noteq> 4 then None
      else map_option of_octets (those (map parse_octet parts)))"

lemma unat_ipv4_less: "unat (a :: ipv4) < 4294967296"
  using unsigned_less [of a] by simp

lemma octets_bound: "k \<in> set (octets a) \<Longrightarrow> k < 256"
  using unat_ipv4_less [of a] by (auto simp: octets_def Let_def)

lemma octets_length [simp]: "length (octets a) = 4"
  by (simp add: octets_def Let_def)

lemma octets_sum:
  fixes n :: nat
  shows "256 * (256 * (256 * (n div 16777216) + n div 65536 mod 256) + n div 256 mod 256) + n mod 256 = n"
proof -
  have "n div 65536 div 256 = n div 16777216" "n div 256 div 256 = n div 65536"
    by (simp_all add: div_mult2_eq [symmetric])
  then have "256 * (n div 16777216) + n div 65536 mod 256 = n div 65536"
    "256 * (n div 65536) + n div 256 mod 256 = n div 256"
    by (metis mult_div_mod_eq)+
  then show ?thesis by (metis mult_div_mod_eq)
qed

lemma of_octets_octets [simp]: "of_octets (octets a) = a"
  using octets_sum [of "unat a"] by (simp add: of_octets_def octets_def Let_def)

lemma digit_zero: "digit 0 = CHR ''0''"
  by code_simp

lemma nat_str_zero: "nat_str 0 = ''0''"
  by (simp add: nat_str.simps digit_zero)

lemma parse_octet_nat_str:
  assumes "k < 256"
  shows "parse_octet (nat_str k) = Some k"
proof -
  have "nat_str k = ''0''" if "hd (nat_str k) = CHR ''0''"
    using nat_str_hd_zero [of k] that by (simp add: digit_zero nat_str_zero)
  moreover have "list_all is_digit (nat_str k)"
    using nat_str_digits by (auto simp: list_all_iff)
  ultimately show ?thesis
    using assms nat_str_length3 [OF assms] by (auto simp: parse_octet_def)
qed

lemma not_digit_dot [simp]: "\<not> is_digit CHR ''.''"
  by (simp add: is_digit_def code_def)

lemma those_map_Some: "(\<And>x. x \<in> set xs \<Longrightarrow> f x = Some (g x)) \<Longrightarrow> those (map f xs) = Some (map g xs)"
  by (induction xs) auto

lemma parse_ipv4_text [simp]: "parse_ipv4 (ipv4_text a) = Some a"
proof -
  have "split_on CHR ''.'' (ipv4_text a) = map nat_str (octets a)"
    unfolding ipv4_text_def
    by (rule split_on_join) (auto simp: octets_def Let_def dest: nat_str_digits)
  moreover have "those (map parse_octet (map nat_str (octets a))) = Some (octets a)"
    using those_map_Some [of "octets a" "parse_octet \<circ> nat_str" id] octets_bound
    by (simp add: parse_octet_nat_str)
  ultimately show ?thesis by (simp add: parse_ipv4_def)
qed

lemma ipv4_text_inj [simp]: "ipv4_text a = ipv4_text b \<longleftrightarrow> a = b"
  by (metis option.inject parse_ipv4_text)

text \<open>Parsing accepts only canonical text: no leading zeros, so the text can be recovered.\<close>

lemma digit_of_code: "is_digit c \<Longrightarrow> digit (digit_val c) = c"
  by (simp add: is_digit_def digit_def digit_val_def code_def)

lemma digit_val_less: "is_digit c \<Longrightarrow> digit_val c < 10"
  by (auto simp: is_digit_def digit_val_def)

lemma nat_val_snoc: "nat_val (s @ [c]) = 10 * nat_val s + digit_val c"
  by (simp add: nat_val_def)

lemma nat_str_nat_val:
  "s \<noteq> [] \<Longrightarrow> list_all is_digit s \<Longrightarrow> s = ''0'' \<or> hd s \<noteq> CHR ''0'' \<Longrightarrow> nat_str (nat_val s) = s"
proof (induction s rule: rev_induct)
  case Nil
  then show ?case by simp
next
  case (snoc c s)
  have c: "digit_val c < 10" "digit (digit_val c) = c"
    using snoc.prems by (simp_all add: digit_val_less digit_of_code)
  show ?case
  proof (cases "s = []")
    case True
    with c show ?thesis by (simp add: nat_val_def nat_str.simps)
  next
    case False
    with snoc.prems have hd: "hd s \<noteq> CHR ''0''" by auto
    with snoc False have ih: "nat_str (nat_val s) = s" by simp
    have "nat_val s \<noteq> 0"
    proof
      assume "nat_val s = 0"
      with ih have "s = ''0''" by (simp add: nat_str_zero)
      with hd show False by simp
    qed
    then have "\<not> nat_val (s @ [c]) < 10" by (simp add: nat_val_snoc)
    moreover have "nat_val (s @ [c]) div 10 = nat_val s" "nat_val (s @ [c]) mod 10 = digit_val c"
      using c by (simp_all add: nat_val_snoc)
    ultimately show ?thesis using ih c by (simp add: nat_str.simps [of "nat_val (s @ [c])"])
  qed
qed

lemma parse_octet_text: "parse_octet s = Some k \<Longrightarrow> nat_str k = s \<and> k < 256"
  by (auto simp: parse_octet_def nat_str_nat_val split: if_splits)

lemma octets_of_octets:
  assumes "length os = 4" and "\<And>k. k \<in> set os \<Longrightarrow> k < 256"
  shows "octets (of_octets os) = os"
proof -
  obtain a b c d where os: "os = [a, b, c, d]"
    using assms(1) by (auto simp: length_Suc_conv numeral_eq_Suc)
  with assms(2) have b: "a < 256" "b < 256" "c < 256" "d < 256" by auto
  have "256 * (256 * (256 * a + b) + c) + d < 4294967296" proof -
    have 1: "256 * a + b < 65536" using b by simp
    have 2: "256 * (256 * a + b) + c < 16777216" using 1 b by simp
    show ?thesis using 2 b by simp
  qed
  then have "unat (word_of_nat (256 * (256 * (256 * a + b) + c) + d) :: ipv4)
      = 256 * (256 * (256 * a + b) + c) + d"
    by (subst unat_of_nat) simp
  moreover have "of_octets os = word_of_nat (256 * (256 * (256 * a + b) + c) + d)"
    by (simp add: os of_octets_def)
  ultimately have u: "unat (of_octets os) = 256 * (256 * (256 * a + b) + c) + d" by metis
  have d1: "(256 * X + y) div 256 = X" "(256 * X + y) mod 256 = y" if "y < 256" for X y :: nat
    using that by simp_all
  have e: "(256 * (256 * (256 * a + b) + c) + d) div 256 = 256 * (256 * a + b) + c"
    "(256 * (256 * a + b) + c) div 256 = 256 * a + b" "(256 * a + b) div 256 = a"
    "(256 * (256 * (256 * a + b) + c) + d) mod 256 = d"
    "(256 * (256 * a + b) + c) mod 256 = c" "(256 * a + b) mod 256 = b"
    using b d1 by blast+
  have div: "n div 65536 = n div 256 div 256" "n div 16777216 = n div 256 div 256 div 256" for n :: nat
    by (simp_all add: div_mult2_eq [symmetric])
  show ?thesis unfolding octets_def Let_def u div e by (rule os [symmetric])
qed

lemma those_Some_D: "those (map f xs) = Some ys \<Longrightarrow> list_all2 (\<lambda>x y. f x = Some y) xs ys"
  by (induction xs arbitrary: ys) (auto split: option.splits)

lemma ipv4_text_parse: "parse_ipv4 s = Some a \<Longrightarrow> ipv4_text a = s"
proof -
  assume "parse_ipv4 s = Some a"
  then obtain os where len: "length (split_on CHR ''.'' s) = 4"
    and os: "those (map parse_octet (split_on CHR ''.'' s)) = Some os" and a: "a = of_octets os"
    by (auto simp: parse_ipv4_def Let_def split: if_splits)
  from os have l2: "list_all2 (\<lambda>x y. parse_octet x = Some y) (split_on CHR ''.'' s) os"
    by (rule those_Some_D)
  then have "map nat_str os = split_on CHR ''.'' s"
    by (induction rule: list_all2_induct) (auto dest: parse_octet_text)
  moreover have "octets a = os"
  proof -
    have "k < 256" if "k \<in> set os" for k
      using l2 that by (auto simp: list_all2_conv_all_nth in_set_conv_nth dest: parse_octet_text)
    moreover have "length os = 4" using l2 len by (simp add: list_all2_lengthD)
    ultimately show ?thesis using a octets_of_octets by blast
  qed
  ultimately show ?thesis by (simp add: ipv4_text_def join_split_on)
qed


section \<open>Networks\<close>

definition host_mask :: "nat \<Rightarrow> ipv4" where
  "host_mask p = mask (32 - p)"

definition network_wf :: "ipv4_network \<Rightarrow> bool" where
  "network_wf n \<longleftrightarrow> prefixlen n \<le> 32 \<and> net_addr n AND host_mask (prefixlen n) = 0"

definition broadcast_address :: "ipv4_network \<Rightarrow> ipv4" where
  "broadcast_address n = net_addr n OR host_mask (prefixlen n)"

definition network_text :: "ipv4_network \<Rightarrow> string" where
  "network_text n = ipv4_text (net_addr n) @ ''/'' @ nat_str (prefixlen n)"

definition network_addrs :: "ipv4_network \<Rightarrow> ipv4 set" where
  "network_addrs n = {a. a AND NOT (host_mask (prefixlen n)) = net_addr n}"

text \<open>The prefix part: a decimal length, else a netmask, else a host mask.\<close>

definition prefix_of_length :: "string \<Rightarrow> nat option" where
  "prefix_of_length s =
     (if s \<noteq> [] \<and> list_all is_digit s \<and> nat_val s \<le> 32 then Some (nat_val s) else None)"

definition prefix_of_netmask :: "ipv4 \<Rightarrow> nat option" where
  "prefix_of_netmask m = List.find (\<lambda>p. m = NOT (host_mask p)) [0..<33]"

definition prefix_of_mask_text :: "string \<Rightarrow> nat option" where
  "prefix_of_mask_text s =
     (case parse_ipv4 s of None \<Rightarrow> None
      | Some m \<Rightarrow>
          (case prefix_of_netmask m of Some p \<Rightarrow> Some p
           | None \<Rightarrow> prefix_of_netmask (NOT m)))"

definition make_netmask :: "string \<Rightarrow> nat option" where
  "make_netmask s = (case prefix_of_length s of Some p \<Rightarrow> Some p | None \<Rightarrow> prefix_of_mask_text s)"

text \<open>\<open>IPv4Network(text, strict)\<close>: \<open>None\<close> is the \<open>ValueError\<close>.\<close>

definition make_network :: "bool \<Rightarrow> ipv4 \<Rightarrow> nat \<Rightarrow> ipv4_network option" where
  "make_network strict a p =
     (let masked = a AND NOT (host_mask p) in
      if strict \<and> masked \<noteq> a then None
      else Some \<lparr>net_addr = masked, prefixlen = p\<rparr>)"

definition parse_network :: "bool \<Rightarrow> string \<Rightarrow> ipv4_network option" where
  "parse_network strict s =
     (case split_on CHR ''/'' s of
        [addr] \<Rightarrow> (case parse_ipv4 addr of None \<Rightarrow> None | Some a \<Rightarrow> make_network strict a 32)
      | [addr, m] \<Rightarrow>
          (case parse_ipv4 addr of None \<Rightarrow> None
           | Some a \<Rightarrow> (case make_netmask m of None \<Rightarrow> None | Some p \<Rightarrow> make_network strict a p))
      | _ \<Rightarrow> None)"

lemma prefix_of_netmask_le: "prefix_of_netmask m = Some p \<Longrightarrow> p \<le> 32 \<and> m = NOT (host_mask p)"
  by (auto simp: prefix_of_netmask_def dest!: find_Some_D)

lemma make_netmask_le: "make_netmask s = Some p \<Longrightarrow> p \<le> 32"
  by (auto simp: make_netmask_def prefix_of_length_def prefix_of_mask_text_def
      dest: prefix_of_netmask_le split: option.splits if_splits)

lemma and_not_host_mask_and [simp]: "(a AND NOT (host_mask p)) AND host_mask p = 0"
  by (rule bit_word_eqI) (simp add: bit_and_iff bit_not_iff)

lemma make_network_wf: "p \<le> 32 \<Longrightarrow> make_network strict a p = Some n \<Longrightarrow> network_wf n"
  using and_not_host_mask_and [of a p]
  by (auto simp: make_network_def network_wf_def Let_def simp del: and_not_host_mask_and split: if_splits)

lemma make_network_32_wf: "make_network strict a 32 = Some n \<Longrightarrow> network_wf n"
  by (rule make_network_wf) simp_all

lemma parse_network_wf: "parse_network strict s = Some n \<Longrightarrow> network_wf n"
  by (auto simp: parse_network_def dest: make_network_wf make_network_32_wf make_netmask_le
      split: list.splits option.splits)

lemma network_text_inj:
  assumes "network_text m = network_text n"
  shows "net_addr m = net_addr n \<and> prefixlen m = prefixlen n"
proof -
  have noslash: "CHR ''/'' \<notin> set (ipv4_text a)" for a
  proof -
    have "set (join ''.'' ts) \<subseteq> insert CHR ''.'' (\<Union> (set ` set ts))" for ts
      by (induction ts rule: induct_list012) auto
    moreover have "CHR ''/'' \<notin> set (nat_str k)" for k
      using nat_str_digits [of "CHR ''/''" k] by (auto simp: is_digit_def code_def)
    ultimately show ?thesis unfolding ipv4_text_def by fastforce
  qed
  from arg_cong [OF assms, of "split_on CHR ''/''"]
  have "ipv4_text (net_addr m) # split_on CHR ''/'' (nat_str (prefixlen m))
      = ipv4_text (net_addr n) # split_on CHR ''/'' (nat_str (prefixlen n))"
    by (simp add: network_text_def split_on_append noslash)
  then have "ipv4_text (net_addr m) = ipv4_text (net_addr n)" by simp
  with assms show ?thesis by (simp add: network_text_def)
qed

text \<open>
  The addresses of a network form the interval from its address to its broadcast address.
  Both are read through \<open>drop_bit\<close>: clearing the host bits is dividing by a power of two.
\<close>

lemma and_not_host_mask: "a AND NOT (host_mask p) = push_bit (32 - p) (drop_bit (32 - p) a)"
  by (rule bit_word_eqI) (auto simp: host_mask_def bit_simps)

lemma uint_host_mask: "uint (host_mask p) = 2 ^ (32 - p) - 1"
proof -
  have "host_mask p = take_bit (32 - p) (- 1)"
    by (simp add: host_mask_def take_bit_minus_one_eq_mask)
  moreover have "take_bit (32 - p) (mask 32 :: int) = mask (32 - p)"
  proof -
    have "take_bit (32 - p) (take_bit 32 (- 1 :: int)) = take_bit (32 - p) (- 1)"
      by (simp only: take_bit_take_bit min_absorb1 diff_le_self)
    then show ?thesis by (simp only: take_bit_minus_one_eq_mask)
  qed
  ultimately show ?thesis
    by (simp only: unsigned_take_bit_eq unsigned_minus_1_eq_mask) (simp add: mask_eq_exp_minus_1)
qed

lemma uint_and_not_host_mask:
  "uint (a AND NOT (host_mask p)) = 2 ^ (32 - p) * (uint a div 2 ^ (32 - p))"
proof -
  have le: "2 ^ (32 - p) * (uint a div 2 ^ (32 - p)) \<le> uint a"
    by (simp add: minus_mod_eq_mult_div [symmetric])
  have lt: "uint a < 2 ^ 32" using unsigned_less [of a] by simp
  have t: "take_bit 32 (uint a) = uint a"
    using lt by (intro take_bit_int_eq_self) simp_all
  have "take_bit 32 (2 ^ (32 - p) * (uint a div 2 ^ (32 - p)))
      = 2 ^ (32 - p) * (uint a div 2 ^ (32 - p))"
  proof (rule take_bit_int_eq_self)
    show "0 \<le> 2 ^ (32 - p) * (uint a div 2 ^ (32 - p))"
      by (simp add: pos_imp_zdiv_nonneg_iff)
    show "2 ^ (32 - p) * (uint a div 2 ^ (32 - p)) < 2 ^ 32"
      using le lt by (rule order.strict_trans1)
  qed
  moreover have "uint (push_bit (32 - p) (drop_bit (32 - p) a))
      = take_bit 32 (2 ^ (32 - p) * (uint a div 2 ^ (32 - p)))"
    by (subst unsigned_push_bit_eq, subst unsigned_drop_bit_eq)
      (simp add: t push_bit_eq_mult drop_bit_eq_div mult.commute)
  ultimately show ?thesis by (simp only: and_not_host_mask)
qed


lemma div_eq_interval:
  fixes a M q :: int
  assumes "0 < M"
  shows "a div M = q \<longleftrightarrow> M * q \<le> a \<and> a < M * q + M"
proof
  assume "a div M = q"
  moreover have "a = M * (a div M) + a mod M" by simp
  moreover have "0 \<le> a mod M" "a mod M < M" using assms by simp_all
  ultimately show "M * q \<le> a \<and> a < M * q + M" by auto
next
  assume "M * q \<le> a \<and> a < M * q + M"
  then show "a div M = q"
    by (intro int_div_pos_eq [of a M q "a - M * q"]) auto
qed

lemma network_interval:
  assumes "network_wf n"
  shows "a \<in> network_addrs n \<longleftrightarrow> uint (net_addr n) \<le> uint a \<and> uint a \<le> uint (broadcast_address n)"
proof -
  let ?k = "32 - prefixlen n" and ?N = "uint (net_addr n)"
  have "net_addr n AND NOT (host_mask (prefixlen n)) = net_addr n"
  proof (rule bit_word_eqI)
    fix i
    have "\<not> bit (net_addr n AND host_mask (prefixlen n)) i"
      using assms by (simp add: network_wf_def)
    then show "bit (net_addr n AND NOT (host_mask (prefixlen n))) i = bit (net_addr n) i"
      if "i < LENGTH(32)" using that by (auto simp: bit_and_iff bit_not_iff)
  qed
  then have N: "2 ^ ?k * (?N div 2 ^ ?k) = ?N" by (metis uint_and_not_host_mask)
  let ?q = "?N div 2 ^ ?k"
  have "broadcast_address n = net_addr n + host_mask (prefixlen n)"
    using assms unfolding network_wf_def broadcast_address_def by (simp add: disjunctive_add_eq_or)
  moreover have "uint (net_addr n) + uint (host_mask (prefixlen n)) < 2 ^ 32"
  proof -
    have "?N < 2 ^ 32" using unsigned_less [of "net_addr n"] by simp
    moreover have "(2 :: int) ^ 32 = 2 ^ ?k * 2 ^ (32 - ?k)" by (simp flip: power_add)
    ultimately have "2 ^ ?k * ?q < 2 ^ ?k * (2 ^ (32 - ?k) :: int)" using N by simp
    then have "?q + 1 \<le> 2 ^ (32 - ?k)" by simp
    then have "2 ^ ?k * (?q + 1) \<le> 2 ^ ?k * (2 ^ (32 - ?k) :: int)" by (intro mult_left_mono) simp_all
    then have "?N + 2 ^ ?k \<le> 2 ^ 32" using N \<open>(2 :: int) ^ 32 = _\<close> by (simp add: distrib_left)
    then show ?thesis by (simp add: uint_host_mask)
  qed
  ultimately have B: "uint (broadcast_address n) = ?N + 2 ^ ?k - 1"
    using uint_add_lem [of "net_addr n" "host_mask (prefixlen n)"] by (simp add: uint_host_mask)
  have "a \<in> network_addrs n \<longleftrightarrow> 2 ^ ?k * (uint a div 2 ^ ?k) = ?N"
    by (simp add: network_addrs_def uint_and_not_host_mask flip: word_uint_eq_iff)
      (metis uint_and_not_host_mask word_uint_eq_iff)
  also have "\<dots> \<longleftrightarrow> uint a div 2 ^ ?k = ?q" using N by (metis mult_cancel_left power_not_zero zero_neq_numeral)
  also have "\<dots> \<longleftrightarrow> 2 ^ ?k * ?q \<le> uint a \<and> uint a < 2 ^ ?k * ?q + 2 ^ ?k"
    by (rule div_eq_interval) simp
  finally show ?thesis unfolding B N by auto
qed

end
