(* ===== verification/Errors.thy ===== *)
theory Errors
  imports Py_Text
begin

text \<open>
  Exceptions of the program, each with its message, and the text of a UUID in messages.  The
  classes of \<open>src/src/app/core/errors\<close> and of the modules' \<open>errors\<close> packages are the
  constructors; an error of the SD-WAN API client or of the HTTP transport is a
  \<open>GatewayError\<close>, a violated constraint of the database an \<open>IntegrityError\<close> with the name of
  the table, and a value that its column's type refuses a \<open>DataError\<close> with the name of the table
  (whichever class of the driver reports it; it is not an \<open>IntegrityError\<close>).
\<close>

datatype exc =
    ValueError string
  | TypeError string
  | KeyError string
  | IndexError string
  | SDWANAddressGroupResolutionError string
  | RuleValueNormalizationError string
  | ExecuteModuleError string
  | ExecuteNotFoundError string
  | ExecuteConflictError string
  | ExecuteDomainValidationError string
  | MappingDomainValidationError string
  | MappingNotFoundError string
  | GatewayError string
  | MappingModuleError string
  | CanonicalNotFoundError string
  | IntegrityError string
  | DataError string
  | ImportsDomainValidationError string
  | SourceArtifactNotFoundError string
  | RecursionError string
  | TraceModuleValidationError string

fun exc_text :: "exc \<Rightarrow> string" where
  "exc_text (ValueError s) = s"
| "exc_text (TypeError s) = s"
| "exc_text (KeyError s) = s"
| "exc_text (IndexError s) = s"
| "exc_text (SDWANAddressGroupResolutionError s) = s"
| "exc_text (RuleValueNormalizationError s) = s"
| "exc_text (ExecuteModuleError s) = s"
| "exc_text (ExecuteNotFoundError s) = s"
| "exc_text (ExecuteConflictError s) = s"
| "exc_text (ExecuteDomainValidationError s) = s"
| "exc_text (MappingDomainValidationError s) = s"
| "exc_text (MappingNotFoundError s) = s"
| "exc_text (GatewayError s) = s"
| "exc_text (MappingModuleError s) = s"
| "exc_text (CanonicalNotFoundError s) = s"
| "exc_text (IntegrityError s) = s"
| "exc_text (DataError s) = s"
| "exc_text (ImportsDomainValidationError s) = s"
| "exc_text (SourceArtifactNotFoundError s) = s"
| "exc_text (RecursionError s) = s"
| "exc_text (TraceModuleValidationError s) = s"

fun exc_name :: "exc \<Rightarrow> string" where
  "exc_name (ValueError s) = ''ValueError''"
| "exc_name (TypeError s) = ''TypeError''"
| "exc_name (KeyError s) = ''KeyError''"
| "exc_name (IndexError s) = ''IndexError''"
| "exc_name (SDWANAddressGroupResolutionError s) = ''SDWANAddressGroupResolutionError''"
| "exc_name (RuleValueNormalizationError s) = ''RuleValueNormalizationError''"
| "exc_name (ExecuteModuleError s) = ''ExecuteModuleError''"
| "exc_name (ExecuteNotFoundError s) = ''NotFoundError''"
| "exc_name (ExecuteConflictError s) = ''ConflictError''"
| "exc_name (ExecuteDomainValidationError s) = ''DomainValidationError''"
| "exc_name (MappingDomainValidationError s) = ''DomainValidationError''"
| "exc_name (MappingNotFoundError s) = ''NotFoundError''"
| "exc_name (GatewayError s) = ''SDWANCspHttpError''"
| "exc_name (MappingModuleError s) = ''MappingModuleError''"
| "exc_name (CanonicalNotFoundError s) = ''CanonicalModuleNotFoundError''"
| "exc_name (IntegrityError s) = ''IntegrityError''"
| "exc_name (DataError s) = ''DataError''"
| "exc_name (ImportsDomainValidationError s) = ''DomainValidationError''"
| "exc_name (SourceArtifactNotFoundError s) = ''SourceArtifactNotFoundError''"
| "exc_name (RecursionError s) = ''RecursionError''"
| "exc_name (TraceModuleValidationError s) = ''TraceModuleValidationError''"

text \<open>\<open>str(uuid)\<close>: 32 hexadecimal digits in groups of 8, 4, 4, 4 and 12.\<close>

definition hex_digit :: "nat \<Rightarrow> char" where
  "hex_digit d = char_of (if d < 10 then 48 + d else 87 + d)"

definition hex_digits :: "nat \<Rightarrow> nat \<Rightarrow> string" where
  "hex_digits w n = map (\<lambda>i. hex_digit (n div 16 ^ i mod 16)) (rev [0..<w])"

definition uuid_text :: "uuid \<Rightarrow> string" where
  "uuid_text u =
     (let h = hex_digits 32 u in
      take 8 h @ ''-'' @ take 4 (drop 8 h) @ ''-'' @ take 4 (drop 12 h) @ ''-'' @
      take 4 (drop 16 h) @ ''-'' @ drop 20 h)"

end
