(* ===== verification/Sdwan_Models.thy ===== *)
theory Sdwan_Models
  imports Json_Hash Ipv4 Errors
begin

text \<open>
  The SD-WAN catalog: zones, services, address objects, networks and device objects of
  \<open>src/src/app/integrations/sdwan_csp_api/gateways/models.py\<close> and its enums, with the checks of
  their \<open>__post_init__\<close> and the fingerprint of a full catalog.

  The fingerprint does not depend on the order in which the catalog API lists its entries
  (\<open>get_fingerprint_perm\<close>), and, where SHA-256 does not collide, equal fingerprints mean
  equal zones, whatever their order (\<open>get_fingerprint_zones\<close>).
\<close>

section \<open>Enums\<close>

datatype sdwan_zone_type = ZT_LAN | ZT_WAN | ZT_WGD | ZT_WGRA

fun zone_type_value :: "sdwan_zone_type \<Rightarrow> string" where
  "zone_type_value ZT_LAN = ''lan''"
| "zone_type_value ZT_WAN = ''wan''"
| "zone_type_value ZT_WGD = ''wgd''"
| "zone_type_value ZT_WGRA = ''wgra''"

datatype sdwan_l4_proto = L4_TCP | L4_UDP | L4_ICMP | L4_ANY | L4_IP_IP

fun l4_proto_value :: "sdwan_l4_proto \<Rightarrow> string" where
  "l4_proto_value L4_TCP = ''tcp''"
| "l4_proto_value L4_UDP = ''udp''"
| "l4_proto_value L4_ICMP = ''icmp''"
| "l4_proto_value L4_ANY = ''any''"
| "l4_proto_value L4_IP_IP = ''ip_ip''"

datatype sdwan_addr_type = AT_PREFIX | AT_HOST | AT_FQDN | AT_IP_RANGE | AT_NETWORK | AT_ADDR_GROUP

fun addr_type_value :: "sdwan_addr_type \<Rightarrow> string" where
  "addr_type_value AT_PREFIX = ''prefix''"
| "addr_type_value AT_HOST = ''host''"
| "addr_type_value AT_FQDN = ''fqdn''"
| "addr_type_value AT_IP_RANGE = ''ip_range''"
| "addr_type_value AT_NETWORK = ''network''"
| "addr_type_value AT_ADDR_GROUP = ''addr_group''"

datatype sdwan_device_type = DT_DEVICE | DT_GROUP

datatype sdwan_rule_priority = RP_LOCAL | RP_PRE | RP_POST

lemma zone_type_value_inj [simp]: "zone_type_value a = zone_type_value b \<longleftrightarrow> a = b"
  by (cases a; cases b) simp_all

lemma l4_proto_value_inj [simp]: "l4_proto_value a = l4_proto_value b \<longleftrightarrow> a = b"
  by (cases a; cases b) simp_all

lemma addr_type_value_inj [simp]: "addr_type_value a = addr_type_value b \<longleftrightarrow> a = b"
  by (cases a; cases b) simp_all


section \<open>Catalog entries\<close>

record sdwan_zone =
  zn_id :: int
  zn_zone_id :: int
  zn_name :: string
  zn_type :: sdwan_zone_type

record sdwan_service =
  sv_id :: int
  sv_name :: string
  sv_l4_proto :: sdwan_l4_proto
  sv_ranges :: "(int \<times> int) list option"
  sv_codes :: "string list option"

record sdwan_addr_object =
  ao_id :: int
  ao_parents :: "int list"
  ao_name :: string
  ao_type :: sdwan_addr_type
  ao_network_id :: "string option"
  ao_network :: "ipv4_network option"
  ao_prefix :: "ipv4_network option"
  ao_host :: "ipv4 option"
  ao_fqdn :: "string option"
  ao_ip_range_from :: "ipv4 option"
  ao_ip_range_to :: "ipv4 option"
  ao_addr_group :: "int option"

record sdwan_network =
  nw_network_id :: string
  nw_net :: ipv4_network

record sdwan_device_object =
  dv_dev_obj_id :: string
  dv_name :: string
  dv_type :: sdwan_device_type
  dv_cpe_id :: "string option"

record sdwan_full_catalog =
  fc_zones :: "sdwan_zone list"
  fc_services :: "sdwan_service list"
  fc_addr_objs :: "sdwan_addr_object list"
  fc_networks :: "sdwan_network list"

text \<open>An optional list is falsy when it is \<open>None\<close> or empty.\<close>

definition falsy_list :: "'a list option \<Rightarrow> bool" where
  "falsy_list xs \<longleftrightarrow> xs = None \<or> xs = Some []"

lemma falsy_list_simps [simp]: "falsy_list None" "falsy_list (Some xs) \<longleftrightarrow> xs = []"
  by (simp_all add: falsy_list_def)

definition service_post_init :: "sdwan_service \<Rightarrow> exc + sdwan_service" where
  "service_post_init s =
     (if (sv_l4_proto s = L4_TCP \<or> sv_l4_proto s = L4_UDP) \<and> falsy_list (sv_ranges s)
      then Inl (ValueError ''TCP/UDP addr obj must have ranges'')
      else if sv_l4_proto s = L4_ICMP \<and> falsy_list (sv_codes s)
      then Inl (ValueError ''ICMP addr obj must have codes'')
      else Inr s)"

definition addr_object_post_init :: "sdwan_addr_object \<Rightarrow> exc + sdwan_addr_object" where
  "addr_object_post_init a =
     (if ao_type a = AT_NETWORK \<and> (ao_network_id a = None \<or> ao_network a = None)
      then Inl (ValueError ''Network addr obj must have network net and network_id'')
      else if ao_type a = AT_PREFIX \<and> ao_prefix a = None
      then Inl (ValueError ''Prefix addr obj must have prefix net'')
      else if ao_type a = AT_HOST \<and> ao_host a = None
      then Inl (ValueError ''Host addr obj must have host address'')
      else if ao_type a = AT_FQDN \<and> ao_fqdn a = None
      then Inl (ValueError ''FQDN addr obj must have fqdn string'')
      else if ao_type a = AT_IP_RANGE \<and> (ao_ip_range_from a = None \<or> ao_ip_range_to a = None)
      then Inl (ValueError ''IP Range addr obj must have from and to values'')
      else Inr a)"

definition device_object_post_init :: "sdwan_device_object \<Rightarrow> exc + sdwan_device_object" where
  "device_object_post_init d =
     (if dv_type d = DT_GROUP \<and> dv_cpe_id d \<noteq> None
      then Inl (ValueError ''Device Group can't have cpe_id'')
      else if dv_type d = DT_DEVICE \<and> dv_cpe_id d = None
      then Inl (ValueError ''Device must have cpe_id'')
      else Inr d)"

text \<open>What the constructors guarantee of every value that exists.\<close>

definition service_ok :: "sdwan_service \<Rightarrow> bool" where
  "service_ok s \<longleftrightarrow> service_post_init s = Inr s"

definition addr_object_ok :: "sdwan_addr_object \<Rightarrow> bool" where
  "addr_object_ok a \<longleftrightarrow> addr_object_post_init a = Inr a"

lemma service_ok_ranges:
  "service_ok s \<Longrightarrow> sv_l4_proto s = L4_TCP \<or> sv_l4_proto s = L4_UDP \<Longrightarrow>
     \<exists>r rs. sv_ranges s = Some (r # rs)"
  by (cases "sv_ranges s")
    (auto simp: service_ok_def service_post_init_def neq_Nil_conv split: if_splits)

lemma addr_object_ok_fields:
  assumes "addr_object_ok a"
  shows "ao_type a = AT_NETWORK \<Longrightarrow> ao_network a \<noteq> None"
    and "ao_type a = AT_PREFIX \<Longrightarrow> ao_prefix a \<noteq> None"
    and "ao_type a = AT_HOST \<Longrightarrow> ao_host a \<noteq> None"
    and "ao_type a = AT_FQDN \<Longrightarrow> ao_fqdn a \<noteq> None"
    and "ao_type a = AT_IP_RANGE \<Longrightarrow> ao_ip_range_from a \<noteq> None \<and> ao_ip_range_to a \<noteq> None"
  using assms by (auto simp: addr_object_ok_def addr_object_post_init_def split: if_splits)


section \<open>The fingerprint\<close>

definition opt_val :: "('a \<Rightarrow> pyval) \<Rightarrow> 'a option \<Rightarrow> pydata" where
  "opt_val f x = DVal (case x of None \<Rightarrow> PNone | Some v \<Rightarrow> f v)"

definition zone_data :: "sdwan_zone \<Rightarrow> pydata" where
  "zone_data z = DDict
     [(''id'', DVal (PInt (zn_id z))), (''zone_id'', DVal (PInt (zn_zone_id z))),
      (''name'', DVal (PStr (zn_name z))), (''type'', DVal (PStr (zone_type_value (zn_type z))))]"

definition service_data :: "sdwan_service \<Rightarrow> pydata" where
  "service_data s = DDict
     [(''id'', DVal (PInt (sv_id s))), (''name'', DVal (PStr (sv_name s))),
      (''l4_proto'', DVal (PStr (l4_proto_value (sv_l4_proto s)))),
      (''ranges'', case sv_ranges s of None \<Rightarrow> DVal PNone
         | Some rs \<Rightarrow> DList (map (\<lambda>(a, b). DList [DVal (PInt a), DVal (PInt b)]) rs)),
      (''codes'', case sv_codes s of None \<Rightarrow> DVal PNone
         | Some cs \<Rightarrow> DList (map (\<lambda>c. DVal (PStr c)) cs))]"

definition addr_object_data :: "sdwan_addr_object \<Rightarrow> pydata" where
  "addr_object_data a = DDict
     [(''id'', DVal (PInt (ao_id a))),
      (''parents'', DList (map (\<lambda>p. DVal (PInt p)) (ao_parents a))),
      (''name'', DVal (PStr (ao_name a))),
      (''type'', DVal (PStr (addr_type_value (ao_type a)))),
      (''network_id'', opt_val PStr (ao_network_id a)),
      (''network'', opt_val (PStr \<circ> network_text) (ao_network a)),
      (''prefix'', opt_val (PStr \<circ> network_text) (ao_prefix a)),
      (''host'', opt_val (PStr \<circ> ipv4_text) (ao_host a)),
      (''fqdn'', opt_val PStr (ao_fqdn a)),
      (''ip_range_from'', opt_val (PStr \<circ> ipv4_text) (ao_ip_range_from a)),
      (''ip_range_to'', opt_val (PStr \<circ> ipv4_text) (ao_ip_range_to a)),
      (''addr_group'', opt_val PInt (ao_addr_group a))]"

definition network_data :: "sdwan_network \<Rightarrow> pydata" where
  "network_data n = DDict
     [(''network_id'', DVal (PStr (nw_network_id n))), (''net'', DVal (PStr (network_text (nw_net n))))]"

definition catalog_data :: "sdwan_full_catalog \<Rightarrow> pydata" where
  "catalog_data c = DDict
     [(''zones'', DList (map zone_data (fc_zones c))),
      (''services'', DList (map service_data (fc_services c))),
      (''addr_objects'', DList (map addr_object_data (fc_addr_objs c))),
      (''networks'', DList (map network_data (fc_networks c)))]"

definition get_fingerprint :: "(string \<Rightarrow> string) \<Rightarrow> sdwan_full_catalog \<Rightarrow> string" where
  "get_fingerprint sha c = json_hash sha (catalog_data c)"

lemma zone_data_wf [simp]: "dict_wf (zone_data z)"
  by (simp add: zone_data_def)

lemma service_data_wf [simp]: "dict_wf (service_data s)"
  by (auto simp: service_data_def split: option.split)

lemma addr_object_data_wf [simp]: "dict_wf (addr_object_data a)"
  by (simp add: addr_object_data_def opt_val_def)

lemma network_data_wf [simp]: "dict_wf (network_data n)"
  by (simp add: network_data_def)

lemma catalog_data_wf [simp]: "dict_wf (catalog_data c)"
  by (simp add: catalog_data_def)

lemma tree_of_zone_data_inj [simp]: "tree_of (zone_data x) = tree_of (zone_data y) \<longleftrightarrow> x = y"
proof
  assume eq: "tree_of (zone_data x) = tree_of (zone_data y)"
  let ?m = "\<lambda>z. case tree_of (zone_data z) of UObj m \<Rightarrow> m"
  from eq have "?m x k = ?m y k" for k by simp
  from this [of "''id''"] this [of "''zone_id''"] this [of "''name''"] this [of "''type''"]
  show "x = y" by (simp add: zone_data_def)
qed simp

lemma catalog_tree_perm:
  assumes "mset (fc_zones c) = mset (fc_zones d)" "mset (fc_services c) = mset (fc_services d)"
    "mset (fc_addr_objs c) = mset (fc_addr_objs d)" "mset (fc_networks c) = mset (fc_networks d)"
  shows "tree_of (catalog_data c) = tree_of (catalog_data d)"
  using assms by (simp add: catalog_data_def)

lemma get_fingerprint_perm:
  assumes "mset (fc_zones c) = mset (fc_zones d)" "mset (fc_services c) = mset (fc_services d)"
    "mset (fc_addr_objs c) = mset (fc_addr_objs d)" "mset (fc_networks c) = mset (fc_networks d)"
  shows "get_fingerprint sha c = get_fingerprint sha d"
proof -
  have "normalize (catalog_data c) = normalize (catalog_data d)"
    using catalog_tree_perm [OF assms] by (simp add: normalize_eq_iff)
  then show ?thesis by (simp add: get_fingerprint_def json_hash_def)
qed

lemma get_fingerprint_zones:
  assumes "no_collision sha (catalog_data c) (catalog_data d)"
    and "get_fingerprint sha c = get_fingerprint sha d"
  shows "mset (fc_zones c) = mset (fc_zones d)"
proof -
  have "tree_of (catalog_data c) = tree_of (catalog_data d)"
    using assms json_hash_iff [of "catalog_data c" "catalog_data d" sha]
    by (simp add: get_fingerprint_def)
  then have "(case tree_of (catalog_data c) of UObj m \<Rightarrow> m ''zones'')
      = (case tree_of (catalog_data d) of UObj m \<Rightarrow> m ''zones'')" by simp
  then have "image_mset (tree_of \<circ> zone_data) (mset (fc_zones c))
      = image_mset (tree_of \<circ> zone_data) (mset (fc_zones d))"
    by (simp add: catalog_data_def)
  moreover have "inj (tree_of \<circ> zone_data)" by (simp add: inj_def)
  ultimately show ?thesis by (metis injD multiset.inj_map)
qed

end
