(* ===== verification/Csp_Client.thy ===== *)
theory Csp_Client
  imports Sdwan_Models
begin

text \<open>
  The SD-WAN CSP API client: the response and request schemas of
  \<open>src/src/app/integrations/sdwan_csp_api/schemas.py\<close> (the fields the program reads) with
  their validators, and the reading operations of \<open>client.py\<close>: cursor pagination, local
  filtering by id, splitting of long filters into chunks.

  The server behind the HTTP requester is a parameter: \<open>csp_api\<close> holds one function per
  endpoint, from the state of the server and the request to the validated response or an
  exception.  Pagination runs as long as the server hands out new cursors, so it is a
  \<open>partial_function\<close>: \<open>None\<close> is a run that never returns.  It returns whenever the cursors
  come from a finite set (\<open>fetch_loop_returns\<close>); a result has exactly as many entries as
  every page announced (\<open>fetch_all_length\<close>) and consists of the chained pages
  (\<open>fetch_loop_chain\<close>).
\<close>

section \<open>Schemas\<close>

record zone_response =
  zr_id :: int
  zr_zone_id :: int
  zr_name :: string
  zr_typ :: string

record service_response =
  sp_id :: int
  sp_name :: string
  sp_l4_proto :: sdwan_l4_proto
  sp_ranges :: "(int \<times> int) list option"
  sp_codes :: "string list option"

datatype addr_object_data =
    PrefixData string
  | HostData string
  | FqdnData string
  | IpRangeData string string
  | NetworkData string
  | AddrGroupData int

record addr_object_response =
  ar_id :: int
  ar_parents :: "int list"
  ar_name :: string
  ar_data :: addr_object_data

record network_response =
  nwr_network_id :: string
  nwr_net :: "string option"

record device_object_response =
  dor_dev_obj_id :: string
  dor_parent_dev_obj_ids :: "string list"
  dor_type :: sdwan_device_type
  dor_name :: string
  dor_cpe :: "string option"

datatype csp_rule_action = CSP_ACCEPT | CSP_REJECT | CSP_DROP

datatype addr_object_kind = AK_PREFIX | AK_HOST | AK_FQDN | AK_IP_RANGE | AK_NETWORK | AK_ADDR_GROUP

record addr_object_ref =
  arf_type :: addr_object_kind
  arf_id :: int

record policy_response =
  por_policy_id :: int
  por_parents :: "string list"
  por_order :: string
  por_priority :: sdwan_rule_priority
  por_name :: string
  por_description :: string
  por_tags :: "string list"
  por_activated :: bool
  por_action :: csp_rule_action
  por_log :: bool
  por_l4_inspection :: bool
  por_ambiguous :: bool
  por_ambiguous_reason :: "(int \<times> pydata) option"
  por_created_at :: string
  por_updated_at :: string
  por_snat :: "pydata option"
  por_dnat :: "pydata option"
  por_ingress_zone :: "int list"
  por_egress_zone :: "int list"
  por_src_address :: "addr_object_ref list"
  por_dst_address :: "addr_object_ref list"
  por_service :: "int list"
  por_src_idents :: "pydata list"
  por_dst_idents :: "pydata list"

record create_policy_request =
  cpr_name :: string
  cpr_description :: string
  cpr_tags :: "string list"
  cpr_activated :: bool
  cpr_action :: csp_rule_action
  cpr_log :: bool
  cpr_l4_inspection :: bool
  cpr_ingress_zone :: "int list"
  cpr_egress_zone :: "int list"
  cpr_src_address :: "int list"
  cpr_dst_address :: "int list"
  cpr_service :: "int list"
  cpr_parent :: string
  cpr_parent_type :: sdwan_device_type
  cpr_priority :: sdwan_rule_priority

record commit_data_response =
  cdr_commit_id :: int
  cdr_name :: string
  cdr_description :: string

record 'a api_page =
  pg_data :: "'a list"
  pg_total :: int
  pg_next_page :: "string option"

text \<open>Validators: a value that fails them is never built.\<close>

definition validate_range :: "int \<times> int \<Rightarrow> exc + int \<times> int" where
  "validate_range r =
     (if \<not> (0 \<le> fst r \<and> fst r \<le> 65535 \<and> 0 \<le> snd r \<and> snd r \<le> 65535) then
        Inl (ValueError ''Input should be greater than or equal to 0 and less than or equal to 65535'')
      else if fst r > snd r then Inl (ValueError ''start must be <= end'') else Inr r)"

definition validate_service :: "service_response \<Rightarrow> exc + service_response" where
  "validate_service s =
     (if (sp_l4_proto s = L4_TCP \<or> sp_l4_proto s = L4_UDP) \<and> sp_codes s \<noteq> None
      then Inl (ValueError ''tcp/udp service must not have icmp codes'')
      else if (sp_l4_proto s = L4_TCP \<or> sp_l4_proto s = L4_UDP) \<and> sp_ranges s = None
      then Inl (ValueError ''tcp/udp service must have port ranges'')
      else if sp_l4_proto s = L4_ICMP \<and> sp_ranges s \<noteq> None
      then Inl (ValueError ''icmp service must not have port ranges'')
      else if sp_l4_proto s = L4_ICMP \<and> sp_codes s = None
      then Inl (ValueError ''icmp service must have icmp codes'')
      else Inr s)"

definition validate_priority :: "create_policy_request \<Rightarrow> exc + create_policy_request" where
  "validate_priority p =
     (if cpr_parent_type p = DT_DEVICE \<and> cpr_priority p \<noteq> RP_LOCAL
      then Inl (ValueError ''Policies for DEVICE can be placed only in LOCAL placements'')
      else if cpr_parent_type p = DT_GROUP \<and> \<not> (cpr_priority p = RP_PRE \<or> cpr_priority p = RP_POST)
      then Inl (ValueError ''Policies for GROUP can be placed only in PRE, POST placements'')
      else Inr p)"

lemma validate_priority_iff:
  "(\<exists>q. validate_priority p = Inr q) \<longleftrightarrow>
     (if cpr_parent_type p = DT_DEVICE then cpr_priority p = RP_LOCAL else cpr_priority p \<noteq> RP_LOCAL)"
  by (cases "cpr_parent_type p"; cases "cpr_priority p") (simp_all add: validate_priority_def)


section \<open>The server\<close>

record 'w csp_api =
  api_zones :: "'w \<Rightarrow> int option \<Rightarrow> exc + zone_response list \<times> int"
  api_services_page :: "'w \<Rightarrow> string option \<Rightarrow> exc + service_response api_page"
  api_addr_objects_page :: "'w \<Rightarrow> string option \<Rightarrow> string option \<Rightarrow> exc + addr_object_response api_page"
  api_networks :: "'w \<Rightarrow> int option \<Rightarrow> exc + network_response list \<times> int"
  api_device_objects :: "'w \<Rightarrow> string option \<Rightarrow> exc + device_object_response list"
  api_policies_page :: "'w \<Rightarrow> string list option \<Rightarrow> string option \<Rightarrow> string option \<Rightarrow>
    exc + policy_response api_page"
  api_create_policy :: "'w \<Rightarrow> create_policy_request \<Rightarrow> (exc + int) \<times> 'w"
  api_make_commit :: "'w \<Rightarrow> string \<Rightarrow> string \<Rightarrow> (exc + int) \<times> 'w"
  api_commit_info :: "'w \<Rightarrow> int \<Rightarrow> exc + commit_data_response"


section \<open>Cursor pagination\<close>

partial_function (option) fetch_loop ::
  "string \<Rightarrow> string \<Rightarrow> (string option \<Rightarrow> exc + 'a api_page) \<Rightarrow> string option \<Rightarrow> int option \<Rightarrow>
   string list \<Rightarrow> 'a list \<Rightarrow> (exc + 'a list) option" where
  "fetch_loop cap what page cursor expected seen acc =
     (case page cursor of
        Inl e \<Rightarrow> Some (Inl e)
      | Inr p \<Rightarrow>
          (let total = (case expected of None \<Rightarrow> pg_total p | Some t \<Rightarrow> t); acc' = acc @ pg_data p in
           if pg_total p \<noteq> total then
             Some (Inl (GatewayError (cap @ '' total changed during pagination: expected '' @
               int_str total @ '', got '' @ int_str (pg_total p))))
           else case pg_next_page p of
             None \<Rightarrow>
               Some (if int (length acc') \<noteq> total then
                       Inl (GatewayError (''Incomplete '' @ what @ '' response: expected '' @
                         int_str total @ '', got '' @ int_str (int (length acc'))))
                     else Inr acc')
           | Some c \<Rightarrow>
               if c \<in> set seen then
                 Some (Inl (GatewayError (cap @ '' pagination returned a repeated cursor'')))
               else fetch_loop cap what page (Some c) (Some total) (c # seen) acc'))"

declare fetch_loop.simps [code]

definition fetch_all_services :: "'w csp_api \<Rightarrow> 'w \<Rightarrow> (exc + service_response list) option" where
  "fetch_all_services api w =
     fetch_loop ''Services'' ''services'' (\<lambda>c. api_services_page api w c) None None [] []"

definition fetch_all_addr_objects ::
  "'w csp_api \<Rightarrow> 'w \<Rightarrow> string option \<Rightarrow> (exc + addr_object_response list) option" where
  "fetch_all_addr_objects api w query =
     fetch_loop ''Address objects'' ''address objects'' (\<lambda>c. api_addr_objects_page api w query c) None None [] []"

definition fetch_all_policies ::
  "'w csp_api \<Rightarrow> 'w \<Rightarrow> string list option \<Rightarrow> string option \<Rightarrow> (exc + policy_response list) option" where
  "fetch_all_policies api w parents query =
     fetch_loop ''Policies'' ''policies'' (\<lambda>c. api_policies_page api w parents query c) None None [] []"

text \<open>A page chain: what the pages from \<open>cursor\<close> on announce and hold.\<close>

inductive page_chain ::
  "(string option \<Rightarrow> exc + 'a api_page) \<Rightarrow> string option \<Rightarrow> int \<Rightarrow> 'a list \<Rightarrow> string list \<Rightarrow> bool"
  for page where
  last: "page cursor = Inr p \<Longrightarrow> pg_total p = tot \<Longrightarrow> pg_next_page p = None \<Longrightarrow>
    page_chain page cursor tot (pg_data p) []"
| more: "page cursor = Inr p \<Longrightarrow> pg_total p = tot \<Longrightarrow> pg_next_page p = Some c \<Longrightarrow>
    page_chain page (Some c) tot xs cs \<Longrightarrow> page_chain page cursor tot (pg_data p @ xs) (c # cs)"

lemma fetch_loop_chain:
  assumes "page_chain page cursor tot xs cs" "distinct cs" "set cs \<inter> set seen = {}"
    "expected = None \<or> expected = Some tot" "int (length (acc @ xs)) = tot"
  shows "fetch_loop cap what page cursor expected seen acc = Some (Inr (acc @ xs))"
  using assms
proof (induction arbitrary: expected seen acc rule: page_chain.induct)
  case (last cursor p tot)
  then show ?case
    by (subst fetch_loop.simps) (auto simp: Let_def)
next
  case (more cursor p tot c xs cs)
  have "fetch_loop cap what page (Some c) (Some tot) (c # seen) (acc @ pg_data p)
      = Some (Inr ((acc @ pg_data p) @ xs))"
    using more.prems by (intro more.IH) auto
  with more show ?case
    by (subst fetch_loop.simps) (auto simp: Let_def)
qed

lemma fetch_loop_sound:
  fixes page :: "string option \<Rightarrow> exc + 'a api_page"
  assumes "fetch_loop cap what page cursor expected seen acc = Some (Inr ys)"
  shows "\<exists>tot xs cs. page_chain page cursor tot xs cs \<and> ys = acc @ xs \<and>
    int (length ys) = tot \<and> (expected = None \<or> expected = Some tot) \<and>
    distinct cs \<and> set cs \<inter> set seen = {}"
proof -
  let ?P = "\<lambda>(cap :: string) (what :: string) (page :: string option \<Rightarrow> exc + 'a api_page) cursor expected seen acc (r :: exc + 'a list). \<forall>ys. r = Inr ys \<longrightarrow>
    (\<exists>tot xs cs. page_chain page cursor tot xs cs \<and> ys = acc @ xs \<and>
      int (length ys) = tot \<and> (expected = None \<or> expected = Some tot) \<and>
      distinct cs \<and> set cs \<inter> set seen = {})"
  have "?P cap what page cursor expected seen acc (Inr ys)"
  proof (rule fetch_loop.raw_induct [where P = ?P, OF _ assms])
    fix f :: "string \<Rightarrow> string \<Rightarrow> (string option \<Rightarrow> exc + 'a api_page) \<Rightarrow> string option \<Rightarrow> int option \<Rightarrow>
      string list \<Rightarrow> 'a list \<Rightarrow> (exc + 'a list) option"
    fix cap what page cursor expected seen acc r
    assume IH: "\<And>cap what page cursor expected seen acc r.
        f cap what page cursor expected seen acc = Some r \<Longrightarrow> ?P cap what page cursor expected seen acc r"
      and body: "(case page cursor of
        Inl e \<Rightarrow> Some (Inl e)
      | Inr p \<Rightarrow>
          (let tot = (case expected of None \<Rightarrow> pg_total p | Some t \<Rightarrow> t); acc' = acc @ pg_data p in
           if pg_total p \<noteq> tot then
             Some (Inl (GatewayError (cap @ '' total changed during pagination: expected '' @
               int_str tot @ '', got '' @ int_str (pg_total p))))
           else case pg_next_page p of
             None \<Rightarrow>
               Some (if int (length acc') \<noteq> tot then
                       Inl (GatewayError (''Incomplete '' @ what @ '' response: expected '' @
                         int_str tot @ '', got '' @ int_str (int (length acc'))))
                     else Inr acc')
           | Some c \<Rightarrow>
               if c \<in> set seen then
                 Some (Inl (GatewayError (cap @ '' pagination returned a repeated cursor'')))
               else f cap what page (Some c) (Some tot) (c # seen) acc')) = Some r"
    show "?P cap what page cursor expected seen acc r"
    proof (intro allI impI)
      fix zs assume r: "r = Inr zs"
      obtain p where p: "page cursor = Inr p" using body r by (cases "page cursor") auto
      define tot where "tot = (case expected of None \<Rightarrow> pg_total p | Some t \<Rightarrow> t)"
      have teq: "pg_total p = tot" "expected = None \<or> expected = Some tot"
        using body r p by (auto simp: Let_def tot_def split: if_splits option.splits)
      show "\<exists>tot xs cs. page_chain page cursor tot xs cs \<and> zs = acc @ xs \<and>
        int (length zs) = tot \<and> (expected = None \<or> expected = Some tot) \<and>
        distinct cs \<and> set cs \<inter> set seen = {}"
      proof (cases "pg_next_page p")
        case None
        have "zs = acc @ pg_data p \<and> int (length zs) = tot"
          using body r p None teq by (auto simp: Let_def split: if_splits option.splits)
        moreover have "page_chain page cursor tot (pg_data p) []"
          using p teq(1) None by (rule page_chain.last)
        moreover have "distinct ([] :: string list)" "set [] \<inter> set seen = {}" by simp_all
        ultimately show ?thesis using teq(2) by blast
      next
        case (Some c)
        have c: "c \<notin> set seen"
          and f: "f cap what page (Some c) (Some tot) (c # seen) (acc @ pg_data p) = Some (Inr zs)"
          using body r p Some teq by (auto simp: Let_def split: if_splits option.splits)
        from IH [OF f, THEN spec, THEN mp, OF refl] obtain tot' xs cs
          where ch': "page_chain page (Some c) tot' xs cs" "zs = (acc @ pg_data p) @ xs"
            "int (length zs) = tot'" "Some tot = None \<or> Some tot = Some tot'"
            "distinct cs" "set cs \<inter> set (c # seen) = {}" by (elim exE conjE)
        then have ch: "page_chain page (Some c) tot xs cs"
          and zs: "zs = (acc @ pg_data p) @ xs" "int (length zs) = tot"
          and cs: "distinct cs" "set cs \<inter> set (c # seen) = {}" by simp_all
        have "page_chain page cursor tot (pg_data p @ xs) (c # cs)"
          using p teq(1) Some ch by (rule page_chain.more)
        moreover have "distinct (c # cs)" "set (c # cs) \<inter> set seen = {}" using c cs by auto
        ultimately show ?thesis using zs teq(2) append.assoc by blast
      qed
    qed
  qed
  then show ?thesis by simp
qed

text \<open>Termination: with finitely many cursors the loop returns.\<close>

lemma fetch_loop_returns:
  assumes "finite C" "\<And>cursor p c. page cursor = Inr p \<Longrightarrow> pg_next_page p = Some c \<Longrightarrow> c \<in> C"
  shows "\<exists>r. fetch_loop cap what page cursor expected seen acc = Some r"
proof (induction "card (C - set seen)" arbitrary: cursor expected seen acc rule: less_induct)
  case less
  show ?case
  proof (cases "page cursor")
    case (Inl e)
    then show ?thesis by (subst fetch_loop.simps) simp
  next
    case (Inr p)
    show ?thesis
    proof (cases "pg_next_page p")
      case None
      with Inr show ?thesis by (subst fetch_loop.simps) (auto simp: Let_def)
    next
      case (Some c)
      show ?thesis
      proof (cases "c \<in> set seen")
        case True
        with Inr Some show ?thesis by (subst fetch_loop.simps) (auto simp: Let_def)
      next
        case False
        have "c \<in> C" using assms(2) Inr Some by blast
        then have "card (C - set (c # seen)) < card (C - set seen)"
          using False assms(1) by (intro psubset_card_mono) auto
        from less [OF this] have "\<exists>r. fetch_loop cap what page (Some c) (Some t) (c # seen) a = Some r" for t a
          by blast
        with Inr Some False show ?thesis by (subst fetch_loop.simps) (auto simp: Let_def)
      qed
    qed
  qed
qed

lemma fetch_all_length:
  assumes "fetch_loop cap what page None None [] [] = Some (Inr ys)" "page None = Inr p"
  shows "int (length ys) = pg_total p"
proof -
  from fetch_loop_sound [OF assms(1)] obtain tot xs cs
    where "page_chain page None tot xs cs" "int (length ys) = tot" by auto
  with assms(2) show ?thesis by (auto elim: page_chain.cases)
qed


section \<open>Operations of the client\<close>

text \<open>Sequencing of calls that may raise and may not return.\<close>

type_synonym 'a result = "(exc + 'a) option"

definition bind_o :: "'a result \<Rightarrow> ('a \<Rightarrow> 'b result) \<Rightarrow> 'b result" where
  "bind_o m f = (case m of None \<Rightarrow> None | Some (Inl e) \<Rightarrow> Some (Inl e) | Some (Inr x) \<Rightarrow> f x)"

lemma bind_o_simps [simp]:
  "bind_o None f = None" "bind_o (Some (Inl e)) f = Some (Inl e)" "bind_o (Some (Inr x)) f = f x"
  by (simp_all add: bind_o_def)

lemma bind_o_Inr: "bind_o m f = Some (Inr y) \<longleftrightarrow> (\<exists>x. m = Some (Inr x) \<and> f x = Some (Inr y))"
  by (auto simp: bind_o_def split: option.splits sum.splits)

fun gather :: "('a \<Rightarrow> 'b result) \<Rightarrow> 'a list \<Rightarrow> 'b list result" where
  "gather f [] = Some (Inr [])"
| "gather f (x # xs) = bind_o (f x) (\<lambda>y. bind_o (gather f xs) (\<lambda>ys. Some (Inr (y # ys))))"

lemma gather_set: "gather f xs = Some (Inr ys) \<Longrightarrow> set ys = {y. \<exists>x \<in> set xs. f x = Some (Inr y)}"
  by (induction xs arbitrary: ys) (auto simp: bind_o_Inr)

lemma gather_Inr: "(\<And>x. x \<in> set xs \<Longrightarrow> f x = Some (Inr (g x))) \<Longrightarrow> gather f xs = Some (Inr (map g xs))"
  by (induction xs) simp_all

definition YAQL_FILTERS_LIMIT :: nat where
  "YAQL_FILTERS_LIMIT = 50"

function chunks_of :: "nat \<Rightarrow> 'a list \<Rightarrow> 'a list list" where
  "chunks_of n xs = (if xs = [] \<or> n = 0 then [] else take n xs # chunks_of n (drop n xs))"
  by pat_completeness auto
termination by (relation "measure (\<lambda>(n, xs). length xs)") auto

declare chunks_of.simps [simp del]

lemma concat_chunks: "0 < n \<Longrightarrow> concat (chunks_of n xs) = xs"
proof (induction n xs rule: chunks_of.induct)
  case (1 n xs)
  then show ?case by (subst chunks_of.simps) simp
qed

lemma chunks_length: "c \<in> set (chunks_of n xs) \<Longrightarrow> 0 < length c \<and> length c \<le> n"
proof (induction n xs rule: chunks_of.induct)
  case (1 n xs)
  from "1.prems" show ?case
    by (subst (asm) chunks_of.simps) (use "1.IH" in \<open>auto split: if_splits\<close>)
qed

definition falsy_ids :: "'a list option \<Rightarrow> bool" where
  "falsy_ids ids \<longleftrightarrow> falsy_list ids"

definition fetch_all_zones :: "'w csp_api \<Rightarrow> 'w \<Rightarrow> exc + zone_response list" where
  "fetch_all_zones api w =
     bind_r (api_zones api w None) (\<lambda>(zs, total).
       if total > int (length zs) then bind_r (api_zones api w (Some total)) (\<lambda>(zs', _). Inr zs')
       else Inr zs)"

definition client_get_zones :: "'w csp_api \<Rightarrow> 'w \<Rightarrow> int list option \<Rightarrow> exc + zone_response list" where
  "client_get_zones api w ids =
     bind_r (fetch_all_zones api w) (\<lambda>zs.
       if falsy_ids ids then Inr zs else Inr (filter (\<lambda>z. zr_id z \<in> set (the ids)) zs))"

definition client_get_services ::
  "'w csp_api \<Rightarrow> 'w \<Rightarrow> int list option \<Rightarrow> service_response list result" where
  "client_get_services api w ids =
     bind_o (fetch_all_services api w) (\<lambda>ss.
       if falsy_ids ids then Some (Inr ss)
       else Some (Inr (filter (\<lambda>s. sp_id s \<in> set (the ids)) ss)))"

definition parents_query :: "int list \<Rightarrow> string" where
  "parents_query ids = join '' or '' (map (\<lambda>p. ''parents = ('' @ int_str p @ '')'') ids)"

definition dedup_last :: "('a \<Rightarrow> 'k) \<Rightarrow> 'a list \<Rightarrow> 'a list" where
  "dedup_last f xs = map snd (dict_of f xs)"

definition client_get_addr_objects ::
  "'w csp_api \<Rightarrow> 'w \<Rightarrow> int list option \<Rightarrow> int list option \<Rightarrow> addr_object_response list result" where
  "client_get_addr_objects api w ids parents_ids =
     bind_o
       (if \<not> falsy_ids parents_ids then
          bind_o (gather (\<lambda>chunk. fetch_all_addr_objects api w (Some (parents_query chunk)))
              (chunks_of YAQL_FILTERS_LIMIT (distinct_by id (the parents_ids))))
            (\<lambda>chunks. Some (Inr (dedup_last ar_id (concat chunks))))
        else fetch_all_addr_objects api w None)
       (\<lambda>objs. Some (Inr (if falsy_ids ids then objs
                          else filter (\<lambda>a. ar_id a \<in> set (the ids)) objs)))"

definition fetch_all_networks :: "'w csp_api \<Rightarrow> 'w \<Rightarrow> exc + network_response list" where
  "fetch_all_networks api w =
     bind_r (api_networks api w None) (\<lambda>(ns, total).
       if total > int (length ns) then bind_r (api_networks api w (Some total)) (\<lambda>(ns', _). Inr ns')
       else Inr ns)"

definition client_get_networks ::
  "'w csp_api \<Rightarrow> 'w \<Rightarrow> string list option \<Rightarrow> exc + network_response list" where
  "client_get_networks api w ids =
     bind_r (fetch_all_networks api w) (\<lambda>ns.
       if falsy_ids ids then Inr ns
       else Inr (filter (\<lambda>n. nwr_network_id n \<in> set (the ids)) ns))"

definition client_get_device_objects ::
  "'w csp_api \<Rightarrow> 'w \<Rightarrow> string option \<Rightarrow> exc + device_object_response list" where
  "client_get_device_objects api w dev_obj_id =
     api_device_objects api w (if dev_obj_id = Some [] then None else dev_obj_id)"

definition client_get_policies ::
  "'w csp_api \<Rightarrow> 'w \<Rightarrow> string option \<Rightarrow> policy_response list result" where
  "client_get_policies api w dev_obj_id =
     (case dev_obj_id of
        None \<Rightarrow> fetch_all_policies api w None None
      | Some d \<Rightarrow>
          (case client_get_device_objects api w (Some d) of
             Inl e \<Rightarrow> Some (Inl e)
           | Inr [] \<Rightarrow> Some (Inl (GatewayError
               (''Device object '' @ py_repr (PStr d) @ '' was not found'')))
           | Inr (o1 # _) \<Rightarrow>
               fetch_all_policies api w (Some (dor_parent_dev_obj_ids o1 @ [d])) None))"

definition policy_ids_query :: "int list \<Rightarrow> string" where
  "policy_ids_query ids = ''policy_id = ('' @ join '' '' (map int_str ids) @ '')''"

text \<open>\<open>list(set(ids))\<close> lists the ids in some order; the model keeps the first occurrences.\<close>

definition client_get_policies_by_ids ::
  "'w csp_api \<Rightarrow> 'w \<Rightarrow> int list \<Rightarrow> policy_response list result" where
  "client_get_policies_by_ids api w ids =
     (if ids = [] then Some (Inr [])
      else bind_o (gather (\<lambda>chunk. fetch_all_policies api w None (Some (policy_ids_query chunk)))
             (chunks_of YAQL_FILTERS_LIMIT (distinct_by id ids)))
           (\<lambda>chunks. Some (Inr (concat chunks))))"


section \<open>Filtering and merging\<close>

lemma keys_update: "map fst (AList.update k v d) = (if k \<in> fst ` set d then map fst d else map fst d @ [k])"
  by (induction d) auto

lemma dict_of_fold_keys:
  "distinct (map fst d) \<Longrightarrow> distinct (map fst (foldl (\<lambda>d x. AList.update (f x) x d) d xs)) \<and>
    fst ` set (foldl (\<lambda>d x. AList.update (f x) x d) d xs) = fst ` set d \<union> f ` set xs"
proof (induction xs arbitrary: d)
  case Nil
  then show ?case by simp
next
  case (Cons x xs)
  have "distinct (map fst (AList.update (f x) x d))" using Cons.prems by (simp add: distinct_update)
  moreover have "fst ` set (AList.update (f x) x d) = insert (f x) (fst ` set d)"
    by (metis list.set_map keys_update list.set(2) insert_absorb list.simps(15) rotate1.simps(2) set_rotate1)
  ultimately show ?case using Cons.IH [of "AList.update (f x) x d"] by auto
qed

lemma dict_of_keys: "distinct (map fst (dict_of f xs))" "fst ` set (dict_of f xs) = f ` set xs"
  using dict_of_fold_keys [of "[]" f xs] by (simp_all add: dict_of_def)

lemma dict_of_entry: "(k, x) \<in> set (dict_of f xs) \<Longrightarrow> f x = k \<and> x \<in> set xs"
  using dict_of_Some_D [of f xs k x] dict_of_keys(1) [of f xs] by (simp add: map_of_eq_Some_iff)

lemma dedup_last_keys:
  "distinct (map f (dedup_last f xs))" "f ` set (dedup_last f xs) = f ` set xs"
  "set (dedup_last f xs) \<subseteq> set xs"
proof -
  have eq: "map f (dedup_last f xs) = map fst (dict_of f xs)"
    using dict_of_entry by (force simp: dedup_last_def)
  then show "distinct (map f (dedup_last f xs))" by (simp add: dict_of_keys)
  show "f ` set (dedup_last f xs) = f ` set xs"
    using arg_cong [OF eq, of set] by (simp add: dict_of_keys)
  show "set (dedup_last f xs) \<subseteq> set xs"
    using dict_of_entry by (force simp: dedup_last_def)
qed

lemma dedup_last_set:
  assumes "inj_on f (set xs)"
  shows "set (dedup_last f xs) = set xs"
proof
  show "set (dedup_last f xs) \<subseteq> set xs" by (rule dedup_last_keys)
  show "set xs \<subseteq> set (dedup_last f xs)"
  proof
    fix x assume x: "x \<in> set xs"
    then obtain y where y: "y \<in> set (dedup_last f xs)" "f y = f x"
      using dedup_last_keys(2) [of f xs] by (metis (no_types) image_iff)
    then have "y = x" using assms x dedup_last_keys(3) [of f xs] by (auto dest: inj_onD)
    with y show "x \<in> set (dedup_last f xs)" by simp
  qed
qed

text \<open>
  Filtering by parents returns each object id once, whatever combinations of parents the server
  listed it with.
\<close>

lemma client_get_addr_objects_distinct:
  assumes "client_get_addr_objects api w ids (Some ps) = Some (Inr objs)" "ps \<noteq> []"
  shows "distinct (map ar_id objs)"
proof -
  obtain xs where "objs = (if falsy_ids ids then dedup_last ar_id xs
      else filter (\<lambda>a. ar_id a \<in> set (the ids)) (dedup_last ar_id xs))"
    using assms by (auto simp: client_get_addr_objects_def bind_o_Inr falsy_ids_def)
  then show ?thesis using dedup_last_keys(1) by (auto intro: distinct_map_filter)
qed

text \<open>
  What the server promises of a filter by parents: for a query of at most as many parents as one query
  may have, its pages hold the rows of its table \<open>db\<close> that have one of the parents.  A row is an object
  with some of its parents; an object may have several rows.
\<close>

definition serves_parents :: "'w csp_api \<Rightarrow> 'w \<Rightarrow> addr_object_response list \<Rightarrow> bool" where
  "serves_parents api w db \<longleftrightarrow>
     (\<forall>chunk. chunk \<noteq> [] \<and> length chunk \<le> YAQL_FILTERS_LIMIT \<longrightarrow>
        (\<exists>objs. fetch_all_addr_objects api w (Some (parents_query chunk)) = Some (Inr objs) \<and>
           set objs = {a \<in> set db. set (ar_parents a) \<inter> set chunk \<noteq> {}}))"

text \<open>The client merges the chunks to one row per id.\<close>

lemma client_get_addr_objects_parents:
  assumes "serves_parents api w db" "ps \<noteq> []"
  shows "\<exists>objs. client_get_addr_objects api w None (Some ps) = Some (Inr objs) \<and> distinct (map ar_id objs) \<and>
    set objs \<subseteq> {a \<in> set db. set (ar_parents a) \<inter> set ps \<noteq> {}} \<and>
    ar_id ` set objs = ar_id ` {a \<in> set db. set (ar_parents a) \<inter> set ps \<noteq> {}}"
proof -
  let ?f = "\<lambda>chunk. fetch_all_addr_objects api w (Some (parents_query chunk))"
  let ?cs = "chunks_of YAQL_FILTERS_LIMIT (distinct_by id ps)"
  have ne: "c \<noteq> [] \<and> length c \<le> YAQL_FILTERS_LIMIT" if "c \<in> set ?cs" for c using chunks_length [OF that] by auto
  define g where "g = (\<lambda>c. projr (the (?f c)))"
  have g: "?f c = Some (Inr (g c)) \<and> set (g c) = {a \<in> set db. set (ar_parents a) \<inter> set c \<noteq> {}}"
    if "c \<noteq> [] \<and> length c \<le> YAQL_FILTERS_LIMIT" for c
    using assms(1) that unfolding serves_parents_def g_def by fastforce
  have ga: "gather ?f ?cs = Some (Inr (map g ?cs))"
    by (rule gather_Inr) (use g ne in blast)
  have un: "(\<Union>c \<in> set ?cs. set c) = set ps"
  proof -
    have "set (concat ?cs) = set (distinct_by id ps)"
      by (simp add: concat_chunks YAQL_FILTERS_LIMIT_def)
    then show ?thesis using distinct_by_keys [of id ps] by simp
  qed
  have set: "set (concat (map g ?cs)) = {a \<in> set db. set (ar_parents a) \<inter> set ps \<noteq> {}}"
  proof -
    have "set (concat (map g ?cs)) = (\<Union>c \<in> set ?cs. {a \<in> set db. set (ar_parents a) \<inter> set c \<noteq> {}})"
      using g ne by simp
    then show ?thesis unfolding un [symmetric] by auto
  qed
  from dedup_last_keys [of ar_id "concat (map g ?cs)"] set ga assms(2)
  show ?thesis by (simp add: client_get_addr_objects_def falsy_ids_def)
qed

end
