(* ===== verification/Catalog_Gateway.thy ===== *)
theory Catalog_Gateway
  imports Csp_Client
begin

text \<open>
  \<open>SDWANCatalogGateway\<close>
  (\<open>src/src/app/integrations/sdwan_csp_api/gateways/catalog.py\<close>): responses of the client are
  converted to catalog models, address groups are expanded level by level through the parents
  filter, networks are joined to the address objects that refer to them.

  Expansion returns exactly the objects within three membership steps of the initial ones, and it
  returns only when there is no deeper group, so the result is closed under membership
  (\<open>expand_groups_closed\<close>).  Every converted object passes the checks of its constructor
  (\<open>convert_addr_objects_ok\<close>).
\<close>

section \<open>Conversions\<close>

definition parse_zone_type :: "string \<Rightarrow> exc + sdwan_zone_type" where
  "parse_zone_type s =
     (if s = ''lan'' then Inr ZT_LAN else if s = ''wan'' then Inr ZT_WAN
      else if s = ''wgd'' then Inr ZT_WGD else if s = ''wgra'' then Inr ZT_WGRA
      else Inl (ValueError (py_repr (PStr s) @ '' is not a valid SdwanZoneType'')))"

lemma parse_zone_type_value [simp]: "parse_zone_type (zone_type_value t) = Inr t"
  by (cases t) (simp_all add: parse_zone_type_def)

definition convert_zone :: "zone_response \<Rightarrow> exc + sdwan_zone" where
  "convert_zone z =
     bind_r (parse_zone_type (zr_typ z)) (\<lambda>t.
       Inr \<lparr>zn_id = zr_id z, zn_zone_id = zr_zone_id z, zn_name = zr_name z, zn_type = t\<rparr>)"

definition convert_service :: "service_response \<Rightarrow> exc + sdwan_service" where
  "convert_service s =
     service_post_init \<lparr>sv_id = sp_id s, sv_name = sp_name s, sv_l4_proto = sp_l4_proto s,
       sv_ranges = sp_ranges s, sv_codes = sp_codes s\<rparr>"

text \<open>\<open>IPv4Address(s)\<close> and \<open>IPv4Network(s)\<close>; the text of their errors is the library's.\<close>

definition ipv4_address :: "string \<Rightarrow> exc + ipv4" where
  "ipv4_address s = (case parse_ipv4 s of None \<Rightarrow> Inl (ValueError s) | Some a \<Rightarrow> Inr a)"

definition ipv4_network_of :: "string \<Rightarrow> exc + ipv4_network" where
  "ipv4_network_of s = (case parse_network True s of None \<Rightarrow> Inl (ValueError s) | Some n \<Rightarrow> Inr n)"

fun convert_networks :: "network_response list \<Rightarrow> exc + sdwan_network list" where
  "convert_networks [] = Inr []"
| "convert_networks (n # ns) =
     (case nwr_net n of
        None \<Rightarrow> convert_networks ns
      | Some t \<Rightarrow>
          bind_r (ipv4_network_of t) (\<lambda>net.
          bind_r (convert_networks ns) (\<lambda>rest.
            Inr (\<lparr>nw_network_id = nwr_network_id n, nw_net = net\<rparr> # rest))))"

definition convert_device_object :: "device_object_response \<Rightarrow> exc + sdwan_device_object" where
  "convert_device_object d =
     device_object_post_init
       \<lparr>dv_dev_obj_id = dor_dev_obj_id d, dv_name = dor_name d, dv_type = dor_type d,
        dv_cpe_id = dor_cpe d\<rparr>"

definition blank_addr_object :: "addr_object_response \<Rightarrow> sdwan_addr_type \<Rightarrow> sdwan_addr_object" where
  "blank_addr_object a t =
     \<lparr>ao_id = ar_id a, ao_parents = ar_parents a, ao_name = ar_name a, ao_type = t,
      ao_network_id = None, ao_network = None, ao_prefix = None, ao_host = None, ao_fqdn = None,
      ao_ip_range_from = None, ao_ip_range_to = None, ao_addr_group = None\<rparr>"

text \<open>A network object whose network has no prefix is skipped (\<open>None\<close>).\<close>

definition convert_addr_object ::
  "(string \<times> sdwan_network) list \<Rightarrow> addr_object_response \<Rightarrow> exc + sdwan_addr_object option" where
  "convert_addr_object networks_by_id a =
     (case ar_data a of
        HostData h \<Rightarrow>
          bind_r (ipv4_address h) (\<lambda>x. bind_r
            (addr_object_post_init ((blank_addr_object a AT_HOST)\<lparr>ao_host := Some x\<rparr>)) (\<lambda>o1. Inr (Some o1)))
      | PrefixData p \<Rightarrow>
          bind_r (ipv4_network_of p) (\<lambda>x. bind_r
            (addr_object_post_init ((blank_addr_object a AT_PREFIX)\<lparr>ao_prefix := Some x\<rparr>)) (\<lambda>o1. Inr (Some o1)))
      | FqdnData d \<Rightarrow>
          bind_r (addr_object_post_init ((blank_addr_object a AT_FQDN)\<lparr>ao_fqdn := Some d\<rparr>)) (\<lambda>o1. Inr (Some o1))
      | IpRangeData f t \<Rightarrow>
          bind_r (ipv4_address f) (\<lambda>x. bind_r (ipv4_address t) (\<lambda>y. bind_r
            (addr_object_post_init ((blank_addr_object a AT_IP_RANGE)
               \<lparr>ao_ip_range_from := Some x, ao_ip_range_to := Some y\<rparr>)) (\<lambda>o1. Inr (Some o1))))
      | NetworkData i \<Rightarrow>
          (case map_of networks_by_id i of
             None \<Rightarrow> Inr None
           | Some n \<Rightarrow>
               bind_r (addr_object_post_init ((blank_addr_object a AT_NETWORK)
                 \<lparr>ao_network_id := Some (nw_network_id n), ao_network := Some (nw_net n)\<rparr>)) (\<lambda>o1. Inr (Some o1)))
      | AddrGroupData g \<Rightarrow>
          bind_r (addr_object_post_init ((blank_addr_object a AT_ADDR_GROUP)\<lparr>ao_addr_group := Some g\<rparr>))
            (\<lambda>o1. Inr (Some o1)))"

definition is_group_response :: "addr_object_response \<Rightarrow> bool" where
  "is_group_response a = (case ar_data a of AddrGroupData g \<Rightarrow> True | _ \<Rightarrow> False)"

definition network_ids_of :: "addr_object_response list \<Rightarrow> string list" where
  "network_ids_of objs =
     remdups (concat (map (\<lambda>a. case ar_data a of NetworkData i \<Rightarrow> [i] | _ \<Rightarrow> []) objs))"


section \<open>Reading the catalog\<close>

definition gw_get_zones :: "'w csp_api \<Rightarrow> 'w \<Rightarrow> int list option \<Rightarrow> sdwan_zone list result" where
  "gw_get_zones api w ids =
     (if ids = Some [] then Some (Inr [])
      else Some (bind_r (client_get_zones api w ids) (traverse convert_zone)))"

definition gw_get_services :: "'w csp_api \<Rightarrow> 'w \<Rightarrow> int list option \<Rightarrow> sdwan_service list result" where
  "gw_get_services api w ids =
     (if ids = Some [] then Some (Inr [])
      else bind_o (client_get_services api w ids) (\<lambda>ss. Some (traverse convert_service ss)))"

definition gw_get_networks :: "'w csp_api \<Rightarrow> 'w \<Rightarrow> string list option \<Rightarrow> exc + sdwan_network list" where
  "gw_get_networks api w ids =
     (if ids = Some [] then Inr [] else bind_r (client_get_networks api w ids) convert_networks)"

definition gw_get_device_objects :: "'w csp_api \<Rightarrow> 'w \<Rightarrow> exc + sdwan_device_object list" where
  "gw_get_device_objects api w =
     bind_r (client_get_device_objects api w None) (traverse convert_device_object)"

definition gw_get_device_object ::
  "'w csp_api \<Rightarrow> 'w \<Rightarrow> string \<Rightarrow> exc + sdwan_device_object option" where
  "gw_get_device_object api w i =
     bind_r (client_get_device_objects api w (Some i)) (\<lambda>ds. case ds of
       [] \<Rightarrow> Inr None
     | d # _ \<Rightarrow> bind_r (convert_device_object d) (\<lambda>x. Inr (Some x)))"

text \<open>The key under which a response is kept: its id and its sorted parents.\<close>

type_synonym loaded = "((int \<times> int list) \<times> addr_object_response) list"

definition nesting_key :: "addr_object_response \<Rightarrow> int \<times> int list" where
  "nesting_key a = (ar_id a, sort (ar_parents a))"

definition save_objects :: "loaded \<Rightarrow> addr_object_response list \<Rightarrow> loaded" where
  "save_objects l objs = foldl (\<lambda>l a. AList.update (nesting_key a) a l) l objs"

definition group_ids_of :: "addr_object_response list \<Rightarrow> int list" where
  "group_ids_of objs = map ar_id (filter is_group_response objs)"

definition int_list_text :: "int list \<Rightarrow> string" where
  "int_list_text xs = ''['' @ join '', '' (map int_str xs) @ '']''"

definition MAX_GROUPS_DEPTH :: nat where
  "MAX_GROUPS_DEPTH = 3"

text \<open>The remaining depth counts down; at the last level a nested group is an error.\<close>

fun expand_levels ::
  "(int list \<Rightarrow> addr_object_response list result) \<Rightarrow> nat \<Rightarrow> int list \<Rightarrow> loaded \<Rightarrow> loaded result" where
  "expand_levels children 0 groups l = Some (Inr l)"
| "expand_levels children (Suc n) groups l =
     (if groups = [] then Some (Inr l)
      else bind_o (children groups) (\<lambda>cs.
        if n = 0 \<and> group_ids_of cs \<noteq> [] then
          Some (Inl (ValueError (''Address group nesting depth exceeded. Max depth is '' @
            nat_str MAX_GROUPS_DEPTH @ ''. Nested groups found: '' @ int_list_text (group_ids_of cs))))
        else expand_levels children n (group_ids_of cs) (save_objects l cs)))"

definition expand_groups ::
  "'w csp_api \<Rightarrow> 'w \<Rightarrow> int list option \<Rightarrow> addr_object_response list result" where
  "expand_groups api w initial_ids =
     bind_o (client_get_addr_objects api w initial_ids None) (\<lambda>init.
     bind_o (expand_levels (\<lambda>gs. client_get_addr_objects api w None (Some gs)) MAX_GROUPS_DEPTH
               (group_ids_of init) (save_objects [] init)) (\<lambda>l.
       Some (Inr (map snd l))))"

fun convert_addr_objects ::
  "(string \<times> sdwan_network) list \<Rightarrow> addr_object_response list \<Rightarrow> exc + sdwan_addr_object list" where
  "convert_addr_objects nets [] = Inr []"
| "convert_addr_objects nets (a # as) =
     bind_r (convert_addr_object nets a) (\<lambda>x.
     bind_r (convert_addr_objects nets as) (\<lambda>rest.
       Inr (case x of None \<Rightarrow> rest | Some o1 \<Rightarrow> o1 # rest)))"

definition addr_objects_from_resp ::
  "'w csp_api \<Rightarrow> 'w \<Rightarrow> addr_object_response list \<Rightarrow> exc + sdwan_addr_object list" where
  "addr_objects_from_resp api w objs =
     bind_r (if network_ids_of objs = [] then Inr []
             else gw_get_networks api w (Some (network_ids_of objs))) (\<lambda>nets.
       convert_addr_objects (dict_of nw_network_id nets) objs)"

definition gw_get_addr_objects ::
  "'w csp_api \<Rightarrow> 'w \<Rightarrow> int list option \<Rightarrow> sdwan_addr_object list result" where
  "gw_get_addr_objects api w ids =
     (if ids = Some [] then Some (Inr [])
      else bind_o (expand_groups api w ids) (\<lambda>objs. Some (addr_objects_from_resp api w objs)))"

definition gw_get_full_catalog :: "'w csp_api \<Rightarrow> 'w \<Rightarrow> sdwan_full_catalog result" where
  "gw_get_full_catalog api w =
     bind_o (gw_get_zones api w None) (\<lambda>zs.
     bind_o (gw_get_services api w None) (\<lambda>ss.
     bind_o (gw_get_addr_objects api w None) (\<lambda>objs.
     bind_o (Some (gw_get_networks api w None)) (\<lambda>nets.
       Some (Inr \<lparr>fc_zones = zs, fc_services = ss, fc_addr_objs = objs, fc_networks = nets\<rparr>)))))"


section \<open>Converted entries are well formed\<close>

lemma convert_service_ok: "convert_service s = Inr x \<Longrightarrow> service_ok x"
  by (auto simp: convert_service_def service_ok_def service_post_init_def split: if_splits)

lemma gw_get_services_ok:
  assumes "gw_get_services api w ids = Some (Inr ss)" "s \<in> set ss"
  shows "service_ok s"
proof (cases "ids = Some []")
  case True
  with assms show ?thesis by (simp add: gw_get_services_def)
next
  case False
  then obtain rs where "traverse convert_service rs = Inr ss"
    using assms(1) by (auto simp: gw_get_services_def bind_o_Inr)
  with assms(2) show ?thesis using traverse_set convert_service_ok by blast
qed

lemma post_init_ok: "addr_object_post_init a = Inr b \<Longrightarrow> addr_object_ok b \<and> b = a"
  by (auto simp: addr_object_ok_def addr_object_post_init_def split: if_splits)

lemma convert_addr_object_ok:
  assumes "convert_addr_object nets a = Inr (Some b)"
  shows "addr_object_ok b \<and> ao_id b = ar_id a \<and> ao_parents b = ar_parents a \<and>
    (ao_type b = AT_ADDR_GROUP \<longleftrightarrow> is_group_response a)"
  using assms
  by (auto simp: convert_addr_object_def is_group_response_def blank_addr_object_def bind_r_eq_Inr
      split: addr_object_data.splits option.splits dest!: post_init_ok)

lemma convert_addr_objects_ok:
  assumes "convert_addr_objects nets as = Inr bs"
  shows "\<forall>b \<in> set bs. addr_object_ok b \<and> (\<exists>a \<in> set as. ao_id b = ar_id a \<and> ao_parents b = ar_parents a \<and>
    (ao_type b = AT_ADDR_GROUP \<longleftrightarrow> is_group_response a))"
  using assms
proof (induction as arbitrary: bs)
  case Nil
  then show ?case by simp
next
  case (Cons a as)
  then obtain x rest where x: "convert_addr_object nets a = Inr x"
    and rest: "convert_addr_objects nets as = Inr rest"
    and bs: "bs = (case x of None \<Rightarrow> rest | Some o1 \<Rightarrow> o1 # rest)"
    by (auto simp: bind_r_eq_Inr)
  have ih: "\<forall>b \<in> set rest. addr_object_ok b \<and> (\<exists>a' \<in> set (a # as). ao_id b = ar_id a' \<and>
      ao_parents b = ar_parents a' \<and> (ao_type b = AT_ADDR_GROUP \<longleftrightarrow> is_group_response a'))"
    using Cons.IH [OF rest] by auto
  show ?case
  proof (cases x)
    case None
    with ih bs show ?thesis by simp
  next
    case (Some o1)
    with convert_addr_object_ok x have "addr_object_ok o1 \<and> ao_id o1 = ar_id a \<and>
      ao_parents o1 = ar_parents a \<and> (ao_type o1 = AT_ADDR_GROUP \<longleftrightarrow> is_group_response a)" by blast
    with ih bs Some show ?thesis by auto
  qed
qed


section \<open>Group expansion\<close>

text \<open>Membership in the server's table, and the closure of the initial objects under it.\<close>

definition member_link :: "addr_object_response list \<Rightarrow> addr_object_response \<Rightarrow> addr_object_response \<Rightarrow> bool" where
  "member_link db g a \<longleftrightarrow> is_group_response g \<and> a \<in> set db \<and> ar_id g \<in> set (ar_parents a)"

inductive reached :: "addr_object_response list \<Rightarrow> addr_object_response set \<Rightarrow> addr_object_response \<Rightarrow> bool"
  for db init where
  initial: "a \<in> init \<Longrightarrow> reached db init a"
| member: "reached db init g \<Longrightarrow> member_link db g a \<Longrightarrow> reached db init a"

text \<open>The rows of a table: a row is known by its id and its parents, and the rows of an object agree on
  whether it is a group.\<close>

definition rows_of_objects :: "addr_object_response list \<Rightarrow> bool" where
  "rows_of_objects db \<longleftrightarrow> inj_on nesting_key (set db) \<and>
     (\<forall>a \<in> set db. \<forall>b \<in> set db. ar_id a = ar_id b \<longrightarrow> is_group_response a = is_group_response b)"

definition loaded_ok :: "addr_object_response list \<Rightarrow> loaded \<Rightarrow> bool" where
  "loaded_ok db l \<longleftrightarrow> distinct (map fst l) \<and> (\<forall>(k, a) \<in> set l. k = nesting_key a \<and> a \<in> set db)"

lemma set_update_same: "(\<And>b. (k, b) \<in> set l \<Longrightarrow> b = a) \<Longrightarrow> set (AList.update k a l) = insert (k, a) (set l)"
proof (induction l)
  case Nil
  then show ?case by simp
next
  case (Cons x l)
  obtain k' b where x: "x = (k', b)" by fastforce
  show ?case
  proof (cases "k' = k")
    case True
    with Cons.prems x have "b = a" by auto
    with True x show ?thesis by auto
  next
    case False
    with Cons x show ?thesis by auto
  qed
qed

lemma save_objects_ok:
  assumes "rows_of_objects db" "loaded_ok db l" "set cs \<subseteq> set db"
  shows "loaded_ok db (save_objects l cs) \<and> snd ` set (save_objects l cs) = snd ` set l \<union> set cs"
  using assms(2,3) unfolding save_objects_def
proof (induction cs arbitrary: l)
  case Nil
  then show ?case by simp
next
  case (Cons c cs)
  have same: "b = c" if "(nesting_key c, b) \<in> set l" for b
  proof -
    from that Cons.prems(1) have "nesting_key b = nesting_key c" "b \<in> set db"
      by (auto simp: loaded_ok_def)
    moreover have "c \<in> set db" using Cons.prems(2) by simp
    ultimately show ?thesis using assms(1) by (auto simp: rows_of_objects_def dest: inj_onD)
  qed
  have upd: "set (AList.update (nesting_key c) c l) = insert (nesting_key c, c) (set l)"
    using same by (rule set_update_same)
  then have "loaded_ok db (AList.update (nesting_key c) c l)"
    using Cons.prems by (auto simp: loaded_ok_def distinct_update)
  from Cons.IH [OF this] Cons.prems(2) upd show ?case by auto
qed

definition children_law ::
  "(int list \<Rightarrow> addr_object_response list result) \<Rightarrow> addr_object_response list \<Rightarrow> bool" where
  "children_law ch db \<longleftrightarrow> (\<forall>gs cs. gs \<noteq> [] \<longrightarrow> ch gs = Some (Inr cs) \<longrightarrow>
     set cs \<subseteq> {a \<in> set db. set (ar_parents a) \<inter> set gs \<noteq> {}} \<and>
     ar_id ` set cs = ar_id ` {a \<in> set db. set (ar_parents a) \<inter> set gs \<noteq> {}})"

lemma group_ids_of_iff: "i \<in> set (group_ids_of cs) \<longleftrightarrow> (\<exists>g \<in> set cs. is_group_response g \<and> ar_id g = i)"
  by (auto simp: group_ids_of_def)

lemma expand_levels_closed:
  assumes "rows_of_objects db" "children_law ch db"
    and "expand_levels ch n gs l = Some (Inr l')" "loaded_ok db l" "n = 0 \<Longrightarrow> gs = []"
  shows "loaded_ok db l' \<and> snd ` set l \<subseteq> snd ` set l' \<and>
    ar_id ` {a \<in> set db. set (ar_parents a) \<inter> set gs \<noteq> {}} \<subseteq> ar_id ` snd ` set l' \<and>
    (\<forall>g \<in> snd ` set l' - snd ` set l. \<forall>a. member_link db g a \<longrightarrow> ar_id a \<in> ar_id ` snd ` set l')"
  using assms(3-5)
proof (induction n arbitrary: gs l)
  case 0
  then show ?case by simp
next
  case (Suc n)
  show ?case
  proof (cases "gs = []")
    case True
    with Suc.prems show ?thesis by simp
  next
    case False
    then obtain cs where cs: "ch gs = Some (Inr cs)" "n = 0 \<Longrightarrow> group_ids_of cs = []"
      "expand_levels ch n (group_ids_of cs) (save_objects l cs) = Some (Inr l')"
      using Suc.prems(1) by (auto simp: bind_o_Inr split: if_splits)
    have law: "set cs \<subseteq> {a \<in> set db. set (ar_parents a) \<inter> set gs \<noteq> {}}"
      "ar_id ` set cs = ar_id ` {a \<in> set db. set (ar_parents a) \<inter> set gs \<noteq> {}}"
      using assms(2) False cs(1) by (simp_all add: children_law_def)
    then have sub: "set cs \<subseteq> set db" by blast
    note sv = save_objects_ok [OF assms(1) Suc.prems(2) sub]
    have "n = 0 \<Longrightarrow> group_ids_of cs = []" by (rule cs(2))
    note ih' = Suc.IH [OF cs(3) conjunct1 [OF sv] this, unfolded conjunct2 [OF sv]]
    have ih: "loaded_ok db l'" "snd ` set l \<union> set cs \<subseteq> snd ` set l'"
      "ar_id ` {a \<in> set db. set (ar_parents a) \<inter> set (group_ids_of cs) \<noteq> {}} \<subseteq> ar_id ` snd ` set l'"
      "\<forall>g \<in> snd ` set l' - (snd ` set l \<union> set cs). \<forall>a. member_link db g a \<longrightarrow> ar_id a \<in> ar_id ` snd ` set l'"
      using ih' [THEN conjunct1] ih' [THEN conjunct2, THEN conjunct1]
        ih' [THEN conjunct2, THEN conjunct2, THEN conjunct1]
        ih' [THEN conjunct2, THEN conjunct2, THEN conjunct2] by - assumption+
    have "ar_id a \<in> ar_id ` snd ` set l'" if g: "g \<in> snd ` set l' - snd ` set l" and m: "member_link db g a" for g a
    proof (cases "g \<in> set cs")
      case True
      with m have "ar_id g \<in> set (group_ids_of cs)" "a \<in> set db" "ar_id g \<in> set (ar_parents a)"
        by (auto simp: member_link_def group_ids_of_iff)
      then have "a \<in> {a \<in> set db. set (ar_parents a) \<inter> set (group_ids_of cs) \<noteq> {}}" by blast
      with ih(3) show ?thesis by (metis (no_types, lifting) imageI subsetD)
    next
      case False
      with g m ih(4) show ?thesis by blast
    qed
    then have "\<forall>g \<in> snd ` set l' - snd ` set l. \<forall>a. member_link db g a \<longrightarrow> ar_id a \<in> ar_id ` snd ` set l'"
      by (intro ballI allI impI)
    moreover have "snd ` set l \<subseteq> snd ` set l'" "ar_id ` set cs \<subseteq> ar_id ` snd ` set l'" using ih(2) by auto
    ultimately show ?thesis using ih(1) law(2) by simp
  qed
qed

lemma expand_levels_reached:
  assumes "children_law ch db" "expand_levels ch n gs l = Some (Inr l')"
    and "\<forall>g \<in> set gs. \<exists>x. reached db init x \<and> is_group_response x \<and> ar_id x = g"
    and "\<forall>a \<in> snd ` set l. reached db init a"
  shows "\<forall>a \<in> snd ` set l'. reached db init a"
  using assms(2-4)
proof (induction n arbitrary: gs l)
  case 0
  then show ?case by simp
next
  case (Suc n)
  show ?case
  proof (cases "gs = []")
    case True
    with Suc.prems show ?thesis by simp
  next
    case False
    then obtain cs where cs: "ch gs = Some (Inr cs)"
      "expand_levels ch n (group_ids_of cs) (save_objects l cs) = Some (Inr l')"
      using Suc.prems(1) by (auto simp: bind_o_Inr split: if_splits)
    have set_cs: "set cs \<subseteq> {a \<in> set db. set (ar_parents a) \<inter> set gs \<noteq> {}}"
      using assms(1) False cs(1) by (simp add: children_law_def)
    have r: "reached db init a" if "a \<in> set cs" for a
    proof -
      from that set_cs obtain g where g: "a \<in> set db" "g \<in> set (ar_parents a)" "g \<in> set gs" by blast
      with Suc.prems(2) obtain x where "reached db init x" "is_group_response x" "ar_id x = g" by blast
      with g show ?thesis by (auto simp: member_link_def intro: reached.member)
    qed
    have upd: "snd ` set (AList.update k c d) \<subseteq> insert c (snd ` set d)" for k :: "int \<times> int list"
      and c :: addr_object_response and d
      by (induction d) auto
    have sub: "snd ` set (save_objects d xs) \<subseteq> snd ` set d \<union> set xs" for d xs
      unfolding save_objects_def
    proof (induction xs arbitrary: d)
      case (Cons x xs)
      have "snd ` set (foldl (\<lambda>l a. AList.update (nesting_key a) a l) (AList.update (nesting_key x) x d) xs)
          \<subseteq> snd ` set (AList.update (nesting_key x) x d) \<union> set xs" by (rule Cons.IH)
      also have "\<dots> \<subseteq> insert x (snd ` set d) \<union> set xs" using upd by blast
      finally show ?case by simp
    qed simp
    have "\<forall>g \<in> set (group_ids_of cs). \<exists>x. reached db init x \<and> is_group_response x \<and> ar_id x = g"
      unfolding Ball_def group_ids_of_iff using r by blast
    moreover have "\<forall>a \<in> snd ` set (save_objects l cs). reached db init a"
      using sub [of l cs] r Suc.prems(3) by blast
    ultimately show ?thesis using Suc.IH [OF cs(2)] by blast
  qed
qed

text \<open>What the server promises of the unfiltered listing.\<close>

definition serves_all :: "'w csp_api \<Rightarrow> 'w \<Rightarrow> addr_object_response list \<Rightarrow> bool" where
  "serves_all api w db \<longleftrightarrow>
     (\<exists>objs. fetch_all_addr_objects api w None = Some (Inr objs) \<and> set objs = set db)"

definition initial_objects ::
  "addr_object_response list \<Rightarrow> int list option \<Rightarrow> addr_object_response set" where
  "initial_objects db ids = {a \<in> set db. falsy_ids ids \<or> ar_id a \<in> set (the ids)}"

lemma expand_groups_exact:
  assumes db: "rows_of_objects db" and srv: "serves_parents api w db" "serves_all api w db"
    and res: "expand_groups api w ids = Some (Inr objs)"
  shows "distinct (map nesting_key objs) \<and> initial_objects db ids \<subseteq> set objs \<and>
    set objs \<subseteq> {a. reached db (initial_objects db ids) a} \<and>
    ar_id ` set objs = ar_id ` {a. reached db (initial_objects db ids) a}"
proof -
  let ?ch = "\<lambda>gs. client_get_addr_objects api w None (Some gs)"
  let ?I = "initial_objects db ids"
  have ch: "children_law ?ch db"
    unfolding children_law_def
  proof (intro allI impI)
    fix gs cs assume ne: "gs \<noteq> []" and eq: "?ch gs = Some (Inr cs)"
    from client_get_addr_objects_parents [OF srv(1) ne] eq
    show "set cs \<subseteq> {a \<in> set db. set (ar_parents a) \<inter> set gs \<noteq> {}} \<and>
      ar_id ` set cs = ar_id ` {a \<in> set db. set (ar_parents a) \<inter> set gs \<noteq> {}}" by auto
  qed
  obtain init l where init: "client_get_addr_objects api w ids None = Some (Inr init)"
    and l: "expand_levels ?ch MAX_GROUPS_DEPTH (group_ids_of init) (save_objects [] init) = Some (Inr l)"
    and objs: "objs = map snd l"
    using res by (auto simp: expand_groups_def bind_o_Inr)
  have I: "set init = ?I"
  proof -
    obtain all where all: "fetch_all_addr_objects api w None = Some (Inr all)" "set all = set db"
      using srv(2) unfolding serves_all_def by blast
    have nf: "falsy_ids (None :: int list option)" by (simp add: falsy_ids_def)
    have "init = (if falsy_ids ids then all else filter (\<lambda>a. ar_id a \<in> set (the ids)) all)"
      using init all(1) nf by (simp add: client_get_addr_objects_def)
    with all(2) show ?thesis by (auto simp: initial_objects_def)
  qed
  then have sub: "set init \<subseteq> set db" by (auto simp: initial_objects_def)
  have "loaded_ok db []" by (simp add: loaded_ok_def)
  note sv = save_objects_ok [OF db this sub]
  have cl: "loaded_ok db l" "set init \<subseteq> set objs"
    "ar_id ` {a \<in> set db. set (ar_parents a) \<inter> set (group_ids_of init) \<noteq> {}} \<subseteq> ar_id ` set objs"
    "\<forall>g \<in> set objs - set init. \<forall>a. member_link db g a \<longrightarrow> ar_id a \<in> ar_id ` set objs"
    using expand_levels_closed [OF db ch l] sv by (simp_all add: objs MAX_GROUPS_DEPTH_def)
  have in_db: "set objs \<subseteq> set db" using cl(1) by (auto simp: loaded_ok_def objs)
  have closed: "ar_id a \<in> ar_id ` set objs" if "g \<in> set objs" "member_link db g a" for g a
  proof (cases "g \<in> set init")
    case True
    with that(2) have "ar_id g \<in> set (group_ids_of init)" "a \<in> set db" "ar_id g \<in> set (ar_parents a)"
      by (auto simp: member_link_def group_ids_of_iff)
    then have "a \<in> {a \<in> set db. set (ar_parents a) \<inter> set (group_ids_of init) \<noteq> {}}" by blast
    with cl(3) show ?thesis by (metis (no_types, lifting) imageI subsetD)
  next
    case False
    with that cl(4) show ?thesis by blast
  qed
  have "a \<in> set db \<and> ar_id a \<in> ar_id ` set objs" if "reached db ?I a" for a
    using that
  proof (induction rule: reached.induct)
    case (initial a)
    then show ?case using cl(2) I sub by blast
  next
    case (member g a)
    then obtain g' where g': "g' \<in> set objs" "ar_id g' = ar_id g" by (metis image_iff)
    then have "is_group_response g' = is_group_response g"
      using db member.IH in_db unfolding rows_of_objects_def by blast
    with member.hyps(2) g'(2) have "member_link db g' a" by (simp add: member_link_def)
    with closed [OF g'(1)] member.hyps(2) show ?case by (simp add: member_link_def)
  qed
  moreover have r: "\<forall>a \<in> snd ` set l. reached db ?I a"
  proof (rule expand_levels_reached [OF ch l])
    have r: "reached db ?I a" if "a \<in> set init" for a using that I by (simp add: reached.initial)
    then show "\<forall>g \<in> set (group_ids_of init). \<exists>x. reached db ?I x \<and> is_group_response x \<and> ar_id x = g"
      unfolding Ball_def group_ids_of_iff by blast
    show "\<forall>a \<in> snd ` set (save_objects [] init). reached db ?I a" using sv r by simp
  qed
  moreover have "map nesting_key objs = map fst l" using cl(1) by (auto simp: loaded_ok_def objs)
  then have "distinct (map nesting_key objs)" using cl(1) by (simp add: loaded_ok_def)
  ultimately show ?thesis using cl(2) I by (auto simp: objs)
qed

end
