(* ===== verification/Address_Groups.thy ===== *)
theory Address_Groups
  imports Sdwan_Models
begin

text \<open>
  \<open>SDWANAddressGroupLeavesResolver\<close>
  (\<open>src/src/app/integrations/sdwan_csp_api/gateways/address_group_resolver.py\<close>): an address
  object or group is replaced by its leaf objects by walking the \<open>parents\<close> links of the
  loaded flat catalog, at most three groups deep.

  The specification is the relation \<open>leaf_of\<close>, reachability through group membership.
  Whenever the resolver returns, it returns exactly the leaves (\<open>resolve_leaves_exact\<close>), at
  least one of them; its recursion is bounded by the nesting limit, so a membership cycle ends in
  the nesting error or another one, never in a loop (\<open>resolve_leaves_cycle\<close>).
\<close>

definition MAX_ADDR_GROUP_NESTING_LEVEL :: nat where
  "MAX_ADDR_GROUP_NESTING_LEVEL = 3"

record group_resolver =
  objects_by_id :: "(int \<times> sdwan_addr_object) list"
  children_by_parent :: "(int \<times> sdwan_addr_object list) list"

definition parent_links :: "sdwan_addr_object list \<Rightarrow> (int \<times> sdwan_addr_object) list" where
  "parent_links objs = concat (map (\<lambda>a. map (\<lambda>p. (p, a)) (ao_parents a)) objs)"

definition mk_group_resolver :: "sdwan_addr_object list \<Rightarrow> group_resolver" where
  "mk_group_resolver objs =
     \<lparr>objects_by_id = dict_of ao_id objs,
      children_by_parent =
        foldl (\<lambda>d (p, a). group_append p a d) [] (parent_links objs)\<rparr>"

text \<open>\<open>address_object.addr_group or address_object.id\<close>: zero counts as absent.\<close>

definition group_key :: "sdwan_addr_object \<Rightarrow> int" where
  "group_key a = (case ao_addr_group a of None \<Rightarrow> ao_id a | Some g \<Rightarrow> if g = 0 then ao_id a else g)"

definition opt_int_text :: "int option \<Rightarrow> string" where
  "opt_int_text x = (case x of None \<Rightarrow> ''None'' | Some i \<Rightarrow> int_str i)"

definition nesting_error :: "sdwan_addr_object \<Rightarrow> nat \<Rightarrow> exc" where
  "nesting_error a level = SDWANAddressGroupResolutionError
     (''Address group nesting level exceeded: group object id='' @ int_str (ao_id a) @
      '', group value='' @ opt_int_text (ao_addr_group a) @ '', level='' @ nat_str level @
      '', max_level='' @ nat_str MAX_ADDR_GROUP_NESTING_LEVEL)"

definition children_of :: "group_resolver \<Rightarrow> sdwan_addr_object \<Rightarrow> sdwan_addr_object list" where
  "children_of r a = dict_get (children_by_parent r) (group_key a) []"

function resolve_leaves_at ::
  "group_resolver \<Rightarrow> int \<Rightarrow> nat \<Rightarrow> exc + sdwan_addr_object list" where
  "resolve_leaves_at r i level =
     (case map_of (objects_by_id r) i of
        None \<Rightarrow> Inl (SDWANAddressGroupResolutionError (''Unknown address object id: '' @ int_str i))
      | Some a \<Rightarrow>
          if ao_type a \<noteq> AT_ADDR_GROUP then Inr [a]
          else if level + 1 > MAX_ADDR_GROUP_NESTING_LEVEL then Inl (nesting_error a (level + 1))
          else if children_of r a = [] then
            Inl (SDWANAddressGroupResolutionError
              (''Address group '' @ int_str (group_key a) @ '' has no loaded children''))
          else
            bind_r
              (traverse (\<lambda>c. resolve_leaves_at r (ao_id c) (level + 1))
                (filter (\<lambda>c. ao_id c \<noteq> ao_id a) (children_of r a)))
              (\<lambda>lss. if concat lss = [] then
                 Inl (SDWANAddressGroupResolutionError
                   (''Address group '' @ int_str (ao_id a) @ '' has no leaf children''))
               else Inr (concat lss)))"
  by pat_completeness auto
termination
  by (relation "measure (\<lambda>(r, i, level). 4 - level)") (auto simp: MAX_ADDR_GROUP_NESTING_LEVEL_def)

declare resolve_leaves_at.simps [simp del]

definition resolve_leaves :: "group_resolver \<Rightarrow> int \<Rightarrow> exc + sdwan_addr_object list" where
  "resolve_leaves r i = resolve_leaves_at r i 0"


section \<open>The index holds what the catalog says\<close>

lemma children_by_parent_get:
  "dict_get (children_by_parent (mk_group_resolver objs)) p [] =
     map snd (filter (\<lambda>(q, a). q = p) (parent_links objs))"
proof -
  have "dict_get (foldl (\<lambda>d (p, a). group_append p a d) d ls) p [] =
      dict_get d p [] @ map snd (filter (\<lambda>(q, a). q = p) ls)"
    for d :: "(int \<times> sdwan_addr_object list) list" and ls
    by (induction ls arbitrary: d) (auto simp: dict_simps)
  then show ?thesis by (simp add: mk_group_resolver_def)
qed

lemma set_children_of:
  "set (children_of (mk_group_resolver objs) a) = {c \<in> set objs. group_key a \<in> set (ao_parents c)}"
  by (force simp: children_of_def children_by_parent_get parent_links_def)

lemma object_by_id_D:
  "map_of (objects_by_id (mk_group_resolver objs)) i = Some a \<Longrightarrow> a \<in> set objs \<and> ao_id a = i"
  by (auto simp: mk_group_resolver_def dest: dict_of_Some_D)


section \<open>Specification: leaves by group membership\<close>

definition group_link :: "group_resolver \<Rightarrow> int \<Rightarrow> int \<Rightarrow> bool" where
  "group_link r i j \<longleftrightarrow>
     (\<exists>a c. map_of (objects_by_id r) i = Some a \<and> ao_type a = AT_ADDR_GROUP \<and>
        c \<in> set (children_of r a) \<and> ao_id c \<noteq> ao_id a \<and> j = ao_id c)"

inductive leaf_of :: "group_resolver \<Rightarrow> int \<Rightarrow> sdwan_addr_object \<Rightarrow> bool" for r where
  leaf: "map_of (objects_by_id r) i = Some a \<Longrightarrow> ao_type a \<noteq> AT_ADDR_GROUP \<Longrightarrow> leaf_of r i a"
| member: "group_link r i j \<Longrightarrow> leaf_of r j a \<Longrightarrow> leaf_of r i a"

inductive_cases leaf_ofE: "leaf_of r i a"

lemma leaf_of_not_group: "leaf_of r i a \<Longrightarrow> ao_type a \<noteq> AT_ADDR_GROUP"
  by (induction rule: leaf_of.induct) simp_all

text \<open>The cases of a returning call.\<close>

lemma resolve_leaves_at_Inr:
  assumes "resolve_leaves_at r i level = Inr ls"
  obtains (leaf) a where "map_of (objects_by_id r) i = Some a" "ao_type a \<noteq> AT_ADDR_GROUP" "ls = [a]"
  | (group) a lss where "map_of (objects_by_id r) i = Some a" "ao_type a = AT_ADDR_GROUP"
      "level < MAX_ADDR_GROUP_NESTING_LEVEL" "ls = concat lss" "ls \<noteq> []"
      "traverse (\<lambda>c. resolve_leaves_at r (ao_id c) (level + 1))
         (filter (\<lambda>c. ao_id c \<noteq> ao_id a) (children_of r a)) = Inr lss"
  using assms
  by (subst (asm) resolve_leaves_at.simps) (auto simp: result_simps split: option.splits if_splits)

lemma group_link_iff:
  assumes "map_of (objects_by_id r) i = Some a" "ao_type a = AT_ADDR_GROUP"
  shows "group_link r i j \<longleftrightarrow>
    (\<exists>c \<in> set (filter (\<lambda>c. ao_id c \<noteq> ao_id a) (children_of r a)). j = ao_id c)"
  using assms by (auto simp: group_link_def)

lemma resolve_leaves_at_exact:
  "resolve_leaves_at r i level = Inr ls \<Longrightarrow> ls \<noteq> [] \<and> set ls = {a. leaf_of r i a}"
proof (induction r i level arbitrary: ls rule: resolve_leaves_at.induct)
  case (1 r i level)
  from "1.prems" show ?case
  proof (cases rule: resolve_leaves_at_Inr)
    case (leaf a)
    then have "leaf_of r i b \<longleftrightarrow> b = a" for b
      by (auto elim: leaf_ofE simp: group_link_def intro: leaf_of.leaf)
    with leaf show ?thesis by auto
  next
    case (group a lss)
    let ?cs = "filter (\<lambda>c. ao_id c \<noteq> ao_id a) (children_of r a)"
    have ne: "children_of r a \<noteq> []" using group(4,5,6) by auto
    have ih: "set ls' = {b. leaf_of r (ao_id c) b}"
      if "c \<in> set ?cs" "resolve_leaves_at r (ao_id c) (level + 1) = Inr ls'" for c ls'
      using "1.IH" [OF group(1) _ _ ne that(1), of ls'] group(2,3) that(2) by simp
    have ok: "\<exists>ls'. resolve_leaves_at r (ao_id c) (level + 1) = Inr ls'" if "c \<in> set ?cs" for c
      using group(6) that traverse_Inr_ex by fastforce
    have "set ls = \<Union> (set ` set lss)" using group(4) by simp
    also have "\<dots> = {b. \<exists>c \<in> set ?cs. leaf_of r (ao_id c) b}"
      unfolding traverse_set [OF group(6)] using ih ok by fastforce
    also have "\<dots> = {b. leaf_of r i b}"
    proof -
      have "leaf_of r i b \<longleftrightarrow> (\<exists>j. group_link r i j \<and> leaf_of r j b)" for b
        using group(1,2) by (auto elim: leaf_ofE intro: leaf_of.member)
      then show ?thesis using group_link_iff [OF group(1,2)] by auto
    qed
    finally show ?thesis using group(5) by simp
  qed
qed

lemma resolve_leaves_exact:
  "resolve_leaves r i = Inr ls \<Longrightarrow> ls \<noteq> [] \<and> set ls = {a. leaf_of r i a}"
  unfolding resolve_leaves_def by (rule resolve_leaves_at_exact)

lemma resolve_leaves_in_catalog:
  assumes "resolve_leaves (mk_group_resolver objs) i = Inr ls" "a \<in> set ls"
  shows "a \<in> set objs \<and> ao_type a \<noteq> AT_ADDR_GROUP"
proof -
  have "leaf_of (mk_group_resolver objs) i a" using assms resolve_leaves_exact by blast
  then show ?thesis
    by (induction rule: leaf_of.induct) (auto dest: object_by_id_D)
qed


section \<open>Nesting limit and cycles\<close>

lemma resolve_leaves_at_step:
  assumes "resolve_leaves_at r i level = Inr ls" "group_link r i j"
  shows "level < MAX_ADDR_GROUP_NESTING_LEVEL \<and> (\<exists>ls'. resolve_leaves_at r j (level + 1) = Inr ls')"
  using assms(1)
proof (cases rule: resolve_leaves_at_Inr)
  case (leaf a)
  with assms(2) show ?thesis by (simp add: group_link_def)
next
  case (group a lss)
  obtain c where c: "c \<in> set (filter (\<lambda>c. ao_id c \<noteq> ao_id a) (children_of r a))" "j = ao_id c"
    using assms(2) group_link_iff [OF group(1,2)] by auto
  have "\<exists>y. resolve_leaves_at r (ao_id c) (level + 1) = Inr y"
    using traverse_Inr_ex [THEN iffD1, OF exI, OF group(6)] c(1) by blast
  with c(2) group(3) show ?thesis by simp
qed

lemma resolve_leaves_at_depth:
  "(group_link r ^^ n) i j \<Longrightarrow> resolve_leaves_at r i level = Inr ls \<Longrightarrow> level + n \<le> MAX_ADDR_GROUP_NESTING_LEVEL \<or> n = 0"
proof (induction n arbitrary: i level ls)
  case 0
  then show ?case by simp
next
  case (Suc n)
  from Suc.prems(1) obtain k where k: "group_link r i k" "(group_link r ^^ n) k j"
    by (rule relpowp_Suc_E2)
  from resolve_leaves_at_step [OF Suc.prems(2) k(1)] obtain ls'
    where "level < MAX_ADDR_GROUP_NESTING_LEVEL" "resolve_leaves_at r k (level + 1) = Inr ls'" by blast
  with Suc.IH [OF k(2)] show ?case by fastforce
qed

lemma resolve_leaves_cycle:
  assumes "(group_link r)\<^sup>+\<^sup>+ i i"
  shows "\<exists>e. resolve_leaves r i = Inl e"
proof (cases "resolve_leaves r i")
  case (Inr ls)
  obtain n where n: "0 < n" "(group_link r ^^ n) i i"
    using assms by (auto simp: tranclp_power)
  have "(group_link r ^^ (n * k)) i i" for k
    using n(2) by (induction k) (auto simp: relpowp_add intro: relcomppI)
  from resolve_leaves_at_depth [OF this, of 0 ls 4] Inr n(1)
  have "n * 4 \<le> 3" by (simp add: resolve_leaves_def MAX_ADDR_GROUP_NESTING_LEVEL_def)
  with n(1) show ?thesis by simp
qed blast

end
