(* ===== verification/Rule_Values.thy ===== *)
theory Rule_Values
  imports Address_Groups
begin

text \<open>
  Value normalization and coverage of \<open>src/src/app/modules/execute/services/rule_values_resolver.py\<close>.

  The rule body refers to zones, address objects and services by catalog id; the resolver replaces
  them by values (IPv4 intervals, domain names, port ranges, ICMP code sets) that can be compared
  exactly (\<open>exact_signature\<close>) or for coverage (\<open>analyze_coverage\<close>).  The meanings of the values and
  the contract of the protocol \<open>CoverableMatchableObject\<close> are in the theory \<open>Coverage\<close>.
\<close>

section \<open>Rule bodies and evidence\<close>

datatype rule_action = ACT_ACCEPT | ACT_REJECT | ACT_DROP

fun action_value :: "rule_action \<Rightarrow> string" where
  "action_value ACT_ACCEPT = ''ACCEPT''"
| "action_value ACT_REJECT = ''REJECT''"
| "action_value ACT_DROP = ''DROP''"

lemma action_value_inj [simp]: "action_value a = action_value b \<longleftrightarrow> a = b"
  by (cases a; cases b) simp_all

record rule_body =
  rb_action :: rule_action
  rb_src_zones :: "int list"
  rb_dst_zones :: "int list"
  rb_src_addr_objects :: "int list"
  rb_dst_addr_objects :: "int list"
  rb_services :: "int list"

datatype coverage_field = SRC_ADDR_OBJECTS | DST_ADDR_OBJECTS | SERVICES

record coverage_value =
  cv_object_id :: int
  cv_object_name :: string
  cv_value :: string

record coverage_detail =
  cd_field :: coverage_field
  cd_covering_value :: coverage_value
  cd_covered_values :: "coverage_value list"

record 'v resolved =
  rv_value :: 'v
  rv_evidence :: coverage_value


section \<open>Addresses\<close>

datatype address_value = AddressSpan int int | FqdnValue string

definition span_from_network :: "ipv4_network \<Rightarrow> address_value" where
  "span_from_network n = AddressSpan (uint (net_addr n)) (uint (broadcast_address n))"

definition span_from_host :: "ipv4 \<Rightarrow> address_value" where
  "span_from_host a = AddressSpan (uint a) (uint a)"

definition span_from_range :: "ipv4 \<Rightarrow> ipv4 \<Rightarrow> exc + address_value" where
  "span_from_range s e =
     (if uint s > uint e then
        Inl (RuleValueNormalizationError (''Invalid IPv4 range: start '' @ ipv4_text s @
          '' is greater than end '' @ ipv4_text e))
      else Inr (AddressSpan (uint s) (uint e)))"

definition fqdn_from_raw :: "string \<Rightarrow> address_value" where
  "fqdn_from_raw s = FqdnValue (lower (strip s))"

fun address_covers :: "address_value \<Rightarrow> address_value \<Rightarrow> exc + bool" where
  "address_covers (AddressSpan s e) (AddressSpan s' e') = Inr (s \<le> s' \<and> e \<ge> e')"
| "address_covers (AddressSpan s e) (FqdnValue d) = Inr False"
| "address_covers (FqdnValue d) (FqdnValue d') = Inr (d = d')"
| "address_covers (FqdnValue d) (AddressSpan s e) = Inr False"

fun address_signature :: "address_value \<Rightarrow> pyval" where
  "address_signature (AddressSpan s e) = PTuple [PStr ''ipv4'', PInt s, PInt e]"
| "address_signature (FqdnValue d) = PTuple [PStr ''fqdn'', PStr d]"

fun address_display :: "address_value \<Rightarrow> string" where
  "address_display (AddressSpan s e) =
     (if s = e then ipv4_text (word_of_int s)
      else ipv4_text (word_of_int s) @ ''-'' @ ipv4_text (word_of_int e))"
| "address_display (FqdnValue d) = d"


section \<open>Services\<close>

record service_value =
  sval_proto :: sdwan_l4_proto
  sval_port_start :: "int option"
  sval_port_end :: "int option"
  sval_codes :: "string set option"

definition normalize_text :: "string \<Rightarrow> string" where
  "normalize_text s =
     sub_runs (\<lambda>c. is_space c \<or> c = CHR ''_'' \<or> c = CHR ''-'') ''-'' (lower (strip s))"

definition service_any :: service_value where
  "service_any = \<lparr>sval_proto = L4_ANY, sval_port_start = None, sval_port_end = None, sval_codes = None\<rparr>"

definition service_protocol_only :: "sdwan_l4_proto \<Rightarrow> service_value" where
  "service_protocol_only p =
     (if p = L4_ANY then service_any
      else \<lparr>sval_proto = p, sval_port_start = None, sval_port_end = None, sval_codes = None\<rparr>)"

definition service_port_range :: "sdwan_l4_proto \<Rightarrow> int \<Rightarrow> int \<Rightarrow> exc + service_value" where
  "service_port_range p s e =
     (if \<not> (p = L4_TCP \<or> p = L4_UDP) then
        Inl (RuleValueNormalizationError
          (''Port range is supported only for TCP/UDP, got '' @ l4_proto_value p))
      else if s < 0 \<or> e > 65535 \<or> s > e then
        Inl (RuleValueNormalizationError
          (''Invalid port range for '' @ l4_proto_value p @ '': '' @ int_str s @ ''-'' @ int_str e))
      else Inr \<lparr>sval_proto = p, sval_port_start = Some s, sval_port_end = Some e, sval_codes = None\<rparr>)"

definition service_icmp :: "string list option \<Rightarrow> service_value" where
  "service_icmp codes =
     \<lparr>sval_proto = L4_ICMP, sval_port_start = None, sval_port_end = None,
      sval_codes = Some (normalize_text ` set (case codes of None \<Rightarrow> [] | Some cs \<Rightarrow> cs))\<rparr>"

definition codes_or_empty :: "service_value \<Rightarrow> string set" where
  "codes_or_empty v = (case sval_codes v of None \<Rightarrow> {} | Some cs \<Rightarrow> cs)"

definition int_type_name :: "int option \<Rightarrow> string" where
  "int_type_name x = (case x of None \<Rightarrow> ''NoneType'' | Some _ \<Rightarrow> ''int'')"

definition compare_ints :: "string \<Rightarrow> (int \<Rightarrow> int \<Rightarrow> bool) \<Rightarrow> int option \<Rightarrow> int option \<Rightarrow> exc + bool" where
  "compare_ints op f x y =
     (case (x, y) of
        (Some a, Some b) \<Rightarrow> Inr (f a b)
      | _ \<Rightarrow> Inl (TypeError ([quote1] @ op @ [quote1] @ '' not supported between instances of '' @
          [quote1] @ int_type_name x @ [quote1] @ '' and '' @ [quote1] @ int_type_name y @ [quote1])))"

definition service_covers :: "service_value \<Rightarrow> service_value \<Rightarrow> exc + bool" where
  "service_covers a b =
     (if sval_proto a = L4_ANY then Inr True
      else if sval_proto b = L4_ANY then Inr False
      else if sval_proto a \<noteq> sval_proto b then Inr False
      else if sval_proto a = L4_ICMP then Inr (codes_or_empty b \<subseteq> codes_or_empty a)
      else if sval_proto a = L4_TCP \<or> sval_proto a = L4_UDP then
        bind_r (compare_ints ''<='' (\<le>) (sval_port_start a) (sval_port_start b))
          (\<lambda>le. if le then compare_ints ''>='' (\<ge>) (sval_port_end a) (sval_port_end b) else Inr False)
      else if sval_proto a = L4_IP_IP then
        Inr (sval_port_start a = None \<and> sval_port_end a = None \<and>
             sval_port_start b = None \<and> sval_port_end b = None \<and>
             sval_codes a = None \<and> sval_codes b = None)
      else Inl (RuleValueNormalizationError ''Unsupported services comparison''))"

definition opt_int_val :: "int option \<Rightarrow> pyval" where
  "opt_int_val x = (case x of None \<Rightarrow> PNone | Some i \<Rightarrow> PInt i)"

definition service_signature :: "service_value \<Rightarrow> pyval" where
  "service_signature v = PTuple
     [PStr (l4_proto_value (sval_proto v)), opt_int_val (sval_port_start v),
      opt_int_val (sval_port_end v),
      case sval_codes v of None \<Rightarrow> PNone
      | Some cs \<Rightarrow> PTuple (map PStr (sorted_list_of_set cs))]"

definition service_display :: "service_value \<Rightarrow> string" where
  "service_display v =
     (if sval_proto v = L4_ANY then ''any''
      else if sval_proto v = L4_TCP \<or> sval_proto v = L4_UDP then
        (if sval_port_start v = sval_port_end v
         then l4_proto_value (sval_proto v) @ ''/'' @ opt_int_text (sval_port_start v)
         else l4_proto_value (sval_proto v) @ ''/'' @ opt_int_text (sval_port_start v) @ ''-'' @
              opt_int_text (sval_port_end v))
      else if sval_proto v = L4_ICMP then
        ''icmp/'' @ join '','' (sorted_list_of_set (codes_or_empty v))
      else l4_proto_value (sval_proto v))"


section \<open>Normalized rules and their signature\<close>

record normalized_rule_values =
  nr_action :: rule_action
  nr_src_zones :: "string set"
  nr_dst_zones :: "string set"
  nr_src_addresses :: "address_value set"
  nr_dst_addresses :: "address_value set"
  nr_services :: "service_value set"

record resolved_rule_values =
  rr_normalized :: normalized_rule_values
  rr_src_addresses :: "address_value resolved list"
  rr_dst_addresses :: "address_value resolved list"
  rr_services :: "service_value resolved list"

definition sorted_signatures :: "('v \<Rightarrow> pyval) \<Rightarrow> 'v set \<Rightarrow> pyval list" where
  "sorted_signatures sg vs = sorted_list_of_set (sg ` vs)"

definition signature_payload :: "normalized_rule_values \<Rightarrow> pydata" where
  "signature_payload n = DDict
     [(''action'', DVal (PStr (action_value (nr_action n)))),
      (''src_zones'', DList (map (\<lambda>z. DVal (PStr z)) (sorted_list_of_set (nr_src_zones n)))),
      (''dst_zones'', DList (map (\<lambda>z. DVal (PStr z)) (sorted_list_of_set (nr_dst_zones n)))),
      (''src_addresses'', DList (map DVal (sorted_signatures address_signature (nr_src_addresses n)))),
      (''dst_addresses'', DList (map DVal (sorted_signatures address_signature (nr_dst_addresses n)))),
      (''services'', DList (map DVal (sorted_signatures service_signature (nr_services n))))]"

definition exact_signature :: "(string \<Rightarrow> string) \<Rightarrow> normalized_rule_values \<Rightarrow> string" where
  "exact_signature sha n = json_hash sha (signature_payload n)"


section \<open>Resolving a rule\<close>

record rule_resolver =
  rs_zones_by_id :: "(int \<times> sdwan_zone) list"
  rs_services_by_id :: "(int \<times> sdwan_service) list"
  rs_groups :: group_resolver

definition mk_rule_resolver ::
  "sdwan_zone list \<Rightarrow> sdwan_service list \<Rightarrow> sdwan_addr_object list \<Rightarrow> rule_resolver" where
  "mk_rule_resolver zones services objs =
     \<lparr>rs_zones_by_id = dict_of zn_id zones, rs_services_by_id = dict_of sv_id services,
      rs_groups = mk_group_resolver objs\<rparr>"

fun normalize_action :: "rule_action \<Rightarrow> rule_action" where
  "normalize_action ACT_REJECT = ACT_REJECT"
| "normalize_action ACT_DROP = ACT_REJECT"
| "normalize_action ACT_ACCEPT = ACT_ACCEPT"

definition normalize_zones :: "rule_resolver \<Rightarrow> int list \<Rightarrow> exc + string set" where
  "normalize_zones r ids =
     bind_r
       (traverse (\<lambda>i. case map_of (rs_zones_by_id r) i of
            None \<Rightarrow> Inl (RuleValueNormalizationError (''Unknown zone id: '' @ int_str i))
          | Some z \<Rightarrow> Inr (normalize_text (zn_name z))) ids)
       (\<lambda>names. Inr (set names))"

definition address_value_from_leaf :: "sdwan_addr_object \<Rightarrow> exc + address_value" where
  "address_value_from_leaf a =
     (case ao_type a of
        AT_PREFIX \<Rightarrow>
          (case ao_prefix a of
             None \<Rightarrow> Inl (RuleValueNormalizationError
               (''Prefix address object '' @ int_str (ao_id a) @ '' has no prefix value''))
           | Some n \<Rightarrow> Inr (span_from_network n))
      | AT_NETWORK \<Rightarrow>
          (case ao_network a of
             None \<Rightarrow> Inl (RuleValueNormalizationError
               (''Network address object '' @ int_str (ao_id a) @ '' has no resolved network value''))
           | Some n \<Rightarrow> Inr (span_from_network n))
      | AT_HOST \<Rightarrow>
          (case ao_host a of
             None \<Rightarrow> Inl (RuleValueNormalizationError
               (''Host address object '' @ int_str (ao_id a) @ '' has no host value''))
           | Some h \<Rightarrow> Inr (span_from_host h))
      | AT_IP_RANGE \<Rightarrow>
          (case (ao_ip_range_from a, ao_ip_range_to a) of
             (Some s, Some e) \<Rightarrow> span_from_range s e
           | _ \<Rightarrow> Inl (RuleValueNormalizationError
               (''IP range address object '' @ int_str (ao_id a) @ '' has incomplete range'')))
      | AT_FQDN \<Rightarrow>
          (case ao_fqdn a of
             None \<Rightarrow> Inl (RuleValueNormalizationError
               (''FQDN address object '' @ int_str (ao_id a) @ '' has no fqdn value''))
           | Some d \<Rightarrow> Inr (fqdn_from_raw d))
      | AT_ADDR_GROUP \<Rightarrow>
          Inl (RuleValueNormalizationError ''ADDR_GROUP must be expanded before leaf normalization''))"

definition resolved_address_value :: "sdwan_addr_object \<Rightarrow> exc + address_value resolved" where
  "resolved_address_value a =
     bind_r (address_value_from_leaf a)
       (\<lambda>v. Inr \<lparr>rv_value = v,
                rv_evidence = \<lparr>cv_object_id = ao_id a, cv_object_name = ao_name a,
                  cv_value = address_display v\<rparr>\<rparr>)"

definition distinct_resolved_values :: "('v \<Rightarrow> pyval) \<Rightarrow> 'v resolved list \<Rightarrow> 'v resolved list" where
  "distinct_resolved_values sg vs = distinct_by (\<lambda>v. sg (rv_value v)) vs"

definition resolve_address_values ::
  "rule_resolver \<Rightarrow> int list \<Rightarrow> exc + address_value resolved list" where
  "resolve_address_values r ids =
     bind_r
       (traverse (\<lambda>i. case resolve_leaves (rs_groups r) i of
            Inl e \<Rightarrow> Inl (RuleValueNormalizationError (exc_text e))
          | Inr leaves \<Rightarrow> traverse resolved_address_value leaves) ids)
       (\<lambda>vss. Inr (distinct_resolved_values address_signature (concat vss)))"

definition service_values_for :: "int \<Rightarrow> sdwan_service \<Rightarrow> exc + service_value list" where
  "service_values_for i s =
     (case sv_l4_proto s of
        L4_TCP \<Rightarrow>
          (if falsy_list (sv_ranges s) then Inl (RuleValueNormalizationError
             (''TCP/UDP service '' @ int_str i @ '' has no port ranges''))
           else traverse (\<lambda>(a, b). service_port_range L4_TCP a b) (the (sv_ranges s)))
      | L4_UDP \<Rightarrow>
          (if falsy_list (sv_ranges s) then Inl (RuleValueNormalizationError
             (''TCP/UDP service '' @ int_str i @ '' has no port ranges''))
           else traverse (\<lambda>(a, b). service_port_range L4_UDP a b) (the (sv_ranges s)))
      | L4_ICMP \<Rightarrow> Inr [service_icmp (sv_codes s)]
      | L4_ANY \<Rightarrow> Inr [service_any]
      | L4_IP_IP \<Rightarrow> Inr [service_protocol_only L4_IP_IP])"

definition resolve_service_values ::
  "rule_resolver \<Rightarrow> int list \<Rightarrow> exc + service_value resolved list" where
  "resolve_service_values r ids =
     bind_r
       (traverse (\<lambda>i. case map_of (rs_services_by_id r) i of
            None \<Rightarrow> Inl (RuleValueNormalizationError (''Unknown service id: '' @ int_str i))
          | Some s \<Rightarrow>
              bind_r (service_values_for i s)
                (\<lambda>vs. Inr (map (\<lambda>v. \<lparr>rv_value = v,
                   rv_evidence = \<lparr>cv_object_id = sv_id s, cv_object_name = sv_name s,
                     cv_value = service_display v\<rparr>\<rparr>) vs))) ids)
       (\<lambda>vss. Inr (distinct_resolved_values service_signature (concat vss)))"

definition resolve_rule :: "rule_resolver \<Rightarrow> 'a rule_body_scheme \<Rightarrow> exc + resolved_rule_values" where
  "resolve_rule r b =
     bind_r (resolve_address_values r (rb_src_addr_objects b)) (\<lambda>src.
     bind_r (resolve_address_values r (rb_dst_addr_objects b)) (\<lambda>dst.
     bind_r (resolve_service_values r (rb_services b)) (\<lambda>svc.
     bind_r (normalize_zones r (rb_src_zones b)) (\<lambda>sz.
     bind_r (normalize_zones r (rb_dst_zones b)) (\<lambda>dz.
       Inr \<lparr>rr_normalized =
              \<lparr>nr_action = normalize_action (rb_action b), nr_src_zones = sz, nr_dst_zones = dz,
               nr_src_addresses = rv_value ` set src, nr_dst_addresses = rv_value ` set dst,
               nr_services = rv_value ` set svc\<rparr>,
            rr_src_addresses = src, rr_dst_addresses = dst, rr_services = svc\<rparr>)))))"


section \<open>Coverage\<close>

definition str_set_covers :: "string set \<Rightarrow> string set \<Rightarrow> bool" where
  "str_set_covers existing target =
     (if target = {} then existing = {} else if existing = {} then False else target \<subseteq> existing)"

fun find_covering ::
  "('v \<Rightarrow> 'v \<Rightarrow> exc + bool) \<Rightarrow> 'v resolved list \<Rightarrow> 'v resolved \<Rightarrow> exc + 'v resolved option" where
  "find_covering cov [] p = Inr None"
| "find_covering cov (e # es) p =
     bind_r (cov (rv_value e) (rv_value p)) (\<lambda>b. if b then Inr (Some e) else find_covering cov es p)"

fun coverage_loop ::
  "('v \<Rightarrow> 'v \<Rightarrow> exc + bool) \<Rightarrow> ('v \<Rightarrow> pyval) \<Rightarrow> 'v resolved list \<Rightarrow> 'v resolved list \<Rightarrow>
   (coverage_value \<times> coverage_value list) list \<Rightarrow>
   exc + (coverage_value \<times> coverage_value list) list option" where
  "coverage_loop cov sg existing [] d = Inr (Some d)"
| "coverage_loop cov sg existing (p # ps) d =
     bind_r (find_covering cov existing p) (\<lambda>c. case c of
        None \<Rightarrow> Inr None
      | Some e \<Rightarrow>
          coverage_loop cov sg existing ps
            (if sg (rv_value e) \<noteq> sg (rv_value p)
             then group_append (rv_evidence e) (rv_evidence p) d else d))"

definition analyze_values_coverage ::
  "('v \<Rightarrow> 'v \<Rightarrow> exc + bool) \<Rightarrow> ('v \<Rightarrow> pyval) \<Rightarrow> coverage_field \<Rightarrow> 'v resolved list \<Rightarrow>
   'v resolved list \<Rightarrow> exc + coverage_detail list option" where
  "analyze_values_coverage cov sg field existing planned =
     (if planned = [] then Inr (if existing = [] then Some [] else None)
      else if existing = [] then Inr None
      else bind_r (coverage_loop cov sg existing planned []) (\<lambda>r. Inr (map_option
        (map (\<lambda>(c, vs). \<lparr>cd_field = field, cd_covering_value = c, cd_covered_values = vs\<rparr>)) r)))"

record coverage_analysis =
  ca_is_covered :: bool
  ca_details :: "coverage_detail list"

definition not_covered :: coverage_analysis where
  "not_covered = \<lparr>ca_is_covered = False, ca_details = []\<rparr>"

definition analyze_coverage ::
  "resolved_rule_values \<Rightarrow> resolved_rule_values \<Rightarrow> exc + coverage_analysis" where
  "analyze_coverage existing planned =
     (let en = rr_normalized existing; pn = rr_normalized planned in
      if nr_action en \<noteq> nr_action pn \<or> \<not> str_set_covers (nr_src_zones en) (nr_src_zones pn)
         \<or> \<not> str_set_covers (nr_dst_zones en) (nr_dst_zones pn)
      then Inr not_covered
      else
        bind_r (analyze_values_coverage address_covers address_signature SRC_ADDR_OBJECTS
          (rr_src_addresses existing) (rr_src_addresses planned)) (\<lambda>src. case src of
          None \<Rightarrow> Inr not_covered
        | Some src_details \<Rightarrow>
        bind_r (analyze_values_coverage address_covers address_signature DST_ADDR_OBJECTS
          (rr_dst_addresses existing) (rr_dst_addresses planned)) (\<lambda>dst. case dst of
          None \<Rightarrow> Inr not_covered
        | Some dst_details \<Rightarrow>
        bind_r (analyze_values_coverage service_covers service_signature SERVICES
          (rr_services existing) (rr_services planned)) (\<lambda>svc. case svc of
          None \<Rightarrow> Inr not_covered
        | Some service_details \<Rightarrow>
            Inr \<lparr>ca_is_covered = True, ca_details = src_details @ dst_details @ service_details\<rparr>))))"

end
