(* ===== verification/Coverage.thy ===== *)
theory Coverage
  imports Rule_Values
begin

text \<open>
  What coverage means: every value denotes a set of traffic (IPv4 addresses and names, ports,
  ICMP messages), a rule the packets that match all its fields.  The locale \<open>signed_values\<close>
  states that signatures are faithful, \<open>coverable\<close> extends it by the contract of
  \<open>covers\<close>; both are interpreted on the address and the service values of the code.
  \<open>analyze_coverage_sound\<close> is the consequence for whole rules: a planned rule reported as
  covered matches no packet that the existing rule does not match.
\<close>

section \<open>Interfaces\<close>

locale signed_values =
  fixes ok :: "'v \<Rightarrow> bool"
    and signature :: "'v \<Rightarrow> pyval"
  assumes signature_inj: "ok a \<Longrightarrow> ok b \<Longrightarrow> signature a = signature b \<longleftrightarrow> a = b"
begin

lemma distinct_values:
  assumes "\<And>v. v \<in> set vs \<Longrightarrow> ok (rv_value v)"
  shows "rv_value ` set (distinct_resolved_values signature vs) = rv_value ` set vs"
proof -
  let ?ws = "distinct_resolved_values signature vs"
  have sub: "set ?ws \<subseteq> set vs"
    by (simp add: distinct_resolved_values_def distinct_by_sub)
  have keys: "(\<lambda>v. signature (rv_value v)) ` set ?ws = (\<lambda>v. signature (rv_value v)) ` set vs"
    by (simp add: distinct_resolved_values_def distinct_by_keys)
  have "rv_value v \<in> rv_value ` set ?ws" if "v \<in> set vs" for v
  proof -
    have "signature (rv_value v) \<in> (\<lambda>v. signature (rv_value v)) ` set ?ws"
      using keys that by blast
    then obtain w where "w \<in> set ?ws" "signature (rv_value w) = signature (rv_value v)" by auto
    moreover from this sub assms that have "rv_value w = rv_value v"
      using signature_inj by blast
    ultimately show ?thesis by (metis image_eqI)
  qed
  with sub show ?thesis by auto
qed

end

locale coverable = signed_values ok signature
  for ok :: "'v \<Rightarrow> bool"
    and signature :: "'v \<Rightarrow> pyval" +
  fixes covers :: "'v \<Rightarrow> 'v \<Rightarrow> exc + bool"
    and sem :: "'v \<Rightarrow> 'p set"
  assumes covers_sem: "ok a \<Longrightarrow> ok b \<Longrightarrow> covers a b = Inr (sem b \<subseteq> sem a)"
    and sem_nonempty: "ok a \<Longrightarrow> sem a \<noteq> {}"
begin

abbreviation oks :: "'v resolved list \<Rightarrow> bool" where
  "oks vs \<equiv> \<forall>v \<in> set vs. ok (rv_value v)"

lemma find_covering_eq:
  "oks es \<Longrightarrow> ok (rv_value p) \<Longrightarrow>
     find_covering covers es p = Inr (List.find (\<lambda>e. sem (rv_value p) \<subseteq> sem (rv_value e)) es)"
  by (induction es) (simp_all add: covers_sem)

definition coverer :: "'v resolved list \<Rightarrow> 'v resolved \<Rightarrow> 'v resolved option" where
  "coverer es p = List.find (\<lambda>e. sem (rv_value p) \<subseteq> sem (rv_value e)) es"

definition deltas :: "'v resolved list \<Rightarrow> 'v resolved list \<Rightarrow> ('v resolved \<times> 'v resolved) list" where
  "deltas es ps =
     filter (\<lambda>(e, p). rv_value e \<noteq> rv_value p) (map (\<lambda>p. (the (coverer es p), p)) ps)"

lemma coverer_Some: "coverer es p = Some e \<Longrightarrow> e \<in> set es \<and> sem (rv_value p) \<subseteq> sem (rv_value e)"
  by (auto simp: coverer_def dest: find_Some_D)

lemma coverer_ex: "coverer es p \<noteq> None \<longleftrightarrow> (\<exists>e \<in> set es. sem (rv_value p) \<subseteq> sem (rv_value e))"
  by (auto simp: coverer_def find_None_iff')

text \<open>The loop returns the grouping of the deltas by covering evidence, or \<open>None\<close>.\<close>

lemma coverage_loop_eq:
  assumes "oks es" "oks ps"
  shows "coverage_loop covers signature es ps d =
    Inr (if \<forall>p \<in> set ps. coverer es p \<noteq> None
         then Some (foldl (\<lambda>d (e, p). group_append (rv_evidence e) (rv_evidence p) d) d (deltas es ps))
         else None)"
  using assms(2)
proof (induction ps arbitrary: d)
  case Nil
  then show ?case by (simp add: deltas_def)
next
  case (Cons p ps)
  show ?case
  proof (cases "coverer es p")
    case None
    with Cons.prems assms(1) show ?thesis by (simp add: find_covering_eq flip: coverer_def)
  next
    case (Some e)
    then have "ok (rv_value e)" using assms(1) coverer_Some by blast
    with Some Cons assms(1) show ?thesis
      by (simp add: find_covering_eq signature_inj deltas_def flip: coverer_def)
  qed
qed

lemma analysis_total:
  assumes "oks es" "oks ps"
  shows "\<exists>r. analyze_values_coverage covers signature f es ps = Inr r"
  using assms by (simp add: analyze_values_coverage_def coverage_loop_eq)

lemma analysis_covered_iff:
  assumes "oks es" "oks ps"
  shows "(\<exists>ds. analyze_values_coverage covers signature f es ps = Inr (Some ds)) \<longleftrightarrow>
    (ps = [] \<longleftrightarrow> es = []) \<and>
    (\<forall>p \<in> set ps. \<exists>e \<in> set es. sem (rv_value p) \<subseteq> sem (rv_value e))"
  using assms coverer_ex [of es]
  by (auto simp: analyze_values_coverage_def coverage_loop_eq)

lemma analysis_sound:
  assumes "oks es" "oks ps"
    and "analyze_values_coverage covers signature f es ps = Inr (Some ds)"
  shows "(\<Union>p \<in> set ps. sem (rv_value p)) \<subseteq> (\<Union>e \<in> set es. sem (rv_value e))"
  using analysis_covered_iff [OF assms(1,2), of f] assms(3) by blast

text \<open>Every reported delta is a strict inclusion between an existing and a planned value.\<close>

lemma foldl_group_entries:
  assumes "(c, vs) \<in> set (foldl (\<lambda>d (e, p). group_append (ev e) (ev p) d) d xs)" "v \<in> set vs"
  shows "(\<exists>ws. (c, ws) \<in> set d \<and> v \<in> set ws) \<or> (\<exists>(e, p) \<in> set xs. ev e = c \<and> ev p = v)"
  using assms(1)
proof (induction xs arbitrary: d)
  case Nil
  then show ?case using assms(2) by auto
next
  case (Cons x xs)
  obtain e p where x: "x = (e, p)" by fastforce
  have step: "(c, ws) \<in> set d \<and> v \<in> set ws \<or> ev e = c \<and> ev p = v \<or> (\<exists>us. (c, us) \<in> set d \<and> v \<in> set us)"
    if "(c, ws) \<in> set (group_append (ev e) (ev p) d)" "v \<in> set ws" for ws
  proof -
    have upd: "(c, ws) \<in> set (AList.update k w d) \<Longrightarrow> (c, ws) \<in> set d \<or> (c = k \<and> ws = w)" for k w
      by (induction d) (auto split: if_splits)
    have dg: "v \<in> set (dict_get d k []) \<Longrightarrow> \<exists>us. (k, us) \<in> set d \<and> v \<in> set us" for k
      by (cases "map_of d k") (auto simp: dict_get_def dest: map_of_SomeD)
    show ?thesis using upd [of "ev e" "dict_get d (ev e) [] @ [ev p]"] dg [of "ev e"] that
      by (auto simp: group_append_def)
  qed
  from Cons.IH [of "group_append (ev e) (ev p) d"] Cons.prems x step show ?case by auto
qed

lemma analysis_details:
  assumes "oks es" "oks ps"
    and "analyze_values_coverage covers signature f es ps = Inr (Some ds)"
    and "d \<in> set ds" "v \<in> set (cd_covered_values d)"
  shows "cd_field d = f \<and>
    (\<exists>e \<in> set es. \<exists>p \<in> set ps. cd_covering_value d = rv_evidence e \<and> v = rv_evidence p \<and>
       sem (rv_value p) \<subseteq> sem (rv_value e) \<and> rv_value p \<noteq> rv_value e)"
proof (cases "ps = [] \<or> es = []")
  case True
  with assms(3,4) show ?thesis by (auto simp: analyze_values_coverage_def split: if_splits)
next
  case False
  with assms(1-3) have cov: "\<forall>p \<in> set ps. coverer es p \<noteq> None"
    and ds: "ds = map (\<lambda>(c, vs). \<lparr>cd_field = f, cd_covering_value = c, cd_covered_values = vs\<rparr>)
      (foldl (\<lambda>d (e, p). group_append (rv_evidence e) (rv_evidence p) d) [] (deltas es ps))"
    by (auto simp: analyze_values_coverage_def coverage_loop_eq split: if_splits)
  from ds assms(4,5) obtain c vs where
    "(c, vs) \<in> set (foldl (\<lambda>d (e, p). group_append (rv_evidence e) (rv_evidence p) d) [] (deltas es ps))"
    and d: "d = \<lparr>cd_field = f, cd_covering_value = c, cd_covered_values = vs\<rparr>" "v \<in> set vs"
    by auto
  from foldl_group_entries [OF this(1) d(2)] obtain e p
    where ep: "(e, p) \<in> set (deltas es ps)" "rv_evidence e = c" "rv_evidence p = v" by auto
  then have p: "p \<in> set ps" "rv_value e \<noteq> rv_value p" "coverer es p = Some e"
    using cov by (auto simp: deltas_def)
  from coverer_Some [OF p(3)] have e: "e \<in> set es" "sem (rv_value p) \<subseteq> sem (rv_value e)" by auto
  show ?thesis
  proof (intro conjI bexI)
    show "cd_field d = f" "cd_covering_value d = rv_evidence e" using d ep by simp_all
    show "v = rv_evidence p" "rv_value p \<noteq> rv_value e" using ep p by auto
  qed (use e p in simp_all)
qed

end


section \<open>Meaning of addresses, services and rules\<close>

datatype endpoint = Ip int | Name string

fun address_sem :: "address_value \<Rightarrow> endpoint set" where
  "address_sem (AddressSpan s e) = Ip ` {s..e}"
| "address_sem (FqdnValue d) = {Name d}"

fun address_ok :: "address_value \<Rightarrow> bool" where
  "address_ok (AddressSpan s e) \<longleftrightarrow> s \<le> e"
| "address_ok (FqdnValue d) \<longleftrightarrow> True"

datatype flow = Port sdwan_l4_proto int | IcmpMessage string | IpInIp | OtherTraffic

definition service_sem :: "service_value \<Rightarrow> flow set" where
  "service_sem v =
     (case sval_proto v of
        L4_ANY \<Rightarrow> UNIV
      | L4_ICMP \<Rightarrow> IcmpMessage ` codes_or_empty v
      | L4_IP_IP \<Rightarrow> {IpInIp}
      | p \<Rightarrow> Port p ` {the (sval_port_start v)..the (sval_port_end v)})"

text \<open>The values that the constructors of \<open>ServiceValue\<close> build from a valid catalog entry.\<close>

definition service_value_ok :: "service_value \<Rightarrow> bool" where
  "service_value_ok v \<longleftrightarrow>
     (case sval_proto v of
        L4_ICMP \<Rightarrow> sval_port_start v = None \<and> sval_port_end v = None \<and>
          (\<exists>cs. sval_codes v = Some cs \<and> finite cs \<and> cs \<noteq> {})
      | L4_ANY \<Rightarrow> sval_port_start v = None \<and> sval_port_end v = None \<and> sval_codes v = None
      | L4_IP_IP \<Rightarrow> sval_port_start v = None \<and> sval_port_end v = None \<and> sval_codes v = None
      | _ \<Rightarrow> sval_codes v = None \<and>
          (\<exists>s e. sval_port_start v = Some s \<and> sval_port_end v = Some e \<and> s \<le> e))"

lemma opt_int_val_inj [simp]: "opt_int_val x = opt_int_val y \<longleftrightarrow> x = y"
  by (auto simp: opt_int_val_def split: option.splits)

lemma map_PStr_inj: "map PStr xs = map PStr ys \<longleftrightarrow> xs = ys"
  by (rule inj_map_eq_map) (simp add: inj_def)

lemma service_value_ok_finite: "service_value_ok v \<Longrightarrow> sval_codes v = Some cs \<Longrightarrow> finite cs"
  by (cases "sval_proto v") (auto simp: service_value_ok_def)

lemma service_signature_eq:
  "service_signature a = service_signature b \<longleftrightarrow>
     sval_proto a = sval_proto b \<and> sval_port_start a = sval_port_start b \<and>
     sval_port_end a = sval_port_end b \<and>
     map_option sorted_list_of_set (sval_codes a) = map_option sorted_list_of_set (sval_codes b)"
  unfolding service_signature_def
  by (cases "sval_codes a"; cases "sval_codes b") (simp_all add: map_PStr_inj)

lemma service_signature_inj:
  assumes "service_value_ok a" "service_value_ok b"
  shows "service_signature a = service_signature b \<longleftrightarrow> a = b"
proof
  assume "service_signature a = service_signature b"
  then have eq: "sval_proto a = sval_proto b" "sval_port_start a = sval_port_start b"
    "sval_port_end a = sval_port_end b"
    "map_option sorted_list_of_set (sval_codes a) = map_option sorted_list_of_set (sval_codes b)"
    unfolding service_signature_eq by blast+
  have "sval_codes a = sval_codes b"
  proof (cases "sval_codes a")
    case None
    with eq(4) show ?thesis by simp
  next
    case (Some cs)
    with eq(4) obtain ds where ds: "sval_codes b = Some ds"
      "sorted_list_of_set cs = sorted_list_of_set ds" by (cases "sval_codes b") auto
    moreover have "finite cs" "finite ds"
      using Some ds(1) assms by (blast dest: service_value_ok_finite)+
    ultimately have "cs = ds" by (metis sorted_list_of_set.set_sorted_key_list_of_set)
    with Some ds(1) show ?thesis by simp
  qed
  with eq(1-3) show "a = b" by (intro service_value.equality) simp_all
qed simp

lemma image_Port_subset:
  "s \<le> e \<Longrightarrow> Port p ` {s..e} \<subseteq> Port q ` {s'..e'} \<longleftrightarrow> p = q \<and> s' \<le> s \<and> e \<le> e'"
proof -
  assume le: "s \<le> e"
  have eq: "Port p ` {s..e} \<subseteq> Port p ` {s'..e'} \<longleftrightarrow> {s..e} \<subseteq> {s'..e'}"
    by (intro inj_image_subset_iff) (simp add: inj_def)
  show ?thesis
  proof (cases "p = q")
    case True
    with eq le show ?thesis by simp
  next
    case False
    have "Port p s \<in> Port p ` {s..e}" using le by simp
    moreover have "Port p s \<notin> Port q ` {s'..e'}" using False by auto
    ultimately show ?thesis using False by blast
  qed
qed

fun flow_proto :: "flow \<Rightarrow> sdwan_l4_proto" where
  "flow_proto (Port p n) = p"
| "flow_proto (IcmpMessage c) = L4_ICMP"
| "flow_proto IpInIp = L4_IP_IP"
| "flow_proto OtherTraffic = L4_ANY"

lemma flow_protocol: "x \<in> service_sem v \<Longrightarrow> sval_proto v \<noteq> L4_ANY \<Longrightarrow> flow_proto x = sval_proto v"
  by (cases "sval_proto v") (auto simp: service_sem_def)

lemma service_covers_sem:
  assumes "service_value_ok a" "service_value_ok b"
  shows "service_covers a b = Inr (service_sem b \<subseteq> service_sem a)"
proof -
  have any: "\<not> UNIV \<subseteq> service_sem a" if "sval_proto a \<noteq> L4_ANY"
    using that by (auto simp: service_sem_def split: sdwan_l4_proto.splits)
  have icmp: "IcmpMessage ` cs \<subseteq> IcmpMessage ` ds \<longleftrightarrow> cs \<subseteq> ds" for cs ds
    by (intro inj_image_subset_iff) (simp add: inj_def)
  have ne: "sval_proto v = L4_ICMP \<Longrightarrow> service_value_ok v \<Longrightarrow> codes_or_empty v \<noteq> {}" for v
    by (auto simp: service_value_ok_def codes_or_empty_def)
  have ports: "service_covers a b = Inr (service_sem b \<subseteq> service_sem a)"
    if pa: "sval_proto a = p" and pb: "sval_proto b = p" and p: "p = L4_TCP \<or> p = L4_UDP" for p
  proof -
    obtain s e where a: "sval_port_start a = Some s" "sval_port_end a = Some e" "s \<le> e"
      using assms(1) pa p by (auto simp: service_value_ok_def)
    obtain s' e' where b: "sval_port_start b = Some s'" "sval_port_end b = Some e'" "s' \<le> e'"
      using assms(2) pb p by (auto simp: service_value_ok_def)
    have "service_sem a = Port p ` {s..e}" "service_sem b = Port p ` {s'..e'}"
      using a b pa pb p by (auto simp: service_sem_def)
    with a b pa pb p show ?thesis
      by (auto simp: service_covers_def compare_ints_def image_Port_subset)
  qed
  have sem: "service_sem v = (case p of L4_ANY \<Rightarrow> UNIV | L4_ICMP \<Rightarrow> IcmpMessage ` codes_or_empty v
      | L4_IP_IP \<Rightarrow> {IpInIp} | _ \<Rightarrow> Port p ` {the (sval_port_start v)..the (sval_port_end v)})"
    if "sval_proto v = p" for v p using that by (cases p) (auto simp: service_sem_def)
  have port_ne: "Port p ` {the (sval_port_start v)..the (sval_port_end v)} \<noteq> {}"
    if "sval_proto v = p" "p = L4_TCP \<or> p = L4_UDP" "service_value_ok v" for v p
    using that by (auto simp: service_value_ok_def)
  consider "sval_proto a = L4_ANY" | "sval_proto a \<noteq> L4_ANY" "sval_proto b = L4_ANY"
    | "sval_proto a \<noteq> L4_ANY" "sval_proto b \<noteq> L4_ANY" "sval_proto a \<noteq> sval_proto b"
    | p where "sval_proto a = p" "sval_proto b = p" "p = L4_TCP \<or> p = L4_UDP"
    | "sval_proto a = L4_ICMP" "sval_proto b = L4_ICMP"
    | "sval_proto a = L4_IP_IP" "sval_proto b = L4_IP_IP"
    by (cases "sval_proto a"; cases "sval_proto b") auto
  then show ?thesis
  proof cases
    case 1
    then show ?thesis by (simp add: service_covers_def sem)
  next
    case 2
    then show ?thesis using any by (simp add: service_covers_def sem)
  next
    case 3
    have "service_sem b \<noteq> {}"
      using ne [of b, OF _ assms(2)] port_ne [of b, OF refl _ assms(2)]
      by (cases "sval_proto b") (simp_all add: service_sem_def)
    then obtain x where x: "x \<in> service_sem b" by blast
    from flow_protocol [OF x 3(2)] flow_protocol [of x a] 3 have "x \<notin> service_sem a" by auto
    with x have "\<not> service_sem b \<subseteq> service_sem a" by blast
    with 3 show ?thesis by (simp add: service_covers_def)
  next
    case 4
    then show ?thesis by (rule ports)
  next
    case 5
    then show ?thesis by (simp add: service_covers_def sem icmp)
  next
    case 6
    with assms show ?thesis by (simp add: service_covers_def service_value_ok_def sem)
  qed
qed

lemma address_covers_sem:
  assumes "address_ok a" "address_ok b"
  shows "address_covers a b = Inr (address_sem b \<subseteq> address_sem a)"
proof -
  have ip: "Ip ` {s..e} \<subseteq> Ip ` {s'..e'} \<longleftrightarrow> {s..e} \<subseteq> {s'..e'}" for s e s' e'
    by (intro inj_image_subset_iff) (simp add: inj_def)
  show ?thesis
  proof (cases a; cases b)
    fix s e s' e' assume "a = AddressSpan s e" "b = AddressSpan s' e'"
    then show ?thesis using assms by (auto simp: ip)
  next
    fix d s e assume "a = FqdnValue d" "b = AddressSpan s e"
    then have "Ip s \<in> address_sem b" "Ip s \<notin> address_sem a" "address_covers a b = Inr False"
      using assms by auto
    then show ?thesis by auto
  qed auto
qed

interpretation addr: coverable address_ok address_signature address_covers address_sem
proof unfold_locales
  show "address_signature a = address_signature b \<longleftrightarrow> a = b" for a b
    by (cases a; cases b) auto
  show "address_ok a \<Longrightarrow> address_sem a \<noteq> {}" for a by (cases a) auto
qed (rule address_covers_sem)

interpretation svc: coverable service_value_ok service_signature service_covers service_sem
proof unfold_locales
  show "service_value_ok v \<Longrightarrow> service_sem v \<noteq> {}" for v
    by (auto simp: service_value_ok_def service_sem_def codes_or_empty_def
        split: sdwan_l4_proto.splits)
qed (simp_all add: service_signature_inj service_covers_sem)

record packet =
  pk_src_zone :: string
  pk_dst_zone :: string
  pk_src :: endpoint
  pk_dst :: endpoint
  pk_flow :: flow

definition rule_packets :: "resolved_rule_values \<Rightarrow> packet set" where
  "rule_packets v =
     {p. pk_src_zone p \<in> nr_src_zones (rr_normalized v) \<and>
         pk_dst_zone p \<in> nr_dst_zones (rr_normalized v) \<and>
         (\<exists>a \<in> nr_src_addresses (rr_normalized v). pk_src p \<in> address_sem a) \<and>
         (\<exists>a \<in> nr_dst_addresses (rr_normalized v). pk_dst p \<in> address_sem a) \<and>
         (\<exists>s \<in> nr_services (rr_normalized v). pk_flow p \<in> service_sem s)}"

text \<open>What \<open>resolve_rule\<close> guarantees of its result.\<close>

definition resolved_ok :: "resolved_rule_values \<Rightarrow> bool" where
  "resolved_ok v \<longleftrightarrow>
     (\<forall>x \<in> set (rr_src_addresses v). address_ok (rv_value x)) \<and>
     (\<forall>x \<in> set (rr_dst_addresses v). address_ok (rv_value x)) \<and>
     (\<forall>x \<in> set (rr_services v). service_value_ok (rv_value x)) \<and>
     nr_src_addresses (rr_normalized v) = rv_value ` set (rr_src_addresses v) \<and>
     nr_dst_addresses (rr_normalized v) = rv_value ` set (rr_dst_addresses v) \<and>
     nr_services (rr_normalized v) = rv_value ` set (rr_services v) \<and>
     finite (nr_src_zones (rr_normalized v)) \<and> finite (nr_dst_zones (rr_normalized v))"

lemma str_set_covers_subset: "str_set_covers e t \<Longrightarrow> t \<subseteq> e"
  by (auto simp: str_set_covers_def split: if_splits)

lemma analyze_coverage_total:
  assumes "resolved_ok e" "resolved_ok p"
  shows "\<exists>r. analyze_coverage e p = Inr r"
proof -
  have e: "addr.oks (rr_src_addresses e)" "addr.oks (rr_dst_addresses e)" "svc.oks (rr_services e)"
    and p: "addr.oks (rr_src_addresses p)" "addr.oks (rr_dst_addresses p)" "svc.oks (rr_services p)"
    using assms by (simp_all add: resolved_ok_def)
  obtain s where s: "analyze_values_coverage address_covers address_signature SRC_ADDR_OBJECTS
      (rr_src_addresses e) (rr_src_addresses p) = Inr s"
    using addr.analysis_total [OF e(1) p(1)] by blast
  obtain d where d: "analyze_values_coverage address_covers address_signature DST_ADDR_OBJECTS
      (rr_dst_addresses e) (rr_dst_addresses p) = Inr d"
    using addr.analysis_total [OF e(2) p(2)] by blast
  obtain v where v: "analyze_values_coverage service_covers service_signature SERVICES
      (rr_services e) (rr_services p) = Inr v"
    using svc.analysis_total [OF e(3) p(3)] by blast
  show ?thesis
    by (cases s; cases d; cases v) (simp_all add: analyze_coverage_def Let_def s d v)
qed

lemma analyze_coverage_covered:
  assumes "analyze_coverage e p = Inr r" "ca_is_covered r"
  obtains src dst svc where
    "nr_action (rr_normalized e) = nr_action (rr_normalized p)"
    "str_set_covers (nr_src_zones (rr_normalized e)) (nr_src_zones (rr_normalized p))"
    "str_set_covers (nr_dst_zones (rr_normalized e)) (nr_dst_zones (rr_normalized p))"
    "analyze_values_coverage address_covers address_signature SRC_ADDR_OBJECTS
       (rr_src_addresses e) (rr_src_addresses p) = Inr (Some src)"
    "analyze_values_coverage address_covers address_signature DST_ADDR_OBJECTS
       (rr_dst_addresses e) (rr_dst_addresses p) = Inr (Some dst)"
    "analyze_values_coverage service_covers service_signature SERVICES
       (rr_services e) (rr_services p) = Inr (Some svc)"
    "ca_details r = src @ dst @ svc"
proof -
  let ?src = "analyze_values_coverage address_covers address_signature SRC_ADDR_OBJECTS
    (rr_src_addresses e) (rr_src_addresses p)"
  let ?dst = "analyze_values_coverage address_covers address_signature DST_ADDR_OBJECTS
    (rr_dst_addresses e) (rr_dst_addresses p)"
  let ?svc = "analyze_values_coverage service_covers service_signature SERVICES
    (rr_services e) (rr_services p)"
  from assms have head: "nr_action (rr_normalized e) = nr_action (rr_normalized p)"
    "str_set_covers (nr_src_zones (rr_normalized e)) (nr_src_zones (rr_normalized p))"
    "str_set_covers (nr_dst_zones (rr_normalized e)) (nr_dst_zones (rr_normalized p))"
    by (auto simp: analyze_coverage_def not_covered_def Let_def split: if_splits)
  with assms obtain src where src: "?src = Inr (Some src)"
    by (auto simp: analyze_coverage_def not_covered_def result_simps split: option.splits)
  with head assms obtain dst where dst: "?dst = Inr (Some dst)"
    by (auto simp: analyze_coverage_def not_covered_def result_simps split: option.splits)
  with src head assms obtain svc where svc: "?svc = Inr (Some svc)"
    by (auto simp: analyze_coverage_def not_covered_def result_simps split: option.splits)
  have "ca_details r = src @ dst @ svc"
    using assms(1) head src dst svc by (auto simp: analyze_coverage_def)
  then show thesis using that head src dst svc by blast
qed

lemma analyze_coverage_sound:
  assumes ok: "resolved_ok e" "resolved_ok p"
    and "analyze_coverage e p = Inr r" "ca_is_covered r"
  shows "nr_action (rr_normalized e) = nr_action (rr_normalized p) \<and> rule_packets p \<subseteq> rule_packets e"
proof -
  obtain src dst svc where
    act: "nr_action (rr_normalized e) = nr_action (rr_normalized p)"
    and z: "str_set_covers (nr_src_zones (rr_normalized e)) (nr_src_zones (rr_normalized p))"
      "str_set_covers (nr_dst_zones (rr_normalized e)) (nr_dst_zones (rr_normalized p))"
    and src: "analyze_values_coverage address_covers address_signature SRC_ADDR_OBJECTS
       (rr_src_addresses e) (rr_src_addresses p) = Inr (Some src)"
    and dst: "analyze_values_coverage address_covers address_signature DST_ADDR_OBJECTS
       (rr_dst_addresses e) (rr_dst_addresses p) = Inr (Some dst)"
    and svc: "analyze_values_coverage service_covers service_signature SERVICES
       (rr_services e) (rr_services p) = Inr (Some svc)"
    using analyze_coverage_covered [OF assms(3,4)] by metis
  note zones = str_set_covers_subset [OF z(1)] str_set_covers_subset [OF z(2)]
  have "(\<Union>a \<in> nr_src_addresses (rr_normalized p). address_sem a)
      \<subseteq> (\<Union>a \<in> nr_src_addresses (rr_normalized e). address_sem a)"
    using addr.analysis_sound [OF _ _ src] ok by (simp add: resolved_ok_def)
  moreover have "(\<Union>a \<in> nr_dst_addresses (rr_normalized p). address_sem a)
      \<subseteq> (\<Union>a \<in> nr_dst_addresses (rr_normalized e). address_sem a)"
    using addr.analysis_sound [OF _ _ dst] ok by (simp add: resolved_ok_def)
  moreover have "(\<Union>s \<in> nr_services (rr_normalized p). service_sem s)
      \<subseteq> (\<Union>s \<in> nr_services (rr_normalized e). service_sem s)"
    using svc.analysis_sound [OF _ _ svc] ok by (simp add: resolved_ok_def)
  ultimately have "rule_packets p \<subseteq> rule_packets e"
    using zones by (fastforce simp: rule_packets_def)
  with act show ?thesis by simp
qed

end
