(* ===== verification/Rule_Resolution.thy ===== *)
theory Rule_Resolution
  imports Coverage
begin

text \<open>
  What \<open>RuleValuesResolver.resolve_rule\<close> returns: exactly the values of the leaves, services
  and zones that the rule refers to (\<open>resolve_rule_exact\<close>), all well formed when the catalog
  entries passed their \<open>__post_init__\<close> checks (\<open>resolve_rule_ok\<close>).  The exact
  signature of such values identifies them (\<open>exact_signature_iff\<close>).
\<close>

section \<open>Values of the referenced objects\<close>

definition rule_address_values :: "rule_resolver \<Rightarrow> int list \<Rightarrow> address_value set" where
  "rule_address_values r ids =
     {v. \<exists>i \<in> set ids. \<exists>a. leaf_of (rs_groups r) i a \<and> address_value_from_leaf a = Inr v}"

definition rule_service_values :: "rule_resolver \<Rightarrow> int list \<Rightarrow> service_value set" where
  "rule_service_values r ids =
     {v. \<exists>i \<in> set ids. \<exists>s vs. map_of (rs_services_by_id r) i = Some s \<and>
        service_values_for i s = Inr vs \<and> v \<in> set vs}"

definition rule_zone_names :: "rule_resolver \<Rightarrow> int list \<Rightarrow> string set" where
  "rule_zone_names r ids =
     {n. \<exists>i \<in> set ids. \<exists>z. map_of (rs_zones_by_id r) i = Some z \<and> n = normalize_text (zn_name z)}"

text \<open>The resolver was built from catalog entries that exist.\<close>

definition resolver_ok :: "rule_resolver \<Rightarrow> bool" where
  "resolver_ok r \<longleftrightarrow> (\<forall>i s. map_of (rs_services_by_id r) i = Some s \<longrightarrow> service_ok s)"

lemma mk_rule_resolver_ok: "\<forall>s \<in> set ss. service_ok s \<Longrightarrow> resolver_ok (mk_rule_resolver zs ss objs)"
  by (auto simp: resolver_ok_def mk_rule_resolver_def dest: dict_of_Some_D)

lemma uint_le_or: "uint (a :: 32 word) \<le> uint (a OR b)"
  by (simp add: unsigned_or_eq or_greater_eq)

lemma span_from_network_ok: "address_ok (span_from_network n)"
  by (simp add: span_from_network_def broadcast_address_def uint_le_or)

lemma address_value_from_leaf_ok: "address_value_from_leaf a = Inr v \<Longrightarrow> address_ok v"
  by (auto simp: address_value_from_leaf_def span_from_network_ok span_from_host_def
      span_from_range_def fqdn_from_raw_def split: sdwan_addr_type.splits option.splits if_splits)


lemma traverse_concat_image:
  assumes "traverse f xs = Inr yss" "\<And>x ys. f x = Inr ys \<Longrightarrow> g ` set ys = S x"
  shows "g ` set (concat yss) = (\<Union>x \<in> set xs. S x)"
  using assms(1)
proof (induction xs arbitrary: yss)
  case Nil
  then show ?case by simp
next
  case (Cons x xs)
  then obtain ys zss where "f x = Inr ys" "traverse f xs = Inr zss" "yss = ys # zss"
    by (auto simp: bind_r_eq_Inr)
  with Cons.IH assms(2) show ?case by (simp add: image_Un)
qed

lemma resolve_address_values_exact:
  assumes "resolve_address_values r ids = Inr vs"
  shows "(\<forall>v \<in> set vs. address_ok (rv_value v)) \<and> rv_value ` set vs = rule_address_values r ids"
proof -
  let ?f = "\<lambda>i. case resolve_leaves (rs_groups r) i of
      Inl e \<Rightarrow> Inl (RuleValueNormalizationError (exc_text e))
    | Inr leaves \<Rightarrow> traverse resolved_address_value leaves"
  obtain vss where tr: "traverse ?f ids = Inr vss"
    and vs: "vs = distinct_resolved_values address_signature (concat vss)"
    using assms by (auto simp: resolve_address_values_def result_simps)
  have one: "rv_value ` set ws = {v. \<exists>a. leaf_of (rs_groups r) i a \<and> address_value_from_leaf a = Inr v}"
    if "?f i = Inr ws" for i ws
  proof -
    obtain ls where ls: "resolve_leaves (rs_groups r) i = Inr ls" "traverse resolved_address_value ls = Inr ws"
      using \<open>?f i = Inr ws\<close> by (auto split: sum.splits)
    from traverse_set [OF ls(2)]
    have "rv_value ` set ws = {v. \<exists>a \<in> set ls. address_value_from_leaf a = Inr v}"
      by (force simp: resolved_address_value_def result_simps)
    with resolve_leaves_exact [OF ls(1)] show ?thesis by auto
  qed
  have im: "rv_value ` set (concat vss) = rule_address_values r ids"
    using traverse_concat_image [OF tr one] by (auto simp: rule_address_values_def)
  have ok: "address_ok (rv_value v)" if "v \<in> set (concat vss)" for v
  proof -
    have "rv_value v \<in> rule_address_values r ids" using im that by blast
    then show ?thesis by (auto simp: rule_address_values_def intro: address_value_from_leaf_ok)
  qed
  have "rv_value ` set vs = rule_address_values r ids"
    using addr.distinct_values [of "concat vss"] ok im vs by simp
  moreover have "set vs \<subseteq> set (concat vss)"
    unfolding vs distinct_resolved_values_def by (rule distinct_by_sub)
  ultimately show ?thesis using ok by blast
qed

lemma service_port_range_ok: "service_port_range p s e = Inr v \<Longrightarrow> service_value_ok v"
  by (auto simp: service_port_range_def service_value_ok_def split: if_splits)

lemma service_icmp_ok: "cs \<noteq> [] \<Longrightarrow> service_value_ok (service_icmp (Some cs))"
  by (simp add: service_icmp_def service_value_ok_def)

lemma service_values_for_ok:
  assumes "service_ok s" "service_values_for i s = Inr vs" "v \<in> set vs"
  shows "service_value_ok v"
proof (cases "sv_l4_proto s")
  case L4_TCP
  with assms show ?thesis
    by (auto simp: service_values_for_def dest!: traverse_set intro: service_port_range_ok
        split: if_splits)
next
  case L4_UDP
  with assms show ?thesis
    by (auto simp: service_values_for_def dest!: traverse_set intro: service_port_range_ok
        split: if_splits)
next
  case L4_ICMP
  then obtain cs where "sv_codes s = Some cs" "cs \<noteq> []"
    using assms(1) by (cases "sv_codes s") (auto simp: service_ok_def service_post_init_def split: if_splits)
  with L4_ICMP assms(2,3) show ?thesis by (auto simp: service_values_for_def service_icmp_ok)
next
  case L4_ANY
  with assms show ?thesis
    by (auto simp: service_values_for_def service_any_def service_value_ok_def)
next
  case L4_IP_IP
  with assms show ?thesis
    by (auto simp: service_values_for_def service_protocol_only_def service_value_ok_def)
qed

lemma resolve_service_values_exact:
  assumes "resolver_ok r" "resolve_service_values r ids = Inr vs"
  shows "(\<forall>v \<in> set vs. service_value_ok (rv_value v)) \<and> rv_value ` set vs = rule_service_values r ids"
proof -
  let ?f = "\<lambda>i. case map_of (rs_services_by_id r) i of
      None \<Rightarrow> Inl (RuleValueNormalizationError (''Unknown service id: '' @ int_str i))
    | Some s \<Rightarrow> bind_r (service_values_for i s)
        (\<lambda>vs. Inr (map (\<lambda>v. \<lparr>rv_value = v,
           rv_evidence = \<lparr>cv_object_id = sv_id s, cv_object_name = sv_name s,
             cv_value = service_display v\<rparr>\<rparr>) vs))"
  obtain vss where tr: "traverse ?f ids = Inr vss"
    and vs: "vs = distinct_resolved_values service_signature (concat vss)"
    using assms(2) by (auto simp: resolve_service_values_def result_simps)
  have one: "rv_value ` set ws = {v. \<exists>s us. map_of (rs_services_by_id r) i = Some s \<and>
      service_values_for i s = Inr us \<and> v \<in> set us}" if "?f i = Inr ws" for i ws
  proof -
    obtain s us where "map_of (rs_services_by_id r) i = Some s" "service_values_for i s = Inr us"
      "rv_value ` set ws = set us"
      using \<open>?f i = Inr ws\<close>
      by (cases "map_of (rs_services_by_id r) i") (auto simp: bind_r_eq_Inr image_image)
    then show ?thesis by simp
  qed
  have im: "rv_value ` set (concat vss) = rule_service_values r ids"
    using traverse_concat_image [OF tr one] by (auto simp: rule_service_values_def)
  have ok: "service_value_ok (rv_value v)" if "v \<in> set (concat vss)" for v
  proof -
    have "rv_value v \<in> rule_service_values r ids" using im that by blast
    then show ?thesis
      using assms(1) by (auto simp: rule_service_values_def resolver_ok_def intro: service_values_for_ok)
  qed
  have "rv_value ` set vs = rule_service_values r ids"
    using svc.distinct_values [of "concat vss"] ok im vs by simp
  moreover have "set vs \<subseteq> set (concat vss)"
    unfolding vs distinct_resolved_values_def by (rule distinct_by_sub)
  ultimately show ?thesis using ok by blast
qed

lemma normalize_zones_exact:
  assumes "normalize_zones r ids = Inr ns"
  shows "ns = rule_zone_names r ids \<and> finite ns"
proof -
  obtain names where tr: "traverse (\<lambda>i. case map_of (rs_zones_by_id r) i of
      None \<Rightarrow> Inl (RuleValueNormalizationError (''Unknown zone id: '' @ int_str i))
    | Some z \<Rightarrow> Inr (normalize_text (zn_name z))) ids = Inr names" and ns: "ns = set names"
    using assms by (auto simp: normalize_zones_def result_simps)
  from traverse_set [OF tr] ns show ?thesis
    by (fastforce simp: rule_zone_names_def split: option.splits)
qed


section \<open>A resolved rule\<close>

lemma resolve_rule_InrD:
  assumes "resolve_rule r b = Inr v"
  shows "resolve_address_values r (rb_src_addr_objects b) = Inr (rr_src_addresses v)"
    "resolve_address_values r (rb_dst_addr_objects b) = Inr (rr_dst_addresses v)"
    "resolve_service_values r (rb_services b) = Inr (rr_services v)"
    "normalize_zones r (rb_src_zones b) = Inr (nr_src_zones (rr_normalized v))"
    "normalize_zones r (rb_dst_zones b) = Inr (nr_dst_zones (rr_normalized v))"
    "nr_action (rr_normalized v) = normalize_action (rb_action b)"
    "nr_src_addresses (rr_normalized v) = rv_value ` set (rr_src_addresses v)"
    "nr_dst_addresses (rr_normalized v) = rv_value ` set (rr_dst_addresses v)"
    "nr_services (rr_normalized v) = rv_value ` set (rr_services v)"
  using assms by (auto simp: resolve_rule_def result_simps)

lemma resolve_rule_ok:
  assumes "resolver_ok r" "resolve_rule r b = Inr v"
  shows "resolved_ok v"
  using resolve_rule_InrD [OF assms(2)] resolve_address_values_exact
    resolve_service_values_exact [OF assms(1)] normalize_zones_exact
  by (simp add: resolved_ok_def)

lemma resolve_rule_exact:
  assumes "resolver_ok r" "resolve_rule r b = Inr v"
  shows "rr_normalized v =
    \<lparr>nr_action = normalize_action (rb_action b),
     nr_src_zones = rule_zone_names r (rb_src_zones b),
     nr_dst_zones = rule_zone_names r (rb_dst_zones b),
     nr_src_addresses = rule_address_values r (rb_src_addr_objects b),
     nr_dst_addresses = rule_address_values r (rb_dst_addr_objects b),
     nr_services = rule_service_values r (rb_services b)\<rparr>"
proof -
  note d = resolve_rule_InrD [OF assms(2)]
  show ?thesis
    using d(6-9) normalize_zones_exact [OF d(4)] normalize_zones_exact [OF d(5)]
      resolve_address_values_exact [OF d(1)] resolve_address_values_exact [OF d(2)]
      resolve_service_values_exact [OF assms(1) d(3)]
    by (intro normalized_rule_values.equality) simp_all
qed

lemma resolve_rule_Inl:
  assumes "resolve_rule r b = Inl e"
  shows "\<exists>m. e = RuleValueNormalizationError m"
proof -
  have leaf: "\<exists>m. e = RuleValueNormalizationError m" if "address_value_from_leaf a = Inl e" for a e
    using that by (auto simp: address_value_from_leaf_def span_from_range_def
        split: sdwan_addr_type.splits option.splits if_splits)
  have a: "\<exists>m. e = RuleValueNormalizationError m" if "resolve_address_values r ids = Inl e" for ids e
  proof -
    obtain i where "(case resolve_leaves (rs_groups r) i of
        Inl e \<Rightarrow> Inl (RuleValueNormalizationError (exc_text e))
      | Inr leaves \<Rightarrow> traverse resolved_address_value leaves) = Inl e"
      using \<open>resolve_address_values r ids = Inl e\<close> by (auto simp: resolve_address_values_def bind_r_eq_Inl traverse_Inl_iff)
    then show ?thesis
      by (cases "resolve_leaves (rs_groups r) i")
        (auto simp: traverse_Inl_iff resolved_address_value_def bind_r_eq_Inl dest: leaf)
  qed
  have range: "\<exists>m. e = RuleValueNormalizationError m" if "service_port_range p x y = Inl e" for p x y e
    using that by (auto simp: service_port_range_def split: if_splits)
  have vf: "\<exists>m. e = RuleValueNormalizationError m" if "service_values_for i s = Inl e" for i s e
    using that range
    by (fastforce simp: service_values_for_def traverse_Inl_iff split: sdwan_l4_proto.splits if_splits)
  have s: "\<exists>m. e = RuleValueNormalizationError m" if "resolve_service_values r ids = Inl e" for ids e
  proof -
    obtain i where i: "(case map_of (rs_services_by_id r) i of
        None \<Rightarrow> Inl (RuleValueNormalizationError (''Unknown service id: '' @ int_str i))
      | Some s \<Rightarrow> bind_r (service_values_for i s)
          (\<lambda>vs. Inr (map (\<lambda>v. \<lparr>rv_value = v,
             rv_evidence = \<lparr>cv_object_id = sv_id s, cv_object_name = sv_name s,
               cv_value = service_display v\<rparr>\<rparr>) vs))) = Inl e"
      using \<open>resolve_service_values r ids = Inl e\<close> by (auto simp: resolve_service_values_def bind_r_eq_Inl traverse_Inl_iff)
    then show ?thesis
      by (cases "map_of (rs_services_by_id r) i") (auto simp: bind_r_eq_Inl dest: vf)
  qed
  have z: "\<exists>m. e = RuleValueNormalizationError m" if "normalize_zones r ids = Inl e" for ids e
  proof -
    obtain i where "(case map_of (rs_zones_by_id r) i of
        None \<Rightarrow> Inl (RuleValueNormalizationError (''Unknown zone id: '' @ int_str i))
      | Some z \<Rightarrow> Inr (normalize_text (zn_name z))) = Inl e"
      using \<open>normalize_zones r ids = Inl e\<close> by (auto simp: normalize_zones_def bind_r_eq_Inl traverse_Inl_iff)
    then show ?thesis by (cases "map_of (rs_zones_by_id r) i") auto
  qed
  from assms show ?thesis
    by (auto simp: resolve_rule_def result_simps dest: a s z)
qed


section \<open>The exact signature\<close>

lemma mset_map_sorted_list_inj:
  fixes A B :: "'a :: linorder set"
  assumes "finite A" "finite B" "inj f"
  shows "mset (map f (sorted_list_of_set A)) = mset (map f (sorted_list_of_set B)) \<longleftrightarrow> A = B"
proof
  assume "mset (map f (sorted_list_of_set A)) = mset (map f (sorted_list_of_set B))"
  then have "set (map f (sorted_list_of_set A)) = set (map f (sorted_list_of_set B))"
    by (metis mset_eq_setD)
  with assms show "A = B" by (simp add: inj_image_eq_iff)
qed simp

lemma py_str_address_signature:
  "py_str (address_signature x) = py_str (address_signature y) \<longleftrightarrow> address_signature x = address_signature y"
  by (cases x; cases y) (simp_all only: address_signature.simps py_str.simps py_repr_inj)

lemma py_str_service_signature:
  "py_str (service_signature x) = py_str (service_signature y) \<longleftrightarrow> service_signature x = service_signature y"
  by (simp only: service_signature_def py_str.simps py_repr_inj)

lemma mset_signatures:
  assumes "finite A" "finite B"
    and "\<And>p q. p \<in> sg ` (A \<union> B) \<Longrightarrow> q \<in> sg ` (A \<union> B) \<Longrightarrow> py_str p = py_str q \<Longrightarrow> p = q"
    and "\<And>x y. x \<in> A \<union> B \<Longrightarrow> y \<in> A \<union> B \<Longrightarrow> sg x = sg y \<Longrightarrow> x = y"
    and "mset (map (\<lambda>v. UStr (py_str v)) (sorted_signatures sg A)) =
      mset (map (\<lambda>v. UStr (py_str v)) (sorted_signatures sg B))"
  shows "A = B"
proof -
  from assms(5) have "set (map (\<lambda>v. UStr (py_str v)) (sorted_signatures sg A)) =
      set (map (\<lambda>v. UStr (py_str v)) (sorted_signatures sg B))"
    by (metis mset_eq_setD)
  then have "(\<lambda>v. UStr (py_str v)) ` sg ` A = (\<lambda>v. UStr (py_str v)) ` sg ` B"
    using assms(1,2) by (simp add: sorted_signatures_def)
  moreover have "inj_on (\<lambda>v. UStr (py_str v)) (sg ` (A \<union> B))"
    using assms(3) by (auto intro!: inj_onI)
  ultimately have "sg ` A = sg ` B"
    by (metis Un_upper1 Un_upper2 image_mono inj_on_image_eq_iff)
  moreover have "inj_on sg (A \<union> B)" using assms(4) by (intro inj_onI) blast
  ultimately show ?thesis by (metis Un_upper1 Un_upper2 inj_on_image_eq_iff)
qed

lemma resolved_ok_values:
  assumes "resolved_ok v"
  shows "finite (nr_src_zones (rr_normalized v))" "finite (nr_dst_zones (rr_normalized v))"
    "finite (nr_src_addresses (rr_normalized v))" "finite (nr_dst_addresses (rr_normalized v))"
    "finite (nr_services (rr_normalized v))"
    "\<forall>x \<in> nr_services (rr_normalized v). service_value_ok x"
  using assms by (auto simp: resolved_ok_def)

lemma signature_payload_wf: "dict_wf (signature_payload n)"
  by (auto simp: signature_payload_def)

lemma signature_payload_fields:
  assumes "tree_of (signature_payload n) = tree_of (signature_payload m)"
  shows "nr_action n = nr_action m"
    "mset (map UStr (sorted_list_of_set (nr_src_zones n))) = mset (map UStr (sorted_list_of_set (nr_src_zones m)))"
    "mset (map UStr (sorted_list_of_set (nr_dst_zones n))) = mset (map UStr (sorted_list_of_set (nr_dst_zones m)))"
    "mset (map (\<lambda>v. UStr (py_str v)) (sorted_signatures address_signature (nr_src_addresses n))) =
       mset (map (\<lambda>v. UStr (py_str v)) (sorted_signatures address_signature (nr_src_addresses m)))"
    "mset (map (\<lambda>v. UStr (py_str v)) (sorted_signatures address_signature (nr_dst_addresses n))) =
       mset (map (\<lambda>v. UStr (py_str v)) (sorted_signatures address_signature (nr_dst_addresses m)))"
    "mset (map (\<lambda>v. UStr (py_str v)) (sorted_signatures service_signature (nr_services n))) =
       mset (map (\<lambda>v. UStr (py_str v)) (sorted_signatures service_signature (nr_services m)))"
proof -
  let ?m = "\<lambda>z. case tree_of (signature_payload z) of UObj m \<Rightarrow> m"
  have eq: "?m n k = ?m m k" for k using assms by simp
  have dv: "(tree_of \<circ> (\<lambda>z. DVal (PStr z))) = UStr" "(tree_of \<circ> DVal) = (\<lambda>v. UStr (py_str v))"
    by auto
  show "nr_action n = nr_action m"
    using eq [of "''action''"] by (simp add: signature_payload_def)
  show "mset (map UStr (sorted_list_of_set (nr_src_zones n))) = mset (map UStr (sorted_list_of_set (nr_src_zones m)))"
    using eq [of "''src_zones''"] by (simp add: signature_payload_def dv del: mset_map)
  show "mset (map UStr (sorted_list_of_set (nr_dst_zones n))) = mset (map UStr (sorted_list_of_set (nr_dst_zones m)))"
    using eq [of "''dst_zones''"] by (simp add: signature_payload_def dv del: mset_map)
  show "mset (map (\<lambda>v. UStr (py_str v)) (sorted_signatures address_signature (nr_src_addresses n))) =
       mset (map (\<lambda>v. UStr (py_str v)) (sorted_signatures address_signature (nr_src_addresses m)))"
    using eq [of "''src_addresses''"] by (simp add: signature_payload_def dv del: mset_map)
  show "mset (map (\<lambda>v. UStr (py_str v)) (sorted_signatures address_signature (nr_dst_addresses n))) =
       mset (map (\<lambda>v. UStr (py_str v)) (sorted_signatures address_signature (nr_dst_addresses m)))"
    using eq [of "''dst_addresses''"] by (simp add: signature_payload_def dv del: mset_map)
  show "mset (map (\<lambda>v. UStr (py_str v)) (sorted_signatures service_signature (nr_services n))) =
       mset (map (\<lambda>v. UStr (py_str v)) (sorted_signatures service_signature (nr_services m)))"
    using eq [of "''services''"] by (simp add: signature_payload_def dv del: mset_map)
qed

definition no_signature_collision ::
  "(string \<Rightarrow> string) \<Rightarrow> resolved_rule_values \<Rightarrow> resolved_rule_values \<Rightarrow> bool" where
  "no_signature_collision sha v w \<longleftrightarrow>
     no_collision sha (signature_payload (rr_normalized v)) (signature_payload (rr_normalized w))"

lemma exact_signature_iff:
  assumes v: "resolved_ok v" and w: "resolved_ok w" and "no_signature_collision sha v w"
  shows "exact_signature sha (rr_normalized v) = exact_signature sha (rr_normalized w) \<longleftrightarrow>
    rr_normalized v = rr_normalized w"
proof
  let ?n = "rr_normalized v" and ?m = "rr_normalized w"
  assume "exact_signature sha ?n = exact_signature sha ?m"
  then have tree: "tree_of (signature_payload ?n) = tree_of (signature_payload ?m)"
    using assms(3) json_hash_iff [OF signature_payload_wf signature_payload_wf]
    by (simp add: exact_signature_def no_signature_collision_def)
  note f = signature_payload_fields [OF tree] and v' = resolved_ok_values [OF v]
    and w' = resolved_ok_values [OF w]
  have inj: "inj UStr" by (simp add: inj_def)
  have a: "address_signature x = address_signature y \<Longrightarrow> x = y" for x y
    by (cases x; cases y) auto
  have sz: "nr_src_zones ?n = nr_src_zones ?m" "nr_dst_zones ?n = nr_dst_zones ?m"
    using f(2,3) v'(1,2) w'(1,2) mset_map_sorted_list_inj [OF _ _ inj] by blast+
  have sa: "nr_src_addresses ?n = nr_src_addresses ?m"
    by (rule mset_signatures [OF v'(3) w'(3) _ _ f(4)]) (auto simp: py_str_address_signature a)
  have da: "nr_dst_addresses ?n = nr_dst_addresses ?m"
    by (rule mset_signatures [OF v'(4) w'(4) _ _ f(5)]) (auto simp: py_str_address_signature a)
  have sv: "nr_services ?n = nr_services ?m"
  proof (rule mset_signatures [OF v'(5) w'(5) _ _ f(6)])
    show "x = y" if "x \<in> nr_services ?n \<union> nr_services ?m" "y \<in> nr_services ?n \<union> nr_services ?m"
      "service_signature x = service_signature y" for x y
      using that service_signature_inj v'(6) w'(6) by blast
    show "p = q" if "p \<in> service_signature ` (nr_services ?n \<union> nr_services ?m)"
      "q \<in> service_signature ` (nr_services ?n \<union> nr_services ?m)" "py_str p = py_str q" for p q
      using that py_str_service_signature by auto
  qed
  from f(1) sz sa da sv show "?n = ?m" by (intro normalized_rule_values.equality) simp_all
qed simp

end
