(* ===== verification/Rules_Comparer.thy ===== *)
theory Rules_Comparer
  imports Rule_Resolution
begin

text \<open>
  \<open>RulesComparer\<close> of \<open>src/src/app/modules/execute/services/rules_comparer.py\<close>: the
  existing rules of the SD-WAN policy catalog are normalized once, broken ones are excluded, the
  others indexed by exact signature; a planned rule is reported as an exact match, as covered, as
  new, or as an error.

  Every catalog rule is either indexed or excluded (\<open>mk_comparer_partition\<close>), and
  \<open>compare_rule_cases\<close> characterises the four outcomes by the values of the rules; the
  consequences for traffic follow from \<open>analyze_coverage_sound\<close>.
\<close>

section \<open>Rules and comparison results\<close>

record planned_rule_draft = rule_body +
  pd_name :: string

record sdwan_rule = rule_body +
  sr_id :: int

record sdwan_policy_catalog =
  pc_target_id :: string
  pc_rules :: "sdwan_rule list"
  pc_zones :: "sdwan_zone list"
  pc_services :: "sdwan_service list"
  pc_address_objects :: "sdwan_addr_object list"

datatype rule_match_status = EXACT_MATCH | COVERED_MATCH | NEW_RULE | MATCH_ERROR

record excluded_existing_rule =
  xr_sdwan_rule_id :: int
  xr_reason :: string

record rule_compare_result =
  rc_match_status :: rule_match_status
  rc_matched_sdwan_rule_id :: "int option"
  rc_match_info :: string
  rc_coverage_details :: "coverage_detail list"

record resolved_sdwan_rule =
  rx_rule :: sdwan_rule
  rx_values :: resolved_rule_values

record rules_comparer =
  rcm_resolver :: rule_resolver
  rcm_resolved :: "resolved_sdwan_rule list"
  rcm_index :: "(string \<times> resolved_sdwan_rule list) list"
  rcm_excluded :: "excluded_existing_rule list"


section \<open>Loading the existing rules\<close>

definition load_rule ::
  "(string \<Rightarrow> string) \<Rightarrow> rules_comparer \<Rightarrow> sdwan_rule \<Rightarrow> exc + rules_comparer" where
  "load_rule sha c rule =
     (case resolve_rule (rcm_resolver c) rule of
        Inl (RuleValueNormalizationError m) \<Rightarrow>
          Inr (c\<lparr>rcm_excluded := rcm_excluded c @ [\<lparr>xr_sdwan_rule_id = sr_id rule, xr_reason = m\<rparr>]\<rparr>)
      | Inl e \<Rightarrow> Inl e
      | Inr v \<Rightarrow>
          (let resolved = \<lparr>rx_rule = rule, rx_values = v\<rparr> in
           Inr (c\<lparr>rcm_resolved := rcm_resolved c @ [resolved],
                 rcm_index := group_append (exact_signature sha (rr_normalized v)) resolved
                   (rcm_index c)\<rparr>)))"

fun load_rules ::
  "(string \<Rightarrow> string) \<Rightarrow> rules_comparer \<Rightarrow> sdwan_rule list \<Rightarrow> exc + rules_comparer" where
  "load_rules sha c [] = Inr c"
| "load_rules sha c (r # rs) = bind_r (load_rule sha c r) (\<lambda>c'. load_rules sha c' rs)"

definition mk_comparer ::
  "(string \<Rightarrow> string) \<Rightarrow> sdwan_policy_catalog \<Rightarrow> exc + rules_comparer" where
  "mk_comparer sha cat = load_rules sha
     \<lparr>rcm_resolver = mk_rule_resolver (pc_zones cat) (pc_services cat) (pc_address_objects cat),
      rcm_resolved = [], rcm_index = [], rcm_excluded = []\<rparr> (pc_rules cat)"


section \<open>Comparing a planned rule\<close>

definition match_error_result :: "exc \<Rightarrow> rule_compare_result" where
  "match_error_result e =
     \<lparr>rc_match_status = MATCH_ERROR, rc_matched_sdwan_rule_id = None,
      rc_match_info = ''Error through rules matching: '' @ exc_text e, rc_coverage_details = []\<rparr>"

definition exact_match_result :: "int \<Rightarrow> rule_compare_result" where
  "exact_match_result i =
     \<lparr>rc_match_status = EXACT_MATCH, rc_matched_sdwan_rule_id = Some i,
      rc_match_info = ''Found exact match sdwan rule '' @ int_str i @ '' for planned rule'',
      rc_coverage_details = []\<rparr>"

definition covered_match_result :: "int \<Rightarrow> coverage_detail list \<Rightarrow> rule_compare_result" where
  "covered_match_result i ds =
     \<lparr>rc_match_status = COVERED_MATCH, rc_matched_sdwan_rule_id = Some i,
      rc_match_info = ''Found cover sdwan rule '' @ int_str i @ '' for planned rule'',
      rc_coverage_details = ds\<rparr>"

definition new_rule_result :: rule_compare_result where
  "new_rule_result =
     \<lparr>rc_match_status = NEW_RULE, rc_matched_sdwan_rule_id = None,
      rc_match_info = ''Clearly new rule for migration'', rc_coverage_details = []\<rparr>"

fun first_cover ::
  "resolved_sdwan_rule list \<Rightarrow> resolved_rule_values \<Rightarrow> exc + (int \<times> coverage_detail list) option" where
  "first_cover [] planned = Inr None"
| "first_cover (e # es) planned =
     bind_r (analyze_coverage (rx_values e) planned)
       (\<lambda>a. if ca_is_covered a then Inr (Some (sr_id (rx_rule e), ca_details a))
            else first_cover es planned)"

definition compare_rule ::
  "(string \<Rightarrow> string) \<Rightarrow> rules_comparer \<Rightarrow> 'a rule_body_scheme \<Rightarrow> exc + rule_compare_result" where
  "compare_rule sha c rule =
     (case resolve_rule (rcm_resolver c) rule of
        Inl (RuleValueNormalizationError m) \<Rightarrow> Inr (match_error_result (RuleValueNormalizationError m))
      | Inl e \<Rightarrow> Inl e
      | Inr planned \<Rightarrow>
          (case dict_get (rcm_index c) (exact_signature sha (rr_normalized planned)) [] of
             e # es \<Rightarrow> Inr (exact_match_result (sr_id (rx_rule e)))
           | [] \<Rightarrow>
               bind_r (first_cover (rcm_resolved c) planned)
                 (\<lambda>r. case r of
                    Some (i, ds) \<Rightarrow> Inr (covered_match_result i ds)
                  | None \<Rightarrow> Inr new_rule_result)))"


section \<open>The loaded rules\<close>

definition resolved_rules :: "rule_resolver \<Rightarrow> sdwan_rule list \<Rightarrow> resolved_sdwan_rule list" where
  "resolved_rules r rules =
     [\<lparr>rx_rule = x, rx_values = projr (resolve_rule r x)\<rparr>. x \<leftarrow> rules, \<exists>v. resolve_rule r x = Inr v]"

definition excluded_rules :: "rule_resolver \<Rightarrow> sdwan_rule list \<Rightarrow> excluded_existing_rule list" where
  "excluded_rules r rules =
     [\<lparr>xr_sdwan_rule_id = sr_id x, xr_reason = exc_text (projl (resolve_rule r x))\<rparr>.
        x \<leftarrow> rules, \<exists>e. resolve_rule r x = Inl e]"

lemma load_rules_eq:
  assumes "\<And>k. dict_get (rcm_index c) k [] =
      filter (\<lambda>x. exact_signature sha (rr_normalized (rx_values x)) = k) (rcm_resolved c)"
  shows "\<exists>c'. load_rules sha c rules = Inr c' \<and> rcm_resolver c' = rcm_resolver c \<and>
    rcm_resolved c' = rcm_resolved c @ resolved_rules (rcm_resolver c) rules \<and>
    rcm_excluded c' = rcm_excluded c @ excluded_rules (rcm_resolver c) rules \<and>
    (\<forall>k. dict_get (rcm_index c') k [] =
       filter (\<lambda>x. exact_signature sha (rr_normalized (rx_values x)) = k) (rcm_resolved c'))"
  using assms
proof (induction rules arbitrary: c)
  case Nil
  then show ?case by (simp add: resolved_rules_def excluded_rules_def)
next
  case (Cons x rules)
  show ?case
  proof (cases "resolve_rule (rcm_resolver c) x")
    case (Inl e)
    then obtain m where e: "e = RuleValueNormalizationError m" using resolve_rule_Inl by blast
    let ?c = "c\<lparr>rcm_excluded := rcm_excluded c @ [\<lparr>xr_sdwan_rule_id = sr_id x, xr_reason = m\<rparr>]\<rparr>"
    have step: "load_rule sha c x = Inr ?c" using Inl e by (simp add: load_rule_def)
    from Cons.IH [of ?c] Cons.prems step Inl e show ?thesis
      by (auto simp: resolved_rules_def excluded_rules_def)
  next
    case (Inr v)
    let ?x = "\<lparr>rx_rule = x, rx_values = v\<rparr>"
    let ?c = "c\<lparr>rcm_resolved := rcm_resolved c @ [?x],
      rcm_index := group_append (exact_signature sha (rr_normalized v)) ?x (rcm_index c)\<rparr>"
    have step: "load_rule sha c x = Inr ?c" using Inr by (simp add: load_rule_def Let_def)
    have "dict_get (rcm_index ?c) k [] =
        filter (\<lambda>x. exact_signature sha (rr_normalized (rx_values x)) = k) (rcm_resolved ?c)" for k
      using Cons.prems by (simp add: dict_simps)
    from Cons.IH [OF this] step Inr show ?thesis
      by (auto simp: resolved_rules_def excluded_rules_def)
  qed
qed

lemma mk_comparer_total:
  obtains c where "mk_comparer sha cat = Inr c"
    "rcm_resolver c = mk_rule_resolver (pc_zones cat) (pc_services cat) (pc_address_objects cat)"
    "rcm_resolved c = resolved_rules (rcm_resolver c) (pc_rules cat)"
    "rcm_excluded c = excluded_rules (rcm_resolver c) (pc_rules cat)"
    "\<And>k. dict_get (rcm_index c) k [] =
       filter (\<lambda>x. exact_signature sha (rr_normalized (rx_values x)) = k) (rcm_resolved c)"
proof -
  let ?c = "\<lparr>rcm_resolver = mk_rule_resolver (pc_zones cat) (pc_services cat) (pc_address_objects cat),
      rcm_resolved = [], rcm_index = [], rcm_excluded = []\<rparr>"
  have "\<And>k. dict_get (rcm_index ?c) k [] =
      filter (\<lambda>x. exact_signature sha (rr_normalized (rx_values x)) = k) (rcm_resolved ?c)" by simp
  from load_rules_eq [OF this, of "pc_rules cat"] that show thesis
    by (auto simp: mk_comparer_def)
qed

text \<open>Every existing rule is compared against or listed as excluded, exactly once, in order.\<close>

lemma resolved_excluded_partition:
  "mset (map (sr_id \<circ> rx_rule) (resolved_rules r rules)) + mset (map xr_sdwan_rule_id (excluded_rules r rules))
     = mset (map sr_id rules)"
proof (induction rules)
  case Nil
  then show ?case by (simp add: resolved_rules_def excluded_rules_def)
next
  case (Cons x rules)
  then show ?case
    by (cases "resolve_rule r x") (auto simp: resolved_rules_def excluded_rules_def)
qed

lemma mk_comparer_partition:
  assumes "mk_comparer sha cat = Inr c"
  shows "mset (map (sr_id \<circ> rx_rule) (rcm_resolved c)) + mset (map xr_sdwan_rule_id (rcm_excluded c))
    = mset (map sr_id (pc_rules cat))"
proof -
  obtain c' where "mk_comparer sha cat = Inr c'"
    "rcm_resolved c' = resolved_rules (rcm_resolver c') (pc_rules cat)"
    "rcm_excluded c' = excluded_rules (rcm_resolver c') (pc_rules cat)"
    using mk_comparer_total [of sha cat] by metis
  with assms show ?thesis by (simp add: resolved_excluded_partition del: mset_map)
qed


section \<open>The comparer state and the four outcomes\<close>

definition comparer_ok :: "(string \<Rightarrow> string) \<Rightarrow> rules_comparer \<Rightarrow> bool" where
  "comparer_ok sha c \<longleftrightarrow> resolver_ok (rcm_resolver c) \<and>
     (\<forall>x \<in> set (rcm_resolved c). resolved_ok (rx_values x)) \<and>
     (\<forall>k. dict_get (rcm_index c) k [] =
       filter (\<lambda>x. exact_signature sha (rr_normalized (rx_values x)) = k) (rcm_resolved c))"

lemma mk_comparer_ok:
  assumes "\<forall>s \<in> set (pc_services cat). service_ok s" "mk_comparer sha cat = Inr c"
  shows "comparer_ok sha c"
proof -
  obtain c' where c': "mk_comparer sha cat = Inr c'"
    "rcm_resolver c' = mk_rule_resolver (pc_zones cat) (pc_services cat) (pc_address_objects cat)"
    "rcm_resolved c' = resolved_rules (rcm_resolver c') (pc_rules cat)"
    "\<And>k. dict_get (rcm_index c') k [] =
       filter (\<lambda>x. exact_signature sha (rr_normalized (rx_values x)) = k) (rcm_resolved c')"
    using mk_comparer_total [of sha cat] by metis
  have ok: "resolver_ok (rcm_resolver c')" using assms(1) c'(2) by (simp add: mk_rule_resolver_ok)
  have "resolved_ok (rx_values x)" if "x \<in> set (rcm_resolved c')" for x
  proof -
    from that c'(3) have "\<exists>y :: sdwan_rule. resolve_rule (rcm_resolver c') y = Inr (rx_values x)"
      by (auto simp: resolved_rules_def)
    with ok show ?thesis using resolve_rule_ok by blast
  qed
  with ok c' assms(2) show ?thesis by (simp add: comparer_ok_def)
qed

definition covered_by :: "resolved_rule_values \<Rightarrow> resolved_rule_values \<Rightarrow> bool" where
  "covered_by e p \<longleftrightarrow> (\<exists>a. analyze_coverage e p = Inr a \<and> ca_is_covered a)"

lemma first_cover_cases:
  assumes "\<forall>x \<in> set es. resolved_ok (rx_values x)" "resolved_ok p"
  shows "first_cover es p =
    Inr (map_option (\<lambda>x. (sr_id (rx_rule x), ca_details (projr (analyze_coverage (rx_values x) p))))
      (List.find (\<lambda>x. covered_by (rx_values x) p) es))"
  using assms(1)
proof (induction es)
  case Nil
  then show ?case by simp
next
  case (Cons e es)
  obtain a where a: "analyze_coverage (rx_values e) p = Inr a"
    using analyze_coverage_total assms(2) Cons.prems by (metis list.set_intros(1))
  with Cons show ?case by (auto simp: covered_by_def)
qed

lemma compare_rule_cases:
  assumes ok: "comparer_ok sha c" and res: "compare_rule sha c rule = Inr r"
  obtains (error) e where "resolve_rule (rcm_resolver c) rule = Inl e" "r = match_error_result e"
  | (exact) v x where "resolve_rule (rcm_resolver c) rule = Inr v" "resolved_ok v"
      "List.find (\<lambda>x. exact_signature sha (rr_normalized (rx_values x)) =
         exact_signature sha (rr_normalized v)) (rcm_resolved c) = Some x"
      "r = exact_match_result (sr_id (rx_rule x))"
  | (covered) v x a where "resolve_rule (rcm_resolver c) rule = Inr v" "resolved_ok v"
      "\<forall>x \<in> set (rcm_resolved c). exact_signature sha (rr_normalized (rx_values x)) \<noteq>
         exact_signature sha (rr_normalized v)"
      "List.find (\<lambda>x. covered_by (rx_values x) v) (rcm_resolved c) = Some x"
      "analyze_coverage (rx_values x) v = Inr a" "ca_is_covered a"
      "r = covered_match_result (sr_id (rx_rule x)) (ca_details a)"
  | (new) v where "resolve_rule (rcm_resolver c) rule = Inr v" "resolved_ok v"
      "\<forall>x \<in> set (rcm_resolved c). exact_signature sha (rr_normalized (rx_values x)) \<noteq>
         exact_signature sha (rr_normalized v) \<and> \<not> covered_by (rx_values x) v"
      "r = new_rule_result"
proof (cases "resolve_rule (rcm_resolver c) rule")
  case (Inl e)
  then obtain m where "e = RuleValueNormalizationError m" using resolve_rule_Inl by blast
  with Inl res error show ?thesis by (simp add: compare_rule_def)
next
  case (Inr v)
  have v: "resolved_ok v" using ok Inr resolve_rule_ok by (auto simp: comparer_ok_def)
  let ?same = "\<lambda>x. exact_signature sha (rr_normalized (rx_values x)) =
    exact_signature sha (rr_normalized v)"
  have idx: "dict_get (rcm_index c) (exact_signature sha (rr_normalized v)) [] =
      filter ?same (rcm_resolved c)"
    using ok by (simp add: comparer_ok_def)
  show ?thesis
  proof (cases "filter ?same (rcm_resolved c)")
    case (Cons x xs)
    have "List.find ?same ys = Some x" if "filter ?same ys = x # xs" for ys
      using that by (induction ys) (auto split: if_splits)
    with Cons have "List.find ?same (rcm_resolved c) = Some x" by blast
    with Inr v idx Cons res exact show ?thesis by (simp add: compare_rule_def)
  next
    case Nil
    then have no: "\<forall>x \<in> set (rcm_resolved c). \<not> ?same x" by (simp add: filter_empty_conv)
    have fc: "first_cover (rcm_resolved c) v = Inr (map_option
        (\<lambda>x. (sr_id (rx_rule x), ca_details (projr (analyze_coverage (rx_values x) v))))
        (List.find (\<lambda>x. covered_by (rx_values x) v) (rcm_resolved c)))"
      using ok v by (intro first_cover_cases) (simp_all add: comparer_ok_def)
    show ?thesis
    proof (cases "List.find (\<lambda>x. covered_by (rx_values x) v) (rcm_resolved c)")
      case None
      then have "\<forall>x \<in> set (rcm_resolved c). \<not> covered_by (rx_values x) v"
        by (simp add: find_None_iff')
      moreover have "r = new_rule_result"
        using Inr idx Nil fc None res by (simp add: compare_rule_def)
      ultimately show ?thesis using new [OF Inr v] no by blast
    next
      case (Some x)
      then obtain a where a: "analyze_coverage (rx_values x) v = Inr a" "ca_is_covered a"
        using find_Some_D [OF Some] by (auto simp: covered_by_def)
      then have "r = covered_match_result (sr_id (rx_rule x)) (ca_details a)"
        using Inr idx Nil fc Some res by (simp add: compare_rule_def)
      with covered [OF Inr v no Some a] show ?thesis by blast
    qed
  qed
qed

lemma compare_rule_total:
  assumes "comparer_ok sha c"
  shows "\<exists>r. compare_rule sha c rule = Inr r"
proof (cases "resolve_rule (rcm_resolver c) rule")
  case (Inl e)
  then obtain m where "e = RuleValueNormalizationError m" using resolve_rule_Inl by blast
  with Inl show ?thesis by (simp add: compare_rule_def)
next
  case (Inr v)
  then have "resolved_ok v" using assms resolve_rule_ok by (auto simp: comparer_ok_def)
  then obtain r where "first_cover (rcm_resolved c) v = Inr r"
    using assms first_cover_cases [of "rcm_resolved c" v] unfolding comparer_ok_def by blast
  with Inr show ?thesis
    by (simp add: compare_rule_def split: list.split option.split)
qed

end
