(* ===== verification/Ttl_Store.thy ===== *)
theory Ttl_Store
  imports Errors
begin

text \<open>
  \<open>InMemoryTTLStore\<close> (\<open>src/src/app/infrastructure/cache/ttl_store.py\<close>), the runtime
  cache behind the repositories, and the port it implements
  (\<open>src/src/app/infrastructure/interfaces/cache.py\<close>).

  The store keeps one \<open>cachetools.TTLCache\<close> per namespace.  That class is third-party: its
  operations are the record \<open>ttl_cache_ops\<close>, and what the store relies on is the locale
  \<open>ttl_cache\<close> (a value that was set is returned, other keys are kept or dropped, time only
  drops entries).  From these laws the store gives the contract \<open>runtime_cache_store\<close> that the
  repositories use.  A list of entries with their deadlines, bounded in size, satisfies the laws
  and is the instance the examples run on.
\<close>

section \<open>Entries and the store\<close>

record cache_entry_meta =
  cm_created_at :: timestamp
  cm_last_touched_at :: timestamp
  cm_expires_at :: timestamp
  cm_ttl_seconds :: int

definition seconds_left :: "cache_entry_meta \<Rightarrow> timestamp \<Rightarrow> int" where
  "seconds_left m now = max 0 (cm_expires_at m - now)"

record 'v cache_entry =
  ce_data :: 'v
  ce_meta :: cache_entry_meta

record ('c, 'v) ttl_cache_ops =
  tc_new :: "int \<Rightarrow> int \<Rightarrow> 'c"
  tc_expire :: "timestamp \<Rightarrow> 'c \<Rightarrow> 'c"
  tc_get :: "timestamp \<Rightarrow> 'c \<Rightarrow> uuid \<Rightarrow> 'v cache_entry option"
  tc_set :: "timestamp \<Rightarrow> uuid \<Rightarrow> 'v cache_entry \<Rightarrow> 'c \<Rightarrow> 'c"
  tc_pop :: "uuid \<Rightarrow> 'c \<Rightarrow> 'c"
  tc_keys :: "timestamp \<Rightarrow> 'c \<Rightarrow> uuid list"

record 'c ttl_store =
  ts_ttl_seconds :: int
  ts_max_entries :: int
  ts_caches :: "(string \<times> 'c) list"

definition mk_ttl_store :: "int \<Rightarrow> int \<Rightarrow> exc + 'c ttl_store" where
  "mk_ttl_store ttl max_entries =
     (if ttl \<le> 0 then Inl (ValueError ''Runtime cache ttl_seconds must be positive'')
      else if max_entries \<le> 0 then Inl (ValueError ''Runtime cache max_entries must be positive'')
      else Inr \<lparr>ts_ttl_seconds = ttl, ts_max_entries = max_entries, ts_caches = []\<rparr>)"

text \<open>\<open>_get_cache\<close>: the namespace's cache, created on first use, with stale entries expired.\<close>

definition get_cache :: "('c, 'v) ttl_cache_ops \<Rightarrow> timestamp \<Rightarrow> 'c ttl_store \<Rightarrow> string \<Rightarrow> 'c" where
  "get_cache ops now s ns =
     tc_expire ops now (case map_of (ts_caches s) ns of
       None \<Rightarrow> tc_new ops (ts_max_entries s) (ts_ttl_seconds s) | Some c \<Rightarrow> c)"

definition put_cache :: "string \<Rightarrow> 'c \<Rightarrow> 'c ttl_store \<Rightarrow> 'c ttl_store" where
  "put_cache ns c s = s\<lparr>ts_caches := AList.update ns c (ts_caches s)\<rparr>"

definition build_entry ::
  "'c ttl_store \<Rightarrow> timestamp \<Rightarrow> 'v \<Rightarrow> cache_entry_meta option \<Rightarrow> 'v cache_entry" where
  "build_entry s now data prev =
     \<lparr>ce_data = data,
      ce_meta = \<lparr>cm_created_at = (case prev of None \<Rightarrow> now | Some m \<Rightarrow> cm_created_at m),
        cm_last_touched_at = now, cm_expires_at = now + ts_ttl_seconds s,
        cm_ttl_seconds = ts_ttl_seconds s\<rparr>\<rparr>"

definition store_get ::
  "('c, 'v) ttl_cache_ops \<Rightarrow> timestamp \<Rightarrow> 'c ttl_store \<Rightarrow> string \<Rightarrow> uuid \<Rightarrow> bool \<Rightarrow>
   'v option \<times> 'c ttl_store" where
  "store_get ops now s ns k touch =
     (let c = get_cache ops now s ns in
      case tc_get ops now c k of
        None \<Rightarrow> (None, put_cache ns c s)
      | Some e \<Rightarrow>
          (Some (ce_data e),
           put_cache ns (if touch then tc_set ops now k (build_entry s now (ce_data e) (Some (ce_meta e))) c
                         else c) s))"

definition store_set ::
  "('c, 'v) ttl_cache_ops \<Rightarrow> timestamp \<Rightarrow> 'c ttl_store \<Rightarrow> string \<Rightarrow> uuid \<Rightarrow> 'v \<Rightarrow> 'c ttl_store" where
  "store_set ops now s ns k v =
     (let c = get_cache ops now s ns in
      put_cache ns (tc_set ops now k (build_entry s now v (map_option ce_meta (tc_get ops now c k))) c) s)"

definition store_delete ::
  "('c, 'v) ttl_cache_ops \<Rightarrow> timestamp \<Rightarrow> 'c ttl_store \<Rightarrow> string \<Rightarrow> uuid \<Rightarrow> 'c ttl_store" where
  "store_delete ops now s ns k = put_cache ns (tc_pop ops k (get_cache ops now s ns)) s"

definition store_touch ::
  "('c, 'v) ttl_cache_ops \<Rightarrow> timestamp \<Rightarrow> 'c ttl_store \<Rightarrow> string \<Rightarrow> uuid \<Rightarrow> bool \<times> 'c ttl_store" where
  "store_touch ops now s ns k =
     (let c = get_cache ops now s ns in
      case tc_get ops now c k of
        None \<Rightarrow> (False, put_cache ns c s)
      | Some e \<Rightarrow>
          (True, put_cache ns (tc_set ops now k (build_entry s now (ce_data e) (Some (ce_meta e))) c) s))"

definition store_get_meta ::
  "('c, 'v) ttl_cache_ops \<Rightarrow> timestamp \<Rightarrow> 'c ttl_store \<Rightarrow> string \<Rightarrow> uuid \<Rightarrow>
   cache_entry_meta option \<times> 'c ttl_store" where
  "store_get_meta ops now s ns k =
     (let c = get_cache ops now s ns in (map_option ce_meta (tc_get ops now c k), put_cache ns c s))"

definition store_keys ::
  "('c, 'v) ttl_cache_ops \<Rightarrow> timestamp \<Rightarrow> 'c ttl_store \<Rightarrow> string \<Rightarrow> uuid list \<times> 'c ttl_store" where
  "store_keys ops now s ns =
     (let c = get_cache ops now s ns in (tc_keys ops now c, put_cache ns c s))"

text \<open>What is stored: the live entry of a key, read without changing anything.\<close>

definition store_entry ::
  "('c, 'v) ttl_cache_ops \<Rightarrow> timestamp \<Rightarrow> 'c ttl_store \<Rightarrow> string \<Rightarrow> uuid \<Rightarrow> 'v cache_entry option" where
  "store_entry ops now s ns k =
     (case map_of (ts_caches s) ns of None \<Rightarrow> None | Some c \<Rightarrow> tc_get ops now c k)"

definition store_view ::
  "('c, 'v) ttl_cache_ops \<Rightarrow> timestamp \<Rightarrow> 'c ttl_store \<Rightarrow> string \<Rightarrow> uuid \<Rightarrow> 'v option" where
  "store_view ops now s ns k = map_option ce_data (store_entry ops now s ns k)"


section \<open>The contract of the port\<close>

locale runtime_cache_store =
  fixes ok :: "'s \<Rightarrow> bool"
    and view :: "timestamp \<Rightarrow> 's \<Rightarrow> string \<Rightarrow> uuid \<Rightarrow> 'v option"
    and get :: "timestamp \<Rightarrow> 's \<Rightarrow> string \<Rightarrow> uuid \<Rightarrow> bool \<Rightarrow> 'v option \<times> 's"
    and set_value :: "timestamp \<Rightarrow> 's \<Rightarrow> string \<Rightarrow> uuid \<Rightarrow> 'v \<Rightarrow> 's"
  assumes get_value: "ok s \<Longrightarrow> fst (get t s ns k b) = view t s ns k"
    and get_ok: "ok s \<Longrightarrow> ok (snd (get t s ns k b))"
    and get_same: "ok s \<Longrightarrow> view t (snd (get t s ns k b)) ns k = view t s ns k"
    and get_other: "ok s \<Longrightarrow> view t (snd (get t s ns k b)) ns' k' = Some v \<Longrightarrow> view t s ns' k' = Some v"
    and set_ok: "ok s \<Longrightarrow> ok (set_value t s ns k v)"
    and set_same: "ok s \<Longrightarrow> view t (set_value t s ns k v) ns k = Some v"
    and set_other: "ok s \<Longrightarrow> (ns', k') \<noteq> (ns, k) \<Longrightarrow>
      view t (set_value t s ns k v) ns' k' = Some w \<Longrightarrow> view t s ns' k' = Some w"
    and later: "ok s \<Longrightarrow> t \<le> t' \<Longrightarrow> view t' s ns k = Some v \<Longrightarrow> view t s ns k = Some v"

locale ttl_cache =
  fixes ops :: "('c, 'v) ttl_cache_ops"
    and inv :: "'c \<Rightarrow> bool"
  assumes new_inv: "0 < n \<Longrightarrow> 0 < ttl \<Longrightarrow> inv (tc_new ops n ttl)"
    and new_get: "tc_get ops t (tc_new ops n ttl) k = None"
    and expire_inv: "inv c \<Longrightarrow> inv (tc_expire ops t c)"
    and expire_get: "inv c \<Longrightarrow> t \<le> t' \<Longrightarrow> tc_get ops t' (tc_expire ops t c) k = tc_get ops t' c k"
    and set_inv: "inv c \<Longrightarrow> inv (tc_set ops t k e c)"
    and set_get: "inv c \<Longrightarrow> tc_get ops t (tc_set ops t k e c) k = Some e"
    and set_keep: "inv c \<Longrightarrow> k' \<noteq> k \<Longrightarrow> tc_get ops t' (tc_set ops t k e c) k' = Some e' \<Longrightarrow>
      tc_get ops t' c k' = Some e'"
    and pop_inv: "inv c \<Longrightarrow> inv (tc_pop ops k c)"
    and pop_get: "inv c \<Longrightarrow> tc_get ops t (tc_pop ops k c) k' = (if k' = k then None else tc_get ops t c k')"
    and time: "inv c \<Longrightarrow> t \<le> t' \<Longrightarrow> tc_get ops t' c k = Some e \<Longrightarrow> tc_get ops t c k = Some e"
begin

definition store_ok :: "'c ttl_store \<Rightarrow> bool" where
  "store_ok s \<longleftrightarrow> 0 < ts_ttl_seconds s \<and> 0 < ts_max_entries s \<and> (\<forall>(ns, c) \<in> set (ts_caches s). inv c)"

lemma get_cache_inv: "store_ok s \<Longrightarrow> inv (get_cache ops t s ns)"
  by (auto simp: store_ok_def get_cache_def new_inv split: option.split
      dest!: map_of_SomeD intro!: expire_inv)

lemma get_cache_get:
  assumes "store_ok s" "t \<le> t'"
  shows "tc_get ops t' (get_cache ops t s ns) k = store_entry ops t' s ns k"
proof (cases "map_of (ts_caches s) ns")
  case None
  then show ?thesis
    using assms by (simp add: get_cache_def store_entry_def store_ok_def expire_get new_inv new_get)
next
  case (Some c)
  then have "inv c" using assms(1) by (auto simp: store_ok_def dest: map_of_SomeD)
  with Some assms(2) show ?thesis by (simp add: get_cache_def store_entry_def expire_get)
qed

lemma set_keep_entry:
  assumes "store_ok s" "k' \<noteq> k" "tc_get ops t (tc_set ops t k e (get_cache ops t s ns)) k' = Some e'"
  shows "store_entry ops t s ns k' = Some e'"
  using set_keep [OF get_cache_inv [OF assms(1)] assms(2,3)] get_cache_get [OF assms(1) order_refl]
  by simp

lemma put_cache_ok: "store_ok s \<Longrightarrow> inv c \<Longrightarrow> store_ok (put_cache ns c s)"
proof -
  assume s: "store_ok s" "inv c"
  have "(n, d) \<in> set (AList.update ns c l) \<Longrightarrow> (n, d) \<in> set l \<or> d = c" for n d l
    by (induction l) (auto split: if_splits)
  with s show ?thesis by (fastforce simp: store_ok_def put_cache_def)
qed

lemma put_cache_entry:
  "store_entry ops t (put_cache ns c s) ns' k =
     (if ns' = ns then tc_get ops t c k else store_entry ops t s ns' k)"
  by (simp add: store_entry_def put_cache_def update_conv)

lemma put_cache_fields [simp]:
  "ts_ttl_seconds (put_cache ns c s) = ts_ttl_seconds s"
  "ts_max_entries (put_cache ns c s) = ts_max_entries s"
  by (simp_all add: put_cache_def)

text \<open>The effect of each operation on the live entries.\<close>

lemma store_set_entry:
  assumes "store_ok s"
  shows "store_entry ops t (store_set ops t s ns k v) ns k =
      Some (build_entry s t v (map_option ce_meta (store_entry ops t s ns k)))"
    and "(ns', k') \<noteq> (ns, k) \<Longrightarrow> store_entry ops t (store_set ops t s ns k v) ns' k' = Some e \<Longrightarrow>
      store_entry ops t s ns' k' = Some e"
    and "store_ok (store_set ops t s ns k v)"
proof -
  note inv = get_cache_inv [OF assms]
  show "store_entry ops t (store_set ops t s ns k v) ns k =
      Some (build_entry s t v (map_option ce_meta (store_entry ops t s ns k)))"
    using get_cache_get [OF assms order_refl] inv
    by (simp add: store_set_def Let_def put_cache_entry set_get)
  show "store_entry ops t s ns' k' = Some e"
    if "(ns', k') \<noteq> (ns, k)" "store_entry ops t (store_set ops t s ns k v) ns' k' = Some e"
    using that set_keep_entry [OF assms, of k' k t _ ns e]
    by (cases "ns' = ns") (auto simp: store_set_def Let_def put_cache_entry)
  show "store_ok (store_set ops t s ns k v)"
    using assms inv by (simp add: store_set_def Let_def put_cache_ok set_inv)
qed

lemma store_get_entry:
  assumes "store_ok s"
  shows "fst (store_get ops t s ns k b) = store_view ops t s ns k"
    and "store_ok (snd (store_get ops t s ns k b))"
    and "store_view ops t (snd (store_get ops t s ns k b)) ns k = store_view ops t s ns k"
    and "store_view ops t (snd (store_get ops t s ns k b)) ns' k' = Some v \<Longrightarrow>
      store_view ops t s ns' k' = Some v"
proof -
  note inv = get_cache_inv [OF assms] and g = get_cache_get [OF assms order_refl]
  show "fst (store_get ops t s ns k b) = store_view ops t s ns k"
    by (simp add: store_get_def store_view_def Let_def g split: option.split)
  show "store_ok (snd (store_get ops t s ns k b))"
    using assms inv by (simp add: store_get_def Let_def put_cache_ok set_inv split: option.split)
  show "store_view ops t (snd (store_get ops t s ns k b)) ns k = store_view ops t s ns k"
    by (simp add: store_get_def store_view_def Let_def g put_cache_entry set_get [OF inv] build_entry_def
        split: option.split)
  show "store_view ops t s ns' k' = Some v"
    if "store_view ops t (snd (store_get ops t s ns k b)) ns' k' = Some v"
  proof (cases "ns' = ns \<and> k' = k")
    case True
    with that \<open>store_view ops t (snd (store_get ops t s ns k b)) ns k = store_view ops t s ns k\<close>
    show ?thesis by simp
  next
    case False
    obtain e where e: "store_entry ops t (snd (store_get ops t s ns k b)) ns' k' = Some e" "v = ce_data e"
      using \<open>store_view ops t (snd (store_get ops t s ns k b)) ns' k' = Some v\<close>
      by (auto simp: store_view_def)
    have "store_entry ops t s ns' k' = Some e"
      using False e(1) set_keep_entry [OF assms, of k' k t _ ns e]
      by (cases "store_entry ops t s ns k"; cases b; cases "ns' = ns")
        (simp_all add: store_get_def Let_def put_cache_entry g)
    with e(2) show ?thesis by (simp add: store_view_def)
  qed
qed

lemma store_view_later:
  assumes "store_ok s" "t \<le> t'" "store_view ops t' s ns k = Some v"
  shows "store_view ops t s ns k = Some v"
proof -
  from assms(3) obtain c e where c: "map_of (ts_caches s) ns = Some c" "tc_get ops t' c k = Some e"
    "ce_data e = v" by (auto simp: store_view_def store_entry_def split: option.splits)
  from c(1) assms(1) have "inv c" by (auto simp: store_ok_def dest: map_of_SomeD)
  from time [OF this assms(2) c(2)] c show ?thesis by (simp add: store_view_def store_entry_def)
qed

end

sublocale ttl_cache \<subseteq> store: runtime_cache_store store_ok "store_view ops" "store_get ops" "store_set ops"
proof unfold_locales
  fix s t ns k b ns' k' v w t'
  assume s: "store_ok s"
  show "fst (store_get ops t s ns k b) = store_view ops t s ns k" by (rule store_get_entry [OF s])
  show "store_ok (snd (store_get ops t s ns k b))" by (rule store_get_entry [OF s])
  show "store_view ops t (snd (store_get ops t s ns k b)) ns k = store_view ops t s ns k"
    by (rule store_get_entry [OF s])
  show "store_view ops t (snd (store_get ops t s ns k b)) ns' k' = Some v \<Longrightarrow>
      store_view ops t s ns' k' = Some v" by (rule store_get_entry [OF s])
  show "store_ok (store_set ops t s ns k v)" by (rule store_set_entry [OF s])
  show "store_view ops t (store_set ops t s ns k v) ns k = Some v"
    by (simp add: store_view_def store_set_entry [OF s] build_entry_def)
  show "(ns', k') \<noteq> (ns, k) \<Longrightarrow> store_view ops t (store_set ops t s ns k v) ns' k' = Some w \<Longrightarrow>
      store_view ops t s ns' k' = Some w"
    using store_set_entry(2) [OF s] by (fastforce simp: store_view_def)
  show "t \<le> t' \<Longrightarrow> store_view ops t' s ns k = Some v \<Longrightarrow> store_view ops t s ns k = Some v"
    by (rule store_view_later [OF s])
qed

context ttl_cache
begin

lemma runtime_store: "runtime_cache_store store_ok (store_view ops) (store_get ops) (store_set ops)"
  by unfold_locales

end


section \<open>A cache that satisfies the laws\<close>

text \<open>
  Entries with their deadlines, oldest first; setting a key removes its old entry, drops the
  oldest entries while the cache is full and appends the new one.
\<close>

record 'v deadline_cache =
  dc_max :: nat
  dc_ttl :: int
  dc_items :: "(uuid \<times> timestamp \<times> 'v cache_entry) list"

definition dc_lookup :: "timestamp \<Rightarrow> 'v deadline_cache \<Rightarrow> uuid \<Rightarrow> 'v cache_entry option" where
  "dc_lookup t c k = (case map_of (dc_items c) k of
     Some (d, e) \<Rightarrow> if t < d then Some e else None | None \<Rightarrow> None)"

definition dc_insert :: "timestamp \<Rightarrow> uuid \<Rightarrow> 'v cache_entry \<Rightarrow> 'v deadline_cache \<Rightarrow> 'v deadline_cache" where
  "dc_insert t k e c =
     (let rest = filter (\<lambda>(k', d, _). k' \<noteq> k) (dc_items c) in
      c\<lparr>dc_items := drop (Suc (length rest) - dc_max c) rest @ [(k, t + dc_ttl c, e)]\<rparr>)"

definition deadline_ops :: "('v deadline_cache, 'v) ttl_cache_ops" where
  "deadline_ops =
     \<lparr>tc_new = (\<lambda>n ttl. \<lparr>dc_max = nat n, dc_ttl = ttl, dc_items = []\<rparr>),
      tc_expire = (\<lambda>t c. c\<lparr>dc_items := filter (\<lambda>(k, d, _). t < d) (dc_items c)\<rparr>),
      tc_get = dc_lookup,
      tc_set = dc_insert,
      tc_pop = (\<lambda>k c. c\<lparr>dc_items := filter (\<lambda>(k', d, _). k' \<noteq> k) (dc_items c)\<rparr>),
      tc_keys = (\<lambda>t c. map fst (filter (\<lambda>(k, d, _). t < d) (dc_items c)))\<rparr>"

definition dc_inv :: "'v deadline_cache \<Rightarrow> bool" where
  "dc_inv c \<longleftrightarrow> 0 < dc_ttl c \<and> distinct (map fst (dc_items c))"

lemma dc_lookup_iff:
  "distinct (map fst (dc_items c)) \<Longrightarrow>
     dc_lookup t c k = Some e \<longleftrightarrow> (\<exists>d. (k, d, e) \<in> set (dc_items c) \<and> t < d)"
proof -
  assume "distinct (map fst (dc_items c))"
  then have "map_of (dc_items c) k = Some (d, e') \<longleftrightarrow> (k, d, e') \<in> set (dc_items c)" for d e'
    by simp
  moreover have "dc_lookup t c k = Some e \<longleftrightarrow> (\<exists>d. map_of (dc_items c) k = Some (d, e) \<and> t < d)"
    by (cases "map_of (dc_items c) k") (auto simp: dc_lookup_def split: if_splits)
  ultimately show ?thesis by simp
qed

lemma distinct_fst_filter: "distinct (map fst xs) \<Longrightarrow> distinct (map fst (filter P xs))"
  by (rule distinct_map_filter)

lemma dc_insert_items:
  "dc_items (dc_insert t k e c) = drop (Suc (length (filter (\<lambda>(k', d, _). k' \<noteq> k) (dc_items c))) - dc_max c)
     (filter (\<lambda>(k', d, _). k' \<noteq> k) (dc_items c)) @ [(k, t + dc_ttl c, e)]"
  "dc_ttl (dc_insert t k e c) = dc_ttl c"
  by (simp_all add: dc_insert_def Let_def)

lemma dc_insert_inv: "dc_inv c \<Longrightarrow> dc_inv (dc_insert t k e c)"
proof -
  assume c: "dc_inv c"
  let ?r = "filter (\<lambda>(k', d, _). k' \<noteq> k) (dc_items c)"
  let ?n = "Suc (length ?r) - dc_max c"
  have "distinct (map fst ?r)" using c by (simp add: dc_inv_def distinct_fst_filter)
  then have "distinct (map fst (drop ?n ?r))" by (simp add: drop_map [symmetric])
  moreover have "k \<notin> set (map fst (drop ?n ?r))"
  proof -
    have "set (drop ?n ?r) \<subseteq> set ?r" by (rule set_drop_subset)
    then show ?thesis by auto
  qed
  ultimately show ?thesis using c by (simp add: dc_inv_def dc_insert_items)
qed

interpretation deadline: ttl_cache deadline_ops dc_inv
proof unfold_locales
  fix c :: "'a deadline_cache" and n ttl t t' k k' and e e' :: "'a cache_entry"
  show "0 < n \<Longrightarrow> 0 < ttl \<Longrightarrow> dc_inv (tc_new deadline_ops n ttl)"
    by (simp add: deadline_ops_def dc_inv_def)
  show "tc_get deadline_ops t (tc_new deadline_ops n ttl) k = None"
    by (simp add: deadline_ops_def dc_lookup_def)
  assume c: "dc_inv c"
  then have d: "distinct (map fst (dc_items c))" by (simp add: dc_inv_def)
  show "dc_inv (tc_expire deadline_ops t c)"
    using c by (simp add: deadline_ops_def dc_inv_def distinct_fst_filter)
  show "dc_inv (tc_set deadline_ops t k e c)"
    using c by (simp add: deadline_ops_def dc_insert_inv)
  show "dc_inv (tc_pop deadline_ops k c)"
    using c by (simp add: deadline_ops_def dc_inv_def distinct_fst_filter)
  show "tc_get deadline_ops t' (tc_expire deadline_ops t c) k = tc_get deadline_ops t' c k" if "t \<le> t'"
  proof -
    have "dc_lookup t' (c\<lparr>dc_items := filter (\<lambda>(k, d, _). t < d) (dc_items c)\<rparr>) k = Some e \<longleftrightarrow>
        dc_lookup t' c k = Some e" for e
      using that d by (auto simp: dc_lookup_iff distinct_fst_filter)
    then show ?thesis by (simp add: deadline_ops_def) (metis not_None_eq)
  qed
  show "tc_get deadline_ops t (tc_set deadline_ops t k e c) k = Some e"
    using dc_insert_inv [OF c, of t k e] c
    by (auto simp: deadline_ops_def dc_lookup_iff dc_inv_def dc_insert_items)
  show "tc_get deadline_ops t' (tc_set deadline_ops t k e c) k' = Some e' \<Longrightarrow>
      tc_get deadline_ops t' c k' = Some e'" if "k' \<noteq> k"
    using dc_insert_inv [OF c, of t k e] c that
    by (auto simp: deadline_ops_def dc_lookup_iff dc_inv_def dc_insert_items dest!: in_set_dropD)
  show "tc_get deadline_ops t (tc_pop deadline_ops k c) k' =
      (if k' = k then None else tc_get deadline_ops t c k')"
  proof -
    have "dc_lookup t (c\<lparr>dc_items := filter (\<lambda>(k', d, _). k' \<noteq> k) (dc_items c)\<rparr>) k' = Some e \<longleftrightarrow>
        k' \<noteq> k \<and> dc_lookup t c k' = Some e" for e
      using d by (auto simp: dc_lookup_iff distinct_fst_filter)
    then show ?thesis by (simp add: deadline_ops_def) (metis not_None_eq)
  qed
  show "tc_get deadline_ops t' c k = Some e \<Longrightarrow> tc_get deadline_ops t c k = Some e" if "t \<le> t'"
    using that d by (auto simp: deadline_ops_def dc_lookup_iff)
qed

end
