(* ===== verification/Execute_Plan.thy ===== *)
theory Execute_Plan
  imports Rules_Comparer Ttl_Store
begin

text \<open>
  The execute plan: its entities and value objects
  (\<open>src/src/app/modules/execute/domain\<close>) and its repository over the runtime cache
  (\<open>adapters/runtime_cache/repositories.py\<close>).

  A draft survives its trip through the JSON payload (\<open>draft_roundtrip\<close>).  The repository is
  proved against the contract of the cache port, in the locale \<open>execute_repository\<close>: what was
  added is listed, filtered and in priority order; an update changes one rule of one plan; an entry
  that expired or was evicted is absent, never stale.
\<close>

section \<open>Drafts and their JSON payload\<close>

datatype draft_value = DvText string | DvList "pyval list"

definition draft_value_text :: "draft_value \<Rightarrow> string" where
  "draft_value_text v = (case v of DvText s \<Rightarrow> s
     | DvList xs \<Rightarrow> ''['' @ join '', '' (map py_repr xs) @ '']'')"

definition parse_action :: "draft_value \<Rightarrow> exc + rule_action" where
  "parse_action v =
     (case v of
        DvText s \<Rightarrow>
          if s = ''ACCEPT'' then Inr ACT_ACCEPT else if s = ''REJECT'' then Inr ACT_REJECT
          else if s = ''DROP'' then Inr ACT_DROP
          else Inl (ValueError (py_repr (PStr s) @ '' is not a valid SdwanRuleAction''))
      | DvList xs \<Rightarrow> Inl (ValueError (draft_value_text v @ '' is not a valid SdwanRuleAction'')))"

text \<open>\<open>int(item)\<close>: an integer, or a decimal literal with optional sign and digit groups.\<close>

definition parse_int_literal :: "string \<Rightarrow> int option" where
  "parse_int_literal s =
     (let t = strip s;
          (neg, body) = (case t of c # cs \<Rightarrow>
             if c = CHR ''-'' then (True, cs) else if c = CHR ''+'' then (False, cs) else (False, t)
           | [] \<Rightarrow> (False, []));
          groups = split_on (CHR ''_'') body
      in if \<forall>g \<in> set groups. g \<noteq> [] \<and> (\<forall>c \<in> set g. is_digit c)
         then Some (if neg then - int (nat_val (concat groups)) else int (nat_val (concat groups)))
         else None)"

definition py_int :: "pyval \<Rightarrow> exc + int" where
  "py_int v =
     (case v of
        PInt i \<Rightarrow> Inr i
      | PStr s \<Rightarrow> (case parse_int_literal s of Some i \<Rightarrow> Inr i
          | None \<Rightarrow> Inl (ValueError (''invalid literal for int() with base 10: '' @ py_repr v)))
      | PNone \<Rightarrow> Inl (TypeError
          (''int() argument must be a string, a bytes-like object or a real number, not '' @ [quote1] @ ''NoneType'' @ [quote1]))
      | PTuple vs \<Rightarrow> Inl (TypeError
          (''int() argument must be a string, a bytes-like object or a real number, not '' @ [quote1] @ ''tuple'' @ [quote1])))"

definition to_int_list :: "draft_value \<Rightarrow> exc + int list" where
  "to_int_list v = (case v of
     DvText s \<Rightarrow> Inl (ValueError (''Expected list, not <class '' @ [quote1] @ ''str'' @ [quote1] @ ''>''))
   | DvList xs \<Rightarrow> traverse py_int xs)"

definition draft_key :: "(string \<times> draft_value) list \<Rightarrow> string \<Rightarrow> exc + draft_value" where
  "draft_key d k = (case map_of d k of None \<Rightarrow> Inl (KeyError (py_repr (PStr k))) | Some v \<Rightarrow> Inr v)"

definition draft_from_dict :: "(string \<times> draft_value) list \<Rightarrow> exc + planned_rule_draft" where
  "draft_from_dict d =
     bind_r (draft_key d ''name'') (\<lambda>name.
     bind_r (bind_r (draft_key d ''action'') parse_action) (\<lambda>action.
     bind_r (bind_r (draft_key d ''src_zones'') to_int_list) (\<lambda>sz.
     bind_r (bind_r (draft_key d ''dst_zones'') to_int_list) (\<lambda>dz.
     bind_r (bind_r (draft_key d ''src_addr_objects'') to_int_list) (\<lambda>sa.
     bind_r (bind_r (draft_key d ''dst_addr_objects'') to_int_list) (\<lambda>da.
     bind_r (bind_r (draft_key d ''services'') to_int_list) (\<lambda>sv.
       Inr \<lparr>rb_action = action, rb_src_zones = sz, rb_dst_zones = dz, rb_src_addr_objects = sa,
            rb_dst_addr_objects = da, rb_services = sv, pd_name = draft_value_text name\<rparr>)))))))"

definition draft_to_dict :: "planned_rule_draft \<Rightarrow> (string \<times> draft_value) list" where
  "draft_to_dict p =
     [(''name'', DvText (pd_name p)), (''action'', DvText (action_value (rb_action p))),
      (''src_zones'', DvList (map PInt (rb_src_zones p))),
      (''dst_zones'', DvList (map PInt (rb_dst_zones p))),
      (''src_addr_objects'', DvList (map PInt (rb_src_addr_objects p))),
      (''dst_addr_objects'', DvList (map PInt (rb_dst_addr_objects p))),
      (''services'', DvList (map PInt (rb_services p)))]"

lemma to_int_list_ints [simp]: "to_int_list (DvList (map PInt xs)) = Inr xs"
proof -
  have "traverse py_int (map PInt xs) = Inr xs"
    by (induction xs) (simp_all add: py_int_def)
  then show ?thesis by (simp add: to_int_list_def)
qed

lemma parse_action_value [simp]: "parse_action (DvText (action_value a)) = Inr a"
  by (cases a) (simp_all add: parse_action_def)

lemma draft_to_dict_roundtrip: "draft_from_dict (draft_to_dict p) = Inr p"
  by (simp add: draft_from_dict_def draft_to_dict_def draft_key_def draft_value_text_def)


section \<open>Plans and plan rules\<close>

datatype rule_push_status = PUSH_PENDING | PUSH_SUCCEEDED | PUSH_FAILED

datatype plan_push_status = PLAN_PENDING | PLAN_EXECUTED

record execute_plan =
  ep_id :: uuid
  ep_mapping_scope_id :: uuid
  ep_catalog_fingerprint :: string
  ep_created_at :: timestamp
  ep_push_status :: plan_push_status

record execute_plan_rule =
  er_id :: uuid
  er_execute_plan_id :: uuid
  er_mapping_scope_rule_id :: uuid
  er_priority :: int
  er_draft :: planned_rule_draft
  er_matched_sdwan_rule_id :: "int option"
  er_match_status :: rule_match_status
  er_match_info :: string
  er_coverage_details :: "coverage_detail list"
  er_push_status :: rule_push_status
  er_pushed_sdwan_rule_id :: "int option"
  er_push_error :: "string option"

definition create_plan :: "uuid \<Rightarrow> timestamp \<Rightarrow> uuid \<Rightarrow> string \<Rightarrow> execute_plan" where
  "create_plan i now scope_id fingerprint =
     \<lparr>ep_id = i, ep_mapping_scope_id = scope_id, ep_catalog_fingerprint = fingerprint,
      ep_created_at = now, ep_push_status = PLAN_PENDING\<rparr>"

definition mark_push_executed :: "execute_plan \<Rightarrow> execute_plan" where
  "mark_push_executed p = p\<lparr>ep_push_status := PLAN_EXECUTED\<rparr>"

definition create_plan_rule ::
  "uuid \<Rightarrow> uuid \<Rightarrow> uuid \<Rightarrow> int \<Rightarrow> planned_rule_draft \<Rightarrow> rule_compare_result \<Rightarrow> execute_plan_rule" where
  "create_plan_rule i plan_id scope_rule_id priority draft m =
     \<lparr>er_id = i, er_execute_plan_id = plan_id, er_mapping_scope_rule_id = scope_rule_id,
      er_priority = priority, er_draft = draft,
      er_matched_sdwan_rule_id = rc_matched_sdwan_rule_id m, er_match_status = rc_match_status m,
      er_match_info = rc_match_info m, er_coverage_details = rc_coverage_details m,
      er_push_status = PUSH_PENDING, er_pushed_sdwan_rule_id = None, er_push_error = None\<rparr>"

definition mark_push_succeeded :: "int \<Rightarrow> execute_plan_rule \<Rightarrow> execute_plan_rule" where
  "mark_push_succeeded i r =
     r\<lparr>er_push_status := PUSH_SUCCEEDED, er_pushed_sdwan_rule_id := Some i, er_push_error := None\<rparr>"

definition mark_push_failed :: "string \<Rightarrow> execute_plan_rule \<Rightarrow> execute_plan_rule" where
  "mark_push_failed e r =
     r\<lparr>er_push_status := PUSH_FAILED, er_pushed_sdwan_rule_id := None, er_push_error := Some e\<rparr>"


section \<open>The repository\<close>

record plan_cache_entry =
  pe_plan :: execute_plan
  pe_rules :: "(uuid \<times> execute_plan_rule) list"

record ('s, 'v) cache_port =
  cp_get :: "timestamp \<Rightarrow> 's \<Rightarrow> string \<Rightarrow> uuid \<Rightarrow> bool \<Rightarrow> 'v option \<times> 's"
  cp_set :: "timestamp \<Rightarrow> 's \<Rightarrow> string \<Rightarrow> uuid \<Rightarrow> 'v \<Rightarrow> 's"

type_synonym 's plan_port = "('s, plan_cache_entry) cache_port"

definition EXECUTE_PLAN_NAMESPACE :: string where
  "EXECUTE_PLAN_NAMESPACE = ''execute.plan''"

definition get_plan_entry ::
  "'s plan_port \<Rightarrow> timestamp \<Rightarrow> 's \<Rightarrow> uuid \<Rightarrow> bool \<Rightarrow> plan_cache_entry option \<times> 's" where
  "get_plan_entry port now s i touch = cp_get port now s EXECUTE_PLAN_NAMESPACE i touch"

definition set_plan_entry :: "'s plan_port \<Rightarrow> timestamp \<Rightarrow> 's \<Rightarrow> uuid \<Rightarrow> plan_cache_entry \<Rightarrow> 's" where
  "set_plan_entry port now s i e = cp_set port now s EXECUTE_PLAN_NAMESPACE i e"

fun index_plan_rules ::
  "uuid \<Rightarrow> (uuid \<times> execute_plan_rule) list \<Rightarrow> execute_plan_rule list \<Rightarrow>
   exc + (uuid \<times> execute_plan_rule) list" where
  "index_plan_rules plan_id d [] = Inr d"
| "index_plan_rules plan_id d (r # rs) =
     (if er_execute_plan_id r \<noteq> plan_id then Inl (ValueError ''ExecutePlanRule belongs to another plan'')
      else if er_id r \<in> fst ` set d then
        Inl (ValueError (''Execute plan rule '' @ uuid_text (er_id r) @ '' already exists''))
      else index_plan_rules plan_id (AList.update (er_id r) r d) rs)"

definition add_plan_with_rules ::
  "'s plan_port \<Rightarrow> timestamp \<Rightarrow> 's \<Rightarrow> execute_plan \<Rightarrow> execute_plan_rule list \<Rightarrow> (exc + execute_plan) \<times> 's" where
  "add_plan_with_rules port now s plan rules =
     (case get_plan_entry port now s (ep_id plan) False of
        (Some _, s1) \<Rightarrow>
          (Inl (ValueError (''Execute plan '' @ uuid_text (ep_id plan) @ '' already exists'')), s1)
      | (None, s1) \<Rightarrow>
          (case index_plan_rules (ep_id plan) [] rules of
             Inl e \<Rightarrow> (Inl e, s1)
           | Inr d \<Rightarrow>
               (Inr plan, set_plan_entry port now s1 (ep_id plan) \<lparr>pe_plan = plan, pe_rules = d\<rparr>)))"

definition get_plan ::
  "'s plan_port \<Rightarrow> timestamp \<Rightarrow> 's \<Rightarrow> uuid \<Rightarrow> execute_plan option \<times> 's" where
  "get_plan port now s i =
     (case get_plan_entry port now s i True of (e, s1) \<Rightarrow> (map_option pe_plan e, s1))"

definition update_plan ::
  "'s plan_port \<Rightarrow> timestamp \<Rightarrow> 's \<Rightarrow> execute_plan \<Rightarrow> (exc + execute_plan) \<times> 's" where
  "update_plan port now s plan =
     (case get_plan_entry port now s (ep_id plan) True of
        (None, s1) \<Rightarrow> (Inl (ValueError (''Execute plan '' @ uuid_text (ep_id plan) @ '' not found'')), s1)
      | (Some e, s1) \<Rightarrow>
          (Inr plan, set_plan_entry port now s1 (ep_id plan) \<lparr>pe_plan = plan, pe_rules = pe_rules e\<rparr>))"

definition update_plan_rule ::
  "'s plan_port \<Rightarrow> timestamp \<Rightarrow> 's \<Rightarrow> execute_plan_rule \<Rightarrow> (exc + execute_plan_rule) \<times> 's" where
  "update_plan_rule port now s rule =
     (case get_plan_entry port now s (er_execute_plan_id rule) True of
        (None, s1) \<Rightarrow>
          (Inl (ValueError (''Execute plan '' @ uuid_text (er_execute_plan_id rule) @ '' not found'')), s1)
      | (Some e, s1) \<Rightarrow>
          (if er_id rule \<notin> fst ` set (pe_rules e) then
             (Inl (ValueError (''Execute plan rule '' @ uuid_text (er_id rule) @ '' not found'')), s1)
           else
             (Inr rule, set_plan_entry port now s1 (er_execute_plan_id rule)
                \<lparr>pe_plan = pe_plan e, pe_rules = AList.update (er_id rule) rule (pe_rules e)\<rparr>)))"

definition matches_filters ::
  "rule_match_status option \<Rightarrow> rule_push_status set option \<Rightarrow> execute_plan_rule \<Rightarrow> bool" where
  "matches_filters ms ps r \<longleftrightarrow>
     (case ms of None \<Rightarrow> True | Some m \<Rightarrow> er_match_status r = m) \<and>
     (case ps of None \<Rightarrow> True | Some p \<Rightarrow> er_push_status r \<in> p)"

definition list_plan_rules ::
  "'s plan_port \<Rightarrow> timestamp \<Rightarrow> 's \<Rightarrow> uuid \<Rightarrow> rule_match_status option \<Rightarrow> rule_push_status set option \<Rightarrow>
   execute_plan_rule list \<times> 's" where
  "list_plan_rules port now s i ms ps =
     (case get_plan_entry port now s i True of
        (None, s1) \<Rightarrow> ([], s1)
      | (Some e, s1) \<Rightarrow> (sort_key er_priority (filter (matches_filters ms ps) (map snd (pe_rules e))), s1))"


section \<open>The repository over the contract of the cache\<close>

lemma update_new: "k \<notin> fst ` set d \<Longrightarrow> AList.update k v d = d @ [(k, v)]"
  by (induction d) auto

lemma index_plan_rules_Inr:
  "index_plan_rules i d rs = Inr d' \<longleftrightarrow>
     (\<forall>r \<in> set rs. er_execute_plan_id r = i) \<and> distinct (map er_id rs) \<and>
     er_id ` set rs \<inter> fst ` set d = {} \<and> d' = d @ map (\<lambda>r. (er_id r, r)) rs"
proof (induction rs arbitrary: d)
  case Nil
  then show ?case by auto
next
  case (Cons r rs)
  show ?case
  proof (cases "er_execute_plan_id r = i \<and> er_id r \<notin> fst ` set d")
    case True
    then show ?thesis by (auto simp: Cons.IH update_new)
  next
    case False
    then show ?thesis by auto
  qed
qed

definition port_of ::
  "(timestamp \<Rightarrow> 's \<Rightarrow> string \<Rightarrow> uuid \<Rightarrow> bool \<Rightarrow> 'v option \<times> 's) \<Rightarrow>
   (timestamp \<Rightarrow> 's \<Rightarrow> string \<Rightarrow> uuid \<Rightarrow> 'v \<Rightarrow> 's) \<Rightarrow> ('s, 'v) cache_port" where
  "port_of get set_value = \<lparr>cp_get = get, cp_set = set_value\<rparr>"

lemma port_of_simps [simp]: "cp_get (port_of g st) = g" "cp_set (port_of g st) = st"
  by (simp_all add: port_of_def)

locale execute_repository = runtime_cache_store ok view get set_value
  for ok :: "'s \<Rightarrow> bool"
    and view :: "timestamp \<Rightarrow> 's \<Rightarrow> string \<Rightarrow> uuid \<Rightarrow> plan_cache_entry option"
    and get set_value
begin

abbreviation port :: "'s plan_port" where
  "port \<equiv> port_of get set_value"

abbreviation entry :: "timestamp \<Rightarrow> 's \<Rightarrow> uuid \<Rightarrow> plan_cache_entry option" where
  "entry t s i \<equiv> view t s EXECUTE_PLAN_NAMESPACE i"

lemma get_entry:
  assumes "ok s"
  obtains s1 where "get_plan_entry port t s i b = (entry t s i, s1)" "ok s1" "entry t s1 i = entry t s i"
    "\<And>j e. entry t s1 j = Some e \<Longrightarrow> entry t s j = Some e"
proof
  let ?g = "get t s EXECUTE_PLAN_NAMESPACE i b"
  show "get_plan_entry port t s i b = (entry t s i, snd ?g)"
    using get_value [OF assms] by (simp add: get_plan_entry_def prod_eq_iff)
  show "ok (snd ?g)" by (rule get_ok [OF assms])
  show "entry t (snd ?g) i = entry t s i" by (rule get_same [OF assms])
  show "entry t s j = Some e" if "entry t (snd ?g) j = Some e" for j e
    using assms that by (rule get_other)
qed

lemma set_entry:
  assumes "ok s"
  shows "ok (set_plan_entry port t s i e)" "entry t (set_plan_entry port t s i e) i = Some e"
    "j \<noteq> i \<Longrightarrow> entry t (set_plan_entry port t s i e) j = Some e' \<Longrightarrow> entry t s j = Some e'"
proof -
  show "ok (set_plan_entry port t s i e)" "entry t (set_plan_entry port t s i e) i = Some e"
    using assms by (simp_all add: set_plan_entry_def set_ok set_same)
  show "entry t s j = Some e'" if "j \<noteq> i" "entry t (set_plan_entry port t s i e) j = Some e'"
    using set_other [OF assms, of EXECUTE_PLAN_NAMESPACE j EXECUTE_PLAN_NAMESPACE i t e e'] that
    by (simp add: set_plan_entry_def)
qed

lemma add_plan_entry:
  assumes "ok s" "add_plan_with_rules port t s plan rules = (r, s')"
  shows "ok s' \<and>
    (if entry t s (ep_id plan) = None \<and> (\<forall>r \<in> set rules. er_execute_plan_id r = ep_id plan) \<and>
        distinct (map er_id rules)
     then r = Inr plan \<and>
       entry t s' (ep_id plan) = Some \<lparr>pe_plan = plan, pe_rules = map (\<lambda>r. (er_id r, r)) rules\<rparr>
     else \<exists>m. r = Inl (ValueError m) \<and> entry t s' (ep_id plan) = entry t s (ep_id plan)) \<and>
    (\<forall>j e. j \<noteq> ep_id plan \<longrightarrow> entry t s' j = Some e \<longrightarrow> entry t s j = Some e)"
proof -
  obtain s1 where g: "get_plan_entry port t s (ep_id plan) False = (entry t s (ep_id plan), s1)"
    "ok s1" "entry t s1 (ep_id plan) = entry t s (ep_id plan)"
    "\<And>j e. entry t s1 j = Some e \<Longrightarrow> entry t s j = Some e"
    using get_entry [OF assms(1)] by metis
  have inl: "\<exists>m. e = ValueError m" if "index_plan_rules i d rs = Inl e" for i d rs e
    using that by (induction i d rs rule: index_plan_rules.induct) (auto split: if_splits)
  show ?thesis
  proof (cases "entry t s (ep_id plan)")
    case (Some e)
    with assms(2) g show ?thesis by (auto simp: add_plan_with_rules_def)
  next
    case None
    show ?thesis
    proof (cases "index_plan_rules (ep_id plan) [] rules")
      case (Inl e)
      then have "\<not> ((\<forall>r \<in> set rules. er_execute_plan_id r = ep_id plan) \<and> distinct (map er_id rules))"
        using index_plan_rules_Inr [of "ep_id plan" "[]" rules] by auto
      with assms(2) g None Inl inl [OF Inl] show ?thesis by (auto simp: add_plan_with_rules_def)
    next
      case (Inr d)
      then have d: "\<forall>r \<in> set rules. er_execute_plan_id r = ep_id plan" "distinct (map er_id rules)"
        "d = map (\<lambda>r. (er_id r, r)) rules"
        by (auto simp: index_plan_rules_Inr)
      have "r = Inr plan" "s' = set_plan_entry port t s1 (ep_id plan) \<lparr>pe_plan = plan, pe_rules = d\<rparr>"
        using assms(2) g(1) None Inr by (simp_all add: add_plan_with_rules_def)
      with d None set_entry [OF g(2)] g(4) show ?thesis by auto
    qed
  qed
qed

lemma list_entry:
  assumes "ok s" "list_plan_rules port t s i ms ps = (rs, s')"
  shows "ok s' \<and> entry t s' i = entry t s i \<and>
    rs = (case entry t s i of None \<Rightarrow> []
      | Some e \<Rightarrow> sort_key er_priority (filter (matches_filters ms ps) (map snd (pe_rules e))))"
proof -
  obtain s1 where "get_plan_entry port t s i True = (entry t s i, s1)" "ok s1"
    "entry t s1 i = entry t s i"
    using get_entry [OF assms(1)] by metis
  with assms(2) show ?thesis by (auto simp: list_plan_rules_def split: option.splits)
qed

lemma get_plan_result:
  assumes "ok s" "get_plan port t s i = (p, s')"
  shows "ok s' \<and> entry t s' i = entry t s i \<and> p = map_option pe_plan (entry t s i)"
proof -
  obtain s1 where "get_plan_entry port t s i True = (entry t s i, s1)" "ok s1"
    "entry t s1 i = entry t s i"
    using get_entry [OF assms(1)] by metis
  with assms(2) show ?thesis by (auto simp: get_plan_def)
qed

lemma update_plan_entry:
  assumes "ok s" "update_plan port t s plan = (r, s')"
  shows "ok s' \<and> (case entry t s (ep_id plan) of
      None \<Rightarrow> r = Inl (ValueError (''Execute plan '' @ uuid_text (ep_id plan) @ '' not found'')) \<and>
        entry t s' (ep_id plan) = None
    | Some e \<Rightarrow> r = Inr plan \<and> entry t s' (ep_id plan) = Some \<lparr>pe_plan = plan, pe_rules = pe_rules e\<rparr>)"
proof -
  obtain s1 where g: "get_plan_entry port t s (ep_id plan) True = (entry t s (ep_id plan), s1)"
    "ok s1" "entry t s1 (ep_id plan) = entry t s (ep_id plan)"
    using get_entry [OF assms(1)] by metis
  show ?thesis
  proof (cases "entry t s (ep_id plan)")
    case None
    with assms(2) g show ?thesis by (auto simp: update_plan_def)
  next
    case (Some e)
    with assms(2) g set_entry [OF g(2)] show ?thesis by (auto simp: update_plan_def)
  qed
qed

lemma update_plan_rule_entry:
  assumes "ok s" "update_plan_rule port t s rule = (r, s')"
  shows "ok s' \<and> (case entry t s (er_execute_plan_id rule) of
      None \<Rightarrow> (\<exists>m. r = Inl (ValueError m)) \<and> entry t s' (er_execute_plan_id rule) = None
    | Some e \<Rightarrow>
        if er_id rule \<in> fst ` set (pe_rules e)
        then r = Inr rule \<and> entry t s' (er_execute_plan_id rule) =
          Some \<lparr>pe_plan = pe_plan e, pe_rules = AList.update (er_id rule) rule (pe_rules e)\<rparr>
        else (\<exists>m. r = Inl (ValueError m)) \<and> entry t s' (er_execute_plan_id rule) = Some e)"
proof -
  let ?i = "er_execute_plan_id rule"
  obtain s1 where g: "get_plan_entry port t s ?i True = (entry t s ?i, s1)"
    "ok s1" "entry t s1 ?i = entry t s ?i"
    using get_entry [OF assms(1)] by metis
  show ?thesis
  proof (cases "entry t s ?i")
    case None
    with assms(2) g show ?thesis by (auto simp: update_plan_rule_def)
  next
    case (Some e)
    with assms(2) g set_entry [OF g(2)] show ?thesis
      by (auto simp: update_plan_rule_def split: if_splits)
  qed
qed

end

text \<open>The store is such a repository, whatever the cache class, as long as its laws hold.\<close>

lemma execute_repository_store:
  assumes "ttl_cache ops I"
  shows "execute_repository (ttl_cache.store_ok I) (store_view ops) (store_get ops) (store_set ops)"
  unfolding execute_repository_def
  by (rule ttl_cache.runtime_store [OF assms])

interpretation deadline_repo: execute_repository deadline.store_ok "store_view deadline_ops"
  "store_get deadline_ops" "store_set deadline_ops"
  by unfold_locales

end
