(* ===== verification/Execute_Gateway.thy ===== *)
theory Execute_Gateway
  imports Catalog_Gateway Execute_Plan
begin

text \<open>
  \<open>ExecuteSDWANGateway\<close> (\<open>src/src/app/modules/execute/adapters/sdwan_gateway.py\<close>):
  loading the policies of a target with the objects they and the drafts refer to, building the
  creation request of one rule, and committing.

  A creation that fails, in the request's validation or on the server, is an outcome of that rule
  and does not stop the others; it carries the rule it belongs to (\<open>push_rule_ids\<close>).
\<close>

section \<open>The policy catalog of a target\<close>

fun action_of_csp :: "csp_rule_action \<Rightarrow> rule_action" where
  "action_of_csp CSP_ACCEPT = ACT_ACCEPT"
| "action_of_csp CSP_REJECT = ACT_REJECT"
| "action_of_csp CSP_DROP = ACT_DROP"

fun csp_of_action :: "rule_action \<Rightarrow> csp_rule_action" where
  "csp_of_action ACT_ACCEPT = CSP_ACCEPT"
| "csp_of_action ACT_REJECT = CSP_REJECT"
| "csp_of_action ACT_DROP = CSP_DROP"

lemma action_of_csp_of_action [simp]: "action_of_csp (csp_of_action a) = a"
  by (cases a) simp_all

definition sdwan_rule_of :: "policy_response \<Rightarrow> sdwan_rule" where
  "sdwan_rule_of p =
     \<lparr>rb_action = action_of_csp (por_action p), rb_src_zones = por_ingress_zone p,
      rb_dst_zones = por_egress_zone p, rb_src_addr_objects = map arf_id (por_src_address p),
      rb_dst_addr_objects = map arf_id (por_dst_address p), rb_services = por_service p,
      sr_id = por_policy_id p\<rparr>"

definition policy_zone_ids :: "policy_response \<Rightarrow> int set" where
  "policy_zone_ids p = set (por_ingress_zone p) \<union> set (por_egress_zone p)"

definition policy_addr_ids :: "policy_response \<Rightarrow> int set" where
  "policy_addr_ids p = arf_id ` set (por_src_address p) \<union> arf_id ` set (por_dst_address p)"

definition get_sdwan_policy_catalog ::
  "'w csp_api \<Rightarrow> 'w \<Rightarrow> string \<Rightarrow> int set \<Rightarrow> int set \<Rightarrow> int set \<Rightarrow> sdwan_policy_catalog result" where
  "get_sdwan_policy_catalog api w target zone_ids service_ids addr_ids =
     bind_o (client_get_policies api w (Some target)) (\<lambda>policies.
     bind_o (gw_get_zones api w (Some (sorted_list_of_set
       (zone_ids \<union> (\<Union>p \<in> set policies. policy_zone_ids p))))) (\<lambda>zs.
     bind_o (gw_get_services api w (Some (sorted_list_of_set
       (service_ids \<union> (\<Union>p \<in> set policies. set (por_service p)))))) (\<lambda>ss.
     bind_o (gw_get_addr_objects api w (Some (sorted_list_of_set
       (addr_ids \<union> (\<Union>p \<in> set policies. policy_addr_ids p))))) (\<lambda>objs.
       Some (Inr \<lparr>pc_target_id = target, pc_rules = map sdwan_rule_of policies, pc_zones = zs,
         pc_services = ss, pc_address_objects = objs\<rparr>)))))"


section \<open>Creating policies\<close>

record push_rule_result =
  pu_execute_plan_rule_id :: uuid
  pu_rule_name :: string
  pu_sdwan_rule_id :: "int option"
  pu_error :: "string option"

definition policy_request ::
  "string \<Rightarrow> sdwan_device_object \<Rightarrow> sdwan_rule_priority \<Rightarrow> planned_rule_draft \<Rightarrow> create_policy_request" where
  "policy_request target_id target priority d =
     \<lparr>cpr_name = pd_name d, cpr_description = '''', cpr_tags = [], cpr_activated = True,
      cpr_action = csp_of_action (rb_action d), cpr_log = False, cpr_l4_inspection = False,
      cpr_ingress_zone = rb_src_zones d, cpr_egress_zone = rb_dst_zones d,
      cpr_src_address = rb_src_addr_objects d, cpr_dst_address = rb_dst_addr_objects d,
      cpr_service = rb_services d, cpr_parent = target_id, cpr_parent_type = dv_type target,
      cpr_priority = priority\<rparr>"

definition error_text :: "exc \<Rightarrow> string" where
  "error_text e = (if exc_text e = [] then exc_name e else exc_text e)"

text \<open>One iteration of the loop of \<open>push_rules\<close>, with the request if it reached the server.\<close>

definition push_rule ::
  "'w csp_api \<Rightarrow> 'w \<Rightarrow> string \<Rightarrow> sdwan_device_object \<Rightarrow> sdwan_rule_priority \<Rightarrow> execute_plan_rule \<Rightarrow>
   push_rule_result \<times> create_policy_request option \<times> 'w" where
  "push_rule api w target_id target priority rule =
     (let failed = (\<lambda>e. \<lparr>pu_execute_plan_rule_id = er_id rule, pu_rule_name = pd_name (er_draft rule),
            pu_sdwan_rule_id = None, pu_error = Some (error_text e)\<rparr>) in
      case validate_priority (policy_request target_id target priority (er_draft rule)) of
        Inl e \<Rightarrow> (failed e, None, w)
      | Inr req \<Rightarrow>
          (case api_create_policy api w req of
             (Inl e, w') \<Rightarrow> (failed e, Some req, w')
           | (Inr i, w') \<Rightarrow>
               (\<lparr>pu_execute_plan_rule_id = er_id rule, pu_rule_name = pd_name (er_draft rule),
                 pu_sdwan_rule_id = Some i, pu_error = None\<rparr>, Some req, w')))"

lemma push_rule_ids:
  "push_rule api w t d p rule = (r, q, w') \<Longrightarrow>
     pu_execute_plan_rule_id r = er_id rule \<and> (pu_sdwan_rule_id r = None \<longleftrightarrow> pu_error r \<noteq> None) \<and>
     (q = None \<or> q = Some (policy_request t d p (er_draft rule)))"
  by (auto simp: push_rule_def Let_def validate_priority_def split: sum.splits prod.splits if_splits)

text \<open>
  A placement that does not fit the kind of target is refused before any request is sent.
\<close>

lemma push_rule_placement:
  "push_rule api w t d p rule = (r, None, w') \<longleftrightarrow>
     \<not> (if dv_type d = DT_DEVICE then p = RP_LOCAL else p \<noteq> RP_LOCAL) \<and> w' = w \<and>
     r = \<lparr>pu_execute_plan_rule_id = er_id rule, pu_rule_name = pd_name (er_draft rule),
       pu_sdwan_rule_id = None, pu_error = Some (error_text (projl
         (validate_priority (policy_request t d p (er_draft rule)))))\<rparr>"
  by (cases "dv_type d"; cases p)
    (auto simp: push_rule_def Let_def validate_priority_def policy_request_def split: sum.splits prod.splits)


section \<open>Reading policies back and committing\<close>

record sdwan_rule_dto =
  rd_policy_id :: int
  rd_name :: string
  rd_parents :: "string list"
  rd_description :: string
  rd_created_at :: string
  rd_updated_at :: string
  rd_order :: string
  rd_priority :: sdwan_rule_priority
  rd_tags :: "string list"
  rd_activated :: bool
  rd_action :: rule_action
  rd_log :: bool
  rd_l4_inspection :: bool
  rd_ambiguous :: bool
  rd_ambiguous_reason :: "(int \<times> pydata) option"
  rd_snat :: "pydata option"
  rd_dnat :: "pydata option"
  rd_ingress_zone :: "int list"
  rd_egress_zone :: "int list"
  rd_src_address :: "addr_object_ref list"
  rd_dst_address :: "addr_object_ref list"
  rd_service :: "int list"
  rd_src_idents :: "pydata list"
  rd_dst_idents :: "pydata list"

definition policy_response_to_dto :: "policy_response \<Rightarrow> sdwan_rule_dto" where
  "policy_response_to_dto p =
     \<lparr>rd_policy_id = por_policy_id p, rd_name = por_name p, rd_parents = por_parents p,
      rd_description = por_description p, rd_created_at = por_created_at p,
      rd_updated_at = por_updated_at p, rd_order = por_order p, rd_priority = por_priority p,
      rd_tags = por_tags p, rd_activated = por_activated p, rd_action = action_of_csp (por_action p),
      rd_log = por_log p, rd_l4_inspection = por_l4_inspection p, rd_ambiguous = por_ambiguous p,
      rd_ambiguous_reason = por_ambiguous_reason p, rd_snat = por_snat p, rd_dnat = por_dnat p,
      rd_ingress_zone = por_ingress_zone p, rd_egress_zone = por_egress_zone p,
      rd_src_address = por_src_address p, rd_dst_address = por_dst_address p,
      rd_service = por_service p, rd_src_idents = por_src_idents p, rd_dst_idents = por_dst_idents p\<rparr>"

definition get_rules :: "'w csp_api \<Rightarrow> 'w \<Rightarrow> int list \<Rightarrow> sdwan_rule_dto list result" where
  "get_rules api w ids =
     bind_o (client_get_policies_by_ids api w ids) (\<lambda>ps. Some (Inr (map policy_response_to_dto ps)))"

record commit_info =
  ci_commit_id :: int
  ci_name :: string
  ci_description :: string

definition commit_csp_changes ::
  "'w csp_api \<Rightarrow> 'w \<Rightarrow> (timestamp \<Rightarrow> string) \<Rightarrow> timestamp \<Rightarrow> (exc + commit_info) \<times> 'w" where
  "commit_csp_changes api w strftime now =
     (case api_make_commit api w (''policy-migrator-commit-'' @ strftime now) '''' of
        (Inl e, w') \<Rightarrow> (Inl e, w')
      | (Inr i, w') \<Rightarrow>
          (bind_r (api_commit_info api w' i) (\<lambda>c.
             Inr \<lparr>ci_commit_id = cdr_commit_id c, ci_name = cdr_name c,
                  ci_description = cdr_description c\<rparr>), w'))"

end
