(* ===== verification/Execute_Push.thy ===== *)
theory Execute_Push
  imports Execute_Gateway
begin

text \<open>
  The push use case
  (\<open>src/src/app/modules/execute/application/use_cases/push_execute_plan_rules.py\<close>) and the
  report it writes (\<open>adapters/reports_writer.py\<close>).

  The use case is asynchronous: it runs without interruption between two requests to the SD-WAN
  server.  \<open>push_step\<close> is one such segment, from the local variables kept in a
  \<open>push_phase\<close> and the shared state (runtime cache, server, saved reports, and the history of
  creation requests) to the next phase; \<open>push_run\<close> runs one push to its end, and
  \<open>interleaved\<close> lets several pushes run over the same state.
\<close>

section \<open>Reports\<close>

datatype report_migration_result = RES_MATCHED | RES_COVERED | RES_ERROR | RES_PUSHED | RES_FAILED

record report_rule =
  rp_policy_name :: string
  rp_action :: rule_action
  rp_priority :: int
  rp_src_zone_ids :: "int list"
  rp_dst_zone_ids :: "int list"
  rp_src_addr_object_ids :: "int list"
  rp_dst_addr_object_ids :: "int list"
  rp_service_ids :: "int list"
  rp_migration_result :: report_migration_result
  rp_reason :: string

record push_report =
  pr_scope_title :: string
  pr_csp_profile_id :: uuid
  pr_vpc_id :: string
  pr_target_id :: string
  pr_commit_id :: int
  pr_rules :: "report_rule list"

text \<open>\<open>x or "..."\<close>: an absent or empty text falls back.\<close>

definition text_or :: "string option \<Rightarrow> string \<Rightarrow> string" where
  "text_or x d = (case x of None \<Rightarrow> d | Some t \<Rightarrow> if t = [] then d else t)"

definition report_rule_status_outcome :: "execute_plan_rule \<Rightarrow> report_migration_result \<times> string" where
  "report_rule_status_outcome r =
     (case er_match_status r of
        EXACT_MATCH \<Rightarrow> (RES_MATCHED, er_match_info r)
      | COVERED_MATCH \<Rightarrow> (RES_COVERED, er_match_info r)
      | MATCH_ERROR \<Rightarrow> (RES_ERROR, er_match_info r)
      | NEW_RULE \<Rightarrow>
          (case er_push_status r of
             PUSH_SUCCEEDED \<Rightarrow> (RES_PUSHED, ''Success'')
           | PUSH_FAILED \<Rightarrow> (RES_FAILED, text_or (er_push_error r) ''Push failed'')
           | PUSH_PENDING \<Rightarrow> (RES_ERROR, ''Push outcome was not recorded'')))"

definition to_report_rule :: "execute_plan_rule \<Rightarrow> report_rule" where
  "to_report_rule r =
     (case report_rule_status_outcome r of (res, reason) \<Rightarrow>
       \<lparr>rp_policy_name = pd_name (er_draft r), rp_action = rb_action (er_draft r),
        rp_priority = er_priority r, rp_src_zone_ids = rb_src_zones (er_draft r),
        rp_dst_zone_ids = rb_dst_zones (er_draft r),
        rp_src_addr_object_ids = rb_src_addr_objects (er_draft r),
        rp_dst_addr_object_ids = rb_dst_addr_objects (er_draft r),
        rp_service_ids = rb_services (er_draft r), rp_migration_result = res, rp_reason = reason\<rparr>)"


section \<open>State, phases and environment\<close>

record mapping_scope_data =
  ms_id :: uuid
  ms_title :: string
  ms_csp_profile_id :: uuid
  ms_vpc_id :: string
  ms_sdwan_target_id :: string
  ms_rules_priority :: sdwan_rule_priority
  ms_catalog_fingerprint :: string

definition scope_report ::
  "mapping_scope_data \<Rightarrow> commit_info \<Rightarrow> execute_plan_rule list \<Rightarrow> push_report" where
  "scope_report scope commit rules =
     \<lparr>pr_scope_title = ms_title scope, pr_csp_profile_id = ms_csp_profile_id scope,
      pr_vpc_id = ms_vpc_id scope, pr_target_id = ms_sdwan_target_id scope,
      pr_commit_id = ci_commit_id commit, pr_rules = map to_report_rule rules\<rparr>"

record push_result =
  ps_rules :: "sdwan_rule_dto list"
  ps_push_results :: "push_rule_result list"
  ps_commit_info :: commit_info

datatype push_phase =
    PushStart uuid
  | PushCatalog execute_plan "execute_plan_rule list" mapping_scope_data
  | PushTarget execute_plan "execute_plan_rule list" mapping_scope_data
  | PushCreate execute_plan "execute_plan_rule list" mapping_scope_data sdwan_device_object
      "execute_plan_rule list" "push_rule_result list"
  | PushRecord execute_plan "execute_plan_rule list" mapping_scope_data "push_rule_result list"
  | PushFetch execute_plan mapping_scope_data "push_rule_result list" "int list"
  | PushCommit execute_plan mapping_scope_data "push_rule_result list" "sdwan_rule_dto list"
  | PushReport execute_plan mapping_scope_data "push_rule_result list" "sdwan_rule_dto list" commit_info
  | PushDone push_result
  | PushRaised exc
  | PushHung

record ('s, 'w) push_state =
  sy_store :: 's
  sy_server :: 'w
  sy_reports :: "push_report list"
  sy_requests :: "(uuid \<times> create_policy_request) list"

text \<open>The ports of the use case: cache, server API, mapping reader, clock format and digest.\<close>

record ('s, 'w) push_env =
  pv_port :: "'s plan_port"
  pv_api :: "'w csp_api"
  pv_scope_data :: "uuid \<Rightarrow> exc + mapping_scope_data"
  pv_strftime :: "timestamp \<Rightarrow> string"
  pv_sha :: "string \<Rightarrow> string"


section \<open>One segment of the use case\<close>

definition push_start ::
  "('s, 'w) push_env \<Rightarrow> timestamp \<Rightarrow> uuid \<Rightarrow> ('s, 'w) push_state \<Rightarrow> push_phase \<times> ('s, 'w) push_state" where
  "push_start env now plan_id sys =
     (case get_plan (pv_port env) now (sy_store sys) plan_id of
        (None, s1) \<Rightarrow>
          (PushRaised (ExecuteNotFoundError (''Execute plan '' @ uuid_text plan_id @ '' not found'')),
           sys\<lparr>sy_store := s1\<rparr>)
      | (Some plan, s1) \<Rightarrow>
          if ep_push_status plan = PLAN_EXECUTED then
            (PushRaised (ExecuteDomainValidationError (''Execute plan '' @ uuid_text (ep_id plan) @
               '' was already pushed. Prepare a new execute plan before push.'')), sys\<lparr>sy_store := s1\<rparr>)
          else
            (case list_plan_rules (pv_port env) now s1 (ep_id plan) (Some NEW_RULE) (Some {PUSH_PENDING}) of
               (rules, s2) \<Rightarrow>
                 if rules = [] then
                   (PushRaised (ExecuteDomainValidationError (''Execute plan '' @ uuid_text (ep_id plan) @
                      '' has no rules for push'')), sys\<lparr>sy_store := s2\<rparr>)
                 else
                   (case pv_scope_data env (ep_mapping_scope_id plan) of
                      Inl e \<Rightarrow> (PushRaised e, sys\<lparr>sy_store := s2\<rparr>)
                    | Inr scope \<Rightarrow>
                        if ms_catalog_fingerprint scope \<noteq> ep_catalog_fingerprint plan then
                          (PushRaised (ExecuteConflictError (''Mapping scope catalog baseline changed after '' @
                             ''preparing the execute plan. Prepare a new execute plan before push.'')),
                           sys\<lparr>sy_store := s2\<rparr>)
                        else (PushCatalog plan rules scope, sys\<lparr>sy_store := s2\<rparr>))))"

definition push_check_catalog ::
  "('s, 'w) push_env \<Rightarrow> timestamp \<Rightarrow> execute_plan \<Rightarrow> execute_plan_rule list \<Rightarrow> mapping_scope_data \<Rightarrow>
   ('s, 'w) push_state \<Rightarrow> push_phase \<times> ('s, 'w) push_state" where
  "push_check_catalog env now plan rules scope sys =
     (case gw_get_full_catalog (pv_api env) (sy_server sys) of
        None \<Rightarrow> (PushHung, sys)
      | Some (Inl e) \<Rightarrow> (PushRaised e, sys)
      | Some (Inr catalog) \<Rightarrow>
          if get_fingerprint (pv_sha env) catalog \<noteq> ep_catalog_fingerprint plan then
            (PushRaised (ExecuteConflictError (''SD-WAN catalog changed after preparing the execute plan. '' @
               ''Prepare a new execute plan before push.'')), sys)
          else
            (case update_plan (pv_port env) now (sy_store sys) (mark_push_executed plan) of
               (Inl e, s1) \<Rightarrow> (PushRaised e, sys\<lparr>sy_store := s1\<rparr>)
             | (Inr _, s1) \<Rightarrow> (PushTarget plan rules scope, sys\<lparr>sy_store := s1\<rparr>)))"

definition push_find_target ::
  "('s, 'w) push_env \<Rightarrow> execute_plan \<Rightarrow> execute_plan_rule list \<Rightarrow> mapping_scope_data \<Rightarrow>
   ('s, 'w) push_state \<Rightarrow> push_phase \<times> ('s, 'w) push_state" where
  "push_find_target env plan rules scope sys =
     (case gw_get_device_object (pv_api env) (sy_server sys) (ms_sdwan_target_id scope) of
        Inl e \<Rightarrow> (PushRaised e, sys)
      | Inr None \<Rightarrow>
          (PushRaised (ExecuteNotFoundError (''Not found device object '' @ ms_sdwan_target_id scope)), sys)
      | Inr (Some target) \<Rightarrow>
          (PushCreate plan rules scope target (sort_key er_priority rules) [], sys))"

definition push_create_one ::
  "('s, 'w) push_env \<Rightarrow> mapping_scope_data \<Rightarrow> sdwan_device_object \<Rightarrow> execute_plan_rule \<Rightarrow>
   ('s, 'w) push_state \<Rightarrow> push_rule_result \<times> ('s, 'w) push_state" where
  "push_create_one env scope target rule sys =
     (case push_rule (pv_api env) (sy_server sys) (ms_sdwan_target_id scope) target
             (ms_rules_priority scope) rule of
        (res, req, w) \<Rightarrow>
          (res, sys\<lparr>sy_server := w,
            sy_requests := sy_requests sys @ (case req of None \<Rightarrow> [] | Some q \<Rightarrow> [(er_id rule, q)])\<rparr>))"

definition outcome_rule :: "push_rule_result \<Rightarrow> execute_plan_rule \<Rightarrow> execute_plan_rule" where
  "outcome_rule res rule =
     (case pu_sdwan_rule_id res of
        Some i \<Rightarrow> mark_push_succeeded i rule
      | None \<Rightarrow> mark_push_failed (text_or (pu_error res) ''Push failed'') rule)"

fun push_record_outcomes ::
  "'s plan_port \<Rightarrow> timestamp \<Rightarrow> (uuid \<times> execute_plan_rule) list \<Rightarrow> push_rule_result list \<Rightarrow> 's \<Rightarrow>
   exc option \<times> 's" where
  "push_record_outcomes port now by_id [] s = (None, s)"
| "push_record_outcomes port now by_id (res # rs) s =
     (case map_of by_id (pu_execute_plan_rule_id res) of
        None \<Rightarrow> (Some (KeyError (''UUID('' @ [quote1] @ uuid_text (pu_execute_plan_rule_id res) @ [quote1] @ '')'')), s)
      | Some rule \<Rightarrow>
          (case update_plan_rule port now s (outcome_rule res rule) of
             (Inl e, s1) \<Rightarrow> (Some e, s1)
           | (Inr _, s1) \<Rightarrow> push_record_outcomes port now by_id rs s1))"

definition pushed_ids :: "push_rule_result list \<Rightarrow> int list" where
  "pushed_ids rs = concat (map (\<lambda>r. case pu_sdwan_rule_id r of None \<Rightarrow> [] | Some i \<Rightarrow> [i]) rs)"

fun push_step ::
  "('s, 'w) push_env \<Rightarrow> timestamp \<Rightarrow> push_phase \<Rightarrow> ('s, 'w) push_state \<Rightarrow> push_phase \<times> ('s, 'w) push_state" where
  "push_step env now (PushStart i) sys = push_start env now i sys"
| "push_step env now (PushCatalog plan rules scope) sys = push_check_catalog env now plan rules scope sys"
| "push_step env now (PushTarget plan rules scope) sys = push_find_target env plan rules scope sys"
| "push_step env now (PushCreate plan rules scope target (r # rs) results) sys =
     (case push_create_one env scope target r sys of (res, sys1) \<Rightarrow>
       (PushCreate plan rules scope target rs (results @ [res]), sys1))"
| "push_step env now (PushCreate plan rules scope target [] results) sys =
     (PushRecord plan rules scope results, sys)"
| "push_step env now (PushRecord plan rules scope results) sys =
     (case push_record_outcomes (pv_port env) now (dict_of er_id rules) results (sy_store sys) of
        (Some e, s1) \<Rightarrow> (PushRaised e, sys\<lparr>sy_store := s1\<rparr>)
      | (None, s1) \<Rightarrow>
          ((if pushed_ids results = [] then PushCommit plan scope results []
            else PushFetch plan scope results (pushed_ids results)), sys\<lparr>sy_store := s1\<rparr>))"
| "push_step env now (PushFetch plan scope results ids) sys =
     (case get_rules (pv_api env) (sy_server sys) ids of
        None \<Rightarrow> (PushHung, sys)
      | Some (Inl e) \<Rightarrow> (PushRaised e, sys)
      | Some (Inr rs) \<Rightarrow> (PushCommit plan scope results rs, sys))"
| "push_step env now (PushCommit plan scope results pushed) sys =
     (case commit_csp_changes (pv_api env) (sy_server sys) (pv_strftime env) now of
        (Inl e, w) \<Rightarrow> (PushRaised e, sys\<lparr>sy_server := w\<rparr>)
      | (Inr c, w) \<Rightarrow> (PushReport plan scope results pushed c, sys\<lparr>sy_server := w\<rparr>))"
| "push_step env now (PushReport plan scope results pushed commit) sys =
     (case list_plan_rules (pv_port env) now (sy_store sys) (ep_id plan) None None of
        (rs, s1) \<Rightarrow>
          (PushDone \<lparr>ps_rules = pushed, ps_push_results = results, ps_commit_info = commit\<rparr>,
           sys\<lparr>sy_store := s1, sy_reports := sy_reports sys @ [scope_report scope commit rs]\<rparr>))"
| "push_step env now p sys = (p, sys)"

fun push_final :: "push_phase \<Rightarrow> bool" where
  "push_final (PushDone r) = True"
| "push_final (PushRaised e) = True"
| "push_final PushHung = True"
| "push_final p = False"


section \<open>Running a push\<close>

fun push_rank :: "push_phase \<Rightarrow> nat" where
  "push_rank (PushStart i) = 8"
| "push_rank (PushCatalog plan rules scope) = 7"
| "push_rank (PushTarget plan rules scope) = 6"
| "push_rank (PushCreate plan rules scope target todo results) = 5"
| "push_rank (PushRecord plan rules scope results) = 4"
| "push_rank (PushFetch plan scope results ids) = 3"
| "push_rank (PushCommit plan scope results pushed) = 2"
| "push_rank (PushReport plan scope results pushed c) = 1"
| "push_rank p = 0"

fun push_todo :: "push_phase \<Rightarrow> nat" where
  "push_todo (PushCreate plan rules scope target todo results) = length todo"
| "push_todo p = 0"

lemma push_step_decreases:
  assumes "\<not> push_final p" "push_step env now p sys = (q, sys')"
  shows "push_rank q < push_rank p \<or> push_rank q = push_rank p \<and> push_todo q < push_todo p"
proof (cases p)
  case (PushCreate plan rules scope target todo results)
  with assms show ?thesis by (cases todo) (auto split: prod.splits)
qed (use assms in \<open>auto simp: push_start_def push_check_catalog_def push_find_target_def
    split: prod.splits option.splits sum.splits if_splits\<close>)

function push_run ::
  "('s, 'w) push_env \<Rightarrow> (nat \<Rightarrow> timestamp) \<Rightarrow> push_phase \<Rightarrow> ('s, 'w) push_state \<Rightarrow>
   push_phase \<times> ('s, 'w) push_state" where
  "push_run env clock p sys =
     (if push_final p then (p, sys)
      else case push_step env (clock 0) p sys of (q, sys1) \<Rightarrow> push_run env (\<lambda>n. clock (Suc n)) q sys1)"
  by pat_completeness auto
termination
proof (relation "measures [\<lambda>(env, clock, p, sys). push_rank p, \<lambda>(env, clock, p, sys). push_todo p]")
  fix env :: "('a, 'b) push_env" and clock :: "nat \<Rightarrow> timestamp" and p sys q sys1
  assume "\<not> push_final p" "(q, sys1) = push_step env (clock 0) p sys"
  then have "push_rank q < push_rank p \<or> push_rank q = push_rank p \<and> push_todo q < push_todo p"
    by (intro push_step_decreases [of p env "clock 0" sys q sys1]) simp_all
  then show "((env, \<lambda>n. clock (Suc n), q, sys1), env, clock, p, sys)
      \<in> measures [\<lambda>(env, clock, p, sys). push_rank p, \<lambda>(env, clock, p, sys). push_todo p]"
    by simp
qed simp

declare push_run.simps [simp del]

lemma push_run_final: "push_final (fst (push_run env clock p sys))"
  by (induction env clock p sys rule: push_run.induct)
    (subst push_run.simps, auto split: prod.splits)


section \<open>How a push changes the repository\<close>

context execute_repository
begin

text \<open>
  Entries only evolve: none appears, a plan keeps its identity, and its status either stays or
  becomes executed.
\<close>

definition evolves :: "timestamp \<Rightarrow> 's \<Rightarrow> 's \<Rightarrow> bool" where
  "evolves t s s' \<longleftrightarrow> ok s' \<and> (\<forall>j e. entry t s' j = Some e \<longrightarrow> (\<exists>e0. entry t s j = Some e0 \<and>
     ep_id (pe_plan e) = ep_id (pe_plan e0) \<and>
     (ep_push_status (pe_plan e) = ep_push_status (pe_plan e0) \<or>
      ep_push_status (pe_plan e) = PLAN_EXECUTED)))"

definition keyed :: "timestamp \<Rightarrow> 's \<Rightarrow> bool" where
  "keyed t s \<longleftrightarrow> (\<forall>i e. entry t s i = Some e \<longrightarrow> ep_id (pe_plan e) = i)"

definition executed :: "timestamp \<Rightarrow> 's \<Rightarrow> uuid \<Rightarrow> bool" where
  "executed t s i \<longleftrightarrow> (\<forall>e. entry t s i = Some e \<longrightarrow> ep_push_status (pe_plan e) = PLAN_EXECUTED)"

lemma evolves_refl: "ok s \<Longrightarrow> evolves t s s"
  by (auto simp: evolves_def)

lemma evolves_trans: "evolves t s s1 \<Longrightarrow> evolves t s1 s2 \<Longrightarrow> evolves t s s2"
  unfolding evolves_def by metis

lemma evolves_ok: "evolves t s s' \<Longrightarrow> ok s'"
  by (simp add: evolves_def)

lemma evolves_keyed: "evolves t s s' \<Longrightarrow> keyed t s \<Longrightarrow> keyed t s'"
  unfolding evolves_def keyed_def by metis

lemma evolves_executed: "evolves t s s' \<Longrightarrow> executed t s i \<Longrightarrow> executed t s' i"
  unfolding evolves_def executed_def by metis

lemma evolves_same: "ok s' \<Longrightarrow> (\<And>j e. entry t s' j = Some e \<Longrightarrow> entry t s j = Some e) \<Longrightarrow> evolves t s s'"
  by (auto simp: evolves_def)

lemma keyed_later: "ok s \<Longrightarrow> t \<le> t' \<Longrightarrow> keyed t s \<Longrightarrow> keyed t' s"
  unfolding keyed_def using later by blast

lemma executed_later: "ok s \<Longrightarrow> t \<le> t' \<Longrightarrow> executed t s i \<Longrightarrow> executed t' s i"
  unfolding executed_def using later by blast

lemma get_plan_evolves:
  assumes "ok s" "get_plan port t s i = (p, s')"
  shows "evolves t s s' \<and> p = map_option pe_plan (entry t s i)"
proof -
  obtain s1 where "get_plan_entry port t s i True = (entry t s i, s1)" "ok s1"
    "\<And>j e. entry t s1 j = Some e \<Longrightarrow> entry t s j = Some e"
    using get_entry [OF assms(1)] by metis
  with assms(2) show ?thesis by (auto simp: get_plan_def intro: evolves_same)
qed

lemma list_plan_rules_evolves:
  assumes "ok s" "list_plan_rules port t s i ms ps = (rs, s')"
  shows "evolves t s s'"
proof -
  obtain s1 where "get_plan_entry port t s i True = (entry t s i, s1)" "ok s1"
    "\<And>j e. entry t s1 j = Some e \<Longrightarrow> entry t s j = Some e"
    using get_entry [OF assms(1)] by metis
  with assms(2) show ?thesis
    by (cases "entry t s i") (auto simp: list_plan_rules_def intro: evolves_same)
qed

lemma set_entry_evolves:
  assumes "ok s" "entry t s i = Some e0" "ep_id (pe_plan e) = ep_id (pe_plan e0)"
    "ep_push_status (pe_plan e) = ep_push_status (pe_plan e0) \<or> ep_push_status (pe_plan e) = PLAN_EXECUTED"
  shows "evolves t s (set_plan_entry port t s i e)"
  unfolding evolves_def
proof (intro conjI allI impI)
  show "ok (set_plan_entry port t s i e)" by (rule set_entry [OF assms(1)])
  fix j e' assume e': "entry t (set_plan_entry port t s i e) j = Some e'"
  show "\<exists>e0. entry t s j = Some e0 \<and> ep_id (pe_plan e') = ep_id (pe_plan e0) \<and>
     (ep_push_status (pe_plan e') = ep_push_status (pe_plan e0) \<or>
      ep_push_status (pe_plan e') = PLAN_EXECUTED)"
  proof (cases "j = i")
    case True
    with e' set_entry(2) [OF assms(1), of t i e] assms(2-4) show ?thesis by simp
  next
    case False
    from set_entry(3) [OF assms(1) False e'] show ?thesis by simp
  qed
qed

lemma update_plan_evolves:
  assumes "ok s" "keyed t s" "update_plan port t s (mark_push_executed plan) = (r, s')"
  shows "evolves t s s' \<and> executed t s' (ep_id plan)"
proof -
  let ?i = "ep_id plan" and ?p = "mark_push_executed plan"
  have i: "ep_id ?p = ?i" "ep_push_status ?p = PLAN_EXECUTED" by (simp_all add: mark_push_executed_def)
  obtain s1 where g: "get_plan_entry port t s ?i True = (entry t s ?i, s1)" "ok s1"
    "entry t s1 ?i = entry t s ?i" "\<And>j e. entry t s1 j = Some e \<Longrightarrow> entry t s j = Some e"
    using get_entry [OF assms(1)] by metis
  from g have ev: "evolves t s s1" by (intro evolves_same)
  show ?thesis
  proof (cases "entry t s ?i")
    case None
    with assms(3) g ev i show ?thesis by (auto simp: update_plan_def executed_def)
  next
    case (Some e0)
    let ?e = "\<lparr>pe_plan = ?p, pe_rules = pe_rules e0\<rparr>"
    have s': "s' = set_plan_entry port t s1 ?i ?e"
      using assms(3) g(1) Some i by (simp add: update_plan_def)
    have "?i = ep_id (pe_plan e0)" using assms(2) Some by (simp add: keyed_def)
    then have "evolves t s1 s'"
      unfolding s' using Some g(3) i by (intro set_entry_evolves [OF g(2), of t ?i e0]) simp_all
    moreover have "executed t s' ?i"
      using set_entry(2) [OF g(2), of t ?i ?e] i by (simp add: s' executed_def)
    ultimately show ?thesis using ev evolves_trans by blast
  qed
qed

lemma update_plan_rule_evolves:
  assumes "ok s" "update_plan_rule port t s rule = (r, s')"
  shows "evolves t s s'"
proof -
  let ?i = "er_execute_plan_id rule"
  obtain s1 where g: "get_plan_entry port t s ?i True = (entry t s ?i, s1)" "ok s1"
    "entry t s1 ?i = entry t s ?i" "\<And>j e. entry t s1 j = Some e \<Longrightarrow> entry t s j = Some e"
    using get_entry [OF assms(1)] by metis
  from g have ev: "evolves t s s1" by (intro evolves_same)
  show ?thesis
  proof (cases "entry t s ?i")
    case None
    with assms(2) g ev show ?thesis by (auto simp: update_plan_rule_def)
  next
    case (Some e0)
    show ?thesis
    proof (cases "er_id rule \<in> fst ` set (pe_rules e0)")
      case False
      have "s' = s1" using assms(2) g(1) Some False by (simp add: update_plan_rule_def)
      with ev show ?thesis by simp
    next
      case True
      let ?e = "\<lparr>pe_plan = pe_plan e0, pe_rules = AList.update (er_id rule) rule (pe_rules e0)\<rparr>"
      have s': "s' = set_plan_entry port t s1 ?i ?e"
        using assms(2) g(1) Some True by (simp add: update_plan_rule_def)
      have "evolves t s1 s'"
        unfolding s' using Some g(3) by (intro set_entry_evolves [OF g(2), of t ?i e0]) simp_all
      with ev show ?thesis using evolves_trans by blast
    qed
  qed
qed

lemma push_record_evolves:
  "ok s \<Longrightarrow> push_record_outcomes port t by_id rs s = (r, s') \<Longrightarrow> evolves t s s'"
proof (induction rs arbitrary: s)
  case Nil
  then show ?case by (simp add: evolves_refl)
next
  case (Cons res rs)
  show ?case
  proof (cases "map_of by_id (pu_execute_plan_rule_id res)")
    case None
    with Cons.prems show ?thesis by (simp add: evolves_refl)
  next
    case (Some rule)
    obtain x s1 where u: "update_plan_rule port t s (outcome_rule res rule) = (x, s1)" by fastforce
    have ev: "evolves t s s1" using update_plan_rule_evolves [OF Cons.prems(1) u] .
    show ?thesis
    proof (cases x)
      case (Inl e)
      with Cons.prems Some u ev show ?thesis by simp
    next
      case (Inr y)
      with Cons.prems(2) Some u have "push_record_outcomes port t by_id rs s1 = (r, s')" by simp
      from Cons.IH [OF evolves_ok [OF ev] this] ev show ?thesis using evolves_trans by blast
    qed
  qed
qed

end

end
