(* ===== verification/Push_Once.thy ===== *)
theory Push_Once
  imports Execute_Push "HOL-Library.Sublist"
begin

text \<open>
  One push per plan.  A push that sent a creation request has marked its plan as executed (or the
  plan has left the cache), and a push that starts on such a plan sends nothing: run one after the
  other, two pushes of a plan never both create policies (\<open>push_run_once\<close>).  Run
  concurrently they can: the status is read several requests before it is written, and in the
  schedule of \<open>alternating_pushes\<close> both pushes send every rule.
\<close>

section \<open>Phases\<close>

fun marked :: "push_phase \<Rightarrow> bool" where
  "marked (PushTarget plan rules scope) = True"
| "marked (PushCreate plan rules scope target todo results) = True"
| "marked (PushRecord plan rules scope results) = True"
| "marked (PushFetch plan scope results ids) = True"
| "marked (PushCommit plan scope results pushed) = True"
| "marked (PushReport plan scope results pushed c) = True"
| "marked p = False"

fun for_plan :: "uuid \<Rightarrow> push_phase \<Rightarrow> bool" where
  "for_plan i (PushStart j) = (j = i)"
| "for_plan i (PushCatalog plan rules scope) = (ep_id plan = i)"
| "for_plan i (PushTarget plan rules scope) = (ep_id plan = i)"
| "for_plan i (PushCreate plan rules scope target todo results) = (ep_id plan = i)"
| "for_plan i (PushRecord plan rules scope results) = (ep_id plan = i)"
| "for_plan i (PushFetch plan scope results ids) = (ep_id plan = i)"
| "for_plan i (PushCommit plan scope results pushed) = (ep_id plan = i)"
| "for_plan i (PushReport plan scope results pushed c) = (ep_id plan = i)"
| "for_plan i p = True"

lemma push_create_one_store [simp]:
  "sy_store (snd (push_create_one env scope target r sys)) = sy_store sys"
  by (simp add: push_create_one_def split: prod.splits)

section \<open>Steps and runs over the contract of the cache\<close>

context execute_repository
begin

lemma push_start_inv:
  assumes "pv_port env = port" "ok (sy_store sys)" "keyed t (sy_store sys)"
    and "push_start env t i sys = (q, sys')"
  shows "evolves t (sy_store sys) (sy_store sys') \<and> for_plan i q \<and> \<not> marked q \<and>
    sy_requests sys' = sy_requests sys \<and> (executed t (sy_store sys) i \<longrightarrow> (\<exists>e. q = PushRaised e))"
proof -
  obtain p s1 where p: "get_plan port t (sy_store sys) i = (p, s1)" by fastforce
  note g = get_plan_evolves [OF assms(2) p]
  show ?thesis
  proof (cases p)
    case None
    with assms(1,4) p g show ?thesis by (auto simp: push_start_def)
  next
    case (Some plan)
    then obtain e where e: "entry t (sy_store sys) i = Some e" "plan = pe_plan e" using g by auto
    with assms(3) have id: "ep_id plan = i" by (simp add: keyed_def)
    show ?thesis
    proof (cases "ep_push_status plan = PLAN_EXECUTED")
      case True
      have "(\<exists>e. q = PushRaised e) \<and> sys' = sys\<lparr>sy_store := s1\<rparr>"
        using assms(1,4) p Some True by (simp add: push_start_def) blast
      with g show ?thesis by auto
    next
      case False
      obtain rules s2 where l: "list_plan_rules port t s1 (ep_id plan) (Some NEW_RULE) (Some {PUSH_PENDING})
          = (rules, s2)" by fastforce
      have "evolves t s1 s2"
        using list_plan_rules_evolves [OF _ l] g evolves_ok by blast
      then have ev: "evolves t (sy_store sys) s2" using g evolves_trans by blast
      have nex: "\<not> executed t (sy_store sys) i" using e False by (simp add: executed_def)
      have s': "sy_store sys' = s2 \<and> sy_requests sys' = sy_requests sys \<and>
          ((\<exists>e. q = PushRaised e) \<or> (\<exists>scope. q = PushCatalog plan rules scope))"
        using assms(1,4) p Some False l by (auto simp: push_start_def split: sum.splits if_splits)
      with ev id nex show ?thesis by auto
    qed
  qed
qed

lemma push_step_inv:
  assumes port: "pv_port env = port" and ok: "ok (sy_store sys)" and keyed: "keyed t (sy_store sys)"
    and plan: "for_plan i p" and ex: "marked p \<Longrightarrow> executed t (sy_store sys) i"
    and step: "push_step env t p sys = (q, sys')"
  shows "evolves t (sy_store sys) (sy_store sys') \<and> for_plan i q \<and>
    (marked q \<longrightarrow> executed t (sy_store sys') i) \<and>
    (sy_requests sys' \<noteq> sy_requests sys \<longrightarrow> executed t (sy_store sys') i)"
proof (cases p)
  case (PushStart j)
  with plan step have "push_start env t i sys = (q, sys')" by simp
  from push_start_inv [OF port ok keyed this] show ?thesis by auto
next
  case (PushCatalog pl rules scope)
  have id: "ep_id pl = i" using plan PushCatalog by simp
  obtain r s1 where u: "update_plan port t (sy_store sys) (mark_push_executed pl) = (r, s1)" by fastforce
  note ev = update_plan_evolves [OF ok keyed u]
  have "(sy_store sys' = sy_store sys \<and> (\<exists>e. q = PushRaised e \<or> q = PushHung)) \<or>
      (sy_store sys' = s1 \<and> ((\<exists>e. q = PushRaised e) \<or> q = PushTarget pl rules scope))"
    and "sy_requests sys' = sy_requests sys"
    using step PushCatalog port u
    by (auto simp: push_check_catalog_def split: option.splits sum.splits if_splits)
  with ev id ok show ?thesis by (auto simp: evolves_refl)
next
  case (PushTarget pl rules scope)
  with step have "sys' = sys \<and> ((\<exists>e. q = PushRaised e) \<or> (\<exists>tg. q = PushCreate pl rules scope tg (sort_key er_priority rules) []))"
    by (auto simp: push_find_target_def split: option.splits sum.splits)
  with PushTarget plan ex ok show ?thesis by (auto simp: evolves_refl)
next
  case (PushCreate pl rules scope target todo results)
  show ?thesis
  proof (cases todo)
    case Nil
    with PushCreate step plan ex ok show ?thesis by (auto simp: evolves_refl)
  next
    case (Cons r rs)
    obtain res sys1 where c: "push_create_one env scope target r sys = (res, sys1)" by fastforce
    then have "sy_store sys1 = sy_store sys" using push_create_one_store by (metis snd_conv)
    moreover have "q = PushCreate pl rules scope target rs (results @ [res])" "sys' = sys1"
      using PushCreate Cons step c by simp_all
    ultimately show ?thesis using PushCreate plan ex ok by (simp add: evolves_refl)
  qed
next
  case (PushRecord pl rules scope results)
  obtain x s1 where r: "push_record_outcomes port t (dict_of er_id rules) results (sy_store sys) = (x, s1)"
    by fastforce
  have ev: "evolves t (sy_store sys) s1" using push_record_evolves [OF ok r] .
  have "sy_store sys' = s1 \<and> sy_requests sys' = sy_requests sys"
    using step PushRecord port r by (auto split: option.splits)
  moreover have "for_plan i q"
    using step PushRecord port r plan by (auto split: option.splits if_splits)
  ultimately show ?thesis using ev ex PushRecord evolves_executed [OF ev] by simp
next
  case (PushFetch pl scope results ids)
  have "sys' = sys" "for_plan i q"
    using step PushFetch plan by (auto split: option.splits sum.splits)
  with PushFetch ex ok show ?thesis by (simp add: evolves_refl)
next
  case (PushCommit pl scope results pushed)
  have "sy_store sys' = sy_store sys" "sy_requests sys' = sy_requests sys" "for_plan i q"
    using step PushCommit plan by (auto split: prod.splits sum.splits)
  with PushCommit ex ok show ?thesis by (simp add: evolves_refl)
next
  case (PushReport pl scope results pushed c)
  obtain rs s1 where l: "list_plan_rules port t (sy_store sys) (ep_id pl) None None = (rs, s1)" by fastforce
  have "sy_store sys' = s1" "sy_requests sys' = sy_requests sys" "\<exists>r. q = PushDone r"
    using step PushReport port l by auto
  moreover have "evolves t (sy_store sys) s1" using list_plan_rules_evolves [OF ok l] .
  ultimately show ?thesis by auto
qed (use step ok in \<open>auto simp: evolves_refl\<close>)

lemma push_run_inv:
  assumes "pv_port env = port" "mono clock" "\<And>n. clock n \<le> t"
    and "ok (sy_store sys)" "keyed (clock 0) (sy_store sys)" "for_plan i p"
    and "marked p \<Longrightarrow> executed (clock 0) (sy_store sys) i"
    and "push_run env clock p sys = (q, sys')"
  shows "ok (sy_store sys') \<and> keyed t (sy_store sys') \<and>
    (executed (clock 0) (sy_store sys) i \<or> sy_requests sys' \<noteq> sy_requests sys \<longrightarrow>
       executed t (sy_store sys') i)"
  using assms
proof (induction env clock p sys rule: push_run.induct)
  case (1 env clock p sys)
  show ?case
  proof (cases "push_final p")
    case True
    then have "sys' = sys" using "1.prems"(8) by (subst (asm) push_run.simps) simp
    with "1.prems"(3) [of 0] "1.prems"(4,5) keyed_later executed_later show ?thesis by blast
  next
    case False
    obtain p1 sys1 where step: "push_step env (clock 0) p sys = (p1, sys1)" by fastforce
    let ?clock = "\<lambda>n. clock (Suc n)"
    have run: "push_run env ?clock p1 sys1 = (q, sys')"
      using "1.prems"(8) False step by (subst (asm) push_run.simps) simp
    have le: "clock 0 \<le> ?clock 0" using "1.prems"(2) by (simp add: mono_def)
    note st = push_step_inv [OF "1.prems"(1,4,5,6,7) step]
    then have ev: "evolves (clock 0) (sy_store sys) (sy_store sys1)" by blast
    have ok1: "ok (sy_store sys1)" using ev evolves_ok by blast
    have k1: "keyed (?clock 0) (sy_store sys1)"
      using keyed_later [OF ok1 le] evolves_keyed [OF ev "1.prems"(5)] by blast
    have ex1: "executed (clock 0) (sy_store sys1) i \<Longrightarrow> executed (?clock 0) (sy_store sys1) i"
      using executed_later [OF ok1 le] by blast
    have ih: "ok (sy_store sys') \<and> keyed t (sy_store sys') \<and>
      (executed (?clock 0) (sy_store sys1) i \<or> sy_requests sys' \<noteq> sy_requests sys1 \<longrightarrow>
       executed t (sy_store sys') i)"
    proof (rule "1.IH" [OF False step [symmetric] "1.prems"(1)])
      show "mono ?clock" using "1.prems"(2) by (simp add: mono_def)
      show "?clock n \<le> t" for n by (rule "1.prems"(3))
      show "ok (sy_store sys1)" "keyed (?clock 0) (sy_store sys1)" by fact+
      show "for_plan i p1" using st by blast
      show "marked p1 \<Longrightarrow> executed (?clock 0) (sy_store sys1) i" using st ex1 by blast
      show "push_run env ?clock p1 sys1 = (q, sys')" by fact
    qed
    moreover have "executed (?clock 0) (sy_store sys1) i"
      if "executed (clock 0) (sy_store sys) i \<or> sy_requests sys1 \<noteq> sy_requests sys"
      using that st evolves_executed [OF ev] ex1 by blast
    ultimately show ?thesis by (cases "sy_requests sys1 = sy_requests sys") auto
  qed
qed

text \<open>On an executed plan a push raises and sends nothing.\<close>

lemma push_run_executed:
  assumes "pv_port env = port" "ok (sy_store sys)" "keyed (clock 0) (sy_store sys)"
    and "executed (clock 0) (sy_store sys) i" "push_run env clock (PushStart i) sys = (q, sys')"
  shows "sy_requests sys' = sy_requests sys \<and> (\<exists>e. q = PushRaised e)"
proof -
  obtain p1 sys1 where step: "push_start env (clock 0) i sys = (p1, sys1)" by fastforce
  from push_start_inv [OF assms(1-3) step] assms(4)
  obtain e where e: "p1 = PushRaised e" "sy_requests sys1 = sy_requests sys" by blast
  then have "push_run env clock (PushStart i) sys = (PushRaised e, sys1)"
    using step by (subst push_run.simps) (simp add: push_run.simps [of env _ "PushRaised e"])
  with assms(5) have "q = PushRaised e" "sys' = sys1" by simp_all
  with e show ?thesis by blast
qed

lemma push_twice:
  assumes "pv_port env = port" "mono clock" "\<And>n. clock n \<le> t" "\<And>n. t \<le> clock' n"
    and "ok (sy_store sys)" "keyed (clock 0) (sy_store sys)"
    and "push_run env clock (PushStart i) sys = (q, sys1)"
    and "push_run env clock' (PushStart i) sys1 = (q', sys2)"
    and "sy_requests sys1 \<noteq> sy_requests sys"
  shows "sy_requests sys2 = sy_requests sys1 \<and> (\<exists>e. q' = PushRaised e)"
proof -
  have inv: "ok (sy_store sys1) \<and> keyed t (sy_store sys1) \<and> executed t (sy_store sys1) i"
    using push_run_inv [OF assms(1-3,5,6) _ _ assms(7), of i] assms(9) by simp
  then have "keyed (clock' 0) (sy_store sys1)" "executed (clock' 0) (sy_store sys1) i"
    using keyed_later executed_later assms(4) [of 0] by blast+
  with push_run_executed [OF assms(1) _ _ _ assms(8)] inv show ?thesis by blast
qed

end


section \<open>What a push sends\<close>

text \<open>The rules a phase may still send, and the request of one of them.\<close>

fun phase_rules :: "push_phase \<Rightarrow> execute_plan_rule list" where
  "phase_rules (PushCatalog plan rules scope) = sort_key er_priority rules"
| "phase_rules (PushTarget plan rules scope) = sort_key er_priority rules"
| "phase_rules (PushCreate plan rules scope target todo results) = todo"
| "phase_rules p = []"

fun phase_scope :: "push_phase \<Rightarrow> mapping_scope_data option" where
  "phase_scope (PushCatalog plan rules scope) = Some scope"
| "phase_scope (PushTarget plan rules scope) = Some scope"
| "phase_scope (PushCreate plan rules scope target todo results) = Some scope"
| "phase_scope p = None"

fun phase_target :: "push_phase \<Rightarrow> sdwan_device_object option" where
  "phase_target (PushCreate plan rules scope target todo results) = Some target"
| "phase_target p = None"

definition rule_request ::
  "mapping_scope_data \<Rightarrow> sdwan_device_object \<Rightarrow> execute_plan_rule \<Rightarrow> uuid \<times> create_policy_request" where
  "rule_request scope target r =
     (er_id r, policy_request (ms_sdwan_target_id scope) target (ms_rules_priority scope) (er_draft r))"

text \<open>\<open>sends p old new\<close>: the new requests are those of a subsequence of the phase's rules.\<close>

definition sends ::
  "push_phase \<Rightarrow> (uuid \<times> create_policy_request) list \<Rightarrow> (uuid \<times> create_policy_request) list \<Rightarrow> bool" where
  "sends p old new \<longleftrightarrow> new = old \<or>
     (\<exists>scope target sent. phase_scope p = Some scope \<and>
        (phase_target p = None \<or> phase_target p = Some target) \<and>
        subseq sent (phase_rules p) \<and> new = old @ map (rule_request scope target) sent)"

lemma push_create_one_requests:
  assumes "push_create_one env scope target r sys = (res, sys1)"
  shows "sy_requests sys1 = sy_requests sys \<or>
    sy_requests sys1 = sy_requests sys @ [rule_request scope target r]"
proof -
  obtain x req w where p: "push_rule (pv_api env) (sy_server sys) (ms_sdwan_target_id scope) target
      (ms_rules_priority scope) r = (x, req, w)" by (metis prod_cases3)
  with push_rule_ids [OF p] assms show ?thesis
    by (auto simp: push_create_one_def rule_request_def)
qed

lemma push_step_sends:
  assumes step: "push_step env t p sys = (q, sys1)" and start: "\<And>i. p \<noteq> PushStart i"
    and rest: "sends q (sy_requests sys1) new"
  shows "sends p (sy_requests sys) new"
proof (cases p)
  case (PushStart i)
  with start show ?thesis by blast
next
  case (PushCatalog plan rules scope)
  have "sy_requests sys1 = sy_requests sys \<and> (phase_rules q = [] \<and> phase_scope q = None \<or> q = PushTarget plan rules scope)"
    using step PushCatalog by (auto simp: push_check_catalog_def split: option.splits sum.splits prod.splits if_splits)
  with rest PushCatalog show ?thesis by (auto simp: sends_def) blast
next
  case (PushTarget plan rules scope)
  have "sys1 = sys \<and> (phase_scope q = None \<or>
      (\<exists>target. q = PushCreate plan rules scope target (sort_key er_priority rules) []))"
    using step PushTarget by (auto simp: push_find_target_def split: option.splits sum.splits)
  with rest PushTarget show ?thesis by (auto simp: sends_def) blast
next
  case (PushCreate plan rules scope target todo results)
  show ?thesis
  proof (cases todo)
    case Nil
    with PushCreate step have "q = PushRecord plan rules scope results" "sys1 = sys" by auto
    with rest show ?thesis by (simp add: sends_def)
  next
    case (Cons r rs)
    obtain res where c: "push_create_one env scope target r sys = (res, sys1)"
      and q: "q = PushCreate plan rules scope target rs (results @ [res])"
      using step PushCreate Cons by (auto split: prod.splits)
    obtain sent where sent: "subseq sent rs" "new = sy_requests sys1 @ map (rule_request scope target) sent"
    proof (cases "new = sy_requests sys1")
      case True
      then show ?thesis using that [of "[]"] by simp
    next
      case False
      with rest q that show ?thesis by (auto simp: sends_def)
    qed
    from push_create_one_requests [OF c] show ?thesis
    proof
      assume "sy_requests sys1 = sy_requests sys"
      moreover have "subseq sent (r # rs)" using sent(1) by (rule list_emb_Cons)
      ultimately show ?thesis using sent(2) PushCreate Cons by (auto simp: sends_def)
    next
      assume "sy_requests sys1 = sy_requests sys @ [rule_request scope target r]"
      then have "new = sy_requests sys @ map (rule_request scope target) (r # sent)" using sent(2) by simp
      moreover have "subseq (r # sent) (r # rs)" using sent(1) by simp
      ultimately show ?thesis unfolding sends_def PushCreate Cons
        by (intro disjI2 exI [of _ scope] exI [of _ target] exI [of _ "r # sent"]) simp
    qed
  qed
next
  case (PushRecord plan rules scope results)
  then have "sy_requests sys1 = sy_requests sys" "phase_scope q = None"
    using step by (auto split: prod.splits option.splits if_splits)
  with rest show ?thesis by (auto simp: sends_def)
next
  case (PushFetch plan scope results ids)
  then have "sy_requests sys1 = sy_requests sys" "phase_scope q = None"
    using step by (auto split: option.splits sum.splits)
  with rest show ?thesis by (auto simp: sends_def)
next
  case (PushCommit plan scope results pushed)
  then have "sy_requests sys1 = sy_requests sys" "phase_scope q = None"
    using step by (auto split: prod.splits sum.splits)
  with rest show ?thesis by (auto simp: sends_def)
next
  case (PushReport plan scope results pushed c)
  then have "sy_requests sys1 = sy_requests sys" "phase_scope q = None"
    using step by (auto split: prod.splits)
  with rest show ?thesis by (auto simp: sends_def)
qed (use step rest in \<open>auto simp: sends_def\<close>)

lemma push_run_sends:
  assumes "\<And>i. p \<noteq> PushStart i" "push_run env clock p sys = (q, sys')"
  shows "sends p (sy_requests sys) (sy_requests sys')"
  using assms
proof (induction env clock p sys rule: push_run.induct)
  case (1 env clock p sys)
  show ?case
  proof (cases "push_final p")
    case True
    then have "sys' = sys" using "1.prems"(2) by (subst (asm) push_run.simps) simp
    then show ?thesis by (simp add: sends_def)
  next
    case False
    obtain p1 sys1 where step: "push_step env (clock 0) p sys = (p1, sys1)" by fastforce
    have run: "push_run env (\<lambda>n. clock (Suc n)) p1 sys1 = (q, sys')"
      using "1.prems"(2) False step by (subst (asm) push_run.simps) simp
    have "push_rank p1 < 8 \<or> push_rank p1 = 8 \<and> p1 = p"
      using push_step_decreases [OF False step] by (cases p) auto
    then have "p1 \<noteq> PushStart i" for i using "1.prems"(1) by (cases p1) auto
    from "1.IH" [OF False step [symmetric] this run] show ?thesis
      by (intro push_step_sends [OF step "1.prems"(1)])
  qed
qed

context execute_repository
begin

text \<open>A push sends requests only for new, pending rules of its plan, in priority order.\<close>

lemma push_run_requests:
  assumes "pv_port env = port" "ok (sy_store sys)" "keyed (clock 0) (sy_store sys)"
    and "push_run env clock (PushStart i) sys = (q, sys')"
  shows "sy_requests sys' = sy_requests sys \<or>
    (\<exists>e scope target sent. entry (clock 0) (sy_store sys) i = Some e \<and>
       pv_scope_data env (ep_mapping_scope_id (pe_plan e)) = Inr scope \<and>
       subseq sent (sort_key er_priority (filter (\<lambda>r. er_match_status r = NEW_RULE \<and>
         er_push_status r = PUSH_PENDING) (map snd (pe_rules e)))) \<and>
       sy_requests sys' = sy_requests sys @ map (rule_request scope target) sent)"
proof -
  obtain p1 sys1 where start: "push_start env (clock 0) i sys = (p1, sys1)" by fastforce
  then have run: "push_run env (\<lambda>n. clock (Suc n)) p1 sys1 = (q, sys')"
    using assms(4) by (subst (asm) push_run.simps) simp
  have inv: "sy_requests sys1 = sy_requests sys"
    using push_start_inv [OF assms(1-3) start] by blast
  obtain p s1 where p: "get_plan port (clock 0) (sy_store sys) i = (p, s1)" by fastforce
  note g = get_plan_result [OF assms(2) p]
  obtain rules s2 where l: "list_plan_rules port (clock 0) s1 i (Some NEW_RULE) (Some {PUSH_PENDING})
      = (rules, s2)" by fastforce
  have "list_plan_rules port (clock 0) s1 i (Some NEW_RULE) (Some {PUSH_PENDING}) = (rules, s2)" by fact
  from list_entry [OF _ this] g
  have rules: "rules = (case entry (clock 0) (sy_store sys) i of None \<Rightarrow> []
      | Some e \<Rightarrow> sort_key er_priority (filter (matches_filters (Some NEW_RULE) (Some {PUSH_PENDING}))
          (map snd (pe_rules e))))" by simp
  have mf: "matches_filters (Some NEW_RULE) (Some {PUSH_PENDING}) =
      (\<lambda>r. er_match_status r = NEW_RULE \<and> er_push_status r = PUSH_PENDING)"
    by (rule ext) (simp add: matches_filters_def)
  consider (stop) "push_final p1" | (go) e scope where
      "entry (clock 0) (sy_store sys) i = Some e" "p1 = PushCatalog (pe_plan e) rules scope"
      "pv_scope_data env (ep_mapping_scope_id (pe_plan e)) = Inr scope"
  proof (cases p)
    case None
    with start p assms(1) have "push_final p1" by (auto simp: push_start_def)
    with that show ?thesis by blast
  next
    case (Some plan)
    with g obtain e where e: "entry (clock 0) (sy_store sys) i = Some e" "plan = pe_plan e"
      by (cases "entry (clock 0) (sy_store sys) i") auto
    with assms(3) have "ep_id plan = i" by (simp add: keyed_def)
    with start p assms(1) Some l have "push_final p1 \<or> (\<exists>scope. p1 = PushCatalog plan rules scope \<and>
        pv_scope_data env (ep_mapping_scope_id plan) = Inr scope)"
      by (auto simp: push_start_def split: sum.splits if_splits)
    with that e show ?thesis by blast
  qed
  then show ?thesis
  proof cases
    case stop
    then have "sys' = sys1" using run by (subst (asm) push_run.simps) simp
    with inv show ?thesis by simp
  next
    case go
    have "sends p1 (sy_requests sys1) (sy_requests sys')"
      using run go(2) by (intro push_run_sends) auto
    then have d: "sy_requests sys' = sy_requests sys \<or> (\<exists>target sent.
        subseq sent (sort_key er_priority rules) \<and>
        sy_requests sys' = sy_requests sys @ map (rule_request scope target) sent)"
      unfolding sends_def go(2) inv by (elim disjE exE conjE) auto
    have srt: "sort_key er_priority rules = rules"
      unfolding rules go(1) by (simp, rule sort_key_id_if_sorted) simp
    have eq: "rules = sort_key er_priority (filter (\<lambda>r. er_match_status r = NEW_RULE \<and>
        er_push_status r = PUSH_PENDING) (map snd (pe_rules e)))"
      unfolding rules go(1) mf by simp
    from d show ?thesis
    proof (elim disjE exE conjE)
      assume "sy_requests sys' = sy_requests sys"
      then show ?thesis by (rule disjI1)
    next
      fix target sent
      assume "subseq sent (sort_key er_priority rules)"
        and r: "sy_requests sys' = sy_requests sys @ map (rule_request scope target) sent"
      then have "subseq sent (sort_key er_priority (filter (\<lambda>r. er_match_status r = NEW_RULE \<and>
          er_push_status r = PUSH_PENDING) (map snd (pe_rules e))))"
        unfolding srt unfolding eq by blast
      with go(1,3) r show ?thesis by blast
    qed
  qed
qed

end


section \<open>Concurrent pushes\<close>

text \<open>Several pushes over the same state; the schedule says which one runs its next segment.\<close>

fun run_schedule ::
  "('s, 'w) push_env \<Rightarrow> (nat \<Rightarrow> timestamp) \<Rightarrow> nat list \<Rightarrow> push_phase list \<Rightarrow> ('s, 'w) push_state \<Rightarrow>
   push_phase list \<times> ('s, 'w) push_state" where
  "run_schedule env clock [] ps sys = (ps, sys)"
| "run_schedule env clock (i # is) ps sys =
     (case push_step env (clock 0) (ps ! i) sys of
        (q, sys1) \<Rightarrow> run_schedule env (\<lambda>n. clock (Suc n)) is (ps[i := q]) sys1)"

text \<open>The segments of two pushes that alternate: up to the creation of rules, then one rule each.\<close>

definition alternating :: "nat \<Rightarrow> nat list" where
  "alternating n = [0, 1, 0, 1, 0, 1] @ concat (replicate n [0, 1])"

text \<open>A kind of target takes only some placements; others are refused before a request is sent.\<close>

definition placement_ok :: "sdwan_device_object \<Rightarrow> sdwan_rule_priority \<Rightarrow> bool" where
  "placement_ok target p \<longleftrightarrow> (if dv_type target = DT_DEVICE then p = RP_LOCAL else p \<noteq> RP_LOCAL)"

text \<open>The rules of a plan that a push is to create.\<close>

definition to_send :: "plan_cache_entry \<Rightarrow> execute_plan_rule list" where
  "to_send e = sort_key er_priority (filter (\<lambda>r. er_match_status r = NEW_RULE \<and> er_push_status r = PUSH_PENDING)
     (map snd (pe_rules e)))"

lemma push_create_sends:
  assumes "placement_ok target (ms_rules_priority scope)"
  shows "sy_requests (snd (push_create_one env scope target r sys)) = sy_requests sys @ [rule_request scope target r]"
proof -
  obtain x req w where p: "push_rule (pv_api env) (sy_server sys) (ms_sdwan_target_id scope) target
      (ms_rules_priority scope) r = (x, req, w)" by (metis prod_cases3)
  moreover have "req \<noteq> None"
    using assms push_rule_placement p unfolding placement_ok_def by metis
  ultimately show ?thesis
    using push_rule_ids [OF p] by (auto simp: push_create_one_def rule_request_def)
qed

lemma alternating_creates:
  assumes "placement_ok target (ms_rules_priority scope)"
  shows "sy_requests (snd (run_schedule env clock (concat (replicate (length todo) [0, 1]))
      [PushCreate plan rules scope target todo a, PushCreate plan rules scope target todo b] sys)) =
    sy_requests sys @ concat (map (\<lambda>r. [rule_request scope target r, rule_request scope target r]) todo)"
proof (induction todo arbitrary: a b sys clock)
  case (Cons r todo)
  obtain x1 sys1 where c1: "push_create_one env scope target r sys = (x1, sys1)" by fastforce
  obtain x2 sys2 where c2: "push_create_one env scope target r sys1 = (x2, sys2)" by fastforce
  from c1 c2 push_create_sends [OF assms, of env r sys] push_create_sends [OF assms, of env r sys1]
  have "sy_requests sys2 = sy_requests sys @ [rule_request scope target r, rule_request scope target r]" by simp
  with Cons.IH [of _ "a @ [x1]" "b @ [x2]" sys2] show ?case by (simp add: c1 c2)
qed simp

context execute_repository
begin

lemma start_passes:
  assumes "pv_port env = port" "ok (sy_store sys)" "entry t (sy_store sys) i = Some e" "ep_id (pe_plan e) = i"
    and "ep_push_status (pe_plan e) \<noteq> PLAN_EXECUTED" "to_send e \<noteq> []"
    and "pv_scope_data env (ep_mapping_scope_id (pe_plan e)) = Inr scope"
    and "ms_catalog_fingerprint scope = ep_catalog_fingerprint (pe_plan e)"
  shows "\<exists>s. push_step env t (PushStart i) sys = (PushCatalog (pe_plan e) (to_send e) scope, sys\<lparr>sy_store := s\<rparr>) \<and>
    ok s \<and> entry t s i = Some e"
proof -
  obtain p s1 where p: "get_plan port t (sy_store sys) i = (p, s1)" by fastforce
  note g = get_plan_result [OF assms(2) p]
  obtain rules s2 where l: "list_plan_rules port t s1 i (Some NEW_RULE) (Some {PUSH_PENDING}) = (rules, s2)" by fastforce
  have mf: "matches_filters (Some NEW_RULE) (Some {PUSH_PENDING}) =
      (\<lambda>r. er_match_status r = NEW_RULE \<and> er_push_status r = PUSH_PENDING)"
    by (rule ext) (simp add: matches_filters_def)
  from list_entry [OF _ l] g assms(3) have "ok s2" "entry t s2 i = Some e" "rules = to_send e"
    by (simp_all add: to_send_def mf)
  with p g l assms show ?thesis by (intro exI [of _ s2]) (simp add: push_start_def)
qed

lemma catalog_passes:
  assumes "pv_port env = port" "ok (sy_store sys)" "entry t (sy_store sys) (ep_id plan) = Some e"
    and "gw_get_full_catalog (pv_api env) (sy_server sys) = Some (Inr cat)"
    and "get_fingerprint (pv_sha env) cat = ep_catalog_fingerprint plan"
  shows "\<exists>s e'. push_step env t (PushCatalog plan rules scope) sys = (PushTarget plan rules scope, sys\<lparr>sy_store := s\<rparr>) \<and>
    ok s \<and> entry t s (ep_id plan) = Some e'"
proof -
  obtain r s where u: "update_plan port t (sy_store sys) (mark_push_executed plan) = (r, s)" by fastforce
  from update_plan_entry [OF assms(2) u] assms(3) have "ok s" "r = Inr (mark_push_executed plan)"
    "\<exists>e'. entry t s (ep_id plan) = Some e'" by (simp_all add: mark_push_executed_def)
  with u assms show ?thesis by (intro exI [of _ s]) (simp add: push_check_catalog_def)
qed

lemma alternating_pushes:
  assumes port: "pv_port env = port" and ok: "ok (sy_store sys)"
    and e: "entry t (sy_store sys) i = Some e" "ep_id (pe_plan e) = i" "ep_push_status (pe_plan e) \<noteq> PLAN_EXECUTED"
    and scope: "pv_scope_data env (ep_mapping_scope_id (pe_plan e)) = Inr scope"
      "ms_catalog_fingerprint scope = ep_catalog_fingerprint (pe_plan e)"
    and cat: "gw_get_full_catalog (pv_api env) (sy_server sys) = Some (Inr cat)"
      "get_fingerprint (pv_sha env) cat = ep_catalog_fingerprint (pe_plan e)"
    and target: "gw_get_device_object (pv_api env) (sy_server sys) (ms_sdwan_target_id scope) = Inr (Some target)"
      "placement_ok target (ms_rules_priority scope)"
    and new: "to_send e \<noteq> []"
  shows "sy_requests (snd (run_schedule env (\<lambda>_. t) (alternating (length (to_send e))) [PushStart i, PushStart i] sys)) =
    sy_requests sys @ concat (map (\<lambda>r. [rule_request scope target r, rule_request scope target r]) (to_send e))"
proof -
  obtain s1 where s1: "push_step env t (PushStart i) sys = (PushCatalog (pe_plan e) (to_send e) scope, sys\<lparr>sy_store := s1\<rparr>)"
    "ok s1" "entry t s1 i = Some e"
    using start_passes [OF port ok e new scope] by blast
  obtain s2 where s2: "push_step env t (PushStart i) (sys\<lparr>sy_store := s1\<rparr>) =
      (PushCatalog (pe_plan e) (to_send e) scope, sys\<lparr>sy_store := s2\<rparr>)" "ok s2" "entry t s2 i = Some e"
    using start_passes [OF port _ _ e(2,3) new scope, of "sys\<lparr>sy_store := s1\<rparr>" t] s1(2,3) by auto
  let ?catalog = "PushCatalog (pe_plan e) (to_send e) scope" and ?target = "PushTarget (pe_plan e) (to_send e) scope"
  obtain s3 e3 where s3: "push_step env t ?catalog (sys\<lparr>sy_store := s2\<rparr>) = (?target, sys\<lparr>sy_store := s3\<rparr>)"
    "ok s3" "entry t s3 i = Some e3"
    using catalog_passes [OF port, of "sys\<lparr>sy_store := s2\<rparr>" t "pe_plan e" e cat "to_send e" scope] s2(2,3) e(2) cat by auto
  obtain s4 where s4: "push_step env t ?catalog (sys\<lparr>sy_store := s3\<rparr>) = (?target, sys\<lparr>sy_store := s4\<rparr>)"
    using catalog_passes [OF port, of "sys\<lparr>sy_store := s3\<rparr>" t "pe_plan e" e3 cat "to_send e" scope] s3(2,3) e(2) cat by auto
  have "sort_key er_priority (to_send e) = to_send e" unfolding to_send_def by (rule sort_key_id_if_sorted) simp
  then have s5: "push_step env t ?target (sys\<lparr>sy_store := s4\<rparr>) =
      (PushCreate (pe_plan e) (to_send e) scope target (to_send e) [], sys\<lparr>sy_store := s4\<rparr>)"
    using target(1) by (simp add: push_find_target_def)
  show ?thesis
    unfolding alternating_def
    using alternating_creates [OF target(2), of env "\<lambda>_. t" "to_send e" "pe_plan e" "to_send e" "[]" "[]" "sys\<lparr>sy_store := s4\<rparr>"]
    by (simp del: push_step.simps add: s1(1) s2(1) s3(1) s4 s5)
qed

end

text \<open>A server with one device and an empty catalog, and a plan with one new rule.\<close>

definition sample_page :: "'a api_page" where
  "sample_page = \<lparr>pg_data = [], pg_total = 0, pg_next_page = None\<rparr>"

definition sample_device :: device_object_response where
  "sample_device = \<lparr>dor_dev_obj_id = ''d'', dor_parent_dev_obj_ids = [], dor_type = DT_DEVICE,
     dor_name = ''cpe'', dor_cpe = Some ''c''\<rparr>"

definition sample_api :: "nat csp_api" where
  "sample_api =
     \<lparr>api_zones = (\<lambda>w l. Inr ([], 0)), api_services_page = (\<lambda>w c. Inr sample_page),
      api_addr_objects_page = (\<lambda>w q c. Inr sample_page), api_networks = (\<lambda>w l. Inr ([], 0)),
      api_device_objects = (\<lambda>w i. Inr [sample_device]),
      api_policies_page = (\<lambda>w ps q c. Inr sample_page),
      api_create_policy = (\<lambda>w r. (Inr (int w), Suc w)),
      api_make_commit = (\<lambda>w n d. (Inr 7, w)),
      api_commit_info = (\<lambda>w i. Inr \<lparr>cdr_commit_id = i, cdr_name = [], cdr_description = []\<rparr>)\<rparr>"

definition sample_scope :: mapping_scope_data where
  "sample_scope =
     \<lparr>ms_id = 9, ms_title = ''scope'', ms_csp_profile_id = 3, ms_vpc_id = ''v'',
      ms_sdwan_target_id = ''d'', ms_rules_priority = RP_LOCAL, ms_catalog_fingerprint = []\<rparr>"

definition sample_plan :: execute_plan where
  "sample_plan = create_plan 1 0 9 []"

definition sample_draft :: planned_rule_draft where
  "sample_draft =
     \<lparr>rb_action = ACT_ACCEPT, rb_src_zones = [1], rb_dst_zones = [2], rb_src_addr_objects = [3],
      rb_dst_addr_objects = [4], rb_services = [5], pd_name = ''r''\<rparr>"

definition sample_rule :: execute_plan_rule where
  "sample_rule = create_plan_rule 2 1 8 10 sample_draft new_rule_result"

type_synonym sample_store = "plan_cache_entry deadline_cache ttl_store"

definition sample_port :: "sample_store plan_port" where
  "sample_port = port_of (store_get deadline_ops) (store_set deadline_ops)"

definition sample_env :: "(sample_store, nat) push_env" where
  "sample_env =
     \<lparr>pv_port = sample_port, pv_api = sample_api, pv_scope_data = (\<lambda>i. Inr sample_scope),
      pv_strftime = (\<lambda>t. []), pv_sha = (\<lambda>s. [])\<rparr>"

definition sample_state :: "(sample_store, nat) push_state" where
  "sample_state =
     \<lparr>sy_store = snd (add_plan_with_rules sample_port 0
        \<lparr>ts_ttl_seconds = 1000, ts_max_entries = 10, ts_caches = []\<rparr> sample_plan [sample_rule]),
      sy_server = 100, sy_reports = [], sy_requests = []\<rparr>"

lemma sample_sequential:
  "map fst (sy_requests (snd (push_run sample_env int (PushStart 1) sample_state))) = [2]"
  by code_simp

end
