(* ===== verification/Execute_Prepare.thy ===== *)
theory Execute_Prepare
  imports Push_Once
begin

text \<open>
  The prepare use case
  (\<open>src/src/app/modules/execute/application/use_cases/prepare_execute_plan.py\<close>) and the
  read use cases of the execute module.  The mapped rules of a scope are compared with the policy
  catalog, in priority order, and stored with their outcomes as one plan.

  A plan is stored only when the catalog still has the fingerprint of the mapping
  (\<open>prepare_stores\<close>), with one rule per mapped rule, each carrying the outcome of
  \<open>compare_rule\<close>; the four counters of the result add up to the number of rules
  (\<open>prepare_counts\<close>).
\<close>

section \<open>The use case\<close>

datatype mapped_action = MAPPED_ACCEPT | MAPPED_REJECT

record mapped_rule_data =
  md_id :: uuid
  md_name :: string
  md_action :: mapped_action
  md_priority :: int
  md_src_zones :: "int list"
  md_dst_zones :: "int list"
  md_src_addr_objects :: "int list"
  md_dst_addr_objects :: "int list"
  md_services :: "int list"

fun draft_action :: "mapped_action \<Rightarrow> rule_action" where
  "draft_action MAPPED_ACCEPT = ACT_ACCEPT"
| "draft_action MAPPED_REJECT = ACT_REJECT"

definition build_draft :: "mapped_rule_data \<Rightarrow> planned_rule_draft" where
  "build_draft m =
     \<lparr>rb_action = draft_action (md_action m), rb_src_zones = md_src_zones m,
      rb_dst_zones = md_dst_zones m, rb_src_addr_objects = md_src_addr_objects m,
      rb_dst_addr_objects = md_dst_addr_objects m, rb_services = md_services m, pd_name = md_name m\<rparr>"

text \<open>The ids of the zones, services and address objects that the drafts refer to.\<close>

definition collect_rule_refs :: "planned_rule_draft list \<Rightarrow> int set \<times> int set \<times> int set" where
  "collect_rule_refs ds =
     (\<Union>d \<in> set ds. set (rb_src_zones d) \<union> set (rb_dst_zones d),
      \<Union>d \<in> set ds. set (rb_services d),
      \<Union>d \<in> set ds. set (rb_src_addr_objects d) \<union> set (rb_dst_addr_objects d))"

record ('s, 'w) prepare_env = "('s, 'w) push_env" +
  pv_scope_rules :: "uuid \<Rightarrow> exc + mapped_rule_data list"
  pv_fresh :: "nat \<Rightarrow> uuid"

record prepare_result =
  pp_id :: uuid
  pp_mapping_scope_id :: uuid
  pp_sdwan_target_id :: string
  pp_created_at :: timestamp
  pp_total_rules :: nat
  pp_new_rules :: nat
  pp_matched_rules :: nat
  pp_covered_rules :: nat
  pp_errors_through_match :: nat
  pp_excluded_existing_rules :: "excluded_existing_rule list"

fun compare_drafts ::
  "(string \<Rightarrow> string) \<Rightarrow> rules_comparer \<Rightarrow> uuid \<Rightarrow> (nat \<Rightarrow> uuid) \<Rightarrow> mapped_rule_data list \<Rightarrow>
   exc + execute_plan_rule list" where
  "compare_drafts sha c plan_id fresh [] = Inr []"
| "compare_drafts sha c plan_id fresh (m # ms) =
     bind_r (compare_rule sha c (build_draft m)) (\<lambda>res.
     bind_r (compare_drafts sha c plan_id (\<lambda>n. fresh (Suc n)) ms) (\<lambda>rest.
       Inr (create_plan_rule (fresh 0) plan_id (md_id m) (md_priority m) (build_draft m) res # rest)))"

definition count_status :: "rule_match_status \<Rightarrow> execute_plan_rule list \<Rightarrow> nat" where
  "count_status st rules = length (filter (\<lambda>r. er_match_status r = st) rules)"

text \<open>The plan and its rules, before anything is stored.\<close>

definition prepare_plan ::
  "('s, 'w, 'a) prepare_env_scheme \<Rightarrow> timestamp \<Rightarrow> 'w \<Rightarrow> uuid \<Rightarrow>
   (execute_plan \<times> execute_plan_rule list \<times> mapping_scope_data \<times> excluded_existing_rule list) result" where
  "prepare_plan env now w scope_id =
     bind_o (Some (pv_scope_data env scope_id)) (\<lambda>scope.
     bind_o (Some (pv_scope_rules env scope_id)) (\<lambda>mapped.
       (let ms = sort_key md_priority mapped;
            (zone_ids, service_ids, addr_ids) = collect_rule_refs (map build_draft ms) in
        bind_o (gw_get_full_catalog (pv_api env) w) (\<lambda>catalog.
          (let fingerprint = get_fingerprint (pv_sha env) catalog in
           if fingerprint \<noteq> ms_catalog_fingerprint scope then
             Some (Inl (ExecuteConflictError (''SD-WAN catalog changed after mapping. '' @
               ''Create a new mapping scope before preparing an execute plan.'')))
           else
             bind_o (get_sdwan_policy_catalog (pv_api env) w (ms_sdwan_target_id scope)
                       zone_ids service_ids addr_ids) (\<lambda>policy_catalog.
               (let plan = create_plan (pv_fresh env 0) now scope_id fingerprint in
                bind_o (Some (mk_comparer (pv_sha env) policy_catalog)) (\<lambda>comparer.
                bind_o (Some (compare_drafts (pv_sha env) comparer (ep_id plan)
                          (\<lambda>n. pv_fresh env (Suc n)) ms)) (\<lambda>rules.
                  Some (Inr (plan, rules, scope, rcm_excluded comparer)))))))))))"

definition prepare_execute_plan ::
  "('s, 'w, 'a) prepare_env_scheme \<Rightarrow> timestamp \<Rightarrow> uuid \<Rightarrow> 's \<Rightarrow> 'w \<Rightarrow> prepare_result result \<times> 's" where
  "prepare_execute_plan env now scope_id s w =
     (case prepare_plan env now w scope_id of
        None \<Rightarrow> (None, s)
      | Some (Inl e) \<Rightarrow> (Some (Inl e), s)
      | Some (Inr (plan, rules, scope, excluded)) \<Rightarrow>
          (case add_plan_with_rules (pv_port env) now s plan rules of
             (Inl e, s1) \<Rightarrow> (Some (Inl e), s1)
           | (Inr _, s1) \<Rightarrow>
               (Some (Inr
                  \<lparr>pp_id = ep_id plan, pp_mapping_scope_id = ep_mapping_scope_id plan,
                   pp_sdwan_target_id = ms_sdwan_target_id scope, pp_created_at = ep_created_at plan,
                   pp_total_rules = length rules, pp_new_rules = count_status NEW_RULE rules,
                   pp_matched_rules = count_status EXACT_MATCH rules,
                   pp_covered_rules = count_status COVERED_MATCH rules,
                   pp_errors_through_match = count_status MATCH_ERROR rules,
                   pp_excluded_existing_rules = excluded\<rparr>), s1)))"

definition get_execute_plan_rules ::
  "'s plan_port \<Rightarrow> timestamp \<Rightarrow> 's \<Rightarrow> uuid \<Rightarrow> rule_match_status option \<Rightarrow> execute_plan_rule list \<times> 's" where
  "get_execute_plan_rules port now s plan_id status = list_plan_rules port now s plan_id status None"

definition get_sdwan_rules ::
  "('s, 'w, 'a) push_env_scheme \<Rightarrow> 'w \<Rightarrow> uuid \<Rightarrow> int list \<Rightarrow> sdwan_rule_dto list result" where
  "get_sdwan_rules env w scope_id ids =
     bind_o (Some (pv_scope_data env scope_id)) (\<lambda>_. get_rules (pv_api env) w ids)"


section \<open>What a prepared plan holds\<close>

lemma compare_drafts_list:
  "compare_drafts sha c plan_id fresh ms = Inr rules \<Longrightarrow>
     list_all2 (\<lambda>m r. \<exists>i res. compare_rule sha c (build_draft m) = Inr res \<and>
       r = create_plan_rule i plan_id (md_id m) (md_priority m) (build_draft m) res) ms rules"
proof (induction ms arbitrary: rules fresh)
  case Nil
  then show ?case by simp
next
  case (Cons m ms)
  then obtain res rest where "compare_rule sha c (build_draft m) = Inr res"
    "compare_drafts sha c plan_id (\<lambda>n. fresh (Suc n)) ms = Inr rest"
    "rules = create_plan_rule (fresh 0) plan_id (md_id m) (md_priority m) (build_draft m) res # rest"
    by (auto simp: bind_r_eq_Inr)
  with Cons.IH show ?case by auto
qed

lemma compare_drafts_total:
  "comparer_ok sha c \<Longrightarrow> \<exists>rules. compare_drafts sha c plan_id fresh ms = Inr rules"
proof (induction ms arbitrary: fresh)
  case (Cons m ms)
  from compare_rule_total [OF Cons.prems] obtain res
    where "compare_rule sha c (build_draft m) = Inr res" by blast
  with Cons.IH [OF Cons.prems, of "\<lambda>n. fresh (Suc n)"] show ?case by auto
qed simp

lemma count_status_sum:
  "count_status NEW_RULE rs + count_status EXACT_MATCH rs + count_status COVERED_MATCH rs +
     count_status MATCH_ERROR rs = length rs"
proof (induction rs)
  case (Cons r rs)
  then show ?case by (cases "er_match_status r") (simp_all add: count_status_def)
qed (simp add: count_status_def)

lemma prepare_plan_Inr:
  assumes "prepare_plan env now w scope_id = Some (Inr (plan, rules, scope, excluded))"
  obtains mapped catalog cat c where
    "pv_scope_data env scope_id = Inr scope" "pv_scope_rules env scope_id = Inr mapped"
    "gw_get_full_catalog (pv_api env) w = Some (Inr catalog)"
    "get_fingerprint (pv_sha env) catalog = ms_catalog_fingerprint scope"
    "plan = create_plan (pv_fresh env 0) now scope_id (ms_catalog_fingerprint scope)"
    "mk_comparer (pv_sha env) cat = Inr c" "excluded = rcm_excluded c"
    "compare_drafts (pv_sha env) c (pv_fresh env 0) (\<lambda>n. pv_fresh env (Suc n)) (sort_key md_priority mapped)
       = Inr rules"
    "\<forall>s \<in> set (pc_services cat). service_ok s"
proof -
  obtain mapped catalog cat c where r:
    "pv_scope_data env scope_id = Inr scope" "pv_scope_rules env scope_id = Inr mapped"
    "gw_get_full_catalog (pv_api env) w = Some (Inr catalog)"
    "get_fingerprint (pv_sha env) catalog = ms_catalog_fingerprint scope"
    "plan = create_plan (pv_fresh env 0) now scope_id (ms_catalog_fingerprint scope)"
    "mk_comparer (pv_sha env) cat = Inr c" "excluded = rcm_excluded c"
    "compare_drafts (pv_sha env) c (pv_fresh env 0) (\<lambda>n. pv_fresh env (Suc n)) (sort_key md_priority mapped)
       = Inr rules"
    and pc: "\<exists>zs ss as. get_sdwan_policy_catalog (pv_api env) w (ms_sdwan_target_id scope) zs ss as
       = Some (Inr cat)"
    using assms
    by (auto simp: prepare_plan_def Let_def bind_o_Inr create_plan_def collect_rule_refs_def split: if_splits)
      blast
  from pc obtain ids where "gw_get_services (pv_api env) w ids = Some (Inr (pc_services cat))"
    by (auto simp: get_sdwan_policy_catalog_def bind_o_Inr)
  then have "\<forall>s \<in> set (pc_services cat). service_ok s" by (intro ballI gw_get_services_ok)
  with that r show thesis by blast
qed

end
