(* ===== verification/Execute_Samples.thy ===== *)
theory Execute_Samples
  imports Execute_Prepare
begin

text \<open>
  A small policy catalog and its comparer, on which the properties of the execute module are
  exercised: two zones, two services, one domain name and one existing rule; the digest is the
  identity, which does not collide.
\<close>

definition sample_zone :: "int \<Rightarrow> string \<Rightarrow> sdwan_zone" where
  "sample_zone i n = \<lparr>zn_id = i, zn_zone_id = i, zn_name = n, zn_type = ZT_LAN\<rparr>"

definition sample_service :: "int \<Rightarrow> (int \<times> int) list \<Rightarrow> sdwan_service" where
  "sample_service i rs =
     \<lparr>sv_id = i, sv_name = ''s'', sv_l4_proto = L4_TCP, sv_ranges = Some rs, sv_codes = None\<rparr>"

definition sample_fqdn :: "int \<Rightarrow> int list \<Rightarrow> string \<Rightarrow> sdwan_addr_object" where
  "sample_fqdn i ps h =
     \<lparr>ao_id = i, ao_parents = ps, ao_name = ''h'', ao_type = AT_FQDN, ao_network_id = None,
      ao_network = None, ao_prefix = None, ao_host = None, ao_fqdn = Some h, ao_ip_range_from = None,
      ao_ip_range_to = None, ao_addr_group = None\<rparr>"

definition sample_existing :: sdwan_rule where
  "sample_existing =
     \<lparr>rb_action = ACT_ACCEPT, rb_src_zones = [1], rb_dst_zones = [2], rb_src_addr_objects = [3],
      rb_dst_addr_objects = [3], rb_services = [5], sr_id = 77\<rparr>"

definition sample_broken :: sdwan_rule where
  "sample_broken =
     \<lparr>rb_action = ACT_ACCEPT, rb_src_zones = [9], rb_dst_zones = [], rb_src_addr_objects = [],
      rb_dst_addr_objects = [], rb_services = [], sr_id = 78\<rparr>"

definition sample_catalog :: sdwan_policy_catalog where
  "sample_catalog =
     \<lparr>pc_target_id = ''d'', pc_rules = [sample_existing, sample_broken],
      pc_zones = [sample_zone 1 ''a'', sample_zone 2 ''b''],
      pc_services = [sample_service 5 [(1, 9)], sample_service 6 [(2, 3)], sample_service 7 [(5, 12)]],
      pc_address_objects = [sample_fqdn 3 [] ''h.x'']\<rparr>"

definition sample_planned :: "int \<Rightarrow> rule_body" where
  "sample_planned s =
     \<lparr>rb_action = ACT_ACCEPT, rb_src_zones = [1], rb_dst_zones = [2], rb_src_addr_objects = [3],
      rb_dst_addr_objects = [3], rb_services = [s]\<rparr>"

definition sample_resolver :: rule_resolver where
  "sample_resolver =
     mk_rule_resolver (pc_zones sample_catalog) (pc_services sample_catalog) (pc_address_objects sample_catalog)"

definition sample_ports :: "int \<Rightarrow> int \<Rightarrow> service_value" where
  "sample_ports a b =
     \<lparr>sval_proto = L4_TCP, sval_port_start = Some a, sval_port_end = Some b, sval_codes = None\<rparr>"

definition sample_address :: "address_value resolved" where
  "sample_address =
     \<lparr>rv_value = FqdnValue ''h.x'',
      rv_evidence = \<lparr>cv_object_id = 3, cv_object_name = ''h'', cv_value = ''h.x''\<rparr>\<rparr>"

definition sample_values :: "int \<Rightarrow> int \<Rightarrow> int \<Rightarrow> string \<Rightarrow> resolved_rule_values" where
  "sample_values i a b txt =
     \<lparr>rr_normalized =
        \<lparr>nr_action = ACT_ACCEPT, nr_src_zones = {''a''}, nr_dst_zones = {''b''},
         nr_src_addresses = {FqdnValue ''h.x''}, nr_dst_addresses = {FqdnValue ''h.x''},
         nr_services = {sample_ports a b}\<rparr>,
      rr_src_addresses = [sample_address], rr_dst_addresses = [sample_address],
      rr_services = [\<lparr>rv_value = sample_ports a b,
        rv_evidence = \<lparr>cv_object_id = i, cv_object_name = ''s'', cv_value = txt\<rparr>\<rparr>]\<rparr>"

lemma sample_zones:
  "normalize_zones sample_resolver [1] = Inr {''a''}" "normalize_zones sample_resolver [2] = Inr {''b''}"
  "normalize_zones sample_resolver [9] = Inl (RuleValueNormalizationError ''Unknown zone id: 9'')"
  by code_simp+

lemma sample_addresses: "resolve_address_values sample_resolver [3] = Inr [sample_address]"
  by code_simp

lemma sample_no_values:
  "resolve_address_values sample_resolver [] = Inr []" "resolve_service_values sample_resolver [] = Inr []"
  by code_simp+

lemma sample_services:
  "resolve_service_values sample_resolver [5] = Inr (rr_services (sample_values 5 1 9 ''tcp/1-9''))"
  "resolve_service_values sample_resolver [6] = Inr (rr_services (sample_values 6 2 3 ''tcp/2-3''))"
  "resolve_service_values sample_resolver [7] = Inr (rr_services (sample_values 7 5 12 ''tcp/5-12''))"
  by code_simp+

lemma sample_resolved:
  "resolve_rule sample_resolver sample_existing = Inr (sample_values 5 1 9 ''tcp/1-9'')"
  "resolve_rule sample_resolver (sample_planned 5) = Inr (sample_values 5 1 9 ''tcp/1-9'')"
  "resolve_rule sample_resolver (sample_planned 6) = Inr (sample_values 6 2 3 ''tcp/2-3'')"
  "resolve_rule sample_resolver (sample_planned 7) = Inr (sample_values 7 5 12 ''tcp/5-12'')"
  "resolve_rule sample_resolver sample_broken = Inl (RuleValueNormalizationError ''Unknown zone id: 9'')"
  by (simp_all add: resolve_rule_def sample_existing_def sample_planned_def sample_broken_def
      sample_zones sample_addresses sample_services sample_no_values sample_values_def sample_address_def)

definition sample_comparer :: rules_comparer where
  "sample_comparer =
     (let x = \<lparr>rx_rule = sample_existing, rx_values = sample_values 5 1 9 ''tcp/1-9''\<rparr> in
      \<lparr>rcm_resolver = sample_resolver, rcm_resolved = [x],
       rcm_index = [(exact_signature (\<lambda>s. s) (rr_normalized (sample_values 5 1 9 ''tcp/1-9'')), [x])],
       rcm_excluded = [\<lparr>xr_sdwan_rule_id = 78, xr_reason = ''Unknown zone id: 9''\<rparr>]\<rparr>)"

lemma sample_rules: "pc_rules sample_catalog = [sample_existing, sample_broken]"
  by (simp add: sample_catalog_def)

lemma sample_mk_comparer: "mk_comparer (\<lambda>s. s) sample_catalog = Inr sample_comparer"
  unfolding mk_comparer_def sample_rules sample_resolver_def [symmetric]
  by (simp add: load_rule_def sample_resolved sample_comparer_def Let_def group_append_def)
    (simp add: sample_broken_def)

lemma sample_services_ok: "\<forall>s \<in> set (pc_services sample_catalog). service_ok s"
  by (simp add: sample_catalog_def sample_service_def service_ok_def service_post_init_def)

lemma sample_values_ok: "a \<le> b \<Longrightarrow> resolved_ok (sample_values i a b t)"
  by (simp add: resolved_ok_def sample_values_def sample_address_def sample_ports_def service_value_ok_def)

lemma sample_no_collision: "no_signature_collision (\<lambda>s. s) v w"
  by (simp add: no_signature_collision_def no_collision_def)

lemma sample_signature_iff:
  assumes "a \<le> b" "a' \<le> b'"
  shows "exact_signature (\<lambda>s. s) (rr_normalized (sample_values i a b t)) =
    exact_signature (\<lambda>s. s) (rr_normalized (sample_values i' a' b' t')) \<longleftrightarrow> a = a' \<and> b = b'"
  using exact_signature_iff [OF sample_values_ok [OF assms(1), of i t]
      sample_values_ok [OF assms(2), of i' t'] sample_no_collision]
  by (auto simp: sample_values_def sample_ports_def)

lemma sample_cover:
  "analyze_coverage (sample_values 5 1 9 ''tcp/1-9'') (sample_values 6 2 3 ''tcp/2-3'') =
     Inr \<lparr>ca_is_covered = True, ca_details =
       [\<lparr>cd_field = SERVICES,
         cd_covering_value = \<lparr>cv_object_id = 5, cv_object_name = ''s'', cv_value = ''tcp/1-9''\<rparr>,
         cd_covered_values = [\<lparr>cv_object_id = 6, cv_object_name = ''s'', cv_value = ''tcp/2-3''\<rparr>]\<rparr>]\<rparr>"
  "analyze_coverage (sample_values 5 1 9 ''tcp/1-9'') (sample_values 7 5 12 ''tcp/5-12'') = Inr not_covered"
  by code_simp+

lemma sample_compare:
  "compare_rule (\<lambda>s. s) sample_comparer (sample_planned 5) = Inr (exact_match_result 77)"
  "compare_rule (\<lambda>s. s) sample_comparer (sample_planned 6) =
     Inr (covered_match_result 77 (ca_details (projr
       (analyze_coverage (sample_values 5 1 9 ''tcp/1-9'') (sample_values 6 2 3 ''tcp/2-3'')))))"
  "compare_rule (\<lambda>s. s) sample_comparer (sample_planned 7) = Inr new_rule_result"
  by (simp_all add: compare_rule_def sample_comparer_def Let_def sample_resolved dict_get_def
      sample_signature_iff sample_cover not_covered_def)
    (simp_all add: sample_existing_def)

end
