(* ===== verification/Execute_Properties.thy ===== *)
theory Execute_Properties
  imports Execute_Samples
begin

text \<open>
  The properties of the execute module, each with an example where its hypotheses hold.  They
  follow from the lemmas of the component theories.
\<close>

section \<open>Comparison of rules\<close>

text \<open>Coverage of a field: each planned value lies in one existing value.\<close>

definition field_covers :: "('v \<Rightarrow> 'p set) \<Rightarrow> 'v set \<Rightarrow> 'v set \<Rightarrow> bool" where
  "field_covers sem existing planned \<longleftrightarrow>
     (planned = {} \<longleftrightarrow> existing = {}) \<and> (\<forall>p \<in> planned. \<exists>e \<in> existing. sem p \<subseteq> sem e)"

definition rule_covers :: "normalized_rule_values \<Rightarrow> normalized_rule_values \<Rightarrow> bool" where
  "rule_covers e p \<longleftrightarrow> nr_action e = nr_action p \<and>
     str_set_covers (nr_src_zones e) (nr_src_zones p) \<and> str_set_covers (nr_dst_zones e) (nr_dst_zones p) \<and>
     field_covers address_sem (nr_src_addresses e) (nr_src_addresses p) \<and>
     field_covers address_sem (nr_dst_addresses e) (nr_dst_addresses p) \<and>
     field_covers service_sem (nr_services e) (nr_services p)"

lemma field_covers_image:
  "field_covers sem (rv_value ` set es) (rv_value ` set ps) \<longleftrightarrow>
     (ps = [] \<longleftrightarrow> es = []) \<and> (\<forall>p \<in> set ps. \<exists>e \<in> set es. sem (rv_value p) \<subseteq> sem (rv_value e))"
  by (auto simp: field_covers_def)

lemma covered_by_iff:
  assumes e: "resolved_ok e" and p: "resolved_ok p"
  shows "covered_by e p \<longleftrightarrow> rule_covers (rr_normalized e) (rr_normalized p)"
proof -
  let ?src = "analyze_values_coverage address_covers address_signature SRC_ADDR_OBJECTS
    (rr_src_addresses e) (rr_src_addresses p)"
  let ?dst = "analyze_values_coverage address_covers address_signature DST_ADDR_OBJECTS
    (rr_dst_addresses e) (rr_dst_addresses p)"
  let ?svc = "analyze_values_coverage service_covers service_signature SERVICES
    (rr_services e) (rr_services p)"
  have oks: "addr.oks (rr_src_addresses e)" "addr.oks (rr_dst_addresses e)" "svc.oks (rr_services e)"
    "addr.oks (rr_src_addresses p)" "addr.oks (rr_dst_addresses p)" "svc.oks (rr_services p)"
    using e p by (simp_all add: resolved_ok_def)
  have vals: "nr_src_addresses (rr_normalized x) = rv_value ` set (rr_src_addresses x)"
    "nr_dst_addresses (rr_normalized x) = rv_value ` set (rr_dst_addresses x)"
    "nr_services (rr_normalized x) = rv_value ` set (rr_services x)" if "resolved_ok x" for x
    using that by (simp_all add: resolved_ok_def)
  have src: "(\<exists>ds. ?src = Inr (Some ds)) \<longleftrightarrow>
      field_covers address_sem (nr_src_addresses (rr_normalized e)) (nr_src_addresses (rr_normalized p))"
    unfolding vals(1) [OF e] vals(1) [OF p] field_covers_image
    by (rule addr.analysis_covered_iff [OF oks(1,4)])
  have dst: "(\<exists>ds. ?dst = Inr (Some ds)) \<longleftrightarrow>
      field_covers address_sem (nr_dst_addresses (rr_normalized e)) (nr_dst_addresses (rr_normalized p))"
    unfolding vals(2) [OF e] vals(2) [OF p] field_covers_image
    by (rule addr.analysis_covered_iff [OF oks(2,5)])
  have svc: "(\<exists>ds. ?svc = Inr (Some ds)) \<longleftrightarrow>
      field_covers service_sem (nr_services (rr_normalized e)) (nr_services (rr_normalized p))"
    unfolding vals(3) [OF e] vals(3) [OF p] field_covers_image
    by (rule svc.analysis_covered_iff [OF oks(3,6)])
  show ?thesis
  proof
    assume "covered_by e p"
    then obtain a where a: "analyze_coverage e p = Inr a" "ca_is_covered a"
      by (auto simp: covered_by_def)
    from analyze_coverage_covered [OF a] src dst svc show "rule_covers (rr_normalized e) (rr_normalized p)"
      unfolding rule_covers_def by metis
  next
    assume r: "rule_covers (rr_normalized e) (rr_normalized p)"
    then obtain s d v where "?src = Inr (Some s)" "?dst = Inr (Some d)" "?svc = Inr (Some v)"
      using src dst svc unfolding rule_covers_def by metis
    with r show "covered_by e p"
      by (simp add: covered_by_def analyze_coverage_def rule_covers_def Let_def)
  qed
qed

text \<open>C1 A planned rule reported as a covered match is safe to skip: the existing rule named by the
  result was loaded from the catalog, has the same effect (accept, or reject and drop, which the
  comparison identifies), and matches every packet that the planned rule matches.\<close>

theorem covered_match_sound:
  assumes "\<forall>s \<in> set (pc_services cat). service_ok s" "mk_comparer sha cat = Inr c"
    and "compare_rule sha c rule = Inr r" "rc_match_status r = COVERED_MATCH"
  shows "\<exists>x \<in> set (rcm_resolved c). \<exists>v. resolve_rule (rcm_resolver c) rule = Inr v \<and>
    rc_matched_sdwan_rule_id r = Some (sr_id (rx_rule x)) \<and> rx_rule x \<in> set (pc_rules cat) \<and>
    nr_action (rr_normalized (rx_values x)) = nr_action (rr_normalized v) \<and>
    rule_packets v \<subseteq> rule_packets (rx_values x)"
proof -
  have ok: "comparer_ok sha c" using assms(1,2) by (rule mk_comparer_ok)
  obtain c' where c': "mk_comparer sha cat = Inr c'"
    "rcm_resolved c' = resolved_rules (rcm_resolver c') (pc_rules cat)"
    using mk_comparer_total [of sha cat] by metis
  with assms(2) have loaded: "x \<in> set (rcm_resolved c) \<Longrightarrow> rx_rule x \<in> set (pc_rules cat)" for x
    by (auto simp: resolved_rules_def)
  from ok assms(3) show ?thesis
  proof (cases rule: compare_rule_cases)
    case (covered v x a)
    have x: "x \<in> set (rcm_resolved c)" using find_Some_D [OF covered(4)] by blast
    then have "resolved_ok (rx_values x)" using ok by (simp add: comparer_ok_def)
    from analyze_coverage_sound [OF this covered(2,5,6)] covered(1,7) x loaded [OF x]
    show ?thesis by (auto simp: covered_match_result_def)
  qed (use assms(4) in \<open>simp_all add: match_error_result_def exact_match_result_def new_rule_result_def\<close>)
qed

theorem covered_match_sound_witness:
  "\<exists>x \<in> set (rcm_resolved sample_comparer). \<exists>v.
    resolve_rule (rcm_resolver sample_comparer) (sample_planned 6) = Inr v \<and>
    Some 77 = Some (sr_id (rx_rule x)) \<and> rx_rule x \<in> set (pc_rules sample_catalog) \<and>
    nr_action (rr_normalized (rx_values x)) = nr_action (rr_normalized v) \<and>
    rule_packets v \<subseteq> rule_packets (rx_values x)"
  using covered_match_sound [OF sample_services_ok sample_mk_comparer sample_compare(2)]
  by (simp add: covered_match_result_def)

text \<open>C13 A planned rule reported as an exact match equals the existing rule named by the result in
  all normalized values (action, zones, addresses, services), so both match the same packets; this
  needs that the digest does not collide on the signatures of the rules compared.\<close>

theorem exact_match_equal:
  assumes "\<forall>s \<in> set (pc_services cat). service_ok s" "mk_comparer sha cat = Inr c"
    and "compare_rule sha c rule = Inr r" "rc_match_status r = EXACT_MATCH"
    and "resolve_rule (rcm_resolver c) rule = Inr v"
    and "\<forall>x \<in> set (rcm_resolved c). no_signature_collision sha (rx_values x) v"
  shows "\<exists>x \<in> set (rcm_resolved c). rc_matched_sdwan_rule_id r = Some (sr_id (rx_rule x)) \<and>
    rr_normalized (rx_values x) = rr_normalized v \<and> rule_packets (rx_values x) = rule_packets v"
proof -
  have ok: "comparer_ok sha c" using assms(1,2) by (rule mk_comparer_ok)
  from ok assms(3) show ?thesis
  proof (cases rule: compare_rule_cases)
    case (exact w x)
    have x: "x \<in> set (rcm_resolved c)" "exact_signature sha (rr_normalized (rx_values x)) =
        exact_signature sha (rr_normalized w)" using find_Some_D [OF exact(3)] by blast+
    have "w = v" using exact(1) assms(5) by simp
    moreover have "resolved_ok (rx_values x)" using ok x(1) by (simp add: comparer_ok_def)
    ultimately have "rr_normalized (rx_values x) = rr_normalized v"
      using exact_signature_iff [of "rx_values x" v sha] exact(2) x assms(6) by blast
    moreover from this have "rule_packets (rx_values x) = rule_packets v"
      by (simp add: rule_packets_def)
    ultimately show ?thesis using x(1) exact(4) by (auto simp: exact_match_result_def)
  qed (use assms(4) in \<open>simp_all add: match_error_result_def covered_match_result_def new_rule_result_def\<close>)
qed

theorem exact_match_equal_witness:
  "\<exists>x \<in> set (rcm_resolved sample_comparer). Some 77 = Some (sr_id (rx_rule x)) \<and>
    rr_normalized (rx_values x) = rr_normalized (sample_values 5 1 9 ''tcp/1-9'') \<and>
    rule_packets (rx_values x) = rule_packets (sample_values 5 1 9 ''tcp/1-9'')"
proof -
  have "resolve_rule (rcm_resolver sample_comparer) (sample_planned 5) = Inr (sample_values 5 1 9 ''tcp/1-9'')"
    by (simp add: sample_comparer_def Let_def sample_resolved)
  from exact_match_equal [OF sample_services_ok sample_mk_comparer sample_compare(1) _ this]
  show ?thesis by (simp add: exact_match_result_def sample_no_collision)
qed

text \<open>A planned rule is reported as new, and hence pushed, only if no usable existing rule has the
  same values and none covers it field by field: for every existing rule the actions or zones do not
  fit, or some planned value of a field is in no existing value of that field.\<close>

theorem new_rule_uncovered:
  assumes "\<forall>s \<in> set (pc_services cat). service_ok s" "mk_comparer sha cat = Inr c"
    and "compare_rule sha c rule = Inr r" "rc_match_status r = NEW_RULE"
  shows "\<exists>v. resolve_rule (rcm_resolver c) rule = Inr v \<and>
    (\<forall>x \<in> set (rcm_resolved c). rr_normalized (rx_values x) \<noteq> rr_normalized v \<and>
       \<not> rule_covers (rr_normalized (rx_values x)) (rr_normalized v))"
proof -
  have ok: "comparer_ok sha c" using assms(1,2) by (rule mk_comparer_ok)
  then have rok: "\<forall>x \<in> set (rcm_resolved c). resolved_ok (rx_values x)" by (simp add: comparer_ok_def)
  from ok assms(3) show ?thesis
  proof (cases rule: compare_rule_cases)
    case (new v)
    then have "rr_normalized (rx_values x) \<noteq> rr_normalized v \<and>
        \<not> rule_covers (rr_normalized (rx_values x)) (rr_normalized v)" if "x \<in> set (rcm_resolved c)" for x
      using that rok covered_by_iff [of "rx_values x" v] by fastforce
    with new(1) show ?thesis by blast
  qed (use assms(4) in \<open>simp_all add: match_error_result_def covered_match_result_def exact_match_result_def\<close>)
qed

theorem new_rule_uncovered_witness:
  "\<exists>v. resolve_rule (rcm_resolver sample_comparer) (sample_planned 7) = Inr v \<and>
    (\<forall>x \<in> set (rcm_resolved sample_comparer). rr_normalized (rx_values x) \<noteq> rr_normalized v \<and>
       \<not> rule_covers (rr_normalized (rx_values x)) (rr_normalized v))"
  using new_rule_uncovered [OF sample_services_ok sample_mk_comparer sample_compare(3)]
  by (simp add: new_rule_result_def)


text \<open>C36 Loading a policy catalog never raises, and loses no rule: every existing rule is either
  compared against or listed as excluded, once, an excluded one with the reason its normalization
  gave.\<close>

theorem comparer_partitions_rules:
  "\<exists>c. mk_comparer sha cat = Inr c \<and>
    mset (map (sr_id \<circ> rx_rule) (rcm_resolved c)) + mset (map xr_sdwan_rule_id (rcm_excluded c))
      = mset (map sr_id (pc_rules cat)) \<and>
    set (rcm_excluded c) = {\<lparr>xr_sdwan_rule_id = sr_id x, xr_reason = m\<rparr> | x m.
      x \<in> set (pc_rules cat) \<and> resolve_rule (rcm_resolver c) x = Inl (RuleValueNormalizationError m)}"
proof -
  obtain c where c: "mk_comparer sha cat = Inr c"
    "rcm_excluded c = excluded_rules (rcm_resolver c) (pc_rules cat)"
    using mk_comparer_total [of sha cat] by metis
  have "set (excluded_rules r rules) = {\<lparr>xr_sdwan_rule_id = sr_id x, xr_reason = m\<rparr> | x m.
      x \<in> set rules \<and> resolve_rule r x = Inl (RuleValueNormalizationError m)}" for r rules
  proof (induction rules)
    case (Cons x rules)
    then show ?case
    proof (cases "resolve_rule r x")
      case (Inl e)
      then obtain m where "e = RuleValueNormalizationError m" using resolve_rule_Inl by blast
      with Cons Inl show ?thesis by (auto simp: excluded_rules_def)
    qed (auto simp: excluded_rules_def)
  qed (simp add: excluded_rules_def)
  with c mk_comparer_partition [OF c(1)] show ?thesis by auto
qed

text \<open>C37 Comparison against a catalog that the gateway loaded always returns a result: no planned
  rule, however malformed, makes the preparation of a plan fail.\<close>

theorem comparison_total:
  assumes "get_sdwan_policy_catalog api w target zs ss as = Some (Inr cat)"
  shows "\<exists>c. mk_comparer sha cat = Inr c \<and> (\<forall>rule :: rule_body. \<exists>r. compare_rule sha c rule = Inr r)"
proof -
  from assms obtain ids where "gw_get_services api w ids = Some (Inr (pc_services cat))"
    by (auto simp: get_sdwan_policy_catalog_def bind_o_Inr)
  then have ok: "\<forall>s \<in> set (pc_services cat). service_ok s" by (intro ballI gw_get_services_ok)
  obtain c where "mk_comparer sha cat = Inr c" using mk_comparer_total [of sha cat] by metis
  moreover from mk_comparer_ok [OF ok this] have "\<exists>r. compare_rule sha c rule = Inr r"
    for rule :: rule_body by (rule compare_rule_total)
  ultimately show ?thesis by blast
qed

theorem comparison_total_witness:
  "\<exists>c. mk_comparer (\<lambda>s. s) \<lparr>pc_target_id = ''d'', pc_rules = [], pc_zones = [], pc_services = [],
      pc_address_objects = []\<rparr> = Inr c \<and>
    (\<forall>rule :: rule_body. \<exists>r. compare_rule (\<lambda>s. s) c rule = Inr r)"
proof (rule comparison_total)
  show "get_sdwan_policy_catalog sample_api 0 ''d'' {} {} {} = Some (Inr
    \<lparr>pc_target_id = ''d'', pc_rules = [], pc_zones = [], pc_services = [], pc_address_objects = []\<rparr>)"
    by code_simp
qed


section \<open>Pushing a plan\<close>

text \<open>C2 A plan is pushed at most once: if a push sent any creation request, a later push of the same
  plan sends none and raises.  This holds over every cache class that satisfies the laws of a TTL
  cache, whatever it evicts in between.\<close>

theorem pushed_once:
  assumes "ttl_cache ops I" "ttl_cache.store_ok I (sy_store sys)"
    and "pv_port env = port_of (store_get ops) (store_set ops)"
    and "mono clock" "\<And>n. clock n \<le> t" "\<And>n. t \<le> clock' n"
    and "\<And>i e. store_view ops (clock 0) (sy_store sys) EXECUTE_PLAN_NAMESPACE i = Some e \<Longrightarrow>
      ep_id (pe_plan e) = i"
    and "push_run env clock (PushStart i) sys = (q, sys1)" "sy_requests sys1 \<noteq> sy_requests sys"
    and "push_run env clock' (PushStart i) sys1 = (q', sys2)"
  shows "sy_requests sys2 = sy_requests sys1 \<and> (\<exists>e. q' = PushRaised e)"
proof (rule execute_repository.push_twice [OF execute_repository_store [OF assms(1)]])
  show "execute_repository.keyed (store_view ops) (clock 0) (sy_store sys)"
    using assms(7) by (simp add: execute_repository.keyed_def [OF execute_repository_store [OF assms(1)]])
qed fact+

lemma sample_entry:
  "store_view deadline_ops 1 (sy_store sample_state) EXECUTE_PLAN_NAMESPACE i =
     (if i = 1 then Some \<lparr>pe_plan = sample_plan, pe_rules = [(2, sample_rule)]\<rparr> else None)"
  by (simp add: sample_state_def add_plan_with_rules_def get_plan_entry_def sample_port_def
      store_get_def Let_def get_cache_def deadline_ops_def dc_lookup_def put_cache_def
      set_plan_entry_def store_set_def sample_plan_def sample_rule_def create_plan_def
      create_plan_rule_def store_view_def store_entry_def dc_insert_def build_entry_def
      EXECUTE_PLAN_NAMESPACE_def)

lemma sample_store_ok: "deadline.store_ok (sy_store sample_state)"
  by (simp add: sample_state_def add_plan_with_rules_def get_plan_entry_def sample_port_def
      store_get_def Let_def get_cache_def deadline_ops_def dc_lookup_def put_cache_def
      set_plan_entry_def store_set_def sample_plan_def sample_rule_def create_plan_def
      create_plan_rule_def dc_insert_def build_entry_def deadline.store_ok_def dc_inv_def)

lemma sample_push: "sy_requests (snd (push_run sample_env (\<lambda>n. 1) (PushStart 1) sample_state)) \<noteq> []"
  by code_simp

theorem pushed_once_witness:
  "sy_requests (snd (push_run sample_env (\<lambda>n. 2) (PushStart 1)
      (snd (push_run sample_env (\<lambda>n. 1) (PushStart 1) sample_state)))) =
    sy_requests (snd (push_run sample_env (\<lambda>n. 1) (PushStart 1) sample_state)) \<and>
    (\<exists>e. fst (push_run sample_env (\<lambda>n. 2) (PushStart 1)
      (snd (push_run sample_env (\<lambda>n. 1) (PushStart 1) sample_state))) = PushRaised e)"
proof (rule pushed_once [where t = 1 and ops = deadline_ops and I = dc_inv and i = 1])
  show "ttl_cache deadline_ops dc_inv" by (rule deadline.ttl_cache_axioms)
  show "ttl_cache.store_ok dc_inv (sy_store sample_state)" by (rule sample_store_ok)
  show "pv_port sample_env = port_of (store_get deadline_ops) (store_set deadline_ops)"
    by (simp add: sample_env_def sample_port_def)
  show "push_run sample_env (\<lambda>n. 1) (PushStart 1) sample_state =
      (fst (push_run sample_env (\<lambda>n. 1) (PushStart 1) sample_state),
       snd (push_run sample_env (\<lambda>n. 1) (PushStart 1) sample_state))" by simp
  show "mono (\<lambda>n :: nat. 1 :: int)" "(1 :: int) \<le> 1" "(1 :: int) \<le> 2" by (simp_all add: mono_def)
  show "ep_id (pe_plan e) = j"
    if "store_view deadline_ops 1 (sy_store sample_state) EXECUTE_PLAN_NAMESPACE j = Some e" for j e
    using that by (auto simp: sample_entry sample_plan_def create_plan_def split: if_splits)
  show "sy_requests (snd (push_run sample_env (\<lambda>n. 1) (PushStart 1) sample_state)) \<noteq> sy_requests sample_state"
    using sample_push by (simp add: sample_state_def)
qed simp_all

text \<open>C17 Two pushes of a plan that run concurrently both create its rules, over every lawful cache and for
  every server: the status is read before the catalog is fetched and written after, and is not read again.
  For any pending plan with rules to create, whose fingerprint is that of the scope and of the server's
  catalog and whose target takes the placement, the pushes whose segments alternate send each of these
  rules twice.\<close>

theorem concurrent_pushes_duplicate:
  assumes "ttl_cache ops I" "ttl_cache.store_ok I (sy_store sys)"
    and "pv_port env = port_of (store_get ops) (store_set ops)"
    and "store_view ops t (sy_store sys) EXECUTE_PLAN_NAMESPACE i = Some e" "ep_id (pe_plan e) = i"
    and "ep_push_status (pe_plan e) = PLAN_PENDING" "to_send e \<noteq> []"
    and "pv_scope_data env (ep_mapping_scope_id (pe_plan e)) = Inr scope"
    and "ms_catalog_fingerprint scope = ep_catalog_fingerprint (pe_plan e)"
    and "gw_get_full_catalog (pv_api env) (sy_server sys) = Some (Inr cat)"
    and "get_fingerprint (pv_sha env) cat = ep_catalog_fingerprint (pe_plan e)"
    and "gw_get_device_object (pv_api env) (sy_server sys) (ms_sdwan_target_id scope) = Inr (Some target)"
    and "placement_ok target (ms_rules_priority scope)"
  shows "\<exists>schedule. set schedule = {0, 1} \<and>
    sy_requests (snd (run_schedule env (\<lambda>_. t) schedule [PushStart i, PushStart i] sys)) =
      sy_requests sys @ concat (map (\<lambda>r. [rule_request scope target r, rule_request scope target r]) (to_send e))"
proof (intro exI [of _ "alternating (length (to_send e))"] conjI)
  show "set (alternating (length (to_send e))) = {0, 1}" by (auto simp: alternating_def)
  have st: "ep_push_status (pe_plan e) \<noteq> PLAN_EXECUTED" using assms(6) by simp
  show "sy_requests (snd (run_schedule env (\<lambda>_. t) (alternating (length (to_send e))) [PushStart i, PushStart i] sys)) =
      sy_requests sys @ concat (map (\<lambda>r. [rule_request scope target r, rule_request scope target r]) (to_send e))"
    by (rule execute_repository.alternating_pushes [OF execute_repository_store [OF assms(1)] assms(3,2,4,5) st assms(8-13,7)])
qed

theorem concurrent_pushes_duplicate_witness:
  "\<exists>schedule. set schedule = {0, 1} \<and>
    map fst (sy_requests (snd (run_schedule sample_env (\<lambda>_. 1) schedule [PushStart 1, PushStart 1] sample_state))) = [2, 2]"
proof -
  let ?e = "\<lparr>pe_plan = sample_plan, pe_rules = [(2, sample_rule)]\<rparr>"
  have new: "to_send \<lparr>pe_plan = p, pe_rules = [(2, sample_rule)]\<rparr> = [sample_rule]" for p
    by (simp add: to_send_def sample_rule_def create_plan_rule_def new_rule_result_def)
  have e: "store_view deadline_ops 1 (sy_store sample_state) EXECUTE_PLAN_NAMESPACE 1 = Some ?e" by (simp add: sample_entry)
  have c: "gw_get_full_catalog (pv_api sample_env) (sy_server sample_state) =
      Some (Inr \<lparr>fc_zones = [], fc_services = [], fc_addr_objs = [], fc_networks = []\<rparr>)" by code_simp
  have d: "\<exists>target. gw_get_device_object (pv_api sample_env) (sy_server sample_state) (ms_sdwan_target_id sample_scope) =
      Inr (Some target) \<and> placement_ok target (ms_rules_priority sample_scope)"
    by (simp add: gw_get_device_object_def client_get_device_objects_def sample_env_def sample_api_def sample_device_def
        sample_scope_def convert_device_object_def placement_ok_def device_object_post_init_def)
  have f: "get_fingerprint (pv_sha sample_env) x = ep_catalog_fingerprint (pe_plan ?e)" for x
    by (simp only: get_fingerprint_def json_hash_def sample_env_def push_env.simps) (simp add: sample_plan_def create_plan_def)
  have p: "pv_port sample_env = port_of (store_get deadline_ops) (store_set deadline_ops)"
    "pv_scope_data sample_env (ep_mapping_scope_id (pe_plan ?e)) = Inr sample_scope"
    by (simp_all add: sample_env_def sample_port_def)
  have q: "ep_id (pe_plan ?e) = 1" "ep_push_status (pe_plan ?e) = PLAN_PENDING" "to_send ?e \<noteq> []"
    "ms_catalog_fingerprint sample_scope = ep_catalog_fingerprint (pe_plan ?e)"
    by (simp_all add: new) (simp_all add: sample_plan_def create_plan_def sample_scope_def)
  from d obtain target where target: "gw_get_device_object (pv_api sample_env) (sy_server sample_state)
      (ms_sdwan_target_id sample_scope) = Inr (Some target)" "placement_ok target (ms_rules_priority sample_scope)" by blast
  note dup = concurrent_pushes_duplicate [OF deadline.ttl_cache_axioms sample_store_ok p(1) e q(1-3) p(2) q(4) c f target]
  from dup have "\<exists>schedule. set schedule = {0, 1} \<and>
    map fst (sy_requests (snd (run_schedule sample_env (\<lambda>_. 1) schedule [PushStart 1, PushStart 1] sample_state))) =
      map fst (sy_requests sample_state @ concat (map (\<lambda>r. [rule_request sample_scope target r, rule_request sample_scope target r]) (to_send ?e)))"
    by (elim exE conjE) (intro exI conjI, assumption, simp only:)
  moreover have "map fst (sy_requests sample_state @ concat (map (\<lambda>r. [rule_request sample_scope target r,
      rule_request sample_scope target r]) (to_send ?e))) = [2, 2]"
    by (simp only: new) (simp add: rule_request_def sample_state_def sample_rule_def create_plan_rule_def)
  ultimately show ?thesis by (simp only:)
qed

text \<open>C6 A push creates policies only for the rules of its plan that are new and pending, each at
  most once and in priority order, with the data of their drafts, at the target and placement of the
  mapping scope.\<close>

theorem push_sends_new_rules:
  assumes "ttl_cache ops I" "ttl_cache.store_ok I (sy_store sys)"
    and "pv_port env = port_of (store_get ops) (store_set ops)"
    and "\<And>i e. store_view ops (clock 0) (sy_store sys) EXECUTE_PLAN_NAMESPACE i = Some e \<Longrightarrow>
      ep_id (pe_plan e) = i"
    and "push_run env clock (PushStart i) sys = (q, sys')" "sy_requests sys' \<noteq> sy_requests sys"
  shows "\<exists>e scope target sent.
    store_view ops (clock 0) (sy_store sys) EXECUTE_PLAN_NAMESPACE i = Some e \<and>
    pv_scope_data env (ep_mapping_scope_id (pe_plan e)) = Inr scope \<and>
    subseq sent (sort_key er_priority (filter (\<lambda>r. er_match_status r = NEW_RULE \<and>
      er_push_status r = PUSH_PENDING) (map snd (pe_rules e)))) \<and>
    sy_requests sys' = sy_requests sys @ map (\<lambda>r. (er_id r, policy_request
      (ms_sdwan_target_id scope) target (ms_rules_priority scope) (er_draft r))) sent"
proof -
  note repo = execute_repository_store [OF assms(1)]
  have "execute_repository.keyed (store_view ops) (clock 0) (sy_store sys)"
    using assms(4) by (simp add: execute_repository.keyed_def [OF repo])
  moreover have eq: "rule_request = (\<lambda>scope target r. (er_id r, policy_request
      (ms_sdwan_target_id scope) target (ms_rules_priority scope) (er_draft r)))"
    by (intro ext) (simp add: rule_request_def)
  ultimately show ?thesis
    using execute_repository.push_run_requests [OF repo assms(3,2) _ assms(5)] assms(6)
    unfolding eq by blast
qed

theorem push_sends_new_rules_witness:
  "\<exists>e scope target sent.
    store_view deadline_ops 1 (sy_store sample_state) EXECUTE_PLAN_NAMESPACE 1 = Some e \<and>
    pv_scope_data sample_env (ep_mapping_scope_id (pe_plan e)) = Inr scope \<and>
    subseq sent (sort_key er_priority (filter (\<lambda>r. er_match_status r = NEW_RULE \<and>
      er_push_status r = PUSH_PENDING) (map snd (pe_rules e)))) \<and>
    sy_requests (snd (push_run sample_env (\<lambda>n. 1) (PushStart 1) sample_state)) =
      sy_requests sample_state @ map (\<lambda>r. (er_id r, policy_request
        (ms_sdwan_target_id scope) target (ms_rules_priority scope) (er_draft r))) sent"
proof (rule push_sends_new_rules [where ops = deadline_ops and I = dc_inv and clock = "\<lambda>n. 1"])
  show "ttl_cache deadline_ops dc_inv" by (rule deadline.ttl_cache_axioms)
  show "ttl_cache.store_ok dc_inv (sy_store sample_state)" by (rule sample_store_ok)
  show "pv_port sample_env = port_of (store_get deadline_ops) (store_set deadline_ops)"
    by (simp add: sample_env_def sample_port_def)
  show "ep_id (pe_plan e) = j"
    if "store_view deadline_ops 1 (sy_store sample_state) EXECUTE_PLAN_NAMESPACE j = Some e" for j e
    using that by (auto simp: sample_entry sample_plan_def create_plan_def split: if_splits)
  show "push_run sample_env (\<lambda>n. 1) (PushStart 1) sample_state =
      (fst (push_run sample_env (\<lambda>n. 1) (PushStart 1) sample_state),
       snd (push_run sample_env (\<lambda>n. 1) (PushStart 1) sample_state))" by simp
  show "sy_requests (snd (push_run sample_env (\<lambda>n. 1) (PushStart 1) sample_state)) \<noteq> sy_requests sample_state"
    using sample_push by (simp add: sample_state_def)
qed


section \<open>Preparing a plan\<close>

text \<open>C33 A prepared plan is stored pending, with the fingerprint that the server's catalog and the
  mapping scope share, and with one pending rule per mapped rule in priority order, each carrying the
  draft and the outcome of its comparison; the four counters of the answer add up to the rules.\<close>

theorem prepare_stores_plan:
  assumes "ttl_cache ops I" "ttl_cache.store_ok I s"
    and "pv_port env = port_of (store_get ops) (store_set ops)"
    and "prepare_execute_plan env now scope_id s w = (Some (Inr r), s')"
  shows "\<exists>scope mapped catalog cat c e.
    pv_scope_data env scope_id = Inr scope \<and> pv_scope_rules env scope_id = Inr mapped \<and>
    gw_get_full_catalog (pv_api env) w = Some (Inr catalog) \<and> mk_comparer (pv_sha env) cat = Inr c \<and>
    store_view ops now s' EXECUTE_PLAN_NAMESPACE (pp_id r) = Some e \<and>
    ep_push_status (pe_plan e) = PLAN_PENDING \<and>
    ep_catalog_fingerprint (pe_plan e) = ms_catalog_fingerprint scope \<and>
    get_fingerprint (pv_sha env) catalog = ms_catalog_fingerprint scope \<and>
    list_all2 (\<lambda>m x. \<exists>res. compare_rule (pv_sha env) c (build_draft m) = Inr res \<and>
        er_draft x = build_draft m \<and> er_mapping_scope_rule_id x = md_id m \<and> er_priority x = md_priority m \<and>
        er_match_status x = rc_match_status res \<and> er_push_status x = PUSH_PENDING)
      (sort_key md_priority mapped) (map snd (pe_rules e)) \<and>
    pp_total_rules r = length mapped \<and>
    pp_new_rules r + pp_matched_rules r + pp_covered_rules r + pp_errors_through_match r = pp_total_rules r"
proof -
  obtain plan rules scope excluded where p:
    "prepare_plan env now w scope_id = Some (Inr (plan, rules, scope, excluded))"
    using assms(4) by (auto simp: prepare_execute_plan_def split: option.splits sum.splits prod.splits)
  then obtain p1 s1 where add: "add_plan_with_rules (pv_port env) now s plan rules = (Inr p1, s1)"
    and s1: "s1 = s'" and r: "pp_id r = ep_id plan" "pp_total_rules r = length rules"
      "pp_new_rules r = count_status NEW_RULE rules" "pp_matched_rules r = count_status EXACT_MATCH rules"
      "pp_covered_rules r = count_status COVERED_MATCH rules"
      "pp_errors_through_match r = count_status MATCH_ERROR rules"
    using assms(4) by (auto simp: prepare_execute_plan_def split: sum.splits prod.splits)
  from prepare_plan_Inr [OF p] obtain mapped catalog cat c where m:
    "pv_scope_data env scope_id = Inr scope" "pv_scope_rules env scope_id = Inr mapped"
    "gw_get_full_catalog (pv_api env) w = Some (Inr catalog)"
    "get_fingerprint (pv_sha env) catalog = ms_catalog_fingerprint scope"
    "plan = create_plan (pv_fresh env 0) now scope_id (ms_catalog_fingerprint scope)"
    "mk_comparer (pv_sha env) cat = Inr c"
    "compare_drafts (pv_sha env) c (pv_fresh env 0) (\<lambda>n. pv_fresh env (Suc n)) (sort_key md_priority mapped)
       = Inr rules" by metis
  define e where "e = \<lparr>pe_plan = plan, pe_rules = map (\<lambda>r. (er_id r, r)) rules\<rparr>"
  have e: "store_view ops now s' EXECUTE_PLAN_NAMESPACE (ep_id plan) = Some e"
    using execute_repository.add_plan_entry [OF execute_repository_store [OF assms(1)] assms(2)
        add [unfolded assms(3)]] s1
    by (auto simp: e_def split: if_splits)
  have rules: "map snd (pe_rules e) = rules" by (simp add: e_def comp_def)
  note l = compare_drafts_list [OF m(7)]
  have list: "list_all2 (\<lambda>m x. \<exists>res. compare_rule (pv_sha env) c (build_draft m) = Inr res \<and>
        er_draft x = build_draft m \<and> er_mapping_scope_rule_id x = md_id m \<and> er_priority x = md_priority m \<and>
        er_match_status x = rc_match_status res \<and> er_push_status x = PUSH_PENDING)
      (sort_key md_priority mapped) (map snd (pe_rules e))"
    unfolding rules by (rule list_all2_mono [OF l]) (auto simp: create_plan_rule_def)
  moreover have "length rules = length mapped" using list_all2_lengthD [OF l] by simp
  moreover have "count_status NEW_RULE rules + count_status EXACT_MATCH rules +
      count_status COVERED_MATCH rules + count_status MATCH_ERROR rules = length rules"
    by (rule count_status_sum)
  moreover have "ep_push_status (pe_plan e) = PLAN_PENDING"
    "ep_catalog_fingerprint (pe_plan e) = ms_catalog_fingerprint scope"
    by (simp_all add: e_def m(5) create_plan_def)
  ultimately show ?thesis
    using m(1,2,3,4,6) e r by (intro exI conjI) simp_all
qed

definition sample_mapped :: mapped_rule_data where
  "sample_mapped =
     \<lparr>md_id = 8, md_name = ''r'', md_action = MAPPED_ACCEPT, md_priority = 10, md_src_zones = [1],
      md_dst_zones = [2], md_src_addr_objects = [3], md_dst_addr_objects = [4], md_services = [5]\<rparr>"

definition sample_prepare_env :: "string \<Rightarrow> (sample_store, nat) prepare_env" where
  "sample_prepare_env fp =
     \<lparr>pv_port = sample_port, pv_api = sample_api,
      pv_scope_data = (\<lambda>i. Inr (sample_scope\<lparr>ms_catalog_fingerprint := fp\<rparr>)),
      pv_strftime = (\<lambda>t. []), pv_sha = (\<lambda>s. []), pv_scope_rules = (\<lambda>i. Inr [sample_mapped]),
      pv_fresh = (\<lambda>n. n)\<rparr>"

definition sample_prepared :: prepare_result where
  "sample_prepared =
     \<lparr>pp_id = 0, pp_mapping_scope_id = 9, pp_sdwan_target_id = ''d'', pp_created_at = 1,
      pp_total_rules = 1, pp_new_rules = 0, pp_matched_rules = 0, pp_covered_rules = 0,
      pp_errors_through_match = 1, pp_excluded_existing_rules = []\<rparr>"

definition sample_empty_store :: sample_store where
  "sample_empty_store = \<lparr>ts_ttl_seconds = 1000, ts_max_entries = 10, ts_caches = []\<rparr>"

lemma sample_prepare:
  "fst (prepare_execute_plan (sample_prepare_env []) 1 9 sample_empty_store 0) = Some (Inr sample_prepared)"
  by code_simp

theorem prepare_stores_plan_witness:
  "\<exists>scope mapped catalog cat c e.
    pv_scope_data (sample_prepare_env []) 9 = Inr scope \<and> pv_scope_rules (sample_prepare_env []) 9 = Inr mapped \<and>
    gw_get_full_catalog (pv_api (sample_prepare_env [])) 0 = Some (Inr catalog) \<and>
    mk_comparer (pv_sha (sample_prepare_env [])) cat = Inr c \<and>
    store_view deadline_ops 1 (snd (prepare_execute_plan (sample_prepare_env []) 1 9 sample_empty_store 0))
      EXECUTE_PLAN_NAMESPACE (pp_id sample_prepared) = Some e \<and>
    ep_push_status (pe_plan e) = PLAN_PENDING \<and>
    ep_catalog_fingerprint (pe_plan e) = ms_catalog_fingerprint scope \<and>
    get_fingerprint (pv_sha (sample_prepare_env [])) catalog = ms_catalog_fingerprint scope \<and>
    list_all2 (\<lambda>m x. \<exists>res. compare_rule (pv_sha (sample_prepare_env [])) c (build_draft m) = Inr res \<and>
        er_draft x = build_draft m \<and> er_mapping_scope_rule_id x = md_id m \<and> er_priority x = md_priority m \<and>
        er_match_status x = rc_match_status res \<and> er_push_status x = PUSH_PENDING)
      (sort_key md_priority mapped) (map snd (pe_rules e)) \<and>
    pp_total_rules sample_prepared = length mapped \<and>
    pp_new_rules sample_prepared + pp_matched_rules sample_prepared + pp_covered_rules sample_prepared +
      pp_errors_through_match sample_prepared = pp_total_rules sample_prepared"
proof (rule prepare_stores_plan [where ops = deadline_ops and I = dc_inv and s = sample_empty_store])
  show "ttl_cache deadline_ops dc_inv" by (rule deadline.ttl_cache_axioms)
  show "ttl_cache.store_ok dc_inv sample_empty_store"
    by (simp add: sample_empty_store_def deadline.store_ok_def)
  show "pv_port (sample_prepare_env []) = port_of (store_get deadline_ops) (store_set deadline_ops)"
    by (simp add: sample_prepare_env_def sample_port_def)
  show "prepare_execute_plan (sample_prepare_env []) 1 9 sample_empty_store 0 =
      (Some (Inr sample_prepared), snd (prepare_execute_plan (sample_prepare_env []) 1 9 sample_empty_store 0))"
    using sample_prepare by (metis prod.collapse)
qed

text \<open>C34 When the catalog has changed since the mapping, preparing raises a conflict and stores
  nothing.\<close>

theorem prepare_detects_change:
  assumes "pv_scope_data env scope_id = Inr scope" "pv_scope_rules env scope_id = Inr mapped"
    and "gw_get_full_catalog (pv_api env) w = Some (Inr catalog)"
    and "get_fingerprint (pv_sha env) catalog \<noteq> ms_catalog_fingerprint scope"
  shows "\<exists>m. prepare_execute_plan env now scope_id s w = (Some (Inl (ExecuteConflictError m)), s)"
proof -
  have "\<exists>m. prepare_plan env now w scope_id = Some (Inl (ExecuteConflictError m))"
    using assms by (simp add: prepare_plan_def Let_def collect_rule_refs_def)
  then show ?thesis by (auto simp: prepare_execute_plan_def)
qed

theorem prepare_detects_change_witness:
  "\<exists>m. prepare_execute_plan (sample_prepare_env ''old'') 1 9 sample_empty_store 0 =
     (Some (Inl (ExecuteConflictError m)), sample_empty_store)"
proof (rule prepare_detects_change)
  show "pv_scope_data (sample_prepare_env ''old'') 9 = Inr (sample_scope\<lparr>ms_catalog_fingerprint := ''old''\<rparr>)"
    "pv_scope_rules (sample_prepare_env ''old'') 9 = Inr [sample_mapped]"
    by (simp_all add: sample_prepare_env_def)
  show "gw_get_full_catalog (pv_api (sample_prepare_env ''old'')) 0 =
      Some (Inr \<lparr>fc_zones = [], fc_services = [], fc_addr_objs = [], fc_networks = []\<rparr>)" by code_simp
  show "get_fingerprint (pv_sha (sample_prepare_env ''old''))
      \<lparr>fc_zones = [], fc_services = [], fc_addr_objs = [], fc_networks = []\<rparr> \<noteq>
      ms_catalog_fingerprint (sample_scope\<lparr>ms_catalog_fingerprint := ''old''\<rparr>)"
    by (simp add: sample_prepare_env_def get_fingerprint_def json_hash_def)
qed


section \<open>Storage\<close>

text \<open>C35 The repository gives back what was added: adding succeeds exactly when the plan is new, its
  rules belong to it and their ids differ, and then the plan is found and its rules are listed in
  priority order, filtered by match and push status.\<close>

theorem repository_roundtrip:
  assumes "ttl_cache ops I" "ttl_cache.store_ok I s"
    and "port = port_of (store_get ops) (store_set ops)"
    and "add_plan_with_rules port now s plan rules = (r, s1)"
    and "get_plan port now s1 (ep_id plan) = (p, s2)"
    and "list_plan_rules port now s2 (ep_id plan) ms ps = (rs, s3)"
  shows "((\<exists>x. r = Inr x) \<longleftrightarrow> store_view ops now s EXECUTE_PLAN_NAMESPACE (ep_id plan) = None \<and>
      (\<forall>r \<in> set rules. er_execute_plan_id r = ep_id plan) \<and> distinct (map er_id rules)) \<and>
    (\<forall>x. r = Inr x \<longrightarrow> x = plan \<and> p = Some plan \<and>
      rs = sort_key er_priority (filter (matches_filters ms ps) rules))"
proof -
  note repo = execute_repository_store [OF assms(1)]
  note a = execute_repository.add_plan_entry [OF repo assms(2) assms(4) [unfolded assms(3)]]
  have 1: "(\<exists>x. r = Inr x) \<longleftrightarrow> store_view ops now s EXECUTE_PLAN_NAMESPACE (ep_id plan) = None \<and>
      (\<forall>r \<in> set rules. er_execute_plan_id r = ep_id plan) \<and> distinct (map er_id rules)"
    using a by (auto split: if_splits)
  have 2: "x = plan \<and> p = Some plan \<and> rs = sort_key er_priority (filter (matches_filters ms ps) rules)"
    if x: "r = Inr x" for x
  proof -
    from a x have e: "x = plan" "store_view ops now s1 EXECUTE_PLAN_NAMESPACE (ep_id plan) =
        Some \<lparr>pe_plan = plan, pe_rules = map (\<lambda>r. (er_id r, r)) rules\<rparr>" "ttl_cache.store_ok I s1"
      by (auto split: if_splits)
    note g = execute_repository.get_plan_result [OF repo e(3) assms(5) [unfolded assms(3)]]
    then have "ttl_cache.store_ok I s2" by blast
    from execute_repository.list_entry [OF repo this assms(6) [unfolded assms(3)]] g e
    show ?thesis by (simp add: comp_def)
  qed
  from 1 2 show ?thesis by blast
qed

theorem repository_roundtrip_witness:
  "\<exists>r s1 p s2 rs s3. add_plan_with_rules sample_port 0 sample_empty_store sample_plan [sample_rule] = (r, s1) \<and>
    get_plan sample_port 0 s1 (ep_id sample_plan) = (p, s2) \<and>
    list_plan_rules sample_port 0 s2 (ep_id sample_plan) None None = (rs, s3) \<and>
    r = Inr sample_plan \<and> p = Some sample_plan \<and> rs = [sample_rule]"
proof -
  obtain r s1 where r: "add_plan_with_rules sample_port 0 sample_empty_store sample_plan [sample_rule] = (r, s1)"
    by fastforce
  obtain p s2 where p: "get_plan sample_port 0 s1 (ep_id sample_plan) = (p, s2)" by fastforce
  obtain rs s3 where rs: "list_plan_rules sample_port 0 s2 (ep_id sample_plan) None None = (rs, s3)" by fastforce
  have ok: "ttl_cache.store_ok dc_inv sample_empty_store"
    by (simp add: sample_empty_store_def deadline.store_ok_def)
  have none: "store_view deadline_ops 0 sample_empty_store EXECUTE_PLAN_NAMESPACE (ep_id sample_plan) = None"
    by (simp add: sample_empty_store_def store_view_def store_entry_def)
  have own: "(\<forall>r \<in> set [sample_rule]. er_execute_plan_id r = ep_id sample_plan) \<and> distinct (map er_id [sample_rule])"
    by (simp add: sample_rule_def sample_plan_def create_plan_def create_plan_rule_def)
  from repository_roundtrip [OF deadline.ttl_cache_axioms ok sample_port_def r p rs] none own
  obtain x where x: "r = Inr x" "x = sample_plan" "p = Some sample_plan"
    "rs = sort_key er_priority (filter (matches_filters None None) [sample_rule])" by blast
  from x(4) have "rs = [sample_rule]" by (simp add: matches_filters_def)
  with x(1-3) r p rs show ?thesis by blast
qed

text \<open>A draft is restored from its JSON payload unchanged.\<close>

theorem draft_roundtrip: "draft_from_dict (draft_to_dict d) = Inr d"
  by (rule draft_to_dict_roundtrip)

text \<open>Writing an entry of the runtime cache keeps the moment it was created, restarts its lifetime
  at the time of the write, and never creates or changes another entry, in the same namespace or in
  another one.\<close>

theorem store_write:
  assumes "ttl_cache ops I" "ttl_cache.store_ok I s" "s' = store_set ops now s ns k v"
  shows "\<exists>e. store_entry ops now s' ns k = Some e \<and> ce_data e = v \<and>
    cm_expires_at (ce_meta e) = now + ts_ttl_seconds s \<and> cm_last_touched_at (ce_meta e) = now \<and>
    cm_created_at (ce_meta e) = (case store_entry ops now s ns k of
      None \<Rightarrow> now | Some old \<Rightarrow> cm_created_at (ce_meta old)) \<and>
    (\<forall>ns' k' e'. (ns', k') \<noteq> (ns, k) \<longrightarrow> store_entry ops now s' ns' k' = Some e' \<longrightarrow>
      store_entry ops now s ns' k' = Some e')"
proof -
  note w = ttl_cache.store_set_entry [OF assms(1,2)]
  let ?e = "build_entry s now v (map_option ce_meta (store_entry ops now s ns k))"
  have "store_entry ops now s' ns k = Some ?e" using w(1) assms(3) by simp
  moreover have "ce_data ?e = v \<and> cm_expires_at (ce_meta ?e) = now + ts_ttl_seconds s \<and>
      cm_last_touched_at (ce_meta ?e) = now \<and>
      cm_created_at (ce_meta ?e) = (case store_entry ops now s ns k of
        None \<Rightarrow> now | Some old \<Rightarrow> cm_created_at (ce_meta old))"
    by (simp add: build_entry_def split: option.split)
  moreover have "\<forall>ns' k' e'. (ns', k') \<noteq> (ns, k) \<longrightarrow> store_entry ops now s' ns' k' = Some e' \<longrightarrow>
      store_entry ops now s ns' k' = Some e'"
    using w(2) assms(3) by blast
  ultimately show ?thesis by blast
qed

theorem store_write_witness:
  "\<exists>e. store_entry deadline_ops 5 (store_set deadline_ops 5
        (store_set deadline_ops 2 sample_empty_store ''a'' 1 \<lparr>pe_plan = sample_plan, pe_rules = []\<rparr>)
        ''a'' 1 \<lparr>pe_plan = sample_plan, pe_rules = []\<rparr>) ''a'' 1 = Some e \<and>
    cm_created_at (ce_meta e) = 2 \<and> cm_expires_at (ce_meta e) = 1005"
proof -
  let ?v = "\<lparr>pe_plan = sample_plan, pe_rules = []\<rparr>"
  have ok: "ttl_cache.store_ok dc_inv sample_empty_store"
    by (simp add: sample_empty_store_def deadline.store_ok_def)
  note ok2 = deadline.store_set_entry(3) [OF ok, of 2 "''a''" 1 ?v]
  have e: "store_entry deadline_ops 5 (store_set deadline_ops 2 sample_empty_store ''a'' 1 ?v) ''a'' 1 =
      Some \<lparr>ce_data = ?v, ce_meta = \<lparr>cm_created_at = 2, cm_last_touched_at = 2, cm_expires_at = 1002,
        cm_ttl_seconds = 1000\<rparr>\<rparr>"
    "ts_ttl_seconds (store_set deadline_ops 2 sample_empty_store ''a'' 1 ?v) = 1000"
    by code_simp+
  from store_write [OF deadline.ttl_cache_axioms ok2 refl, of 5 "''a''" 1 ?v] e show ?thesis by auto
qed

end
