(* ===== verification/Catalog_Properties.thy ===== *)
theory Catalog_Properties
  imports Execute_Samples
begin

text \<open>
  The properties of the SD-WAN integration and of the values rules are compared by, each with an
  example where its hypotheses hold.  They follow from the lemmas of the component theories.
\<close>

section \<open>A server that answers parent filters\<close>

text \<open>The ids mentioned by a query: the texts in parentheses.\<close>

definition mentioned :: "string \<Rightarrow> string list" where
  "mentioned q = map (takeWhile (\<lambda>c. c \<noteq> CHR '')'')) (tl (split_on (CHR ''('') q))"

lemma int_str_no_paren: "c \<in> set (int_str i) \<Longrightarrow> c \<noteq> CHR ''('' \<and> c \<noteq> CHR '')''"
proof -
  assume "c \<in> set (int_str i)"
  then have "c = CHR ''-'' \<or> is_digit c"
    using nat_str_digits by (fastforce simp: int_str_def split: if_splits)
  then show ?thesis by (auto simp: is_digit_def code_def)
qed

lemma parents_query_Cons:
  "parents_query (p # ps) = ''parents = '' @ CHR ''('' # int_str p @ CHR '')'' #
     (if ps = [] then [] else '' or '' @ parents_query ps)"
  by (cases ps) (simp_all add: parents_query_def)

definition args_of :: "string \<Rightarrow> string list" where
  "args_of t = map (takeWhile (\<lambda>c. c \<noteq> CHR '')'')) (split_on (CHR ''('') t)"

lemma mentioned_args: "mentioned (''parents = '' @ CHR ''('' # t) = args_of t"
proof -
  have "split_on (CHR ''('') (''parents = '' @ CHR ''('' # t) = ''parents = '' # split_on (CHR ''('') t"
    by (rule split_on_append) simp
  then show ?thesis by (simp only: mentioned_def args_of_def list.sel)
qed

lemma take_id: "takeWhile (\<lambda>c. c \<noteq> CHR '')'') (int_str p @ CHR '')'' # r) = int_str p"
  by (subst takeWhile_append2) (auto dest: int_str_no_paren)

lemma args_of_last: "args_of (int_str p @ [CHR '')'']) = [int_str p]"
proof -
  have "split_on (CHR ''('') (int_str p @ [CHR '')'']) = [int_str p @ [CHR '')'']]"
    by (rule split_on_no_sep) (auto dest: int_str_no_paren)
  then show ?thesis by (simp add: args_of_def take_id)
qed

lemma args_of_more:
  "args_of (int_str p @ CHR '')'' # '' or parents = '' @ CHR ''('' # t) = int_str p # args_of t"
proof -
  have "split_on (CHR ''('') ((int_str p @ CHR '')'' # '' or parents = '') @ CHR ''('' # t) =
      (int_str p @ CHR '')'' # '' or parents = '') # split_on (CHR ''('') t"
    by (rule split_on_append) (auto dest: int_str_no_paren)
  then show ?thesis by (simp add: args_of_def take_id)
qed

lemma mentioned_parents_query: "mentioned (parents_query ids) = map int_str ids"
proof (induction ids)
  case Nil
  then show ?case by (simp add: mentioned_def parents_query_def)
next
  case (Cons p ps)
  show ?case
  proof (cases ps)
    case Nil
    then show ?thesis
      by (simp only: parents_query_Cons mentioned_args simp_thms if_True args_of_last list.map)
  next
    case (Cons q qs)
    obtain t where t: "parents_query ps = ''parents = '' @ CHR ''('' # t"
      unfolding Cons parents_query_Cons by blast
    have "int_str p @ CHR '')'' # '' or '' @ parents_query ps =
        int_str p @ CHR '')'' # '' or parents = '' @ CHR ''('' # t" unfolding t by simp
    moreover have "args_of t = map int_str ps"
      using Cons.IH unfolding t mentioned_args .
    moreover have "ps \<noteq> []" using Cons by simp
    ultimately show ?thesis
      by (simp only: parents_query_Cons mentioned_args if_False args_of_more list.map)
  qed
qed

definition table_api :: "addr_object_response list \<Rightarrow> nat csp_api" where
  "table_api db = sample_api\<lparr>api_addr_objects_page := (\<lambda>w q c.
     let objs = (case q of None \<Rightarrow> db
       | Some s \<Rightarrow> filter (\<lambda>a. \<exists>p \<in> set (ar_parents a). int_str p \<in> set (mentioned s)) db) in
     Inr \<lparr>pg_data = objs, pg_total = int (length objs), pg_next_page = None\<rparr>)\<rparr>"

lemma table_api_fetch:
  "fetch_all_addr_objects (table_api db) w q = Some (Inr (case q of None \<Rightarrow> db
     | Some s \<Rightarrow> filter (\<lambda>a. \<exists>p \<in> set (ar_parents a). int_str p \<in> set (mentioned s)) db))"
  by (simp add: fetch_all_addr_objects_def table_api_def Let_def
      fetch_loop.simps [of _ _ _ None None "[]" "[]"])

lemma table_api_serves: "serves_parents (table_api db) w db"
  by (auto simp: serves_parents_def table_api_fetch mentioned_parents_query)

lemma table_api_serves_all: "serves_all (table_api db) w db"
  by (simp add: serves_all_def table_api_fetch)

definition sample_group :: addr_object_response where
  "sample_group = \<lparr>ar_id = 1, ar_parents = [], ar_name = ''g'', ar_data = AddrGroupData 1\<rparr>"

definition sample_member :: addr_object_response where
  "sample_member = \<lparr>ar_id = 2, ar_parents = [1], ar_name = ''m'', ar_data = FqdnData ''h.x''\<rparr>"



section \<open>Reading the catalog\<close>

text \<open>C38 Group expansion finds every object.  The server lists rows, an object with some of its parents,
  and an object may have several rows.  If the expansion returns, it holds every row of the objects asked
  for, only rows that can be reached from those by group membership, no row twice, and of every object that
  can be reached, however deep, at least one row; so no group in the result misses a member.  (Of the rows
  of an object that one level finds under several groups the client keeps one; a nesting deeper than the
  limit is an error.)\<close>

theorem expansion_exact:
  assumes "rows_of_objects db" "serves_parents api w db" "serves_all api w db"
    and "expand_groups api w ids = Some (Inr objs)"
  shows "distinct (map nesting_key objs) \<and> initial_objects db ids \<subseteq> set objs \<and>
    set objs \<subseteq> {a. reached db (initial_objects db ids) a} \<and>
    ar_id ` set objs = ar_id ` {a. reached db (initial_objects db ids) a}"
  using assms by (rule expand_groups_exact)

text \<open>Two groups and a member of both, listed with each of them.\<close>

definition sample_rows :: "addr_object_response list" where
  "sample_rows = [sample_group, sample_group\<lparr>ar_id := 3\<rparr>, sample_member, sample_member\<lparr>ar_parents := [3]\<rparr>]"

theorem expansion_exact_witness:
  "expand_groups (table_api sample_rows) 0 (Some [1, 3]) =
     Some (Inr [sample_group, sample_group\<lparr>ar_id := 3\<rparr>, sample_member\<lparr>ar_parents := [3]\<rparr>]) \<and>
   {1, 3, 2} = ar_id ` {a. reached sample_rows (initial_objects sample_rows (Some [1, 3])) a}"
proof -
  have ok: "rows_of_objects sample_rows"
    by (simp add: rows_of_objects_def sample_rows_def nesting_key_def sample_group_def sample_member_def is_group_response_def)
  have e: "expand_groups (table_api sample_rows) 0 (Some [1, 3]) =
     Some (Inr [sample_group, sample_group\<lparr>ar_id := 3\<rparr>, sample_member\<lparr>ar_parents := [3]\<rparr>])" by code_simp
  from expansion_exact [OF ok table_api_serves table_api_serves_all e] e show ?thesis
    by (simp add: sample_group_def sample_member_def)
qed

text \<open>C39 Cursor pagination ends when the server draws its cursors from a finite set, and a successful
  run returns the concatenation of a chain of pages, exactly as many entries as every page
  announced.\<close>

theorem services_pagination:
  assumes "finite C" "\<And>cursor p c. api_services_page api w cursor = Inr p \<Longrightarrow> pg_next_page p = Some c \<Longrightarrow> c \<in> C"
  shows "\<exists>r. fetch_all_services api w = Some r \<and>
    (\<forall>ss. r = Inr ss \<longrightarrow> (\<exists>cs. page_chain (api_services_page api w) None (int (length ss)) ss cs \<and> distinct cs))"
proof -
  have "\<exists>r. fetch_loop ''Services'' ''services'' (api_services_page api w) None None [] [] = Some r"
    by (rule fetch_loop_returns [OF assms(1)]) (rule assms(2))
  then obtain r where r: "fetch_all_services api w = Some r" by (auto simp: fetch_all_services_def)
  moreover have "\<exists>cs. page_chain (api_services_page api w) None (int (length ss)) ss cs \<and> distinct cs"
    if ss: "r = Inr ss" for ss
  proof -
    have "fetch_loop ''Services'' ''services'' (\<lambda>c. api_services_page api w c) None None [] [] = Some (Inr ss)"
      using r ss by (simp only: fetch_all_services_def)
    from fetch_loop_sound [OF this] obtain tot xs cs where
      "page_chain (\<lambda>c. api_services_page api w c) None tot xs cs" "ss = [] @ xs" "int (length ss) = tot" "distinct cs"
      by (elim exE conjE)
    then show ?thesis by auto
  qed
  ultimately show ?thesis by blast
qed

theorem services_pagination_witness:
  "\<exists>r. fetch_all_services sample_api 0 = Some r \<and>
    (\<forall>ss. r = Inr ss \<longrightarrow> (\<exists>cs. page_chain (api_services_page sample_api 0) None (int (length ss)) ss cs \<and> distinct cs))"
  by (rule services_pagination [of "{}"]) (auto simp: sample_api_def sample_page_def)

text \<open>Every address object that the gateway returns has the value its type needs, so resolving a
  leaf of the catalog to a value can only fail on a range whose start is after its end.\<close>

theorem catalog_leaves_have_values:
  assumes "gw_get_addr_objects api w ids = Some (Inr objs)" "a \<in> set objs"
    and "ao_type a \<noteq> AT_ADDR_GROUP" "address_value_from_leaf a = Inl e"
  shows "ao_type a = AT_IP_RANGE \<and> (\<exists>s t. ao_ip_range_from a = Some s \<and> ao_ip_range_to a = Some t \<and> uint t < uint s)"
proof -
  have "addr_object_ok a"
  proof (cases "ids = Some []")
    case True
    with assms(1,2) show ?thesis by (simp add: gw_get_addr_objects_def)
  next
    case False
    then obtain nets rs where "convert_addr_objects nets rs = Inr objs"
      using assms(1) by (auto simp: gw_get_addr_objects_def bind_o_Inr addr_objects_from_resp_def bind_r_eq_Inr)
    with convert_addr_objects_ok assms(2) show ?thesis by blast
  qed
  note f = addr_object_ok_fields [OF this]
  show ?thesis
    using assms(3,4) f
    by (cases "ao_type a") (auto simp: address_value_from_leaf_def span_from_range_def split: option.splits if_splits)
qed

definition sample_range :: addr_object_response where
  "sample_range = \<lparr>ar_id = 4, ar_parents = [], ar_name = ''r'', ar_data = IpRangeData (ipv4_text 9) (ipv4_text 1)\<rparr>"

lemma sample_range_object:
  "gw_get_addr_objects (table_api [sample_range]) 0 (Some [4]) =
     Some (Inr [(blank_addr_object sample_range AT_IP_RANGE)
       \<lparr>ao_ip_range_from := Some 9, ao_ip_range_to := Some 1\<rparr>])"
proof -
  have "group_ids_of [sample_range] = []"
    by (simp add: group_ids_of_def is_group_response_def sample_range_def)
  then have e: "expand_groups (table_api [sample_range]) 0 (Some [4]) = Some (Inr [sample_range])"
    by (simp add: expand_groups_def client_get_addr_objects_def falsy_ids_def table_api_fetch
        MAX_GROUPS_DEPTH_def numeral_3_eq_3 save_objects_def) (simp add: sample_range_def)
  show ?thesis
    using e
    by (simp add: gw_get_addr_objects_def addr_objects_from_resp_def network_ids_of_def
        convert_addr_object_def ipv4_address_def addr_object_post_init_def sample_range_def
        blank_addr_object_def dict_of_def)
qed

theorem catalog_leaves_have_values_witness:
  "\<exists>a :: sdwan_addr_object. ao_type a = AT_IP_RANGE \<and> (\<exists>s t. ao_ip_range_from a = Some s \<and> ao_ip_range_to a = Some t \<and> uint t < uint s)"
proof -
  let ?a = "(blank_addr_object sample_range AT_IP_RANGE)\<lparr>ao_ip_range_from := Some 9, ao_ip_range_to := Some 1\<rparr>"
  have leaf: "\<exists>e. address_value_from_leaf ?a = Inl e" "ao_type ?a \<noteq> AT_ADDR_GROUP"
    by (simp_all add: address_value_from_leaf_def blank_addr_object_def span_from_range_def)
  then obtain e where "address_value_from_leaf ?a = Inl e" by blast
  moreover have "?a \<in> set [?a]" by simp
  ultimately show ?thesis
    using catalog_leaves_have_values [OF sample_range_object _ leaf(2)] by blast
qed

end
