(* ===== verification/Value_Properties.thy ===== *)
theory Value_Properties
  imports Execute_Samples
begin

text \<open>
  The properties of address groups, of the values rules are compared by, and of the digests, each
  with an example where its hypotheses hold.
\<close>

section \<open>Address groups\<close>

definition sample_addr_group :: "int \<Rightarrow> int list \<Rightarrow> sdwan_addr_object" where
  "sample_addr_group i ps =
     (sample_fqdn i ps [])\<lparr>ao_type := AT_ADDR_GROUP, ao_fqdn := None, ao_addr_group := Some i\<rparr>"

text \<open>C21 When the leaves of an address object are resolved, they are exactly the objects reachable
  from it by group membership that are no groups, there is at least one, and all of them are
  entries of the catalog.\<close>

theorem group_leaves_exact:
  assumes "resolve_leaves (mk_group_resolver objs) i = Inr ls"
  shows "ls \<noteq> [] \<and> set ls = {a. leaf_of (mk_group_resolver objs) i a} \<and>
    set ls \<subseteq> {a \<in> set objs. ao_type a \<noteq> AT_ADDR_GROUP}"
  using resolve_leaves_exact [OF assms] resolve_leaves_in_catalog [OF assms] by blast

theorem group_leaves_exact_witness:
  "[sample_fqdn 3 [1] ''h.x''] \<noteq> [] \<and>
   set [sample_fqdn 3 [1] ''h.x''] =
     {a. leaf_of (mk_group_resolver [sample_addr_group 1 [], sample_fqdn 3 [1] ''h.x'']) 1 a} \<and>
   set [sample_fqdn 3 [1] ''h.x''] \<subseteq>
     {a \<in> set [sample_addr_group 1 [], sample_fqdn 3 [1] ''h.x'']. ao_type a \<noteq> AT_ADDR_GROUP}"
  by (rule group_leaves_exact) code_simp

text \<open>C40 An address group that contains itself through other groups is an error for every rule that
  uses it; the resolver never recurses for ever and never returns a part of the leaves.\<close>

theorem group_cycle_is_error:
  assumes "(group_link (mk_group_resolver objs))\<^sup>+\<^sup>+ i i"
  shows "\<exists>e. resolve_leaves (mk_group_resolver objs) i = Inl e"
  using assms by (rule resolve_leaves_cycle)

lemma group_linkI:
  assumes "map_of (objects_by_id r) i = Some a" "ao_type a = AT_ADDR_GROUP"
    and "c \<in> set (children_of r a)" "ao_id c \<noteq> ao_id a" "ao_id c = j"
  shows "group_link r i j"
  using assms by (auto simp: group_link_def)

lemma sample_links:
  "map_of (objects_by_id (mk_group_resolver [sample_addr_group 1 [2], sample_addr_group 2 [1]])) 1 =
     Some (sample_addr_group 1 [2])"
  "map_of (objects_by_id (mk_group_resolver [sample_addr_group 1 [2], sample_addr_group 2 [1]])) 2 =
     Some (sample_addr_group 2 [1])"
  "children_of (mk_group_resolver [sample_addr_group 1 [2], sample_addr_group 2 [1]]) (sample_addr_group 1 [2]) =
     [sample_addr_group 2 [1]]"
  "children_of (mk_group_resolver [sample_addr_group 1 [2], sample_addr_group 2 [1]]) (sample_addr_group 2 [1]) =
     [sample_addr_group 1 [2]]"
  by code_simp+

theorem group_cycle_is_error_witness:
  "\<exists>e. resolve_leaves (mk_group_resolver [sample_addr_group 1 [2], sample_addr_group 2 [1]]) 1 = Inl e"
proof (rule group_cycle_is_error)
  let ?r = "mk_group_resolver [sample_addr_group 1 [2], sample_addr_group 2 [1]]"
  have "group_link ?r 1 2" "group_link ?r 2 1"
    using group_linkI [OF sample_links(1), of "sample_addr_group 2 [1]" 2]
      group_linkI [OF sample_links(2), of "sample_addr_group 1 [2]" 1]
    by (simp_all add: sample_links) (simp_all add: sample_addr_group_def sample_fqdn_def)
  then show "(group_link ?r)\<^sup>+\<^sup>+ 1 1" by (rule tranclp.trancl_into_trancl [OF tranclp.r_into_trancl])
qed


section \<open>Comparable values\<close>

text \<open>C14 The comparison of two address values decides inclusion of the addresses and names they
  stand for; it never fails.\<close>

theorem address_covers_decides:
  assumes "address_ok a" "address_ok b"
  shows "address_covers a b = Inr (address_sem b \<subseteq> address_sem a)"
  using assms by (rule address_covers_sem)

theorem address_covers_decides_witness:
  "address_covers (AddressSpan 1 9) (AddressSpan 2 9) =
     Inr (address_sem (AddressSpan 2 9) \<subseteq> address_sem (AddressSpan 1 9))"
  by (rule address_covers_decides) simp_all

text \<open>The interval of a network stands for exactly the addresses of the network.\<close>

lemma ip_image_interval:
  assumes "\<And>a :: ipv4. a \<in> A \<longleftrightarrow> lo \<le> uint a \<and> uint a \<le> hi" "0 \<le> lo" "hi < 2 ^ 32"
  shows "Ip ` {lo..hi} = (\<lambda>a. Ip (uint a)) ` A"
proof -
  have "x \<in> uint ` A" if "x \<in> {lo..hi}" for x
  proof -
    have "uint (word_of_int x :: ipv4) = x"
      using \<open>x \<in> {lo..hi}\<close> assms(2,3) by (simp add: word_of_int_inverse unsigned_of_int take_bit_int_eq_self)
    moreover from this have "(word_of_int x :: ipv4) \<in> A" using \<open>x \<in> {lo..hi}\<close> assms(1) by simp
    ultimately show ?thesis by (metis image_eqI)
  qed
  then have "{lo..hi} = uint ` A" using assms(1) by auto
  then show ?thesis by (simp add: image_image)
qed

theorem network_span_denotes:
  assumes "network_wf n"
  shows "address_sem (span_from_network n) = (\<lambda>a. Ip (uint a)) ` network_addrs n"
proof -
  have "uint (broadcast_address n) < 2 ^ 32" using unsigned_less [of "broadcast_address n"] by simp
  then show ?thesis
    using ip_image_interval [of "network_addrs n", OF network_interval [OF assms]]
    by (simp add: span_from_network_def)
qed

theorem network_span_denotes_witness:
  "address_sem (span_from_network \<lparr>net_addr = 512, prefixlen = 24\<rparr>) =
     (\<lambda>a. Ip (uint a)) ` network_addrs \<lparr>net_addr = 512, prefixlen = 24\<rparr>"
proof (rule network_span_denotes)
  have "(512 :: ipv4) AND mask 8 = 0" by (simp add: mask_eq_exp_minus_1)
  then show "network_wf \<lparr>net_addr = 512, prefixlen = 24\<rparr>" by (simp add: network_wf_def host_mask_def)
qed

text \<open>C15 The comparison of two service values decides inclusion of the traffic they stand for, for
  every pair of protocols; it never fails.\<close>

theorem service_covers_decides:
  assumes "service_value_ok a" "service_value_ok b"
  shows "service_covers a b = Inr (service_sem b \<subseteq> service_sem a)"
  using assms by (rule service_covers_sem)

theorem service_covers_decides_witness:
  "service_covers (sample_ports 1 9) (sample_ports 2 9) =
     Inr (service_sem (sample_ports 2 9) \<subseteq> service_sem (sample_ports 1 9))"
  by (rule service_covers_decides) (simp_all add: service_value_ok_def sample_ports_def)

text \<open>C24 A rule that is resolved without an error stands for exactly the zone names, the address
  values of all leaves and the service values of all ranges that its ids name in the catalog; the
  action \<open>DROP\<close> counts as \<open>REJECT\<close>.\<close>

theorem normalized_rule_exact:
  assumes "\<forall>s \<in> set ss. service_ok s"
    and "resolve_rule (mk_rule_resolver zs ss objs) b = Inr v"
  shows "rr_normalized v =
    \<lparr>nr_action = normalize_action (rb_action b),
     nr_src_zones = rule_zone_names (mk_rule_resolver zs ss objs) (rb_src_zones b),
     nr_dst_zones = rule_zone_names (mk_rule_resolver zs ss objs) (rb_dst_zones b),
     nr_src_addresses = rule_address_values (mk_rule_resolver zs ss objs) (rb_src_addr_objects b),
     nr_dst_addresses = rule_address_values (mk_rule_resolver zs ss objs) (rb_dst_addr_objects b),
     nr_services = rule_service_values (mk_rule_resolver zs ss objs) (rb_services b)\<rparr>"
  using mk_rule_resolver_ok [OF assms(1)] assms(2) by (rule resolve_rule_exact)

theorem normalized_rule_exact_witness:
  "rr_normalized (sample_values 6 2 3 ''tcp/2-3'') =
    \<lparr>nr_action = normalize_action ACT_ACCEPT,
     nr_src_zones = rule_zone_names sample_resolver [1],
     nr_dst_zones = rule_zone_names sample_resolver [2],
     nr_src_addresses = rule_address_values sample_resolver [3],
     nr_dst_addresses = rule_address_values sample_resolver [3],
     nr_services = rule_service_values sample_resolver [6]\<rparr>"
  using normalized_rule_exact [OF sample_services_ok, of "pc_zones sample_catalog"
      "pc_address_objects sample_catalog" "sample_planned 6" "sample_values 6 2 3 ''tcp/2-3''"]
  unfolding sample_resolver_def [symmetric] sample_planned_def [of 6] rule_body.simps
  using sample_resolved(3) by (simp add: sample_planned_def)


section \<open>Digests\<close>

text \<open>Two values have the same digest exactly when they are the same up to the order of lists and
  dictionary keys and the type of leaves, provided the hash function does not collide on them.\<close>

theorem json_hash_identifies:
  assumes "dict_wf d" "dict_wf e" "no_collision sha d e"
  shows "json_hash sha d = json_hash sha e \<longleftrightarrow> tree_of d = tree_of e"
  using assms by (rule json_hash_iff)

theorem json_hash_identifies_witness:
  "json_hash (\<lambda>s. s) (DList [DVal (PInt 1), DVal (PStr ''x'')]) =
     json_hash (\<lambda>s. s) (DList [DVal (PStr ''x''), DVal (PStr ''1'')]) \<longleftrightarrow>
   tree_of (DList [DVal (PInt 1), DVal (PStr ''x'')]) = tree_of (DList [DVal (PStr ''x''), DVal (PStr ''1'')])"
  by (rule json_hash_identifies) (simp_all add: no_collision_def)

text \<open>The fingerprint of a catalog does not depend on the order in which the server lists its
  entries.\<close>

theorem fingerprint_order_insensitive:
  assumes "mset (fc_zones c) = mset (fc_zones d)" "mset (fc_services c) = mset (fc_services d)"
    "mset (fc_addr_objs c) = mset (fc_addr_objs d)" "mset (fc_networks c) = mset (fc_networks d)"
  shows "get_fingerprint sha c = get_fingerprint sha d"
  using assms by (rule get_fingerprint_perm)

definition sample_full_catalog :: "sdwan_zone list \<Rightarrow> sdwan_full_catalog" where
  "sample_full_catalog zs = \<lparr>fc_zones = zs, fc_services = [], fc_addr_objs = [], fc_networks = []\<rparr>"

theorem fingerprint_order_insensitive_witness:
  "get_fingerprint (\<lambda>s. s) (sample_full_catalog [sample_zone 1 ''a'', sample_zone 2 ''b'']) =
     get_fingerprint (\<lambda>s. s) (sample_full_catalog [sample_zone 2 ''b'', sample_zone 1 ''a''])"
  by (rule fingerprint_order_insensitive) (simp_all add: sample_full_catalog_def)

text \<open>Parsing an IPv4 address accepts exactly the canonical dotted texts: a text is the address
  \<open>a\<close> exactly when it is what \<open>a\<close> is printed as.\<close>

theorem ipv4_roundtrip: "parse_ipv4 s = Some a \<longleftrightarrow> s = ipv4_text a"
  using ipv4_text_parse by auto

end
