(* ===== verification/Mapping_Domain.thy ===== *)
theory Mapping_Domain
  imports Sdwan_Models
begin

text \<open>
  The entities of the mapping module: canonical objects as the mapping reads them
  (\<open>src/src/app/modules/mapping/ports/canonical_reader/schemas.py\<close>), and the mapping scope
  with its rules, results and candidates
  (\<open>src/src/app/modules/mapping/domain/entities.py\<close>, \<open>enums.py\<close>,
  \<open>value_objects.py\<close>).

  Identifiers come from a supply \<open>ids :: nat \<Rightarrow> uuid\<close>: a factory method takes its own
  id as \<open>ids 0\<close> and the ids of the parts it creates as \<open>ids 1\<close>, \<open>ids 2\<close>, and so on.
  \<open>result_ok\<close> is the invariant of a mapping result (a result is matched exactly when an
  SD-WAN id is selected, and its candidates are its own); every factory method establishes it and
  every selection preserves it.
\<close>

section \<open>Canonical objects\<close>

datatype can_addr_kind =
  CK_HOST | CK_SUBNET | CK_RANGE | CK_FQDN | CK_ANY_ADDR | CK_UNRESOLVED_ADDR | CK_ADDR_GROUP

datatype can_service_kind =
  SK_TCP | SK_UDP | SK_ICMP | SK_IP_PROTO | SK_ANY_SERVICE | SK_SERVICE_GROUP | SK_UNRESOLVED_SERVICE

fun addr_kind_value :: "can_addr_kind \<Rightarrow> string" where
  "addr_kind_value CK_HOST = ''host''"
| "addr_kind_value CK_SUBNET = ''subnet''"
| "addr_kind_value CK_RANGE = ''range''"
| "addr_kind_value CK_FQDN = ''fqdn''"
| "addr_kind_value CK_ANY_ADDR = ''any_addr''"
| "addr_kind_value CK_UNRESOLVED_ADDR = ''unresolved_addr''"
| "addr_kind_value CK_ADDR_GROUP = ''addr_group''"

fun service_kind_value :: "can_service_kind \<Rightarrow> string" where
  "service_kind_value SK_TCP = ''tcp''"
| "service_kind_value SK_UDP = ''udp''"
| "service_kind_value SK_ICMP = ''icmp''"
| "service_kind_value SK_IP_PROTO = ''ip_proto''"
| "service_kind_value SK_ANY_SERVICE = ''any_service''"
| "service_kind_value SK_SERVICE_GROUP = ''service_group''"
| "service_kind_value SK_UNRESOLVED_SERVICE = ''unresolved_service''"

record can_zone =
  cz_id :: uuid
  cz_zone_key :: string
  cz_name :: string

record can_addr =
  ca_id :: uuid
  ca_kind :: can_addr_kind
  ca_name :: string
  ca_parent_id :: "uuid option"
  ca_parent_ids :: "uuid list"
  ca_cidr :: "string option"
  ca_range_start :: "string option"
  ca_range_end :: "string option"
  ca_fqdn :: "string option"

record can_service =
  cs_id :: uuid
  cs_kind :: can_service_kind
  cs_name :: string
  cs_parent_id :: "uuid option"
  cs_parent_ids :: "uuid list"
  cs_protocol :: "string option"
  cs_port_from :: "int option"
  cs_port_to :: "int option"
  cs_icmp_type :: "int option"
  cs_icmp_code :: "int option"

record can_scope_entities =
  ce_zones :: "can_zone list"
  ce_addr_objects :: "can_addr list"
  ce_services :: "can_service list"

datatype can_operand_role = CR_SRC_ZONE | CR_DST_ZONE | CR_SRC_OBJECT | CR_DST_OBJECT | CR_SERVICE

record can_operand =
  cop_id :: uuid
  cop_rule_id :: uuid
  cop_role :: can_operand_role
  cop_target_zone_id :: "uuid option"
  cop_target_object_id :: "uuid option"

datatype can_action = CAN_PERMIT | CAN_DENY

record can_rule =
  cr_id :: uuid
  cr_snapshot_id :: uuid
  cr_name :: string
  cr_action :: can_action
  cr_priority :: int
  cr_operands :: "can_operand list"


section \<open>Enums of the mapping\<close>

datatype mapping_entity_type = ET_ZONE | ET_ADDR | ET_SERVICE

fun entity_type_value :: "mapping_entity_type \<Rightarrow> string" where
  "entity_type_value ET_ZONE = ''zone''"
| "entity_type_value ET_ADDR = ''addr''"
| "entity_type_value ET_SERVICE = ''service''"

datatype mapping_result_status = RS_MATCHED | RS_AMBIGUOUS | RS_UNRESOLVED

datatype selection_method = AUTO_SELECTED | MANUAL_CANDIDATE | MANUAL_DIRECT | AUTO_CREATED

datatype match_strategy = NORMALIZED_NAME | EXACT_VALUE | BUILTIN_ANY | SERVICE_SIGNATURE

datatype zone_direction = ZD_SRC_ZONE | ZD_DST_ZONE

datatype operand_role = OR_SRC_ZONE | OR_DST_ZONE | OR_SRC_ADDR_OBJECT | OR_DST_ADDR_OBJECT | OR_SERVICE

fun operand_role_value :: "operand_role \<Rightarrow> string" where
  "operand_role_value OR_SRC_ZONE = ''src_zone''"
| "operand_role_value OR_DST_ZONE = ''dst_zone''"
| "operand_role_value OR_SRC_ADDR_OBJECT = ''src_addr_object''"
| "operand_role_value OR_DST_ADDR_OBJECT = ''dst_addr_object''"
| "operand_role_value OR_SERVICE = ''service''"

datatype scope_rule_action = SA_ACCEPT | SA_REJECT

lemma entity_type_value_inj [simp]: "entity_type_value a = entity_type_value b \<longleftrightarrow> a = b"
  by (cases a; cases b) simp_all


section \<open>Rules of a scope\<close>

record operand_payload =
  op_role :: operand_role
  op_result_id :: uuid

record scope_rule_operand =
  so_id :: uuid
  so_rule_id :: uuid
  so_role :: operand_role
  so_result_id :: uuid

record scope_rule =
  sl_id :: uuid
  sl_scope_id :: uuid
  sl_canonical_rule_id :: uuid
  sl_name :: string
  sl_action :: scope_rule_action
  sl_priority :: int
  sl_operands :: "scope_rule_operand list option"

definition create_operand :: "uuid \<Rightarrow> uuid \<Rightarrow> operand_payload \<Rightarrow> scope_rule_operand" where
  "create_operand i rule_id p =
     \<lparr>so_id = i, so_rule_id = rule_id, so_role = op_role p, so_result_id = op_result_id p\<rparr>"

definition create_scope_rule ::
  "(nat \<Rightarrow> uuid) \<Rightarrow> uuid \<Rightarrow> uuid \<Rightarrow> string \<Rightarrow> scope_rule_action \<Rightarrow> int \<Rightarrow> operand_payload list \<Rightarrow> scope_rule" where
  "create_scope_rule ids scope_id canonical_id name action priority payloads =
     \<lparr>sl_id = ids 0, sl_scope_id = scope_id, sl_canonical_rule_id = canonical_id, sl_name = name,
      sl_action = action, sl_priority = priority,
      sl_operands = Some (map (\<lambda>(j, p). create_operand (ids (Suc j)) (ids 0) p) (enumerate 0 payloads))\<rparr>"


section \<open>The scope\<close>

record mapping_scope =
  sc_id :: uuid
  sc_title :: string
  sc_canonical_snapshot_id :: uuid
  sc_csp_profile_id :: uuid
  sc_vpc_id :: string
  sc_sdwan_target_id :: string
  sc_rules_priority :: sdwan_rule_priority
  sc_catalog_fingerprint :: string
  sc_created_at :: timestamp
  sc_rules :: "scope_rule list option"

definition create_scope_header ::
  "uuid \<Rightarrow> timestamp \<Rightarrow> string \<Rightarrow> uuid \<Rightarrow> uuid \<Rightarrow> string \<Rightarrow> string \<Rightarrow> sdwan_rule_priority \<Rightarrow> string \<Rightarrow> mapping_scope" where
  "create_scope_header i now title snapshot_id profile_id vpc_id target_id priority fingerprint =
     \<lparr>sc_id = i, sc_title = title, sc_canonical_snapshot_id = snapshot_id,
      sc_csp_profile_id = profile_id, sc_vpc_id = vpc_id, sc_sdwan_target_id = target_id,
      sc_rules_priority = priority, sc_catalog_fingerprint = fingerprint, sc_created_at = now,
      sc_rules = None\<rparr>"

definition scope_attach_rules :: "mapping_scope \<Rightarrow> scope_rule list \<Rightarrow> mapping_scope" where
  "scope_attach_rules s rs = s\<lparr>sc_rules := Some rs\<rparr>"

definition scope_refresh_fingerprint :: "mapping_scope \<Rightarrow> string \<Rightarrow> mapping_scope" where
  "scope_refresh_fingerprint s fp = s\<lparr>sc_catalog_fingerprint := fp\<rparr>"


section \<open>Results and candidates\<close>

record candidate_payload =
  mp_rank :: nat
  mp_score :: int
  mp_strategy :: match_strategy
  mp_sdwan_entity_id :: int

record entity_candidate =
  mc_id :: uuid
  mc_result_id :: uuid
  mc_rank :: nat
  mc_score :: int
  mc_strategy :: match_strategy
  mc_sdwan_entity_id :: int

record entity_result =
  me_id :: uuid
  me_mapping_scope_id :: uuid
  me_entity_type :: mapping_entity_type
  me_canonical_zone_id :: "uuid option"
  me_canonical_object_id :: "uuid option"
  me_result_status :: mapping_result_status
  me_selection_method :: "selection_method option"
  me_selected_sdwan_entity_id :: "int option"
  me_created_at :: timestamp
  me_candidates :: "entity_candidate list option"

definition create_candidate :: "uuid \<Rightarrow> uuid \<Rightarrow> candidate_payload \<Rightarrow> entity_candidate" where
  "create_candidate i result_id p =
     \<lparr>mc_id = i, mc_result_id = result_id, mc_rank = mp_rank p, mc_score = mp_score p,
      mc_strategy = mp_strategy p, mc_sdwan_entity_id = mp_sdwan_entity_id p\<rparr>"

definition canonical_entity_id :: "entity_result \<Rightarrow> exc + uuid" where
  "canonical_entity_id r =
     (if me_entity_type r = ET_ZONE then
        (case me_canonical_zone_id r of
           None \<Rightarrow> Inl (ValueError ''ZONE have no canonical_zone_id'') | Some i \<Rightarrow> Inr i)
      else
        (case me_canonical_object_id r of
           None \<Rightarrow> Inl (ValueError (entity_type_value (me_entity_type r) @ '' result requires canonical_object_id''))
         | Some i \<Rightarrow> Inr i))"

definition resolve_canonical_ids :: "mapping_entity_type \<Rightarrow> uuid \<Rightarrow> uuid option \<times> uuid option" where
  "resolve_canonical_ids et i = (if et = ET_ZONE then (Some i, None) else (None, Some i))"

definition create_unresolved ::
  "(nat \<Rightarrow> uuid) \<Rightarrow> timestamp \<Rightarrow> uuid \<Rightarrow> mapping_entity_type \<Rightarrow> uuid \<Rightarrow> entity_result" where
  "create_unresolved ids now scope_id et canonical_id =
     (case resolve_canonical_ids et canonical_id of (zone_id, object_id) \<Rightarrow>
       \<lparr>me_id = ids 0, me_mapping_scope_id = scope_id, me_entity_type = et,
        me_canonical_zone_id = zone_id, me_canonical_object_id = object_id,
        me_result_status = RS_UNRESOLVED, me_selection_method = None,
        me_selected_sdwan_entity_id = None, me_created_at = now, me_candidates = Some []\<rparr>)"

definition create_ambiguous ::
  "(nat \<Rightarrow> uuid) \<Rightarrow> timestamp \<Rightarrow> uuid \<Rightarrow> mapping_entity_type \<Rightarrow> uuid \<Rightarrow> candidate_payload list \<Rightarrow> entity_result" where
  "create_ambiguous ids now scope_id et canonical_id payloads =
     (case resolve_canonical_ids et canonical_id of (zone_id, object_id) \<Rightarrow>
       \<lparr>me_id = ids 0, me_mapping_scope_id = scope_id, me_entity_type = et,
        me_canonical_zone_id = zone_id, me_canonical_object_id = object_id,
        me_result_status = RS_AMBIGUOUS, me_selection_method = None,
        me_selected_sdwan_entity_id = None, me_created_at = now,
        me_candidates = Some (map (\<lambda>(j, p). create_candidate (ids (Suc j)) (ids 0) p) (enumerate 0 payloads))\<rparr>)"

definition create_matched_auto ::
  "(nat \<Rightarrow> uuid) \<Rightarrow> timestamp \<Rightarrow> uuid \<Rightarrow> mapping_entity_type \<Rightarrow> uuid \<Rightarrow> candidate_payload \<Rightarrow> entity_result" where
  "create_matched_auto ids now scope_id et canonical_id p =
     (case resolve_canonical_ids et canonical_id of (zone_id, object_id) \<Rightarrow>
       \<lparr>me_id = ids 0, me_mapping_scope_id = scope_id, me_entity_type = et,
        me_canonical_zone_id = zone_id, me_canonical_object_id = object_id,
        me_result_status = RS_MATCHED, me_selection_method = Some AUTO_SELECTED,
        me_selected_sdwan_entity_id = Some (mp_sdwan_entity_id p), me_created_at = now,
        me_candidates = Some [create_candidate (ids 1) (ids 0) p]\<rparr>)"

definition create_zone_manually_assigned :: "(nat \<Rightarrow> uuid) \<Rightarrow> timestamp \<Rightarrow> uuid \<Rightarrow> int \<Rightarrow> entity_result" where
  "create_zone_manually_assigned ids now scope_id zone_id =
     \<lparr>me_id = ids 0, me_mapping_scope_id = scope_id, me_entity_type = ET_ZONE,
      me_canonical_zone_id = None, me_canonical_object_id = None, me_result_status = RS_MATCHED,
      me_selection_method = Some MANUAL_DIRECT, me_selected_sdwan_entity_id = Some zone_id,
      me_created_at = now, me_candidates = None\<rparr>"

definition select_candidate :: "entity_candidate \<Rightarrow> entity_result \<Rightarrow> exc + entity_result" where
  "select_candidate c r =
     (if mc_result_id c \<noteq> me_id r then Inl (ValueError ''Candidate does not belong to this mapping result'')
      else Inr (r\<lparr>me_result_status := RS_MATCHED, me_selection_method := Some MANUAL_CANDIDATE,
                 me_selected_sdwan_entity_id := Some (mc_sdwan_entity_id c)\<rparr>))"

definition select_direct :: "int \<Rightarrow> entity_result \<Rightarrow> entity_result" where
  "select_direct i r =
     r\<lparr>me_result_status := RS_MATCHED, me_selection_method := Some MANUAL_DIRECT,
       me_selected_sdwan_entity_id := Some i\<rparr>"

definition select_created :: "int \<Rightarrow> entity_result \<Rightarrow> entity_result" where
  "select_created i r =
     r\<lparr>me_result_status := RS_MATCHED, me_selection_method := Some AUTO_CREATED,
       me_selected_sdwan_entity_id := Some i\<rparr>"


section \<open>The invariant of a result\<close>

definition candidates_list :: "entity_result \<Rightarrow> entity_candidate list" where
  "candidates_list r = (case me_candidates r of None \<Rightarrow> [] | Some cs \<Rightarrow> cs)"

definition result_ok :: "entity_result \<Rightarrow> bool" where
  "result_ok r \<longleftrightarrow>
     (me_result_status r = RS_MATCHED \<longleftrightarrow> me_selected_sdwan_entity_id r \<noteq> None) \<and>
     (me_selection_method r = None \<longleftrightarrow> me_selected_sdwan_entity_id r = None) \<and>
     (me_result_status r = RS_AMBIGUOUS \<longrightarrow> 2 \<le> length (candidates_list r)) \<and>
     (me_result_status r = RS_UNRESOLVED \<longrightarrow> candidates_list r = []) \<and>
     (me_entity_type r = ET_ZONE \<longrightarrow> me_canonical_object_id r = None) \<and>
     (me_entity_type r \<noteq> ET_ZONE \<longrightarrow> me_canonical_zone_id r = None \<and> me_canonical_object_id r \<noteq> None) \<and>
     (\<forall>c \<in> set (candidates_list r). mc_result_id c = me_id r)"

lemmas result_create_defs =
  create_unresolved_def create_ambiguous_def create_matched_auto_def create_zone_manually_assigned_def
  resolve_canonical_ids_def create_candidate_def

lemma created_results_ok:
  "result_ok (create_unresolved ids now scope_id et i)"
  "result_ok (create_matched_auto ids now scope_id et i p)"
  "result_ok (create_zone_manually_assigned ids now scope_id z)"
  by (simp_all add: result_ok_def candidates_list_def result_create_defs)

lemma created_ambiguous_ok: "2 \<le> length ps \<Longrightarrow> result_ok (create_ambiguous ids now scope_id et i ps)"
  by (auto simp: result_ok_def candidates_list_def result_create_defs)

lemma selected_ok:
  assumes "result_ok r"
  shows "result_ok (r\<lparr>me_result_status := RS_MATCHED, me_selection_method := Some m,
    me_selected_sdwan_entity_id := Some i\<rparr>)"
  using assms by (simp add: result_ok_def candidates_list_def)

lemma selections_ok:
  assumes "result_ok r"
  shows "result_ok (select_direct i r)" "result_ok (select_created i r)"
    "select_candidate c r = Inr r' \<Longrightarrow> result_ok r'"
proof -
  show "result_ok (select_direct i r)" unfolding select_direct_def by (rule selected_ok [OF assms])
  show "result_ok (select_created i r)" unfolding select_created_def by (rule selected_ok [OF assms])
  show "select_candidate c r = Inr r' \<Longrightarrow> result_ok r'"
    unfolding select_candidate_def by (simp only: sum.inject sum.distinct split: if_splits)
      (metis selected_ok [OF assms])
qed

lemma created_canonical_id [simp]:
  "canonical_entity_id (create_unresolved ids now scope_id et i) = Inr i"
  "canonical_entity_id (create_ambiguous ids now scope_id et i ps) = Inr i"
  "canonical_entity_id (create_matched_auto ids now scope_id et i p) = Inr i"
  by (simp_all add: canonical_entity_id_def result_create_defs)

lemma created_fields [simp]:
  "me_id (create_unresolved ids now s et i) = ids 0" "me_id (create_ambiguous ids now s et i ps) = ids 0"
  "me_id (create_matched_auto ids now s et i p) = ids 0"
  "me_entity_type (create_unresolved ids now s et i) = et"
  "me_entity_type (create_ambiguous ids now s et i ps) = et"
  "me_entity_type (create_matched_auto ids now s et i p) = et"
  "me_mapping_scope_id (create_unresolved ids now s et i) = s"
  "me_mapping_scope_id (create_ambiguous ids now s et i ps) = s"
  "me_mapping_scope_id (create_matched_auto ids now s et i p) = s"
  "me_result_status (create_unresolved ids now s et i) = RS_UNRESOLVED"
  "me_result_status (create_ambiguous ids now s et i ps) = RS_AMBIGUOUS"
  "me_result_status (create_matched_auto ids now s et i p) = RS_MATCHED"
  "me_selected_sdwan_entity_id (create_unresolved ids now s et i) = None"
  "me_selected_sdwan_entity_id (create_ambiguous ids now s et i ps) = None"
  "me_selected_sdwan_entity_id (create_matched_auto ids now s et i p) = Some (mp_sdwan_entity_id p)"
  by (simp_all add: result_create_defs)

end
