(* ===== verification/Mapping_Gateway.thy ===== *)
theory Mapping_Gateway
  imports Mapping_Domain Catalog_Gateway
begin

text \<open>
  \<open>MappingSDWANGateway\<close> (\<open>src/src/app/modules/mapping/adapters/sdwan_gateway.py\<close>) with the
  payloads of its creating operations (\<open>domain/value_objects.py\<close>, and the request schemas of
  \<open>src/src/app/integrations/sdwan_csp_api/schemas.py\<close>).

  Reading is the catalog gateway's; creating an object changes the state of the server, so the
  record \<open>mapping_api\<close> adds the two creating endpoints to the reading ones.
  \<open>service_request_tcp_udp\<close>: a request that is sent for a TCP or UDP service carries the protocol
  and the ports of the payload, and they form a valid port range.
\<close>

section \<open>Payloads and requests\<close>

record addr_payload =
  ap_type :: sdwan_addr_type
  ap_prefix :: "string option"
  ap_host :: "string option"
  ap_fqdn :: "string option"
  ap_ip_range_from :: "string option"
  ap_ip_range_to :: "string option"

definition addr_payload_post_init :: "addr_payload \<Rightarrow> exc + addr_payload" where
  "addr_payload_post_init p =
     (if ap_type p = AT_PREFIX \<and> ap_prefix p = None then Inl (ValueError ''Prefix addr obj must have prefix net'')
      else if ap_type p = AT_HOST \<and> ap_host p = None then Inl (ValueError ''Host addr obj must have host address'')
      else if ap_type p = AT_FQDN \<and> ap_fqdn p = None then Inl (ValueError ''FQDN addr obj must have fqdn string'')
      else if ap_type p = AT_IP_RANGE \<and> (ap_ip_range_from p = None \<or> ap_ip_range_to p = None) then
        Inl (ValueError ''IP Range addr obj must have from and to values'')
      else Inr p)"

record service_payload =
  vp_name :: string
  vp_l4_proto :: sdwan_l4_proto
  vp_port_start :: "int option"
  vp_port_end :: "int option"
  vp_icmp_codes :: "string list option"

definition service_payload_post_init :: "service_payload \<Rightarrow> exc + service_payload" where
  "service_payload_post_init p =
     (if (vp_l4_proto p = L4_TCP \<or> vp_l4_proto p = L4_UDP) \<and> (vp_port_start p = None \<or> vp_port_end p = None) then
        Inl (ValueError ''TCP/UDP addr obj must have range ports'')
      else if vp_l4_proto p = L4_ICMP \<and> falsy_list (vp_icmp_codes p) then
        Inl (ValueError ''ICMP addr obj must have codes'')
      else Inr p)"

datatype addr_create_data =
    CreatePrefix string
  | CreateHost string
  | CreateFqdn string
  | CreateIpRange string string

record service_create_request =
  vc_name :: string
  vc_l4_proto :: sdwan_l4_proto
  vc_ranges :: "(int \<times> int) list option"
  vc_codes :: "string list option"

definition validate_service_request :: "service_create_request \<Rightarrow> exc + service_create_request" where
  "validate_service_request s =
     (if (vc_l4_proto s = L4_TCP \<or> vc_l4_proto s = L4_UDP) \<and> vc_codes s \<noteq> None
      then Inl (ValueError ''tcp/udp service must not have icmp codes'')
      else if (vc_l4_proto s = L4_TCP \<or> vc_l4_proto s = L4_UDP) \<and> vc_ranges s = None
      then Inl (ValueError ''tcp/udp service must have port ranges'')
      else if vc_l4_proto s = L4_ICMP \<and> vc_ranges s \<noteq> None
      then Inl (ValueError ''icmp service must not have port ranges'')
      else if vc_l4_proto s = L4_ICMP \<and> vc_codes s = None
      then Inl (ValueError ''icmp service must have icmp codes'')
      else Inr s)"

record 'w mapping_api =
  ma_csp :: "'w csp_api"
  ma_create_addr_objects :: "'w \<Rightarrow> addr_create_data list \<Rightarrow> (exc + int list) \<times> 'w"
  ma_create_service :: "'w \<Rightarrow> service_create_request \<Rightarrow> (exc + service_response) \<times> 'w"


section \<open>The gateway\<close>

definition first_of :: "'a list \<Rightarrow> 'a option" where
  "first_of xs = (case xs of [] \<Rightarrow> None | x # _ \<Rightarrow> Some x)"

definition mg_get_zone :: "'w mapping_api \<Rightarrow> 'w \<Rightarrow> int \<Rightarrow> sdwan_zone option result" where
  "mg_get_zone api w i = bind_o (gw_get_zones (ma_csp api) w (Some [i])) (\<lambda>zs. Some (Inr (first_of zs)))"

definition mg_get_service :: "'w mapping_api \<Rightarrow> 'w \<Rightarrow> int \<Rightarrow> sdwan_service option result" where
  "mg_get_service api w i = bind_o (gw_get_services (ma_csp api) w (Some [i])) (\<lambda>ss. Some (Inr (first_of ss)))"

definition mg_get_addr_object :: "'w mapping_api \<Rightarrow> 'w \<Rightarrow> int \<Rightarrow> sdwan_addr_object option result" where
  "mg_get_addr_object api w i =
     bind_o (gw_get_addr_objects (ma_csp api) w (Some [i])) (\<lambda>os. Some (Inr (first_of os)))"

definition addr_request :: "addr_payload \<Rightarrow> exc + addr_create_data" where
  "addr_request p =
     (case ap_type p of
        AT_PREFIX \<Rightarrow> (case ap_prefix p of None \<Rightarrow> Inl (ValueError ''prefix must be provided for prefix type'')
          | Some t \<Rightarrow> Inr (CreatePrefix t))
      | AT_HOST \<Rightarrow> (case ap_host p of None \<Rightarrow> Inl (ValueError ''host must be provided for host type'')
          | Some t \<Rightarrow> Inr (CreateHost t))
      | AT_FQDN \<Rightarrow> (case ap_fqdn p of None \<Rightarrow> Inl (ValueError ''fqdn must be provided for fqdn type'')
          | Some t \<Rightarrow> Inr (CreateFqdn t))
      | AT_IP_RANGE \<Rightarrow> (case (ap_ip_range_from p, ap_ip_range_to p) of
            (Some a, Some b) \<Rightarrow> Inr (CreateIpRange a b)
          | _ \<Rightarrow> Inl (ValueError ''ip_range_from and ip_range_to must be provided for ip_range type''))
      | _ \<Rightarrow> Inl (ValueError ''Unexpected addr obj type''))"

definition create_addr_objects_bulk ::
  "'w mapping_api \<Rightarrow> 'w \<Rightarrow> addr_payload list \<Rightarrow> (exc + int list) \<times> 'w" where
  "create_addr_objects_bulk api w ps =
     (case traverse addr_request ps of
        Inl e \<Rightarrow> (Inl e, w)
      | Inr ds \<Rightarrow> ma_create_addr_objects api w ds)"

definition create_addr_object :: "'w mapping_api \<Rightarrow> 'w \<Rightarrow> addr_payload \<Rightarrow> sdwan_addr_object result \<times> 'w" where
  "create_addr_object api w p =
     (case create_addr_objects_bulk api w [p] of
        (Inl e, w1) \<Rightarrow> (Some (Inl e), w1)
      | (Inr [], w1) \<Rightarrow> (Some (Inl (IndexError ''list index out of range'')), w1)
      | (Inr (i # _), w1) \<Rightarrow>
          (bind_o (mg_get_addr_object api w1 i) (\<lambda>a. case a of
             None \<Rightarrow> Some (Inl (ValueError (''Addr object '' @ int_str i @ '' not found'')))
           | Some x \<Rightarrow> Some (Inr x)), w1))"

definition service_request :: "service_payload \<Rightarrow> exc + service_create_request" where
  "service_request p =
     (if vp_l4_proto p = L4_ICMP then
        validate_service_request \<lparr>vc_name = vp_name p, vc_l4_proto = vp_l4_proto p, vc_ranges = None,
          vc_codes = vp_icmp_codes p\<rparr>
      else if vp_l4_proto p = L4_TCP \<or> vp_l4_proto p = L4_UDP then
        (case (vp_port_start p, vp_port_end p) of
           (Some a, Some b) \<Rightarrow>
             bind_r (validate_range (a, b)) (\<lambda>r.
               validate_service_request \<lparr>vc_name = vp_name p, vc_l4_proto = vp_l4_proto p,
                 vc_ranges = Some [r], vc_codes = None\<rparr>)
         | _ \<Rightarrow> Inl (ValueError ''TCP/UDP service must have port ranges''))
      else Inl (ValueError (''Unexpected l4_proto '' @ l4_proto_value (vp_l4_proto p) @
        '' type for auto-creation'')))"

definition created_service :: "service_response \<Rightarrow> exc + sdwan_service" where
  "created_service r =
     service_post_init \<lparr>sv_id = sp_id r, sv_name = sp_name r, sv_l4_proto = sp_l4_proto r,
       sv_ranges = (if falsy_list (sp_ranges r) then None else sp_ranges r), sv_codes = sp_codes r\<rparr>"

definition create_service :: "'w mapping_api \<Rightarrow> 'w \<Rightarrow> service_payload \<Rightarrow> (exc + sdwan_service) \<times> 'w" where
  "create_service api w p =
     (case service_request p of
        Inl e \<Rightarrow> (Inl e, w)
      | Inr req \<Rightarrow>
          (case ma_create_service api w req of
             (Inl e, w1) \<Rightarrow> (Inl e, w1)
           | (Inr r, w1) \<Rightarrow> (created_service r, w1)))"


section \<open>What a creation asks for\<close>

lemma addr_request_total:
  assumes "addr_payload_post_init p = Inr q" "ap_type p \<in> {AT_PREFIX, AT_HOST, AT_FQDN, AT_IP_RANGE}"
  shows "\<exists>d. addr_request q = Inr d"
  using assms by (auto simp: addr_payload_post_init_def addr_request_def split: if_splits option.split)

lemma service_request_tcp_udp:
  assumes "service_request p = Inr req" "vp_l4_proto p \<noteq> L4_ICMP"
  shows "\<exists>a b. vp_port_start p = Some a \<and> vp_port_end p = Some b \<and> 0 \<le> a \<and> a \<le> b \<and> b \<le> 65535 \<and>
    req = \<lparr>vc_name = vp_name p, vc_l4_proto = vp_l4_proto p, vc_ranges = Some [(a, b)], vc_codes = None\<rparr>"
  using assms
  by (auto simp: service_request_def validate_range_def validate_service_request_def bind_r_eq_Inr
      split: if_splits option.splits)

end
