(* ===== verification/Mapping_Matchers.thy ===== *)
theory Mapping_Matchers
  imports Mapping_Domain "HOL-Library.Product_Lexorder"
begin

text \<open>
  Matching of canonical objects with the SD-WAN catalog
  (\<open>src/src/app/modules/mapping/services/mapping_objects\<close>): name normalization, the catalog
  indexes, the matchers of zones, address objects and services, and the service that turns
  candidates into results.

  Candidates are exact: a matcher returns the ids of the catalog entries that have the value of the
  canonical object, each once and ranked (\<open>match_addr_ids\<close>, \<open>match_service_ids\<close>,
  \<open>match_zone_ids\<close>), and a result is matched automatically exactly when there is one
  (\<open>build_result_cases\<close>).
\<close>

section \<open>Normalization\<close>

definition is_alnum :: "char \<Rightarrow> bool" where
  "is_alnum c \<longleftrightarrow> is_digit c \<or> is_lower c"

definition normalize_name :: "string \<Rightarrow> string" where
  "normalize_name s =
     join '' '' (split_ws (sub_runs (\<lambda>c. \<not> is_alnum c) '' '' (lower (strip s))))"

definition normalize_fqdn :: "string \<Rightarrow> string" where
  "normalize_fqdn s = rstrip_by (\<lambda>c. c = CHR ''.'') (lower (strip s))"

definition normalize_protocol :: "string option \<Rightarrow> string option" where
  "normalize_protocol p = map_option (\<lambda>s. lower (strip s)) p"


section \<open>Catalog indexes\<close>

record zones_index =
  zi_zones :: "sdwan_zone list"
  zi_by_name :: "(string \<times> sdwan_zone list) list"

definition mk_zones_index :: "sdwan_zone list \<Rightarrow> zones_index" where
  "mk_zones_index zs =
     (let ds = distinct_by zn_id zs in
      \<lparr>zi_zones = ds, zi_by_name = group_by (\<lambda>z. normalize_name (zn_name z)) ds\<rparr>)"

definition find_zones_by_name :: "zones_index \<Rightarrow> string \<Rightarrow> sdwan_zone list" where
  "find_zones_by_name ix n = dict_get (zi_by_name ix) (normalize_name n) []"

record addr_index =
  ai_objects :: "sdwan_addr_object list"
  ai_by_name :: "(string \<times> sdwan_addr_object list) list"
  ai_by_host :: "(string \<times> sdwan_addr_object list) list"
  ai_by_prefix :: "(string \<times> sdwan_addr_object list) list"
  ai_by_fqdn :: "(string \<times> sdwan_addr_object list) list"
  ai_by_range :: "((string \<times> string) \<times> sdwan_addr_object list) list"

definition index_addr :: "sdwan_addr_object \<Rightarrow> addr_index \<Rightarrow> exc + addr_index" where
  "index_addr a ix0 =
     (let ix = ix0\<lparr>ai_by_name := group_append (normalize_name (ao_name a)) a (ai_by_name ix0)\<rparr> in
      if ao_type a = AT_HOST \<and> ao_host a \<noteq> None then
        Inr (ix\<lparr>ai_by_host := group_append (ipv4_text (the (ao_host a))) a (ai_by_host ix)\<rparr>)
      else if ao_type a = AT_PREFIX \<and> ao_prefix a \<noteq> None then
        Inr (ix\<lparr>ai_by_prefix := group_append (network_text (the (ao_prefix a))) a (ai_by_prefix ix)\<rparr>)
      else if ao_type a = AT_NETWORK \<and> ao_network a \<noteq> None then
        Inr (ix\<lparr>ai_by_prefix := group_append (network_text (the (ao_network a))) a (ai_by_prefix ix)\<rparr>)
      else if ao_type a = AT_FQDN \<and> ao_fqdn a \<noteq> None then
        Inr (ix\<lparr>ai_by_fqdn := group_append (normalize_fqdn (the (ao_fqdn a))) a (ai_by_fqdn ix)\<rparr>)
      else if ao_type a = AT_IP_RANGE \<and> ao_ip_range_from a \<noteq> None \<and> ao_ip_range_to a \<noteq> None then
        Inr (ix\<lparr>ai_by_range := group_append
          (ipv4_text (the (ao_ip_range_from a)), ipv4_text (the (ao_ip_range_to a))) a (ai_by_range ix)\<rparr>)
      else if ao_type a = AT_ADDR_GROUP then Inr ix
      else Inl (MappingDomainValidationError
        (''Unexpected for index addr obj type `'' @ addr_type_value (ao_type a) @ ''`'')))"

definition mk_addr_index :: "sdwan_addr_object list \<Rightarrow> exc + addr_index" where
  "mk_addr_index objs =
     (let ds = distinct_by ao_id objs in
      fold_r index_addr ds
        \<lparr>ai_objects = ds, ai_by_name = [], ai_by_host = [], ai_by_prefix = [], ai_by_fqdn = [],
         ai_by_range = []\<rparr>)"

definition find_addr_by_name :: "addr_index \<Rightarrow> string \<Rightarrow> sdwan_addr_object list" where
  "find_addr_by_name ix n = dict_get (ai_by_name ix) (normalize_name n) []"

definition find_addr_by_host :: "addr_index \<Rightarrow> ipv4 \<Rightarrow> sdwan_addr_object list" where
  "find_addr_by_host ix h = dict_get (ai_by_host ix) (ipv4_text h) []"

definition find_addr_by_prefix :: "addr_index \<Rightarrow> ipv4_network \<Rightarrow> sdwan_addr_object list" where
  "find_addr_by_prefix ix n = dict_get (ai_by_prefix ix) (network_text n) []"

definition find_addr_by_fqdn :: "addr_index \<Rightarrow> string \<Rightarrow> sdwan_addr_object list" where
  "find_addr_by_fqdn ix d = dict_get (ai_by_fqdn ix) (normalize_fqdn d) []"

definition find_addr_by_range :: "addr_index \<Rightarrow> ipv4 \<Rightarrow> ipv4 \<Rightarrow> sdwan_addr_object list" where
  "find_addr_by_range ix s e = dict_get (ai_by_range ix) (ipv4_text s, ipv4_text e) []"

definition whole_network :: ipv4_network where
  "whole_network = \<lparr>net_addr = 0, prefixlen = 0\<rparr>"

definition find_builtin_any_addr_objects :: "addr_index \<Rightarrow> sdwan_addr_object list" where
  "find_builtin_any_addr_objects ix =
     distinct_by ao_id (find_addr_by_prefix ix whole_network @ find_addr_by_name ix ''any'' @
       find_addr_by_name ix ''all'')"

type_synonym service_index_key = "sdwan_l4_proto \<times> (int \<times> int) list \<times> string list"

record services_index =
  si_services :: "sdwan_service list"
  si_by_name :: "(string \<times> sdwan_service list) list"
  si_by_signature :: "(service_index_key \<times> sdwan_service list) list"

definition or_empty :: "'a list option \<Rightarrow> 'a list" where
  "or_empty xs = (case xs of None \<Rightarrow> [] | Some ys \<Rightarrow> ys)"

definition service_key :: "sdwan_service \<Rightarrow> service_index_key" where
  "service_key s = (sv_l4_proto s, sort (or_empty (sv_ranges s)), sort (or_empty (sv_codes s)))"

definition mk_services_index :: "sdwan_service list \<Rightarrow> services_index" where
  "mk_services_index ss =
     (let ds = distinct_by sv_id ss in
      \<lparr>si_services = ds, si_by_name = group_by (\<lambda>s. normalize_name (sv_name s)) ds,
       si_by_signature = group_by service_key ds\<rparr>)"

definition find_services_by_name :: "services_index \<Rightarrow> string \<Rightarrow> sdwan_service list" where
  "find_services_by_name ix n = dict_get (si_by_name ix) (normalize_name n) []"

definition find_services_by_signature ::
  "services_index \<Rightarrow> sdwan_l4_proto \<Rightarrow> (int \<times> int) list \<Rightarrow> string list \<Rightarrow> sdwan_service list" where
  "find_services_by_signature ix p ranges codes =
     dict_get (si_by_signature ix) (p, sort ranges, sort codes) []"

definition find_icmp_services_by_codes :: "services_index \<Rightarrow> string list \<Rightarrow> sdwan_service list" where
  "find_icmp_services_by_codes ix codes =
     filter (\<lambda>s. sv_l4_proto s = L4_ICMP \<and> sort (or_empty (sv_codes s)) = sort codes) (si_services ix)"

definition find_builtin_any_services :: "services_index \<Rightarrow> sdwan_service list" where
  "find_builtin_any_services ix =
     distinct_by sv_id (find_services_by_name ix ''any'' @ find_services_by_name ix ''all'')"


section \<open>Candidates\<close>

record candidate_draft =
  dr_sdwan_entity_id :: int
  dr_score :: int
  dr_strategy :: match_strategy

definition keep_best :: "(int \<times> candidate_draft) list \<Rightarrow> candidate_draft \<Rightarrow> (int \<times> candidate_draft) list" where
  "keep_best best c =
     (case map_of best (dr_sdwan_entity_id c) of
        None \<Rightarrow> AList.update (dr_sdwan_entity_id c) c best
      | Some current \<Rightarrow>
          if dr_score c > dr_score current then AList.update (dr_sdwan_entity_id c) c best else best)"

definition finalize :: "candidate_draft list \<Rightarrow> candidate_payload list" where
  "finalize cs =
     (let best = foldl keep_best [] cs;
          sorted_candidates = sort_key (\<lambda>c. (- dr_score c, dr_sdwan_entity_id c)) (map snd best)
      in map (\<lambda>(i, c). \<lparr>mp_rank = i, mp_score = dr_score c, mp_strategy = dr_strategy c,
                mp_sdwan_entity_id = dr_sdwan_entity_id c\<rparr>) (enumerate 1 sorted_candidates))"

definition drafts_of :: "int \<Rightarrow> match_strategy \<Rightarrow> int list \<Rightarrow> candidate_draft list" where
  "drafts_of score st ids =
     map (\<lambda>i. \<lparr>dr_sdwan_entity_id = i, dr_score = score, dr_strategy = st\<rparr>) ids"


section \<open>Matchers\<close>

definition match_zone :: "zones_index \<Rightarrow> can_zone \<Rightarrow> candidate_payload list" where
  "match_zone ix z = finalize (drafts_of 90 NORMALIZED_NAME (map zn_id (find_zones_by_name ix (cz_name z))))"

text \<open>\<open>if text:\<close> for an optional text.\<close>

definition given :: "string option \<Rightarrow> string option" where
  "given s = (case s of None \<Rightarrow> None | Some t \<Rightarrow> if t = [] then None else Some t)"

definition addr_drafts :: "sdwan_addr_object list \<Rightarrow> candidate_draft list" where
  "addr_drafts os = drafts_of 100 EXACT_VALUE (map ao_id os)"

definition match_any_addr :: "addr_index \<Rightarrow> candidate_payload list" where
  "match_any_addr ix = finalize (drafts_of 100 BUILTIN_ANY (map ao_id (find_builtin_any_addr_objects ix)))"

definition match_host :: "addr_index \<Rightarrow> can_addr \<Rightarrow> candidate_payload list" where
  "match_host ix c =
     (case given (ca_cidr c) of
        None \<Rightarrow> finalize []
      | Some t \<Rightarrow> (case parse_ipv4 (hd (split_on CHR ''/'' t)) of
          None \<Rightarrow> []
        | Some h \<Rightarrow> finalize (addr_drafts (find_addr_by_host ix h))))"

definition match_subnet :: "addr_index \<Rightarrow> can_addr \<Rightarrow> candidate_payload list" where
  "match_subnet ix c =
     (case given (ca_cidr c) of
        None \<Rightarrow> finalize []
      | Some t \<Rightarrow> (case parse_network False t of
          None \<Rightarrow> []
        | Some n \<Rightarrow> finalize (addr_drafts (find_addr_by_prefix ix n))))"

definition match_range :: "addr_index \<Rightarrow> can_addr \<Rightarrow> candidate_payload list" where
  "match_range ix c =
     (case (given (ca_range_start c), given (ca_range_end c)) of
        (Some s, Some e) \<Rightarrow>
          (case (parse_ipv4 s, parse_ipv4 e) of
             (Some a, Some b) \<Rightarrow> finalize (addr_drafts (find_addr_by_range ix a b))
           | _ \<Rightarrow> [])
      | _ \<Rightarrow> finalize [])"

definition match_fqdn :: "addr_index \<Rightarrow> can_addr \<Rightarrow> candidate_payload list" where
  "match_fqdn ix c =
     (case given (ca_fqdn c) of
        None \<Rightarrow> finalize []
      | Some d \<Rightarrow> finalize (addr_drafts (find_addr_by_fqdn ix d)))"

definition match_addr :: "addr_index \<Rightarrow> can_addr \<Rightarrow> candidate_payload list" where
  "match_addr ix c =
     (case ca_kind c of
        CK_ANY_ADDR \<Rightarrow> match_any_addr ix
      | CK_HOST \<Rightarrow> match_host ix c
      | CK_SUBNET \<Rightarrow> match_subnet ix c
      | CK_RANGE \<Rightarrow> match_range ix c
      | CK_FQDN \<Rightarrow> match_fqdn ix c
      | CK_UNRESOLVED_ADDR \<Rightarrow> []
      | CK_ADDR_GROUP \<Rightarrow> [])"

definition ICMP_SD_WAN_CODE_BY_TYPE_AND_CODE :: "((int \<times> int) \<times> string) list" where
  "ICMP_SD_WAN_CODE_BY_TYPE_AND_CODE =
     [((0, 0), ''echo_reply''), ((3, 0), ''network_unreachable''), ((3, 1), ''host_unreachable''),
      ((3, 2), ''protocol_unreachable''), ((3, 3), ''port_unreachable''),
      ((3, 4), ''fragmentation_needed''), ((3, 5), ''source_route_failed''),
      ((3, 6), ''network_unknown''), ((3, 7), ''host_unknown''), ((3, 8), ''source_host_isolated''),
      ((3, 9), ''network_prohibited''), ((3, 10), ''host_prohibited''),
      ((3, 11), ''tos_network_unreachable''), ((3, 12), ''tos_host_unreachable''),
      ((3, 13), ''communication_prohibited''), ((3, 14), ''host_precedence_violation''),
      ((3, 15), ''precedence_cutoff''), ((5, 0), ''network_redirect''), ((5, 1), ''host_redirect''),
      ((5, 2), ''tos_network_redirect''), ((5, 3), ''tos_host_redirect''), ((8, 0), ''echo_request''),
      ((9, 0), ''router_advertisement''), ((9, 16), ''does_not_route_common_traffic''),
      ((10, 0), ''router_solicitation''), ((11, 0), ''ttl_zero_during_transit''),
      ((11, 1), ''ttl_zero_during_reassembly''), ((12, 0), ''ip_header_bad''),
      ((12, 1), ''required_option_missing''), ((12, 2), ''bad_length''),
      ((13, 0), ''timestamp_request''), ((14, 0), ''timestamp_reply'')]"

definition ICMP_SD_WAN_CODES_BY_TYPE :: "(int \<times> string list) list" where
  "ICMP_SD_WAN_CODES_BY_TYPE =
     foldl (\<lambda>d ((t, c), name). group_append t name d) [] ICMP_SD_WAN_CODE_BY_TYPE_AND_CODE"

definition canonical_icmp_codes :: "can_service \<Rightarrow> string list" where
  "canonical_icmp_codes s =
     (case cs_icmp_type s of
        None \<Rightarrow> []
      | Some t \<Rightarrow>
          (case cs_icmp_code s of
             None \<Rightarrow> dict_get ICMP_SD_WAN_CODES_BY_TYPE t []
           | Some c \<Rightarrow>
               (case map_of ICMP_SD_WAN_CODE_BY_TYPE_AND_CODE (t, c) of None \<Rightarrow> [] | Some n \<Rightarrow> [n])))"

definition service_drafts :: "sdwan_service list \<Rightarrow> candidate_draft list" where
  "service_drafts ss = drafts_of 100 SERVICE_SIGNATURE (map sv_id ss)"

definition match_any_service :: "services_index \<Rightarrow> candidate_payload list" where
  "match_any_service ix = finalize (drafts_of 100 BUILTIN_ANY (map sv_id (find_builtin_any_services ix)))"

definition match_l4_service :: "services_index \<Rightarrow> can_service \<Rightarrow> sdwan_l4_proto \<Rightarrow> candidate_payload list" where
  "match_l4_service ix s p =
     (case (cs_port_from s, cs_port_to s) of
        (Some a, Some b) \<Rightarrow> finalize (service_drafts (find_services_by_signature ix p [(a, b)] []))
      | _ \<Rightarrow> finalize [])"

definition match_icmp_service :: "services_index \<Rightarrow> can_service \<Rightarrow> candidate_payload list" where
  "match_icmp_service ix s =
     (let codes = canonical_icmp_codes s in
      if codes = [] then finalize []
      else finalize (service_drafts (find_icmp_services_by_codes ix codes)))"

definition match_service :: "services_index \<Rightarrow> can_service \<Rightarrow> candidate_payload list" where
  "match_service ix s =
     (case cs_kind s of
        SK_ANY_SERVICE \<Rightarrow> match_any_service ix
      | SK_TCP \<Rightarrow> match_l4_service ix s L4_TCP
      | SK_UDP \<Rightarrow> match_l4_service ix s L4_UDP
      | SK_ICMP \<Rightarrow> match_icmp_service ix s
      | SK_IP_PROTO \<Rightarrow> []
      | SK_SERVICE_GROUP \<Rightarrow> []
      | SK_UNRESOLVED_SERVICE \<Rightarrow> [])"


section \<open>Lookups are exact\<close>

lemma find_zones_exact:
  "find_zones_by_name (mk_zones_index zs) n =
     filter (\<lambda>z. normalize_name (zn_name z) = normalize_name n) (distinct_by zn_id zs)"
  by (simp add: find_zones_by_name_def mk_zones_index_def Let_def group_by_get)

lemma find_services_exact:
  "find_services_by_signature (mk_services_index ss) p rs cs =
     filter (\<lambda>s. service_key s = (p, sort rs, sort cs)) (distinct_by sv_id ss)"
  by (simp add: find_services_by_signature_def mk_services_index_def Let_def group_by_get)

lemma find_services_name_exact:
  "find_services_by_name (mk_services_index ss) n =
     filter (\<lambda>s. normalize_name (sv_name s) = normalize_name n) (distinct_by sv_id ss)"
  by (simp add: find_services_by_name_def mk_services_index_def Let_def group_by_get)

text \<open>The keys under which the index files an address object.\<close>

definition prefix_of_object :: "sdwan_addr_object \<Rightarrow> ipv4_network option" where
  "prefix_of_object a =
     (if ao_type a = AT_PREFIX then ao_prefix a else if ao_type a = AT_NETWORK then ao_network a else None)"

definition host_of_object :: "sdwan_addr_object \<Rightarrow> ipv4 option" where
  "host_of_object a = (if ao_type a = AT_HOST then ao_host a else None)"

definition fqdn_of_object :: "sdwan_addr_object \<Rightarrow> string option" where
  "fqdn_of_object a = (if ao_type a = AT_FQDN then map_option normalize_fqdn (ao_fqdn a) else None)"

definition range_of_object :: "sdwan_addr_object \<Rightarrow> (ipv4 \<times> ipv4) option" where
  "range_of_object a =
     (if ao_type a = AT_IP_RANGE \<and> ao_ip_range_from a \<noteq> None \<and> ao_ip_range_to a \<noteq> None
      then Some (the (ao_ip_range_from a), the (ao_ip_range_to a)) else None)"

definition range_text :: "ipv4 \<times> ipv4 \<Rightarrow> string \<times> string" where
  "range_text r = (ipv4_text (fst r), ipv4_text (snd r))"

definition files :: "('a \<Rightarrow> 'k option) \<Rightarrow> ('k \<times> 'a list) list \<Rightarrow> 'a list \<Rightarrow> bool" where
  "files key d os \<longleftrightarrow> (\<forall>k. dict_get d k [] = filter (\<lambda>a. key a = Some k) os)"

definition file_under :: "('a \<Rightarrow> 'k option) \<Rightarrow> 'a \<Rightarrow> ('k \<times> 'a list) list \<Rightarrow> ('k \<times> 'a list) list" where
  "file_under key a d = (case key a of None \<Rightarrow> d | Some k \<Rightarrow> group_append k a d)"

lemma files_append: "files key d os \<Longrightarrow> files key (file_under key a d) (os @ [a])"
  by (auto simp: files_def file_under_def dict_simps split: option.split)

lemma files_get: "files key d os \<Longrightarrow> dict_get d k [] = filter (\<lambda>a. key a = Some k) os"
  by (simp add: files_def)

definition addr_index_files :: "addr_index \<Rightarrow> sdwan_addr_object list \<Rightarrow> bool" where
  "addr_index_files ix os \<longleftrightarrow>
     files (\<lambda>a. Some (normalize_name (ao_name a))) (ai_by_name ix) os \<and>
     files (\<lambda>a. map_option ipv4_text (host_of_object a)) (ai_by_host ix) os \<and>
     files (\<lambda>a. map_option network_text (prefix_of_object a)) (ai_by_prefix ix) os \<and>
     files fqdn_of_object (ai_by_fqdn ix) os \<and>
     files (\<lambda>a. map_option range_text (range_of_object a)) (ai_by_range ix) os"

lemmas object_key_defs = prefix_of_object_def host_of_object_def fqdn_of_object_def range_of_object_def
  range_text_def

lemma index_addr_fields:
  assumes "index_addr a ix = Inr ix'"
  shows "ai_by_name ix' = file_under (\<lambda>a. Some (normalize_name (ao_name a))) a (ai_by_name ix)"
    "ai_by_host ix' = file_under (\<lambda>a. map_option ipv4_text (host_of_object a)) a (ai_by_host ix)"
    "ai_by_prefix ix' = file_under (\<lambda>a. map_option network_text (prefix_of_object a)) a (ai_by_prefix ix)"
    "ai_by_fqdn ix' = file_under fqdn_of_object a (ai_by_fqdn ix)"
    "ai_by_range ix' = file_under (\<lambda>a. map_option range_text (range_of_object a)) a (ai_by_range ix)"
  using assms
  by (cases "ao_type a"; auto simp: index_addr_def Let_def object_key_defs file_under_def split: if_splits)+

lemma index_addr_files: "addr_index_files ix os \<Longrightarrow> index_addr a ix = Inr ix' \<Longrightarrow> addr_index_files ix' (os @ [a])"
  unfolding addr_index_files_def using index_addr_fields [of a ix ix'] by (simp add: files_append)

lemma mk_addr_index_files:
  assumes "mk_addr_index objs = Inr ix"
  shows "addr_index_files ix (distinct_by ao_id objs)"
proof -
  have "fold_r index_addr (distinct_by ao_id objs)
      \<lparr>ai_objects = distinct_by ao_id objs, ai_by_name = [], ai_by_host = [], ai_by_prefix = [],
       ai_by_fqdn = [], ai_by_range = []\<rparr> = Inr ix"
    using assms by (simp add: mk_addr_index_def Let_def)
  then show ?thesis
    by (rule fold_r_invariant [where P = "\<lambda>os ix. addr_index_files ix os"])
      (simp add: addr_index_files_def files_def, rule index_addr_files)
qed

lemma mk_addr_index_total:
  assumes "\<forall>a \<in> set objs. addr_object_ok a"
  shows "\<exists>ix. mk_addr_index objs = Inr ix"
proof -
  have step: "\<exists>ix'. index_addr a ix = Inr ix'" if "addr_object_ok a" for a ix
    using addr_object_ok_fields [OF that] by (cases "ao_type a") (auto simp: index_addr_def Let_def)
  have "\<forall>a \<in> set os. addr_object_ok a \<Longrightarrow> \<exists>ix'. fold_r index_addr os ix = Inr ix'" for os ix
  proof (induction os arbitrary: ix)
    case (Cons a os)
    with step [of a ix] show ?case by (auto simp: bind_r_eq_Inr)
  qed simp
  moreover have "\<forall>a \<in> set (distinct_by ao_id objs). addr_object_ok a"
    using assms distinct_by_sub [of ao_id objs] by blast
  ultimately show ?thesis by (simp add: mk_addr_index_def Let_def)
qed

lemma network_text_eq: "network_text m = network_text n \<longleftrightarrow> m = n"
proof
  assume "network_text m = network_text n"
  from network_text_inj [OF this] show "m = n" by (intro ipv4_network.equality) simp_all
qed simp

lemma range_text_eq: "range_text r = range_text t \<longleftrightarrow> r = t"
  by (auto simp: range_text_def prod_eq_iff)

lemma files_find:
  assumes "files (\<lambda>a. map_option f (key a)) d os" "\<And>x y. f x = f y \<longleftrightarrow> x = y"
  shows "dict_get d (f k) [] = filter (\<lambda>a. key a = Some k) os"
proof -
  have "map_option f (key a) = Some (f k) \<longleftrightarrow> key a = Some k" for a
    using assms(2) by (cases "key a") simp_all
  then show ?thesis unfolding files_get [OF assms(1)] by simp
qed

lemma find_addr_exact:
  assumes "mk_addr_index objs = Inr ix"
  shows "find_addr_by_host ix h = filter (\<lambda>a. host_of_object a = Some h) (distinct_by ao_id objs)"
    "find_addr_by_prefix ix n = filter (\<lambda>a. prefix_of_object a = Some n) (distinct_by ao_id objs)"
    "find_addr_by_fqdn ix d = filter (\<lambda>a. fqdn_of_object a = Some (normalize_fqdn d)) (distinct_by ao_id objs)"
    "find_addr_by_range ix s e = filter (\<lambda>a. range_of_object a = Some (s, e)) (distinct_by ao_id objs)"
    "find_addr_by_name ix m = filter (\<lambda>a. normalize_name (ao_name a) = normalize_name m) (distinct_by ao_id objs)"
proof -
  note F = mk_addr_index_files [OF assms, unfolded addr_index_files_def, THEN conjunct1]
    mk_addr_index_files [OF assms, unfolded addr_index_files_def, THEN conjunct2, THEN conjunct1]
    mk_addr_index_files [OF assms, unfolded addr_index_files_def, THEN conjunct2, THEN conjunct2, THEN conjunct1]
    mk_addr_index_files [OF assms, unfolded addr_index_files_def, THEN conjunct2, THEN conjunct2, THEN conjunct2,
      THEN conjunct1]
    mk_addr_index_files [OF assms, unfolded addr_index_files_def, THEN conjunct2, THEN conjunct2, THEN conjunct2,
      THEN conjunct2]
  show "find_addr_by_host ix h = filter (\<lambda>a. host_of_object a = Some h) (distinct_by ao_id objs)"
    unfolding find_addr_by_host_def by (rule files_find [OF F(2) ipv4_text_inj])
  show "find_addr_by_prefix ix n = filter (\<lambda>a. prefix_of_object a = Some n) (distinct_by ao_id objs)"
    unfolding find_addr_by_prefix_def by (rule files_find [OF F(3) network_text_eq])
  show "find_addr_by_range ix s e = filter (\<lambda>a. range_of_object a = Some (s, e)) (distinct_by ao_id objs)"
    using files_find [OF F(5) range_text_eq, of "(s, e)"] by (simp only: find_addr_by_range_def range_text_def fst_conv snd_conv)
  show "find_addr_by_fqdn ix d = filter (\<lambda>a. fqdn_of_object a = Some (normalize_fqdn d)) (distinct_by ao_id objs)"
    unfolding find_addr_by_fqdn_def by (rule files_get [OF F(4)])
  show "find_addr_by_name ix m = filter (\<lambda>a. normalize_name (ao_name a) = normalize_name m) (distinct_by ao_id objs)"
    unfolding find_addr_by_name_def by (subst files_get [OF F(1)]) simp
qed


section \<open>Ranking\<close>

definition best_ok :: "(int \<times> candidate_draft) list \<Rightarrow> candidate_draft list \<Rightarrow> bool" where
  "best_ok best cs \<longleftrightarrow>
     distinct (map fst best) \<and> fst ` set best = dr_sdwan_entity_id ` set cs \<and>
     (\<forall>(k, c) \<in> set best. c \<in> set cs \<and> dr_sdwan_entity_id c = k \<and>
        (\<forall>d \<in> set cs. dr_sdwan_entity_id d = k \<longrightarrow> dr_score d \<le> dr_score c))"

lemma update_entries:
  assumes "distinct (map fst d)"
  shows "(k', v') \<in> set (AList.update k v d) \<longleftrightarrow> (if k' = k then v' = v else (k', v') \<in> set d)"
proof -
  have "distinct (map fst (AList.update k v d))" using assms by (rule distinct_update)
  then have "(k', v') \<in> set (AList.update k v d) \<longleftrightarrow> map_of (AList.update k v d) k' = Some v'" by simp
  also have "\<dots> \<longleftrightarrow> (if k' = k then v' = v else map_of d k' = Some v')" by (auto simp: update_conv)
  finally show ?thesis using assms by simp
qed

lemma update_fst: "fst ` set (AList.update k v d) = insert k (fst ` set d)"
  by (induction d) auto

lemma best_okI:
  assumes "distinct (map fst best)" "fst ` set best = dr_sdwan_entity_id ` set cs"
    and "\<And>k c. (k, c) \<in> set best \<Longrightarrow> c \<in> set cs \<and> dr_sdwan_entity_id c = k"
    and "\<And>k c d. (k, c) \<in> set best \<Longrightarrow> d \<in> set cs \<Longrightarrow> dr_sdwan_entity_id d = k \<Longrightarrow> dr_score d \<le> dr_score c"
  shows "best_ok best cs"
  using assms by (auto simp: best_ok_def)

lemma best_okD:
  assumes "best_ok best cs"
  shows "distinct (map fst best)" "fst ` set best = dr_sdwan_entity_id ` set cs"
    and "(k, c) \<in> set best \<Longrightarrow> c \<in> set cs \<and> dr_sdwan_entity_id c = k"
    and "(k, c) \<in> set best \<Longrightarrow> d \<in> set cs \<Longrightarrow> dr_sdwan_entity_id d = k \<Longrightarrow> dr_score d \<le> dr_score c"
  using assms by (auto simp: best_ok_def)

lemma keep_best_ok:
  assumes "best_ok best cs"
  shows "best_ok (keep_best best c) (cs @ [c])"
proof (cases "map_of best (dr_sdwan_entity_id c)")
  let ?k = "dr_sdwan_entity_id c"
  note D = best_okD [OF assms]
  case None
  then have kb: "keep_best best c = AList.update ?k c best" by (simp add: keep_best_def)
  have new: "dr_sdwan_entity_id d \<noteq> ?k" if "d \<in> set cs" for d
  proof
    assume "dr_sdwan_entity_id d = ?k"
    with that have "?k \<in> fst ` set best" unfolding D(2) by (metis imageI)
    with None show False by (simp add: map_of_eq_None_iff)
  qed
  show ?thesis unfolding kb
  proof (rule best_okI)
    show "distinct (map fst (AList.update ?k c best))" using D(1) by (rule distinct_update)
    show "fst ` set (AList.update ?k c best) = dr_sdwan_entity_id ` set (cs @ [c])"
      using D(2) by (simp add: update_fst)
    show "e \<in> set (cs @ [c]) \<and> dr_sdwan_entity_id e = k"
      if "(k, e) \<in> set (AList.update ?k c best)" for k e
      using that D(3) [of k e] by (auto simp: update_entries [OF D(1)] split: if_splits)
    show "dr_score d \<le> dr_score e" if "(k, e) \<in> set (AList.update ?k c best)" "d \<in> set (cs @ [c])"
      "dr_sdwan_entity_id d = k" for k e d
      using that D(4) [of k e d] new by (auto simp: update_entries [OF D(1)] split: if_splits)
  qed
next
  let ?k = "dr_sdwan_entity_id c"
  note D = best_okD [OF assms]
  case (Some cur)
  then have cur: "(?k, cur) \<in> set best" by (rule map_of_SomeD)
  have only: "e = cur" if "(?k, e) \<in> set best" for e
    using that cur D(1) by (metis map_of_is_SomeI option.inject)
  have mem: "?k \<in> dr_sdwan_entity_id ` set cs" using D(3) [OF cur] by (metis imageI)
  show ?thesis
  proof (cases "dr_score c > dr_score cur")
    case True
    then have kb: "keep_best best c = AList.update ?k c best" using Some by (simp add: keep_best_def)
    show ?thesis unfolding kb
    proof (rule best_okI)
      show "distinct (map fst (AList.update ?k c best))" using D(1) by (rule distinct_update)
      show "fst ` set (AList.update ?k c best) = dr_sdwan_entity_id ` set (cs @ [c])"
        using D(2) by (simp add: update_fst)
      show "e \<in> set (cs @ [c]) \<and> dr_sdwan_entity_id e = k"
        if "(k, e) \<in> set (AList.update ?k c best)" for k e
        using that D(3) [of k e] by (cases "k = ?k") (simp_all add: update_entries [OF D(1)])
      show "dr_score d \<le> dr_score e" if "(k, e) \<in> set (AList.update ?k c best)" "d \<in> set (cs @ [c])"
        "dr_sdwan_entity_id d = k" for k e d
      proof (cases "k = ?k")
        case True
        with that have "e = c" by (simp add: update_entries [OF D(1)])
        moreover have "dr_score d \<le> dr_score cur" if "d \<in> set cs"
          using D(4) [OF cur that] \<open>dr_sdwan_entity_id d = k\<close> True by simp
        ultimately show ?thesis using that(2) \<open>dr_score cur < dr_score c\<close> by fastforce
      next
        case False
        with that show ?thesis using D(4) [of k e d] by (auto simp: update_entries [OF D(1)])
      qed
    qed
  next
    case False
    then have kb: "keep_best best c = best" using Some by (simp add: keep_best_def)
    show ?thesis unfolding kb
    proof (rule best_okI)
      show "distinct (map fst best)" by (rule D(1))
      show "fst ` set best = dr_sdwan_entity_id ` set (cs @ [c])" using D(2) mem by auto
      show "e \<in> set (cs @ [c]) \<and> dr_sdwan_entity_id e = k" if "(k, e) \<in> set best" for k e
        using D(3) [OF that] by simp
      show "dr_score d \<le> dr_score e" if "(k, e) \<in> set best" "d \<in> set (cs @ [c])"
        "dr_sdwan_entity_id d = k" for k e d
        using that D(4) [OF that(1), of d] only [of e] False by auto
    qed
  qed
qed

lemma keep_best_all: "best_ok (foldl keep_best [] cs) cs"
proof (induction cs rule: rev_induct)
  case Nil
  then show ?case by (simp add: best_ok_def)
next
  case (snoc c cs)
  then show ?case by (simp add: keep_best_ok)
qed

lemma distinct_map_sort_by: "distinct (map f (sort_key g xs)) \<longleftrightarrow> distinct (map f xs)"
  by (simp add: distinct_map)

lemma best_ids:
  assumes "best_ok best cs"
  shows "distinct (map dr_sdwan_entity_id (map snd best))"
    "dr_sdwan_entity_id ` set (map snd best) = fst ` set best"
proof -
  have "dr_sdwan_entity_id (snd p) = fst p" if "p \<in> set best" for p
    using best_okD(3) [OF assms, of "fst p" "snd p"] that by simp
  then have eq: "map dr_sdwan_entity_id (map snd best) = map fst best" by simp
  show "distinct (map dr_sdwan_entity_id (map snd best))"
    unfolding eq by (rule best_okD(1) [OF assms])
  show "dr_sdwan_entity_id ` set (map snd best) = fst ` set best"
    using arg_cong [OF eq, of set] by (simp only: set_map)
qed

lemma in_enumerate: "(i, c) \<in> set (enumerate n xs) \<Longrightarrow> c \<in> set xs"
  by (simp add: enumerate_eq_zip set_zip_rightD)

lemma map_snd_enumerate_comp: "map (\<lambda>x. f (snd x)) (enumerate n xs) = map f xs"
  unfolding map_map [of f snd, unfolded comp_def, symmetric] by simp

lemma finalize_length: "length (finalize cs) = card (dr_sdwan_entity_id ` set cs)"
proof -
  let ?best = "foldl keep_best [] cs"
  note B = best_okD [OF keep_best_all [of cs]]
  have "length (finalize cs) = length (map fst ?best)" by (simp add: finalize_def Let_def)
  also have "\<dots> = card (fst ` set ?best)" using distinct_card [OF B(1)] by simp
  finally show ?thesis unfolding B(2) .
qed

text \<open>The order of the candidates: the best score first, then the smallest id.\<close>

definition ranked :: "candidate_payload list \<Rightarrow> bool" where
  "ranked cs \<longleftrightarrow>
     map mp_rank cs = [1..<Suc (length cs)] \<and>
     sorted_wrt (\<lambda>c d. mp_score c > mp_score d \<or> (mp_score c = mp_score d \<and>
       mp_sdwan_entity_id c < mp_sdwan_entity_id d)) cs"

lemma finalize_ids:
  "mp_sdwan_entity_id ` set (finalize cs) = dr_sdwan_entity_id ` set cs"
  "distinct (map mp_sdwan_entity_id (finalize cs))"
proof -
  let ?best = "foldl keep_best [] cs"
  let ?s = "sort_key (\<lambda>c. (- dr_score c, dr_sdwan_entity_id c)) (map snd ?best)"
  note B = best_okD [OF keep_best_all [of cs]]
  have ids: "map mp_sdwan_entity_id (finalize cs) = map dr_sdwan_entity_id ?s"
    by (simp add: finalize_def Let_def case_prod_beta' comp_def map_snd_enumerate_comp del: One_nat_def)
  have "distinct (map dr_sdwan_entity_id ?s)" "set (map dr_sdwan_entity_id ?s) = fst ` set ?best"
    using best_ids [OF keep_best_all [of cs]] B(1) by (simp_all only: distinct_map_sort_by set_map set_sort)
  then show "mp_sdwan_entity_id ` set (finalize cs) = dr_sdwan_entity_id ` set cs"
    "distinct (map mp_sdwan_entity_id (finalize cs))"
    unfolding ids [symmetric] B(2) by simp_all
qed

lemma finalize_best:
  assumes "c \<in> set (finalize cs)"
  shows "\<exists>d \<in> set cs. dr_sdwan_entity_id d = mp_sdwan_entity_id c \<and> dr_score d = mp_score c \<and>
      dr_strategy d = mp_strategy c"
    and "d \<in> set cs \<Longrightarrow> dr_sdwan_entity_id d = mp_sdwan_entity_id c \<Longrightarrow> dr_score d \<le> mp_score c"
proof -
  note B = best_okD [OF keep_best_all [of cs]]
  from assms obtain k e where e: "(k, e) \<in> set (foldl keep_best [] cs)" "mp_score c = dr_score e"
    "mp_strategy c = dr_strategy e" "mp_sdwan_entity_id c = dr_sdwan_entity_id e"
    by (auto simp: finalize_def Let_def simp del: One_nat_def dest!: in_enumerate)
  show "\<exists>d \<in> set cs. dr_sdwan_entity_id d = mp_sdwan_entity_id c \<and> dr_score d = mp_score c \<and>
      dr_strategy d = mp_strategy c"
    using B(3) [OF e(1)] e(2-) by (intro bexI [of _ e]) simp_all
  show "dr_score d \<le> mp_score c" if "d \<in> set cs" "dr_sdwan_entity_id d = mp_sdwan_entity_id c"
    using B(4) [OF e(1) that(1)] B(3) [OF e(1)] e that(2) by simp
qed

lemma finalize_ranked: "ranked (finalize cs)"
proof -
  let ?key = "\<lambda>c. (- dr_score c, dr_sdwan_entity_id c)"
  let ?best = "map snd (foldl keep_best [] cs)"
  let ?s = "sort_key ?key ?best"
  note B = best_okD [OF keep_best_all [of cs]]
  have dist: "distinct (map dr_sdwan_entity_id ?s)"
    using best_ids [OF keep_best_all [of cs]] by (simp only: distinct_map_sort_by)
  have key: "map ?key ?s ! i < map ?key ?s ! j" if "i < j" "j < length ?s" for i j
  proof -
    have "?key (?s ! i) \<le> ?key (?s ! j)"
      using sorted_nth_mono [OF sorted_sort_key [of ?key ?best], of i j] that by simp
    moreover have "dr_sdwan_entity_id (?s ! i) \<noteq> dr_sdwan_entity_id (?s ! j)"
      using nth_eq_iff_index_eq [OF dist, of i j] that by simp
    ultimately show ?thesis using that by (auto simp: less_prod_def')
  qed
  have nth: "mp_score (finalize cs ! i) = dr_score (?s ! i)"
    "mp_sdwan_entity_id (finalize cs ! i) = dr_sdwan_entity_id (?s ! i)" if "i < length ?s" for i
    using that by (simp_all add: finalize_def Let_def nth_enumerate_eq)
  have len: "length (finalize cs) = length ?s" by (simp add: finalize_def Let_def)
  have "map mp_rank (finalize cs) = map fst (enumerate 1 ?s)"
    by (simp add: finalize_def Let_def case_prod_beta' comp_def)
  then have "map mp_rank (finalize cs) = [1..<Suc (length (finalize cs))]"
    unfolding map_fst_enumerate len by simp
  moreover have "mp_score (finalize cs ! i) > mp_score (finalize cs ! j) \<or>
      (mp_score (finalize cs ! i) = mp_score (finalize cs ! j) \<and>
       mp_sdwan_entity_id (finalize cs ! i) < mp_sdwan_entity_id (finalize cs ! j))"
    if "i < j" "j < length (finalize cs)" for i j
    using key [of i j] that by (simp add: nth len less_prod_def')
  ultimately show ?thesis unfolding ranked_def sorted_wrt_iff_nth_less by blast
qed

lemma in_drafts: "dr_sdwan_entity_id ` set (drafts_of sc st ids) = set ids"
  by (simp add: drafts_of_def image_image)


section \<open>The candidates of a match\<close>

abbreviation candidate_ids :: "candidate_payload list \<Rightarrow> int list" where
  "candidate_ids cs \<equiv> map mp_sdwan_entity_id cs"

text \<open>Candidates of one score and strategy, as every matcher produces them, are ranked by id.\<close>

lemma finalize_drafts:
  "candidate_ids (finalize (drafts_of sc st ids)) = sorted_list_of_set (set ids)"
  "c \<in> set (finalize (drafts_of sc st ids)) \<Longrightarrow> mp_score c = sc \<and> mp_strategy c = st"
proof -
  let ?cs = "finalize (drafts_of sc st ids)"
  have one: "mp_score c = sc \<and> mp_strategy c = st" if "c \<in> set ?cs" for c
    using finalize_best(1) [OF that] by (auto simp: drafts_of_def)
  then show "c \<in> set ?cs \<Longrightarrow> mp_score c = sc \<and> mp_strategy c = st" by simp
  have "sorted_wrt (\<lambda>c d. mp_sdwan_entity_id c < mp_sdwan_entity_id d) ?cs"
  proof (rule sorted_wrt_mono_rel)
    show "sorted_wrt (\<lambda>c d. mp_score c > mp_score d \<or> (mp_score c = mp_score d \<and>
       mp_sdwan_entity_id c < mp_sdwan_entity_id d)) ?cs"
      using finalize_ranked [of "drafts_of sc st ids"] unfolding ranked_def by (rule conjunct2)
    show "mp_sdwan_entity_id c < mp_sdwan_entity_id d"
      if "c \<in> set ?cs" "d \<in> set ?cs" "mp_score c > mp_score d \<or> (mp_score c = mp_score d \<and>
        mp_sdwan_entity_id c < mp_sdwan_entity_id d)" for c d
      using that(3) one [OF that(1)] one [OF that(2)] by simp
  qed
  then have "sorted_wrt (<) (candidate_ids ?cs)" by (simp add: sorted_wrt_map)
  moreover have "set (candidate_ids ?cs) = set ids"
    using finalize_ids(1) [of "drafts_of sc st ids"] by (simp add: in_drafts)
  ultimately show "candidate_ids ?cs = sorted_list_of_set (set ids)"
    by (metis strict_sorted_equal finite_set set_sorted_list_of_set strict_sorted_list_of_set)
qed

lemma finalize_Nil [simp]: "finalize [] = []"
  by (simp add: finalize_def)

text \<open>What an address object stands for, on either side.\<close>

datatype addr_value = V_HOST ipv4 | V_NETWORK ipv4_network | V_RANGE ipv4 ipv4 | V_FQDN string

definition object_value :: "sdwan_addr_object \<Rightarrow> addr_value option" where
  "object_value a =
     (case ao_type a of
        AT_HOST \<Rightarrow> map_option V_HOST (ao_host a)
      | AT_PREFIX \<Rightarrow> map_option V_NETWORK (ao_prefix a)
      | AT_NETWORK \<Rightarrow> map_option V_NETWORK (ao_network a)
      | AT_FQDN \<Rightarrow> map_option (\<lambda>d. V_FQDN (normalize_fqdn d)) (ao_fqdn a)
      | AT_IP_RANGE \<Rightarrow>
          (case (ao_ip_range_from a, ao_ip_range_to a) of
             (Some x, Some y) \<Rightarrow> Some (V_RANGE x y) | _ \<Rightarrow> None)
      | AT_ADDR_GROUP \<Rightarrow> None)"

definition canonical_value :: "can_addr \<Rightarrow> addr_value option" where
  "canonical_value c =
     (case ca_kind c of
        CK_HOST \<Rightarrow> Option.bind (given (ca_cidr c)) (\<lambda>t. map_option V_HOST (parse_ipv4 (hd (split_on CHR ''/'' t))))
      | CK_SUBNET \<Rightarrow> Option.bind (given (ca_cidr c)) (\<lambda>t. map_option V_NETWORK (parse_network False t))
      | CK_RANGE \<Rightarrow>
          Option.bind (given (ca_range_start c)) (\<lambda>s. Option.bind (given (ca_range_end c)) (\<lambda>e.
            Option.bind (parse_ipv4 s) (\<lambda>a. map_option (V_RANGE a) (parse_ipv4 e))))
      | CK_FQDN \<Rightarrow> map_option (\<lambda>d. V_FQDN (normalize_fqdn d)) (given (ca_fqdn c))
      | _ \<Rightarrow> None)"

lemma object_value_keys:
  "object_value a = Some (V_HOST h) \<longleftrightarrow> host_of_object a = Some h"
  "object_value a = Some (V_NETWORK n) \<longleftrightarrow> prefix_of_object a = Some n"
  "object_value a = Some (V_RANGE x y) \<longleftrightarrow> range_of_object a = Some (x, y)"
  "object_value a = Some (V_FQDN d) \<longleftrightarrow> fqdn_of_object a = Some d"
  by (cases "ao_type a"; auto simp: object_value_def host_of_object_def prefix_of_object_def
      range_of_object_def fqdn_of_object_def split: option.splits)+

definition objects_with :: "addr_value option \<Rightarrow> sdwan_addr_object list \<Rightarrow> sdwan_addr_object list" where
  "objects_with v objs =
     (case v of None \<Rightarrow> [] | Some _ \<Rightarrow> filter (\<lambda>a. object_value a = v) (distinct_by ao_id objs))"

lemma addr_drafts_ids:
  "candidate_ids (finalize (addr_drafts os)) = sorted_list_of_set (ao_id ` set os)"
  by (simp add: addr_drafts_def finalize_drafts)

lemma match_addr_ids:
  assumes "mk_addr_index objs = Inr ix" "ca_kind c \<noteq> CK_ANY_ADDR"
  shows "candidate_ids (match_addr ix c) = sorted_list_of_set (ao_id ` set (objects_with (canonical_value c) objs))"
proof (cases "ca_kind c")
  case CK_HOST
  then show ?thesis
    by (simp add: match_addr_def match_host_def canonical_value_def objects_with_def addr_drafts_ids
        find_addr_exact [OF assms(1)] object_value_keys split: option.split)
next
  case CK_SUBNET
  then show ?thesis
    by (simp add: match_addr_def match_subnet_def canonical_value_def objects_with_def addr_drafts_ids
        find_addr_exact [OF assms(1)] object_value_keys split: option.split)
next
  case CK_RANGE
  then show ?thesis
    by (simp add: match_addr_def match_range_def canonical_value_def objects_with_def addr_drafts_ids
        find_addr_exact [OF assms(1)] object_value_keys split: option.split)
next
  case CK_FQDN
  then show ?thesis
    by (simp add: match_addr_def match_fqdn_def canonical_value_def objects_with_def addr_drafts_ids
        find_addr_exact [OF assms(1)] object_value_keys split: option.split)
qed (use assms(2) in \<open>simp_all add: match_addr_def canonical_value_def objects_with_def\<close>)

text \<open>Services: the protocol with its port range, or the set of ICMP codes.\<close>

definition service_matches :: "can_service \<Rightarrow> sdwan_service \<Rightarrow> bool" where
  "service_matches c s =
     (case cs_kind c of
        SK_TCP \<Rightarrow> (case (cs_port_from c, cs_port_to c) of
            (Some a, Some b) \<Rightarrow> service_key s = (L4_TCP, [(a, b)], []) | _ \<Rightarrow> False)
      | SK_UDP \<Rightarrow> (case (cs_port_from c, cs_port_to c) of
            (Some a, Some b) \<Rightarrow> service_key s = (L4_UDP, [(a, b)], []) | _ \<Rightarrow> False)
      | SK_ICMP \<Rightarrow> canonical_icmp_codes c \<noteq> [] \<and> sv_l4_proto s = L4_ICMP \<and>
          sort (or_empty (sv_codes s)) = sort (canonical_icmp_codes c)
      | _ \<Rightarrow> False)"

lemma service_drafts_ids:
  "candidate_ids (finalize (service_drafts ss)) = sorted_list_of_set (sv_id ` set ss)"
  by (simp add: service_drafts_def finalize_drafts)

lemma services_of_index: "si_services (mk_services_index ss) = distinct_by sv_id ss"
  by (simp add: mk_services_index_def Let_def)

lemma match_service_ids:
  assumes "cs_kind c \<noteq> SK_ANY_SERVICE"
  shows "candidate_ids (match_service (mk_services_index ss) c) =
    sorted_list_of_set (sv_id ` set (filter (service_matches c) (distinct_by sv_id ss)))"
proof (cases "cs_kind c")
  case SK_TCP
  then show ?thesis
    by (simp add: match_service_def match_l4_service_def service_matches_def service_drafts_ids
        find_services_exact split: option.split)
next
  case SK_UDP
  then show ?thesis
    by (simp add: match_service_def match_l4_service_def service_matches_def service_drafts_ids
        find_services_exact split: option.split)
next
  case SK_ICMP
  then show ?thesis
    by (simp add: match_service_def match_icmp_service_def Let_def service_matches_def service_drafts_ids
        find_icmp_services_by_codes_def services_of_index)
qed (use assms in \<open>simp_all add: match_service_def service_matches_def\<close>)

lemma match_zone_ids:
  "candidate_ids (match_zone (mk_zones_index zs) z) =
    sorted_list_of_set (zn_id ` set (filter (\<lambda>w. normalize_name (zn_name w) = normalize_name (cz_name z))
      (distinct_by zn_id zs)))"
  by (simp add: match_zone_def finalize_drafts find_zones_exact)

lemma match_any_ids:
  assumes "mk_addr_index objs = Inr ix" "ca_kind c = CK_ANY_ADDR"
  shows "set (candidate_ids (match_addr ix c)) =
    ao_id ` {a \<in> set (distinct_by ao_id objs). object_value a = Some (V_NETWORK whole_network) \<or>
      normalize_name (ao_name a) = ''any'' \<or> normalize_name (ao_name a) = ''all''}"
proof -
  have n: "normalize_name ''any'' = ''any''" "normalize_name ''all'' = ''all''" by code_simp+
  have "set (candidate_ids (match_addr ix c)) = ao_id ` set (find_builtin_any_addr_objects ix)"
    using assms(2) by (simp add: match_addr_def match_any_addr_def finalize_drafts)
  also have "\<dots> = ao_id ` set (find_addr_by_prefix ix whole_network @ find_addr_by_name ix ''any'' @
      find_addr_by_name ix ''all'')"
    by (simp only: find_builtin_any_addr_objects_def distinct_by_keys)
  finally show ?thesis by (auto simp: find_addr_exact [OF assms(1)] object_value_keys n)
qed

end
