(* ===== verification/Mapping_Results.thy ===== *)
theory Mapping_Results
  imports Mapping_Matchers
begin

text \<open>
  Object-level results of a mapping
  (\<open>src/src/app/modules/mapping/services/mapping_objects/mapping_objects_service.py\<close>): the
  candidates of every canonical zone, address object and service become one result each; groups have
  none.

  The \<open>i\<close>-th result takes its ids from the supply \<open>ids i\<close> and its time from \<open>clock i\<close>.
  A result is unresolved, matched or ambiguous according to the number of its candidates, every
  result satisfies \<open>result_ok\<close>, and results and canonical objects correspond one to one, in order.
\<close>

section \<open>Building results\<close>

definition build_result ::
  "(nat \<Rightarrow> uuid) \<Rightarrow> timestamp \<Rightarrow> uuid \<Rightarrow> mapping_entity_type \<Rightarrow> uuid \<Rightarrow> candidate_payload list \<Rightarrow> entity_result" where
  "build_result ids now scope_id et canonical_id candidates =
     (case candidates of
        [] \<Rightarrow> create_unresolved ids now scope_id et canonical_id
      | [c] \<Rightarrow> create_matched_auto ids now scope_id et canonical_id c
      | _ \<Rightarrow> create_ambiguous ids now scope_id et canonical_id candidates)"

definition addr_leaf :: "can_addr \<Rightarrow> bool" where
  "addr_leaf c \<longleftrightarrow> ca_kind c \<noteq> CK_ADDR_GROUP"

definition service_leaf :: "can_service \<Rightarrow> bool" where
  "service_leaf s \<longleftrightarrow> cs_kind s \<noteq> SK_SERVICE_GROUP"

text \<open>The objects that are matched, in the order of the three loops, with their candidates.\<close>

definition matched_objects ::
  "can_scope_entities \<Rightarrow> zones_index \<Rightarrow> addr_index \<Rightarrow> services_index \<Rightarrow>
   (mapping_entity_type \<times> uuid \<times> candidate_payload list) list" where
  "matched_objects e zi ai si =
     map (\<lambda>z. (ET_ZONE, cz_id z, match_zone zi z)) (ce_zones e) @
     map (\<lambda>a. (ET_ADDR, ca_id a, match_addr ai a)) (filter addr_leaf (ce_addr_objects e)) @
     map (\<lambda>s. (ET_SERVICE, cs_id s, match_service si s)) (filter service_leaf (ce_services e))"

definition build_results ::
  "(nat \<Rightarrow> nat \<Rightarrow> uuid) \<Rightarrow> (nat \<Rightarrow> timestamp) \<Rightarrow> uuid \<Rightarrow> can_scope_entities \<Rightarrow> sdwan_full_catalog \<Rightarrow>
   exc + entity_result list" where
  "build_results ids clock scope_id e cat =
     (let zi = mk_zones_index (fc_zones cat) in
      bind_r (mk_addr_index (fc_addr_objs cat)) (\<lambda>ai.
        (let si = mk_services_index (fc_services cat) in
         Inr (map (\<lambda>(i, et, canonical_id, candidates).
                build_result (ids i) (clock i) scope_id et canonical_id candidates)
              (enumerate 0 (matched_objects e zi ai si))))))"

record results_summary =
  rs_total_entities :: nat
  rs_matched_entities :: nat
  rs_ambiguous :: nat
  rs_unresolved :: nat
  rs_zones_total :: nat
  rs_zones_matched :: nat
  rs_addr_total :: nat
  rs_addr_matched :: nat
  rs_services_total :: nat
  rs_services_matched :: nat

definition count_result_status :: "entity_result list \<Rightarrow> mapping_result_status \<Rightarrow> nat" where
  "count_result_status rs st = length (filter (\<lambda>r. me_result_status r = st) rs)"

definition build_results_summary :: "entity_result list \<Rightarrow> results_summary" where
  "build_results_summary rs =
     (let zones = filter (\<lambda>r. me_entity_type r = ET_ZONE) rs;
          addr = filter (\<lambda>r. me_entity_type r = ET_ADDR) rs;
          services = filter (\<lambda>r. me_entity_type r = ET_SERVICE) rs
      in \<lparr>rs_total_entities = length rs, rs_matched_entities = count_result_status rs RS_MATCHED,
          rs_ambiguous = count_result_status rs RS_AMBIGUOUS, rs_unresolved = count_result_status rs RS_UNRESOLVED,
          rs_zones_total = length zones, rs_zones_matched = count_result_status zones RS_MATCHED,
          rs_addr_total = length addr, rs_addr_matched = count_result_status addr RS_MATCHED,
          rs_services_total = length services, rs_services_matched = count_result_status services RS_MATCHED\<rparr>)"


section \<open>One result\<close>

lemma build_result_cases:
  obtains (none) "cs = []" "build_result ids now sc et i cs = create_unresolved ids now sc et i"
  | (one) c where "cs = [c]" "build_result ids now sc et i cs = create_matched_auto ids now sc et i c"
  | (many) "2 \<le> length cs" "build_result ids now sc et i cs = create_ambiguous ids now sc et i cs"
  by (cases cs rule: list.exhaust, simp add: build_result_def, cases "tl cs")
    (auto simp: build_result_def)

lemma build_result_ok: "result_ok (build_result ids now sc et i cs)"
  by (cases rule: build_result_cases [of cs ids now sc et i])
    (simp_all add: created_results_ok created_ambiguous_ok)

lemma build_result_fields [simp]:
  "canonical_entity_id (build_result ids now sc et i cs) = Inr i"
  "me_id (build_result ids now sc et i cs) = ids 0"
  "me_entity_type (build_result ids now sc et i cs) = et"
  "me_mapping_scope_id (build_result ids now sc et i cs) = sc"
  by (cases rule: build_result_cases [of cs ids now sc et i]; simp)+

lemma build_result_status:
  "me_result_status (build_result ids now sc et i cs) =
     (if cs = [] then RS_UNRESOLVED else if length cs = 1 then RS_MATCHED else RS_AMBIGUOUS)"
  "me_selected_sdwan_entity_id (build_result ids now sc et i cs) =
     (if length cs = 1 then Some (mp_sdwan_entity_id (hd cs)) else None)"
  by (cases rule: build_result_cases [of cs ids now sc et i]; auto)+


section \<open>All results\<close>

lemma build_results_Inr:
  "build_results ids clock sc e cat = Inr rs \<longleftrightarrow>
     (\<exists>ai. mk_addr_index (fc_addr_objs cat) = Inr ai \<and>
       rs = map (\<lambda>(i, et, cid, cs). build_result (ids i) (clock i) sc et cid cs)
         (enumerate 0 (matched_objects e (mk_zones_index (fc_zones cat)) ai (mk_services_index (fc_services cat)))))"
  by (auto simp: build_results_def Let_def bind_r_eq_Inr)

text \<open>The objects of a scope that have a result.\<close>

definition scope_targets :: "can_scope_entities \<Rightarrow> (mapping_entity_type \<times> uuid) list" where
  "scope_targets e =
     map (\<lambda>z. (ET_ZONE, cz_id z)) (ce_zones e) @
     map (\<lambda>a. (ET_ADDR, ca_id a)) (filter addr_leaf (ce_addr_objects e)) @
     map (\<lambda>s. (ET_SERVICE, cs_id s)) (filter service_leaf (ce_services e))"

lemma matched_objects_targets:
  "map (\<lambda>(et, i, _). (et, i)) (matched_objects e zi ai si) = scope_targets e"
  by (simp add: matched_objects_def scope_targets_def)

lemma map_enumerate_snd: "map (\<lambda>(i, x). f x) (enumerate n xs) = map f xs"
  by (induction xs arbitrary: n) simp_all

lemma build_results_targets:
  assumes "build_results ids clock sc e cat = Inr rs"
  shows "map (\<lambda>r. (me_entity_type r, canonical_entity_id r)) rs = map (apsnd Inr) (scope_targets e)"
proof -
  from assms obtain ai where rs: "rs = map (\<lambda>(i, et, cid, cs). build_result (ids i) (clock i) sc et cid cs)
      (enumerate 0 (matched_objects e (mk_zones_index (fc_zones cat)) ai (mk_services_index (fc_services cat))))"
    by (auto simp: build_results_Inr)
  show ?thesis unfolding rs matched_objects_targets [symmetric, where zi = "mk_zones_index (fc_zones cat)"
        and ai = ai and si = "mk_services_index (fc_services cat)"]
    unfolding map_map
    by (subst map_enumerate_snd [symmetric, where n = 0]) (auto simp: case_prod_beta')
qed

lemma build_results_member:
  assumes "build_results ids clock sc e cat = Inr rs" "r \<in> set rs"
  obtains ai i et cid cs where "mk_addr_index (fc_addr_objs cat) = Inr ai"
    "(et, cid, cs) \<in> set (matched_objects e (mk_zones_index (fc_zones cat)) ai (mk_services_index (fc_services cat)))"
    "r = build_result (ids i) (clock i) sc et cid cs"
  using assms by (fastforce simp: build_results_Inr dest: in_enumerate)

lemma build_results_all_ok:
  assumes "build_results ids clock sc e cat = Inr rs" "r \<in> set rs"
  shows "result_ok r \<and> me_mapping_scope_id r = sc"
  using assms by (elim build_results_member) (auto simp: build_result_ok)

lemma build_results_ids:
  assumes "build_results ids clock sc e cat = Inr rs" "inj (\<lambda>i. ids i 0)"
  shows "distinct (map me_id rs)"
proof -
  from assms(1) obtain ms where rs: "rs = map (\<lambda>(i, et, cid, cs). build_result (ids i) (clock i) sc et cid cs)
      (enumerate 0 ms)"
    by (auto simp: build_results_Inr)
  have "map me_id rs = map (\<lambda>i. ids i 0) (map fst (enumerate 0 ms))"
    unfolding rs map_map by (intro map_cong) (auto simp: case_prod_beta')
  then show ?thesis using inj_on_subset [OF assms(2) subset_UNIV] by (simp add: distinct_map)
qed

lemma build_results_total:
  assumes "\<forall>a \<in> set (fc_addr_objs cat). addr_object_ok a"
  shows "\<exists>rs. build_results ids clock sc e cat = Inr rs"
  using mk_addr_index_total [OF assms] by (auto simp: build_results_Inr)

end
