(* ===== verification/Canonical_Groups.thy ===== *)
theory Canonical_Groups
  imports Mapping_Domain
begin

text \<open>
  The indexes of canonical address objects and services with their groups
  (\<open>src/src/app/modules/mapping/services/mapping_rules/canonical_addr_objs_index.py\<close> and
  \<open>canonical_services_index.py\<close>).  The two classes differ in the type of their objects and in
  the nouns of their messages only, so they are one group of definitions over a record
  \<open>group_ops\<close> of accessors, with \<open>addr_ops\<close> and \<open>service_ops\<close> for the two.

  \<open>leaves_of_members\<close>: the leaves of a group are its members without the groups, each once,
  errors included.  \<open>group_leaves_set\<close>: they are the objects that belong to the group directly
  or through nested groups.  \<open>collect_members_error_iff\<close>: an error is raised exactly when there
  is a chain of more than three groups, and a cycle is such a chain.
\<close>

section \<open>The index\<close>

record 'a group_ops =
  go_id :: "'a \<Rightarrow> uuid"
  go_parents :: "'a \<Rightarrow> uuid list"
  go_is_group :: "'a \<Rightarrow> bool"
  go_noun :: string
  go_group_noun :: string

definition addr_ops :: "can_addr group_ops" where
  "addr_ops = \<lparr>go_id = ca_id, go_parents = ca_parent_ids, go_is_group = (\<lambda>a. ca_kind a = CK_ADDR_GROUP),
     go_noun = ''address'', go_group_noun = ''an address group''\<rparr>"

definition service_ops :: "can_service group_ops" where
  "service_ops = \<lparr>go_id = cs_id, go_parents = cs_parent_ids,
     go_is_group = (\<lambda>s. cs_kind s = SK_SERVICE_GROUP), go_noun = ''service'',
     go_group_noun = ''a service group''\<rparr>"

record 'a group_index =
  gi_objects_by_id :: "(uuid \<times> 'a) list"
  gi_children :: "(uuid \<times> 'a list) list"

definition MAX_GROUP_DEPTH :: nat where
  "MAX_GROUP_DEPTH = 3"

definition index_object :: "'a group_ops \<Rightarrow> 'a \<Rightarrow> (uuid \<times> 'a) list \<Rightarrow> exc + (uuid \<times> 'a) list" where
  "index_object ops x d =
     (if go_id ops x \<in> fst ` set d then
        Inl (MappingDomainValidationError
          (''Duplicate canonical '' @ go_noun ops @ '' object id: '' @ uuid_text (go_id ops x)))
      else Inr (AList.update (go_id ops x) x d))"

definition index_parent ::
  "'a group_ops \<Rightarrow> (uuid \<times> 'a) list \<Rightarrow> 'a \<times> uuid \<Rightarrow> (uuid \<times> 'a list) list \<Rightarrow> exc + (uuid \<times> 'a list) list" where
  "index_parent ops objs xp d =
     (case xp of (x, p) \<Rightarrow>
       (case map_of objs p of
          None \<Rightarrow> Inl (MappingDomainValidationError
            (''Canonical '' @ go_noun ops @ '' object '' @ uuid_text (go_id ops x) @
             '' references missing parent '' @ uuid_text p))
        | Some parent \<Rightarrow>
            if \<not> go_is_group ops parent then Inl (MappingDomainValidationError
              (''Canonical '' @ go_noun ops @ '' object '' @ uuid_text (go_id ops x) @
               '' references non-group parent '' @ uuid_text p))
            else Inr (group_append p x d)))"

definition mk_group_index :: "'a group_ops \<Rightarrow> 'a list \<Rightarrow> exc + 'a group_index" where
  "mk_group_index ops xs =
     bind_r (fold_r (index_object ops) xs []) (\<lambda>objs.
     bind_r (fold_r (index_parent ops objs) (concat (map (\<lambda>x. map (Pair x) (go_parents ops x)) xs)) [])
       (\<lambda>ch. Inr \<lparr>gi_objects_by_id = objs, gi_children = ch\<rparr>))"

definition gi_get :: "'a group_ops \<Rightarrow> 'a group_index \<Rightarrow> uuid \<Rightarrow> exc + 'a" where
  "gi_get ops ix i =
     (case map_of (gi_objects_by_id ix) i of
        None \<Rightarrow> Inl (MappingNotFoundError
          (''Canonical '' @ go_noun ops @ '' object not found: '' @ uuid_text i))
      | Some x \<Rightarrow> Inr x)"

definition gi_is_group :: "'a group_ops \<Rightarrow> 'a group_index \<Rightarrow> uuid \<Rightarrow> exc + bool" where
  "gi_is_group ops ix i = bind_r (gi_get ops ix i) (\<lambda>x. Inr (go_is_group ops x))"

definition gi_children_get :: "'a group_index \<Rightarrow> uuid \<Rightarrow> 'a list" where
  "gi_children_get ix i = dict_get (gi_children ix) i []"

definition gi_children_of :: "'a group_ops \<Rightarrow> 'a group_index \<Rightarrow> uuid \<Rightarrow> exc + 'a list" where
  "gi_children_of ops ix i = bind_r (gi_get ops ix i) (\<lambda>_. Inr (gi_children_get ix i))"


section \<open>Walking a group\<close>

definition path_text :: "uuid list \<Rightarrow> string" where
  "path_text p = join '' -> '' (map uuid_text p)"

definition depth_error :: "'a group_ops \<Rightarrow> uuid list \<Rightarrow> exc" where
  "depth_error ops path = MappingDomainValidationError
     (''Canonical '' @ go_noun ops @ '' group nesting depth exceeded. Max depth is '' @
      nat_str MAX_GROUP_DEPTH @ ''. Path: '' @ path_text path)"

definition cycle_error :: "'a group_ops \<Rightarrow> uuid list \<Rightarrow> exc" where
  "cycle_error ops path = MappingDomainValidationError
     (''Cycle detected in canonical '' @ go_noun ops @ '' groups: '' @ path_text path)"

function collect_group_leaves ::
  "'a group_ops \<Rightarrow> 'a group_index \<Rightarrow> uuid \<Rightarrow> nat \<Rightarrow> uuid list \<Rightarrow> 'a list \<times> uuid set \<Rightarrow>
   exc + 'a list \<times> uuid set" where
  "collect_group_leaves ops ix g depth path st =
     (if depth > MAX_GROUP_DEPTH then Inl (depth_error ops path)
      else fold_r (\<lambda>child st.
        (if go_is_group ops child then
           if go_id ops child \<in> set path then Inl (cycle_error ops (path @ [go_id ops child]))
           else collect_group_leaves ops ix (go_id ops child) (depth + 1) (path @ [go_id ops child]) st
         else (case st of (leaves, seen) \<Rightarrow>
           if go_id ops child \<in> seen then Inr (leaves, seen)
           else Inr (leaves @ [child], insert (go_id ops child) seen))))
        (gi_children_get ix g) st)"
  by pat_completeness auto
termination
  by (relation "measure (\<lambda>(ops, ix, g, depth, path, st). 4 - depth)") (auto simp: MAX_GROUP_DEPTH_def)

declare collect_group_leaves.simps [simp del]

definition resolve_group_leaves :: "'a group_ops \<Rightarrow> 'a group_index \<Rightarrow> uuid \<Rightarrow> exc + 'a list" where
  "resolve_group_leaves ops ix i =
     bind_r (gi_get ops ix i) (\<lambda>group.
       if \<not> go_is_group ops group then Inl (MappingDomainValidationError
         (''Canonical '' @ go_noun ops @ '' object '' @ uuid_text i @ '' is not '' @ go_group_noun ops))
       else bind_r (collect_group_leaves ops ix i 1 [i] ([], {})) (\<lambda>(leaves, seen). Inr leaves))"

record 'a group_member =
  gm_obj :: 'a
  gm_parent_id :: "uuid option"
  gm_depth :: nat
  gm_path :: "uuid list"

definition member_is_group :: "'a group_ops \<Rightarrow> 'a group_member \<Rightarrow> bool" where
  "member_is_group ops m \<longleftrightarrow> go_is_group ops (gm_obj m)"

function collect_group_members ::
  "'a group_ops \<Rightarrow> 'a group_index \<Rightarrow> uuid \<Rightarrow> uuid option \<Rightarrow> nat \<Rightarrow> nat \<Rightarrow> uuid list \<Rightarrow> 'a group_member list \<Rightarrow>
   exc + 'a group_member list" where
  "collect_group_members ops ix g parent group_depth display_depth path res =
     (if group_depth > MAX_GROUP_DEPTH then Inl (depth_error ops path)
      else bind_r (gi_get ops ix g) (\<lambda>group.
        fold_r (\<lambda>child res.
          (if go_is_group ops child then
             if go_id ops child \<in> set path then Inl (cycle_error ops (path @ [go_id ops child]))
             else collect_group_members ops ix (go_id ops child) (Some g) (group_depth + 1)
               (display_depth + 1) (path @ [go_id ops child]) res
           else Inr (res @ [\<lparr>gm_obj = child, gm_parent_id = Some g, gm_depth = display_depth + 1,
             gm_path = path @ [go_id ops child]\<rparr>])))
          (gi_children_get ix g)
          (res @ [\<lparr>gm_obj = group, gm_parent_id = parent, gm_depth = display_depth, gm_path = path\<rparr>])))"
  by pat_completeness auto
termination
  by (relation "measure (\<lambda>(ops, ix, g, parent, depth, dd, path, res). 4 - depth)")
    (auto simp: MAX_GROUP_DEPTH_def)

declare collect_group_members.simps [simp del]

definition resolve_group_members :: "'a group_ops \<Rightarrow> 'a group_index \<Rightarrow> uuid \<Rightarrow> exc + 'a group_member list" where
  "resolve_group_members ops ix i =
     bind_r (gi_get ops ix i) (\<lambda>group.
       if \<not> go_is_group ops group then Inl (MappingDomainValidationError
         (''Canonical '' @ go_noun ops @ '' object '' @ uuid_text i @ '' is not '' @ go_group_noun ops))
       else collect_group_members ops ix i None 1 0 [i] [])"

text \<open>The service index.\<close>

definition mk_service_group_index :: "can_service list \<Rightarrow> exc + can_service group_index" where
  "mk_service_group_index ss = mk_group_index service_ops ss"

definition service_group_get :: "can_service group_index \<Rightarrow> uuid \<Rightarrow> exc + can_service" where
  "service_group_get ix i = gi_get service_ops ix i"

definition service_is_group :: "can_service group_index \<Rightarrow> uuid \<Rightarrow> exc + bool" where
  "service_is_group ix i = gi_is_group service_ops ix i"

definition service_children_of :: "can_service group_index \<Rightarrow> uuid \<Rightarrow> exc + can_service list" where
  "service_children_of ix i = gi_children_of service_ops ix i"

definition service_collect_leaves ::
  "can_service group_index \<Rightarrow> uuid \<Rightarrow> nat \<Rightarrow> uuid list \<Rightarrow> can_service list \<times> uuid set \<Rightarrow>
   exc + can_service list \<times> uuid set" where
  "service_collect_leaves ix g depth path st = collect_group_leaves service_ops ix g depth path st"

definition service_group_leaves :: "can_service group_index \<Rightarrow> uuid \<Rightarrow> exc + can_service list" where
  "service_group_leaves ix i = resolve_group_leaves service_ops ix i"

definition service_collect_members ::
  "can_service group_index \<Rightarrow> uuid \<Rightarrow> uuid option \<Rightarrow> nat \<Rightarrow> nat \<Rightarrow> uuid list \<Rightarrow> can_service group_member list \<Rightarrow>
   exc + can_service group_member list" where
  "service_collect_members ix g parent depth display path res =
     collect_group_members service_ops ix g parent depth display path res"

definition service_group_members :: "can_service group_index \<Rightarrow> uuid \<Rightarrow> exc + can_service group_member list" where
  "service_group_members ix i = resolve_group_members service_ops ix i"


section \<open>A valid index\<close>

definition index_ok :: "'a group_ops \<Rightarrow> 'a list \<Rightarrow> 'a group_index \<Rightarrow> bool" where
  "index_ok ops xs ix \<longleftrightarrow>
     distinct (map (go_id ops) xs) \<and>
     gi_objects_by_id ix = map (\<lambda>x. (go_id ops x, x)) xs \<and>
     (\<forall>g. gi_children_get ix g = concat (map (\<lambda>x. map (\<lambda>_. x) (filter (\<lambda>p. p = g) (go_parents ops x))) xs)) \<and>
     (\<forall>x p. x \<in> set xs \<longrightarrow> p \<in> set (go_parents ops x) \<longrightarrow>
        (\<exists>parent. map_of (gi_objects_by_id ix) p = Some parent \<and> go_is_group ops parent))"

lemma update_fresh: "k \<notin> fst ` set d \<Longrightarrow> AList.update k v d = d @ [(k, v)]"
  by (induction d) auto

lemma index_objects:
  assumes "fold_r (index_object ops) xs [] = Inr d"
  shows "distinct (map (go_id ops) xs) \<and> d = map (\<lambda>x. (go_id ops x, x)) xs"
  by (rule fold_r_invariant [OF assms, where P = "\<lambda>us d. distinct (map (go_id ops) us) \<and>
      d = map (\<lambda>x. (go_id ops x, x)) us"])
    (auto simp: index_object_def update_fresh image_image split: if_splits)

lemma index_parents:
  assumes "fold_r (index_parent ops objs) ps [] = Inr d"
  shows "(\<forall>g. dict_get d g [] = map fst (filter (\<lambda>(x, p). p = g) ps)) \<and>
    (\<forall>(x, p) \<in> set ps. \<exists>parent. map_of objs p = Some parent \<and> go_is_group ops parent)"
  by (rule fold_r_invariant [OF assms, where P = "\<lambda>us d. (\<forall>g. dict_get d g [] = map fst (filter (\<lambda>(x, p). p = g) us)) \<and>
      (\<forall>(x, p) \<in> set us. \<exists>parent. map_of objs p = Some parent \<and> go_is_group ops parent)"])
    (auto simp: index_parent_def dict_simps split: option.splits if_splits)

lemma filter_parent_pairs:
  "map fst (filter (\<lambda>(x, p). p = g) (concat (map (\<lambda>x. map (Pair x) (f x)) xs))) =
     concat (map (\<lambda>x. map (\<lambda>_. x) (filter (\<lambda>p. p = g) (f x))) xs)"
proof (induction xs)
  case (Cons x xs)
  have "map fst (filter (\<lambda>(x, p). p = g) (map (Pair x) ps)) = map (\<lambda>_. x) (filter (\<lambda>p. p = g) ps)" for ps
    by (induction ps) simp_all
  with Cons show ?case by simp
qed simp

lemma mk_group_index_ok:
  assumes "mk_group_index ops xs = Inr ix"
  shows "index_ok ops xs ix"
proof -
  let ?ps = "concat (map (\<lambda>x. map (Pair x) (go_parents ops x)) xs)"
  from assms obtain objs ch where o: "fold_r (index_object ops) xs [] = Inr objs"
    and c: "fold_r (index_parent ops objs) ?ps [] = Inr ch"
    and ix: "ix = \<lparr>gi_objects_by_id = objs, gi_children = ch\<rparr>"
    by (auto simp: mk_group_index_def bind_r_eq_Inr)
  note O = index_objects [OF o] and C = index_parents [OF c]
  have "gi_children_get ix g = concat (map (\<lambda>x. map (\<lambda>_. x) (filter (\<lambda>p. p = g) (go_parents ops x))) xs)" for g
    using C by (simp only: ix gi_children_get_def group_index.simps filter_parent_pairs)
  moreover have "\<exists>parent. map_of objs p = Some parent \<and> go_is_group ops parent"
    if "x \<in> set xs" "p \<in> set (go_parents ops x)" for x p
  proof -
    have "(x, p) \<in> set ?ps" using that by auto
    with C show ?thesis by blast
  qed
  ultimately show ?thesis unfolding index_ok_def using O ix by simp
qed

lemma index_children:
  assumes "index_ok ops xs ix"
  shows "c \<in> set (gi_children_get ix g) \<longleftrightarrow> c \<in> set xs \<and> g \<in> set (go_parents ops c)"
  using assms by (auto simp: index_ok_def)

lemma index_get:
  assumes "index_ok ops xs ix"
  shows "gi_get ops ix i = Inr x \<longleftrightarrow> x \<in> set xs \<and> go_id ops x = i"
proof -
  have d: "distinct (map fst (map (\<lambda>x. (go_id ops x, x)) xs))"
    using assms by (simp add: index_ok_def comp_def)
  have "gi_get ops ix i = Inr x \<longleftrightarrow> map_of (gi_objects_by_id ix) i = Some x"
    by (simp add: gi_get_def split: option.split)
  also have "\<dots> \<longleftrightarrow> (i, x) \<in> set (map (\<lambda>x. (go_id ops x, x)) xs)"
    using assms map_of_eq_Some_iff [OF d] by (simp add: index_ok_def)
  finally show ?thesis by auto
qed

lemma index_unique:
  assumes "index_ok ops xs ix" "x \<in> set xs" "y \<in> set xs" "go_id ops x = go_id ops y"
  shows "x = y"
  using assms by (auto simp: index_ok_def distinct_map dest: inj_onD)


section \<open>Leaves and members agree\<close>

lemma distinct_by_seen_append:
  "distinct_by_seen f seen (xs @ ys) = distinct_by_seen f seen xs @ distinct_by_seen f (seen \<union> f ` set xs) ys"
proof (induction f seen xs rule: distinct_by_seen.induct)
  case (2 f seen x xs)
  then show ?case by (auto simp: insert_absorb Un_insert_left)
qed simp

definition member_leaves :: "'a group_ops \<Rightarrow> 'a group_member list \<Rightarrow> 'a list" where
  "member_leaves ops ms = filter (\<lambda>x. \<not> go_is_group ops x) (map gm_obj ms)"

lemma member_leaves_append: "member_leaves ops (ms @ ns) = member_leaves ops ms @ member_leaves ops ns"
  by (simp add: member_leaves_def)

text \<open>The two walks run side by side: they fail together, and what the walk over members appends
  is, without the groups and what was seen, what the walk over leaves appends.\<close>

definition side_by_side ::
  "'a group_ops \<Rightarrow> 'a list \<times> uuid set \<Rightarrow> 'a group_member list \<Rightarrow>
   exc + 'a list \<times> uuid set \<Rightarrow> exc + 'a group_member list \<Rightarrow> bool" where
  "side_by_side ops st res l m \<longleftrightarrow>
     (case m of
        Inl e \<Rightarrow> l = Inl e
      | Inr res' \<Rightarrow> \<exists>ms. res' = res @ ms \<and>
          l = Inr (fst st @ distinct_by_seen (go_id ops) (snd st) (member_leaves ops ms),
            snd st \<union> go_id ops ` set (member_leaves ops ms)))"

lemma side_by_side_Inl: "side_by_side ops st res (Inl e) (Inl e)"
  by (simp add: side_by_side_def)

lemma side_by_side_refl: "side_by_side ops st res (Inr st) (Inr res)"
  by (simp add: side_by_side_def member_leaves_def)

lemma side_by_side_group:
  "go_is_group ops (gm_obj g) \<Longrightarrow> side_by_side ops st (res @ [g]) l m \<Longrightarrow> side_by_side ops st res l m"
  by (auto simp: side_by_side_def member_leaves_def split: sum.splits)

lemma side_by_side_leaf:
  assumes "\<not> go_is_group ops c" "gm_obj m = c"
  shows "side_by_side ops st res
    (case st of (leaves, seen) \<Rightarrow> if go_id ops c \<in> seen then Inr (leaves, seen)
       else Inr (leaves @ [c], insert (go_id ops c) seen)) (Inr (res @ [m]))"
  using assms by (auto simp: side_by_side_def member_leaves_def split: prod.split)

lemma side_by_side_trans:
  assumes "side_by_side ops st res (Inr st') (Inr res')" "side_by_side ops st' res' l m"
  shows "side_by_side ops st res l m"
proof (cases m)
  case (Inl e)
  with assms(2) show ?thesis by (simp add: side_by_side_def)
next
  case (Inr res'')
  obtain ms where ms: "res' = res @ ms" "st' = (fst st @ distinct_by_seen (go_id ops) (snd st) (member_leaves ops ms),
      snd st \<union> go_id ops ` set (member_leaves ops ms))"
    using assms(1) by (auto simp: side_by_side_def)
  obtain ns where ns: "res'' = res' @ ns"
    "l = Inr (fst st' @ distinct_by_seen (go_id ops) (snd st') (member_leaves ops ns),
      snd st' \<union> go_id ops ` set (member_leaves ops ns))"
    using assms(2) Inr by (auto simp: side_by_side_def)
  have "res'' = res @ (ms @ ns)"
    "l = Inr (fst st @ distinct_by_seen (go_id ops) (snd st) (member_leaves ops (ms @ ns)),
      snd st \<union> go_id ops ` set (member_leaves ops (ms @ ns)))"
    using ms ns by (simp_all add: member_leaves_append distinct_by_seen_append Un_assoc image_Un)
  then show ?thesis using Inr unfolding side_by_side_def by auto
qed

lemma side_by_side_fold:
  assumes "\<And>x st res. x \<in> set xs \<Longrightarrow> side_by_side ops st res (f x st) (g x res)"
  shows "side_by_side ops st res (fold_r f xs st) (fold_r g xs res)"
  using assms
proof (induction xs arbitrary: st res)
  case Nil
  then show ?case by (simp add: side_by_side_refl)
next
  case (Cons x xs)
  have step: "side_by_side ops st res (f x st) (g x res)" using Cons.prems by simp
  show ?case
  proof (cases "g x res")
    case (Inl e)
    with step have "f x st = Inl e" by (simp add: side_by_side_def)
    with Inl show ?thesis by (simp add: side_by_side_Inl)
  next
    case (Inr res')
    with step obtain st' where st': "f x st = Inr st'" by (auto simp: side_by_side_def)
    have "side_by_side ops st' res' (fold_r f xs st') (fold_r g xs res')"
      using Cons.prems by (intro Cons.IH) simp
    with step show ?thesis unfolding fold_r.simps Inr st' bind_r_simps by (rule side_by_side_trans)
  qed
qed

lemma collect_side_by_side:
  assumes "index_ok ops xs ix" "gi_get ops ix g = Inr grp" "go_is_group ops grp"
  shows "side_by_side ops st res (collect_group_leaves ops ix g depth path st)
    (collect_group_members ops ix g parent depth dd path res)"
  using assms
proof (induction "4 - depth" arbitrary: g grp depth path st res parent dd rule: less_induct)
  case less
  show ?case
  proof (cases "depth > MAX_GROUP_DEPTH")
    case True
    then show ?thesis
      by (simp add: collect_group_leaves.simps [of ops ix g] collect_group_members.simps [of ops ix g] side_by_side_Inl)
  next
    case False
    let ?m = "\<lparr>gm_obj = grp, gm_parent_id = parent, gm_depth = dd, gm_path = path\<rparr>"
    have child: "side_by_side ops st res
        (collect_group_leaves ops ix (go_id ops c) (depth + 1) (path @ [go_id ops c]) st)
        (collect_group_members ops ix (go_id ops c) (Some g) (depth + 1) (dd + 1) (path @ [go_id ops c]) res)"
      if "c \<in> set (gi_children_get ix g)" "go_is_group ops c" for c st res
      using that less.prems(1) False
      by (intro less.hyps) (auto simp: index_children index_get MAX_GROUP_DEPTH_def)
    show ?thesis
      unfolding collect_group_leaves.simps [of ops ix g] collect_group_members.simps [of ops ix g]
        less.prems(2) bind_r_simps if_not_P [OF False]
      by (rule side_by_side_group [where g = ?m], simp add: less.prems(3), rule side_by_side_fold)
        (use child in \<open>simp add: side_by_side_Inl side_by_side_leaf\<close>)
  qed
qed

lemma leaves_of_members:
  assumes "mk_group_index ops xs = Inr ix"
  shows "resolve_group_leaves ops ix i =
    bind_r (resolve_group_members ops ix i) (\<lambda>ms. Inr (distinct_by (go_id ops) (member_leaves ops ms)))"
proof (cases "gi_get ops ix i")
  case (Inl e)
  then show ?thesis by (simp add: resolve_group_leaves_def resolve_group_members_def)
next
  case (Inr grp)
  show ?thesis
  proof (cases "go_is_group ops grp")
    case False
    then show ?thesis by (simp add: resolve_group_leaves_def resolve_group_members_def Inr)
  next
    case True
    have "side_by_side ops ([], {}) [] (collect_group_leaves ops ix i 1 [i] ([], {}))
      (collect_group_members ops ix i None 1 0 [i] [])"
      by (rule collect_side_by_side [OF mk_group_index_ok [OF assms] Inr True])
    then show ?thesis using True
      by (auto simp: resolve_group_leaves_def resolve_group_members_def Inr side_by_side_def distinct_by_def
          split: sum.splits)
  qed
qed


section \<open>Leaves by membership\<close>

text \<open>\<open>member_of ops ix g x\<close>: the object \<open>x\<close> belongs to group \<open>g\<close>, directly or through
  nested groups.\<close>

inductive member_of :: "'a group_ops \<Rightarrow> 'a group_index \<Rightarrow> uuid \<Rightarrow> 'a \<Rightarrow> bool" for ops ix where
  direct: "c \<in> set (gi_children_get ix g) \<Longrightarrow> member_of ops ix g c"
| nested: "c \<in> set (gi_children_get ix g) \<Longrightarrow> go_is_group ops c \<Longrightarrow> member_of ops ix (go_id ops c) x \<Longrightarrow>
    member_of ops ix g x"

inductive_cases member_ofE: "member_of ops ix g x"

lemma member_of_step:
  "{x. member_of ops ix g x} =
     (\<Union>c \<in> set (gi_children_get ix g).
       insert c (if go_is_group ops c then {x. member_of ops ix (go_id ops c) x} else {}))"
proof -
  have "member_of ops ix g x \<longleftrightarrow>
      (\<exists>c \<in> set (gi_children_get ix g). x = c \<or> go_is_group ops c \<and> member_of ops ix (go_id ops c) x)" for x
    by (subst member_of.simps) blast
  then show ?thesis by (auto split: if_splits)
qed

lemma fold_members_gained:
  assumes "fold_r f cs res = Inr res'"
    and "\<And>c res res'. c \<in> set cs \<Longrightarrow> f c res = Inr res' \<Longrightarrow> gm_obj ` set res' = gm_obj ` set res \<union> X c"
  shows "gm_obj ` set res' = gm_obj ` set res \<union> (\<Union>c \<in> set cs. X c)"
  using assms
proof (induction cs arbitrary: res)
  case (Cons c cs)
  from Cons.prems(1) obtain r1 where r1: "f c res = Inr r1" "fold_r f cs r1 = Inr res'"
    by (auto simp: bind_r_eq_Inr)
  have "gm_obj ` set r1 = gm_obj ` set res \<union> X c" using Cons.prems(2) r1(1) by simp
  moreover have "gm_obj ` set res' = gm_obj ` set r1 \<union> (\<Union>c \<in> set cs. X c)"
    using r1(2) Cons.prems(2) by (intro Cons.IH) simp_all
  ultimately show ?case by auto
qed simp

lemma collect_members_gained:
  assumes "index_ok ops xs ix" "gi_get ops ix g = Inr grp"
    and "collect_group_members ops ix g parent depth dd path res = Inr res'"
  shows "gm_obj ` set res' = gm_obj ` set res \<union> insert grp {x. member_of ops ix g x}"
  using assms
proof (induction "4 - depth" arbitrary: g grp depth path res res' parent dd rule: less_induct)
  case less
  let ?X = "\<lambda>c. insert c (if go_is_group ops c then {x. member_of ops ix (go_id ops c) x} else {})"
  let ?m = "\<lparr>gm_obj = grp, gm_parent_id = parent, gm_depth = dd, gm_path = path\<rparr>"
  have ok: "\<not> depth > MAX_GROUP_DEPTH"
    using less.prems(3) by (auto simp: collect_group_members.simps [of ops ix g] split: if_splits)
  note run = less.prems(3) [unfolded collect_group_members.simps [of ops ix g] if_not_P [OF ok]
      less.prems(2) bind_r_simps]
  have "gm_obj ` set res' = gm_obj ` set (res @ [?m]) \<union> (\<Union>c \<in> set (gi_children_get ix g). ?X c)"
  proof (rule fold_members_gained [OF run])
    fix c r r'
    assume c: "c \<in> set (gi_children_get ix g)"
      and step: "(if go_is_group ops c then
             if go_id ops c \<in> set path then Inl (cycle_error ops (path @ [go_id ops c]))
             else collect_group_members ops ix (go_id ops c) (Some g) (depth + 1)
               (dd + 1) (path @ [go_id ops c]) r
           else Inr (r @ [\<lparr>gm_obj = c, gm_parent_id = Some g, gm_depth = dd + 1,
             gm_path = path @ [go_id ops c]\<rparr>])) = Inr r'"
    show "gm_obj ` set r' = gm_obj ` set r \<union> ?X c"
    proof (cases "go_is_group ops c")
      case True
      have get: "gi_get ops ix (go_id ops c) = Inr c"
        using c less.prems(1) by (simp add: index_children index_get)
      have "gm_obj ` set r' = gm_obj ` set r \<union> insert c {x. member_of ops ix (go_id ops c) x}"
        using step True ok
        by (intro less.hyps [OF _ less.prems(1) get]) (auto simp: MAX_GROUP_DEPTH_def split: if_splits)
      with True show ?thesis by simp
    qed (use step in auto)
  qed
  moreover have "{x. member_of ops ix g x} = (\<Union>c \<in> set (gi_children_get ix g). ?X c)"
    by (rule member_of_step)
  ultimately show ?case by simp
qed

lemma group_leaves_set:
  assumes "mk_group_index ops xs = Inr ix" "resolve_group_leaves ops ix i = Inr ls"
  shows "distinct (map (go_id ops) ls)"
    and "set ls = {x. member_of ops ix i x \<and> \<not> go_is_group ops x}"
proof -
  note ok = mk_group_index_ok [OF assms(1)]
  from assms obtain ms where ms: "resolve_group_members ops ix i = Inr ms"
    and ls: "ls = distinct_by (go_id ops) (member_leaves ops ms)"
    by (auto simp: leaves_of_members [OF assms(1)] bind_r_eq_Inr)
  from ms obtain grp where g: "gi_get ops ix i = Inr grp" "go_is_group ops grp"
    "collect_group_members ops ix i None 1 0 [i] [] = Inr ms"
    by (auto simp: resolve_group_members_def bind_r_eq_Inr split: if_splits)
  have objs: "gm_obj ` set ms = insert grp {x. member_of ops ix i x}"
    using collect_members_gained [OF ok g(1,3)] by simp
  have sub: "x \<in> set xs" if "member_of ops ix j x" for j x
    using that by (induction rule: member_of.induct) (auto simp: index_children [OF ok])
  have ml: "set (member_leaves ops ms) = {x. member_of ops ix i x \<and> \<not> go_is_group ops x}"
    unfolding member_leaves_def set_filter set_map objs using g(2) by auto
  show "distinct (map (go_id ops) ls)" unfolding ls by (rule distinct_distinct_by)
  have "set ls = set (member_leaves ops ms)"
  proof
    show "set ls \<subseteq> set (member_leaves ops ms)" unfolding ls by (rule distinct_by_sub)
    show "set (member_leaves ops ms) \<subseteq> set ls"
    proof
      fix x assume x: "x \<in> set (member_leaves ops ms)"
      then have "go_id ops x \<in> go_id ops ` set ls" unfolding ls distinct_by_keys by simp
      then obtain y where y: "y \<in> set ls" "go_id ops y = go_id ops x" by auto
      have "y \<in> set (member_leaves ops ms)" using y(1) unfolding ls by (rule subsetD [OF distinct_by_sub])
      then have "x \<in> set xs" "y \<in> set xs" using x sub [of i x] sub [of i y] unfolding ml by simp_all
      then have "x = y" by (rule index_unique [OF ok]) (simp only: y(2))
      with y(1) show "x \<in> set ls" by simp
    qed
  qed
  then show "set ls = {x. member_of ops ix i x \<and> \<not> go_is_group ops x}" unfolding ml .
qed


section \<open>When a walk fails\<close>

definition subgroup_link :: "'a group_ops \<Rightarrow> 'a group_index \<Rightarrow> uuid \<Rightarrow> uuid \<Rightarrow> bool" where
  "subgroup_link ops ix g h \<longleftrightarrow> (\<exists>c \<in> set (gi_children_get ix g). go_is_group ops c \<and> go_id ops c = h)"

text \<open>A chain of \<open>n\<close> nested groups below \<open>g\<close>.\<close>

fun group_chain :: "'a group_ops \<Rightarrow> 'a group_index \<Rightarrow> nat \<Rightarrow> uuid \<Rightarrow> bool" where
  "group_chain ops ix 0 g \<longleftrightarrow> True"
| "group_chain ops ix (Suc n) g \<longleftrightarrow>
     (\<exists>c \<in> set (gi_children_get ix g). go_is_group ops c \<and> group_chain ops ix n (go_id ops c))"

lemma chain_link: "subgroup_link ops ix g h \<Longrightarrow> group_chain ops ix n h \<Longrightarrow> group_chain ops ix (Suc n) g"
  by (auto simp: subgroup_link_def)

lemma cycle_chain:
  assumes "(subgroup_link ops ix)\<^sup>+\<^sup>+ h h" "(subgroup_link ops ix)\<^sup>*\<^sup>* g h"
  shows "group_chain ops ix n g"
  using assms(2)
proof (induction n arbitrary: g)
  case (Suc n)
  obtain k where k: "subgroup_link ops ix g k" "(subgroup_link ops ix)\<^sup>*\<^sup>* k h"
  proof -
    from Suc.prems show ?thesis
    proof (cases rule: converse_rtranclpE)
      case base
      with tranclpD [OF assms(1)] that show ?thesis by blast
    next
      case (step k)
      then show ?thesis by (rule that)
    qed
  qed
  show ?case by (rule chain_link [OF k(1) Suc.IH [OF k(2)]])
qed simp

lemma fold_r_fails:
  "\<exists>e. fold_r f xs s = Inl e \<Longrightarrow> (\<And>x s. x \<in> set xs \<Longrightarrow> (\<exists>e. f x s = Inl e) \<longleftrightarrow> Q x) \<Longrightarrow> \<exists>x \<in> set xs. Q x"
  "\<exists>x \<in> set xs. Q x \<Longrightarrow> (\<And>x s. x \<in> set xs \<Longrightarrow> (\<exists>e. f x s = Inl e) \<longleftrightarrow> Q x) \<Longrightarrow> \<exists>e. fold_r f xs s = Inl e"
proof (induction xs arbitrary: s)
  case (Cons x xs)
  {
    case 1
    show ?case
    proof (cases "f x s")
      case (Inl e)
      with 1(2) [of x s] show ?thesis by simp
    next
      case (Inr s')
      with 1(1) have "\<exists>e. fold_r f xs s' = Inl e" by simp
      from Cons.IH(1) [OF this] 1(2) show ?thesis by simp
    qed
  next
    case 2
    show ?case
    proof (cases "f x s")
      case (Inr s')
      with 2(2) [of x s] have "\<not> Q x" by simp
      with 2(1) have "\<exists>y \<in> set xs. Q y" by simp
      from Cons.IH(2) [OF this, of s'] 2(2) Inr show ?thesis by simp
    qed simp
  }
qed simp_all

lemma fold_r_fails_iff:
  assumes "\<And>x s. x \<in> set xs \<Longrightarrow> (\<exists>e. f x s = Inl e) \<longleftrightarrow> Q x"
  shows "(\<exists>e. fold_r f xs s = Inl e) \<longleftrightarrow> (\<exists>x \<in> set xs. Q x)"
  using fold_r_fails [where f = f and xs = xs and Q = Q and s = s] assms by metis

text \<open>A walk at depth \<open>d\<close> fails exactly when more nested groups follow than the limit leaves
  room for.  The path holds the groups above, so a group met again closes a cycle.\<close>

lemma collect_members_error_iff:
  assumes "index_ok ops xs ix" "gi_get ops ix g = Inr grp" "depth \<le> 4" "0 < depth"
    and "\<forall>p \<in> set path. (subgroup_link ops ix)\<^sup>*\<^sup>* p g"
  shows "(\<exists>e. collect_group_members ops ix g parent depth dd path res = Inl e) \<longleftrightarrow>
    group_chain ops ix (4 - depth) g"
  using assms
proof (induction "4 - depth" arbitrary: g grp depth path res parent dd rule: less_induct)
  case less
  show ?case
  proof (cases "depth > MAX_GROUP_DEPTH")
    case True
    with less.prems(3) have "4 - depth = 0" by (simp add: MAX_GROUP_DEPTH_def)
    with True show ?thesis by (simp add: collect_group_members.simps [of ops ix g])
  next
    case False
    then have d: "4 - depth = Suc (4 - (depth + 1))" by (simp add: MAX_GROUP_DEPTH_def)
    let ?step = "\<lambda>c res. (if go_is_group ops c then
             if go_id ops c \<in> set path then Inl (cycle_error ops (path @ [go_id ops c]))
             else collect_group_members ops ix (go_id ops c) (Some g) (depth + 1)
               (dd + 1) (path @ [go_id ops c]) res
           else Inr (res @ [\<lparr>gm_obj = c, gm_parent_id = Some g, gm_depth = dd + 1,
             gm_path = path @ [go_id ops c]\<rparr>]))"
    have step: "(\<exists>e. ?step c res = Inl e) \<longleftrightarrow>
        go_is_group ops c \<and> group_chain ops ix (4 - (depth + 1)) (go_id ops c)"
      if c: "c \<in> set (gi_children_get ix g)" for c res
    proof (cases "go_is_group ops c")
      case grp: True
      then have link: "subgroup_link ops ix g (go_id ops c)" using c by (auto simp: subgroup_link_def)
      have get: "gi_get ops ix (go_id ops c) = Inr c"
        using c less.prems(1) by (simp add: index_children index_get)
      show ?thesis
      proof (cases "go_id ops c \<in> set path")
        case True
        with less.prems(5) have "(subgroup_link ops ix)\<^sup>*\<^sup>* (go_id ops c) g" by blast
        then have "(subgroup_link ops ix)\<^sup>+\<^sup>+ (go_id ops c) (go_id ops c)"
          using link by (rule rtranclp_into_tranclp1)
        then have "group_chain ops ix (4 - (depth + 1)) (go_id ops c)"
          by (rule cycle_chain) simp
        with True grp show ?thesis by simp
      next
        case nocycle: False
        have paths: "\<forall>p \<in> set (path @ [go_id ops c]). (subgroup_link ops ix)\<^sup>*\<^sup>* p (go_id ops c)"
          using less.prems(5) link by (auto intro: rtranclp.rtrancl_into_rtrancl)
        have "(\<exists>e. collect_group_members ops ix (go_id ops c) (Some g) (depth + 1) (dd + 1)
            (path @ [go_id ops c]) res = Inl e) \<longleftrightarrow> group_chain ops ix (4 - (depth + 1)) (go_id ops c)"
          using False by (intro less.hyps [OF _ less.prems(1) get _ _ paths]) (simp_all add: MAX_GROUP_DEPTH_def)
        with grp nocycle show ?thesis by simp
      qed
    qed simp
    show ?thesis
      unfolding collect_group_members.simps [of ops ix g] less.prems(2) bind_r_simps if_not_P [OF False] d
        group_chain.simps
      by (rule fold_r_fails_iff) (rule step)
  qed
qed

lemma resolve_members_error_iff:
  assumes "mk_group_index ops xs = Inr ix" "gi_get ops ix i = Inr grp" "go_is_group ops grp"
  shows "(\<exists>e. resolve_group_members ops ix i = Inl e) \<longleftrightarrow> group_chain ops ix 3 i"
  using collect_members_error_iff [OF mk_group_index_ok [OF assms(1)] assms(2), of 1 "[i]" None 0 "[]"] assms(2,3)
  by (simp add: resolve_group_members_def)

lemma resolve_leaves_error_iff:
  assumes "mk_group_index ops xs = Inr ix" "gi_get ops ix i = Inr grp" "go_is_group ops grp"
  shows "(\<exists>e. resolve_group_leaves ops ix i = Inl e) \<longleftrightarrow> group_chain ops ix 3 i"
  using resolve_members_error_iff [OF assms]
  by (cases "resolve_group_members ops ix i") (simp_all add: leaves_of_members [OF assms(1)])


section \<open>Groups of a list of objects\<close>

text \<open>The notions above without the index: \<open>belongs\<close> and \<open>nested\<close> speak of the objects and
  their parents only.\<close>

inductive belongs :: "'a group_ops \<Rightarrow> 'a list \<Rightarrow> uuid \<Rightarrow> 'a \<Rightarrow> bool" for ops xs where
  direct: "c \<in> set xs \<Longrightarrow> g \<in> set (go_parents ops c) \<Longrightarrow> belongs ops xs g c"
| nested: "c \<in> set xs \<Longrightarrow> g \<in> set (go_parents ops c) \<Longrightarrow> go_is_group ops c \<Longrightarrow>
    belongs ops xs (go_id ops c) x \<Longrightarrow> belongs ops xs g x"

fun nested :: "'a group_ops \<Rightarrow> 'a list \<Rightarrow> nat \<Rightarrow> uuid \<Rightarrow> bool" where
  "nested ops xs 0 g \<longleftrightarrow> True"
| "nested ops xs (Suc n) g \<longleftrightarrow>
     (\<exists>c \<in> set xs. g \<in> set (go_parents ops c) \<and> go_is_group ops c \<and> nested ops xs n (go_id ops c))"

definition is_group_id :: "'a group_ops \<Rightarrow> 'a list \<Rightarrow> uuid \<Rightarrow> bool" where
  "is_group_id ops xs i \<longleftrightarrow> (\<exists>x \<in> set xs. go_id ops x = i \<and> go_is_group ops x)"

definition groups_ok :: "'a group_ops \<Rightarrow> 'a list \<Rightarrow> bool" where
  "groups_ok ops xs \<longleftrightarrow>
     distinct (map (go_id ops) xs) \<and> (\<forall>x \<in> set xs. \<forall>p \<in> set (go_parents ops x). is_group_id ops xs p)"

lemma member_of_belongs:
  assumes "index_ok ops xs ix"
  shows "member_of ops ix g x \<longleftrightarrow> belongs ops xs g x"
proof
  show "belongs ops xs g x" if "member_of ops ix g x"
    using that by (induction rule: member_of.induct) (auto simp: index_children [OF assms] intro: belongs.intros)
  show "member_of ops ix g x" if "belongs ops xs g x"
    using that by (induction rule: belongs.induct) (auto simp: index_children [OF assms] intro: member_of.intros)
qed

lemma chain_nested:
  assumes "index_ok ops xs ix"
  shows "group_chain ops ix n g \<longleftrightarrow> nested ops xs n g"
  by (induction n arbitrary: g) (auto simp: index_children [OF assms])

lemma index_is_group:
  assumes "index_ok ops xs ix" "gi_is_group ops ix i = Inr b"
  shows "b \<longleftrightarrow> is_group_id ops xs i"
proof -
  from assms(2) obtain x where x: "gi_get ops ix i = Inr x" "b = go_is_group ops x"
    by (auto simp: gi_is_group_def bind_r_eq_Inr)
  then have "x \<in> set xs" "go_id ops x = i" by (simp_all add: index_get [OF assms(1)])
  then show ?thesis using x(2) index_unique [OF assms(1)] by (auto simp: is_group_id_def)
qed

lemma mk_group_index_iff: "(\<exists>ix. mk_group_index ops xs = Inr ix) \<longleftrightarrow> groups_ok ops xs"
proof
  assume "\<exists>ix. mk_group_index ops xs = Inr ix"
  then obtain ix where "mk_group_index ops xs = Inr ix" by blast
  then have ok: "index_ok ops xs ix" by (rule mk_group_index_ok)
  have "is_group_id ops xs p" if xp: "x \<in> set xs" "p \<in> set (go_parents ops x)" for x p
  proof -
    obtain y where y: "map_of (gi_objects_by_id ix) p = Some y" "go_is_group ops y"
      using ok xp unfolding index_ok_def by blast
    then have "gi_get ops ix p = Inr y" by (simp add: gi_get_def)
    with y(2) show ?thesis by (auto simp: index_get [OF ok] is_group_id_def)
  qed
  with ok show "groups_ok ops xs" by (simp add: groups_ok_def index_ok_def)
next
  assume ok: "groups_ok ops xs"
  have objs: "fold_r (index_object ops) ys d = Inr (d @ map (\<lambda>x. (go_id ops x, x)) ys)"
    if "distinct (map (go_id ops) ys)" "go_id ops ` set ys \<inter> fst ` set d = {}" for ys d
    using that
  proof (induction ys arbitrary: d)
    case (Cons y ys)
    then show ?case by (simp add: index_object_def update_fresh)
  qed simp
  let ?objs = "map (\<lambda>x. (go_id ops x, x)) xs"
  let ?ps = "concat (map (\<lambda>x. map (Pair x) (go_parents ops x)) xs)"
  have parents: "\<exists>ch. fold_r (index_parent ops ?objs) ps d = Inr ch" if "set ps \<subseteq> set ?ps" for ps d
    using that
  proof (induction ps arbitrary: d)
    case (Cons xp ps)
    obtain x p where xp: "xp = (x, p)" by (cases xp)
    with Cons.prems have "x \<in> set xs" "p \<in> set (go_parents ops x)" by auto
    with ok obtain y where y: "y \<in> set xs" "go_id ops y = p" "go_is_group ops y"
      by (auto simp: groups_ok_def is_group_id_def)
    have "map_of ?objs p = Some y"
      using y ok by (intro map_of_is_SomeI) (auto simp: groups_ok_def comp_def)
    with y(3) Cons xp show ?case by (simp add: index_parent_def)
  qed simp
  from parents [of ?ps] obtain ch where "fold_r (index_parent ops ?objs) ?ps [] = Inr ch" by blast
  moreover have "fold_r (index_object ops) xs [] = Inr ?objs"
    using objs [of xs "[]"] ok by (simp add: groups_ok_def)
  ultimately show "\<exists>ix. mk_group_index ops xs = Inr ix" by (simp add: mk_group_index_def)
qed

lemma group_leaves_resolved:
  assumes "mk_group_index ops xs = Inr ix" "is_group_id ops xs i"
  shows "resolve_group_leaves ops ix i = Inr ls \<Longrightarrow>
      distinct (map (go_id ops) ls) \<and> set ls = {x. belongs ops xs i x \<and> \<not> go_is_group ops x}"
    and "(\<exists>ls. resolve_group_leaves ops ix i = Inr ls) \<longleftrightarrow> \<not> nested ops xs 3 i"
proof -
  note ok = mk_group_index_ok [OF assms(1)]
  show "distinct (map (go_id ops) ls) \<and> set ls = {x. belongs ops xs i x \<and> \<not> go_is_group ops x}"
    if "resolve_group_leaves ops ix i = Inr ls"
    using group_leaves_set [OF assms(1) that] by (simp add: member_of_belongs [OF ok])
  from assms(2) obtain grp where "gi_get ops ix i = Inr grp" "go_is_group ops grp"
    by (auto simp: is_group_id_def index_get [OF ok])
  from resolve_leaves_error_iff [OF assms(1) this]
  show "(\<exists>ls. resolve_group_leaves ops ix i = Inr ls) \<longleftrightarrow> \<not> nested ops xs 3 i"
    unfolding chain_nested [OF ok] by (cases "resolve_group_leaves ops ix i") auto
qed

end
