(* ===== verification/Mapping_Rules.thy ===== *)
theory Mapping_Rules
  imports Mapping_Results Canonical_Groups
begin

text \<open>
  The rules of a mapping scope (\<open>src/src/app/modules/mapping/services/mapping_rules\<close>): the index
  of results by canonical object, the builder that turns canonical rules into scope rules whose
  operands reference results, and the two display indexes (canonical zones, SD-WAN catalog).

  \<open>build_rules_operands\<close>: the operands of a built rule are, for every canonical operand in
  order, the results of the zone, object or group leaves it names, under the translated role.
  \<open>build_rules_total\<close>: results built from the same scope suffice, so no operand lacks a result.
\<close>

section \<open>The index of results\<close>

type_synonym results_index = "((mapping_entity_type \<times> uuid) \<times> entity_result) list"

definition index_result :: "entity_result \<Rightarrow> results_index \<Rightarrow> exc + results_index" where
  "index_result r d =
     (case canonical_entity_id r of
        Inl e \<Rightarrow> if me_entity_type r = ET_ZONE then Inr d else Inl e
      | Inr i \<Rightarrow> Inr (AList.update (me_entity_type r, i) r d))"

definition mk_results_index :: "entity_result list \<Rightarrow> exc + results_index" where
  "mk_results_index rs = fold_r index_result rs []"

definition results_get :: "results_index \<Rightarrow> mapping_entity_type \<Rightarrow> uuid \<Rightarrow> entity_result option" where
  "results_get ix et i = map_of ix (et, i)"


section \<open>The builder\<close>

definition map_rule_action :: "can_action \<Rightarrow> scope_rule_action" where
  "map_rule_action a = (case a of CAN_PERMIT \<Rightarrow> SA_ACCEPT | CAN_DENY \<Rightarrow> SA_REJECT)"

definition map_operand_role :: "can_operand_role \<Rightarrow> operand_role" where
  "map_operand_role r =
     (case r of CR_SRC_ZONE \<Rightarrow> OR_SRC_ZONE | CR_DST_ZONE \<Rightarrow> OR_DST_ZONE
      | CR_SRC_OBJECT \<Rightarrow> OR_SRC_ADDR_OBJECT | CR_DST_OBJECT \<Rightarrow> OR_DST_ADDR_OBJECT
      | CR_SERVICE \<Rightarrow> OR_SERVICE)"

definition resolve_object_targets ::
  "'a group_ops \<Rightarrow> 'a group_index \<Rightarrow> mapping_entity_type \<Rightarrow> string \<Rightarrow> string \<Rightarrow> can_operand \<Rightarrow>
   exc + mapping_entity_type \<times> uuid list" where
  "resolve_object_targets ops ix et noun leaves_noun o1 =
     (case cop_target_object_id o1 of
        None \<Rightarrow> Inl (MappingDomainValidationError
          (noun @ '' operand '' @ uuid_text (cop_id o1) @ '' has no target_object_id''))
      | Some i \<Rightarrow>
          bind_r (gi_is_group ops ix i) (\<lambda>is_grp.
            if is_grp then
              bind_r (resolve_group_leaves ops ix i) (\<lambda>leaves.
                if leaves = [] then Inl (MappingDomainValidationError
                  (noun @ '' group operand '' @ uuid_text (cop_id o1) @ '' has no leaf '' @ leaves_noun))
                else Inr (et, map (go_id ops) leaves))
            else Inr (et, [i])))"

definition resolve_operand_targets ::
  "can_addr group_index \<Rightarrow> can_service group_index \<Rightarrow> can_operand \<Rightarrow> exc + mapping_entity_type \<times> uuid list" where
  "resolve_operand_targets ai si o1 =
     (if cop_role o1 = CR_SRC_ZONE \<or> cop_role o1 = CR_DST_ZONE then
        (case cop_target_zone_id o1 of
           None \<Rightarrow> Inl (MappingDomainValidationError
             (''ZONE operand '' @ uuid_text (cop_id o1) @ '' has no target_zone_id''))
         | Some z \<Rightarrow> Inr (ET_ZONE, [z]))
      else if cop_role o1 = CR_SRC_OBJECT \<or> cop_role o1 = CR_DST_OBJECT then
        resolve_object_targets addr_ops ai ET_ADDR ''ADDR'' ''objects'' o1
      else resolve_object_targets service_ops si ET_SERVICE ''SERVICE'' ''services'' o1)"

definition target_payload ::
  "can_rule \<Rightarrow> results_index \<Rightarrow> can_operand \<Rightarrow> mapping_entity_type \<Rightarrow> uuid \<Rightarrow> exc + operand_payload" where
  "target_payload rule ix o1 et i =
     (case results_get ix et i of
        None \<Rightarrow> Inl (MappingDomainValidationError
          (''Mapping result not found for rule operand: rule_id='' @ uuid_text (cr_id rule) @
           '', operand_id='' @ uuid_text (cop_id o1) @ '', entity_type='' @ entity_type_value et @
           '', canonical_entity_id='' @ uuid_text i))
      | Some r \<Rightarrow> Inr \<lparr>op_role = map_operand_role (cop_role o1), op_result_id = me_id r\<rparr>)"

definition operand_payloads ::
  "can_rule \<Rightarrow> results_index \<Rightarrow> can_addr group_index \<Rightarrow> can_service group_index \<Rightarrow> can_operand \<Rightarrow>
   exc + operand_payload list" where
  "operand_payloads rule ix ai si o1 =
     bind_r (resolve_operand_targets ai si o1) (\<lambda>(et, is). traverse (target_payload rule ix o1 et) is)"

definition build_rule_operand_payloads ::
  "can_rule \<Rightarrow> results_index \<Rightarrow> can_addr group_index \<Rightarrow> can_service group_index \<Rightarrow> exc + operand_payload list" where
  "build_rule_operand_payloads rule ix ai si =
     bind_r (traverse (operand_payloads rule ix ai si) (cr_operands rule)) (\<lambda>pss. Inr (concat pss))"

definition build_scope_rule ::
  "uuid \<Rightarrow> results_index \<Rightarrow> can_addr group_index \<Rightarrow> can_service group_index \<Rightarrow> (nat \<Rightarrow> uuid) \<times> can_rule \<Rightarrow>
   exc + scope_rule" where
  "build_scope_rule scope_id ix ai si ir =
     (case ir of (ids, rule) \<Rightarrow>
       bind_r (build_rule_operand_payloads rule ix ai si) (\<lambda>ps.
         Inr (create_scope_rule ids scope_id (cr_id rule) (cr_name rule) (map_rule_action (cr_action rule))
           (cr_priority rule) ps)))"

definition build_scope_rules ::
  "(nat \<Rightarrow> nat \<Rightarrow> uuid) \<Rightarrow> uuid \<Rightarrow> can_rule list \<Rightarrow> can_scope_entities \<Rightarrow> entity_result list \<Rightarrow>
   exc + scope_rule list" where
  "build_scope_rules ids scope_id rules e results =
     bind_r (mk_results_index results) (\<lambda>ix.
     bind_r (mk_group_index addr_ops (ce_addr_objects e)) (\<lambda>ai.
     bind_r (mk_service_group_index (ce_services e)) (\<lambda>si.
       traverse (build_scope_rule scope_id ix ai si)
         (map (\<lambda>(i, rule). (ids i, rule)) (enumerate 0 rules)))))"


section \<open>Display indexes\<close>

definition zone_index_add :: "can_zone \<Rightarrow> (uuid \<times> can_zone) list \<Rightarrow> exc + (uuid \<times> can_zone) list" where
  "zone_index_add z d =
     (if cz_id z \<in> fst ` set d then
        Inl (MappingDomainValidationError (''Duplicate canonical zone id: '' @ uuid_text (cz_id z)))
      else Inr (AList.update (cz_id z) z d))"

definition mk_canonical_zone_index :: "can_zone list \<Rightarrow> exc + (uuid \<times> can_zone) list" where
  "mk_canonical_zone_index zs = fold_r zone_index_add zs []"

definition canonical_zone_get :: "(uuid \<times> can_zone) list \<Rightarrow> uuid \<Rightarrow> exc + can_zone" where
  "canonical_zone_get ix i =
     (case map_of ix i of
        None \<Rightarrow> Inl (MappingNotFoundError (''Canonical zone not found: '' @ uuid_text i))
      | Some z \<Rightarrow> Inr z)"

record sdwan_entity_dto =
  se_sdwan_id :: int
  se_name :: string
  se_type :: string
  se_str_value :: string

record sdwan_catalog_index =
  sx_zones_by_id :: "(int \<times> sdwan_zone) list"
  sx_addr_objs_by_id :: "(int \<times> sdwan_addr_object) list"
  sx_services_by_id :: "(int \<times> sdwan_service) list"

definition keep_first :: "('a \<Rightarrow> 'k) \<Rightarrow> 'a list \<Rightarrow> ('k \<times> 'a) list" where
  "keep_first f xs = foldl (\<lambda>d x. if f x \<in> fst ` set d then d else AList.update (f x) x d) [] xs"

definition mk_sdwan_catalog_index :: "sdwan_full_catalog \<Rightarrow> sdwan_catalog_index" where
  "mk_sdwan_catalog_index cat =
     \<lparr>sx_zones_by_id = keep_first zn_id (fc_zones cat),
      sx_addr_objs_by_id = keep_first ao_id (fc_addr_objs cat),
      sx_services_by_id = keep_first sv_id (fc_services cat)\<rparr>"

definition opt_text :: "('a \<Rightarrow> string) \<Rightarrow> 'a option \<Rightarrow> string" where
  "opt_text f x = (case x of None \<Rightarrow> ''None'' | Some y \<Rightarrow> f y)"

definition addr_str_value :: "sdwan_addr_object \<Rightarrow> string" where
  "addr_str_value a =
     (case ao_type a of
        AT_NETWORK \<Rightarrow> opt_text network_text (ao_network a)
      | AT_PREFIX \<Rightarrow> opt_text network_text (ao_prefix a)
      | AT_HOST \<Rightarrow> opt_text ipv4_text (ao_host a)
      | AT_FQDN \<Rightarrow> (case given (ao_fqdn a) of None \<Rightarrow> ao_name a | Some d \<Rightarrow> d)
      | AT_IP_RANGE \<Rightarrow> opt_text ipv4_text (ao_ip_range_from a) @ ''-'' @ opt_text ipv4_text (ao_ip_range_to a)
      | AT_ADDR_GROUP \<Rightarrow> ''ADDR GROUP: '' @ ao_name a)"

definition service_str_value :: "sdwan_service \<Rightarrow> string" where
  "service_str_value s =
     (if \<not> falsy_list (sv_ranges s) then
        l4_proto_value (sv_l4_proto s) @ ''/'' @
        join '','' (map (\<lambda>(a, b). if a = b then int_str a else int_str a @ ''-'' @ int_str b) (or_empty (sv_ranges s)))
      else if \<not> falsy_list (sv_codes s) then
        l4_proto_value (sv_l4_proto s) @ ''/'' @ join '','' (or_empty (sv_codes s))
      else sv_name s)"

definition zone_display :: "sdwan_catalog_index \<Rightarrow> int \<Rightarrow> exc + sdwan_entity_dto" where
  "zone_display ix i =
     (case map_of (sx_zones_by_id ix) i of
        None \<Rightarrow> Inl (MappingNotFoundError (''SD-WAN zone not found: '' @ int_str i))
      | Some z \<Rightarrow> Inr \<lparr>se_sdwan_id = zn_id z, se_name = zn_name z, se_type = zone_type_value (zn_type z),
          se_str_value = zn_name z\<rparr>)"

definition addr_display :: "sdwan_catalog_index \<Rightarrow> int \<Rightarrow> exc + sdwan_entity_dto" where
  "addr_display ix i =
     (case map_of (sx_addr_objs_by_id ix) i of
        None \<Rightarrow> Inl (MappingNotFoundError (''SD-WAN address object not found: '' @ int_str i))
      | Some a \<Rightarrow> Inr \<lparr>se_sdwan_id = ao_id a, se_name = ao_name a, se_type = addr_type_value (ao_type a),
          se_str_value = addr_str_value a\<rparr>)"

definition sdwan_service_display :: "sdwan_catalog_index \<Rightarrow> int \<Rightarrow> exc + sdwan_entity_dto" where
  "sdwan_service_display ix i =
     (case map_of (sx_services_by_id ix) i of
        None \<Rightarrow> Inl (MappingNotFoundError (''SD-WAN service not found: '' @ int_str i))
      | Some s \<Rightarrow> Inr \<lparr>se_sdwan_id = sv_id s, se_name = sv_name s, se_type = l4_proto_value (sv_l4_proto s),
          se_str_value = service_str_value s\<rparr>)"

definition get_display_entity :: "sdwan_catalog_index \<Rightarrow> mapping_entity_type \<Rightarrow> int \<Rightarrow> exc + sdwan_entity_dto" where
  "get_display_entity ix et i =
     (case et of ET_ZONE \<Rightarrow> zone_display ix i | ET_ADDR \<Rightarrow> addr_display ix i | ET_SERVICE \<Rightarrow> sdwan_service_display ix i)"


section \<open>Lookups\<close>

lemma results_index_get:
  assumes "\<forall>r \<in> set rs. canonical_entity_id r = Inr (key r)"
  shows "mk_results_index rs = Inr (dict_of (\<lambda>r. (me_entity_type r, key r)) rs)"
proof -
  have "fold_r index_result rs d = Inr (foldl (\<lambda>d r. AList.update (me_entity_type r, key r) r d) d rs)" for d
    using assms by (induction rs arbitrary: d) (simp_all add: index_result_def)
  then show ?thesis by (simp add: mk_results_index_def dict_of_def)
qed

lemma keep_first_get: "map_of (keep_first f xs) k = List.find (\<lambda>x. f x = k) xs"
proof -
  have "map_of (foldl (\<lambda>d x. if f x \<in> fst ` set d then d else AList.update (f x) x d) d xs) k =
      (case map_of d k of Some v \<Rightarrow> Some v | None \<Rightarrow> List.find (\<lambda>x. f x = k) xs)" for d
  proof (induction xs arbitrary: d)
    case (Cons x xs)
    have known: "map_of d (f x) = None \<longleftrightarrow> f x \<notin> fst ` set d" by (rule map_of_eq_None_iff)
    show ?case
    proof (cases "f x \<in> fst ` set d")
      case True
      with known have "map_of d (f x) \<noteq> None" by blast
      with True Cons show ?thesis by (auto split: option.split)
    next
      case False
      with known Cons show ?thesis by (auto simp: update_conv split: option.split)
    qed
  qed (simp split: option.split)
  then show ?thesis by (simp add: keep_first_def)
qed


section \<open>What the operands of a rule stand for\<close>

definition object_targets ::
  "'a group_ops \<Rightarrow> 'a list \<Rightarrow> mapping_entity_type \<Rightarrow> can_operand \<Rightarrow> (mapping_entity_type \<times> uuid) set" where
  "object_targets ops xs et o1 =
     (case cop_target_object_id o1 of
        None \<Rightarrow> {}
      | Some i \<Rightarrow>
          if is_group_id ops xs i then (\<lambda>x. (et, go_id ops x)) ` {x. belongs ops xs i x \<and> \<not> go_is_group ops x}
          else {(et, i)})"

definition operand_targets :: "can_scope_entities \<Rightarrow> can_operand \<Rightarrow> (mapping_entity_type \<times> uuid) set" where
  "operand_targets e o1 =
     (if cop_role o1 = CR_SRC_ZONE \<or> cop_role o1 = CR_DST_ZONE then
        Pair ET_ZONE ` set_option (cop_target_zone_id o1)
      else if cop_role o1 = CR_SRC_OBJECT \<or> cop_role o1 = CR_DST_OBJECT then
        object_targets addr_ops (ce_addr_objects e) ET_ADDR o1
      else object_targets service_ops (ce_services e) ET_SERVICE o1)"

lemma resolve_object_targets_exact:
  assumes "mk_group_index ops xs = Inr ix" "resolve_object_targets ops ix et n m o1 = Inr (et', is)"
  shows "(\<lambda>i. (et', i)) ` set is = object_targets ops xs et o1 \<and> is \<noteq> []"
proof -
  note ok = mk_group_index_ok [OF assms(1)]
  from assms(2) obtain i b where i: "cop_target_object_id o1 = Some i" and b: "gi_is_group ops ix i = Inr b"
    by (auto simp: resolve_object_targets_def bind_r_eq_Inr split: option.splits)
  show ?thesis
  proof (cases b)
    case True
    with assms(2) i b obtain ls where ls: "resolve_group_leaves ops ix i = Inr ls" "ls \<noteq> []"
      "et' = et" "is = map (go_id ops) ls"
      by (auto simp: resolve_object_targets_def bind_r_eq_Inr split: if_splits)
    have g: "is_group_id ops xs i" using index_is_group [OF ok b] True by simp
    show ?thesis using group_leaves_resolved(1) [OF assms(1) g ls(1)] ls g i
      by (simp add: object_targets_def image_image)
  next
    case False
    with assms(2) i b index_is_group [OF ok b] show ?thesis
      by (auto simp: resolve_object_targets_def object_targets_def)
  qed
qed

lemma resolve_operand_targets_exact:
  assumes "mk_group_index addr_ops (ce_addr_objects e) = Inr ai"
    and "mk_service_group_index (ce_services e) = Inr si"
    and "resolve_operand_targets ai si o1 = Inr (et, is)"
  shows "Pair et ` set is = operand_targets e o1 \<and> is \<noteq> []"
proof -
  note exact = resolve_object_targets_exact [OF assms(1)]
    resolve_object_targets_exact [OF assms(2) [unfolded mk_service_group_index_def]]
  show ?thesis
    using assms(3) exact
    by (cases "cop_role o1") (auto simp: resolve_operand_targets_def operand_targets_def split: option.splits)
qed

text \<open>The objects that the operands of a scope rule stand for, by role.\<close>

definition rule_refs :: "can_scope_entities \<Rightarrow> can_rule \<Rightarrow> (operand_role \<times> mapping_entity_type \<times> uuid) set" where
  "rule_refs e rule = (\<Union>o1 \<in> set (cr_operands rule). Pair (map_operand_role (cop_role o1)) ` operand_targets e o1)"

definition sl_operand_list :: "scope_rule \<Rightarrow> scope_rule_operand list" where
  "sl_operand_list r = (case sl_operands r of None \<Rightarrow> [] | Some os \<Rightarrow> os)"

definition scope_rule_refs ::
  "entity_result list \<Rightarrow> scope_rule \<Rightarrow> (operand_role \<times> mapping_entity_type \<times> uuid) set" where
  "scope_rule_refs rs sr =
     {(so_role o1, me_entity_type r, i) | o1 r i. o1 \<in> set (sl_operand_list sr) \<and> r \<in> set rs \<and>
        me_id r = so_result_id o1 \<and> canonical_entity_id r = Inr i}"

definition results_keyed :: "entity_result list \<Rightarrow> bool" where
  "results_keyed rs \<longleftrightarrow> distinct (map me_id rs) \<and> (\<forall>r \<in> set rs. \<exists>i. canonical_entity_id r = Inr i)"

lemma results_get_member:
  assumes "mk_results_index rs = Inr ix" "\<forall>r \<in> set rs. \<exists>i. canonical_entity_id r = Inr i"
    and "results_get ix et i = Some r"
  shows "r \<in> set rs \<and> me_entity_type r = et \<and> canonical_entity_id r = Inr i"
proof -
  from assms(2) obtain key where key: "\<forall>r \<in> set rs. canonical_entity_id r = Inr (key r)" by metis
  have "map_of (dict_of (\<lambda>r. (me_entity_type r, key r)) rs) (et, i) = Some r"
    using assms(1,3) unfolding results_index_get [OF key] results_get_def by simp
  with key show ?thesis by (auto dest: dict_of_Some_D)
qed

lemma operand_payloads_refs:
  assumes "results_keyed rs" "mk_results_index rs = Inr ix"
    and "mk_group_index addr_ops (ce_addr_objects e) = Inr ai"
    and "mk_service_group_index (ce_services e) = Inr si"
    and "operand_payloads rule ix ai si o1 = Inr ps"
  shows "{(op_role p, me_entity_type r, i) | p r i. p \<in> set ps \<and> r \<in> set rs \<and> me_id r = op_result_id p \<and>
      canonical_entity_id r = Inr i} = Pair (map_operand_role (cop_role o1)) ` operand_targets e o1" (is "?L = ?R")
proof -
  from assms(5) obtain et "is" where t: "resolve_operand_targets ai si o1 = Inr (et, is)"
    and ps: "traverse (target_payload rule ix o1 et) is = Inr ps"
    by (auto simp: operand_payloads_def bind_r_eq_Inr)
  note tgt = resolve_operand_targets_exact [OF assms(3,4) t]
  have pay: "\<exists>r \<in> set rs. me_entity_type r = et \<and> canonical_entity_id r = Inr i \<and>
      p = \<lparr>op_role = map_operand_role (cop_role o1), op_result_id = me_id r\<rparr>"
    if "target_payload rule ix o1 et i = Inr p" for i p
  proof -
    from that obtain r where r: "results_get ix et i = Some r"
      "p = \<lparr>op_role = map_operand_role (cop_role o1), op_result_id = me_id r\<rparr>"
      by (auto simp: target_payload_def split: option.splits)
    with results_get_member [OF assms(2) _ r(1)] assms(1) show ?thesis by (auto simp: results_keyed_def)
  qed
  have one: "r = r'" if "r \<in> set rs" "r' \<in> set rs" "me_id r = me_id r'" for r r'
    using assms(1) that by (auto simp: results_keyed_def distinct_map dest: inj_onD)
  have "?L = Pair (map_operand_role (cop_role o1)) ` Pair et ` set is"
  proof (intro set_eqI iffI)
    fix x assume "x \<in> ?L"
    then obtain p r i where x: "x = (op_role p, me_entity_type r, i)" "p \<in> set ps" "r \<in> set rs"
      "me_id r = op_result_id p" "canonical_entity_id r = Inr i"
      by blast
    from x(2) traverse_set [OF ps] obtain j where j: "j \<in> set is" "target_payload rule ix o1 et j = Inr p" by auto
    from pay [OF j(2)] obtain r' where r': "r' \<in> set rs" "me_entity_type r' = et" "canonical_entity_id r' = Inr j"
      "p = \<lparr>op_role = map_operand_role (cop_role o1), op_result_id = me_id r'\<rparr>"
      by blast
    have "r = r'" using x r' by (intro one) simp_all
    with x r' j(1) show "x \<in> Pair (map_operand_role (cop_role o1)) ` Pair et ` set is" by simp
  next
    fix x assume "x \<in> Pair (map_operand_role (cop_role o1)) ` Pair et ` set is"
    then obtain j where j: "j \<in> set is" "x = (map_operand_role (cop_role o1), et, j)" by auto
    have "\<exists>ys. traverse (target_payload rule ix o1 et) is = Inr ys" using ps by blast
    then obtain p where p: "target_payload rule ix o1 et j = Inr p" using j(1) unfolding traverse_Inr_ex by blast
    then have "p \<in> set ps" using j(1) traverse_set [OF ps] by blast
    from pay [OF p] obtain r where r: "r \<in> set rs" "me_entity_type r = et" "canonical_entity_id r = Inr j"
      "p = \<lparr>op_role = map_operand_role (cop_role o1), op_result_id = me_id r\<rparr>"
      by blast
    show "x \<in> ?L"
      unfolding mem_Collect_eq j(2) using \<open>p \<in> set ps\<close> r
      by (intro exI [of _ p] exI [of _ r] exI [of _ j]) simp
  qed
  then show ?thesis using tgt by simp
qed

text \<open>One built rule.\<close>

lemma refs_by_pairs:
  "{(f x, me_entity_type r, i) | x r i. x \<in> A \<and> r \<in> B \<and> me_id r = g x \<and> canonical_entity_id r = Inr i} =
   {(role, me_entity_type r, i) | role r i. (role, me_id r) \<in> (\<lambda>x. (f x, g x)) ` A \<and> r \<in> B \<and>
      canonical_entity_id r = Inr i}"
  by (intro set_eqI) (simp only: mem_Collect_eq image_iff prod.inject, metis)

lemma scope_rule_refs_created:
  "scope_rule_refs rs (create_scope_rule ids sc ci n a p ps) =
     {(op_role q, me_entity_type r, i) | q r i. q \<in> set ps \<and> r \<in> set rs \<and> me_id r = op_result_id q \<and>
        canonical_entity_id r = Inr i}"
proof -
  let ?os = "sl_operand_list (create_scope_rule ids sc ci n a p ps)"
  have "map (\<lambda>o1. (so_role o1, so_result_id o1)) ?os = map (\<lambda>q. (op_role q, op_result_id q)) (map snd (enumerate 0 ps))"
    unfolding map_map
    by (simp add: sl_operand_list_def create_scope_rule_def create_operand_def case_prod_beta' comp_def)
  from arg_cong [OF this, of set]
  have same: "(\<lambda>o1. (so_role o1, so_result_id o1)) ` set ?os = (\<lambda>q. (op_role q, op_result_id q)) ` set ps"
    by simp
  show ?thesis unfolding scope_rule_refs_def refs_by_pairs [where f = so_role] refs_by_pairs [where f = op_role] same ..
qed


lemma build_rule_payloads_refs:
  assumes "results_keyed rs" "mk_results_index rs = Inr ix"
    and "mk_group_index addr_ops (ce_addr_objects e) = Inr ai"
    and "mk_service_group_index (ce_services e) = Inr si"
    and "build_rule_operand_payloads rule ix ai si = Inr ps"
  shows "{(op_role q, me_entity_type r, i) | q r i. q \<in> set ps \<and> r \<in> set rs \<and> me_id r = op_result_id q \<and>
      canonical_entity_id r = Inr i} = rule_refs e rule"
proof -
  from assms(5) obtain pss where t: "traverse (operand_payloads rule ix ai si) (cr_operands rule) = Inr pss"
    and ps: "ps = concat pss"
    by (auto simp: build_rule_operand_payloads_def bind_r_eq_Inr)
  let ?refs = "\<lambda>qs. {(op_role q, me_entity_type r, i) | q r i. q \<in> set qs \<and> r \<in> set rs \<and> me_id r = op_result_id q \<and>
      canonical_entity_id r = Inr i}"
  have "?refs (concat pss) = (\<Union>qs \<in> set pss. ?refs qs)" by auto
  also have "\<dots> = (\<Union>o1 \<in> set (cr_operands rule). Pair (map_operand_role (cop_role o1)) ` operand_targets e o1)"
    using t unfolding traverse_Inr_iff
    by (induction rule: list_all2_induct) (simp_all add: operand_payloads_refs [OF assms(1-4)])
  finally show ?thesis unfolding ps rule_refs_def .
qed

definition rule_built :: "can_scope_entities \<Rightarrow> entity_result list \<Rightarrow> uuid \<Rightarrow> can_rule \<Rightarrow> scope_rule \<Rightarrow> bool" where
  "rule_built e rs scope_id rule sr \<longleftrightarrow>
     sl_scope_id sr = scope_id \<and> sl_canonical_rule_id sr = cr_id rule \<and> sl_name sr = cr_name rule \<and>
     sl_action sr = map_rule_action (cr_action rule) \<and> sl_priority sr = cr_priority rule \<and>
     scope_rule_refs rs sr = rule_refs e rule"

lemma build_scope_rules_exact:
  assumes "results_keyed rs" "build_scope_rules ids scope_id rules e rs = Inr srs"
  shows "list_all2 (rule_built e rs scope_id) rules srs"
proof -
  from assms(2) obtain ix ai si where ix: "mk_results_index rs = Inr ix"
    and ai: "mk_group_index addr_ops (ce_addr_objects e) = Inr ai"
    and si: "mk_service_group_index (ce_services e) = Inr si"
    and t: "traverse (build_scope_rule scope_id ix ai si) (map (\<lambda>(i, rule). (ids i, rule)) (enumerate 0 rules)) = Inr srs"
    by (auto simp: build_scope_rules_def bind_r_eq_Inr)
  have one: "rule_built e rs scope_id rule sr" if "build_scope_rule scope_id ix ai si (is, rule) = Inr sr" for "is" rule sr
  proof -
    from that obtain ps where ps: "build_rule_operand_payloads rule ix ai si = Inr ps"
      and sr: "sr = create_scope_rule is scope_id (cr_id rule) (cr_name rule) (map_rule_action (cr_action rule))
           (cr_priority rule) ps"
      by (auto simp: build_scope_rule_def bind_r_eq_Inr)
    show ?thesis
      using build_rule_payloads_refs [OF assms(1) ix ai si ps]
      unfolding rule_built_def sr scope_rule_refs_created by (simp add: create_scope_rule_def)
  qed
  have "list_all2 (\<lambda>(i, rule) sr. rule_built e rs scope_id rule sr) (enumerate 0 rules) srs"
    using t unfolding traverse_Inr_iff list_all2_map1
    by (rule list_all2_mono) (auto intro: one)
  then have "list_all2 (rule_built e rs scope_id) (map snd (enumerate 0 rules)) srs"
    unfolding list_all2_map1 by (rule list_all2_mono) auto
  then show ?thesis by simp
qed


section \<open>Every operand has its result\<close>

definition object_operand_ok :: "'a group_ops \<Rightarrow> 'a list \<Rightarrow> can_operand \<Rightarrow> bool" where
  "object_operand_ok ops xs o1 \<longleftrightarrow>
     (\<exists>x \<in> set xs. cop_target_object_id o1 = Some (go_id ops x) \<and>
        (go_is_group ops x \<longrightarrow> \<not> nested ops xs 3 (go_id ops x) \<and>
           (\<exists>y. belongs ops xs (go_id ops x) y \<and> \<not> go_is_group ops y)))"

definition operand_ok :: "can_scope_entities \<Rightarrow> can_operand \<Rightarrow> bool" where
  "operand_ok e o1 \<longleftrightarrow>
     (if cop_role o1 = CR_SRC_ZONE \<or> cop_role o1 = CR_DST_ZONE then
        \<exists>z \<in> set (ce_zones e). cop_target_zone_id o1 = Some (cz_id z)
      else if cop_role o1 = CR_SRC_OBJECT \<or> cop_role o1 = CR_DST_OBJECT then
        object_operand_ok addr_ops (ce_addr_objects e) o1
      else object_operand_ok service_ops (ce_services e) o1)"

lemma belongs_sub: "belongs ops xs g x \<Longrightarrow> x \<in> set xs"
  by (induction rule: belongs.induct)

lemma object_targets_resolve:
  assumes "mk_group_index ops xs = Inr ix" "object_operand_ok ops xs o1"
  shows "\<exists>is. resolve_object_targets ops ix et n m o1 = Inr (et, is) \<and>
    set is \<subseteq> go_id ops ` {x \<in> set xs. \<not> go_is_group ops x}"
proof -
  note ok = mk_group_index_ok [OF assms(1)]
  from assms(2) obtain x where x: "x \<in> set xs" "cop_target_object_id o1 = Some (go_id ops x)"
    "go_is_group ops x \<Longrightarrow> \<not> nested ops xs 3 (go_id ops x)"
    "go_is_group ops x \<Longrightarrow> \<exists>y. belongs ops xs (go_id ops x) y \<and> \<not> go_is_group ops y"
    unfolding object_operand_ok_def by blast
  have get: "gi_get ops ix (go_id ops x) = Inr x" using x(1) by (simp add: index_get [OF ok])
  show ?thesis
  proof (cases "go_is_group ops x")
    case False
    with x get show ?thesis by (auto simp: resolve_object_targets_def gi_is_group_def)
  next
    case True
    then have g: "is_group_id ops xs (go_id ops x)" using x(1) by (auto simp: is_group_id_def)
    obtain ls where ls: "resolve_group_leaves ops ix (go_id ops x) = Inr ls"
      using group_leaves_resolved(2) [OF assms(1) g] x(3) [OF True] by blast
    have leaves: "set ls = {y. belongs ops xs (go_id ops x) y \<and> \<not> go_is_group ops y}"
      using group_leaves_resolved(1) [OF assms(1) g ls] by simp
    with x(4) [OF True] have "ls \<noteq> []" by auto
    then have "resolve_object_targets ops ix et n m o1 = Inr (et, map (go_id ops) ls)"
      using True get ls by (simp add: resolve_object_targets_def x(2) gi_is_group_def)
    moreover have "set (map (go_id ops) ls) \<subseteq> go_id ops ` {x \<in> set xs. \<not> go_is_group ops x}"
      unfolding set_map leaves using belongs_sub by (intro image_mono) auto
    ultimately show ?thesis by blast
  qed
qed

lemma operand_targets_resolve:
  assumes "mk_group_index addr_ops (ce_addr_objects e) = Inr ai"
    and "mk_service_group_index (ce_services e) = Inr si" "operand_ok e o1"
  shows "\<exists>et is. resolve_operand_targets ai si o1 = Inr (et, is) \<and> Pair et ` set is \<subseteq> set (scope_targets e)"
proof (cases "cop_role o1 = CR_SRC_ZONE \<or> cop_role o1 = CR_DST_ZONE")
  case True
  with assms(3) obtain z where "z \<in> set (ce_zones e)" "cop_target_zone_id o1 = Some (cz_id z)"
    by (auto simp: operand_ok_def)
  with True show ?thesis by (auto simp: resolve_operand_targets_def scope_targets_def)
next
  case zone: False
  have leaf: "x \<in> set (filter addr_leaf (ce_addr_objects e)) \<longleftrightarrow> x \<in> set (ce_addr_objects e) \<and> \<not> go_is_group addr_ops x"
    "y \<in> set (filter service_leaf (ce_services e)) \<longleftrightarrow> y \<in> set (ce_services e) \<and> \<not> go_is_group service_ops y" for x y
    by (simp_all add: addr_leaf_def service_leaf_def addr_ops_def service_ops_def)
  show ?thesis
  proof (cases "cop_role o1 = CR_SRC_OBJECT \<or> cop_role o1 = CR_DST_OBJECT")
    case True
    with assms(3) zone have "object_operand_ok addr_ops (ce_addr_objects e) o1" by (simp add: operand_ok_def)
    from object_targets_resolve [OF assms(1) this, of ET_ADDR "''ADDR''" "''objects''"] True zone
    obtain "is" where "resolve_operand_targets ai si o1 = Inr (ET_ADDR, is)"
      "set is \<subseteq> go_id addr_ops ` {x \<in> set (ce_addr_objects e). \<not> go_is_group addr_ops x}"
      by (auto simp: resolve_operand_targets_def)
    moreover have "go_id addr_ops = ca_id" by (simp add: addr_ops_def)
    ultimately show ?thesis by (fastforce simp: scope_targets_def leaf simp del: set_filter)
  next
    case False
    with assms(3) zone have "object_operand_ok service_ops (ce_services e) o1" by (simp add: operand_ok_def)
    from object_targets_resolve [OF assms(2) [unfolded mk_service_group_index_def] this, of ET_SERVICE "''SERVICE''" "''services''"]
      False zone
    obtain "is" where "resolve_operand_targets ai si o1 = Inr (ET_SERVICE, is)"
      "set is \<subseteq> go_id service_ops ` {x \<in> set (ce_services e). \<not> go_is_group service_ops x}"
      by (auto simp: resolve_operand_targets_def)
    moreover have "go_id service_ops = cs_id" by (simp add: service_ops_def)
    ultimately show ?thesis by (fastforce simp: scope_targets_def leaf simp del: set_filter)
  qed
qed

lemma results_index_complete:
  assumes "build_results rids clock sc e cat = Inr rs" "(et, i) \<in> set (scope_targets e)"
  shows "\<exists>ix r. mk_results_index rs = Inr ix \<and> results_get ix et i = Some r"
proof -
  note T = build_results_targets [OF assms(1)]
  have "\<exists>i. canonical_entity_id r = Inr i" if "r \<in> set rs" for r
  proof -
    have "(me_entity_type r, canonical_entity_id r) \<in> set (map (apsnd Inr) (scope_targets e))"
      unfolding T [symmetric] using that by simp
    then show ?thesis by auto
  qed
  then obtain key where key: "\<forall>r \<in> set rs. canonical_entity_id r = Inr (key r)" by metis
  have "(et, Inr i) \<in> set (map (\<lambda>r. (me_entity_type r, canonical_entity_id r)) rs)"
    unfolding T using assms(2) by force
  then obtain r where "r \<in> set rs" "me_entity_type r = et" "canonical_entity_id r = Inr i" by auto
  with key have "map_of (dict_of (\<lambda>r. (me_entity_type r, key r)) rs) (et, i) \<noteq> None"
    by (auto simp: dict_of_None_iff)
  then show ?thesis unfolding results_index_get [OF key] results_get_def by auto
qed

lemma build_rules_total:
  assumes "build_results rids clock sc e cat = Inr rs"
    and "groups_ok addr_ops (ce_addr_objects e)" "groups_ok service_ops (ce_services e)"
    and "\<forall>rule \<in> set rules. \<forall>o1 \<in> set (cr_operands rule). operand_ok e o1"
  shows "\<exists>srs. build_scope_rules ids sc rules e rs = Inr srs"
proof -
  obtain ai where ai: "mk_group_index addr_ops (ce_addr_objects e) = Inr ai"
    using assms(2) by (auto simp flip: mk_group_index_iff)
  obtain si where si: "mk_service_group_index (ce_services e) = Inr si"
    using assms(3) by (auto simp: mk_service_group_index_def simp flip: mk_group_index_iff)
  have "\<forall>r \<in> set rs. \<exists>i. canonical_entity_id r = Inr i"
    using build_results_member [OF assms(1)] by (metis build_result_fields(1))
  then obtain key where "\<forall>r \<in> set rs. canonical_entity_id r = Inr (key r)" by metis
  from results_index_get [OF this] obtain ix where ix: "mk_results_index rs = Inr ix" by blast
  have op: "\<exists>ps. operand_payloads rule ix ai si o1 = Inr ps" if "rule \<in> set rules" "o1 \<in> set (cr_operands rule)" for rule o1
  proof -
    from operand_targets_resolve [OF ai si] assms(4) that obtain et "is" where
      t: "resolve_operand_targets ai si o1 = Inr (et, is)" "Pair et ` set is \<subseteq> set (scope_targets e)"
      by blast
    have "\<exists>p. target_payload rule ix o1 et i = Inr p" if "i \<in> set is" for i
      using results_index_complete [OF assms(1), of et i] that t(2) ix
      by (fastforce simp: target_payload_def)
    then have "\<exists>ps. traverse (target_payload rule ix o1 et) is = Inr ps" by (simp add: traverse_Inr_ex)
    with t(1) show ?thesis by (simp add: operand_payloads_def)
  qed
  have rule: "\<exists>sr. build_scope_rule sc ix ai si (i, rule) = Inr sr" if "rule \<in> set rules" for i rule
  proof -
    have "\<exists>pss. traverse (operand_payloads rule ix ai si) (cr_operands rule) = Inr pss"
      using op [OF that] by (simp add: traverse_Inr_ex)
    then show ?thesis by (auto simp: build_scope_rule_def build_rule_operand_payloads_def)
  qed
  have "\<exists>srs. traverse (build_scope_rule sc ix ai si) (map (\<lambda>(i, rule). (ids i, rule)) (enumerate 0 rules)) = Inr srs"
    unfolding traverse_Inr_ex by (auto intro!: rule dest: in_enumerate)
  with ix ai si show ?thesis by (simp add: build_scope_rules_def)
qed

end
