(* ===== verification/Mapping_Store.thy ===== *)
theory Mapping_Store
  imports Mapping_Rules Execute_Plan
begin

text \<open>
  \<open>RuntimeCacheMappingRepository\<close>
  (\<open>src/src/app/modules/mapping/adapters/runtime_cache/repositories.py\<close>): one cache entry per
  mapping scope holds the scope, its rules and its results.

  The operations are proved against the contract of the cache port in the locale
  \<open>mapping_repository\<close>: each reads and replaces the entry of its own scope
  (\<open>..._entry\<close> lemmas), leaves other scopes as they were or lets them expire, and preserves the
  invariant \<open>entry_ok\<close>: rules and results are filed under their own ids, results belong to the
  scope and satisfy \<open>result_ok\<close>.
\<close>

section \<open>Entries and operations\<close>

record mapping_cache_entry =
  mo_scope :: mapping_scope
  mo_rules :: "(uuid \<times> scope_rule) list"
  mo_results :: "(uuid \<times> entity_result) list"

record ('s, 'v) keyed_port = "('s, 'v) cache_port" +
  cp_keys :: "timestamp \<Rightarrow> 's \<Rightarrow> string \<Rightarrow> uuid list \<times> 's"

type_synonym 's mapping_port = "('s, mapping_cache_entry) keyed_port"

definition MAPPING_SCOPE_NAMESPACE :: string where
  "MAPPING_SCOPE_NAMESPACE = ''mapping.scope''"

definition get_scope_entry ::
  "'s mapping_port \<Rightarrow> timestamp \<Rightarrow> 's \<Rightarrow> uuid \<Rightarrow> bool \<Rightarrow> mapping_cache_entry option \<times> 's" where
  "get_scope_entry port now s i touch = cp_get port now s MAPPING_SCOPE_NAMESPACE i touch"

definition require_scope_entry ::
  "'s mapping_port \<Rightarrow> timestamp \<Rightarrow> 's \<Rightarrow> uuid \<Rightarrow> (exc + mapping_cache_entry) \<times> 's" where
  "require_scope_entry port now s i =
     (case get_scope_entry port now s i True of
        (None, s1) \<Rightarrow> (Inl (ValueError ''Mapping scope not found''), s1)
      | (Some e, s1) \<Rightarrow> (Inr e, s1))"

definition set_scope_entry :: "'s mapping_port \<Rightarrow> timestamp \<Rightarrow> 's \<Rightarrow> uuid \<Rightarrow> mapping_cache_entry \<Rightarrow> 's" where
  "set_scope_entry port now s i e = cp_set port now s MAPPING_SCOPE_NAMESPACE i e"

fun read_scope_entries ::
  "'s mapping_port \<Rightarrow> timestamp \<Rightarrow> bool \<Rightarrow> uuid list \<Rightarrow> 's \<Rightarrow> mapping_cache_entry list \<times> 's" where
  "read_scope_entries port now touch [] s = ([], s)"
| "read_scope_entries port now touch (k # ks) s =
     (case get_scope_entry port now s k touch of (e, s1) \<Rightarrow>
       (case read_scope_entries port now touch ks s1 of (es, s2) \<Rightarrow>
         ((case e of None \<Rightarrow> es | Some x \<Rightarrow> x # es), s2)))"

definition iter_scope_entries ::
  "'s mapping_port \<Rightarrow> timestamp \<Rightarrow> 's \<Rightarrow> bool \<Rightarrow> mapping_cache_entry list \<times> 's" where
  "iter_scope_entries port now s touch =
     (case cp_keys port now s MAPPING_SCOPE_NAMESPACE of (ks, s1) \<Rightarrow> read_scope_entries port now touch ks s1)"

definition materialize_scope :: "mapping_cache_entry \<Rightarrow> mapping_scope" where
  "materialize_scope e = (mo_scope e)\<lparr>sc_rules := Some (sort_key sl_priority (map snd (mo_rules e)))\<rparr>"

definition add_scope ::
  "'s mapping_port \<Rightarrow> timestamp \<Rightarrow> 's \<Rightarrow> mapping_scope \<Rightarrow> (exc + mapping_scope) \<times> 's" where
  "add_scope port now s scope =
     (case get_scope_entry port now s (sc_id scope) False of
        (Some _, s1) \<Rightarrow>
          (Inl (ValueError (''Mapping scope '' @ uuid_text (sc_id scope) @ '' already exists'')), s1)
      | (None, s1) \<Rightarrow>
          (Inr scope, set_scope_entry port now s1 (sc_id scope)
             \<lparr>mo_scope = scope, mo_rules = [], mo_results = []\<rparr>))"

definition get_scope_by_id ::
  "'s mapping_port \<Rightarrow> timestamp \<Rightarrow> 's \<Rightarrow> uuid \<Rightarrow> mapping_scope option \<times> 's" where
  "get_scope_by_id port now s i =
     (case get_scope_entry port now s i True of (e, s1) \<Rightarrow> (map_option materialize_scope e, s1))"

definition refresh_catalog_fingerprint ::
  "'s mapping_port \<Rightarrow> timestamp \<Rightarrow> 's \<Rightarrow> uuid \<Rightarrow> string \<Rightarrow> (exc + mapping_scope) \<times> 's" where
  "refresh_catalog_fingerprint port now s i fingerprint =
     (case require_scope_entry port now s i of
        (Inl e, s1) \<Rightarrow> (Inl e, s1)
      | (Inr e, s1) \<Rightarrow>
          (let e' = e\<lparr>mo_scope := scope_refresh_fingerprint (mo_scope e) fingerprint\<rparr> in
           (Inr (materialize_scope e'), set_scope_entry port now s1 i e')))"

fun check_new_rules :: "uuid \<Rightarrow> uuid set \<Rightarrow> scope_rule list \<Rightarrow> exc + unit" where
  "check_new_rules scope_id known [] = Inr ()"
| "check_new_rules scope_id known (r # rs) =
     (if sl_scope_id r \<noteq> scope_id then Inl (ValueError ''MappingScopeRule belongs to another scope'')
      else if sl_id r \<in> known then
        Inl (ValueError (''Mapping scope rule '' @ uuid_text (sl_id r) @ '' already exists''))
      else check_new_rules scope_id known rs)"

definition attach_rules ::
  "'s mapping_port \<Rightarrow> timestamp \<Rightarrow> 's \<Rightarrow> uuid \<Rightarrow> scope_rule list \<Rightarrow> (exc + unit) \<times> 's" where
  "attach_rules port now s i rules =
     (case require_scope_entry port now s i of
        (Inl e, s1) \<Rightarrow> (Inl e, s1)
      | (Inr e, s1) \<Rightarrow>
          (if rules = [] then (Inr (), s1)
           else case check_new_rules i (fst ` set (mo_rules e)) rules of
             Inl x \<Rightarrow> (Inl x, s1)
           | Inr _ \<Rightarrow> (Inr (), set_scope_entry port now s1 i
               (e\<lparr>mo_rules := foldl (\<lambda>d r. AList.update (sl_id r) r d) (mo_rules e) rules\<rparr>))))"

definition add_rule_operand ::
  "'s mapping_port \<Rightarrow> timestamp \<Rightarrow> 's \<Rightarrow> uuid \<Rightarrow> scope_rule_operand \<Rightarrow> (exc + unit) \<times> 's" where
  "add_rule_operand port now s i o1 =
     (case require_scope_entry port now s i of
        (Inl e, s1) \<Rightarrow> (Inl e, s1)
      | (Inr e, s1) \<Rightarrow>
          (case map_of (mo_rules e) (so_rule_id o1) of
             None \<Rightarrow> (Inl (ValueError ''MappingScopeRule does not belong to provided scope''), s1)
           | Some r \<Rightarrow> (Inr (), set_scope_entry port now s1 i
               (e\<lparr>mo_rules := AList.update (sl_id r) (r\<lparr>sl_operands := Some (sl_operand_list r @ [o1])\<rparr>)
                 (mo_rules e)\<rparr>))))"

definition list_recent_scopes ::
  "'s mapping_port \<Rightarrow> timestamp \<Rightarrow> 's \<Rightarrow> nat \<Rightarrow> nat \<Rightarrow> mapping_scope list \<times> 's" where
  "list_recent_scopes port now s limit offset =
     (case iter_scope_entries port now s False of (es, s1) \<Rightarrow>
       (take limit (drop offset (sort_key (\<lambda>sc. - sc_created_at sc) (map materialize_scope es))), s1))"

fun check_new_results :: "uuid \<Rightarrow> uuid set \<Rightarrow> entity_result list \<Rightarrow> exc + unit" where
  "check_new_results scope_id known [] = Inr ()"
| "check_new_results scope_id known (r # rs) =
     (if me_mapping_scope_id r \<noteq> scope_id then Inl (ValueError ''MappingEntityResult belongs to another scope'')
      else if me_id r \<in> known then
        Inl (ValueError (''Mapping entity result '' @ uuid_text (me_id r) @ '' already exists''))
      else check_new_results scope_id known rs)"

definition add_results ::
  "'s mapping_port \<Rightarrow> timestamp \<Rightarrow> 's \<Rightarrow> uuid \<Rightarrow> entity_result list \<Rightarrow> (exc + unit) \<times> 's" where
  "add_results port now s i results =
     (case require_scope_entry port now s i of
        (Inl e, s1) \<Rightarrow> (Inl e, s1)
      | (Inr e, s1) \<Rightarrow>
          (if results = [] then (Inr (), s1)
           else case check_new_results i (fst ` set (mo_results e)) results of
             Inl x \<Rightarrow> (Inl x, s1)
           | Inr _ \<Rightarrow> (Inr (), set_scope_entry port now s1 i
               (e\<lparr>mo_results := foldl (\<lambda>d r. AList.update (me_id r) r d) (mo_results e) results\<rparr>))))"

definition get_result ::
  "'s mapping_port \<Rightarrow> timestamp \<Rightarrow> 's \<Rightarrow> uuid \<Rightarrow> uuid \<Rightarrow> entity_result option \<times> 's" where
  "get_result port now s i result_id =
     (case get_scope_entry port now s i True of (e, s1) \<Rightarrow>
       (Option.bind e (\<lambda>e. map_of (mo_results e) result_id), s1))"

definition eq_canonical_entity_id :: "uuid \<Rightarrow> entity_result \<Rightarrow> exc + bool" where
  "eq_canonical_entity_id i r =
     (case canonical_entity_id r of
        Inl e \<Rightarrow> if me_entity_type r \<noteq> ET_ZONE then Inl e else Inr False
      | Inr j \<Rightarrow> Inr (i = j))"

definition find_result_by_canonical_entity ::
  "'s mapping_port \<Rightarrow> timestamp \<Rightarrow> 's \<Rightarrow> uuid \<Rightarrow> mapping_entity_type \<Rightarrow> uuid \<Rightarrow>
   (exc + entity_result option) \<times> 's" where
  "find_result_by_canonical_entity port now s i et canonical_id =
     (case get_scope_entry port now s i True of
        (None, s1) \<Rightarrow> (Inr None, s1)
      | (Some e, s1) \<Rightarrow>
          (bind_r (traverse (\<lambda>r. if me_entity_type r = et
               then bind_r (eq_canonical_entity_id canonical_id r) (\<lambda>b. Inr (if b then [r] else []))
               else Inr []) (map snd (mo_results e)))
             (\<lambda>rss. case concat rss of
                [] \<Rightarrow> Inr None
              | [r] \<Rightarrow> Inr (Some r)
              | rs \<Rightarrow> Inl (ValueError (''Found '' @ nat_str (length rs) @
                  '' mapping results for canonical entity''))), s1))"

definition list_results ::
  "'s mapping_port \<Rightarrow> timestamp \<Rightarrow> 's \<Rightarrow> uuid \<Rightarrow> mapping_entity_type option \<Rightarrow> mapping_result_status option \<Rightarrow>
   entity_result list \<times> 's" where
  "list_results port now s i et st =
     (case get_scope_entry port now s i True of
        (None, s1) \<Rightarrow> ([], s1)
      | (Some e, s1) \<Rightarrow>
          (sort_key (\<lambda>r. (entity_type_value (me_entity_type r), me_created_at r))
            (filter (\<lambda>r. (et = None \<or> et = Some (me_entity_type r)) \<and> (st = None \<or> st = Some (me_result_status r)))
              (map snd (mo_results e))), s1))"

definition merged_result :: "entity_result \<Rightarrow> entity_result \<Rightarrow> entity_result" where
  "merged_result r current =
     r\<lparr>me_candidates := (if me_candidates r = None then me_candidates current else me_candidates r)\<rparr>"

definition save_result ::
  "'s mapping_port \<Rightarrow> timestamp \<Rightarrow> 's \<Rightarrow> entity_result \<Rightarrow> (exc + entity_result) \<times> 's" where
  "save_result port now s r =
     (case require_scope_entry port now s (me_mapping_scope_id r) of
        (Inl e, s1) \<Rightarrow> (Inl e, s1)
      | (Inr e, s1) \<Rightarrow>
          (case map_of (mo_results e) (me_id r) of
             None \<Rightarrow> (Inl (ValueError ''Mapping entity result not found''), s1)
           | Some current \<Rightarrow>
               (let saved = merged_result r current in
                if saved = current then (Inr saved, s1)
                else (Inr saved, set_scope_entry port now s1 (me_mapping_scope_id r)
                  (e\<lparr>mo_results := AList.update (me_id r) saved (mo_results e)\<rparr>)))))"


section \<open>What an entry satisfies\<close>

definition entry_ok :: "uuid \<Rightarrow> mapping_cache_entry \<Rightarrow> bool" where
  "entry_ok i e \<longleftrightarrow>
     sc_id (mo_scope e) = i \<and>
     distinct (map fst (mo_rules e)) \<and> distinct (map fst (mo_results e)) \<and>
     (\<forall>k r. (k, r) \<in> set (mo_rules e) \<longrightarrow> sl_id r = k \<and> sl_scope_id r = i) \<and>
     (\<forall>k r. (k, r) \<in> set (mo_results e) \<longrightarrow> me_id r = k \<and> me_mapping_scope_id r = i \<and> result_ok r)"

lemma entry_okD:
  assumes "entry_ok i e"
  shows "sc_id (mo_scope e) = i" "distinct (map fst (mo_rules e))" "distinct (map fst (mo_results e))"
    "(k, r) \<in> set (mo_rules e) \<Longrightarrow> sl_id r = k \<and> sl_scope_id r = i"
    "(k', r') \<in> set (mo_results e) \<Longrightarrow> me_id r' = k' \<and> me_mapping_scope_id r' = i \<and> result_ok r'"
  using assms by (auto simp: entry_ok_def)

lemma in_update:
  assumes "distinct (map fst d)"
  shows "(k', v') \<in> set (AList.update k v d) \<longleftrightarrow> (if k' = k then v' = v else (k', v') \<in> set d)"
  using update_entries [OF assms] .

lemma entry_ok_rule:
  assumes "entry_ok i e" "sl_scope_id r = i"
  shows "entry_ok i (e\<lparr>mo_rules := AList.update (sl_id r) r (mo_rules e)\<rparr>)"
proof -
  note D = entry_okD [OF assms(1)]
  have "sl_id q = k \<and> sl_scope_id q = i" if "(k, q) \<in> set (AList.update (sl_id r) r (mo_rules e))" for k q
    using that D(4) [of k q] assms(2) by (cases "k = sl_id r") (simp_all add: in_update [OF D(2)])
  with D(1,3,5) distinct_update [OF D(2)] show ?thesis by (simp add: entry_ok_def)
qed

lemma entry_ok_result:
  assumes "entry_ok i e" "me_mapping_scope_id r = i" "result_ok r"
  shows "entry_ok i (e\<lparr>mo_results := AList.update (me_id r) r (mo_results e)\<rparr>)"
proof -
  note D = entry_okD [OF assms(1)]
  have "me_id q = k \<and> me_mapping_scope_id q = i \<and> result_ok q"
    if "(k, q) \<in> set (AList.update (me_id r) r (mo_results e))" for k q
    using that D(5) [of k q] assms(2,3) by (cases "k = me_id r") (simp_all add: in_update [OF D(3)])
  with D(1,2,4) distinct_update [OF D(3)] show ?thesis by (simp add: entry_ok_def)
qed

lemma entry_ok_rules:
  assumes "entry_ok i e" "\<forall>r \<in> set rs. sl_scope_id r = i"
  shows "entry_ok i (e\<lparr>mo_rules := foldl (\<lambda>d r. AList.update (sl_id r) r d) (mo_rules e) rs\<rparr>)"
  using assms
proof (induction rs arbitrary: e)
  case (Cons r rs)
  have "entry_ok i (e\<lparr>mo_rules := AList.update (sl_id r) r (mo_rules e)\<rparr>)"
    using Cons.prems by (intro entry_ok_rule) simp_all
  from Cons.IH [OF this] Cons.prems show ?case by simp
qed simp

lemma entry_ok_results:
  assumes "entry_ok i e" "\<forall>r \<in> set rs. me_mapping_scope_id r = i \<and> result_ok r"
  shows "entry_ok i (e\<lparr>mo_results := foldl (\<lambda>d r. AList.update (me_id r) r d) (mo_results e) rs\<rparr>)"
  using assms
proof (induction rs arbitrary: e)
  case (Cons r rs)
  have "entry_ok i (e\<lparr>mo_results := AList.update (me_id r) r (mo_results e)\<rparr>)"
    using Cons.prems by (intro entry_ok_result) simp_all
  from Cons.IH [OF this] Cons.prems show ?case by simp
qed simp

lemma check_new_rules_iff:
  "check_new_rules i known rs = Inr () \<longleftrightarrow> (\<forall>r \<in> set rs. sl_scope_id r = i) \<and> sl_id ` set rs \<inter> known = {}"
  by (induction i known rs rule: check_new_rules.induct) auto

lemma check_new_results_iff:
  "check_new_results i known rs = Inr () \<longleftrightarrow> (\<forall>r \<in> set rs. me_mapping_scope_id r = i) \<and> me_id ` set rs \<inter> known = {}"
  by (induction i known rs rule: check_new_results.induct) auto

lemma fold_update_fresh:
  assumes "distinct (map f xs)" "f ` set xs \<inter> fst ` set d = {}"
  shows "foldl (\<lambda>d x. AList.update (f x) x d) d xs = d @ map (\<lambda>x. (f x, x)) xs"
  using assms
proof (induction xs arbitrary: d)
  case (Cons x xs)
  then have "AList.update (f x) x d = d @ [(f x, x)]" by (intro update_fresh) auto
  moreover have "f ` set xs \<inter> fst ` set (d @ [(f x, x)]) = {}" using Cons.prems by auto
  ultimately show ?case using Cons by simp
qed simp


section \<open>The repository over the contract of the cache\<close>

definition keyed_port_of ::
  "(timestamp \<Rightarrow> 's \<Rightarrow> string \<Rightarrow> uuid \<Rightarrow> bool \<Rightarrow> 'v option \<times> 's) \<Rightarrow>
   (timestamp \<Rightarrow> 's \<Rightarrow> string \<Rightarrow> uuid \<Rightarrow> 'v \<Rightarrow> 's) \<Rightarrow>
   (timestamp \<Rightarrow> 's \<Rightarrow> string \<Rightarrow> uuid list \<times> 's) \<Rightarrow> ('s, 'v) keyed_port" where
  "keyed_port_of get set_value keys = \<lparr>cp_get = get, cp_set = set_value, cp_keys = keys\<rparr>"

lemma keyed_port_of_simps [simp]:
  "cp_get (keyed_port_of g st ks) = g" "cp_set (keyed_port_of g st ks) = st" "cp_keys (keyed_port_of g st ks) = ks"
  by (simp_all add: keyed_port_of_def)

locale mapping_repository = runtime_cache_store ok view get set_value
  for ok :: "'s \<Rightarrow> bool"
    and view :: "timestamp \<Rightarrow> 's \<Rightarrow> string \<Rightarrow> uuid \<Rightarrow> mapping_cache_entry option"
    and get set_value +
  fixes keys :: "timestamp \<Rightarrow> 's \<Rightarrow> string \<Rightarrow> uuid list \<times> 's"
  assumes keys_ok: "ok s \<Longrightarrow> ok (snd (keys t s ns))"
    and keys_view: "ok s \<Longrightarrow> view t (snd (keys t s ns)) ns' k = Some v \<Longrightarrow> view t s ns' k = Some v"
begin

abbreviation port :: "'s mapping_port" where
  "port \<equiv> keyed_port_of get set_value keys"

abbreviation entry :: "timestamp \<Rightarrow> 's \<Rightarrow> uuid \<Rightarrow> mapping_cache_entry option" where
  "entry t s i \<equiv> view t s MAPPING_SCOPE_NAMESPACE i"

lemma get_entry:
  assumes "ok s"
  obtains s1 where "get_scope_entry port t s i b = (entry t s i, s1)" "ok s1" "entry t s1 i = entry t s i"
    "\<forall>j e. entry t s1 j = Some e \<longrightarrow> entry t s j = Some e"
proof
  let ?g = "get t s MAPPING_SCOPE_NAMESPACE i b"
  show "get_scope_entry port t s i b = (entry t s i, snd ?g)"
    using get_value [OF assms] by (simp add: get_scope_entry_def prod_eq_iff)
  show "ok (snd ?g)" by (rule get_ok [OF assms])
  show "entry t (snd ?g) i = entry t s i" by (rule get_same [OF assms])
  show "\<forall>j e. entry t (snd ?g) j = Some e \<longrightarrow> entry t s j = Some e"
    using get_other [OF assms] by blast
qed

lemma require_entry:
  assumes "ok s"
  obtains s1 where "require_scope_entry port t s i =
      ((case entry t s i of None \<Rightarrow> Inl (ValueError ''Mapping scope not found'') | Some e \<Rightarrow> Inr e), s1)"
    "ok s1" "entry t s1 i = entry t s i" "\<forall>j e. entry t s1 j = Some e \<longrightarrow> entry t s j = Some e"
proof -
  obtain s1 where g: "get_scope_entry port t s i True = (entry t s i, s1)" "ok s1"
    "entry t s1 i = entry t s i" "\<forall>j e. entry t s1 j = Some e \<longrightarrow> entry t s j = Some e"
    by (rule get_entry [OF assms, where t = t and i = "i" and b = True])
  have "require_scope_entry port t s i =
      ((case entry t s i of None \<Rightarrow> Inl (ValueError ''Mapping scope not found'') | Some e \<Rightarrow> Inr e), s1)"
    by (simp add: require_scope_entry_def g(1) split: option.split)
  from this g(2-4) show thesis by (rule that)
qed

lemma set_entry:
  assumes "ok s"
  shows "ok (set_scope_entry port t s i e)" "entry t (set_scope_entry port t s i e) i = Some e"
    "j \<noteq> i \<Longrightarrow> entry t (set_scope_entry port t s i e) j = Some e' \<Longrightarrow> entry t s j = Some e'"
proof -
  show "ok (set_scope_entry port t s i e)" "entry t (set_scope_entry port t s i e) i = Some e"
    using assms by (simp_all add: set_scope_entry_def set_ok set_same)
  show "entry t s j = Some e'" if "j \<noteq> i" "entry t (set_scope_entry port t s i e) j = Some e'"
    using set_other [OF assms, of MAPPING_SCOPE_NAMESPACE j MAPPING_SCOPE_NAMESPACE i t e e'] that
    by (simp add: set_scope_entry_def)
qed

text \<open>Every operation changes at most the entry of its scope: \<open>moves\<close> relates the store before
  and after an operation that leaves entry \<open>e\<close> for scope \<open>i\<close>.\<close>

definition moves :: "timestamp \<Rightarrow> uuid \<Rightarrow> 's \<Rightarrow> 's \<Rightarrow> mapping_cache_entry option \<Rightarrow> bool" where
  "moves t i s s' e \<longleftrightarrow>
     ok s' \<and> entry t s' i = e \<and> (\<forall>j x. j \<noteq> i \<longrightarrow> entry t s' j = Some x \<longrightarrow> entry t s j = Some x)"

lemma moves_read:
  assumes "ok s1" "entry t s1 i = e" "\<forall>j x. entry t s1 j = Some x \<longrightarrow> entry t s j = Some x"
  shows "moves t i s s1 e"
  using assms by (simp add: moves_def)

lemma moves_set:
  assumes "ok s1" "\<forall>j x. entry t s1 j = Some x \<longrightarrow> entry t s j = Some x"
  shows "moves t i s (set_scope_entry port t s1 i e) (Some e)"
  using set_entry [OF assms(1)] assms(2) by (auto simp: moves_def)

lemma get_scope_result:
  assumes "ok s" "get_scope_by_id port t s i = (r, s')"
  shows "r = map_option materialize_scope (entry t s i) \<and> moves t i s s' (entry t s i)"
proof -
  obtain s1 where g: "get_scope_entry port t s i True = (entry t s i, s1)" "ok s1"
    "entry t s1 i = entry t s i" "\<forall>j e. entry t s1 j = Some e \<longrightarrow> entry t s j = Some e"
    by (rule get_entry [OF assms(1), where t = t and i = "i" and b = True])
  show ?thesis using assms(2) g(1) moves_read [OF g(2-4)] by (simp add: get_scope_by_id_def)
qed

lemma get_result_result:
  assumes "ok s" "get_result port t s i k = (r, s')"
  shows "r = Option.bind (entry t s i) (\<lambda>e. map_of (mo_results e) k) \<and> moves t i s s' (entry t s i)"
proof -
  obtain s1 where g: "get_scope_entry port t s i True = (entry t s i, s1)" "ok s1"
    "entry t s1 i = entry t s i" "\<forall>j e. entry t s1 j = Some e \<longrightarrow> entry t s j = Some e"
    by (rule get_entry [OF assms(1), where t = t and i = "i" and b = True])
  show ?thesis using assms(2) g(1) moves_read [OF g(2-4)] by (simp add: get_result_def)
qed

lemma list_results_result:
  assumes "ok s" "list_results port t s i et st = (rs, s')"
  shows "rs = (case entry t s i of None \<Rightarrow> []
      | Some e \<Rightarrow> sort_key (\<lambda>r. (entity_type_value (me_entity_type r), me_created_at r))
          (filter (\<lambda>r. (et = None \<or> et = Some (me_entity_type r)) \<and> (st = None \<or> st = Some (me_result_status r)))
            (map snd (mo_results e)))) \<and> moves t i s s' (entry t s i)"
proof -
  obtain s1 where g: "get_scope_entry port t s i True = (entry t s i, s1)" "ok s1"
    "entry t s1 i = entry t s i" "\<forall>j e. entry t s1 j = Some e \<longrightarrow> entry t s j = Some e"
    by (rule get_entry [OF assms(1), where t = t and i = "i" and b = True])
  show ?thesis using assms(2) g(1) moves_read [OF g(2-4)]
    by (simp add: list_results_def split: option.splits)
qed

lemma add_scope_entry:
  assumes "ok s" "add_scope port t s sc = (r, s')"
  shows "case entry t s (sc_id sc) of
      Some e \<Rightarrow> (\<exists>m. r = Inl (ValueError m)) \<and> moves t (sc_id sc) s s' (Some e)
    | None \<Rightarrow> r = Inr sc \<and> moves t (sc_id sc) s s' (Some \<lparr>mo_scope = sc, mo_rules = [], mo_results = []\<rparr>)"
proof -
  obtain s1 where g: "get_scope_entry port t s (sc_id sc) False = (entry t s (sc_id sc), s1)"
    "ok s1" "entry t s1 (sc_id sc) = entry t s (sc_id sc)" "\<forall>j e. entry t s1 j = Some e \<longrightarrow> entry t s j = Some e"
    by (rule get_entry [OF assms(1), where t = t and i = "(sc_id sc)" and b = False])
  show ?thesis
  proof (cases "entry t s (sc_id sc)")
    case None
    with assms(2) g(1) moves_set [OF g(2,4)] show ?thesis by (auto simp: add_scope_def)
  next
    case (Some e)
    with assms(2) g(1) moves_read [OF g(2-4)] show ?thesis by (auto simp: add_scope_def)
  qed
qed

lemma refresh_entry:
  assumes "ok s" "refresh_catalog_fingerprint port t s i fp = (r, s')"
  shows "case entry t s i of
      None \<Rightarrow> (\<exists>m. r = Inl (ValueError m)) \<and> moves t i s s' None
    | Some e \<Rightarrow> (let e' = e\<lparr>mo_scope := scope_refresh_fingerprint (mo_scope e) fp\<rparr> in
        r = Inr (materialize_scope e') \<and> moves t i s s' (Some e'))"
proof -
  obtain s1 where g: "require_scope_entry port t s i =
      ((case entry t s i of None \<Rightarrow> Inl (ValueError ''Mapping scope not found'') | Some e \<Rightarrow> Inr e), s1)"
    "ok s1" "entry t s1 i = entry t s i" "\<forall>j e. entry t s1 j = Some e \<longrightarrow> entry t s j = Some e"
    by (rule require_entry [OF assms(1), where t = t and i = i])
  show ?thesis
  proof (cases "entry t s i")
    case None
    with assms(2) g(1) moves_read [OF g(2-4)] show ?thesis by (auto simp: refresh_catalog_fingerprint_def)
  next
    case (Some e)
    with assms(2) g(1) moves_set [OF g(2,4)] show ?thesis by (auto simp: refresh_catalog_fingerprint_def Let_def)
  qed
qed

lemma attach_rules_entry:
  assumes "ok s" "attach_rules port t s i rules = (r, s')"
  shows "case entry t s i of
      None \<Rightarrow> (\<exists>m. r = Inl m) \<and> moves t i s s' None
    | Some e \<Rightarrow>
        if (\<forall>q \<in> set rules. sl_scope_id q = i) \<and> sl_id ` set rules \<inter> fst ` set (mo_rules e) = {}
        then r = Inr () \<and> moves t i s s'
          (Some (e\<lparr>mo_rules := foldl (\<lambda>d r. AList.update (sl_id r) r d) (mo_rules e) rules\<rparr>))
        else (\<exists>m. r = Inl m) \<and> moves t i s s' (Some e)"
proof -
  obtain s1 where g: "require_scope_entry port t s i =
      ((case entry t s i of None \<Rightarrow> Inl (ValueError ''Mapping scope not found'') | Some e \<Rightarrow> Inr e), s1)"
    "ok s1" "entry t s1 i = entry t s i" "\<forall>j e. entry t s1 j = Some e \<longrightarrow> entry t s j = Some e"
    by (rule require_entry [OF assms(1), where t = t and i = i])
  show ?thesis
  proof (cases "entry t s i")
    case None
    with assms(2) g(1) moves_read [OF g(2-4)] show ?thesis by (auto simp: attach_rules_def)
  next
    case (Some e)
    show ?thesis
    proof (cases "rules = []")
      case True
      with assms(2) g(1) Some moves_read [OF g(2-4)] show ?thesis by (auto simp: attach_rules_def)
    next
      case False
      show ?thesis
      proof (cases "check_new_rules i (fst ` set (mo_rules e)) rules")
        case (Inl x)
        then have "\<not> ((\<forall>q \<in> set rules. sl_scope_id q = i) \<and> sl_id ` set rules \<inter> fst ` set (mo_rules e) = {})"
          unfolding check_new_rules_iff [symmetric] by simp
        moreover have "r = Inl x" "s' = s1" using assms(2) g(1) Some Inl False by (simp_all add: attach_rules_def)
        ultimately show ?thesis using Some moves_read [OF g(2-4)] by (simp only: option.case if_False simp_thms) simp
      next
        case (Inr u)
        then have "(\<forall>q \<in> set rules. sl_scope_id q = i) \<and> sl_id ` set rules \<inter> fst ` set (mo_rules e) = {}"
          unfolding check_new_rules_iff [symmetric] by simp
        with assms(2) g(1) Some Inr False moves_set [OF g(2,4)] show ?thesis by (auto simp: attach_rules_def)
      qed
    qed
  qed
qed

lemma add_results_entry:
  assumes "ok s" "add_results port t s i results = (r, s')"
  shows "case entry t s i of
      None \<Rightarrow> (\<exists>m. r = Inl m) \<and> moves t i s s' None
    | Some e \<Rightarrow>
        if (\<forall>q \<in> set results. me_mapping_scope_id q = i) \<and> me_id ` set results \<inter> fst ` set (mo_results e) = {}
        then r = Inr () \<and> moves t i s s'
          (Some (e\<lparr>mo_results := foldl (\<lambda>d r. AList.update (me_id r) r d) (mo_results e) results\<rparr>))
        else (\<exists>m. r = Inl m) \<and> moves t i s s' (Some e)"
proof -
  obtain s1 where g: "require_scope_entry port t s i =
      ((case entry t s i of None \<Rightarrow> Inl (ValueError ''Mapping scope not found'') | Some e \<Rightarrow> Inr e), s1)"
    "ok s1" "entry t s1 i = entry t s i" "\<forall>j e. entry t s1 j = Some e \<longrightarrow> entry t s j = Some e"
    by (rule require_entry [OF assms(1), where t = t and i = i])
  show ?thesis
  proof (cases "entry t s i")
    case None
    with assms(2) g(1) moves_read [OF g(2-4)] show ?thesis by (auto simp: add_results_def)
  next
    case (Some e)
    show ?thesis
    proof (cases "results = []")
      case True
      with assms(2) g(1) Some moves_read [OF g(2-4)] show ?thesis by (auto simp: add_results_def)
    next
      case False
      show ?thesis
      proof (cases "check_new_results i (fst ` set (mo_results e)) results")
        case (Inl x)
        then have "\<not> ((\<forall>q \<in> set results. me_mapping_scope_id q = i) \<and> me_id ` set results \<inter> fst ` set (mo_results e) = {})"
          unfolding check_new_results_iff [symmetric] by simp
        moreover have "r = Inl x" "s' = s1" using assms(2) g(1) Some Inl False by (simp_all add: add_results_def)
        ultimately show ?thesis using Some moves_read [OF g(2-4)] by (simp only: option.case if_False simp_thms) simp
      next
        case (Inr u)
        then have "(\<forall>q \<in> set results. me_mapping_scope_id q = i) \<and> me_id ` set results \<inter> fst ` set (mo_results e) = {}"
          unfolding check_new_results_iff [symmetric] by simp
        with assms(2) g(1) Some Inr False moves_set [OF g(2,4)] show ?thesis by (auto simp: add_results_def)
      qed
    qed
  qed
qed

lemma add_operand_entry:
  assumes "ok s" "add_rule_operand port t s i o1 = (r, s')"
  shows "case entry t s i of
      None \<Rightarrow> (\<exists>m. r = Inl m) \<and> moves t i s s' None
    | Some e \<Rightarrow>
        (case map_of (mo_rules e) (so_rule_id o1) of
           None \<Rightarrow> (\<exists>m. r = Inl m) \<and> moves t i s s' (Some e)
         | Some q \<Rightarrow> r = Inr () \<and> moves t i s s'
             (Some (e\<lparr>mo_rules := AList.update (sl_id q) (q\<lparr>sl_operands := Some (sl_operand_list q @ [o1])\<rparr>)
               (mo_rules e)\<rparr>)))"
proof -
  obtain s1 where g: "require_scope_entry port t s i =
      ((case entry t s i of None \<Rightarrow> Inl (ValueError ''Mapping scope not found'') | Some e \<Rightarrow> Inr e), s1)"
    "ok s1" "entry t s1 i = entry t s i" "\<forall>j e. entry t s1 j = Some e \<longrightarrow> entry t s j = Some e"
    by (rule require_entry [OF assms(1), where t = t and i = i])
  show ?thesis
  proof (cases "entry t s i")
    case None
    with assms(2) g(1) moves_read [OF g(2-4)] show ?thesis by (auto simp: add_rule_operand_def)
  next
    case (Some e)
    show ?thesis
    proof (cases "map_of (mo_rules e) (so_rule_id o1)")
      case None
      with assms(2) g(1) Some moves_read [OF g(2-4)] show ?thesis by (auto simp: add_rule_operand_def)
    next
      case (Some q)
      with \<open>entry t s i = Some e\<close> assms(2) g(1) moves_set [OF g(2,4)] show ?thesis
        by (auto simp: add_rule_operand_def)
    qed
  qed
qed

lemma save_result_entry:
  assumes "ok s" "save_result port t s q = (r, s')"
  shows "let i = me_mapping_scope_id q in case entry t s i of
      None \<Rightarrow> (\<exists>m. r = Inl m) \<and> moves t i s s' None
    | Some e \<Rightarrow>
        (case map_of (mo_results e) (me_id q) of
           None \<Rightarrow> (\<exists>m. r = Inl m) \<and> moves t i s s' (Some e)
         | Some current \<Rightarrow>
             (let saved = merged_result q current
              in r = Inr saved \<and> moves t i s s'
               (Some (if saved = current then e else e\<lparr>mo_results := AList.update (me_id q) saved (mo_results e)\<rparr>))))"
proof -
  let ?i = "me_mapping_scope_id q"
  obtain s1 where g: "require_scope_entry port t s ?i =
      ((case entry t s ?i of None \<Rightarrow> Inl (ValueError ''Mapping scope not found'') | Some e \<Rightarrow> Inr e), s1)"
    "ok s1" "entry t s1 ?i = entry t s ?i" "\<forall>j e. entry t s1 j = Some e \<longrightarrow> entry t s j = Some e"
    by (rule require_entry [OF assms(1), where t = t and i = "me_mapping_scope_id q"])
  show ?thesis
  proof (cases "entry t s ?i")
    case None
    with assms(2) g(1) moves_read [OF g(2-4)] show ?thesis by (auto simp: save_result_def Let_def)
  next
    case (Some e)
    show ?thesis
    proof (cases "map_of (mo_results e) (me_id q)")
      case None
      with assms(2) g(1) Some moves_read [OF g(2-4)] show ?thesis by (auto simp: save_result_def Let_def)
    next
      case cur: (Some current)
      let ?saved = "merged_result q current"
      show ?thesis
      proof (cases "?saved = current")
        case True
        have "(r, s') = (Inr ?saved, s1)"
          using assms(2) g(1) Some cur True unfolding save_result_def Let_def by simp
        then show ?thesis using moves_read [OF g(2-4)]
          by (simp only: Let_def Some cur option.case True if_True prod.inject simp_thms)
      next
        case False
        have "(r, s') = (Inr ?saved, set_scope_entry port t s1 ?i
            (e\<lparr>mo_results := AList.update (me_id q) ?saved (mo_results e)\<rparr>))"
          using assms(2) g(1) Some cur False unfolding save_result_def Let_def by simp
        then show ?thesis using moves_set [OF g(2,4)]
          by (simp only: Let_def Some cur option.case False if_False prod.inject simp_thms)
      qed
    qed
  qed
qed

end

text \<open>The store is such a repository, whatever the cache class, as long as its laws hold.\<close>

context ttl_cache
begin

lemma store_keys_ok: "store_ok s \<Longrightarrow> store_ok (snd (store_keys ops t s ns))"
  by (simp add: store_keys_def Let_def put_cache_ok get_cache_inv)

lemma store_keys_view:
  assumes "store_ok s" "store_view ops t (snd (store_keys ops t s ns)) ns' k = Some v"
  shows "store_view ops t s ns' k = Some v"
  using assms(2) get_cache_get [OF assms(1) order_refl]
  by (auto simp: store_keys_def Let_def store_view_def put_cache_entry split: if_splits)

end

lemma mapping_repository_store:
  assumes "ttl_cache ops I"
  shows "mapping_repository (ttl_cache.store_ok I) (store_view ops) (store_get ops) (store_set ops) (store_keys ops)"
  by (rule mapping_repository.intro [OF ttl_cache.runtime_store [OF assms] mapping_repository_axioms.intro])
    (rule ttl_cache.store_keys_ok [OF assms], assumption, rule ttl_cache.store_keys_view [OF assms])

interpretation deadline_mapping: mapping_repository deadline.store_ok "store_view deadline_ops"
  "store_get deadline_ops" "store_set deadline_ops" "store_keys deadline_ops"
  by (rule mapping_repository_store) unfold_locales

end
