(* ===== verification/Mapping_Use_Cases.thy ===== *)
theory Mapping_Use_Cases
  imports Mapping_Gateway Mapping_Store
begin

text \<open>
  The use cases of the mapping module (\<open>src/src/app/modules/mapping/application\<close>).

  A use case runs over the runtime cache (\<open>'s\<close>) and the server (\<open>'w\<close>); a \<open>run\<close> is its
  result with both states after it, \<open>None\<close> standing for a run that never returns.  The canonical
  module and the client provider are ports: their operations are fields of \<open>mapping_env\<close>, as are
  the supplies of new ids and times.
\<close>

section \<open>Runs\<close>

type_synonym ('a, 's, 'w) run = "'a result \<times> 's \<times> 'w"

definition run_bind :: "('a, 's, 'w) run \<Rightarrow> ('a \<Rightarrow> 's \<Rightarrow> 'w \<Rightarrow> ('b, 's, 'w) run) \<Rightarrow> ('b, 's, 'w) run" where
  "run_bind m f =
     (case m of (r, s, w) \<Rightarrow>
       (case r of None \<Rightarrow> (None, s, w) | Some (Inl e) \<Rightarrow> (Some (Inl e), s, w) | Some (Inr x) \<Rightarrow> f x s w))"

definition on_store :: "(exc + 'a) \<times> 's \<Rightarrow> 'w \<Rightarrow> ('a, 's, 'w) run" where
  "on_store m w = (case m of (r, s) \<Rightarrow> (Some r, s, w))"

definition on_server :: "'a result \<times> 'w \<Rightarrow> 's \<Rightarrow> ('a, 's, 'w) run" where
  "on_server m s = (case m of (r, w) \<Rightarrow> (r, s, w))"

lemma run_bind_simps [simp]:
  "run_bind (None, s, w) f = (None, s, w)"
  "run_bind (Some (Inl e), s, w) f = (Some (Inl e), s, w)"
  "run_bind (Some (Inr x), s, w) f = f x s w"
  by (simp_all add: run_bind_def)

lemma on_simps [simp]: "on_store (r, s) w = (Some r, s, w)" "on_server (r', w) s = (r', s, w)"
  by (simp_all add: on_store_def on_server_def)

record ('s, 'w) mapping_env =
  mv_port :: "'s mapping_port"
  mv_sha :: "string \<Rightarrow> string"
  mv_acquire :: "uuid \<Rightarrow> string \<Rightarrow> exc + 'w mapping_api"
  mv_scope_entities :: "uuid \<Rightarrow> uuid list \<Rightarrow> exc + can_scope_entities"
  mv_scope_rules :: "uuid \<Rightarrow> uuid list \<Rightarrow> exc + can_rule list"
  mv_addr_object :: "uuid \<Rightarrow> uuid \<Rightarrow> exc + can_addr option"
  mv_service :: "uuid \<Rightarrow> uuid \<Rightarrow> exc + can_service option"
  mv_scope_id :: uuid
  mv_result_ids :: "nat \<Rightarrow> nat \<Rightarrow> uuid"
  mv_rule_ids :: "nat \<Rightarrow> nat \<Rightarrow> uuid"
  mv_clock :: "nat \<Rightarrow> timestamp"


section \<open>Mapping a canonical snapshot\<close>

record map_command =
  mc_scope_title :: string
  mc_profile_id :: uuid
  mc_vpc_id :: string
  mc_target_id :: string
  mc_rules_priority :: sdwan_rule_priority
  mc_snapshot_id :: uuid
  mc_rules_ids :: "uuid list"

record map_result =
  mr_scope_id :: uuid
  mr_summary :: results_summary
  mr_rules_count :: nat

definition check_placement :: "sdwan_device_object \<Rightarrow> sdwan_rule_priority \<Rightarrow> exc + unit" where
  "check_placement target priority =
     (if dv_type target = DT_DEVICE \<and> priority \<noteq> RP_LOCAL then
        Inl (MappingDomainValidationError ''Policies for DEVICE can be placed only in LOCAL placements'')
      else if dv_type target = DT_GROUP \<and> priority \<notin> {RP_PRE, RP_POST} then
        Inl (MappingDomainValidationError ''Policies for GROUP can be placed only in PRE, POST placements'')
      else Inr ())"

definition load_catalog ::
  "('s, 'w) mapping_env \<Rightarrow> 'w \<Rightarrow> map_command \<Rightarrow> sdwan_full_catalog result" where
  "load_catalog env w cmd =
     bind_o (Some (mv_acquire env (mc_profile_id cmd) (mc_vpc_id cmd))) (\<lambda>api.
     bind_o (Some (gw_get_device_object (ma_csp api) w (mc_target_id cmd))) (\<lambda>found.
       case found of
         None \<Rightarrow> Some (Inl (MappingNotFoundError (''Target (device object) '' @ mc_target_id cmd @ '' not found'')))
       | Some target \<Rightarrow>
           (if mc_rules_ids cmd = [] then
              Some (Inl (MappingDomainValidationError ''Canonical rules ids must be provided''))
            else bind_o (Some (check_placement target (mc_rules_priority cmd))) (\<lambda>_.
              gw_get_full_catalog (ma_csp api) w))))"

definition build_scope_graph ::
  "('s, 'w) mapping_env \<Rightarrow> timestamp \<Rightarrow> map_command \<Rightarrow> sdwan_full_catalog \<Rightarrow>
   exc + mapping_scope \<times> entity_result list \<times> scope_rule list" where
  "build_scope_graph env now cmd cat =
     (let scope = create_scope_header (mv_scope_id env) now (mc_scope_title cmd) (mc_snapshot_id cmd)
            (mc_profile_id cmd) (mc_vpc_id cmd) (mc_target_id cmd) (mc_rules_priority cmd)
            (get_fingerprint (mv_sha env) cat) in
      bind_r (mv_scope_entities env (mc_snapshot_id cmd) (mc_rules_ids cmd)) (\<lambda>e.
      bind_r (mv_scope_rules env (mc_snapshot_id cmd) (mc_rules_ids cmd)) (\<lambda>rules.
      bind_r (build_results (mv_result_ids env) (mv_clock env) (sc_id scope) e cat) (\<lambda>results.
      bind_r (build_scope_rules (mv_rule_ids env) (sc_id scope) rules e results) (\<lambda>scope_rules.
        Inr (scope, results, scope_rules))))))"

definition map_canonical_to_sdwan ::
  "('s, 'w) mapping_env \<Rightarrow> timestamp \<Rightarrow> map_command \<Rightarrow> 's \<Rightarrow> 'w \<Rightarrow> (map_result, 's, 'w) run" where
  "map_canonical_to_sdwan env now cmd s w =
     run_bind (on_server (load_catalog env w cmd, w) s) (\<lambda>cat s w.
     run_bind (Some (build_scope_graph env now cmd cat), s, w) (\<lambda>(scope, results, scope_rules) s w.
     run_bind (on_store (add_scope (mv_port env) now s scope) w) (\<lambda>_ s w.
     run_bind (on_store (add_results (mv_port env) now s (sc_id scope) results) w) (\<lambda>_ s w.
     run_bind (on_store (attach_rules (mv_port env) now s (sc_id scope) scope_rules) w) (\<lambda>_ s w.
       (Some (Inr \<lparr>mr_scope_id = sc_id scope, mr_summary = build_results_summary results,
          mr_rules_count = length scope_rules\<rparr>), s, w))))))"


section \<open>Reading a scope\<close>

definition scope_not_found :: "uuid \<Rightarrow> exc" where
  "scope_not_found i = MappingNotFoundError (''Mapping scope '' @ uuid_text i @ '' not found'')"

definition get_mapping_scope ::
  "'s mapping_port \<Rightarrow> timestamp \<Rightarrow> 's \<Rightarrow> uuid \<Rightarrow> (exc + mapping_scope) \<times> 's" where
  "get_mapping_scope port now s i =
     (case get_scope_by_id port now s i of
        (None, s1) \<Rightarrow> (Inl (scope_not_found i), s1)
      | (Some sc, s1) \<Rightarrow> (Inr sc, s1))"

definition get_mapping_scope_rules ::
  "'s mapping_port \<Rightarrow> timestamp \<Rightarrow> 's \<Rightarrow> uuid \<Rightarrow> (exc + scope_rule list \<times> entity_result list) \<times> 's" where
  "get_mapping_scope_rules port now s i =
     (case get_scope_by_id port now s i of
        (None, s1) \<Rightarrow> (Inl (scope_not_found i), s1)
      | (Some sc, s1) \<Rightarrow>
          (if or_empty (sc_rules sc) = [] then
             (Inl (MappingNotFoundError (''Not provided rules for mapping scope '' @ uuid_text i)), s1)
           else case list_results port now s1 (sc_id sc) None None of
             (results, s2) \<Rightarrow> (Inr (or_empty (sc_rules sc), results), s2)))"

definition get_mapping_scopes :: "'s mapping_port \<Rightarrow> timestamp \<Rightarrow> 's \<Rightarrow> mapping_scope list \<times> 's" where
  "get_mapping_scopes port now s = list_recent_scopes port now s 50 0"

definition get_sdwan_of_scope ::
  "('s, 'w) mapping_env \<Rightarrow> timestamp \<Rightarrow> uuid \<Rightarrow> ('w mapping_api \<Rightarrow> 'w \<Rightarrow> 'a result) \<Rightarrow> 's \<Rightarrow> 'w \<Rightarrow>
   ('a, 's, 'w) run" where
  "get_sdwan_of_scope env now i read s w =
     (case get_scope_by_id (mv_port env) now s i of
        (None, s1) \<Rightarrow> (Some (Inl (MappingNotFoundError ''Mapping scope not found'')), s1, w)
      | (Some sc, s1) \<Rightarrow>
          (bind_o (Some (mv_acquire env (sc_csp_profile_id sc) (sc_vpc_id sc))) (\<lambda>api. read api w), s1, w))"

definition get_sdwan_zones ::
  "('s, 'w) mapping_env \<Rightarrow> timestamp \<Rightarrow> uuid \<Rightarrow> 's \<Rightarrow> 'w \<Rightarrow> (sdwan_zone list, 's, 'w) run" where
  "get_sdwan_zones env now i s w = get_sdwan_of_scope env now i (\<lambda>api w. gw_get_zones (ma_csp api) w None) s w"

definition get_sdwan_services ::
  "('s, 'w) mapping_env \<Rightarrow> timestamp \<Rightarrow> uuid \<Rightarrow> 's \<Rightarrow> 'w \<Rightarrow> (sdwan_service list, 's, 'w) run" where
  "get_sdwan_services env now i s w =
     get_sdwan_of_scope env now i (\<lambda>api w. gw_get_services (ma_csp api) w None) s w"

definition get_sdwan_addr_objects ::
  "('s, 'w) mapping_env \<Rightarrow> timestamp \<Rightarrow> uuid \<Rightarrow> 's \<Rightarrow> 'w \<Rightarrow>
   (sdwan_addr_object list \<times> sdwan_network list, 's, 'w) run" where
  "get_sdwan_addr_objects env now i s w =
     get_sdwan_of_scope env now i (\<lambda>api w.
       bind_o (gw_get_addr_objects (ma_csp api) w None) (\<lambda>objs.
       bind_o (Some (gw_get_networks (ma_csp api) w None)) (\<lambda>nets. Some (Inr (objs, nets))))) s w"

definition get_sdwan_targets ::
  "('s, 'w) mapping_env \<Rightarrow> uuid \<Rightarrow> string \<Rightarrow> 'w \<Rightarrow> exc + sdwan_device_object list" where
  "get_sdwan_targets env profile_id vpc_id w =
     bind_r (mv_acquire env profile_id vpc_id) (\<lambda>api. gw_get_device_objects (ma_csp api) w)"


section \<open>Refreshing the catalog fingerprint\<close>

definition refresh_scope_fingerprint ::
  "('s, 'w) mapping_env \<Rightarrow> timestamp \<Rightarrow> uuid \<Rightarrow> 's \<Rightarrow> 'w \<Rightarrow> (mapping_scope \<times> bool, 's, 'w) run" where
  "refresh_scope_fingerprint env now i s w =
     (case get_scope_by_id (mv_port env) now s i of
        (None, s1) \<Rightarrow> (Some (Inl (scope_not_found i)), s1, w)
      | (Some sc, s1) \<Rightarrow>
          run_bind
            (bind_o (Some (mv_acquire env (sc_csp_profile_id sc) (sc_vpc_id sc)))
               (\<lambda>api. gw_get_full_catalog (ma_csp api) w), s1, w)
            (\<lambda>cat s w.
              (let fingerprint = get_fingerprint (mv_sha env) cat in
               if fingerprint = sc_catalog_fingerprint sc then (Some (Inr (sc, False)), s, w)
               else run_bind (on_store (refresh_catalog_fingerprint (mv_port env) now s (sc_id sc) fingerprint) w)
                 (\<lambda>refreshed s w. (Some (Inr (refreshed, True)), s, w)))))"


section \<open>Selecting an SD-WAN object for a result\<close>

definition result_not_found :: "uuid \<Rightarrow> string \<Rightarrow> exc" where
  "result_not_found i what = MappingNotFoundError (''Mapping Result with id '' @ uuid_text i @ what)"

definition select_entity_candidate ::
  "'s mapping_port \<Rightarrow> timestamp \<Rightarrow> uuid \<Rightarrow> uuid \<Rightarrow> uuid \<Rightarrow> 's \<Rightarrow> (exc + entity_result) \<times> 's" where
  "select_entity_candidate port now scope_id result_id candidate_id s =
     (case get_result port now s scope_id result_id of
        (None, s1) \<Rightarrow> (Inl (result_not_found result_id '' not found''), s1)
      | (Some r, s1) \<Rightarrow>
          (if candidates_list r = [] then (Inl (MappingDomainValidationError ''Candidates not provided''), s1)
           else if length (candidates_list r) = 1 then
             (Inl (MappingDomainValidationError (''Mapping Result with id '' @ uuid_text result_id @
                '' has single candidate only'')), s1)
           else case map_of (dict_of mc_id (candidates_list r)) candidate_id of
             None \<Rightarrow> (Inl (MappingDomainValidationError (''Candidate '' @ uuid_text candidate_id @
                '' not linked to MappingResult '' @ uuid_text result_id)), s1)
           | Some c \<Rightarrow>
               (case select_candidate c r of
                  Inl e \<Rightarrow> (Inl e, s1)
                | Inr updated \<Rightarrow>
                    (case save_result port now s1 updated of
                       (Inl e, s2) \<Rightarrow> (Inl e, s2)
                     | (Inr _, s2) \<Rightarrow> (Inr updated, s2)))))"

text \<open>The id of the SD-WAN object of the result's type, if the server has it.\<close>

definition get_sdwan_entity :: "'w mapping_api \<Rightarrow> 'w \<Rightarrow> mapping_entity_type \<Rightarrow> int \<Rightarrow> int option result" where
  "get_sdwan_entity api w et i =
     (case et of
        ET_ZONE \<Rightarrow> bind_o (mg_get_zone api w i) (\<lambda>z. Some (Inr (map_option zn_id z)))
      | ET_SERVICE \<Rightarrow> bind_o (mg_get_service api w i) (\<lambda>v. Some (Inr (map_option sv_id v)))
      | ET_ADDR \<Rightarrow> bind_o (mg_get_addr_object api w i) (\<lambda>a. Some (Inr (map_option ao_id a))))"

definition select_sdwan_entity_directly ::
  "('s, 'w) mapping_env \<Rightarrow> timestamp \<Rightarrow> uuid \<Rightarrow> uuid \<Rightarrow> int \<Rightarrow> 's \<Rightarrow> 'w \<Rightarrow> (entity_result, 's, 'w) run" where
  "select_sdwan_entity_directly env now scope_id result_id sdwan_id s w =
     (case get_result (mv_port env) now s scope_id result_id of
        (None, s1) \<Rightarrow> (Some (Inl (result_not_found result_id '' not found'')), s1, w)
      | (Some r, s1) \<Rightarrow>
          run_bind
            (get_sdwan_of_scope env now scope_id (\<lambda>api w. get_sdwan_entity api w (me_entity_type r) sdwan_id) s1 w)
            (\<lambda>found s w.
              case found of
                None \<Rightarrow> (Some (Inl (MappingNotFoundError (''Sdwan entity with id '' @ int_str sdwan_id @
                  '' and type `'' @ entity_type_value (me_entity_type r) @ ''` not found''))), s, w)
              | Some i \<Rightarrow>
                  run_bind (on_store (save_result (mv_port env) now s (select_direct i r)) w)
                    (\<lambda>_ s w. (Some (Inr (select_direct i r)), s, w))))"

definition addr_object_type_map :: "can_addr_kind \<Rightarrow> sdwan_addr_type option" where
  "addr_object_type_map k =
     (case k of CK_HOST \<Rightarrow> Some AT_HOST | CK_SUBNET \<Rightarrow> Some AT_PREFIX | CK_FQDN \<Rightarrow> Some AT_FQDN
      | CK_RANGE \<Rightarrow> Some AT_IP_RANGE | _ \<Rightarrow> None)"

definition service_proto_map :: "can_service_kind \<Rightarrow> sdwan_l4_proto option" where
  "service_proto_map k = (case k of SK_TCP \<Rightarrow> Some L4_TCP | SK_UDP \<Rightarrow> Some L4_UDP | _ \<Rightarrow> None)"

definition addr_payload_of :: "can_addr \<Rightarrow> sdwan_addr_type \<Rightarrow> exc + addr_payload" where
  "addr_payload_of c t =
     addr_payload_post_init
       \<lparr>ap_type = t, ap_prefix = ca_cidr c,
        ap_host = map_option (\<lambda>x. hd (split_on CHR ''/'' x)) (given (ca_cidr c)), ap_fqdn = ca_fqdn c,
        ap_ip_range_from = ca_range_start c, ap_ip_range_to = ca_range_end c\<rparr>"

definition create_addr_for ::
  "('s, 'w) mapping_env \<Rightarrow> mapping_scope \<Rightarrow> entity_result \<Rightarrow> 'w \<Rightarrow> int result \<times> 'w" where
  "create_addr_for env sc r w =
     (case bind_r (canonical_entity_id r) (mv_addr_object env (sc_canonical_snapshot_id sc)) of
        Inl e \<Rightarrow> (Some (Inl e), w)
      | Inr None \<Rightarrow> (Some (Inl (ValueError (''Canonical addr obj '' @
          uuid_text (projr (canonical_entity_id r)) @ '' not found''))), w)
      | Inr (Some c) \<Rightarrow>
          (case addr_object_type_map (ca_kind c) of
             None \<Rightarrow> (Some (Inl (ValueError (''Addr object kind `'' @ addr_kind_value (ca_kind c) @
               ''` not supported for auto-creation''))), w)
           | Some t \<Rightarrow>
               (case mv_acquire env (sc_csp_profile_id sc) (sc_vpc_id sc) of
                  Inl e \<Rightarrow> (Some (Inl e), w)
                | Inr api \<Rightarrow>
                    (case addr_payload_of c t of
                       Inl e \<Rightarrow> (Some (Inl e), w)
                     | Inr p \<Rightarrow> (case create_addr_object api w p of (a, w1) \<Rightarrow>
                         (bind_o a (\<lambda>a. Some (Inr (ao_id a))), w1))))))"

definition create_service_for ::
  "('s, 'w) mapping_env \<Rightarrow> mapping_scope \<Rightarrow> entity_result \<Rightarrow> 'w \<Rightarrow> int result \<times> 'w" where
  "create_service_for env sc r w =
     (case bind_r (canonical_entity_id r) (mv_service env (sc_canonical_snapshot_id sc)) of
        Inl e \<Rightarrow> (Some (Inl e), w)
      | Inr None \<Rightarrow> (Some (Inl (ValueError (''Canonical service '' @
          uuid_text (projr (canonical_entity_id r)) @ '' not found''))), w)
      | Inr (Some c) \<Rightarrow>
          (case service_proto_map (cs_kind c) of
             None \<Rightarrow> (Some (Inl (ValueError (''Service proto `'' @ service_kind_value (cs_kind c) @
               ''` not supported for auto-creation''))), w)
           | Some p \<Rightarrow>
               (case mv_acquire env (sc_csp_profile_id sc) (sc_vpc_id sc) of
                  Inl e \<Rightarrow> (Some (Inl e), w)
                | Inr api \<Rightarrow>
                    (case service_payload_post_init \<lparr>vp_name = cs_name c, vp_l4_proto = p,
                       vp_port_start = cs_port_from c, vp_port_end = cs_port_to c, vp_icmp_codes = None\<rparr> of
                       Inl e \<Rightarrow> (Some (Inl e), w)
                     | Inr pl \<Rightarrow> (case create_service api w pl of (v, w1) \<Rightarrow>
                         (Some (bind_r v (\<lambda>v. Inr (sv_id v))), w1))))))"

definition select_entity_with_create ::
  "('s, 'w) mapping_env \<Rightarrow> timestamp \<Rightarrow> uuid \<Rightarrow> uuid \<Rightarrow> bool \<Rightarrow> 's \<Rightarrow> 'w \<Rightarrow> (entity_result \<times> bool, 's, 'w) run" where
  "select_entity_with_create env now scope_id result_id refresh s w =
     (case get_result (mv_port env) now s scope_id result_id of
        (None, s1) \<Rightarrow> (Some (Inl (result_not_found result_id '' does not exist'')), s1, w)
      | (Some r, s1) \<Rightarrow>
          (if me_entity_type r = ET_ZONE then
             (Some (Inl (ValueError ''Zone can't be created automatically on SD-WAN'')), s1, w)
           else case get_scope_by_id (mv_port env) now s1 scope_id of
             (None, s2) \<Rightarrow> (Some (Inl (ValueError (''Mapping scope '' @ uuid_text (me_mapping_scope_id r) @
               '' not found''))), s2, w)
           | (Some sc, s2) \<Rightarrow>
               run_bind
                 (on_server (if me_entity_type r = ET_ADDR then create_addr_for env sc r w
                             else create_service_for env sc r w) s2)
                 (\<lambda>i s w.
                   run_bind (on_store (save_result (mv_port env) now s (select_created i r)) w) (\<lambda>_ s w.
                     if refresh then
                       run_bind (refresh_scope_fingerprint env now (sc_id sc) s w)
                         (\<lambda>(_, changed) s w. (Some (Inr (select_created i r, changed)), s, w))
                     else (Some (Inr (select_created i r, False)), s, w)))))"

record auto_select_result =
  ar_failed_selects :: nat
  ar_success_selects :: nat
  ar_errors :: "string list"
  ar_fingerprint_changed :: bool

text \<open>The loop over the unresolved results: an exception is recorded and the loop goes on.\<close>

fun auto_select_loop ::
  "('s, 'w) mapping_env \<Rightarrow> timestamp \<Rightarrow> uuid \<Rightarrow> entity_result list \<Rightarrow> nat \<Rightarrow> string list \<Rightarrow> 's \<Rightarrow> 'w \<Rightarrow>
   (nat \<times> string list, 's, 'w) run" where
  "auto_select_loop env now scope_id [] n errors s w = (Some (Inr (n, errors)), s, w)"
| "auto_select_loop env now scope_id (r # rs) n errors s w =
     (case select_entity_with_create env now scope_id (me_id r) False s w of
        (None, s1, w1) \<Rightarrow> (None, s1, w1)
      | (Some (Inl e), s1, w1) \<Rightarrow> auto_select_loop env now scope_id rs n (errors @ [exc_text e]) s1 w1
      | (Some (Inr _), s1, w1) \<Rightarrow> auto_select_loop env now scope_id rs (n + 1) errors s1 w1)"

definition auto_select_with_create ::
  "('s, 'w) mapping_env \<Rightarrow> timestamp \<Rightarrow> uuid \<Rightarrow> 's \<Rightarrow> 'w \<Rightarrow> (auto_select_result, 's, 'w) run" where
  "auto_select_with_create env now scope_id s w =
     (case get_scope_by_id (mv_port env) now s scope_id of
        (None, s1) \<Rightarrow> (Some (Inl (scope_not_found scope_id)), s1, w)
      | (Some sc, s1) \<Rightarrow>
          (case list_results (mv_port env) now s1 (sc_id sc) None (Some RS_UNRESOLVED) of (unresolved, s2) \<Rightarrow>
            run_bind (auto_select_loop env now (sc_id sc) unresolved 0 [] s2 w) (\<lambda>(n, errors) s w.
              run_bind
                (if n > 0 then run_bind (refresh_scope_fingerprint env now (sc_id sc) s w)
                   (\<lambda>(_, changed) s w. (Some (Inr changed), s, w))
                 else (Some (Inr False), s, w))
                (\<lambda>changed s w. (Some (Inr \<lparr>ar_failed_selects = length errors, ar_success_selects = n,
                   ar_errors = errors, ar_fingerprint_changed = changed\<rparr>), s, w)))))"

end
