(* ===== verification/Mapping_Assign.thy ===== *)
theory Mapping_Assign
  imports Mapping_Use_Cases
begin

text \<open>
  Assigning a zone to all rules of a scope
  (\<open>src/src/app/modules/mapping/application/assign_zone_for_scope.py\<close>), the details of one
  result for the editors (\<open>get_mapping_entity_result_details.py\<close>), and what each operation leaves
  in the scope's entry.
\<close>

section \<open>Assigning a zone\<close>

definition map_zone_direction :: "zone_direction \<Rightarrow> operand_role" where
  "map_zone_direction d = (case d of ZD_SRC_ZONE \<Rightarrow> OR_SRC_ZONE | ZD_DST_ZONE \<Rightarrow> OR_DST_ZONE)"

definition get_scope_with_rules ::
  "'s mapping_port \<Rightarrow> timestamp \<Rightarrow> 's \<Rightarrow> uuid \<Rightarrow> (exc + mapping_scope) \<times> 's" where
  "get_scope_with_rules port now s i =
     (case get_scope_by_id port now s i of
        (None, s1) \<Rightarrow> (Inl (MappingNotFoundError (''Mapping scope with id '' @ uuid_text i @ '' not found'')), s1)
      | (Some sc, s1) \<Rightarrow>
          (if or_empty (sc_rules sc) = [] then
             (Inl (MappingNotFoundError (''Not provided rules for mapping scope '' @ uuid_text i)), s1)
           else (Inr sc, s1)))"

definition get_scope_zone ::
  "('s, 'w) mapping_env \<Rightarrow> mapping_scope \<Rightarrow> int \<Rightarrow> 'w \<Rightarrow> sdwan_zone result" where
  "get_scope_zone env sc i w =
     bind_o (Some (mv_acquire env (sc_csp_profile_id sc) (sc_vpc_id sc))) (\<lambda>api.
     bind_o (mg_get_zone api w i) (\<lambda>z. case z of
       None \<Rightarrow> Some (Inl (MappingNotFoundError (''Zone with id '' @ int_str i @ '' not found in SD-WAN'')))
     | Some z \<Rightarrow> Some (Inr z)))"

definition zone_matches :: "int \<Rightarrow> entity_result \<Rightarrow> bool" where
  "zone_matches zone_id r \<longleftrightarrow> me_result_status r = RS_MATCHED \<and> me_selected_sdwan_entity_id r = Some zone_id"

definition get_matching_zone_results ::
  "'s mapping_port \<Rightarrow> timestamp \<Rightarrow> 's \<Rightarrow> uuid \<Rightarrow> int \<Rightarrow> entity_result list \<times> 's" where
  "get_matching_zone_results port now s scope_id zone_id =
     (case list_results port now s scope_id (Some ET_ZONE) None of
        (rs, s1) \<Rightarrow> (filter (zone_matches zone_id) rs, s1))"

definition is_manual_result :: "entity_result \<Rightarrow> bool" where
  "is_manual_result r \<longleftrightarrow> me_canonical_zone_id r = None \<and> me_canonical_object_id r = None"

definition get_or_create_manual_zone_result ::
  "('s, 'w) mapping_env \<Rightarrow> timestamp \<Rightarrow> (nat \<Rightarrow> uuid) \<Rightarrow> 's \<Rightarrow> uuid \<Rightarrow> int \<Rightarrow> entity_result list \<Rightarrow>
   (exc + entity_result) \<times> 's" where
  "get_or_create_manual_zone_result env now ids s scope_id zone_id matching =
     (case List.find is_manual_result matching of
        Some r \<Rightarrow> (Inr r, s)
      | None \<Rightarrow>
          (let r = create_zone_manually_assigned ids now scope_id zone_id in
           case add_results (mv_port env) now s scope_id [r] of
             (Inl e, s1) \<Rightarrow> (Inl e, s1)
           | (Inr _, s1) \<Rightarrow> (Inr r, s1)))"

fun add_zone_operands ::
  "'s mapping_port \<Rightarrow> timestamp \<Rightarrow> (nat \<Rightarrow> uuid) \<Rightarrow> 's \<Rightarrow> uuid \<Rightarrow> scope_rule list \<Rightarrow> operand_role \<Rightarrow> uuid \<Rightarrow>
   (exc + scope_rule_operand list) \<times> 's" where
  "add_zone_operands port now ids s scope_id [] role result_id = (Inr [], s)"
| "add_zone_operands port now ids s scope_id (r # rs) role result_id =
     (let o1 = create_operand (ids 0) (sl_id r) \<lparr>op_role = role, op_result_id = result_id\<rparr> in
      case add_rule_operand port now s scope_id o1 of
        (Inl e, s1) \<Rightarrow> (Inl e, s1)
      | (Inr _, s1) \<Rightarrow>
          (case add_zone_operands port now (\<lambda>n. ids (Suc n)) s1 scope_id rs role result_id of
             (Inl e, s2) \<Rightarrow> (Inl e, s2)
           | (Inr os, s2) \<Rightarrow> (Inr (o1 # os), s2)))"

definition has_zone :: "operand_role \<Rightarrow> uuid set \<Rightarrow> scope_rule \<Rightarrow> bool" where
  "has_zone role ids r \<longleftrightarrow> (\<exists>o1 \<in> set (sl_operand_list r). so_role o1 = role \<and> so_result_id o1 \<in> ids)"

definition rules_without_zone :: "scope_rule list \<Rightarrow> operand_role \<Rightarrow> entity_result list \<Rightarrow> scope_rule list" where
  "rules_without_zone rules role matching = filter (\<lambda>r. \<not> has_zone role (me_id ` set matching) r) rules"

definition existing_mapping_result :: "entity_result list \<Rightarrow> exc + entity_result" where
  "existing_mapping_result matching =
     (case List.find is_manual_result matching of
        Some r \<Rightarrow> Inr r
      | None \<Rightarrow> (case matching of [] \<Rightarrow> Inl (IndexError ''list index out of range'') | r # _ \<Rightarrow> Inr r))"

definition assign_zone_for_scope ::
  "('s, 'w) mapping_env \<Rightarrow> timestamp \<Rightarrow> (nat \<Rightarrow> uuid) \<Rightarrow> (nat \<Rightarrow> uuid) \<Rightarrow> zone_direction \<Rightarrow> int \<Rightarrow> uuid \<Rightarrow> 's \<Rightarrow> 'w \<Rightarrow>
   (entity_result \<times> scope_rule_operand list, 's, 'w) run" where
  "assign_zone_for_scope env now result_ids operand_ids direction zone_id scope_id s w =
     run_bind (on_store (get_scope_with_rules (mv_port env) now s scope_id) w) (\<lambda>sc s w.
     run_bind (get_scope_zone env sc zone_id w, s, w) (\<lambda>zone s w.
       (let role = map_zone_direction direction in
        case get_matching_zone_results (mv_port env) now s (sc_id sc) (zn_id zone) of (matching, s) \<Rightarrow>
          (let missing = rules_without_zone (or_empty (sc_rules sc)) role matching in
           if missing = [] then
             run_bind (Some (existing_mapping_result matching), s, w) (\<lambda>r s w. (Some (Inr (r, [])), s, w))
           else
             run_bind (on_store (get_or_create_manual_zone_result env now result_ids s (sc_id sc) (zn_id zone)
                 matching) w) (\<lambda>r s w.
             run_bind (on_store (add_zone_operands (mv_port env) now operand_ids s (sc_id sc) missing role
                 (me_id r)) w) (\<lambda>os s w. (Some (Inr (r, os)), s, w)))))))"


section \<open>The details of a result\<close>

record sdwan_display =
  sd_result_id :: uuid
  sd_match_status :: mapping_result_status
  sd_selection_method :: "selection_method option"
  sd_entity :: sdwan_entity_dto

record candidate_display =
  cd_candidate_id :: uuid
  cd_rank :: nat
  cd_score :: int
  cd_strategy :: match_strategy
  cd_sdwan_id :: int
  cd_name :: string
  cd_type :: string
  cd_str_value :: string

record result_details =
  rd_result_id :: uuid
  rd_scope_id :: uuid
  rd_entity_type :: mapping_entity_type
  rd_canonical_entity_id :: "uuid option"
  rd_match_status :: mapping_result_status
  rd_selection_method :: "selection_method option"
  rd_selected_sdwan :: "sdwan_display option"
  rd_candidates :: "candidate_display list"

definition canonical_entity_id_or_none :: "entity_result \<Rightarrow> uuid option" where
  "canonical_entity_id_or_none r = (case canonical_entity_id r of Inl _ \<Rightarrow> None | Inr i \<Rightarrow> Some i)"

definition selected_sdwan_display :: "sdwan_catalog_index \<Rightarrow> entity_result \<Rightarrow> exc + sdwan_display option" where
  "selected_sdwan_display ix r =
     (if me_result_status r \<noteq> RS_MATCHED then Inr None
      else case me_selected_sdwan_entity_id r of
        None \<Rightarrow> Inl (MappingDomainValidationError
          (''Matched mapping result must have selected SD-WAN entity id: '' @ uuid_text (me_id r)))
      | Some i \<Rightarrow> bind_r (get_display_entity ix (me_entity_type r) i) (\<lambda>d.
          Inr (Some \<lparr>sd_result_id = me_id r, sd_match_status = me_result_status r,
            sd_selection_method = me_selection_method r, sd_entity = d\<rparr>)))"

definition candidate_display_of ::
  "sdwan_catalog_index \<Rightarrow> entity_result \<Rightarrow> entity_candidate \<Rightarrow> exc + candidate_display" where
  "candidate_display_of ix r c =
     bind_r (get_display_entity ix (me_entity_type r) (mc_sdwan_entity_id c)) (\<lambda>d.
       Inr \<lparr>cd_candidate_id = mc_id c, cd_rank = mc_rank c, cd_score = mc_score c, cd_strategy = mc_strategy c,
         cd_sdwan_id = mc_sdwan_entity_id c, cd_name = se_name d, cd_type = se_type d,
         cd_str_value = se_str_value d\<rparr>)"

definition candidate_displays :: "sdwan_catalog_index \<Rightarrow> entity_result \<Rightarrow> exc + candidate_display list" where
  "candidate_displays ix r =
     traverse (candidate_display_of ix r)
       (sort_key (\<lambda>c. (int (mc_rank c), - mc_score c)) (candidates_list r))"

definition get_result_details ::
  "('s, 'w) mapping_env \<Rightarrow> timestamp \<Rightarrow> uuid \<Rightarrow> uuid \<Rightarrow> 's \<Rightarrow> 'w \<Rightarrow> (result_details, 's, 'w) run" where
  "get_result_details env now scope_id result_id s w =
     (case get_result (mv_port env) now s scope_id result_id of
        (None, s1) \<Rightarrow> (Some (Inl (MappingNotFoundError (''Mapping result '' @ uuid_text result_id @ '' not found''))),
          s1, w)
      | (Some r, s1) \<Rightarrow>
          run_bind (get_sdwan_of_scope env now scope_id (\<lambda>api w. gw_get_full_catalog (ma_csp api) w) s1 w)
            (\<lambda>cat s w.
              (let ix = mk_sdwan_catalog_index cat in
               (Some (bind_r (selected_sdwan_display ix r) (\<lambda>sel.
                  bind_r (candidate_displays ix r) (\<lambda>cands.
                    Inr \<lparr>rd_result_id = me_id r, rd_scope_id = me_mapping_scope_id r,
                      rd_entity_type = me_entity_type r, rd_canonical_entity_id = canonical_entity_id_or_none r,
                      rd_match_status = me_result_status r, rd_selection_method = me_selection_method r,
                      rd_selected_sdwan = sel, rd_candidates = cands\<rparr>))), s, w))))"

end
