(* ===== verification/Mapping_Reader.thy ===== *)
theory Mapping_Reader
  imports Mapping_Use_Cases Execute_Prepare
begin

text \<open>
  \<open>MappingReader\<close> (\<open>src/src/app/modules/execute/adapters/mapping_reader.py\<close>): the execute
  module reads the rules of a mapping scope as SD-WAN ids, and the metadata of the scope.

  \<open>read_rules_exact\<close>: rules are read only when every result of the scope is matched, in priority
  order, and the ids of a role are the selections of the operands of that role, in their order.
\<close>

section \<open>Reading the rules\<close>

definition mapped_action_of :: "scope_rule_action \<Rightarrow> mapped_action" where
  "mapped_action_of a = (case a of SA_ACCEPT \<Rightarrow> MAPPED_ACCEPT | SA_REJECT \<Rightarrow> MAPPED_REJECT)"

definition operand_selection ::
  "(uuid \<times> entity_result) list \<Rightarrow> scope_rule_operand \<Rightarrow> exc + operand_role \<times> int" where
  "operand_selection by_id o1 =
     (case map_of by_id (so_result_id o1) of
        None \<Rightarrow> Inl (ExecuteModuleError (''Not found mapping result for mapped rule operand '' @ uuid_text (so_id o1)))
      | Some r \<Rightarrow>
          (case me_selected_sdwan_entity_id r of
             None \<Rightarrow> Inl (ExecuteModuleError (''Mapping result of mapped rule operand '' @ uuid_text (so_id o1) @
               '' has no assigned sdwan id''))
           | Some i \<Rightarrow> Inr (so_role o1, i)))"

definition role_ids :: "operand_role \<Rightarrow> (operand_role \<times> int) list \<Rightarrow> int list" where
  "role_ids role xs = map snd (filter (\<lambda>x. fst x = role) xs)"

definition all_roles :: "operand_role list" where
  "all_roles = [OR_SRC_ZONE, OR_DST_ZONE, OR_SRC_ADDR_OBJECT, OR_DST_ADDR_OBJECT, OR_SERVICE]"

definition read_rule :: "(uuid \<times> entity_result) list \<Rightarrow> scope_rule \<Rightarrow> exc + mapped_rule_data" where
  "read_rule by_id rule =
     (case sl_operands rule of
        None \<Rightarrow> Inl (ExecuteModuleError (''Not provided operands for rule '' @ uuid_text (sl_id rule)))
      | Some os \<Rightarrow>
          bind_r (traverse (operand_selection by_id) os) (\<lambda>xs.
            (let missing = filter (\<lambda>r. role_ids r xs = []) all_roles in
             if missing \<noteq> [] then
               Inl (ExecuteModuleError (''Mapped rule '' @ uuid_text (sl_id rule) @
                 '' has no selected SD-WAN objects for required roles: '' @
                 join '', '' (map operand_role_value missing)))
             else Inr \<lparr>md_id = sl_id rule, md_name = sl_name rule, md_action = mapped_action_of (sl_action rule),
               md_priority = sl_priority rule, md_src_zones = role_ids OR_SRC_ZONE xs,
               md_dst_zones = role_ids OR_DST_ZONE xs, md_src_addr_objects = role_ids OR_SRC_ADDR_OBJECT xs,
               md_dst_addr_objects = role_ids OR_DST_ADDR_OBJECT xs, md_services = role_ids OR_SERVICE xs\<rparr>)))"

definition read_rules :: "uuid \<Rightarrow> scope_rule list \<Rightarrow> entity_result list \<Rightarrow> exc + mapped_rule_data list" where
  "read_rules scope_id rules results =
     (if \<exists>r \<in> set results. me_result_status r \<noteq> RS_MATCHED then
        Inl (ExecuteModuleError (''Mapping scope '' @ uuid_text scope_id @ '' has unmatched objects.''))
      else traverse (read_rule (dict_of me_id results)) (sort_key sl_priority rules))"

definition reader_scope_rules ::
  "'s mapping_port \<Rightarrow> timestamp \<Rightarrow> 's \<Rightarrow> uuid \<Rightarrow> (exc + mapped_rule_data list) \<times> 's" where
  "reader_scope_rules port now s scope_id =
     (case get_mapping_scope_rules port now s scope_id of
        (Inl e, s1) \<Rightarrow> (Inl e, s1)
      | (Inr (rules, results), s1) \<Rightarrow> (read_rules scope_id rules results, s1))"

definition reader_scope_data ::
  "'s mapping_port \<Rightarrow> timestamp \<Rightarrow> 's \<Rightarrow> uuid \<Rightarrow> (exc + mapping_scope_data) \<times> 's" where
  "reader_scope_data port now s scope_id =
     (case get_mapping_scope port now s scope_id of
        (Inl e, s1) \<Rightarrow> (Inl e, s1)
      | (Inr sc, s1) \<Rightarrow>
          (Inr \<lparr>ms_id = sc_id sc, ms_title = sc_title sc, ms_csp_profile_id = sc_csp_profile_id sc,
             ms_vpc_id = sc_vpc_id sc, ms_sdwan_target_id = sc_sdwan_target_id sc,
             ms_rules_priority = sc_rules_priority sc, ms_catalog_fingerprint = sc_catalog_fingerprint sc\<rparr>, s1))"


section \<open>What is read\<close>

definition ids_of_role :: "entity_result list \<Rightarrow> scope_rule \<Rightarrow> operand_role \<Rightarrow> int list" where
  "ids_of_role results rule role =
     map (\<lambda>o1. the (me_selected_sdwan_entity_id (the (map_of (dict_of me_id results) (so_result_id o1)))))
       (filter (\<lambda>o1. so_role o1 = role) (sl_operand_list rule))"

definition rule_read :: "entity_result list \<Rightarrow> scope_rule \<Rightarrow> mapped_rule_data \<Rightarrow> bool" where
  "rule_read results rule m \<longleftrightarrow>
     md_id m = sl_id rule \<and> md_name m = sl_name rule \<and> md_action m = mapped_action_of (sl_action rule) \<and>
     md_priority m = sl_priority rule \<and>
     md_src_zones m = ids_of_role results rule OR_SRC_ZONE \<and>
     md_dst_zones m = ids_of_role results rule OR_DST_ZONE \<and>
     md_src_addr_objects m = ids_of_role results rule OR_SRC_ADDR_OBJECT \<and>
     md_dst_addr_objects m = ids_of_role results rule OR_DST_ADDR_OBJECT \<and>
     md_services m = ids_of_role results rule OR_SERVICE"

definition rule_complete :: "mapped_rule_data \<Rightarrow> bool" where
  "rule_complete m \<longleftrightarrow> md_src_zones m \<noteq> [] \<and> md_dst_zones m \<noteq> [] \<and> md_src_addr_objects m \<noteq> [] \<and>
     md_dst_addr_objects m \<noteq> [] \<and> md_services m \<noteq> []"

lemma role_ids_selected:
  assumes "traverse (operand_selection by_id) os = Inr xs"
  shows "role_ids role xs =
    map (\<lambda>o1. the (me_selected_sdwan_entity_id (the (map_of by_id (so_result_id o1)))))
      (filter (\<lambda>o1. so_role o1 = role) os)"
  using assms unfolding traverse_Inr_iff
proof (induction rule: list_all2_induct)
  case (Cons o1 os x xs)
  then have "x = (so_role o1, the (me_selected_sdwan_entity_id (the (map_of by_id (so_result_id o1)))))"
    by (auto simp: operand_selection_def split: option.splits)
  with Cons.IH show ?case by (simp add: role_ids_def)
qed (simp add: role_ids_def)

lemma read_rule_exact:
  assumes "read_rule (dict_of me_id results) rule = Inr m"
  shows "rule_read results rule m \<and> rule_complete m"
proof -
  from assms obtain os xs where os: "sl_operands rule = Some os"
    and xs: "traverse (operand_selection (dict_of me_id results)) os = Inr xs"
    and roles: "filter (\<lambda>r. role_ids r xs = []) all_roles = []"
    and m: "m = \<lparr>md_id = sl_id rule, md_name = sl_name rule, md_action = mapped_action_of (sl_action rule),
               md_priority = sl_priority rule, md_src_zones = role_ids OR_SRC_ZONE xs,
               md_dst_zones = role_ids OR_DST_ZONE xs, md_src_addr_objects = role_ids OR_SRC_ADDR_OBJECT xs,
               md_dst_addr_objects = role_ids OR_DST_ADDR_OBJECT xs, md_services = role_ids OR_SERVICE xs\<rparr>"
    unfolding read_rule_def Let_def by (cases "sl_operands rule") (simp, auto simp: bind_r_eq_Inr split: if_splits)
  have ids: "role_ids role xs = ids_of_role results rule role" for role
    using role_ids_selected [OF xs, of role] os by (simp add: ids_of_role_def sl_operand_list_def)
  have "rule_complete m" using roles by (simp add: m rule_complete_def all_roles_def split: if_splits)
  moreover have "rule_read results rule m" by (simp add: m rule_read_def ids)
  ultimately show ?thesis by simp
qed

lemma read_rules_exact:
  assumes "read_rules scope_id rules results = Inr ms"
  shows "(\<forall>r \<in> set results. me_result_status r = RS_MATCHED) \<and>
    list_all2 (\<lambda>rule m. rule_read results rule m \<and> rule_complete m) (sort_key sl_priority rules) ms"
proof -
  from assms have st: "\<forall>r \<in> set results. me_result_status r = RS_MATCHED"
    and t: "traverse (read_rule (dict_of me_id results)) (sort_key sl_priority rules) = Inr ms"
    by (auto simp: read_rules_def split: if_splits)
  from t have "list_all2 (\<lambda>rule m. rule_read results rule m \<and> rule_complete m) (sort_key sl_priority rules) ms"
    unfolding traverse_Inr_iff by (rule list_all2_mono) (rule read_rule_exact)
  with st show ?thesis by simp
qed

end
