(* ===== verification/Mapping_Samples.thy ===== *)
theory Mapping_Samples
  imports Mapping_Assign Mapping_Reader Execute_Samples
begin

text \<open>
  A small snapshot and catalog, on which the properties of the mapping module are exercised: one
  zone, a host in a group, a TCP service, and a rule over them; the catalog has a zone, a host
  object and a service with the same values.
\<close>

definition sample_can_zone :: can_zone where
  "sample_can_zone = \<lparr>cz_id = 1, cz_zone_key = ''z'', cz_name = ''In-side''\<rparr>"

definition sample_can_host :: can_addr where
  "sample_can_host = \<lparr>ca_id = 7, ca_kind = CK_HOST, ca_name = ''h'', ca_parent_id = Some 9, ca_parent_ids = [9],
     ca_cidr = Some ''0.0.0.1/32'', ca_range_start = None, ca_range_end = None, ca_fqdn = None\<rparr>"

definition sample_can_group :: can_addr where
  "sample_can_group = \<lparr>ca_id = 9, ca_kind = CK_ADDR_GROUP, ca_name = ''g'', ca_parent_id = None, ca_parent_ids = [],
     ca_cidr = None, ca_range_start = None, ca_range_end = None, ca_fqdn = None\<rparr>"

definition sample_can_service :: can_service where
  "sample_can_service = \<lparr>cs_id = 8, cs_kind = SK_TCP, cs_name = ''t'', cs_parent_id = None, cs_parent_ids = [],
     cs_protocol = Some ''tcp'', cs_port_from = Some 1, cs_port_to = Some 9, cs_icmp_type = None, cs_icmp_code = None\<rparr>"

definition sample_entities :: can_scope_entities where
  "sample_entities = \<lparr>ce_zones = [sample_can_zone], ce_addr_objects = [sample_can_host, sample_can_group],
     ce_services = [sample_can_service]\<rparr>"

definition sample_operand :: "nat \<Rightarrow> can_operand_role \<Rightarrow> uuid option \<Rightarrow> uuid option \<Rightarrow> can_operand" where
  "sample_operand i role z x = \<lparr>cop_id = i, cop_rule_id = 2, cop_role = role, cop_target_zone_id = z,
     cop_target_object_id = x\<rparr>"

definition sample_can_rule :: can_rule where
  "sample_can_rule = \<lparr>cr_id = 2, cr_snapshot_id = 3, cr_name = ''r'', cr_action = CAN_PERMIT, cr_priority = 10,
     cr_operands = [sample_operand 11 CR_SRC_ZONE (Some 1) None, sample_operand 12 CR_DST_ZONE (Some 1) None,
       sample_operand 13 CR_SRC_OBJECT None (Some 9), sample_operand 14 CR_DST_OBJECT None (Some 7),
       sample_operand 15 CR_SERVICE None (Some 8)]\<rparr>"

definition sample_host_object :: sdwan_addr_object where
  "sample_host_object = \<lparr>ao_id = 5, ao_parents = [], ao_name = ''h'', ao_type = AT_HOST, ao_network_id = None,
      ao_network = None, ao_prefix = None, ao_host = Some 1, ao_fqdn = None, ao_ip_range_from = None,
      ao_ip_range_to = None, ao_addr_group = None\<rparr>"

definition sample_full_catalog :: sdwan_full_catalog where
  "sample_full_catalog = \<lparr>fc_zones = [sample_zone 4 ''in side''], fc_services = [sample_service 6 [(1, 9)]],
     fc_addr_objs = [sample_host_object], fc_networks = []\<rparr>"

lemmas sample_mapping_defs = sample_can_zone_def sample_can_host_def sample_can_group_def sample_can_service_def
  sample_entities_def sample_operand_def sample_can_rule_def sample_host_object_def sample_full_catalog_def
  sample_zone_def sample_service_def

text \<open>Its results.\<close>

lemma sample_catalog_ok: "\<forall>a \<in> set (fc_addr_objs sample_full_catalog). addr_object_ok a"
  by (simp add: sample_mapping_defs addr_object_ok_def addr_object_post_init_def)

definition sample_result_ids :: "nat \<Rightarrow> nat \<Rightarrow> uuid" where
  "sample_result_ids i j = 100 + 10 * i + j"

definition sample_results :: "entity_result list" where
  "sample_results = projr (build_results sample_result_ids int 50 sample_entities sample_full_catalog)"

lemma sample_built: "build_results sample_result_ids int 50 sample_entities sample_full_catalog = Inr sample_results"
  using build_results_total [OF sample_catalog_ok, of sample_result_ids int 50 sample_entities]
  by (auto simp: sample_results_def)

lemma sample_ids_inj: "inj (\<lambda>i. sample_result_ids i 0)"
  by (simp add: inj_def sample_result_ids_def)

lemma sample_canonical_value: "canonical_value sample_can_host = Some (V_HOST 1)"
proof -
  have p: "hd (split_on CHR ''/'' ''0.0.0.1/32'') = ''0.0.0.1''" "parse_ipv4 ''0.0.0.1'' = Some 1" by code_simp+
  show ?thesis by (simp add: sample_can_host_def canonical_value_def given_def p)
qed

lemma sample_targets: "scope_targets sample_entities = [(ET_ZONE, 1), (ET_ADDR, 7), (ET_SERVICE, 8)]"
  by (simp add: scope_targets_def sample_mapping_defs addr_leaf_def service_leaf_def)

text \<open>The result of each object.\<close>

lemma sample_result:
  assumes "(et, i) \<in> set (scope_targets sample_entities)"
  obtains r where "r \<in> set sample_results" "me_entity_type r = et" "canonical_entity_id r = Inr i"
proof -
  have "(et, Inr i) \<in> set (map (\<lambda>r. (me_entity_type r, canonical_entity_id r)) sample_results)"
    unfolding build_results_targets [OF sample_built] using assms by force
  then show thesis using that by auto
qed

definition sample_rule_ids :: "nat \<Rightarrow> nat \<Rightarrow> uuid" where
  "sample_rule_ids i j = 500 + 10 * i + j"

lemma sample_groups_ok:
  "groups_ok addr_ops (ce_addr_objects sample_entities)" "groups_ok service_ops (ce_services sample_entities)"
  by (simp_all add: groups_ok_def is_group_id_def addr_ops_def service_ops_def sample_mapping_defs)

lemma sample_group_member: "belongs addr_ops (ce_addr_objects sample_entities) 9 sample_can_host"
  by (rule belongs.direct) (simp_all add: addr_ops_def sample_mapping_defs)

lemma sample_not_nested: "\<not> nested addr_ops (ce_addr_objects sample_entities) 3 9"
  by (simp add: numeral_3_eq_3 addr_ops_def sample_mapping_defs)

lemma sample_operands_ok: "\<forall>rule \<in> set [sample_can_rule]. \<forall>o1 \<in> set (cr_operands rule). operand_ok sample_entities o1"
proof -
  have zone: "operand_ok sample_entities (sample_operand i CR_SRC_ZONE (Some 1) None)"
    "operand_ok sample_entities (sample_operand i CR_DST_ZONE (Some 1) None)" for i
    by (simp_all add: operand_ok_def sample_mapping_defs)
  have grp: "operand_ok sample_entities (sample_operand i CR_SRC_OBJECT None (Some 9))" for i
  proof -
    have "sample_can_group \<in> set (ce_addr_objects sample_entities)" "go_id addr_ops sample_can_group = 9"
      "\<not> go_is_group addr_ops sample_can_host"
      by (simp_all add: sample_mapping_defs addr_ops_def)
    with sample_group_member sample_not_nested
    have "object_operand_ok addr_ops (ce_addr_objects sample_entities) (sample_operand i CR_SRC_OBJECT None (Some 9))"
      unfolding object_operand_ok_def by (intro bexI [of _ sample_can_group]) (auto simp: sample_operand_def)
    then show ?thesis by (simp add: operand_ok_def sample_operand_def)
  qed
  have host: "operand_ok sample_entities (sample_operand i CR_DST_OBJECT None (Some 7))" for i
    by (simp add: operand_ok_def object_operand_ok_def addr_ops_def sample_mapping_defs)
  have serv: "operand_ok sample_entities (sample_operand i CR_SERVICE None (Some 8))" for i
    by (simp add: operand_ok_def object_operand_ok_def service_ops_def sample_mapping_defs)
  show ?thesis using zone grp host serv by (simp add: sample_can_rule_def)
qed

lemma sample_rules_built:
  "\<exists>srs. build_scope_rules sample_rule_ids 50 [sample_can_rule] sample_entities sample_results = Inr srs"
  by (rule build_rules_total [OF sample_built sample_groups_ok sample_operands_ok])

lemma sample_keyed: "results_keyed sample_results"
  unfolding results_keyed_def
  using build_results_ids [OF sample_built sample_ids_inj] build_results_member [OF sample_built]
  by (metis build_result_fields(1))

end
