(* ===== verification/Mapping_Steps.thy ===== *)
theory Mapping_Steps
  imports Mapping_Assign
begin

text \<open>
  The mapping module as a state machine: a step is one use case over the cache, at a later time and
  with any command, ids, server and canonical snapshot.  \<open>scopes_ok\<close>, that every scope entry of the
  cache satisfies \<open>entry_ok\<close>, is an invariant of the steps; and the entry that a mapping leaves is
  known exactly (\<open>map_entry\<close>).
\<close>

section \<open>What a use case leaves\<close>

abbreviation store_after :: "('a, 's, 'w) run \<Rightarrow> 's" where
  "store_after m \<equiv> fst (snd m)"

lemma run_bind_keeps:
  assumes "P (store_after m)" "\<And>x s w. m = (Some (Inr x), s, w) \<Longrightarrow> P s \<Longrightarrow> P (store_after (f x s w))"
  shows "P (store_after (run_bind m f))"
proof -
  obtain r s w where m: "m = (r, s, w)" by (cases m)
  with assms show ?thesis by (cases r) (auto simp: run_bind_def split: sum.splits)
qed

lemma merged_ok:
  assumes "result_ok q" "result_ok current" "me_id q = me_id current" "me_result_status q = RS_MATCHED"
  shows "result_ok (merged_result q current)"
proof (cases "me_candidates q")
  case None
  with assms show ?thesis by (auto simp: merged_result_def result_ok_def candidates_list_def)
next
  case (Some cs)
  then have "merged_result q current = q" by (simp add: merged_result_def)
  with assms(1) show ?thesis by simp
qed

section \<open>References between rules and results\<close>

text \<open>Every operand of a rule belongs to the rule and names a result of the scope.\<close>

definition entry_linked :: "mapping_cache_entry \<Rightarrow> bool" where
  "entry_linked e \<longleftrightarrow>
     (\<forall>(k, r) \<in> set (mo_rules e). \<forall>o1 \<in> set (sl_operand_list r).
        so_rule_id o1 = k \<and> so_result_id o1 \<in> fst ` set (mo_results e))"

text \<open>Every rule has an operand in the role whose result is matched with the zone.\<close>

definition zone_assigned :: "operand_role \<Rightarrow> int \<Rightarrow> mapping_cache_entry \<Rightarrow> bool" where
  "zone_assigned role z e \<longleftrightarrow>
     (\<forall>(k, q) \<in> set (mo_rules e). \<exists>o1 \<in> set (sl_operand_list q). so_role o1 = role \<and>
        (\<exists>r. map_of (mo_results e) (so_result_id o1) = Some r \<and> zone_matches z r))"

lemma entry_linkedD:
  "entry_linked e \<Longrightarrow> (k, r) \<in> set (mo_rules e) \<Longrightarrow> o1 \<in> set (sl_operand_list r) \<Longrightarrow>
   so_rule_id o1 = k \<and> so_result_id o1 \<in> fst ` set (mo_results e)"
  unfolding entry_linked_def by fast

lemma sl_operand_list_set [simp]: "sl_operand_list (r\<lparr>sl_operands := Some os\<rparr>) = os"
  by (simp add: sl_operand_list_def)

lemma update_entry_keys: "fst ` set (AList.update k v d) = insert k (fst ` set d)"
  by (simp flip: dom_map_of_conv_image_fst add: update_conv')

lemma keys_fold_update: "fst ` set (foldl (\<lambda>d x. AList.update (f x) (g x) d) d xs) = fst ` set d \<union> f ` set xs"
  by (induction xs arbitrary: d) (auto simp: update_entry_keys)

lemma linked_results:
  assumes "entry_linked e" "fst ` set (mo_results e) \<subseteq> fst ` set d"
  shows "entry_linked (e\<lparr>mo_results := d\<rparr>)"
  using assms unfolding entry_linked_def by fastforce

lemma linked_rule:
  assumes "entry_linked e" "distinct (map fst (mo_rules e))"
    and "\<forall>o1 \<in> set (sl_operand_list r). so_rule_id o1 = sl_id r \<and> so_result_id o1 \<in> fst ` set (mo_results e)"
  shows "entry_linked (e\<lparr>mo_rules := AList.update (sl_id r) r (mo_rules e)\<rparr>)"
  using assms by (fastforce simp: entry_linked_def in_update split: if_splits)

lemma linked_rules:
  assumes "entry_linked e" "distinct (map fst (mo_rules e))"
    and "\<forall>r \<in> set rs. \<forall>o1 \<in> set (sl_operand_list r). so_rule_id o1 = sl_id r \<and> so_result_id o1 \<in> fst ` set (mo_results e)"
  shows "entry_linked (e\<lparr>mo_rules := foldl (\<lambda>d r. AList.update (sl_id r) r d) (mo_rules e) rs\<rparr>)"
  using assms
proof (induction rs arbitrary: e)
  case (Cons r rs)
  let ?e = "e\<lparr>mo_rules := AList.update (sl_id r) r (mo_rules e)\<rparr>"
  have "entry_linked ?e" using Cons.prems by (intro linked_rule) simp_all
  from Cons.IH [OF this] Cons.prems show ?case by (simp add: distinct_update)
qed simp

lemma results_index_values: "mk_results_index rs = Inr ix \<Longrightarrow> map_of ix k = Some r \<Longrightarrow> r \<in> set rs"
proof -
  have "fold_r index_result rs d = Inr ix \<Longrightarrow> map_of ix k = Some r \<Longrightarrow> map_of d k = Some r \<or> r \<in> set rs" for d
  proof (induction rs arbitrary: d)
    case (Cons q rs)
    from Cons.prems(1) obtain d' where d': "index_result q d = Inr d'" "fold_r index_result rs d' = Inr ix"
      by (auto simp: bind_r_eq_Inr)
    from Cons.IH [OF d'(2) Cons.prems(2)] d'(1) show ?case
      by (auto simp: index_result_def update_conv' split: sum.splits if_splits)
  qed simp
  then show "mk_results_index rs = Inr ix \<Longrightarrow> map_of ix k = Some r \<Longrightarrow> r \<in> set rs"
    by (fastforce simp: mk_results_index_def)
qed

lemma built_rules_linked:
  assumes "build_scope_rules ids scope_id rules e rs = Inr srs" "sr \<in> set srs"
  shows "sl_scope_id sr = scope_id"
    "o1 \<in> set (sl_operand_list sr) \<Longrightarrow> so_rule_id o1 = sl_id sr \<and> so_result_id o1 \<in> me_id ` set rs"
proof -
  from assms(1) obtain ix ai si where ix: "mk_results_index rs = Inr ix"
    and t: "traverse (build_scope_rule scope_id ix ai si) (map (\<lambda>(i, rule). (ids i, rule)) (enumerate 0 rules)) = Inr srs"
    by (auto simp: build_scope_rules_def bind_r_eq_Inr)
  from assms(2) traverse_set [OF t] obtain "is" rule where b: "build_scope_rule scope_id ix ai si (is, rule) = Inr sr"
    by auto
  then obtain pss where pss: "traverse (operand_payloads rule ix ai si) (cr_operands rule) = Inr pss"
    and sr: "sr = create_scope_rule is scope_id (cr_id rule) (cr_name rule) (map_rule_action (cr_action rule))
         (cr_priority rule) (concat pss)"
    by (auto simp: build_scope_rule_def build_rule_operand_payloads_def bind_r_eq_Inr)
  show "sl_scope_id sr = scope_id" unfolding sr by (simp add: create_scope_rule_def)
  assume "o1 \<in> set (sl_operand_list sr)"
  then obtain p where p: "so_rule_id o1 = sl_id sr" "so_result_id o1 = op_result_id p" "p \<in> set (concat pss)"
    unfolding sr by (auto simp: sl_operand_list_def create_scope_rule_def create_operand_def dest: in_enumerate)
  from p(3) obtain ps where ps: "ps \<in> set pss" "p \<in> set ps" by auto
  from ps(1) traverse_set [OF pss] obtain co where "operand_payloads rule ix ai si co = Inr ps" by auto
  then obtain et xs where "traverse (target_payload rule ix co et) xs = Inr ps"
    by (auto simp: operand_payloads_def bind_r_eq_Inr)
  from ps(2) traverse_set [OF this] obtain i where "target_payload rule ix co et i = Inr p" by auto
  then have "op_result_id p \<in> me_id ` set rs"
    using results_index_values [OF ix] by (auto simp: target_payload_def results_get_def split: option.splits)
  with p(1,2) show "so_rule_id o1 = sl_id sr \<and> so_result_id o1 \<in> me_id ` set rs" by simp
qed


section \<open>The invariant\<close>

context mapping_repository
begin

definition scopes_ok :: "timestamp \<Rightarrow> 's \<Rightarrow> bool" where
  "scopes_ok t s \<longleftrightarrow> ok s \<and> (\<forall>i e. entry t s i = Some e \<longrightarrow> entry_ok i e \<and> entry_linked e)"

lemma scopes_okD: "scopes_ok t s \<Longrightarrow> ok s" "scopes_ok t s \<Longrightarrow> entry t s i = Some e \<Longrightarrow> entry_ok i e"
  "scopes_ok t s \<Longrightarrow> entry t s i = Some e \<Longrightarrow> entry_linked e"
  by (simp_all add: scopes_ok_def)

lemma bind_ok:
  assumes "scopes_ok t (store_after m)" "\<And>x s w. scopes_ok t s \<Longrightarrow> scopes_ok t (store_after (f x s w))"
  shows "scopes_ok t (store_after (run_bind m f))"
  using assms(1) by (rule run_bind_keeps [where P = "scopes_ok t"]) (rule assms(2))

lemma scopes_ok_later: "scopes_ok t s \<Longrightarrow> t \<le> t' \<Longrightarrow> scopes_ok t' s"
  unfolding scopes_ok_def using later by blast

lemma moves_scopes_ok:
  assumes "scopes_ok t s" "moves t i s s' e" "\<And>x. e = Some x \<Longrightarrow> entry_ok i x \<and> entry_linked x"
  shows "scopes_ok t s'"
proof -
  have "entry_ok j x \<and> entry_linked x" if x: "entry t s' j = Some x" for j x
  proof (cases "j = i")
    case True
    with x assms(2) have "e = Some x" by (simp add: moves_def)
    with assms(3) True show ?thesis by simp
  next
    case False
    with x assms(2) have "entry t s j = Some x" by (simp add: moves_def)
    with assms(1) show ?thesis by (simp add: scopes_okD)
  qed
  then show ?thesis using assms(2) by (simp add: scopes_ok_def moves_def)
qed

lemma read_scopes_ok: "scopes_ok t s \<Longrightarrow> moves t i s s' (entry t s i) \<Longrightarrow> scopes_ok t s'"
  by (rule moves_scopes_ok) (auto dest: scopes_okD)

lemma get_scope_ok: "scopes_ok t s \<Longrightarrow> get_scope_by_id port t s i = (r, s') \<Longrightarrow> scopes_ok t s'"
  using get_scope_result [of s t i r s'] scopes_okD(1) read_scopes_ok by blast

lemma list_results_ok: "scopes_ok t s \<Longrightarrow> list_results port t s i et st = (r, s') \<Longrightarrow> scopes_ok t s'"
  using list_results_result [of s t i et st r s'] scopes_okD(1) read_scopes_ok by blast

lemma get_result_ok:
  assumes "scopes_ok t s" "get_result port t s i k = (r, s')"
  shows "scopes_ok t s'" "r = Some q \<Longrightarrow> result_ok q \<and> me_id q = k \<and> me_mapping_scope_id q = i"
proof -
  note g = get_result_result [OF scopes_okD(1) [OF assms(1)] assms(2)]
  show "scopes_ok t s'" using assms(1) g by (blast intro: read_scopes_ok)
  assume "r = Some q"
  with g have "Option.bind (entry t s i) (\<lambda>e. map_of (mo_results e) k) = Some q" by simp
  then obtain e where e: "entry t s i = Some e" "map_of (mo_results e) k = Some q"
    by (auto simp: bind_eq_Some_conv)
  from scopes_okD(2) [OF assms(1) e(1)] map_of_SomeD [OF e(2)]
  show "result_ok q \<and> me_id q = k \<and> me_mapping_scope_id q = i" by (blast dest: entry_okD(5))
qed

lemma save_result_ok:
  assumes "scopes_ok t s" "save_result port t s q = (r, s')" "result_ok q" "me_result_status q = RS_MATCHED"
  shows "scopes_ok t s'"
proof -
  let ?i = "me_mapping_scope_id q"
  note e = save_result_entry [OF scopes_okD(1) [OF assms(1)] assms(2), unfolded Let_def]
  show ?thesis
  proof (cases "entry t s ?i")
    case None
    with e have "moves t ?i s s' None" by simp
    then show ?thesis by (rule moves_scopes_ok [OF assms(1)]) simp
  next
    case (Some x)
    note x = scopes_okD(2) [OF assms(1) Some] and l = scopes_okD(3) [OF assms(1) Some]
    show ?thesis
    proof (cases "map_of (mo_results x) (me_id q)")
      case None
      with e Some have "moves t ?i s s' (Some x)" by simp
      then show ?thesis by (rule moves_scopes_ok [OF assms(1)]) (use x l in simp)
    next
      case cur: (Some current)
      from entry_okD(5) [OF x map_of_SomeD [OF cur]] have c: "me_id current = me_id q" "result_ok current" by auto
      have "result_ok (merged_result q current)" using assms(3,4) c by (intro merged_ok) simp_all
      then have new: "entry_ok ?i (x\<lparr>mo_results := AList.update (me_id q) (merged_result q current) (mo_results x)\<rparr>)"
        using entry_ok_result [OF x, of "merged_result q current"] by (simp add: merged_result_def)
      have link: "entry_linked (x\<lparr>mo_results := AList.update (me_id q) (merged_result q current) (mo_results x)\<rparr>)"
        by (rule linked_results [OF l]) (auto simp: update_entry_keys)
      from e Some cur have "moves t ?i s s' (Some (if merged_result q current = current then x
          else x\<lparr>mo_results := AList.update (me_id q) (merged_result q current) (mo_results x)\<rparr>))"
        by (simp only: option.case)
      then show ?thesis by (rule moves_scopes_ok [OF assms(1)]) (use x l new link in \<open>auto split: if_splits\<close>)
    qed
  qed
qed

lemma add_scope_ok:
  assumes "scopes_ok t s" "add_scope port t s sc = (r, s')"
  shows "scopes_ok t s'"
proof (cases "entry t s (sc_id sc)")
  case None
  with add_scope_entry [OF scopes_okD(1) [OF assms(1)] assms(2)]
  have "moves t (sc_id sc) s s' (Some \<lparr>mo_scope = sc, mo_rules = [], mo_results = []\<rparr>)" by simp
  then show ?thesis by (rule moves_scopes_ok [OF assms(1)]) (auto simp: entry_ok_def entry_linked_def)
next
  case (Some x)
  with add_scope_entry [OF scopes_okD(1) [OF assms(1)] assms(2)] have "moves t (sc_id sc) s s' (Some x)" by simp
  then show ?thesis by (rule moves_scopes_ok [OF assms(1)]) (use scopes_okD(2,3) [OF assms(1) Some] in simp)
qed

lemma refresh_ok:
  assumes "scopes_ok t s" "refresh_catalog_fingerprint port t s i fp = (r, s')"
  shows "scopes_ok t s'"
proof (cases "entry t s i")
  case None
  with refresh_entry [OF scopes_okD(1) [OF assms(1)] assms(2)] have "moves t i s s' None" by simp
  then show ?thesis by (rule moves_scopes_ok [OF assms(1)]) simp
next
  case (Some x)
  with refresh_entry [OF scopes_okD(1) [OF assms(1)] assms(2)]
  have "moves t i s s' (Some (x\<lparr>mo_scope := scope_refresh_fingerprint (mo_scope x) fp\<rparr>))" by (simp add: Let_def)
  moreover have "entry_ok i (x\<lparr>mo_scope := scope_refresh_fingerprint (mo_scope x) fp\<rparr>)"
    using scopes_okD(2) [OF assms(1) Some] by (simp add: entry_ok_def scope_refresh_fingerprint_def)
  moreover have "entry_linked (x\<lparr>mo_scope := scope_refresh_fingerprint (mo_scope x) fp\<rparr>)"
    using scopes_okD(3) [OF assms(1) Some] by (simp add: entry_linked_def)
  ultimately show ?thesis by (auto intro: moves_scopes_ok [OF assms(1)])
qed

lemma attach_rules_ok:
  assumes "scopes_ok t s" "attach_rules port t s i rules = (r, s')"
    and "\<And>e. entry t s i = Some e \<Longrightarrow> \<forall>q \<in> set rules. \<forall>o1 \<in> set (sl_operand_list q).
      so_rule_id o1 = sl_id q \<and> so_result_id o1 \<in> fst ` set (mo_results e)"
  shows "scopes_ok t s'"
proof -
  note e = attach_rules_entry [OF scopes_okD(1) [OF assms(1)] assms(2)]
  show ?thesis
  proof (cases "entry t s i")
    case None
    with e have "moves t i s s' None" by simp
    then show ?thesis by (rule moves_scopes_ok [OF assms(1)]) simp
  next
    case (Some x)
    note x = scopes_okD(2) [OF assms(1) Some] and l = scopes_okD(3) [OF assms(1) Some]
    from e Some consider "moves t i s s' (Some x)"
      | "\<forall>q \<in> set rules. sl_scope_id q = i"
        "moves t i s s' (Some (x\<lparr>mo_rules := foldl (\<lambda>d r. AList.update (sl_id r) r d) (mo_rules x) rules\<rparr>))"
      by (simp split: if_splits)
    then show ?thesis
      using x l entry_ok_rules [OF x] linked_rules [OF l entry_okD(2) [OF x] assms(3) [OF Some]]
      by cases (auto intro: moves_scopes_ok [OF assms(1)])
  qed
qed

lemma add_results_ok:
  assumes "scopes_ok t s" "add_results port t s i results = (r, s')" "\<forall>q \<in> set results. result_ok q"
  shows "scopes_ok t s'"
proof -
  note e = add_results_entry [OF scopes_okD(1) [OF assms(1)] assms(2)]
  show ?thesis
  proof (cases "entry t s i")
    case None
    with e have "moves t i s s' None" by simp
    then show ?thesis by (rule moves_scopes_ok [OF assms(1)]) simp
  next
    case (Some x)
    note x = scopes_okD(2) [OF assms(1) Some] and l = scopes_okD(3) [OF assms(1) Some]
    from e Some consider "moves t i s s' (Some x)"
      | "\<forall>q \<in> set results. me_mapping_scope_id q = i"
        "moves t i s s' (Some (x\<lparr>mo_results := foldl (\<lambda>d r. AList.update (me_id r) r d) (mo_results x) results\<rparr>))"
      by (simp split: if_splits)
    then show ?thesis
      using x l entry_ok_results [OF x, of results] assms(3) linked_results [OF l]
      by cases (auto simp: keys_fold_update intro!: moves_scopes_ok [OF assms(1)])
  qed
qed

lemma add_operand_ok:
  assumes "scopes_ok t s" "add_rule_operand port t s i o1 = (r, s')"
    and "\<And>e. entry t s i = Some e \<Longrightarrow> so_result_id o1 \<in> fst ` set (mo_results e)"
  shows "scopes_ok t s'"
proof -
  note e = add_operand_entry [OF scopes_okD(1) [OF assms(1)] assms(2)]
  show ?thesis
  proof (cases "entry t s i")
    case None
    with e have "moves t i s s' None" by simp
    then show ?thesis by (rule moves_scopes_ok [OF assms(1)]) simp
  next
    case (Some x)
    note x = scopes_okD(2) [OF assms(1) Some] and l = scopes_okD(3) [OF assms(1) Some]
    show ?thesis
    proof (cases "map_of (mo_rules x) (so_rule_id o1)")
      case None
      with e Some have "moves t i s s' (Some x)" by simp
      then show ?thesis by (rule moves_scopes_ok [OF assms(1)]) (use x l in simp)
    next
      case (Some q)
      let ?q = "q\<lparr>sl_operands := Some (sl_operand_list q @ [o1])\<rparr>"
      have "sl_scope_id ?q = i" using entry_okD(4) [OF x map_of_SomeD [OF Some]] by simp
      from entry_ok_rule [OF x this]
      have "entry_ok i (x\<lparr>mo_rules := AList.update (sl_id q) ?q (mo_rules x)\<rparr>)" by simp
      moreover have "moves t i s s' (Some (x\<lparr>mo_rules := AList.update (sl_id q) ?q (mo_rules x)\<rparr>))"
        using e \<open>entry t s i = Some x\<close> Some by simp
      moreover have "entry_linked (x\<lparr>mo_rules := AList.update (sl_id q) ?q (mo_rules x)\<rparr>)"
      proof -
        from map_of_SomeD [OF Some] have q: "(so_rule_id o1, q) \<in> set (mo_rules x)" .
        have "so_rule_id o2 = sl_id ?q \<and> so_result_id o2 \<in> fst ` set (mo_results x)"
          if "o2 \<in> set (sl_operand_list ?q)" for o2
          using that entry_linkedD [OF l q, of o2] entry_okD(4) [OF x q] assms(3) [OF \<open>entry t s i = Some x\<close>]
          by auto
        then show ?thesis using linked_rule [OF l entry_okD(2) [OF x], of ?q] by simp
      qed
      ultimately show ?thesis by (auto intro: moves_scopes_ok [OF assms(1)])
    qed
  qed
qed

lemma of_scope_ok:
  assumes "scopes_ok t s" "mv_port env = port"
  shows "scopes_ok t (store_after (get_sdwan_of_scope env t i read s w))"
proof (cases "get_scope_by_id port t s i")
  case (Pair sc s1)
  then have "scopes_ok t s1" by (rule get_scope_ok [OF assms(1)])
  with Pair assms(2) show ?thesis by (cases sc) (simp_all add: get_sdwan_of_scope_def)
qed

lemma refresh_scope_ok:
  assumes "scopes_ok t s" "mv_port env = port"
  shows "scopes_ok t (store_after (refresh_scope_fingerprint env t i s w))"
proof (cases "get_scope_by_id port t s i")
  case (Pair sc s1)
  then have s1: "scopes_ok t s1" by (rule get_scope_ok [OF assms(1)])
  show ?thesis
  proof (cases sc)
    case None
    with Pair s1 assms(2) show ?thesis by (simp add: refresh_scope_fingerprint_def)
  next
    case (Some c)
    show ?thesis
      unfolding refresh_scope_fingerprint_def assms(2) Pair Some prod.case option.case Let_def
    proof (rule bind_ok, simp add: s1)
      fix cat s2 w2
      assume s2: "scopes_ok t s2"
      obtain r s3 where r: "refresh_catalog_fingerprint port t s2 (sc_id c) (get_fingerprint (mv_sha env) cat) = (r, s3)"
        by fastforce
      with refresh_ok [OF s2 r] s2
      show "scopes_ok t (store_after (if get_fingerprint (mv_sha env) cat = sc_catalog_fingerprint c
          then (Some (Inr (c, False)), s2, w2)
          else run_bind (on_store (refresh_catalog_fingerprint port t s2 (sc_id c) (get_fingerprint (mv_sha env) cat)) w2)
            (\<lambda>refreshed s w. (Some (Inr (refreshed, True)), s, w))))"
        by (cases r) simp_all
    qed
  qed
qed

lemma refresh_then_ok:
  assumes "scopes_ok t s" "mv_port env = port"
  shows "scopes_ok t (store_after (run_bind (refresh_scope_fingerprint env t i s w)
    (\<lambda>(_, changed) s w. (Some (Inr (f changed)), s, w))))"
  by (rule bind_ok [OF refresh_scope_ok [OF assms]]) (simp split: prod.split)

lemma select_candidate_ok:
  assumes "scopes_ok t s"
  shows "scopes_ok t (snd (select_entity_candidate port t i k c s))"
proof (cases "get_result port t s i k")
  case (Pair r s1)
  note g = get_result_ok [OF assms Pair]
  show ?thesis
  proof (cases r)
    case None
    with Pair g(1) show ?thesis by (simp add: select_entity_candidate_def)
  next
    case (Some q)
    note q = g(2) [OF Some]
    have saved: "scopes_ok t s2"
      if "select_candidate cand q = Inr u" "save_result port t s1 u = (x, s2)" for cand u x s2
    proof -
      have "me_result_status u = RS_MATCHED" using that(1) by (auto simp: select_candidate_def split: if_splits)
      then show ?thesis
        using q selections_ok(3) [of q cand u] that by (intro save_result_ok [OF g(1) that(2)]) simp_all
    qed
    show ?thesis
      using Pair Some g(1) by (auto simp: select_entity_candidate_def intro: saved split: option.split sum.split prod.split)
  qed
qed

lemma select_directly_ok:
  assumes "scopes_ok t s" "mv_port env = port"
  shows "scopes_ok t (store_after (select_sdwan_entity_directly env t i k x s w))"
proof (cases "get_result port t s i k")
  case (Pair r s1)
  note g = get_result_ok [OF assms(1) Pair]
  show ?thesis
  proof (cases r)
    case None
    with Pair g(1) assms(2) show ?thesis by (simp add: select_sdwan_entity_directly_def)
  next
    case (Some q)
    note q = g(2) [OF Some]
    show ?thesis
      unfolding select_sdwan_entity_directly_def assms(2) Pair Some prod.case option.case
    proof (rule bind_ok [OF of_scope_ok [OF g(1) assms(2)]])
      fix found s2 w2
      assume s2: "scopes_ok t s2"
      show "scopes_ok t (store_after (case found of
          None \<Rightarrow> (Some (Inl (MappingNotFoundError (''Sdwan entity with id '' @ int_str x @ '' and type `'' @
            entity_type_value (me_entity_type q) @ ''` not found''))), s2, w2)
        | Some y \<Rightarrow> run_bind (on_store (save_result port t s2 (select_direct y q)) w2)
            (\<lambda>_ s w. (Some (Inr (select_direct y q)), s, w))))"
      proof (cases found)
        case (Some y)
        obtain u s3 where u: "save_result port t s2 (select_direct y q) = (u, s3)" by fastforce
        have "scopes_ok t s3"
          using q by (intro save_result_ok [OF s2 u] selections_ok(1)) (simp_all add: select_direct_def)
        with Some u show ?thesis by (cases u) simp_all
      qed (simp add: s2)
    qed
  qed
qed

lemma select_create_ok:
  assumes "scopes_ok t s" "mv_port env = port"
  shows "scopes_ok t (store_after (select_entity_with_create env t i k b s w))"
proof (cases "get_result port t s i k")
  case (Pair r s1)
  note g = get_result_ok [OF assms(1) Pair]
  show ?thesis
  proof (cases r)
    case None
    with Pair g(1) assms(2) show ?thesis by (simp add: select_entity_with_create_def)
  next
    case (Some q)
    note q = g(2) [OF Some]
    show ?thesis
    proof (cases "me_entity_type q = ET_ZONE")
      case True
      with Pair Some g(1) assms(2) show ?thesis by (simp add: select_entity_with_create_def)
    next
      case nozone: False
      obtain sc s2 where sc: "get_scope_by_id port t s1 i = (sc, s2)" by fastforce
      then have s2: "scopes_ok t s2" by (rule get_scope_ok [OF g(1)])
      show ?thesis
      proof (cases sc)
        case None
        with Pair Some sc s2 nozone assms(2) show ?thesis by (simp add: select_entity_with_create_def)
      next
        case (Some c)
        show ?thesis
          unfolding select_entity_with_create_def assms(2) Pair \<open>r = Some q\<close> sc Some prod.case option.case if_not_P [OF nozone]
        proof (rule bind_ok, simp add: on_server_def s2 split: prod.split)
          fix y s3 w3
          assume s3: "scopes_ok t s3"
          obtain u s4 where u: "save_result port t s3 (select_created y q) = (u, s4)" by fastforce
          have s4: "scopes_ok t s4"
            using q by (intro save_result_ok [OF s3 u] selections_ok(2)) (simp_all add: select_created_def)
          show "scopes_ok t (store_after (run_bind (on_store (save_result port t s3 (select_created y q)) w3) (\<lambda>_ s w.
                     if b then
                       run_bind (refresh_scope_fingerprint env t (sc_id c) s w)
                         (\<lambda>(_, changed) s w. (Some (Inr (select_created y q, changed)), s, w))
                     else (Some (Inr (select_created y q, False)), s, w))))"
            unfolding u
          proof (rule bind_ok, simp add: s4)
            fix a s5 w5
            assume s5: "scopes_ok t s5"
            show "scopes_ok t (store_after (if b then
                       run_bind (refresh_scope_fingerprint env t (sc_id c) s5 w5)
                         (\<lambda>(_, changed) s w. (Some (Inr (select_created y q, changed)), s, w))
                     else (Some (Inr (select_created y q, False)), s5, w5)))"
              using refresh_then_ok [OF s5 assms(2), where f = "Pair (select_created y q)"] s5 by simp
          qed
        qed
      qed
    qed
  qed
qed

lemma auto_loop_ok:
  assumes "scopes_ok t s" "mv_port env = port"
  shows "scopes_ok t (store_after (auto_select_loop env t i rs n es s w))"
  using assms
proof (induction rs arbitrary: n es s w)
  case (Cons r rs)
  obtain x s1 w1 where x: "select_entity_with_create env t i (me_id r) False s w = (x, s1, w1)"
    by (metis prod.collapse)
  with select_create_ok [OF Cons.prems, of i "me_id r" False w] have s1: "scopes_ok t s1" by simp
  with x Cons.IH [OF s1 Cons.prems(2)] show ?case by (cases x) (auto split: sum.split)
qed simp

lemma auto_select_ok:
  assumes "scopes_ok t s" "mv_port env = port"
  shows "scopes_ok t (store_after (auto_select_with_create env t i s w))"
proof (cases "get_scope_by_id port t s i")
  case (Pair sc s1)
  then have s1: "scopes_ok t s1" by (rule get_scope_ok [OF assms(1)])
  show ?thesis
  proof (cases sc)
    case None
    with Pair s1 assms(2) show ?thesis by (simp add: auto_select_with_create_def)
  next
    case (Some c)
    obtain rs s2 where rs: "list_results port t s1 (sc_id c) None (Some RS_UNRESOLVED) = (rs, s2)" by fastforce
    then have s2: "scopes_ok t s2" by (rule list_results_ok [OF s1])
    show ?thesis
      unfolding auto_select_with_create_def assms(2) Pair Some rs prod.case option.case
    proof (rule bind_ok [OF auto_loop_ok [OF s2 assms(2)]], clarify)
      fix n :: nat and es :: "string list" and s3 w3
      assume s3: "scopes_ok t s3"
      show "scopes_ok t (store_after (run_bind (if n > 0 then run_bind (refresh_scope_fingerprint env t (sc_id c) s3 w3)
                   (\<lambda>(_, changed) s w. (Some (Inr changed), s, w))
                 else (Some (Inr False), s3, w3))
                (\<lambda>changed s w. (Some (Inr \<lparr>ar_failed_selects = length es, ar_success_selects = n,
                   ar_errors = es, ar_fingerprint_changed = changed\<rparr>), s, w))))"
      proof (rule bind_ok)
        show "scopes_ok t (store_after (if n > 0 then run_bind (refresh_scope_fingerprint env t (sc_id c) s3 w3)
                   (\<lambda>(_, changed) s w. (Some (Inr changed), s, w))
                 else (Some (Inr False), s3, w3)))"
          using refresh_then_ok [OF s3 assms(2), where f = id] s3 by simp
      qed simp
    qed
  qed
qed


lemma read_entries_ok: "scopes_ok t s \<Longrightarrow> scopes_ok t (snd (read_scope_entries port t b ks s))"
proof (induction ks arbitrary: s)
  case (Cons k ks)
  from scopes_okD(1) [OF Cons.prems] obtain s1 where g: "get_scope_entry port t s k b = (entry t s k, s1)" "ok s1"
    "entry t s1 k = entry t s k" "\<forall>j e. entry t s1 j = Some e \<longrightarrow> entry t s j = Some e"
    by (rule get_entry [where t = t and i = k and b = b])
  have "scopes_ok t s1" by (rule read_scopes_ok [OF Cons.prems moves_read [OF g(2-4)]])
  from Cons.IH [OF this] g(1) show ?case by (simp add: case_prod_beta')
qed simp

lemma list_scopes_ok:
  assumes "scopes_ok t s"
  shows "scopes_ok t (snd (list_recent_scopes port t s n m))"
proof -
  have "scopes_ok t (snd (keys t s MAPPING_SCOPE_NAMESPACE))"
    unfolding scopes_ok_def using keys_ok [OF scopes_okD(1) [OF assms]] keys_view [OF scopes_okD(1) [OF assms]]
      scopes_okD(2,3) [OF assms] by blast
  from read_entries_ok [OF this, of False] show ?thesis
    by (simp add: list_recent_scopes_def iter_scope_entries_def case_prod_beta')
qed


section \<open>Assigning a zone\<close>

lemma add_zone_operands_entry:
  assumes "scopes_ok t s" "entry t s i = Some e" "rid \<in> fst ` set (mo_results e)"
    and "\<forall>q \<in> set qs. sl_id q \<in> fst ` set (mo_rules e)"
    and "add_zone_operands port t ids s i qs role rid = (x, s')"
  shows "\<exists>os e'. x = Inr os \<and> scopes_ok t s' \<and> entry t s' i = Some e' \<and> mo_results e' = mo_results e \<and>
    fst ` set (mo_rules e') = fst ` set (mo_rules e) \<and>
    (\<forall>k q'. map_of (mo_rules e') k = Some q' \<longrightarrow> (\<exists>q. map_of (mo_rules e) k = Some q \<and>
       set (sl_operand_list q) \<subseteq> set (sl_operand_list q') \<and> (k \<in> sl_id ` set qs \<longrightarrow> has_zone role {rid} q')))"
  using assms
proof (induction qs arbitrary: ids s e x s')
  case Nil
  then show ?case by auto
next
  case (Cons q qs)
  let ?o = "create_operand (ids 0) (sl_id q) \<lparr>op_role = role, op_result_id = rid\<rparr>"
  have o1: "so_rule_id ?o = sl_id q" "so_result_id ?o = rid" "so_role ?o = role" by (simp_all add: create_operand_def)
  obtain y s1 where y: "add_rule_operand port t s i ?o = (y, s1)" by fastforce
  have s1: "scopes_ok t s1" using Cons.prems(2,3) o1 by (intro add_operand_ok [OF Cons.prems(1) y]) simp
  from Cons.prems(4) obtain p where p: "map_of (mo_rules e) (sl_id q) = Some p"
    by (metis domD dom_map_of_conv_image_fst list.set_intros(1))
  let ?p = "p\<lparr>sl_operands := Some (sl_operand_list p @ [?o])\<rparr>"
  let ?e = "e\<lparr>mo_rules := AList.update (sl_id p) ?p (mo_rules e)\<rparr>"
  have pk: "sl_id p = sl_id q"
    using entry_okD(4) [OF scopes_okD(2) [OF Cons.prems(1,2)] map_of_SomeD [OF p]] by simp
  from add_operand_entry [OF scopes_okD(1) [OF Cons.prems(1)] y] Cons.prems(2) p o1(1)
  have e1: "y = Inr ()" "entry t s1 i = Some ?e" by (simp_all add: moves_def)
  obtain z s2 where z: "add_zone_operands port t (\<lambda>n. ids (Suc n)) s1 i qs role rid = (z, s2)" by fastforce
  from Cons.IH [OF s1 e1(2) _ _ z] Cons.prems(3,4) p pk
  obtain os e' where ih: "z = Inr os" "scopes_ok t s2" "entry t s2 i = Some e'" "mo_results e' = mo_results e"
    "fst ` set (mo_rules e') = insert (sl_id q) (fst ` set (mo_rules e))"
    "\<forall>k q'. map_of (mo_rules e') k = Some q' \<longrightarrow> (\<exists>q. map_of (mo_rules ?e) k = Some q \<and>
       set (sl_operand_list q) \<subseteq> set (sl_operand_list q') \<and> (k \<in> sl_id ` set qs \<longrightarrow> has_zone role {rid} q'))"
    by (auto simp: update_entry_keys)
  have "\<exists>q0. map_of (mo_rules e) k = Some q0 \<and> set (sl_operand_list q0) \<subseteq> set (sl_operand_list q') \<and>
      (k \<in> sl_id ` set (q # qs) \<longrightarrow> has_zone role {rid} q')" if k: "map_of (mo_rules e') k = Some q'" for k q'
  proof -
    from ih(6) k obtain q1 where q1: "map_of (mo_rules ?e) k = Some q1"
      "set (sl_operand_list q1) \<subseteq> set (sl_operand_list q')" "k \<in> sl_id ` set qs \<longrightarrow> has_zone role {rid} q'"
      by blast
    show ?thesis
    proof (cases "k = sl_id q")
      case True
      with q1(1) pk have "q1 = ?p" by (simp add: update_conv')
      with q1(2) have "set (sl_operand_list p) \<subseteq> set (sl_operand_list q')" "?o \<in> set (sl_operand_list q')" by auto
      moreover from this(2) o1 have "has_zone role {rid} q'" by (auto simp: has_zone_def)
      ultimately show ?thesis using p True by simp
    next
      case False
      with q1 pk show ?thesis by (simp add: update_conv')
    qed
  qed
  moreover have "fst ` set (mo_rules e') = fst ` set (mo_rules e)" using ih(5) Cons.prems(4) by auto
  moreover have "x = Inr (?o # os)" "s' = s2"
    using Cons.prems(5) y e1(1) z ih(1) by (simp_all add: Let_def)
  ultimately show ?case using ih(2-4) by (intro exI [of _ "?o # os"] exI [of _ e']) simp
qed

lemma get_scope_with_rules_ok:
  assumes "scopes_ok t s" "get_scope_with_rules port t s i = (x, s')"
  shows "scopes_ok t s'" "x = Inr sc \<Longrightarrow> \<exists>e. entry t s' i = Some e \<and> sc = materialize_scope e \<and> mo_rules e \<noteq> []"
proof -
  obtain y s1 where y: "get_scope_by_id port t s i = (y, s1)" by fastforce
  note g = get_scope_result [OF scopes_okD(1) [OF assms(1)] y]
  from assms(2) y have s': "s' = s1"
    by (auto simp: get_scope_with_rules_def split: option.splits if_splits)
  show "scopes_ok t s'" unfolding s' by (rule get_scope_ok [OF assms(1) y])
  assume "x = Inr sc"
  with assms(2) y have y': "y = Some sc" and "or_empty (sc_rules sc) \<noteq> []"
    by (auto simp: get_scope_with_rules_def split: option.splits if_splits)
  moreover obtain e where e: "entry t s i = Some e" "sc = materialize_scope e"
    using g y' by (cases "entry t s i") auto
  moreover have "entry t s' i = Some e" unfolding s' using g e(1) by (simp add: moves_def)
  ultimately show "\<exists>e. entry t s' i = Some e \<and> sc = materialize_scope e \<and> mo_rules e \<noteq> []"
    by (intro exI [of _ e]) (auto simp: materialize_scope_def or_empty_def)
qed

lemma matching_results:
  assumes "scopes_ok t s" "entry t s i = Some e" "get_matching_zone_results port t s i z = (ms, s')"
  shows "scopes_ok t s'" "entry t s' i = Some e"
    "q \<in> set ms \<Longrightarrow> map_of (mo_results e) (me_id q) = Some q \<and> zone_matches z q"
proof -
  obtain y s1 where y: "list_results port t s i (Some ET_ZONE) None = (y, s1)" by fastforce
  from assms(3) y have ms: "ms = filter (zone_matches z) y" "s' = s1"
    by (simp_all add: get_matching_zone_results_def)
  note g = list_results_result [OF scopes_okD(1) [OF assms(1)] y]
  show "scopes_ok t s'" unfolding ms by (rule list_results_ok [OF assms(1) y])
  show "entry t s' i = Some e" unfolding ms(2) using g assms(2) by (simp add: moves_def)
  assume q: "q \<in> set ms"
  with ms(1) g assms(2) obtain k where k: "(k, q) \<in> set (mo_results e)" by auto
  note ok = scopes_okD(2) [OF assms(1,2)]
  show "map_of (mo_results e) (me_id q) = Some q \<and> zone_matches z q"
    using entry_okD(5) [OF ok k] k map_of_is_SomeI [OF entry_okD(3) [OF ok]] q ms(1) by auto
qed

lemma manual_result_ok:
  assumes "scopes_ok t s" "entry t s i = Some e" "mv_port env = port"
    and "\<forall>q \<in> set ms. map_of (mo_results e) (me_id q) = Some q \<and> zone_matches z q"
    and "get_or_create_manual_zone_result env t ids s i z ms = (x, s')"
  shows "scopes_ok t s'"
    "x = Inr r \<Longrightarrow> zone_matches z r \<and> (\<exists>d. entry t s' i = Some (e\<lparr>mo_results := d\<rparr>) \<and>
      map_of d (me_id r) = Some r \<and> (\<forall>k q. map_of (mo_results e) k = Some q \<longrightarrow> map_of d k = Some q))"
proof -
  let ?n = "create_zone_manually_assigned ids t i z"
  have n: "me_mapping_scope_id ?n = i" "zone_matches z ?n"
    by (simp_all add: create_zone_manually_assigned_def zone_matches_def)
  show "scopes_ok t s'"
  proof (cases "List.find is_manual_result ms")
    case None
    obtain y s1 where y: "add_results port t s i [?n] = (y, s1)" by fastforce
    have "scopes_ok t s1" by (rule add_results_ok [OF assms(1) y]) (simp add: created_results_ok(3))
    with assms(3,5) None y show ?thesis
      by (auto simp: get_or_create_manual_zone_result_def Let_def split: sum.splits)
  next
    case (Some q)
    with assms(1,5) show ?thesis by (simp add: get_or_create_manual_zone_result_def)
  qed
  assume x: "x = Inr r"
  show "zone_matches z r \<and> (\<exists>d. entry t s' i = Some (e\<lparr>mo_results := d\<rparr>) \<and>
      map_of d (me_id r) = Some r \<and> (\<forall>k q. map_of (mo_results e) k = Some q \<longrightarrow> map_of d k = Some q))"
  proof (cases "List.find is_manual_result ms")
    case None
    obtain y s1 where y: "add_results port t s i [?n] = (y, s1)" by fastforce
    from assms(3,5) None y x have *: "y = Inr ()" "r = ?n" "s' = s1"
      by (auto simp: get_or_create_manual_zone_result_def Let_def split: sum.splits)
    from add_results_entry [OF scopes_okD(1) [OF assms(1)] y] assms(2) *(1)
    have e: "me_id ?n \<notin> fst ` set (mo_results e)"
      "entry t s1 i = Some (e\<lparr>mo_results := AList.update (me_id ?n) ?n (mo_results e)\<rparr>)"
      by (auto simp: moves_def split: if_splits)
    have "map_of (AList.update (me_id ?n) ?n (mo_results e)) k = Some q" if "map_of (mo_results e) k = Some q" for k q
    proof -
      from map_of_SomeD [OF that] e(1) have "k \<noteq> me_id ?n" by force
      with that show ?thesis by (simp add: update_conv')
    qed
    with e(2) n(2) show ?thesis unfolding *(2,3) by (auto simp: update_conv')
  next
    case (Some q)
    with assms(5) x have *: "r = q" "s' = s" by (simp_all add: get_or_create_manual_zone_result_def)
    from Some have "q \<in> set ms" by (auto simp: find_Some_iff)
    with assms(4) have "map_of (mo_results e) (me_id q) = Some q \<and> zone_matches z q" by blast
    with assms(2) show ?thesis unfolding * by (intro conjI exI [of _ "mo_results e"]) simp_all
  qed
qed


lemma assign_zone_exact:
  assumes "scopes_ok t s" "mv_port env = port"
    and "assign_zone_for_scope env t rids oids dir zid i s w = (x, s', w')"
  shows "scopes_ok t s' \<and> (\<forall>r os. x = Some (Inr (r, os)) \<longrightarrow>
    (\<exists>e z. entry t s' i = Some e \<and> zone_matches z r \<and> zone_assigned (map_zone_direction dir) z e))"
proof -
  let ?role = "map_zone_direction dir"
  obtain y s1 where y: "get_scope_with_rules port t s i = (y, s1)" by fastforce
  note s1 = get_scope_with_rules_ok [OF assms(1) y]
  show ?thesis
  proof (cases y)
    case (Inl a)
    with assms(2,3) y s1(1) show ?thesis by (auto simp: assign_zone_for_scope_def)
  next
    case (Inr sc)
    from s1(2) [OF Inr] obtain e where e: "entry t s1 i = Some e" "sc = materialize_scope e" "mo_rules e \<noteq> []"
      by blast
    note ok = scopes_okD(2) [OF s1(1) e(1)] and linked = scopes_okD(3) [OF s1(1) e(1)]
    have id: "sc_id sc = i" using entry_okD(1) [OF ok] e(2) by (simp add: materialize_scope_def)
    have rules: "set (or_empty (sc_rules sc)) = snd ` set (mo_rules e)"
      by (simp add: e(2) materialize_scope_def or_empty_def)
    show ?thesis
    proof (cases "get_scope_zone env sc zid w")
      case None
      with assms(2,3) y Inr s1(1) show ?thesis by (auto simp: assign_zone_for_scope_def)
    next
      case zone: (Some zr)
      show ?thesis
      proof (cases zr)
        case (Inl a)
        with assms(2,3) y Inr s1(1) zone \<open>y = Inr sc\<close> show ?thesis by (auto simp: assign_zone_for_scope_def)
      next
        case z: (Inr zn)
        let ?z = "zn_id zn"
        obtain ms s2 where ms: "get_matching_zone_results port t s1 i ?z = (ms, s2)" by fastforce
        note m = matching_results [OF s1(1) e(1) ms]
        let ?missing = "rules_without_zone (or_empty (sc_rules sc)) ?role ms"
        have run: "assign_zone_for_scope env t rids oids dir zid i s w =
            (if ?missing = [] then
               run_bind (Some (existing_mapping_result ms), s2, w) (\<lambda>r s w. (Some (Inr (r, [])), s, w))
             else run_bind (on_store (get_or_create_manual_zone_result env t rids s2 i ?z ms) w) (\<lambda>r s w.
               run_bind (on_store (add_zone_operands port t oids s i ?missing ?role (me_id r)) w)
                 (\<lambda>os s w. (Some (Inr (r, os)), s, w))))"
          using y Inr zone z ms by (simp add: assign_zone_for_scope_def assms(2) id Let_def)
        have had: "\<exists>o1 \<in> set (sl_operand_list q). so_role o1 = ?role \<and>
            (\<exists>r. map_of (mo_results e) (so_result_id o1) = Some r \<and> zone_matches ?z r)"
          if "(k, q) \<in> set (mo_rules e)" "q \<notin> set ?missing" for k q
        proof -
          have "q \<in> set (or_empty (sc_rules sc))" unfolding rules using that(1) by force
          with that(2) obtain o1 p where "o1 \<in> set (sl_operand_list q)" "so_role o1 = ?role" "p \<in> set ms"
            "so_result_id o1 = me_id p"
            by (auto simp: rules_without_zone_def has_zone_def)
          with m(3) show ?thesis by metis
        qed
        show ?thesis
        proof (cases "?missing = []")
          case True
          have "zone_assigned ?role ?z e" unfolding zone_assigned_def using had True by fastforce
          moreover have "zone_matches ?z r" if "existing_mapping_result ms = Inr r" for r
            using that m(3) by (auto simp: existing_mapping_result_def find_Some_iff split: option.splits list.splits)
          ultimately show ?thesis using run assms(3) True m(1,2)
            by (cases "existing_mapping_result ms") auto
        next
          case False
          obtain u s3 where u: "get_or_create_manual_zone_result env t rids s2 i ?z ms = (u, s3)" by fastforce
          have "\<forall>q \<in> set ms. map_of (mo_results e) (me_id q) = Some q \<and> zone_matches ?z q" using m(3) by blast
          note mr = manual_result_ok [OF m(1,2) assms(2) this u]
          show ?thesis
          proof (cases u)
            case (Inl a)
            with run assms(3) False u mr(1) show ?thesis by auto
          next
            case u': (Inr r)
            from mr(2) [OF u'] obtain d where d: "zone_matches ?z r" "entry t s3 i = Some (e\<lparr>mo_results := d\<rparr>)"
              "map_of d (me_id r) = Some r" "\<forall>k q. map_of (mo_results e) k = Some q \<longrightarrow> map_of d k = Some q"
              by blast
            obtain v s4 where v: "add_zone_operands port t oids s3 i ?missing ?role (me_id r) = (v, s4)" by fastforce
            have rid: "me_id r \<in> fst ` set (mo_results (e\<lparr>mo_results := d\<rparr>))"
              using map_of_SomeD [OF d(3)] by force
            have "sl_id q \<in> fst ` set (mo_rules (e\<lparr>mo_results := d\<rparr>))" if "q \<in> set ?missing" for q
            proof -
              from that have "q \<in> snd ` set (mo_rules e)" unfolding rules [symmetric] by (simp add: rules_without_zone_def)
              with entry_okD(4) [OF ok] show ?thesis by force
            qed
            then have "\<forall>q \<in> set ?missing. sl_id q \<in> fst ` set (mo_rules (e\<lparr>mo_results := d\<rparr>))" by blast
            from add_zone_operands_entry [OF mr(1) d(2) rid this v]
            obtain os e' where e': "v = Inr os" "scopes_ok t s4" "entry t s4 i = Some e'" "mo_results e' = d"
              "\<forall>k q'. map_of (mo_rules e') k = Some q' \<longrightarrow> (\<exists>q. map_of (mo_rules e) k = Some q \<and>
                 set (sl_operand_list q) \<subseteq> set (sl_operand_list q') \<and>
                 (k \<in> sl_id ` set ?missing \<longrightarrow> has_zone ?role {me_id r} q'))"
              by auto
            have "\<exists>o1 \<in> set (sl_operand_list q'). so_role o1 = ?role \<and>
                (\<exists>r. map_of d (so_result_id o1) = Some r \<and> zone_matches ?z r)"
              if q': "(k, q') \<in> set (mo_rules e')" for k q'
            proof -
              have "map_of (mo_rules e') k = Some q'"
                using q' entry_okD(2) [OF scopes_okD(2) [OF e'(2,3)]] by simp
              with e'(5) obtain q where q: "map_of (mo_rules e) k = Some q"
                "set (sl_operand_list q) \<subseteq> set (sl_operand_list q')"
                "k \<in> sl_id ` set ?missing \<longrightarrow> has_zone ?role {me_id r} q'"
                by blast
              show ?thesis
              proof (cases "q \<in> set ?missing")
                case True
                with q(3) entry_okD(4) [OF ok map_of_SomeD [OF q(1)]] have "has_zone ?role {me_id r} q'" by auto
                with d(1,3) show ?thesis by (auto simp: has_zone_def)
              next
                case False
                from had [OF map_of_SomeD [OF q(1)] False] q(2) d(4) show ?thesis by blast
              qed
            qed
            then have "zone_assigned ?role ?z e'" unfolding zone_assigned_def e'(4) by blast
            then show ?thesis using run assms(3) False u u' v e'(1-3) d(1) by auto
          qed
        qed
      qed
    qed
  qed
qed


section \<open>Mapping a snapshot\<close>

lemma map_exact:
  assumes "scopes_ok t s" "mv_port env = port"
    and "map_canonical_to_sdwan env t cmd s w = (x, s', w')"
  shows "scopes_ok t s'"
    "x = Some (Inr m) \<Longrightarrow> \<exists>cat scope results rules. load_catalog env w cmd = Some (Inr cat) \<and>
      build_scope_graph env t cmd cat = Inr (scope, results, rules) \<and> mr_scope_id m = sc_id scope \<and>
      entry t s' (sc_id scope) = Some \<lparr>mo_scope = scope, mo_rules = foldl (\<lambda>d r. AList.update (sl_id r) r d) [] rules,
        mo_results = foldl (\<lambda>d r. AList.update (me_id r) r d) [] results\<rparr>"
proof -
  have main: "scopes_ok t s' \<and> (\<forall>m. x = Some (Inr m) \<longrightarrow> (\<exists>cat scope results rules.
      load_catalog env w cmd = Some (Inr cat) \<and> build_scope_graph env t cmd cat = Inr (scope, results, rules) \<and>
      mr_scope_id m = sc_id scope \<and>
      entry t s' (sc_id scope) = Some \<lparr>mo_scope = scope, mo_rules = foldl (\<lambda>d r. AList.update (sl_id r) r d) [] rules,
        mo_results = foldl (\<lambda>d r. AList.update (me_id r) r d) [] results\<rparr>))"
  proof (cases "load_catalog env w cmd")
    case None
    with assms show ?thesis by (auto simp: map_canonical_to_sdwan_def)
  next
    case cat': (Some cat0)
    show ?thesis
    proof (cases cat0)
      case (Inl e)
      with cat' assms show ?thesis by (auto simp: map_canonical_to_sdwan_def)
    next
      case (Inr cat)
      show ?thesis
      proof (cases "build_scope_graph env t cmd cat")
        case (Inl e)
        with cat' Inr assms show ?thesis by (auto simp: map_canonical_to_sdwan_def)
      next
        case g': (Inr g)
        obtain scope results rules where g: "g = (scope, results, rules)" by (cases g)
        from g' g obtain e crs where
          b: "build_results (mv_result_ids env) (mv_clock env) (sc_id scope) e cat = Inr results"
            "build_scope_rules (mv_rule_ids env) (sc_id scope) crs e results = Inr rules"
          by (auto simp: build_scope_graph_def Let_def bind_r_eq_Inr)
        let ?i = "sc_id scope"
        obtain y1 s1 where 1: "add_scope port t s scope = (y1, s1)" by fastforce
        have s1: "scopes_ok t s1" by (rule add_scope_ok [OF assms(1) 1])
        obtain y2 s2 where 2: "add_results port t s1 ?i results = (y2, s2)" by fastforce
        have "\<forall>q \<in> set results. result_ok q" using build_results_all_ok [OF b(1)] by blast
        then have s2: "scopes_ok t s2" by (rule add_results_ok [OF s1 2])
        obtain y3 s3 where 3: "attach_rules port t s2 ?i rules = (y3, s3)" by fastforce
        have run: "map_canonical_to_sdwan env t cmd s w =
            run_bind (on_store (y1, s1) w) (\<lambda>_ s w. run_bind (on_store (add_results port t s ?i results) w) (\<lambda>_ s w.
              run_bind (on_store (attach_rules port t s ?i rules) w) (\<lambda>_ s w.
                (Some (Inr \<lparr>mr_scope_id = ?i, mr_summary = build_results_summary results,
                   mr_rules_count = length rules\<rparr>), s, w))))"
          using cat' Inr g' g 1 by (simp add: map_canonical_to_sdwan_def assms(2))
        show ?thesis
        proof (cases y1)
          case (Inl e)
          with run assms(3) s1 show ?thesis by auto
        next
          case y1: (Inr sc)
          from add_scope_entry [OF scopes_okD(1) [OF assms(1)] 1] y1
          have e1: "entry t s1 ?i = Some \<lparr>mo_scope = scope, mo_rules = [], mo_results = []\<rparr>"
            by (auto simp: moves_def split: option.splits)
          show ?thesis
          proof (cases y2)
            case (Inl e)
            with run assms(3) y1 2 s2 show ?thesis by auto
          next
            case y2: (Inr u)
            from add_results_entry [OF scopes_okD(1) [OF s1] 2] e1 y2
            have e2: "entry t s2 ?i = Some \<lparr>mo_scope = scope, mo_rules = [],
                mo_results = foldl (\<lambda>d r. AList.update (me_id r) r d) [] results\<rparr>"
              by (auto simp: moves_def split: if_splits)
            have s3: "scopes_ok t s3"
              by (rule attach_rules_ok [OF s2 3]) (use e2 built_rules_linked(2) [OF b(2)] in \<open>auto simp: keys_fold_update\<close>)
            show ?thesis
            proof (cases y3)
              case (Inl e)
              with run assms(3) y1 y2 2 3 s3 show ?thesis by auto
            next
              case y3: (Inr u)
              from attach_rules_entry [OF scopes_okD(1) [OF s2] 3] e2 y3
              have "entry t s3 ?i = Some \<lparr>mo_scope = scope, mo_rules = foldl (\<lambda>d r. AList.update (sl_id r) r d) [] rules,
                  mo_results = foldl (\<lambda>d r. AList.update (me_id r) r d) [] results\<rparr>"
                by (auto simp: moves_def split: if_splits)
              with run assms(3) y1 y2 y3 2 3 s3 cat' Inr g' g show ?thesis by auto
            qed
          qed
        qed
      qed
    qed
  qed
  then show "scopes_ok t s'" by blast
  show "\<exists>cat scope results rules. load_catalog env w cmd = Some (Inr cat) \<and>
      build_scope_graph env t cmd cat = Inr (scope, results, rules) \<and> mr_scope_id m = sc_id scope \<and>
      entry t s' (sc_id scope) = Some \<lparr>mo_scope = scope, mo_rules = foldl (\<lambda>d r. AList.update (sl_id r) r d) [] rules,
        mo_results = foldl (\<lambda>d r. AList.update (me_id r) r d) [] results\<rparr>" if "x = Some (Inr m)"
    using main that by blast
qed

end


section \<open>The steps of the module\<close>

text \<open>A state is the time, the cache and the server.  Between two use cases time passes and the
  server may change in any way; a use case runs at one time, with any environment over the cache's
  port, so that its ids, clock and canonical snapshot are arbitrary.\<close>

inductive mapping_step ::
  "'s mapping_port \<Rightarrow> timestamp \<times> 's \<times> 'w \<Rightarrow> timestamp \<times> 's \<times> 'w \<Rightarrow> bool"
  for port :: "'s mapping_port" where
  step_outside: "t \<le> t' \<Longrightarrow> mapping_step port (t, s, w) (t', s, w')"
| step_map: "mv_port env = port \<Longrightarrow> map_canonical_to_sdwan env t cmd s w = (x, s', w') \<Longrightarrow>
    mapping_step port (t, s, w) (t, s', w')"
| step_scope: "get_mapping_scope port t s i = (x, s') \<Longrightarrow> mapping_step port (t, s, w) (t, s', w)"
| step_rules: "get_mapping_scope_rules port t s i = (x, s') \<Longrightarrow> mapping_step port (t, s, w) (t, s', w)"
| step_scopes: "get_mapping_scopes port t s = (x, s') \<Longrightarrow> mapping_step port (t, s, w) (t, s', w)"
| step_zones: "mv_port env = port \<Longrightarrow> get_sdwan_zones env t i s w = (x, s', w') \<Longrightarrow>
    mapping_step port (t, s, w) (t, s', w')"
| step_services: "mv_port env = port \<Longrightarrow> get_sdwan_services env t i s w = (x, s', w') \<Longrightarrow>
    mapping_step port (t, s, w) (t, s', w')"
| step_addr_objects: "mv_port env = port \<Longrightarrow> get_sdwan_addr_objects env t i s w = (x, s', w') \<Longrightarrow>
    mapping_step port (t, s, w) (t, s', w')"
| step_details: "mv_port env = port \<Longrightarrow> get_result_details env t i k s w = (x, s', w') \<Longrightarrow>
    mapping_step port (t, s, w) (t, s', w')"
| step_refresh: "mv_port env = port \<Longrightarrow> refresh_scope_fingerprint env t i s w = (x, s', w') \<Longrightarrow>
    mapping_step port (t, s, w) (t, s', w')"
| step_candidate: "select_entity_candidate port t i k c s = (x, s') \<Longrightarrow> mapping_step port (t, s, w) (t, s', w)"
| step_direct: "mv_port env = port \<Longrightarrow> select_sdwan_entity_directly env t i k n s w = (x, s', w') \<Longrightarrow>
    mapping_step port (t, s, w) (t, s', w')"
| step_create: "mv_port env = port \<Longrightarrow> select_entity_with_create env t i k b s w = (x, s', w') \<Longrightarrow>
    mapping_step port (t, s, w) (t, s', w')"
| step_auto: "mv_port env = port \<Longrightarrow> auto_select_with_create env t i s w = (x, s', w') \<Longrightarrow>
    mapping_step port (t, s, w) (t, s', w')"
| step_assign: "mv_port env = port \<Longrightarrow> assign_zone_for_scope env t rids oids d n i s w = (x, s', w') \<Longrightarrow>
    mapping_step port (t, s, w) (t, s', w')"

inductive_cases mapping_stepE: "mapping_step port a b"

context mapping_repository
begin

lemma details_ok:
  assumes "scopes_ok t s" "mv_port env = port"
  shows "scopes_ok t (store_after (get_result_details env t i k s w))"
proof (cases "get_result port t s i k")
  case (Pair r s1)
  note g = get_result_ok [OF assms(1) Pair]
  show ?thesis
  proof (cases r)
    case None
    with Pair g(1) assms(2) show ?thesis by (simp add: get_result_details_def)
  next
    case (Some q)
    show ?thesis
      unfolding get_result_details_def assms(2) Pair Some prod.case option.case
      by (rule bind_ok [OF of_scope_ok [OF g(1) assms(2)]]) (simp add: Let_def)
  qed
qed

lemma scope_rules_ok:
  assumes "scopes_ok t s"
  shows "scopes_ok t (snd (get_mapping_scope_rules port t s i))"
proof (cases "get_scope_by_id port t s i")
  case (Pair sc s1)
  then have s1: "scopes_ok t s1" by (rule get_scope_ok [OF assms])
  obtain rs s2 where rs: "list_results port t s1 (sc_id (the sc)) None None = (rs, s2)" by fastforce
  then have "scopes_ok t s2" by (rule list_results_ok [OF s1])
  with Pair s1 rs show ?thesis by (cases sc) (simp_all add: get_mapping_scope_rules_def)
qed

lemma scope_ok:
  assumes "scopes_ok t s"
  shows "scopes_ok t (snd (get_mapping_scope port t s i))"
proof (cases "get_scope_by_id port t s i")
  case (Pair sc s1)
  then have "scopes_ok t s1" by (rule get_scope_ok [OF assms])
  with Pair show ?thesis by (cases sc) (simp_all add: get_mapping_scope_def)
qed

lemma sdwan_reads_ok:
  assumes "scopes_ok t s" "mv_port env = port"
  shows "scopes_ok t (store_after (get_sdwan_zones env t i s w))"
    "scopes_ok t (store_after (get_sdwan_services env t i s w))"
    "scopes_ok t (store_after (get_sdwan_addr_objects env t i s w))"
  unfolding get_sdwan_zones_def get_sdwan_services_def get_sdwan_addr_objects_def
  by (rule of_scope_ok [OF assms])+

lemma step_ok:
  assumes "mapping_step port (t, s, w) (t', s', w')" "scopes_ok t s"
  shows "scopes_ok t' s'"
  using assms(1)
proof (cases rule: mapping_step.cases)
  case step_outside
  then show ?thesis using scopes_ok_later [OF assms(2)] by simp
next
  case (step_map env cmd x)
  then show ?thesis using map_exact(1) [OF assms(2), of env cmd w x s' w'] by simp
next
  case (step_scope i x)
  then show ?thesis using scope_ok [OF assms(2), of i] by simp
next
  case (step_rules i x)
  then show ?thesis using scope_rules_ok [OF assms(2), of i] by simp
next
  case (step_scopes x)
  then show ?thesis using list_scopes_ok [OF assms(2), of 50 0] by (simp add: get_mapping_scopes_def)
next
  case (step_zones env i x)
  then show ?thesis using sdwan_reads_ok [OF assms(2), of env i w] by simp
next
  case (step_services env i x)
  then show ?thesis using sdwan_reads_ok [OF assms(2), of env i w] by simp
next
  case (step_addr_objects env i x)
  then show ?thesis using sdwan_reads_ok [OF assms(2), of env i w] by simp
next
  case (step_details env i k x)
  then show ?thesis using details_ok [OF assms(2), of env i k w] by simp
next
  case (step_refresh env i x)
  then show ?thesis using refresh_scope_ok [OF assms(2), of env i w] by simp
next
  case (step_candidate i k c x)
  then show ?thesis using select_candidate_ok [OF assms(2), of i k c] by simp
next
  case (step_direct env i k n x)
  then show ?thesis using select_directly_ok [OF assms(2), of env i k n w] by simp
next
  case (step_create env i k b x)
  then show ?thesis using select_create_ok [OF assms(2), of env i k b w] by simp
next
  case (step_auto env i x)
  then show ?thesis using auto_select_ok [OF assms(2), of env i w] by simp
next
  case (step_assign env rids oids d n i x)
  then show ?thesis using assign_zone_exact [OF assms(2), of env rids oids d n i w x s' w'] by simp
qed

lemma reachable_ok:
  assumes "(mapping_step port)\<^sup>*\<^sup>* (t0, s0, w0) (t, s, w)" "scopes_ok t0 s0"
  shows "scopes_ok t s"
  using assms(1)
proof (induction "(t, s, w)" arbitrary: t s w rule: rtranclp_induct)
  case base
  with assms(2) show ?case by simp
next
  case (step y)
  obtain t1 s1 w1 where y: "y = (t1, s1, w1)" by (cases y)
  from step(2) step(3) [OF y] show ?case unfolding y by (rule step_ok)
qed

end

end
