(* ===== verification/Mapping_Run.thy ===== *)
theory Mapping_Run
  imports Mapping_Samples Mapping_Steps
begin

text \<open>
  The module from end to end: a snapshot is mapped, its scope is read back, and the execute module
  reads its rules as SD-WAN ids.  \<open>map_then_read\<close>: mapping succeeds whenever the graph is built
  for a fresh scope, and reading gives back the rules and results.  \<open>reader_refs\<close>: the ids read for
  a role are the selections of the results of the objects that the canonical rule names in it.
\<close>

section \<open>Stable sorting of related lists\<close>

lemma insort_related:
  "list_all2 R xs ys \<Longrightarrow> R x y \<Longrightarrow> (\<And>x y. R x y \<Longrightarrow> f x = g y) \<Longrightarrow>
   list_all2 R (insort_key f x xs) (insort_key g y ys)"
  by (induction rule: list_all2_induct) auto

lemma sort_related:
  "list_all2 R xs ys \<Longrightarrow> (\<And>x y. R x y \<Longrightarrow> f x = g y) \<Longrightarrow> list_all2 R (sort_key f xs) (sort_key g ys)"
  by (induction rule: list_all2_induct) (auto intro: insort_related)

lemma dict_of_eq_map: "distinct (map f xs) \<Longrightarrow> foldl (\<lambda>d x. AList.update (f x) x d) [] xs = map (\<lambda>x. (f x, x)) xs"
  using fold_update_fresh [of f xs "[]"] by simp


section \<open>Ids of built rules\<close>

lemma built_rules_ids:
  assumes "build_scope_rules ids scope_id rules e rs = Inr srs" "inj (\<lambda>i. ids i 0)"
  shows "distinct (map sl_id srs)"
proof -
  from assms(1) obtain ix ai si where
    t: "traverse (build_scope_rule scope_id ix ai si) (map (\<lambda>(i, rule). (ids i, rule)) (enumerate 0 rules)) = Inr srs"
    by (auto simp: build_scope_rules_def bind_r_eq_Inr)
  have "list_all2 (\<lambda>(i, rule) sr. ids i 0 = sl_id sr) (enumerate 0 rules) srs"
    using t unfolding traverse_Inr_iff list_all2_map1
    by (rule list_all2_mono) (auto simp: build_scope_rule_def bind_r_eq_Inr create_scope_rule_def)
  then have "map sl_id srs = map (\<lambda>i. ids i 0) (map fst (enumerate 0 rules))"
    by (induction rule: list_all2_induct) auto
  then show ?thesis using inj_on_subset [OF assms(2) subset_UNIV] by (simp add: distinct_map)
qed

lemma built_rules_operands:
  assumes "build_scope_rules ids scope_id rules e rs = Inr srs" "sr \<in> set srs"
  shows "sl_operands sr \<noteq> None"
proof -
  from assms(1) obtain ix ai si where
    t: "traverse (build_scope_rule scope_id ix ai si) (map (\<lambda>(i, rule). (ids i, rule)) (enumerate 0 rules)) = Inr srs"
    by (auto simp: build_scope_rules_def bind_r_eq_Inr)
  from assms(2) traverse_set [OF t] show ?thesis
    by (auto simp: build_scope_rule_def bind_r_eq_Inr create_scope_rule_def)
qed

lemma built_graph:
  assumes "build_scope_graph env now cmd cat = Inr (scope, results, rules)"
  obtains e crs where "mv_scope_entities env (mc_snapshot_id cmd) (mc_rules_ids cmd) = Inr e"
    "mv_scope_rules env (mc_snapshot_id cmd) (mc_rules_ids cmd) = Inr crs"
    "build_results (mv_result_ids env) (mv_clock env) (sc_id scope) e cat = Inr results"
    "build_scope_rules (mv_rule_ids env) (sc_id scope) crs e results = Inr rules"
    "sc_id scope = mv_scope_id env"
  using assms by (auto simp: build_scope_graph_def Let_def bind_r_eq_Inr create_scope_header_def)

lemma built_keyed:
  assumes "build_results ids clock sc e cat = Inr rs" "inj (\<lambda>i. ids i 0)"
  shows "results_keyed rs"
  unfolding results_keyed_def
  using build_results_ids [OF assms] build_results_member [OF assms(1)] by (metis build_result_fields(1))


section \<open>Mapping, then reading\<close>

context mapping_repository
begin

lemma map_succeeds:
  assumes "scopes_ok t s" "mv_port env = port" "load_catalog env w cmd = Some (Inr cat)"
    and "build_scope_graph env t cmd cat = Inr (scope, results, rules)" "entry t s (mv_scope_id env) = None"
  shows "\<exists>s'. map_canonical_to_sdwan env t cmd s w = (Some (Inr \<lparr>mr_scope_id = mv_scope_id env,
    mr_summary = build_results_summary results, mr_rules_count = length rules\<rparr>), s', w)"
proof -
  from built_graph [OF assms(4)] obtain e crs where
    b: "build_results (mv_result_ids env) (mv_clock env) (sc_id scope) e cat = Inr results"
      "build_scope_rules (mv_rule_ids env) (sc_id scope) crs e results = Inr rules"
    and id: "sc_id scope = mv_scope_id env"
    by blast
  let ?i = "sc_id scope"
  obtain y1 s1 where 1: "add_scope port t s scope = (y1, s1)" by fastforce
  from add_scope_entry [OF scopes_okD(1) [OF assms(1)] 1] assms(5) id
  have e1: "y1 = Inr scope" "entry t s1 ?i = Some \<lparr>mo_scope = scope, mo_rules = [], mo_results = []\<rparr>"
    by (simp_all add: moves_def)
  have s1: "scopes_ok t s1" by (rule add_scope_ok [OF assms(1) 1])
  obtain y2 s2 where 2: "add_results port t s1 ?i results = (y2, s2)" by fastforce
  from add_results_entry [OF scopes_okD(1) [OF s1] 2] e1(2) build_results_all_ok [OF b(1)]
  have e2: "y2 = Inr ()" "entry t s2 ?i = Some \<lparr>mo_scope = scope, mo_rules = [],
      mo_results = foldl (\<lambda>d r. AList.update (me_id r) r d) [] results\<rparr>"
    by (simp_all add: moves_def)
  have s2: "scopes_ok t s2" by (rule add_results_ok [OF s1 2]) (use build_results_all_ok [OF b(1)] in blast)
  obtain y3 s3 where 3: "attach_rules port t s2 ?i rules = (y3, s3)" by fastforce
  from attach_rules_entry [OF scopes_okD(1) [OF s2] 3] e2(2) built_rules_linked(1) [OF b(2)]
  have "y3 = Inr ()" by simp
  with e1(1) e2(1) 1 2 3 assms(2-4) id show ?thesis by (simp add: map_canonical_to_sdwan_def)
qed

lemma map_then_read:
  assumes "scopes_ok t s" "mv_port env = port" "load_catalog env w cmd = Some (Inr cat)"
    and "build_scope_graph env t cmd cat = Inr (scope, results, rules)"
    and "inj (\<lambda>i. mv_result_ids env i 0)" "inj (\<lambda>i. mv_rule_ids env i 0)" "rules \<noteq> []"
    and "map_canonical_to_sdwan env t cmd s w = (Some (Inr m), s', w')"
  shows "mr_scope_id m = mv_scope_id env \<and> fst (get_mapping_scope_rules port t s' (mv_scope_id env)) =
    Inr (sort_key sl_priority rules, sort_key (\<lambda>r. (entity_type_value (me_entity_type r), me_created_at r)) results)"
proof -
  from built_graph [OF assms(4)] obtain e crs where
    b: "build_results (mv_result_ids env) (mv_clock env) (sc_id scope) e cat = Inr results"
      "build_scope_rules (mv_rule_ids env) (sc_id scope) crs e results = Inr rules"
    and id: "sc_id scope = mv_scope_id env"
    by blast
  from map_exact(2) [OF assms(1,2,8) refl] assms(3,4)
  have m: "mr_scope_id m = sc_id scope" and e: "entry t s' (sc_id scope) = Some \<lparr>mo_scope = scope,
      mo_rules = foldl (\<lambda>d r. AList.update (sl_id r) r d) [] rules,
      mo_results = foldl (\<lambda>d r. AList.update (me_id r) r d) [] results\<rparr>"
    by auto
  note e = e [unfolded dict_of_eq_map [OF built_rules_ids [OF b(2) assms(6)]]
      dict_of_eq_map [OF build_results_ids [OF b(1) assms(5)]]]
  have ok: "ok s'" by (rule scopes_okD(1) [OF map_exact(1) [OF assms(1,2,8)]])
  let ?sc = "scope\<lparr>sc_rules := Some (sort_key sl_priority rules)\<rparr>"
  obtain x s1 where 1: "get_scope_by_id port t s' (sc_id scope) = (x, s1)" by fastforce
  from get_scope_result [OF ok 1] e have x: "x = Some ?sc" and
    s1: "ok s1" "entry t s1 (sc_id scope) = entry t s' (sc_id scope)"
    by (simp_all add: materialize_scope_def moves_def comp_def)
  obtain y s2 where 2: "list_results port t s1 (sc_id scope) None None = (y, s2)" by fastforce
  from list_results_result [OF s1(1) 2] s1(2) e
  have y: "y = sort_key (\<lambda>r. (entity_type_value (me_entity_type r), me_created_at r)) results"
    by (simp add: comp_def)
  have "sort_key sl_priority rules \<noteq> []" using assms(7) by (metis length_0_conv length_sort)
  with m id 1 2 x y show ?thesis by (simp add: get_mapping_scope_rules_def or_empty_def)
qed

end


section \<open>Assigning a zone succeeds\<close>

context mapping_repository
begin

lemma assign_zone_total:
  assumes "scopes_ok t s" "mv_port env = port" "entry t s i = Some e" "mo_rules e \<noteq> []"
    and "get_scope_zone env (materialize_scope e) zid w = Some (Inr zn)" "rids 0 \<notin> fst ` set (mo_results e)"
  shows "\<exists>r os s'. assign_zone_for_scope env t rids oids dir zid i s w = (Some (Inr (r, os)), s', w) \<and>
    zone_matches (zn_id zn) r"
proof -
  let ?role = "map_zone_direction dir" and ?sc = "materialize_scope e" and ?z = "zn_id zn"
  obtain y s0 where y: "get_scope_by_id port t s i = (y, s0)" by fastforce
  from get_scope_result [OF scopes_okD(1) [OF assms(1)] y] assms(3)
  have y': "y = Some ?sc" and e0: "entry t s0 i = Some e" by (simp_all add: moves_def)
  have s0: "scopes_ok t s0" by (rule get_scope_ok [OF assms(1) y])
  have id: "sc_id ?sc = i" using entry_okD(1) [OF scopes_okD(2) [OF assms(1,3)]] by (simp add: materialize_scope_def)
  have rules: "set (or_empty (sc_rules ?sc)) = snd ` set (mo_rules e)" "or_empty (sc_rules ?sc) \<noteq> []"
    using assms(4) by (auto simp: materialize_scope_def or_empty_def dest: arg_cong [of _ _ set])
  obtain ms s2 where ms: "get_matching_zone_results port t s0 i ?z = (ms, s2)" by fastforce
  note m = matching_results [OF s0 e0 ms]
  let ?missing = "rules_without_zone (or_empty (sc_rules ?sc)) ?role ms"
  have run: "assign_zone_for_scope env t rids oids dir zid i s w =
      (if ?missing = [] then
         run_bind (Some (existing_mapping_result ms), s2, w) (\<lambda>r s w. (Some (Inr (r, [])), s, w))
       else run_bind (on_store (get_or_create_manual_zone_result env t rids s2 i ?z ms) w) (\<lambda>r s w.
         run_bind (on_store (add_zone_operands port t oids s i ?missing ?role (me_id r)) w)
           (\<lambda>os s w. (Some (Inr (r, os)), s, w))))"
    using y y' rules(2) assms(5) ms id
    by (simp add: assign_zone_for_scope_def get_scope_with_rules_def assms(2) Let_def)
  show ?thesis
  proof (cases "?missing = []")
    case True
    from rules(2) obtain q where "q \<in> set (or_empty (sc_rules ?sc))" by (cases "or_empty (sc_rules ?sc)") auto
    with True have "has_zone ?role (me_id ` set ms) q" by (auto simp: rules_without_zone_def filter_empty_conv)
    then obtain a as where "ms = a # as" by (cases ms) (auto simp: has_zone_def)
    then obtain r where r: "existing_mapping_result ms = Inr r" "r \<in> set ms"
    proof (cases "List.find is_manual_result ms")
      case None
      with \<open>ms = a # as\<close> that show ?thesis by (simp add: existing_mapping_result_def)
    next
      case (Some q)
      with that find_Some_D [OF Some] show ?thesis by (simp add: existing_mapping_result_def)
    qed
    with m(3) run True show ?thesis by auto
  next
    case False
    obtain u s3 where u: "get_or_create_manual_zone_result env t rids s2 i ?z ms = (u, s3)" by fastforce
    have "\<forall>q \<in> set ms. map_of (mo_results e) (me_id q) = Some q \<and> zone_matches ?z q" using m(3) by blast
    note mr = manual_result_ok [OF m(1,2) assms(2) this u]
    have "\<exists>r. u = Inr r"
    proof (cases "List.find is_manual_result ms")
      case None
      let ?n = "create_zone_manually_assigned rids t i ?z"
      obtain v s1 where v: "add_results port t s2 i [?n] = (v, s1)" by fastforce
      have "me_mapping_scope_id ?n = i" "me_id ?n = rids 0" by (simp_all add: create_zone_manually_assigned_def)
      with add_results_entry [OF scopes_okD(1) [OF m(1)] v] m(2) assms(6) have "v = Inr ()" by simp
      with u None v assms(2) show ?thesis by (auto simp: get_or_create_manual_zone_result_def Let_def)
    next
      case (Some q)
      with u show ?thesis by (auto simp: get_or_create_manual_zone_result_def)
    qed
    then obtain r where r: "u = Inr r" by blast
    from mr(2) [OF r] obtain d where d: "zone_matches ?z r" "entry t s3 i = Some (e\<lparr>mo_results := d\<rparr>)"
      "map_of d (me_id r) = Some r" by blast
    obtain v s4 where v: "add_zone_operands port t oids s3 i ?missing ?role (me_id r) = (v, s4)" by fastforce
    have rid: "me_id r \<in> fst ` set (mo_results (e\<lparr>mo_results := d\<rparr>))" using map_of_SomeD [OF d(3)] by force
    have "sl_id q \<in> fst ` set (mo_rules (e\<lparr>mo_results := d\<rparr>))" if "q \<in> set ?missing" for q
    proof -
      from that have "q \<in> snd ` set (mo_rules e)" unfolding rules(1) [symmetric] by (simp add: rules_without_zone_def)
      with entry_okD(4) [OF scopes_okD(2) [OF assms(1,3)]] show ?thesis by force
    qed
    then have "\<forall>q \<in> set ?missing. sl_id q \<in> fst ` set (mo_rules (e\<lparr>mo_results := d\<rparr>))" by blast
    from add_zone_operands_entry [OF mr(1) d(2) rid this v] obtain os where os: "v = Inr os"
      by (elim exE conjE)
    have "assign_zone_for_scope env t rids oids dir zid i s w = (Some (Inr (r, os)), s4, w)"
      unfolding run using False u r v os by simp
    with d(1) show ?thesis by blast
  qed
qed

end


section \<open>What the execute module reads\<close>

text \<open>The ids that a rule read from a scope has for a role.\<close>

definition md_role_ids :: "mapped_rule_data \<Rightarrow> operand_role \<Rightarrow> int list" where
  "md_role_ids m role =
     (case role of OR_SRC_ZONE \<Rightarrow> md_src_zones m | OR_DST_ZONE \<Rightarrow> md_dst_zones m
      | OR_SRC_ADDR_OBJECT \<Rightarrow> md_src_addr_objects m | OR_DST_ADDR_OBJECT \<Rightarrow> md_dst_addr_objects m
      | OR_SERVICE \<Rightarrow> md_services m)"

lemma rule_read_ids: "rule_read rs rule m \<Longrightarrow> md_role_ids m role = ids_of_role rs rule role"
  by (cases role) (simp_all add: rule_read_def md_role_ids_def)

lemma ids_of_role_refs:
  assumes "results_keyed rs" "\<forall>r \<in> set rs. me_selected_sdwan_entity_id r \<noteq> None"
    and "\<forall>o1 \<in> set (sl_operand_list sr). so_result_id o1 \<in> me_id ` set rs"
    and "distinct (map (\<lambda>r. (me_entity_type r, canonical_entity_id r)) rs)"
  shows "Some ` set (ids_of_role rs sr role) = {me_selected_sdwan_entity_id r | r i. r \<in> set rs \<and>
    canonical_entity_id r = Inr i \<and> (role, me_entity_type r, i) \<in> scope_rule_refs rs sr}"
proof (intro set_eqI iffI)
  have find: "map_of (dict_of me_id rs) (me_id r) = Some r" if "r \<in> set rs" for r
    using assms(1) that by (simp add: results_keyed_def dict_of_distinct)
  fix x
  {
    assume "x \<in> Some ` set (ids_of_role rs sr role)"
    then obtain o1 where o1: "o1 \<in> set (sl_operand_list sr)" "so_role o1 = role"
      "x = Some (the (me_selected_sdwan_entity_id (the (map_of (dict_of me_id rs) (so_result_id o1)))))"
      by (auto simp: ids_of_role_def)
    from assms(3) o1(1) obtain r where r: "r \<in> set rs" "so_result_id o1 = me_id r" by auto
    from assms(1) r(1) obtain i where "canonical_entity_id r = Inr i" by (auto simp: results_keyed_def)
    moreover have "x = me_selected_sdwan_entity_id r" using o1(3) r(2) find [OF r(1)] assms(2) r(1) by auto
    moreover have "(role, me_entity_type r, i) \<in> scope_rule_refs rs sr" if "canonical_entity_id r = Inr i" for i
      unfolding scope_rule_refs_def using o1(1,2) r that by (auto intro!: exI [of _ o1] exI [of _ r])
    ultimately show "x \<in> {me_selected_sdwan_entity_id r | r i. r \<in> set rs \<and>
        canonical_entity_id r = Inr i \<and> (role, me_entity_type r, i) \<in> scope_rule_refs rs sr}"
      using r(1) by blast
  next
    assume "x \<in> {me_selected_sdwan_entity_id r | r i. r \<in> set rs \<and>
        canonical_entity_id r = Inr i \<and> (role, me_entity_type r, i) \<in> scope_rule_refs rs sr}"
    then obtain r i o1 q where q: "x = me_selected_sdwan_entity_id r" "r \<in> set rs" "canonical_entity_id r = Inr i"
      "o1 \<in> set (sl_operand_list sr)" "so_role o1 = role" "q \<in> set rs" "me_id q = so_result_id o1"
      "me_entity_type q = me_entity_type r" "canonical_entity_id q = Inr i"
      by (auto simp: scope_rule_refs_def)
    have "q = r" using assms(4) q(2,3,6,8,9) by (auto simp: distinct_map dest: inj_onD)
    with q assms(2) find [OF q(2)] show "x \<in> Some ` set (ids_of_role rs sr role)"
      by (auto simp: ids_of_role_def image_image intro!: image_eqI [of _ _ o1])
  }
qed


text \<open>A rule as the execute module sees it translates a canonical rule: name, priority and action are
  its own, no role is empty, and the ids of a role are the selections of the results of the objects
  that the canonical rule names in that role.\<close>

definition rule_translated :: "can_scope_entities \<Rightarrow> entity_result list \<Rightarrow> can_rule \<Rightarrow> mapped_rule_data \<Rightarrow> bool" where
  "rule_translated e rs rule m \<longleftrightarrow>
     md_name m = cr_name rule \<and> md_priority m = cr_priority rule \<and>
     md_action m = (case cr_action rule of CAN_PERMIT \<Rightarrow> MAPPED_ACCEPT | CAN_DENY \<Rightarrow> MAPPED_REJECT) \<and>
     (\<forall>role. md_role_ids m role \<noteq> [] \<and> Some ` set (md_role_ids m role) =
        {me_selected_sdwan_entity_id r | r i. r \<in> set rs \<and> canonical_entity_id r = Inr i \<and>
           (role, me_entity_type r, i) \<in> rule_refs e rule})"

lemma translated_refs:
  assumes "rule_translated e rs rule m"
  shows "\<exists>x. (role, x) \<in> rule_refs e rule"
proof -
  from assms have ids: "md_role_ids m role \<noteq> []" "Some ` set (md_role_ids m role) =
        {me_selected_sdwan_entity_id r | r i. r \<in> set rs \<and> canonical_entity_id r = Inr i \<and>
           (role, me_entity_type r, i) \<in> rule_refs e rule}"
    by (auto simp: rule_translated_def)
  from ids(1) have "Some (hd (md_role_ids m role)) \<in> Some ` set (md_role_ids m role)" by simp
  then show ?thesis unfolding ids(2) by blast
qed

lemma complete_ids: "rule_complete m \<Longrightarrow> md_role_ids m role \<noteq> []"
  by (cases role) (simp_all add: rule_complete_def md_role_ids_def)

text \<open>Reading succeeds when all results are matched and no role of a rule is empty.\<close>

lemma read_rule_total:
  assumes "sl_operands rule = Some os" "\<And>role. \<exists>o1 \<in> set os. so_role o1 = role"
    and "\<And>o1. o1 \<in> set os \<Longrightarrow> \<exists>r i. map_of by_id (so_result_id o1) = Some r \<and> me_selected_sdwan_entity_id r = Some i"
  shows "\<exists>m. read_rule by_id rule = Inr m"
proof -
  have "\<exists>y. operand_selection by_id o1 = Inr y" if "o1 \<in> set os" for o1
    using assms(3) [OF that] by (auto simp: operand_selection_def)
  then obtain xs where xs: "traverse (operand_selection by_id) os = Inr xs"
    using traverse_Inr_ex [of "operand_selection by_id" os] by blast
  have "role_ids role xs \<noteq> []" for role
  proof -
    from assms(2) [of role] obtain o1 where "o1 \<in> set os" "so_role o1 = role" by blast
    then show ?thesis unfolding role_ids_selected [OF xs] by (auto simp: filter_empty_conv)
  qed
  with assms(1) xs show ?thesis by (simp add: read_rule_def)
qed

lemma read_rules_total:
  assumes "build_results ids clock sc e cat = Inr rs" "inj (\<lambda>i. ids i 0)"
    and "build_scope_rules rids sc crs e rs = Inr srs" "set rs' = set rs"
    and "\<forall>r \<in> set rs. me_result_status r = RS_MATCHED"
    and "\<forall>rule \<in> set crs. \<forall>role. \<exists>x. (role, x) \<in> rule_refs e rule" "set srs' = set srs"
  shows "\<exists>ms. read_rules sc srs' rs' = Inr ms"
proof -
  note keyed = built_keyed [OF assms(1,2)]
  have "\<exists>m. read_rule (dict_of me_id rs') sr = Inr m" if sr: "sr \<in> set srs" for sr
  proof -
    obtain os where os: "sl_operands sr = Some os" using built_rules_operands [OF assms(3) sr] by blast
    from sr build_scope_rules_exact [OF keyed assms(3)] obtain rule where
      rule: "rule \<in> set crs" "scope_rule_refs rs sr = rule_refs e rule"
      by (force simp: list_all2_conv_all_nth in_set_conv_nth rule_built_def)
    show ?thesis
    proof (rule read_rule_total [OF os])
      fix role
      from assms(6) rule obtain x where "(role, x) \<in> scope_rule_refs rs sr" by force
      then show "\<exists>o1 \<in> set os. so_role o1 = role" using os by (auto simp: scope_rule_refs_def sl_operand_list_def)
    next
      fix o1 assume "o1 \<in> set os"
      then have "so_result_id o1 \<in> me_id ` set rs'"
        using built_rules_linked(2) [OF assms(3) sr, of o1] os assms(4) by (simp add: sl_operand_list_def)
      then have "map_of (dict_of me_id rs') (so_result_id o1) \<noteq> None" using dict_of_None_iff [of me_id rs'] by auto
      then obtain r where r: "map_of (dict_of me_id rs') (so_result_id o1) = Some r" by blast
      then have "r \<in> set rs" using dict_of_Some_D [OF r] assms(4) by simp
      then have "me_selected_sdwan_entity_id r \<noteq> None"
        using assms(5) build_results_all_ok [OF assms(1)] by (auto simp: result_ok_def)
      with r show "\<exists>r i. map_of (dict_of me_id rs') (so_result_id o1) = Some r \<and> me_selected_sdwan_entity_id r = Some i"
        by blast
    qed
  qed
  then have "\<exists>ms. traverse (read_rule (dict_of me_id rs')) (sort_key sl_priority srs') = Inr ms"
    unfolding traverse_Inr_ex by (simp add: assms(7))
  with assms(4,5) show ?thesis by (auto simp: read_rules_def)
qed

lemma read_rules_translate:
  assumes "build_results ids clock sc e cat = Inr rs" "inj (\<lambda>i. ids i 0)" "distinct (scope_targets e)"
    and "build_scope_rules rids sc crs e rs = Inr srs"
    and "set rs' = set rs" "distinct rs'" "read_rules sc (sort_key sl_priority srs) rs' = Inr ms"
  shows "list_all2 (rule_translated e rs) (sort_key cr_priority crs) ms \<and> (\<forall>r \<in> set rs. me_result_status r = RS_MATCHED)"
proof -
  note keyed = built_keyed [OF assms(1,2)]
  have keys: "distinct (map (\<lambda>r. (me_entity_type r, canonical_entity_id r)) rs)"
    unfolding build_results_targets [OF assms(1)] using assms(3) by (auto simp: distinct_map inj_on_def)
  have keyed': "results_keyed rs'" and keys': "distinct (map (\<lambda>r. (me_entity_type r, canonical_entity_id r)) rs')"
    using keyed keys assms(5,6) by (auto simp: results_keyed_def distinct_map)
  from read_rules_exact [OF assms(7)] have matched: "\<forall>r \<in> set rs. me_result_status r = RS_MATCHED"
    and read: "list_all2 (\<lambda>rule m. rule_read rs' rule m \<and> rule_complete m) (sort_key sl_priority srs) ms"
    by (simp_all add: assms(5) sort_key_id_if_sorted)
  have sel: "\<forall>r \<in> set rs'. me_selected_sdwan_entity_id r \<noteq> None"
    using matched build_results_all_ok [OF assms(1)] unfolding assms(5) by (auto simp: result_ok_def)
  have one: "rule_translated e rs rule m"
    if "rule_built e rs sc rule sr" "sr \<in> set srs" "rule_read rs' sr m" "rule_complete m" for rule sr m
  proof -
    have "\<forall>o1 \<in> set (sl_operand_list sr). so_result_id o1 \<in> me_id ` set rs'"
      using built_rules_linked(2) [OF assms(4) that(2)] assms(5) by auto
    note ids = ids_of_role_refs [OF keyed' sel this keys']
    have refs: "scope_rule_refs rs' sr = rule_refs e rule"
      using that(1) unfolding rule_built_def scope_rule_refs_def assms(5) by blast
    have "Some ` set (md_role_ids m role) = {me_selected_sdwan_entity_id r | r i. r \<in> set rs \<and>
        canonical_entity_id r = Inr i \<and> (role, me_entity_type r, i) \<in> rule_refs e rule}" for role
      unfolding rule_read_ids [OF that(3)] using ids [of role] unfolding refs assms(5) .
    moreover have "md_name m = cr_name rule \<and> md_priority m = cr_priority rule \<and>
        md_action m = (case cr_action rule of CAN_PERMIT \<Rightarrow> MAPPED_ACCEPT | CAN_DENY \<Rightarrow> MAPPED_REJECT)"
      using that(1,3) by (cases "cr_action rule")
        (simp_all add: rule_built_def rule_read_def mapped_action_of_def map_rule_action_def)
    ultimately show ?thesis using complete_ids [OF that(4)] unfolding rule_translated_def by blast
  qed
  have "list_all2 (\<lambda>rule sr. rule_built e rs sc rule sr \<and> sr \<in> set srs) crs srs"
    using build_scope_rules_exact [OF keyed assms(4)] by (auto simp: list_all2_conv_all_nth)
  then have "list_all2 (\<lambda>rule sr. rule_built e rs sc rule sr \<and> sr \<in> set srs) (sort_key cr_priority crs) (sort_key sl_priority srs)"
    by (rule sort_related) (simp add: rule_built_def)
  from this read have "list_all2 (rule_translated e rs) (sort_key cr_priority crs) ms"
    by (rule list_all2_trans [rotated]) (use one in blast)
  with matched show ?thesis by simp
qed

context mapping_repository
begin

lemma map_then_reader:
  assumes "scopes_ok t s" "mv_port env = port" "load_catalog env w cmd = Some (Inr cat)"
    and "mv_scope_entities env (mc_snapshot_id cmd) (mc_rules_ids cmd) = Inr e"
    and "mv_scope_rules env (mc_snapshot_id cmd) (mc_rules_ids cmd) = Inr crs"
    and "inj (\<lambda>i. mv_result_ids env i 0)" "inj (\<lambda>i. mv_rule_ids env i 0)" "distinct (scope_targets e)"
    and "map_canonical_to_sdwan env t cmd s w = (Some (Inr m), s', w')"
  shows "\<exists>rs. build_results (mv_result_ids env) (mv_clock env) (mr_scope_id m) e cat = Inr rs \<and>
    ((\<exists>ms s''. reader_scope_rules port t s' (mr_scope_id m) = (Inr ms, s'')) \<longleftrightarrow>
       crs \<noteq> [] \<and> (\<forall>r \<in> set rs. me_result_status r = RS_MATCHED) \<and>
       (\<forall>rule \<in> set crs. \<forall>role. \<exists>x. (role, x) \<in> rule_refs e rule)) \<and>
    (\<forall>ms s''. reader_scope_rules port t s' (mr_scope_id m) = (Inr ms, s'') \<longrightarrow>
       list_all2 (rule_translated e rs) (sort_key cr_priority crs) ms)"
proof -
  from map_exact(2) [OF assms(1,2,9) refl] assms(3) obtain scope rs srs where
    g: "build_scope_graph env t cmd cat = Inr (scope, rs, srs)" and m: "mr_scope_id m = sc_id scope"
    by auto
  from built_graph [OF g] assms(4,5) have b:
    "build_results (mv_result_ids env) (mv_clock env) (sc_id scope) e cat = Inr rs"
    "build_scope_rules (mv_rule_ids env) (sc_id scope) crs e rs = Inr srs" and id: "sc_id scope = mv_scope_id env"
    by (metis Inr_inject)+
  have len: "crs = [] \<longleftrightarrow> srs = []"
    using list_all2_lengthD [OF build_scope_rules_exact [OF built_keyed [OF b(1) assms(6)] b(2)]] by auto
  let ?rs = "sort_key (\<lambda>r. (entity_type_value (me_entity_type r), me_created_at r)) rs"
  obtain q sq where q: "get_mapping_scope_rules port t s' (mr_scope_id m) = (q, sq)" by fastforce
  show ?thesis
  proof (cases "srs = []")
    case True
    with map_exact(2) [OF assms(1,2,9) refl] assms(3) g have
      "view t s' MAPPING_SCOPE_NAMESPACE (sc_id scope) = Some \<lparr>mo_scope = scope, mo_rules = [],
        mo_results = foldl (\<lambda>d r. AList.update (me_id r) r d) [] rs\<rparr>" by auto
    moreover obtain x s1 where 1: "get_scope_by_id port t s' (sc_id scope) = (x, s1)" by fastforce
    ultimately have "x = Some (scope\<lparr>sc_rules := Some []\<rparr>)"
      using get_scope_result [OF scopes_okD(1) [OF map_exact(1) [OF assms(1,2,9)]] 1] by (simp add: materialize_scope_def)
    then have "\<not> (\<exists>ms s''. reader_scope_rules port t s' (mr_scope_id m) = (Inr ms, s''))"
      using 1 m by (simp add: reader_scope_rules_def get_mapping_scope_rules_def or_empty_def)
    with b(1) m len True show ?thesis by (intro exI [of _ rs]) simp
  next
    case False
    from map_then_read [OF assms(1-3) g assms(6,7) False assms(9)] m id q
    have "q = Inr (sort_key sl_priority srs, ?rs)" by simp
    with q m have reader: "reader_scope_rules port t s' (mr_scope_id m) =
        (read_rules (sc_id scope) (sort_key sl_priority srs) ?rs, sq)"
      by (simp add: reader_scope_rules_def)
    have d: "distinct ?rs" using build_results_ids [OF b(1) assms(6)] by (simp add: distinct_map)
    note tr = read_rules_translate [OF b(1) assms(6,8) b(2) set_sort d]
    have refs: "\<exists>x. (role, x) \<in> rule_refs e rule"
      if "list_all2 (rule_translated e rs) (sort_key cr_priority crs) ms" "rule \<in> set crs" for ms rule role
    proof -
      from that obtain p where "rule_translated e rs rule p"
        by (metis in_set_conv_nth list_all2_conv_all_nth set_sort)
      then show ?thesis by (rule translated_refs)
    qed
    have "(\<exists>ms. read_rules (sc_id scope) (sort_key sl_priority srs) ?rs = Inr ms) \<longleftrightarrow>
        (\<forall>r \<in> set rs. me_result_status r = RS_MATCHED) \<and> (\<forall>rule \<in> set crs. \<forall>role. \<exists>x. (role, x) \<in> rule_refs e rule)"
    proof
      assume "\<exists>ms. read_rules (sc_id scope) (sort_key sl_priority srs) ?rs = Inr ms"
      then obtain ms where ms: "read_rules (sc_id scope) (sort_key sl_priority srs) ?rs = Inr ms" by blast
      note tr' = tr [OF ms]
      from refs [OF conjunct1 [OF tr']] conjunct2 [OF tr']
      show "(\<forall>r \<in> set rs. me_result_status r = RS_MATCHED) \<and> (\<forall>rule \<in> set crs. \<forall>role. \<exists>x. (role, x) \<in> rule_refs e rule)"
        by blast
    next
      assume h: "(\<forall>r \<in> set rs. me_result_status r = RS_MATCHED) \<and> (\<forall>rule \<in> set crs. \<forall>role. \<exists>x. (role, x) \<in> rule_refs e rule)"
      show "\<exists>ms. read_rules (sc_id scope) (sort_key sl_priority srs) ?rs = Inr ms"
        by (rule read_rules_total [OF b(1) assms(6) b(2) set_sort conjunct1 [OF h] conjunct2 [OF h] set_sort])
    qed
    with b(1) m len False tr reader show ?thesis by (intro exI [of _ rs]) auto
  qed
qed

end

end
