(* ===== verification/Mapping_Properties.thy ===== *)
theory Mapping_Properties
  imports Mapping_Samples Coverage
begin

text \<open>
  The properties of the mapping module: what its automatic matches mean, how results, rules and
  groups correspond to the canonical snapshot, and what the use cases leave in the cache.
\<close>

section \<open>Automatic matches\<close>

lemma built_result_of:
  assumes "build_results ids clock sc e cat = Inr rs" "r \<in> set rs"
    and "me_entity_type r = et" "canonical_entity_id r = Inr i"
  obtains ai cs n where "mk_addr_index (fc_addr_objs cat) = Inr ai"
    "(et, i, cs) \<in> set (matched_objects e (mk_zones_index (fc_zones cat)) ai (mk_services_index (fc_services cat)))"
    "r = build_result (ids n) (clock n) sc et i cs"
proof -
  from build_results_member [OF assms(1,2)] obtain ai n et' i' cs where m:
    "mk_addr_index (fc_addr_objs cat) = Inr ai"
    "(et', i', cs) \<in> set (matched_objects e (mk_zones_index (fc_zones cat)) ai (mk_services_index (fc_services cat)))"
    "r = build_result (ids n) (clock n) sc et' i' cs"
    by metis
  with assms(3,4) have "et' = et" "i' = i" by simp_all
  with m that show thesis by blast
qed

definition status_of_count :: "nat \<Rightarrow> mapping_result_status" where
  "status_of_count n = (if n = 0 then RS_UNRESOLVED else if n = 1 then RS_MATCHED else RS_AMBIGUOUS)"

text \<open>A result follows from the set of ids of its candidates.\<close>

lemma build_result_by_ids:
  assumes "map mp_sdwan_entity_id cs = sorted_list_of_set I" "finite I"
  shows "me_result_status (build_result ids now sc et i cs) = status_of_count (card I) \<and>
    me_selected_sdwan_entity_id (build_result ids now sc et i cs) = (if card I = 1 then Some (the_elem I) else None)"
proof -
  have len: "length cs = card I"
    using arg_cong [OF assms(1), of length] by simp
  have "mp_sdwan_entity_id (hd cs) = the_elem I" if one: "card I = 1"
  proof -
    from one obtain x where "I = {x}" by (auto simp: card_1_singleton_iff)
    with assms(1) show ?thesis by (cases cs) auto
  qed
  then show ?thesis unfolding len [symmetric] status_of_count_def build_result_status by simp
qed

lemma addr_result_status:
  assumes "build_results ids clock sc e cat = Inr rs" "r \<in> set rs"
    and "me_entity_type r = ET_ADDR" "canonical_entity_id r = Inr (ca_id c)"
    and "c \<in> set (ce_addr_objects e)" "distinct (map ca_id (ce_addr_objects e))" "ca_kind c \<noteq> CK_ANY_ADDR"
  shows "let I = ao_id ` set (objects_with (canonical_value c) (fc_addr_objs cat)) in
    me_result_status r = status_of_count (card I) \<and>
    me_selected_sdwan_entity_id r = (if card I = 1 then Some (the_elem I) else None)"
proof -
  from built_result_of [OF assms(1-4)] obtain ai cs n where m: "mk_addr_index (fc_addr_objs cat) = Inr ai"
    "(ET_ADDR, ca_id c, cs) \<in> set (matched_objects e (mk_zones_index (fc_zones cat)) ai (mk_services_index (fc_services cat)))"
    "r = build_result (ids n) (clock n) sc ET_ADDR (ca_id c) cs"
    by metis
  from m(2) obtain c' where "c' \<in> set (ce_addr_objects e)" "ca_id c' = ca_id c" "cs = match_addr ai c'"
    by (auto simp: matched_objects_def)
  with assms(5,6) have "cs = match_addr ai c" by (auto simp: distinct_map dest: inj_onD)
  then have "map mp_sdwan_entity_id cs =
      sorted_list_of_set (ao_id ` set (objects_with (canonical_value c) (fc_addr_objs cat)))"
    using match_addr_ids [OF m(1) assms(7)] by simp
  from build_result_by_ids [OF this] show ?thesis unfolding m(3) Let_def by simp
qed

text \<open>C28 The automatic result of a canonical address object is decided by value: with the catalog
  objects that have the value of the canonical one, it is unresolved when there is none, matched
  with its id when there is exactly one, and ambiguous otherwise.\<close>

theorem addr_result_by_value:
  assumes "build_results ids clock sc e cat = Inr rs" "r \<in> set rs"
    and "me_entity_type r = ET_ADDR" "canonical_entity_id r = Inr (ca_id c)"
    and "c \<in> set (ce_addr_objects e)" "distinct (map ca_id (ce_addr_objects e))" "ca_kind c \<noteq> CK_ANY_ADDR"
  shows "let I = ao_id ` set (objects_with (canonical_value c) (fc_addr_objs cat)) in
    me_result_status r = status_of_count (card I) \<and>
    me_selected_sdwan_entity_id r = (if card I = 1 then Some (the_elem I) else None)"
  using assms by (rule addr_result_status)

lemma sample_objects_with: "objects_with (Some (V_HOST 1)) [sample_host_object] = [sample_host_object]"
  by (simp add: objects_with_def distinct_by_Cons object_value_def sample_host_object_def)

lemma sample_host_result:
  "the_elem (ao_id ` set (objects_with (canonical_value sample_can_host) (fc_addr_objs sample_full_catalog))) = 5"
  "card (ao_id ` set (objects_with (canonical_value sample_can_host) (fc_addr_objs sample_full_catalog))) = 1"
  unfolding sample_canonical_value
  by (simp_all add: sample_full_catalog_def sample_objects_with) (simp_all add: sample_host_object_def)

lemma sample_host_in: "sample_can_host \<in> set (ce_addr_objects sample_entities)"
  "distinct (map ca_id (ce_addr_objects sample_entities))" "ca_kind sample_can_host \<noteq> CK_ANY_ADDR"
  "ca_id sample_can_host = 7"
  by (simp_all add: sample_mapping_defs)

theorem addr_result_by_value_witness:
  "\<exists>r. r \<in> set sample_results \<and> canonical_entity_id r = Inr 7 \<and> me_result_status r = RS_MATCHED \<and>
    me_selected_sdwan_entity_id r = Some 5"
proof -
  obtain r where r: "r \<in> set sample_results" "me_entity_type r = ET_ADDR" "canonical_entity_id r = Inr 7"
    by (rule sample_result [of ET_ADDR 7]) (simp add: sample_targets)
  have "let I = ao_id ` set (objects_with (canonical_value sample_can_host) (fc_addr_objs sample_full_catalog)) in
    me_result_status r = status_of_count (card I) \<and>
    me_selected_sdwan_entity_id r = (if card I = 1 then Some (the_elem I) else None)"
    by (rule addr_result_by_value [OF sample_built r(1,2) _ sample_host_in(1-3)]) (simp add: r(3) sample_host_in(4))
  then have "me_result_status r = RS_MATCHED \<and> me_selected_sdwan_entity_id r = Some 5"
    unfolding Let_def sample_host_result by (simp add: status_of_count_def)
  with r(1,3) show ?thesis by blast
qed

text \<open>A consequence of normalizing names to their Latin letters and digits: zones whose names have
  none match each other.\<close>

lemma blank_names_match:
  "normalize_name ''---'' = normalize_name ''***''"
  "length (match_zone (mk_zones_index [sample_zone 4 ''***'']) \<lparr>cz_id = 1, cz_zone_key = ''z'', cz_name = ''---''\<rparr>) = 1"
  by code_simp+

text \<open>The addresses that a canonical object stands for.\<close>

definition canonical_endpoints :: "can_addr \<Rightarrow> endpoint set option" where
  "canonical_endpoints c =
     (case canonical_value c of
        Some (V_HOST h) \<Rightarrow> Some {Ip (uint h)}
      | Some (V_NETWORK n) \<Rightarrow> Some ((\<lambda>a. Ip (uint a)) ` network_addrs n)
      | Some (V_RANGE s e) \<Rightarrow> Some (Ip ` {uint s..uint e})
      | _ \<Rightarrow> None)"

lemma ip_interval:
  assumes "\<And>a :: ipv4. a \<in> A \<longleftrightarrow> lo \<le> uint a \<and> uint a \<le> hi" "0 \<le> lo" "hi < 2 ^ 32"
  shows "Ip ` {lo..hi} = (\<lambda>a. Ip (uint a)) ` A"
proof -
  have "x \<in> uint ` A" if x: "x \<in> {lo..hi}" for x
  proof -
    have eq: "uint (word_of_int x :: ipv4) = x"
      using x assms(2,3) by (simp add: word_of_int_inverse unsigned_of_int take_bit_int_eq_self)
    then have "(word_of_int x :: ipv4) \<in> A" using x assms(1) by simp
    then have "uint (word_of_int x :: ipv4) \<in> uint ` A" by (rule imageI)
    then show ?thesis unfolding eq .
  qed
  then have "{lo..hi} = uint ` A" using assms(1) by auto
  then show ?thesis by (simp add: image_image)
qed

lemma span_network:
  assumes "network_wf n"
  shows "address_sem (span_from_network n) = (\<lambda>a. Ip (uint a)) ` network_addrs n"
proof -
  have "uint (broadcast_address n) < 2 ^ 32" using unsigned_less [of "broadcast_address n"] by simp
  then show ?thesis
    using ip_interval [of "network_addrs n", OF network_interval [OF assms]]
    by (simp add: span_from_network_def)
qed

lemma value_sem:
  assumes "object_value a = canonical_value c" "address_value_from_leaf a = Inr v"
    and "canonical_endpoints c = Some X" "\<And>n. canonical_value c = Some (V_NETWORK n) \<Longrightarrow> network_wf n"
  shows "address_sem v = X"
proof (cases "canonical_value c")
  case None
  with assms(3) show ?thesis by (simp add: canonical_endpoints_def)
next
  case (Some y)
  show ?thesis
  proof (cases y)
    case (V_HOST h)
    with Some assms(1-3) show ?thesis
      by (cases "ao_type a") (auto simp: canonical_endpoints_def object_value_def address_value_from_leaf_def
          span_from_host_def split: option.splits)
  next
    case (V_NETWORK n)
    with Some assms(1,2) have "v = span_from_network n"
      by (cases "ao_type a") (auto simp: object_value_def address_value_from_leaf_def split: option.splits)
    with V_NETWORK Some assms(3,4) span_network [of n] show ?thesis by (simp add: canonical_endpoints_def)
  next
    case (V_RANGE s t)
    with Some assms(1-3) show ?thesis
      by (cases "ao_type a") (auto simp: canonical_endpoints_def object_value_def address_value_from_leaf_def
          span_from_range_def split: option.splits if_splits)
  next
    case (V_FQDN d)
    with Some assms(3) show ?thesis by (simp add: canonical_endpoints_def)
  qed
qed


lemma canonical_network_wf: "canonical_value c = Some (V_NETWORK n) \<Longrightarrow> network_wf n"
  by (auto simp: canonical_value_def bind_eq_Some_conv dest: parse_network_wf split: can_addr_kind.splits)

text \<open>C7 An automatic match preserves the meaning: the catalog object selected for a canonical host,
  subnet or range is one whose value, as the rule comparison reads it, stands for exactly the
  addresses of the canonical object.\<close>

theorem matched_addr_meaning:
  assumes "build_results ids clock sc e cat = Inr rs" "r \<in> set rs"
    and "me_entity_type r = ET_ADDR" "canonical_entity_id r = Inr (ca_id c)"
    and "c \<in> set (ce_addr_objects e)" "distinct (map ca_id (ce_addr_objects e))"
    and "me_result_status r = RS_MATCHED" "canonical_endpoints c = Some X"
  shows "\<exists>a. a \<in> set (fc_addr_objs cat) \<and> me_selected_sdwan_entity_id r = Some (ao_id a) \<and>
    (\<forall>v. address_value_from_leaf a = Inr v \<longrightarrow> address_sem v = X)"
proof -
  let ?os = "objects_with (canonical_value c) (fc_addr_objs cat)"
  have kind: "ca_kind c \<noteq> CK_ANY_ADDR"
    using assms(8) by (auto simp: canonical_endpoints_def canonical_value_def)
  from addr_result_status [OF assms(1-6) kind] assms(7)
  have one: "card (ao_id ` set ?os) = 1" "me_selected_sdwan_entity_id r = Some (the_elem (ao_id ` set ?os))"
    by (auto simp: Let_def status_of_count_def split: if_splits)
  then obtain i where i: "ao_id ` set ?os = {i}" by (auto simp: card_1_singleton_iff)
  then obtain a where a: "a \<in> set ?os" "ao_id a = i" by blast
  from a(1) have "a \<in> set (fc_addr_objs cat)" and val: "object_value a = canonical_value c"
    using distinct_by_sub [of ao_id "fc_addr_objs cat"] by (auto simp: objects_with_def split: option.splits)
  moreover have "me_selected_sdwan_entity_id r = Some (ao_id a)" using one(2) i a(2) by simp
  moreover have "address_sem v = X" if "address_value_from_leaf a = Inr v" for v
    by (rule value_sem [OF val that assms(8) canonical_network_wf])
  ultimately show ?thesis by blast
qed

theorem matched_addr_meaning_witness:
  "\<exists>r a. r \<in> set sample_results \<and> canonical_entity_id r = Inr 7 \<and> a \<in> set (fc_addr_objs sample_full_catalog) \<and>
    me_selected_sdwan_entity_id r = Some (ao_id a) \<and> address_value_from_leaf a = Inr (span_from_host 1) \<and>
    address_sem (span_from_host 1) = {Ip 1}"
proof -
  obtain r where r: "r \<in> set sample_results" "me_entity_type r = ET_ADDR" "canonical_entity_id r = Inr 7"
    by (rule sample_result [of ET_ADDR 7]) (simp add: sample_targets)
  have can: "canonical_entity_id r = Inr (ca_id sample_can_host)" by (simp add: r(3) sample_host_in(4))
  have matched: "me_result_status r = RS_MATCHED"
    using addr_result_status [OF sample_built r(1,2) can sample_host_in(1-3)]
    unfolding Let_def sample_host_result by (simp add: status_of_count_def)
  have "\<exists>a. a \<in> set (fc_addr_objs sample_full_catalog) \<and> me_selected_sdwan_entity_id r = Some (ao_id a) \<and>
    (\<forall>v. address_value_from_leaf a = Inr v \<longrightarrow> address_sem v = {Ip 1})"
    by (rule matched_addr_meaning [OF sample_built r(1,2) can sample_host_in(1,2) matched])
      (simp add: canonical_endpoints_def sample_canonical_value)
  then obtain a where a: "a = sample_host_object" "me_selected_sdwan_entity_id r = Some (ao_id a)"
    "\<forall>v. address_value_from_leaf a = Inr v \<longrightarrow> address_sem v = {Ip 1}"
    by (auto simp: sample_full_catalog_def)
  have "address_value_from_leaf sample_host_object = Inr (span_from_host 1)"
    by (simp add: address_value_from_leaf_def sample_host_object_def)
  with a r(1,3) show ?thesis by (intro exI [of _ r] exI [of _ a]) (simp add: sample_full_catalog_def)
qed

text \<open>C29 The automatic result of a canonical service is decided by its signature: it is matched with
  a catalog service exactly when this is the only one with the protocol and the port range, or with
  the ICMP codes, of the canonical one.\<close>

theorem service_result_by_signature:
  assumes "build_results ids clock sc e cat = Inr rs" "r \<in> set rs"
    and "me_entity_type r = ET_SERVICE" "canonical_entity_id r = Inr (cs_id c)"
    and "c \<in> set (ce_services e)" "distinct (map cs_id (ce_services e))" "cs_kind c \<noteq> SK_ANY_SERVICE"
  shows "let I = sv_id ` set (filter (service_matches c) (distinct_by sv_id (fc_services cat))) in
    me_result_status r = status_of_count (card I) \<and>
    me_selected_sdwan_entity_id r = (if card I = 1 then Some (the_elem I) else None)"
proof -
  from built_result_of [OF assms(1-4)] obtain ai cs n where m: "mk_addr_index (fc_addr_objs cat) = Inr ai"
    "(ET_SERVICE, cs_id c, cs) \<in> set (matched_objects e (mk_zones_index (fc_zones cat)) ai (mk_services_index (fc_services cat)))"
    "r = build_result (ids n) (clock n) sc ET_SERVICE (cs_id c) cs"
    by metis
  from m(2) obtain c' where "c' \<in> set (ce_services e)" "cs_id c' = cs_id c"
    "cs = match_service (mk_services_index (fc_services cat)) c'"
    by (auto simp: matched_objects_def)
  with assms(5,6) have "cs = match_service (mk_services_index (fc_services cat)) c"
    by (auto simp: distinct_map dest: inj_onD)
  then have "map mp_sdwan_entity_id cs =
      sorted_list_of_set (sv_id ` set (filter (service_matches c) (distinct_by sv_id (fc_services cat))))"
    using match_service_ids [OF assms(7)] by simp
  from build_result_by_ids [OF this] show ?thesis unfolding m(3) Let_def by simp
qed

theorem service_result_by_signature_witness:
  "\<exists>r. r \<in> set sample_results \<and> canonical_entity_id r = Inr 8 \<and> me_result_status r = RS_MATCHED \<and>
    me_selected_sdwan_entity_id r = Some 6"
proof -
  obtain r where r: "r \<in> set sample_results" "me_entity_type r = ET_SERVICE" "canonical_entity_id r = Inr 8"
    by (rule sample_result [of ET_SERVICE 8]) (simp add: sample_targets)
  have "let I = sv_id ` set (filter (service_matches sample_can_service)
      (distinct_by sv_id (fc_services sample_full_catalog))) in
    me_result_status r = status_of_count (card I) \<and>
    me_selected_sdwan_entity_id r = (if card I = 1 then Some (the_elem I) else None)"
  proof (rule service_result_by_signature [OF sample_built r(1,2)])
    show "canonical_entity_id r = Inr (cs_id sample_can_service)" using r(3) by (simp add: sample_can_service_def)
    show "sample_can_service \<in> set (ce_services sample_entities)"
      "distinct (map cs_id (ce_services sample_entities))" "cs_kind sample_can_service \<noteq> SK_ANY_SERVICE"
      by (simp_all add: sample_mapping_defs)
  qed
  moreover have "filter (service_matches sample_can_service) (distinct_by sv_id (fc_services sample_full_catalog)) =
      [sample_service 6 [(1, 9)]]"
    by (simp add: sample_mapping_defs distinct_by_Cons service_matches_def service_key_def or_empty_def)
  ultimately have "me_result_status r = RS_MATCHED \<and> me_selected_sdwan_entity_id r = Some 6"
    by (simp add: status_of_count_def) (simp add: sample_service_def)
  with r show ?thesis by blast
qed

text \<open>Candidates are ranked: each catalog entry appears once with its best score, in order of
  falling score and, within a score, of rising id, and the ranks count from one.\<close>

theorem candidates_ranked:
  "ranked (finalize cs) \<and> distinct (candidate_ids (finalize cs)) \<and>
   set (candidate_ids (finalize cs)) = dr_sdwan_entity_id ` set cs \<and>
   set (finalize cs) \<subseteq> {c. mp_score c = Max (dr_score ` {d \<in> set cs. dr_sdwan_entity_id d = mp_sdwan_entity_id c})}"
proof -
  have "mp_score c = Max (dr_score ` {d \<in> set cs. dr_sdwan_entity_id d = mp_sdwan_entity_id c})"
    if c: "c \<in> set (finalize cs)" for c
    using finalize_best(1) [OF c] finalize_best(2) [OF c]
    by (intro Max_eqI [symmetric]) (auto simp: image_iff)
  then show ?thesis using finalize_ranked finalize_ids by auto
qed

text \<open>C32 Every object of the scope that is not a group has exactly one result, in order, of its own
  type; the result belongs to the scope, has an id of its own, and is well formed: a selection
  exactly when it is matched, several candidates when it is ambiguous, none when it is unresolved.\<close>

theorem built_results_typed:
  assumes "build_results ids clock sc e cat = Inr rs" "inj (\<lambda>i. ids i 0)"
  shows "map (\<lambda>r. (me_entity_type r, canonical_entity_id r)) rs = map (apsnd Inr) (scope_targets e) \<and>
    distinct (map me_id rs) \<and> set rs \<subseteq> {r. result_ok r \<and> me_mapping_scope_id r = sc}"
  using build_results_targets [OF assms(1)] build_results_ids [OF assms] build_results_all_ok [OF assms(1)] by blast

theorem built_results_typed_witness:
  "map (\<lambda>r. (me_entity_type r, canonical_entity_id r)) sample_results =
     [(ET_ZONE, Inr 1), (ET_ADDR, Inr 7), (ET_SERVICE, Inr 8)] \<and>
   distinct (map me_id sample_results) \<and> set sample_results \<subseteq> {r. result_ok r \<and> me_mapping_scope_id r = 50}"
  using built_results_typed [OF sample_built sample_ids_inj] by (simp add: sample_targets)


section \<open>Rules\<close>

text \<open>C5 The rules of a scope refine the canonical rules: one for each, in order, with its name,
  priority and translated action, and its operands stand, role by role, for exactly the zones,
  objects and group leaves that the operands of the canonical rule name.\<close>

theorem scope_rules_refine:
  assumes "results_keyed rs" "build_scope_rules ids scope_id rules e rs = Inr srs"
  shows "list_all2 (rule_built e rs scope_id) rules srs"
  using assms by (rule build_scope_rules_exact)

lemma sample_refs:
  "(OR_SRC_ADDR_OBJECT, ET_ADDR, 7) \<in> rule_refs sample_entities sample_can_rule"
proof -
  have "(ET_ADDR, 7) \<in> operand_targets sample_entities (sample_operand 13 CR_SRC_OBJECT None (Some 9))"
  proof -
    have "is_group_id addr_ops (ce_addr_objects sample_entities) 9"
      by (simp add: is_group_id_def addr_ops_def sample_mapping_defs)
    moreover have "(ET_ADDR, 7) \<in> (\<lambda>x. (ET_ADDR, go_id addr_ops x)) `
        {x. belongs addr_ops (ce_addr_objects sample_entities) 9 x \<and> \<not> go_is_group addr_ops x}"
      by (rule image_eqI [of _ _ sample_can_host])
        (use sample_group_member in \<open>simp_all add: addr_ops_def sample_can_host_def\<close>)
    ultimately show ?thesis by (simp add: operand_targets_def object_targets_def sample_operand_def)
  qed
  then show ?thesis
    by (auto simp: rule_refs_def sample_can_rule_def)
      (simp add: map_operand_role_def sample_operand_def)
qed

theorem scope_rules_refine_witness:
  "\<exists>sr. build_scope_rules sample_rule_ids 50 [sample_can_rule] sample_entities sample_results = Inr [sr] \<and>
    sl_name sr = ''r'' \<and> sl_action sr = SA_ACCEPT \<and>
    (OR_SRC_ADDR_OBJECT, ET_ADDR, 7) \<in> scope_rule_refs sample_results sr"
proof -
  from sample_rules_built obtain srs where
    srs: "build_scope_rules sample_rule_ids 50 [sample_can_rule] sample_entities sample_results = Inr srs" by blast
  from scope_rules_refine [OF sample_keyed srs] obtain sr where
    sr: "srs = [sr]" "rule_built sample_entities sample_results 50 sample_can_rule sr"
    by (auto simp: list_all2_Cons1)
  from sr(2) have "scope_rule_refs sample_results sr = rule_refs sample_entities sample_can_rule"
    "sl_name sr = cr_name sample_can_rule" "sl_action sr = map_rule_action (cr_action sample_can_rule)"
    by (simp_all add: rule_built_def)
  with srs sr(1) sample_refs show ?thesis by (simp add: sample_can_rule_def map_rule_action_def)
qed

text \<open>A mapping of a consistent snapshot always succeeds: if group links point to groups, rule
  operands name objects of the scope, and groups in operands have leaves and at most three levels,
  then the results and the rules are built, whatever the catalog holds.\<close>

theorem mapping_total:
  assumes "\<forall>a \<in> set (fc_addr_objs cat). addr_object_ok a"
    and "groups_ok addr_ops (ce_addr_objects e)" "groups_ok service_ops (ce_services e)"
    and "\<forall>rule \<in> set rules. \<forall>o1 \<in> set (cr_operands rule). operand_ok e o1"
  shows "\<exists>rs srs. build_results rids clock sc e cat = Inr rs \<and> build_scope_rules ids sc rules e rs = Inr srs"
  using build_results_total [OF assms(1)] build_rules_total [OF _ assms(2-4)] by blast

theorem mapping_total_witness:
  "\<exists>rs srs. build_results sample_result_ids int 50 sample_entities sample_full_catalog = Inr rs \<and>
    build_scope_rules sample_rule_ids 50 [sample_can_rule] sample_entities rs = Inr srs"
  by (rule mapping_total [OF sample_catalog_ok sample_groups_ok sample_operands_ok])

text \<open>The two walks over a group agree: its leaves are its members without the groups, each once
  and in order, and they fail together with the same error.\<close>

theorem group_walks_agree:
  assumes "mk_group_index ops xs = Inr ix"
  shows "resolve_group_leaves ops ix i =
    bind_r (resolve_group_members ops ix i) (\<lambda>ms. Inr (distinct_by (go_id ops) (member_leaves ops ms)))"
  using assms by (rule leaves_of_members)

theorem group_walks_agree_witness:
  "\<exists>ix. mk_group_index addr_ops (ce_addr_objects sample_entities) = Inr ix \<and>
    resolve_group_leaves addr_ops ix 9 =
      bind_r (resolve_group_members addr_ops ix 9) (\<lambda>ms. Inr (distinct_by (go_id addr_ops) (member_leaves addr_ops ms)))"
proof -
  obtain ix where ix: "mk_group_index addr_ops (ce_addr_objects sample_entities) = Inr ix"
    using sample_groups_ok(1) unfolding mk_group_index_iff [symmetric] by blast
  with group_walks_agree [OF ix] show ?thesis by blast
qed

text \<open>C23 A group is resolved exactly when no chain of three groups starts below it, so cycles are
  errors; then the result holds each non-group object that belongs to it, once.\<close>

theorem group_resolution_bound:
  assumes "mk_group_index ops xs = Inr ix" "is_group_id ops xs i"
  shows "((\<exists>ls. resolve_group_leaves ops ix i = Inr ls) \<longleftrightarrow> \<not> nested ops xs 3 i) \<and>
    (\<forall>ls. resolve_group_leaves ops ix i = Inr ls \<longrightarrow> distinct (map (go_id ops) ls) \<and>
       set ls = {x. belongs ops xs i x \<and> \<not> go_is_group ops x})"
  using group_leaves_resolved [OF assms] by blast

theorem group_resolution_bound_witness:
  "\<exists>ix ls. mk_group_index addr_ops (ce_addr_objects sample_entities) = Inr ix \<and>
    resolve_group_leaves addr_ops ix 9 = Inr ls \<and> sample_can_host \<in> set ls"
proof -
  obtain ix where ix: "mk_group_index addr_ops (ce_addr_objects sample_entities) = Inr ix"
    using sample_groups_ok(1) unfolding mk_group_index_iff [symmetric] by blast
  have g: "is_group_id addr_ops (ce_addr_objects sample_entities) 9"
    by (simp add: is_group_id_def addr_ops_def sample_mapping_defs)
  note bound = group_resolution_bound [OF ix g]
  then obtain ls where ls: "resolve_group_leaves addr_ops ix 9 = Inr ls" using sample_not_nested by blast
  with bound have "set ls = {x. belongs addr_ops (ce_addr_objects sample_entities) 9 x \<and> \<not> go_is_group addr_ops x}"
    by blast
  moreover have "\<not> go_is_group addr_ops sample_can_host" by (simp add: addr_ops_def sample_can_host_def)
  ultimately have "sample_can_host \<in> set ls" using sample_group_member by simp
  with ix ls show ?thesis by blast
qed

end
