(* ===== verification/Mapping_Run_Properties.thy ===== *)
theory Mapping_Run_Properties
  imports Mapping_Run Mapping_Properties
begin

text \<open>
  The properties of the mapping module over the cache: what every reachable state satisfies, what a
  mapping leaves for reading, and what the execute module reads after it.
\<close>

section \<open>Reachable states\<close>

text \<open>A state is reachable when the use cases lead to it from an empty cache.\<close>

definition mapping_reachable ::
  "('c, mapping_cache_entry) ttl_cache_ops \<Rightarrow> timestamp \<times> 'c ttl_store \<times> 'w \<Rightarrow> bool" where
  "mapping_reachable ops st \<longleftrightarrow> (\<exists>t s w. 0 < ts_ttl_seconds s \<and> 0 < ts_max_entries s \<and> ts_caches s = [] \<and>
     (mapping_step (keyed_port_of (store_get ops) (store_set ops) (store_keys ops)))\<^sup>*\<^sup>* (t, s, w) st)"

lemma reachable_scopes:
  assumes "ttl_cache ops I" "mapping_reachable ops (t, s, w)"
  shows "mapping_repository.scopes_ok (ttl_cache.store_ok I) (store_view ops) t s"
proof -
  note repo = mapping_repository_store [OF assms(1)]
  from assms(2) obtain t0 s0 w0 where s0: "0 < ts_ttl_seconds s0" "0 < ts_max_entries s0" "ts_caches s0 = []"
    and steps: "(mapping_step (keyed_port_of (store_get ops) (store_set ops) (store_keys ops)))\<^sup>*\<^sup>* (t0, s0, w0) (t, s, w)"
    by (auto simp: mapping_reachable_def)
  have "mapping_repository.scopes_ok (ttl_cache.store_ok I) (store_view ops) t0 s0"
    unfolding mapping_repository.scopes_ok_def [OF repo] ttl_cache.store_ok_def [OF assms(1)]
    using s0 by (simp add: store_view_def store_entry_def)
  with steps show ?thesis by (rule mapping_repository.reachable_ok [OF repo])
qed

lemma reachable_step:
  assumes "mapping_reachable ops a" "mapping_step (keyed_port_of (store_get ops) (store_set ops) (store_keys ops)) a b"
  shows "mapping_reachable ops b"
  using assms unfolding mapping_reachable_def by (meson rtranclp.rtrancl_into_rtrancl)

lemma empty_reachable:
  "0 < ts_ttl_seconds s \<Longrightarrow> 0 < ts_max_entries s \<Longrightarrow> ts_caches s = [] \<Longrightarrow> mapping_reachable ops (t, s, w)"
  unfolding mapping_reachable_def by blast


section \<open>A sample mapping\<close>

type_synonym sample_mapping_store = "mapping_cache_entry deadline_cache ttl_store"

definition sample_mapping_port :: "sample_mapping_store mapping_port" where
  "sample_mapping_port = keyed_port_of (store_get deadline_ops) (store_set deadline_ops) (store_keys deadline_ops)"

definition sample_no_scopes :: sample_mapping_store where
  "sample_no_scopes = \<lparr>ts_ttl_seconds = 1000, ts_max_entries = 10, ts_caches = []\<rparr>"

definition sample_mapping_api :: "nat mapping_api" where
  "sample_mapping_api =
     \<lparr>ma_csp = sample_api
        \<lparr>api_zones := (\<lambda>w l. Inr ([\<lparr>zr_id = 4, zr_zone_id = 4, zr_name = ''in side'', zr_typ = ''lan''\<rparr>], 1)),
         api_services_page := (\<lambda>w c. Inr \<lparr>pg_data = [\<lparr>sp_id = 6, sp_name = ''s'', sp_l4_proto = L4_TCP,
           sp_ranges = Some [(1, 9)], sp_codes = None\<rparr>], pg_total = 1, pg_next_page = None\<rparr>),
         api_addr_objects_page := (\<lambda>w q c. Inr \<lparr>pg_data = [\<lparr>ar_id = 5, ar_parents = [], ar_name = ''h'',
           ar_data = HostData ''0.0.0.1''\<rparr>], pg_total = 1, pg_next_page = None\<rparr>)\<rparr>,
      ma_create_addr_objects = (\<lambda>w ds. (Inr [int w], Suc w)),
      ma_create_service = (\<lambda>w r. (Inl (ValueError ''read only''), w))\<rparr>"

definition sample_mapping_env :: "(sample_mapping_store, nat) mapping_env" where
  "sample_mapping_env =
     \<lparr>mv_port = sample_mapping_port, mv_sha = (\<lambda>s. ''f''), mv_acquire = (\<lambda>p v. Inr sample_mapping_api),
      mv_scope_entities = (\<lambda>i rs. Inr sample_entities), mv_scope_rules = (\<lambda>i rs. Inr [sample_can_rule]),
      mv_addr_object = (\<lambda>i k. Inr None), mv_service = (\<lambda>i k. Inr None), mv_scope_id = 50,
      mv_result_ids = sample_result_ids, mv_rule_ids = sample_rule_ids, mv_clock = int\<rparr>"

definition sample_command :: map_command where
  "sample_command = \<lparr>mc_scope_title = ''scope'', mc_profile_id = 3, mc_vpc_id = ''v'', mc_target_id = ''d'',
     mc_rules_priority = RP_LOCAL, mc_snapshot_id = 3, mc_rules_ids = [2]\<rparr>"

definition sample_mapping :: "(map_result, sample_mapping_store, nat) run" where
  "sample_mapping = map_canonical_to_sdwan sample_mapping_env 1 sample_command sample_no_scopes 0"

lemma sample_env_facts:
  "mv_port sample_mapping_env = sample_mapping_port"
  "mv_port sample_mapping_env = keyed_port_of (store_get deadline_ops) (store_set deadline_ops) (store_keys deadline_ops)"
  "mv_scope_entities sample_mapping_env i ks = Inr sample_entities"
  "mv_scope_rules sample_mapping_env i ks = Inr [sample_can_rule]"
  "inj (\<lambda>i. mv_result_ids sample_mapping_env i 0)" "inj (\<lambda>i. mv_rule_ids sample_mapping_env i 0)"
  by (simp_all add: sample_mapping_env_def sample_mapping_port_def sample_ids_inj)
    (simp add: inj_def sample_rule_ids_def)

lemma sample_load: "load_catalog sample_mapping_env 0 sample_command = Some (Inr sample_full_catalog)"
  by code_simp

lemma sample_no_scopes_reachable: "mapping_reachable deadline_ops (1, sample_no_scopes, 0 :: nat)"
  by (rule empty_reachable) (simp_all add: sample_no_scopes_def)

text \<open>The mapping: its results are the sample's, and it succeeds.\<close>

lemma sample_candidates:
  "length (match_zone (mk_zones_index (fc_zones sample_full_catalog)) sample_can_zone) = 1"
  "length (match_service (mk_services_index (fc_services sample_full_catalog)) sample_can_service) = 1"
  by code_simp+

lemma sample_all_matched: "r \<in> set sample_results \<Longrightarrow> me_result_status r = RS_MATCHED"
proof -
  assume r: "r \<in> set sample_results"
  from build_results_member [OF sample_built r] obtain ai i et cid cs where
    ai: "mk_addr_index (fc_addr_objs sample_full_catalog) = Inr ai"
    and m: "(et, cid, cs) \<in> set (matched_objects sample_entities (mk_zones_index (fc_zones sample_full_catalog)) ai
      (mk_services_index (fc_services sample_full_catalog)))"
    and b: "r = build_result (sample_result_ids i) (int i) 50 et cid cs"
    by metis
  have "length (candidate_ids (match_addr ai sample_can_host)) = 1"
    unfolding match_addr_ids [OF ai sample_host_in(3)] using sample_host_result(2) by simp
  moreover have "\<not> addr_leaf sample_can_group" by (simp add: addr_leaf_def sample_can_group_def)
  ultimately have "length cs = 1"
    using m sample_candidates by (auto simp: matched_objects_def sample_entities_def split: if_splits)
  then show "me_result_status r = RS_MATCHED" unfolding b build_result_status by auto
qed

lemma sample_graph:
  obtains scope sr where "build_scope_graph sample_mapping_env 1 sample_command sample_full_catalog =
      Inr (scope, sample_results, [sr])" "sc_id scope = 50"
    "rule_built sample_entities sample_results 50 sample_can_rule sr"
proof -
  from sample_rules_built obtain srs where
    srs: "build_scope_rules sample_rule_ids 50 [sample_can_rule] sample_entities sample_results = Inr srs" by blast
  from build_scope_rules_exact [OF sample_keyed srs] obtain sr where
    sr: "srs = [sr]" "rule_built sample_entities sample_results 50 sample_can_rule sr"
    by (auto simp: list_all2_Cons1)
  with srs sample_built that show thesis
    by (simp add: build_scope_graph_def Let_def create_scope_header_def sample_mapping_env_def)
qed

lemma sample_new: "store_view deadline_ops 1 sample_no_scopes MAPPING_SCOPE_NAMESPACE i = None"
  by (simp add: store_view_def store_entry_def sample_no_scopes_def)

lemma sample_scopes: "deadline_mapping.scopes_ok 1 sample_no_scopes"
  by (rule reachable_scopes [OF deadline.ttl_cache_axioms sample_no_scopes_reachable])

lemma sample_mapping_run:
  obtains m where "sample_mapping = (Some (Inr m), store_after sample_mapping, 0)" "mr_scope_id m = 50"
proof -
  obtain scope sr where g: "build_scope_graph sample_mapping_env 1 sample_command sample_full_catalog =
      Inr (scope, sample_results, [sr])" by (rule sample_graph)
  from deadline_mapping.map_succeeds [OF sample_scopes sample_env_facts(2) sample_load g sample_new] that
  show thesis by (auto simp: sample_mapping_def sample_mapping_env_def)
qed

lemma sample_mapping_reachable: "mapping_reachable deadline_ops (1, store_after sample_mapping, 0 :: nat)"
proof -
  obtain m where m: "sample_mapping = (Some (Inr m), store_after sample_mapping, 0)" by (rule sample_mapping_run)
  have "mapping_step (keyed_port_of (store_get deadline_ops) (store_set deadline_ops) (store_keys deadline_ops))
      (1, sample_no_scopes, 0 :: nat) (1, store_after sample_mapping, 0)"
    unfolding sample_mapping_def by (rule step_map [OF sample_env_facts(2) m [unfolded sample_mapping_def]])
  with sample_no_scopes_reachable show ?thesis by (rule reachable_step)
qed

lemma sample_scope_entry:
  obtains e where "store_view deadline_ops 1 (store_after sample_mapping) MAPPING_SCOPE_NAMESPACE 50 = Some e"
    "mo_rules e \<noteq> []" "fst ` set (mo_results e) = me_id ` set sample_results"
proof -
  obtain m where m: "sample_mapping = (Some (Inr m), store_after sample_mapping, 0)" by (rule sample_mapping_run)
  obtain scope sr where g: "build_scope_graph sample_mapping_env 1 sample_command sample_full_catalog =
      Inr (scope, sample_results, [sr])" "sc_id scope = 50" by (rule sample_graph)
  from deadline_mapping.map_exact(2) [OF sample_scopes sample_env_facts(2) m [unfolded sample_mapping_def] refl]
    sample_load g
  have "store_view deadline_ops 1 (store_after sample_mapping) MAPPING_SCOPE_NAMESPACE 50 = Some
      \<lparr>mo_scope = scope, mo_rules = [(sl_id sr, sr)],
       mo_results = foldl (\<lambda>d r. AList.update (me_id r) r d) [] sample_results\<rparr>"
    by (auto simp: sample_mapping_def)
  from that [OF this] show thesis by (simp add: keys_fold_update)
qed


section \<open>The properties\<close>

text \<open>C27 Mapping and reading back is a round trip: in any reachable state, a mapping whose graph of
  scope, results and rules is built for a new scope id succeeds, and reading the scope then gives
  exactly these rules by priority and these results by type and creation time.\<close>

theorem mapping_roundtrip:
  assumes "ttl_cache ops I" "mapping_reachable ops (t, s, w)"
    and "mv_port env = keyed_port_of (store_get ops) (store_set ops) (store_keys ops)"
    and "load_catalog env w cmd = Some (Inr cat)" "build_scope_graph env t cmd cat = Inr (scope, results, rules)"
    and "store_view ops t s MAPPING_SCOPE_NAMESPACE (mv_scope_id env) = None" "rules \<noteq> []"
    and "inj (\<lambda>i. mv_result_ids env i 0)" "inj (\<lambda>i. mv_rule_ids env i 0)"
  shows "\<exists>m s'. map_canonical_to_sdwan env t cmd s w = (Some (Inr m), s', w) \<and> mr_scope_id m = mv_scope_id env \<and>
    fst (get_mapping_scope_rules (mv_port env) t s' (mr_scope_id m)) = Inr (sort_key sl_priority rules,
      sort_key (\<lambda>r. (entity_type_value (me_entity_type r), me_created_at r)) results)"
proof -
  note repo = mapping_repository_store [OF assms(1)] and ok = reachable_scopes [OF assms(1,2)]
  from mapping_repository.map_succeeds [OF repo ok assms(3-6)] obtain m s' where
    m: "map_canonical_to_sdwan env t cmd s w = (Some (Inr m), s', w)" by blast
  with mapping_repository.map_then_read [OF repo ok assms(3-5,8,9,7) m] show ?thesis
    unfolding assms(3) by auto
qed

theorem mapping_roundtrip_witness:
  "\<exists>m s' rules. map_canonical_to_sdwan sample_mapping_env 1 sample_command sample_no_scopes 0 = (Some (Inr m), s', 0) \<and>
    fst (get_mapping_scope_rules sample_mapping_port 1 s' 50) = Inr (rules,
      sort_key (\<lambda>r. (entity_type_value (me_entity_type r), me_created_at r)) sample_results)"
proof -
  obtain scope sr where g: "build_scope_graph sample_mapping_env 1 sample_command sample_full_catalog =
      Inr (scope, sample_results, [sr])" by (rule sample_graph)
  from mapping_roundtrip [OF deadline.ttl_cache_axioms sample_no_scopes_reachable sample_env_facts(2) sample_load g
      sample_new _ sample_env_facts(5,6)]
  show ?thesis by (auto simp: sample_mapping_env_def)
qed

text \<open>C12 The cache stays consistent: in every reachable state, each scope entry is filed under its own
  id, its rules and results under theirs, all belong to the scope, every result is well formed, and
  every operand of a rule belongs to that rule and names a result of the scope.\<close>

theorem mapping_invariant:
  assumes "ttl_cache ops I" "mapping_reachable ops (t, s, w)"
    and "store_view ops t s MAPPING_SCOPE_NAMESPACE i = Some e"
  shows "entry_ok i e \<and> entry_linked e"
  using mapping_repository.scopes_okD(2,3) [OF mapping_repository_store [OF assms(1)] reachable_scopes [OF assms(1,2)] assms(3)]
  by blast

theorem mapping_invariant_witness:
  "\<exists>e. store_view deadline_ops 1 (store_after sample_mapping) MAPPING_SCOPE_NAMESPACE 50 = Some e \<and>
    entry_ok 50 e \<and> entry_linked e"
proof -
  obtain e where e: "store_view deadline_ops 1 (store_after sample_mapping) MAPPING_SCOPE_NAMESPACE 50 = Some e"
    by (rule sample_scope_entry)
  with mapping_invariant [OF deadline.ttl_cache_axioms sample_mapping_reachable e] show ?thesis by blast
qed

text \<open>C30 Assigning a zone to a scope always reaches every rule: in any reachable state, for a scope with
  rules and a zone that the server has, it succeeds, and then each rule of the scope has an operand in
  the role of the direction whose result is matched with the zone, as the answered result is.\<close>

theorem zone_assigned_everywhere:
  assumes "ttl_cache ops I" "mapping_reachable ops (t, s, w)"
    and "mv_port env = keyed_port_of (store_get ops) (store_set ops) (store_keys ops)"
    and "store_view ops t s MAPPING_SCOPE_NAMESPACE i = Some e" "mo_rules e \<noteq> []"
    and "get_scope_zone env (materialize_scope e) zone_id w = Some (Inr zone)"
    and "result_ids 0 \<notin> fst ` set (mo_results e)"
  shows "\<exists>r os s' e'. assign_zone_for_scope env t result_ids operand_ids direction zone_id i s w =
      (Some (Inr (r, os)), s', w) \<and> zone_matches (zn_id zone) r \<and>
    store_view ops t s' MAPPING_SCOPE_NAMESPACE i = Some e' \<and>
    zone_assigned (map_zone_direction direction) (zn_id zone) e'"
proof -
  note repo = mapping_repository_store [OF assms(1)] and ok = reachable_scopes [OF assms(1,2)]
  from mapping_repository.assign_zone_total [where rids = result_ids, OF repo ok assms(3-7)] obtain r os s' where
    r: "assign_zone_for_scope env t result_ids operand_ids direction zone_id i s w = (Some (Inr (r, os)), s', w)"
    "zone_matches (zn_id zone) r" by blast
  with mapping_repository.assign_zone_exact [OF repo ok assms(3) r(1)] obtain e' z where
    "store_view ops t s' MAPPING_SCOPE_NAMESPACE i = Some e'" "zone_matches z r"
    "zone_assigned (map_zone_direction direction) z e'" by blast
  moreover from this(2) r(2) have "z = zn_id zone" by (simp add: zone_matches_def)
  ultimately show ?thesis using r by blast
qed

theorem zone_assigned_everywhere_witness:
  "\<exists>r os s' e'. assign_zone_for_scope sample_mapping_env 1 (\<lambda>n. 901 + n) (\<lambda>n. 950 + n) ZD_SRC_ZONE 4 50
      (store_after sample_mapping) 0 = (Some (Inr (r, os)), s', 0) \<and>
    store_view deadline_ops 1 s' MAPPING_SCOPE_NAMESPACE 50 = Some e' \<and> zone_assigned OR_SRC_ZONE 4 e'"
proof -
  obtain e where e: "store_view deadline_ops 1 (store_after sample_mapping) MAPPING_SCOPE_NAMESPACE 50 = Some e"
    "mo_rules e \<noteq> []" "fst ` set (mo_results e) = me_id ` set sample_results" by (rule sample_scope_entry)
  have z: "mg_get_zone sample_mapping_api 0 4 = Some (Inr (Some (sample_zone 4 ''in side'')))" by code_simp
  then have zone: "get_scope_zone sample_mapping_env (materialize_scope e) 4 0 = Some (Inr (sample_zone 4 ''in side''))"
    by (simp add: get_scope_zone_def sample_mapping_env_def)
  have "me_id r \<noteq> 901 + 0" if "r \<in> set sample_results" for r
  proof -
    from build_results_member [OF sample_built that] obtain ai i et cid cs where
      "r = build_result (sample_result_ids i) (int i) 50 et cid cs" by metis
    then show ?thesis by (simp add: sample_result_ids_def) presburger
  qed
  with e(3) have "901 + 0 \<notin> fst ` set (mo_results e)" by auto
  from zone_assigned_everywhere [where result_ids = "\<lambda>n. 901 + n" and operand_ids = "\<lambda>n. 950 + n"
      and direction = ZD_SRC_ZONE, OF deadline.ttl_cache_axioms sample_mapping_reachable sample_env_facts(2) e(1,2) zone this]
  show ?thesis unfolding map_zone_direction_def sample_zone_def by auto
qed

text \<open>The execute module never sees a rule that is not fully mapped: when it reads the rules of a
  scope, every result of the scope is matched, each rule appears once in priority order with its id,
  name, action and the selections of its operands role by role, and no role is empty.\<close>

theorem reader_only_matched:
  assumes "reader_scope_rules port t s i = (Inr ms, s')"
  shows "\<exists>rules results. fst (get_mapping_scope_rules port t s i) = Inr (rules, results) \<and>
    (\<forall>r \<in> set results. me_result_status r = RS_MATCHED) \<and>
    list_all2 (\<lambda>rule m. rule_read results rule m \<and> rule_complete m) (sort_key sl_priority rules) ms"
proof -
  obtain q s1 where q: "get_mapping_scope_rules port t s i = (q, s1)" by fastforce
  with assms obtain rules results where "q = Inr (rules, results)" "read_rules i rules results = Inr ms"
    by (auto simp: reader_scope_rules_def split: sum.splits)
  with read_rules_exact [OF this(2)] q show ?thesis by auto
qed

lemma sample_roles: "\<exists>x. (role, x) \<in> rule_refs sample_entities sample_can_rule"
proof (cases "role = OR_SRC_ADDR_OBJECT")
  case True
  with sample_refs show ?thesis by blast
next
  case False
  then have "\<exists>o1 \<in> set (cr_operands sample_can_rule). map_operand_role (cop_role o1) = role \<and>
      operand_targets sample_entities o1 \<noteq> {}"
    by (cases role) (auto simp: sample_can_rule_def sample_operand_def map_operand_role_def operand_targets_def
        object_targets_def is_group_id_def addr_ops_def service_ops_def sample_entities_def sample_can_host_def
        sample_can_group_def sample_can_service_def)
  then show ?thesis by (auto simp: rule_refs_def)
qed

lemma sample_read_run:
  obtains ms s where "reader_scope_rules sample_mapping_port 1 (store_after sample_mapping) 50 = (Inr ms, s)"
proof -
  obtain m where m: "sample_mapping = (Some (Inr m), store_after sample_mapping, 0)" "mr_scope_id m = 50"
    by (rule sample_mapping_run)
  have d: "distinct (scope_targets sample_entities)" by (simp add: sample_targets)
  from deadline_mapping.map_then_reader [OF sample_scopes sample_env_facts(2) sample_load sample_env_facts(3-6) d
      m(1) [unfolded sample_mapping_def]] m(2) sample_built sample_all_matched sample_roles that
  show thesis by (auto simp: sample_mapping_env_def sample_mapping_port_def sample_mapping_def)
qed

theorem reader_only_matched_witness:
  "\<exists>m rules results. fst (get_mapping_scope_rules sample_mapping_port 1 (store_after sample_mapping) 50) =
    Inr (rules, results) \<and> set results \<subseteq> {r. me_result_status r = RS_MATCHED} \<and>
    list_all2 (\<lambda>rule m. rule_read results rule m \<and> rule_complete m) (sort_key sl_priority rules) m"
proof -
  obtain ms s where m: "reader_scope_rules sample_mapping_port 1 (store_after sample_mapping) 50 = (Inr ms, s)"
    by (rule sample_read_run)
  from reader_only_matched [OF m] show ?thesis by blast
qed

text \<open>C4 From end to end: after a mapping, the execute module can read the rules exactly when there
  are any, every object was matched, and every rule names an object in each role; and what it reads
  translates the canonical rules in priority order: name, priority and action are kept, and the ids of
  a role are the automatic selections for exactly the canonical objects and group leaves that the rule
  names in it.\<close>

theorem mapping_end_to_end:
  assumes "ttl_cache ops I" "mapping_reachable ops (t, s, w)"
    and "mv_port env = keyed_port_of (store_get ops) (store_set ops) (store_keys ops)"
    and "load_catalog env w cmd = Some (Inr cat)"
    and "mv_scope_entities env (mc_snapshot_id cmd) (mc_rules_ids cmd) = Inr e"
    and "mv_scope_rules env (mc_snapshot_id cmd) (mc_rules_ids cmd) = Inr crs"
    and "inj (\<lambda>i. mv_result_ids env i 0)" "inj (\<lambda>i. mv_rule_ids env i 0)" "distinct (scope_targets e)"
    and "map_canonical_to_sdwan env t cmd s w = (Some (Inr m), s', w')"
  shows "\<exists>rs. build_results (mv_result_ids env) (mv_clock env) (mr_scope_id m) e cat = Inr rs \<and>
    ((\<exists>ms s''. reader_scope_rules (mv_port env) t s' (mr_scope_id m) = (Inr ms, s'')) \<longleftrightarrow>
       crs \<noteq> [] \<and> (\<forall>r \<in> set rs. me_result_status r = RS_MATCHED) \<and>
       (\<forall>rule \<in> set crs. \<forall>role. \<exists>x. (role, x) \<in> rule_refs e rule)) \<and>
    (\<forall>ms s''. reader_scope_rules (mv_port env) t s' (mr_scope_id m) = (Inr ms, s'') \<longrightarrow>
       list_all2 (rule_translated e rs) (sort_key cr_priority crs) ms)"
  using mapping_repository.map_then_reader [OF mapping_repository_store [OF assms(1)] reachable_scopes [OF assms(1,2)]
      assms(3-10)] unfolding assms(3) .

theorem mapping_end_to_end_witness:
  "\<exists>m s. reader_scope_rules sample_mapping_port 1 (store_after sample_mapping) 50 = (Inr [m], s) \<and>
    rule_translated sample_entities sample_results sample_can_rule m"
proof -
  obtain q where q: "sample_mapping = (Some (Inr q), store_after sample_mapping, 0)" "mr_scope_id q = 50"
    by (rule sample_mapping_run)
  obtain ms s where m: "reader_scope_rules sample_mapping_port 1 (store_after sample_mapping) 50 = (Inr ms, s)"
    by (rule sample_read_run)
  have d: "distinct (scope_targets sample_entities)" by (simp add: sample_targets)
  from mapping_end_to_end [OF deadline.ttl_cache_axioms sample_no_scopes_reachable sample_env_facts(2) sample_load
      sample_env_facts(3-6) d q(1) [unfolded sample_mapping_def]] q(2) m sample_built sample_env_facts(1)
  have "list_all2 (rule_translated sample_entities sample_results) (sort_key cr_priority [sample_can_rule]) ms"
    by (auto simp: sample_mapping_env_def sample_mapping_def)
  then obtain p where "ms = [p]" "rule_translated sample_entities sample_results sample_can_rule p"
    by (auto simp: list_all2_Cons1)
  with m show ?thesis by blast
qed

end
