(* ===== verification/Mapping_Projection.thy ===== *)
theory Mapping_Projection
  imports Mapping_Reader
begin

text \<open>
  The projection of a mapping scope for the user interface
  (\<open>src/src/app/modules/mapping/application/get_mapping_scope_rules_projection.py\<close>, with the
  data of \<open>application/dto.py\<close>): one canonical row, one mapped row and one detailed
  canonical-to-SD-WAN table per rule of the scope.

  The builder object of the code is the record \<open>projection_builder\<close>, its methods are the
  definitions over it.  \<open>details_status\<close> says what the status of a rule means;
  \<open>build_rows\<close> that the rows of the three views are those of the scope rules by priority.
\<close>

section \<open>What the projection shows\<close>

datatype mapped_rule_status = MS_MAPPED | MS_AMBIGUOUS | MS_PARTIAL | MS_UNRESOLVED

record entity_display =
  ed_canonical_id :: "uuid option"
  ed_parent_name :: "string option"
  ed_name :: string
  ed_type :: string
  ed_str_value :: "string option"

record mapped_display =
  xd_mapping_result_id :: "uuid option"
  xd_match_status :: mapping_result_status
  xd_selection_method :: "selection_method option"
  xd_sdwan_id :: "int option"
  xd_name :: "string option"
  xd_type :: "string option"
  xd_str_value :: "string option"

record canonical_rule_row =
  cw_canonical_rule_id :: uuid
  cw_name :: string
  cw_action :: can_action
  cw_priority :: int
  cw_src_zones :: "entity_display list"
  cw_dst_zones :: "entity_display list"
  cw_src_addr_objects :: "entity_display list"
  cw_dst_addr_objects :: "entity_display list"
  cw_services :: "entity_display list"

record mapped_rule_row =
  mw_mapping_scope_rule_id :: uuid
  mw_canonical_rule_id :: uuid
  mw_name :: string
  mw_action :: scope_rule_action
  mw_priority :: int
  mw_status :: mapped_rule_status
  mw_src_zones :: "mapped_display list"
  mw_dst_zones :: "mapped_display list"
  mw_src_addr_objects :: "mapped_display list"
  mw_dst_addr_objects :: "mapped_display list"
  mw_services :: "mapped_display list"

record entity_projection =
  ep_canonical :: "entity_display option"
  ep_sdwan :: "mapped_display option"

record rule_details =
  rd_mapping_scope_rule_id :: uuid
  rd_canonical_rule_id :: uuid
  rd_name :: string
  rd_action :: scope_rule_action
  rd_status :: mapped_rule_status
  rd_src_zones :: "entity_projection list"
  rd_dst_zones :: "entity_projection list"
  rd_src_addr_objects :: "entity_projection list"
  rd_dst_addr_objects :: "entity_projection list"
  rd_services :: "entity_projection list"

record rules_projection =
  pj_mapping_scope_id :: uuid
  pj_canonical_snapshot_id :: uuid
  pj_sdwan_target_id :: string
  pj_canonical_rules :: "canonical_rule_row list"
  pj_mapped_rules :: "mapped_rule_row list"
  pj_details_by_rule_id :: "(uuid \<times> rule_details) list"


section \<open>The builder\<close>

record projection_builder =
  pb_scope :: mapping_scope
  pb_canonical_rules_by_id :: "(uuid \<times> can_rule) list"
  pb_mapping_rules :: "scope_rule list"
  pb_results_by_id :: "(uuid \<times> entity_result) list"
  pb_zones :: "(uuid \<times> can_zone) list"
  pb_addrs :: "can_addr group_index"
  pb_services :: "can_service group_index"
  pb_results :: results_index
  pb_sdwan :: sdwan_catalog_index

definition mk_projection_builder ::
  "mapping_scope \<Rightarrow> can_rule list \<Rightarrow> can_scope_entities \<Rightarrow> scope_rule list \<Rightarrow> entity_result list \<Rightarrow>
   sdwan_full_catalog \<Rightarrow> exc + projection_builder" where
  "mk_projection_builder scope rules e srs rs cat =
     bind_r (mk_canonical_zone_index (ce_zones e)) (\<lambda>zi.
     bind_r (mk_group_index addr_ops (ce_addr_objects e)) (\<lambda>ai.
     bind_r (mk_service_group_index (ce_services e)) (\<lambda>si.
     bind_r (mk_results_index rs) (\<lambda>ri.
       Inr \<lparr>pb_scope = scope, pb_canonical_rules_by_id = dict_of cr_id rules, pb_mapping_rules = srs,
         pb_results_by_id = dict_of me_id rs, pb_zones = zi, pb_addrs = ai, pb_services = si,
         pb_results = ri, pb_sdwan = mk_sdwan_catalog_index cat\<rparr>))))"

definition pb_get_canonical_rule :: "projection_builder \<Rightarrow> uuid \<Rightarrow> exc + can_rule" where
  "pb_get_canonical_rule b i =
     (case map_of (pb_canonical_rules_by_id b) i of
        None \<Rightarrow> Inl (MappingNotFoundError (''Canonical rule '' @ uuid_text i @ '' not found for mapping projection''))
      | Some r \<Rightarrow> Inr r)"

text \<open>Display values of canonical objects.\<close>

definition canonical_zone_display :: "can_zone \<Rightarrow> entity_display" where
  "canonical_zone_display z =
     \<lparr>ed_canonical_id = Some (cz_id z), ed_parent_name = None, ed_name = cz_name z, ed_type = ''zone'',
      ed_str_value = Some (cz_zone_key z)\<rparr>"

definition get_parent_name ::
  "'a group_ops \<Rightarrow> ('a \<Rightarrow> string) \<Rightarrow> 'a group_index \<Rightarrow> uuid option \<Rightarrow> exc + string option" where
  "get_parent_name ops nm ix p =
     (case p of None \<Rightarrow> Inr None | Some i \<Rightarrow> bind_r (gi_get ops ix i) (\<lambda>x. Inr (Some (nm x))))"

definition canonical_addr_str_value :: "can_addr \<Rightarrow> string option" where
  "canonical_addr_str_value a =
     (case ca_kind a of
        CK_ADDR_GROUP \<Rightarrow> None
      | CK_HOST \<Rightarrow> ca_cidr a
      | CK_SUBNET \<Rightarrow> ca_cidr a
      | CK_ANY_ADDR \<Rightarrow> ca_cidr a
      | CK_RANGE \<Rightarrow> Some (opt_text (\<lambda>x. x) (ca_range_start a) @ ''-'' @ opt_text (\<lambda>x. x) (ca_range_end a))
      | CK_FQDN \<Rightarrow> ca_fqdn a
      | CK_UNRESOLVED_ADDR \<Rightarrow> Some (ca_name a))"

definition canonical_l4_port_str_value :: "can_service \<Rightarrow> string option" where
  "canonical_l4_port_str_value s =
     (case cs_port_from s of
        None \<Rightarrow> cs_protocol s
      | Some a \<Rightarrow>
          (let p = opt_text (\<lambda>x. x) (cs_protocol s) in
           if cs_port_to s = None \<or> cs_port_to s = Some a then Some (p @ ''/'' @ int_str a)
           else Some (p @ ''/'' @ int_str a @ ''-'' @ opt_text int_str (cs_port_to s))))"

definition protocol_or :: "can_service \<Rightarrow> string \<Rightarrow> string" where
  "protocol_or s dflt = (case given (cs_protocol s) of None \<Rightarrow> dflt | Some p \<Rightarrow> p)"

definition canonical_icmp_str_value :: "can_service \<Rightarrow> string" where
  "canonical_icmp_str_value s =
     join ''/'' ([protocol_or s (service_kind_value (cs_kind s))] @
       (case cs_icmp_type s of None \<Rightarrow> [] | Some t \<Rightarrow> [''type='' @ int_str t]) @
       (case cs_icmp_code s of None \<Rightarrow> [] | Some c \<Rightarrow> [''code='' @ int_str c]))"

definition canonical_service_str_value :: "can_service \<Rightarrow> string option" where
  "canonical_service_str_value s =
     (case cs_kind s of
        SK_SERVICE_GROUP \<Rightarrow> None
      | SK_ANY_SERVICE \<Rightarrow> Some (cs_name s)
      | SK_TCP \<Rightarrow> canonical_l4_port_str_value s
      | SK_UDP \<Rightarrow> canonical_l4_port_str_value s
      | SK_ICMP \<Rightarrow> Some (canonical_icmp_str_value s)
      | SK_IP_PROTO \<Rightarrow> Some (protocol_or s (cs_name s))
      | SK_UNRESOLVED_SERVICE \<Rightarrow> Some (protocol_or s (cs_name s)))"

definition canonical_addr_display :: "projection_builder \<Rightarrow> can_addr \<Rightarrow> uuid option \<Rightarrow> exc + entity_display" where
  "canonical_addr_display b a parent =
     bind_r (get_parent_name addr_ops ca_name (pb_addrs b) parent) (\<lambda>pn.
       Inr \<lparr>ed_canonical_id = Some (ca_id a), ed_parent_name = pn, ed_name = ca_name a,
         ed_type = addr_kind_value (ca_kind a), ed_str_value = canonical_addr_str_value a\<rparr>)"

definition canonical_service_display :: "projection_builder \<Rightarrow> can_service \<Rightarrow> uuid option \<Rightarrow> exc + entity_display" where
  "canonical_service_display b s parent =
     bind_r (get_parent_name service_ops cs_name (pb_services b) parent) (\<lambda>pn.
       Inr \<lparr>ed_canonical_id = Some (cs_id s), ed_parent_name = pn, ed_name = cs_name s,
         ed_type = service_kind_value (cs_kind s), ed_str_value = canonical_service_str_value s\<rparr>)"

text \<open>The SD-WAN side of a row.\<close>

definition sdwan_result_display :: "projection_builder \<Rightarrow> entity_result option \<Rightarrow> exc + mapped_display" where
  "sdwan_result_display b mr =
     (case mr of
        None \<Rightarrow> Inr \<lparr>xd_mapping_result_id = None, xd_match_status = RS_UNRESOLVED, xd_selection_method = None,
          xd_sdwan_id = None, xd_name = None, xd_type = None, xd_str_value = None\<rparr>
      | Some r \<Rightarrow>
          (if me_result_status r \<noteq> RS_MATCHED then
             Inr \<lparr>xd_mapping_result_id = Some (me_id r), xd_match_status = me_result_status r,
               xd_selection_method = me_selection_method r, xd_sdwan_id = None, xd_name = None,
               xd_type = None, xd_str_value = None\<rparr>
           else case me_selected_sdwan_entity_id r of
             None \<Rightarrow> Inl (MappingDomainValidationError
               (''Matched mapping result must have selected SD-WAN entity id: '' @ uuid_text (me_id r)))
           | Some i \<Rightarrow>
               bind_r (get_display_entity (pb_sdwan b) (me_entity_type r) i) (\<lambda>d.
                 Inr \<lparr>xd_mapping_result_id = Some (me_id r), xd_match_status = me_result_status r,
                   xd_selection_method = me_selection_method r, xd_sdwan_id = Some (se_sdwan_id d),
                   xd_name = Some (se_name d), xd_type = Some (se_type d), xd_str_value = Some (se_str_value d)\<rparr>)))"

definition paired_row :: "entity_display \<Rightarrow> exc + mapped_display \<Rightarrow> exc + entity_projection" where
  "paired_row c m = bind_r m (\<lambda>d. Inr \<lparr>ep_canonical = Some c, ep_sdwan = Some d\<rparr>)"

text \<open>The rows of an operand.\<close>

definition build_zone_operand_projection :: "projection_builder \<Rightarrow> can_operand \<Rightarrow> exc + entity_projection list" where
  "build_zone_operand_projection b o1 =
     (case cop_target_zone_id o1 of
        None \<Rightarrow> Inl (MappingDomainValidationError (''Zone operand '' @ uuid_text (cop_id o1) @ '' has no target_zone_id''))
      | Some i \<Rightarrow>
          bind_r (canonical_zone_get (pb_zones b) i) (\<lambda>z.
          bind_r (paired_row (canonical_zone_display z)
            (sdwan_result_display b (results_get (pb_results b) ET_ZONE (cz_id z)))) (\<lambda>r. Inr [r])))"

definition build_addr_object_projection ::
  "projection_builder \<Rightarrow> can_addr \<Rightarrow> uuid option \<Rightarrow> exc + entity_projection" where
  "build_addr_object_projection b a parent =
     bind_r (canonical_addr_display b a parent) (\<lambda>c.
       if ca_kind a = CK_ADDR_GROUP then Inr \<lparr>ep_canonical = Some c, ep_sdwan = None\<rparr>
       else paired_row c (sdwan_result_display b (results_get (pb_results b) ET_ADDR (ca_id a))))"

definition build_service_projection ::
  "projection_builder \<Rightarrow> can_service \<Rightarrow> uuid option \<Rightarrow> exc + entity_projection" where
  "build_service_projection b s parent =
     bind_r (canonical_service_display b s parent) (\<lambda>c.
       if cs_kind s = SK_SERVICE_GROUP then Inr \<lparr>ep_canonical = Some c, ep_sdwan = None\<rparr>
       else paired_row c (sdwan_result_display b (results_get (pb_results b) ET_SERVICE (cs_id s))))"

definition build_addr_operand_projection :: "projection_builder \<Rightarrow> can_operand \<Rightarrow> exc + entity_projection list" where
  "build_addr_operand_projection b o1 =
     (case cop_target_object_id o1 of
        None \<Rightarrow> Inl (MappingDomainValidationError
          (''Address object operand '' @ uuid_text (cop_id o1) @ '' has no target_object_id''))
      | Some i \<Rightarrow>
          bind_r (gi_get addr_ops (pb_addrs b) i) (\<lambda>a.
            if ca_kind a \<noteq> CK_ADDR_GROUP then
              bind_r (build_addr_object_projection b a None) (\<lambda>r. Inr [r])
            else bind_r (resolve_group_members addr_ops (pb_addrs b) (ca_id a)) (\<lambda>ms.
              traverse (\<lambda>m. build_addr_object_projection b (gm_obj m) (gm_parent_id m)) ms)))"

definition build_service_operand_projection :: "projection_builder \<Rightarrow> can_operand \<Rightarrow> exc + entity_projection list" where
  "build_service_operand_projection b o1 =
     (case cop_target_object_id o1 of
        None \<Rightarrow> Inl (MappingDomainValidationError
          (''Service operand '' @ uuid_text (cop_id o1) @ '' has no target_object_id''))
      | Some i \<Rightarrow>
          bind_r (service_group_get (pb_services b) i) (\<lambda>s.
            if cs_kind s \<noteq> SK_SERVICE_GROUP then
              bind_r (build_service_projection b s None) (\<lambda>r. Inr [r])
            else bind_r (service_group_members (pb_services b) (cs_id s)) (\<lambda>ms.
              traverse (\<lambda>m. build_service_projection b (gm_obj m) (gm_parent_id m)) ms)))"

definition build_canonical_operand_projection :: "projection_builder \<Rightarrow> can_operand \<Rightarrow> exc + entity_projection list" where
  "build_canonical_operand_projection b o1 =
     (case cop_role o1 of
        CR_SRC_ZONE \<Rightarrow> build_zone_operand_projection b o1
      | CR_DST_ZONE \<Rightarrow> build_zone_operand_projection b o1
      | CR_SRC_OBJECT \<Rightarrow> build_addr_operand_projection b o1
      | CR_DST_OBJECT \<Rightarrow> build_addr_operand_projection b o1
      | CR_SERVICE \<Rightarrow> build_service_operand_projection b o1)"

definition is_manual_only :: "entity_result \<Rightarrow> bool" where
  "is_manual_only r \<longleftrightarrow> me_canonical_zone_id r = None \<and> me_canonical_object_id r = None"

definition manual_results :: "projection_builder \<Rightarrow> scope_rule \<Rightarrow> operand_role \<Rightarrow> entity_result list" where
  "manual_results b sr role =
     filter is_manual_only
       (List.map_filter (\<lambda>o1. if so_role o1 \<noteq> role then None else map_of (pb_results_by_id b) (so_result_id o1))
         (or_empty (sl_operands sr)))"

definition build_manual_operand_projection ::
  "projection_builder \<Rightarrow> scope_rule \<Rightarrow> operand_role \<Rightarrow> exc + entity_projection list" where
  "build_manual_operand_projection b sr role =
     traverse (\<lambda>r. bind_r (sdwan_result_display b (Some r)) (\<lambda>d. Inr \<lparr>ep_canonical = None, ep_sdwan = Some d\<rparr>))
       (manual_results b sr role)"

definition build_role_projection ::
  "projection_builder \<Rightarrow> can_rule \<Rightarrow> scope_rule \<Rightarrow> can_operand_role \<Rightarrow> operand_role \<Rightarrow> exc + entity_projection list" where
  "build_role_projection b rule sr canonical_role mapped_role =
     bind_r (traverse (build_canonical_operand_projection b)
       (filter (\<lambda>o1. cop_role o1 = canonical_role) (cr_operands rule))) (\<lambda>rows.
     bind_r (build_manual_operand_projection b sr mapped_role) (\<lambda>manual. Inr (concat rows @ manual)))"

text \<open>The status of a rule.\<close>

definition extract_mapping_statuses :: "entity_projection list \<Rightarrow> mapping_result_status list" where
  "extract_mapping_statuses rows =
     map (\<lambda>d. if xd_match_status d = RS_MATCHED \<and> xd_sdwan_id d = None then RS_UNRESOLVED else xd_match_status d)
       (List.map_filter ep_sdwan rows)"

definition aggregate_mapping_statuses :: "mapping_result_status list \<Rightarrow> mapped_rule_status" where
  "aggregate_mapping_statuses sts =
     (if sts = [] then MS_UNRESOLVED
      else
        (let matched = count_list sts RS_MATCHED; unresolved = count_list sts RS_UNRESOLVED;
             ambiguous = count_list sts RS_AMBIGUOUS in
         if matched = length sts then MS_MAPPED
         else if unresolved > 0 then (if matched > 0 \<or> ambiguous > 0 then MS_PARTIAL else MS_UNRESOLVED)
         else if ambiguous > 0 then MS_AMBIGUOUS else MS_PARTIAL))"

definition aggregate_rule_status_by_roles :: "entity_projection list list \<Rightarrow> mapped_rule_status" where
  "aggregate_rule_status_by_roles roles =
     (let sts = extract_mapping_statuses (concat roles) in
      aggregate_mapping_statuses
        (if \<not> list_all (\<lambda>rows. list_ex (\<lambda>r. ep_sdwan r \<noteq> None) rows) roles then sts @ [RS_UNRESOLVED] else sts))"

definition build_rule_details :: "projection_builder \<Rightarrow> scope_rule \<Rightarrow> can_rule \<Rightarrow> exc + rule_details" where
  "build_rule_details b sr rule =
     bind_r (build_role_projection b rule sr CR_SRC_ZONE OR_SRC_ZONE) (\<lambda>sz.
     bind_r (build_role_projection b rule sr CR_DST_ZONE OR_DST_ZONE) (\<lambda>dz.
     bind_r (build_role_projection b rule sr CR_SRC_OBJECT OR_SRC_ADDR_OBJECT) (\<lambda>sa.
     bind_r (build_role_projection b rule sr CR_DST_OBJECT OR_DST_ADDR_OBJECT) (\<lambda>da.
     bind_r (build_role_projection b rule sr CR_SERVICE OR_SERVICE) (\<lambda>sv.
       Inr \<lparr>rd_mapping_scope_rule_id = sl_id sr, rd_canonical_rule_id = cr_id rule, rd_name = sl_name sr,
         rd_action = sl_action sr, rd_status = aggregate_rule_status_by_roles [sz, dz, sa, da, sv],
         rd_src_zones = sz, rd_dst_zones = dz, rd_src_addr_objects = sa, rd_dst_addr_objects = da,
         rd_services = sv\<rparr>)))))"

text \<open>The two compact rows.\<close>

definition canonical_operand_summary_entities :: "projection_builder \<Rightarrow> can_operand \<Rightarrow> exc + entity_display list" where
  "canonical_operand_summary_entities b o1 =
     (if cop_role o1 = CR_SRC_ZONE \<or> cop_role o1 = CR_DST_ZONE then
        (case cop_target_zone_id o1 of
           None \<Rightarrow> Inr []
         | Some i \<Rightarrow> bind_r (canonical_zone_get (pb_zones b) i) (\<lambda>z. Inr [canonical_zone_display z]))
      else if cop_role o1 = CR_SRC_OBJECT \<or> cop_role o1 = CR_DST_OBJECT then
        (case cop_target_object_id o1 of
           None \<Rightarrow> Inr []
         | Some i \<Rightarrow>
             bind_r (gi_get addr_ops (pb_addrs b) i) (\<lambda>a.
             bind_r (canonical_addr_display b a None) (\<lambda>d. Inr [d])))
      else
        (case cop_target_object_id o1 of
           None \<Rightarrow> Inr []
         | Some i \<Rightarrow>
             bind_r (service_group_get (pb_services b) i) (\<lambda>s.
             bind_r (canonical_service_display b s None) (\<lambda>d. Inr [d]))))"

definition role_entities :: "can_operand_role \<Rightarrow> (can_operand_role \<times> entity_display list) list \<Rightarrow> entity_display list" where
  "role_entities role xs = concat (map snd (filter (\<lambda>x. fst x = role) xs))"

definition build_canonical_rule_row :: "projection_builder \<Rightarrow> can_rule \<Rightarrow> exc + canonical_rule_row" where
  "build_canonical_rule_row b rule =
     bind_r (traverse (\<lambda>o1. bind_r (canonical_operand_summary_entities b o1) (\<lambda>es. Inr (cop_role o1, es)))
       (cr_operands rule)) (\<lambda>xs.
       Inr \<lparr>cw_canonical_rule_id = cr_id rule, cw_name = cr_name rule, cw_action = cr_action rule,
         cw_priority = cr_priority rule, cw_src_zones = role_entities CR_SRC_ZONE xs,
         cw_dst_zones = role_entities CR_DST_ZONE xs, cw_src_addr_objects = role_entities CR_SRC_OBJECT xs,
         cw_dst_addr_objects = role_entities CR_DST_OBJECT xs, cw_services = role_entities CR_SERVICE xs\<rparr>)"

definition extract_sdwan_entities :: "entity_projection list \<Rightarrow> mapped_display list" where
  "extract_sdwan_entities rows = List.map_filter ep_sdwan rows"

definition build_mapped_rule_row :: "scope_rule \<Rightarrow> rule_details \<Rightarrow> mapped_rule_row" where
  "build_mapped_rule_row sr d =
     \<lparr>mw_mapping_scope_rule_id = sl_id sr, mw_canonical_rule_id = sl_canonical_rule_id sr, mw_name = sl_name sr,
      mw_action = sl_action sr, mw_priority = sl_priority sr, mw_status = rd_status d,
      mw_src_zones = extract_sdwan_entities (rd_src_zones d),
      mw_dst_zones = extract_sdwan_entities (rd_dst_zones d),
      mw_src_addr_objects = extract_sdwan_entities (rd_src_addr_objects d),
      mw_dst_addr_objects = extract_sdwan_entities (rd_dst_addr_objects d),
      mw_services = extract_sdwan_entities (rd_services d)\<rparr>"

definition build_rule_views ::
  "projection_builder \<Rightarrow> scope_rule \<Rightarrow> exc + canonical_rule_row \<times> mapped_rule_row \<times> rule_details" where
  "build_rule_views b sr =
     bind_r (pb_get_canonical_rule b (sl_canonical_rule_id sr)) (\<lambda>rule.
     bind_r (build_rule_details b sr rule) (\<lambda>d.
     bind_r (build_canonical_rule_row b rule) (\<lambda>c. Inr (c, build_mapped_rule_row sr d, d))))"

definition build_projection :: "projection_builder \<Rightarrow> exc + rules_projection" where
  "build_projection b =
     bind_r (traverse (build_rule_views b) (sort_key sl_priority (pb_mapping_rules b))) (\<lambda>vs.
       Inr \<lparr>pj_mapping_scope_id = sc_id (pb_scope b),
         pj_canonical_snapshot_id = sc_canonical_snapshot_id (pb_scope b),
         pj_sdwan_target_id = sc_sdwan_target_id (pb_scope b),
         pj_canonical_rules = map fst vs, pj_mapped_rules = map (fst \<circ> snd) vs,
         pj_details_by_rule_id = foldl (\<lambda>d v. AList.update (rd_mapping_scope_rule_id (snd (snd v))) (snd (snd v)) d) [] vs\<rparr>)"

definition project_rules ::
  "mapping_scope \<Rightarrow> can_rule list \<Rightarrow> can_scope_entities \<Rightarrow> scope_rule list \<Rightarrow> entity_result list \<Rightarrow>
   sdwan_full_catalog \<Rightarrow> exc + rules_projection" where
  "project_rules scope rules e srs rs cat =
     bind_r (mk_projection_builder scope rules e srs rs cat) build_projection"


section \<open>The use case\<close>

definition get_rules_projection ::
  "('s, 'w) mapping_env \<Rightarrow> timestamp \<Rightarrow> uuid \<Rightarrow> 's \<Rightarrow> 'w \<Rightarrow> (rules_projection, 's, 'w) run" where
  "get_rules_projection env now i s w =
     (case get_scope_by_id (mv_port env) now s i of
        (None, s1) \<Rightarrow> (Some (Inl (scope_not_found i)), s1, w)
      | (Some sc, s1) \<Rightarrow>
          (case list_results (mv_port env) now s1 (sc_id sc) None None of
             (results, s2) \<Rightarrow>
               (case sc_rules sc of
                  None \<Rightarrow> (Some (Inl (MappingNotFoundError
                    (''Rules not provided for mapping scope '' @ uuid_text i))), s2, w)
                | Some srs \<Rightarrow>
                    (let rule_ids = map sl_canonical_rule_id srs; snap = sc_canonical_snapshot_id sc in
                     (bind_o (Some (mv_scope_rules env snap rule_ids)) (\<lambda>rules.
                      bind_o (Some (mv_scope_entities env snap rule_ids)) (\<lambda>e.
                      bind_o (Some (mv_acquire env (sc_csp_profile_id sc) (sc_vpc_id sc))) (\<lambda>api.
                      bind_o (gw_get_full_catalog (ma_csp api) w) (\<lambda>cat.
                        Some (project_rules sc rules e srs results cat))))), s2, w)))))"

end
