(* ===== verification/Projection_Facts.thy ===== *)
theory Projection_Facts
  imports Mapping_Projection Mapping_Run
begin

text \<open>
  What the projection of a mapping scope shows.

  \<open>details_status\<close>: the meaning of the four statuses of a rule.  \<open>role_displays\<close>: the
  SD-WAN side of a role is the display of the result of every object that the canonical rule names
  there, groups replaced by their leaves, and of the objects assigned by hand.
  \<open>projection_reader\<close>: the projection and the reader of the execute module agree.
\<close>

section \<open>The status of a rule\<close>

definition details_roles :: "rule_details \<Rightarrow> entity_projection list list" where
  "details_roles d = [rd_src_zones d, rd_dst_zones d, rd_src_addr_objects d, rd_dst_addr_objects d, rd_services d]"

definition effective_status :: "mapped_display \<Rightarrow> mapping_result_status" where
  "effective_status d =
     (if xd_match_status d = RS_MATCHED \<and> xd_sdwan_id d = None then RS_UNRESOLVED else xd_match_status d)"

definition details_displays :: "rule_details \<Rightarrow> mapped_display set" where
  "details_displays d = (\<Union>rows \<in> set (details_roles d). set (extract_sdwan_entities rows))"

definition roles_filled :: "rule_details \<Rightarrow> bool" where
  "roles_filled d \<longleftrightarrow> (\<forall>rows \<in> set (details_roles d). extract_sdwan_entities rows \<noteq> [])"

lemma set_map_filter: "set (List.map_filter f xs) = {y. \<exists>x \<in> set xs. f x = Some y}"
  by (induction xs) (auto simp: map_filter_simps split: option.splits)

lemma map_filter_Nil_iff: "List.map_filter f xs = [] \<longleftrightarrow> (\<forall>x \<in> set xs. f x = None)"
  by (induction xs) (auto simp: map_filter_simps split: option.splits)

lemma map_filter_append: "List.map_filter f (xs @ ys) = List.map_filter f xs @ List.map_filter f ys"
  by (simp add: map_filter_def)

lemma extract_statuses_set:
  "set (extract_mapping_statuses (concat roles)) =
     effective_status ` (\<Union>rows \<in> set roles. set (extract_sdwan_entities rows))"
proof -
  have "extract_mapping_statuses (concat roles) = map effective_status (List.map_filter ep_sdwan (concat roles))"
    by (simp add: extract_mapping_statuses_def effective_status_def)
  moreover have "set (List.map_filter ep_sdwan (concat roles)) = (\<Union>rows \<in> set roles. set (extract_sdwan_entities rows))"
    by (induction roles) (simp_all add: extract_sdwan_entities_def map_filter_append map_filter_simps)
  ultimately show ?thesis by simp
qed

lemma count_list_length: "count_list xs x = length xs \<longleftrightarrow> (\<forall>y \<in> set xs. y = x)"
proof (induction xs)
  case (Cons y ys)
  have "count_list ys x \<le> length ys" by (rule count_le_length)
  with Cons show ?case by auto
qed simp

lemma count_list_pos: "0 < count_list xs x \<longleftrightarrow> x \<in> set xs"
  by (induction xs) auto

lemma aggregate_statuses:
  "aggregate_mapping_statuses sts =
     (if sts \<noteq> [] \<and> set sts \<subseteq> {RS_MATCHED} then MS_MAPPED
      else if RS_UNRESOLVED \<in> set sts then
        (if set sts \<subseteq> {RS_UNRESOLVED} then MS_UNRESOLVED else MS_PARTIAL)
      else if sts = [] then MS_UNRESOLVED else MS_AMBIGUOUS)"
proof -
  have others: "\<not> S \<subseteq> {x} \<longleftrightarrow> (\<exists>y. y \<noteq> x \<and> y \<in> S)" for S and x :: mapping_result_status
    by blast
  have "\<not> set sts \<subseteq> {RS_UNRESOLVED} \<longleftrightarrow> RS_MATCHED \<in> set sts \<or> RS_AMBIGUOUS \<in> set sts"
    unfolding others by (metis mapping_result_status.distinct mapping_result_status.exhaust)
  then have other: "set sts \<subseteq> {RS_UNRESOLVED} \<longleftrightarrow> RS_MATCHED \<notin> set sts \<and> RS_AMBIGUOUS \<notin> set sts"
    by blast
  have amb: "RS_AMBIGUOUS \<in> set sts" if "RS_UNRESOLVED \<notin> set sts" "\<not> set sts \<subseteq> {RS_MATCHED}"
    using that unfolding others by (metis mapping_result_status.exhaust)
  have counts: "count_list sts RS_MATCHED = length sts \<longleftrightarrow> set sts \<subseteq> {RS_MATCHED}"
    unfolding count_list_length by blast
  show ?thesis
    unfolding aggregate_mapping_statuses_def Let_def counts count_list_pos other using amb by auto
qed

definition role_statuses :: "rule_details \<Rightarrow> mapping_result_status set" where
  "role_statuses d = effective_status ` details_displays d \<union> (if roles_filled d then {} else {RS_UNRESOLVED})"

lemma details_status:
  assumes "build_rule_details b sr rule = Inr d"
  shows "rd_status d =
    (if role_statuses d \<subseteq> {RS_MATCHED} then MS_MAPPED
     else if RS_UNRESOLVED \<in> role_statuses d then
       (if role_statuses d \<subseteq> {RS_UNRESOLVED} then MS_UNRESOLVED else MS_PARTIAL)
     else MS_AMBIGUOUS)"
proof -
  from assms have st: "rd_status d = aggregate_rule_status_by_roles (details_roles d)"
    by (auto simp: build_rule_details_def bind_r_eq_Inr details_roles_def)
  let ?sts = "extract_mapping_statuses (concat (details_roles d))"
  let ?all = "if roles_filled d then ?sts else ?sts @ [RS_UNRESOLVED]"
  have rows: "list_ex (\<lambda>r. ep_sdwan r \<noteq> None) rows \<longleftrightarrow> extract_sdwan_entities rows \<noteq> []" for rows
    unfolding extract_sdwan_entities_def map_filter_Nil_iff by (auto simp: list_ex_iff)
  have agg: "rd_status d = aggregate_mapping_statuses ?all"
    unfolding st aggregate_rule_status_by_roles_def Let_def list_all_iff rows roles_filled_def by simp
  have set: "set ?all = role_statuses d"
    unfolding role_statuses_def details_displays_def by (simp add: extract_statuses_set)
  have "?all \<noteq> []"
  proof (cases "roles_filled d")
    case True
    then obtain x where "x \<in> set (extract_sdwan_entities (rd_src_zones d))"
      by (cases "extract_sdwan_entities (rd_src_zones d)") (auto simp: roles_filled_def details_roles_def)
    then have "role_statuses d \<noteq> {}" by (auto simp: role_statuses_def details_displays_def details_roles_def)
    with set show ?thesis by (metis empty_set)
  qed simp
  then show ?thesis unfolding agg aggregate_statuses set [symmetric] by auto
qed


section \<open>The SD-WAN side of a role\<close>

definition ref_display :: "projection_builder \<Rightarrow> mapping_entity_type \<times> uuid \<Rightarrow> exc + mapped_display" where
  "ref_display b x = sdwan_result_display b (results_get (pb_results b) (fst x) (snd x))"

lemma extract_append: "extract_sdwan_entities (xs @ ys) = extract_sdwan_entities xs @ extract_sdwan_entities ys"
  by (simp add: extract_sdwan_entities_def map_filter_append)

lemma extract_concat: "set (extract_sdwan_entities (concat xss)) = (\<Union>xs \<in> set xss. set (extract_sdwan_entities xs))"
  by (induction xss) (simp_all add: extract_append, simp add: extract_sdwan_entities_def map_filter_simps)

text \<open>Rows that show a list of objects show the display of every object that is no group.\<close>

definition object_row :: "'a group_ops \<Rightarrow> ('a \<Rightarrow> exc + mapped_display) \<Rightarrow> 'a \<Rightarrow> entity_projection \<Rightarrow> bool" where
  "object_row ops disp x r \<longleftrightarrow>
     (if go_is_group ops x then ep_sdwan r = None else \<exists>d. ep_sdwan r = Some d \<and> disp x = Inr d)"

lemma object_rows_displays:
  assumes "list_all2 (object_row ops disp) xs rows"
  shows "Inr ` set (extract_sdwan_entities rows) = disp ` {x \<in> set xs. \<not> go_is_group ops x}"
  using assms
proof (induction rule: list_all2_induct)
  case (Cons x xs r rows)
  show ?case
  proof (cases "go_is_group ops x")
    case True
    then have "{y \<in> set (x # xs). \<not> go_is_group ops y} = {y \<in> set xs. \<not> go_is_group ops y}" by auto
    with Cons True show ?thesis by (simp add: object_row_def extract_sdwan_entities_def map_filter_simps)
  next
    case False
    then have "{y \<in> set (x # xs). \<not> go_is_group ops y} = insert x {y \<in> set xs. \<not> go_is_group ops y}" by auto
    moreover obtain d where "ep_sdwan r = Some d" "disp x = Inr d" using Cons.hyps(1) False by (auto simp: object_row_def)
    ultimately show ?thesis using Cons.IH by (simp add: extract_sdwan_entities_def map_filter_simps)
  qed
qed (simp add: extract_sdwan_entities_def map_filter_simps)

lemma group_members_objects:
  assumes "mk_group_index ops xs = Inr ix" "is_group_id ops xs i" "resolve_group_members ops ix i = Inr ms"
  shows "{x \<in> gm_obj ` set ms. \<not> go_is_group ops x} = {x. belongs ops xs i x \<and> \<not> go_is_group ops x}"
proof -
  note ok = mk_group_index_ok [OF assms(1)]
  from assms(3) obtain grp where g: "gi_get ops ix i = Inr grp" "go_is_group ops grp"
    "collect_group_members ops ix i None 1 0 [i] [] = Inr ms"
    by (auto simp: resolve_group_members_def bind_r_eq_Inr split: if_splits)
  have "gm_obj ` set ms = insert grp {x. member_of ops ix i x}"
    using collect_members_gained [OF ok g(1,3)] by simp
  with g(2) show ?thesis by (auto simp: member_of_belongs [OF ok])
qed

lemma object_operand_displays:
  assumes ix: "mk_group_index ops xs = Inr ix" and o1: "cop_target_object_id o1 = Some i"
    and get: "gi_get ops ix i = Inr x" and f: "\<And>x p r. f x p = Inr r \<Longrightarrow> object_row ops (\<lambda>x. disp (et, go_id ops x)) x r"
    and rows: "(if \<not> go_is_group ops x then bind_r (f x None) (\<lambda>r. Inr [r])
      else bind_r (resolve_group_members ops ix (go_id ops x))
        (\<lambda>ms. traverse (\<lambda>m. f (gm_obj m) (gm_parent_id m)) ms)) = Inr rows"
  shows "Inr ` set (extract_sdwan_entities rows) = disp ` object_targets ops xs et o1"
proof -
  note ok = mk_group_index_ok [OF ix]
  from get have x: "x \<in> set xs" "go_id ops x = i" by (simp_all add: index_get [OF ok])
  have grp: "is_group_id ops xs i \<longleftrightarrow> go_is_group ops x"
    using index_is_group [OF ok, of i "go_is_group ops x"] get by (simp add: gi_is_group_def)
  show ?thesis
  proof (cases "go_is_group ops x")
    case False
    with rows obtain r where r: "f x None = Inr r" "rows = [r]" by (auto simp: bind_r_eq_Inr)
    from object_rows_displays [of ops "\<lambda>x. disp (et, go_id ops x)" "[x]" rows] f [OF r(1)] r(2)
    have "Inr ` set (extract_sdwan_entities rows) = {disp (et, i)}" using False x(2) by auto
    with grp False o1 show ?thesis by (simp add: object_targets_def)
  next
    case True
    with rows x(2) obtain ms where ms: "resolve_group_members ops ix i = Inr ms"
      "traverse (\<lambda>m. f (gm_obj m) (gm_parent_id m)) ms = Inr rows"
      by (auto simp: bind_r_eq_Inr)
    have "list_all2 (object_row ops (\<lambda>x. disp (et, go_id ops x))) (map gm_obj ms) rows"
      unfolding list_all2_map1 using ms(2) unfolding traverse_Inr_iff
      by (rule list_all2_mono) (rule f)
    from object_rows_displays [OF this]
    have "Inr ` set (extract_sdwan_entities rows) =
        (\<lambda>x. disp (et, go_id ops x)) ` {x. belongs ops xs i x \<and> \<not> go_is_group ops x}"
      using group_members_objects [OF ix _ ms(1)] grp True by simp
    with grp True o1 show ?thesis by (simp add: object_targets_def image_image)
  qed
qed

lemma paired_row_Inr: "paired_row c m = Inr r \<longleftrightarrow> (\<exists>d. m = Inr d \<and> r = \<lparr>ep_canonical = Some c, ep_sdwan = Some d\<rparr>)"
  by (auto simp: paired_row_def bind_r_eq_Inr)

lemma ops_fields:
  "go_id addr_ops = ca_id" "go_is_group addr_ops a \<longleftrightarrow> ca_kind a = CK_ADDR_GROUP"
  "go_id service_ops = cs_id" "go_is_group service_ops s \<longleftrightarrow> cs_kind s = SK_SERVICE_GROUP"
  by (simp_all add: addr_ops_def service_ops_def)

lemma addr_object_row:
  "build_addr_object_projection b a p = Inr r \<Longrightarrow> object_row addr_ops (\<lambda>x. ref_display b (ET_ADDR, go_id addr_ops x)) a r"
  by (auto simp: build_addr_object_projection_def object_row_def ops_fields ref_display_def bind_r_eq_Inr
      paired_row_Inr split: if_splits)

lemma service_object_row:
  "build_service_projection b a p = Inr r \<Longrightarrow> object_row service_ops (\<lambda>x. ref_display b (ET_SERVICE, go_id service_ops x)) a r"
  by (auto simp: build_service_projection_def object_row_def ops_fields ref_display_def bind_r_eq_Inr
      paired_row_Inr split: if_splits)

definition builder_ok :: "can_scope_entities \<Rightarrow> entity_result list \<Rightarrow> projection_builder \<Rightarrow> bool" where
  "builder_ok e rs b \<longleftrightarrow>
     mk_canonical_zone_index (ce_zones e) = Inr (pb_zones b) \<and>
     mk_group_index addr_ops (ce_addr_objects e) = Inr (pb_addrs b) \<and>
     mk_service_group_index (ce_services e) = Inr (pb_services b) \<and>
     mk_results_index rs = Inr (pb_results b) \<and> pb_results_by_id b = dict_of me_id rs"

lemma mk_builder_ok:
  assumes "mk_projection_builder scope rules e srs rs cat = Inr b"
  shows "builder_ok e rs b" "pb_scope b = scope" "pb_canonical_rules_by_id b = dict_of cr_id rules"
    "pb_mapping_rules b = srs" "pb_sdwan b = mk_sdwan_catalog_index cat"
  using assms by (auto simp: mk_projection_builder_def bind_r_eq_Inr builder_ok_def)

lemma zone_index_get:
  assumes "mk_canonical_zone_index zs = Inr ix" "canonical_zone_get ix i = Inr z"
  shows "z \<in> set zs \<and> cz_id z = i"
proof -
  have "\<forall>j y. map_of ix j = Some y \<longrightarrow> y \<in> set zs \<and> cz_id y = j"
    by (rule fold_r_invariant [OF assms(1) [unfolded mk_canonical_zone_index_def],
        where P = "\<lambda>us d. \<forall>j y. map_of d j = Some y \<longrightarrow> y \<in> set us \<and> cz_id y = j"])
      (auto simp: zone_index_add_def update_conv split: if_splits)
  with assms(2) show ?thesis by (auto simp: canonical_zone_get_def split: option.splits)
qed

lemma operand_displays:
  assumes ok: "builder_ok e rs b" and rows: "build_canonical_operand_projection b o1 = Inr rows"
  shows "Inr ` set (extract_sdwan_entities rows) = ref_display b ` operand_targets e o1"
proof -
  have zone: "Inr ` set (extract_sdwan_entities rows) = ref_display b ` Pair ET_ZONE ` set_option (cop_target_zone_id o1)"
    if r: "build_zone_operand_projection b o1 = Inr rows"
  proof -
    from r obtain i z d where z: "cop_target_zone_id o1 = Some i" "canonical_zone_get (pb_zones b) i = Inr z"
      and d: "ref_display b (ET_ZONE, cz_id z) = Inr d" "map ep_sdwan rows = [Some d]"
      by (auto simp: build_zone_operand_projection_def bind_r_eq_Inr paired_row_Inr ref_display_def split: option.splits)
    from zone_index_get [OF _ z(2)] ok have "cz_id z = i" by (auto simp: builder_ok_def)
    with z d show ?thesis by (auto simp: extract_sdwan_entities_def map_filter_simps)
  qed
  have addr: "Inr ` set (extract_sdwan_entities rows) = ref_display b ` object_targets addr_ops (ce_addr_objects e) ET_ADDR o1"
    if r: "build_addr_operand_projection b o1 = Inr rows"
  proof -
    from r obtain i x where x: "cop_target_object_id o1 = Some i" "gi_get addr_ops (pb_addrs b) i = Inr x"
      by (auto simp: build_addr_operand_projection_def bind_r_eq_Inr split: option.splits)
    show ?thesis
      by (rule object_operand_displays [OF _ x, where f = "build_addr_object_projection b"])
        (use ok r x in \<open>simp_all add: builder_ok_def build_addr_operand_projection_def addr_object_row [unfolded ops_fields] ops_fields cong: if_cong split del: if_split\<close>)
  qed
  have serv: "Inr ` set (extract_sdwan_entities rows) = ref_display b ` object_targets service_ops (ce_services e) ET_SERVICE o1"
    if r: "build_service_operand_projection b o1 = Inr rows"
  proof -
    from r obtain i x where x: "cop_target_object_id o1 = Some i" "gi_get service_ops (pb_services b) i = Inr x"
      by (auto simp: build_service_operand_projection_def service_group_get_def bind_r_eq_Inr split: option.splits)
    show ?thesis
      by (rule object_operand_displays [OF _ x, where f = "build_service_projection b"])
        (use ok r x in \<open>simp_all add: builder_ok_def build_service_operand_projection_def service_group_get_def
          service_group_members_def mk_service_group_index_def service_object_row [unfolded ops_fields] ops_fields cong: if_cong split del: if_split\<close>)
  qed
  show ?thesis
    using rows zone addr serv
    by (cases "cop_role o1") (auto simp: build_canonical_operand_projection_def operand_targets_def)
qed

text \<open>Role by role, with the objects assigned by hand.\<close>

definition manual_refs :: "entity_result list \<Rightarrow> scope_rule \<Rightarrow> operand_role \<Rightarrow> entity_result set" where
  "manual_refs rs sr role =
     {r. is_manual_only r \<and> (\<exists>o1 \<in> set (sl_operand_list sr). so_role o1 = role \<and>
        map_of (dict_of me_id rs) (so_result_id o1) = Some r)}"

lemma role_displays:
  assumes ok: "builder_ok e rs b"
    and rows: "build_role_projection b rule sr role (map_operand_role role) = Inr rows"
  shows "Inr ` set (extract_sdwan_entities rows) =
    ref_display b ` {x. (map_operand_role role, x) \<in> rule_refs e rule} \<union>
    (\<lambda>r. sdwan_result_display b (Some r)) ` manual_refs rs sr (map_operand_role role)"
proof -
  let ?os = "filter (\<lambda>o1. cop_role o1 = role) (cr_operands rule)"
  from rows obtain rss manual where t: "traverse (build_canonical_operand_projection b) ?os = Inr rss"
    and m: "build_manual_operand_projection b sr (map_operand_role role) = Inr manual"
    and rows': "rows = concat rss @ manual"
    by (auto simp: build_role_projection_def bind_r_eq_Inr)
  have "Inr ` (\<Union>xs \<in> set rss. set (extract_sdwan_entities xs)) = (\<Union>o1 \<in> set ?os. ref_display b ` operand_targets e o1)"
    using t unfolding traverse_Inr_iff
  proof (induction rule: list_all2_induct)
    case (Cons o1 os r rs)
    then show ?case using operand_displays [OF ok Cons.hyps(1)] by (simp add: image_Un)
  qed simp
  moreover have "{x. (map_operand_role role, x) \<in> rule_refs e rule} = (\<Union>o1 \<in> set ?os. operand_targets e o1)"
  proof -
    have role: "map_operand_role role = map_operand_role r \<longleftrightarrow> r = role" for r
      by (cases r; cases role) (simp_all add: map_operand_role_def)
    show ?thesis unfolding rule_refs_def by (auto simp: role)
  qed
  ultimately have canonical: "Inr ` set (extract_sdwan_entities (concat rss)) =
      ref_display b ` {x. (map_operand_role role, x) \<in> rule_refs e rule}"
    unfolding extract_concat by (simp add: image_UN)
  have list: "Inr ` set (extract_sdwan_entities ys) = (\<lambda>r. sdwan_result_display b (Some r)) ` set xs"
    if "traverse (\<lambda>r. bind_r (sdwan_result_display b (Some r)) (\<lambda>d. Inr \<lparr>ep_canonical = None, ep_sdwan = Some d\<rparr>)) xs = Inr ys"
    for xs ys
    using that unfolding traverse_Inr_iff
  proof (induction rule: list_all2_induct)
    case (Cons x xs y ys)
    then obtain d where "sdwan_result_display b (Some x) = Inr d" "ep_sdwan y = Some d" by (auto simp: bind_r_eq_Inr)
    with Cons.IH show ?case by (simp add: extract_sdwan_entities_def map_filter_simps)
  qed (simp add: extract_sdwan_entities_def map_filter_simps)
  have "set (manual_results b sr (map_operand_role role)) = manual_refs rs sr (map_operand_role role)"
    using ok by (auto simp: manual_results_def manual_refs_def set_map_filter builder_ok_def sl_operand_list_def
        or_empty_def split: option.splits if_splits)
  with list [OF m [unfolded build_manual_operand_projection_def]] canonical show ?thesis
    unfolding rows' extract_append by (simp add: image_Un)
qed


section \<open>Displays of results\<close>

lemma display_id:
  assumes "get_display_entity (mk_sdwan_catalog_index cat) et i = Inr d"
  shows "se_sdwan_id d = i"
  using assms
  by (cases et) (auto simp: get_display_entity_def zone_display_def addr_display_def sdwan_service_display_def
      mk_sdwan_catalog_index_def keep_first_get dest!: find_Some_D split: option.splits)

lemma result_display:
  assumes "pb_sdwan b = mk_sdwan_catalog_index cat" "sdwan_result_display b (Some r) = Inr d"
  shows "xd_mapping_result_id d = Some (me_id r)" "xd_match_status d = me_result_status r"
    "xd_sdwan_id d = (if me_result_status r = RS_MATCHED then me_selected_sdwan_entity_id r else None)"
    "me_result_status r = RS_MATCHED \<Longrightarrow> me_selected_sdwan_entity_id r \<noteq> None"
  using assms by (auto simp: sdwan_result_display_def bind_r_eq_Inr dest: display_id split: if_splits option.splits)

lemma matched_effective:
  assumes "pb_sdwan b = mk_sdwan_catalog_index cat" "sdwan_result_display b (Some r) = Inr d"
  shows "effective_status d = me_result_status r"
  using result_display [OF assms] by (auto simp: effective_status_def)

text \<open>The index of results, with results that have no canonical object left out.\<close>

lemma results_index_find:
  assumes "mk_results_index rs = Inr ix"
  shows "results_get ix et i = List.find (\<lambda>r. me_entity_type r = et \<and> canonical_entity_id r = Inr i) (rev rs)"
  unfolding results_get_def
proof (rule fold_r_invariant [OF assms [unfolded mk_results_index_def],
      where P = "\<lambda>us d. map_of d (et, i) = List.find (\<lambda>r. me_entity_type r = et \<and> canonical_entity_id r = Inr i) (rev us)"])
  fix r us d d'
  assume "map_of d (et, i) = List.find (\<lambda>r. me_entity_type r = et \<and> canonical_entity_id r = Inr i) (rev us)"
    and "index_result r d = Inr d'"
  then show "map_of d' (et, i) = List.find (\<lambda>r. me_entity_type r = et \<and> canonical_entity_id r = Inr i) (rev (us @ [r]))"
    by (cases "canonical_entity_id r") (auto simp: index_result_def update_conv split: if_splits)
qed simp

definition results_distinct :: "entity_result list \<Rightarrow> bool" where
  "results_distinct rs \<longleftrightarrow> distinct (map me_id rs) \<and>
     (\<forall>r \<in> set rs. \<forall>q \<in> set rs. \<forall>i. canonical_entity_id r = Inr i \<longrightarrow> canonical_entity_id q = Inr i \<longrightarrow>
        me_entity_type r = me_entity_type q \<longrightarrow> r = q)"

lemma results_get_distinct:
  assumes "mk_results_index rs = Inr ix" "results_distinct rs" "r \<in> set rs" "canonical_entity_id r = Inr i"
  shows "results_get ix (me_entity_type r) i = Some r"
proof -
  let ?P = "\<lambda>q. me_entity_type q = me_entity_type r \<and> canonical_entity_id q = Inr i"
  have "List.find ?P (rev rs) \<noteq> None" using assms(3,4) unfolding find_None_iff' by auto
  then obtain q where q: "List.find ?P (rev rs) = Some q" by blast
  from find_Some_D [OF q] have "q \<in> set rs" "?P q" by simp_all
  with assms(2-4) have "q = r" by (auto simp: results_distinct_def)
  with q show ?thesis by (simp add: results_index_find [OF assms(1)])
qed

lemma manual_no_key: "result_ok r \<Longrightarrow> is_manual_only r \<longleftrightarrow> (\<nexists>i. canonical_entity_id r = Inr i)"
  by (cases "me_entity_type r = ET_ZONE")
    (auto simp: is_manual_only_def canonical_entity_id_def result_ok_def split: option.splits)


section \<open>The projection and the reader agree\<close>

text \<open>The scope rule \<open>sr\<close> is the rule \<open>rule\<close> mapped with the results \<open>rs\<close>: its operands reference
  results, those of canonical objects are the objects that \<open>rule\<close> names.\<close>

definition rule_linked :: "can_scope_entities \<Rightarrow> entity_result list \<Rightarrow> can_rule \<Rightarrow> scope_rule \<Rightarrow> bool" where
  "rule_linked e rs rule sr \<longleftrightarrow>
     sl_operands sr \<noteq> None \<and> (\<forall>o1 \<in> set (sl_operand_list sr). so_result_id o1 \<in> me_id ` set rs) \<and>
     scope_rule_refs rs sr = rule_refs e rule"

definition operand_results :: "entity_result list \<Rightarrow> scope_rule \<Rightarrow> operand_role \<Rightarrow> entity_result set" where
  "operand_results rs sr role =
     {r \<in> set rs. \<exists>o1 \<in> set (sl_operand_list sr). so_role o1 = role \<and> so_result_id o1 = me_id r}"

lemma linked_displays:
  assumes ok: "builder_ok e rs b" and linked: "rule_linked e rs rule sr"
    and rs: "results_distinct rs" "\<forall>r \<in> set rs. result_ok r"
    and rows: "build_role_projection b rule sr role (map_operand_role role) = Inr rows"
  shows "Inr ` set (extract_sdwan_entities rows) =
    (\<lambda>r. sdwan_result_display b (Some r)) ` operand_results rs sr (map_operand_role role)"
proof -
  let ?role = "map_operand_role role"
  have ids: "distinct (map me_id rs)" using rs(1) by (simp add: results_distinct_def)
  have ix: "mk_results_index rs = Inr (pb_results b)" using ok by (simp add: builder_ok_def)
  have refs: "(?role, x) \<in> rule_refs e rule \<longleftrightarrow>
      (\<exists>r \<in> operand_results rs sr ?role. canonical_entity_id r = Inr (snd x) \<and> me_entity_type r = fst x)" for x
  proof -
    have "rule_refs e rule = scope_rule_refs rs sr" using linked by (simp add: rule_linked_def)
    moreover have "(?role, x) \<in> scope_rule_refs rs sr \<longleftrightarrow> (\<exists>o1 r. o1 \<in> set (sl_operand_list sr) \<and> so_role o1 = ?role \<and>
        r \<in> set rs \<and> me_id r = so_result_id o1 \<and> canonical_entity_id r = Inr (snd x) \<and> me_entity_type r = fst x)"
      unfolding scope_rule_refs_def by (cases x) (simp, metis)
    ultimately show ?thesis unfolding operand_results_def by (simp, metis)
  qed
  have disp: "ref_display b (me_entity_type r, i) = sdwan_result_display b (Some r)"
    if "r \<in> set rs" "canonical_entity_id r = Inr i" for r i
    using results_get_distinct [OF ix rs(1) that] by (simp add: ref_display_def)
  have sub: "operand_results rs sr ?role \<subseteq> set rs" by (auto simp: operand_results_def)
  have canonical: "ref_display b ` {x. (?role, x) \<in> rule_refs e rule} =
      (\<lambda>r. sdwan_result_display b (Some r)) ` {r \<in> operand_results rs sr ?role. \<exists>i. canonical_entity_id r = Inr i}"
  proof (intro set_eqI iffI)
    fix y assume "y \<in> ref_display b ` {x. (?role, x) \<in> rule_refs e rule}"
    then obtain x where x: "(?role, x) \<in> rule_refs e rule" "y = ref_display b x" by auto
    from x(1) obtain r where r: "r \<in> operand_results rs sr ?role" "canonical_entity_id r = Inr (snd x)" "me_entity_type r = fst x"
      unfolding refs by blast
    with x(2) disp [of r "snd x"] sub have "y = sdwan_result_display b (Some r)" by auto
    with r show "y \<in> (\<lambda>r. sdwan_result_display b (Some r)) ` {r \<in> operand_results rs sr ?role. \<exists>i. canonical_entity_id r = Inr i}"
      by blast
  next
    fix y assume "y \<in> (\<lambda>r. sdwan_result_display b (Some r)) ` {r \<in> operand_results rs sr ?role. \<exists>i. canonical_entity_id r = Inr i}"
    then obtain r i where r: "r \<in> operand_results rs sr ?role" "canonical_entity_id r = Inr i"
      "y = sdwan_result_display b (Some r)" by blast
    then have "y = ref_display b (me_entity_type r, i)" using disp [of r i] sub by auto
    moreover have "(?role, (me_entity_type r, i)) \<in> rule_refs e rule" unfolding refs using r by auto
    ultimately show "y \<in> ref_display b ` {x. (?role, x) \<in> rule_refs e rule}" by blast
  qed
  have manual: "manual_refs rs sr ?role = {r \<in> operand_results rs sr ?role. \<nexists>i. canonical_entity_id r = Inr i}"
  proof (intro set_eqI iffI)
    fix r assume "r \<in> manual_refs rs sr ?role"
    then obtain o1 where o1: "is_manual_only r" "o1 \<in> set (sl_operand_list sr)" "so_role o1 = ?role"
      "map_of (dict_of me_id rs) (so_result_id o1) = Some r" by (auto simp: manual_refs_def)
    with dict_of_Some_D [OF o1(4)] rs(2) show "r \<in> {r \<in> operand_results rs sr ?role. \<nexists>i. canonical_entity_id r = Inr i}"
      by (auto simp: operand_results_def manual_no_key)
  next
    fix r assume r: "r \<in> {r \<in> operand_results rs sr ?role. \<nexists>i. canonical_entity_id r = Inr i}"
    then have "is_manual_only r" using rs(2) sub by (auto simp: manual_no_key)
    with r dict_of_distinct [OF ids] show "r \<in> manual_refs rs sr ?role"
      by (auto simp: operand_results_def manual_refs_def)
  qed
  show ?thesis
    unfolding role_displays [OF ok rows] canonical manual image_Un [symmetric] by (rule arg_cong [where f = "image _"]) blast
qed

text \<open>One rule: the ids that a role shows, and the status.\<close>

definition rd_role :: "rule_details \<Rightarrow> operand_role \<Rightarrow> entity_projection list" where
  "rd_role d role =
     (case role of OR_SRC_ZONE \<Rightarrow> rd_src_zones d | OR_DST_ZONE \<Rightarrow> rd_dst_zones d
      | OR_SRC_ADDR_OBJECT \<Rightarrow> rd_src_addr_objects d | OR_DST_ADDR_OBJECT \<Rightarrow> rd_dst_addr_objects d
      | OR_SERVICE \<Rightarrow> rd_services d)"

lemma details_role:
  assumes "build_rule_details b sr rule = Inr d"
  shows "\<exists>cr. map_operand_role cr = role \<and> build_role_projection b rule sr cr (map_operand_role cr) = Inr (rd_role d role)"
proof -
  from assms have rows: "build_role_projection b rule sr CR_SRC_ZONE OR_SRC_ZONE = Inr (rd_src_zones d)"
    "build_role_projection b rule sr CR_DST_ZONE OR_DST_ZONE = Inr (rd_dst_zones d)"
    "build_role_projection b rule sr CR_SRC_OBJECT OR_SRC_ADDR_OBJECT = Inr (rd_src_addr_objects d)"
    "build_role_projection b rule sr CR_DST_OBJECT OR_DST_ADDR_OBJECT = Inr (rd_dst_addr_objects d)"
    "build_role_projection b rule sr CR_SERVICE OR_SERVICE = Inr (rd_services d)"
    by (auto simp: build_rule_details_def bind_r_eq_Inr)
  show ?thesis
  proof (cases role)
    case OR_SRC_ZONE with rows show ?thesis by (intro exI [of _ CR_SRC_ZONE]) (simp add: rd_role_def map_operand_role_def)
  next
    case OR_DST_ZONE with rows show ?thesis by (intro exI [of _ CR_DST_ZONE]) (simp add: rd_role_def map_operand_role_def)
  next
    case OR_SRC_ADDR_OBJECT with rows show ?thesis by (intro exI [of _ CR_SRC_OBJECT]) (simp add: rd_role_def map_operand_role_def)
  next
    case OR_DST_ADDR_OBJECT with rows show ?thesis by (intro exI [of _ CR_DST_OBJECT]) (simp add: rd_role_def map_operand_role_def)
  next
    case OR_SERVICE with rows show ?thesis by (intro exI [of _ CR_SERVICE]) (simp add: rd_role_def map_operand_role_def)
  qed
qed

lemma roles_by_role: "set (details_roles d) = range (rd_role d)"
proof -
  have all: "(UNIV :: operand_role set) = {OR_SRC_ZONE, OR_DST_ZONE, OR_SRC_ADDR_OBJECT, OR_DST_ADDR_OBJECT, OR_SERVICE}"
    using operand_role.exhaust by blast
  show ?thesis unfolding all by (simp add: details_roles_def rd_role_def)
qed

lemma ids_of_role_results:
  assumes "results_distinct rs" "\<forall>o1 \<in> set (sl_operand_list sr). so_result_id o1 \<in> me_id ` set rs"
  shows "set (ids_of_role rs sr role) = (\<lambda>r. the (me_selected_sdwan_entity_id r)) ` operand_results rs sr role"
proof -
  have find: "map_of (dict_of me_id rs) (me_id r) = Some r" if "r \<in> set rs" for r
    by (rule dict_of_distinct [OF _ that]) (use assms(1) in \<open>simp add: results_distinct_def\<close>)
  have "(\<lambda>o1. the (map_of (dict_of me_id rs) (so_result_id o1))) ` {o1 \<in> set (sl_operand_list sr). so_role o1 = role} =
      operand_results rs sr role"
  proof (intro set_eqI iffI)
    fix r assume "r \<in> (\<lambda>o1. the (map_of (dict_of me_id rs) (so_result_id o1))) ` {o1 \<in> set (sl_operand_list sr). so_role o1 = role}"
    then obtain o1 where o1: "o1 \<in> set (sl_operand_list sr)" "so_role o1 = role"
      "r = the (map_of (dict_of me_id rs) (so_result_id o1))" by auto
    with assms(2) obtain q where q: "q \<in> set rs" "so_result_id o1 = me_id q" by auto
    with find [OF q(1)] o1 show "r \<in> operand_results rs sr role" by (auto simp: operand_results_def)
  next
    fix r assume "r \<in> operand_results rs sr role"
    then obtain o1 where "r \<in> set rs" "o1 \<in> set (sl_operand_list sr)" "so_role o1 = role" "so_result_id o1 = me_id r"
      by (auto simp: operand_results_def)
    with find [of r] show "r \<in> (\<lambda>o1. the (map_of (dict_of me_id rs) (so_result_id o1))) ` {o1 \<in> set (sl_operand_list sr). so_role o1 = role}"
      by (intro image_eqI [of _ _ o1]) simp_all
  qed
  from this [symmetric] show ?thesis unfolding ids_of_role_def by (simp add: image_image)
qed

lemma matching_images:
  assumes "\<And>r. r \<in> A \<Longrightarrow> \<exists>x \<in> B. D r x" "\<And>x. x \<in> B \<Longrightarrow> \<exists>r \<in> A. D r x"
    and "\<And>r x. r \<in> A \<Longrightarrow> D r x \<Longrightarrow> f x = g r"
  shows "f ` B = g ` A"
proof (intro equalityI subsetI)
  fix y assume "y \<in> f ` B"
  then obtain x where "x \<in> B" "y = f x" by blast
  with assms(2) [of x] assms(3) show "y \<in> g ` A" by blast
next
  fix y assume "y \<in> g ` A"
  then obtain r where r: "r \<in> A" "y = g r" by blast
  with assms(1) obtain x where x: "x \<in> B" "D r x" by blast
  with assms(3) [OF r(1)] r(2) have "y = f x" by simp
  with x(1) show "y \<in> f ` B" by blast
qed

lemma rule_projection:
  assumes ok: "builder_ok e rs b" "pb_sdwan b = mk_sdwan_catalog_index cat" and linked: "rule_linked e rs rule sr"
    and rs: "results_distinct rs" "\<forall>r \<in> set rs. result_ok r" and d: "build_rule_details b sr rule = Inr d"
  shows "rd_status d = MS_MAPPED \<longleftrightarrow>
      (\<forall>role. operand_results rs sr role \<noteq> {} \<and> (\<forall>r \<in> operand_results rs sr role. me_result_status r = RS_MATCHED))"
    and "\<forall>r \<in> operand_results rs sr role. me_result_status r = RS_MATCHED \<Longrightarrow>
      xd_sdwan_id ` set (extract_sdwan_entities (rd_role d role)) = Some ` set (ids_of_role rs sr role)"
proof -
  have disp: "Inr ` set (extract_sdwan_entities (rd_role d role)) =
      (\<lambda>r. sdwan_result_display b (Some r)) ` operand_results rs sr role" for role
  proof -
    obtain cr where cr: "map_operand_role cr = role"
      "build_role_projection b rule sr cr (map_operand_role cr) = Inr (rd_role d role)"
      using details_role [OF d, of role] by blast
    from linked_displays [OF ok(1) linked rs cr(2)] show ?thesis unfolding cr(1) .
  qed
  have map1: "\<exists>x \<in> set (extract_sdwan_entities (rd_role d role)). sdwan_result_display b (Some r) = Inr x"
    if "r \<in> operand_results rs sr role" for r role
  proof -
    from that have "sdwan_result_display b (Some r) \<in> Inr ` set (extract_sdwan_entities (rd_role d role))"
      unfolding disp by blast
    then show ?thesis by auto
  qed
  have map2: "\<exists>r \<in> operand_results rs sr role. sdwan_result_display b (Some r) = Inr x"
    if "x \<in> set (extract_sdwan_entities (rd_role d role))" for x role
  proof -
    from that have "Inr x \<in> (\<lambda>r. sdwan_result_display b (Some r)) ` operand_results rs sr role"
      unfolding disp [symmetric] by blast
    then show ?thesis by auto
  qed
  have eff: "effective_status ` set (extract_sdwan_entities (rd_role d role)) = me_result_status ` operand_results rs sr role" for role
    by (rule matching_images [where D = "\<lambda>r x. sdwan_result_display b (Some r) = Inr x"])
      (use map1 map2 matched_effective [OF ok(2)] in blast)+
  have empty: "extract_sdwan_entities (rd_role d role) = [] \<longleftrightarrow> operand_results rs sr role = {}" for role
    using eff [of role] by (metis image_is_empty set_empty)
  have "role_statuses d \<subseteq> {RS_MATCHED} \<longleftrightarrow> roles_filled d \<and>
      (\<forall>role. effective_status ` set (extract_sdwan_entities (rd_role d role)) \<subseteq> {RS_MATCHED})"
    unfolding role_statuses_def details_displays_def roles_by_role by auto
  also have "\<dots> \<longleftrightarrow> (\<forall>role. operand_results rs sr role \<noteq> {} \<and> (\<forall>r \<in> operand_results rs sr role. me_result_status r = RS_MATCHED))"
    unfolding eff roles_filled_def roles_by_role by (auto simp: empty)
  finally show "rd_status d = MS_MAPPED \<longleftrightarrow>
      (\<forall>role. operand_results rs sr role \<noteq> {} \<and> (\<forall>r \<in> operand_results rs sr role. me_result_status r = RS_MATCHED))"
    using details_status [OF d] by simp
  show "xd_sdwan_id ` set (extract_sdwan_entities (rd_role d role)) = Some ` set (ids_of_role rs sr role)"
    if m: "\<forall>r \<in> operand_results rs sr role. me_result_status r = RS_MATCHED"
  proof -
    have sel: "xd_sdwan_id x = Some (the (me_selected_sdwan_entity_id r))"
      if "r \<in> operand_results rs sr role" "sdwan_result_display b (Some r) = Inr x" for r x
      using result_display (3,4) [OF ok(2) that(2)] m that(1) by auto
    have ids: "set (ids_of_role rs sr role) = (\<lambda>r. the (me_selected_sdwan_entity_id r)) ` operand_results rs sr role"
      using linked by (intro ids_of_role_results [OF rs(1)]) (simp add: rule_linked_def)
    show ?thesis unfolding ids image_image
      by (rule matching_images [where D = "\<lambda>r x. sdwan_result_display b (Some r) = Inr x"])
        (use map1 map2 sel in blast)+
  qed
qed


text \<open>The whole projection: its rows are those of the scope rules by priority.\<close>

definition mw_role :: "mapped_rule_row \<Rightarrow> operand_role \<Rightarrow> mapped_display list" where
  "mw_role m role =
     (case role of OR_SRC_ZONE \<Rightarrow> mw_src_zones m | OR_DST_ZONE \<Rightarrow> mw_dst_zones m
      | OR_SRC_ADDR_OBJECT \<Rightarrow> mw_src_addr_objects m | OR_DST_ADDR_OBJECT \<Rightarrow> mw_dst_addr_objects m
      | OR_SERVICE \<Rightarrow> mw_services m)"

lemma mapped_row_role: "mw_role (build_mapped_rule_row sr d) role = extract_sdwan_entities (rd_role d role)"
  by (cases role) (simp_all add: mw_role_def rd_role_def build_mapped_rule_row_def)

definition views_of ::
  "projection_builder \<Rightarrow> scope_rule \<Rightarrow> canonical_rule_row \<times> mapped_rule_row \<times> rule_details \<Rightarrow> bool" where
  "views_of b sr v \<longleftrightarrow>
     (\<exists>rule. map_of (pb_canonical_rules_by_id b) (sl_canonical_rule_id sr) = Some rule \<and>
        build_rule_details b sr rule = Inr (snd (snd v)) \<and> build_canonical_rule_row b rule = Inr (fst v) \<and>
        fst (snd v) = build_mapped_rule_row sr (snd (snd v)))"

lemma project_rules_views:
  assumes "project_rules scope rules e srs rs cat = Inr p"
  obtains b vs where "mk_projection_builder scope rules e srs rs cat = Inr b"
    "list_all2 (views_of b) (sort_key sl_priority srs) vs"
    "pj_canonical_rules p = map fst vs" "pj_mapped_rules p = map (fst \<circ> snd) vs"
    "pj_details_by_rule_id p = dict_of rd_mapping_scope_rule_id (map (snd \<circ> snd) vs)"
proof -
  from assms obtain b where b: "mk_projection_builder scope rules e srs rs cat = Inr b" "build_projection b = Inr p"
    by (auto simp: project_rules_def bind_r_eq_Inr)
  from b(2) obtain vs where vs: "traverse (build_rule_views b) (sort_key sl_priority (pb_mapping_rules b)) = Inr vs"
    and p: "pj_canonical_rules p = map fst vs" "pj_mapped_rules p = map (fst \<circ> snd) vs"
      "pj_details_by_rule_id p = foldl (\<lambda>d v. AList.update (rd_mapping_scope_rule_id (snd (snd v))) (snd (snd v)) d) [] vs"
    by (auto simp: build_projection_def bind_r_eq_Inr)
  have view: "views_of b sr v" if "build_rule_views b sr = Inr v" for sr v
    using that by (auto simp: build_rule_views_def bind_r_eq_Inr views_of_def pb_get_canonical_rule_def split: option.splits)
  have fold: "foldl (\<lambda>d v. AList.update (f (g v)) (g v) d) d vs = foldl (\<lambda>d x. AList.update (f x) x d) d (map g vs)" for f g d
    by (induction vs arbitrary: d) simp_all
  have "list_all2 (views_of b) (sort_key sl_priority srs) vs"
    using vs unfolding traverse_Inr_iff mk_builder_ok(4) [OF b(1)] by (rule list_all2_mono) (rule view)
  with b(1) p fold [of rd_mapping_scope_rule_id "snd \<circ> snd" "[]"] that show thesis by (simp add: dict_of_def)
qed

lemma details_id: "build_rule_details b sr rule = Inr d \<Longrightarrow> rd_mapping_scope_rule_id d = sl_id sr"
  by (auto simp: build_rule_details_def bind_r_eq_Inr)

lemma canonical_row_id: "build_canonical_rule_row b rule = Inr c \<Longrightarrow> cw_canonical_rule_id c = cr_id rule"
  by (auto simp: build_canonical_rule_row_def bind_r_eq_Inr)

lemma views_ids:
  assumes "views_of b sr v" "pb_canonical_rules_by_id b = dict_of cr_id rules"
  shows "rd_mapping_scope_rule_id (snd (snd v)) = sl_id sr" "mw_mapping_scope_rule_id (fst (snd v)) = sl_id sr"
    "cw_canonical_rule_id (fst v) = sl_canonical_rule_id sr" "mw_status (fst (snd v)) = rd_status (snd (snd v))"
    "mw_role (fst (snd v)) role = extract_sdwan_entities (rd_role (snd (snd v)) role)"
proof -
  from assms obtain rule where rule: "cr_id rule = sl_canonical_rule_id sr"
    "build_rule_details b sr rule = Inr (snd (snd v))" "build_canonical_rule_row b rule = Inr (fst v)"
    and row: "fst (snd v) = build_mapped_rule_row sr (snd (snd v))"
    by (auto simp: views_of_def dest: dict_of_Some_D)
  from rule(2) show "rd_mapping_scope_rule_id (snd (snd v)) = sl_id sr"
    by (rule details_id)
  from rule(1) canonical_row_id [OF rule(3)] show "cw_canonical_rule_id (fst v) = sl_canonical_rule_id sr" by simp
  show "mw_mapping_scope_rule_id (fst (snd v)) = sl_id sr" "mw_status (fst (snd v)) = rd_status (snd (snd v))"
    "mw_role (fst (snd v)) role = extract_sdwan_entities (rd_role (snd (snd v)) role)"
    unfolding row mapped_row_role by (simp_all add: build_mapped_rule_row_def)
qed

lemma list_all2_member:
  assumes "list_all2 R xs ys"
  shows "x \<in> set xs \<Longrightarrow> \<exists>y \<in> set ys. R x y" "y \<in> set ys \<Longrightarrow> \<exists>x \<in> set xs. R x y"
  using assms by (induction rule: list_all2_induct) auto

lemma list_all2_map_eq:
  assumes "list_all2 R xs ys" "\<And>x y. R x y \<Longrightarrow> f x = g y"
  shows "map f xs = map g ys"
  using assms(1) by (induction rule: list_all2_induct) (simp_all add: assms(2))

lemma projection_views:
  assumes "project_rules scope rules e srs rs cat = Inr p" "distinct (map sl_id srs)"
  shows "map cw_canonical_rule_id (pj_canonical_rules p) = map sl_canonical_rule_id (sort_key sl_priority srs) \<and>
    map mw_mapping_scope_rule_id (pj_mapped_rules p) = map sl_id (sort_key sl_priority srs) \<and>
    (\<forall>row \<in> set (pj_mapped_rules p). \<exists>d.
       map_of (pj_details_by_rule_id p) (mw_mapping_scope_rule_id row) = Some d \<and>
       mw_status row = rd_status d \<and> (\<forall>role. mw_role row role = extract_sdwan_entities (rd_role d role)))"
proof -
  obtain b vs where b: "mk_projection_builder scope rules e srs rs cat = Inr b"
    and vs: "list_all2 (views_of b) (sort_key sl_priority srs) vs"
    and p: "pj_canonical_rules p = map fst vs" "pj_mapped_rules p = map (fst \<circ> snd) vs"
      "pj_details_by_rule_id p = dict_of rd_mapping_scope_rule_id (map (snd \<circ> snd) vs)"
    using assms(1) by (rule project_rules_views)
  note ids = views_ids [OF _ mk_builder_ok(3) [OF b]]
  have 1: "map sl_canonical_rule_id (sort_key sl_priority srs) = map (cw_canonical_rule_id \<circ> fst) vs"
    by (rule list_all2_map_eq [OF vs]) (simp add: ids)
  have 2: "map sl_id (sort_key sl_priority srs) = map (mw_mapping_scope_rule_id \<circ> (fst \<circ> snd)) vs"
    by (rule list_all2_map_eq [OF vs]) (simp add: ids)
  have 3: "map sl_id (sort_key sl_priority srs) = map rd_mapping_scope_rule_id (map (snd \<circ> snd) vs)"
    unfolding map_map by (rule list_all2_map_eq [OF vs]) (simp add: ids)
  have dist: "distinct (map rd_mapping_scope_rule_id (map (snd \<circ> snd) vs))"
    unfolding 3 [symmetric] using assms(2) by (simp add: distinct_map)
  have "\<exists>d. map_of (pj_details_by_rule_id p) (mw_mapping_scope_rule_id row) = Some d \<and>
       mw_status row = rd_status d \<and> (\<forall>role. mw_role row role = extract_sdwan_entities (rd_role d role))"
    if row: "row \<in> set (pj_mapped_rules p)" for row
  proof -
    from row p(2) obtain v where v: "v \<in> set vs" "row = fst (snd v)" by auto
    from list_all2_member(2) [OF vs v(1)] obtain sr where "views_of b sr v" by blast
    note i = ids [OF this]
    have "snd (snd v) \<in> set (map (snd \<circ> snd) vs)" using v(1) by auto
    from dict_of_distinct [OF dist this] i v(2) p(3) show ?thesis by (intro exI [of _ "snd (snd v)"]) simp
  qed
  with 1 2 p show ?thesis by simp
qed

lemma projection_reader:
  assumes p: "project_rules scope rules e srs rs cat = Inr p"
    and linked: "\<forall>sr \<in> set srs. \<exists>rule. map_of (dict_of cr_id rules) (sl_canonical_rule_id sr) = Some rule \<and>
      rule_linked e rs rule sr"
    and rs: "results_distinct rs" "\<forall>r \<in> set rs. result_ok r"
  shows "(\<exists>ms. read_rules sid srs rs = Inr ms) \<longleftrightarrow>
      (\<forall>r \<in> set rs. me_result_status r = RS_MATCHED) \<and> (\<forall>row \<in> set (pj_mapped_rules p). mw_status row = MS_MAPPED)"
    and "read_rules sid srs rs = Inr ms \<Longrightarrow> list_all2 (\<lambda>row m. mw_mapping_scope_rule_id row = md_id m \<and>
      (\<forall>role. xd_sdwan_id ` set (mw_role row role) = Some ` set (md_role_ids m role))) (pj_mapped_rules p) ms"
proof -
  obtain b vs where b: "mk_projection_builder scope rules e srs rs cat = Inr b"
    and vs: "list_all2 (views_of b) (sort_key sl_priority srs) vs"
    and rows: "pj_mapped_rules p = map (fst \<circ> snd) vs"
    using p by (rule project_rules_views)
  note bld = mk_builder_ok [OF b]
  have facts: "sl_operands sr \<noteq> None \<and> (\<forall>o1 \<in> set (sl_operand_list sr). so_result_id o1 \<in> me_id ` set rs) \<and>
      (mw_status (fst (snd v)) = MS_MAPPED \<longleftrightarrow> (\<forall>role. operand_results rs sr role \<noteq> {} \<and>
         (\<forall>r \<in> operand_results rs sr role. me_result_status r = RS_MATCHED))) \<and>
      mw_mapping_scope_rule_id (fst (snd v)) = sl_id sr \<and>
      ((\<forall>r \<in> set rs. me_result_status r = RS_MATCHED) \<longrightarrow>
         (\<forall>role. xd_sdwan_id ` set (mw_role (fst (snd v)) role) = Some ` set (ids_of_role rs sr role)))"
    if v: "views_of b sr v" "sr \<in> set srs" for sr v
  proof -
    from linked v(2) obtain rule where rule: "map_of (dict_of cr_id rules) (sl_canonical_rule_id sr) = Some rule"
      "rule_linked e rs rule sr" by blast
    with v(1) bld(3) have d: "build_rule_details b sr rule = Inr (snd (snd v))" by (simp add: views_of_def)
    note i = views_ids [OF v(1) bld(3)]
    note rp = rule_projection [OF bld(1,5) rule(2) rs d]
    have "\<forall>r \<in> operand_results rs sr role. me_result_status r = RS_MATCHED"
      if "\<forall>r \<in> set rs. me_result_status r = RS_MATCHED" for role
      using that by (simp add: operand_results_def)
    with rule(2) i rp show ?thesis by (simp add: rule_linked_def)
  qed
  have pairs: "list_all2 (\<lambda>sr v. views_of b sr v \<and> sr \<in> set srs) (sort_key sl_priority srs) vs"
    using vs by (auto simp: list_all2_conv_all_nth) (metis nth_mem length_sort set_sort)
  have filled: "ids_of_role rs sr role \<noteq> [] \<longleftrightarrow> operand_results rs sr role \<noteq> {}"
    if "\<forall>o1 \<in> set (sl_operand_list sr). so_result_id o1 \<in> me_id ` set rs" for sr role
    using ids_of_role_results [OF rs(1) that, of role] by (metis image_is_empty set_empty)
  have read: "(\<forall>r \<in> set rs. me_result_status r = RS_MATCHED) \<and> (\<forall>row \<in> set (pj_mapped_rules p). mw_status row = MS_MAPPED) \<and>
      list_all2 (\<lambda>row m. mw_mapping_scope_rule_id row = md_id m \<and>
        (\<forall>role. xd_sdwan_id ` set (mw_role row role) = Some ` set (md_role_ids m role))) (pj_mapped_rules p) ms"
    if "read_rules sid srs rs = Inr ms" for ms
  proof -
    from read_rules_exact [OF that] have m: "\<forall>r \<in> set rs. me_result_status r = RS_MATCHED"
      and rd: "list_all2 (\<lambda>rule m. rule_read rs rule m \<and> rule_complete m) (sort_key sl_priority srs) ms" by blast+
    have one: "mw_status (fst (snd v)) = MS_MAPPED \<and> mw_mapping_scope_rule_id (fst (snd v)) = md_id q \<and>
        (\<forall>role. xd_sdwan_id ` set (mw_role (fst (snd v)) role) = Some ` set (md_role_ids q role))"
      if v: "views_of b sr v \<and> sr \<in> set srs" and q: "rule_read rs sr q \<and> rule_complete q" for sr v q
    proof -
      have "ids_of_role rs sr role \<noteq> []" for role
        using complete_ids [of q role] rule_read_ids [of rs sr q role] q by simp
      then have "operand_results rs sr role \<noteq> {}" for role using filled facts v by blast
      moreover have "\<forall>r \<in> operand_results rs sr role. me_result_status r = RS_MATCHED" for role
        using m by (simp add: operand_results_def)
      ultimately show ?thesis using facts [of sr v] v m q rule_read_ids [of rs sr q] by (simp add: rule_read_def)
    qed
    have "list_all2 (\<lambda>v q. mw_status (fst (snd v)) = MS_MAPPED \<and> mw_mapping_scope_rule_id (fst (snd v)) = md_id q \<and>
        (\<forall>role. xd_sdwan_id ` set (mw_role (fst (snd v)) role) = Some ` set (md_role_ids q role))) vs ms"
    proof (rule list_all2_trans)
      show "list_all2 (\<lambda>v sr. views_of b sr v \<and> sr \<in> set srs) vs (sort_key sl_priority srs)"
        using pairs by (subst list_all2_conv_all_nth) (simp add: list_all2_conv_all_nth)
      show "list_all2 (\<lambda>rule m. rule_read rs rule m \<and> rule_complete m) (sort_key sl_priority srs) ms" by (rule rd)
    qed (rule one)
    then have "(\<forall>v \<in> set vs. mw_status (fst (snd v)) = MS_MAPPED) \<and> list_all2 (\<lambda>row m. mw_mapping_scope_rule_id row = md_id m \<and>
        (\<forall>role. xd_sdwan_id ` set (mw_role row role) = Some ` set (md_role_ids m role))) (map (fst \<circ> snd) vs) ms"
      by (induction rule: list_all2_induct) simp_all
    with m rows show ?thesis by simp
  qed
  show "read_rules sid srs rs = Inr ms \<Longrightarrow> list_all2 (\<lambda>row m. mw_mapping_scope_rule_id row = md_id m \<and>
      (\<forall>role. xd_sdwan_id ` set (mw_role row role) = Some ` set (md_role_ids m role))) (pj_mapped_rules p) ms"
    using read by blast
  show "(\<exists>ms. read_rules sid srs rs = Inr ms) \<longleftrightarrow>
      (\<forall>r \<in> set rs. me_result_status r = RS_MATCHED) \<and> (\<forall>row \<in> set (pj_mapped_rules p). mw_status row = MS_MAPPED)"
  proof
    show "(\<forall>r \<in> set rs. me_result_status r = RS_MATCHED) \<and> (\<forall>row \<in> set (pj_mapped_rules p). mw_status row = MS_MAPPED)"
      if "\<exists>ms. read_rules sid srs rs = Inr ms" using that read by blast
    assume h: "(\<forall>r \<in> set rs. me_result_status r = RS_MATCHED) \<and> (\<forall>row \<in> set (pj_mapped_rules p). mw_status row = MS_MAPPED)"
    have "\<exists>m. read_rule (dict_of me_id rs) sr = Inr m" if sr: "sr \<in> set (sort_key sl_priority srs)" for sr
    proof -
      from list_all2_member(1) [OF pairs sr] obtain v where v: "v \<in> set vs" "views_of b sr v" "sr \<in> set srs" by blast
      note f = facts [OF v(2,3)]
      from f obtain os where os: "sl_operands sr = Some os" by blast
      then have ol: "sl_operand_list sr = os" by (simp add: sl_operand_list_def)
      have "mw_status (fst (snd v)) = MS_MAPPED" using h v(1) rows by auto
      with f have ne: "operand_results rs sr role \<noteq> {}" for role by blast
      show ?thesis
      proof (rule read_rule_total [OF os])
        show "\<exists>o1 \<in> set os. so_role o1 = role" for role using ne [of role] by (auto simp: operand_results_def ol)
        fix o1 assume "o1 \<in> set os"
        with conjunct1 [OF conjunct2 [OF f]] ol obtain r where r: "r \<in> set rs" "so_result_id o1 = me_id r" by blast
        have "map_of (dict_of me_id rs) (me_id r) = Some r"
          by (rule dict_of_distinct [OF _ r(1)]) (use rs(1) in \<open>simp add: results_distinct_def\<close>)
        moreover have "me_selected_sdwan_entity_id r \<noteq> None" using h rs(2) r(1) by (auto simp: result_ok_def)
        ultimately show "\<exists>r i. map_of (dict_of me_id rs) (so_result_id o1) = Some r \<and> me_selected_sdwan_entity_id r = Some i"
          using r(2) by auto
      qed
    qed
    then have "\<exists>ms. traverse (read_rule (dict_of me_id rs)) (sort_key sl_priority srs) = Inr ms"
      unfolding traverse_Inr_ex by blast
    with h show "\<exists>ms. read_rules sid srs rs = Inr ms" by (auto simp: read_rules_def)
  qed
qed

end
