(* ===== verification/Projection_Total.thy ===== *)
theory Projection_Total
  imports Projection_Facts
begin

text \<open>
  When the projection of a mapping scope is built (\<open>projection_total\<close>): the groups are sound,
  the operands name objects of the snapshot, and what the results select is in the catalog.
\<close>

section \<open>Displays exist\<close>

definition in_catalog :: "sdwan_full_catalog \<Rightarrow> mapping_entity_type \<Rightarrow> int \<Rightarrow> bool" where
  "in_catalog cat et i \<longleftrightarrow>
     (case et of ET_ZONE \<Rightarrow> i \<in> zn_id ` set (fc_zones cat) | ET_ADDR \<Rightarrow> i \<in> ao_id ` set (fc_addr_objs cat)
      | ET_SERVICE \<Rightarrow> i \<in> sv_id ` set (fc_services cat))"

lemma keep_first_found: "i \<in> f ` set xs \<Longrightarrow> \<exists>x. map_of (keep_first f xs) i = Some x"
  unfolding keep_first_get using find_None_iff' [of "\<lambda>x. f x = i" xs] by fastforce

lemma display_found: "in_catalog cat et i \<Longrightarrow> \<exists>d. get_display_entity (mk_sdwan_catalog_index cat) et i = Inr d"
  by (cases et) (auto simp: in_catalog_def get_display_entity_def zone_display_def addr_display_def
      sdwan_service_display_def mk_sdwan_catalog_index_def dest!: keep_first_found)

definition shown_ok :: "sdwan_full_catalog \<Rightarrow> entity_result \<Rightarrow> bool" where
  "shown_ok cat r \<longleftrightarrow> (\<forall>i. me_selected_sdwan_entity_id r = Some i \<longrightarrow> in_catalog cat (me_entity_type r) i)"

lemma result_display_total:
  assumes "pb_sdwan b = mk_sdwan_catalog_index cat" "\<And>r. mr = Some r \<Longrightarrow> result_ok r \<and> shown_ok cat r"
  shows "\<exists>d. sdwan_result_display b mr = Inr d"
proof (cases mr)
  case (Some r)
  show ?thesis
  proof (cases "me_result_status r = RS_MATCHED")
    case True
    with assms(2) [OF Some] obtain i where i: "me_selected_sdwan_entity_id r = Some i" "in_catalog cat (me_entity_type r) i"
      by (auto simp: result_ok_def shown_ok_def)
    with display_found [OF i(2)] True Some assms(1) show ?thesis by (auto simp: sdwan_result_display_def)
  qed (simp add: Some sdwan_result_display_def)
qed (simp add: sdwan_result_display_def)

text \<open>The parents that the members of a group name are objects of the index.\<close>

definition parent_found :: "'a group_ops \<Rightarrow> 'a group_index \<Rightarrow> uuid option \<Rightarrow> bool" where
  "parent_found ops ix p \<longleftrightarrow> (\<forall>i. p = Some i \<longrightarrow> (\<exists>x. gi_get ops ix i = Inr x))"

lemma fold_r_keeps:
  "fold_r f xs s = Inr t \<Longrightarrow> P s \<Longrightarrow> (\<And>x u u'. x \<in> set xs \<Longrightarrow> P u \<Longrightarrow> f x u = Inr u' \<Longrightarrow> P u') \<Longrightarrow> P t"
  by (rule fold_r_invariant [where P = "\<lambda>_. P"])

lemma collect_members_parents:
  assumes "collect_group_members ops ix g parent depth dd path res = Inr res'" "parent_found ops ix parent"
    and "\<forall>m \<in> set res. parent_found ops ix (gm_parent_id m)"
  shows "\<forall>m \<in> set res'. parent_found ops ix (gm_parent_id m)"
  using assms
proof (induction "4 - depth" arbitrary: g parent depth dd path res res' rule: less_induct)
  case less
  have ok: "\<not> depth > MAX_GROUP_DEPTH"
    using less.prems(1) by (auto simp: collect_group_members.simps [of ops ix g] split: if_splits)
  from less.prems(1) ok obtain group where g: "gi_get ops ix g = Inr group"
    by (auto simp: collect_group_members.simps [of ops ix g] bind_r_eq_Inr)
  note run = less.prems(1) [unfolded collect_group_members.simps [of ops ix g] if_not_P [OF ok] g bind_r_simps]
  have pg: "parent_found ops ix (Some g)" using g by (simp add: parent_found_def)
  show ?case
  proof (rule fold_r_keeps [OF run])
    show "\<forall>m \<in> set (res @ [\<lparr>gm_obj = group, gm_parent_id = parent, gm_depth = dd, gm_path = path\<rparr>]).
        parent_found ops ix (gm_parent_id m)"
      using less.prems(2,3) by simp
  next
    fix c r r'
    assume "c \<in> set (gi_children_get ix g)" and r: "\<forall>m \<in> set r. parent_found ops ix (gm_parent_id m)"
      and step: "(if go_is_group ops c then
             if go_id ops c \<in> set path then Inl (cycle_error ops (path @ [go_id ops c]))
             else collect_group_members ops ix (go_id ops c) (Some g) (depth + 1)
               (dd + 1) (path @ [go_id ops c]) r
           else Inr (r @ [\<lparr>gm_obj = c, gm_parent_id = Some g, gm_depth = dd + 1,
             gm_path = path @ [go_id ops c]\<rparr>])) = Inr r'"
    show "\<forall>m \<in> set r'. parent_found ops ix (gm_parent_id m)"
    proof (cases "go_is_group ops c")
      case True
      with step have "collect_group_members ops ix (go_id ops c) (Some g) (depth + 1) (dd + 1) (path @ [go_id ops c]) r = Inr r'"
        by (simp split: if_splits)
      from less.hyps [OF _ this pg r] ok show ?thesis by (simp add: MAX_GROUP_DEPTH_def)
    qed (use step r pg in auto)
  qed
qed

lemma group_members_total:
  assumes "mk_group_index ops xs = Inr ix" "x \<in> set xs" "go_is_group ops x" "\<not> nested ops xs 3 (go_id ops x)"
  shows "\<exists>ms. resolve_group_members ops ix (go_id ops x) = Inr ms \<and> (\<forall>m \<in> set ms. parent_found ops ix (gm_parent_id m))"
proof -
  note ok = mk_group_index_ok [OF assms(1)]
  have get: "gi_get ops ix (go_id ops x) = Inr x" using assms(2) by (simp add: index_get [OF ok])
  from resolve_members_error_iff [OF assms(1) get assms(3)] assms(4) chain_nested [OF ok]
  obtain ms where ms: "resolve_group_members ops ix (go_id ops x) = Inr ms"
    by (cases "resolve_group_members ops ix (go_id ops x)") auto
  with get have "collect_group_members ops ix (go_id ops x) None 1 0 [go_id ops x] [] = Inr ms"
    by (simp add: resolve_group_members_def split: if_splits)
  from collect_members_parents [OF this] ms show ?thesis by (simp add: parent_found_def)
qed

lemma parent_name_total: "parent_found ops ix p \<Longrightarrow> \<exists>n. get_parent_name ops nm ix p = Inr n"
  by (cases p) (auto simp: get_parent_name_def parent_found_def)

lemma object_operand_total:
  assumes ix: "mk_group_index ops xs = Inr ix" and o1: "object_operand_ok ops xs o1"
    and f: "\<And>x p. parent_found ops ix p \<Longrightarrow> \<exists>r. f x p = Inr r"
  obtains i x where "cop_target_object_id o1 = Some i" "gi_get ops ix i = Inr x"
    "\<exists>rows. (if \<not> go_is_group ops x then bind_r (f x None) (\<lambda>r. Inr [r])
      else bind_r (resolve_group_members ops ix (go_id ops x))
        (\<lambda>ms. traverse (\<lambda>m. f (gm_obj m) (gm_parent_id m)) ms)) = Inr rows"
proof -
  note ok = mk_group_index_ok [OF ix]
  from o1 obtain x where x: "x \<in> set xs" "cop_target_object_id o1 = Some (go_id ops x)"
    "go_is_group ops x \<Longrightarrow> \<not> nested ops xs 3 (go_id ops x)"
    unfolding object_operand_ok_def by blast
  have get: "gi_get ops ix (go_id ops x) = Inr x" using x(1) by (simp add: index_get [OF ok])
  show thesis
  proof (rule that [OF x(2) get], cases "go_is_group ops x")
    case False
    obtain r where "f x None = Inr r" using f [of None x] by (auto simp: parent_found_def)
    with False show "\<exists>rows. (if \<not> go_is_group ops x then bind_r (f x None) (\<lambda>r. Inr [r])
      else bind_r (resolve_group_members ops ix (go_id ops x))
        (\<lambda>ms. traverse (\<lambda>m. f (gm_obj m) (gm_parent_id m)) ms)) = Inr rows" by simp
  next
    case True
    obtain ms where ms: "resolve_group_members ops ix (go_id ops x) = Inr ms"
      "\<forall>m \<in> set ms. parent_found ops ix (gm_parent_id m)"
      using group_members_total [OF ix x(1) True x(3) [OF True]] by blast
    have "\<exists>rows. traverse (\<lambda>m. f (gm_obj m) (gm_parent_id m)) ms = Inr rows"
      unfolding traverse_Inr_ex using ms(2) f by blast
    with True ms(1) show "\<exists>rows. (if \<not> go_is_group ops x then bind_r (f x None) (\<lambda>r. Inr [r])
      else bind_r (resolve_group_members ops ix (go_id ops x))
        (\<lambda>ms. traverse (\<lambda>m. f (gm_obj m) (gm_parent_id m)) ms)) = Inr rows" by simp
  qed
qed

lemma zone_index_total:
  assumes "distinct (map cz_id zs)"
  shows "\<exists>ix. mk_canonical_zone_index zs = Inr ix \<and> (\<forall>z \<in> set zs. \<exists>y. canonical_zone_get ix (cz_id z) = Inr y)"
proof -
  have "\<exists>ix. fold_r zone_index_add zs d = Inr ix \<and> fst ` set ix = fst ` set d \<union> cz_id ` set zs"
    if "distinct (map cz_id zs)" "cz_id ` set zs \<inter> fst ` set d = {}" for d
    using that
  proof (induction zs arbitrary: d)
    case (Cons z zs)
    then have fresh: "cz_id z \<notin> fst ` set d" by auto
    from Cons.prems have "cz_id ` set zs \<inter> fst ` set (AList.update (cz_id z) z d) = {}"
      by (auto simp: update_fresh [OF fresh])
    from Cons.IH [OF _ this] Cons.prems obtain ix where
      "fold_r zone_index_add zs (AList.update (cz_id z) z d) = Inr ix"
      "fst ` set ix = fst ` set (AList.update (cz_id z) z d) \<union> cz_id ` set zs" by auto
    moreover have "zone_index_add z d = Inr (AList.update (cz_id z) z d)" using fresh by (simp add: zone_index_add_def)
    ultimately show ?case by (simp add: update_fresh [OF fresh])
  qed simp
  from this [of "[]"] assms obtain ix where ix: "mk_canonical_zone_index zs = Inr ix" "fst ` set ix = cz_id ` set zs"
    by (auto simp: mk_canonical_zone_index_def)
  have "\<exists>y. canonical_zone_get ix (cz_id z) = Inr y" if "z \<in> set zs" for z
  proof -
    from that ix(2) have "map_of ix (cz_id z) \<noteq> None" by (simp add: map_of_eq_None_iff)
    then show ?thesis by (auto simp: canonical_zone_get_def)
  qed
  with ix(1) show ?thesis by blast
qed



section \<open>The projection is built\<close>

lemma builder_total:
  assumes "groups_ok addr_ops (ce_addr_objects e)" "groups_ok service_ops (ce_services e)"
    and "distinct (map cz_id (ce_zones e))" "\<forall>r \<in> set rs. result_ok r"
  shows "\<exists>b. mk_projection_builder scope rules e srs rs cat = Inr b"
proof -
  have index: "\<exists>d'. index_result r d = Inr d'" if "r \<in> set rs" for r d
    using assms(4) that by (cases "me_entity_type r = ET_ZONE")
      (auto simp: index_result_def canonical_entity_id_def result_ok_def split: option.splits)
  have "\<exists>ix. fold_r index_result xs d = Inr ix" if "set xs \<subseteq> set rs" for xs d
    using that
  proof (induction xs arbitrary: d)
    case (Cons x xs)
    with index [of x d] obtain d' where "index_result x d = Inr d'" by auto
    with Cons show ?case by simp
  qed simp
  then have "\<exists>ix. mk_results_index rs = Inr ix" by (simp add: mk_results_index_def)
  moreover have "\<exists>ai. mk_group_index addr_ops (ce_addr_objects e) = Inr ai"
    "\<exists>si. mk_service_group_index (ce_services e) = Inr si"
    unfolding mk_service_group_index_def mk_group_index_iff using assms(1,2) by blast+
  ultimately show ?thesis using zone_index_total [OF assms(3)] by (auto simp: mk_projection_builder_def)
qed

lemma operand_rows_total:
  assumes ok: "builder_ok e rs b" "pb_sdwan b = mk_sdwan_catalog_index cat"
    and zones: "distinct (map cz_id (ce_zones e))" and rs: "\<forall>r \<in> set rs. result_ok r \<and> shown_ok cat r"
    and o1: "operand_ok e o1"
  shows "\<exists>rows. build_canonical_operand_projection b o1 = Inr rows"
    and "\<exists>es. canonical_operand_summary_entities b o1 = Inr es"
proof -
  have ix: "mk_group_index addr_ops (ce_addr_objects e) = Inr (pb_addrs b)"
    "mk_group_index service_ops (ce_services e) = Inr (pb_services b)"
    "mk_results_index rs = Inr (pb_results b)" "mk_canonical_zone_index (ce_zones e) = Inr (pb_zones b)"
    using ok(1) by (simp_all add: builder_ok_def mk_service_group_index_def)
  have disp: "\<exists>d. sdwan_result_display b (results_get (pb_results b) et i) = Inr d" for et i
    by (rule result_display_total [OF ok(2)])
      (use rs in \<open>auto simp: results_index_find [OF ix(3)] dest!: find_Some_D\<close>)
  have addr: "\<exists>r. build_addr_object_projection b a p = Inr r" if p: "parent_found addr_ops (pb_addrs b) p" for a p
  proof -
    obtain n where n: "get_parent_name addr_ops ca_name (pb_addrs b) p = Inr n" using parent_name_total [OF p] by blast
    obtain d where d: "sdwan_result_display b (results_get (pb_results b) ET_ADDR (ca_id a)) = Inr d" using disp by blast
    show ?thesis unfolding build_addr_object_projection_def canonical_addr_display_def n bind_r_simps d paired_row_def by simp
  qed
  have serv: "\<exists>r. build_service_projection b s p = Inr r" if p: "parent_found service_ops (pb_services b) p" for s p
  proof -
    obtain n where n: "get_parent_name service_ops cs_name (pb_services b) p = Inr n" using parent_name_total [OF p] by blast
    obtain d where d: "sdwan_result_display b (results_get (pb_results b) ET_SERVICE (cs_id s)) = Inr d" using disp by blast
    show ?thesis unfolding build_service_projection_def canonical_service_display_def n bind_r_simps d paired_row_def by simp
  qed
  have "(\<exists>rows. build_canonical_operand_projection b o1 = Inr rows) \<and> (\<exists>es. canonical_operand_summary_entities b o1 = Inr es)"
  proof (cases "cop_role o1 = CR_SRC_ZONE \<or> cop_role o1 = CR_DST_ZONE")
    case True
    with o1 obtain z where z: "z \<in> set (ce_zones e)" "cop_target_zone_id o1 = Some (cz_id z)" by (auto simp: operand_ok_def)
    obtain y where y: "canonical_zone_get (pb_zones b) (cz_id z) = Inr y"
      using zone_index_total [OF zones] z(1) ix(4) by auto
    obtain d where d: "sdwan_result_display b (results_get (pb_results b) ET_ZONE (cz_id y)) = Inr d" using disp by blast
    have "\<exists>rows. build_zone_operand_projection b o1 = Inr rows"
      unfolding build_zone_operand_projection_def z(2) option.case y bind_r_simps paired_row_def d by simp
    with True z(2) y show ?thesis
      by (auto simp: build_canonical_operand_projection_def canonical_operand_summary_entities_def)
  next
    case zone: False
    show ?thesis
    proof (cases "cop_role o1 = CR_SRC_OBJECT \<or> cop_role o1 = CR_DST_OBJECT")
      case True
      with zone o1 have "object_operand_ok addr_ops (ce_addr_objects e) o1" by (auto simp: operand_ok_def)
      from object_operand_total [where f = "build_addr_object_projection b", OF ix(1) this addr] obtain i x where x: "cop_target_object_id o1 = Some i"
        "gi_get addr_ops (pb_addrs b) i = Inr x"
        and rows: "\<exists>rows. (if \<not> go_is_group addr_ops x then bind_r (build_addr_object_projection b x None) (\<lambda>r. Inr [r])
          else bind_r (resolve_group_members addr_ops (pb_addrs b) (go_id addr_ops x))
            (\<lambda>ms. traverse (\<lambda>m. build_addr_object_projection b (gm_obj m) (gm_parent_id m)) ms)) = Inr rows"
        by blast
      from rows have "\<exists>rows. build_addr_operand_projection b o1 = Inr rows"
        unfolding build_addr_operand_projection_def x(1) option.case x(2) bind_r_simps ops_fields .
      moreover have "\<exists>es. canonical_addr_display b x None = Inr es" by (simp add: canonical_addr_display_def get_parent_name_def)
      ultimately show ?thesis using True zone x
        by (auto simp: build_canonical_operand_projection_def canonical_operand_summary_entities_def)
    next
      case False
      with zone have role: "cop_role o1 = CR_SERVICE" by (cases "cop_role o1") auto
      with o1 have "object_operand_ok service_ops (ce_services e) o1" by (auto simp: operand_ok_def)
      from object_operand_total [where f = "build_service_projection b", OF ix(2) this serv] obtain i x where x: "cop_target_object_id o1 = Some i"
        "gi_get service_ops (pb_services b) i = Inr x"
        and rows: "\<exists>rows. (if \<not> go_is_group service_ops x then bind_r (build_service_projection b x None) (\<lambda>r. Inr [r])
          else bind_r (resolve_group_members service_ops (pb_services b) (go_id service_ops x))
            (\<lambda>ms. traverse (\<lambda>m. build_service_projection b (gm_obj m) (gm_parent_id m)) ms)) = Inr rows"
        by blast
      from rows have "\<exists>rows. build_service_operand_projection b o1 = Inr rows"
        unfolding build_service_operand_projection_def x(1) option.case service_group_get_def x(2) bind_r_simps ops_fields
          service_group_members_def .
      moreover have "\<exists>es. canonical_service_display b x None = Inr es" by (simp add: canonical_service_display_def get_parent_name_def)
      ultimately show ?thesis using role x
        by (auto simp: build_canonical_operand_projection_def canonical_operand_summary_entities_def service_group_get_def)
    qed
  qed
  then show "\<exists>rows. build_canonical_operand_projection b o1 = Inr rows"
    "\<exists>es. canonical_operand_summary_entities b o1 = Inr es" by blast+
qed

lemma projection_total:
  assumes groups: "groups_ok addr_ops (ce_addr_objects e)" "groups_ok service_ops (ce_services e)"
    and zones: "distinct (map cz_id (ce_zones e))" and rs: "\<forall>r \<in> set rs. result_ok r \<and> shown_ok cat r"
    and rules: "\<forall>rule \<in> set rules. \<forall>o1 \<in> set (cr_operands rule). operand_ok e o1"
    and srs: "\<forall>sr \<in> set srs. sl_canonical_rule_id sr \<in> cr_id ` set rules"
  shows "\<exists>p. project_rules scope rules e srs rs cat = Inr p"
proof -
  have "\<exists>b. mk_projection_builder scope rules e srs rs cat = Inr b"
    using rs by (intro builder_total groups zones) blast
  then obtain b where b: "mk_projection_builder scope rules e srs rs cat = Inr b" by blast
  note bld = mk_builder_ok [OF b]
  have manual: "\<exists>rows. build_manual_operand_projection b sr role = Inr rows" for sr role
    unfolding build_manual_operand_projection_def traverse_Inr_ex
  proof
    fix r assume "r \<in> set (manual_results b sr role)"
    then have "r \<in> set rs" using bld(1)
      by (auto simp: manual_results_def set_map_filter builder_ok_def dest!: dict_of_Some_D split: if_splits)
    with rs result_display_total [OF bld(5), of "Some r"] obtain d where "sdwan_result_display b (Some r) = Inr d" by blast
    then show "\<exists>y. bind_r (sdwan_result_display b (Some r)) (\<lambda>d. Inr \<lparr>ep_canonical = None, ep_sdwan = Some d\<rparr>) = Inr y" by simp
  qed
  have "\<exists>v. build_rule_views b sr = Inr v" if sr: "sr \<in> set srs" for sr
  proof -
    have "map_of (dict_of cr_id rules) (sl_canonical_rule_id sr) \<noteq> None"
      using srs sr unfolding dict_of_None_iff by (metis imageE)
    then obtain rule where rule: "map_of (dict_of cr_id rules) (sl_canonical_rule_id sr) = Some rule" by blast
    then have ops: "\<forall>o1 \<in> set (cr_operands rule). operand_ok e o1" using rules by (auto dest: dict_of_Some_D)
    note rows = operand_rows_total [OF bld(1,5) zones rs]
    have role: "\<exists>rows. build_role_projection b rule sr cr mr = Inr rows" for cr mr
    proof -
      have "\<exists>rss. traverse (build_canonical_operand_projection b) (filter (\<lambda>o1. cop_role o1 = cr) (cr_operands rule)) = Inr rss"
        unfolding traverse_Inr_ex using rows(1) ops by simp
      with manual [of sr mr] show ?thesis by (auto simp: build_role_projection_def)
    qed
    have "\<exists>d. build_rule_details b sr rule = Inr d"
      using role [of CR_SRC_ZONE OR_SRC_ZONE] role [of CR_DST_ZONE OR_DST_ZONE] role [of CR_SRC_OBJECT OR_SRC_ADDR_OBJECT]
        role [of CR_DST_OBJECT OR_DST_ADDR_OBJECT] role [of CR_SERVICE OR_SERVICE]
      by (elim exE) (simp add: build_rule_details_def)
    moreover have "\<exists>c. build_canonical_rule_row b rule = Inr c"
    proof -
      have "\<exists>es. bind_r (canonical_operand_summary_entities b o1) (\<lambda>es. Inr (cop_role o1, es)) = Inr es"
        if "o1 \<in> set (cr_operands rule)" for o1
        using rows(2) [of o1] ops that by auto
      then have "\<exists>xs. traverse (\<lambda>o1. bind_r (canonical_operand_summary_entities b o1) (\<lambda>es. Inr (cop_role o1, es)))
          (cr_operands rule) = Inr xs"
        unfolding traverse_Inr_ex by blast
      then show ?thesis by (auto simp: build_canonical_rule_row_def)
    qed
    ultimately show ?thesis
      using rule bld(3) by (auto simp: build_rule_views_def pb_get_canonical_rule_def)
  qed
  then have "\<exists>vs. traverse (build_rule_views b) (sort_key sl_priority (pb_mapping_rules b)) = Inr vs"
    unfolding traverse_Inr_ex bld(4) by simp
  with b show ?thesis by (auto simp: project_rules_def build_projection_def)
qed


section \<open>After a mapping\<close>

lemma any_service_sub: "set (find_builtin_any_services (mk_services_index ss)) \<subseteq> set ss"
  using distinct_by_sub [of sv_id ss]
  by (auto simp: find_builtin_any_services_def find_services_name_exact dest!: subsetD [OF distinct_by_sub])

lemma matched_in_catalog:
  assumes "mk_addr_index (fc_addr_objs cat) = Inr ai"
    and "(et, i, cs) \<in> set (matched_objects e (mk_zones_index (fc_zones cat)) ai (mk_services_index (fc_services cat)))"
    and "c \<in> set cs"
  shows "in_catalog cat et (mp_sdwan_entity_id c)"
proof -
  let ?zi = "mk_zones_index (fc_zones cat)" and ?si = "mk_services_index (fc_services cat)"
  have zone: "set (candidate_ids (match_zone ?zi z)) \<subseteq> zn_id ` set (fc_zones cat)" for z
    unfolding match_zone_ids using distinct_by_sub [of zn_id "fc_zones cat"] by auto
  have addr: "set (candidate_ids (match_addr ai a)) \<subseteq> ao_id ` set (fc_addr_objs cat)" for a
  proof (cases "ca_kind a = CK_ANY_ADDR")
    case True
    then show ?thesis unfolding match_any_ids [OF assms(1) True]
      using distinct_by_sub [of ao_id "fc_addr_objs cat"] by auto
  next
    case False
    have "set (objects_with (canonical_value a) (fc_addr_objs cat)) \<subseteq> set (fc_addr_objs cat)"
      using distinct_by_sub [of ao_id "fc_addr_objs cat"] by (auto simp: objects_with_def split: option.splits)
    then show ?thesis unfolding match_addr_ids [OF assms(1) False] by auto
  qed
  have serv: "set (candidate_ids (match_service ?si s)) \<subseteq> sv_id ` set (fc_services cat)" for s
  proof (cases "cs_kind s = SK_ANY_SERVICE")
    case True
    then have "set (candidate_ids (match_service ?si s)) = sv_id ` set (find_builtin_any_services ?si)"
      by (simp add: match_service_def match_any_service_def finalize_drafts)
    then show ?thesis using any_service_sub [of "fc_services cat"] by auto
  next
    case False
    show ?thesis unfolding match_service_ids [OF False] using distinct_by_sub [of sv_id "fc_services cat"] by auto
  qed
  from assms(2,3) show ?thesis
    unfolding matched_objects_def using zone addr serv
    by (auto simp: in_catalog_def image_subset_iff)
qed

lemma built_shown:
  assumes "build_results ids clock sc e cat = Inr rs" "r \<in> set rs"
  shows "shown_ok cat r"
  using assms
proof (elim build_results_member)
  fix ai i et cid cs
  assume ai: "mk_addr_index (fc_addr_objs cat) = Inr ai"
    and m: "(et, cid, cs) \<in> set (matched_objects e (mk_zones_index (fc_zones cat)) ai (mk_services_index (fc_services cat)))"
    and r: "r = build_result (ids i) (clock i) sc et cid cs"
  have "in_catalog cat et (mp_sdwan_entity_id (hd cs))" if "length cs = 1"
    using matched_in_catalog [OF ai m] that by (cases cs) auto
  then show "shown_ok cat r" unfolding r shown_ok_def by (simp add: build_result_status)
qed

lemma built_distinct:
  assumes "build_results ids clock sc e cat = Inr rs" "inj (\<lambda>i. ids i 0)" "distinct (scope_targets e)"
  shows "results_distinct rs"
proof -
  have "distinct (map (\<lambda>r. (me_entity_type r, canonical_entity_id r)) rs)"
    unfolding build_results_targets [OF assms(1)] using assms(3) by (auto simp: distinct_map inj_on_def)
  then have "inj_on (\<lambda>r. (me_entity_type r, canonical_entity_id r)) (set rs)" by (simp add: distinct_map)
  then show ?thesis
    using build_results_ids [OF assms(1,2)] unfolding results_distinct_def by (auto dest: inj_onD)
qed

lemma built_linked:
  assumes "build_results ids clock sc e cat = Inr rs" "inj (\<lambda>i. ids i 0)"
    and "build_scope_rules rids sc crs e rs = Inr srs" "distinct (map cr_id crs)" "sr \<in> set srs"
  shows "\<exists>rule. map_of (dict_of cr_id crs) (sl_canonical_rule_id sr) = Some rule \<and> rule_linked e rs rule sr"
proof -
  from list_all2_member(2) [OF build_scope_rules_exact [OF built_keyed [OF assms(1,2)] assms(3)] assms(5)]
  obtain rule where rule: "rule \<in> set crs" "rule_built e rs sc rule sr" by blast
  have "map_of (dict_of cr_id crs) (cr_id rule) = Some rule" by (rule dict_of_distinct [OF assms(4) rule(1)])
  moreover have "rule_linked e rs rule sr"
    using rule(2) built_rules_operands [OF assms(3,5)] built_rules_linked(2) [OF assms(3,5)]
    by (simp add: rule_linked_def rule_built_def)
  ultimately show ?thesis using rule(2) by (auto simp: rule_built_def)
qed

text \<open>An object assigned by hand keeps the link to the canonical rule.\<close>

lemma linked_with_manual:
  assumes "rule_linked e rs rule sr" "sl_operands sr = Some os" "\<nexists>i. canonical_entity_id z = Inr i"
    and "so_result_id o1 = me_id z" "me_id z \<notin> me_id ` set rs"
  shows "rule_linked e (rs @ [z]) rule (sr\<lparr>sl_operands := Some (os @ [o1])\<rparr>)"
proof -
  have os: "sl_operand_list sr = os" using assms(2) by (simp add: sl_operand_list_def)
  have "(role, et, i) \<in> scope_rule_refs (rs @ [z]) (sr\<lparr>sl_operands := Some (os @ [o1])\<rparr>) \<longleftrightarrow>
      (role, et, i) \<in> scope_rule_refs rs sr" for role et i
  proof
    assume "(role, et, i) \<in> scope_rule_refs (rs @ [z]) (sr\<lparr>sl_operands := Some (os @ [o1])\<rparr>)"
    then obtain o2 r where r: "role = so_role o2" "et = me_entity_type r" "o2 \<in> set (os @ [o1])" "r \<in> set (rs @ [z])"
      "me_id r = so_result_id o2" "canonical_entity_id r = Inr i"
      by (auto simp: scope_rule_refs_def sl_operand_list_def)
    with assms(3) have "r \<in> set rs" by auto
    moreover from this r(3,5) assms(4,5) have "o2 \<in> set os" by (metis imageI set_append Un_iff empty_iff list.set(1,2) insert_iff)
    ultimately show "(role, et, i) \<in> scope_rule_refs rs sr" using r by (auto simp: scope_rule_refs_def os)
  next
    assume "(role, et, i) \<in> scope_rule_refs rs sr"
    then obtain o2 r where "role = so_role o2" "et = me_entity_type r" "o2 \<in> set os" "r \<in> set rs"
      "me_id r = so_result_id o2" "canonical_entity_id r = Inr i"
      by (auto simp: scope_rule_refs_def os)
    then show "(role, et, i) \<in> scope_rule_refs (rs @ [z]) (sr\<lparr>sl_operands := Some (os @ [o1])\<rparr>)"
      unfolding scope_rule_refs_def mem_Collect_eq
      by (intro exI [of _ o2] exI [of _ r] exI [of _ i]) (simp add: sl_operand_list_def)
  qed
  then have "scope_rule_refs (rs @ [z]) (sr\<lparr>sl_operands := Some (os @ [o1])\<rparr>) = scope_rule_refs rs sr" by auto
  with assms(1,4) show ?thesis by (simp add: rule_linked_def os)
qed

end
