(* ===== verification/Projection_Properties.thy ===== *)
theory Projection_Properties
  imports Projection_Total Mapping_Run_Properties
begin

text \<open>
  The properties of the projection of a mapping scope: it is built for every consistent scope, and
  what it calls mapped is what the execute module reads.
\<close>

section \<open>The sample\<close>

lemma sample_projection_facts:
  "\<forall>r \<in> set sample_results. result_ok r" "\<forall>r \<in> set sample_results. result_ok r \<and> shown_ok sample_full_catalog r"
  "results_distinct sample_results"
  using build_results_all_ok [OF sample_built] built_shown [OF sample_built]
    built_distinct [OF sample_built sample_ids_inj] sample_targets by simp_all

lemma sample_linked:
  assumes "build_scope_rules sample_rule_ids 50 [sample_can_rule] sample_entities sample_results = Inr srs"
  shows "\<forall>sr \<in> set srs. \<exists>rule. map_of (dict_of cr_id [sample_can_rule]) (sl_canonical_rule_id sr) = Some rule \<and>
    rule_linked sample_entities sample_results rule sr"
  using built_linked [OF sample_built sample_ids_inj assms] by simp

definition sample_projection_scope :: mapping_scope where
  "sample_projection_scope = create_scope_header 50 1 ''scope'' 3 3 ''v'' ''d'' RP_LOCAL ''f''"

definition sample_scope_rules :: "scope_rule list" where
  "sample_scope_rules = projr (build_scope_rules sample_rule_ids 50 [sample_can_rule] sample_entities sample_results)"

lemma sample_scope_rules_built:
  "build_scope_rules sample_rule_ids 50 [sample_can_rule] sample_entities sample_results = Inr sample_scope_rules"
  using sample_rules_built by (auto simp: sample_scope_rules_def)

lemma sample_projected:
  "\<exists>p. project_rules sample_projection_scope [sample_can_rule] sample_entities sample_scope_rules sample_results sample_full_catalog = Inr p"
  by (rule projection_total [OF sample_groups_ok _ sample_projection_facts(2) sample_operands_ok])
    (use sample_linked [OF sample_scope_rules_built] in \<open>auto simp: sample_entities_def dest!: bspec dict_of_Some_D\<close>)

lemma sample_scope_rules_one: "\<exists>sr. sample_scope_rules = [sr]"
proof -
  have "length sample_scope_rules = Suc 0"
    using list_all2_lengthD [OF build_scope_rules_exact [OF sample_keyed sample_scope_rules_built]] by simp
  then show ?thesis by (simp add: length_Suc_conv)
qed


section \<open>The properties\<close>

text \<open>C31 The projection is never refused for a consistent scope: if group links point to groups, zone
  ids are unique, the operands of the rules name objects of the snapshot (a group nests at most three
  deep and is not empty), every scope rule has its canonical rule, and the catalog still has what the
  results select, then all three views are built.  The fields of a view are those of the scope rules in
  order of priority, and each mapped row repeats its details.\<close>

theorem projection_built:
  assumes "groups_ok addr_ops (ce_addr_objects e)" "groups_ok service_ops (ce_services e)"
    and "distinct (map cz_id (ce_zones e))" "\<forall>rule \<in> set rules. \<forall>o1 \<in> set (cr_operands rule). operand_ok e o1"
    and "\<forall>sr \<in> set srs. sl_canonical_rule_id sr \<in> cr_id ` set rules"
    and "\<forall>r \<in> set rs. result_ok r \<and> shown_ok cat r" "distinct (map sl_id srs)"
  shows "\<exists>p. project_rules scope rules e srs rs cat = Inr p \<and>
    map cw_canonical_rule_id (pj_canonical_rules p) = map sl_canonical_rule_id (sort_key sl_priority srs) \<and>
    map mw_mapping_scope_rule_id (pj_mapped_rules p) = map sl_id (sort_key sl_priority srs) \<and>
    (\<forall>row \<in> set (pj_mapped_rules p). \<exists>d.
       map_of (pj_details_by_rule_id p) (mw_mapping_scope_rule_id row) = Some d \<and>
       mw_status row = rd_status d \<and> (\<forall>role. mw_role row role = extract_sdwan_entities (rd_role d role)))"
  using projection_total [OF assms(1-3,6,4,5), of scope] projection_views [OF _ assms(7)] by (elim exE) blast

theorem projection_built_witness:
  "\<exists>p. project_rules sample_projection_scope [sample_can_rule] sample_entities sample_scope_rules sample_results
     sample_full_catalog = Inr p \<and>
   map mw_mapping_scope_rule_id (pj_mapped_rules p) = map sl_id (sort_key sl_priority sample_scope_rules)"
proof -
  have "\<forall>sr \<in> set sample_scope_rules. sl_canonical_rule_id sr \<in> cr_id ` set [sample_can_rule]"
    using sample_linked [OF sample_scope_rules_built] by (auto dest!: bspec dict_of_Some_D)
  moreover obtain sr where one: "sample_scope_rules = [sr]" using sample_scope_rules_one by blast
  have "distinct (map sl_id sample_scope_rules)" unfolding one by simp
  moreover have "distinct (map cz_id (ce_zones sample_entities))" by (simp add: sample_entities_def)
  ultimately show ?thesis
    using projection_built [OF sample_groups_ok _ sample_operands_ok _ sample_projection_facts(2),
      of sample_scope_rules sample_projection_scope] by blast
qed

text \<open>C9 The interface calls a scope mapped exactly when the execute module accepts it: the reader
  returns the rules of a scope if and only if every result is matched and every row of the projection
  has the status MAPPED, and then each row shows in every role exactly the SD-WAN ids that are read.
  The scope rules are those of a mapping, with or without zones assigned by hand: their operands name
  results of the scope, those of canonical objects the objects of the canonical rule.\<close>

theorem projection_agrees_with_reader:
  assumes "project_rules scope rules e srs rs cat = Inr p"
    and "\<forall>sr \<in> set srs. \<exists>rule. map_of (dict_of cr_id rules) (sl_canonical_rule_id sr) = Some rule \<and>
      rule_linked e rs rule sr"
    and "results_distinct rs" "\<forall>r \<in> set rs. result_ok r"
  shows "((\<exists>ms. read_rules sid srs rs = Inr ms) \<longleftrightarrow>
      (\<forall>r \<in> set rs. me_result_status r = RS_MATCHED) \<and> (\<forall>row \<in> set (pj_mapped_rules p). mw_status row = MS_MAPPED)) \<and>
    (\<forall>ms. read_rules sid srs rs = Inr ms \<longrightarrow> list_all2 (\<lambda>row m. mw_mapping_scope_rule_id row = md_id m \<and>
      (\<forall>role. xd_sdwan_id ` set (mw_role row role) = Some ` set (md_role_ids m role))) (pj_mapped_rules p) ms)"
  using projection_reader [OF assms] by blast

theorem projection_agrees_with_reader_witness:
  "\<exists>p. project_rules sample_projection_scope [sample_can_rule] sample_entities sample_scope_rules sample_results
     sample_full_catalog = Inr p \<and>
   (map mw_status (pj_mapped_rules p) = [MS_MAPPED] \<longleftrightarrow>
     (\<exists>ms. read_rules 50 sample_scope_rules sample_results = Inr ms))"
proof -
  obtain p where p: "project_rules sample_projection_scope [sample_can_rule] sample_entities sample_scope_rules
      sample_results sample_full_catalog = Inr p" using sample_projected by blast
  obtain b vs where "list_all2 (views_of b) (sort_key sl_priority sample_scope_rules) vs"
    "pj_mapped_rules p = map (fst \<circ> snd) vs"
    using p by (rule project_rules_views)
  then obtain row where row: "pj_mapped_rules p = [row]"
    by (metis (no_types, lifting) sample_scope_rules_one list_all2_lengthD length_sort length_map length_Suc_conv length_0_conv)
  have "(\<exists>ms. read_rules 50 sample_scope_rules sample_results = Inr ms) \<longleftrightarrow> mw_status row = MS_MAPPED"
    using projection_agrees_with_reader [OF p sample_linked [OF sample_scope_rules_built] sample_projection_facts(3,1)]
      sample_all_matched row by simp
  with p row show ?thesis by auto
qed

end
