(* ===== verification/Canonical_Domain.thy ===== *)
theory Canonical_Domain
  imports Mapping_Domain
begin

text \<open>
  The canonical module's entities (\<open>src/src/app/modules/canonical/domain\<close>), its projections for
  readers (\<open>application/dto.py\<close>) and the mappers between the two (\<open>application/mappers.py\<close>).

  A factory method takes the new id, and the present time where it stores one.
\<close>

section \<open>Enums\<close>

datatype snapshot_status = SS_PENDING | SS_SUCCESS | SS_FAILED

datatype object_family = OF_ADDR | OF_SERVICE

datatype object_kind =
  OK_HOST | OK_SUBNET | OK_RANGE | OK_FQDN | OK_ANY_ADDR | OK_UNRESOLVED_ADDR
  | OK_TCP | OK_UDP | OK_ICMP | OK_IP_PROTO | OK_ANY_SERVICE | OK_UNRESOLVED_SERVICE
  | OK_ADDR_GROUP | OK_SERVICE_GROUP

datatype rule_role = RO_SRC_ZONE | RO_DST_ZONE | RO_SRC_OBJECT | RO_DST_OBJECT | RO_SERVICE

fun object_family_value :: "object_family \<Rightarrow> string" where
  "object_family_value OF_ADDR = ''addr''"
| "object_family_value OF_SERVICE = ''service''"

fun object_kind_value :: "object_kind \<Rightarrow> string" where
  "object_kind_value OK_HOST = ''host''"
| "object_kind_value OK_SUBNET = ''subnet''"
| "object_kind_value OK_RANGE = ''range''"
| "object_kind_value OK_FQDN = ''fqdn''"
| "object_kind_value OK_ANY_ADDR = ''any_addr''"
| "object_kind_value OK_UNRESOLVED_ADDR = ''unresolved_addr''"
| "object_kind_value OK_TCP = ''tcp''"
| "object_kind_value OK_UDP = ''udp''"
| "object_kind_value OK_ICMP = ''icmp''"
| "object_kind_value OK_IP_PROTO = ''ip_proto''"
| "object_kind_value OK_ANY_SERVICE = ''any_service''"
| "object_kind_value OK_UNRESOLVED_SERVICE = ''unresolved_service''"
| "object_kind_value OK_ADDR_GROUP = ''addr_group''"
| "object_kind_value OK_SERVICE_GROUP = ''service_group''"

fun rule_role_value :: "rule_role \<Rightarrow> string" where
  "rule_role_value RO_SRC_ZONE = ''src_zone''"
| "rule_role_value RO_DST_ZONE = ''dst_zone''"
| "rule_role_value RO_SRC_OBJECT = ''src_object''"
| "rule_role_value RO_DST_OBJECT = ''dst_object''"
| "rule_role_value RO_SERVICE = ''service''"


section \<open>Entities\<close>

record canonical_snapshot =
  sn_id :: uuid
  sn_source_snapshot_id :: uuid
  sn_normalizer_code :: string
  sn_normalizer_version :: string
  sn_status :: snapshot_status
  sn_zones_total :: nat
  sn_objects_total :: nat
  sn_rules_total :: nat
  sn_issues_total :: nat
  sn_created_at :: timestamp

record canonical_zone =
  kz_id :: uuid
  kz_snapshot_id :: uuid
  kz_zone_key :: string
  kz_name :: string
  kz_direction_hint :: "string option"
  kz_description :: "string option"

record canonical_object =
  ko_id :: uuid
  ko_snapshot_id :: uuid
  ko_object_key :: string
  ko_object_family :: object_family
  ko_object_kind :: object_kind
  ko_name :: string
  ko_ip_version :: "int option"
  ko_cidr :: "string option"
  ko_range_start :: "string option"
  ko_range_end :: "string option"
  ko_fqdn :: "string option"
  ko_protocol :: "string option"
  ko_port_from :: "int option"
  ko_port_to :: "int option"
  ko_icmp_type :: "int option"
  ko_icmp_code :: "int option"
  ko_description :: "string option"

record canonical_member =
  km_id :: uuid
  km_parent_object_id :: uuid
  km_child_object_id :: uuid
  km_position :: int

record canonical_rule =
  kr_id :: uuid
  kr_snapshot_id :: uuid
  kr_rule_key :: string
  kr_name :: string
  kr_action :: string
  kr_enabled :: bool
  kr_priority :: int
  kr_section :: "string option"
  kr_description :: "string option"

record canonical_operand =
  kp_id :: uuid
  kp_rule_id :: uuid
  kp_operand_role :: rule_role
  kp_target_zone_id :: "uuid option"
  kp_target_object_id :: "uuid option"
  kp_position :: int

record canonical_issue =
  ki_id :: uuid
  ki_snapshot_id :: uuid
  ki_entity_type :: string
  ki_entity_key :: "string option"
  ki_issue_code :: string
  ki_message :: string
  ki_source_line_start :: "int option"
  ki_source_line_end :: "int option"
  ki_created_at :: timestamp

definition create_canonical_snapshot ::
  "uuid \<Rightarrow> timestamp \<Rightarrow> uuid \<Rightarrow> string \<Rightarrow> string \<Rightarrow> snapshot_status \<Rightarrow> canonical_snapshot" where
  "create_canonical_snapshot i now source ncode version status =
     \<lparr>sn_id = i, sn_source_snapshot_id = source, sn_normalizer_code = ncode, sn_normalizer_version = version,
      sn_status = status, sn_zones_total = 0, sn_objects_total = 0, sn_rules_total = 0, sn_issues_total = 0,
      sn_created_at = now\<rparr>"


section \<open>Projections\<close>

record zone_dto =
  zd_id :: uuid
  zd_snapshot_id :: uuid
  zd_zone_key :: string
  zd_name :: string
  zd_direction_hint :: "string option"
  zd_description :: "string option"

record object_dto =
  od_id :: uuid
  od_snapshot_id :: uuid
  od_object_key :: string
  od_object_family :: object_family
  od_object_kind :: object_kind
  od_name :: string
  od_parent_id :: "uuid option"
  od_parent_ids :: "uuid list"
  od_ip_version :: "int option"
  od_cidr :: "string option"
  od_range_start :: "string option"
  od_range_end :: "string option"
  od_fqdn :: "string option"
  od_protocol :: "string option"
  od_port_from :: "int option"
  od_port_to :: "int option"
  od_icmp_type :: "int option"
  od_icmp_code :: "int option"
  od_description :: "string option"

record zone_summary =
  zs_id :: uuid
  zs_zone_key :: string
  zs_name :: string

record object_summary =
  os_id :: uuid
  os_object_key :: string
  os_object_family :: object_family
  os_object_kind :: object_kind
  os_name :: string

record operand_dto =
  pd_id :: uuid
  pd_rule_id :: uuid
  pd_operand_role :: rule_role
  pd_target_zone_id :: "uuid option"
  pd_target_object_id :: "uuid option"
  pd_position :: int

record operand_hydrated_dto = operand_dto +
  pd_target_zone :: "zone_summary option"
  pd_target_object :: "object_summary option"

record 'o rule_dto =
  ru_id :: uuid
  ru_snapshot_id :: uuid
  ru_rule_key :: string
  ru_name :: string
  ru_action :: string
  ru_enabled :: bool
  ru_priority :: int
  ru_section :: "string option"
  ru_description :: "string option"
  ru_operands :: "'o list option"

record pagination_dto =
  pg_limit :: "nat option"
  pg_offset :: "nat option"
  pg_rules_total :: nat


section \<open>Mappers\<close>

definition zone_to_dto :: "canonical_zone \<Rightarrow> zone_dto" where
  "zone_to_dto z =
     \<lparr>zd_id = kz_id z, zd_snapshot_id = kz_snapshot_id z, zd_zone_key = kz_zone_key z, zd_name = kz_name z,
      zd_direction_hint = kz_direction_hint z, zd_description = kz_description z\<rparr>"

definition object_to_dto :: "canonical_object \<Rightarrow> uuid option \<Rightarrow> uuid list \<Rightarrow> object_dto" where
  "object_to_dto x parent_id parent_ids =
     \<lparr>od_id = ko_id x, od_snapshot_id = ko_snapshot_id x, od_object_key = ko_object_key x,
      od_object_family = ko_object_family x, od_object_kind = ko_object_kind x, od_name = ko_name x,
      od_parent_id = (case parent_id of Some p \<Rightarrow> Some p
        | None \<Rightarrow> (case parent_ids of [] \<Rightarrow> None | p # _ \<Rightarrow> Some p)),
      od_parent_ids = parent_ids, od_ip_version = ko_ip_version x, od_cidr = ko_cidr x,
      od_range_start = ko_range_start x, od_range_end = ko_range_end x, od_fqdn = ko_fqdn x,
      od_protocol = ko_protocol x, od_port_from = ko_port_from x, od_port_to = ko_port_to x,
      od_icmp_type = ko_icmp_type x, od_icmp_code = ko_icmp_code x, od_description = ko_description x\<rparr>"

definition zone_summary_to_dto :: "canonical_zone \<Rightarrow> zone_summary" where
  "zone_summary_to_dto z = \<lparr>zs_id = kz_id z, zs_zone_key = kz_zone_key z, zs_name = kz_name z\<rparr>"

definition object_summary_to_dto :: "canonical_object \<Rightarrow> object_summary" where
  "object_summary_to_dto x =
     \<lparr>os_id = ko_id x, os_object_key = ko_object_key x, os_object_family = ko_object_family x,
      os_object_kind = ko_object_kind x, os_name = ko_name x\<rparr>"

definition operand_to_dto :: "canonical_operand \<Rightarrow> operand_dto" where
  "operand_to_dto p =
     \<lparr>pd_id = kp_id p, pd_rule_id = kp_rule_id p, pd_operand_role = kp_operand_role p,
      pd_target_zone_id = kp_target_zone_id p, pd_target_object_id = kp_target_object_id p,
      pd_position = kp_position p\<rparr>"

definition operands_by_rule :: "canonical_operand list \<Rightarrow> (uuid \<times> operand_dto list) list" where
  "operands_by_rule ps = foldl (\<lambda>d p. group_append (kp_rule_id p) (operand_to_dto p) d) [] ps"

definition rule_to_dto :: "canonical_rule \<Rightarrow> 'o list option \<Rightarrow> 'o rule_dto" where
  "rule_to_dto r operands =
     \<lparr>ru_id = kr_id r, ru_snapshot_id = kr_snapshot_id r, ru_rule_key = kr_rule_key r, ru_name = kr_name r,
      ru_action = kr_action r, ru_enabled = kr_enabled r, ru_priority = kr_priority r,
      ru_section = kr_section r, ru_description = kr_description r, ru_operands = operands\<rparr>"

lemma operands_by_rule_get:
  "dict_get (operands_by_rule ps) i [] = map operand_to_dto (filter (\<lambda>p. kp_rule_id p = i) ps)"
proof -
  have "dict_get (foldl (\<lambda>d p. group_append (kp_rule_id p) (operand_to_dto p) d) d ps) i [] =
      dict_get d i [] @ map operand_to_dto (filter (\<lambda>p. kp_rule_id p = i) ps)" for d
    by (induction ps arbitrary: d) (auto simp: dict_simps)
  then show ?thesis by (simp add: operands_by_rule_def)
qed

end
