(* ===== verification/Canonical_Tables.thy ===== *)
theory Canonical_Tables
  imports Canonical_Domain Mapping_Matchers
begin

text \<open>
  The tables of the canonical module and its repositories
  (\<open>src/src/app/modules/canonical/adapters/db\<close>, with the ports of \<open>ports\<close>).

  A table is the list of its rows.  A \<open>select\<close> is read as SQL defines it: \<open>where\<close> filters,
  \<open>join\<close> pairs, \<open>order_by\<close> sorts stably; rows that a statement does not order come in the order
  of the table, and the tables of a database are any lists, so nothing rests on that order.  A row is
  kept as its entity (the mappers translate enum values to text and back).  Text is ordered by the
  collation of the database, a parameter \<open>collate\<close>.

  An insert raises when a value does not fit the type of its column in \<open>models.py\<close>
  (\<open>String(n)\<close>, \<open>Text\<close>, \<open>Integer\<close>, \<open>SmallInteger\<close>, \<open>INET\<close>: the \<open>fits\<close> predicates) or
  violates a constraint (primary key, foreign key, uniqueness, one target per operand); where a
  statement does both, the type is reported.  Which texts are values of \<open>INET\<close>, and the text of the
  address that such a value reads back as, are PostgreSQL's and the driver's: the function
  \<open>db_inet\<close> of a database.  (PostgreSQL cuts a text that exceeds \<open>String(n)\<close> by spaces only; here it
  does not fit.)
\<close>

record canonical_db =
  db_sources :: "uuid list"
  db_snapshots :: "canonical_snapshot list"
  db_zones :: "canonical_zone list"
  db_objects :: "canonical_object list"
  db_members :: "canonical_member list"
  db_rules :: "canonical_rule list"
  db_operands :: "canonical_operand list"
  db_issues :: "canonical_issue list"
  db_inet :: "string \<Rightarrow> string option"

section \<open>Column types\<close>

definition text_fits :: "string \<Rightarrow> bool" where
  "text_fits s \<longleftrightarrow> CHR 0x00 \<notin> set s"

definition string_fits :: "nat \<Rightarrow> string \<Rightarrow> bool" where
  "string_fits n s \<longleftrightarrow> length s \<le> n \<and> text_fits s"

definition integer_fits :: "int \<Rightarrow> bool" where
  "integer_fits x \<longleftrightarrow> - (2 ^ 31) \<le> x \<and> x < 2 ^ 31"

definition small_integer_fits :: "int \<Rightarrow> bool" where
  "small_integer_fits x \<longleftrightarrow> - (2 ^ 15) \<le> x \<and> x < 2 ^ 15"

definition null_or :: "('a \<Rightarrow> bool) \<Rightarrow> 'a option \<Rightarrow> bool" where
  "null_or f x \<longleftrightarrow> (case x of None \<Rightarrow> True | Some v \<Rightarrow> f v)"

definition counts_fit :: "nat \<Rightarrow> nat \<Rightarrow> nat \<Rightarrow> nat \<Rightarrow> bool" where
  "counts_fit zones objects rules issues \<longleftrightarrow> list_all (\<lambda>n. integer_fits (int n)) [zones, objects, rules, issues]"

definition snapshot_fits :: "canonical_snapshot \<Rightarrow> bool" where
  "snapshot_fits s \<longleftrightarrow> string_fits 64 (sn_normalizer_code s) \<and> string_fits 32 (sn_normalizer_version s) \<and>
     counts_fit (sn_zones_total s) (sn_objects_total s) (sn_rules_total s) (sn_issues_total s)"

definition zone_fits :: "canonical_zone \<Rightarrow> bool" where
  "zone_fits z \<longleftrightarrow> string_fits 255 (kz_zone_key z) \<and> string_fits 255 (kz_name z) \<and>
     null_or (string_fits 16) (kz_direction_hint z) \<and> null_or text_fits (kz_description z)"

definition inet_fits :: "(string \<Rightarrow> string option) \<Rightarrow> string \<Rightarrow> bool" where
  "inet_fits inet s \<longleftrightarrow> inet s \<noteq> None"

definition object_fits :: "(string \<Rightarrow> string option) \<Rightarrow> canonical_object \<Rightarrow> bool" where
  "object_fits inet x \<longleftrightarrow>
     string_fits 255 (ko_object_key x) \<and> string_fits 255 (ko_name x) \<and>
     null_or small_integer_fits (ko_ip_version x) \<and> null_or (string_fits 64) (ko_cidr x) \<and>
     null_or (inet_fits inet) (ko_range_start x) \<and> null_or (inet_fits inet) (ko_range_end x) \<and>
     null_or (string_fits 255) (ko_fqdn x) \<and> null_or (string_fits 16) (ko_protocol x) \<and>
     null_or integer_fits (ko_port_from x) \<and> null_or integer_fits (ko_port_to x) \<and>
     null_or small_integer_fits (ko_icmp_type x) \<and> null_or small_integer_fits (ko_icmp_code x) \<and>
     null_or text_fits (ko_description x)"

definition member_fits :: "canonical_member \<Rightarrow> bool" where
  "member_fits m \<longleftrightarrow> integer_fits (km_position m)"

definition rule_fits :: "canonical_rule \<Rightarrow> bool" where
  "rule_fits r \<longleftrightarrow>
     string_fits 255 (kr_rule_key r) \<and> string_fits 255 (kr_name r) \<and> string_fits 32 (kr_action r) \<and>
     integer_fits (kr_priority r) \<and> null_or (string_fits 64) (kr_section r) \<and> null_or text_fits (kr_description r)"

definition operand_fits :: "canonical_operand \<Rightarrow> bool" where
  "operand_fits p \<longleftrightarrow> integer_fits (kp_position p)"

definition issue_fits :: "canonical_issue \<Rightarrow> bool" where
  "issue_fits i \<longleftrightarrow>
     string_fits 32 (ki_entity_type i) \<and> null_or (string_fits 255) (ki_entity_key i) \<and>
     string_fits 64 (ki_issue_code i) \<and> text_fits (ki_message i) \<and>
     null_or integer_fits (ki_source_line_start i) \<and> null_or integer_fits (ki_source_line_end i)"

text \<open>A stored range reads back as addresses.\<close>

definition inet_row :: "(string \<Rightarrow> string option) \<Rightarrow> canonical_object \<Rightarrow> canonical_object" where
  "inet_row inet x =
     x\<lparr>ko_range_start := Option.bind (ko_range_start x) inet, ko_range_end := Option.bind (ko_range_end x) inet\<rparr>"

definition check_types :: "('a \<Rightarrow> bool) \<Rightarrow> 'a list \<Rightarrow> string \<Rightarrow> exc + unit" where
  "check_types f xs table = (if list_all f xs then Inr () else Inl (DataError table))"


section \<open>Inserts\<close>

definition fresh_ids :: "('a \<Rightarrow> uuid) \<Rightarrow> 'a list \<Rightarrow> 'a list \<Rightarrow> bool" where
  "fresh_ids f new old \<longleftrightarrow> distinct (map f new) \<and> list_all (\<lambda>x. f x \<notin> f ` set old) new"

definition snapshot_exists :: "canonical_db \<Rightarrow> uuid \<Rightarrow> bool" where
  "snapshot_exists db i \<longleftrightarrow> list_ex (\<lambda>s. sn_id s = i) (db_snapshots db)"

definition check_constraint :: "bool \<Rightarrow> string \<Rightarrow> exc + unit" where
  "check_constraint b table = (if b then Inr () else Inl (IntegrityError table))"

definition snapshot_key :: "canonical_snapshot \<Rightarrow> uuid \<times> string \<times> string" where
  "snapshot_key s = (sn_source_snapshot_id s, sn_normalizer_code s, sn_normalizer_version s)"

definition save_snapshot :: "timestamp \<Rightarrow> canonical_snapshot \<Rightarrow> canonical_db \<Rightarrow> exc + canonical_db" where
  "save_snapshot now s db =
     bind_r (check_types snapshot_fits [s] ''canonical_snapshot'') (\<lambda>_.
     bind_r (check_constraint
       (fresh_ids sn_id [s] (db_snapshots db) \<and> sn_source_snapshot_id s \<in> set (db_sources db) \<and>
        list_all (\<lambda>t. snapshot_key t \<noteq> snapshot_key s) (db_snapshots db)) ''canonical_snapshot'')
       (\<lambda>_. Inr (db\<lparr>db_snapshots := db_snapshots db @ [s\<lparr>sn_created_at := now\<rparr>]\<rparr>)))"

definition save_zones :: "canonical_zone list \<Rightarrow> canonical_db \<Rightarrow> exc + canonical_db" where
  "save_zones zs db =
     bind_r (check_types zone_fits zs ''canonical_zone'') (\<lambda>_.
     bind_r (check_constraint
       (fresh_ids kz_id zs (db_zones db) \<and> list_all (\<lambda>z. snapshot_exists db (kz_snapshot_id z)) zs) ''canonical_zone'')
       (\<lambda>_. Inr (db\<lparr>db_zones := db_zones db @ zs\<rparr>)))"

definition save_object_rows :: "canonical_object list \<Rightarrow> canonical_db \<Rightarrow> exc + canonical_db" where
  "save_object_rows xs db =
     bind_r (check_types (object_fits (db_inet db)) xs ''canonical_object'') (\<lambda>_.
     bind_r (check_constraint
       (fresh_ids ko_id xs (db_objects db) \<and> list_all (\<lambda>x. snapshot_exists db (ko_snapshot_id x)) xs) ''canonical_object'')
       (\<lambda>_. Inr (db\<lparr>db_objects := db_objects db @ map (inet_row (db_inet db)) xs\<rparr>)))"

definition save_members :: "canonical_member list \<Rightarrow> canonical_db \<Rightarrow> exc + canonical_db" where
  "save_members ms db =
     bind_r (check_types member_fits ms ''canonical_object_member'') (\<lambda>_.
     bind_r (check_constraint
       (fresh_ids km_id ms (db_members db) \<and>
        list_all (\<lambda>m. km_parent_object_id m \<in> ko_id ` set (db_objects db) \<and>
          km_child_object_id m \<in> ko_id ` set (db_objects db)) ms) ''canonical_object_member'')
       (\<lambda>_. Inr (db\<lparr>db_members := db_members db @ ms\<rparr>)))"

definition save_rules :: "canonical_rule list \<Rightarrow> canonical_db \<Rightarrow> exc + canonical_db" where
  "save_rules rs db =
     bind_r (check_types rule_fits rs ''canonical_rule'') (\<lambda>_.
     bind_r (check_constraint
       (fresh_ids kr_id rs (db_rules db) \<and> list_all (\<lambda>r. snapshot_exists db (kr_snapshot_id r)) rs) ''canonical_rule'')
       (\<lambda>_. Inr (db\<lparr>db_rules := db_rules db @ rs\<rparr>)))"

definition operand_target_ok :: "canonical_db \<Rightarrow> canonical_operand \<Rightarrow> bool" where
  "operand_target_ok db p \<longleftrightarrow>
     (case (kp_target_zone_id p, kp_target_object_id p) of
        (Some z, None) \<Rightarrow> z \<in> kz_id ` set (db_zones db)
      | (None, Some x) \<Rightarrow> x \<in> ko_id ` set (db_objects db)
      | _ \<Rightarrow> False)"

definition save_operands :: "canonical_operand list \<Rightarrow> canonical_db \<Rightarrow> exc + canonical_db" where
  "save_operands ps db =
     bind_r (check_types operand_fits ps ''canonical_rule_operand'') (\<lambda>_.
     bind_r (check_constraint
       (fresh_ids kp_id ps (db_operands db) \<and>
        list_all (\<lambda>p. kp_rule_id p \<in> kr_id ` set (db_rules db) \<and> operand_target_ok db p) ps)
        ''canonical_rule_operand'')
       (\<lambda>_. Inr (db\<lparr>db_operands := db_operands db @ ps\<rparr>)))"

definition save_issues :: "canonical_issue list \<Rightarrow> canonical_db \<Rightarrow> exc + canonical_db" where
  "save_issues is db =
     bind_r (check_types issue_fits is ''canonical_issue'') (\<lambda>_.
     bind_r (check_constraint
       (fresh_ids ki_id is (db_issues db) \<and> list_all (\<lambda>i. snapshot_exists db (ki_snapshot_id i)) is) ''canonical_issue'')
       (\<lambda>_. Inr (db\<lparr>db_issues := db_issues db @ is\<rparr>)))"

definition update_snapshot :: "uuid \<Rightarrow> (canonical_snapshot \<Rightarrow> canonical_snapshot) \<Rightarrow> canonical_db \<Rightarrow> canonical_db" where
  "update_snapshot i f db =
     db\<lparr>db_snapshots := map (\<lambda>s. if sn_id s = i then f s else s) (db_snapshots db)\<rparr>"

definition update_counts :: "uuid \<Rightarrow> nat \<Rightarrow> nat \<Rightarrow> nat \<Rightarrow> nat \<Rightarrow> canonical_db \<Rightarrow> exc + canonical_db" where
  "update_counts i zones objects rules issues db =
     (if counts_fit zones objects rules issues
      then Inr (update_snapshot i (\<lambda>s. s\<lparr>sn_zones_total := zones, sn_objects_total := objects, sn_rules_total := rules,
        sn_issues_total := issues\<rparr>) db)
      else Inl (DataError ''canonical_snapshot''))"

definition update_status :: "uuid \<Rightarrow> snapshot_status \<Rightarrow> canonical_db \<Rightarrow> canonical_db" where
  "update_status i st db = update_snapshot i (\<lambda>s. s\<lparr>sn_status := st\<rparr>) db"


section \<open>Snapshot, zone and object reads\<close>

definition sort_desc :: "('a \<Rightarrow> 'k :: linorder) \<Rightarrow> 'a list \<Rightarrow> 'a list" where
  "sort_desc f xs = rev (sort_key f (rev xs))"

definition first_row :: "'a list \<Rightarrow> 'a option" where
  "first_row xs = (case xs of [] \<Rightarrow> None | x # _ \<Rightarrow> Some x)"

definition get_snapshot :: "canonical_db \<Rightarrow> uuid \<Rightarrow> canonical_snapshot option" where
  "get_snapshot db i = List.find (\<lambda>s. sn_id s = i) (db_snapshots db)"

definition get_latest_for_source :: "canonical_db \<Rightarrow> uuid \<Rightarrow> canonical_snapshot option" where
  "get_latest_for_source db i =
     first_row (sort_desc sn_created_at (filter (\<lambda>s. sn_source_snapshot_id s = i) (db_snapshots db)))"

definition get_by_source_and_normalizer ::
  "canonical_db \<Rightarrow> uuid \<Rightarrow> string \<Rightarrow> string \<Rightarrow> canonical_snapshot option" where
  "get_by_source_and_normalizer db i ncode version =
     first_row (sort_desc sn_created_at (filter (\<lambda>s. sn_source_snapshot_id s = i \<and>
       sn_normalizer_code s = ncode \<and> sn_normalizer_version s = version) (db_snapshots db)))"

definition get_issues_by_snapshot :: "canonical_db \<Rightarrow> uuid \<Rightarrow> canonical_issue list" where
  "get_issues_by_snapshot db i = sort_key ki_created_at (filter (\<lambda>x. ki_snapshot_id x = i) (db_issues db))"

definition get_zone_for_snapshot :: "canonical_db \<Rightarrow> uuid \<Rightarrow> uuid \<Rightarrow> canonical_zone option" where
  "get_zone_for_snapshot db snap i = List.find (\<lambda>z. kz_id z = i \<and> kz_snapshot_id z = snap) (db_zones db)"

definition get_zones_by_snapshot :: "canonical_db \<Rightarrow> uuid \<Rightarrow> canonical_zone list" where
  "get_zones_by_snapshot db snap = filter (\<lambda>z. kz_snapshot_id z = snap) (db_zones db)"

definition get_zones_by_ids :: "canonical_db \<Rightarrow> uuid \<Rightarrow> uuid list \<Rightarrow> canonical_zone list" where
  "get_zones_by_ids db snap is =
     (if is = [] then [] else filter (\<lambda>z. kz_snapshot_id z = snap \<and> kz_id z \<in> set is) (db_zones db))"

definition get_object_for_snapshot :: "canonical_db \<Rightarrow> uuid \<Rightarrow> uuid \<Rightarrow> canonical_object option" where
  "get_object_for_snapshot db snap i = List.find (\<lambda>x. ko_id x = i \<and> ko_snapshot_id x = snap) (db_objects db)"

definition get_objects_by_snapshot :: "canonical_db \<Rightarrow> uuid \<Rightarrow> canonical_object list" where
  "get_objects_by_snapshot db snap = filter (\<lambda>x. ko_snapshot_id x = snap) (db_objects db)"

definition get_objects_by_ids :: "canonical_db \<Rightarrow> uuid \<Rightarrow> uuid list \<Rightarrow> canonical_object list" where
  "get_objects_by_ids db snap is =
     (if is = [] then [] else filter (\<lambda>x. ko_snapshot_id x = snap \<and> ko_id x \<in> set is) (db_objects db))"

text \<open>The join with the parent's row keeps the members of groups of the snapshot.\<close>

definition parent_in_snapshot :: "canonical_db \<Rightarrow> uuid \<Rightarrow> canonical_member \<Rightarrow> bool" where
  "parent_in_snapshot db snap m \<longleftrightarrow>
     list_ex (\<lambda>x. ko_id x = km_parent_object_id m \<and> ko_snapshot_id x = snap) (db_objects db)"

definition get_members_by_parent :: "canonical_db \<Rightarrow> uuid \<Rightarrow> uuid \<Rightarrow> canonical_member list" where
  "get_members_by_parent db snap i =
     sort_key km_position (filter (\<lambda>m. parent_in_snapshot db snap m \<and> km_parent_object_id m = i) (db_members db))"

definition get_members_by_parents :: "canonical_db \<Rightarrow> uuid \<Rightarrow> uuid list \<Rightarrow> canonical_member list" where
  "get_members_by_parents db snap is =
     (if is = [] then []
      else sort_key (\<lambda>m. (km_parent_object_id m, km_position m))
        (filter (\<lambda>m. parent_in_snapshot db snap m \<and> km_parent_object_id m \<in> set is) (db_members db)))"


section \<open>Rule reads\<close>

definition get_rule_for_snapshot :: "canonical_db \<Rightarrow> uuid \<Rightarrow> uuid \<Rightarrow> canonical_rule option" where
  "get_rule_for_snapshot db snap i = List.find (\<lambda>r. kr_id r = i \<and> kr_snapshot_id r = snap) (db_rules db)"

definition get_rules_by_snapshot :: "canonical_db \<Rightarrow> uuid \<Rightarrow> canonical_rule list" where
  "get_rules_by_snapshot db snap = sort_key kr_priority (filter (\<lambda>r. kr_snapshot_id r = snap) (db_rules db))"

definition rule_in_snapshot :: "canonical_db \<Rightarrow> uuid \<Rightarrow> uuid \<Rightarrow> bool" where
  "rule_in_snapshot db snap i \<longleftrightarrow> list_ex (\<lambda>r. kr_id r = i \<and> kr_snapshot_id r = snap) (db_rules db)"

definition get_operands_by_rule :: "canonical_db \<Rightarrow> uuid \<Rightarrow> uuid \<Rightarrow> canonical_operand list" where
  "get_operands_by_rule db snap i =
     sort_key (\<lambda>p. (rule_role_value (kp_operand_role p), kp_position p))
       (filter (\<lambda>p. rule_in_snapshot db snap (kp_rule_id p) \<and> kp_rule_id p = i) (db_operands db))"

definition get_operands_by_snapshot :: "canonical_db \<Rightarrow> uuid \<Rightarrow> canonical_operand list" where
  "get_operands_by_snapshot db snap =
     sort_key (\<lambda>p. (kp_rule_id p, rule_role_value (kp_operand_role p), kp_position p))
       (filter (\<lambda>p. rule_in_snapshot db snap (kp_rule_id p)) (db_operands db))"

definition get_operands_by_rule_ids :: "canonical_db \<Rightarrow> uuid \<Rightarrow> uuid list \<Rightarrow> canonical_operand list" where
  "get_operands_by_rule_ids db snap is =
     (if is = [] then []
      else sort_key (\<lambda>p. (kp_rule_id p, rule_role_value (kp_operand_role p), kp_position p))
        (filter (\<lambda>p. rule_in_snapshot db snap (kp_rule_id p) \<and> kp_rule_id p \<in> set is) (db_operands db)))"


section \<open>Filters\<close>

datatype rule_search_scope = SC_ALL | SC_RULES | SC_OBJECTS | SC_ZONES

record rule_filters =
  rf_rule_ids :: "uuid list option"
  rf_search :: "string option"
  rf_search_scope :: rule_search_scope
  rf_action :: "string option"
  rf_enabled :: "bool option"
  rf_section :: "string option"
  rf_operand_zone_ids :: "uuid list"
  rf_operand_object_ids :: "uuid list"
  rf_fw_applicable_only :: "bool option"

definition no_filters :: rule_filters where
  "no_filters = \<lparr>rf_rule_ids = None, rf_search = None, rf_search_scope = SC_ALL, rf_action = None,
     rf_enabled = None, rf_section = None, rf_operand_zone_ids = [], rf_operand_object_ids = [],
     rf_fw_applicable_only = None\<rparr>"

definition normalized_search :: "rule_filters \<Rightarrow> string option" where
  "normalized_search f =
     (case given (rf_search f) of None \<Rightarrow> None | Some s \<Rightarrow> (if strip s = [] then None else Some (strip s)))"

definition filters_has_any :: "rule_filters \<Rightarrow> bool" where
  "filters_has_any f \<longleftrightarrow>
     or_empty (rf_rule_ids f) \<noteq> [] \<or> normalized_search f \<noteq> None \<or> given (rf_action f) \<noteq> None \<or>
     rf_enabled f \<noteq> None \<or> given (rf_section f) \<noteq> None \<or> rf_operand_zone_ids f \<noteq> [] \<or>
     rf_operand_object_ids f \<noteq> [] \<or> rf_fw_applicable_only f \<noteq> None"

text \<open>\<open>LIKE\<close>: a percent sign is any text, an underscore any character, a backslash takes the next
  character as it is.\<close>

fun like_match :: "string \<Rightarrow> string \<Rightarrow> bool" where
  "like_match [] s \<longleftrightarrow> s = []"
| "like_match (p # ps) s \<longleftrightarrow>
     (if p = CHR ''%'' then like_match ps s \<or> (case s of [] \<Rightarrow> False | c # cs \<Rightarrow> like_match (p # ps) cs)
      else if p = CHR ''_'' then (case s of [] \<Rightarrow> False | c # cs \<Rightarrow> like_match ps cs)
      else if p = char_of (92 :: nat) then
        (case (ps, s) of (q # qs, c # cs) \<Rightarrow> q = c \<and> like_match qs cs | _ \<Rightarrow> False)
      else (case s of [] \<Rightarrow> False | c # cs \<Rightarrow> p = c \<and> like_match ps cs))"

definition ilike :: "string option \<Rightarrow> string \<Rightarrow> bool" where
  "ilike x pattern \<longleftrightarrow> (case x of None \<Rightarrow> False | Some s \<Rightarrow> like_match (lower pattern) (lower s))"

definition contains_pattern :: "string \<Rightarrow> string" where
  "contains_pattern s = ''%'' @ s @ ''%''"

text \<open>The groups above a set of objects, level by level.\<close>

definition parents_of :: "canonical_db \<Rightarrow> uuid \<Rightarrow> uuid list \<Rightarrow> uuid list" where
  "parents_of db snap is =
     remdups (map km_parent_object_id
       (filter (\<lambda>m. parent_in_snapshot db snap m \<and> km_child_object_id m \<in> set is) (db_members db)))"

partial_function (option) expand_up :: "canonical_db \<Rightarrow> uuid \<Rightarrow> uuid list \<Rightarrow> uuid list \<Rightarrow> uuid list option" where
  "expand_up db snap collected pending =
     (if pending = [] then Some collected
      else (let parents = parents_of db snap pending;
                news = filter (\<lambda>p. p \<notin> set collected) parents in
            expand_up db snap (collected @ news) news))"

definition expand_operand_object_ids :: "canonical_db \<Rightarrow> uuid \<Rightarrow> uuid list \<Rightarrow> uuid list option" where
  "expand_operand_object_ids db snap is = (if is = [] then Some [] else expand_up db snap (remdups is) (remdups is))"

definition resolve_search_object_ids :: "canonical_db \<Rightarrow> uuid \<Rightarrow> rule_filters \<Rightarrow> uuid list option option" where
  "resolve_search_object_ids db snap f =
     (case normalized_search f of
        None \<Rightarrow> Some None
      | Some s \<Rightarrow>
          (if rf_search_scope f \<notin> {SC_ALL, SC_OBJECTS} then Some None
           else
             (let pattern = contains_pattern s;
                  matched = map ko_id (filter (\<lambda>x. ko_snapshot_id x = snap \<and>
                    (ilike (Some (ko_name x)) pattern \<or> ilike (Some (ko_object_key x)) pattern \<or>
                     ilike (ko_cidr x) pattern \<or> ilike (ko_fqdn x) pattern)) (db_objects db)) in
              if matched = [] then Some (Some [])
              else map_option Some (expand_operand_object_ids db snap matched))))"

definition rule_fields_match :: "string \<Rightarrow> canonical_rule \<Rightarrow> bool" where
  "rule_fields_match pattern r \<longleftrightarrow>
     ilike (Some (kr_name r)) pattern \<or> ilike (Some (kr_rule_key r)) pattern \<or> ilike (kr_section r) pattern \<or>
     ilike (kr_description r) pattern \<or> ilike (Some (kr_action r)) pattern"

definition zone_search_exists :: "canonical_db \<Rightarrow> string \<Rightarrow> canonical_rule \<Rightarrow> bool" where
  "zone_search_exists db pattern r \<longleftrightarrow>
     list_ex (\<lambda>p. kp_rule_id p = kr_id r \<and>
       list_ex (\<lambda>z. kp_target_zone_id p = Some (kz_id z) \<and>
         (ilike (Some (kz_name z)) pattern \<or> ilike (Some (kz_zone_key z)) pattern)) (db_zones db)) (db_operands db)"

definition object_ids_exists :: "canonical_db \<Rightarrow> uuid list \<Rightarrow> canonical_rule \<Rightarrow> bool" where
  "object_ids_exists db is r \<longleftrightarrow>
     list_ex (\<lambda>p. kp_rule_id p = kr_id r \<and> (case kp_target_object_id p of None \<Rightarrow> False | Some x \<Rightarrow> x \<in> set is))
       (db_operands db)"

definition search_matches ::
  "canonical_db \<Rightarrow> rule_filters \<Rightarrow> uuid list option \<Rightarrow> canonical_rule \<Rightarrow> bool" where
  "search_matches db f search_ids r \<longleftrightarrow>
     (case normalized_search f of
        None \<Rightarrow> True
      | Some s \<Rightarrow>
          (let pattern = contains_pattern s; scope = rf_search_scope f in
           (scope \<in> {SC_ALL, SC_RULES} \<and> rule_fields_match pattern r) \<or>
           (scope \<in> {SC_ALL, SC_ZONES} \<and> zone_search_exists db pattern r) \<or>
           (scope \<in> {SC_ALL, SC_OBJECTS} \<and>
             (case search_ids of None \<Rightarrow> False | Some is \<Rightarrow> is \<noteq> [] \<and> object_ids_exists db is r))))"

definition filter_matches ::
  "canonical_db \<Rightarrow> uuid \<Rightarrow> rule_filters \<Rightarrow> uuid list \<Rightarrow> uuid list option \<Rightarrow> canonical_rule \<Rightarrow> bool" where
  "filter_matches db snap f object_ids search_ids r \<longleftrightarrow>
     kr_snapshot_id r = snap \<and>
     (or_empty (rf_rule_ids f) = [] \<or> kr_id r \<in> set (or_empty (rf_rule_ids f))) \<and>
     search_matches db f search_ids r \<and>
     (case rf_action f of None \<Rightarrow> True | Some a \<Rightarrow> kr_action r = a) \<and>
     (case rf_enabled f of None \<Rightarrow> True | Some b \<Rightarrow> kr_enabled r = b) \<and>
     (case rf_section f of None \<Rightarrow> True | Some s \<Rightarrow> kr_section r = Some s) \<and>
     (rf_operand_zone_ids f = [] \<or>
       list_ex (\<lambda>p. kp_rule_id p = kr_id r \<and>
         (case kp_target_zone_id p of None \<Rightarrow> False | Some z \<Rightarrow> z \<in> set (rf_operand_zone_ids f))) (db_operands db)) \<and>
     (object_ids = [] \<or> object_ids_exists db object_ids r) \<and>
     (case rf_fw_applicable_only f of
        None \<Rightarrow> True
      | Some True \<Rightarrow> ilike (kr_description r) ''%processing_status=fw_applicable%''
      | Some False \<Rightarrow> ilike (kr_description r) ''%processing_status=skipped_for_now%'')"

definition build_filtered_query :: "canonical_db \<Rightarrow> uuid \<Rightarrow> rule_filters \<Rightarrow> canonical_rule list option" where
  "build_filtered_query db snap f =
     Option.bind (expand_operand_object_ids db snap (rf_operand_object_ids f)) (\<lambda>object_ids.
     Option.bind (resolve_search_object_ids db snap f) (\<lambda>search_ids.
       Some (filter (filter_matches db snap f object_ids search_ids) (db_rules db))))"

datatype rule_sort_field =
  SF_PRIORITY | SF_NAME | SF_ACTION | SF_ENABLED | SF_SECTION | SF_RULE_KEY | SF_DESCRIPTION

datatype sort_direction = SD_ASC | SD_DESC

text \<open>The value that a column sorts by; a missing value sorts last, and first when descending.\<close>

definition null_last :: "(string \<Rightarrow> string) \<Rightarrow> string option \<Rightarrow> nat \<times> int \<times> string" where
  "null_last collate x = (case x of None \<Rightarrow> (1, 0, []) | Some s \<Rightarrow> (0, 0, collate s))"

definition sort_column :: "(string \<Rightarrow> string) \<Rightarrow> rule_sort_field \<Rightarrow> canonical_rule \<Rightarrow> nat \<times> int \<times> string" where
  "sort_column collate fl r =
     (case fl of
        SF_PRIORITY \<Rightarrow> (0, kr_priority r, [])
      | SF_NAME \<Rightarrow> null_last collate (Some (kr_name r))
      | SF_ACTION \<Rightarrow> null_last collate (Some (kr_action r))
      | SF_ENABLED \<Rightarrow> (0, if kr_enabled r then 1 else 0, [])
      | SF_SECTION \<Rightarrow> null_last collate (kr_section r)
      | SF_RULE_KEY \<Rightarrow> null_last collate (Some (kr_rule_key r))
      | SF_DESCRIPTION \<Rightarrow> null_last collate (kr_description r))"

definition order_rules ::
  "(string \<Rightarrow> string) \<Rightarrow> (rule_sort_field \<times> sort_direction) option \<Rightarrow> canonical_rule list \<Rightarrow> canonical_rule list" where
  "order_rules collate srt rs =
     (case srt of
        None \<Rightarrow> sort_key (\<lambda>r. (kr_priority r, kr_id r)) rs
      | Some (fl, SD_ASC) \<Rightarrow> sort_key (\<lambda>r. (sort_column collate fl r, kr_id r)) rs
      | Some (fl, SD_DESC) \<Rightarrow> sort_desc (sort_column collate fl) (sort_key kr_id rs))"

definition count_filtered :: "canonical_db \<Rightarrow> uuid \<Rightarrow> rule_filters \<Rightarrow> nat option" where
  "count_filtered db snap f = map_option length (build_filtered_query db snap f)"

definition limit_rows :: "nat option \<Rightarrow> nat option \<Rightarrow> 'a list \<Rightarrow> 'a list" where
  "limit_rows lim off xs =
     (case lim of None \<Rightarrow> drop (case off of None \<Rightarrow> 0 | Some n \<Rightarrow> n) xs
      | Some k \<Rightarrow> take k (drop (case off of None \<Rightarrow> 0 | Some n \<Rightarrow> n) xs))"

definition list_filtered ::
  "(string \<Rightarrow> string) \<Rightarrow> canonical_db \<Rightarrow> uuid \<Rightarrow> rule_filters \<Rightarrow> nat option \<Rightarrow> nat option \<Rightarrow>
   (rule_sort_field \<times> sort_direction) option \<Rightarrow> canonical_rule list option" where
  "list_filtered collate db snap f lim off srt =
     map_option (\<lambda>rs. limit_rows lim off (order_rules collate srt rs)) (build_filtered_query db snap f)"

end
