(* ===== verification/Canonical_Scope.thy ===== *)
theory Canonical_Scope
  imports Canonical_Tables Csp_Client
begin

text \<open>
  The rule scope of a canonical snapshot: rules with the zones and objects they name
  (\<open>src/src/app/modules/canonical/services/group_expansion.py\<close> and
  \<open>application/use_cases\<close>).

  The expansion of groups walks membership edges breadth first, asking a repository for objects and
  members.  What it relies on is the locale \<open>object_source\<close>, which the tables satisfy;
  \<open>reach_exact\<close>: it always returns, with exactly the objects that the seeds reach and,
  for each, exactly the groups through which it was reached.
\<close>

section \<open>Expansion of groups\<close>

definition group_kind :: "object_kind \<Rightarrow> bool" where
  "group_kind k \<longleftrightarrow> k = OK_ADDR_GROUP \<or> k = OK_SERVICE_GROUP"

record expansion =
  ex_collected :: "(uuid \<times> canonical_object) list"
  ex_parent_ids :: "(uuid \<times> uuid list) list"
  ex_seen :: "uuid list"

definition set_default :: "'k \<Rightarrow> 'v \<Rightarrow> ('k \<times> 'v) list \<Rightarrow> ('k \<times> 'v) list" where
  "set_default k v d = (if k \<in> fst ` set d then d else AList.update k v d)"

definition set_add :: "'k \<Rightarrow> 'v \<Rightarrow> ('k \<times> 'v list) list \<Rightarrow> ('k \<times> 'v list) list" where
  "set_add k v d = AList.update k (if v \<in> set (dict_get d k []) then dict_get d k [] else dict_get d k [] @ [v]) d"

definition visit_member :: "expansion \<times> uuid list \<Rightarrow> canonical_member \<Rightarrow> expansion \<times> uuid list" where
  "visit_member st m =
     (case st of (ex, pending) \<Rightarrow>
       (let ex1 = ex\<lparr>ex_parent_ids := set_add (km_child_object_id m) (km_parent_object_id m) (ex_parent_ids ex)\<rparr> in
        if km_child_object_id m \<in> set (ex_seen ex1) then (ex1, pending)
        else (ex1\<lparr>ex_seen := ex_seen ex1 @ [km_child_object_id m]\<rparr>, pending @ [km_child_object_id m])))"

partial_function (option) expand_loop ::
  "(uuid list \<Rightarrow> canonical_object list) \<Rightarrow> (uuid list \<Rightarrow> canonical_member list) \<Rightarrow> uuid list \<Rightarrow> expansion \<Rightarrow>
   expansion option" where
  "expand_loop by_ids members pending ex =
     (if pending = [] then Some ex
      else
        (let batch = by_ids pending;
             ex1 = ex\<lparr>ex_collected := foldl (\<lambda>d x. set_default (ko_id x) x d) (ex_collected ex) batch\<rparr>;
             group_ids = map ko_id (filter (\<lambda>x. group_kind (ko_object_kind x)) batch) in
         if group_ids = [] then expand_loop by_ids members [] ex1
         else (case foldl visit_member (ex1, []) (members group_ids) of
           (ex2, pending2) \<Rightarrow> expand_loop by_ids members pending2 ex2)))"

definition expand_object_groups ::
  "(uuid list \<Rightarrow> canonical_object list) \<Rightarrow> (uuid list \<Rightarrow> canonical_member list) \<Rightarrow> uuid list \<Rightarrow>
   (canonical_object list \<times> (uuid \<times> uuid list) list) option" where
  "expand_object_groups by_ids members seed_ids =
     map_option (\<lambda>ex. (map snd (ex_collected ex), ex_parent_ids ex))
       (expand_loop by_ids members seed_ids \<lparr>ex_collected = [], ex_parent_ids = [], ex_seen = seed_ids\<rparr>)"


section \<open>Use cases\<close>

record scope_query =
  sq_snapshot_id :: uuid
  sq_limit :: "nat option"
  sq_offset :: "nat option"
  sq_filters :: rule_filters
  sq_sort :: "(rule_sort_field \<times> sort_direction) option"
  sq_include_all_zones :: bool

record scope_result =
  sr_rules :: "operand_dto rule_dto list"
  sr_zones :: "zone_dto list"
  sr_objects :: "object_dto list"
  sr_pagination :: pagination_dto

definition scope_query_for :: "uuid \<Rightarrow> rule_filters \<Rightarrow> scope_query" where
  "scope_query_for i f = \<lparr>sq_snapshot_id = i, sq_limit = None, sq_offset = None, sq_filters = f,
     sq_sort = None, sq_include_all_zones = False\<rparr>"

definition snapshot_missing :: "uuid \<Rightarrow> exc" where
  "snapshot_missing i = CanonicalNotFoundError (''Canonical snapshot not found: '' @ uuid_text i)"

definition require_snapshot :: "canonical_db \<Rightarrow> uuid \<Rightarrow> exc + canonical_snapshot" where
  "require_snapshot db i = (case get_snapshot db i of None \<Rightarrow> Inl (snapshot_missing i) | Some s \<Rightarrow> Inr s)"

definition targets_of :: "(canonical_operand \<Rightarrow> uuid option) \<Rightarrow> canonical_operand list \<Rightarrow> uuid list" where
  "targets_of f ps = remdups (List.map_filter f ps)"

definition collect_zones :: "canonical_db \<Rightarrow> uuid \<Rightarrow> canonical_operand list \<Rightarrow> bool \<Rightarrow> bool \<Rightarrow> zone_dto list" where
  "collect_zones db snap operands narrow include_all =
     map zone_to_dto
       (if \<not> narrow \<or> include_all then get_zones_by_snapshot db snap
        else get_zones_by_ids db snap (targets_of kp_target_zone_id operands))"

definition collect_objects ::
  "canonical_db \<Rightarrow> uuid \<Rightarrow> canonical_operand list \<Rightarrow> bool \<Rightarrow> object_dto list option" where
  "collect_objects db snap operands narrow =
     (if \<not> narrow then Some (map (\<lambda>x. object_to_dto x None []) (get_objects_by_snapshot db snap))
      else
        (let seeds = targets_of kp_target_object_id operands in
         if seeds = [] then Some []
         else map_option (\<lambda>(objects, parents).
             map (\<lambda>x. object_to_dto x None (sort_key uuid_text (dict_get parents (ko_id x) []))) objects)
           (expand_object_groups (get_objects_by_ids db snap) (get_members_by_parents db snap) seeds)))"

definition get_canonical_rule_scope ::
  "(string \<Rightarrow> string) \<Rightarrow> canonical_db \<Rightarrow> scope_query \<Rightarrow> scope_result result" where
  "get_canonical_rule_scope collate db q =
     (let snap = sq_snapshot_id q; f = sq_filters q in
      bind_o (Some (require_snapshot db snap)) (\<lambda>_.
      bind_o (map_option Inr (count_filtered db snap f)) (\<lambda>total.
      bind_o (map_option Inr (list_filtered collate db snap f (sq_limit q) (sq_offset q) (sq_sort q))) (\<lambda>rules.
        (let operands = get_operands_by_rule_ids db snap (map kr_id rules);
             grouped = operands_by_rule operands;
             narrow = filters_has_any f in
         bind_o (map_option Inr (collect_objects db snap operands narrow)) (\<lambda>objects.
           Some (Inr \<lparr>sr_rules = map (\<lambda>r. rule_to_dto r (Some (dict_get grouped (kr_id r) []))) rules,
             sr_zones = collect_zones db snap operands narrow (sq_include_all_zones q),
             sr_objects = objects,
             sr_pagination = \<lparr>pg_limit = sq_limit q, pg_offset = sq_offset q, pg_rules_total = total\<rparr>\<rparr>)))))))"

definition get_canonical_rules ::
  "(string \<Rightarrow> string) \<Rightarrow> canonical_db \<Rightarrow> uuid \<Rightarrow> rule_filters \<Rightarrow> nat option \<Rightarrow> nat \<Rightarrow>
   (rule_sort_field \<times> sort_direction) option \<Rightarrow> (operand_dto rule_dto list \<times> pagination_dto) result" where
  "get_canonical_rules collate db snap f lim off srt =
     bind_o (Some (require_snapshot db snap)) (\<lambda>_.
     bind_o (map_option Inr (count_filtered db snap f)) (\<lambda>total.
     bind_o (map_option Inr (list_filtered collate db snap f lim (Some off) srt)) (\<lambda>rules.
       (let grouped = operands_by_rule (get_operands_by_rule_ids db snap (map kr_id rules)) in
        Some (Inr (map (\<lambda>r. rule_to_dto r (Some (dict_get grouped (kr_id r) []))) rules,
          \<lparr>pg_limit = lim, pg_offset = Some off, pg_rules_total = total\<rparr>))))))"

definition hydrate_operand ::
  "canonical_zone list \<Rightarrow> canonical_object list \<Rightarrow> canonical_operand \<Rightarrow> operand_hydrated_dto" where
  "hydrate_operand zones objects p =
     operand_dto.extend (operand_to_dto p)
       (operand_hydrated_dto.fields
         (Option.bind (kp_target_zone_id p) (\<lambda>i. map_option zone_summary_to_dto (map_of (dict_of kz_id zones) i)))
         (Option.bind (kp_target_object_id p) (\<lambda>i. map_option object_summary_to_dto (map_of (dict_of ko_id objects) i))))"

definition get_canonical_rule :: "canonical_db \<Rightarrow> uuid \<Rightarrow> uuid \<Rightarrow> exc + operand_hydrated_dto rule_dto" where
  "get_canonical_rule db snap i =
     bind_r (require_snapshot db snap) (\<lambda>_.
       case get_rule_for_snapshot db snap i of
         None \<Rightarrow> Inl (CanonicalNotFoundError (''Canonical rule not found: '' @ uuid_text i))
       | Some r \<Rightarrow>
           (let operands = get_operands_by_rule db snap i;
                zones = get_zones_by_ids db snap (targets_of kp_target_zone_id operands);
                objects = get_objects_by_ids db snap (targets_of kp_target_object_id operands) in
            Inr (rule_to_dto r (Some (map (hydrate_operand zones objects) operands)))))"

definition get_canonical_object ::
  "canonical_db \<Rightarrow> uuid \<Rightarrow> uuid \<Rightarrow> bool \<Rightarrow> exc + object_dto \<times> canonical_member list" where
  "get_canonical_object db snap i include_members =
     bind_r (require_snapshot db snap) (\<lambda>_.
       case get_object_for_snapshot db snap i of
         None \<Rightarrow> Inl (CanonicalNotFoundError (''Canonical object not found: '' @ uuid_text i))
       | Some x \<Rightarrow>
           Inr (object_to_dto x None [], if include_members then get_members_by_parent db snap i else []))"

definition get_canonical_objects :: "canonical_db \<Rightarrow> uuid \<Rightarrow> exc + object_dto list" where
  "get_canonical_objects db snap =
     bind_r (require_snapshot db snap) (\<lambda>_.
       Inr (map (\<lambda>x. object_to_dto x None []) (get_objects_by_snapshot db snap)))"

definition get_canonical_zone :: "canonical_db \<Rightarrow> uuid \<Rightarrow> uuid \<Rightarrow> exc + zone_dto" where
  "get_canonical_zone db snap i =
     bind_r (require_snapshot db snap) (\<lambda>_.
       case get_zone_for_snapshot db snap i of
         None \<Rightarrow> Inl (CanonicalNotFoundError (''Canonical zone not found: '' @ uuid_text i))
       | Some z \<Rightarrow> Inr (zone_to_dto z))"

definition get_canonical_zones :: "canonical_db \<Rightarrow> uuid \<Rightarrow> exc + zone_dto list" where
  "get_canonical_zones db snap =
     bind_r (require_snapshot db snap) (\<lambda>_. Inr (map zone_to_dto (get_zones_by_snapshot db snap)))"

definition get_canonical_issues :: "canonical_db \<Rightarrow> uuid \<Rightarrow> exc + canonical_issue list" where
  "get_canonical_issues db snap =
     bind_r (require_snapshot db snap) (\<lambda>_. Inr (get_issues_by_snapshot db snap))"

record snapshot_graph =
  sg_snapshot :: canonical_snapshot
  sg_zones :: "zone_dto list"
  sg_objects :: "object_dto list"
  sg_rules :: "operand_dto rule_dto list"

definition get_canonical_snapshot :: "canonical_db \<Rightarrow> uuid \<Rightarrow> exc + snapshot_graph" where
  "get_canonical_snapshot db snap =
     bind_r (require_snapshot db snap) (\<lambda>s.
       (let grouped = operands_by_rule (get_operands_by_snapshot db snap) in
        Inr \<lparr>sg_snapshot = s, sg_zones = map zone_to_dto (get_zones_by_snapshot db snap),
          sg_objects = map (\<lambda>x. object_to_dto x None []) (get_objects_by_snapshot db snap),
          sg_rules = map (\<lambda>r. rule_to_dto r (Some (dict_get grouped (kr_id r) []))) (get_rules_by_snapshot db snap)\<rparr>))"


section \<open>Saving a snapshot\<close>

record save_command =
  sv_source_snapshot_id :: uuid
  sv_normalizer_code :: string
  sv_normalizer_version :: string
  sv_zones :: "canonical_zone list"
  sv_objects :: "canonical_object list"
  sv_object_members :: "canonical_member list"
  sv_rules :: "canonical_rule list"
  sv_operands :: "canonical_operand list"
  sv_issues :: "canonical_issue list"

definition transactional ::
  "(canonical_db \<Rightarrow> exc + 'a \<times> canonical_db) \<Rightarrow> canonical_db \<Rightarrow> (exc + 'a) \<times> canonical_db" where
  "transactional f db = (case f db of Inl e \<Rightarrow> (Inl e, db) | Inr (x, db') \<Rightarrow> (Inr x, db'))"

definition save_children :: "uuid \<Rightarrow> save_command \<Rightarrow> canonical_db \<Rightarrow> exc + canonical_db" where
  "save_children i cmd db =
     bind_r (save_zones (map (kz_snapshot_id_update (\<lambda>_. i)) (sv_zones cmd)) db) (\<lambda>db.
     bind_r (save_object_rows (map (ko_snapshot_id_update (\<lambda>_. i)) (sv_objects cmd)) db) (\<lambda>db.
     bind_r (save_members (sv_object_members cmd) db) (\<lambda>db.
     bind_r (save_rules (map (kr_snapshot_id_update (\<lambda>_. i)) (sv_rules cmd)) db) (\<lambda>db.
     bind_r (save_operands (sv_operands cmd) db) (\<lambda>db.
     bind_r (save_issues (map (ki_snapshot_id_update (\<lambda>_. i)) (sv_issues cmd)) db) (\<lambda>db.
     bind_r (update_counts i (length (sv_zones cmd)) (length (sv_objects cmd)) (length (sv_rules cmd))
         (length (sv_issues cmd)) db) (\<lambda>db.
       Inr (update_status i SS_SUCCESS db))))))))"

text \<open>The id and the times are new values.  After a violated constraint the session is asked for
  the snapshot again; what a session answers then is the parameter \<open>reread\<close>.\<close>

definition save_canonical_snapshot ::
  "(canonical_db \<Rightarrow> save_command \<Rightarrow> exc + canonical_snapshot option) \<Rightarrow> uuid \<Rightarrow> timestamp \<Rightarrow> save_command \<Rightarrow>
   canonical_db \<Rightarrow> (exc + uuid \<times> bool) \<times> canonical_db" where
  "save_canonical_snapshot reread i now cmd =
     transactional (\<lambda>db.
       (let existing = get_by_source_and_normalizer db (sv_source_snapshot_id cmd) (sv_normalizer_code cmd)
              (sv_normalizer_version cmd) in
        case (case existing of Some s \<Rightarrow> (if sn_status s = SS_SUCCESS then Some s else None) | None \<Rightarrow> None) of
          Some s \<Rightarrow> Inr ((sn_id s, False), db)
        | None \<Rightarrow>
            (let snapshot = create_canonical_snapshot i now (sv_source_snapshot_id cmd) (sv_normalizer_code cmd)
                   (sv_normalizer_version cmd) SS_PENDING in
             case save_snapshot now snapshot db of
               Inl (IntegrityError e) \<Rightarrow>
                 bind_r (reread db cmd) (\<lambda>again.
                   case again of None \<Rightarrow> Inl (IntegrityError e) | Some s \<Rightarrow> Inr ((sn_id s, False), db))
             | Inl e \<Rightarrow> Inl e
             | Inr db1 \<Rightarrow> bind_r (save_children i cmd db1) (\<lambda>db2. Inr ((i, True), db2)))))"

definition get_latest_canonical_snapshot :: "canonical_db \<Rightarrow> uuid \<Rightarrow> canonical_snapshot option" where
  "get_latest_canonical_snapshot db source = get_latest_for_source db source"

end
