(* ===== verification/Canonical_Expansion.thy ===== *)
theory Canonical_Expansion
  imports Canonical_Scope
begin

text \<open>
  The expansion of groups returns, and returns exactly what the seeds reach, against any repository
  that answers as \<open>object_source\<close> says; the tables do.
\<close>

section \<open>The repository\<close>

locale object_source =
  fixes by_ids :: "uuid list \<Rightarrow> canonical_object list" and members :: "uuid list \<Rightarrow> canonical_member list"
    and objs :: "canonical_object list" and edges :: "canonical_member list"
  assumes by_ids_law: "set (by_ids is) = {x \<in> set objs. ko_id x \<in> set is}"
    and members_law: "set (members is) = {m \<in> set edges. km_parent_object_id m \<in> set is}"

text \<open>What a set of seeds reaches: a group that is an object leads to its members.\<close>

definition is_group_object :: "canonical_object list \<Rightarrow> uuid \<Rightarrow> bool" where
  "is_group_object objs i \<longleftrightarrow> (\<exists>x \<in> set objs. ko_id x = i \<and> group_kind (ko_object_kind x))"

inductive reached :: "canonical_object list \<Rightarrow> canonical_member list \<Rightarrow> uuid set \<Rightarrow> uuid \<Rightarrow> bool" for objs edges S where
  seed: "i \<in> S \<Longrightarrow> reached objs edges S i"
| member: "reached objs edges S (km_parent_object_id m) \<Longrightarrow> is_group_object objs (km_parent_object_id m) \<Longrightarrow>
    m \<in> set edges \<Longrightarrow> reached objs edges S (km_child_object_id m)"

definition open_edges :: "canonical_object list \<Rightarrow> canonical_member list \<Rightarrow> uuid set \<Rightarrow> canonical_member set" where
  "open_edges objs edges D = {m \<in> set edges. km_parent_object_id m \<in> D \<and> is_group_object objs (km_parent_object_id m)}"


section \<open>Steps of the walk\<close>

lemma set_default_keys: "fst ` set (set_default k v d) = insert k (fst ` set d)"
  by (auto simp: set_default_def simp flip: dom_map_of_conv_image_fst split: if_splits)
    (auto simp: dom_map_of_conv_image_fst update_conv')

lemma set_default_new: "k \<notin> fst ` set d \<Longrightarrow> set_default k v d = d @ [(k, v)]"
  by (induction d) (auto simp: set_default_def)

lemma set_defaults:
  assumes "distinct (map fst d)" "\<forall>(k, v) \<in> set d. v \<in> set objs \<and> ko_id v = k" "set batch \<subseteq> set objs"
  shows "distinct (map fst (foldl (\<lambda>d x. set_default (ko_id x) x d) d batch)) \<and>
    fst ` set (foldl (\<lambda>d x. set_default (ko_id x) x d) d batch) = fst ` set d \<union> ko_id ` set batch \<and>
    (\<forall>(k, v) \<in> set (foldl (\<lambda>d x. set_default (ko_id x) x d) d batch). v \<in> set objs \<and> ko_id v = k)"
  using assms
proof (induction batch arbitrary: d)
  case (Cons x batch)
  let ?d = "set_default (ko_id x) x d"
  have d: "distinct (map fst ?d)" "\<forall>(k, v) \<in> set ?d. v \<in> set objs \<and> ko_id v = k"
  proof -
    have "distinct (map fst ?d) \<and> (\<forall>(k, v) \<in> set ?d. v \<in> set objs \<and> ko_id v = k)"
    proof (cases "ko_id x \<in> fst ` set d")
      case True
      then have "?d = d" by (simp add: set_default_def)
      with Cons.prems(1,2) show ?thesis by simp
    next
      case False
      with Cons.prems show ?thesis by (auto simp: set_default_new)
    qed
    then show "distinct (map fst ?d)" "\<forall>(k, v) \<in> set ?d. v \<in> set objs \<and> ko_id v = k" by blast+
  qed
  from Cons.IH [OF this] Cons.prems(3) show ?case by (simp add: set_default_keys Un_insert_left)
qed simp

lemma set_add_get: "set (dict_get (set_add k v d) k' []) = (if k' = k then insert v (set (dict_get d k [])) else set (dict_get d k' []))"
  by (auto simp: set_add_def dict_simps)

lemma set_add_distinct:
  "(\<And>k. distinct (dict_get d k [])) \<Longrightarrow> distinct (dict_get (set_add k v d) k' [])"
  by (auto simp: set_add_def dict_simps)

lemma visit_one:
  assumes "visit_member (ex, pending) m = (ex', pending')"
  shows "ex_collected ex' = ex_collected ex" "set (ex_seen ex') = insert (km_child_object_id m) (set (ex_seen ex))"
    "set pending' = set pending \<union> ({km_child_object_id m} - set (ex_seen ex))"
    "set (dict_get (ex_parent_ids ex') k []) =
       set (dict_get (ex_parent_ids ex) k []) \<union> (if km_child_object_id m = k then {km_parent_object_id m} else {})"
  using assms by (auto simp: visit_member_def Let_def set_add_get split: if_splits)

lemma visit_distinct:
  assumes "visit_member (ex, pending) m = (ex', pending')" "\<And>k. distinct (dict_get (ex_parent_ids ex) k [])"
  shows "distinct (dict_get (ex_parent_ids ex') k [])"
  using assms(1) set_add_distinct [of "ex_parent_ids ex", OF assms(2)]
  by (auto simp: visit_member_def Let_def split: if_splits)

lemma visit_members:
  assumes "foldl visit_member (ex, pending) ms = (ex', pending')"
  shows "ex_collected ex' = ex_collected ex \<and> set (ex_seen ex') = set (ex_seen ex) \<union> km_child_object_id ` set ms \<and>
    set pending' = set pending \<union> (km_child_object_id ` set ms - set (ex_seen ex)) \<and>
    (\<forall>k. set (dict_get (ex_parent_ids ex') k []) =
       set (dict_get (ex_parent_ids ex) k []) \<union> km_parent_object_id ` {m \<in> set ms. km_child_object_id m = k}) \<and>
    ((\<forall>k. distinct (dict_get (ex_parent_ids ex) k [])) \<longrightarrow> (\<forall>k. distinct (dict_get (ex_parent_ids ex') k [])))"
  using assms
proof (induction ms arbitrary: ex pending)
  case (Cons m ms)
  obtain ex1 p1 where st: "visit_member (ex, pending) m = (ex1, p1)" by fastforce
  note one = visit_one [OF st]
  from Cons.prems st have "foldl visit_member (ex1, p1) ms = (ex', pending')" by simp
  note ih = Cons.IH [OF this]
  have "set (dict_get (ex_parent_ids ex') k []) =
       set (dict_get (ex_parent_ids ex) k []) \<union> km_parent_object_id ` {m' \<in> set (m # ms). km_child_object_id m' = k}" for k
  proof -
    have "{m' \<in> set (m # ms). km_child_object_id m' = k} =
        (if km_child_object_id m = k then {m} else {}) \<union> {m' \<in> set ms. km_child_object_id m' = k}" by auto
    with ih one(4) [of k] show ?thesis by (simp add: image_Un Un_assoc)
  qed
  moreover have "set pending' = set pending \<union> (km_child_object_id ` set (m # ms) - set (ex_seen ex))"
  proof -
    have "set pending' = set p1 \<union> (km_child_object_id ` set ms - set (ex_seen ex1))" using ih by blast
    then show ?thesis unfolding one(2,3) by auto
  qed
  moreover have "(\<forall>k. distinct (dict_get (ex_parent_ids ex) k [])) \<longrightarrow> (\<forall>k. distinct (dict_get (ex_parent_ids ex') k []))"
    using conjunct2 [OF conjunct2 [OF conjunct2 [OF conjunct2 [OF ih]]]] visit_distinct [OF st] by simp
  ultimately show ?case using ih one(1,2) by simp
qed simp


section \<open>The walk\<close>

definition walk_ok ::
  "canonical_object list \<Rightarrow> canonical_member list \<Rightarrow> uuid list \<Rightarrow> uuid list \<Rightarrow> expansion \<Rightarrow> bool" where
  "walk_ok objs edges seeds pending ex \<longleftrightarrow>
     (let D = set (ex_seen ex) - set pending in
      set pending \<subseteq> set (ex_seen ex) \<and> set seeds \<subseteq> set (ex_seen ex) \<and>
      (\<forall>i \<in> set (ex_seen ex). reached objs edges (set seeds) i) \<and>
      distinct (map fst (ex_collected ex)) \<and> fst ` set (ex_collected ex) = ko_id ` set objs \<inter> D \<and>
      (\<forall>(k, v) \<in> set (ex_collected ex). v \<in> set objs \<and> ko_id v = k) \<and>
      (\<forall>m \<in> open_edges objs edges D. km_child_object_id m \<in> set (ex_seen ex)) \<and>
      (\<forall>k. distinct (dict_get (ex_parent_ids ex) k []) \<and>
         set (dict_get (ex_parent_ids ex) k []) = km_parent_object_id ` {m \<in> open_edges objs edges D. km_child_object_id m = k}))"

context object_source
begin

definition next_state :: "uuid list \<Rightarrow> expansion \<Rightarrow> uuid list \<times> expansion" where
  "next_state pending ex =
     (let batch = by_ids pending;
          ex1 = ex\<lparr>ex_collected := foldl (\<lambda>d x. set_default (ko_id x) x d) (ex_collected ex) batch\<rparr>;
          group_ids = map ko_id (filter (\<lambda>x. group_kind (ko_object_kind x)) batch) in
      if group_ids = [] then ([], ex1)
      else (case foldl visit_member (ex1, []) (members group_ids) of (ex2, pending2) \<Rightarrow> (pending2, ex2)))"

lemma expand_loop_step:
  "expand_loop by_ids members pending ex =
     (if pending = [] then Some ex
      else expand_loop by_ids members (fst (next_state pending ex)) (snd (next_state pending ex)))"
  by (subst expand_loop.simps) (simp add: next_state_def Let_def split: prod.split)

lemma next_state_ok:
  assumes ok: "walk_ok objs edges seeds pending ex" and st: "next_state pending ex = (pending', ex')"
  shows "walk_ok objs edges seeds pending' ex'"
    and "set (ex_seen ex') = set (ex_seen ex) \<union> set pending'" "set pending' \<inter> set (ex_seen ex) = {}"
    and "set pending' \<subseteq> km_child_object_id ` set edges"
proof -
  let ?D = "set (ex_seen ex) - set pending"
  let ?batch = "by_ids pending"
  let ?d = "foldl (\<lambda>d x. set_default (ko_id x) x d) (ex_collected ex) ?batch"
  let ?ex1 = "ex\<lparr>ex_collected := ?d\<rparr>"
  let ?groups = "map ko_id (filter (\<lambda>x. group_kind (ko_object_kind x)) ?batch)"
  note I = ok [unfolded walk_ok_def Let_def]
  have batch: "set ?batch = {x \<in> set objs. ko_id x \<in> set pending}" by (rule by_ids_law)
  have d: "distinct (map fst ?d)" "fst ` set ?d = ko_id ` set objs \<inter> set (ex_seen ex)"
    "\<forall>(k, v) \<in> set ?d. v \<in> set objs \<and> ko_id v = k"
  proof -
    have sub: "set ?batch \<subseteq> set objs" unfolding batch by auto
    note sd = set_defaults [of "ex_collected ex" objs ?batch, OF _ _ sub]
    from I have p: "distinct (map fst (ex_collected ex))" "\<forall>(k, v) \<in> set (ex_collected ex). v \<in> set objs \<and> ko_id v = k"
      "fst ` set (ex_collected ex) = ko_id ` set objs \<inter> ?D" "set pending \<subseteq> set (ex_seen ex)" by simp_all
    from sd [OF p(1,2)] show "distinct (map fst ?d)" "\<forall>(k, v) \<in> set ?d. v \<in> set objs \<and> ko_id v = k" by simp_all
    have "fst ` set ?d = ko_id ` set objs \<inter> ?D \<union> ko_id ` set ?batch" using sd [OF p(1,2)] p(3) by simp
    also have "\<dots> = ko_id ` set objs \<inter> set (ex_seen ex)" unfolding batch using p(4) by auto
    finally show "fst ` set ?d = ko_id ` set objs \<inter> set (ex_seen ex)" .
  qed
  have groups: "set ?groups = {i \<in> set pending. is_group_object objs i}"
    using batch by (auto simp: is_group_object_def)
  have new_edges: "open_edges objs edges (set (ex_seen ex)) =
      open_edges objs edges ?D \<union> {m \<in> set edges. km_parent_object_id m \<in> set ?groups}"
    unfolding groups open_edges_def using I by auto
  have reach: "reached objs edges (set seeds) (km_child_object_id m)"
    if "m \<in> set edges" "km_parent_object_id m \<in> set ?groups" for m
    using that I unfolding groups by (intro reached.member) auto
  have "walk_ok objs edges seeds pending' ex' \<and> set (ex_seen ex') = set (ex_seen ex) \<union> set pending' \<and>
    set pending' \<inter> set (ex_seen ex) = {} \<and> set pending' \<subseteq> km_child_object_id ` set edges"
  proof (cases "?groups = []")
    case True
    with st have e: "pending' = []" "ex' = ?ex1" by (simp_all add: next_state_def Let_def)
    have "open_edges objs edges (set (ex_seen ex)) = open_edges objs edges ?D" using new_edges True by auto
    with I d show ?thesis unfolding e walk_ok_def Let_def by simp
  next
    case False
    let ?ms = "members ?groups"
    from st False have v: "foldl visit_member (?ex1, []) ?ms = (ex', pending')"
      by (simp add: next_state_def Let_def split: prod.splits)
    note vm = visit_members [OF v, simplified]
    have ms: "set ?ms = {m \<in> set edges. km_parent_object_id m \<in> set ?groups}" by (rule members_law)
    have seen: "set (ex_seen ex') = set (ex_seen ex) \<union> km_child_object_id ` set ?ms"
      and pend: "set pending' = km_child_object_id ` set ?ms - set (ex_seen ex)" and col: "ex_collected ex' = ?d"
      using vm by simp_all
    have D': "set (ex_seen ex') - set pending' = set (ex_seen ex)" unfolding seen pend by auto
    have par: "distinct (dict_get (ex_parent_ids ex') k []) \<and> set (dict_get (ex_parent_ids ex') k []) =
        km_parent_object_id ` {m \<in> open_edges objs edges (set (ex_seen ex)). km_child_object_id m = k}" for k
    proof -
      have "set (dict_get (ex_parent_ids ex') k []) = km_parent_object_id ` {m \<in> open_edges objs edges ?D. km_child_object_id m = k} \<union>
          km_parent_object_id ` {m \<in> set ?ms. km_child_object_id m = k}"
        using vm I by simp
      also have "\<dots> = km_parent_object_id ` {m \<in> open_edges objs edges (set (ex_seen ex)). km_child_object_id m = k}"
        unfolding new_edges ms by (auto simp: image_iff)
      finally show ?thesis using vm I by simp
    qed
    have closed: "\<forall>m \<in> open_edges objs edges (set (ex_seen ex)). km_child_object_id m \<in> set (ex_seen ex')"
      unfolding new_edges seen ms using I by auto
    have rch: "\<forall>i \<in> set (ex_seen ex'). reached objs edges (set seeds) i"
      unfolding seen ms using I reach by auto
    have "walk_ok objs edges seeds pending' ex'"
      unfolding walk_ok_def Let_def D' col using d par closed rch I seen pend by auto
    then show ?thesis unfolding seen pend ms by auto
  qed
  then show "walk_ok objs edges seeds pending' ex'"
    "set (ex_seen ex') = set (ex_seen ex) \<union> set pending'" "set pending' \<inter> set (ex_seen ex) = {}"
    "set pending' \<subseteq> km_child_object_id ` set edges" by blast+
qed

lemma loop_total:
  assumes "walk_ok objs edges seeds pending ex"
  shows "\<exists>r. expand_loop by_ids members pending ex = Some r \<and> walk_ok objs edges seeds [] r"
  using assms
proof (induction "2 * card (km_child_object_id ` set edges - set (ex_seen ex)) + (if pending = [] then 0 else 1)"
    arbitrary: pending ex rule: less_induct)
  case less
  show ?case
  proof (cases "pending = []")
    case True
    with less.prems show ?thesis by (simp add: expand_loop_step)
  next
    case False
    obtain pending' ex' where st: "next_state pending ex = (pending', ex')" by fastforce
    note n = next_state_ok [OF less.prems st]
    let ?C = "km_child_object_id ` set edges"
    have "2 * card (?C - set (ex_seen ex')) + (if pending' = [] then 0 else 1) < 2 * card (?C - set (ex_seen ex)) + 1"
    proof (cases "pending' = []")
      case True
      with n(2) show ?thesis by simp
    next
      case ne: False
      then obtain i where i: "i \<in> set pending'" by (cases pending') auto
      have "?C - set (ex_seen ex') \<subset> ?C - set (ex_seen ex)"
        using i n(2-4) by auto
      then have "card (?C - set (ex_seen ex')) < card (?C - set (ex_seen ex))"
        by (intro psubset_card_mono) simp_all
      with ne show ?thesis by simp
    qed
    with less.hyps [of ex' pending'] n(1) False st show ?thesis by (simp add: expand_loop_step [of pending])
  qed
qed

lemma reach_exact:
  obtains objects parents where "expand_object_groups by_ids members seeds = Some (objects, parents)"
    "distinct (map ko_id objects)" "set objects \<subseteq> set objs"
    "ko_id ` set objects = {i \<in> ko_id ` set objs. reached objs edges (set seeds) i}"
    "\<And>k. distinct (dict_get parents k [])"
    "\<And>k. set (dict_get parents k []) = {p. reached objs edges (set seeds) p \<and> is_group_object objs p \<and>
       (\<exists>m \<in> set edges. km_parent_object_id m = p \<and> km_child_object_id m = k)}"
proof -
  let ?ex = "\<lparr>ex_collected = [], ex_parent_ids = [], ex_seen = seeds\<rparr>"
  have "walk_ok objs edges seeds seeds ?ex"
    by (auto simp: walk_ok_def open_edges_def intro: reached.seed)
  from loop_total [OF this] obtain r where r: "expand_loop by_ids members seeds ?ex = Some r"
    "walk_ok objs edges seeds [] r" by blast
  note I = r(2) [unfolded walk_ok_def Let_def, simplified]
  have seen: "set (ex_seen r) = {i. reached objs edges (set seeds) i}"
  proof
    show "set (ex_seen r) \<subseteq> {i. reached objs edges (set seeds) i}" using I by auto
    show "{i. reached objs edges (set seeds) i} \<subseteq> set (ex_seen r)"
    proof
      fix i assume "i \<in> {i. reached objs edges (set seeds) i}"
      then have "reached objs edges (set seeds) i" by simp
      then show "i \<in> set (ex_seen r)"
      proof (induction rule: reached.induct)
        case (seed i)
        with I show ?case by auto
      next
        case (member m)
        then have "m \<in> open_edges objs edges (set (ex_seen r))" by (simp add: open_edges_def)
        with I show ?case by blast
      qed
    qed
  qed
  have ids: "map ko_id (map snd (ex_collected r)) = map fst (ex_collected r)"
    using I by auto
  have sub: "set (map snd (ex_collected r)) \<subseteq> set objs" using I by auto
  have "ko_id ` set (map snd (ex_collected r)) = set (map fst (ex_collected r))"
    unfolding ids [symmetric] by (simp add: image_image)
  also have "\<dots> = ko_id ` set objs \<inter> {i. reached objs edges (set seeds) i}"
    unfolding seen [symmetric] using I by simp
  finally have all: "ko_id ` set (map snd (ex_collected r)) = {i \<in> ko_id ` set objs. reached objs edges (set seeds) i}"
    by blast
  have par: "set (dict_get (ex_parent_ids r) k []) = {p. reached objs edges (set seeds) p \<and> is_group_object objs p \<and>
       (\<exists>m \<in> set edges. km_parent_object_id m = p \<and> km_child_object_id m = k)}" for k
  proof -
    have "set (dict_get (ex_parent_ids r) k []) = km_parent_object_id ` {m \<in> open_edges objs edges (set (ex_seen r)). km_child_object_id m = k}"
      using I by simp
    then show ?thesis unfolding open_edges_def seen by auto
  qed
  show thesis
  proof (rule that [of "map snd (ex_collected r)" "ex_parent_ids r"])
    show "expand_object_groups by_ids members seeds = Some (map snd (ex_collected r), ex_parent_ids r)"
      using r(1) by (simp add: expand_object_groups_def)
    show "distinct (map ko_id (map snd (ex_collected r)))" unfolding ids using I by simp
    show "distinct (dict_get (ex_parent_ids r) k [])" for k using I by simp
  qed (use sub all par in simp_all)
qed

end


section \<open>The tables\<close>

definition snapshot_edges :: "canonical_db \<Rightarrow> uuid \<Rightarrow> canonical_member list" where
  "snapshot_edges db snap = filter (parent_in_snapshot db snap) (db_members db)"

interpretation tables: object_source "get_objects_by_ids db snap" "get_members_by_parents db snap"
  "get_objects_by_snapshot db snap" "snapshot_edges db snap" for db snap
  by unfold_locales
    (auto simp: get_objects_by_ids_def get_objects_by_snapshot_def get_members_by_parents_def snapshot_edges_def)

end
