(* ===== verification/Canonical_Store.thy ===== *)
theory Canonical_Store
  imports Canonical_Scope
begin

text \<open>
  The invariant of the canonical tables and what a saved snapshot reads back as.

  \<open>db_ok\<close> holds the constraints of \<open>models.py\<close> and what the save adds: every stored snapshot
  is complete, with its counts.  \<open>saved_tables\<close> gives the tables after a save, from which the
  invariant, the round trip and the second save follow; \<open>save_linked_result\<close> is the converse, with
  the table that refuses a value.  Reads are proved for every order of the rows (\<open>same_rows\<close>).
\<close>

section \<open>The invariant\<close>

definition snapshot_ids :: "canonical_db \<Rightarrow> uuid set" where
  "snapshot_ids db = sn_id ` set (db_snapshots db)"

definition keys_ok :: "canonical_db \<Rightarrow> bool" where
  "keys_ok db \<longleftrightarrow>
     distinct (map sn_id (db_snapshots db)) \<and> distinct (map snapshot_key (db_snapshots db)) \<and>
     distinct (map kz_id (db_zones db)) \<and> distinct (map ko_id (db_objects db)) \<and>
     distinct (map km_id (db_members db)) \<and> distinct (map kr_id (db_rules db)) \<and>
     distinct (map kp_id (db_operands db)) \<and> distinct (map ki_id (db_issues db))"

definition references_ok :: "canonical_db \<Rightarrow> bool" where
  "references_ok db \<longleftrightarrow>
     kz_snapshot_id ` set (db_zones db) \<subseteq> snapshot_ids db \<and> ko_snapshot_id ` set (db_objects db) \<subseteq> snapshot_ids db \<and>
     kr_snapshot_id ` set (db_rules db) \<subseteq> snapshot_ids db \<and> ki_snapshot_id ` set (db_issues db) \<subseteq> snapshot_ids db \<and>
     km_parent_object_id ` set (db_members db) \<subseteq> ko_id ` set (db_objects db) \<and>
     km_child_object_id ` set (db_members db) \<subseteq> ko_id ` set (db_objects db) \<and>
     kp_rule_id ` set (db_operands db) \<subseteq> kr_id ` set (db_rules db) \<and>
     (\<forall>p \<in> set (db_operands db). operand_target_ok db p)"

definition snapshot_complete :: "canonical_db \<Rightarrow> canonical_snapshot \<Rightarrow> bool" where
  "snapshot_complete db s \<longleftrightarrow>
     sn_status s = SS_SUCCESS \<and> sn_source_snapshot_id s \<in> set (db_sources db) \<and>
     sn_zones_total s = length (filter (\<lambda>z. kz_snapshot_id z = sn_id s) (db_zones db)) \<and>
     sn_objects_total s = length (filter (\<lambda>x. ko_snapshot_id x = sn_id s) (db_objects db)) \<and>
     sn_rules_total s = length (filter (\<lambda>r. kr_snapshot_id r = sn_id s) (db_rules db)) \<and>
     sn_issues_total s = length (filter (\<lambda>i. ki_snapshot_id i = sn_id s) (db_issues db))"

definition db_ok :: "canonical_db \<Rightarrow> bool" where
  "db_ok db \<longleftrightarrow> keys_ok db \<and> references_ok db \<and> (\<forall>s \<in> set (db_snapshots db). snapshot_complete db s)"

definition empty_db :: "(string \<Rightarrow> string option) \<Rightarrow> uuid list \<Rightarrow> canonical_db" where
  "empty_db inet sources = \<lparr>db_sources = sources, db_snapshots = [], db_zones = [], db_objects = [], db_members = [],
     db_rules = [], db_operands = [], db_issues = [], db_inet = inet\<rparr>"

lemma empty_db_ok: "db_ok (empty_db inet sources)"
  by (simp add: db_ok_def keys_ok_def references_ok_def empty_db_def)


section \<open>The tables after a save\<close>

lemma fresh_append: "fresh_ids f new old \<Longrightarrow> distinct (map f old) \<Longrightarrow> distinct (map f (old @ new))"
  by (auto simp: fresh_ids_def list_all_iff) (metis imageI)

lemma fresh_append_map:
  "fresh_ids f new old \<Longrightarrow> distinct (map f old) \<Longrightarrow> (\<And>x. f (g x) = f x) \<Longrightarrow> distinct (map f (old @ map g new))"
  by (rule fresh_append) (simp_all add: fresh_ids_def list_all_iff comp_def)

lemma check_constraint_Inr [simp]: "check_constraint b t = Inr u \<longleftrightarrow> b"
  by (simp add: check_constraint_def)

lemma check_types_Inr [simp]: "check_types f xs t = Inr u \<longleftrightarrow> list_all f xs"
  by (simp add: check_types_def)

lemma update_counts_Inr [simp]:
  "update_counts i a b c d db = Inr db' \<longleftrightarrow> counts_fit a b c d \<and> db' = update_snapshot i (\<lambda>s. s\<lparr>sn_zones_total := a,
     sn_objects_total := b, sn_rules_total := c, sn_issues_total := d\<rparr>) db"
  by (auto simp: update_counts_def)

lemma inet_row_simps [simp]:
  "ko_id (inet_row inet x) = ko_id x" "ko_snapshot_id (inet_row inet x) = ko_snapshot_id x"
  "inet_row inet (x\<lparr>ko_snapshot_id := i\<rparr>) = (inet_row inet x)\<lparr>ko_snapshot_id := i\<rparr>"
  by (simp_all add: inet_row_def)

lemma fits_snapshot_id [simp]:
  "zone_fits (z\<lparr>kz_snapshot_id := i\<rparr>) = zone_fits z" "object_fits inet (x\<lparr>ko_snapshot_id := i\<rparr>) = object_fits inet x"
  "rule_fits (r\<lparr>kr_snapshot_id := i\<rparr>) = rule_fits r" "issue_fits (s\<lparr>ki_snapshot_id := i\<rparr>) = issue_fits s"
  by (simp_all add: zone_fits_def object_fits_def rule_fits_def issue_fits_def)

text \<open>The values of a command fit their columns; \<open>misfit\<close> is the first table that refuses one.\<close>

definition command_fits :: "(string \<Rightarrow> string option) \<Rightarrow> save_command \<Rightarrow> bool" where
  "command_fits inet cmd \<longleftrightarrow>
     string_fits 64 (sv_normalizer_code cmd) \<and> string_fits 32 (sv_normalizer_version cmd) \<and>
     list_all zone_fits (sv_zones cmd) \<and> list_all (object_fits inet) (sv_objects cmd) \<and>
     list_all member_fits (sv_object_members cmd) \<and> list_all rule_fits (sv_rules cmd) \<and>
     list_all operand_fits (sv_operands cmd) \<and> list_all issue_fits (sv_issues cmd) \<and>
     counts_fit (length (sv_zones cmd)) (length (sv_objects cmd)) (length (sv_rules cmd)) (length (sv_issues cmd))"

definition misfit :: "(string \<Rightarrow> string option) \<Rightarrow> save_command \<Rightarrow> string" where
  "misfit inet cmd =
     (if \<not> (string_fits 64 (sv_normalizer_code cmd) \<and> string_fits 32 (sv_normalizer_version cmd)) then ''canonical_snapshot''
      else if \<not> list_all zone_fits (sv_zones cmd) then ''canonical_zone''
      else if \<not> list_all (object_fits inet) (sv_objects cmd) then ''canonical_object''
      else if \<not> list_all member_fits (sv_object_members cmd) then ''canonical_object_member''
      else if \<not> list_all rule_fits (sv_rules cmd) then ''canonical_rule''
      else if \<not> list_all operand_fits (sv_operands cmd) then ''canonical_rule_operand''
      else if \<not> list_all issue_fits (sv_issues cmd) then ''canonical_issue''
      else ''canonical_snapshot'')"

definition new_snapshot :: "uuid \<Rightarrow> timestamp \<Rightarrow> save_command \<Rightarrow> canonical_snapshot" where
  "new_snapshot i now cmd =
     \<lparr>sn_id = i, sn_source_snapshot_id = sv_source_snapshot_id cmd, sn_normalizer_code = sv_normalizer_code cmd,
      sn_normalizer_version = sv_normalizer_version cmd, sn_status = SS_SUCCESS,
      sn_zones_total = length (sv_zones cmd), sn_objects_total = length (sv_objects cmd),
      sn_rules_total = length (sv_rules cmd), sn_issues_total = length (sv_issues cmd), sn_created_at = now\<rparr>"

definition after_save :: "uuid \<Rightarrow> timestamp \<Rightarrow> save_command \<Rightarrow> canonical_db \<Rightarrow> canonical_db" where
  "after_save i now cmd db =
     db\<lparr>db_snapshots := db_snapshots db @ [new_snapshot i now cmd],
        db_zones := db_zones db @ map (kz_snapshot_id_update (\<lambda>_. i)) (sv_zones cmd),
        db_objects := db_objects db @ map (\<lambda>x. inet_row (db_inet db) (x\<lparr>ko_snapshot_id := i\<rparr>)) (sv_objects cmd),
        db_members := db_members db @ sv_object_members cmd,
        db_rules := db_rules db @ map (kr_snapshot_id_update (\<lambda>_. i)) (sv_rules cmd),
        db_operands := db_operands db @ sv_operands cmd,
        db_issues := db_issues db @ map (ki_snapshot_id_update (\<lambda>_. i)) (sv_issues cmd)\<rparr>"

text \<open>The constraints that a save checks, with its tables before and after it.\<close>

definition save_linked :: "uuid \<Rightarrow> save_command \<Rightarrow> canonical_db \<Rightarrow> canonical_db \<Rightarrow> bool" where
  "save_linked i cmd db db' \<longleftrightarrow>
     i \<notin> snapshot_ids db \<and> sv_source_snapshot_id cmd \<in> set (db_sources db) \<and>
     (sv_source_snapshot_id cmd, sv_normalizer_code cmd, sv_normalizer_version cmd) \<notin> snapshot_key ` set (db_snapshots db) \<and>
     fresh_ids kz_id (sv_zones cmd) (db_zones db) \<and> fresh_ids ko_id (sv_objects cmd) (db_objects db) \<and>
     fresh_ids km_id (sv_object_members cmd) (db_members db) \<and> fresh_ids kr_id (sv_rules cmd) (db_rules db) \<and>
     fresh_ids kp_id (sv_operands cmd) (db_operands db) \<and> fresh_ids ki_id (sv_issues cmd) (db_issues db) \<and>
     km_parent_object_id ` set (sv_object_members cmd) \<subseteq> ko_id ` set (db_objects db') \<and>
     km_child_object_id ` set (sv_object_members cmd) \<subseteq> ko_id ` set (db_objects db') \<and>
     kp_rule_id ` set (sv_operands cmd) \<subseteq> kr_id ` set (db_rules db') \<and>
     (\<forall>p \<in> set (sv_operands cmd). operand_target_ok db' p)"

definition save_accepted :: "uuid \<Rightarrow> save_command \<Rightarrow> canonical_db \<Rightarrow> canonical_db \<Rightarrow> bool" where
  "save_accepted i cmd db db' \<longleftrightarrow> command_fits (db_inet db) cmd \<and> save_linked i cmd db db'"

lemma fresh_map: "(\<And>x. f (g x) = f x) \<Longrightarrow> fresh_ids f (map g xs) old \<longleftrightarrow> fresh_ids f xs old"
  by (simp add: fresh_ids_def list_all_iff comp_def)

lemma operand_target_cong:
  "kz_id ` set (db_zones db) = kz_id ` set (db_zones db') \<Longrightarrow> ko_id ` set (db_objects db) = ko_id ` set (db_objects db') \<Longrightarrow>
     operand_target_ok db p = operand_target_ok db' p"
  by (simp add: operand_target_ok_def split: option.split)

lemma update_new_snapshot:
  assumes "sn_id ` set ss \<inter> {i} = {}"
  shows "map (\<lambda>s. if sn_id s = i then f s else s) (ss @ [x]) = ss @ [if sn_id x = i then f x else x]"
proof -
  have "map (\<lambda>s. if sn_id s = i then f s else s) ss = ss"
    using assms by (intro map_idI) auto
  then show ?thesis by simp
qed

lemma save_eqs:
  "save_zones zs db = Inr db' \<longleftrightarrow> list_all zone_fits zs \<and> fresh_ids kz_id zs (db_zones db) \<and>
     list_all (\<lambda>z. snapshot_exists db (kz_snapshot_id z)) zs \<and> db' = db\<lparr>db_zones := db_zones db @ zs\<rparr>"
  "save_object_rows xs db = Inr db' \<longleftrightarrow> list_all (object_fits (db_inet db)) xs \<and> fresh_ids ko_id xs (db_objects db) \<and>
     list_all (\<lambda>x. snapshot_exists db (ko_snapshot_id x)) xs \<and> db' = db\<lparr>db_objects := db_objects db @ map (inet_row (db_inet db)) xs\<rparr>"
  "save_members ms db = Inr db' \<longleftrightarrow> list_all member_fits ms \<and> fresh_ids km_id ms (db_members db) \<and>
     list_all (\<lambda>m. km_parent_object_id m \<in> ko_id ` set (db_objects db) \<and>
       km_child_object_id m \<in> ko_id ` set (db_objects db)) ms \<and> db' = db\<lparr>db_members := db_members db @ ms\<rparr>"
  "save_rules rs db = Inr db' \<longleftrightarrow> list_all rule_fits rs \<and> fresh_ids kr_id rs (db_rules db) \<and>
     list_all (\<lambda>r. snapshot_exists db (kr_snapshot_id r)) rs \<and> db' = db\<lparr>db_rules := db_rules db @ rs\<rparr>"
  "save_operands ps db = Inr db' \<longleftrightarrow> list_all operand_fits ps \<and> fresh_ids kp_id ps (db_operands db) \<and>
     list_all (\<lambda>p. kp_rule_id p \<in> kr_id ` set (db_rules db) \<and> operand_target_ok db p) ps \<and>
     db' = db\<lparr>db_operands := db_operands db @ ps\<rparr>"
  "save_issues js db = Inr db' \<longleftrightarrow> list_all issue_fits js \<and> fresh_ids ki_id js (db_issues db) \<and>
     list_all (\<lambda>i. snapshot_exists db (ki_snapshot_id i)) js \<and> db' = db\<lparr>db_issues := db_issues db @ js\<rparr>"
  by (auto simp: save_zones_def save_object_rows_def save_members_def save_rules_def save_operands_def save_issues_def
      bind_r_eq_Inr)

lemma saved_children:
  assumes "save_children i cmd db1 = Inr db2" and "db1 = db\<lparr>db_snapshots := db_snapshots db @ [s]\<rparr>"
    and "sn_id s = i" "i \<notin> snapshot_ids db"
  shows "db2 = (after_save i now cmd db)\<lparr>db_snapshots := db_snapshots db @ [s\<lparr>sn_status := SS_SUCCESS,
      sn_zones_total := length (sv_zones cmd), sn_objects_total := length (sv_objects cmd),
      sn_rules_total := length (sv_rules cmd), sn_issues_total := length (sv_issues cmd)\<rparr>]\<rparr> \<and>
    list_all zone_fits (sv_zones cmd) \<and> list_all (object_fits (db_inet db)) (sv_objects cmd) \<and>
    list_all member_fits (sv_object_members cmd) \<and> list_all rule_fits (sv_rules cmd) \<and>
    list_all operand_fits (sv_operands cmd) \<and> list_all issue_fits (sv_issues cmd) \<and>
    counts_fit (length (sv_zones cmd)) (length (sv_objects cmd)) (length (sv_rules cmd)) (length (sv_issues cmd)) \<and>
    fresh_ids kz_id (sv_zones cmd) (db_zones db) \<and> fresh_ids ko_id (sv_objects cmd) (db_objects db) \<and>
    fresh_ids km_id (sv_object_members cmd) (db_members db) \<and> fresh_ids kr_id (sv_rules cmd) (db_rules db) \<and>
    fresh_ids kp_id (sv_operands cmd) (db_operands db) \<and> fresh_ids ki_id (sv_issues cmd) (db_issues db) \<and>
    km_parent_object_id ` set (sv_object_members cmd) \<subseteq> ko_id ` set (db_objects db2) \<and>
    km_child_object_id ` set (sv_object_members cmd) \<subseteq> ko_id ` set (db_objects db2) \<and>
    kp_rule_id ` set (sv_operands cmd) \<subseteq> kr_id ` set (db_rules db2) \<and>
    (\<forall>p \<in> set (sv_operands cmd). operand_target_ok db2 p)"
proof -
  have old: "sn_id ` set (db_snapshots db) \<inter> {i} = {}" using assms(4) by (simp add: snapshot_ids_def)
  let ?f = "\<lambda>db. update_status i SS_SUCCESS (update_snapshot i (\<lambda>s. s\<lparr>sn_zones_total := length (sv_zones cmd),
      sn_objects_total := length (sv_objects cmd), sn_rules_total := length (sv_rules cmd),
      sn_issues_total := length (sv_issues cmd)\<rparr>) db)"
  have upd: "db_snapshots (?f db3) = db_snapshots db @ [s\<lparr>sn_status := SS_SUCCESS,
      sn_zones_total := length (sv_zones cmd), sn_objects_total := length (sv_objects cmd),
      sn_rules_total := length (sv_rules cmd), sn_issues_total := length (sv_issues cmd)\<rparr>]"
    if "db_snapshots db3 = db_snapshots db @ [s]" for db3
    using that assms(3) by (simp only: update_status_def update_snapshot_def update_new_snapshot [OF old]
        canonical_db.simps) (simp add: update_new_snapshot [OF old, simplified])
  have rest: "?f db3 = db3\<lparr>db_snapshots := db_snapshots (?f db3)\<rparr>" for db3
    by (simp add: update_status_def update_snapshot_def)
  from assms(1) obtain d1 d2 d3 d4 d5 d6 where
    d: "save_zones (map (kz_snapshot_id_update (\<lambda>_. i)) (sv_zones cmd)) db1 = Inr d1"
      "save_object_rows (map (ko_snapshot_id_update (\<lambda>_. i)) (sv_objects cmd)) d1 = Inr d2"
      "save_members (sv_object_members cmd) d2 = Inr d3"
      "save_rules (map (kr_snapshot_id_update (\<lambda>_. i)) (sv_rules cmd)) d3 = Inr d4"
      "save_operands (sv_operands cmd) d4 = Inr d5"
      "save_issues (map (ki_snapshot_id_update (\<lambda>_. i)) (sv_issues cmd)) d5 = Inr d6" and db2f: "db2 = ?f d6"
    and cnt: "counts_fit (length (sv_zones cmd)) (length (sv_objects cmd)) (length (sv_rules cmd)) (length (sv_issues cmd))"
    by (auto simp: save_children_def bind_r_eq_Inr)
  have d6: "d6 = (after_save i now cmd db)\<lparr>db_snapshots := db_snapshots db @ [s]\<rparr>"
    using d by (simp add: save_eqs assms(2) after_save_def comp_def)
  have c: "list_all zone_fits (sv_zones cmd) \<and> list_all (object_fits (db_inet db)) (sv_objects cmd) \<and>
    list_all member_fits (sv_object_members cmd) \<and> list_all rule_fits (sv_rules cmd) \<and>
    list_all operand_fits (sv_operands cmd) \<and> list_all issue_fits (sv_issues cmd) \<and>
    counts_fit (length (sv_zones cmd)) (length (sv_objects cmd)) (length (sv_rules cmd)) (length (sv_issues cmd)) \<and>
    fresh_ids kz_id (sv_zones cmd) (db_zones db) \<and> fresh_ids ko_id (sv_objects cmd) (db_objects db) \<and>
    fresh_ids km_id (sv_object_members cmd) (db_members db) \<and> fresh_ids kr_id (sv_rules cmd) (db_rules db) \<and>
    fresh_ids kp_id (sv_operands cmd) (db_operands db) \<and> fresh_ids ki_id (sv_issues cmd) (db_issues db) \<and>
    km_parent_object_id ` set (sv_object_members cmd) \<subseteq> ko_id ` set (db_objects d6) \<and>
    km_child_object_id ` set (sv_object_members cmd) \<subseteq> ko_id ` set (db_objects d6) \<and>
    kp_rule_id ` set (sv_operands cmd) \<subseteq> kr_id ` set (db_rules d6) \<and>
    (\<forall>p \<in> set (sv_operands cmd). operand_target_ok d6 p)"
  proof -
    have "operand_target_ok d6 p = operand_target_ok d4 p" for p
      using d(5,6) by (intro operand_target_cong) (simp_all add: save_eqs)
    moreover have "\<forall>p \<in> set (sv_operands cmd). operand_target_ok d4 p"
      using d(5) by (simp add: save_eqs list_all_iff)
    ultimately have "\<forall>p \<in> set (sv_operands cmd). operand_target_ok d6 p" by simp
    then show ?thesis
      using d cnt by (simp add: save_eqs assms(2) fresh_map list_all_iff image_subset_iff)
  qed
  have s6: "db_snapshots d6 = db_snapshots db @ [s]" by (simp add: d6)
  have db2: "db2 = d6\<lparr>db_snapshots := db_snapshots db2\<rparr>" using rest [of d6] db2f by simp
  have "operand_target_ok db2 p = operand_target_ok d6 p" for p
    by (subst db2) (rule operand_target_cong; simp)
  moreover have "db_objects db2 = db_objects d6" "db_rules db2 = db_rules d6" by (subst db2; simp)+
  moreover have "db2 = (after_save i now cmd db)\<lparr>db_snapshots := db_snapshots db2\<rparr>"
    by (subst db2, subst d6) simp
  ultimately show ?thesis using c upd [OF s6, folded db2f] by simp
qed

lemma saved_tables:
  assumes "save_canonical_snapshot reread i now cmd db = (Inr (j, True), db')"
  shows "j = i \<and> db' = after_save i now cmd db \<and> save_accepted i cmd db db'"
proof -
  from assms have sv: "case save_snapshot now (create_canonical_snapshot i now (sv_source_snapshot_id cmd)
        (sv_normalizer_code cmd) (sv_normalizer_version cmd) SS_PENDING) db of Inl e \<Rightarrow> False
      | Inr db1 \<Rightarrow> j = i \<and> save_children i cmd db1 = Inr db'"
    by (auto simp: save_canonical_snapshot_def transactional_def Let_def bind_r_def
        split: option.splits sum.splits if_splits exc.splits)
  then obtain db1 where db1: "save_snapshot now (create_canonical_snapshot i now (sv_source_snapshot_id cmd)
        (sv_normalizer_code cmd) (sv_normalizer_version cmd) SS_PENDING) db = Inr db1"
    and ji: "j = i" and ch: "save_children i cmd db1 = Inr db'"
    by (auto split: sum.splits)
  let ?s = "create_canonical_snapshot i now (sv_source_snapshot_id cmd) (sv_normalizer_code cmd) (sv_normalizer_version cmd) SS_PENDING"
  have new: "string_fits 64 (sv_normalizer_code cmd)" "string_fits 32 (sv_normalizer_version cmd)"
    "i \<notin> snapshot_ids db" "sv_source_snapshot_id cmd \<in> set (db_sources db)"
    "(sv_source_snapshot_id cmd, sv_normalizer_code cmd, sv_normalizer_version cmd) \<notin> snapshot_key ` set (db_snapshots db)"
    and e1: "db1 = db\<lparr>db_snapshots := db_snapshots db @ [?s]\<rparr>"
    using db1 by (auto simp: save_snapshot_def bind_r_eq_Inr fresh_ids_def create_canonical_snapshot_def snapshot_ids_def
        list_all_iff snapshot_key_def snapshot_fits_def)
  have id: "sn_id ?s = i" by (simp add: create_canonical_snapshot_def)
  have "?s\<lparr>sn_status := SS_SUCCESS, sn_zones_total := length (sv_zones cmd), sn_objects_total := length (sv_objects cmd),
      sn_rules_total := length (sv_rules cmd), sn_issues_total := length (sv_issues cmd)\<rparr> = new_snapshot i now cmd"
    by (simp add: create_canonical_snapshot_def new_snapshot_def)
  moreover have "(after_save i now cmd db)\<lparr>db_snapshots := db_snapshots db @ [new_snapshot i now cmd]\<rparr> = after_save i now cmd db"
    by (simp add: after_save_def)
  ultimately have e: "db' = after_save i now cmd db"
    using saved_children [OF ch e1 id new(3), of now] by (simp only:)
  moreover have "save_accepted i cmd db db'"
    unfolding save_accepted_def save_linked_def command_fits_def using saved_children [OF ch e1 id new(3), of now] new by blast
  ultimately show ?thesis using ji by blast
qed

lemma unsaved_tables:
  "save_canonical_snapshot reread i now cmd db = (r, db') \<Longrightarrow> (\<And>j. r \<noteq> Inr (j, True)) \<Longrightarrow> db' = db"
  by (auto simp: save_canonical_snapshot_def transactional_def Let_def bind_r_def
      split: option.splits sum.splits if_splits exc.splits)

lemma after_save_simps [simp]:
  "db_snapshots (after_save i now cmd db) = db_snapshots db @ [new_snapshot i now cmd]"
  "db_zones (after_save i now cmd db) = db_zones db @ map (kz_snapshot_id_update (\<lambda>_. i)) (sv_zones cmd)"
  "db_objects (after_save i now cmd db) =
     db_objects db @ map (\<lambda>x. (inet_row (db_inet db) x)\<lparr>ko_snapshot_id := i\<rparr>) (sv_objects cmd)"
  "db_members (after_save i now cmd db) = db_members db @ sv_object_members cmd"
  "db_rules (after_save i now cmd db) = db_rules db @ map (kr_snapshot_id_update (\<lambda>_. i)) (sv_rules cmd)"
  "db_operands (after_save i now cmd db) = db_operands db @ sv_operands cmd"
  "db_issues (after_save i now cmd db) = db_issues db @ map (ki_snapshot_id_update (\<lambda>_. i)) (sv_issues cmd)"
  "db_sources (after_save i now cmd db) = db_sources db" "db_inet (after_save i now cmd db) = db_inet db"
  by (simp_all add: after_save_def)

lemma new_snapshot_simps [simp]:
  "sn_id (new_snapshot i now cmd) = i" "sn_status (new_snapshot i now cmd) = SS_SUCCESS"
  "sn_source_snapshot_id (new_snapshot i now cmd) = sv_source_snapshot_id cmd"
  "snapshot_key (new_snapshot i now cmd) = (sv_source_snapshot_id cmd, sv_normalizer_code cmd, sv_normalizer_version cmd)"
  by (simp_all add: new_snapshot_def snapshot_key_def)

text \<open>A save with new ids and resolved references succeeds, unless a value does not fit its column.\<close>

lemma save_linked_result:
  assumes "save_linked i cmd db (after_save i now cmd db)"
  shows "save_canonical_snapshot reread i now cmd db =
    (if command_fits (db_inet db) cmd then (Inr (i, True), after_save i now cmd db)
     else (Inl (DataError (misfit (db_inet db) cmd)), db))"
proof -
  let ?key = "(sv_source_snapshot_id cmd, sv_normalizer_code cmd, sv_normalizer_version cmd)"
  let ?s = "create_canonical_snapshot i now (sv_source_snapshot_id cmd) (sv_normalizer_code cmd) (sv_normalizer_version cmd) SS_PENDING"
  note acc = assms [unfolded save_linked_def]
  have key: "?key \<notin> snapshot_key ` set (db_snapshots db)" and i: "i \<notin> snapshot_ids db"
    and src: "sv_source_snapshot_id cmd \<in> set (db_sources db)" using acc by - (elim conjE, assumption)+
  have none: "get_by_source_and_normalizer db (sv_source_snapshot_id cmd) (sv_normalizer_code cmd) (sv_normalizer_version cmd) = None"
  proof -
    have "filter (\<lambda>s. sn_source_snapshot_id s = sv_source_snapshot_id cmd \<and> sn_normalizer_code s = sv_normalizer_code cmd \<and>
        sn_normalizer_version s = sv_normalizer_version cmd) (db_snapshots db) = []"
      using key by (force simp: filter_empty_conv snapshot_key_def)
    then show ?thesis by (simp add: get_by_source_and_normalizer_def sort_desc_def first_row_def)
  qed
  have s: "snapshot_key ?s = ?key" "sn_id ?s = i" "sn_source_snapshot_id ?s = sv_source_snapshot_id cmd" "?s\<lparr>sn_created_at := now\<rparr> = ?s"
    "snapshot_fits ?s \<longleftrightarrow> string_fits 64 (sv_normalizer_code cmd) \<and> string_fits 32 (sv_normalizer_version cmd)"
    by (simp_all add: create_canonical_snapshot_def snapshot_key_def snapshot_fits_def counts_fit_def integer_fits_def)
  define db1 where "db1 = db\<lparr>db_snapshots := db_snapshots db @ [?s]\<rparr>"
  have "\<forall>t \<in> set (db_snapshots db). snapshot_key t \<noteq> snapshot_key ?s" using key s(1) by (metis image_eqI)
  then have first: "save_snapshot now ?s db = (if snapshot_fits ?s then Inr db1 else Inl (DataError ''canonical_snapshot''))"
    using i src s(1-4)
    by (simp add: save_snapshot_def check_types_def check_constraint_def fresh_ids_def snapshot_ids_def list_all_iff db1_def)
  have ex: "snapshot_exists d i" if "db_snapshots d = db_snapshots db1" for d
    using that s(2) by (simp add: snapshot_exists_def db1_def)
  let ?z = "map (kz_snapshot_id_update (\<lambda>_. i)) (sv_zones cmd)"
  let ?o = "map (ko_snapshot_id_update (\<lambda>_. i)) (sv_objects cmd)"
  let ?r = "map (kr_snapshot_id_update (\<lambda>_. i)) (sv_rules cmd)"
  let ?i = "map (ki_snapshot_id_update (\<lambda>_. i)) (sv_issues cmd)"
  define d1 where "d1 = db1\<lparr>db_zones := db_zones db @ ?z\<rparr>"
  define d2 where "d2 = d1\<lparr>db_objects := db_objects db @ map (inet_row (db_inet db)) ?o\<rparr>"
  define d3 where "d3 = d2\<lparr>db_members := db_members db @ sv_object_members cmd\<rparr>"
  define d4 where "d4 = d3\<lparr>db_rules := db_rules db @ ?r\<rparr>"
  define d5 where "d5 = d4\<lparr>db_operands := db_operands db @ sv_operands cmd\<rparr>"
  define d6 where "d6 = d5\<lparr>db_issues := db_issues db @ ?i\<rparr>"
  note ds = db1_def d1_def d2_def d3_def d4_def d5_def d6_def
  have target: "operand_target_ok d4 p = operand_target_ok (after_save i now cmd db) p" for p
    by (rule operand_target_cong) (simp_all add: ds image_image comp_def)
  note fits_map = fits_snapshot_id list.pred_map comp_def
  have a: "save_zones ?z db1 = (if list_all zone_fits (sv_zones cmd) then Inr d1 else Inl (DataError ''canonical_zone''))"
    "save_object_rows ?o d1 =
       (if list_all (object_fits (db_inet db)) (sv_objects cmd) then Inr d2 else Inl (DataError ''canonical_object''))"
    "save_rules ?r d3 = (if list_all rule_fits (sv_rules cmd) then Inr d4 else Inl (DataError ''canonical_rule''))"
    "save_issues ?i d5 = (if list_all issue_fits (sv_issues cmd) then Inr d6 else Inl (DataError ''canonical_issue''))"
    using acc ex by (simp_all add: save_zones_def save_object_rows_def save_rules_def save_issues_def check_types_def
        check_constraint_def fits_map fresh_map ds list_all_iff)
  have b: "save_members (sv_object_members cmd) d2 =
      (if list_all member_fits (sv_object_members cmd) then Inr d3 else Inl (DataError ''canonical_object_member''))"
    using acc by (simp add: save_members_def check_types_def check_constraint_def ds list_all_iff image_subset_iff image_image)
  have c: "save_operands (sv_operands cmd) d4 =
      (if list_all operand_fits (sv_operands cmd) then Inr d5 else Inl (DataError ''canonical_rule_operand''))"
    using acc target by (simp add: save_operands_def check_types_def check_constraint_def list_all_iff d5_def image_subset_iff)
      (simp add: ds image_image)
  have ch: "save_children i cmd db1 = (if snapshot_fits ?s \<longrightarrow> command_fits (db_inet db) cmd
      then Inr (update_status i SS_SUCCESS (update_snapshot i (\<lambda>s. s\<lparr>sn_zones_total := length (sv_zones cmd),
        sn_objects_total := length (sv_objects cmd), sn_rules_total := length (sv_rules cmd),
        sn_issues_total := length (sv_issues cmd)\<rparr>) d6))
      else Inl (DataError (misfit (db_inet db) cmd)))" if "snapshot_fits ?s"
    using that by (simp add: save_children_def a b c update_counts_def command_fits_def misfit_def s(5))
  show ?thesis
  proof (cases "command_fits (db_inet db) cmd")
    case True
    then have "snapshot_fits ?s" by (simp add: s(5) command_fits_def)
    with True ch have "\<exists>db2. save_children i cmd db1 = Inr db2" by simp
    with \<open>snapshot_fits ?s\<close> have "\<exists>j db'. save_canonical_snapshot reread i now cmd db = (Inr (j, True), db')"
      by (auto simp: save_canonical_snapshot_def transactional_def none first Let_def)
    with saved_tables True show ?thesis by fastforce
  next
    case False
    then show ?thesis
      by (cases "snapshot_fits ?s") (use ch in \<open>simp_all add: save_canonical_snapshot_def transactional_def none first Let_def\<close>,
        simp add: s(5) misfit_def)
  qed
qed


section \<open>A save keeps the invariant\<close>

lemma operand_target_mono:
  "operand_target_ok db p \<Longrightarrow> kz_id ` set (db_zones db) \<subseteq> kz_id ` set (db_zones db') \<Longrightarrow>
     ko_id ` set (db_objects db) \<subseteq> ko_id ` set (db_objects db') \<Longrightarrow> operand_target_ok db' p"
  by (auto simp: operand_target_ok_def split: option.splits)

lemma save_keeps_db_ok:
  assumes ok: "db_ok db" and sv: "save_canonical_snapshot reread i now cmd db = (r, db')"
  shows "db_ok db'"
proof (cases "\<exists>j. r = Inr (j, True)")
  case False
  then have "db' = db" by (intro unsaved_tables [OF sv]) blast
  with ok show ?thesis by simp
next
  case True
  then obtain j where "r = Inr (j, True)" by blast
  from saved_tables [OF sv [unfolded this]] have e: "db' = after_save i now cmd db" and acc: "save_accepted i cmd db db'"
    by blast+
  note a = acc [unfolded save_accepted_def save_linked_def snapshot_ids_def] and k = ok [unfolded db_ok_def]
  note kk = k [THEN conjunct1, unfolded keys_ok_def]
  have n: "i \<notin> sn_id ` set (db_snapshots db)" "sv_source_snapshot_id cmd \<in> set (db_sources db)"
    "(sv_source_snapshot_id cmd, sv_normalizer_code cmd, sv_normalizer_version cmd) \<notin> snapshot_key ` set (db_snapshots db)"
    using a by - (elim conjE, assumption)+
  have m: "km_parent_object_id ` set (sv_object_members cmd) \<subseteq> ko_id ` set (db_objects db')"
    "km_child_object_id ` set (sv_object_members cmd) \<subseteq> ko_id ` set (db_objects db')"
    "kp_rule_id ` set (sv_operands cmd) \<subseteq> kr_id ` set (db_rules db')"
    "\<forall>p \<in> set (sv_operands cmd). operand_target_ok db' p"
    using a by - (elim conjE, assumption)+
  have r: "kz_snapshot_id ` set (db_zones db) \<subseteq> snapshot_ids db" "ko_snapshot_id ` set (db_objects db) \<subseteq> snapshot_ids db"
    "kr_snapshot_id ` set (db_rules db) \<subseteq> snapshot_ids db" "ki_snapshot_id ` set (db_issues db) \<subseteq> snapshot_ids db"
    "km_parent_object_id ` set (db_members db) \<subseteq> ko_id ` set (db_objects db)"
    "km_child_object_id ` set (db_members db) \<subseteq> ko_id ` set (db_objects db)"
    "kp_rule_id ` set (db_operands db) \<subseteq> kr_id ` set (db_rules db)"
    "\<forall>p \<in> set (db_operands db). operand_target_ok db p"
    using k unfolding references_ok_def by - (elim conjE, assumption)+
  have f: "fresh_ids kz_id (sv_zones cmd) (db_zones db)" "fresh_ids ko_id (sv_objects cmd) (db_objects db)"
    "fresh_ids km_id (sv_object_members cmd) (db_members db)" "fresh_ids kr_id (sv_rules cmd) (db_rules db)"
    "fresh_ids kp_id (sv_operands cmd) (db_operands db)" "fresh_ids ki_id (sv_issues cmd) (db_issues db)"
    using a by - (elim conjE, assumption)+
  have d: "distinct (map kz_id (db_zones db))" "distinct (map ko_id (db_objects db))" "distinct (map km_id (db_members db))"
    "distinct (map kr_id (db_rules db))" "distinct (map kp_id (db_operands db))" "distinct (map ki_id (db_issues db))"
    using kk by - (elim conjE, assumption)+
  have "distinct (map kz_id (db_zones db'))" "distinct (map ko_id (db_objects db'))" "distinct (map km_id (db_members db'))"
    "distinct (map kr_id (db_rules db'))" "distinct (map kp_id (db_operands db'))" "distinct (map ki_id (db_issues db'))"
    unfolding e after_save_simps
    by (rule fresh_append_map [OF f(1) d(1)] fresh_append_map [OF f(2) d(2)] fresh_append [OF f(3) d(3)]
        fresh_append_map [OF f(4) d(4)] fresh_append [OF f(5) d(5)] fresh_append_map [OF f(6) d(6)]; simp)+
  moreover have "distinct (map sn_id (db_snapshots db'))" "distinct (map snapshot_key (db_snapshots db'))"
    using n kk by (simp_all add: e)
  ultimately have "keys_ok db'" by (simp add: keys_ok_def)
  moreover have "references_ok db'"
  proof -
    have sub: "kz_id ` set (db_zones db) \<subseteq> kz_id ` set (db_zones db')" "ko_id ` set (db_objects db) \<subseteq> ko_id ` set (db_objects db')"
      "kr_id ` set (db_rules db) \<subseteq> kr_id ` set (db_rules db')"
      unfolding e after_save_simps by auto
    have ids: "snapshot_ids db' = insert i (snapshot_ids db)" by (simp add: e snapshot_ids_def)
    have "\<forall>p \<in> set (db_operands db'). operand_target_ok db' p"
      using m(4) r(8) operand_target_mono [OF _ sub(1,2)] by (simp add: e) blast
    moreover have "km_parent_object_id ` set (db_members db') \<subseteq> ko_id ` set (db_objects db')"
      "km_child_object_id ` set (db_members db') \<subseteq> ko_id ` set (db_objects db')"
      "kp_rule_id ` set (db_operands db') \<subseteq> kr_id ` set (db_rules db')"
      using m(1-3) subset_trans [OF r(5) sub(2)] subset_trans [OF r(6) sub(2)] subset_trans [OF r(7) sub(3)]
      by (simp_all only: e after_save_simps set_append image_Un Un_subset_iff simp_thms)
    moreover have "kz_snapshot_id ` set (db_zones db') \<subseteq> snapshot_ids db'" "ko_snapshot_id ` set (db_objects db') \<subseteq> snapshot_ids db'"
      "kr_snapshot_id ` set (db_rules db') \<subseteq> snapshot_ids db'" "ki_snapshot_id ` set (db_issues db') \<subseteq> snapshot_ids db'"
      unfolding ids using r(1-4) by (auto simp: e)
    ultimately show ?thesis by (simp add: references_ok_def)
  qed
  moreover have "snapshot_complete db' s" if "s \<in> set (db_snapshots db')" for s
  proof (cases "s \<in> set (db_snapshots db)")
    case True
    with n(1) have ne: "i \<noteq> sn_id s" by auto
    from True k have "snapshot_complete db s" by simp
    then show ?thesis by (simp add: snapshot_complete_def e ne comp_def)
  next
    case False
    with that have s: "s = new_snapshot i now cmd" by (simp add: e)
    have old: "filter (\<lambda>x. f x = i) xs = []" if "f ` set xs \<subseteq> snapshot_ids db" for f :: "'b \<Rightarrow> uuid" and xs
      using that n(1) by (auto simp: filter_empty_conv snapshot_ids_def)
    have none: "filter (\<lambda>z. kz_snapshot_id z = i) (db_zones db) = []" "filter (\<lambda>x. ko_snapshot_id x = i) (db_objects db) = []"
      "filter (\<lambda>r. kr_snapshot_id r = i) (db_rules db) = []" "filter (\<lambda>x. ki_snapshot_id x = i) (db_issues db) = []"
      by (rule old [OF r(1)] old [OF r(2)] old [OF r(3)] old [OF r(4)])+
    show ?thesis unfolding s using n(2) none
      by (simp add: snapshot_complete_def e comp_def) (simp add: new_snapshot_def)
  qed
  ultimately show ?thesis by (simp add: db_ok_def)
qed


section \<open>Reading a saved snapshot\<close>

text \<open>The same rows in another order: what the database may return between two requests.\<close>

definition same_rows :: "canonical_db \<Rightarrow> canonical_db \<Rightarrow> bool" where
  "same_rows db db' \<longleftrightarrow>
     mset (db_snapshots db') = mset (db_snapshots db) \<and> mset (db_zones db') = mset (db_zones db) \<and>
     mset (db_objects db') = mset (db_objects db) \<and> mset (db_members db') = mset (db_members db) \<and>
     mset (db_rules db') = mset (db_rules db) \<and> mset (db_operands db') = mset (db_operands db) \<and>
     mset (db_issues db') = mset (db_issues db)"

definition operand_order :: "canonical_operand \<Rightarrow> string \<times> int" where
  "operand_order p = (rule_role_value (kp_operand_role p), kp_position p)"

definition rule_reads :: "save_command \<Rightarrow> uuid \<Rightarrow> canonical_rule \<Rightarrow> operand_dto rule_dto \<Rightarrow> bool" where
  "rule_reads cmd i r d \<longleftrightarrow>
     (\<exists>ps. mset ps = mset (filter (\<lambda>p. kp_rule_id p = kr_id r) (sv_operands cmd)) \<and> sorted (map operand_order ps) \<and>
       d = rule_to_dto (r\<lparr>kr_snapshot_id := i\<rparr>) (Some (map operand_to_dto ps)))"

text \<open>The zones, objects and rules of the command, each once; only what the queries order is ordered.\<close>

definition graph_reads :: "(string \<Rightarrow> string option) \<Rightarrow> uuid \<Rightarrow> timestamp \<Rightarrow> save_command \<Rightarrow> snapshot_graph \<Rightarrow> bool" where
  "graph_reads inet i now cmd g \<longleftrightarrow>
     sg_snapshot g = new_snapshot i now cmd \<and>
     mset (sg_zones g) = mset (map (\<lambda>z. zone_to_dto (z\<lparr>kz_snapshot_id := i\<rparr>)) (sv_zones cmd)) \<and>
     mset (sg_objects g) =
       mset (map (\<lambda>x. object_to_dto (inet_row inet (x\<lparr>ko_snapshot_id := i\<rparr>)) None []) (sv_objects cmd)) \<and>
     (\<exists>rs. mset rs = mset (sv_rules cmd) \<and> sorted (map kr_priority rs) \<and> list_all2 (rule_reads cmd i) rs (sg_rules g))"

lemma filter_sort_key: "filter P (sort_key f xs) = sort_key f (filter P xs)"
  by (simp add: filter_sort)

lemma sort_key_cong_on: "(\<And>x y. x \<in> set xs \<Longrightarrow> y \<in> set xs \<Longrightarrow> f x \<le> f y \<longleftrightarrow> g x \<le> g y) \<Longrightarrow> sort_key f xs = sort_key g xs"
proof (induction xs)
  case (Cons x xs)
  have "insort_key f x ys = insort_key g x ys" if "set ys \<subseteq> set xs" for ys
    using that
  proof (induction ys)
    case (Cons y ys)
    then have "f x \<le> f y \<longleftrightarrow> g x \<le> g y" using Cons.prems \<open>\<And>x' y. x' \<in> set (x # xs) \<Longrightarrow> y \<in> set (x # xs) \<Longrightarrow> f x' \<le> f y \<longleftrightarrow> g x' \<le> g y\<close>
      by auto
    with Cons show ?case by simp
  qed simp
  with Cons show ?case by simp
qed simp

lemma mset_mapE:
  assumes "mset xs = mset (map f ys)"
  obtains zs where "mset zs = mset ys" "map f zs = xs"
  using assms
proof (induction xs arbitrary: ys thesis)
  case (Cons x xs)
  from Cons.prems(2) have "x \<in># mset (map f ys)" by (metis list.set_intros(1) set_mset_mset)
  then obtain y where y: "y \<in> set ys" "x = f y" by auto
  then obtain as bs where ys: "ys = as @ y # bs" by (meson split_list)
  with Cons.prems(2) y have "mset xs = mset (map f (as @ bs))" by simp
  with Cons.IH obtain zs where "mset zs = mset (as @ bs)" "map f zs = xs" by blast
  with y ys show ?case by (intro Cons.prems(1) [of "y # zs"]) simp_all
qed simp

lemma same_rows_filter:
  assumes "mset xs = mset (old @ map g new)" "f ` set old \<subseteq> S" "i \<notin> S" "\<And>x. f (g x) = i"
  shows "mset (filter (\<lambda>x. f x = i) xs) = mset (map g new)"
proof -
  have "filter (\<lambda>x. f x = i) (old @ map g new) = map g new"
    using assms(2-4) by (auto simp: filter_empty_conv filter_map comp_def)
  then show ?thesis by (metis assms(1) mset_filter)
qed

lemma find_unique:
  assumes "mset xs = mset (old @ [y])" "P y" "\<forall>x \<in> set old. \<not> P x"
  shows "List.find P xs = Some y" "filter P xs = [y]"
proof -
  have "mset (filter P xs) = mset (filter P (old @ [y]))" using assms(1) by (metis mset_filter)
  also have "filter P (old @ [y]) = [y]" using assms(2,3) by (simp add: filter_empty_conv)
  finally show f: "filter P xs = [y]" by (simp del: mset_filter)
  have "List.find P xs = (case filter P xs of [] \<Rightarrow> None | x # _ \<Rightarrow> Some x)"
    by (induction xs) auto
  with f show "List.find P xs = Some y" by simp
qed

lemma saved_operands:
  assumes ok: "references_ok db" and fresh: "fresh_ids kr_id (sv_rules cmd) (db_rules db)" and r: "r \<in> set (sv_rules cmd)"
    and rows: "same_rows (after_save i now cmd db) db'"
  shows "\<exists>ps. mset ps = mset (filter (\<lambda>p. kp_rule_id p = kr_id r) (sv_operands cmd)) \<and> sorted (map operand_order ps) \<and>
    dict_get (operands_by_rule (get_operands_by_snapshot db' i)) (kr_id r) [] = map operand_to_dto ps"
proof -
  have m: "mset (db_operands db') = mset (db_operands db @ sv_operands cmd)"
    "set (db_rules db') = set (db_rules db @ map (kr_snapshot_id_update (\<lambda>_. i)) (sv_rules cmd))"
    using rows unfolding same_rows_def after_save_simps by - (elim conjE, erule mset_eq_setD | elim conjE, assumption)+
  have inn: "rule_in_snapshot db' i (kr_id r)"
    using r by (auto simp: rule_in_snapshot_def list_ex_iff m(2) intro!: bexI [of _ "r\<lparr>kr_snapshot_id := i\<rparr>"])
  have "filter (\<lambda>p. kp_rule_id p = kr_id r) (db_operands db) = []"
  proof -
    have "kp_rule_id ` set (db_operands db) \<subseteq> kr_id ` set (db_rules db)"
      using ok unfolding references_ok_def by - (elim conjE, assumption)
    moreover have "kr_id r \<notin> kr_id ` set (db_rules db)"
      using fresh r by (simp add: fresh_ids_def list_all_iff)
    ultimately show ?thesis unfolding filter_empty_conv by (metis imageI subsetD)
  qed
  then have f: "mset (filter (\<lambda>p. kp_rule_id p = kr_id r) (db_operands db')) =
      mset (filter (\<lambda>p. kp_rule_id p = kr_id r) (sv_operands cmd))"
    using m(1) by (metis append_Nil filter_append mset_filter)
  define ps where "ps = filter (\<lambda>p. kp_rule_id p = kr_id r) (get_operands_by_snapshot db' i)"
  let ?key = "\<lambda>p. (kp_rule_id p, operand_order p)"
  have g: "get_operands_by_snapshot db' i = sort_key ?key (filter (\<lambda>p. rule_in_snapshot db' i (kp_rule_id p)) (db_operands db'))"
    by (simp add: get_operands_by_snapshot_def operand_order_def)
  have fr: "filter (\<lambda>p. kp_rule_id p = kr_id r) (filter (\<lambda>p. rule_in_snapshot db' i (kp_rule_id p)) (db_operands db')) =
      filter (\<lambda>p. kp_rule_id p = kr_id r) (db_operands db')"
    using inn by (auto intro: filter_cong)
  have ps: "ps = sort_key ?key (filter (\<lambda>p. kp_rule_id p = kr_id r) (db_operands db'))"
    by (simp only: ps_def g filter_sort_key fr)
  have "sorted (map ?key ps)" by (simp add: ps)
  moreover have "\<forall>p \<in> set ps. kp_rule_id p = kr_id r" by (simp add: ps_def)
  ultimately have "sorted (map operand_order ps)"
    by (induction ps) (auto simp: less_eq_prod_def)
  moreover have "mset ps = mset (filter (\<lambda>p. kp_rule_id p = kr_id r) (sv_operands cmd))" by (simp only: ps mset_sort f)
  ultimately show ?thesis by (intro exI [of _ ps]) (simp add: operands_by_rule_get ps_def)
qed

lemma saved_graph:
  assumes ok: "db_ok db" and acc: "save_linked i cmd db db1" and rows: "same_rows (after_save i now cmd db) db'"
  shows "\<exists>g. get_canonical_snapshot db' i = Inr g \<and> graph_reads (db_inet db) i now cmd g"
proof -
  have n: "i \<notin> snapshot_ids db" and f: "fresh_ids kr_id (sv_rules cmd) (db_rules db)"
    using acc unfolding save_linked_def by - (elim conjE, assumption)+
  have r: "references_ok db" using ok by (simp add: db_ok_def)
  then have k: "kz_snapshot_id ` set (db_zones db) \<subseteq> snapshot_ids db" "ko_snapshot_id ` set (db_objects db) \<subseteq> snapshot_ids db"
    "kr_snapshot_id ` set (db_rules db) \<subseteq> snapshot_ids db"
    unfolding references_ok_def by - (elim conjE, assumption)+
  note m = rows [unfolded same_rows_def after_save_simps]
  have s: "get_snapshot db' i = Some (new_snapshot i now cmd)"
    unfolding get_snapshot_def using n m by (intro find_unique) (auto simp: snapshot_ids_def)
  have z: "mset (get_zones_by_snapshot db' i) = mset (map (kz_snapshot_id_update (\<lambda>_. i)) (sv_zones cmd))"
    unfolding get_zones_by_snapshot_def using m by (intro same_rows_filter [OF _ k(1) n]) simp_all
  have x: "mset (get_objects_by_snapshot db' i) =
      mset (map (\<lambda>x. (inet_row (db_inet db) x)\<lparr>ko_snapshot_id := i\<rparr>) (sv_objects cmd))"
    unfolding get_objects_by_snapshot_def using m by (intro same_rows_filter [OF _ k(2) n]) simp_all
  have "mset (get_rules_by_snapshot db' i) = mset (map (kr_snapshot_id_update (\<lambda>_. i)) (sv_rules cmd))"
    unfolding get_rules_by_snapshot_def mset_sort using m by (intro same_rows_filter [OF _ k(3) n]) simp_all
  then obtain rs where rs: "mset rs = mset (sv_rules cmd)" "map (kr_snapshot_id_update (\<lambda>_. i)) rs = get_rules_by_snapshot db' i"
    by (rule mset_mapE)
  have "sorted (map kr_priority (get_rules_by_snapshot db' i))" by (simp add: get_rules_by_snapshot_def)
  then have sorted: "sorted (map kr_priority rs)" by (simp add: rs(2) [symmetric] comp_def)
  let ?grouped = "operands_by_rule (get_operands_by_snapshot db' i)"
  let ?g = "\<lparr>sg_snapshot = new_snapshot i now cmd, sg_zones = map zone_to_dto (get_zones_by_snapshot db' i),
    sg_objects = map (\<lambda>x. object_to_dto x None []) (get_objects_by_snapshot db' i),
    sg_rules = map (\<lambda>r. rule_to_dto r (Some (dict_get ?grouped (kr_id r) []))) (get_rules_by_snapshot db' i)\<rparr>"
  have "rule_reads cmd i r (rule_to_dto (r\<lparr>kr_snapshot_id := i\<rparr>) (Some (dict_get ?grouped (kr_id r) [])))" if "r \<in> set rs" for r
    using saved_operands [OF r f _ rows, of r] that rs(1) unfolding rule_reads_def by (metis mset_eq_setD)
  then have "list_all2 (rule_reads cmd i) rs (sg_rules ?g)"
    by (simp add: rs(2) [symmetric] list_all2_map2 list.rel_refl_strong comp_def)
  moreover have "mset (sg_zones ?g) = mset (map (\<lambda>z. zone_to_dto (z\<lparr>kz_snapshot_id := i\<rparr>)) (sv_zones cmd))"
    "mset (sg_objects ?g) = mset (map (\<lambda>x. object_to_dto (inet_row (db_inet db) (x\<lparr>ko_snapshot_id := i\<rparr>)) None []) (sv_objects cmd))"
    by (simp_all add: z x comp_def image_mset.compositionality)
  moreover have "get_canonical_snapshot db' i = Inr ?g"
    by (simp add: get_canonical_snapshot_def require_snapshot_def s Let_def)
  ultimately show ?thesis
    unfolding graph_reads_def using rs(1) sorted by (intro exI [of _ ?g] conjI exI [of _ rs]) simp_all
qed

lemma saved_found:
  assumes acc: "save_linked i cmd db db1" and rows: "same_rows (after_save i now cmd db) db'"
  shows "get_by_source_and_normalizer db' (sv_source_snapshot_id cmd) (sv_normalizer_code cmd)
      (sv_normalizer_version cmd) = Some (new_snapshot i now cmd)"
proof -
  let ?P = "\<lambda>s. sn_source_snapshot_id s = sv_source_snapshot_id cmd \<and> sn_normalizer_code s = sv_normalizer_code cmd \<and>
    sn_normalizer_version s = sv_normalizer_version cmd"
  have "(sv_source_snapshot_id cmd, sv_normalizer_code cmd, sv_normalizer_version cmd) \<notin> snapshot_key ` set (db_snapshots db)"
    using acc unfolding save_linked_def by - (elim conjE, assumption)
  then have "\<forall>s \<in> set (db_snapshots db). \<not> ?P s" by (force simp: snapshot_key_def)
  moreover have "?P (new_snapshot i now cmd)" by (simp add: new_snapshot_def)
  ultimately have "filter ?P (db_snapshots db') = [new_snapshot i now cmd]"
    using rows by (intro find_unique(2) [of _ "db_snapshots db"]) (simp_all add: same_rows_def)
  then show ?thesis by (simp add: get_by_source_and_normalizer_def sort_desc_def first_row_def)
qed

lemma saved_twice:
  assumes "save_linked i cmd db db1" "same_rows (after_save i now cmd db) db'"
    and "sv_source_snapshot_id cmd2 = sv_source_snapshot_id cmd"
    and "sv_normalizer_code cmd2 = sv_normalizer_code cmd" "sv_normalizer_version cmd2 = sv_normalizer_version cmd"
  shows "save_canonical_snapshot reread j now2 cmd2 db' = (Inr (i, False), db')"
  using saved_found [OF assms(1,2)] assms(3-5)
  by (simp add: save_canonical_snapshot_def transactional_def)

end
