(* ===== verification/Canonical_Reader.thy ===== *)
theory Canonical_Reader
  imports Canonical_Scope Mapping_Domain
begin

text \<open>
  \<open>CanonicalReader\<close> (\<open>src/src/app/modules/mapping/adapters/canonical_reader.py\<close>): the mapping
  module reads rules and objects of the canonical module as its own entities.  These operations are the
  fields \<open>mv_scope_entities\<close>, \<open>mv_scope_rules\<close>, \<open>mv_addr_object\<close> and
  \<open>mv_service\<close> of the mapping's environment.
\<close>

section \<open>Conversion\<close>

definition to_addr_kind :: "object_kind \<Rightarrow> exc + can_addr_kind" where
  "to_addr_kind k =
     (case k of
        OK_HOST \<Rightarrow> Inr CK_HOST | OK_SUBNET \<Rightarrow> Inr CK_SUBNET | OK_RANGE \<Rightarrow> Inr CK_RANGE
      | OK_FQDN \<Rightarrow> Inr CK_FQDN | OK_ANY_ADDR \<Rightarrow> Inr CK_ANY_ADDR
      | OK_UNRESOLVED_ADDR \<Rightarrow> Inr CK_UNRESOLVED_ADDR | OK_ADDR_GROUP \<Rightarrow> Inr CK_ADDR_GROUP
      | _ \<Rightarrow> Inl (ValueError (repr_str (object_kind_value k) @ '' is not a valid CanonicalAddrObjKind'')))"

definition to_service_kind :: "object_kind \<Rightarrow> exc + can_service_kind" where
  "to_service_kind k =
     (case k of
        OK_TCP \<Rightarrow> Inr SK_TCP | OK_UDP \<Rightarrow> Inr SK_UDP | OK_ICMP \<Rightarrow> Inr SK_ICMP
      | OK_IP_PROTO \<Rightarrow> Inr SK_IP_PROTO | OK_ANY_SERVICE \<Rightarrow> Inr SK_ANY_SERVICE
      | OK_SERVICE_GROUP \<Rightarrow> Inr SK_SERVICE_GROUP | OK_UNRESOLVED_SERVICE \<Rightarrow> Inr SK_UNRESOLVED_SERVICE
      | _ \<Rightarrow> Inl (ValueError (repr_str (object_kind_value k) @ '' is not a valid CanonicalServiceKind'')))"

definition map_obj_to_addr :: "object_dto \<Rightarrow> exc + can_addr" where
  "map_obj_to_addr x =
     bind_r (to_addr_kind (od_object_kind x)) (\<lambda>k.
       Inr \<lparr>ca_id = od_id x, ca_kind = k, ca_name = od_name x, ca_parent_id = od_parent_id x,
         ca_parent_ids = od_parent_ids x, ca_cidr = od_cidr x, ca_range_start = od_range_start x,
         ca_range_end = od_range_end x, ca_fqdn = od_fqdn x\<rparr>)"

definition map_obj_to_service :: "object_dto \<Rightarrow> exc + can_service" where
  "map_obj_to_service x =
     bind_r (to_service_kind (od_object_kind x)) (\<lambda>k.
       Inr \<lparr>cs_id = od_id x, cs_kind = k, cs_name = od_name x, cs_parent_id = od_parent_id x,
         cs_parent_ids = od_parent_ids x, cs_protocol = od_protocol x, cs_port_from = od_port_from x,
         cs_port_to = od_port_to x, cs_icmp_type = od_icmp_type x, cs_icmp_code = od_icmp_code x\<rparr>)"

definition map_zone_dto :: "zone_dto \<Rightarrow> can_zone" where
  "map_zone_dto z = \<lparr>cz_id = zd_id z, cz_zone_key = zd_zone_key z, cz_name = zd_name z\<rparr>"

definition to_rule_role :: "rule_role \<Rightarrow> can_operand_role" where
  "to_rule_role r =
     (case r of RO_SRC_ZONE \<Rightarrow> CR_SRC_ZONE | RO_DST_ZONE \<Rightarrow> CR_DST_ZONE | RO_SRC_OBJECT \<Rightarrow> CR_SRC_OBJECT
      | RO_DST_OBJECT \<Rightarrow> CR_DST_OBJECT | RO_SERVICE \<Rightarrow> CR_SERVICE)"

definition to_rule_action :: "string \<Rightarrow> exc + can_action" where
  "to_rule_action s =
     (if s = ''PERMIT'' then Inr CAN_PERMIT else if s = ''DENY'' then Inr CAN_DENY
      else Inl (ValueError (repr_str s @ '' is not a valid CanonicalRuleAction'')))"

definition map_rule_dto :: "operand_dto rule_dto \<Rightarrow> exc + can_rule" where
  "map_rule_dto r =
     bind_r (to_rule_action (ru_action r)) (\<lambda>a.
       Inr \<lparr>cr_id = ru_id r, cr_snapshot_id = ru_snapshot_id r, cr_name = ru_name r, cr_action = a,
         cr_priority = ru_priority r,
         cr_operands = map (\<lambda>p. \<lparr>cop_id = pd_id p, cop_rule_id = pd_rule_id p,
           cop_role = to_rule_role (pd_operand_role p), cop_target_zone_id = pd_target_zone_id p,
           cop_target_object_id = pd_target_object_id p\<rparr>) (or_empty (ru_operands r))\<rparr>)"


section \<open>Reading\<close>

definition uuid_repr :: "uuid \<Rightarrow> string" where
  "uuid_repr i = ''UUID('' @ repr_str (uuid_text i) @ '')''"

definition contains_text :: "string \<Rightarrow> string \<Rightarrow> bool" where
  "contains_text t s = list_ex (\<lambda>n. take (length t) (drop n s) = t) [0..<Suc (length s)]"

definition uuid_set_text :: "uuid list \<Rightarrow> string" where
  "uuid_set_text is = (if is = [] then ''set()'' else ''{'' @ join '', '' (map uuid_repr is) @ ''}'')"

definition uuids_text :: "uuid list \<Rightarrow> string" where
  "uuids_text is = ''['' @ join '', '' (map uuid_repr is) @ '']''"

definition rule_ids_filter :: "uuid list \<Rightarrow> rule_filters" where
  "rule_ids_filter is = no_filters\<lparr>rf_rule_ids := Some is\<rparr>"

fun split_objects :: "object_dto list \<Rightarrow> exc + can_addr list \<times> can_service list" where
  "split_objects [] = Inr ([], [])"
| "split_objects (x # xs) =
     (case od_object_family x of
        OF_ADDR \<Rightarrow> bind_r (map_obj_to_addr x) (\<lambda>a. bind_r (split_objects xs) (\<lambda>(as, ss). Inr (a # as, ss)))
      | OF_SERVICE \<Rightarrow> bind_r (map_obj_to_service x) (\<lambda>s. bind_r (split_objects xs) (\<lambda>(as, ss). Inr (as, s # ss))))"

definition reader_scope_entities ::
  "(string \<Rightarrow> string) \<Rightarrow> canonical_db \<Rightarrow> uuid \<Rightarrow> uuid list \<Rightarrow> can_scope_entities result" where
  "reader_scope_entities collate db snap ids =
     (if ids = [] then Some (Inl (MappingModuleError ''Canonical rules ids must be provided''))
      else bind_o (get_canonical_rule_scope collate db (scope_query_for snap (rule_ids_filter ids))) (\<lambda>r.
        if sr_rules r = [] then
          Some (Inl (MappingNotFoundError (''No found canonical rules for provided ids list: '' @ uuids_text ids)))
        else if length (sr_rules r) \<noteq> length ids then
          Some (Inl (MappingNotFoundError (''Not found canonical rules for ids: '' @
            uuid_set_text (filter (\<lambda>i. i \<notin> ru_id ` set (sr_rules r)) (remdups ids)))))
        else Some (bind_r (split_objects (sr_objects r)) (\<lambda>(as, ss).
          Inr \<lparr>ce_zones = map map_zone_dto (sr_zones r), ce_addr_objects = as, ce_services = ss\<rparr>))))"

definition canonical_scope_rules ::
  "(string \<Rightarrow> string) \<Rightarrow> canonical_db \<Rightarrow> uuid \<Rightarrow> uuid list \<Rightarrow> can_rule list result" where
  "canonical_scope_rules collate db snap ids =
     bind_o (get_canonical_rule_scope collate db (scope_query_for snap (rule_ids_filter ids))) (\<lambda>r.
       Some (traverse map_rule_dto (sr_rules r)))"

definition reader_object :: "canonical_db \<Rightarrow> uuid \<Rightarrow> uuid \<Rightarrow> exc + object_dto" where
  "reader_object db snap i =
     (case get_canonical_object db snap i False of
        Inr (x, _) \<Rightarrow> Inr x
      | Inl e \<Rightarrow>
          (if contains_text ''not found'' (exc_text e) then
             Inl (MappingNotFoundError (''Not found canonical addr object '' @ uuid_text i))
           else Inl e))"

definition reader_addr_object :: "canonical_db \<Rightarrow> uuid \<Rightarrow> uuid \<Rightarrow> exc + can_addr option" where
  "reader_addr_object db snap i =
     bind_r (reader_object db snap i) (\<lambda>x.
       if od_object_family x \<noteq> OF_ADDR then
         Inl (MappingNotFoundError (''Canonical object '' @ uuid_text i @ '' is not ADDR''))
       else bind_r (map_obj_to_addr x) (\<lambda>a. Inr (Some a)))"

definition reader_service :: "canonical_db \<Rightarrow> uuid \<Rightarrow> uuid \<Rightarrow> exc + can_service option" where
  "reader_service db snap i =
     bind_r (reader_object db snap i) (\<lambda>x.
       if od_object_family x \<noteq> OF_SERVICE then
         Inl (MappingNotFoundError (''Canonical object '' @ uuid_text i @ '' is not SERVICE''))
       else bind_r (map_obj_to_service x) (\<lambda>s. Inr (Some s)))"

end
