(* ===== verification/Canonical_Facts.thy ===== *)
theory Canonical_Facts
  imports Canonical_Expansion Canonical_Store Canonical_Reader Mapping_Rules
begin

text \<open>
  What readers of a canonical snapshot get.  \<open>rule_scope_total\<close>: a rule scope is always
  returned.  \<open>reader_consistent\<close>: for a well-formed snapshot, what the mapping module reads for
  some rules is closed: it holds the zones and objects that the rules name, every group has its members,
  every parent is a group, and no id occurs twice.
\<close>

section \<open>Groups above a set of objects\<close>

inductive above :: "canonical_db \<Rightarrow> uuid \<Rightarrow> uuid set \<Rightarrow> uuid \<Rightarrow> bool" for db snap S where
  above_seed: "i \<in> S \<Longrightarrow> above db snap S i"
| above_member: "above db snap S (km_child_object_id m) \<Longrightarrow> m \<in> set (snapshot_edges db snap) \<Longrightarrow>
    above db snap S (km_parent_object_id m)"

lemma parents_of_set:
  "set (parents_of db snap is) = km_parent_object_id ` {m \<in> set (snapshot_edges db snap). km_child_object_id m \<in> set is}"
  by (auto simp: parents_of_def snapshot_edges_def)

lemma expand_up_exact:
  assumes "set pending \<subseteq> set collected" "\<forall>i \<in> set collected. above db snap S i" "S \<subseteq> set collected"
    and "\<forall>m \<in> set (snapshot_edges db snap). km_child_object_id m \<in> set collected - set pending \<longrightarrow>
      km_parent_object_id m \<in> set collected"
  shows "\<exists>r. expand_up db snap collected pending = Some r \<and> set r = {i. above db snap S i}"
  using assms
proof (induction "2 * card (km_parent_object_id ` set (snapshot_edges db snap) - set collected) + (if pending = [] then 0 else 1)"
    arbitrary: pending collected rule: less_induct)
  case less
  let ?P = "km_parent_object_id ` set (snapshot_edges db snap)"
  show ?case
  proof (cases "pending = []")
    case True
    have "i \<in> set collected" if "above db snap S i" for i
      using that
    proof (induction rule: above.induct)
      case (above_member m)
      with less.prems(4) True show ?case by simp
    qed (use less.prems(3) in auto)
    with less.prems(2) have "set collected = {i. above db snap S i}" by auto
    with True show ?thesis by (simp add: expand_up.simps)
  next
    case False
    let ?news = "filter (\<lambda>p. p \<notin> set collected) (parents_of db snap pending)"
    have step: "expand_up db snap collected pending = expand_up db snap (collected @ ?news) ?news"
      using False by (subst expand_up.simps) (simp add: Let_def)
    have sub: "set ?news \<subseteq> ?P" by (auto simp: parents_of_set)
    have m: "2 * card (?P - set (collected @ ?news)) + (if ?news = [] then 0 else 1) < 2 * card (?P - set collected) + 1"
    proof (cases "?news = []")
      case True
      then show ?thesis by simp
    next
      case ne: False
      then obtain i where "i \<in> set ?news" by (cases ?news) auto
      with sub have "?P - set (collected @ ?news) \<subset> ?P - set collected" by auto
      then have "card (?P - set (collected @ ?news)) < card (?P - set collected)"
        by (intro psubset_card_mono) simp_all
      with ne show ?thesis by simp
    qed
    show ?thesis unfolding step
    proof (rule less.hyps)
      show "2 * card (?P - set (collected @ ?news)) + (if ?news = [] then 0 else 1) <
          2 * card (?P - set collected) + (if pending = [] then 0 else 1)" using m False by simp
      show "\<forall>i \<in> set (collected @ ?news). above db snap S i"
        using less.prems(1,2) by (auto simp: parents_of_set intro: above_member)
      show "\<forall>m \<in> set (snapshot_edges db snap). km_child_object_id m \<in> set (collected @ ?news) - set ?news \<longrightarrow>
          km_parent_object_id m \<in> set (collected @ ?news)"
        using less.prems(4) by (auto simp: parents_of_set)
    qed (use less.prems(3) in auto)
  qed
qed

lemma expand_operand_ids_exact:
  "\<exists>r. expand_operand_object_ids db snap is = Some r \<and> set r = {i. above db snap (set is) i}"
proof (cases "is = []")
  case True
  have "\<not> above db snap {} i" for i
    by (rule notI, induction rule: above.induct) simp_all
  with True show ?thesis by (simp add: expand_operand_object_ids_def)
next
  case False
  have "\<exists>r. expand_up db snap (remdups is) (remdups is) = Some r \<and> set r = {i. above db snap (set is) i}"
    by (rule expand_up_exact) (auto intro: above_seed)
  with False show ?thesis by (simp add: expand_operand_object_ids_def)
qed

lemma search_ids_total: "\<exists>r. resolve_search_object_ids db snap f = Some r"
proof -
  have "\<exists>r. expand_operand_object_ids db snap is = Some r" for "is" using expand_operand_ids_exact by blast
  then show ?thesis by (auto simp: resolve_search_object_ids_def Let_def split: option.split)
qed

lemma filtered_total: "\<exists>rs. build_filtered_query db snap f = Some rs \<and> set rs \<subseteq> {r \<in> set (db_rules db). kr_snapshot_id r = snap}"
proof -
  obtain up where up: "expand_operand_object_ids db snap (rf_operand_object_ids f) = Some up"
    using expand_operand_ids_exact by blast
  obtain s where s: "resolve_search_object_ids db snap f = Some s" using search_ids_total by blast
  show ?thesis unfolding build_filtered_query_def up s by (auto simp: filter_matches_def)
qed


section \<open>The rule scope\<close>

lemma collect_objects_total: "\<exists>xs. collect_objects db snap ps narrow = Some xs"
proof -
  have "\<exists>r. expand_object_groups (get_objects_by_ids db snap) (get_members_by_parents db snap) seeds = Some r" for seeds
    by (rule tables.reach_exact [of db snap seeds]) blast
  then show ?thesis by (auto simp: collect_objects_def Let_def)
qed

lemma rule_scope_total:
  "get_snapshot db (sq_snapshot_id q) = None \<Longrightarrow>
     get_canonical_rule_scope collate db q = Some (Inl (snapshot_missing (sq_snapshot_id q)))"
  "get_snapshot db (sq_snapshot_id q) \<noteq> None \<Longrightarrow> \<exists>r. get_canonical_rule_scope collate db q = Some (Inr r)"
proof -
  show "get_canonical_rule_scope collate db q = Some (Inl (snapshot_missing (sq_snapshot_id q)))"
    if "get_snapshot db (sq_snapshot_id q) = None"
    using that by (simp add: get_canonical_rule_scope_def require_snapshot_def bind_o_def)
  assume "get_snapshot db (sq_snapshot_id q) \<noteq> None"
  then obtain s where s: "get_snapshot db (sq_snapshot_id q) = Some s" by blast
  obtain rs where rs: "build_filtered_query db (sq_snapshot_id q) (sq_filters q) = Some rs"
    using filtered_total by blast
  obtain xs where xs: "collect_objects db (sq_snapshot_id q) (get_operands_by_rule_ids db (sq_snapshot_id q)
      (map kr_id (limit_rows (sq_limit q) (sq_offset q) (order_rules collate (sq_sort q) rs)))) (filters_has_any (sq_filters q)) = Some xs"
    using collect_objects_total by blast
  show "\<exists>r. get_canonical_rule_scope collate db q = Some (Inr r)"
    using xs by (simp add: get_canonical_rule_scope_def require_snapshot_def bind_o_def s count_filtered_def
        list_filtered_def rs Let_def)
qed


section \<open>Rules with their operands\<close>

definition rule_row :: "canonical_db \<Rightarrow> uuid \<Rightarrow> canonical_rule \<Rightarrow> operand_dto rule_dto" where
  "rule_row db snap r = rule_to_dto r (Some (map operand_to_dto (get_operands_by_rule db snap (kr_id r))))"

lemma rule_operands:
  assumes "i \<in> set is"
  shows "dict_get (operands_by_rule (get_operands_by_rule_ids db snap is)) i [] =
      map operand_to_dto (get_operands_by_rule db snap i)"
proof -
  have f: "filter (\<lambda>p. kp_rule_id p = i \<and> rule_in_snapshot db snap (kp_rule_id p) \<and> kp_rule_id p \<in> set is) (db_operands db) =
      filter (\<lambda>p. rule_in_snapshot db snap (kp_rule_id p) \<and> kp_rule_id p = i) (db_operands db)"
    by (rule filter_cong) (use assms in auto)
  have "filter (\<lambda>p. kp_rule_id p = i) (get_operands_by_rule_ids db snap is) =
      sort_key (\<lambda>p. (kp_rule_id p, rule_role_value (kp_operand_role p), kp_position p))
        (filter (\<lambda>p. rule_in_snapshot db snap (kp_rule_id p) \<and> kp_rule_id p = i) (db_operands db))"
    using assms by (auto simp: get_operands_by_rule_ids_def filter_sort_key f conj_commute)
  also have "\<dots> = get_operands_by_rule db snap i"
    unfolding get_operands_by_rule_def by (rule sort_key_cong_on) auto
  finally show ?thesis by (simp add: operands_by_rule_get)
qed

lemma rule_rows:
  "set rs \<subseteq> set is \<Longrightarrow> map (\<lambda>r. rule_to_dto r (Some (dict_get (operands_by_rule (get_operands_by_rule_ids db snap (map kr_id is)))
     (kr_id r) []))) rs = map (rule_row db snap) rs"
  by (rule map_cong) (auto simp: rule_row_def rule_operands)

lemma rule_scope_rules:
  assumes "get_canonical_rule_scope collate db q = Some (Inr r)" "build_filtered_query db (sq_snapshot_id q) (sq_filters q) = Some rs"
  shows "sr_rules r = map (rule_row db (sq_snapshot_id q))
      (limit_rows (sq_limit q) (sq_offset q) (order_rules collate (sq_sort q) rs))"
  using assms by (auto simp: get_canonical_rule_scope_def bind_o_def count_filtered_def list_filtered_def Let_def rule_rows
      split: option.splits sum.splits)


section \<open>Pages\<close>

lemma order_rules_rows:
  assumes "mset rs = mset rs'" "distinct (map kr_id rs)"
  shows "order_rules collate srt rs = order_rules collate srt rs'"
proof -
  have inj: "inj_on f (set rs)" if "\<And>r. snd (f r) = kr_id r" for f :: "canonical_rule \<Rightarrow> 'b \<times> uuid"
  proof (rule inj_onI)
    fix x y assume xy: "x \<in> set rs" "y \<in> set rs" "f x = f y"
    then have "kr_id x = kr_id y" using that [of x] that [of y] by simp
    with xy assms(2) show "x = y" by (auto simp: distinct_map dest: inj_onD)
  qed
  have key: "sort_key f rs = sort_key f rs'" if "inj_on f (set rs)" for f :: "canonical_rule \<Rightarrow> 'k :: linorder"
    by (rule sort_key_inj_key_eq [OF _ that]) (use assms(1) in simp_all)
  have id: "inj_on kr_id (set rs)" using assms(2) by (simp add: distinct_map)
  show ?thesis
    by (cases srt)
      (auto simp: order_rules_def key [OF inj] key [OF id] split: sort_direction.split)
qed

lemma expand_up_cong:
  assumes "expand_up db snap c p = Some r" "\<And>is. parents_of db' snap is = parents_of db snap is"
  shows "expand_up db' snap c p = Some r"
proof -
  have "(\<forall>is. parents_of db' snap is = parents_of db snap is) \<longrightarrow> expand_up db' snap c p = Some r"
  proof (rule expand_up.raw_induct [OF _ assms(1), where P = "\<lambda>db snap c p r.
      (\<forall>is. parents_of db' snap is = parents_of db snap is) \<longrightarrow> expand_up db' snap c p = Some r"], intro impI)
    fix step db snap c p r
    assume "\<And>db snap c p r. step db snap c p = Some r \<Longrightarrow>
        (\<forall>is. parents_of db' snap is = parents_of db snap is) \<longrightarrow> expand_up db' snap c p = Some r"
      and "(if p = [] then Some c else let parents = parents_of db snap p; news = filter (\<lambda>p. p \<notin> set c) parents
          in step db snap (c @ news) news) = Some r"
      and "\<forall>is. parents_of db' snap is = parents_of db snap is"
    then show "expand_up db' snap c p = Some r"
      by (subst expand_up.simps) (auto simp: Let_def split: if_splits)
  qed
  with assms(2) show ?thesis by blast
qed

lemma filtered_rows:
  assumes "mset rows = mset (db_rules db)"
  shows "\<exists>rs rs'. build_filtered_query db snap f = Some rs \<and> build_filtered_query (db\<lparr>db_rules := rows\<rparr>) snap f = Some rs' \<and>
    mset rs' = mset rs"
proof -
  obtain ids where ids: "expand_operand_object_ids db snap (rf_operand_object_ids f) = Some ids"
    using expand_operand_ids_exact by blast
  obtain s where s: "resolve_search_object_ids db snap f = Some s" using search_ids_total by blast
  have "filter_matches (db\<lparr>db_rules := rows\<rparr>) snap f ids s r = filter_matches db snap f ids s r" for r
    by (simp add: filter_matches_def search_matches_def zone_search_exists_def object_ids_exists_def cong: option.case_cong)
  moreover have "expand_operand_object_ids (db\<lparr>db_rules := rows\<rparr>) snap is = expand_operand_object_ids db snap is" for "is"
  proof -
    obtain r where r: "expand_operand_object_ids db snap is = Some r" using expand_operand_ids_exact by blast
    have "parents_of (db\<lparr>db_rules := rows\<rparr>) snap is = parents_of db snap is" for "is"
      by (simp add: parents_of_def parent_in_snapshot_def)
    with r show ?thesis by (auto simp: expand_operand_object_ids_def intro: expand_up_cong split: if_splits)
  qed
  ultimately show ?thesis using ids s assms
    by (simp add: build_filtered_query_def resolve_search_object_ids_def cong: if_cong option.case_cong)
qed

lemma rules_page:
  assumes "get_snapshot db snap = Some s" "build_filtered_query db snap f = Some rs"
  shows "get_canonical_rules collate db snap f lim off srt =
      Some (Inr (map (rule_row db snap) (limit_rows lim (Some off) (order_rules collate srt rs)),
        \<lparr>pg_limit = lim, pg_offset = Some off, pg_rules_total = length rs\<rparr>))"
  using assms by (simp add: get_canonical_rules_def require_snapshot_def bind_o_def count_filtered_def list_filtered_def
      Let_def rule_rows)

lemma concat_pages:
  assumes "0 < k"
  shows "concat (map (\<lambda>j. take k (drop (j * k) xs)) [0..<(length xs + k - 1) div k]) = xs"
proof -
  have "concat (map (\<lambda>j. take k (drop (j * k) xs)) [0..<n]) = take (n * k) xs" for n
    by (induction n) (simp_all add: take_add [symmetric] add.commute)
  moreover have "length xs \<le> (length xs + k - 1) div k * k"
  proof -
    have "length xs + k - 1 < Suc ((length xs + k - 1) div k) * k"
      using assms by (metis dividend_less_div_times mult_Suc add.commute)
    with assms show ?thesis by simp
  qed
  ultimately show ?thesis by simp
qed

lemma rule_row_rows: "set rows = set (db_rules db) \<Longrightarrow> rule_row (db\<lparr>db_rules := rows\<rparr>) snap r = rule_row db snap r"
  by (simp add: rule_row_def get_operands_by_rule_def rule_in_snapshot_def list_ex_iff)

lemma order_rules_set [simp]: "set (order_rules collate srt rs) = set rs" "length (order_rules collate srt rs) = length rs"
  by (auto simp: order_rules_def sort_desc_def split: option.split sort_direction.split prod.split)

lemma pages_partition:
  assumes s: "get_snapshot db snap = Some s" and d: "distinct (map kr_id (db_rules db))" and k: "0 < k"
    and rows: "\<And>j. mset (rows j) = mset (db_rules db)"
  shows "\<exists>rs. get_canonical_rules collate db snap f None 0 srt =
      Some (Inr (map (rule_row db snap) rs, \<lparr>pg_limit = None, pg_offset = Some 0, pg_rules_total = length rs\<rparr>)) \<and>
    (\<forall>j. get_canonical_rules collate (db\<lparr>db_rules := rows j\<rparr>) snap f (Some k) (j * k) srt =
      Some (Inr (map (rule_row db snap) (take k (drop (j * k) rs)),
        \<lparr>pg_limit = Some k, pg_offset = Some (j * k), pg_rules_total = length rs\<rparr>))) \<and>
    concat (map (\<lambda>j. take k (drop (j * k) rs)) [0..<(length rs + k - 1) div k]) = rs"
proof -
  obtain fs where fs: "build_filtered_query db snap f = Some fs" using filtered_total by blast
  let ?rs = "order_rules collate srt fs"
  have page: "get_canonical_rules collate (db\<lparr>db_rules := rows j\<rparr>) snap f (Some k) (j * k) srt =
      Some (Inr (map (rule_row db snap) (take k (drop (j * k) ?rs)),
        \<lparr>pg_limit = Some k, pg_offset = Some (j * k), pg_rules_total = length ?rs\<rparr>))" for j
  proof -
    obtain gs where gs: "build_filtered_query (db\<lparr>db_rules := rows j\<rparr>) snap f = Some gs" "mset gs = mset fs"
      using filtered_rows [OF rows] fs by fastforce
    have "distinct (map kr_id fs)"
      using fs d by (auto simp: build_filtered_query_def distinct_map_filter split: Option.bind_splits)
    then have o: "order_rules collate srt gs = ?rs" using order_rules_rows [OF gs(2) [symmetric]] by simp
    have "get_snapshot (db\<lparr>db_rules := rows j\<rparr>) snap = Some s" using s by (simp add: get_snapshot_def)
    from rules_page [OF this gs(1)] o show ?thesis
      using mset_eq_setD [OF rows] mset_eq_length [OF gs(2)] by (simp add: limit_rows_def rule_row_rows)
  qed
  show ?thesis using rules_page [OF s fs, of collate None 0 srt] page concat_pages [OF k, of ?rs]
    by (intro exI [of _ ?rs]) (simp add: limit_rows_def)
qed

lemma object_filter_rows:
  assumes s: "get_snapshot db snap = Some s" and ids: "ids \<noteq> []"
  shows "\<exists>rs. get_canonical_rules collate db snap (no_filters\<lparr>rf_operand_object_ids := ids\<rparr>) None 0 srt =
      Some (Inr (map (rule_row db snap) rs, \<lparr>pg_limit = None, pg_offset = Some 0, pg_rules_total = length rs\<rparr>)) \<and>
    set rs = {r \<in> set (db_rules db). kr_snapshot_id r = snap \<and> (\<exists>p \<in> set (db_operands db).
      kp_rule_id p = kr_id r \<and> (\<exists>i. kp_target_object_id p = Some i \<and> above db snap (set ids) i))}"
proof -
  let ?f = "no_filters\<lparr>rf_operand_object_ids := ids\<rparr>"
  obtain up where up: "expand_operand_object_ids db snap ids = Some up" "set up = {i. above db snap (set ids) i}"
    using expand_operand_ids_exact by blast
  have ne: "up \<noteq> []"
  proof
    assume "up = []"
    with up(2) have "\<not> above db snap (set ids) (hd ids)" by auto
    with ids show False by (simp add: above_seed)
  qed
  have nf: "normalized_search ?f = None" by (simp add: normalized_search_def no_filters_def given_def)
  obtain rs where rs: "build_filtered_query db snap ?f = Some rs"
    "rs = filter (filter_matches db snap ?f up None) (db_rules db)"
    using up(1) nf by (simp add: build_filtered_query_def resolve_search_object_ids_def)
  have "set rs = {r \<in> set (db_rules db). kr_snapshot_id r = snap \<and> object_ids_exists db up r}"
    unfolding rs(2) using ne nf by (auto simp: filter_matches_def search_matches_def) (simp_all add: no_filters_def or_empty_def)
  moreover have "object_ids_exists db up r \<longleftrightarrow> (\<exists>p \<in> set (db_operands db). kp_rule_id p = kr_id r \<and>
      (\<exists>i. kp_target_object_id p = Some i \<and> above db snap (set ids) i))" for r
    using up(2) by (auto simp: object_ids_exists_def list_ex_iff split: option.split)
  ultimately show ?thesis using rules_page [OF s rs(1), of collate None 0 srt]
    by (intro exI [of _ "order_rules collate srt rs"]) (simp add: limit_rows_def)
qed

end
