(* ===== verification/Canonical_Mapping.thy ===== *)
theory Canonical_Mapping
  imports Canonical_Facts
begin

text \<open>
  What the mapping module reads of a canonical snapshot is closed: it holds the zones and objects that
  the rules name, every group has its members, every parent is a group, and no id occurs twice
  (\<open>reader_consistent\<close>).  The tables do not enforce that kinds fit families, that members fit
  their groups or that operands fit their roles; \<open>snapshot_typed\<close> says so of a snapshot.
\<close>

section \<open>Typed snapshots\<close>

definition addr_kind :: "object_kind \<Rightarrow> bool" where
  "addr_kind k \<longleftrightarrow> k \<in> {OK_HOST, OK_SUBNET, OK_RANGE, OK_FQDN, OK_ANY_ADDR, OK_UNRESOLVED_ADDR, OK_ADDR_GROUP}"

definition kind_family :: "object_kind \<Rightarrow> object_family" where
  "kind_family k = (if addr_kind k then OF_ADDR else OF_SERVICE)"

text \<open>A chain of \<open>n\<close> groups below a group, and what a group holds.\<close>

fun row_chain :: "canonical_object list \<Rightarrow> canonical_member list \<Rightarrow> nat \<Rightarrow> uuid \<Rightarrow> bool" where
  "row_chain objs edges 0 g \<longleftrightarrow> True"
| "row_chain objs edges (Suc n) g \<longleftrightarrow>
     (\<exists>m \<in> set edges. km_parent_object_id m = g \<and> is_group_object objs (km_child_object_id m) \<and>
        row_chain objs edges n (km_child_object_id m))"

inductive holds :: "canonical_object list \<Rightarrow> canonical_member list \<Rightarrow> uuid \<Rightarrow> uuid \<Rightarrow> bool" for objs edges where
  holds_direct: "m \<in> set edges \<Longrightarrow> holds objs edges (km_parent_object_id m) (km_child_object_id m)"
| holds_nested: "m \<in> set edges \<Longrightarrow> is_group_object objs (km_child_object_id m) \<Longrightarrow>
    holds objs edges (km_child_object_id m) i \<Longrightarrow> holds objs edges (km_parent_object_id m) i"

definition resolvable :: "canonical_object list \<Rightarrow> canonical_member list \<Rightarrow> canonical_object \<Rightarrow> bool" where
  "resolvable objs edges x \<longleftrightarrow>
     (group_kind (ko_object_kind x) \<longrightarrow> \<not> row_chain objs edges 3 (ko_id x) \<and>
        (\<exists>y \<in> set objs. holds objs edges (ko_id x) (ko_id y) \<and> \<not> group_kind (ko_object_kind y)))"

definition operand_typed :: "canonical_db \<Rightarrow> uuid \<Rightarrow> canonical_operand \<Rightarrow> bool" where
  "operand_typed db snap p \<longleftrightarrow>
     (if kp_operand_role p \<in> {RO_SRC_ZONE, RO_DST_ZONE} then
        \<exists>z \<in> set (get_zones_by_snapshot db snap). kp_target_zone_id p = Some (kz_id z)
      else \<exists>x \<in> set (get_objects_by_snapshot db snap). kp_target_object_id p = Some (ko_id x) \<and>
        ko_object_family x = (if kp_operand_role p = RO_SERVICE then OF_SERVICE else OF_ADDR) \<and>
        resolvable (get_objects_by_snapshot db snap) (snapshot_edges db snap) x)"

definition snapshot_typed :: "canonical_db \<Rightarrow> uuid \<Rightarrow> bool" where
  "snapshot_typed db snap \<longleftrightarrow>
     (\<forall>x \<in> set (get_objects_by_snapshot db snap). ko_object_family x = kind_family (ko_object_kind x)) \<and>
     (\<forall>m \<in> set (snapshot_edges db snap). \<forall>p \<in> set (get_objects_by_snapshot db snap). ko_id p = km_parent_object_id m \<longrightarrow>
        (\<exists>c \<in> set (get_objects_by_snapshot db snap). ko_id c = km_child_object_id m \<and>
           ko_object_family c = ko_object_family p)) \<and>
     (\<forall>r \<in> set (get_rules_by_snapshot db snap). kr_action r \<in> {''PERMIT'', ''DENY''}) \<and>
     (\<forall>p \<in> set (get_operands_by_snapshot db snap). operand_typed db snap p)"


section \<open>Objects as the mapping module reads them\<close>

definition addr_of :: "object_dto \<Rightarrow> can_addr" where
  "addr_of x = projr (map_obj_to_addr x)"

definition service_of :: "object_dto \<Rightarrow> can_service" where
  "service_of x = projr (map_obj_to_service x)"

definition dto_typed :: "object_dto \<Rightarrow> bool" where
  "dto_typed x \<longleftrightarrow> od_object_family x = kind_family (od_object_kind x)"

lemma map_obj_typed:
  "dto_typed x \<Longrightarrow> od_object_family x = OF_ADDR \<Longrightarrow> map_obj_to_addr x = Inr (addr_of x)"
  "dto_typed x \<Longrightarrow> od_object_family x = OF_SERVICE \<Longrightarrow> map_obj_to_service x = Inr (service_of x)"
  by (cases "od_object_kind x"; simp add: dto_typed_def kind_family_def addr_kind_def addr_of_def service_of_def
      map_obj_to_addr_def map_obj_to_service_def to_addr_kind_def to_service_kind_def)+

lemma split_objects_typed:
  "\<forall>x \<in> set xs. dto_typed x \<Longrightarrow> split_objects xs =
     Inr (map addr_of (filter (\<lambda>x. od_object_family x = OF_ADDR) xs),
       map service_of (filter (\<lambda>x. od_object_family x = OF_SERVICE) xs))"
  by (induction xs) (auto simp: map_obj_typed split: object_family.split)

text \<open>How an index reads a list of objects of one family.\<close>

definition reads_family :: "'a group_ops \<Rightarrow> (object_dto \<Rightarrow> 'a) \<Rightarrow> object_family \<Rightarrow> bool" where
  "reads_family ops conv fam \<longleftrightarrow>
     (\<forall>x. dto_typed x \<and> od_object_family x = fam \<longrightarrow> go_id ops (conv x) = od_id x \<and>
        go_parents ops (conv x) = od_parent_ids x \<and> go_is_group ops (conv x) = group_kind (od_object_kind x))"

lemma families_read: "reads_family addr_ops addr_of OF_ADDR" "reads_family service_ops service_of OF_SERVICE"
  unfolding reads_family_def
  by (intro allI impI, elim conjE, case_tac "od_object_kind x";
      simp add: dto_typed_def kind_family_def addr_kind_def group_kind_def addr_of_def service_of_def addr_ops_def
        service_ops_def map_obj_to_addr_def map_obj_to_service_def to_addr_kind_def to_service_kind_def)+

definition object_row :: "(uuid \<times> uuid list) list \<Rightarrow> canonical_object \<Rightarrow> object_dto" where
  "object_row parents x = object_to_dto x None (sort_key uuid_text (dict_get parents (ko_id x) []))"

lemma object_row_simps [simp]:
  "od_id (object_row ps x) = ko_id x" "od_object_family (object_row ps x) = ko_object_family x"
  "od_object_kind (object_row ps x) = ko_object_kind x"
  "set (od_parent_ids (object_row ps x)) = set (dict_get ps (ko_id x) [])"
  by (simp_all add: object_row_def object_to_dto_def)


section \<open>The objects of a scope\<close>

text \<open>What an expansion returned, as \<open>reach_exact\<close> says.\<close>

definition expanded ::
  "canonical_object list \<Rightarrow> canonical_member list \<Rightarrow> uuid set \<Rightarrow> canonical_object list \<Rightarrow> (uuid \<times> uuid list) list \<Rightarrow> bool" where
  "expanded objs edges S objects parents \<longleftrightarrow>
     distinct (map ko_id objs) \<and> distinct (map ko_id objects) \<and> set objects \<subseteq> set objs \<and>
     (\<forall>x \<in> set objs. reached objs edges S (ko_id x) \<longrightarrow> x \<in> set objects) \<and>
     (\<forall>k p. p \<in> set (dict_get parents k []) \<longleftrightarrow> reached objs edges S p \<and> is_group_object objs p \<and>
        (\<exists>m \<in> set edges. km_parent_object_id m = p \<and> km_child_object_id m = k))"

definition edges_typed :: "canonical_object list \<Rightarrow> canonical_member list \<Rightarrow> bool" where
  "edges_typed objs edges \<longleftrightarrow>
     (\<forall>x \<in> set objs. ko_object_family x = kind_family (ko_object_kind x)) \<and>
     (\<forall>m \<in> set edges. \<forall>p \<in> set objs. ko_id p = km_parent_object_id m \<longrightarrow>
        (\<exists>c \<in> set objs. ko_id c = km_child_object_id m \<and> ko_object_family c = ko_object_family p))"

definition family_rows :: "object_family \<Rightarrow> (uuid \<times> uuid list) list \<Rightarrow> canonical_object list \<Rightarrow> object_dto list" where
  "family_rows fam parents objects = filter (\<lambda>d. od_object_family d = fam) (map (object_row parents) objects)"

lemma family_rows_set:
  "d \<in> set (family_rows fam parents objects) \<longleftrightarrow>
     (\<exists>x \<in> set objects. d = object_row parents x \<and> ko_object_family x = fam)"
  by (auto simp: family_rows_def)

lemma family_row_in:
  "x \<in> set objects \<Longrightarrow> ko_object_family x = fam \<Longrightarrow>
     conv (object_row parents x) \<in> conv ` set (family_rows fam parents objects)"
  by (intro imageI, subst family_rows_set) blast

lemma family_rows_read:
  assumes "expanded objs edges S objects parents" "edges_typed objs edges" "reads_family ops conv fam"
    and "x \<in> set objects" "ko_object_family x = fam"
  shows "go_id ops (conv (object_row parents x)) = ko_id x"
    "set (go_parents ops (conv (object_row parents x))) = set (dict_get parents (ko_id x) [])"
    "go_is_group ops (conv (object_row parents x)) = group_kind (ko_object_kind x)"
  using assms by (auto simp: expanded_def edges_typed_def reads_family_def dto_typed_def)

lemma unique_object:
  "distinct (map ko_id objs) \<Longrightarrow> x \<in> set objs \<Longrightarrow> y \<in> set objs \<Longrightarrow> ko_id x = ko_id y \<Longrightarrow> x = y"
  by (auto simp: distinct_map dest: inj_onD)

lemma group_object_iff:
  "distinct (map ko_id objs) \<Longrightarrow> x \<in> set objs \<Longrightarrow> is_group_object objs (ko_id x) \<longleftrightarrow> group_kind (ko_object_kind x)"
  by (auto simp: is_group_object_def dest: unique_object)

lemma family_groups_ok:
  assumes ex: "expanded objs edges S objects parents" and ty: "edges_typed objs edges" and rd: "reads_family ops conv fam"
  shows "groups_ok ops (map conv (family_rows fam parents objects))"
proof -
  note read = family_rows_read [OF ex ty rd]
  have "map (go_id ops) (map conv (family_rows fam parents objects)) =
      map ko_id (filter (\<lambda>x. ko_object_family x = fam) objects)"
    unfolding family_rows_def filter_map map_map by (rule map_cong) (auto simp: comp_def read(1))
  moreover have "distinct (map ko_id (filter (\<lambda>x. ko_object_family x = fam) objects))"
    using ex by (simp add: expanded_def distinct_map_filter)
  moreover have "is_group_id ops (map conv (family_rows fam parents objects)) p"
    if x: "x \<in> set objects" "ko_object_family x = fam" and p: "p \<in> set (dict_get parents (ko_id x) [])" for x p
  proof -
    from ex p obtain m where m: "reached objs edges S p" "is_group_object objs p" "m \<in> set edges"
      "km_parent_object_id m = p" "km_child_object_id m = ko_id x"
      unfolding expanded_def by blast
    from m(2) obtain y where y: "y \<in> set objs" "ko_id y = p" "group_kind (ko_object_kind y)"
      unfolding is_group_object_def by blast
    with ex m(1) have yo: "y \<in> set objects" unfolding expanded_def by blast
    from ty m(3-5) y obtain c where c: "c \<in> set objs" "ko_id c = ko_id x" "ko_object_family c = ko_object_family y"
      unfolding edges_typed_def by metis
    with ex x have "c = x" by (intro unique_object [of objs]) (auto simp: expanded_def)
    with c x have "ko_object_family y = fam" by simp
    with yo y(2,3) show ?thesis
      unfolding is_group_id_def by (intro bexI [of _ "conv (object_row parents y)"]) (auto simp: read family_row_in)
  qed
  ultimately show ?thesis
    by (auto simp: groups_ok_def family_rows_set read)
qed

lemma family_nested:
  assumes ex: "expanded objs edges S objects parents" and ty: "edges_typed objs edges" and rd: "reads_family ops conv fam"
  shows "nested ops (map conv (family_rows fam parents objects)) n g \<Longrightarrow> row_chain objs edges n g"
proof (induction n arbitrary: g)
  case (Suc n)
  then obtain c where c: "c \<in> set (map conv (family_rows fam parents objects))" "g \<in> set (go_parents ops c)"
    "go_is_group ops c" "nested ops (map conv (family_rows fam parents objects)) n (go_id ops c)" by auto
  from c(1) obtain x where x: "x \<in> set objects" "ko_object_family x = fam" "c = conv (object_row parents x)"
    by (auto simp: family_rows_set)
  note read = family_rows_read [OF ex ty rd x(1,2)]
  from c(2) have "g \<in> set (dict_get parents (ko_id x) [])" by (simp add: x(3) read)
  with ex obtain m where "m \<in> set edges" "km_parent_object_id m = g" "km_child_object_id m = ko_id x"
    unfolding expanded_def by blast
  moreover have "is_group_object objs (ko_id x)"
    using c(3) x ex by (auto simp: read expanded_def group_object_iff)
  moreover have "row_chain objs edges n (ko_id x)" using Suc.IH c(4) by (simp add: x(3) read)
  ultimately show ?case by auto
qed simp

lemma family_belongs:
  assumes ex: "expanded objs edges S objects parents" and ty: "edges_typed objs edges" and rd: "reads_family ops conv fam"
    and "holds objs edges g i" "reached objs edges S g" "is_group_object objs g"
    and "\<forall>x \<in> set objs. ko_id x = g \<longrightarrow> ko_object_family x = fam"
  shows "\<exists>x \<in> set objects. ko_id x = i \<and> ko_object_family x = fam \<and>
    belongs ops (map conv (family_rows fam parents objects)) g (conv (object_row parents x))"
  using assms(4-7)
proof (induction rule: holds.induct)
  case (holds_direct m)
  let ?g = "km_parent_object_id m" and ?i = "km_child_object_id m"
  from holds_direct(3) obtain p where p: "p \<in> set objs" "ko_id p = ?g" unfolding is_group_object_def by blast
  from ty holds_direct(1) p obtain c where c: "c \<in> set objs" "ko_id c = ?i" "ko_object_family c = ko_object_family p"
    unfolding edges_typed_def by blast
  have fam: "ko_object_family c = fam" using c(3) p holds_direct(4) by simp
  have "reached objs edges S ?i" using holds_direct by (intro reached.member) auto
  with c ex have co: "c \<in> set objects" unfolding expanded_def by metis
  have "?g \<in> set (dict_get parents (ko_id c) [])" using ex holds_direct c(2) unfolding expanded_def by metis
  then have "belongs ops (map conv (family_rows fam parents objects)) ?g (conv (object_row parents c))"
    using family_rows_read [OF ex ty rd co fam] co fam by (intro belongs.direct) (auto simp: family_row_in)
  with co c(2) fam show ?case by blast
next
  case (holds_nested m i)
  let ?g = "km_parent_object_id m" and ?c = "km_child_object_id m"
  from holds_nested(6) obtain p where p: "p \<in> set objs" "ko_id p = ?g" unfolding is_group_object_def by blast
  from ty holds_nested(1) p obtain c where c: "c \<in> set objs" "ko_id c = ?c" "ko_object_family c = ko_object_family p"
    unfolding edges_typed_def by blast
  have fam: "ko_object_family c = fam" using c(3) p holds_nested(7) by simp
  have r: "reached objs edges S ?c" using holds_nested by (intro reached.member) auto
  with c ex have co: "c \<in> set objects" unfolding expanded_def by metis
  have d: "distinct (map ko_id objs)" using ex by (simp add: expanded_def)
  have "\<forall>x \<in> set objs. ko_id x = ?c \<longrightarrow> ko_object_family x = fam" using unique_object [OF d] c(1,2) fam by metis
  from holds_nested(4) [OF r holds_nested(2) this] obtain x where x: "x \<in> set objects" "ko_id x = i"
    "ko_object_family x = fam" "belongs ops (map conv (family_rows fam parents objects)) ?c (conv (object_row parents x))"
    by blast
  note read = family_rows_read [OF ex ty rd co fam]
  have "?g \<in> set (dict_get parents (ko_id c) [])" using ex holds_nested c(2) unfolding expanded_def by metis
  moreover have "group_kind (ko_object_kind c)" using holds_nested(2) group_object_iff [OF d c(1)] c(2) by simp
  ultimately have "belongs ops (map conv (family_rows fam parents objects)) ?g (conv (object_row parents x))"
    by (intro belongs.nested [of "conv (object_row parents c)", OF _ _ _ x(4) [folded c(2) read(1)]])
      (simp_all add: read family_row_in [OF co fam])
  with x show ?case by blast
qed

lemma family_operand_ok:
  assumes ex: "expanded objs edges S objects parents" and ty: "edges_typed objs edges" and rd: "reads_family ops conv fam"
    and x: "x \<in> set objs" "ko_id x \<in> S" "ko_object_family x = fam" "resolvable objs edges x"
    and o1: "cop_target_object_id o1 = Some (ko_id x)"
  shows "object_operand_ok ops (map conv (family_rows fam parents objects)) o1"
proof -
  have r: "reached objs edges S (ko_id x)" using x(2) by (rule reached.seed)
  with x(1) ex have xo: "x \<in> set objects" unfolding expanded_def by blast
  have d: "distinct (map ko_id objs)" using ex by (simp add: expanded_def)
  note read = family_rows_read [OF ex ty rd xo x(3)]
  have grp: "\<not> nested ops (map conv (family_rows fam parents objects)) 3 (ko_id x) \<and>
      (\<exists>y. belongs ops (map conv (family_rows fam parents objects)) (ko_id x) y \<and> \<not> go_is_group ops y)"
    if g: "group_kind (ko_object_kind x)"
  proof -
    from x(4) g obtain y where y: "\<not> row_chain objs edges 3 (ko_id x)" "y \<in> set objs"
      "holds objs edges (ko_id x) (ko_id y)" "\<not> group_kind (ko_object_kind y)"
      unfolding resolvable_def by blast
    have "is_group_object objs (ko_id x)" using g group_object_iff [OF d x(1)] by simp
    moreover have "\<forall>z \<in> set objs. ko_id z = ko_id x \<longrightarrow> ko_object_family z = fam"
      using unique_object [OF d] x(1,3) by metis
    ultimately obtain z where z: "z \<in> set objects" "ko_id z = ko_id y" "ko_object_family z = fam"
      "belongs ops (map conv (family_rows fam parents objects)) (ko_id x) (conv (object_row parents z))"
      using family_belongs [OF ex ty rd y(3) r] by blast
    then have "z = y" using ex y(2) by (intro unique_object [OF d]) (auto simp: expanded_def)
    with z y(4) have "\<not> go_is_group ops (conv (object_row parents z))" using family_rows_read [OF ex ty rd z(1,3)] by simp
    with z(4) y(1) family_nested [OF ex ty rd] show ?thesis by blast
  qed
  show ?thesis unfolding object_operand_ok_def
    using xo x(3) grp by (intro bexI [of _ "conv (object_row parents x)"]) (auto simp: read o1 family_row_in)
qed


section \<open>The scope of some rules\<close>

lemma collected_objects:
  assumes "distinct (map ko_id (db_objects db))"
  shows "\<exists>objects parents. collect_objects db snap ps True = Some (map (object_row parents) objects) \<and>
    expanded (get_objects_by_snapshot db snap) (snapshot_edges db snap) (set (targets_of kp_target_object_id ps)) objects parents"
proof -
  let ?objs = "get_objects_by_snapshot db snap" and ?edges = "snapshot_edges db snap"
  let ?seeds = "targets_of kp_target_object_id ps"
  have d: "distinct (map ko_id ?objs)" using assms by (simp add: get_objects_by_snapshot_def distinct_map_filter)
  show ?thesis
  proof (cases "?seeds = []")
    case True
    have "\<not> reached ?objs ?edges {} i" for i by (rule notI, induction rule: reached.induct) simp_all
    with True d show ?thesis
      by (intro exI [of _ "[]"]) (simp add: collect_objects_def expanded_def)
  next
    case False
    obtain objects parents where x: "expand_object_groups (get_objects_by_ids db snap) (get_members_by_parents db snap) ?seeds =
        Some (objects, parents)"
      "distinct (map ko_id objects)" "set objects \<subseteq> set ?objs"
      "ko_id ` set objects = {i \<in> ko_id ` set ?objs. reached ?objs ?edges (set ?seeds) i}"
      "\<And>k. set (dict_get parents k []) = {p. reached ?objs ?edges (set ?seeds) p \<and> is_group_object ?objs p \<and>
         (\<exists>m \<in> set ?edges. km_parent_object_id m = p \<and> km_child_object_id m = k)}"
      by (rule tables.reach_exact [of db snap ?seeds]) blast
    have "x \<in> set objects" if "x \<in> set ?objs" "reached ?objs ?edges (set ?seeds) (ko_id x)" for x
    proof -
      from that x(4) obtain y where y: "y \<in> set objects" "ko_id y = ko_id x" by (metis (mono_tags, lifting) imageE imageI mem_Collect_eq)
      then show ?thesis using unique_object [OF d, of y x] x(3) that(1) by auto
    qed
    with x d have "expanded ?objs ?edges (set ?seeds) objects parents" unfolding expanded_def by blast
    moreover have "collect_objects db snap ps True = Some (map (object_row parents) objects)"
      using False x(1) by (simp add: collect_objects_def Let_def object_row_def)
    ultimately show ?thesis by blast
  qed
qed

definition rules_by_ids :: "canonical_db \<Rightarrow> uuid \<Rightarrow> uuid list \<Rightarrow> canonical_rule list" where
  "rules_by_ids db snap ids = sort_key (\<lambda>r. (kr_priority r, kr_id r))
     (filter (\<lambda>r. kr_snapshot_id r = snap \<and> kr_id r \<in> set ids) (db_rules db))"

lemma scope_by_ids:
  assumes s: "get_snapshot db snap = Some s" and ids: "ids \<noteq> []" and d: "distinct (map ko_id (db_objects db))"
  shows "\<exists>r objects parents. get_canonical_rule_scope collate db (scope_query_for snap (rule_ids_filter ids)) = Some (Inr r) \<and>
    sr_rules r = map (rule_row db snap) (rules_by_ids db snap ids) \<and>
    sr_zones r = map zone_to_dto (get_zones_by_ids db snap (targets_of kp_target_zone_id
      (get_operands_by_rule_ids db snap (map kr_id (rules_by_ids db snap ids))))) \<and>
    sr_objects r = map (object_row parents) objects \<and>
    expanded (get_objects_by_snapshot db snap) (snapshot_edges db snap)
      (set (targets_of kp_target_object_id (get_operands_by_rule_ids db snap (map kr_id (rules_by_ids db snap ids))))) objects parents"
proof -
  let ?f = "rule_ids_filter ids"
  let ?ps = "get_operands_by_rule_ids db snap (map kr_id (rules_by_ids db snap ids))"
  have narrow: "filters_has_any ?f" using ids by (simp add: filters_has_any_def rule_ids_filter_def or_empty_def)
  have fm: "filter_matches db snap ?f [] None r \<longleftrightarrow> kr_snapshot_id r = snap \<and> kr_id r \<in> set ids" for r
    using ids by (simp add: filter_matches_def rule_ids_filter_def no_filters_def or_empty_def search_matches_def
        normalized_search_def given_def)
  have fs: "build_filtered_query db snap ?f = Some (filter (\<lambda>r. kr_snapshot_id r = snap \<and> kr_id r \<in> set ids) (db_rules db))"
    by (simp add: build_filtered_query_def expand_operand_object_ids_def resolve_search_object_ids_def fm [symmetric])
      (simp add: rule_ids_filter_def no_filters_def expand_operand_object_ids_def normalized_search_def given_def)
  obtain objects parents where o: "collect_objects db snap ?ps True = Some (map (object_row parents) objects)"
    "expanded (get_objects_by_snapshot db snap) (snapshot_edges db snap) (set (targets_of kp_target_object_id ?ps)) objects parents"
    using collected_objects [OF d] by blast
  have rows: "limit_rows None None (order_rules collate None (filter (\<lambda>r. kr_snapshot_id r = snap \<and> kr_id r \<in> set ids) (db_rules db))) =
      rules_by_ids db snap ids"
    by (simp add: limit_rows_def order_rules_def rules_by_ids_def)
  show ?thesis using o narrow
    by (simp add: get_canonical_rule_scope_def scope_query_for_def require_snapshot_def bind_o_def s count_filtered_def
        list_filtered_def fs rows Let_def rule_rows collect_zones_def) blast
qed


section \<open>What the reader returns\<close>

lemma rule_in_iff: "rule_in_snapshot db snap i \<longleftrightarrow> (\<exists>r \<in> set (db_rules db). kr_id r = i \<and> kr_snapshot_id r = snap)"
  by (auto simp: rule_in_snapshot_def list_ex_iff)

lemma rules_by_ids_set:
  "set (rules_by_ids db snap ids) = {r \<in> set (db_rules db). kr_snapshot_id r = snap \<and> kr_id r \<in> set ids}"
  by (simp add: rules_by_ids_def)

lemma rules_by_ids_distinct:
  "distinct (map kr_id (db_rules db)) \<Longrightarrow> distinct (map kr_id (rules_by_ids db snap ids))"
proof -
  assume d: "distinct (map kr_id (db_rules db))"
  have "mset (map kr_id (rules_by_ids db snap ids)) =
      mset (map kr_id (filter (\<lambda>r. kr_snapshot_id r = snap \<and> kr_id r \<in> set ids) (db_rules db)))"
    by (simp add: rules_by_ids_def)
  from mset_eq_imp_distinct_iff [OF this] d show ?thesis by (simp add: distinct_map_filter)
qed

lemma rules_by_ids_ids:
  assumes "set ids \<subseteq> kr_id ` {r \<in> set (db_rules db). kr_snapshot_id r = snap}"
  shows "set (map kr_id (rules_by_ids db snap ids)) = set ids"
  using assms by (auto simp: rules_by_ids_set)

lemma operand_in_scope:
  assumes "r \<in> set (rules_by_ids db snap ids)" "p \<in> set (get_operands_by_rule db snap (kr_id r))"
  shows "p \<in> set (get_operands_by_rule_ids db snap (map kr_id (rules_by_ids db snap ids)))"
    "p \<in> set (get_operands_by_snapshot db snap)"
  using assms by (auto simp: get_operands_by_rule_def get_operands_by_rule_ids_def get_operands_by_snapshot_def)

lemma target_in_seeds: "p \<in> set ps \<Longrightarrow> f p = Some i \<Longrightarrow> i \<in> set (targets_of f ps)"
  by (force simp: targets_of_def List.map_filter_def)

definition can_rule_of :: "operand_dto rule_dto \<Rightarrow> can_rule" where
  "can_rule_of r = projr (map_rule_dto r)"

lemma map_rule_row:
  assumes "kr_action r \<in> {''PERMIT'', ''DENY''}"
  shows "map_rule_dto (rule_row db snap r) = Inr (can_rule_of (rule_row db snap r))"
    "cr_id (can_rule_of (rule_row db snap r)) = kr_id r"
    "cr_operands (can_rule_of (rule_row db snap r)) = map (\<lambda>p. \<lparr>cop_id = kp_id p, cop_rule_id = kp_rule_id p,
       cop_role = to_rule_role (kp_operand_role p), cop_target_zone_id = kp_target_zone_id p,
       cop_target_object_id = kp_target_object_id p\<rparr>) (get_operands_by_rule db snap (kr_id r))"
  using assms by (auto simp: can_rule_of_def map_rule_dto_def to_rule_action_def rule_row_def rule_to_dto_def
      or_empty_def operand_to_dto_def)

text \<open>What the reader returns for rules of a typed snapshot.\<close>

definition entities_closed :: "can_scope_entities \<Rightarrow> can_rule list \<Rightarrow> bool" where
  "entities_closed e rules \<longleftrightarrow>
     groups_ok addr_ops (ce_addr_objects e) \<and> groups_ok service_ops (ce_services e) \<and>
     distinct (map cz_id (ce_zones e)) \<and> (\<forall>rule \<in> set rules. \<forall>o1 \<in> set (cr_operands rule). operand_ok e o1)"

lemma reader_consistent:
  assumes ok: "db_ok db" and s: "get_snapshot db snap = Some s" and ty: "snapshot_typed db snap"
    and ids: "ids \<noteq> []" "distinct ids" "set ids \<subseteq> kr_id ` {r \<in> set (db_rules db). kr_snapshot_id r = snap}"
  shows "\<exists>e rules. reader_scope_entities collate db snap ids = Some (Inr e) \<and>
    canonical_scope_rules collate db snap ids = Some (Inr rules) \<and> mset (map cr_id rules) = mset ids \<and> entities_closed e rules"
proof -
  let ?rs = "rules_by_ids db snap ids" and ?objs = "get_objects_by_snapshot db snap" and ?edges = "snapshot_edges db snap"
  let ?ps = "get_operands_by_rule_ids db snap (map kr_id ?rs)"
  have keys: "distinct (map kz_id (db_zones db))" "distinct (map ko_id (db_objects db))" "distinct (map kr_id (db_rules db))"
    using ok unfolding db_ok_def keys_ok_def by - (elim conjE, assumption)+
  from scope_by_ids [OF s ids(1) keys(2)] obtain r objects parents where
    r: "get_canonical_rule_scope collate db (scope_query_for snap (rule_ids_filter ids)) = Some (Inr r)"
    "sr_rules r = map (rule_row db snap) ?rs"
    "sr_zones r = map zone_to_dto (get_zones_by_ids db snap (targets_of kp_target_zone_id ?ps))"
    "sr_objects r = map (object_row parents) objects"
    and ex: "expanded ?objs ?edges (set (targets_of kp_target_object_id ?ps)) objects parents" by blast
  have et: "edges_typed ?objs ?edges"
    using ty unfolding snapshot_typed_def edges_typed_def by - (elim conjE, intro conjI; assumption)
  have act: "kr_action x \<in> {''PERMIT'', ''DENY''}" if "x \<in> set ?rs" for x
    using ty that by (simp add: snapshot_typed_def get_rules_by_snapshot_def rules_by_ids_set)
  have rids: "mset (map kr_id ?rs) = mset ids"
    using rules_by_ids_ids [OF ids(3)] rules_by_ids_distinct [OF keys(3)] ids(2) set_eq_iff_mset_eq_distinct by blast
  let ?rules = "map (\<lambda>x. can_rule_of (rule_row db snap x)) ?rs"
  have rules: "canonical_scope_rules collate db snap ids = Some (Inr ?rules)"
  proof -
    have "traverse map_rule_dto (map (rule_row db snap) xs) = Inr (map (\<lambda>x. can_rule_of (rule_row db snap x)) xs)"
      if "set xs \<subseteq> set ?rs" for xs
      using that by (induction xs) (auto simp: map_rule_row(1) [OF act])
    then show ?thesis using r(1,2) by (simp add: canonical_scope_rules_def bind_o_def)
  qed
  let ?addr = "map addr_of (family_rows OF_ADDR parents objects)"
  let ?serv = "map service_of (family_rows OF_SERVICE parents objects)"
  let ?e = "\<lparr>ce_zones = map map_zone_dto (sr_zones r), ce_addr_objects = ?addr, ce_services = ?serv\<rparr>"
  have e: "reader_scope_entities collate db snap ids = Some (Inr ?e)"
  proof -
    have "length ?rs = length ids" using rids by (metis length_map size_mset)
    moreover have "\<forall>d \<in> set (sr_objects r). dto_typed d"
      using ex et by (auto simp: r(4) dto_typed_def expanded_def edges_typed_def)
    ultimately show ?thesis using ids(1)
      by (simp add: reader_scope_entities_def bind_o_def r(1,2) split_objects_typed) (auto simp: r(4) family_rows_def)
  qed
  have zones: "distinct (map cz_id (ce_zones ?e))"
    using keys(1) by (simp add: r(3) comp_def map_zone_dto_def zone_to_dto_def get_zones_by_ids_def distinct_map_filter)
  have op: "operand_ok ?e o1" if x: "x \<in> set ?rs" and o1: "o1 \<in> set (cr_operands (can_rule_of (rule_row db snap x)))" for x o1
  proof -
    from o1 obtain p where p: "p \<in> set (get_operands_by_rule db snap (kr_id x))" "cop_role o1 = to_rule_role (kp_operand_role p)"
      "cop_target_zone_id o1 = kp_target_zone_id p" "cop_target_object_id o1 = kp_target_object_id p"
      unfolding map_rule_row(3) [OF act [OF x]] by auto
    note pin = operand_in_scope [OF x p(1)]
    from ty pin(2) have pt: "operand_typed db snap p" by (simp add: snapshot_typed_def)
    have obj: "object_operand_ok ops (map conv (family_rows fam parents objects)) o1"
      if rd: "reads_family ops conv fam" and y: "y \<in> set ?objs" "kp_target_object_id p = Some (ko_id y)"
        "ko_object_family y = fam" "resolvable ?objs ?edges y"
      for ops and conv :: "object_dto \<Rightarrow> 'b" and fam y
      by (rule family_operand_ok [OF ex et rd y(1) target_in_seeds [where f = kp_target_object_id, OF pin(1) y(2)] y(3,4)]) (simp add: p(4) y(2))
    show ?thesis
    proof (cases "kp_operand_role p \<in> {RO_SRC_ZONE, RO_DST_ZONE}")
      case True
      with pt obtain z where z: "z \<in> set (get_zones_by_snapshot db snap)" "kp_target_zone_id p = Some (kz_id z)"
        by (auto simp: operand_typed_def)
      have t: "kz_id z \<in> set (targets_of kp_target_zone_id ?ps)" by (rule target_in_seeds [where f = kp_target_zone_id, OF pin(1) z(2)])
      have "z \<in> set (get_zones_by_ids db snap (targets_of kp_target_zone_id ?ps))"
        using z(1) t by (auto simp: get_zones_by_ids_def get_zones_by_snapshot_def)
      then have "map_zone_dto (zone_to_dto z) \<in> set (ce_zones ?e)" by (simp add: r(3))
      with True z(2) p(2,3) show ?thesis
        by (auto simp: operand_ok_def to_rule_role_def map_zone_dto_def zone_to_dto_def intro!: bexI)
    next
      case False
      then obtain y where y: "y \<in> set ?objs" "kp_target_object_id p = Some (ko_id y)"
        "ko_object_family y = (if kp_operand_role p = RO_SERVICE then OF_SERVICE else OF_ADDR)" "resolvable ?objs ?edges y"
        using pt by (auto simp: operand_typed_def)
      show ?thesis
      proof (cases "kp_operand_role p = RO_SERVICE")
        case True
        with obj [OF families_read(2) y(1,2) _ y(4)] y(3) p(2) show ?thesis
          by (simp add: operand_ok_def to_rule_role_def)
      next
        case sv: False
        with obj [OF families_read(1) y(1,2) _ y(4)] y(3) p(2) False show ?thesis
          by (cases "kp_operand_role p") (simp_all add: operand_ok_def to_rule_role_def)
      qed
    qed
  qed
  have "entities_closed ?e ?rules"
    using family_groups_ok [OF ex et families_read(1)] family_groups_ok [OF ex et families_read(2)] zones op
    by (simp add: entities_closed_def)
  moreover have "mset (map cr_id ?rules) = mset ids"
  proof -
    have "map cr_id ?rules = map kr_id ?rs" using map_rule_row(2) [OF act] by simp
    with rids show ?thesis by (simp only:)
  qed
  ultimately show ?thesis using e rules by blast
qed

end
