(* ===== verification/Canonical_Properties.thy ===== *)
theory Canonical_Properties
  imports Canonical_Mapping Mapping_Properties
begin

text \<open>
  The properties of the canonical module: a stored snapshot reads back, pages and filters return what
  they should, and what the mapping module reads can always be mapped.
\<close>

section \<open>A sample snapshot\<close>

definition sample_row_object :: "uuid \<Rightarrow> object_kind \<Rightarrow> string option \<Rightarrow> canonical_object" where
  "sample_row_object i k cidr =
     \<lparr>ko_id = i, ko_snapshot_id = 0, ko_object_key = ''k'', ko_object_family = kind_family k, ko_object_kind = k,
      ko_name = ''o'', ko_ip_version = None, ko_cidr = cidr, ko_range_start = None, ko_range_end = None,
      ko_fqdn = None, ko_protocol = Some ''tcp'', ko_port_from = Some 1, ko_port_to = Some 9, ko_icmp_type = None,
      ko_icmp_code = None, ko_description = None\<rparr>"

definition sample_row_rule :: "uuid \<Rightarrow> int \<Rightarrow> canonical_rule" where
  "sample_row_rule i n =
     \<lparr>kr_id = i, kr_snapshot_id = 0, kr_rule_key = ''k'', kr_name = ''r'', kr_action = ''PERMIT'', kr_enabled = True,
      kr_priority = n, kr_section = None, kr_description = None\<rparr>"

definition sample_row_operand :: "uuid \<Rightarrow> rule_role \<Rightarrow> uuid option \<Rightarrow> uuid option \<Rightarrow> canonical_operand" where
  "sample_row_operand i role z x =
     \<lparr>kp_id = i, kp_rule_id = 2, kp_operand_role = role, kp_target_zone_id = z, kp_target_object_id = x, kp_position = 0\<rparr>"

text \<open>A host in a group, a service, and two rules, the first over all of them.\<close>

definition sample_save :: save_command where
  "sample_save =
     \<lparr>sv_source_snapshot_id = 70, sv_normalizer_code = ''asa'', sv_normalizer_version = ''1'',
      sv_zones = [\<lparr>kz_id = 1, kz_snapshot_id = 0, kz_zone_key = ''z'', kz_name = ''In-side'', kz_direction_hint = None,
        kz_description = None\<rparr>],
      sv_objects = [sample_row_object 7 OK_HOST (Some ''0.0.0.1/32''), sample_row_object 9 OK_ADDR_GROUP None,
        sample_row_object 8 OK_TCP None],
      sv_object_members = [\<lparr>km_id = 20, km_parent_object_id = 9, km_child_object_id = 7, km_position = 0\<rparr>],
      sv_rules = [sample_row_rule 2 10, sample_row_rule 3 5],
      sv_operands = [sample_row_operand 11 RO_SRC_ZONE (Some 1) None, sample_row_operand 13 RO_SRC_OBJECT None (Some 9),
        sample_row_operand 15 RO_SERVICE None (Some 8)],
      sv_issues = []\<rparr>"

definition sample_reread :: "canonical_db \<Rightarrow> save_command \<Rightarrow> exc + canonical_snapshot option" where
  "sample_reread db cmd = Inl (ValueError ''the transaction is aborted'')"

text \<open>A database that takes IPv4 addresses as \<open>INET\<close>.\<close>

definition sample_inet :: "string \<Rightarrow> string option" where
  "sample_inet s = map_option ipv4_text (parse_ipv4 s)"

definition sample_db :: canonical_db where
  "sample_db = after_save 60 5 sample_save (empty_db sample_inet [70])"

lemmas sample_db_defs = sample_db_def sample_save_def sample_row_object_def sample_row_rule_def sample_row_operand_def
  empty_db_def kind_family_def addr_kind_def inet_row_def

lemma sample_save_linked: "save_linked 60 sample_save (empty_db sample_inet [70]) (after_save 60 5 sample_save (empty_db sample_inet [70]))"
  by code_simp

lemma sample_fits: "command_fits inet sample_save"
  by (simp add: sample_save_def sample_row_object_def sample_row_rule_def sample_row_operand_def command_fits_def
      zone_fits_def object_fits_def member_fits_def rule_fits_def operand_fits_def counts_fit_def null_or_def
      string_fits_def text_fits_def integer_fits_def small_integer_fits_def)

lemma sample_saved:
  "save_canonical_snapshot sample_reread 60 5 sample_save (empty_db sample_inet [70]) = (Inr (60, True), sample_db)"
  by (simp add: save_linked_result [OF sample_save_linked] sample_fits sample_db_def)

lemma sample_db_ok: "db_ok sample_db"
  by (rule save_keeps_db_ok [OF empty_db_ok sample_saved])

lemma sample_found: "get_snapshot sample_db 60 = Some (new_snapshot 60 5 sample_save)"
  by code_simp

lemma sample_rows:
  "get_objects_by_snapshot sample_db 60 = db_objects sample_db" "snapshot_edges sample_db 60 = sv_object_members sample_save"
  "get_zones_by_snapshot sample_db 60 = db_zones sample_db"
  "set (get_operands_by_snapshot sample_db 60) = set (db_operands sample_db)"
  by code_simp+

lemma sample_typed: "snapshot_typed sample_db 60"
proof -
  have "holds (db_objects sample_db) (sv_object_members sample_save) 9 7"
    using holds_direct [of "\<lparr>km_id = 20, km_parent_object_id = 9, km_child_object_id = 7, km_position = 0\<rparr>"
        "sv_object_members sample_save" "db_objects sample_db"]
    by (simp add: sample_save_def)
  then have "\<forall>p \<in> set (db_operands sample_db). operand_typed sample_db 60 p"
    unfolding operand_typed_def sample_rows resolvable_def
    by (simp add: sample_db_defs group_kind_def numeral_3_eq_3 is_group_object_def)
  then show ?thesis unfolding snapshot_typed_def sample_rows
    by (simp add: sample_db_defs get_rules_by_snapshot_def)
qed


section \<open>The properties\<close>

text \<open>C20 Every use of the tables keeps them consistent: ids are unique, references are resolved, an
  operand has exactly one target, and a stored snapshot is complete, its counts being the number of its
  rows; a save that fails changes nothing.\<close>

theorem save_invariant:
  assumes "db_ok db" "save_canonical_snapshot reread i now cmd db = (r, db')"
  shows "db_ok db' \<and> (\<forall>e. r = Inl e \<longrightarrow> db' = db)"
  using save_keeps_db_ok [OF assms] unsaved_tables [OF assms(2)] by blast

theorem save_invariant_witness: "db_ok sample_db"
  using save_invariant [OF empty_db_ok sample_saved] by simp

text \<open>C10 A saved snapshot reads back as it was saved, in whatever order the database returns rows that a
  query does not order: its zones and its objects, each once and under the new id, the bounds of ranges as
  the addresses that the \<open>INET\<close> column made of them; its rules by priority, each with its own operands by
  role and position; with the status success.  And saving the same source again with the same normalizer
  returns this snapshot and stores nothing, whatever it carries.\<close>

theorem saved_snapshot_reads_back:
  assumes "db_ok db" "save_canonical_snapshot reread i now cmd db = (Inr (j, True), db')" "same_rows db' db2"
    and "sv_source_snapshot_id cmd2 = sv_source_snapshot_id cmd"
    and "sv_normalizer_code cmd2 = sv_normalizer_code cmd" "sv_normalizer_version cmd2 = sv_normalizer_version cmd"
  shows "j = i \<and> (\<exists>g. get_canonical_snapshot db2 i = Inr g \<and> graph_reads (db_inet db) i now cmd g) \<and>
    save_canonical_snapshot reread2 i2 now2 cmd2 db2 = (Inr (i, False), db2)"
proof -
  from saved_tables [OF assms(2)] have e: "j = i" "db' = after_save i now cmd db" and acc: "save_linked i cmd db db'"
    by (auto simp: save_accepted_def)
  note rows = assms(3) [unfolded e(2)]
  show ?thesis unfolding e using saved_graph [OF assms(1) acc rows] saved_twice [OF acc rows assms(4-6)] by blast
qed

theorem saved_snapshot_reads_back_witness:
  "(\<exists>g. get_canonical_snapshot (sample_db\<lparr>db_objects := rev (db_objects sample_db)\<rparr>) 60 = Inr g \<and>
     graph_reads sample_inet 60 5 sample_save g) \<and>
   fst (save_canonical_snapshot sample_reread 61 6 sample_save (sample_db\<lparr>db_objects := rev (db_objects sample_db)\<rparr>)) =
     Inr (60, False)"
proof -
  have "same_rows sample_db (sample_db\<lparr>db_objects := rev (db_objects sample_db)\<rparr>)" by (simp add: same_rows_def)
  from saved_snapshot_reads_back [OF empty_db_ok sample_saved this refl refl refl, of sample_reread 61 6]
  show ?thesis by (simp add: empty_db_def)
qed

text \<open>The rules and the total of a page.\<close>

definition page_rules :: "(operand_dto rule_dto list \<times> pagination_dto) result \<Rightarrow> operand_dto rule_dto list" where
  "page_rules r = (case r of Some (Inr (rs, _)) \<Rightarrow> rs | _ \<Rightarrow> [])"

definition page_total :: "(operand_dto rule_dto list \<times> pagination_dto) result \<Rightarrow> nat option" where
  "page_total r = (case r of Some (Inr (_, p)) \<Rightarrow> Some (pg_rules_total p) | _ \<Rightarrow> None)"

text \<open>C25 Pages make up the whole list: asked page by page, with the rows of the rule table stored in any
  order at each request, the rules and their operands come once each and in the order of the unlimited
  list, and every page reports its length.\<close>

theorem pages_make_the_list:
  assumes "get_snapshot db snap = Some s" "distinct (map kr_id (db_rules db))" "0 < k"
    and "\<And>j. mset (rows j) = mset (db_rules db)"
  shows "\<exists>rs p. get_canonical_rules collate db snap f None 0 srt = Some (Inr (rs, p)) \<and> pg_rules_total p = length rs \<and>
    concat (map (\<lambda>j. page_rules (get_canonical_rules collate (db\<lparr>db_rules := rows j\<rparr>) snap f (Some k) (j * k) srt))
      [0..<(length rs + k - 1) div k]) = rs \<and>
    (\<forall>j. page_total (get_canonical_rules collate (db\<lparr>db_rules := rows j\<rparr>) snap f (Some k) (j * k) srt) = Some (length rs))"
proof -
  from pages_partition [where rows = rows and collate = collate and f = f and srt = srt, OF assms] obtain rs where
    r: "get_canonical_rules collate db snap f None 0 srt =
      Some (Inr (map (rule_row db snap) rs, \<lparr>pg_limit = None, pg_offset = Some 0, pg_rules_total = length rs\<rparr>))"
    "\<And>j. get_canonical_rules collate (db\<lparr>db_rules := rows j\<rparr>) snap f (Some k) (j * k) srt =
      Some (Inr (map (rule_row db snap) (take k (drop (j * k) rs)),
        \<lparr>pg_limit = Some k, pg_offset = Some (j * k), pg_rules_total = length rs\<rparr>))"
    "concat (map (\<lambda>j. take k (drop (j * k) rs)) [0..<(length rs + k - 1) div k]) = rs"
    by (elim exE conjE) (rule that, assumption, erule spec, assumption)
  have "concat (map (\<lambda>j. map (rule_row db snap) (take k (drop (j * k) rs))) [0..<n]) =
      map (rule_row db snap) (concat (map (\<lambda>j. take k (drop (j * k) rs)) [0..<n]))" for n
    by (simp add: map_concat comp_def)
  with r show ?thesis by (simp add: page_rules_def page_total_def)
qed

theorem pages_make_the_list_witness:
  "\<exists>rs p. get_canonical_rules id sample_db 60 no_filters None 0 None = Some (Inr (rs, p)) \<and>
    map ru_id rs = [3, 2] \<and>
    page_rules (get_canonical_rules id (sample_db\<lparr>db_rules := rev (db_rules sample_db)\<rparr>) 60 no_filters (Some 1) 0 None) @
    page_rules (get_canonical_rules id (sample_db\<lparr>db_rules := rev (db_rules sample_db)\<rparr>) 60 no_filters (Some 1) 1 None) = rs"
proof -
  have d: "distinct (map kr_id (db_rules sample_db))" by code_simp
  have q: "build_filtered_query sample_db 60 no_filters = Some (db_rules sample_db)" by code_simp
  have ids: "map kr_id (order_rules id None (db_rules sample_db)) = [3, 2]" by code_simp
  from rules_page [OF sample_found q, of id None 0 None] obtain rs p where
    rs: "get_canonical_rules id sample_db 60 no_filters None 0 None = Some (Inr (rs, p))"
    "rs = map (rule_row sample_db 60) (order_rules id None (db_rules sample_db))" by (simp add: limit_rows_def)
  have "map ru_id rs = map kr_id (order_rules id None (db_rules sample_db))"
    by (simp add: rs(2) rule_row_def rule_to_dto_def)
  with ids have i: "map ru_id rs = [3, 2]" by simp
  then have "length rs = 2" by (metis length_map length_Cons list.size(3) numeral_2_eq_2)
  with pages_make_the_list [OF sample_found d, of 1 "\<lambda>j. rev (db_rules sample_db)" id no_filters None] rs(1) i
  show ?thesis by (simp add: numeral_2_eq_2)
qed

text \<open>C26 The object filter finds rules through groups: it returns exactly the rules of the snapshot with
  an operand that is one of the objects given or a group that contains one, at any depth.\<close>

theorem object_filter_exact:
  assumes "get_snapshot db snap = Some s" "ids \<noteq> []"
  shows "\<exists>rs p. get_canonical_rules collate db snap (no_filters\<lparr>rf_operand_object_ids := ids\<rparr>) None 0 srt = Some (Inr (rs, p)) \<and>
    ru_id ` set rs = {kr_id r | r q i. r \<in> set (db_rules db) \<and> kr_snapshot_id r = snap \<and> q \<in> set (db_operands db) \<and>
      kp_rule_id q = kr_id r \<and> kp_target_object_id q = Some i \<and> above db snap (set ids) i}"
proof -
  from object_filter_rows [OF assms] obtain rs where rs: "get_canonical_rules collate db snap
      (no_filters\<lparr>rf_operand_object_ids := ids\<rparr>) None 0 srt =
      Some (Inr (map (rule_row db snap) rs, \<lparr>pg_limit = None, pg_offset = Some 0, pg_rules_total = length rs\<rparr>))"
    "set rs = {r \<in> set (db_rules db). kr_snapshot_id r = snap \<and> (\<exists>p \<in> set (db_operands db).
      kp_rule_id p = kr_id r \<and> (\<exists>i. kp_target_object_id p = Some i \<and> above db snap (set ids) i))}" by blast
  have "ru_id ` set (map (rule_row db snap) rs) = kr_id ` set rs"
    by (simp add: image_image rule_row_def rule_to_dto_def)
  with rs show ?thesis by (auto intro!: exI)
qed

theorem object_filter_exact_witness:
  "\<exists>rs p. get_canonical_rules id sample_db 60 (no_filters\<lparr>rf_operand_object_ids := [7]\<rparr>) None 0 None = Some (Inr (rs, p)) \<and>
    2 \<in> ru_id ` set rs"
proof -
  have m: "\<lparr>km_id = 20, km_parent_object_id = 9, km_child_object_id = 7, km_position = 0\<rparr> \<in> set (snapshot_edges sample_db 60)"
    by (simp add: sample_rows sample_save_def)
  have up: "above sample_db 60 {7} 9"
    using above_member [OF _ m] by (simp add: above_seed)
  have r: "(sample_row_rule 2 10)\<lparr>kr_snapshot_id := 60\<rparr> \<in> set (db_rules sample_db)"
    "sample_row_operand 13 RO_SRC_OBJECT None (Some 9) \<in> set (db_operands sample_db)"
    by (simp_all add: sample_db_def sample_save_def)
  from object_filter_exact [OF sample_found, of "[7]" id None] obtain rs p where
    rs: "get_canonical_rules id sample_db 60 (no_filters\<lparr>rf_operand_object_ids := [7]\<rparr>) None 0 None = Some (Inr (rs, p))"
    "ru_id ` set rs = {kr_id r | r q i. r \<in> set (db_rules sample_db) \<and> kr_snapshot_id r = 60 \<and> q \<in> set (db_operands sample_db) \<and>
      kp_rule_id q = kr_id r \<and> kp_target_object_id q = Some i \<and> above sample_db 60 (set [7]) i}" by blast
  have "2 \<in> ru_id ` set rs" unfolding rs(2)
    by (intro CollectI exI [of _ "(sample_row_rule 2 10)\<lparr>kr_snapshot_id := 60\<rparr>"]
        exI [of _ "sample_row_operand 13 RO_SRC_OBJECT None (Some 9)"] exI [of _ 9])
      (use r up in \<open>simp add: sample_row_rule_def sample_row_operand_def\<close>)
  with rs(1) show ?thesis by blast
qed

text \<open>C8 Rules of a stored snapshot can always be mapped: if kinds, members and operands of the snapshot
  fit together and its groups nest at most three deep and are not empty, then for any of its rules the
  reader finds exactly these rules with all objects they need, and the results and the scope rules are
  built, whatever the catalog holds.\<close>

theorem stored_rules_mapped:
  assumes "db_ok db" "get_snapshot db snap = Some s" "snapshot_typed db snap"
    and "ids \<noteq> []" "distinct ids" "set ids \<subseteq> kr_id ` {r \<in> set (db_rules db). kr_snapshot_id r = snap}"
    and "\<forall>a \<in> set (fc_addr_objs cat). addr_object_ok a"
  shows "\<exists>e rules rs srs. reader_scope_entities collate db snap ids = Some (Inr e) \<and>
    canonical_scope_rules collate db snap ids = Some (Inr rules) \<and> mset (map cr_id rules) = mset ids \<and>
    build_results rids clock sc e cat = Inr rs \<and> build_scope_rules sids sc rules e rs = Inr srs"
proof -
  from reader_consistent [OF assms(1-6)] obtain e rules where
    e: "reader_scope_entities collate db snap ids = Some (Inr e)"
    "canonical_scope_rules collate db snap ids = Some (Inr rules)" "mset (map cr_id rules) = mset ids"
    and c: "entities_closed e rules" by blast
  obtain rs where rs: "build_results rids clock sc e cat = Inr rs" using build_results_total [OF assms(7)] by blast
  obtain srs where "build_scope_rules sids sc rules e rs = Inr srs"
    using build_rules_total [OF rs] c unfolding entities_closed_def by blast
  with e rs show ?thesis by blast
qed

theorem stored_rules_mapped_witness:
  "\<exists>e rules rs srs. reader_scope_entities id sample_db 60 [2] = Some (Inr e) \<and>
    canonical_scope_rules id sample_db 60 [2] = Some (Inr rules) \<and>
    build_results sample_result_ids int 50 e sample_full_catalog = Inr rs \<and>
    build_scope_rules sample_rule_ids 50 rules e rs = Inr srs"
proof -
  have "set [2] \<subseteq> kr_id ` {r \<in> set (db_rules sample_db). kr_snapshot_id r = 60}"
    by (auto simp: sample_db_defs intro!: image_eqI)
  from stored_rules_mapped [OF sample_db_ok sample_found sample_typed _ _ this sample_catalog_ok,
      of id sample_result_ids int 50 sample_rule_ids] show ?thesis by auto
qed

end
