(* ===== verification/Asa_Tree.thy ===== *)
theory Asa_Tree
  imports Errors
begin

text \<open>
  The first step of the Cisco ASA parser (\<open>src/src/app/modules/imports/cisco_asa/parsing\<close>,
  \<open>lines.py\<close> and \<open>tree.py\<close>): text becomes lines, lines become a tree by their indentation.

  The builder keeps a stack of open lines, \<open>source_span\<close> walks the children.  The lemmas say what
  comes out without either: the parent of a line is the nearest line above it that is indented less
  (\<open>build_nodes\<close>), and the span of a line is the line and the block of deeper lines that
  follows it (\<open>span_of_block\<close>); the walk always ends.  Text is ASCII.
\<close>

section \<open>String operations of Python\<close>

definition starts_with :: "string \<Rightarrow> string \<Rightarrow> bool" where
  "starts_with p s \<longleftrightarrow> take (length p) s = p"

definition is_line_break :: "char \<Rightarrow> bool" where
  "is_line_break c \<longleftrightarrow> 10 \<le> code c \<and> code c \<le> 13 \<or> 28 \<le> code c \<and> code c \<le> 30"

text \<open>\<open>s.splitlines()\<close>: a carriage return with a line feed is one break, and the last line needs none.\<close>

function splitlines :: "string \<Rightarrow> string list" where
  "splitlines s =
     (if s = [] then []
      else takeWhile (\<lambda>c. \<not> is_line_break c) s #
        (case dropWhile (\<lambda>c. \<not> is_line_break c) s of
           [] \<Rightarrow> []
         | c # r \<Rightarrow> splitlines (if code c = 13 \<and> r \<noteq> [] \<and> code (hd r) = 10 then tl r else r)))"
  by pat_completeness auto
termination
proof (relation "measure length", simp)
  fix s c r
  assume "dropWhile (\<lambda>c. \<not> is_line_break c) s = c # r"
  then have "length (c # r) \<le> length s" by (metis length_dropWhile_le)
  then show "(if code c = 13 \<and> r \<noteq> [] \<and> code (hd r) = 10 then tl r else r, s) \<in> measure length"
    by auto
qed

declare splitlines.simps [simp del]

text \<open>\<open>s.split(maxsplit=n)\<close>, and \<open>s.split(maxsplit=n)[n].strip()\<close> of a line that has that part.\<close>

primrec split_max :: "nat \<Rightarrow> string \<Rightarrow> string list" where
  "split_max 0 s = (let t = lstrip_by is_space s in if t = [] then [] else [t])"
| "split_max (Suc n) s =
     (let t = lstrip_by is_space s in
      if t = [] then [] else takeWhile (\<lambda>c. \<not> is_space c) t # split_max n (dropWhile (\<lambda>c. \<not> is_space c) t))"

definition part :: "nat \<Rightarrow> string \<Rightarrow> string" where
  "part n s = (case drop n (split_max n s) of [] \<Rightarrow> [] | p # _ \<Rightarrow> strip p)"

definition is_digits :: "string \<Rightarrow> bool" where
  "is_digits s \<longleftrightarrow> s \<noteq> [] \<and> list_all is_digit s"


section \<open>Lines and nodes\<close>

record config_line =
  cl_line_no :: int
  cl_text :: string
  cl_indent :: nat

definition cl_stripped :: "config_line \<Rightarrow> string" where
  "cl_stripped l = strip (cl_text l)"

record config_node =
  cn_idx :: nat
  cn_line :: config_line
  cn_parent_idx :: "nat option"
  cn_children :: "nat list"

type_synonym config_tree = "config_node list"
  \<comment> \<open>the nodes of a \<open>ConfigTree\<close>\<close>

definition tree_children :: "config_tree \<Rightarrow> nat \<Rightarrow> config_node list" where
  "tree_children nodes i = map ((!) nodes) (cn_children (nodes ! i))"

record source_span =
  ss_line_start :: int
  ss_line_end :: int
  ss_fragment :: string


section \<open>Building the tree\<close>

fun indent_of :: "string \<Rightarrow> nat" where
  "indent_of [] = 0"
| "indent_of (c # s) = (if code c = 32 then indent_of s + 1 else if code c = 9 then indent_of s + 4 else 0)"

definition skipped :: "string \<Rightarrow> bool" where
  "skipped text \<longleftrightarrow> strip text = [] \<or> starts_with ''!'' (strip text)"

text \<open>One line; the stack has its top first.\<close>

definition build_step ::
  "int \<times> string \<Rightarrow> config_tree \<times> (nat \<times> nat) list \<Rightarrow> config_tree \<times> (nat \<times> nat) list" where
  "build_step line st =
     (case (line, st) of ((line_no, text), (nodes, stack)) \<Rightarrow>
       if skipped text then (nodes, stack)
       else
         (let indent = indent_of text;
              cfg_line = \<lparr>cl_line_no = line_no, cl_text = text, cl_indent = indent\<rparr>;
              stack = dropWhile (\<lambda>(i, _). indent \<le> i) stack;
              parent_idx = (case stack of [] \<Rightarrow> None | (_, p) # _ \<Rightarrow> Some p);
              idx = length nodes;
              nodes = nodes @ [\<lparr>cn_idx = idx, cn_line = cfg_line, cn_parent_idx = parent_idx, cn_children = []\<rparr>];
              nodes = (case parent_idx of
                  None \<Rightarrow> nodes
                | Some p \<Rightarrow> nodes[p := (nodes ! p)\<lparr>cn_children := cn_children (nodes ! p) @ [idx]\<rparr>])
          in (nodes, (indent, idx) # stack)))"

definition numbered_lines :: "string \<Rightarrow> (int \<times> string) list" where
  "numbered_lines raw = map (\<lambda>(i, t). (int i, t)) (List.enumerate 1 (splitlines raw))"

definition build_tree :: "string \<Rightarrow> config_tree" where
  "build_tree raw = fst (foldl (\<lambda>st line. build_step line st) ([], []) (numbered_lines raw))"


section \<open>Source spans\<close>

text \<open>The recursive walk over a header and its descendants, children before the next sibling.  A walk
  without an end is a \<open>RecursionError\<close>.\<close>

partial_function (option) append_subtree ::
  "config_tree \<Rightarrow> nat list \<Rightarrow> config_node list \<Rightarrow> (exc + config_node list) option" where
  "append_subtree nodes pending acc =
     (case pending of
        [] \<Rightarrow> Some (Inr acc)
      | i # rest \<Rightarrow>
          (if i < length nodes then append_subtree nodes (cn_children (nodes ! i) @ rest) (acc @ [nodes ! i])
           else Some (Inl (IndexError ''list index out of range''))))"

declare append_subtree.simps [code]

definition span_of :: "config_tree \<Rightarrow> nat \<Rightarrow> exc + source_span" where
  "span_of nodes i =
     (case append_subtree nodes [i] [] of
        None \<Rightarrow> Inl (RecursionError ''maximum recursion depth exceeded'')
      | Some r \<Rightarrow> bind_r r (\<lambda>ns.
          (let stanza = sort_key (\<lambda>n. cl_line_no (cn_line n)) ns in
           Inr \<lparr>ss_line_start = cl_line_no (cn_line (hd stanza)), ss_line_end = cl_line_no (cn_line (last stanza)),
             ss_fragment = join [CHR 0x0A] (map (\<lambda>n. cl_text (cn_line n)) stanza)\<rparr>)))"


section \<open>What the builder builds\<close>

text \<open>The nearest line above position \<open>n\<close> that is indented less than \<open>x\<close>.\<close>

definition less_above :: "nat list \<Rightarrow> nat \<Rightarrow> nat \<Rightarrow> nat option" where
  "less_above inds x n = List.find (\<lambda>j. inds ! j < x) (rev [0..<n])"

definition parent_of :: "nat list \<Rightarrow> nat \<Rightarrow> nat option" where
  "parent_of inds i = less_above inds (inds ! i) i"

definition kept_lines :: "(int \<times> string) list \<Rightarrow> config_line list" where
  "kept_lines ls = map (\<lambda>(n, t). \<lparr>cl_line_no = n, cl_text = t, cl_indent = indent_of t\<rparr>) (filter (\<lambda>(n, t). \<not> skipped t) ls)"

definition spec_tree :: "config_line list \<Rightarrow> config_tree" where
  "spec_tree ls = map (\<lambda>i. \<lparr>cn_idx = i, cn_line = ls ! i, cn_parent_idx = parent_of (map cl_indent ls) i,
     cn_children = filter (\<lambda>k. parent_of (map cl_indent ls) k = Some i) [0..<length ls]\<rparr>) [0..<length ls]"

lemma less_above_Suc:
  "n < length inds \<Longrightarrow> less_above inds x (Suc n) = (if inds ! n < x then Some n else less_above inds x n)"
  by (simp add: less_above_def)

lemma find_cong_set: "(\<And>x. x \<in> set xs \<Longrightarrow> P x = Q x) \<Longrightarrow> List.find P xs = List.find Q xs"
  by (induction xs) auto

lemma less_above_append: "n \<le> length inds \<Longrightarrow> less_above (inds @ ys) x n = less_above inds x n"
  by (auto simp: less_above_def nth_append intro!: find_cong_set)

lemma parent_of_append: "i < length inds \<Longrightarrow> parent_of (inds @ ys) i = parent_of inds i"
  by (simp add: parent_of_def less_above_append nth_append)

lemma less_above_Some:
  "less_above inds x n = Some j \<longleftrightarrow> j < n \<and> inds ! j < x \<and> (\<forall>k. j < k \<longrightarrow> k < n \<longrightarrow> x \<le> inds ! k)"
proof (induction n)
  case 0
  then show ?case by (simp add: less_above_def)
next
  case (Suc n)
  have "less_above inds x (Suc n) = (if inds ! n < x then Some n else less_above inds x n)"
    by (simp add: less_above_def)
  with Suc show ?case by (auto simp: less_Suc_eq not_less dest: not_less_iff_gr_or_eq [THEN iffD1])
qed

lemma spec_tree_snoc:
  fixes ls :: "config_line list" and l :: config_line
  defines "inds \<equiv> map cl_indent (ls @ [l])"
  shows "spec_tree (ls @ [l]) =
    (let nodes = spec_tree ls @ [\<lparr>cn_idx = length ls, cn_line = l, cn_parent_idx = parent_of inds (length ls), cn_children = []\<rparr>] in
     case parent_of inds (length ls) of
       None \<Rightarrow> nodes
     | Some p \<Rightarrow> nodes[p := (nodes ! p)\<lparr>cn_children := cn_children (nodes ! p) @ [length ls]\<rparr>])"
proof (rule nth_equalityI, goal_cases)
  case 1
  then show ?case by (simp add: spec_tree_def Let_def split: option.splits)
next
  case (2 i)
  have par: "parent_of inds k = parent_of (map cl_indent ls) k" if "k < length ls" for k
    using parent_of_append [of k "map cl_indent ls" "[cl_indent l]"] that by (simp add: inds_def)
  have ch: "filter (\<lambda>k. parent_of inds k = Some j) [0..<length (ls @ [l])] =
      filter (\<lambda>k. parent_of (map cl_indent ls) k = Some j) [0..<length ls] @
      (if parent_of inds (length ls) = Some j then [length ls] else [])" for j
  proof -
    have "filter (\<lambda>k. parent_of inds k = Some j) [0..<length ls] =
        filter (\<lambda>k. parent_of (map cl_indent ls) k = Some j) [0..<length ls]"
      by (rule filter_cong) (simp_all add: par)
    then show ?thesis by simp
  qed
  have lt: "parent_of inds k = Some j \<Longrightarrow> j < k" for j k
    by (simp add: parent_of_def less_above_Some)
  have own: "filter (\<lambda>k. parent_of (map cl_indent ls) k = Some (length ls)) [0..<length ls] = []"
    by (auto simp: filter_empty_conv parent_of_def less_above_Some)
  have i: "i < Suc (length ls)" using 2 by (simp add: spec_tree_def)
  have me: "spec_tree (ls @ [l]) ! i = \<lparr>cn_idx = i, cn_line = (ls @ [l]) ! i, cn_parent_idx = parent_of inds i,
      cn_children = filter (\<lambda>k. parent_of (map cl_indent ls) k = Some i) [0..<length ls] @
        (if parent_of inds (length ls) = Some i then [length ls] else [])\<rparr>"
  proof -
    have "spec_tree (ls @ [l]) ! i = \<lparr>cn_idx = i, cn_line = (ls @ [l]) ! i, cn_parent_idx = parent_of inds i,
        cn_children = filter (\<lambda>k. parent_of inds k = Some i) [0..<length (ls @ [l])]\<rparr>"
      using i by (simp add: spec_tree_def inds_def del: upt_Suc)
    then show ?thesis unfolding ch .
  qed
  show ?case
  proof (cases "i = length ls")
    case True
    then show ?thesis using lt [of "length ls" i] own unfolding me
      by (auto simp: spec_tree_def nth_append nth_list_update Let_def split: option.splits)
  next
    case False
    with i have "i < length ls" by simp
    then show ?thesis unfolding me
      by (auto simp: spec_tree_def nth_append nth_list_update par Let_def split: option.splits)
  qed
qed

text \<open>The stack answers the question for a parent.\<close>

definition stack_ok :: "nat list \<Rightarrow> (nat \<times> nat) list \<Rightarrow> bool" where
  "stack_ok inds stack \<longleftrightarrow>
     (\<forall>x. List.find (\<lambda>(i, _). i < x) stack = map_option (\<lambda>j. (inds ! j, j)) (less_above inds x (length inds)))"

lemma find_dropWhile_le:
  "x \<le> d \<Longrightarrow> List.find (\<lambda>(i, _). i < x) (dropWhile (\<lambda>(i, _). d \<le> i) stack) = List.find (\<lambda>(i, _). i < (x :: nat)) stack"
  by (induction stack) auto

lemma find_dropWhile_hd:
  "List.find (\<lambda>(i, _). i < x) stack = (case dropWhile (\<lambda>(i, _). (x :: nat) \<le> i) stack of [] \<Rightarrow> None | p # _ \<Rightarrow> Some p)"
  by (induction stack) (auto simp: not_le)

lemma found_position:
  "(case xs of [] \<Rightarrow> None | p # _ \<Rightarrow> Some p) = map_option (\<lambda>j. (g j, j)) r \<Longrightarrow>
     r = (case xs of [] \<Rightarrow> None | (_, p) # _ \<Rightarrow> Some p)"
  by (cases xs; cases r) auto

lemma stack_ok_push:
  assumes "stack_ok inds stack"
  shows "stack_ok (inds @ [d]) ((d, length inds) # dropWhile (\<lambda>(i, _). d \<le> i) stack)"
  unfolding stack_ok_def
proof
  fix x
  show "List.find (\<lambda>(i, _). i < x) ((d, length inds) # dropWhile (\<lambda>(i, _). d \<le> i) stack) =
      map_option (\<lambda>j. ((inds @ [d]) ! j, j)) (less_above (inds @ [d]) x (length (inds @ [d])))"
  proof (cases "d < x")
    case True
    then show ?thesis by (simp add: less_above_def nth_append)
  next
    case False
    have "less_above (inds @ [d]) x (length (inds @ [d])) = less_above inds x (length inds)"
      using False less_above_append [of "length inds" inds "[d]" x] by (simp add: less_above_def)
    moreover have "map_option (\<lambda>j. ((inds @ [d]) ! j, j)) (less_above inds x (length inds)) =
        map_option (\<lambda>j. (inds ! j, j)) (less_above inds x (length inds))"
      by (cases "less_above inds x (length inds)") (simp_all add: nth_append less_above_Some [THEN iffD1])
    ultimately show ?thesis
      using False assms by (simp add: find_dropWhile_le stack_ok_def)
  qed
qed

lemma build_steps:
  "foldl (\<lambda>st line. build_step line st) ([], []) ls = (nodes, stack) \<Longrightarrow>
     nodes = spec_tree (kept_lines ls) \<and> stack_ok (map cl_indent (kept_lines ls)) stack"
proof (induction ls arbitrary: nodes stack rule: rev_induct)
  case Nil
  then show ?case by (simp add: kept_lines_def spec_tree_def stack_ok_def less_above_def)
next
  case (snoc line ls)
  obtain nodes0 stack0 where st: "foldl (\<lambda>st line. build_step line st) ([], []) ls = (nodes0, stack0)"
    by (metis surj_pair)
  obtain no t where line: "line = (no, t)" by (metis surj_pair)
  from snoc.IH [OF st] have n0: "nodes0 = spec_tree (kept_lines ls)"
    and s0: "stack_ok (map cl_indent (kept_lines ls)) stack0" by blast+
  show ?case
  proof (cases "skipped t")
    case True
    with snoc.prems st line n0 s0 show ?thesis by (simp add: build_step_def kept_lines_def)
  next
    case False
    let ?l = "\<lparr>cl_line_no = no, cl_text = t, cl_indent = indent_of t\<rparr>"
    let ?d = "dropWhile (\<lambda>(i, _). indent_of t \<le> i) stack0"
    have k: "kept_lines (ls @ [line]) = kept_lines ls @ [?l]" using False line by (simp add: kept_lines_def)
    have len: "length nodes0 = length (kept_lines ls)" by (simp add: n0 spec_tree_def)
    have p: "parent_of (map cl_indent (kept_lines ls @ [?l])) (length (kept_lines ls)) =
        (case ?d of [] \<Rightarrow> None | (_, p) # _ \<Rightarrow> Some p)"
    proof -
      have "List.find (\<lambda>(i, _). i < indent_of t) stack0 =
          map_option (\<lambda>j. (map cl_indent (kept_lines ls) ! j, j))
            (less_above (map cl_indent (kept_lines ls)) (indent_of t) (length (kept_lines ls)))"
        using s0 by (simp add: stack_ok_def)
      then have "less_above (map cl_indent (kept_lines ls)) (indent_of t) (length (kept_lines ls)) =
          (case ?d of [] \<Rightarrow> None | (_, p) # _ \<Rightarrow> Some p)"
        unfolding find_dropWhile_hd by (rule found_position)
      then show ?thesis
        using less_above_append [of "length (kept_lines ls)" "map cl_indent (kept_lines ls)" "[indent_of t]" "indent_of t"]
        by (simp add: parent_of_def nth_append)
    qed
    have "build_step line (nodes0, stack0) = (spec_tree (kept_lines ls @ [?l]), (indent_of t, length nodes0) # ?d)"
      unfolding spec_tree_snoc n0 [symmetric] len [symmetric] p [folded len] build_step_def line Let_def prod.case if_not_P [OF False] ..
    with snoc.prems st have "nodes = spec_tree (kept_lines ls @ [?l])" "stack = (indent_of t, length nodes0) # ?d"
      by simp_all
    with stack_ok_push [OF s0, of "indent_of t"] show ?thesis by (simp add: k len)
  qed
qed

lemma build_nodes: "build_tree raw = spec_tree (kept_lines (numbered_lines raw))"
proof -
  obtain nodes stack where "foldl (\<lambda>st line. build_step line st) ([], []) (numbered_lines raw) = (nodes, stack)"
    by (metis surj_pair)
  with build_steps [OF this] show ?thesis by (simp add: build_tree_def)
qed


section \<open>What a span is\<close>

text \<open>The end of the block of deeper lines after line \<open>i\<close>.\<close>

definition block_end :: "nat list \<Rightarrow> nat \<Rightarrow> nat" where
  "block_end inds i = i + 1 + length (takeWhile (\<lambda>d. inds ! i < d) (drop (i + 1) inds))"

lemma block_end_bounds: "i < length inds \<Longrightarrow> i < block_end inds i \<and> block_end inds i \<le> length inds"
  using length_takeWhile_le [of "\<lambda>d. inds ! i < d" "drop (i + 1) inds"] by (simp add: block_end_def)

lemma block_inside:
  assumes "i < k" "k < block_end inds i"
  shows "inds ! i < inds ! k"
proof -
  let ?t = "takeWhile (\<lambda>d. inds ! i < d) (drop (i + 1) inds)"
  have k: "k - (i + 1) < length ?t" using assms by (simp add: block_end_def)
  then have "?t ! (k - (i + 1)) = drop (i + 1) inds ! (k - (i + 1))" by (rule takeWhile_nth)
  moreover have "\<dots> = inds ! k"
    using assms k length_takeWhile_le [of "\<lambda>d. inds ! i < d" "drop (i + 1) inds"] by simp
  ultimately show ?thesis using nth_mem [OF k] by (metis set_takeWhileD)
qed

lemma block_after:
  assumes "block_end inds i < length inds"
  shows "inds ! block_end inds i \<le> inds ! i"
proof -
  let ?xs = "drop (i + 1) inds" and ?t = "takeWhile (\<lambda>d. inds ! i < d) (drop (i + 1) inds)"
  have "length ?t < length ?xs" using assms by (simp add: block_end_def)
  then have "\<not> inds ! i < ?xs ! length ?t" by (rule nth_length_takeWhile)
  then show ?thesis using assms by (simp add: block_end_def)
qed

lemma parent_iff:
  "parent_of inds k = Some i \<longleftrightarrow> i < k \<and> inds ! i < inds ! k \<and> (\<forall>j. i < j \<longrightarrow> j < k \<longrightarrow> inds ! k \<le> inds ! j)"
  by (simp add: parent_of_def less_above_Some)

lemma child_in_block:
  assumes "parent_of inds k = Some i" "k < length inds"
  shows "i < k \<and> k < block_end inds i"
proof (rule ccontr)
  assume "\<not> ?thesis"
  with assms have k: "block_end inds i \<le> k" "i < k" by (auto simp: parent_iff)
  have "i < block_end inds i" by (simp add: block_end_def)
  have e: "block_end inds i < length inds" using k assms by simp
  have "inds ! k \<le> inds ! block_end inds i"
    using assms(1) k \<open>i < block_end inds i\<close> unfolding parent_iff by (metis le_neq_implies_less order_refl)
  with block_after [OF e] assms(1) show False unfolding parent_iff by simp
qed

lemma upt_append: "i \<le> j \<Longrightarrow> j \<le> k \<Longrightarrow> [i..<j] @ [j..<k] = [i..<k]"
  by (metis le_add_diff_inverse upt_add_eq_append)

text \<open>The blocks of the children make up the block below the header.\<close>

lemma child_blocks:
  assumes "i < a" "a \<le> block_end inds i" "i < length inds"
    and "a < block_end inds i \<Longrightarrow> parent_of inds a = Some i"
  shows "concat (map (\<lambda>c. [c..<block_end inds c]) (filter (\<lambda>k. parent_of inds k = Some i) [a..<block_end inds i])) =
    [a..<block_end inds i]"
  using assms
proof (induction "block_end inds i - a" arbitrary: a rule: less_induct)
  case less
  let ?e = "block_end inds i" and ?P = "\<lambda>k. parent_of inds k = Some i"
  show ?case
  proof (cases "a = ?e")
    case False
    with less.prems have a: "a < ?e" "?P a" by auto
    note le = block_end_bounds [OF less.prems(3)]
    have an: "a < length inds" using a le by simp
    note ba = block_end_bounds [OF an]
    have ae: "block_end inds a \<le> ?e"
    proof (rule ccontr)
      assume "\<not> ?thesis"
      then have "?e < block_end inds a" "?e < length inds" using ba by simp_all
      with block_inside [of a ?e inds] block_after [of inds i] a(1) block_inside [of i a inds] less.prems(1)
      show False by simp
    qed
    have inner: "filter ?P [Suc a..<block_end inds a] = []"
    proof (unfold filter_empty_conv, intro ballI notI)
      fix k
      assume k: "k \<in> set [Suc a..<block_end inds a]" "?P k"
      then have "inds ! k \<le> inds ! a" using less.prems(1) by (simp add: parent_iff)
      with block_inside [of a k inds] k show False by simp
    qed
    have up: "[a..<?e] = a # [Suc a..<block_end inds a] @ [block_end inds a..<?e]"
      using a ae ba by (metis Suc_leI le_add_diff_inverse upt_add_eq_append upt_conv_Cons)
    have nxt: "?P (block_end inds a)" if b: "block_end inds a < ?e"
    proof (unfold parent_iff, intro conjI allI impI)
      have bl: "block_end inds a < length inds" using b le by simp
      note bb = block_after [OF bl]
      show "i < block_end inds a" "inds ! i < inds ! block_end inds a"
        using less.prems(1) ba block_inside [of i "block_end inds a" inds] b by simp_all
      fix j
      assume j: "i < j" "j < block_end inds a"
      consider "j < a" | "j = a" | "a < j" by linarith
      then show "inds ! block_end inds a \<le> inds ! j"
      proof cases
        case 1
        then have "inds ! a \<le> inds ! j" using a(2) j by (simp add: parent_iff)
        with bb show ?thesis by simp
      next
        case 3
        with block_inside [of a j inds] j bb show ?thesis by simp
      qed (use bb in simp)
    qed
    have "concat (map (\<lambda>c. [c..<block_end inds c]) (filter ?P [block_end inds a..<?e])) = [block_end inds a..<?e]"
      by (rule less.hyps) (use ba a ae less.prems nxt in auto)
    with inner a(2) have "concat (map (\<lambda>c. [c..<block_end inds c]) (filter ?P [a..<?e])) =
        [a..<block_end inds a] @ [block_end inds a..<?e]"
      unfolding up by simp
    also have "\<dots> = [a..<?e]" using ba ae by (metis le_add_diff_inverse less_imp_le upt_add_eq_append)
    finally show ?thesis .
  qed simp
qed

lemma children_blocks:
  assumes "i < length inds"
  shows "concat (map (\<lambda>c. [c..<block_end inds c]) (filter (\<lambda>k. parent_of inds k = Some i) [0..<length inds])) =
    [Suc i..<block_end inds i]"
proof -
  let ?P = "\<lambda>k. parent_of inds k = Some i"
  note le = block_end_bounds [OF assms]
  have "[0..<length inds] = [0..<Suc i] @ [Suc i..<block_end inds i] @ [block_end inds i..<length inds]"
    using le by (simp add: upt_append del: upt_Suc)
  moreover have "filter ?P [0..<Suc i] = []" "filter ?P [block_end inds i..<length inds] = []"
    using child_in_block [of inds _ i] by (force simp: filter_empty_conv parent_iff)+
  ultimately have "filter ?P [0..<length inds] = filter ?P [Suc i..<block_end inds i]"
    by (simp only: filter_append append_Nil append_Nil2)
  moreover have "?P (Suc i)" if "Suc i < block_end inds i"
    using block_inside [of i "Suc i" inds] that by (auto simp: parent_iff)
  ultimately show ?thesis using child_blocks [of i "Suc i" inds] assms le by simp
qed

lemma append_subtree_spec:
  fixes ls :: "config_line list"
  defines "inds \<equiv> map cl_indent ls"
  assumes "set pending \<subseteq> {..<length ls}"
  shows "append_subtree (spec_tree ls) pending acc =
    Some (Inr (acc @ map ((!) (spec_tree ls)) (concat (map (\<lambda>c. [c..<block_end inds c]) pending))))"
  using assms(2)
proof (induction "length (concat (map (\<lambda>c. [c..<block_end inds c]) pending))" arbitrary: pending acc rule: less_induct)
  case less
  show ?case
  proof (cases pending)
    case Nil
    then show ?thesis by (simp add: append_subtree.simps)
  next
    case (Cons i rest)
    with less.prems have i: "i < length ls" by simp
    have ch: "cn_children (spec_tree ls ! i) = filter (\<lambda>k. parent_of inds k = Some i) [0..<length inds]"
      using i by (simp add: spec_tree_def inds_def)
    have cc: "concat (map (\<lambda>c. [c..<block_end inds c]) (cn_children (spec_tree ls ! i))) = [Suc i..<block_end inds i]"
      unfolding ch by (rule children_blocks) (simp add: inds_def i)
    have bi: "[i..<block_end inds i] = i # [Suc i..<block_end inds i]"
      using block_end_bounds [of i inds] i by (simp add: inds_def upt_conv_Cons)
    have len: "length (spec_tree ls) = length ls" by (simp add: spec_tree_def)
    have sub: "set (cn_children (spec_tree ls ! i) @ rest) \<subseteq> {..<length ls}"
      using less.prems Cons unfolding ch by (auto simp: inds_def)
    have flat: "concat (map (\<lambda>c. [c..<block_end inds c]) (cn_children (spec_tree ls ! i) @ rest)) =
        [Suc i..<block_end inds i] @ concat (map (\<lambda>c. [c..<block_end inds c]) rest)"
      by (simp add: cc)
    have "append_subtree (spec_tree ls) (cn_children (spec_tree ls ! i) @ rest) (acc @ [spec_tree ls ! i]) =
        Some (Inr ((acc @ [spec_tree ls ! i]) @
          map ((!) (spec_tree ls)) (concat (map (\<lambda>c. [c..<block_end inds c]) (cn_children (spec_tree ls ! i) @ rest)))))"
      by (rule less.hyps [OF _ sub]) (simp add: flat cc Cons bi del: length_concat)
    then show ?thesis using i unfolding flat
      by (subst append_subtree.simps) (simp add: Cons len bi)
  qed
qed

text \<open>Line numbers grow.\<close>

lemma map_fst_enumerate_int: "map (\<lambda>x. int (fst x)) (List.enumerate n xs) = map int [n..<n + length xs]"
  by (induction xs arbitrary: n) (simp_all add: upt_conv_Cons del: upt_Suc)

lemma kept_numbered_sorted: "sorted_wrt (<) (map cl_line_no (kept_lines (numbered_lines raw)))"
proof -
  have num: "map fst (numbered_lines raw) = map int [1..<Suc (length (splitlines raw))]"
    using map_fst_enumerate_int [of 1 "splitlines raw"]
    by (simp add: numbered_lines_def comp_def case_prod_beta del: upt_Suc)
  have "map cl_line_no (kept_lines ls) = map fst (filter (\<lambda>(n, t). \<not> skipped t) ls)" for ls
    by (simp add: kept_lines_def comp_def case_prod_beta)
  moreover have "sorted_wrt (<) (map fst (numbered_lines raw))"
    unfolding num by (simp add: sorted_wrt_map del: upt_Suc)
  ultimately show ?thesis
    by (simp add: sorted_wrt_map sorted_wrt_filter)
qed

lemma span_of_block:
  assumes "i < length (build_tree raw)"
  defines "ls \<equiv> kept_lines (numbered_lines raw)"
  defines "e \<equiv> block_end (map cl_indent ls) i"
  shows "span_of (build_tree raw) i = Inr \<lparr>ss_line_start = cl_line_no (ls ! i), ss_line_end = cl_line_no (ls ! (e - 1)),
    ss_fragment = join [CHR 0x0A] (map cl_text (drop i (take e ls)))\<rparr>"
proof -
  let ?ns = "map ((!) (spec_tree ls)) [i..<e]"
  have i: "i < length ls" using assms(1) unfolding build_nodes ls_def by (simp add: spec_tree_def)
  have e: "i < e" "e \<le> length ls" unfolding e_def using block_end_bounds [of i "map cl_indent ls"] i by simp_all
  have walk: "append_subtree (build_tree raw) [i] [] = Some (Inr ?ns)"
    unfolding build_nodes ls_def [symmetric] using append_subtree_spec [of "[i]" ls "[]"] i by (simp add: e_def)
  have line: "cn_line (spec_tree ls ! k) = ls ! k" if "k < length ls" for k
    using that by (simp add: spec_tree_def)
  have lns: "map cn_line ?ns = drop i (take e ls)"
    using e line by (auto intro!: nth_equalityI)
  have srt: "sorted_wrt (<) (map cl_line_no (drop i (take e ls)))"
    using kept_numbered_sorted [of raw, folded ls_def]
    by (metis append_take_drop_id sorted_wrt_append sorted_wrt_drop sorted_wrt_take drop_map take_map)
  have "sort_key (\<lambda>n. cl_line_no (cn_line n)) ?ns = ?ns"
  proof (rule sort_key_id_if_sorted)
    have "map (\<lambda>n. cl_line_no (cn_line n)) ?ns = map cl_line_no (map cn_line ?ns)" by simp
    then show "sorted (map (\<lambda>n. cl_line_no (cn_line n)) ?ns)"
      unfolding lns using srt by (metis strict_sorted_imp_sorted)
  qed
  moreover have "hd ?ns = spec_tree ls ! i" "last ?ns = spec_tree ls ! (e - 1)"
    using e by (simp_all add: hd_map last_map)
  moreover have "map (\<lambda>n. cl_text (cn_line n)) ?ns = map cl_text (drop i (take e ls))"
    unfolding lns [symmetric] by simp
  ultimately show ?thesis using e line [of i] line [of "e - 1"]
    by (simp only: span_of_def walk option.case bind_r_simps Let_def)
qed

end
