(* ===== verification/Asa_Config.thy ===== *)
theory Asa_Config
  imports Asa_Tree
begin

text \<open>
  The parsed configuration of a Cisco ASA (\<open>domain/enums.py\<close>, \<open>domain/parsed_config.py\<close>).

  A payload is a Python dictionary whose values are strings, so it is an ordered dictionary; its two
  lists, the members and the lines not understood, are fields of their own.  The members of an address
  group are dictionaries at first and references (strings) afterwards, so the records that hold them
  have their type as a parameter.
\<close>

section \<open>Enums\<close>

datatype protocol_operand_kind = PK_LITERAL | PK_PROTOCOL_GROUP | PK_SERVICE_OBJECT | PK_IP_PROTOCOL_NUMBER

fun protocol_kind_value :: "protocol_operand_kind \<Rightarrow> string" where
  "protocol_kind_value PK_LITERAL = ''literal''"
| "protocol_kind_value PK_PROTOCOL_GROUP = ''protocol_group''"
| "protocol_kind_value PK_SERVICE_OBJECT = ''service_object''"
| "protocol_kind_value PK_IP_PROTOCOL_NUMBER = ''ip_protocol_number''"

datatype acl_usage_type = AU_FIREWALL_POLICY | AU_CRYPTO_MAP_SELECTOR | AU_UNKNOWN | AU_CONFLICT

fun acl_usage_value :: "acl_usage_type \<Rightarrow> string" where
  "acl_usage_value AU_FIREWALL_POLICY = ''firewall_policy''"
| "acl_usage_value AU_CRYPTO_MAP_SELECTOR = ''crypto_map_selector''"
| "acl_usage_value AU_UNKNOWN = ''unknown''"
| "acl_usage_value AU_CONFLICT = ''conflict''"

datatype rule_processing_status = PS_FW_APPLICABLE | PS_SKIPPED_FOR_NOW

fun processing_status_value :: "rule_processing_status \<Rightarrow> string" where
  "processing_status_value PS_FW_APPLICABLE = ''fw_applicable''"
| "processing_status_value PS_SKIPPED_FOR_NOW = ''skipped_for_now''"

datatype issue_reason =
  IR_BINDING_MISSING | IR_MAPPING_MISSING | IR_PROTOCOL_UNRESOLVED | IR_USAGE_CONFLICT | IR_CRYPTO_MAP_SELECTOR
  | IR_GLOBAL_SCOPE | IR_TEXTUAL_DUPLICATE

fun issue_reason_value :: "issue_reason \<Rightarrow> string" where
  "issue_reason_value IR_BINDING_MISSING = ''binding_missing''"
| "issue_reason_value IR_MAPPING_MISSING = ''mapping_missing''"
| "issue_reason_value IR_PROTOCOL_UNRESOLVED = ''protocol_unresolved''"
| "issue_reason_value IR_USAGE_CONFLICT = ''usage_conflict''"
| "issue_reason_value IR_CRYPTO_MAP_SELECTOR = ''crypto_map_selector''"
| "issue_reason_value IR_GLOBAL_SCOPE = ''global_scope''"
| "issue_reason_value IR_TEXTUAL_DUPLICATE = ''textual_duplicate''"

datatype parsed_object_type = PT_ADDRESS | PT_ADDRESS_GROUP | PT_SERVICE | PT_SERVICE_GROUP | PT_PROTOCOL_GROUP

datatype acl_binding_type = AB_INTERFACE | AB_GLOBAL | AB_UNKNOWN

datatype zone_inference_status = ZI_DIRECTIONAL | ZI_NON_DIRECTIONAL | ZI_GLOBAL_SCOPE | ZI_UNKNOWN

fun zone_inference_value :: "zone_inference_status \<Rightarrow> string" where
  "zone_inference_value ZI_DIRECTIONAL = ''directional''"
| "zone_inference_value ZI_NON_DIRECTIONAL = ''non_directional''"
| "zone_inference_value ZI_GLOBAL_SCOPE = ''global_scope''"
| "zone_inference_value ZI_UNKNOWN = ''unknown''"


section \<open>Parsed objects\<close>

type_synonym str_dict = "(string \<times> string) list"

definition dict_set :: "string \<Rightarrow> string \<Rightarrow> str_dict \<Rightarrow> str_dict" where
  "dict_set k v d = AList.update k v d"

definition dict_merge :: "str_dict \<Rightarrow> str_dict \<Rightarrow> str_dict" where
  "dict_merge d e = foldl (\<lambda>d (k, v). dict_set k v d) d e"

text \<open>\<open>d[k]\<close>; \<open>d.get(k) or ""\<close>; \<open>a or b\<close> of optional strings.\<close>

definition dict_item :: "str_dict \<Rightarrow> string \<Rightarrow> exc + string" where
  "dict_item d k = (case map_of d k of None \<Rightarrow> Inl (KeyError k) | Some v \<Rightarrow> Inr v)"

definition str_of :: "string option \<Rightarrow> string" where
  "str_of x = (case x of None \<Rightarrow> [] | Some s \<Rightarrow> s)"

definition truthy :: "string option \<Rightarrow> bool" where
  "truthy x \<longleftrightarrow> str_of x \<noteq> []"

definition str_or :: "string option \<Rightarrow> string option \<Rightarrow> string option" where
  "str_or x y = (if truthy x then x else y)"

datatype address_member =
  AM_HOST string | AM_SUBNET string string | AM_OBJECT string | AM_GROUP string

datatype service_member =
  SM_GROUP_OBJECT string
  | SM_SERVICE_OBJECT_OBJECT string
  | SM_SERVICE_OBJECT "str_dict option" string
  | SM_PORT_OBJECT string
  | SM_PROTOCOL_OBJECT string
  | SM_ICMP_OBJECT string

record 'm payload =
  py_fields :: str_dict
  py_members :: "'m list"
  py_raw_lines :: "string list"

definition empty_payload :: "'m payload" where
  "empty_payload = \<lparr>py_fields = [], py_members = [], py_raw_lines = []\<rparr>"

record 'm parsed_object =
  po_name :: string
  po_kind :: parsed_object_type
  po_payload :: "'m payload"
  po_source_line :: int
  po_source_line_end :: int
  po_source_fragment :: string

record crypto_map_link =
  cm_map_name :: string
  cm_sequence :: int
  cm_acl_name :: string
  cm_source_line :: int

record parsed_access_rule =
  pr_acl_name :: string
  pr_rule_name :: string
  pr_action :: string
  pr_protocol :: string
  pr_src_ref :: string
  pr_dst_ref :: string
  pr_service_ref :: "string option"
  pr_enabled :: bool
  pr_order :: int
  pr_line_start :: int
  pr_line_end :: int
  pr_src_zone :: "string option"
  pr_dst_zone :: "string option"
  pr_unresolved_zone :: bool
  pr_binding_type :: acl_binding_type
  pr_zone_inference :: zone_inference_status
  pr_time_range :: "string option"
  pr_log :: bool
  pr_operand_kind :: protocol_operand_kind
  pr_protocol_group_ref :: "string option"
  pr_protocol_number :: "int option"
  pr_usage_type :: acl_usage_type
  pr_crypto_map_name :: "string option"
  pr_crypto_map_seq :: "int option"
  pr_raw_line_text :: string
  pr_binding_context_key :: string
  pr_binding_interface :: "string option"
  pr_binding_direction :: "string option"

record 'm parsed_config =
  pc_address_objects :: "'m parsed_object list"
  pc_service_objects :: "service_member parsed_object list"
  pc_rules :: "parsed_access_rule list"
  pc_crypto_map_links :: "crypto_map_link list"

end
