(* ===== verification/Asa_Index.thy ===== *)
theory Asa_Index
  imports Asa_Config
begin

text \<open>
  The index of a configuration (\<open>parsing/index.py\<close>), the zones of an ACL
  (\<open>parsing/extractors/zones.py\<close>) and its use (\<open>parsing/extractors/usage.py\<close>).

  The regular expressions are matched on the words of the stripped line: their parts are words
  separated by white space, so a match is a list of words with some fixed.  The one on the name of an
  ACL is matched on the parts between underscores and hyphens.
\<close>

section \<open>The index\<close>

definition crypto_map_match :: "string \<Rightarrow> (string \<times> int \<times> string) option" where
  "crypto_map_match s =
     (case split_ws s of
        w0 # w1 # name # seq # w4 # w5 # acl # _ \<Rightarrow>
          (if lower w0 = ''crypto'' \<and> lower w1 = ''map'' \<and> is_digits seq \<and> lower w4 = ''match'' \<and>
              lower w5 = ''address'' then Some (name, int (nat_val seq), acl) else None)
      | _ \<Rightarrow> None)"

record asa_index =
  ix_object_network :: "(string \<times> nat list) list"
  ix_object_group_network :: "(string \<times> nat) list"
  ix_object_service :: "(string \<times> nat) list"
  ix_object_group_service :: "(string \<times> nat) list"
  ix_object_group_icmp_type :: "(string \<times> nat) list"
  ix_object_group_protocol :: "(string \<times> nat) list"
  ix_interfaces_nameif :: "(string \<times> string) list"
  ix_crypto_map_by_acl :: "(string \<times> crypto_map_link list) list"

definition empty_index :: asa_index where
  "empty_index = \<lparr>ix_object_network = [], ix_object_group_network = [], ix_object_service = [],
     ix_object_group_service = [], ix_object_group_icmp_type = [], ix_object_group_protocol = [],
     ix_interfaces_nameif = [], ix_crypto_map_by_acl = []\<rparr>"

definition index_step :: "config_node \<Rightarrow> asa_index \<times> string option \<Rightarrow> asa_index \<times> string option" where
  "index_step node st =
     (case st of (ix, current_interface) \<Rightarrow>
       let s = cl_stripped (cn_line node); low = lower s; words = split_ws s; i = cn_idx node in
       if starts_with ''interface '' low then (ix, Some (part 1 s))
       else if truthy current_interface \<and> 0 < cl_indent (cn_line node) \<and> starts_with ''nameif '' low then
         (ix\<lparr>ix_interfaces_nameif := AList.update (str_of current_interface) (part 1 s) (ix_interfaces_nameif ix)\<rparr>,
           current_interface)
       else if starts_with ''object network '' low then
         (ix\<lparr>ix_object_network := group_append (part 2 s) i (ix_object_network ix)\<rparr>, current_interface)
       else if starts_with ''object-group network '' low then
         (if 3 \<le> length words then
            ix\<lparr>ix_object_group_network := AList.update (words ! 2) i (ix_object_group_network ix)\<rparr> else ix,
          current_interface)
       else if starts_with ''object service '' low then
         (ix\<lparr>ix_object_service := AList.update (part 2 s) i (ix_object_service ix)\<rparr>, current_interface)
       else if starts_with ''object-group service '' low then
         (if 3 \<le> length words then
            ix\<lparr>ix_object_group_service := AList.update (words ! 2) i (ix_object_group_service ix)\<rparr> else ix,
          current_interface)
       else if starts_with ''object-group icmp-type '' low then
         (ix\<lparr>ix_object_group_icmp_type := AList.update (part 2 s) i (ix_object_group_icmp_type ix)\<rparr>, current_interface)
       else if starts_with ''object-group protocol '' low then
         (ix\<lparr>ix_object_group_protocol := AList.update (part 2 s) i (ix_object_group_protocol ix)\<rparr>, current_interface)
       else
         (case crypto_map_match s of
            None \<Rightarrow> ix
          | Some (name, seq, acl) \<Rightarrow>
              ix\<lparr>ix_crypto_map_by_acl := group_append acl
                \<lparr>cm_map_name = name, cm_sequence = seq, cm_acl_name = acl, cm_source_line = cl_line_no (cn_line node)\<rparr>
                (ix_crypto_map_by_acl ix)\<rparr>,
          current_interface))"

definition index_from_tree :: "config_tree \<Rightarrow> asa_index" where
  "index_from_tree tree = fst (foldl (\<lambda>st node. index_step node st) (empty_index, None) tree)"


section \<open>Zones\<close>

definition access_group_match :: "string \<Rightarrow> (string \<times> string \<times> string) option" where
  "access_group_match s =
     (case split_ws s of
        grp # acl # direction # iface_word # iface # _ \<Rightarrow>
          (if lower grp = ''access-group'' \<and> lower direction \<in> {''in'', ''out''} \<and> lower iface_word = ''interface''
           then Some (acl, direction, iface) else None)
      | _ \<Rightarrow> None)"

definition access_group_global_match :: "string \<Rightarrow> string option" where
  "access_group_global_match s =
     (case split_ws s of
        [grp, acl, glob] \<Rightarrow> (if lower grp = ''access-group'' \<and> lower glob = ''global'' then Some acl else None)
      | _ \<Rightarrow> None)"

definition alnum_word :: "string \<Rightarrow> bool" where
  "alnum_word s \<longleftrightarrow> s \<noteq> [] \<and> list_all (\<lambda>c. is_digit c \<or> is_lower (lower_char c)) s"

definition infer_from_acl_name :: "string \<Rightarrow> string option \<times> string option" where
  "infer_from_acl_name acl =
     (let zones = (\<lambda>src to dst. if alnum_word src \<and> lower to = ''to'' \<and> alnum_word dst
            then (Some (lower src), Some (lower dst)) else (None, None)) in
      case split_on (CHR ''_'') (map (\<lambda>c. if c = CHR ''-'' then CHR ''_'' else c) acl) of
        [src, to, dst] \<Rightarrow> zones src to dst
      | [acl_word, src, to, dst] \<Rightarrow> (if lower acl_word = ''acl'' then zones src to dst else (None, None))
      | _ \<Rightarrow> (None, None))"

record zone_resolution =
  zr_src_zone :: "string option"
  zr_dst_zone :: "string option"
  zr_unresolved :: bool
  zr_binding_type :: acl_binding_type
  zr_zone_inference :: zone_inference_status
  zr_binding_interface :: "string option"
  zr_binding_direction :: "string option"
  zr_context_key :: string

record zone_resolver =
  zv_iface_to_zone :: "(string \<times> string) list"
  zv_acl_to_iface :: "(string \<times> (string \<times> string) list) list"
  zv_acl_global :: "string list"

definition zones_from_tree :: "config_tree \<Rightarrow> asa_index \<Rightarrow> zone_resolver" where
  "zones_from_tree tree ix =
     foldl (\<lambda>zv node.
       (let s = cl_stripped (cn_line node) in
        case access_group_global_match s of
          Some acl \<Rightarrow> zv\<lparr>zv_acl_global := List.insert acl (zv_acl_global zv)\<rparr>
        | None \<Rightarrow>
            (case access_group_match s of
               None \<Rightarrow> zv
             | Some (acl, direction, iface) \<Rightarrow>
                 zv\<lparr>zv_acl_to_iface := group_append acl (iface, lower direction) (zv_acl_to_iface zv)\<rparr>)))
       \<lparr>zv_iface_to_zone = ix_interfaces_nameif ix, zv_acl_to_iface = [], zv_acl_global = []\<rparr> tree"

definition interface_resolution :: "zone_resolver \<Rightarrow> string \<Rightarrow> string \<times> string \<Rightarrow> zone_resolution" where
  "interface_resolution zv acl binding =
     (case (binding, infer_from_acl_name acl) of ((iface, direction), (inferred_src, inferred_dst)) \<Rightarrow>
       let z = map_of (zv_iface_to_zone zv) iface;
           dst = (if truthy z \<and> direction = ''in'' then z else None);
           src = (if truthy z \<and> direction \<noteq> ''in'' then z else None);
           src_zone = str_or src inferred_src;
           dst_zone = str_or dst inferred_dst in
       \<lparr>zr_src_zone = src_zone, zr_dst_zone = dst_zone, zr_unresolved = (\<not> (truthy src_zone \<or> truthy dst_zone)),
        zr_binding_type = AB_INTERFACE, zr_zone_inference = ZI_DIRECTIONAL, zr_binding_interface = Some iface,
        zr_binding_direction = Some direction,
        zr_context_key = ''interface:'' @ iface @ '':'' @ direction\<rparr>)"

definition unbound_resolution :: zone_resolution where
  "unbound_resolution =
     \<lparr>zr_src_zone = None, zr_dst_zone = None, zr_unresolved = True, zr_binding_type = AB_UNKNOWN,
      zr_zone_inference = ZI_UNKNOWN, zr_binding_interface = None, zr_binding_direction = None,
      zr_context_key = ''unbound''\<rparr>"

definition resolve_all_zones :: "zone_resolver \<Rightarrow> string \<Rightarrow> zone_resolution list" where
  "resolve_all_zones zv acl =
     (let global = (if acl \<in> set (zv_acl_global zv) then
            [unbound_resolution\<lparr>zr_unresolved := False, zr_binding_type := AB_GLOBAL, zr_zone_inference := ZI_GLOBAL_SCOPE,
               zr_context_key := ''global''\<rparr>] else []);
          results = global @ map (interface_resolution zv acl) (dict_get (zv_acl_to_iface zv) acl []) in
      if results \<noteq> [] then results
      else
        (case infer_from_acl_name acl of (src, dst) \<Rightarrow>
           if truthy src \<or> truthy dst then
             [unbound_resolution\<lparr>zr_src_zone := src, zr_dst_zone := dst, zr_unresolved := False,
                zr_zone_inference := ZI_DIRECTIONAL, zr_context_key := ''inferred''\<rparr>]
           else [unbound_resolution]))"


section \<open>Use of an ACL\<close>

record acl_usage =
  au_usage_type :: acl_usage_type
  au_crypto_map_name :: "string option"
  au_crypto_map_seq :: "int option"
  au_crypto_map_source_line :: "int option"

definition firewall_acls :: "config_tree \<Rightarrow> string list" where
  "firewall_acls tree =
     foldl (\<lambda>acls node.
       (let s = cl_stripped (cn_line node); parts = split_ws s in
        if starts_with ''access-group '' (lower s) \<and> 2 \<le> length parts then List.insert (parts ! 1) acls else acls))
       [] tree"

definition resolve_usage :: "string list \<Rightarrow> (string \<times> crypto_map_link list) list \<Rightarrow> string \<Rightarrow> acl_usage" where
  "resolve_usage firewall crypto acl =
     (let links = dict_get crypto acl [];
          is_firewall = (acl \<in> set firewall);
          with_link = (\<lambda>u l. \<lparr>au_usage_type = u, au_crypto_map_name = Some (cm_map_name l),
            au_crypto_map_seq = Some (cm_sequence l), au_crypto_map_source_line = Some (cm_source_line l)\<rparr>);
          plain = (\<lambda>u. \<lparr>au_usage_type = u, au_crypto_map_name = None, au_crypto_map_seq = None,
            au_crypto_map_source_line = None\<rparr>) in
      case links of
        l # _ \<Rightarrow> with_link (if is_firewall then AU_CONFLICT else AU_CRYPTO_MAP_SELECTOR) l
      | [] \<Rightarrow> plain (if is_firewall then AU_FIREWALL_POLICY else AU_UNKNOWN))"


section \<open>Lemmas\<close>

lemma resolve_all_nonempty: "resolve_all_zones zv acl \<noteq> []"
  by (simp add: resolve_all_zones_def Let_def split: prod.splits)

text \<open>An ACL has one context for each of its bindings.\<close>

lemma resolve_all_bound:
  "acl \<in> set (zv_acl_global zv) \<or> dict_get (zv_acl_to_iface zv) acl [] \<noteq> [] \<Longrightarrow>
     map zr_context_key (resolve_all_zones zv acl) =
       (if acl \<in> set (zv_acl_global zv) then [''global''] else []) @
       map (\<lambda>(iface, direction). ''interface:'' @ iface @ '':'' @ direction) (dict_get (zv_acl_to_iface zv) acl [])"
  by (auto simp: resolve_all_zones_def Let_def interface_resolution_def case_prod_beta)

end
