(* ===== verification/Asa_Acl.thy ===== *)
theory Asa_Acl
  imports Asa_Index
begin

text \<open>
  Extended ACL lines (\<open>parsing/tokens.py\<close>, \<open>parsing/protocol_operands.py\<close>,
  \<open>parsing/extractors/acls.py\<close>): a line is split into words, modifiers are taken out, the protocol,
  the two endpoints and the service are read from left to right, and one rule results for each binding of
  the ACL.

  \<open>line_parsed\<close> gives the fields of the rule for a line written as the manual has it.
\<close>

section \<open>Modifiers\<close>

record acl_modifiers =
  md_inactive :: bool
  md_log :: bool
  md_time_range :: "string option"

fun modifiers_loop :: "string list \<Rightarrow> string list \<Rightarrow> acl_modifiers \<Rightarrow> string list \<times> acl_modifiers" where
  "modifiers_loop [] filtered mods = (filtered, mods)"
| "modifiers_loop (t # ts) filtered mods =
     (if lower t = ''inactive'' then modifiers_loop ts filtered (mods\<lparr>md_inactive := True\<rparr>)
      else if lower t = ''log'' then modifiers_loop ts (filtered @ [t]) (mods\<lparr>md_log := True\<rparr>)
      else if lower t = ''time-range'' then
        (case ts of
           [] \<Rightarrow> modifiers_loop ts (filtered @ [t]) mods
         | u # us \<Rightarrow> modifiers_loop us filtered (mods\<lparr>md_time_range := Some u\<rparr>))
      else modifiers_loop ts (filtered @ [t]) mods)"

definition parse_modifiers :: "string list \<Rightarrow> string list \<times> acl_modifiers" where
  "parse_modifiers tokens = modifiers_loop tokens [] \<lparr>md_inactive = False, md_log = False, md_time_range = None\<rparr>"


section \<open>The protocol\<close>

record protocol_operand =
  op_kind :: protocol_operand_kind
  op_protocol :: string
  op_group_ref :: "string option"
  op_service_ref :: "string option"
  op_protocol_number :: "int option"

definition known_literal_protocols :: "string list" where
  "known_literal_protocols =
     [''tcp'', ''udp'', ''icmp'', ''icmp6'', ''ip'', ''ah'', ''esp'', ''gre'', ''igmp'', ''eigrp'', ''ospf'', ''pim'', ''sctp'']"

definition simple_operand :: "protocol_operand_kind \<Rightarrow> string \<Rightarrow> int option \<Rightarrow> protocol_operand" where
  "simple_operand k p n =
     \<lparr>op_kind = k, op_protocol = p, op_group_ref = None, op_service_ref = None, op_protocol_number = n\<rparr>"

definition parse_protocol_operand :: "string \<Rightarrow> string list \<Rightarrow> protocol_operand \<times> string list" where
  "parse_protocol_operand proto rest =
     (let lowered = lower proto in
      if lowered = ''object-group'' then
        (let op = simple_operand PK_PROTOCOL_GROUP ''protocol-group'' None in
         case rest of [] \<Rightarrow> (op, rest) | r # rs \<Rightarrow> (op\<lparr>op_group_ref := Some r\<rparr>, rs))
      else if lowered = ''object'' then
        (let op = simple_operand PK_SERVICE_OBJECT ''service-object'' None in
         case rest of [] \<Rightarrow> (op, rest) | r # rs \<Rightarrow> (op\<lparr>op_service_ref := Some r\<rparr>, rs))
      else if is_digits lowered \<and> nat_val lowered \<le> 255 then
        (simple_operand PK_IP_PROTOCOL_NUMBER (nat_str (nat_val lowered)) (Some (int (nat_val lowered))), rest)
      else if lowered \<in> set known_literal_protocols then (simple_operand PK_LITERAL lowered None, rest)
      else if is_digits lowered then
        (simple_operand PK_IP_PROTOCOL_NUMBER lowered (Some (int (nat_val lowered))), rest)
      else (simple_operand PK_LITERAL lowered None, rest))"


section \<open>Endpoints\<close>

definition is_ipv4_token :: "string \<Rightarrow> bool" where
  "is_ipv4_token t \<longleftrightarrow>
     (case split_on (CHR ''.'') t of
        [a, b, c, d] \<Rightarrow> list_all (\<lambda>p. is_digits p \<and> length p \<le> 3) [a, b, c, d]
      | _ \<Rightarrow> False)"

text \<open>The reference and the words left; the code passes an index into one list of words.\<close>

definition parse_endpoint :: "string list \<Rightarrow> string \<times> string list" where
  "parse_endpoint tokens =
     (case tokens of
        [] \<Rightarrow> (''any'', [])
      | token # rest \<Rightarrow>
          (let lowered = lower token in
           if lowered \<in> {''any'', ''any4'', ''any6''} then (''any'', rest)
           else
             (case rest of
                [] \<Rightarrow> (token, rest)
              | u # us \<Rightarrow>
                  (if lowered \<in> {''object-group'', ''object''} then (u, us)
                   else if lowered = ''host'' then (''host:'' @ u, us)
                   else if lowered = ''interface'' then (''interface:'' @ u, us)
                   else if is_ipv4_token token \<and> is_ipv4_token u then (''net:'' @ token @ ''/'' @ u, us)
                   else (token, rest)))))"


section \<open>The service\<close>

text \<open>The words after the last occurrence of a keyword.\<close>

fun after_last :: "string \<Rightarrow> string list \<Rightarrow> string list option" where
  "after_last k [] = None"
| "after_last k (t # ts) =
     (case after_last k ts of Some r \<Rightarrow> Some r | None \<Rightarrow> (if lower t = k then Some ts else None))"

definition word_after :: "string \<Rightarrow> string list \<Rightarrow> string option" where
  "word_after k tail = (case after_last k tail of Some (u # _) \<Rightarrow> Some u | _ \<Rightarrow> None)"

fun first_some :: "'a option list \<Rightarrow> 'a option" where
  "first_some [] = None"
| "first_some (x # xs) = (case x of Some y \<Rightarrow> Some y | None \<Rightarrow> first_some xs)"

definition range_after :: "string list \<Rightarrow> string option" where
  "range_after tail = (case after_last ''range'' tail of Some (u # v # _) \<Rightarrow> Some (u @ ''-'' @ v) | _ \<Rightarrow> None)"

definition extract_service_ref :: "protocol_operand \<Rightarrow> string list \<Rightarrow> string option" where
  "extract_service_ref op tail =
     (if tail = [] then None
      else if op_kind op = PK_IP_PROTOCOL_NUMBER then
        first_some [word_after ''object-group'' tail, word_after ''object'' tail]
      else
        first_some ([word_after ''object-group'' tail, word_after ''object'' tail] @
          map (\<lambda>operator. word_after operator tail) [''eq'', ''lt'', ''gt'', ''neq''] @
          [range_after tail,
           if op_kind op = PK_LITERAL \<and> op_protocol op \<in> {''icmp'', ''icmp6''} \<and>
              lower (hd tail) \<notin> {''log'', ''inactive'', ''time-range''} then Some (hd tail) else None]))"


section \<open>A line\<close>

record acl_line =
  al_acl :: string
  al_action :: string
  al_operand :: protocol_operand
  al_src_ref :: string
  al_dst_ref :: string
  al_service_ref :: "string option"
  al_mods :: acl_modifiers

definition upper_char :: "char \<Rightarrow> char" where
  "upper_char c = (if is_lower c then char_of (code c - 32) else c)"

definition upper :: "string \<Rightarrow> string" where
  "upper s = map upper_char s"

definition access_list_match :: "string \<Rightarrow> (string \<times> string \<times> string \<times> string list) option" where
  "access_list_match s =
     (case split_ws s of
        w0 # acl # w2 # action # proto # r # rs \<Rightarrow>
          (if lower w0 = ''access-list'' \<and> lower w2 = ''extended'' \<and> lower action \<in> {''permit'', ''deny''}
           then Some (acl, action, proto, r # rs) else None)
      | _ \<Rightarrow> None)"

definition parse_acl_line :: "string \<Rightarrow> acl_line option" where
  "parse_acl_line s =
     (case access_list_match s of
        None \<Rightarrow> None
      | Some (acl, action, proto, words) \<Rightarrow>
          (case parse_modifiers words of (tokens, mods) \<Rightarrow>
           case parse_protocol_operand proto tokens of (op, endpoint_tokens) \<Rightarrow>
           case parse_endpoint endpoint_tokens of (src, tokens2) \<Rightarrow>
           case parse_endpoint tokens2 of (dst, tail) \<Rightarrow>
           Some \<lparr>al_acl = acl, al_action = upper action, al_operand = op, al_src_ref = src, al_dst_ref = dst,
             al_service_ref = str_or (op_service_ref op) (extract_service_ref op tail), al_mods = mods\<rparr>))"


section \<open>The rules\<close>

definition rule_of_line ::
  "string \<Rightarrow> int \<Rightarrow> int \<Rightarrow> acl_line \<Rightarrow> acl_usage \<Rightarrow> zone_resolution \<Rightarrow> parsed_access_rule" where
  "rule_of_line s line_no order l ur zr =
     \<lparr>pr_acl_name = al_acl l, pr_rule_name = al_acl l @ '':'' @ int_str order, pr_action = al_action l,
      pr_protocol = op_protocol (al_operand l), pr_src_ref = al_src_ref l, pr_dst_ref = al_dst_ref l,
      pr_service_ref = al_service_ref l, pr_enabled = (\<not> md_inactive (al_mods l)), pr_order = order,
      pr_line_start = line_no, pr_line_end = line_no, pr_src_zone = zr_src_zone zr, pr_dst_zone = zr_dst_zone zr,
      pr_unresolved_zone = zr_unresolved zr, pr_binding_type = zr_binding_type zr,
      pr_zone_inference = zr_zone_inference zr, pr_time_range = md_time_range (al_mods l), pr_log = md_log (al_mods l),
      pr_operand_kind = op_kind (al_operand l), pr_protocol_group_ref = op_group_ref (al_operand l),
      pr_protocol_number = op_protocol_number (al_operand l), pr_usage_type = au_usage_type ur,
      pr_crypto_map_name = au_crypto_map_name ur, pr_crypto_map_seq = au_crypto_map_seq ur, pr_raw_line_text = s,
      pr_binding_context_key = zr_context_key zr, pr_binding_interface = zr_binding_interface zr,
      pr_binding_direction = zr_binding_direction zr\<rparr>"

text \<open>The resolvers are passed in by the only caller.\<close>

definition extract_acls ::
  "config_tree \<Rightarrow> zone_resolver \<Rightarrow> string list \<Rightarrow> (string \<times> crypto_map_link list) list \<Rightarrow> parsed_access_rule list" where
  "extract_acls tree zv firewall crypto =
     fst (foldl (\<lambda>(rules, order) node.
       (let s = cl_stripped (cn_line node) in
        case parse_acl_line s of
          None \<Rightarrow> (rules, order)
        | Some l \<Rightarrow>
            (let order = order + 1; ur = resolve_usage firewall crypto (al_acl l) in
             (rules @ map (rule_of_line s (cl_line_no (cn_line node)) order l ur) (resolve_all_zones zv (al_acl l)),
              order))))
       ([], 0) tree)"

end
