(* ===== verification/Asa_Acl_Facts.thy ===== *)
theory Asa_Acl_Facts
  imports Asa_Acl
begin

text \<open>
  Lines of the ACL language as syntax, with a port or service after the destination, and what the parser
  makes of them: \<open>parsed_ace\<close> is the result of the parser on every such line, with all that it
  drops (the operator of a port condition, a port after a numeric protocol, a service after a service
  object, the family of \<open>any4\<close> and \<open>any6\<close>).  \<open>ace_kept\<close> are the lines without these,
  of which nothing is lost (\<open>kept_line_unique\<close>).  A port after the source is not part of the
  syntax: \<open>source_port_misread\<close>.
\<close>

section \<open>Syntax\<close>

datatype ace_endpoint =
  EP_ANY string | EP_HOST string | EP_NET string string | EP_OBJECT string | EP_GROUP string | EP_INTERFACE string

datatype ace_protocol = AP_NAME string | AP_NUMBER nat | AP_GROUP string | AP_SERVICE string

datatype ace_service =
  AS_NONE | AS_PORT string string | AS_RANGE string string | AS_OBJECT string | AS_GROUP string | AS_ICMP string

record ace =
  ace_acl :: string
  ace_action :: string
  ace_protocol :: ace_protocol
  ace_src :: ace_endpoint
  ace_dst :: ace_endpoint
  ace_service :: ace_service
  ace_log :: bool
  ace_time_range :: "string option"
  ace_inactive :: bool

fun endpoint_words :: "ace_endpoint \<Rightarrow> string list" where
  "endpoint_words (EP_ANY w) = [w]"
| "endpoint_words (EP_HOST a) = [''host'', a]"
| "endpoint_words (EP_NET a m) = [a, m]"
| "endpoint_words (EP_OBJECT n) = [''object'', n]"
| "endpoint_words (EP_GROUP n) = [''object-group'', n]"
| "endpoint_words (EP_INTERFACE n) = [''interface'', n]"

fun endpoint_ref :: "ace_endpoint \<Rightarrow> string" where
  "endpoint_ref (EP_ANY w) = ''any''"
| "endpoint_ref (EP_HOST a) = ''host:'' @ a"
| "endpoint_ref (EP_NET a m) = ''net:'' @ a @ ''/'' @ m"
| "endpoint_ref (EP_OBJECT n) = n"
| "endpoint_ref (EP_GROUP n) = n"
| "endpoint_ref (EP_INTERFACE n) = ''interface:'' @ n"

fun protocol_words :: "ace_protocol \<Rightarrow> string list" where
  "protocol_words (AP_NAME p) = [p]"
| "protocol_words (AP_NUMBER n) = [nat_str n]"
| "protocol_words (AP_GROUP g) = [''object-group'', g]"
| "protocol_words (AP_SERVICE n) = [''object'', n]"

fun operand_of_protocol :: "ace_protocol \<Rightarrow> protocol_operand" where
  "operand_of_protocol (AP_NAME p) = simple_operand PK_LITERAL (lower p) None"
| "operand_of_protocol (AP_NUMBER n) = simple_operand PK_IP_PROTOCOL_NUMBER (nat_str n) (Some (int n))"
| "operand_of_protocol (AP_GROUP g) = (simple_operand PK_PROTOCOL_GROUP ''protocol-group'' None)\<lparr>op_group_ref := Some g\<rparr>"
| "operand_of_protocol (AP_SERVICE n) = (simple_operand PK_SERVICE_OBJECT ''service-object'' None)\<lparr>op_service_ref := Some n\<rparr>"

fun service_words :: "ace_service \<Rightarrow> string list" where
  "service_words AS_NONE = []"
| "service_words (AS_PORT operator p) = [operator, p]"
| "service_words (AS_RANGE a b) = [''range'', a, b]"
| "service_words (AS_OBJECT n) = [''object'', n]"
| "service_words (AS_GROUP n) = [''object-group'', n]"
| "service_words (AS_ICMP t) = [t]"

definition is_icmp :: "ace_protocol \<Rightarrow> bool" where
  "is_icmp p \<longleftrightarrow> (case p of AP_NAME n \<Rightarrow> lower n \<in> {''icmp'', ''icmp6''} | _ \<Rightarrow> False)"

definition is_number :: "ace_protocol \<Rightarrow> bool" where
  "is_number p \<longleftrightarrow> (case p of AP_NUMBER n \<Rightarrow> True | _ \<Rightarrow> False)"

definition ace_service_ref :: "ace_protocol \<Rightarrow> ace_service \<Rightarrow> string option" where
  "ace_service_ref p s =
     (case p of
        AP_SERVICE n \<Rightarrow> Some n
      | _ \<Rightarrow>
          (case s of
             AS_NONE \<Rightarrow> None
           | AS_PORT operator q \<Rightarrow> (if is_number p then None else Some q)
           | AS_RANGE a b \<Rightarrow> (if is_number p then None else Some (a @ ''-'' @ b))
           | AS_OBJECT n \<Rightarrow> Some n
           | AS_GROUP n \<Rightarrow> Some n
           | AS_ICMP t \<Rightarrow> (if is_icmp p then Some t else None)))"

definition ace_words :: "ace \<Rightarrow> string list" where
  "ace_words a =
     [''access-list'', ace_acl a, ''extended'', ace_action a] @ protocol_words (ace_protocol a) @
     endpoint_words (ace_src a) @ endpoint_words (ace_dst a) @ service_words (ace_service a) @
     (if ace_log a then [''log''] else []) @
     (case ace_time_range a of None \<Rightarrow> [] | Some t \<Rightarrow> [''time-range'', t]) @
     (if ace_inactive a then [''inactive''] else [])"

text \<open>Words that mean something wherever they stand.\<close>

definition port_operators :: "string set" where
  "port_operators = {''eq'', ''lt'', ''gt'', ''neq''}"

definition modifier_words :: "string set" where
  "modifier_words = {''inactive'', ''log'', ''time-range''}"

definition tail_words :: "string set" where
  "tail_words = {''object-group'', ''object'', ''eq'', ''lt'', ''gt'', ''neq'', ''range''}"

fun endpoint_ok :: "ace_endpoint \<Rightarrow> bool" where
  "endpoint_ok (EP_ANY w) \<longleftrightarrow> lower w \<in> {''any'', ''any4'', ''any6''}"
| "endpoint_ok (EP_NET a m) \<longleftrightarrow> is_ipv4_token a \<and> is_ipv4_token m"
| "endpoint_ok _ \<longleftrightarrow> True"

fun protocol_ok :: "ace_protocol \<Rightarrow> bool" where
  "protocol_ok (AP_NAME p) \<longleftrightarrow> lower p \<notin> {''object-group'', ''object''} \<and> \<not> is_digits (lower p)"
| "protocol_ok (AP_NUMBER n) \<longleftrightarrow> n \<le> 255"
| "protocol_ok _ \<longleftrightarrow> True"

fun ace_service_ok :: "ace_service \<Rightarrow> bool" where
  "ace_service_ok AS_NONE \<longleftrightarrow> True"
| "ace_service_ok (AS_PORT operator p) \<longleftrightarrow> lower operator \<in> port_operators \<and> lower p \<notin> tail_words"
| "ace_service_ok (AS_RANGE a b) \<longleftrightarrow> lower a \<notin> tail_words \<and> lower b \<notin> tail_words"
| "ace_service_ok (AS_OBJECT n) \<longleftrightarrow> lower n \<notin> tail_words"
| "ace_service_ok (AS_GROUP n) \<longleftrightarrow> lower n \<notin> tail_words"
| "ace_service_ok (AS_ICMP t) \<longleftrightarrow> lower t \<notin> tail_words"

definition ace_ok :: "ace \<Rightarrow> bool" where
  "ace_ok a \<longleftrightarrow>
     (\<forall>w \<in> set (ace_words a). w \<noteq> [] \<and> list_all (\<lambda>c. \<not> is_space c) w) \<and>
     lower (ace_action a) \<in> {''permit'', ''deny''} \<and>
     protocol_ok (ace_protocol a) \<and> endpoint_ok (ace_src a) \<and> endpoint_ok (ace_dst a) \<and> ace_service_ok (ace_service a) \<and>
     (\<forall>w \<in> set (protocol_words (ace_protocol a) @ endpoint_words (ace_src a) @ endpoint_words (ace_dst a) @
        service_words (ace_service a)). lower w \<notin> modifier_words)"

definition ace_line :: "ace \<Rightarrow> string" where
  "ace_line a = join '' '' (ace_words a)"

definition parsed_ace :: "ace \<Rightarrow> acl_line" where
  "parsed_ace a =
     \<lparr>al_acl = ace_acl a, al_action = upper (ace_action a), al_operand = operand_of_protocol (ace_protocol a),
      al_src_ref = endpoint_ref (ace_src a), al_dst_ref = endpoint_ref (ace_dst a),
      al_service_ref = ace_service_ref (ace_protocol a) (ace_service a),
      al_mods = \<lparr>md_inactive = ace_inactive a, md_log = ace_log a, md_time_range = ace_time_range a\<rparr>\<rparr>"


section \<open>Words of a line\<close>

lemma map_join: "map f (join sep ws) = join (map f sep) (map (map f) ws)"
  by (induction sep ws rule: join.induct) simp_all

lemma split_ws_join:
  assumes "\<forall>w \<in> set ws. w \<noteq> [] \<and> list_all (\<lambda>c. \<not> is_space c) w"
  shows "split_ws (join '' '' ws) = ws"
proof (cases "ws = []")
  case True
  then show ?thesis by (simp add: split_ws_def)
next
  case False
  let ?f = "\<lambda>c. if is_space c then CHR '' '' else c"
  have sp: "is_space (CHR '' '')" by (simp add: is_space_def code_def)
  have "map ?f w = w" if "w \<in> set ws" for w
    using assms that by (auto simp: list_all_iff intro: map_idI)
  then have "map ?f (join '' '' ws) = join '' '' ws"
    by (simp add: map_join map_idI)
  moreover have "split_on (CHR '' '') (join '' '' ws) = ws"
    by (rule split_on_join [OF False]) (use assms sp in \<open>auto simp: list_all_iff\<close>)
  ultimately show ?thesis using assms by (simp add: split_ws_def)
qed

lemma modifiers_clean:
  "\<forall>w \<in> set ws. lower w \<notin> modifier_words \<Longrightarrow> modifiers_loop (ws @ rest) acc mods = modifiers_loop rest (acc @ ws) mods"
proof (induction ws arbitrary: acc)
  case (Cons w ws)
  then show ?case by (simp add: modifier_words_def)
qed simp

lemma lower_words:
  "lower ''log'' = ''log''" "lower ''time-range'' = ''time-range''" "lower ''inactive'' = ''inactive''"
  "lower ''access-list'' = ''access-list''" "lower ''extended'' = ''extended''" "lower ''object'' = ''object''"
  "lower ''object-group'' = ''object-group''" "lower ''host'' = ''host''" "lower ''interface'' = ''interface''"
  "lower ''range'' = ''range''"
  by code_simp+

lemma modifiers_of_ace:
  assumes "\<forall>w \<in> set ws. lower w \<notin> modifier_words"
  shows "parse_modifiers (ws @ (if l then [''log''] else []) @ (case tr of None \<Rightarrow> [] | Some t \<Rightarrow> [''time-range'', t]) @
      (if i then [''inactive''] else [])) =
    (ws @ (if l then [''log''] else []), \<lparr>md_inactive = i, md_log = l, md_time_range = tr\<rparr>)"
  unfolding parse_modifiers_def modifiers_clean [OF assms]
  by (cases l; cases tr; cases i) (simp_all add: lower_words)


section \<open>Protocol, endpoints and service\<close>

lemma ipv4_token_digit:
  assumes "is_ipv4_token t"
  shows "t \<noteq> [] \<and> is_digit (hd t)"
proof -
  from assms obtain a b c d where p: "split_on (CHR ''.'') t = [a, b, c, d]" "is_digits a"
    by (auto simp: is_ipv4_token_def split: list.splits)
  then have "t = join [CHR ''.''] [a, b, c, d]" by (metis join_split_on)
  with p(2) show ?thesis by (cases a) (auto simp: is_digits_def)
qed

lemma ipv4_not_keyword:
  assumes "is_ipv4_token t"
  shows "lower t \<notin> {''any'', ''any4'', ''any6'', ''object-group'', ''object'', ''host'', ''interface''}"
proof -
  from ipv4_token_digit [OF assms] obtain c cs where t: "t = c # cs" "is_digit c" by (cases t) auto
  then have "is_digit (lower_char c)" by (simp add: is_digit_def code_lower_char)
  moreover have "\<not> is_digit (hd k)" if "k \<in> {''any'', ''any4'', ''any6'', ''object-group'', ''object'', ''host'', ''interface''}" for k
    using that by (elim insertE emptyE; hypsubst; simp add: is_digit_def code_def)
  moreover have "hd (lower t) = lower_char c" by (simp add: t lower_def)
  ultimately show ?thesis by metis
qed

lemma parse_endpoint_words:
  "endpoint_ok e \<Longrightarrow> parse_endpoint (endpoint_words e @ rest) = (endpoint_ref e, rest)"
proof (cases e)
  case (EP_NET a m)
  moreover assume "endpoint_ok e"
  ultimately show ?thesis using ipv4_not_keyword [of a] by (simp add: parse_endpoint_def Let_def)
qed (simp_all add: parse_endpoint_def lower_words)

lemma is_digits_nat_str: "is_digits (nat_str n)" "lower (nat_str n) = nat_str n"
proof -
  show "is_digits (nat_str n)" by (auto simp: is_digits_def list_all_iff dest: nat_str_digits)
  have "lower_char c = c" if "is_digit c" for c
    using that by (simp add: lower_char_def is_digit_def)
  then show "lower (nat_str n) = nat_str n" by (auto simp: lower_def intro!: map_idI dest: nat_str_digits)
qed

lemma parse_protocol_words:
  assumes "protocol_ok p"
  shows "case protocol_words p of w # ws \<Rightarrow>
    parse_protocol_operand w (ws @ rest) = (operand_of_protocol p, rest) | [] \<Rightarrow> False"
proof (cases p)
  case (AP_NAME n)
  with assms show ?thesis by (simp add: parse_protocol_operand_def Let_def)
next
  case (AP_NUMBER n)
  have "nat_str n \<noteq> ''object-group''" "nat_str n \<noteq> ''object''"
    using is_digits_nat_str(1) [of n] by (auto simp: is_digits_def is_digit_def code_def)
  with AP_NUMBER assms is_digits_nat_str [of n] show ?thesis
    by (simp add: parse_protocol_operand_def Let_def)
qed (simp_all add: parse_protocol_operand_def lower_words)

text \<open>What a search finds in the words of a service, with at most the word \<open>log\<close> after them.\<close>

lemma tail_word_mem:
  "''object-group'' \<in> tail_words" "''object'' \<in> tail_words" "''eq'' \<in> tail_words" "''lt'' \<in> tail_words"
  "''gt'' \<in> tail_words" "''neq'' \<in> tail_words" "''range'' \<in> tail_words" "''log'' \<notin> tail_words"
  by (simp_all add: tail_words_def)

lemma after_last_absent: "\<forall>w \<in> set ws. lower w \<noteq> k \<Longrightarrow> after_last k ws = None"
  by (induction ws) auto

lemma after_last_none:
  "set (map lower ws) \<inter> tail_words = {} \<Longrightarrow> k \<in> tail_words \<Longrightarrow> after_last k ws = None"
  by (rule after_last_absent) auto

lemma after_last_first:
  assumes "set (map lower ws) \<inter> tail_words = {}" "k \<in> tail_words"
  shows "after_last k (w # ws) = (if lower w = k then Some ws else None)"
  using after_last_none [OF assms] by simp

lemma extract_service_words:
  assumes "ace_service_ok s" "rest = [] \<or> rest = [''log'']" "\<And>n. p \<noteq> AP_SERVICE n"
    and "\<forall>w \<in> set (service_words s). lower w \<notin> modifier_words"
  shows "extract_service_ref (operand_of_protocol p) (service_words s @ rest) = ace_service_ref p s"
proof -
  have kind: "op_kind (operand_of_protocol p) = PK_IP_PROTOCOL_NUMBER \<longleftrightarrow> is_number p"
    "op_kind (operand_of_protocol p) = PK_LITERAL \<and> op_protocol (operand_of_protocol p) \<in> {''icmp'', ''icmp6''} \<longleftrightarrow> is_icmp p"
    "is_number p \<Longrightarrow> \<not> is_icmp p"
    using assms(3) by (cases p; simp add: simple_operand_def is_number_def is_icmp_def)+
  have ref: "ace_service_ref p s' = (case s' of AS_NONE \<Rightarrow> None | AS_PORT operator q \<Rightarrow> (if is_number p then None else Some q)
      | AS_RANGE a b \<Rightarrow> (if is_number p then None else Some (a @ ''-'' @ b)) | AS_OBJECT n \<Rightarrow> Some n | AS_GROUP n \<Rightarrow> Some n
      | AS_ICMP t \<Rightarrow> (if is_icmp p then Some t else None))" for s'
    using assms(3) unfolding ace_service_ref_def by (auto split: ace_protocol.splits)
  have log: "set (map lower rest) \<inter> tail_words = {}" "rest \<noteq> [] \<Longrightarrow> lower (hd rest) = ''log''"
    using assms(2) by (auto simp: lower_words tail_word_mem)
  have icmp: "(op_kind (operand_of_protocol p) = PK_LITERAL \<and> op_protocol (operand_of_protocol p) \<in> {''icmp'', ''icmp6''} \<and> P) = (is_icmp p \<and> P)" for P
    using kind(2) by blast
  note ex = extract_service_ref_def icmp kind(1) word_after_def range_after_def list.map append_Cons append_Nil
    first_some.simps tail_word_mem
  show ?thesis
  proof (cases s)
    case AS_NONE
    have al: "after_last k rest = None" if "k \<in> tail_words" for k using after_last_none [OF log(1) that] .
    show ?thesis unfolding ref AS_NONE service_words.simps
      by (cases "rest = []") (simp_all add: ex al log(2) del: after_last.simps)
  next
    case (AS_PORT operator q)
    have w: "set (map lower (q # rest)) \<inter> tail_words = {}" using assms(1) log(1) AS_PORT by simp
    have al: "after_last k (w # q # rest) = (if lower w = k then Some (q # rest) else None)" if "k \<in> tail_words" for k w
      by (rule after_last_first [OF w that])
    consider "lower operator = ''eq''" | "lower operator = ''lt''" | "lower operator = ''gt''" | "lower operator = ''neq''"
      using assms(1) AS_PORT by (auto simp: port_operators_def)
    then show ?thesis unfolding ref AS_PORT service_words.simps by cases (simp_all add: ex al del: after_last.simps)
  next
    case (AS_RANGE a b)
    have w: "set (map lower (a # b # rest)) \<inter> tail_words = {}" using assms(1) log(1) AS_RANGE by simp
    have al: "after_last k (w # a # b # rest) = (if lower w = k then Some (a # b # rest) else None)" if "k \<in> tail_words" for k w
      by (rule after_last_first [OF w that])
    show ?thesis unfolding ref AS_RANGE service_words.simps by (simp add: ex al lower_words del: after_last.simps)
  next
    case (AS_OBJECT n)
    have w: "set (map lower (n # rest)) \<inter> tail_words = {}" using assms(1) log(1) AS_OBJECT by simp
    have al: "after_last k (w # n # rest) = (if lower w = k then Some (n # rest) else None)" if "k \<in> tail_words" for k w
      by (rule after_last_first [OF w that])
    show ?thesis unfolding ref AS_OBJECT service_words.simps by (simp add: ex al lower_words del: after_last.simps)
  next
    case (AS_GROUP n)
    have w: "set (map lower (n # rest)) \<inter> tail_words = {}" using assms(1) log(1) AS_GROUP by simp
    have al: "after_last k (w # n # rest) = (if lower w = k then Some (n # rest) else None)" if "k \<in> tail_words" for k w
      by (rule after_last_first [OF w that])
    show ?thesis unfolding ref AS_GROUP service_words.simps by (simp add: ex al lower_words del: after_last.simps)
  next
    case (AS_ICMP t)
    have w: "set (map lower (t # rest)) \<inter> tail_words = {}" using assms(1) log(1) AS_ICMP by simp
    have al: "after_last k (t # rest) = None" if "k \<in> tail_words" for k by (rule after_last_none [OF w that])
    have t: "lower t \<notin> {''log'', ''inactive'', ''time-range''}" using assms(4) AS_ICMP by (auto simp: modifier_words_def)
    show ?thesis unfolding ref AS_ICMP service_words.simps using kind(2,3) t by (auto simp: ex al simp del: after_last.simps)
  qed
qed



section \<open>The whole line\<close>

lemma first_word: "protocol_words p = w # ws \<Longrightarrow> protocol_words p @ rest = w # ws @ rest"
  by simp

lemma line_parsed:
  assumes "ace_ok a"
  shows "parse_acl_line (ace_line a) = Some (parsed_ace a)"
proof -
  let ?ops = "endpoint_words (ace_src a) @ endpoint_words (ace_dst a) @ service_words (ace_service a)"
  let ?log = "if ace_log a then [''log''] else []"
  let ?mods = "?log @ (case ace_time_range a of None \<Rightarrow> [] | Some t \<Rightarrow> [''time-range'', t]) @
    (if ace_inactive a then [''inactive''] else [])"
  note ok = assms [unfolded ace_ok_def]
  have words: "split_ws (ace_line a) = ace_words a"
    unfolding ace_line_def by (rule split_ws_join) (use ok in blast)
  have parts: "protocol_ok (ace_protocol a)" "endpoint_ok (ace_src a)" "endpoint_ok (ace_dst a)" "ace_service_ok (ace_service a)"
    "lower (ace_action a) \<in> {''permit'', ''deny''}"
    using ok by blast+
  have clean: "\<forall>w \<in> set (protocol_words (ace_protocol a) @ ?ops). lower w \<notin> modifier_words"
    using ok by - (elim conjE, assumption)
  obtain w ws where pw: "protocol_words (ace_protocol a) = w # ws" by (cases "ace_protocol a") auto
  have ne: "ws @ ?ops \<noteq> []" by (cases "ace_src a") auto
  then obtain r rs where rs: "ws @ ?ops @ ?mods = r # rs" by (cases "ws @ ?ops @ ?mods") auto
  have m: "access_list_match (ace_line a) = Some (ace_acl a, ace_action a, w, ws @ ?ops @ ?mods)"
    unfolding access_list_match_def words ace_words_def pw
    using parts(5) rs by (simp add: lower_words)
  have md: "parse_modifiers (ws @ ?ops @ ?mods) =
      (ws @ ?ops @ ?log, \<lparr>md_inactive = ace_inactive a, md_log = ace_log a, md_time_range = ace_time_range a\<rparr>)"
    using modifiers_of_ace [of "ws @ ?ops" "ace_log a" "ace_time_range a" "ace_inactive a"] clean pw by simp
  have pp: "parse_protocol_operand w (ws @ ?ops @ ?log) = (operand_of_protocol (ace_protocol a), ?ops @ ?log)"
    using parse_protocol_words [OF parts(1), of "?ops @ ?log"] by (simp add: pw)
  have es: "parse_endpoint (?ops @ ?log) =
      (endpoint_ref (ace_src a), endpoint_words (ace_dst a) @ service_words (ace_service a) @ ?log)"
    using parse_endpoint_words [OF parts(2), of "endpoint_words (ace_dst a) @ service_words (ace_service a) @ ?log"] by simp
  have ed: "parse_endpoint (endpoint_words (ace_dst a) @ service_words (ace_service a) @ ?log) =
      (endpoint_ref (ace_dst a), service_words (ace_service a) @ ?log)"
    by (rule parse_endpoint_words [OF parts(3)])
  have sv: "str_or (op_service_ref (operand_of_protocol (ace_protocol a)))
      (extract_service_ref (operand_of_protocol (ace_protocol a)) (service_words (ace_service a) @ ?log)) =
      ace_service_ref (ace_protocol a) (ace_service a)"
  proof (cases "\<exists>n. ace_protocol a = AP_SERVICE n")
    case True
    then obtain n where n: "ace_protocol a = AP_SERVICE n" by blast
    then have "n \<in> set (ace_words a)" by (simp add: ace_words_def)
    with ok have "n \<noteq> []" by blast
    with n show ?thesis by (simp add: str_or_def truthy_def str_of_def ace_service_ref_def)
  next
    case False
    then have "op_service_ref (operand_of_protocol (ace_protocol a)) = None"
      by (cases "ace_protocol a") (simp_all add: simple_operand_def)
    moreover have "extract_service_ref (operand_of_protocol (ace_protocol a)) (service_words (ace_service a) @ ?log) =
        ace_service_ref (ace_protocol a) (ace_service a)"
      by (rule extract_service_words) (use parts(4) False clean in auto)
    ultimately show ?thesis by (simp add: str_or_def truthy_def str_of_def)
  qed
  show ?thesis unfolding parse_acl_line_def m option.case prod.case md pp es ed sv parsed_ace_def ..
qed



section \<open>Lines of which nothing is lost\<close>

text \<open>Entries in lower case whose names are those of the objects and groups of a configuration, with no
  name for both, and whose ports are no such names.\<close>

definition reference_name :: "string \<Rightarrow> bool" where
  "reference_name n \<longleftrightarrow> n \<noteq> ''any'' \<and> CHR '':'' \<notin> set n"

fun endpoint_kept :: "string set \<Rightarrow> string set \<Rightarrow> ace_endpoint \<Rightarrow> bool" where
  "endpoint_kept objs groups (EP_ANY w) \<longleftrightarrow> w = ''any''"
| "endpoint_kept objs groups (EP_OBJECT n) \<longleftrightarrow> n \<in> objs \<and> reference_name n"
| "endpoint_kept objs groups (EP_GROUP n) \<longleftrightarrow> n \<in> groups \<and> reference_name n"
| "endpoint_kept objs groups _ \<longleftrightarrow> True"

definition port_word :: "string set \<Rightarrow> string \<Rightarrow> bool" where
  "port_word names q \<longleftrightarrow> q \<notin> names \<and> CHR ''-'' \<notin> set q"

fun service_kept :: "string set \<Rightarrow> string set \<Rightarrow> ace_protocol \<Rightarrow> ace_service \<Rightarrow> bool" where
  "service_kept objs groups p AS_NONE \<longleftrightarrow> True"
| "service_kept objs groups p (AS_PORT operator q) \<longleftrightarrow>
     (\<exists>n. p = AP_NAME n) \<and> \<not> is_icmp p \<and> operator = ''eq'' \<and> port_word (objs \<union> groups) q"
| "service_kept objs groups p (AS_RANGE a b) \<longleftrightarrow>
     (\<exists>n. p = AP_NAME n) \<and> \<not> is_icmp p \<and> port_word (objs \<union> groups) a \<and> port_word (objs \<union> groups) b \<and>
     a @ ''-'' @ b \<notin> objs \<union> groups"
| "service_kept objs groups p (AS_OBJECT n) \<longleftrightarrow> n \<in> objs \<and> (\<forall>m. p \<noteq> AP_SERVICE m)"
| "service_kept objs groups p (AS_GROUP n) \<longleftrightarrow> n \<in> groups \<and> (\<forall>m. p \<noteq> AP_SERVICE m)"
| "service_kept objs groups p (AS_ICMP t) \<longleftrightarrow> is_icmp p \<and> t \<notin> objs \<union> groups"

definition ace_kept :: "string set \<Rightarrow> string set \<Rightarrow> ace \<Rightarrow> bool" where
  "ace_kept objs groups a \<longleftrightarrow>
     ace_ok a \<and> ace_action a \<in> {''permit'', ''deny''} \<and>
     (case ace_protocol a of AP_NAME p \<Rightarrow> lower p = p | _ \<Rightarrow> True) \<and>
     endpoint_kept objs groups (ace_src a) \<and> endpoint_kept objs groups (ace_dst a) \<and>
     service_kept objs groups (ace_protocol a) (ace_service a)"

lemma protocol_unique:
  "operand_of_protocol p = operand_of_protocol q \<Longrightarrow> (case p of AP_NAME n \<Rightarrow> lower n = n | _ \<Rightarrow> True) \<Longrightarrow>
     (case q of AP_NAME n \<Rightarrow> lower n = n | _ \<Rightarrow> True) \<Longrightarrow> p = q"
  by (cases p; cases q) (auto simp: simple_operand_def)

lemma ipv4_token_slash: "is_ipv4_token t \<Longrightarrow> CHR ''/'' \<notin> set t"
proof -
  assume "is_ipv4_token t"
  then obtain a b c d where p: "split_on (CHR ''.'') t = [a, b, c, d]" "\<forall>w \<in> {a, b, c, d}. is_digits w"
    by (auto simp: is_ipv4_token_def split: list.splits)
  from p(1) have "t = join [CHR ''.''] [a, b, c, d]" by (metis join_split_on)
  moreover have "CHR ''/'' \<notin> set w" if "is_digits w" for w
    using that by (auto simp: is_digits_def list_all_iff is_digit_def code_def)
  ultimately show ?thesis using p(2) by auto
qed

lemma split_unique: "c \<notin> set x \<Longrightarrow> c \<notin> set y \<Longrightarrow> x @ c # u = y @ c # v \<longleftrightarrow> x = y \<and> u = v"
proof (induction x arbitrary: y)
  case Nil
  then show ?case by (cases y) auto
next
  case (Cons a x)
  then show ?case by (cases y) auto
qed

lemma endpoint_unique:
  assumes "endpoint_ref e = endpoint_ref f" "endpoint_ok e" "endpoint_ok f" "objs \<inter> groups = {}"
    and "endpoint_kept objs groups e" "endpoint_kept objs groups f"
  shows "e = f"
  using assms by (cases e; cases f) (auto simp: reference_name_def split_unique ipv4_token_slash)

lemma service_unique:
  assumes "ace_service_ref p s = ace_service_ref p t" "objs \<inter> groups = {}"
    and "service_kept objs groups p s" "service_kept objs groups p t"
  shows "s = t"
proof (cases "\<exists>n. p = AP_SERVICE n")
  case True
  with assms(3,4) show ?thesis by (cases s; cases t) (auto simp: is_icmp_def)
next
  case False
  have n: "\<not> is_number p" if "p = AP_NAME m" for m using that by (simp add: is_number_def)
  from False have ref: "ace_service_ref p u = (case u of AS_NONE \<Rightarrow> None
      | AS_PORT operator q \<Rightarrow> (if is_number p then None else Some q)
      | AS_RANGE a b \<Rightarrow> (if is_number p then None else Some (a @ ''-'' @ b)) | AS_OBJECT n \<Rightarrow> Some n | AS_GROUP n \<Rightarrow> Some n
      | AS_ICMP t \<Rightarrow> (if is_icmp p then Some t else None))" for u
    unfolding ace_service_ref_def by (auto split: ace_protocol.splits)
  show ?thesis
    using assms n by (cases s; cases t) (auto simp: ref port_word_def split_unique)
qed

lemma kept_line_unique:
  assumes "objs \<inter> groups = {}" "ace_kept objs groups a" "ace_kept objs groups b"
    and "parse_acl_line (ace_line a) = parse_acl_line (ace_line b)"
  shows "a = b"
proof -
  note k = assms(2,3) [unfolded ace_kept_def]
  have ok: "ace_ok a" "ace_ok b" using k by blast+
  then have e: "parsed_ace a = parsed_ace b" using assms(4) line_parsed by simp
  have p: "ace_protocol a = ace_protocol b"
    by (rule protocol_unique) (use e k in \<open>auto simp: parsed_ace_def\<close>)
  have "upper ''permit'' \<noteq> upper ''deny''" by code_simp
  then have "ace_action a = ace_action b" using e k by (auto simp: parsed_ace_def)
  moreover have "endpoint_ref (ace_src a) = endpoint_ref (ace_src b)" "endpoint_ref (ace_dst a) = endpoint_ref (ace_dst b)"
    using e by (simp_all add: parsed_ace_def)
  then have "ace_src a = ace_src b" "ace_dst a = ace_dst b"
    using k ok [unfolded ace_ok_def] endpoint_unique [OF _ _ _ assms(1)] by blast+
  moreover have "ace_service a = ace_service b"
    by (rule service_unique [OF _ assms(1)]) (use e k p in \<open>auto simp: parsed_ace_def\<close>)
  ultimately show ?thesis using e p by (cases a; cases b) (simp add: parsed_ace_def)
qed


section \<open>A port after the source\<close>

text \<open>The line of an entry with a condition on the source port.\<close>

definition source_port_line :: "ace \<Rightarrow> string \<Rightarrow> string \<Rightarrow> string" where
  "source_port_line a operator q =
     join '' '' ([''access-list'', ace_acl a, ''extended'', ace_action a] @ protocol_words (ace_protocol a) @
       endpoint_words (ace_src a) @ [operator, q] @ endpoint_words (ace_dst a) @ service_words (ace_service a) @
       (if ace_log a then [''log''] else []) @
       (case ace_time_range a of None \<Rightarrow> [] | Some t \<Rightarrow> [''time-range'', t]) @
       (if ace_inactive a then [''inactive''] else []))"

definition plain_word :: "string \<Rightarrow> bool" where
  "plain_word q \<longleftrightarrow> q \<noteq> [] \<and> list_all (\<lambda>c. \<not> is_space c) q \<and> lower q \<notin> modifier_words"

lemma operator_words:
  "list_all (\<lambda>w. plain_word w \<and> lower w = w \<and> \<not> is_ipv4_token w \<and>
     w \<notin> {''any'', ''any4'', ''any6'', ''object-group'', ''object'', ''host'', ''interface''}) [''eq'', ''lt'', ''gt'', ''neq'']"
  by code_simp

lemma source_port_misread:
  assumes "ace_ok a" "operator \<in> port_operators" "plain_word q"
  shows "\<exists>l. parse_acl_line (source_port_line a operator q) = Some l \<and> al_dst_ref l = operator"
proof -
  let ?rest = "[operator, q] @ endpoint_words (ace_dst a) @ service_words (ace_service a)"
  let ?ops = "endpoint_words (ace_src a) @ ?rest"
  let ?log = "if ace_log a then [''log''] else []"
  let ?mods = "?log @ (case ace_time_range a of None \<Rightarrow> [] | Some t \<Rightarrow> [''time-range'', t]) @
    (if ace_inactive a then [''inactive''] else [])"
  note ok = assms(1) [unfolded ace_ok_def]
  have op: "plain_word operator" "lower operator = operator" "\<not> is_ipv4_token operator"
    "operator \<notin> {''any'', ''any4'', ''any6'', ''object-group'', ''object'', ''host'', ''interface''}"
    using operator_words assms(2) unfolding list_all_iff port_operators_def by auto
  have words: "split_ws (source_port_line a operator q) =
      [''access-list'', ace_acl a, ''extended'', ace_action a] @ protocol_words (ace_protocol a) @ ?ops @ ?mods"
    unfolding source_port_line_def
    by (subst split_ws_join) (use ok op(1) assms(3) in \<open>auto simp: ace_words_def plain_word_def\<close>)
  have parts: "protocol_ok (ace_protocol a)" "endpoint_ok (ace_src a)" "lower (ace_action a) \<in> {''permit'', ''deny''}"
    using ok by blast+
  have clean: "\<forall>w \<in> set (protocol_words (ace_protocol a) @ ?ops). lower w \<notin> modifier_words"
    using ok op(1) assms(3) by (auto simp: plain_word_def)
  obtain w ws where pw: "protocol_words (ace_protocol a) = w # ws" by (cases "ace_protocol a") auto
  then obtain r rs where rs: "ws @ ?ops @ ?mods = r # rs" by (cases "ws @ ?ops @ ?mods") auto
  have m: "access_list_match (source_port_line a operator q) = Some (ace_acl a, ace_action a, w, ws @ ?ops @ ?mods)"
    unfolding access_list_match_def words pw using parts(3) rs by (simp add: lower_words)
  have md: "\<exists>mods. parse_modifiers (ws @ ?ops @ ?mods) = (ws @ ?ops @ ?log, mods)"
    using modifiers_of_ace [of "ws @ ?ops" "ace_log a" "ace_time_range a" "ace_inactive a"] clean pw by simp
  have pp: "parse_protocol_operand w (ws @ ?ops @ ?log) = (operand_of_protocol (ace_protocol a), ?ops @ ?log)"
    using parse_protocol_words [OF parts(1), of "?ops @ ?log"] by (simp add: pw)
  have es: "parse_endpoint (?ops @ ?log) = (endpoint_ref (ace_src a), ?rest @ ?log)"
    using parse_endpoint_words [OF parts(2), of "?rest @ ?log"] by simp
  have ed: "parse_endpoint (?rest @ ?log) = (operator, [q] @ endpoint_words (ace_dst a) @ service_words (ace_service a) @ ?log)"
    using op(2-4) by (simp add: parse_endpoint_def Let_def)
  from md obtain mods where md': "parse_modifiers (ws @ ?ops @ ?mods) = (ws @ ?ops @ ?log, mods)" by blast
  show ?thesis unfolding parse_acl_line_def m option.case prod.case md' pp es ed by simp
qed

end
