(* ===== verification/Asa_Objects.thy ===== *)
theory Asa_Objects
  imports Asa_Acl
begin

text \<open>
  Address and service objects of a configuration (\<open>parsing/service_members.py\<close>,
  \<open>parsing/extractors/addresses.py\<close>, \<open>services.py\<close>, \<open>protocol_groups.py\<close>,
  \<open>parsing/address_group_members.py\<close>) and the parser that puts all extractors together
  (\<open>adapters/parser/adapter.py\<close>).
\<close>

section \<open>Inline services\<close>

definition service_operators :: "string list" where
  "service_operators = [''eq'', ''range'', ''lt'', ''gt'', ''neq'']"

definition first_index :: "('a \<Rightarrow> bool) \<Rightarrow> 'a list \<Rightarrow> nat option" where
  "first_index P xs = (if list_ex P xs then Some (length (takeWhile (\<lambda>x. \<not> P x) xs)) else None)"

definition directional_port_clause :: "string list \<Rightarrow> string \<Rightarrow> str_dict" where
  "directional_port_clause parts direction =
     (let lowered = map lower parts; raw = [(''raw'', join '' '' parts)] in
      case first_index (\<lambda>t. t = direction) lowered of
        None \<Rightarrow> []
      | Some i \<Rightarrow>
          (if length parts \<le> i + 1 then raw
           else
             (let operator = lowered ! (i + 1); v = i + 2 in
              if operator \<notin> set service_operators then raw
              else if operator = ''range'' then
                (if length parts \<le> v + 1 then raw
                 else [(direction @ ''_op'', operator), (direction @ ''_port_from'', parts ! v),
                   (direction @ ''_port_to'', parts ! (v + 1))])
              else if length parts \<le> v then raw
              else [(direction @ ''_op'', operator), (direction @ ''_port'', parts ! v)])))"

definition parse_inline_service_object :: "string \<Rightarrow> str_dict option" where
  "parse_inline_service_object raw =
     (let parts = split_ws raw in
      case parts of
        [] \<Rightarrow> None
      | p # rest \<Rightarrow>
          (let proto = lower p; lowered = map lower parts; payload = [(''protocol'', proto)] in
           Some
             (if proto \<in> {''tcp'', ''udp'', ''tcp-udp''} then
                (if ''source'' \<in> set lowered \<or> ''destination'' \<in> set lowered then
                   dict_merge (dict_merge payload (directional_port_clause parts ''source''))
                     (directional_port_clause parts ''destination'')
                 else
                   (case first_index (\<lambda>t. t \<in> set service_operators) lowered of
                      None \<Rightarrow> (if rest \<noteq> [] then dict_set ''raw'' raw payload else payload)
                    | Some i \<Rightarrow>
                        (let operator = lowered ! i; v = i + 1; payload = dict_set ''op'' operator payload in
                         if operator = ''range'' then
                           (if length parts \<le> v + 1 then dict_set ''raw'' raw payload
                            else dict_set ''port_to'' (parts ! (v + 1)) (dict_set ''port_from'' (parts ! v) payload))
                         else if v < length parts then dict_set ''port'' (parts ! v) payload
                         else dict_set ''raw'' raw payload)))
              else if proto \<in> {''icmp'', ''icmp6''} then
                (if rest \<noteq> [] then dict_set ''icmp'' (join '' '' rest) payload else payload)
              else if proto \<in> {''ip'', ''esp''} then payload
              else dict_set ''raw'' raw payload)))"


section \<open>Address objects\<close>

definition add_raw_line :: "string \<Rightarrow> 'm payload \<Rightarrow> 'm payload" where
  "add_raw_line line p = p\<lparr>py_raw_lines := py_raw_lines p @ [line]\<rparr>"

definition set_fields :: "str_dict \<Rightarrow> 'm payload \<Rightarrow> 'm payload" where
  "set_fields d p = p\<lparr>py_fields := dict_merge (py_fields p) d\<rparr>"

definition add_member :: "'m \<Rightarrow> 'm payload \<Rightarrow> 'm payload" where
  "add_member m p = p\<lparr>py_members := py_members p @ [m]\<rparr>"

definition object_network_line :: "string \<Rightarrow> address_member payload \<Rightarrow> address_member payload" where
  "object_network_line line p =
     (let low = lower line; parts = split_ws line in
      if starts_with ''host '' low then set_fields [(''type'', ''host''), (''ip'', part 1 line)] p
      else if starts_with ''subnet '' low then
        (if 3 \<le> length parts then set_fields [(''type'', ''subnet''), (''ip'', parts ! 1), (''mask'', parts ! 2)] p else p)
      else if starts_with ''range '' low then
        (if 3 \<le> length parts then set_fields [(''type'', ''range''), (''start'', parts ! 1), (''end'', parts ! 2)] p else p)
      else if starts_with ''fqdn'' low then set_fields [(''type'', ''fqdn''), (''name'', last parts)] p
      else if starts_with ''description '' low then set_fields [(''description'', part 1 line)] p
      else add_raw_line line p)"

definition parse_object_network_children :: "string list \<Rightarrow> address_member payload" where
  "parse_object_network_children lines = fold object_network_line lines empty_payload"

definition merge_object_network_declarations ::
  "(nat \<times> address_member payload) list \<Rightarrow> nat \<times> address_member payload" where
  "merge_object_network_declarations decls =
     (let typed = filter (\<lambda>(_, p). map_of (py_fields p) ''type'' \<noteq> None) decls;
          (i, base) = last (if typed \<noteq> [] then typed else decls);
          merged = filter (\<lambda>(k, _). k \<notin> {''description'', ''raw_lines''}) (py_fields base);
          descriptions = filter (\<lambda>d. d \<noteq> []) (map (\<lambda>(_, p). str_of (map_of (py_fields p) ''description'')) decls) in
      (i, \<lparr>py_fields = (if descriptions \<noteq> [] then dict_set ''description'' (last descriptions) merged else merged),
         py_members = [], py_raw_lines = concat (map (\<lambda>(_, p). py_raw_lines p) decls)\<rparr>))"

definition object_group_network_line :: "string \<Rightarrow> address_member payload \<Rightarrow> address_member payload" where
  "object_group_network_line line p =
     (let low = lower line; parts = split_ws line in
      if starts_with ''network-object host '' low then add_member (AM_HOST (part 2 line)) p
      else if starts_with ''network-object object '' low then add_member (AM_OBJECT (part 2 line)) p
      else if starts_with ''network-object '' low then
        (if 3 \<le> length parts then add_member (AM_SUBNET (parts ! 1) (parts ! 2)) p else p)
      else if starts_with ''group-object '' low then add_member (AM_GROUP (part 1 line)) p
      else if starts_with ''description '' low then set_fields [(''description'', part 1 line)] p
      else add_raw_line line p)"

definition parse_object_group_network_children :: "string list \<Rightarrow> address_member payload" where
  "parse_object_group_network_children lines = fold object_group_network_line lines empty_payload"

definition child_lines :: "config_tree \<Rightarrow> nat \<Rightarrow> string list" where
  "child_lines tree i = map (\<lambda>c. cl_stripped (cn_line c)) (tree_children tree i)"

definition parsed_object_at ::
  "config_tree \<Rightarrow> nat \<Rightarrow> string \<Rightarrow> parsed_object_type \<Rightarrow> 'm payload \<Rightarrow> exc + 'm parsed_object" where
  "parsed_object_at tree i name kind p =
     bind_r (span_of tree i) (\<lambda>span.
       Inr \<lparr>po_name = name, po_kind = kind, po_payload = p, po_source_line = ss_line_start span,
         po_source_line_end = ss_line_end span, po_source_fragment = ss_fragment span\<rparr>)"

definition extract_addresses :: "config_tree \<Rightarrow> asa_index \<Rightarrow> exc + address_member parsed_object list" where
  "extract_addresses tree ix =
     bind_r (traverse (\<lambda>(name, nodes).
         (case merge_object_network_declarations
                 (map (\<lambda>i. (i, parse_object_network_children (child_lines tree i))) nodes) of
            (i, p) \<Rightarrow> parsed_object_at tree i name PT_ADDRESS p)) (ix_object_network ix)) (\<lambda>objects.
     bind_r (traverse (\<lambda>(name, i).
         parsed_object_at tree i name PT_ADDRESS_GROUP (parse_object_group_network_children (child_lines tree i)))
         (ix_object_group_network ix)) (\<lambda>groups.
       Inr (objects @ groups)))"


section \<open>Service objects\<close>

definition parse_service_line :: "string \<Rightarrow> str_dict" where
  "parse_service_line s =
     (case split_ws s of
        w # parts \<Rightarrow>
          (if lower w \<noteq> ''service'' \<or> parts = [] then []
           else (case parse_inline_service_object (join '' '' parts) of None \<Rightarrow> [] | Some d \<Rightarrow> d))
      | [] \<Rightarrow> [])"

definition service_object_line :: "string \<Rightarrow> service_member payload \<Rightarrow> service_member payload" where
  "service_object_line s p =
     (let low = lower s in
      if s = [] then p
      else if starts_with ''service '' low then set_fields (parse_service_line s) p
      else if starts_with ''description '' low then set_fields [(''description'', part 1 s)] p
      else add_raw_line s p)"

text \<open>\<open>s[len(prefix):].strip()\<close>\<close>

definition after_prefix :: "string \<Rightarrow> string \<Rightarrow> string" where
  "after_prefix p s = strip (drop (length p) s)"

definition parse_service_group_member :: "string \<Rightarrow> service_member option" where
  "parse_service_group_member s =
     (let low = lower s in
      if starts_with ''group-object '' low then Some (SM_GROUP_OBJECT (part 1 s))
      else if starts_with ''service-object object '' low then Some (SM_SERVICE_OBJECT_OBJECT (part 2 s))
      else if starts_with ''service-object '' low then
        (let raw = after_prefix ''service-object '' s in Some (SM_SERVICE_OBJECT (parse_inline_service_object raw) raw))
      else if starts_with ''port-object '' low then Some (SM_PORT_OBJECT (after_prefix ''port-object '' s))
      else if starts_with ''protocol-object '' low then Some (SM_PROTOCOL_OBJECT (after_prefix ''protocol-object '' s))
      else None)"

definition parse_icmp_group_member :: "string \<Rightarrow> service_member option" where
  "parse_icmp_group_member s =
     (if starts_with ''icmp-object '' (lower s) then Some (SM_ICMP_OBJECT (part 1 s)) else None)"

definition parse_protocol_group_member :: "string \<Rightarrow> service_member option" where
  "parse_protocol_group_member s =
     (let low = lower s in
      if starts_with ''protocol-object '' low then Some (SM_PROTOCOL_OBJECT (after_prefix ''protocol-object '' s))
      else if starts_with ''group-object '' low then Some (SM_GROUP_OBJECT (part 1 s))
      else None)"

definition group_line ::
  "(string \<Rightarrow> service_member option) \<Rightarrow> string \<Rightarrow> service_member payload \<Rightarrow> service_member payload" where
  "group_line member s p =
     (if s = [] then p
      else if starts_with ''description '' (lower s) then set_fields [(''description'', part 1 s)] p
      else (case member s of Some m \<Rightarrow> add_member m p | None \<Rightarrow> add_raw_line s p))"

definition group_payload ::
  "(string \<Rightarrow> service_member option) \<Rightarrow> str_dict \<Rightarrow> string list \<Rightarrow> service_member payload" where
  "group_payload member header lines = fold (group_line member) lines (empty_payload\<lparr>py_fields := header\<rparr>)"

text \<open>A missing protocol of a group is \<open>None\<close> in the payload, here the key is absent.\<close>

definition group_protocol_field :: "string \<Rightarrow> str_dict" where
  "group_protocol_field header =
     (let parts = split_ws header in if 4 \<le> length parts then [(''protocol'', lower (parts ! 3))] else [])"

definition extract_services :: "config_tree \<Rightarrow> asa_index \<Rightarrow> exc + service_member parsed_object list" where
  "extract_services tree ix =
     bind_r (traverse (\<lambda>(name, i).
         parsed_object_at tree i name PT_SERVICE (fold service_object_line (child_lines tree i) empty_payload))
         (ix_object_service ix)) (\<lambda>services.
     bind_r (traverse (\<lambda>(name, i).
         parsed_object_at tree i name PT_SERVICE_GROUP
           (group_payload parse_service_group_member (group_protocol_field (cl_stripped (cn_line (tree ! i)))) (child_lines tree i)))
         (ix_object_group_service ix)) (\<lambda>groups.
     bind_r (traverse (\<lambda>(name, i).
         parsed_object_at tree i name PT_SERVICE_GROUP
           (group_payload parse_icmp_group_member [(''protocol'', ''icmp''), (''group_kind'', ''icmp-type'')] (child_lines tree i)))
         (ix_object_group_icmp_type ix)) (\<lambda>icmp.
       Inr (services @ groups @ icmp))))"

definition extract_protocol_groups :: "config_tree \<Rightarrow> asa_index \<Rightarrow> exc + service_member parsed_object list" where
  "extract_protocol_groups tree ix =
     traverse (\<lambda>(name, i).
       parsed_object_at tree i name PT_PROTOCOL_GROUP
         (group_payload parse_protocol_group_member [(''group_kind'', ''protocol'')] (child_lines tree i)))
       (ix_object_group_protocol ix)"


section \<open>The parser\<close>

definition member_reference :: "address_member \<Rightarrow> string option" where
  "member_reference m =
     (case m of
        AM_HOST ip \<Rightarrow> (if ip \<noteq> [] then Some (''host:'' @ ip) else None)
      | AM_SUBNET ip netmask \<Rightarrow> (if ip \<noteq> [] \<and> netmask \<noteq> [] then Some (''net:'' @ ip @ ''/'' @ netmask) else None)
      | AM_OBJECT name \<Rightarrow> (if name \<noteq> [] then Some name else None)
      | AM_GROUP name \<Rightarrow> (if name \<noteq> [] then Some name else None))"

definition normalize_address_group_members :: "address_member parsed_config \<Rightarrow> string parsed_config" where
  "normalize_address_group_members parsed =
     \<lparr>pc_address_objects = map (\<lambda>x.
        \<lparr>po_name = po_name x, po_kind = po_kind x,
         po_payload = \<lparr>py_fields = py_fields (po_payload x),
           py_members = (if po_kind x = PT_ADDRESS_GROUP then List.map_filter member_reference (py_members (po_payload x)) else []),
           py_raw_lines = py_raw_lines (po_payload x)\<rparr>,
         po_source_line = po_source_line x, po_source_line_end = po_source_line_end x,
         po_source_fragment = po_source_fragment x\<rparr>) (pc_address_objects parsed),
      pc_service_objects = pc_service_objects parsed, pc_rules = pc_rules parsed,
      pc_crypto_map_links = pc_crypto_map_links parsed\<rparr>"

definition parse_config :: "string \<Rightarrow> exc + string parsed_config" where
  "parse_config raw =
     (if strip raw = [] then Inl (ImportsDomainValidationError ''Cisco ASA config is empty'')
      else
        (let tree = build_tree raw;
             ix = index_from_tree tree;
             zones = zones_from_tree tree ix;
             firewall = firewall_acls tree in
         bind_r (extract_addresses tree ix) (\<lambda>addresses.
         bind_r (extract_services tree ix) (\<lambda>services.
         bind_r (extract_protocol_groups tree ix) (\<lambda>protocol_groups.
           (let parsed = normalize_address_group_members
                  \<lparr>pc_address_objects = addresses, pc_service_objects = services @ protocol_groups,
                   pc_rules = extract_acls tree zones firewall (ix_crypto_map_by_acl ix),
                   pc_crypto_map_links = concat (map snd (ix_crypto_map_by_acl ix))\<rparr> in
            if pc_rules parsed = [] then Inl (ImportsDomainValidationError ''No ACL rules found in Cisco ASA config'')
            else Inr parsed))))))"

end
