(* ===== verification/Asa_State.thy ===== *)
theory Asa_State
  imports Asa_Objects Canonical_Tables Ipv4
begin

text \<open>
  The state of one normalization (\<open>adapters/normalizer/state.py\<close>) and the records it collects: the
  canonical entities and the trace (\<open>src/src/app/modules/trace/domain\<close>).

  The state carries the supply of new ids (\<open>uuid4\<close>) and of times; an id that is drawn and not used
  does not show.  A dictionary is an ordered dictionary, the index entry of an object is its id.  A step
  that may raise has a sum type.
\<close>

section \<open>Trace records\<close>

datatype trace_kind = TK_RULE | TK_OBJECT | TK_OBJECT_MEMBER | TK_ZONE | TK_RULE_OPERAND | TK_ISSUE

fun trace_kind_value :: "trace_kind \<Rightarrow> string" where
  "trace_kind_value TK_RULE = ''rule''"
| "trace_kind_value TK_OBJECT = ''object''"
| "trace_kind_value TK_OBJECT_MEMBER = ''object_member''"
| "trace_kind_value TK_ZONE = ''zone''"
| "trace_kind_value TK_RULE_OPERAND = ''rule_operand''"
| "trace_kind_value TK_ISSUE = ''issue''"

record trace_record =
  tr_id :: uuid
  tr_source_snapshot_id :: uuid
  tr_canonical_snapshot_id :: uuid
  tr_vendor_code :: string
  tr_normalizer_code :: string
  tr_normalizer_version :: string
  tr_line_start :: int
  tr_line_end :: int
  tr_fragment :: "string option"
  tr_kind :: trace_kind
  tr_canonical_id :: uuid
  tr_role :: "string option"
  tr_note :: "string option"
  tr_created_at :: timestamp

definition VENDOR_CODE :: string where
  "VENDOR_CODE = ''cisco_asa''"


section \<open>The state\<close>

record norm_state =
  ns_ids :: "nat \<Rightarrow> uuid"
  ns_clock :: "nat \<Rightarrow> timestamp"
  ns_next :: nat
  ns_snapshot_id :: uuid
  ns_source_snapshot_id :: uuid
  ns_normalizer_code :: string
  ns_normalizer_version :: string
  ns_issues :: "canonical_issue list"
  ns_zones_by_key :: "(string \<times> canonical_zone) list"
  ns_objects_by_key :: "(string \<times> uuid) list"
  ns_objects_by_id :: "(uuid \<times> canonical_object) list"
  ns_object_members :: "canonical_member list"
  ns_trace_records :: "trace_record list"
  ns_rules :: "canonical_rule list"
  ns_operands :: "canonical_operand list"
  ns_protocol_blockers :: "(string \<times> bool) list"
  ns_signatures :: "((string \<times> string \<times> string) \<times> string) list"

definition fresh_id :: "norm_state \<Rightarrow> uuid" where
  "fresh_id s = ns_ids s (ns_next s)"

definition now_of :: "norm_state \<Rightarrow> timestamp" where
  "now_of s = ns_clock s (ns_next s)"

definition drawn :: "norm_state \<Rightarrow> norm_state" where
  "drawn s = s\<lparr>ns_next := Suc (ns_next s)\<rparr>"

definition object_create ::
  "uuid \<Rightarrow> uuid \<Rightarrow> string \<Rightarrow> object_family \<Rightarrow> object_kind \<Rightarrow> string \<Rightarrow> canonical_object" where
  "object_create i snap key family kind name =
     \<lparr>ko_id = i, ko_snapshot_id = snap, ko_object_key = key, ko_object_family = family, ko_object_kind = kind,
      ko_name = name, ko_ip_version = None, ko_cidr = None, ko_range_start = None, ko_range_end = None,
      ko_fqdn = None, ko_protocol = None, ko_port_from = None, ko_port_to = None, ko_icmp_type = None,
      ko_icmp_code = None, ko_description = None\<rparr>"

text \<open>\<open>state.objects_by_key[key].object_id\<close> and \<open>state.objects_by_id[i]\<close>.\<close>

definition id_of_key :: "norm_state \<Rightarrow> string \<Rightarrow> exc + uuid" where
  "id_of_key s key = (case map_of (ns_objects_by_key s) key of None \<Rightarrow> Inl (KeyError key) | Some i \<Rightarrow> Inr i)"

definition object_of_id :: "norm_state \<Rightarrow> uuid \<Rightarrow> exc + canonical_object" where
  "object_of_id s i = (case map_of (ns_objects_by_id s) i of None \<Rightarrow> Inl (KeyError (uuid_text i)) | Some x \<Rightarrow> Inr x)"

definition has_key :: "norm_state \<Rightarrow> string \<Rightarrow> bool" where
  "has_key s key \<longleftrightarrow> map_of (ns_objects_by_key s) key \<noteq> None"

definition register :: "canonical_object \<Rightarrow> norm_state \<Rightarrow> exc + canonical_object \<times> norm_state" where
  "register x s =
     (case map_of (ns_objects_by_key s) (ko_object_key x) of
        Some i \<Rightarrow> bind_r (object_of_id s i) (\<lambda>y. Inr (y, s))
      | None \<Rightarrow> Inr (x, s\<lparr>ns_objects_by_id := AList.update (ko_id x) x (ns_objects_by_id s),
          ns_objects_by_key := AList.update (ko_object_key x) (ko_id x) (ns_objects_by_key s)\<rparr>))"

definition emit_trace ::
  "int \<Rightarrow> int \<Rightarrow> trace_kind \<Rightarrow> uuid \<Rightarrow> string option \<Rightarrow> string option \<Rightarrow> string option \<Rightarrow> norm_state \<Rightarrow> exc + norm_state" where
  "emit_trace line_start line_end kind i fragment role note s =
     (if line_start < 1 then Inr s
      else if line_end < line_start then
        Inl (ValueError (''source_line_end ('' @ int_str line_end @ '') must be >= source_line_start ('' @
          int_str line_start @ '')''))
      else Inr ((drawn s)\<lparr>ns_trace_records := ns_trace_records s @
        [\<lparr>tr_id = fresh_id s, tr_source_snapshot_id = ns_source_snapshot_id s,
          tr_canonical_snapshot_id = ns_snapshot_id s, tr_vendor_code = VENDOR_CODE,
          tr_normalizer_code = ns_normalizer_code s, tr_normalizer_version = ns_normalizer_version s,
          tr_line_start = line_start, tr_line_end = line_end, tr_fragment = fragment, tr_kind = kind,
          tr_canonical_id = i, tr_role = role, tr_note = note, tr_created_at = now_of s\<rparr>]\<rparr>))"

text \<open>All callers give the lines of an issue.\<close>

definition emit_issue ::
  "string \<Rightarrow> string \<Rightarrow> string \<Rightarrow> string option \<Rightarrow> int \<Rightarrow> int \<Rightarrow> string option \<Rightarrow> issue_reason option \<Rightarrow>
   norm_state \<Rightarrow> exc + norm_state" where
  "emit_issue entity_type issue_code message entity_key line_start line_end fragment reason s =
     (let text = (case reason of None \<Rightarrow> message | Some r \<Rightarrow> ''['' @ issue_reason_value r @ ''] '' @ message);
          i = fresh_id s;
          first = (if line_start = 0 then 1 else line_start) in
      emit_trace first (if line_end = 0 then first else line_end)
        TK_ISSUE i fragment None (Some (''issue: '' @ issue_code))
        ((drawn s)\<lparr>ns_issues := ns_issues s @
          [\<lparr>ki_id = i, ki_snapshot_id = ns_snapshot_id s, ki_entity_type = entity_type, ki_entity_key = entity_key,
            ki_issue_code = issue_code, ki_message = text, ki_source_line_start = Some line_start,
            ki_source_line_end = Some line_end, ki_created_at = now_of s\<rparr>]\<rparr>))"


section \<open>Address objects\<close>

definition mask_to_prefix :: "string \<Rightarrow> nat option" where
  "mask_to_prefix m = map_option prefixlen (parse_network True (''0.0.0.0/'' @ m))"

definition host_object :: "uuid \<Rightarrow> uuid \<Rightarrow> string \<Rightarrow> string \<Rightarrow> string \<Rightarrow> canonical_object" where
  "host_object i snap key name ip =
     (object_create i snap key OF_ADDR OK_HOST name)\<lparr>ko_ip_version := Some 4, ko_cidr := Some (ip @ ''/32'')\<rparr>"

definition subnet_object :: "uuid \<Rightarrow> uuid \<Rightarrow> string \<Rightarrow> string \<Rightarrow> string \<Rightarrow> canonical_object" where
  "subnet_object i snap key name cidr =
     (object_create i snap key OF_ADDR OK_SUBNET name)\<lparr>ko_ip_version := Some 4, ko_cidr := Some cidr\<rparr>"

definition unresolved_addr :: "uuid \<Rightarrow> uuid \<Rightarrow> string \<Rightarrow> string \<Rightarrow> string \<Rightarrow> canonical_object" where
  "unresolved_addr i snap key name description =
     (object_create i snap key OF_ADDR OK_UNRESOLVED_ADDR name)\<lparr>ko_description := Some description\<rparr>"

definition addr_object_from_payload ::
  "uuid \<Rightarrow> uuid \<Rightarrow> string \<Rightarrow> string \<Rightarrow> str_dict \<Rightarrow> exc + canonical_object" where
  "addr_object_from_payload i snap key name payload =
     (let kind = map_of payload ''type'' in
      if kind = Some ''host'' then
        bind_r (dict_item payload ''ip'') (\<lambda>ip. Inr (host_object i snap key name ip))
      else if kind = Some ''subnet'' then
        bind_r (dict_item payload ''ip'') (\<lambda>ip.
        bind_r (dict_item payload ''mask'') (\<lambda>m.
          Inr (case mask_to_prefix m of
                 None \<Rightarrow> unresolved_addr i snap key name (''invalid ASA subnet mask: '' @ ip @ '' '' @ m)
               | Some n \<Rightarrow> subnet_object i snap key name (ip @ ''/'' @ nat_str n))))
      else if kind = Some ''range'' then
        bind_r (dict_item payload ''start'') (\<lambda>start.
        bind_r (dict_item payload ''end'') (\<lambda>finish.
          Inr ((object_create i snap key OF_ADDR OK_RANGE (start @ ''-'' @ finish))\<lparr>ko_ip_version := Some 4,
            ko_range_start := Some start, ko_range_end := Some finish\<rparr>)))
      else if kind = Some ''fqdn'' then
        bind_r (dict_item payload ''name'') (\<lambda>fqdn.
          Inr ((object_create i snap key OF_ADDR OK_FQDN fqdn)\<lparr>ko_fqdn := Some fqdn\<rparr>))
      else Inr (unresolved_addr i snap key name ''unsupported ASA address object payload''))"

end
