(* ===== verification/Asa_Services.thy ===== *)
theory Asa_Services
  imports Asa_State
begin

text \<open>
  Building service objects (\<open>parsing/service_catalog.py\<close>, \<open>adapters/services/common.py\<close>,
  \<open>builders.py\<close>): from the payload of a header or a member, from the port operand of an ACL line, and
  for an IP protocol.  A builder takes the new id.
\<close>

section \<open>The catalog of names\<close>

definition BUILTIN_SERVICES :: "(string \<times> string \<times> int \<times> int) list" where
  "BUILTIN_SERVICES =
     [(''bootps'', ''udp'', 67, 67), (''bootpc'', ''udp'', 68, 68), (''echo'', ''tcp'', 7, 7),
      (''ftp-data'', ''tcp'', 20, 20), (''www'', ''tcp'', 80, 80), (''http'', ''tcp'', 80, 80),
      (''https'', ''tcp'', 443, 443), (''ssh'', ''tcp'', 22, 22), (''telnet'', ''tcp'', 23, 23),
      (''rsh'', ''tcp'', 514, 514), (''lpd'', ''tcp'', 515, 515), (''smtp'', ''tcp'', 25, 25),
      (''domain'', ''udp'', 53, 53), (''dns'', ''udp'', 53, 53), (''ntp'', ''udp'', 123, 123),
      (''snmp'', ''udp'', 161, 161), (''snmptrap'', ''udp'', 162, 162), (''syslog'', ''udp'', 514, 514),
      (''sunrpc'', ''tcp'', 111, 111), (''nfs'', ''tcp'', 2049, 2049), (''radius'', ''udp'', 1812, 1812),
      (''radius-acct'', ''udp'', 1813, 1813), (''rtsp'', ''tcp'', 554, 554), (''netbios-ssn'', ''tcp'', 139, 139),
      (''tftp'', ''udp'', 69, 69), (''ftp'', ''tcp'', 21, 21), (''pop3'', ''tcp'', 110, 110),
      (''imap4'', ''tcp'', 143, 143), (''imap'', ''tcp'', 143, 143), (''ldap'', ''tcp'', 389, 389),
      (''ldaps'', ''tcp'', 636, 636), (''rdp'', ''tcp'', 3389, 3389), (''ms-sql'', ''tcp'', 1433, 1433),
      (''mssql'', ''tcp'', 1433, 1433), (''mysql'', ''tcp'', 3306, 3306), (''postgresql'', ''tcp'', 5432, 5432),
      (''postgres'', ''tcp'', 5432, 5432)]"

definition lookup_builtin_service :: "string \<Rightarrow> string option \<Rightarrow> (string \<times> int \<times> int) option" where
  "lookup_builtin_service name hint =
     (let key = lower (strip name) in
      case map_of BUILTIN_SERVICES key of
        None \<Rightarrow> None
      | Some (protocol, port_from, port_to) \<Rightarrow>
          (let hinted = lower (str_of hint) in
           if hinted \<in> {''tcp'', ''udp''} then
             (if protocol \<noteq> hinted \<and> key \<in> {''domain'', ''dns'', ''ntp'', ''snmp'', ''tftp''}
              then Some (protocol, port_from, port_to) else Some (hinted, port_from, port_to))
           else Some (protocol, port_from, port_to)))"

definition parse_port_token :: "string \<Rightarrow> int option" where
  "parse_port_token token =
     (let t = strip token in
      if is_digits t then Some (int (nat_val t))
      else (case lookup_builtin_service t None of None \<Rightarrow> None | Some (_, port_from, _) \<Rightarrow> Some port_from))"

definition ICMP_NAME_TO_TYPE :: "(string \<times> int) list" where
  "ICMP_NAME_TO_TYPE =
     [(''echo'', 8), (''echo-reply'', 0), (''alternate-address'', 6), (''destination-unreachable'', 3),
      (''source-quench'', 4), (''redirect'', 5), (''router-advertisement'', 9), (''router-solicitation'', 10),
      (''time-exceeded'', 11), (''parameter-problem'', 12), (''timestamp-request'', 13), (''timestamp-reply'', 14),
      (''information-request'', 15), (''information-reply'', 16), (''mask-request'', 17), (''mask-reply'', 18),
      (''traceroute'', 30)]"

text \<open>\<open>name.lower().replace(" ", "-")\<close>\<close>

definition icmp_token :: "string \<Rightarrow> string" where
  "icmp_token name = map (\<lambda>c. if c = CHR '' '' then CHR ''-'' else c) (lower name)"

definition kind_for_protocol :: "string \<Rightarrow> object_kind" where
  "kind_for_protocol proto =
     (let p = lower proto in
      if p = ''tcp'' then OK_TCP else if p = ''udp'' then OK_UDP
      else if p \<in> {''icmp'', ''icmp6''} then OK_ICMP else OK_IP_PROTO)"

definition service_port_range_label :: "int \<Rightarrow> int \<Rightarrow> string" where
  "service_port_range_label a b = (if a = b then int_str a else int_str a @ ''-'' @ int_str b)"

definition service_port_label :: "string \<Rightarrow> int \<Rightarrow> int \<Rightarrow> string" where
  "service_port_label protocol a b = protocol @ '':'' @ service_port_range_label a b"

definition service_object_key :: "string \<Rightarrow> int \<Rightarrow> int \<Rightarrow> string" where
  "service_object_key protocol a b = ''service:'' @ service_port_label protocol a b"

definition ip_protocol_object_key :: "string \<Rightarrow> string" where
  "ip_protocol_object_key protocol = ''service:ip-proto:'' @ lower protocol"


section \<open>Destination ports\<close>

definition MAX_PORT :: int where
  "MAX_PORT = 65535"

text \<open>\<open>payload.get(k1, payload.get(k2))\<close>, and \<open>str\<close> of an optional string.\<close>

definition field_or :: "str_dict \<Rightarrow> string \<Rightarrow> string \<Rightarrow> string option" where
  "field_or d k1 k2 = (case map_of d k1 of Some v \<Rightarrow> Some v | None \<Rightarrow> map_of d k2)"

definition str_opt :: "string option \<Rightarrow> string" where
  "str_opt x = (case x of None \<Rightarrow> ''None'' | Some s \<Rightarrow> s)"

definition resolve_l4_destination_range :: "str_dict \<Rightarrow> (int \<times> int) option" where
  "resolve_l4_destination_range p =
     (if map_of p ''source_op'' \<noteq> None \<or> map_of p ''raw'' \<noteq> None then None
      else
        (let operator = field_or p ''destination_op'' ''op'';
             port_value = field_or p ''destination_port'' ''port'';
             from_value = field_or p ''destination_port_from'' ''port_from'';
             to_value = field_or p ''destination_port_to'' ''port_to'' in
         if operator = None then
           (if port_value \<noteq> None \<or> from_value \<noteq> None \<or> to_value \<noteq> None then None else Some (0, MAX_PORT))
         else if operator = Some ''range'' then
           (case (parse_port_token (str_opt from_value), parse_port_token (str_opt to_value)) of
              (Some a, Some b) \<Rightarrow> (if 0 \<le> a \<and> a \<le> b \<and> b \<le> MAX_PORT then Some (a, b) else None)
            | _ \<Rightarrow> None)
         else
           (case parse_port_token (str_opt port_value) of
              None \<Rightarrow> None
            | Some port \<Rightarrow>
                (if \<not> (0 \<le> port \<and> port \<le> MAX_PORT) then None
                 else if operator = Some ''eq'' then Some (port, port)
                 else if operator = Some ''lt'' \<and> 0 < port then Some (0, port - 1)
                 else if operator = Some ''gt'' \<and> port < MAX_PORT then Some (port + 1, MAX_PORT)
                 else None))))"


section \<open>Builders\<close>

definition port_service ::
  "uuid \<Rightarrow> uuid \<Rightarrow> string \<Rightarrow> object_kind \<Rightarrow> string \<Rightarrow> string \<Rightarrow> int \<Rightarrow> int \<Rightarrow> canonical_object" where
  "port_service i snap key kind name protocol a b =
     (object_create i snap key OF_SERVICE kind name)\<lparr>ko_protocol := Some protocol, ko_port_from := Some a, ko_port_to := Some b\<rparr>"

definition build_service_from_payload ::
  "uuid \<Rightarrow> uuid \<Rightarrow> string \<Rightarrow> string \<Rightarrow> str_dict \<Rightarrow> canonical_object option" where
  "build_service_from_payload i snap name key payload =
     (let proto = lower (str_of (map_of payload ''protocol''));
          description = map_of payload ''description'';
          service = (\<lambda>kind name. (object_create i snap key OF_SERVICE kind name)\<lparr>ko_protocol := Some proto,
            ko_description := description\<rparr>) in
      if proto = [] then None
      else if proto = ''tcp-udp'' \<and> map_of payload ''op'' = Some ''eq'' \<and> map_of payload ''port'' \<noteq> None then
        (case parse_port_token (str_opt (map_of payload ''port'')) of
           None \<Rightarrow> None
         | Some port \<Rightarrow>
             Some ((port_service i snap key OK_IP_PROTO (service_port_label ''tcp-udp'' port port) ''tcp-udp'' port port)
               \<lparr>ko_description := Some ''expanded tcp-udp service-object member''\<rparr>))
      else if proto \<in> {''tcp'', ''udp''} then
        (case resolve_l4_destination_range payload of
           None \<Rightarrow> Some (service OK_UNRESOLVED_SERVICE name)
         | Some (a, b) \<Rightarrow>
             Some ((port_service i snap key (kind_for_protocol proto) name proto a b)\<lparr>ko_description := description\<rparr>))
      else if proto \<in> {''icmp'', ''icmp6''} then
        Some ((service OK_ICMP name)\<lparr>ko_icmp_type := map_of ICMP_NAME_TO_TYPE (icmp_token (str_of (map_of payload ''icmp'')))\<rparr>)
      else if proto \<in> {''ip'', ''esp'', ''ah'', ''gre''} then Some (service OK_IP_PROTO name)
      else if is_digits proto then Some (service OK_IP_PROTO (''ip-proto-'' @ proto))
      else None)"

text \<open>\<open>ref.split("-", 1)\<close> of a text with a hyphen.\<close>

definition split_once :: "char \<Rightarrow> string \<Rightarrow> string \<times> string" where
  "split_once c s = (takeWhile (\<lambda>x. x \<noteq> c) s, tl (dropWhile (\<lambda>x. x \<noteq> c) s))"

definition inline_port_range :: "string \<Rightarrow> (int \<times> int) option" where
  "inline_port_range ref =
     (let (a, b) = (if CHR ''-'' \<in> set ref then split_once (CHR ''-'') ref else (ref, ref)) in
      case (parse_port_token a, parse_port_token b) of
        (Some p, Some q) \<Rightarrow> Some (p, q)
      | _ \<Rightarrow> None)"

definition build_inline_service_from_ref :: "uuid \<Rightarrow> uuid \<Rightarrow> string \<Rightarrow> string \<Rightarrow> canonical_object option" where
  "build_inline_service_from_ref i snap protocol reference =
     (let proto = lower protocol; ref = strip reference in
      if proto \<in> {''tcp'', ''udp''} then
        (case inline_port_range ref of
           Some (a, b) \<Rightarrow>
             Some (port_service i snap (service_object_key proto a b) (kind_for_protocol proto)
               (service_port_label proto a b) proto a b)
         | None \<Rightarrow>
             (case lookup_builtin_service ref (Some proto) of
                None \<Rightarrow> None
              | Some (p, a, b) \<Rightarrow>
                  Some (port_service i snap (service_object_key p a b) (kind_for_protocol p) (service_port_label p a b) p a b)))
      else if proto \<in> {''icmp'', ''icmp6''} then
        Some ((object_create i snap (''service:'' @ proto @ '':icmp-'' @ ref) OF_SERVICE OK_ICMP ref)
          \<lparr>ko_protocol := Some proto, ko_icmp_type := map_of ICMP_NAME_TO_TYPE (icmp_token ref)\<rparr>)
      else None)"

text \<open>The number or, without one, the name of the protocol.\<close>

definition build_ip_protocol_service :: "uuid \<Rightarrow> uuid \<Rightarrow> int option \<Rightarrow> string option \<Rightarrow> canonical_object" where
  "build_ip_protocol_service i snap number pname =
     (let (proto, name) =
        (case number of
           Some n \<Rightarrow> (int_str n, ''ip-proto-'' @ int_str n)
         | None \<Rightarrow> (let p = lower (if truthy pname then str_of pname else ''ip'') in (p, p))) in
      (object_create i snap (ip_protocol_object_key proto) OF_SERVICE OK_IP_PROTO name)
        \<lparr>ko_protocol := Some proto, ko_description := Some ''ASA IP protocol operand''\<rparr>)"

definition parse_port_object_line :: "string \<Rightarrow> string option \<Rightarrow> str_dict option" where
  "parse_port_object_line raw default_protocol =
     (let parts = split_ws raw; lowered = map lower parts;
          proto = lower (if truthy default_protocol then str_of default_protocol else ''tcp'') in
      if parts = [] then None
      else
        (case first_index (\<lambda>t. t = ''eq'') lowered of
           Some i \<Rightarrow>
             (if length parts \<le> i + 1 then None
              else
                (case parse_port_token (parts ! (i + 1)) of
                   Some port \<Rightarrow> Some [(''protocol'', proto), (''op'', ''eq''), (''port'', int_str port)]
                 | None \<Rightarrow>
                     (case lookup_builtin_service (parts ! (i + 1)) (Some proto) of
                        None \<Rightarrow> None
                      | Some (p, a, _) \<Rightarrow> Some [(''protocol'', p), (''op'', ''eq''), (''port'', int_str a)])))
         | None \<Rightarrow>
             (case first_index (\<lambda>t. t = ''range'') lowered of
                None \<Rightarrow> None
              | Some i \<Rightarrow>
                  (if length parts \<le> i + 2 then None
                   else Some [(''protocol'', proto), (''op'', ''range''), (''port_from'', parts ! (i + 1)),
                     (''port_to'', parts ! (i + 2))]))))"

definition canonical_object_for_parsed_service ::
  "uuid \<Rightarrow> uuid \<Rightarrow> service_member parsed_object \<Rightarrow> canonical_object" where
  "canonical_object_for_parsed_service i snap x =
     (let key = ''service:'' @ po_name x;
          fields = py_fields (po_payload x);
          description = map_of fields ''description'';
          header = (\<lambda>kind. (object_create i snap key OF_SERVICE kind (po_name x))\<lparr>ko_description := description\<rparr>) in
      if po_kind x = PT_SERVICE_GROUP then
        (header OK_SERVICE_GROUP)\<lparr>ko_protocol :=
          (if truthy (map_of fields ''protocol'') then map_of fields ''protocol'' else None)\<rparr>
      else if po_kind x = PT_PROTOCOL_GROUP then (header OK_SERVICE_GROUP)\<lparr>ko_protocol := Some ''protocol-group''\<rparr>
      else
        (case build_service_from_payload i snap (po_name x) key fields of
           Some y \<Rightarrow> y
         | None \<Rightarrow> header OK_IP_PROTO))"

end
