(* ===== verification/Asa_Members.thy ===== *)
theory Asa_Members
  imports Asa_Services
begin

text \<open>
  Members of groups (\<open>adapters/services/members.py\<close>, \<open>adapters/normalizer/address_refs.py\<close>,
  \<open>address_group_helpers.py\<close>, \<open>service_group_helpers.py\<close>): finding or creating the objects
  that members and operands refer to, the edges of a group, and the traces and issues.

  New keys are a set difference in the code; here they come in the order of the dictionary.
\<close>

section \<open>Creating objects\<close>

definition register_new :: "canonical_object \<Rightarrow> norm_state \<Rightarrow> exc + norm_state" where
  "register_new x s = bind_r (register x (drawn s)) (\<lambda>(_, s). Inr s)"

definition remove_prefix :: "string \<Rightarrow> string \<Rightarrow> string" where
  "remove_prefix p s = (if starts_with p s then drop (length p) s else s)"

text \<open>An operand's object is created with a trace, a member's without.\<close>

definition ensure_object ::
  "string \<Rightarrow> (uuid \<Rightarrow> canonical_object) \<Rightarrow> (uuid \<Rightarrow> norm_state \<Rightarrow> exc + norm_state) \<Rightarrow> norm_state \<Rightarrow> exc + uuid \<times> norm_state" where
  "ensure_object key mk emit s =
     (if has_key s key then bind_r (id_of_key s key) (\<lambda>i. Inr (i, s))
      else
        bind_r (register_new (mk (fresh_id s)) s) (\<lambda>t.
        bind_r (emit (fresh_id s) t) (\<lambda>t.
        bind_r (id_of_key t key) (\<lambda>i. Inr (i, t)))))"

definition operand_trace ::
  "int \<Rightarrow> string \<Rightarrow> string \<Rightarrow> string \<Rightarrow> uuid \<Rightarrow> norm_state \<Rightarrow> exc + norm_state" where
  "operand_trace line fragment role note i = emit_trace line line TK_OBJECT i (Some fragment) (Some role) (Some note)"


section \<open>Address references of rules\<close>

definition ensure_host_ref :: "string \<Rightarrow> int \<Rightarrow> string \<Rightarrow> norm_state \<Rightarrow> exc + uuid \<times> norm_state" where
  "ensure_host_ref ref line role s =
     (let ip = remove_prefix ''host:'' ref; key = ''addr:host:'' @ ip in
      ensure_object key (\<lambda>i. host_object i (ns_snapshot_id s) key ip ip)
        (operand_trace line (''host '' @ ip) role ''inline host materialized from ACL operand'') s)"

definition ensure_unresolved_ref :: "string \<Rightarrow> int \<Rightarrow> string \<Rightarrow> norm_state \<Rightarrow> exc + uuid \<times> norm_state" where
  "ensure_unresolved_ref ref line role s =
     (let key = ''addr:unresolved:'' @ ref in
      ensure_object key (\<lambda>i. unresolved_addr i (ns_snapshot_id s) key ref ''unresolved ASA address reference'')
        (\<lambda>i t. bind_r (operand_trace line ref role ''unresolved address reference fallback'' i t) (\<lambda>t.
           emit_issue ''cisco_asa_rule'' ''unresolved_address_ref'' (''Unresolved ASA address reference: '' @ ref) (Some ref)
             line line (Some ref) (Some IR_MAPPING_MISSING) t)) s)"

text \<open>\<open>body.split("/", 1)\<close>; without a slash the two variables cannot be unpacked.\<close>

definition split_subnet :: "string \<Rightarrow> exc + string \<times> string" where
  "split_subnet ref =
     (let body = remove_prefix ''net:'' ref in
      if CHR ''/'' \<in> set body then Inr (split_once (CHR ''/'') body)
      else Inl (ValueError ''not enough values to unpack (expected 2, got 1)''))"

definition ensure_subnet_ref :: "string \<Rightarrow> int \<Rightarrow> string \<Rightarrow> norm_state \<Rightarrow> exc + uuid \<times> norm_state" where
  "ensure_subnet_ref ref line role s =
     bind_r (split_subnet ref) (\<lambda>(ip, m).
       case mask_to_prefix m of
         None \<Rightarrow> ensure_unresolved_ref ref line role s
       | Some n \<Rightarrow>
           (let cidr = ip @ ''/'' @ nat_str n; key = ''addr:net:'' @ cidr in
            ensure_object key (\<lambda>i. subnet_object i (ns_snapshot_id s) key cidr cidr)
              (operand_trace line cidr role ''inline subnet materialized from ACL operand'') s))"

definition ensure_addr_object_from_ref :: "string \<Rightarrow> int \<Rightarrow> string \<Rightarrow> norm_state \<Rightarrow> exc + uuid \<times> norm_state" where
  "ensure_addr_object_from_ref ref line role s =
     (if ref = ''any'' then bind_r (id_of_key s ''addr:any'') (\<lambda>i. Inr (i, s))
      else if starts_with ''host:'' ref then ensure_host_ref ref line role s
      else if starts_with ''net:'' ref then ensure_subnet_ref ref line role s
      else if has_key s (''addr:'' @ ref) then bind_r (id_of_key s (''addr:'' @ ref)) (\<lambda>i. Inr (i, s))
      else ensure_unresolved_ref ref line role s)"


section \<open>Address references of groups\<close>

definition resolve_key :: "string \<Rightarrow> (uuid \<Rightarrow> canonical_object) \<Rightarrow> norm_state \<Rightarrow> exc + string \<times> norm_state" where
  "resolve_key key mk s =
     (if has_key s key then Inr (key, s) else bind_r (register_new (mk (fresh_id s)) s) (\<lambda>t. Inr (key, t)))"

definition resolve_unresolved_member :: "string \<Rightarrow> norm_state \<Rightarrow> exc + string \<times> norm_state" where
  "resolve_unresolved_member ref s =
     (let key = ''addr:unresolved:'' @ ref in
      resolve_key key (\<lambda>i. unresolved_addr i (ns_snapshot_id s) key ref ''unresolved ASA address group member'') s)"

definition resolve_member_ref :: "string \<Rightarrow> norm_state \<Rightarrow> exc + string \<times> norm_state" where
  "resolve_member_ref ref s =
     (if starts_with ''host:'' ref then
        (let ip = remove_prefix ''host:'' ref; key = ''addr:host:'' @ ip in
         resolve_key key (\<lambda>i. host_object i (ns_snapshot_id s) key ip ip) s)
      else if starts_with ''net:'' ref then
        bind_r (split_subnet ref) (\<lambda>(ip, m).
          case mask_to_prefix m of
            None \<Rightarrow> resolve_unresolved_member ref s
          | Some n \<Rightarrow>
              (let cidr = ip @ ''/'' @ nat_str n; key = ''addr:net:'' @ cidr in
               resolve_key key (\<lambda>i. subnet_object i (ns_snapshot_id s) key cidr cidr) s))
      else if has_key s (''addr:'' @ ref) then Inr (''addr:'' @ ref, s)
      else resolve_unresolved_member ref s)"


section \<open>Edges\<close>

definition emit_new_objects :: "norm_state \<Rightarrow> int \<Rightarrow> string \<Rightarrow> string \<Rightarrow> norm_state \<Rightarrow> exc + norm_state" where
  "emit_new_objects earlier line fragment note s =
     fold_r (\<lambda>(key, i). emit_trace line line TK_OBJECT i (Some fragment) None (Some note))
       (filter (\<lambda>(key, _). \<not> has_key earlier key) (ns_objects_by_key s)) s"

definition attach_edge :: "uuid \<Rightarrow> uuid \<Rightarrow> int \<Rightarrow> int \<Rightarrow> string \<Rightarrow> norm_state \<Rightarrow> exc + norm_state" where
  "attach_edge parent child position line fragment s =
     emit_trace line line TK_OBJECT_MEMBER (fresh_id s) (Some fragment) (Some ''member_ref'') None
       ((drawn s)\<lparr>ns_object_members := ns_object_members s @
          [\<lparr>km_id = fresh_id s, km_parent_object_id = parent, km_child_object_id = child, km_position = position\<rparr>]\<rparr>)"

definition attach_group_member_edges :: "uuid \<Rightarrow> string list \<Rightarrow> nat \<Rightarrow> int \<Rightarrow> string \<Rightarrow> norm_state \<Rightarrow> exc + norm_state" where
  "attach_group_member_edges parent child_keys pos line fragment s =
     fold_r (\<lambda>(offset, key) s.
       (case map_of (ns_objects_by_key s) key of
          None \<Rightarrow> Inr s
        | Some child \<Rightarrow> attach_edge parent child (int (pos + offset)) line fragment s))
       (List.enumerate 0 child_keys) s"


section \<open>Members of service groups\<close>

definition repr_dict :: "str_dict \<Rightarrow> string" where
  "repr_dict d = ''{'' @ join '', '' (map (\<lambda>(k, v). repr_str k @ '': '' @ repr_str v) d) @ ''}''"

fun member_type :: "service_member \<Rightarrow> string" where
  "member_type (SM_GROUP_OBJECT _) = ''group-object''"
| "member_type (SM_SERVICE_OBJECT_OBJECT _) = ''service-object-object''"
| "member_type (SM_SERVICE_OBJECT _ _) = ''service-object''"
| "member_type (SM_PORT_OBJECT _) = ''port-object''"
| "member_type (SM_PROTOCOL_OBJECT _) = ''protocol-object''"
| "member_type (SM_ICMP_OBJECT _) = ''icmp-object''"

text \<open>\<open>str(member)\<close> of the dictionary that the extractor built.\<close>

fun member_text :: "service_member \<Rightarrow> string" where
  "member_text (SM_GROUP_OBJECT n) = repr_dict [(''type'', ''group-object''), (''name'', n)]"
| "member_text (SM_SERVICE_OBJECT_OBJECT n) = repr_dict [(''type'', ''service-object-object''), (''name'', n)]"
| "member_text (SM_SERVICE_OBJECT None raw) = repr_dict [(''type'', ''service-object''), (''raw'', raw)]"
| "member_text (SM_SERVICE_OBJECT (Some d) raw) =
     ''{'' @ repr_str ''type'' @ '': '' @ repr_str ''service-object'' @ '', '' @ repr_str ''payload'' @ '': '' @ repr_dict d @
     '', '' @ repr_str ''raw'' @ '': '' @ repr_str raw @ ''}''"
| "member_text (SM_PORT_OBJECT raw) = repr_dict [(''type'', ''port-object''), (''raw'', raw)]"
| "member_text (SM_PROTOCOL_OBJECT raw) = repr_dict [(''type'', ''protocol-object''), (''raw'', raw)]"
| "member_text (SM_ICMP_OBJECT n) = repr_dict [(''type'', ''icmp-object''), (''name'', n)]"

definition service_payload_key :: "str_dict \<Rightarrow> string option" where
  "service_payload_key payload =
     (let proto = lower (str_of (map_of payload ''protocol'')) in
      if proto = [] then None
      else if proto \<in> {''tcp'', ''udp''} then
        map_option (\<lambda>(a, b). service_object_key proto a b) (resolve_l4_destination_range payload)
      else if proto = ''tcp-udp'' \<and> map_of payload ''op'' = Some ''eq'' \<and> map_of payload ''port'' \<noteq> None then
        map_option (\<lambda>p. service_object_key ''tcp-udp'' p p) (parse_port_token (str_opt (map_of payload ''port'')))
      else if proto \<in> {''icmp'', ''icmp6''} then
        Some (''service:'' @ proto @ '':icmp-'' @
          icmp_token (if truthy (map_of payload ''icmp'') then str_of (map_of payload ''icmp'') else ''any''))
      else if is_digits proto \<or> proto \<in> {''ip'', ''esp'', ''ah'', ''gre''} then Some (ip_protocol_object_key proto)
      else None)"

definition service_name :: "string \<Rightarrow> string" where
  "service_name key = remove_prefix ''service:'' key"

definition register_service_payload :: "str_dict \<Rightarrow> norm_state \<Rightarrow> exc + string option \<times> norm_state" where
  "register_service_payload payload s =
     (case service_payload_key payload of
        None \<Rightarrow> Inr (None, s)
      | Some key \<Rightarrow>
          (if has_key s key then Inr (Some key, s)
           else
             (case build_service_from_payload (fresh_id s) (ns_snapshot_id s) (service_name key) key payload of
                None \<Rightarrow> Inr (None, s)
              | Some x \<Rightarrow> bind_r (register_new x s) (\<lambda>t. Inr (Some key, t)))))"

definition materialize_protocol_object_member :: "string \<Rightarrow> norm_state \<Rightarrow> exc + string option \<times> norm_state" where
  "materialize_protocol_object_member raw s =
     (let proto = lower (strip raw); key = ip_protocol_object_key proto in
      if proto = [] then Inr (None, s)
      else if has_key s key then Inr (Some key, s)
      else
        (let built = build_service_from_payload (fresh_id s) (ns_snapshot_id s) (service_name key) key [(''protocol'', proto)] in
         bind_r (register_new (case built of Some x \<Rightarrow> x
             | None \<Rightarrow> build_ip_protocol_service (fresh_id s) (ns_snapshot_id s) None (Some proto)) s) (\<lambda>t.
           Inr (Some key, t))))"

fun port_object_members ::
  "str_dict \<Rightarrow> int \<Rightarrow> int \<Rightarrow> string list \<Rightarrow> string list \<Rightarrow> norm_state \<Rightarrow> exc + string list \<times> norm_state" where
  "port_object_members parsed a b [] keys s = Inr (keys, s)"
| "port_object_members parsed a b (p # ps) keys s =
     (let key = service_object_key p a b in
      if has_key s key then port_object_members parsed a b ps (keys @ [key]) s
      else
        (case build_service_from_payload (fresh_id s) (ns_snapshot_id s) (service_name key) key (dict_set ''protocol'' p parsed) of
           None \<Rightarrow> Inr ([], s)
         | Some x \<Rightarrow> bind_r (register_new x s) (\<lambda>t. port_object_members parsed a b ps (keys @ [key]) t)))"

definition port_object_range :: "str_dict \<Rightarrow> (int \<times> int) option" where
  "port_object_range parsed =
     (if map_of parsed ''op'' = Some ''eq'' then
        (let port = int (nat_val (str_of (map_of parsed ''port''))) in Some (port, port))
      else
        (case (parse_port_token (str_opt (map_of parsed ''port_from'')), parse_port_token (str_opt (map_of parsed ''port_to''))) of
           (Some a, Some b) \<Rightarrow> Some (a, b)
         | _ \<Rightarrow> None))"

definition opt_list :: "'a option \<Rightarrow> 'a list" where
  "opt_list x = (case x of None \<Rightarrow> [] | Some y \<Rightarrow> [y])"

definition materialize_service_group_member ::
  "service_member \<Rightarrow> string option \<Rightarrow> norm_state \<Rightarrow> exc + string list \<times> norm_state" where
  "materialize_service_group_member member group_protocol s =
     (let named = (\<lambda>n. let key = ''service:'' @ n in if n \<noteq> [] \<and> has_key s key then [key] else []) in
      case member of
        SM_SERVICE_OBJECT_OBJECT n \<Rightarrow> Inr (named n, s)
      | SM_GROUP_OBJECT n \<Rightarrow> Inr (named n, s)
      | SM_ICMP_OBJECT n \<Rightarrow>
          (let key = ''service:icmp:'' @ n in
           if n = [] then Inr ([], s)
           else if has_key s key then Inr ([key], s)
           else bind_r (register_new ((object_create (fresh_id s) (ns_snapshot_id s) key OF_SERVICE OK_ICMP n)
               \<lparr>ko_protocol := Some ''icmp'', ko_icmp_type := map_of ICMP_NAME_TO_TYPE (icmp_token n)\<rparr>) s) (\<lambda>t.
             Inr ([key], t)))
      | SM_PORT_OBJECT raw \<Rightarrow>
          (if raw = [] then Inr ([], s)
           else
             (case parse_port_object_line raw group_protocol of
                None \<Rightarrow> Inr ([], s)
              | Some parsed \<Rightarrow>
                  (case port_object_range parsed of
                     None \<Rightarrow> Inr ([], s)
                   | Some (a, b) \<Rightarrow>
                       (let proto = str_of (map_of parsed ''protocol'') in
                        port_object_members parsed a b (if proto = ''tcp-udp'' then [''tcp'', ''udp''] else [proto]) [] s))))
      | SM_SERVICE_OBJECT payload raw \<Rightarrow>
          (case (case payload of Some d \<Rightarrow> Some d | None \<Rightarrow> if raw = [] then None else parse_inline_service_object raw) of
             None \<Rightarrow> Inr ([], s)
           | Some d \<Rightarrow> bind_r (register_service_payload d s) (\<lambda>(key, t). Inr (opt_list key, t)))
      | SM_PROTOCOL_OBJECT raw \<Rightarrow>
          (if raw = [] then Inr ([], s)
           else bind_r (materialize_protocol_object_member raw s) (\<lambda>(key, t). Inr (opt_list key, t))))"

end
