(* ===== verification/Asa_Normalizer.thy ===== *)
theory Asa_Normalizer
  imports Asa_Members Canonical_Scope
begin

text \<open>
  The normalizer (\<open>adapters/normalizer/addresses.py\<close>, \<open>services.py\<close>, \<open>rules.py\<close>,
  \<open>rules_helpers.py\<close>, \<open>orchestrator.py\<close>, \<open>adapters/rules\<close>): a parsed configuration
  becomes the command that saves a canonical snapshot, and the trace.

  A mixin's method is a function on the state; its loop over parsed items is \<open>fold_r\<close>.
\<close>

section \<open>Addresses\<close>

definition header_trace :: "'m parsed_object \<Rightarrow> uuid \<Rightarrow> norm_state \<Rightarrow> exc + norm_state" where
  "header_trace item i =
     emit_trace (po_source_line item) (po_source_line_end item) TK_OBJECT i (Some (po_source_fragment item)) (Some ''header'') None"

definition materialize_address_object :: "string parsed_object \<Rightarrow> norm_state \<Rightarrow> exc + norm_state" where
  "materialize_address_object item s =
     (let key = ''addr:'' @ po_name item; i = fresh_id s in
      bind_r (if po_kind item = PT_ADDRESS_GROUP
              then Inr (object_create i (ns_snapshot_id s) key OF_ADDR OK_ADDR_GROUP (po_name item))
              else addr_object_from_payload i (ns_snapshot_id s) key (po_name item) (py_fields (po_payload item))) (\<lambda>x.
      bind_r (register_new x s) (\<lambda>t. header_trace item i t)))"

definition unresolved_member_issue :: "string \<Rightarrow> string \<Rightarrow> int \<Rightarrow> norm_state \<Rightarrow> exc + norm_state" where
  "unresolved_member_issue group_name ref line =
     emit_issue ''cisco_asa_address_group'' ''unresolved_group_member_ref''
       (''Unresolved address group member reference: '' @ group_name @ '' -> '' @ ref) (Some (group_name @ '':'' @ ref))
       line line (Some ref) (Some IR_MAPPING_MISSING)"

definition address_group_member ::
  "string parsed_object \<Rightarrow> uuid \<Rightarrow> nat \<times> string \<Rightarrow> norm_state \<Rightarrow> exc + norm_state" where
  "address_group_member item parent m s =
     (case m of (pos, ref) \<Rightarrow>
       bind_r (resolve_member_ref ref s) (\<lambda>(key, t).
       bind_r (emit_new_objects s (po_source_line item) ref ''inline member materialized from group body'' t) (\<lambda>t.
         case map_of (ns_objects_by_key t) key of
           Some child \<Rightarrow>
             bind_r (attach_edge parent child (int pos) (po_source_line item) ref t) (\<lambda>t.
               if starts_with ''addr:unresolved:'' key
               then unresolved_member_issue (po_name item) ref (po_source_line item) t else Inr t)
         | None \<Rightarrow> unresolved_member_issue (po_name item) ref (po_source_line item) t)))"

definition materialize_address_group :: "string parsed_object \<Rightarrow> norm_state \<Rightarrow> exc + norm_state" where
  "materialize_address_group item s =
     (if po_kind item \<noteq> PT_ADDRESS_GROUP then Inr s
      else
        (case map_of (ns_objects_by_key s) (''addr:'' @ po_name item) of
           None \<Rightarrow> Inr s
         | Some parent \<Rightarrow>
             fold_r (address_group_member item parent) (List.enumerate 0 (py_members (po_payload item))) s))"


section \<open>Services\<close>

definition materialize_service_object :: "service_member parsed_object \<Rightarrow> norm_state \<Rightarrow> exc + norm_state" where
  "materialize_service_object item s =
     bind_r (register_new (canonical_object_for_parsed_service (fresh_id s) (ns_snapshot_id s) item) s) (\<lambda>t.
       header_trace item (fresh_id s) t)"

definition service_group_member ::
  "string \<Rightarrow> string option \<Rightarrow> int \<Rightarrow> string \<Rightarrow> uuid \<Rightarrow> nat \<times> service_member \<Rightarrow> norm_state \<Rightarrow> exc + norm_state" where
  "service_group_member group_name group_protocol line entity_type parent m s =
     (case m of (pos, member) \<Rightarrow>
       bind_r (materialize_service_group_member member group_protocol s) (\<lambda>(keys, t).
       bind_r (emit_new_objects s line (member_text member) ''service group member materialized'' t) (\<lambda>t.
         if keys = [] then
           emit_issue entity_type ''unresolved_group_member_ref''
             (''Unresolved service group member in '' @ group_name @ '': '' @ member_text member)
             (Some (group_name @ '':'' @ member_type member)) line line (Some (member_text member))
             (Some IR_MAPPING_MISSING) t
         else attach_group_member_edges parent keys pos line (member_text member) t)))"

definition attach_group_members ::
  "service_member parsed_object \<Rightarrow> string option \<Rightarrow> string \<Rightarrow> norm_state \<Rightarrow> exc + norm_state" where
  "attach_group_members item group_protocol entity_type s =
     (case map_of (ns_objects_by_key s) (''service:'' @ po_name item) of
        None \<Rightarrow> Inr s
      | Some parent \<Rightarrow>
          fold_r (service_group_member (po_name item) group_protocol (po_source_line item) entity_type parent)
            (List.enumerate 0 (py_members (po_payload item))) s)"

definition materialize_service_group :: "service_member parsed_object \<Rightarrow> norm_state \<Rightarrow> exc + norm_state" where
  "materialize_service_group item s =
     (if po_kind item \<noteq> PT_SERVICE_GROUP then Inr s
      else attach_group_members item (map_of (py_fields (po_payload item)) ''protocol'') ''cisco_asa_service_group'' s)"

definition materialize_protocol_group :: "service_member parsed_object \<Rightarrow> norm_state \<Rightarrow> exc + norm_state" where
  "materialize_protocol_group item s =
     (if po_kind item \<noteq> PT_PROTOCOL_GROUP then Inr s
      else attach_group_members item None ''cisco_asa_protocol_group'' s)"

definition lookup_named_service_ref :: "string option \<Rightarrow> norm_state \<Rightarrow> uuid option" where
  "lookup_named_service_ref ref s =
     (if truthy ref then map_of (ns_objects_by_key s) (''service:'' @ str_of ref) else None)"

text \<open>An object built for an operand is registered, and traced even when its key was there.\<close>

definition register_traced :: "canonical_object \<Rightarrow> int \<Rightarrow> string \<Rightarrow> string \<Rightarrow> norm_state \<Rightarrow> exc + uuid \<times> norm_state" where
  "register_traced x line fragment note s =
     bind_r (register x (drawn s)) (\<lambda>(y, t).
     bind_r (operand_trace line fragment ''service'' note (ko_id y) t) (\<lambda>t. Inr (ko_id y, t)))"

definition any_service :: "norm_state \<Rightarrow> exc + uuid \<times> norm_state" where
  "any_service s = bind_r (id_of_key s ''service:any'') (\<lambda>i. Inr (i, s))"

definition ensure_unresolved_service :: "string \<Rightarrow> string \<Rightarrow> int \<Rightarrow> norm_state \<Rightarrow> exc + uuid \<times> norm_state" where
  "ensure_unresolved_service ref protocol line s =
     (let key = ''service:unresolved:'' @ ref in
      ensure_object key
        (\<lambda>i. (object_create i (ns_snapshot_id s) key OF_SERVICE OK_UNRESOLVED_SERVICE ref)
           \<lparr>ko_protocol := (if protocol = [] then None else Some protocol),
            ko_description := Some ''unresolved ASA service reference''\<rparr>)
        (\<lambda>i t. bind_r (operand_trace line ref ''service'' ''unresolved service reference fallback'' i t) (\<lambda>t.
           emit_issue ''cisco_asa_rule'' ''unresolved_service_ref'' (''Unresolved ASA service reference: '' @ ref) (Some ref)
             line line None (Some IR_MAPPING_MISSING) t)) s)"

definition ensure_default_service :: "string \<Rightarrow> int \<Rightarrow> norm_state \<Rightarrow> exc + uuid \<times> norm_state" where
  "ensure_default_service protocol line s =
     (let p = lower protocol in
      case build_service_from_payload (fresh_id s) (ns_snapshot_id s) p (ip_protocol_object_key p) [(''protocol'', p)] of
        None \<Rightarrow> any_service s
      | Some x \<Rightarrow> register_traced x line p ''implicit protocol-only service for ACL rule'' s)"

definition ensure_service_object_from_ref :: "string \<Rightarrow> string option \<Rightarrow> int \<Rightarrow> norm_state \<Rightarrow> exc + uuid \<times> norm_state" where
  "ensure_service_object_from_ref protocol ref line s =
     (if \<not> truthy ref \<or> ref = Some ''any'' then ensure_default_service protocol line s
      else
        (case lookup_named_service_ref ref s of
           Some i \<Rightarrow> Inr (i, s)
         | None \<Rightarrow>
             (case build_inline_service_from_ref (fresh_id s) (ns_snapshot_id s) protocol (str_of ref) of
                Some x \<Rightarrow> register_traced x line (protocol @ '' '' @ str_of ref) ''inline service materialized from ACL operand'' s
              | None \<Rightarrow> ensure_unresolved_service (str_of ref) protocol line s)))"

definition ensure_ip_protocol_service :: "parsed_access_rule \<Rightarrow> norm_state \<Rightarrow> exc + uuid \<times> norm_state" where
  "ensure_ip_protocol_service rule s =
     (case lookup_named_service_ref (pr_service_ref rule) s of
        Some i \<Rightarrow> Inr (i, s)
      | None \<Rightarrow>
          (case pr_protocol_number rule of
             Some n \<Rightarrow>
               register_traced (build_ip_protocol_service (fresh_id s) (ns_snapshot_id s) (Some n) None) (pr_line_start rule)
                 (''protocol '' @ int_str n) ''IP protocol number materialized from ACL operand'' s
           | None \<Rightarrow> any_service s))"

definition ensure_protocol_group_service :: "parsed_access_rule \<Rightarrow> norm_state \<Rightarrow> exc + uuid \<times> norm_state" where
  "ensure_protocol_group_service rule s =
     (case lookup_named_service_ref (pr_protocol_group_ref rule) s of
        Some i \<Rightarrow> Inr (i, s)
      | None \<Rightarrow> any_service s)"

definition effective_protocol_from_group :: "parsed_access_rule \<Rightarrow> norm_state \<Rightarrow> exc + string option" where
  "effective_protocol_from_group rule s =
     (case lookup_named_service_ref (pr_protocol_group_ref rule) s of
        None \<Rightarrow> Inr None
      | Some i \<Rightarrow> bind_r (object_of_id s i) (\<lambda>x. Inr (ko_protocol x)))"

definition ensure_service_for_rule :: "parsed_access_rule \<Rightarrow> norm_state \<Rightarrow> exc + uuid \<times> norm_state" where
  "ensure_service_for_rule rule s =
     (case pr_operand_kind rule of
        PK_IP_PROTOCOL_NUMBER \<Rightarrow> ensure_ip_protocol_service rule s
      | PK_SERVICE_OBJECT \<Rightarrow> ensure_service_object_from_ref ''ip'' (pr_service_ref rule) (pr_line_start rule) s
      | PK_PROTOCOL_GROUP \<Rightarrow>
          (if truthy (pr_service_ref rule) then
             bind_r (effective_protocol_from_group rule s) (\<lambda>p.
               ensure_service_object_from_ref (if truthy p then str_of p else ''ip'') (pr_service_ref rule) (pr_line_start rule) s)
           else ensure_protocol_group_service rule s)
      | PK_LITERAL \<Rightarrow> ensure_service_object_from_ref (pr_protocol rule) (pr_service_ref rule) (pr_line_start rule) s)"

text \<open>The members of a group with the protocol of the rule, each once.\<close>

definition protocol_members :: "uuid \<Rightarrow> string \<Rightarrow> norm_state \<Rightarrow> exc + uuid list" where
  "protocol_members parent protocol s =
     fold_r (\<lambda>m selected.
       if km_parent_object_id m \<noteq> parent then Inr selected
       else
         bind_r (object_of_id s (km_child_object_id m)) (\<lambda>child.
           Inr (if ko_protocol child \<noteq> Some protocol \<or> ko_id child \<in> set selected then selected
                else selected @ [ko_id child]))) (ns_object_members s) []"

definition ensure_services_for_rule :: "parsed_access_rule \<Rightarrow> norm_state \<Rightarrow> exc + uuid list \<times> norm_state" where
  "ensure_services_for_rule rule s =
     bind_r (ensure_service_for_rule rule s) (\<lambda>(i, t).
     bind_r (object_of_id t i) (\<lambda>service.
       if \<not> (ko_object_kind service = OK_SERVICE_GROUP \<and> ko_protocol service = Some ''tcp-udp'' \<and>
            pr_protocol rule \<in> {''tcp'', ''udp''})
       then Inr ([i], t)
       else
         bind_r (protocol_members i (pr_protocol rule) t) (\<lambda>selected.
           if selected \<noteq> [] then Inr (selected, t)
           else
             bind_r (ensure_unresolved_service (ko_name service @ '':'' @ pr_protocol rule) (pr_protocol rule)
                 (pr_line_start rule) t) (\<lambda>(u, t). Inr ([u], t)))))"


section \<open>Rules: keys, processing, issues\<close>

definition build_rule_key :: "string \<Rightarrow> (string \<times> nat) list \<Rightarrow> string \<times> (string \<times> nat) list" where
  "build_rule_key base seen =
     (let count = dict_get seen base 0 in
      (if count = 0 then base else base @ '':dup'' @ nat_str count, AList.update base (count + 1) seen))"

definition resolve_rule_processing ::
  "parsed_access_rule \<Rightarrow> bool \<Rightarrow> rule_processing_status \<times> issue_reason list \<times> bool" where
  "resolve_rule_processing rule protocol_blocker =
     (let reasons =
        (if pr_usage_type rule = AU_CRYPTO_MAP_SELECTOR then [IR_CRYPTO_MAP_SELECTOR] else []) @
        (if pr_usage_type rule = AU_CONFLICT then [IR_USAGE_CONFLICT] else []) @
        (if pr_zone_inference rule = ZI_GLOBAL_SCOPE then [IR_GLOBAL_SCOPE] else []) @
        (if pr_unresolved_zone rule \<and> pr_zone_inference rule \<noteq> ZI_GLOBAL_SCOPE then [IR_BINDING_MISSING] else []) @
        (if protocol_blocker then [IR_PROTOCOL_UNRESOLVED] else []) in
      if reasons \<noteq> [] then (PS_SKIPPED_FOR_NOW, reasons, False) else (PS_FW_APPLICABLE, [], True))"

definition build_rule_metadata ::
  "parsed_access_rule \<Rightarrow> rule_processing_status \<Rightarrow> issue_reason list \<Rightarrow> bool \<Rightarrow> string option" where
  "build_rule_metadata rule status reasons eligible =
     (let opt = (\<lambda>prefix x. if truthy x then [prefix @ str_of x] else []);
          parts =
            (if pr_binding_type rule = AB_GLOBAL then [''acl_binding=global'', ''zone_inference=global_scope'']
             else if pr_zone_inference rule \<noteq> ZI_UNKNOWN then [''zone_inference='' @ zone_inference_value (pr_zone_inference rule)]
             else []) @
            [''binding_context='' @ pr_binding_context_key rule] @
            opt ''binding_interface='' (pr_binding_interface rule) @
            opt ''binding_direction='' (pr_binding_direction rule) @
            [''acl_usage='' @ acl_usage_value (pr_usage_type rule),
             ''processing_status='' @ processing_status_value status,
             ''auto_apply_eligible='' @ (if eligible then ''true'' else ''false'')] @
            (if pr_operand_kind rule \<noteq> PK_LITERAL then [''protocol_operand='' @ protocol_kind_value (pr_operand_kind rule)] else []) @
            opt ''protocol_group='' (pr_protocol_group_ref rule) @
            (case pr_protocol_number rule of Some n \<Rightarrow> [''protocol_number='' @ int_str n] | None \<Rightarrow> []) @
            (if truthy (pr_crypto_map_name rule) then
               [''crypto_map='' @ str_of (pr_crypto_map_name rule) @ '':'' @
                 (case pr_crypto_map_seq rule of Some n \<Rightarrow> int_str n | None \<Rightarrow> ''None'')] else []) @
            (if reasons \<noteq> [] then [''skip_reasons='' @ join '','' (map issue_reason_value reasons)] else []) @
            opt ''time-range='' (pr_time_range rule) @
            (if pr_log rule then [''log''] else []) in
      if parts \<noteq> [] then Some (join ''; '' parts) else None)"

definition rule_issue ::
  "parsed_access_rule \<Rightarrow> string \<Rightarrow> string \<Rightarrow> string option \<Rightarrow> issue_reason \<Rightarrow> norm_state \<Rightarrow> exc + norm_state" where
  "rule_issue rule issue_code message fragment reason =
     emit_issue ''cisco_asa_rule'' issue_code message (Some (pr_rule_name rule)) (pr_line_start rule) (pr_line_end rule)
       fragment (Some reason)"

definition text_or_none :: "string option \<Rightarrow> string" where
  "text_or_none x = (case x of None \<Rightarrow> ''None'' | Some v \<Rightarrow> v)"

definition emit_rule_usage_issues :: "parsed_access_rule \<Rightarrow> norm_state \<Rightarrow> exc + norm_state" where
  "emit_rule_usage_issues rule s =
     bind_r (if pr_usage_type rule = AU_CONFLICT then
         rule_issue rule ''usage_conflict''
           (''ACL '' @ pr_acl_name rule @ '' is referenced by both firewall policy and crypto map '' @
             text_or_none (pr_crypto_map_name rule)) None IR_USAGE_CONFLICT s
       else Inr s) (\<lambda>s.
       if pr_usage_type rule = AU_CRYPTO_MAP_SELECTOR then
         rule_issue rule ''crypto_map_selector''
           (''ACL '' @ pr_acl_name rule @ '' is a crypto-map selector ('' @ text_or_none (pr_crypto_map_name rule) @ '' '' @
             (case pr_crypto_map_seq rule of Some n \<Rightarrow> int_str n | None \<Rightarrow> ''None'') @
             ''); excluded from firewall auto-apply scope'') None IR_CRYPTO_MAP_SELECTOR s
       else Inr s)"

definition rule_signature :: "parsed_access_rule \<Rightarrow> string \<times> string \<times> string" where
  "rule_signature rule =
     (pr_acl_name rule, pr_binding_context_key rule, lower (join '' '' (split_ws (pr_raw_line_text rule))))"

definition emit_textual_duplicate_issue :: "parsed_access_rule \<Rightarrow> norm_state \<Rightarrow> exc + norm_state" where
  "emit_textual_duplicate_issue rule s =
     (case map_of (ns_signatures s) (rule_signature rule) of
        None \<Rightarrow> Inr (s\<lparr>ns_signatures := AList.update (rule_signature rule) (pr_rule_name rule) (ns_signatures s)\<rparr>)
      | Some first \<Rightarrow>
          rule_issue rule ''textual_duplicate_rule''
            (''Textual duplicate ACL line in same ACL and binding context; first seen as '' @ first)
            (Some (pr_raw_line_text rule)) IR_TEXTUAL_DUPLICATE s)"

definition validate_protocol_operand :: "parsed_access_rule \<Rightarrow> norm_state \<Rightarrow> exc + bool \<times> norm_state" where
  "validate_protocol_operand rule s =
     (if pr_operand_kind rule = PK_PROTOCOL_GROUP \<and> \<not> truthy (pr_protocol_group_ref rule) then
        bind_r (rule_issue rule ''protocol_unresolved'' ''Protocol object-group reference is missing'' None
          IR_PROTOCOL_UNRESOLVED s) (\<lambda>t. Inr (True, t))
      else if pr_operand_kind rule = PK_PROTOCOL_GROUP \<and> \<not> has_key s (''service:'' @ str_of (pr_protocol_group_ref rule)) then
        bind_r (rule_issue rule ''protocol_mapping_missing''
          (''Protocol object-group not found: '' @ str_of (pr_protocol_group_ref rule)) None IR_MAPPING_MISSING s) (\<lambda>t. Inr (True, t))
      else if pr_operand_kind rule = PK_IP_PROTOCOL_NUMBER \<and>
          (case pr_protocol_number rule of None \<Rightarrow> True | Some n \<Rightarrow> \<not> (0 \<le> n \<and> n \<le> 255)) then
        bind_r (rule_issue rule ''protocol_unresolved'' (''Invalid IP protocol number: '' @ pr_protocol rule) None
          IR_PROTOCOL_UNRESOLVED s) (\<lambda>t. Inr (True, t))
      else Inr (False, s))"


section \<open>Rules: operands\<close>

definition nonempty :: "string \<Rightarrow> string option" where
  "nonempty x = (if x = [] then None else Some x)"

definition create_rule_with_trace ::
  "parsed_access_rule \<Rightarrow> string \<Rightarrow> rule_processing_status \<Rightarrow> string option \<Rightarrow> norm_state \<Rightarrow> exc + uuid \<times> norm_state" where
  "create_rule_with_trace rule key status description s =
     bind_r (emit_trace (pr_line_start rule) (pr_line_end rule) TK_RULE (fresh_id s) (nonempty (pr_raw_line_text rule)) None
         (Some (''processing_status='' @ processing_status_value status))
         ((drawn s)\<lparr>ns_rules := ns_rules s @
            [\<lparr>kr_id = fresh_id s, kr_snapshot_id = ns_snapshot_id s, kr_rule_key = key, kr_name = key,
              kr_action = pr_action rule, kr_enabled = pr_enabled rule, kr_priority = pr_order rule,
              kr_section = Some (pr_acl_name rule), kr_description = description\<rparr>]\<rparr>))
       (\<lambda>t. Inr (fresh_id s, t))"

definition add_operand ::
  "parsed_access_rule \<Rightarrow> uuid \<Rightarrow> rule_role \<Rightarrow> uuid option \<Rightarrow> uuid option \<Rightarrow> nat \<Rightarrow> string \<Rightarrow> string option \<Rightarrow> norm_state \<Rightarrow>
   exc + norm_state" where
  "add_operand rule rule_id role zone obj position fragment note s =
     emit_trace (pr_line_start rule) (pr_line_end rule) TK_RULE_OPERAND (fresh_id s) (Some fragment)
       (Some (rule_role_value role)) note
       ((drawn s)\<lparr>ns_operands := ns_operands s @
          [\<lparr>kp_id = fresh_id s, kp_rule_id = rule_id, kp_operand_role = role, kp_target_zone_id = zone,
            kp_target_object_id = obj, kp_position = int position\<rparr>]\<rparr>)"

definition ensure_zone :: "string \<Rightarrow> int \<Rightarrow> norm_state \<Rightarrow> exc + canonical_zone \<times> norm_state" where
  "ensure_zone name line s =
     (let key = ''zone:'' @ name in
      case map_of (ns_zones_by_key s) key of
        Some z \<Rightarrow> Inr (z, s)
      | None \<Rightarrow>
          (let z = \<lparr>kz_id = fresh_id s, kz_snapshot_id = ns_snapshot_id s, kz_zone_key = key, kz_name = name,
                 kz_direction_hint = None, kz_description = None\<rparr> in
           bind_r (emit_trace line line TK_ZONE (kz_id z) (Some name) (Some ''from_acl_name'')
               (Some ''zone derived from acl/binding context'')
               ((drawn s)\<lparr>ns_zones_by_key := AList.update key z (ns_zones_by_key s)\<rparr>)) (\<lambda>t. Inr (z, t))))"

definition zone_operand :: "parsed_access_rule \<Rightarrow> uuid \<Rightarrow> rule_role \<Rightarrow> string option \<Rightarrow> norm_state \<Rightarrow> exc + norm_state" where
  "zone_operand rule rule_id role zone s =
     (if truthy zone then
        bind_r (ensure_zone (str_of zone) (pr_line_start rule) s) (\<lambda>(z, t).
          add_operand rule rule_id role (Some (kz_id z)) None 0 (str_of zone) None t)
      else Inr s)"

definition materialize_zone_operands :: "parsed_access_rule \<Rightarrow> uuid \<Rightarrow> norm_state \<Rightarrow> exc + norm_state" where
  "materialize_zone_operands rule rule_id s =
     bind_r (zone_operand rule rule_id RO_SRC_ZONE (pr_src_zone rule) s) (\<lambda>t.
       zone_operand rule rule_id RO_DST_ZONE (pr_dst_zone rule) t)"

definition materialize_address_operands :: "parsed_access_rule \<Rightarrow> uuid \<Rightarrow> norm_state \<Rightarrow> exc + norm_state" where
  "materialize_address_operands rule rule_id s =
     bind_r (ensure_addr_object_from_ref (pr_src_ref rule) (pr_line_start rule) ''src_object'' s) (\<lambda>(src, t).
     bind_r (ensure_addr_object_from_ref (pr_dst_ref rule) (pr_line_start rule) ''dst_object'' t) (\<lambda>(dst, t).
     bind_r (add_operand rule rule_id RO_SRC_OBJECT None (Some src) 0 (pr_src_ref rule) None t) (\<lambda>t.
       add_operand rule rule_id RO_DST_OBJECT None (Some dst) 0 (pr_dst_ref rule) None t)))"

definition append_service_operands :: "parsed_access_rule \<Rightarrow> uuid \<Rightarrow> uuid list \<Rightarrow> norm_state \<Rightarrow> exc + norm_state" where
  "append_service_operands rule rule_id services s =
     fold_r (\<lambda>(position, i).
       add_operand rule rule_id RO_SERVICE None (Some i) position
         (if truthy (pr_service_ref rule) then str_of (pr_service_ref rule) else pr_protocol rule)
         (Some (''protocol_operand='' @ protocol_kind_value (pr_operand_kind rule))))
       (List.enumerate 0 services) s"

definition materialize_rule ::
  "parsed_access_rule \<Rightarrow> (string \<times> nat) list \<times> norm_state \<Rightarrow> exc + (string \<times> nat) list \<times> norm_state" where
  "materialize_rule rule st =
     (case st of (seen, s) \<Rightarrow>
       bind_r (emit_rule_usage_issues rule s) (\<lambda>s.
       bind_r (emit_textual_duplicate_issue rule s) (\<lambda>s.
       bind_r (validate_protocol_operand rule s) (\<lambda>(blocker, s).
         (let s = s\<lparr>ns_protocol_blockers := AList.update (pr_rule_name rule) blocker (ns_protocol_blockers s)\<rparr>;
              (status, reasons, eligible) = resolve_rule_processing rule blocker;
              description = build_rule_metadata rule status reasons eligible;
              (key, seen) = build_rule_key (pr_rule_name rule) seen in
          bind_r (create_rule_with_trace rule key status description s) (\<lambda>(rule_id, s).
          bind_r (materialize_zone_operands rule rule_id s) (\<lambda>s.
          bind_r (materialize_address_operands rule rule_id s) (\<lambda>s.
          bind_r (ensure_services_for_rule rule s) (\<lambda>(services, s).
          bind_r (append_service_operands rule rule_id services s) (\<lambda>s.
            Inr (seen, s)))))))))))"


section \<open>The normalizer\<close>

definition initial_state ::
  "(nat \<Rightarrow> uuid) \<Rightarrow> (nat \<Rightarrow> timestamp) \<Rightarrow> string \<Rightarrow> string \<Rightarrow> uuid \<Rightarrow> norm_state" where
  "initial_state ids clock ncode version source =
     \<lparr>ns_ids = ids, ns_clock = clock, ns_next = 1, ns_snapshot_id = ids 0, ns_source_snapshot_id = source,
      ns_normalizer_code = ncode, ns_normalizer_version = version, ns_issues = [], ns_zones_by_key = [],
      ns_objects_by_key = [], ns_objects_by_id = [], ns_object_members = [], ns_trace_records = [], ns_rules = [],
      ns_operands = [], ns_protocol_blockers = [], ns_signatures = []\<rparr>"

definition register_sentinel_objects :: "norm_state \<Rightarrow> exc + norm_state" where
  "register_sentinel_objects s =
     bind_r (register_new (object_create (fresh_id s) (ns_snapshot_id s) ''addr:any'' OF_ADDR OK_ANY_ADDR ''any'') s) (\<lambda>s.
       register_new (object_create (fresh_id s) (ns_snapshot_id s) ''service:any'' OF_SERVICE OK_ANY_SERVICE ''any'') s)"

definition normalize_state :: "string parsed_config \<Rightarrow> norm_state \<Rightarrow> exc + norm_state" where
  "normalize_state parsed s =
     bind_r (register_sentinel_objects s) (\<lambda>s.
     bind_r (fold_r materialize_address_object (pc_address_objects parsed) s) (\<lambda>s.
     bind_r (fold_r materialize_address_group (pc_address_objects parsed) s) (\<lambda>s.
     bind_r (fold_r materialize_service_object (pc_service_objects parsed) s) (\<lambda>s.
     bind_r (fold_r materialize_service_group (pc_service_objects parsed) s) (\<lambda>s.
     bind_r (fold_r materialize_protocol_group (pc_service_objects parsed) s) (\<lambda>s.
     bind_r (fold_r materialize_rule (pc_rules parsed) ([], s)) (\<lambda>(_, s). Inr s)))))))"

definition command_of :: "norm_state \<Rightarrow> save_command" where
  "command_of s =
     \<lparr>sv_source_snapshot_id = ns_source_snapshot_id s, sv_normalizer_code = ns_normalizer_code s,
      sv_normalizer_version = ns_normalizer_version s, sv_zones = map snd (ns_zones_by_key s),
      sv_objects = map snd (ns_objects_by_id s), sv_object_members = ns_object_members s, sv_rules = ns_rules s,
      sv_operands = ns_operands s, sv_issues = ns_issues s\<rparr>"

definition normalize_config ::
  "(nat \<Rightarrow> uuid) \<Rightarrow> (nat \<Rightarrow> timestamp) \<Rightarrow> string \<Rightarrow> string \<Rightarrow> uuid \<Rightarrow> string parsed_config \<Rightarrow>
   exc + save_command \<times> trace_record list" where
  "normalize_config ids clock ncode version source parsed =
     bind_r (normalize_state parsed (initial_state ids clock ncode version source)) (\<lambda>s.
       Inr (command_of s, ns_trace_records s))"

end
