(* ===== verification/Asa_Invariant.thy ===== *)
theory Asa_Invariant
  imports Asa_Normalizer Canonical_Mapping "HOL-Library.Sublist"
begin

text \<open>
  The invariant of a normalization and a calculus of total correctness for its steps.

  \<open>runs m Q\<close>: the step \<open>m\<close> raises nothing and its result satisfies \<open>Q\<close>.  \<open>norm_ok\<close>:
  ids are unique, keys are unique and find their objects, references are resolved and typed.
  \<open>extends\<close>: nothing registered is lost.  \<open>steady\<close>: both, and no rule, operand or named address is
  added; every primitive step but these three is steady.
\<close>

section \<open>Total correctness\<close>

definition runs :: "'e + 'a \<Rightarrow> ('a \<Rightarrow> bool) \<Rightarrow> bool" where
  "runs m Q \<longleftrightarrow> (case m of Inl e \<Rightarrow> False | Inr x \<Rightarrow> Q x)"

lemma runs_Inr [simp]: "runs (Inr x) Q = Q x"
  by (simp add: runs_def)

lemma runs_Inl [simp]: "runs (Inl e) Q = False"
  by (simp add: runs_def)

lemma runs_bind [simp]: "runs (bind_r m f) Q = runs m (\<lambda>x. runs (f x) Q)"
  by (cases m) simp_all

lemma runs_mono: "runs m P \<Longrightarrow> (\<And>x. P x \<Longrightarrow> Q x) \<Longrightarrow> runs m Q"
  by (cases m) auto

lemma runs_D: "runs m Q \<Longrightarrow> \<exists>x. m = Inr x \<and> Q x"
  by (cases m) auto

lemma runs_fold:
  assumes "I s" "\<And>x s. x \<in> set xs \<Longrightarrow> I s \<Longrightarrow> runs (f x s) I"
  shows "runs (fold_r f xs s) I"
  using assms
proof (induction xs arbitrary: s)
  case (Cons x xs)
  have "runs (f x s) I" using Cons.prems by simp
  then show ?case by (simp, elim runs_mono) (use Cons in auto)
qed simp


section \<open>The invariant\<close>

definition ids_ok :: "norm_state \<Rightarrow> uuid list \<Rightarrow> bool" where
  "ids_ok s is \<longleftrightarrow> distinct is \<and> set is \<subseteq> ns_ids s ` {1..<ns_next s}"

text \<open>Kind and family of an object fit its key; only the sentinels stand for everything.\<close>

definition object_wf :: "canonical_object \<Rightarrow> bool" where
  "object_wf x \<longleftrightarrow>
     (let key = ko_object_key x; kind = ko_object_kind x; cidr = ko_cidr x in
      ko_object_family x = kind_family kind \<and>
      starts_with (if kind_family kind = OF_ADDR then ''addr:'' else ''service:'') key \<and>
      (kind = OK_ANY_ADDR \<longleftrightarrow> key = ''addr:any'') \<and> (kind = OK_ANY_SERVICE \<longleftrightarrow> key = ''service:any'') \<and>
      (starts_with ''addr:host:'' key \<longrightarrow> kind = OK_HOST \<and> cidr = Some (drop 10 key @ ''/32'')) \<and>
      (starts_with ''addr:net:'' key \<longrightarrow> kind = OK_SUBNET \<and> cidr = Some (drop 9 key)) \<and>
      (starts_with ''addr:unresolved:'' key \<longrightarrow> kind = OK_UNRESOLVED_ADDR))"

definition objects_ok :: "norm_state \<Rightarrow> bool" where
  "objects_ok s \<longleftrightarrow>
     ids_ok s (map fst (ns_objects_by_id s)) \<and> distinct (map fst (ns_objects_by_key s)) \<and>
     (\<forall>i x. map_of (ns_objects_by_id s) i = Some x \<longrightarrow>
        ko_id x = i \<and> object_wf x \<and> map_of (ns_objects_by_key s) (ko_object_key x) = Some i) \<and>
     (\<forall>k i. map_of (ns_objects_by_key s) k = Some i \<longrightarrow>
        (\<exists>x. map_of (ns_objects_by_id s) i = Some x \<and> ko_object_key x = k))"

text \<open>The object of a family with an id.\<close>

definition family_id :: "norm_state \<Rightarrow> object_family \<Rightarrow> uuid \<Rightarrow> bool" where
  "family_id s fam i \<longleftrightarrow> (\<exists>x. map_of (ns_objects_by_id s) i = Some x \<and> ko_object_family x = fam)"

definition zone_id :: "norm_state \<Rightarrow> uuid \<Rightarrow> bool" where
  "zone_id s i \<longleftrightarrow> (\<exists>k z. map_of (ns_zones_by_key s) k = Some z \<and> kz_id z = i)"

definition member_ok :: "norm_state \<Rightarrow> canonical_member \<Rightarrow> bool" where
  "member_ok s m \<longleftrightarrow> (\<exists>fam. family_id s fam (km_parent_object_id m) \<and> family_id s fam (km_child_object_id m))"

definition norm_operand_ok :: "norm_state \<Rightarrow> canonical_operand \<Rightarrow> bool" where
  "norm_operand_ok s p \<longleftrightarrow>
     kp_rule_id p \<in> kr_id ` set (ns_rules s) \<and>
     (if kp_operand_role p \<in> {RO_SRC_ZONE, RO_DST_ZONE} then
        kp_target_object_id p = None \<and> (\<exists>z. kp_target_zone_id p = Some z \<and> zone_id s z)
      else kp_target_zone_id p = None \<and>
        (\<exists>i. kp_target_object_id p = Some i \<and>
           family_id s (if kp_operand_role p = RO_SERVICE then OF_SERVICE else OF_ADDR) i))"

definition trace_ok :: "trace_record \<Rightarrow> bool" where
  "trace_ok t \<longleftrightarrow> 1 \<le> tr_line_start t \<and> tr_line_start t \<le> tr_line_end t"

definition zones_ok :: "norm_state \<Rightarrow> bool" where
  "zones_ok s \<longleftrightarrow>
     ids_ok s (map (kz_id \<circ> snd) (ns_zones_by_key s)) \<and> distinct (map fst (ns_zones_by_key s)) \<and>
     (\<forall>k z. map_of (ns_zones_by_key s) k = Some z \<longrightarrow> k = ''zone:'' @ kz_name z)"

definition members_ok :: "norm_state \<Rightarrow> bool" where
  "members_ok s \<longleftrightarrow> ids_ok s (map km_id (ns_object_members s)) \<and> (\<forall>m \<in> set (ns_object_members s). member_ok s m)"

definition operands_ok :: "norm_state \<Rightarrow> bool" where
  "operands_ok s \<longleftrightarrow> ids_ok s (map kp_id (ns_operands s)) \<and> (\<forall>p \<in> set (ns_operands s). norm_operand_ok s p)"

definition traces_ok :: "norm_state \<Rightarrow> bool" where
  "traces_ok s \<longleftrightarrow> ids_ok s (map tr_id (ns_trace_records s)) \<and>
     (\<forall>t \<in> set (ns_trace_records s). trace_ok t \<and> tr_source_snapshot_id t = ns_source_snapshot_id s)"

definition norm_ok :: "norm_state \<Rightarrow> bool" where
  "norm_ok s \<longleftrightarrow>
     inj (ns_ids s) \<and> 1 \<le> ns_next s \<and> objects_ok s \<and> zones_ok s \<and> members_ok s \<and>
     ids_ok s (map kr_id (ns_rules s)) \<and> operands_ok s \<and> ids_ok s (map ki_id (ns_issues s)) \<and> traces_ok s"

lemma norm_okD:
  assumes "norm_ok s"
  shows "inj (ns_ids s)" "1 \<le> ns_next s" "objects_ok s" "zones_ok s" "members_ok s"
    "ids_ok s (map kr_id (ns_rules s))" "operands_ok s" "ids_ok s (map ki_id (ns_issues s))" "traces_ok s"
  using assms unfolding norm_ok_def by blast+


section \<open>Growing states\<close>

definition extends :: "norm_state \<Rightarrow> norm_state \<Rightarrow> bool" where
  "extends s t \<longleftrightarrow>
     ns_ids t = ns_ids s \<and> ns_snapshot_id t = ns_snapshot_id s \<and> ns_source_snapshot_id t = ns_source_snapshot_id s \<and>
     ns_normalizer_code t = ns_normalizer_code s \<and> ns_normalizer_version t = ns_normalizer_version s \<and>
     ns_next s \<le> ns_next t \<and>
     map_of (ns_objects_by_key s) \<subseteq>\<^sub>m map_of (ns_objects_by_key t) \<and>
     map_of (ns_objects_by_id s) \<subseteq>\<^sub>m map_of (ns_objects_by_id t) \<and>
     map_of (ns_zones_by_key s) \<subseteq>\<^sub>m map_of (ns_zones_by_key t) \<and>
     prefix (ns_rules s) (ns_rules t) \<and> prefix (ns_operands s) (ns_operands t)"

lemma extends_refl [simp]: "extends s s"
  by (simp add: extends_def)

lemma extends_trans: "extends s t \<Longrightarrow> extends t u \<Longrightarrow> extends s u"
  unfolding extends_def by (auto intro: map_le_trans)

lemma extends_ids: "extends s t \<Longrightarrow> ns_ids t = ns_ids s" "extends s t \<Longrightarrow> ns_next s \<le> ns_next t"
  by (simp_all add: extends_def)

lemma extends_key: "extends s t \<Longrightarrow> map_of (ns_objects_by_key s) k = Some i \<Longrightarrow> map_of (ns_objects_by_key t) k = Some i"
  by (auto simp: extends_def map_le_def dom_def)

lemma extends_id: "extends s t \<Longrightarrow> map_of (ns_objects_by_id s) i = Some x \<Longrightarrow> map_of (ns_objects_by_id t) i = Some x"
  by (auto simp: extends_def map_le_def dom_def)

lemma extends_zone: "extends s t \<Longrightarrow> zone_id s i \<Longrightarrow> zone_id t i"
  unfolding zone_id_def extends_def map_le_def by (metis domI)

lemma extends_family: "extends s t \<Longrightarrow> family_id s fam i \<Longrightarrow> family_id t fam i"
  unfolding family_id_def using extends_id by blast

lemma extends_has_key: "extends s t \<Longrightarrow> has_key s k \<Longrightarrow> has_key t k"
  unfolding has_key_def using extends_key by blast

lemma extends_rules: "extends s t \<Longrightarrow> set (ns_rules s) \<subseteq> set (ns_rules t)"
  by (auto simp: extends_def dest: set_mono_prefix)

lemma extends_member: "extends s t \<Longrightarrow> member_ok s m \<Longrightarrow> member_ok t m"
  unfolding member_ok_def using extends_family by blast

lemma extends_operand: "extends s t \<Longrightarrow> norm_operand_ok s p \<Longrightarrow> norm_operand_ok t p"
  unfolding norm_operand_ok_def using extends_family [of s t] extends_zone [of s t] extends_rules [of s t]
  by (auto split: if_splits)

lemma ids_ok_extends: "ids_ok s is \<Longrightarrow> extends s t \<Longrightarrow> ids_ok t is"
  by (auto simp: ids_ok_def extends_def)


section \<open>Fresh ids\<close>

lemma fresh_new: "norm_ok s \<Longrightarrow> fresh_id s \<notin> ns_ids s ` {1..<ns_next s}"
  by (auto simp: fresh_id_def inj_eq [OF norm_okD(1)])

lemma ids_ok_fresh:
  "norm_ok s \<Longrightarrow> ids_ok s is \<Longrightarrow> extends s t \<Longrightarrow> ns_next t = Suc (ns_next s) \<Longrightarrow> ids_ok t (is @ [fresh_id s])"
  using fresh_new [of s] norm_okD(2) [of s] by (auto simp: ids_ok_def fresh_id_def extends_def)

lemma drawn_simps [simp]:
  "ns_ids (drawn s) = ns_ids s" "ns_clock (drawn s) = ns_clock s" "ns_next (drawn s) = Suc (ns_next s)"
  "ns_snapshot_id (drawn s) = ns_snapshot_id s" "ns_source_snapshot_id (drawn s) = ns_source_snapshot_id s"
  "ns_normalizer_code (drawn s) = ns_normalizer_code s" "ns_normalizer_version (drawn s) = ns_normalizer_version s"
  "ns_issues (drawn s) = ns_issues s" "ns_zones_by_key (drawn s) = ns_zones_by_key s"
  "ns_objects_by_key (drawn s) = ns_objects_by_key s" "ns_objects_by_id (drawn s) = ns_objects_by_id s"
  "ns_object_members (drawn s) = ns_object_members s" "ns_trace_records (drawn s) = ns_trace_records s"
  "ns_rules (drawn s) = ns_rules s" "ns_operands (drawn s) = ns_operands s"
  "ns_protocol_blockers (drawn s) = ns_protocol_blockers s" "ns_signatures (drawn s) = ns_signatures s"
  by (simp_all add: drawn_def)

text \<open>The parts of the invariant that a change does not touch.\<close>

lemma objects_ok_same:
  "objects_ok s \<Longrightarrow> extends s t \<Longrightarrow> ns_objects_by_key t = ns_objects_by_key s \<Longrightarrow>
     ns_objects_by_id t = ns_objects_by_id s \<Longrightarrow> objects_ok t"
  unfolding objects_ok_def using ids_ok_extends by auto

lemma zones_ok_same: "zones_ok s \<Longrightarrow> extends s t \<Longrightarrow> ns_zones_by_key t = ns_zones_by_key s \<Longrightarrow> zones_ok t"
  unfolding zones_ok_def using ids_ok_extends by auto

lemma members_ok_same: "members_ok s \<Longrightarrow> extends s t \<Longrightarrow> ns_object_members t = ns_object_members s \<Longrightarrow> members_ok t"
  unfolding members_ok_def using ids_ok_extends extends_member by metis

lemma operands_ok_same: "operands_ok s \<Longrightarrow> extends s t \<Longrightarrow> ns_operands t = ns_operands s \<Longrightarrow> operands_ok t"
  unfolding operands_ok_def using ids_ok_extends extends_operand by metis

lemma traces_ok_same: "traces_ok s \<Longrightarrow> extends s t \<Longrightarrow> ns_trace_records t = ns_trace_records s \<Longrightarrow> traces_ok t"
  unfolding traces_ok_def using ids_ok_extends by (metis extends_def)

lemma norm_ok_step:
  assumes "norm_ok s" "extends s t"
    and "ns_objects_by_key t = ns_objects_by_key s \<and> ns_objects_by_id t = ns_objects_by_id s \<or> objects_ok t"
    and "ns_zones_by_key t = ns_zones_by_key s \<or> zones_ok t"
    and "ns_object_members t = ns_object_members s \<or> members_ok t"
    and "ns_rules t = ns_rules s \<or> ids_ok t (map kr_id (ns_rules t))"
    and "ns_operands t = ns_operands s \<or> operands_ok t"
    and "ns_issues t = ns_issues s \<or> ids_ok t (map ki_id (ns_issues t))"
    and "ns_trace_records t = ns_trace_records s \<or> traces_ok t"
  shows "norm_ok t"
  unfolding norm_ok_def
proof (intro conjI)
  note k = norm_okD [OF assms(1)]
  show "inj (ns_ids t)" "1 \<le> ns_next t" using k(1,2) extends_ids [OF assms(2)] by simp_all
  show "objects_ok t" using assms(3) objects_ok_same [OF k(3) assms(2)] by blast
  show "zones_ok t" using assms(4) zones_ok_same [OF k(4) assms(2)] by blast
  show "members_ok t" using assms(5) members_ok_same [OF k(5) assms(2)] by blast
  show "ids_ok t (map kr_id (ns_rules t))" using assms(6) ids_ok_extends [OF k(6) assms(2)] by auto
  show "operands_ok t" using assms(7) operands_ok_same [OF k(7) assms(2)] by blast
  show "ids_ok t (map ki_id (ns_issues t))" using assms(8) ids_ok_extends [OF k(8) assms(2)] by auto
  show "traces_ok t" using assms(9) traces_ok_same [OF k(9) assms(2)] by blast
qed


section \<open>Steady steps\<close>

text \<open>The names of addresses that an object or a group defines; other keys are the builders' own.\<close>

definition plain_name :: "string \<Rightarrow> bool" where
  "plain_name n \<longleftrightarrow>
     n \<noteq> ''any'' \<and> \<not> starts_with ''host:'' n \<and> \<not> starts_with ''net:'' n \<and> \<not> starts_with ''unresolved:'' n"

definition addr_names :: "norm_state \<Rightarrow> string set" where
  "addr_names s = {n. plain_name n \<and> has_key s (''addr:'' @ n)}"

definition steady :: "norm_state \<Rightarrow> norm_state \<Rightarrow> bool" where
  "steady s t \<longleftrightarrow>
     norm_ok t \<and> extends s t \<and> ns_rules t = ns_rules s \<and> ns_operands t = ns_operands s \<and> addr_names t = addr_names s"

lemma steady_refl: "norm_ok s \<Longrightarrow> steady s s"
  by (simp add: steady_def)

lemma steady_trans: "steady s t \<Longrightarrow> steady t u \<Longrightarrow> steady s u"
  unfolding steady_def using extends_trans by metis

lemma steadyD: "steady s t \<Longrightarrow> norm_ok t" "steady s t \<Longrightarrow> extends s t"
  by (simp_all add: steady_def)

lemma runs_steady:
  "runs m (steady s) \<Longrightarrow> (\<And>t. steady s t \<Longrightarrow> runs (f t) (steady t)) \<Longrightarrow> runs (bind_r m f) (steady s)"
  by (simp, erule runs_mono) (blast intro: runs_mono steady_trans)

lemma steady_fold:
  assumes "norm_ok s" "\<And>x t. x \<in> set xs \<Longrightarrow> steady s t \<Longrightarrow> runs (f x t) (steady t)"
  shows "runs (fold_r f xs s) (steady s)"
  by (rule runs_fold [where I = "steady s"]) (blast intro: assms steady_refl runs_mono steady_trans)+

text \<open>A trace or an issue.\<close>

lemma drawn_extends: "extends s (drawn s)"
  by (simp add: extends_def)

lemma emit_trace_steady:
  assumes "norm_ok s" "line_start \<le> line_end"
  shows "runs (emit_trace line_start line_end kind i fragment role note s) (steady s)"
proof (cases "line_start < 1")
  case True
  with assms show ?thesis by (simp add: emit_trace_def steady_refl)
next
  case False
  note tr = norm_okD(9) [OF assms(1), unfolded traces_ok_def]
  obtain r where r: "emit_trace line_start line_end kind i fragment role note s =
      Inr ((drawn s)\<lparr>ns_trace_records := ns_trace_records s @ [r]\<rparr>)" "tr_id r = fresh_id s" "trace_ok r"
    "tr_source_snapshot_id r = ns_source_snapshot_id s"
    using False assms(2) by (simp add: emit_trace_def trace_ok_def)
  let ?t = "(drawn s)\<lparr>ns_trace_records := ns_trace_records s @ [r]\<rparr>"
  have e: "extends s ?t" by (simp add: extends_def)
  have "ns_source_snapshot_id ?t = ns_source_snapshot_id s" by (simp add: drawn_def)
  then have "traces_ok ?t"
    unfolding traces_ok_def using ids_ok_fresh [OF assms(1) _ e] tr r(2-4) by auto
  then have "norm_ok ?t" by (intro norm_ok_step [OF assms(1) e]) simp_all
  with e show ?thesis by (simp add: r(1) steady_def addr_names_def has_key_def)
qed

lemma emit_issue_steady:
  assumes "norm_ok s" "line_start \<le> line_end" "0 \<le> line_start"
  shows "runs (emit_issue entity icode message key line_start line_end fragment reason s) (steady s)"
proof -
  have *: "steady s t" if "t = (drawn s)\<lparr>ns_issues := ns_issues s @ [x]\<rparr>" "ki_id x = fresh_id s" for x t
  proof -
    have e: "extends s t" by (simp add: extends_def that(1))
    have "ids_ok t (map ki_id (ns_issues t))"
      using ids_ok_fresh [OF assms(1) norm_okD(8) [OF assms(1)] e] that by simp
    then have "norm_ok t" by (intro norm_ok_step [OF assms(1) e]) (simp_all add: that(1))
    with e show ?thesis by (simp add: steady_def addr_names_def has_key_def that(1))
  qed
  obtain x first second where x: "emit_issue entity icode message key line_start line_end fragment reason s =
      emit_trace first second TK_ISSUE (fresh_id s) fragment None (Some (''issue: '' @ icode))
        ((drawn s)\<lparr>ns_issues := ns_issues s @ [x]\<rparr>)" "ki_id x = fresh_id s" "first \<le> second"
    using assms(2,3) unfolding emit_issue_def Let_def by (auto split: if_splits)
  let ?t = "(drawn s)\<lparr>ns_issues := ns_issues s @ [x]\<rparr>"
  have t: "steady s ?t" using * x(2) by blast
  show ?thesis unfolding x(1)
    by (rule runs_mono [OF emit_trace_steady [OF steadyD(1) [OF t] x(3)]]) (rule steady_trans [OF t])
qed


section \<open>Registering an object\<close>

lemma alist_update_new: "map_of d k = None \<Longrightarrow> AList.update k v d = d @ [(k, v)]"
  by (induction d) (auto split: if_splits)

lemma id_of_key_found: "norm_ok s \<Longrightarrow> map_of (ns_objects_by_key s) k = Some i \<Longrightarrow>
    \<exists>x. map_of (ns_objects_by_id s) i = Some x \<and> ko_object_key x = k \<and> ko_id x = i \<and> object_wf x"
  using norm_okD(3) [of s] unfolding objects_ok_def by metis

lemma object_wf_family:
  assumes "object_wf x"
  shows "starts_with ''addr:'' (ko_object_key x) \<Longrightarrow> ko_object_family x = OF_ADDR"
    "starts_with ''service:'' (ko_object_key x) \<Longrightarrow> ko_object_family x = OF_SERVICE"
proof -
  have n: "\<not> (starts_with ''addr:'' k \<and> starts_with ''service:'' k)" for k by (cases k) (auto simp: starts_with_def)
  have f: "ko_object_family x = kind_family (ko_object_kind x)"
    "starts_with (if kind_family (ko_object_kind x) = OF_ADDR then ''addr:'' else ''service:'') (ko_object_key x)"
    using assms unfolding object_wf_def Let_def by blast+
  show "starts_with ''addr:'' (ko_object_key x) \<Longrightarrow> ko_object_family x = OF_ADDR"
    "starts_with ''service:'' (ko_object_key x) \<Longrightarrow> ko_object_family x = OF_SERVICE"
    using f n by (cases "kind_family (ko_object_kind x)"; fastforce)+
qed

lemma key_family:
  assumes "norm_ok s" "map_of (ns_objects_by_key s) k = Some i"
  shows "starts_with ''addr:'' k \<Longrightarrow> family_id s OF_ADDR i" "starts_with ''service:'' k \<Longrightarrow> family_id s OF_SERVICE i"
  using id_of_key_found [OF assms] object_wf_family unfolding family_id_def by blast+

lemma register_new_ok:
  assumes "norm_ok s" "ko_id x = fresh_id s" "object_wf x"
  shows "runs (register_new x s) (\<lambda>t. norm_ok t \<and> extends s t \<and> ns_rules t = ns_rules s \<and> ns_operands t = ns_operands s \<and>
    (\<forall>k. has_key t k \<longleftrightarrow> k = ko_object_key x \<or> has_key s k))"
proof (cases "map_of (ns_objects_by_key s) (ko_object_key x)")
  case (Some i)
  from id_of_key_found [OF assms(1) this] obtain y where y: "map_of (ns_objects_by_id s) i = Some y" by blast
  have "norm_ok (drawn s)" by (rule norm_ok_step [OF assms(1) drawn_extends]) simp_all
  with Some y show ?thesis
    by (auto simp: register_new_def register_def object_of_id_def drawn_extends has_key_def)
next
  case None
  let ?i = "fresh_id s"
  let ?t = "(drawn s)\<lparr>ns_objects_by_id := ns_objects_by_id s @ [(?i, x)],
      ns_objects_by_key := ns_objects_by_key s @ [(ko_object_key x, ?i)]\<rparr>"
  note ok = norm_okD(3) [OF assms(1), unfolded objects_ok_def]
  have "?i \<notin> set (map fst (ns_objects_by_id s))"
    using ok fresh_new [OF assms(1)] unfolding ids_ok_def by blast
  then have new: "map_of (ns_objects_by_id s) ?i = None" by (simp add: map_of_eq_None_iff)
  have reg: "register_new x s = Inr ?t"
    using None new by (simp add: register_new_def register_def alist_update_new assms(2))
  have ext: "extends s ?t" by (auto simp: extends_def map_le_def map_add_def split: option.split)
  have "objects_ok ?t"
    unfolding objects_ok_def
  proof (intro conjI)
    show "ids_ok ?t (map fst (ns_objects_by_id ?t))"
      using ids_ok_fresh [OF assms(1) _ ext] ok by simp
    show "distinct (map fst (ns_objects_by_key ?t))" using ok None by (simp add: map_of_eq_None_iff)
    show "\<forall>i y. map_of (ns_objects_by_id ?t) i = Some y \<longrightarrow>
        ko_id y = i \<and> object_wf y \<and> map_of (ns_objects_by_key ?t) (ko_object_key y) = Some i"
      using ok None new assms(2,3) by (auto simp: map_add_def split: option.splits if_splits)
    show "\<forall>k i. map_of (ns_objects_by_key ?t) k = Some i \<longrightarrow>
        (\<exists>y. map_of (ns_objects_by_id ?t) i = Some y \<and> ko_object_key y = k)"
      using ok None new by (fastforce simp: map_add_def split: option.splits if_splits)
  qed
  then have "norm_ok ?t" by (intro norm_ok_step [OF assms(1) ext]) simp_all
  with ext show ?thesis unfolding reg by (auto simp: has_key_def map_add_def split: option.splits)
qed

text \<open>Keys that a builder makes.\<close>

definition builder_key :: "string \<Rightarrow> bool" where
  "builder_key k \<longleftrightarrow> \<not> (starts_with ''addr:'' k \<and> plain_name (drop 5 k))"

lemma builder_keys [simp]:
  "builder_key (''addr:host:'' @ n)" "builder_key (''addr:net:'' @ n)" "builder_key (''addr:unresolved:'' @ n)"
  "builder_key (''service:'' @ n)" "builder_key ''addr:any''"
  by (simp_all add: builder_key_def plain_name_def starts_with_def)

lemma builder_key_plain: "builder_key (''addr:'' @ n) \<Longrightarrow> \<not> plain_name n"
  by (simp add: builder_key_def starts_with_def)

lemma register_new_steady:
  assumes "norm_ok s" "ko_id x = fresh_id s" "object_wf x" "builder_key (ko_object_key x)"
  shows "runs (register_new x s) (\<lambda>t. steady s t \<and> has_key t (ko_object_key x))"
  using register_new_ok [OF assms(1-3)]
proof (rule runs_mono)
  fix t assume t: "norm_ok t \<and> extends s t \<and> ns_rules t = ns_rules s \<and> ns_operands t = ns_operands s \<and>
    (\<forall>k. has_key t k \<longleftrightarrow> k = ko_object_key x \<or> has_key s k)"
  then have "addr_names t = addr_names s"
    using builder_key_plain assms(4) unfolding addr_names_def by (metis (lifting))
  with t show "steady s t \<and> has_key t (ko_object_key x)" by (simp add: steady_def)
qed

lemma ensure_object_steady:
  assumes "norm_ok s" "mk (fresh_id s) = x" "ko_id x = fresh_id s" "object_wf x" "ko_object_key x = key" "builder_key key"
    and "\<And>t. steady s t \<Longrightarrow> runs (emit (fresh_id s) t) (steady t)"
  shows "runs (ensure_object key mk emit s) (\<lambda>(i, t). steady s t \<and> map_of (ns_objects_by_key t) key = Some i)"
proof (cases "has_key s key")
  case True
  then show ?thesis
    using assms(1) by (auto simp: ensure_object_def id_of_key_def has_key_def steady_refl)
next
  case False
  have "runs (register_new x s) (\<lambda>t. runs (emit (fresh_id s) t) (\<lambda>u. steady s u \<and> has_key u key))"
    using register_new_steady [OF assms(1,3,4)] assms(5,6)
    by (auto elim!: runs_mono intro!: runs_mono [OF assms(7)] intro: steady_trans dest: steadyD(2) extends_has_key)
  then show ?thesis
    unfolding ensure_object_def using False assms(2)
    by (simp, elim runs_mono) (auto simp: id_of_key_def has_key_def)
qed

end
