(* ===== verification/Asa_Steps.thy ===== *)
theory Asa_Steps
  imports Asa_Invariant
begin

text \<open>
  Every step of the normalizer below the rules is total and steady: edges of groups, references of
  members and of operands (\<open>ensure_addr_denotes\<close>: the object found is the one that the reference
  denotes), and services (\<open>rule_services_ok\<close>).
\<close>

section \<open>Edges\<close>

lemma attach_edge_steady:
  assumes "norm_ok s" "family_id s fam parent" "family_id s fam child"
  shows "runs (attach_edge parent child position line fragment s) (steady s)"
proof -
  let ?m = "\<lparr>km_id = fresh_id s, km_parent_object_id = parent, km_child_object_id = child, km_position = position\<rparr>"
  let ?t = "(drawn s)\<lparr>ns_object_members := ns_object_members s @ [?m]\<rparr>"
  note m = norm_okD(5) [OF assms(1), unfolded members_ok_def]
  have e: "extends s ?t" by (simp add: extends_def)
  have new: "member_ok ?t ?m"
    unfolding member_ok_def using extends_family [OF e] assms(2,3) by auto
  have "members_ok ?t"
    unfolding members_ok_def using ids_ok_fresh [OF assms(1) _ e] m new extends_member [OF e] by auto
  then have ok: "norm_ok ?t" by (intro norm_ok_step [OF assms(1) e]) simp_all
  then have "steady s ?t" using e by (simp add: steady_def addr_names_def has_key_def)
  then show ?thesis
    unfolding attach_edge_def by (intro runs_mono [OF emit_trace_steady [OF ok]]) (auto intro: steady_trans)
qed

lemma emit_new_objects_steady:
  assumes "norm_ok s"
  shows "runs (emit_new_objects earlier line fragment note s) (steady s)"
  unfolding emit_new_objects_def
  by (rule steady_fold [OF assms]) (auto intro!: emit_trace_steady dest: steadyD)


section \<open>Address references\<close>

definition ref_ok :: "string \<Rightarrow> bool" where
  "ref_ok r \<longleftrightarrow> (starts_with ''net:'' r \<longrightarrow> CHR ''/'' \<in> set (drop 4 r))"

lemma object_create_simps [simp]:
  "ko_id (object_create i snap key fam kind name) = i" "ko_object_key (object_create i snap key fam kind name) = key"
  "ko_object_family (object_create i snap key fam kind name) = fam"
  "ko_object_kind (object_create i snap key fam kind name) = kind" "ko_cidr (object_create i snap key fam kind name) = None"
  by (simp_all add: object_create_def)

lemmas object_wf_defs = object_wf_def kind_family_def addr_kind_def starts_with_def

lemma host_object_wf [simp]: "object_wf (host_object i snap (''addr:host:'' @ ip) name ip)"
  by (simp add: object_wf_defs host_object_def)

lemma subnet_object_wf [simp]: "object_wf (subnet_object i snap (''addr:net:'' @ cidr) name cidr)"
  by (simp add: object_wf_defs subnet_object_def)

lemma unresolved_addr_wf [simp]: "object_wf (unresolved_addr i snap (''addr:unresolved:'' @ ref) name description)"
  by (simp add: object_wf_defs unresolved_addr_def)

text \<open>The simplifier writes a literal as single characters.\<close>

lemmas literal_keys [simp] = host_object_wf [unfolded append_Cons append_Nil] subnet_object_wf [unfolded append_Cons append_Nil]
  unresolved_addr_wf [unfolded append_Cons append_Nil] builder_keys [unfolded append_Cons append_Nil]

lemma address_objects_simps [simp]:
  "ko_id (host_object i snap key name ip) = i" "ko_object_key (host_object i snap key name ip) = key"
  "ko_id (subnet_object i snap key name ip) = i" "ko_object_key (subnet_object i snap key name ip) = key"
  "ko_id (unresolved_addr i snap key name d) = i" "ko_object_key (unresolved_addr i snap key name d) = key"
  by (simp_all add: host_object_def subnet_object_def unresolved_addr_def)

lemma split_subnet_ok:
  assumes "ref_ok ref" "starts_with ''net:'' ref"
  shows "split_subnet ref = Inr (split_once (CHR ''/'') (drop 4 ref))"
  using assms by (simp add: ref_ok_def split_subnet_def remove_prefix_def eval_nat_numeral)

lemma resolve_key_steady:
  assumes "norm_ok s" "mk (fresh_id s) = x" "ko_id x = fresh_id s" "object_wf x" "ko_object_key x = key" "builder_key key"
  shows "runs (resolve_key key mk s) (\<lambda>(k, t). steady s t \<and> has_key t key \<and> k = key)"
  using register_new_steady [OF assms(1,3,4)] assms
  by (cases "has_key s key") (auto simp: resolve_key_def steady_refl elim: runs_mono)

lemma resolve_member_ref_steady:
  assumes "norm_ok s" "ref_ok ref"
  shows "runs (resolve_member_ref ref s) (\<lambda>(key, t). steady s t \<and> has_key t key \<and> starts_with ''addr:'' key)"
proof -
  have key: "runs (resolve_key key mk s) (\<lambda>(k, t). steady s t \<and> has_key t k \<and> starts_with ''addr:'' k)"
    if "ko_id (mk (fresh_id s)) = fresh_id s" "object_wf (mk (fresh_id s))" "ko_object_key (mk (fresh_id s)) = key"
      "builder_key key" "starts_with ''addr:'' key" for key mk
    by (rule runs_mono [OF resolve_key_steady [where mk = mk and x = "mk (fresh_id s)"]]) (use assms that in auto)
  have un: "runs (resolve_unresolved_member ref s) (\<lambda>(k, t). steady s t \<and> has_key t k \<and> starts_with ''addr:'' k)"
    unfolding resolve_unresolved_member_def Let_def by (rule key) (simp_all add: starts_with_def)
  show ?thesis
  proof (cases "starts_with ''net:'' ref \<and> \<not> starts_with ''host:'' ref")
    case True
    obtain ip m where sp: "split_once (CHR ''/'') (drop 4 ref) = (ip, m)" by force
    show ?thesis
    proof (cases "mask_to_prefix m")
      case None
      with True un sp split_subnet_ok [OF assms(2)] show ?thesis by (simp add: resolve_member_ref_def)
    next
      case (Some n)
      have "runs (resolve_key (''addr:net:'' @ ip @ ''/'' @ nat_str n)
          (\<lambda>i. subnet_object i (ns_snapshot_id s) (''addr:net:'' @ ip @ ''/'' @ nat_str n) (ip @ ''/'' @ nat_str n) (ip @ ''/'' @ nat_str n)) s)
          (\<lambda>(k, t). steady s t \<and> has_key t k \<and> starts_with ''addr:'' k)"
        by (rule key) (simp_all add: starts_with_def)
      with True Some sp split_subnet_ok [OF assms(2)] show ?thesis
        by (simp only: resolve_member_ref_def) (simp add: Let_def)
    qed
  next
    case False
    have "runs (resolve_key (''addr:host:'' @ ip) (\<lambda>i. host_object i (ns_snapshot_id s) (''addr:host:'' @ ip) ip ip) s)
        (\<lambda>(k, t). steady s t \<and> has_key t k \<and> starts_with ''addr:'' k)" for ip
      by (rule key) (simp_all add: starts_with_def)
    moreover have "starts_with ''addr:'' (''addr:'' @ ref)" by (simp add: starts_with_def)
    ultimately show ?thesis using False un steady_refl [OF assms(1)]
      by (simp only: resolve_member_ref_def Let_def) (simp split: if_splits)
  qed
qed


text \<open>The object that a reference of a rule denotes, for the names that the configuration defines.\<close>

definition denotes :: "string set \<Rightarrow> string \<Rightarrow> canonical_object \<Rightarrow> bool" where
  "denotes N ref x \<longleftrightarrow>
     (if ref = ''any'' then ko_object_kind x = OK_ANY_ADDR
      else if starts_with ''host:'' ref then ko_object_kind x = OK_HOST \<and> ko_cidr x = Some (drop 5 ref @ ''/32'')
      else if starts_with ''net:'' ref then
        (let (ip, m) = split_once (CHR ''/'') (drop 4 ref) in
         case mask_to_prefix m of
           None \<Rightarrow> ko_object_kind x = OK_UNRESOLVED_ADDR
         | Some n \<Rightarrow> ko_object_kind x = OK_SUBNET \<and> ko_cidr x = Some (ip @ ''/'' @ nat_str n))
      else if ref \<in> N then ko_object_key x = ''addr:'' @ ref
      else ko_object_kind x = OK_UNRESOLVED_ADDR)"

definition found :: "norm_state \<Rightarrow> string \<Rightarrow> uuid \<Rightarrow> bool" where
  "found s ref i \<longleftrightarrow> (\<exists>x. map_of (ns_objects_by_id s) i = Some x \<and> ko_id x = i \<and> ko_object_family x = OF_ADDR \<and>
     denotes (addr_names s) ref x)"

lemma object_wf_keys:
  assumes "object_wf x"
  shows "ko_object_key x = ''addr:any'' \<Longrightarrow> ko_object_kind x = OK_ANY_ADDR"
    "ko_object_key x = ''addr:host:'' @ ip \<Longrightarrow> ko_object_kind x = OK_HOST \<and> ko_cidr x = Some (ip @ ''/32'')"
    "ko_object_key x = ''addr:net:'' @ c \<Longrightarrow> ko_object_kind x = OK_SUBNET \<and> ko_cidr x = Some c"
    "ko_object_key x = ''addr:unresolved:'' @ r \<Longrightarrow> ko_object_kind x = OK_UNRESOLVED_ADDR"
  using assms by (auto simp: object_wf_def starts_with_def Let_def)

lemma foundI:
  assumes "norm_ok s" "map_of (ns_objects_by_key s) (''addr:'' @ k) = Some i"
    and "\<And>x. object_wf x \<Longrightarrow> ko_object_key x = ''addr:'' @ k \<Longrightarrow> denotes (addr_names s) ref x"
  shows "found s ref i"
proof -
  from id_of_key_found [OF assms(1,2)] obtain x where
    x: "map_of (ns_objects_by_id s) i = Some x" "ko_object_key x = ''addr:'' @ k" "ko_id x = i" "object_wf x" by blast
  have "starts_with ''addr:'' (ko_object_key x)" by (simp add: x(2) starts_with_def)
  with x object_wf_family(1) assms(3) show ?thesis unfolding found_def by blast
qed

lemma operand_trace_steady: "norm_ok s \<Longrightarrow> runs (operand_trace line fragment role note i s) (steady s)"
  unfolding operand_trace_def by (rule emit_trace_steady) simp_all

lemma ensure_unresolved_steady:
  assumes "norm_ok s" "0 \<le> line"
  shows "runs (ensure_unresolved_ref ref line role s)
    (\<lambda>(i, t). steady s t \<and> map_of (ns_objects_by_key t) (''addr:unresolved:'' @ ref) = Some i)"
  unfolding ensure_unresolved_ref_def Let_def
  by (rule ensure_object_steady [OF assms(1) refl])
    (use assms in \<open>auto intro!: runs_mono [OF operand_trace_steady] runs_mono [OF emit_issue_steady] intro: steady_trans dest: steadyD\<close>)

lemma ensure_host_steady:
  assumes "norm_ok s" "starts_with ''host:'' ref"
  shows "runs (ensure_host_ref ref line role s)
    (\<lambda>(i, t). steady s t \<and> map_of (ns_objects_by_key t) (''addr:host:'' @ drop 5 ref) = Some i)"
proof -
  have "remove_prefix ''host:'' ref = drop 5 ref" using assms(2) by (simp add: remove_prefix_def eval_nat_numeral)
  then show ?thesis unfolding ensure_host_ref_def Let_def
    by (simp only:) (rule ensure_object_steady [OF assms(1) refl], use operand_trace_steady in \<open>auto dest: steadyD\<close>)
qed

lemma ensure_subnet_steady:
  assumes "norm_ok s" "starts_with ''net:'' ref" "ref_ok ref" "split_once (CHR ''/'') (drop 4 ref) = (ip, m)" "0 \<le> line"
  shows "runs (ensure_subnet_ref ref line role s) (\<lambda>(i, t). steady s t \<and>
    map_of (ns_objects_by_key t) (case mask_to_prefix m of None \<Rightarrow> ''addr:unresolved:'' @ ref
      | Some n \<Rightarrow> ''addr:net:'' @ ip @ ''/'' @ nat_str n) = Some i)"
proof (cases "mask_to_prefix m")
  case None
  with ensure_unresolved_steady [OF assms(1,5)] show ?thesis
    by (simp add: ensure_subnet_ref_def split_subnet_ok [OF assms(3,2)] assms(4))
next
  case (Some n)
  have "runs (ensure_object (''addr:net:'' @ c) (\<lambda>i. subnet_object i (ns_snapshot_id s) (''addr:net:'' @ c) c c)
      (operand_trace line c role ''inline subnet materialized from ACL operand'') s)
      (\<lambda>(i, t). steady s t \<and> map_of (ns_objects_by_key t) (''addr:net:'' @ c) = Some i)" for c
    by (rule ensure_object_steady [OF assms(1) refl]) (use operand_trace_steady in \<open>auto dest: steadyD\<close>)
  with Some show ?thesis
    by (simp only: ensure_subnet_ref_def split_subnet_ok [OF assms(3,2)] assms(4) bind_r_simps prod.case option.case Let_def)
qed

lemma found_unresolved:
  assumes "norm_ok t" "map_of (ns_objects_by_key t) (''addr:unresolved:'' @ ref) = Some i"
    and "ref \<noteq> ''any''" "\<not> starts_with ''host:'' ref"
    and "starts_with ''net:'' ref \<Longrightarrow> mask_to_prefix (snd (split_once (CHR ''/'') (drop 4 ref))) = None"
    and "\<not> starts_with ''net:'' ref \<Longrightarrow> ref \<notin> addr_names t"
  shows "found t ref i"
proof (rule foundI [where k = "''unresolved:'' @ ref"])
  fix x assume "object_wf x" "ko_object_key x = ''addr:'' @ ''unresolved:'' @ ref"
  then have "ko_object_kind x = OK_UNRESOLVED_ADDR" using object_wf_keys(4) by simp
  then show "denotes (addr_names t) ref x"
    using assms(3-6) by (auto simp: denotes_def split: prod.split option.split)
qed (use assms in simp_all)

lemma found_named:
  assumes "norm_ok s" "map_of (ns_objects_by_key s) (''addr:'' @ ref) = Some i"
    and "ref \<noteq> ''any''" "\<not> starts_with ''host:'' ref" "\<not> starts_with ''net:'' ref"
  shows "found s ref i"
proof (rule foundI [OF assms(1,2)])
  fix x assume x: "object_wf x" "ko_object_key x = ''addr:'' @ ref"
  show "denotes (addr_names s) ref x"
  proof (cases "ref \<in> addr_names s")
    case False
    with assms have "starts_with ''unresolved:'' ref" by (simp add: addr_names_def plain_name_def has_key_def)
    then obtain r where "ref = ''unresolved:'' @ r" by (metis starts_with_def append_take_drop_id)
    with x have "ko_object_kind x = OK_UNRESOLVED_ADDR" using object_wf_keys(4) by simp
    with assms(3-5) False show ?thesis by (simp add: denotes_def)
  qed (use assms(3-5) x in \<open>simp add: denotes_def\<close>)
qed

lemma found_subnet:
  assumes "norm_ok t" "ref \<noteq> ''any''" "\<not> starts_with ''host:'' ref" "starts_with ''net:'' ref"
    and "split_once (CHR ''/'') (drop 4 ref) = (ip, m)"
    and "map_of (ns_objects_by_key t) (case mask_to_prefix m of
        None \<Rightarrow> ''addr:unresolved:'' @ ref | Some n \<Rightarrow> ''addr:net:'' @ ip @ ''/'' @ nat_str n) = Some i"
  shows "found t ref i"
proof (cases "mask_to_prefix m")
  case None
  with assms show ?thesis by (intro found_unresolved) simp_all
next
  case (Some n)
  show ?thesis
    by (rule foundI [where k = "''net:'' @ ip @ ''/'' @ nat_str n"])
      (use assms Some object_wf_keys(3) [where c = "ip @ ''/'' @ nat_str n"] in \<open>auto simp: denotes_def\<close>)
qed

lemma ensure_addr_denotes:
  assumes "norm_ok s" "has_key s ''addr:any''" "ref_ok ref" "0 \<le> line"
  shows "runs (ensure_addr_object_from_ref ref line role s) (\<lambda>(i, t). steady s t \<and> found t ref i)"
proof -
  consider (any) "ref = ''any''" | (host) "ref \<noteq> ''any''" "starts_with ''host:'' ref"
    | (net) "ref \<noteq> ''any''" "\<not> starts_with ''host:'' ref" "starts_with ''net:'' ref"
    | (named) "ref \<noteq> ''any''" "\<not> starts_with ''host:'' ref" "\<not> starts_with ''net:'' ref" by blast
  then show ?thesis
  proof cases
    case any
    from assms(2) obtain i where i: "map_of (ns_objects_by_key s) (''addr:'' @ ''any'') = Some i"
      by (auto simp: has_key_def)
    have "found s ref i" by (rule foundI [OF assms(1) i]) (use any object_wf_keys(1) in \<open>simp add: denotes_def\<close>)
    with any i show ?thesis
      by (simp add: ensure_addr_object_from_ref_def id_of_key_def steady_refl [OF assms(1)])
  next
    case host
    have *: "found t ref i" if "steady s t \<and> map_of (ns_objects_by_key t) (''addr:host:'' @ drop 5 ref) = Some i" for i t
      by (rule foundI [where k = "''host:'' @ drop 5 ref"])
        (use that host object_wf_keys(2) steadyD in \<open>auto simp: denotes_def\<close>)
    show ?thesis
      unfolding ensure_addr_object_from_ref_def using host
      by (simp only: if_False if_True) (rule runs_mono [OF ensure_host_steady [OF assms(1)]], simp, use * in blast)
  next
    case net
    obtain ip m where sp: "split_once (CHR ''/'') (drop 4 ref) = (ip, m)" by force
    show ?thesis
      unfolding ensure_addr_object_from_ref_def using net
      by (simp only: if_False if_True) (rule runs_mono [OF ensure_subnet_steady [OF assms(1) _ assms(3) sp assms(4)]],
        simp, use found_subnet [OF _ net sp] steadyD(1) in blast)
  next
    case named
    show ?thesis
    proof (cases "has_key s (''addr:'' @ ref)")
      case True
      then obtain i where "map_of (ns_objects_by_key s) (''addr:'' @ ref) = Some i" by (auto simp: has_key_def)
      with found_named [OF assms(1) this named] True named show ?thesis
        by (simp add: ensure_addr_object_from_ref_def id_of_key_def steady_refl [OF assms(1)])
    next
      case False
      then have "ref \<notin> addr_names s" by (simp add: addr_names_def)
      then have "found t ref i" if "steady s t \<and> map_of (ns_objects_by_key t) (''addr:unresolved:'' @ ref) = Some i" for i t
        by (intro found_unresolved) (use named that in \<open>auto simp: steady_def\<close>)
      with False named show ?thesis
        unfolding ensure_addr_object_from_ref_def
        by (simp only: if_False) (rule runs_mono [OF ensure_unresolved_steady [OF assms(1,4)]], blast)
    qed
  qed
qed


section \<open>Services\<close>

text \<open>What a builder returns is a well-formed service of the key asked for.\<close>

definition service_wf :: "uuid \<Rightarrow> canonical_object \<Rightarrow> bool" where
  "service_wf i x \<longleftrightarrow>
     ko_id x = i \<and> object_wf x \<and> starts_with ''service:'' (ko_object_key x)"

lemma service_wfI:
  "ko_id x = i \<Longrightarrow> ko_object_key x = ''service:'' @ k \<Longrightarrow> k \<noteq> ''any'' \<Longrightarrow> ko_object_family x = OF_SERVICE \<Longrightarrow>
     kind_family (ko_object_kind x) = OF_SERVICE \<Longrightarrow> ko_object_kind x \<noteq> OK_ANY_SERVICE \<Longrightarrow> service_wf i x"
  by (auto simp: service_wf_def object_wf_defs split: if_splits)

definition builder_kinds :: "object_kind set" where
  "builder_kinds = {OK_IP_PROTO, OK_UNRESOLVED_SERVICE, OK_TCP, OK_UDP, OK_ICMP}"

definition built :: "uuid \<Rightarrow> string \<Rightarrow> canonical_object \<Rightarrow> bool" where
  "built i key x \<longleftrightarrow> ko_id x = i \<and> ko_object_key x = key \<and> ko_object_family x = OF_SERVICE \<and> ko_object_kind x \<in> builder_kinds"

lemma built_wf: "built i (''service:'' @ k) x \<Longrightarrow> k \<noteq> ''any'' \<Longrightarrow> service_wf i x"
  by (rule service_wfI) (auto simp: built_def builder_kinds_def kind_family_def addr_kind_def)

lemma built_kinds [simp]: "kind_for_protocol p \<in> builder_kinds" "OK_IP_PROTO \<in> builder_kinds"
  "OK_UNRESOLVED_SERVICE \<in> builder_kinds" "OK_ICMP \<in> builder_kinds"
  by (auto simp: kind_for_protocol_def builder_kinds_def Let_def)

lemma port_service_built [simp]: "kind \<in> builder_kinds \<Longrightarrow> built i key (port_service i snap key kind name protocol a b)"
  by (simp add: built_def port_service_def)

lemma object_create_built [simp]: "kind \<in> builder_kinds \<Longrightarrow> built i key (object_create i snap key OF_SERVICE kind name)"
  by (simp add: built_def)

lemma built_updates [simp]:
  "built i key (ko_protocol_update f x) = built i key x" "built i key (ko_description_update g x) = built i key x"
  "built i key (ko_icmp_type_update h x) = built i key x"
  by (simp_all add: built_def)

lemma payload_service_built: "build_service_from_payload i snap name key payload = Some x \<Longrightarrow> built i key x"
  unfolding build_service_from_payload_def Let_def
  by (simp split: if_splits option.splits prod.splits; (elim conjE)?; hypsubst; simp)

lemma colon_built:
  assumes "built i (ko_object_key x) x" "starts_with ''service:'' (ko_object_key x)" "CHR '':'' \<in> set (drop 8 (ko_object_key x))"
  shows "service_wf i x"
proof -
  have k: "ko_object_key x = ''service:'' @ drop 8 (ko_object_key x)"
    using assms(2) append_take_drop_id [of 8 "ko_object_key x"] by (simp add: starts_with_def eval_nat_numeral)
  have "drop 8 (ko_object_key x) \<noteq> ''any''" using assms(3) by auto
  then show ?thesis using built_wf assms(1) k by metis
qed

lemma port_service_key [simp]: "ko_object_key (port_service i snap key kind name protocol a b) = key"
  by (simp add: port_service_def)

lemma inline_service_wf: "build_inline_service_from_ref i snap protocol ref = Some x \<Longrightarrow> service_wf i x"
  unfolding build_inline_service_from_ref_def Let_def service_object_key_def service_port_label_def
  by (auto split: if_splits option.splits prod.splits intro!: colon_built simp: starts_with_def)

lemma ip_protocol_service_wf: "service_wf i (build_ip_protocol_service i snap number pname)"
  by (cases number)
    (auto simp: build_ip_protocol_service_def ip_protocol_object_key_def Let_def kind_family_def addr_kind_def intro!: service_wfI)

end
