(* ===== verification/Asa_Service_Steps.thy ===== *)
theory Asa_Service_Steps
  imports Asa_Steps
begin

text \<open>
  The services of rules and the headers and members of groups: every step is total, steady (a header of
  an address adds its name), and finds services for a rule (\<open>rule_services_ok\<close>).
\<close>

section \<open>Registering services\<close>

lemma service_wf_builder: "service_wf i x \<Longrightarrow> builder_key (ko_object_key x)"
  by (auto simp: service_wf_def builder_key_def) (cases "ko_object_key x"; auto simp: starts_with_def)

lemma starts_with_append: "starts_with p (p @ s)"
  by (simp add: starts_with_def)

definition service_id :: "norm_state \<Rightarrow> uuid \<Rightarrow> bool" where
  "service_id s i \<longleftrightarrow> family_id s OF_SERVICE i"

definition service_keys :: "norm_state \<Rightarrow> string list \<Rightarrow> bool" where
  "service_keys s ks \<longleftrightarrow> (\<forall>k \<in> set ks. starts_with ''service:'' k \<and> has_key s k)"

lemma service_keysI [simp]: "service_keys s []" "service_keys s (k # ks) \<longleftrightarrow> starts_with ''service:'' k \<and> has_key s k \<and> service_keys s ks"
  "service_keys s (ks @ js) \<longleftrightarrow> service_keys s ks \<and> service_keys s js"
  by (auto simp: service_keys_def)

lemma service_keys_extends: "service_keys s ks \<Longrightarrow> extends s t \<Longrightarrow> service_keys t ks"
  unfolding service_keys_def using extends_has_key by blast

lemma named_service: "norm_ok s \<Longrightarrow> map_of (ns_objects_by_key s) (''service:'' @ n) = Some i \<Longrightarrow> service_id s i"
  unfolding service_id_def by (rule key_family(2) [where k = "''service:'' @ n"]) (simp_all only: starts_with_append)

lemma steady_service: "service_id s i \<Longrightarrow> steady s t \<Longrightarrow> service_id t i"
  unfolding service_id_def using extends_family steadyD(2) by blast

lemma register_service_steady:
  assumes "norm_ok s" "service_wf (fresh_id s) x"
  shows "runs (register_new x s) (\<lambda>t. steady s t \<and> service_keys t [ko_object_key x])"
  using register_new_steady [of s x] assms service_wf_builder [OF assms(2)]
  by (simp add: service_wf_def)

lemma register_traced_ok:
  assumes "norm_ok s" "service_wf (fresh_id s) x"
  shows "runs (register_traced x line fragment note s) (\<lambda>(i, t). steady s t \<and> service_id t i)"
proof -
  from register_service_steady [OF assms] obtain y t where
    r: "register x (drawn s) = Inr (y, t)" and t: "steady s t" "has_key t (ko_object_key x)"
    unfolding register_new_def by (cases "register x (drawn s)") auto
  have "map_of (ns_objects_by_key t) (ko_object_key x) = Some (ko_id y)"
  proof (cases "map_of (ns_objects_by_key s) (ko_object_key x)")
    case None
    with r show ?thesis by (auto simp: register_def update_conv')
  next
    case (Some i)
    from id_of_key_found [OF assms(1) this] obtain z where "map_of (ns_objects_by_id s) i = Some z" "ko_id z = i" by blast
    with Some r show ?thesis by (auto simp: register_def object_of_id_def)
  qed
  then have "service_id t (ko_id y)"
    unfolding service_id_def using key_family(2) [OF steadyD(1) [OF t(1)]] assms(2) by (simp add: service_wf_def)
  with t(1) show ?thesis
    unfolding register_traced_def r
    by (simp, intro runs_mono [OF operand_trace_steady]) (auto intro: steady_trans steady_service dest: steadyD)
qed


section \<open>The services of a rule\<close>

lemma any_service_ok:
  assumes "norm_ok s" "has_key s ''service:any''"
  shows "runs (any_service s) (\<lambda>(i, t). steady s t \<and> service_id t i)"
  using assms named_service [of s "''any''"]
  by (auto simp: any_service_def id_of_key_def has_key_def steady_refl)

lemma ensure_unresolved_service_ok:
  assumes "norm_ok s" "0 \<le> line"
  shows "runs (ensure_unresolved_service ref protocol line s) (\<lambda>(i, t). steady s t \<and> service_id t i)"
proof -
  let ?x = "(object_create (fresh_id s) (ns_snapshot_id s) (''service:unresolved:'' @ ref) OF_SERVICE OK_UNRESOLVED_SERVICE ref)
           \<lparr>ko_protocol := (if protocol = [] then None else Some protocol),
            ko_description := Some ''unresolved ASA service reference''\<rparr>"
  have x: "object_wf ?x" by (simp add: object_wf_defs)
  have k: "builder_key (''service:unresolved:'' @ ref)" by (simp add: builder_key_def starts_with_def)
  have "runs (ensure_unresolved_service ref protocol line s)
      (\<lambda>(i, t). steady s t \<and> map_of (ns_objects_by_key t) (''service:unresolved:'' @ ref) = Some i)"
    unfolding ensure_unresolved_service_def Let_def
    by (rule ensure_object_steady [where x = ?x])
      (use assms x k in \<open>auto intro!: runs_mono [OF operand_trace_steady] runs_mono [OF emit_issue_steady] intro: steady_trans dest: steadyD\<close>)
  then show ?thesis
    by (rule runs_mono) (use named_service [of _ "''unresolved:'' @ ref"] steadyD(1) in auto)
qed

lemma ip_protocol_built: "built i (ip_protocol_object_key p) x \<Longrightarrow> service_wf i x"
  by (rule colon_built) (simp_all add: built_def ip_protocol_object_key_def starts_with_def)

lemma ensure_default_service_ok:
  assumes "norm_ok s" "has_key s ''service:any''"
  shows "runs (ensure_default_service protocol line s) (\<lambda>(i, t). steady s t \<and> service_id t i)"
  unfolding ensure_default_service_def Let_def
  by (auto intro!: any_service_ok assms register_traced_ok ip_protocol_built dest: payload_service_built split: option.split)

lemma ensure_service_from_ref_ok:
  assumes "norm_ok s" "has_key s ''service:any''" "0 \<le> line"
  shows "runs (ensure_service_object_from_ref protocol ref line s) (\<lambda>(i, t). steady s t \<and> service_id t i)"
  unfolding ensure_service_object_from_ref_def lookup_named_service_ref_def
  using assms ensure_default_service_ok [OF assms(1,2)] ensure_unresolved_service_ok [OF assms(1,3)]
  by (auto split: option.split intro!: register_traced_ok intro: steady_refl named_service dest: inline_service_wf)

lemma ensure_service_for_rule_ok:
  assumes "norm_ok s" "has_key s ''service:any''" "0 \<le> pr_line_start rule"
  shows "runs (ensure_service_for_rule rule s) (\<lambda>(i, t). steady s t \<and> service_id t i)"
proof -
  note ref = ensure_service_from_ref_ok [OF assms]
  have g: "runs (effective_protocol_from_group rule s) (\<lambda>p. True)"
    using id_of_key_found [OF assms(1)]
    by (auto simp: effective_protocol_from_group_def lookup_named_service_ref_def object_of_id_def split: option.split)
      (metis option.distinct(1))
  show ?thesis
  proof (cases "pr_operand_kind rule")
    case PK_PROTOCOL_GROUP
    then show ?thesis
      using any_service_ok [OF assms(1,2)] steady_refl [OF assms(1)] named_service [OF assms(1)]
      by (auto simp: ensure_service_for_rule_def ensure_protocol_group_service_def lookup_named_service_ref_def
          intro!: runs_mono [OF g] ref split: option.split)
  next
    case PK_IP_PROTOCOL_NUMBER
    then show ?thesis
      using any_service_ok [OF assms(1,2)] steady_refl [OF assms(1)] named_service [OF assms(1)]
      by (auto simp: ensure_service_for_rule_def ensure_ip_protocol_service_def lookup_named_service_ref_def
          intro!: register_traced_ok assms(1) ip_protocol_service_wf split: option.split)
  qed (simp_all add: ensure_service_for_rule_def ref)
qed


text \<open>The members of a group for a protocol.\<close>

lemma protocol_members_ok:
  assumes "norm_ok s" "service_id s parent"
  shows "runs (protocol_members parent protocol s) (\<lambda>is. \<forall>i \<in> set is. service_id s i)"
  unfolding protocol_members_def
proof (rule runs_fold)
  fix m selected
  assume m: "m \<in> set (ns_object_members s)" and sel: "\<forall>i \<in> set selected. service_id s i"
  show "runs (if km_parent_object_id m \<noteq> parent then Inr selected
      else bind_r (object_of_id s (km_child_object_id m)) (\<lambda>child.
        Inr (if ko_protocol child \<noteq> Some protocol \<or> ko_id child \<in> set selected then selected
             else selected @ [ko_id child]))) (\<lambda>is. \<forall>i \<in> set is. service_id s i)"
  proof (cases "km_parent_object_id m = parent")
    case True
    from m norm_okD(5) [OF assms(1)] have "member_ok s m" by (simp add: members_ok_def)
    with assms(2) True obtain x where x: "map_of (ns_objects_by_id s) (km_child_object_id m) = Some x"
      "ko_object_family x = OF_SERVICE"
      by (auto simp: member_ok_def family_id_def service_id_def)
    moreover have "ko_id x = km_child_object_id m"
      using norm_okD(3) [OF assms(1)] x(1) unfolding objects_ok_def by blast
    ultimately have "service_id s (ko_id x)" by (simp add: service_id_def family_id_def)
    with True x sel show ?thesis by (simp add: object_of_id_def)
  qed (use sel in simp)
qed simp

lemma rule_services_ok:
  assumes "norm_ok s" "has_key s ''service:any''" "0 \<le> pr_line_start rule"
  shows "runs (ensure_services_for_rule rule s) (\<lambda>(is, t). steady s t \<and> is \<noteq> [] \<and> (\<forall>i \<in> set is. service_id t i))"
  unfolding ensure_services_for_rule_def runs_bind
proof (rule runs_mono [OF ensure_service_for_rule_ok [OF assms]], clarify, unfold runs_bind)
  fix i t assume t: "steady s t" "service_id t i"
  from t(2) obtain x where x: "object_of_id t i = Inr x"
    by (auto simp: service_id_def family_id_def object_of_id_def)
  have un: "runs (ensure_unresolved_service ref protocol (pr_line_start rule) t) (\<lambda>(u, v). steady s v \<and> service_id v u)" for ref protocol
    using ensure_unresolved_service_ok [OF steadyD(1) [OF t(1)] assms(3)] by (rule runs_mono) (use t(1) steady_trans in blast)
  show "runs (object_of_id t i) (\<lambda>service. runs (if \<not> (ko_object_kind service = OK_SERVICE_GROUP \<and>
        ko_protocol service = Some ''tcp-udp'' \<and> pr_protocol rule \<in> {''tcp'', ''udp''}) then Inr ([i], t)
      else bind_r (protocol_members i (pr_protocol rule) t) (\<lambda>selected. if selected \<noteq> [] then Inr (selected, t)
        else bind_r (ensure_unresolved_service (ko_name service @ '':'' @ pr_protocol rule) (pr_protocol rule)
            (pr_line_start rule) t) (\<lambda>(u, t). Inr ([u], t))))
      (\<lambda>(is, t). steady s t \<and> is \<noteq> [] \<and> (\<forall>i \<in> set is. service_id t i)))"
    unfolding x using t
    by (auto intro!: runs_mono [OF protocol_members_ok [OF steadyD(1) [OF t(1)] t(2)]] runs_mono [OF un])
qed


section \<open>Members of service groups\<close>

definition keys_found :: "norm_state \<Rightarrow> string list \<times> norm_state \<Rightarrow> bool" where
  "keys_found s r \<longleftrightarrow> (case r of (ks, t) \<Rightarrow> steady s t \<and> service_keys t ks)"

definition colon_key :: "string \<Rightarrow> bool" where
  "colon_key k \<longleftrightarrow> starts_with ''service:'' k \<and> CHR '':'' \<in> set (drop 8 k)"

lemma service_keys_colon [simp]:
  "colon_key (service_object_key p a b)" "colon_key (ip_protocol_object_key p)" "colon_key (''service:icmp:'' @ n)"
  "colon_key (''service:'' @ p @ '':icmp-'' @ n)"
  by (simp_all add: colon_key_def service_object_key_def service_port_label_def ip_protocol_object_key_def starts_with_def)

lemma built_register:
  assumes "norm_ok s" "built (fresh_id s) k x" "colon_key k"
  shows "runs (register_new x s) (\<lambda>t. steady s t \<and> service_keys t [k])"
proof -
  have "ko_object_key x = k" using assms(2) by (simp add: built_def)
  with assms(2,3) have "service_wf (fresh_id s) x" by (auto intro: colon_built simp: colon_key_def)
  with register_service_steady [OF assms(1) this] \<open>ko_object_key x = k\<close> show ?thesis by simp
qed

lemma payload_key: "service_payload_key payload = Some k \<Longrightarrow> colon_key k"
  unfolding service_payload_key_def Let_def map_option_case
  by (auto simp only: option.distinct option.inject service_keys_colon split: if_splits option.splits prod.splits)

lemma register_payload_ok:
  assumes "norm_ok s"
  shows "runs (register_service_payload payload s) (\<lambda>(k, t). keys_found s (opt_list k, t))"
proof (cases "service_payload_key payload")
  case (Some k)
  from payload_key [OF this] have k: "colon_key k" .
  then have "starts_with ''service:'' k" by (simp add: colon_key_def)
  with Some assms show ?thesis
    by (auto simp: register_service_payload_def keys_found_def opt_list_def steady_refl split: option.split
        intro!: runs_mono [OF built_register [OF assms _ k]] dest: payload_service_built)
qed (simp add: register_service_payload_def keys_found_def opt_list_def steady_refl assms)

lemma lower_lower [simp]: "lower (lower s) = lower s"
  by (induction s) (auto simp: lower_def lower_char_def code_def)

lemma protocol_object_ok:
  assumes "norm_ok s"
  shows "runs (materialize_protocol_object_member raw s) (\<lambda>(k, t). keys_found s (opt_list k, t))"
proof -
  let ?p = "lower (strip raw)"
  let ?k = "ip_protocol_object_key ?p"
  let ?new = "case build_service_from_payload (fresh_id s) (ns_snapshot_id s) (service_name ?k) ?k [(''protocol'', ?p)] of
      Some x \<Rightarrow> x | None \<Rightarrow> build_ip_protocol_service (fresh_id s) (ns_snapshot_id s) None (Some ?p)"
  have b: "built (fresh_id s) ?k ?new" if "?p \<noteq> []"
    using that by (auto split: option.split dest: payload_service_built)
      (simp add: build_ip_protocol_service_def truthy_def str_of_def Let_def ip_protocol_object_key_def)
  have k: "starts_with ''service:'' ?k" by (simp add: ip_protocol_object_key_def starts_with_def)
  show ?thesis
  proof (cases "?p = [] \<or> has_key s ?k")
    case True
    with k assms show ?thesis
      by (auto simp: materialize_protocol_object_member_def Let_def keys_found_def opt_list_def steady_refl)
  next
    case False
    then have "runs (register_new ?new s) (\<lambda>t. steady s t \<and> service_keys t [?k])"
      by (intro built_register [OF assms b]) simp_all
    with False show ?thesis
      by (simp add: materialize_protocol_object_member_def Let_def keys_found_def opt_list_def)
  qed
qed

lemma port_object_ok:
  assumes "norm_ok s" "service_keys s keys"
  shows "runs (port_object_members parsed a b ps keys s) (keys_found s)"
  using assms
proof (induction ps arbitrary: keys s)
  case Nil
  then show ?case by (simp add: keys_found_def steady_refl)
next
  case (Cons p ps)
  let ?k = "service_object_key p a b"
  have k: "starts_with ''service:'' ?k" by (simp add: service_object_key_def starts_with_def)
  have step: "runs (register_new x s) (\<lambda>t. runs (port_object_members parsed a b ps (keys @ [?k]) t) (keys_found s))"
    if "built (fresh_id s) ?k x" for x
  proof (rule runs_mono [OF built_register [OF Cons.prems(1) that]])
    fix t assume t: "steady s t \<and> service_keys t [?k]"
    then have "service_keys t (keys @ [?k])"
      using service_keys_extends [OF Cons.prems(2)] steadyD(2) by auto
    then show "runs (port_object_members parsed a b ps (keys @ [?k]) t) (keys_found s)"
      using t by (intro runs_mono [OF Cons.IH]) (auto simp: keys_found_def intro: steady_trans dest: steadyD)
  qed simp
  show ?case
    using Cons k by (auto simp: Let_def keys_found_def steady_refl split: option.split intro!: step [unfolded keys_found_def]
        dest: payload_service_built)
qed

lemma group_member_ok:
  assumes "norm_ok s"
  shows "runs (materialize_service_group_member member group_protocol s) (keys_found s)"
proof -
  have named: "keys_found s (let key = ''service:'' @ n in if n \<noteq> [] \<and> has_key s key then [key] else [], s)" for n
    using starts_with_append [of "''service:''" n] by (simp only: keys_found_def Let_def) (simp add: steady_refl assms)
  have none: "keys_found s ([], s)" by (simp add: keys_found_def steady_refl assms)
  have icmp: "runs (register_new ((object_create (fresh_id s) (ns_snapshot_id s) (''service:icmp:'' @ n) OF_SERVICE OK_ICMP n)
      \<lparr>ko_protocol := Some ''icmp'', ko_icmp_type := map_of ICMP_NAME_TO_TYPE (icmp_token n)\<rparr>) s)
      (\<lambda>t. keys_found s ([''service:icmp:'' @ n], t))" for n
    unfolding keys_found_def prod.case
    by (rule built_register [OF assms]) (simp_all only: built_updates object_create_built built_kinds service_keys_colon)
  show ?thesis
  proof (cases member)
    case (SM_ICMP_OBJECT n)
    have "starts_with ''service:'' (''service:icmp:'' @ n)" by (simp add: starts_with_def)
    with icmp [of n] none SM_ICMP_OBJECT show ?thesis
      by (simp only: materialize_service_group_member_def service_member.case Let_def)
        (simp add: keys_found_def steady_refl assms)
  next
    case (SM_PORT_OBJECT raw)
    with none port_object_ok [OF assms] show ?thesis
      by (auto simp: materialize_service_group_member_def Let_def split: option.split)
  next
    case (SM_SERVICE_OBJECT payload raw)
    with none register_payload_ok [OF assms] show ?thesis
      by (simp add: materialize_service_group_member_def Let_def case_prod_unfold split: option.split)
  next
    case (SM_PROTOCOL_OBJECT raw)
    with none protocol_object_ok [OF assms] show ?thesis
      by (simp add: materialize_service_group_member_def Let_def case_prod_unfold)
  qed (use named in \<open>simp_all add: materialize_service_group_member_def Let_def\<close>)
qed

lemma enumerate_value: "x \<in> set (List.enumerate n xs) \<Longrightarrow> snd x \<in> set xs"
  by (metis enumerate_eq_zip prod.collapse set_zip_rightD)

lemma group_edges_ok:
  assumes "norm_ok s" "service_id s parent" "service_keys s keys"
  shows "runs (attach_group_member_edges parent keys pos line fragment s) (steady s)"
  unfolding attach_group_member_edges_def
proof (rule steady_fold [OF assms(1)])
  fix x t assume x: "x \<in> set (List.enumerate 0 keys)" and t: "steady s t"
  have k: "starts_with ''service:'' (snd x)" using enumerate_value [OF x] assms(3) by (simp add: service_keys_def)
  have "runs (attach_edge parent child (int (pos + fst x)) line fragment t) (steady t)"
    if "map_of (ns_objects_by_key t) (snd x) = Some child" for child
    using steadyD(1) [OF t] steady_service [OF assms(2) t] key_family(2) [OF steadyD(1) [OF t] that k]
    by (intro attach_edge_steady [where fam = OF_SERVICE]) (simp_all add: service_id_def)
  then show "runs ((\<lambda>(offset, key) s. case map_of (ns_objects_by_key s) key of None \<Rightarrow> Inr s
      | Some child \<Rightarrow> attach_edge parent child (int (pos + offset)) line fragment s) x t) (steady t)"
    using steady_refl [OF steadyD(1) [OF t]] by (simp add: case_prod_unfold split: option.split)
qed


section \<open>Headers\<close>

lemma header_trace_steady:
  "norm_ok s \<Longrightarrow> po_source_line item \<le> po_source_line_end item \<Longrightarrow> runs (header_trace item i s) (steady s)"
  unfolding header_trace_def by (rule emit_trace_steady)

text \<open>The fields that the kind of an address needs.\<close>

definition payload_keys :: "str_dict \<Rightarrow> string list" where
  "payload_keys d =
     (let t = map_of d ''type'' in
      if t = Some ''host'' then [''ip''] else if t = Some ''subnet'' then [''ip'', ''mask'']
      else if t = Some ''range'' then [''start'', ''end''] else if t = Some ''fqdn'' then [''name''] else [])"

definition address_header_ok :: "string parsed_object \<Rightarrow> bool" where
  "address_header_ok x \<longleftrightarrow>
     0 \<le> po_source_line x \<and> po_source_line x \<le> po_source_line_end x \<and> plain_name (po_name x) \<and>
     (po_kind x = PT_ADDRESS_GROUP \<longrightarrow> list_all ref_ok (py_members (po_payload x))) \<and>
     (po_kind x \<noteq> PT_ADDRESS_GROUP \<longrightarrow>
        list_all (\<lambda>k. map_of (py_fields (po_payload x)) k \<noteq> None) (payload_keys (py_fields (po_payload x))))"

definition service_header_ok :: "service_member parsed_object \<Rightarrow> bool" where
  "service_header_ok x \<longleftrightarrow>
     0 \<le> po_source_line x \<and> po_source_line x \<le> po_source_line_end x \<and> po_name x \<noteq> ''any''"

definition address_kinds :: "object_kind set" where
  "address_kinds = {OK_HOST, OK_SUBNET, OK_RANGE, OK_FQDN, OK_UNRESOLVED_ADDR, OK_ADDR_GROUP}"

lemma plain_address_wf:
  assumes "plain_name n" "ko_object_key x = ''addr:'' @ n" "ko_object_family x = OF_ADDR" "ko_object_kind x \<in> address_kinds"
  shows "object_wf x"
proof -
  have "kind_family (ko_object_kind x) = OF_ADDR" "ko_object_kind x \<noteq> OK_ANY_ADDR" "ko_object_kind x \<noteq> OK_ANY_SERVICE"
    using assms(4) by (auto simp: address_kinds_def kind_family_def addr_kind_def)
  with assms(1-3) show ?thesis by (simp add: object_wf_def plain_name_def starts_with_def)
qed

lemma address_payload_ok:
  assumes "list_all (\<lambda>k. map_of d k \<noteq> None) (payload_keys d)"
  shows "runs (addr_object_from_payload i snap key name d)
    (\<lambda>x. ko_id x = i \<and> ko_object_key x = key \<and> ko_object_family x = OF_ADDR \<and> ko_object_kind x \<in> address_kinds)"
proof -
  have "dict_item d k = Inr (the (map_of d k))" if "k \<in> set (payload_keys d)" for k
    using assms that by (auto simp: dict_item_def list_all_iff split: option.split)
  then show ?thesis
    by (auto simp: addr_object_from_payload_def payload_keys_def Let_def host_object_def subnet_object_def
        unresolved_addr_def address_kinds_def split: option.split)
qed

lemma address_header_step:
  assumes "norm_ok s" "address_header_ok item"
  shows "runs (materialize_address_object item s) (\<lambda>t. norm_ok t \<and> extends s t \<and> ns_rules t = ns_rules s \<and>
    ns_operands t = ns_operands s \<and> addr_names t = insert (po_name item) (addr_names s))"
proof -
  let ?key = "''addr:'' @ po_name item"
  let ?make = "if po_kind item = PT_ADDRESS_GROUP
      then Inr (object_create (fresh_id s) (ns_snapshot_id s) ?key OF_ADDR OK_ADDR_GROUP (po_name item))
      else addr_object_from_payload (fresh_id s) (ns_snapshot_id s) ?key (po_name item) (py_fields (po_payload item))"
  have plain: "plain_name (po_name item)" using assms(2) by (simp add: address_header_ok_def)
  have "runs ?make (\<lambda>x. ko_id x = fresh_id s \<and> ko_object_key x = ?key \<and> object_wf x)"
  proof (cases "po_kind item = PT_ADDRESS_GROUP")
    case True
    then show ?thesis using plain_address_wf [OF plain] by (simp add: address_kinds_def)
  next
    case False
    with assms(2) have "list_all (\<lambda>k. map_of (py_fields (po_payload item)) k \<noteq> None) (payload_keys (py_fields (po_payload item)))"
      by (simp add: address_header_ok_def)
    from address_payload_ok [OF this, of "fresh_id s" "ns_snapshot_id s" ?key "po_name item"] False
    show ?thesis using plain_address_wf [OF plain] by (auto elim: runs_mono)
  qed
  then obtain x where x: "?make = Inr x" "ko_id x = fresh_id s" "ko_object_key x = ?key" "object_wf x"
    using runs_D by blast
  have "runs (register_new x s) (\<lambda>t. runs (header_trace item (fresh_id s) t) (\<lambda>u. norm_ok u \<and> extends s u \<and>
      ns_rules u = ns_rules s \<and> ns_operands u = ns_operands s \<and> addr_names u = insert (po_name item) (addr_names s)))"
  proof (rule runs_mono [OF register_new_ok [OF assms(1) x(2,4)]])
    fix t assume t: "norm_ok t \<and> extends s t \<and> ns_rules t = ns_rules s \<and> ns_operands t = ns_operands s \<and>
        (\<forall>k. has_key t k \<longleftrightarrow> k = ko_object_key x \<or> has_key s k)"
    then have "addr_names t = insert (po_name item) (addr_names s)" using plain x(3) by (auto simp: addr_names_def)
    then show "runs (header_trace item (fresh_id s) t) (\<lambda>u. norm_ok u \<and> extends s u \<and> ns_rules u = ns_rules s \<and>
        ns_operands u = ns_operands s \<and> addr_names u = insert (po_name item) (addr_names s))"
      using t assms(2) by (intro runs_mono [OF header_trace_steady]) (auto simp: address_header_ok_def steady_def intro: extends_trans)
  qed
  then show ?thesis unfolding materialize_address_object_def Let_def x(1) by simp
qed

lemma unresolved_member_steady:
  "norm_ok s \<Longrightarrow> 0 \<le> line \<Longrightarrow> runs (unresolved_member_issue group_name ref line s) (steady s)"
  unfolding unresolved_member_issue_def by (rule emit_issue_steady) simp_all

lemma address_member_steady:
  assumes "norm_ok s" "family_id s OF_ADDR parent" "0 \<le> po_source_line item" "ref_ok ref"
  shows "runs (address_group_member item parent (pos, ref) s) (steady s)"
  unfolding address_group_member_def prod.case runs_bind
proof (rule runs_mono [OF resolve_member_ref_steady [OF assms(1,4)]], clarify, unfold runs_bind)
  fix key t assume t: "steady s t" "has_key t key" "starts_with ''addr:'' key"
  show "runs (emit_new_objects s (po_source_line item) ref ''inline member materialized from group body'' t)
      (\<lambda>t. runs (case map_of (ns_objects_by_key t) key of
          None \<Rightarrow> unresolved_member_issue (po_name item) ref (po_source_line item) t
        | Some child \<Rightarrow> bind_r (attach_edge parent child (int pos) (po_source_line item) ref t) (\<lambda>t.
            if starts_with ''addr:unresolved:'' key then unresolved_member_issue (po_name item) ref (po_source_line item) t
            else Inr t)) (steady s))"
  proof (rule runs_mono [OF emit_new_objects_steady [OF steadyD(1) [OF t(1)]]])
    fix u assume "steady t u"
    with t(1) have u: "steady s u" by (rule steady_trans)
    have edge: "runs (attach_edge parent child (int pos) (po_source_line item) ref u) (steady s)"
      if "map_of (ns_objects_by_key u) key = Some child" for child
      using attach_edge_steady [OF steadyD(1) [OF u], of OF_ADDR parent child] extends_family [OF steadyD(2) [OF u] assms(2)]
        key_family(1) [OF steadyD(1) [OF u] that t(3)] u by (blast intro: runs_mono steady_trans)
    have issue: "runs (unresolved_member_issue (po_name item) ref (po_source_line item) v) (steady s)" if "steady s v" for v
      using unresolved_member_steady [OF steadyD(1) [OF that] assms(3)] that by (blast intro: runs_mono steady_trans)
    show "runs (case map_of (ns_objects_by_key u) key of
          None \<Rightarrow> unresolved_member_issue (po_name item) ref (po_source_line item) u
        | Some child \<Rightarrow> bind_r (attach_edge parent child (int pos) (po_source_line item) ref u) (\<lambda>t.
            if starts_with ''addr:unresolved:'' key then unresolved_member_issue (po_name item) ref (po_source_line item) t
            else Inr t)) (steady s)"
      by (cases "map_of (ns_objects_by_key u) key")
        (use issue [OF u] edge issue in \<open>auto intro: runs_mono\<close>)
  qed
qed

lemma address_group_steady:
  assumes "norm_ok s" "address_header_ok item"
  shows "runs (materialize_address_group item s) (steady s)"
proof (cases "po_kind item = PT_ADDRESS_GROUP \<and> (\<exists>i. map_of (ns_objects_by_key s) (''addr:'' @ po_name item) = Some i)")
  case True
  then obtain parent where p: "map_of (ns_objects_by_key s) (''addr:'' @ po_name item) = Some parent" by blast
  have fam: "family_id s OF_ADDR parent" by (rule key_family(1) [OF assms(1) p]) (rule starts_with_append)
  have "runs (fold_r (address_group_member item parent) (List.enumerate 0 (py_members (po_payload item))) s) (steady s)"
  proof (rule steady_fold [OF assms(1)])
    fix m t assume m: "m \<in> set (List.enumerate 0 (py_members (po_payload item)))" and t: "steady s t"
    have "snd m \<in> set (py_members (po_payload item))" by (rule enumerate_value [OF m])
    then show "runs (address_group_member item parent m t) (steady t)"
      using address_member_steady [OF steadyD(1) [OF t] extends_family [OF steadyD(2) [OF t] fam], of item "snd m" "fst m"]
        assms(2) True by (simp add: address_header_ok_def list_all_iff)
  qed
  with True p show ?thesis by (simp add: materialize_address_group_def)
next
  case False
  then show ?thesis using assms(1) by (auto simp: materialize_address_group_def steady_refl split: option.split)
qed


lemma service_header_wf:
  assumes "po_name item \<noteq> ''any''"
  shows "service_wf i (canonical_object_for_parsed_service i snap item)"
proof -
  let ?x = "canonical_object_for_parsed_service i snap item"
  have "ko_id ?x = i \<and> ko_object_key ?x = ''service:'' @ po_name item \<and> ko_object_family ?x = OF_SERVICE \<and>
      ko_object_kind ?x \<in> insert OK_SERVICE_GROUP builder_kinds"
    unfolding canonical_object_for_parsed_service_def Let_def
    by (auto split: option.split dest: payload_service_built simp: built_def)
  with assms show ?thesis
    by (intro service_wfI [where k = "po_name item"]) (auto simp: builder_kinds_def kind_family_def addr_kind_def)
qed

lemma service_header_steady:
  assumes "norm_ok s" "service_header_ok item"
  shows "runs (materialize_service_object item s) (steady s)"
proof -
  have n: "po_name item \<noteq> ''any''" "po_source_line item \<le> po_source_line_end item"
    using assms(2) by (simp_all add: service_header_ok_def)
  show ?thesis
    unfolding materialize_service_object_def runs_bind
    by (rule runs_mono [OF register_service_steady [OF assms(1) service_header_wf [OF n(1)]]])
      (blast intro: runs_mono [OF header_trace_steady [OF _ n(2)]] steady_trans dest: steadyD)
qed

lemma service_member_steady:
  assumes "norm_ok s" "service_id s parent" "0 \<le> line"
  shows "runs (service_group_member group_name group_protocol line entity_type parent m s) (steady s)"
proof -
  obtain pos member where m: "m = (pos, member)" by force
  show ?thesis
    unfolding service_group_member_def m prod.case runs_bind
  proof (rule runs_mono [OF group_member_ok [OF assms(1)]], clarify, unfold runs_bind)
    fix keys t assume "keys_found s (keys, t)"
    then have t: "steady s t" "service_keys t keys" by (simp_all add: keys_found_def)
    show "runs (emit_new_objects s line (member_text member) ''service group member materialized'' t) (\<lambda>t.
        runs (if keys = [] then
           emit_issue entity_type ''unresolved_group_member_ref''
             (''Unresolved service group member in '' @ group_name @ '': '' @ member_text member)
             (Some (group_name @ '':'' @ member_type member)) line line (Some (member_text member))
             (Some IR_MAPPING_MISSING) t
         else attach_group_member_edges parent keys pos line (member_text member) t) (steady s))"
    proof (rule runs_mono [OF emit_new_objects_steady [OF steadyD(1) [OF t(1)]]])
      fix u assume tu: "steady t u"
      with t(1) have u: "steady s u" by (rule steady_trans)
      have "runs (attach_group_member_edges parent keys pos line (member_text member) u) (steady u)"
        using group_edges_ok [OF steadyD(1) [OF u] steady_service [OF assms(2) u]] service_keys_extends [OF t(2) steadyD(2) [OF tu]]
        by blast
      moreover have "runs (emit_issue entity_type c msg key line line fragment reason u) (steady u)" for c msg key fragment reason
        by (rule emit_issue_steady [OF steadyD(1) [OF u]]) (simp_all add: assms(3))
      ultimately show "runs (if keys = [] then
           emit_issue entity_type ''unresolved_group_member_ref''
             (''Unresolved service group member in '' @ group_name @ '': '' @ member_text member)
             (Some (group_name @ '':'' @ member_type member)) line line (Some (member_text member))
             (Some IR_MAPPING_MISSING) u
         else attach_group_member_edges parent keys pos line (member_text member) u) (steady s)"
        by (split if_split) (blast intro: runs_mono steady_trans [OF u])
    qed
  qed
qed

lemma group_members_steady:
  assumes "norm_ok s" "service_header_ok item"
  shows "runs (attach_group_members item group_protocol entity_type s) (steady s)"
proof (cases "map_of (ns_objects_by_key s) (''service:'' @ po_name item)")
  case None
  with assms(1) show ?thesis by (simp add: attach_group_members_def steady_refl)
next
  case (Some parent)
  have "runs (fold_r (service_group_member (po_name item) group_protocol (po_source_line item) entity_type parent)
      (List.enumerate 0 (py_members (po_payload item))) s) (steady s)"
    by (rule steady_fold [OF assms(1)])
      (use assms(2) service_member_steady steadyD(1) steady_service [OF named_service [OF assms(1) Some]] in
        \<open>auto simp: service_header_ok_def\<close>)
  with Some show ?thesis by (simp add: attach_group_members_def)
qed

lemma service_groups_steady:
  assumes "norm_ok s" "service_header_ok item"
  shows "runs (materialize_service_group item s) (steady s)" "runs (materialize_protocol_group item s) (steady s)"
  using group_members_steady [OF assms] steady_refl [OF assms(1)]
  by (simp_all add: materialize_service_group_def materialize_protocol_group_def)

end
