(* ===== verification/Asa_Rule_Steps.thy ===== *)
theory Asa_Rule_Steps
  imports Asa_Service_Steps
begin

text \<open>
  The rules: each parsed rule adds one row with the operands that it names (\<open>rule_step\<close>), and the
  whole normalization is total for a configuration as the parser returns it (\<open>normalize_total\<close>).
\<close>

section \<open>Appending operands\<close>

definition appends :: "norm_state \<Rightarrow> canonical_operand list \<Rightarrow> norm_state \<Rightarrow> bool" where
  "appends s ps t \<longleftrightarrow>
     norm_ok t \<and> extends s t \<and> ns_rules t = ns_rules s \<and> addr_names t = addr_names s \<and> ns_operands t = ns_operands s @ ps"

lemma steady_appends: "steady s t \<longleftrightarrow> appends s [] t"
  by (auto simp: steady_def appends_def)

lemma appends_trans: "appends s ps t \<Longrightarrow> appends t qs u \<Longrightarrow> appends s (ps @ qs) u"
  unfolding appends_def using extends_trans by auto

lemma steady_then: "steady s t \<Longrightarrow> appends t ps u \<Longrightarrow> appends s ps u"
  using appends_trans [of s "[]" t ps u] by (simp add: steady_appends)

lemma then_steady: "appends s ps t \<Longrightarrow> steady t u \<Longrightarrow> appends s ps u"
  using appends_trans [of s ps t "[]" u] by (simp add: steady_appends)

lemma appendsD: "appends s ps t \<Longrightarrow> norm_ok t" "appends s ps t \<Longrightarrow> extends s t"
  by (simp_all add: appends_def)

definition target_ok :: "norm_state \<Rightarrow> rule_role \<Rightarrow> uuid option \<Rightarrow> uuid option \<Rightarrow> bool" where
  "target_ok s role zone obj \<longleftrightarrow>
     (if role \<in> {RO_SRC_ZONE, RO_DST_ZONE} then obj = None \<and> (\<exists>z. zone = Some z \<and> zone_id s z)
      else zone = None \<and> (\<exists>i. obj = Some i \<and> family_id s (if role = RO_SERVICE then OF_SERVICE else OF_ADDR) i))"

definition is_operand :: "uuid \<Rightarrow> rule_role \<Rightarrow> uuid option \<Rightarrow> uuid option \<Rightarrow> canonical_operand \<Rightarrow> bool" where
  "is_operand rid role zone obj p \<longleftrightarrow>
     kp_rule_id p = rid \<and> kp_operand_role p = role \<and> kp_target_zone_id p = zone \<and> kp_target_object_id p = obj"

definition rule_lines_ok :: "parsed_access_rule \<Rightarrow> bool" where
  "rule_lines_ok r \<longleftrightarrow> 0 \<le> pr_line_start r \<and> pr_line_start r \<le> pr_line_end r"

lemma add_operand_appends:
  assumes "norm_ok s" "rid \<in> kr_id ` set (ns_rules s)" "target_ok s role zone obj" "rule_lines_ok rule"
  shows "runs (add_operand rule rid role zone obj position fragment note s)
    (\<lambda>t. \<exists>p. appends s [p] t \<and> is_operand rid role zone obj p)"
proof -
  let ?p = "\<lparr>kp_id = fresh_id s, kp_rule_id = rid, kp_operand_role = role, kp_target_zone_id = zone,
      kp_target_object_id = obj, kp_position = int position\<rparr>"
  let ?t = "(drawn s)\<lparr>ns_operands := ns_operands s @ [?p]\<rparr>"
  note o = norm_okD(7) [OF assms(1), unfolded operands_ok_def]
  have e: "extends s ?t" by (simp add: extends_def)
  have "norm_operand_ok s ?p" using assms(2,3) by (simp add: norm_operand_ok_def target_ok_def)
  then have "operands_ok ?t"
    unfolding operands_ok_def using ids_ok_fresh [OF assms(1) _ e] o extends_operand [OF e] by auto
  then have ok: "norm_ok ?t" by (intro norm_ok_step [OF assms(1) e]) simp_all
  then have "appends s [?p] ?t" using e by (simp add: appends_def addr_names_def has_key_def)
  moreover have "is_operand rid role zone obj ?p" by (simp add: is_operand_def)
  ultimately show ?thesis
    unfolding add_operand_def
    by (intro runs_mono [OF emit_trace_steady [OF ok]])
      (use assms(4) in \<open>simp add: rule_lines_ok_def\<close>, blast intro: then_steady)
qed


section \<open>Zones\<close>

definition zone_named :: "norm_state \<Rightarrow> string \<Rightarrow> uuid \<Rightarrow> bool" where
  "zone_named s name i \<longleftrightarrow> (\<exists>k z. map_of (ns_zones_by_key s) k = Some z \<and> kz_id z = i \<and> kz_name z = name)"

lemma zone_named_extends: "zone_named s name i \<Longrightarrow> extends s t \<Longrightarrow> zone_named t name i"
  unfolding zone_named_def extends_def map_le_def by (metis domI)

lemma zone_named_id: "zone_named s name i \<Longrightarrow> zone_id s i"
  by (auto simp: zone_named_def zone_id_def)

lemma ensure_zone_steady:
  assumes "norm_ok s"
  shows "runs (ensure_zone name line s) (\<lambda>(z, t). steady s t \<and> zone_named t name (kz_id z))"
proof (cases "map_of (ns_zones_by_key s) (''zone:'' @ name)")
  case (Some z)
  then have "kz_name z = name"
    using norm_okD(4) [OF assms] unfolding zones_ok_def by (metis append_same_eq same_append_eq)
  with Some have "zone_named s name (kz_id z)" unfolding zone_named_def by blast
  with Some assms show ?thesis by (simp add: ensure_zone_def Let_def steady_refl)
next
  case None
  let ?z = "\<lparr>kz_id = fresh_id s, kz_snapshot_id = ns_snapshot_id s, kz_zone_key = ''zone:'' @ name, kz_name = name,
      kz_direction_hint = None, kz_description = None\<rparr>"
  let ?t = "(drawn s)\<lparr>ns_zones_by_key := ns_zones_by_key s @ [(''zone:'' @ name, ?z)]\<rparr>"
  note z = norm_okD(4) [OF assms, unfolded zones_ok_def]
  have e: "extends s ?t" by (auto simp: extends_def map_le_def map_add_def split: option.split)
  have "zones_ok ?t"
    unfolding zones_ok_def
  proof (intro conjI)
    show "ids_ok ?t (map (kz_id \<circ> snd) (ns_zones_by_key ?t))"
      using ids_ok_fresh [OF assms _ e] z by simp
    show "distinct (map fst (ns_zones_by_key ?t))" using z None by (simp add: map_of_eq_None_iff)
    show "\<forall>k y. map_of (ns_zones_by_key ?t) k = Some y \<longrightarrow> k = ''zone:'' @ kz_name y"
      using z by (auto simp: map_add_def split: option.splits if_splits)
  qed
  then have ok: "norm_ok ?t" by (intro norm_ok_step [OF assms e]) simp_all
  with e have st: "steady s ?t" by (simp add: steady_def addr_names_def has_key_def)
  have nm: "zone_named ?t name (kz_id ?z)"
    using None by (auto simp: zone_named_def map_add_def intro!: exI [of _ "''zone:'' @ name"])
  have "ensure_zone name line s = bind_r (emit_trace line line TK_ZONE (fresh_id s) (Some name) (Some ''from_acl_name'')
      (Some ''zone derived from acl/binding context'') ?t) (\<lambda>t. Inr (?z, t))"
    using None by (simp add: ensure_zone_def Let_def alist_update_new)
  moreover have "runs (bind_r (emit_trace line line TK_ZONE (fresh_id s) fragment role why ?t) (\<lambda>t. Inr (?z, t)))
      (\<lambda>(z, t). steady s t \<and> zone_named t name (kz_id z))" for fragment role why
    unfolding runs_bind
    by (rule runs_mono [OF emit_trace_steady [OF ok]]) (use nm zone_named_extends steady_trans [OF st] steadyD in auto)
  ultimately show ?thesis by simp
qed

definition zone_ops :: "norm_state \<Rightarrow> string option \<Rightarrow> canonical_operand list \<Rightarrow> bool" where
  "zone_ops s zone ps \<longleftrightarrow>
     (if truthy zone then \<exists>p i. ps = [p] \<and> kp_target_zone_id p = Some i \<and> zone_named s (str_of zone) i else ps = [])"

lemma zone_operand_ok:
  assumes "norm_ok s" "rid \<in> kr_id ` set (ns_rules s)" "role \<in> {RO_SRC_ZONE, RO_DST_ZONE}" "rule_lines_ok rule"
  shows "runs (zone_operand rule rid role zone s) (\<lambda>t. \<exists>ps. appends s ps t \<and> zone_ops t zone ps \<and>
    (\<forall>p \<in> set ps. kp_rule_id p = rid \<and> kp_operand_role p = role))"
proof (cases "truthy zone")
  case True
  have "runs (add_operand rule rid role (Some (kz_id z)) None 0 (str_of zone) None t) (\<lambda>u. \<exists>ps. appends s ps u \<and>
      zone_ops u zone ps \<and> (\<forall>p \<in> set ps. kp_rule_id p = rid \<and> kp_operand_role p = role))"
    if t: "steady s t" "zone_named t (str_of zone) (kz_id z)" for z t
  proof (rule runs_mono [OF add_operand_appends [OF steadyD(1) [OF t(1)] _ _ assms(4)]])
    show "rid \<in> kr_id ` set (ns_rules t)" using assms(2) t(1) by (simp add: steady_def)
    show "target_ok t role (Some (kz_id z)) None" using assms(3) zone_named_id [OF t(2)] by (auto simp: target_ok_def)
    fix u assume "\<exists>p. appends t [p] u \<and> is_operand rid role (Some (kz_id z)) None p"
    then obtain p where p: "appends t [p] u" "is_operand rid role (Some (kz_id z)) None p" by blast
    have "zone_ops u zone [p]"
      using True p(2) zone_named_extends [OF t(2) appendsD(2) [OF p(1)]] by (simp add: zone_ops_def is_operand_def)
    with p steady_then [OF t(1) p(1)] show "\<exists>ps. appends s ps u \<and> zone_ops u zone ps \<and>
        (\<forall>p \<in> set ps. kp_rule_id p = rid \<and> kp_operand_role p = role)"
      by (intro exI [of _ "[p]"]) (simp add: is_operand_def)
  qed
  with True show ?thesis
    unfolding zone_operand_def by (simp, intro runs_mono [OF ensure_zone_steady [OF assms(1)]]) auto
next
  case False
  with steady_refl [OF assms(1)] show ?thesis by (simp add: zone_operand_def zone_ops_def steady_appends)
qed


section \<open>Addresses and services of a rule\<close>

definition addr_targets :: "norm_state \<Rightarrow> string \<Rightarrow> canonical_operand list \<Rightarrow> bool" where
  "addr_targets s ref ps \<longleftrightarrow> (\<exists>p i. ps = [p] \<and> kp_target_object_id p = Some i \<and> found s ref i)"

lemma found_extends: "found s ref i \<Longrightarrow> extends s t \<Longrightarrow> addr_names t = addr_names s \<Longrightarrow> found t ref i"
  unfolding found_def using extends_id by metis

lemma found_family: "found s ref i \<Longrightarrow> family_id s OF_ADDR i"
  by (auto simp: found_def family_id_def)

lemma address_operand_ok:
  assumes "norm_ok s" "rid \<in> kr_id ` set (ns_rules s)" "role \<in> {RO_SRC_OBJECT, RO_DST_OBJECT}" "rule_lines_ok rule"
    and "found s ref i"
  shows "runs (add_operand rule rid role None (Some i) 0 ref None s) (\<lambda>t. \<exists>p. appends s [p] t \<and> addr_targets t ref [p] \<and>
    kp_rule_id p = rid \<and> kp_operand_role p = role)"
proof (rule runs_mono [OF add_operand_appends [OF assms(1,2) _ assms(4)]])
  show "target_ok s role None (Some i)" using assms(3) found_family [OF assms(5)] by (auto simp: target_ok_def)
  fix t assume "\<exists>p. appends s [p] t \<and> is_operand rid role None (Some i) p"
  then show "\<exists>p. appends s [p] t \<and> addr_targets t ref [p] \<and> kp_rule_id p = rid \<and> kp_operand_role p = role"
    using found_extends [OF assms(5)] by (auto simp: addr_targets_def is_operand_def appends_def)
qed

lemma address_operands_ok:
  assumes "norm_ok s" "has_key s ''addr:any''" "rid \<in> kr_id ` set (ns_rules s)" "rule_lines_ok rule"
    and "ref_ok (pr_src_ref rule)" "ref_ok (pr_dst_ref rule)"
  shows "runs (materialize_address_operands rule rid s) (\<lambda>t. \<exists>p q. appends s [p, q] t \<and> kp_rule_id p = rid \<and> kp_rule_id q = rid \<and>
    kp_operand_role p = RO_SRC_OBJECT \<and> kp_operand_role q = RO_DST_OBJECT \<and> addr_targets t (pr_src_ref rule) [p] \<and>
    addr_targets t (pr_dst_ref rule) [q])"
  unfolding materialize_address_operands_def runs_bind
proof (rule runs_mono [OF ensure_addr_denotes [OF assms(1,2,5)]], use assms(4) in \<open>simp add: rule_lines_ok_def\<close>,
    clarify, unfold runs_bind)
  fix src t assume t: "steady s t" "found t (pr_src_ref rule) src"
  show "runs (ensure_addr_object_from_ref (pr_dst_ref rule) (pr_line_start rule) ''dst_object'' t) (\<lambda>x. runs (case x of (dst, t) \<Rightarrow>
      bind_r (add_operand rule rid RO_SRC_OBJECT None (Some src) 0 (pr_src_ref rule) None t) (\<lambda>t.
        add_operand rule rid RO_DST_OBJECT None (Some dst) 0 (pr_dst_ref rule) None t))
      (\<lambda>t. \<exists>p q. appends s [p, q] t \<and> kp_rule_id p = rid \<and> kp_rule_id q = rid \<and> kp_operand_role p = RO_SRC_OBJECT \<and>
        kp_operand_role q = RO_DST_OBJECT \<and> addr_targets t (pr_src_ref rule) [p] \<and> addr_targets t (pr_dst_ref rule) [q]))"
  proof (rule runs_mono [OF ensure_addr_denotes [OF steadyD(1) [OF t(1)] extends_has_key [OF steadyD(2) [OF t(1)] assms(2)] assms(6)]],
      use assms(4) in \<open>simp add: rule_lines_ok_def\<close>, clarify, unfold runs_bind)
    fix dst u assume tu: "steady t u" and dst: "found u (pr_dst_ref rule) dst"
    have u: "steady s u" using t(1) tu by (rule steady_trans)
    have src: "found u (pr_src_ref rule) src" using found_extends [OF t(2)] tu by (simp add: steady_def)
    have rid: "rid \<in> kr_id ` set (ns_rules u)" using assms(3) u by (simp add: steady_def)
    show "runs (add_operand rule rid RO_SRC_OBJECT None (Some src) 0 (pr_src_ref rule) None u) (\<lambda>v. runs
        (add_operand rule rid RO_DST_OBJECT None (Some dst) 0 (pr_dst_ref rule) None v)
        (\<lambda>t. \<exists>p q. appends s [p, q] t \<and> kp_rule_id p = rid \<and> kp_rule_id q = rid \<and> kp_operand_role p = RO_SRC_OBJECT \<and>
          kp_operand_role q = RO_DST_OBJECT \<and> addr_targets t (pr_src_ref rule) [p] \<and> addr_targets t (pr_dst_ref rule) [q]))"
    proof (rule runs_mono [OF address_operand_ok [OF steadyD(1) [OF u] rid _ assms(4) src]], simp, elim exE conjE)
      fix v p assume p: "appends u [p] v" "addr_targets v (pr_src_ref rule) [p]" "kp_rule_id p = rid" "kp_operand_role p = RO_SRC_OBJECT"
      have v: "rid \<in> kr_id ` set (ns_rules v)" "found v (pr_dst_ref rule) dst"
        using rid p(1) found_extends [OF dst] by (simp_all add: appends_def)
      show "runs (add_operand rule rid RO_DST_OBJECT None (Some dst) 0 (pr_dst_ref rule) None v)
        (\<lambda>t. \<exists>p q. appends s [p, q] t \<and> kp_rule_id p = rid \<and> kp_rule_id q = rid \<and> kp_operand_role p = RO_SRC_OBJECT \<and>
          kp_operand_role q = RO_DST_OBJECT \<and> addr_targets t (pr_src_ref rule) [p] \<and> addr_targets t (pr_dst_ref rule) [q])"
      proof (rule runs_mono [OF address_operand_ok [OF appendsD(1) [OF p(1)] v(1) _ assms(4) v(2)]], simp, elim exE conjE)
        fix w q assume q: "appends v [q] w" "addr_targets w (pr_dst_ref rule) [q]" "kp_rule_id q = rid" "kp_operand_role q = RO_DST_OBJECT"
        have "addr_targets w (pr_src_ref rule) [p]"
          using p(2) q(1) found_extends unfolding addr_targets_def appends_def by blast
        with p q steady_then [OF u appends_trans [OF p(1) q(1)]] show "\<exists>p q. appends s [p, q] w \<and> kp_rule_id p = rid \<and>
            kp_rule_id q = rid \<and> kp_operand_role p = RO_SRC_OBJECT \<and> kp_operand_role q = RO_DST_OBJECT \<and>
            addr_targets w (pr_src_ref rule) [p] \<and> addr_targets w (pr_dst_ref rule) [q]" by auto
      qed
    qed
  qed
qed

definition service_targets :: "norm_state \<Rightarrow> canonical_operand list \<Rightarrow> bool" where
  "service_targets s ps \<longleftrightarrow> (\<forall>p \<in> set ps. \<exists>i. kp_target_object_id p = Some i \<and> service_id s i)"

lemma service_targets_extends: "service_targets s ps \<Longrightarrow> extends s t \<Longrightarrow> service_targets t ps"
  unfolding service_targets_def service_id_def using extends_family by blast

lemma service_operands_ok:
  assumes "norm_ok s" "rid \<in> kr_id ` set (ns_rules s)" "rule_lines_ok rule" "\<forall>i \<in> set is. service_id s i"
  shows "runs (append_service_operands rule rid is s) (\<lambda>t. \<exists>ps. appends s ps t \<and> length ps = length is \<and> service_targets t ps \<and>
    (\<forall>p \<in> set ps. kp_rule_id p = rid \<and> kp_operand_role p = RO_SERVICE))"
proof -
  define add where "add = (\<lambda>(position, i).
       add_operand rule rid RO_SERVICE None (Some i) position
         (if truthy (pr_service_ref rule) then str_of (pr_service_ref rule) else pr_protocol rule)
         (Some (''protocol_operand='' @ protocol_kind_value (pr_operand_kind rule))))"
  have "runs (fold_r add (List.enumerate n is) s) (\<lambda>t. \<exists>ps. appends s ps t \<and> length ps = length is \<and> service_targets t ps \<and>
    (\<forall>p \<in> set ps. kp_rule_id p = rid \<and> kp_operand_role p = RO_SERVICE))" for n
    using assms(1,2,4)
  proof (induction "is" arbitrary: n s)
    case Nil
    then show ?case using steady_refl [of s] by (simp add: steady_appends service_targets_def)
  next
    case (Cons i "is")
    have "target_ok s RO_SERVICE None (Some i)" using Cons.prems(3) by (simp add: target_ok_def service_id_def)
    from add_operand_appends [OF Cons.prems(1,2) this assms(3)]
    have one: "runs (add (n, i) s) (\<lambda>t. \<exists>p. appends s [p] t \<and> is_operand rid RO_SERVICE None (Some i) p)"
      by (simp add: add_def)
    show ?case unfolding enumerate_simps fold_r.simps runs_bind
    proof (rule runs_mono [OF one], elim exE conjE)
      fix t p assume p: "appends s [p] t" "is_operand rid RO_SERVICE None (Some i) p"
      have r: "rid \<in> kr_id ` set (ns_rules t)" "\<forall>i \<in> set is. service_id t i" "service_id t i"
        using p(1) Cons.prems(2,3) extends_family by (auto simp: appends_def service_id_def)
      show "runs (fold_r add (List.enumerate (Suc n) is) t) (\<lambda>t. \<exists>ps. appends s ps t \<and> length ps = length (i # is) \<and>
          service_targets t ps \<and> (\<forall>p \<in> set ps. kp_rule_id p = rid \<and> kp_operand_role p = RO_SERVICE))"
      proof (rule runs_mono [OF Cons.IH [OF appendsD(1) [OF p(1)] r(1,2)]], elim exE conjE)
        fix u ps assume ps: "appends t ps u" "length ps = length is" "service_targets u ps"
          "\<forall>p \<in> set ps. kp_rule_id p = rid \<and> kp_operand_role p = RO_SERVICE"
        have "service_id u i" using r(3) appendsD(2) [OF ps(1)] extends_family by (simp add: service_id_def)
        with p(2) ps appends_trans [OF p(1) ps(1)] show "\<exists>ps. appends s ps u \<and> length ps = length (i # is) \<and> service_targets u ps \<and>
            (\<forall>p \<in> set ps. kp_rule_id p = rid \<and> kp_operand_role p = RO_SERVICE)"
          by (intro exI [of _ "p # ps"]) (auto simp: is_operand_def service_targets_def)
      qed
    qed
  qed
  then show ?thesis by (simp add: append_service_operands_def add_def)
qed


section \<open>One rule\<close>

definition with_role :: "rule_role \<Rightarrow> canonical_operand list \<Rightarrow> canonical_operand list" where
  "with_role role ps = filter (\<lambda>p. kp_operand_role p = role) ps"

definition rule_ops :: "norm_state \<Rightarrow> parsed_access_rule \<Rightarrow> uuid \<Rightarrow> canonical_operand list \<Rightarrow> bool" where
  "rule_ops s rule rid ps \<longleftrightarrow>
     (\<forall>p \<in> set ps. kp_rule_id p = rid) \<and>
     zone_ops s (pr_src_zone rule) (with_role RO_SRC_ZONE ps) \<and> zone_ops s (pr_dst_zone rule) (with_role RO_DST_ZONE ps) \<and>
     addr_targets s (pr_src_ref rule) (with_role RO_SRC_OBJECT ps) \<and> addr_targets s (pr_dst_ref rule) (with_role RO_DST_OBJECT ps) \<and>
     service_targets s (with_role RO_SERVICE ps) \<and> with_role RO_SERVICE ps \<noteq> []"

definition row_fields :: "parsed_access_rule \<Rightarrow> canonical_rule \<Rightarrow> bool" where
  "row_fields rule row \<longleftrightarrow>
     kr_action row = pr_action rule \<and> kr_enabled row = pr_enabled rule \<and> kr_priority row = pr_order rule \<and>
     kr_section row = Some (pr_acl_name rule)"

lemma zone_ops_extends: "zone_ops s zone ps \<Longrightarrow> extends s t \<Longrightarrow> zone_ops t zone ps"
  unfolding zone_ops_def using zone_named_extends by (auto split: if_splits)

lemma addr_targets_extends: "addr_targets s ref ps \<Longrightarrow> extends s t \<Longrightarrow> addr_names t = addr_names s \<Longrightarrow> addr_targets t ref ps"
  unfolding addr_targets_def using found_extends by blast

lemma rule_ops_extends: "rule_ops s rule rid ps \<Longrightarrow> extends s t \<Longrightarrow> addr_names t = addr_names s \<Longrightarrow> rule_ops t rule rid ps"
  unfolding rule_ops_def using zone_ops_extends addr_targets_extends service_targets_extends by blast

lemma roles_of:
  assumes "\<forall>p \<in> set zs. kp_operand_role p = RO_SRC_ZONE" "\<forall>p \<in> set ys. kp_operand_role p = RO_DST_ZONE"
    and "kp_operand_role p = RO_SRC_OBJECT" "kp_operand_role q = RO_DST_OBJECT"
    and "\<forall>p \<in> set ss. kp_operand_role p = RO_SERVICE"
  shows "with_role RO_SRC_ZONE (zs @ ys @ p # q # ss) = zs" "with_role RO_DST_ZONE (zs @ ys @ p # q # ss) = ys"
    "with_role RO_SRC_OBJECT (zs @ ys @ p # q # ss) = [p]" "with_role RO_DST_OBJECT (zs @ ys @ p # q # ss) = [q]"
    "with_role RO_SERVICE (zs @ ys @ p # q # ss) = ss"
  using assms by (auto simp: with_role_def filter_empty_conv filter_id_conv)

definition rule_ok :: "parsed_access_rule \<Rightarrow> bool" where
  "rule_ok r \<longleftrightarrow> rule_lines_ok r \<and> ref_ok (pr_src_ref r) \<and> ref_ok (pr_dst_ref r)"

text \<open>The operands of a rule whose row is there.\<close>

lemma operands_step:
  assumes "norm_ok s" "has_key s ''addr:any''" "has_key s ''service:any''" "rid \<in> kr_id ` set (ns_rules s)" "rule_ok rule"
  shows "runs (bind_r (materialize_zone_operands rule rid s) (\<lambda>s. bind_r (materialize_address_operands rule rid s) (\<lambda>s.
      bind_r (ensure_services_for_rule rule s) (\<lambda>(services, s). append_service_operands rule rid services s))))
    (\<lambda>t. \<exists>ps. appends s ps t \<and> rule_ops t rule rid ps)"
  (is "runs _ ?Q")
proof -
  have ok: "rule_lines_ok rule" "ref_ok (pr_src_ref rule)" "ref_ok (pr_dst_ref rule)" "0 \<le> pr_line_start rule"
    using assms(5) by (simp_all add: rule_ok_def rule_lines_ok_def)
  have any: "has_key t ''addr:any''" "has_key t ''service:any''" "rid \<in> kr_id ` set (ns_rules t)" if "appends s ps t" for ps t
    using that assms(2-4) extends_has_key by (auto simp: appends_def)
  show ?thesis
    unfolding materialize_zone_operands_def runs_bind
  proof (rule runs_mono [OF zone_operand_ok [OF assms(1,4) _ ok(1)]], simp,
      elim exE conjE)
    fix t zs assume zs: "appends s zs t" "zone_ops t (pr_src_zone rule) zs" "\<forall>p \<in> set zs. kp_rule_id p = rid \<and> kp_operand_role p = RO_SRC_ZONE"
    show "runs (zone_operand rule rid RO_DST_ZONE (pr_dst_zone rule) t) (\<lambda>t. runs (materialize_address_operands rule rid t) (\<lambda>t.
        runs (ensure_services_for_rule rule t) (\<lambda>x. runs (case x of (services, t) \<Rightarrow> append_service_operands rule rid services t) ?Q)))"
    proof (rule runs_mono [OF zone_operand_ok [OF appendsD(1) [OF zs(1)] any(3) [OF zs(1)] _ ok(1)]], simp, elim exE conjE)
      fix u ys assume ys: "appends t ys u" "zone_ops u (pr_dst_zone rule) ys" "\<forall>p \<in> set ys. kp_rule_id p = rid \<and> kp_operand_role p = RO_DST_ZONE"
      note zy = appends_trans [OF zs(1) ys(1)]
      show "runs (materialize_address_operands rule rid u) (\<lambda>t.
          runs (ensure_services_for_rule rule t) (\<lambda>x. runs (case x of (services, t) \<Rightarrow> append_service_operands rule rid services t) ?Q))"
      proof (rule runs_mono [OF address_operands_ok [OF appendsD(1) [OF zy] any(1) [OF zy] any(3) [OF zy] ok(1-3)]], elim exE conjE)
        fix v p q assume pq: "appends u [p, q] v" "kp_rule_id p = rid" "kp_rule_id q = rid" "kp_operand_role p = RO_SRC_OBJECT"
          "kp_operand_role q = RO_DST_OBJECT" "addr_targets v (pr_src_ref rule) [p]" "addr_targets v (pr_dst_ref rule) [q]"
        note zypq = appends_trans [OF zy pq(1)]
        show "runs (ensure_services_for_rule rule v) (\<lambda>x. runs (case x of (services, t) \<Rightarrow> append_service_operands rule rid services t) ?Q)"
        proof (rule runs_mono [OF rule_services_ok [OF appendsD(1) [OF zypq] any(2) [OF zypq] ok(4)]], clarify)
          fix "is" w assume w: "steady v w" "is \<noteq> []" "\<forall>i \<in> set is. service_id w i"
          note sw = then_steady [OF zypq w(1)]
          show "runs (append_service_operands rule rid is w) ?Q"
          proof (rule runs_mono [OF service_operands_ok [OF appendsD(1) [OF sw] any(3) [OF sw] ok(1) w(3)]], elim exE conjE)
            fix x ss assume ss: "appends w ss x" "length ss = length is" "service_targets x ss"
              "\<forall>p \<in> set ss. kp_rule_id p = rid \<and> kp_operand_role p = RO_SERVICE"
            have vx: "appends v ss x" by (rule steady_then [OF w(1) ss(1)])
            have ext: "extends v x" "extends u x" "extends t x" and names: "addr_names x = addr_names v"
              using vx appendsD(2) [OF vx] extends_trans [OF appendsD(2) [OF pq(1)] appendsD(2) [OF vx]]
                extends_trans [OF appendsD(2) [OF ys(1)] extends_trans [OF appendsD(2) [OF pq(1)] appendsD(2) [OF vx]]]
              by (simp_all add: appends_def)
            have roles: "\<forall>p \<in> set zs. kp_operand_role p = RO_SRC_ZONE" "\<forall>p \<in> set ys. kp_operand_role p = RO_DST_ZONE"
              "\<forall>p \<in> set ss. kp_operand_role p = RO_SERVICE" using zs(3) ys(3) ss(4) by blast+
            have ids: "\<forall>r \<in> set (zs @ ys @ p # q # ss). kp_rule_id r = rid" using zs(3) ys(3) pq(2,3) ss(4) by auto
            have "ss \<noteq> []" using ss(2) w(2) by auto
            with ids have "rule_ops x rule rid (zs @ ys @ p # q # ss)"
              unfolding rule_ops_def roles_of [OF roles(1,2) pq(4,5) roles(3)]
              using zone_ops_extends [OF zs(2) ext(3)] zone_ops_extends [OF ys(2) ext(2)] addr_targets_extends [OF pq(6) ext(1) names]
                addr_targets_extends [OF pq(7) ext(1) names] ss(3) by blast
            then show "?Q x" using appends_trans [OF sw ss(1)] by (intro exI [of _ "zs @ ys @ p # q # ss"]) simp
          qed
        qed
      qed
    qed
  qed
qed


section \<open>Issues and the row of a rule\<close>

lemma aux_steady:
  assumes "norm_ok s"
  shows "steady s (s\<lparr>ns_protocol_blockers := b\<rparr>)" "steady s (s\<lparr>ns_signatures := sg\<rparr>)"
proof -
  have e: "extends s (s\<lparr>ns_protocol_blockers := b\<rparr>)" "extends s (s\<lparr>ns_signatures := sg\<rparr>)" by (simp_all add: extends_def)
  have "norm_ok (s\<lparr>ns_protocol_blockers := b\<rparr>)" "norm_ok (s\<lparr>ns_signatures := sg\<rparr>)"
    by (intro norm_ok_step [OF assms e(1)] norm_ok_step [OF assms e(2)]; simp)+
  with e show "steady s (s\<lparr>ns_protocol_blockers := b\<rparr>)" "steady s (s\<lparr>ns_signatures := sg\<rparr>)"
    by (simp_all add: steady_def addr_names_def has_key_def)
qed

lemma rule_issue_steady:
  "norm_ok s \<Longrightarrow> rule_lines_ok rule \<Longrightarrow> runs (rule_issue rule icode message fragment reason s) (steady s)"
  unfolding rule_issue_def rule_lines_ok_def by (rule emit_issue_steady) simp_all

lemma usage_issues_steady:
  assumes "norm_ok s" "rule_lines_ok rule"
  shows "runs (emit_rule_usage_issues rule s) (steady s)"
  unfolding emit_rule_usage_issues_def
  by (rule runs_steady; split if_split; intro conjI impI; (rule rule_issue_steady)?)
    (use assms in \<open>auto intro: steady_refl dest: steadyD\<close>)

lemma duplicate_issue_steady:
  assumes "norm_ok s" "rule_lines_ok rule"
  shows "runs (emit_textual_duplicate_issue rule s) (steady s)"
proof (cases "map_of (ns_signatures s) (rule_signature rule)")
  case None
  then show ?thesis using aux_steady(2) [OF assms(1)] by (simp add: emit_textual_duplicate_issue_def)
next
  case (Some first)
  then show ?thesis
    unfolding emit_textual_duplicate_issue_def option.case by (simp only: option.case) (rule rule_issue_steady [OF assms])
qed

lemma validate_steady:
  assumes "norm_ok s" "rule_lines_ok rule"
  shows "runs (validate_protocol_operand rule s) (\<lambda>(b, t). steady s t)"
proof -
  have "runs (bind_r (rule_issue rule icode message fragment reason s) (\<lambda>t. Inr (True, t))) (\<lambda>(b, t). steady s t)"
    for icode message fragment reason
    using rule_issue_steady [OF assms] by simp
  moreover have "runs (Inr (False, s) :: exc + bool \<times> norm_state) (\<lambda>(b, t). steady s t)" using steady_refl [OF assms(1)] by simp
  ultimately show ?thesis unfolding validate_protocol_operand_def by (simp only: split: if_split) blast
qed

text \<open>A state with one more rule.\<close>

definition adds_rule :: "norm_state \<Rightarrow> canonical_rule \<Rightarrow> canonical_operand list \<Rightarrow> norm_state \<Rightarrow> bool" where
  "adds_rule s row ps t \<longleftrightarrow>
     norm_ok t \<and> extends s t \<and> addr_names t = addr_names s \<and> ns_rules t = ns_rules s @ [row] \<and>
     ns_operands t = ns_operands s @ ps"

lemma adds_then: "adds_rule s row ps t \<Longrightarrow> appends t qs u \<Longrightarrow> adds_rule s row (ps @ qs) u"
  unfolding adds_rule_def appends_def using extends_trans by auto

lemma steady_adds: "steady s t \<Longrightarrow> adds_rule t row ps u \<Longrightarrow> adds_rule s row ps u"
  unfolding adds_rule_def steady_def using extends_trans by metis

lemma create_rule_ok:
  assumes "norm_ok s" "rule_lines_ok rule"
  shows "runs (create_rule_with_trace rule key status description s) (\<lambda>(rid, t). \<exists>row. adds_rule s row [] t \<and>
    kr_id row = rid \<and> kr_rule_key row = key \<and> row_fields rule row)"
proof -
  let ?row = "\<lparr>kr_id = fresh_id s, kr_snapshot_id = ns_snapshot_id s, kr_rule_key = key, kr_name = key,
      kr_action = pr_action rule, kr_enabled = pr_enabled rule, kr_priority = pr_order rule,
      kr_section = Some (pr_acl_name rule), kr_description = description\<rparr>"
  let ?t = "(drawn s)\<lparr>ns_rules := ns_rules s @ [?row]\<rparr>"
  have e: "extends s ?t" by (simp add: extends_def)
  have "ids_ok ?t (map kr_id (ns_rules ?t))" using ids_ok_fresh [OF assms(1) norm_okD(6) [OF assms(1)] e] by simp
  then have ok: "norm_ok ?t" by (intro norm_ok_step [OF assms(1) e]) simp_all
  then have t: "adds_rule s ?row [] ?t" using e by (simp add: adds_rule_def addr_names_def has_key_def)
  have emit: "runs (emit_trace (pr_line_start rule) (pr_line_end rule) TK_RULE (fresh_id s) fragment role why ?t)
      (\<lambda>u. adds_rule s ?row [] u)" for fragment role why
    by (rule runs_mono [OF emit_trace_steady [OF ok]])
      (use assms(2) adds_then [OF t] in \<open>force simp: rule_lines_ok_def steady_appends\<close>)+
  show ?thesis
    unfolding create_rule_with_trace_def runs_bind
    by (rule runs_mono [OF emit], simp only: runs_Inr prod.case, intro exI [of _ ?row] conjI) (simp_all add: row_fields_def)
qed

text \<open>What one rule adds, and the keys given so far.\<close>

definition rule_added ::
  "(string \<times> nat) list \<Rightarrow> norm_state \<Rightarrow> parsed_access_rule \<Rightarrow> (string \<times> nat) list \<Rightarrow> norm_state \<Rightarrow> bool" where
  "rule_added seen s rule seen' t \<longleftrightarrow>
     (\<exists>row ps. adds_rule s row ps t \<and> row_fields rule row \<and> rule_ops t rule (kr_id row) ps \<and>
        build_rule_key (pr_rule_name rule) seen = (kr_rule_key row, seen'))"

text \<open>The row of a rule with its operands.\<close>

definition rule_entry :: "parsed_access_rule \<Rightarrow> string \<Rightarrow> rule_processing_status \<Rightarrow> string option \<Rightarrow> norm_state \<Rightarrow> exc + norm_state" where
  "rule_entry rule key status description s =
     bind_r (create_rule_with_trace rule key status description s) (\<lambda>(rid, s).
     bind_r (materialize_zone_operands rule rid s) (\<lambda>s.
     bind_r (materialize_address_operands rule rid s) (\<lambda>s.
     bind_r (ensure_services_for_rule rule s) (\<lambda>(services, s).
       append_service_operands rule rid services s))))"

lemma materialize_rule_rows:
  "materialize_rule rule (seen, s) =
     bind_r (emit_rule_usage_issues rule s) (\<lambda>s. bind_r (emit_textual_duplicate_issue rule s) (\<lambda>s.
     bind_r (validate_protocol_operand rule s) (\<lambda>(blocker, s).
       case resolve_rule_processing rule blocker of (status, reasons, eligible) \<Rightarrow>
       case build_rule_key (pr_rule_name rule) seen of (key, seen) \<Rightarrow>
       bind_r (rule_entry rule key status (build_rule_metadata rule status reasons eligible)
           (s\<lparr>ns_protocol_blockers := AList.update (pr_rule_name rule) blocker (ns_protocol_blockers s)\<rparr>)) (\<lambda>s. Inr (seen, s)))))"
proof -
  have assoc: "bind_r (bind_r m f) g = bind_r m (\<lambda>x. bind_r (f x) g)" for m :: "exc + 'x" and f :: "'x \<Rightarrow> exc + 'y" and g :: "'y \<Rightarrow> exc + 'z"
    by (cases m) simp_all
  show ?thesis by (simp add: materialize_rule_def rule_entry_def assoc case_prod_unfold Let_def)
qed

lemma rule_rows_ok:
  assumes "norm_ok s" "has_key s ''addr:any''" "has_key s ''service:any''" "rule_ok rule"
  shows "runs (rule_entry rule key status description s) (\<lambda>t. \<exists>row ps. adds_rule s row ps t \<and> row_fields rule row \<and>
    rule_ops t rule (kr_id row) ps \<and> kr_rule_key row = key)"
  (is "runs _ ?Q")
proof -
  have lines: "rule_lines_ok rule" using assms(4) by (simp add: rule_ok_def)
  have main: "runs (case x of (rid, t) \<Rightarrow> bind_r (materialize_zone_operands rule rid t) (\<lambda>t.
      bind_r (materialize_address_operands rule rid t) (\<lambda>t.
      bind_r (ensure_services_for_rule rule t) (\<lambda>(services, t). append_service_operands rule rid services t)))) ?Q"
    if x: "case x of (rid, t) \<Rightarrow> \<exists>row. adds_rule s row [] t \<and> kr_id row = rid \<and> kr_rule_key row = key \<and> row_fields rule row" for x
  proof -
    from x obtain t row where t: "x = (kr_id row, t)" "adds_rule s row [] t" "kr_rule_key row = key" "row_fields rule row" by auto
    have any: "norm_ok t" "has_key t ''addr:any''" "has_key t ''service:any''" "kr_id row \<in> kr_id ` set (ns_rules t)"
      using t(2) assms(2,3) extends_has_key by (auto simp: adds_rule_def)
    have fin: "?Q v" if "\<exists>ps. appends t ps v \<and> rule_ops v rule (kr_id row) ps" for v
      using that t(3,4) adds_then [OF t(2)] by fastforce
    show ?thesis
      unfolding t(1) prod.case by (rule runs_mono [OF operands_step [OF any assms(4)] fin])
  qed
  show ?thesis
    unfolding rule_entry_def by (subst runs_bind) (rule runs_mono [OF create_rule_ok [OF assms(1) lines] main])
qed

lemma rule_step:
  assumes "norm_ok s" "has_key s ''addr:any''" "has_key s ''service:any''" "rule_ok rule"
  shows "runs (materialize_rule rule (seen, s)) (\<lambda>(seen', t). rule_added seen s rule seen' t)"
proof -
  have lines: "rule_lines_ok rule" using assms(4) by (simp add: rule_ok_def)
  obtain key seen' where key: "build_rule_key (pr_rule_name rule) seen = (key, seen')" by force
  have rows: "runs (case x of (blocker, t) \<Rightarrow> case resolve_rule_processing rule blocker of (status, reasons, eligible) \<Rightarrow>
      case build_rule_key (pr_rule_name rule) seen of (key, seen) \<Rightarrow>
      bind_r (rule_entry rule key status (build_rule_metadata rule status reasons eligible)
           (t\<lparr>ns_protocol_blockers := AList.update (pr_rule_name rule) blocker (ns_protocol_blockers t)\<rparr>)) (\<lambda>s. Inr (seen, s)))
      (\<lambda>(seen', t). rule_added seen s rule seen' t)" if x: "case x of (b, t) \<Rightarrow> steady s t" for x
  proof -
    obtain b t where bt: "x = (b, t)" "steady s t" using x by auto
    obtain status reasons eligible where st: "resolve_rule_processing rule b = (status, reasons, eligible)" by (metis prod.exhaust)
    let ?t = "t\<lparr>ns_protocol_blockers := AList.update (pr_rule_name rule) b (ns_protocol_blockers t)\<rparr>"
    have t: "steady s ?t" using bt(2) aux_steady(1) [OF steadyD(1) [OF bt(2)]] steady_trans by blast
    have any: "has_key ?t ''addr:any''" "has_key ?t ''service:any''"
      using assms(2,3) extends_has_key [OF steadyD(2) [OF t]] by blast+
    show ?thesis
      unfolding bt(1) prod.case st key runs_bind runs_Inr
      by (rule runs_mono [OF rule_rows_ok [OF steadyD(1) [OF t] any assms(4)]])
        (use key steady_adds [OF t] in \<open>simp add: rule_added_def, blast\<close>)
  qed
  have "runs (emit_rule_usage_issues rule s) (\<lambda>t. runs (emit_textual_duplicate_issue rule t) (\<lambda>u.
      runs (validate_protocol_operand rule u) (\<lambda>(b, v). steady s v)))"
    by (intro runs_mono [OF usage_issues_steady [OF assms(1) lines]] runs_mono [OF duplicate_issue_steady [OF _ lines]]
        runs_mono [OF validate_steady [OF _ lines]]) (auto intro: steady_trans dest: steadyD)
  then show ?thesis
    unfolding materialize_rule_rows runs_bind by (elim runs_mono) (use rows in \<open>simp only:\<close>)
qed

end
