(* ===== verification/Asa_Import.thy ===== *)
theory Asa_Import
  imports Asa_Rule_Steps
begin

text \<open>
  The whole normalization: for a configuration as the parser returns it, it never fails, adds one row
  per rule with the operands of the rule (\<open>normalize_state_ok\<close>), gives every row a key of its own
  (\<open>rule_keys_distinct\<close>), and its command violates no constraint of the tables (\<open>command_saved\<close>).
\<close>

section \<open>Keys of rules\<close>

fun rule_keys :: "string list \<Rightarrow> (string \<times> nat) list \<Rightarrow> string list" where
  "rule_keys [] seen = []"
| "rule_keys (n # ns) seen = (case build_rule_key n seen of (k, seen') \<Rightarrow> k # rule_keys ns seen')"

definition key_text :: "string \<Rightarrow> nat \<Rightarrow> string" where
  "key_text n c = (if c = 0 then n else n @ '':dup'' @ nat_str c)"

definition base_name :: "string \<Rightarrow> bool" where
  "base_name n \<longleftrightarrow> (\<exists>a i. n = a @ '':'' @ nat_str i)"

lemma build_rule_key_text:
  "build_rule_key n seen = (key_text n (dict_get seen n 0), AList.update n (dict_get seen n 0 + 1) seen)"
  by (simp add: build_rule_key_def key_text_def Let_def)

lemma nat_str_no_colon: "CHR '':'' \<notin> set (nat_str n)"
  using nat_str_digits [of "CHR '':''" n] by (auto simp: is_digit_def code_def)

lemma nat_str_no_d: "CHR ''d'' \<notin> set (nat_str n)"
  using nat_str_digits [of "CHR ''d''" n] by (auto simp: is_digit_def code_def)

lemma nat_str_last: "takeWhile (\<lambda>c. c \<noteq> CHR '':'') (rev (nat_str i) @ CHR '':'' # s) = rev (nat_str i)"
  using nat_str_no_colon [of i] by (subst takeWhile_append2) auto

lemma key_text_inj:
  assumes "base_name n" "base_name m" "key_text n c = key_text m d"
  shows "n = m \<and> c = d"
proof -
  let ?last = "\<lambda>s. takeWhile (\<lambda>x. x \<noteq> CHR '':'') (rev s)"
  have base: "CHR ''d'' \<notin> set (?last (key_text x 0))" if "base_name x" for x
    using that nat_str_no_d by (auto simp: base_name_def key_text_def nat_str_last)
  have dup: "?last (key_text x (Suc k)) = rev (nat_str (Suc k)) @ ''pud''" for x k
    using nat_str_no_colon [of "Suc k"] by (simp add: key_text_def takeWhile_append)
  show ?thesis
  proof (cases c; cases d)
    fix c' d' assume e: "c = Suc c'" "d = Suc d'"
    have "?last (key_text n c) = ?last (key_text m d)" using assms(3) by simp
    with e dup have "nat_str c = nat_str d" by simp
    then have "c = d" by simp
    with assms(3) e show ?thesis by (simp add: key_text_def)
  next
    fix d' assume e: "c = 0" "d = Suc d'"
    have "CHR ''d'' \<in> set (?last (key_text m d))" unfolding e dup by simp
    with base [OF assms(1)] assms(3) e show ?thesis by simp
  next
    fix c' assume e: "c = Suc c'" "d = 0"
    have "CHR ''d'' \<in> set (?last (key_text n c))" unfolding e dup by simp
    with base [OF assms(2)] assms(3) e show ?thesis by simp
  qed (use assms(3) in \<open>simp add: key_text_def\<close>)
qed

lemma rule_keys_texts:
  "k \<in> set (rule_keys ns seen) \<Longrightarrow> \<exists>n c. n \<in> set ns \<and> dict_get seen n 0 \<le> c \<and> k = key_text n c"
proof (induction ns arbitrary: seen)
  case (Cons n ns)
  have up: "dict_get seen m 0 \<le> dict_get (AList.update n (dict_get seen n 0 + 1) seen) m 0" for m
    by (simp add: dict_get_update)
  from Cons.prems have "k = key_text n (dict_get seen n 0) \<or>
      k \<in> set (rule_keys ns (AList.update n (dict_get seen n 0 + 1) seen))" by (simp add: build_rule_key_text)
  then show ?case
  proof
    assume "k \<in> set (rule_keys ns (AList.update n (dict_get seen n 0 + 1) seen))"
    from Cons.IH [OF this] obtain m c where "m \<in> set ns" "k = key_text m c"
      "dict_get (AList.update n (dict_get seen n 0 + 1) seen) m 0 \<le> c" by blast
    with up [of m] show ?thesis by (intro exI [of _ m] exI [of _ c]) simp
  qed auto
qed simp

lemma rule_keys_distinct: "\<forall>n \<in> set ns. base_name n \<Longrightarrow> distinct (rule_keys ns seen)"
proof (induction ns arbitrary: seen)
  case (Cons n ns)
  let ?seen = "AList.update n (dict_get seen n 0 + 1) seen"
  have "key_text n (dict_get seen n 0) \<notin> set (rule_keys ns ?seen)"
  proof
    assume "key_text n (dict_get seen n 0) \<in> set (rule_keys ns ?seen)"
    from rule_keys_texts [OF this] obtain m c where m: "m \<in> set ns" "dict_get ?seen m 0 \<le> c"
      "key_text n (dict_get seen n 0) = key_text m c" by blast
    with key_text_inj Cons.prems have "m = n" "c = dict_get seen n 0" by (metis list.set_intros)+
    with m(2) show False by (simp add: dict_get_update)
  qed
  with Cons show ?case by (simp add: build_rule_key_text)
qed simp


section \<open>The rows of the rules\<close>

definition rows_ok :: "norm_state \<Rightarrow> parsed_access_rule list \<Rightarrow> bool" where
  "rows_ok s rules \<longleftrightarrow>
     list_all2 (\<lambda>rule row. row_fields rule row \<and>
       rule_ops s rule (kr_id row) (filter (\<lambda>p. kp_rule_id p = kr_id row) (ns_operands s))) rules (ns_rules s)"

lemma rows_ok_steady: "rows_ok s rules \<Longrightarrow> steady s t \<Longrightarrow> rows_ok t rules"
  unfolding rows_ok_def steady_def using rule_ops_extends by (auto elim!: list.rel_mono_strong)

lemma rows_ok_step:
  assumes "norm_ok s" "rows_ok s rules" "adds_rule s row ps t" "row_fields rule row" "rule_ops t rule (kr_id row) ps"
  shows "rows_ok t (rules @ [rule])"
proof -
  have t: "norm_ok t" "extends s t" "addr_names t = addr_names s" "ns_rules t = ns_rules s @ [row]"
    "ns_operands t = ns_operands s @ ps" using assms(3) by (simp_all add: adds_rule_def)
  have new: "kr_id row \<notin> kr_id ` set (ns_rules s)"
    using norm_okD(6) [OF t(1)] by (auto simp: t(4) ids_ok_def)
  have old: "kp_rule_id p \<in> kr_id ` set (ns_rules s)" if "p \<in> set (ns_operands s)" for p
    using norm_okD(7) [OF assms(1)] that by (simp add: operands_ok_def norm_operand_ok_def)
  have ps: "\<forall>p \<in> set ps. kp_rule_id p = kr_id row" using assms(5) by (simp add: rule_ops_def)
  have "filter (\<lambda>p. kp_rule_id p = kr_id row) (ns_operands s) = []"
    unfolding filter_empty_conv by (metis new old)
  with ps have f: "filter (\<lambda>p. kp_rule_id p = kr_id row) (ns_operands t) = ps" by (simp add: t(5))
  have g: "filter (\<lambda>p. kp_rule_id p = kr_id r) (ns_operands t) = filter (\<lambda>p. kp_rule_id p = kr_id r) (ns_operands s)"
    if "r \<in> set (ns_rules s)" for r
    using new ps that by (auto simp: t(5) filter_empty_conv)
  have "list_all2 (\<lambda>rule row. row_fields rule row \<and>
      rule_ops t rule (kr_id row) (filter (\<lambda>p. kp_rule_id p = kr_id row) (ns_operands t))) rules (ns_rules s)"
    using assms(2) unfolding rows_ok_def
    by (rule list.rel_mono_strong) (use g rule_ops_extends [OF _ t(2,3)] in auto)
  with assms(4,5) f show ?thesis by (simp add: rows_ok_def t(4) list_all2_appendI)
qed

lemma rules_fold:
  assumes "norm_ok s" "has_key s ''addr:any''" "has_key s ''service:any''" "list_all rule_ok rules" "rows_ok s old"
  shows "runs (fold_r materialize_rule rules (seen, s)) (\<lambda>(seen', t). norm_ok t \<and> extends s t \<and> addr_names t = addr_names s \<and>
    rows_ok t (old @ rules) \<and> map kr_rule_key (ns_rules t) = map kr_rule_key (ns_rules s) @ rule_keys (map pr_rule_name rules) seen)"
  using assms
proof (induction rules arbitrary: old seen s)
  case (Cons rule rules)
  have "rule_ok rule" using Cons.prems(4) by simp
  show ?case unfolding fold_r.simps runs_bind
  proof (rule runs_mono [OF rule_step [OF Cons.prems(1-3) \<open>rule_ok rule\<close>]], clarify)
    fix seen' t assume "rule_added seen s rule seen' t"
    then obtain row ps where r: "adds_rule s row ps t" "row_fields rule row" "rule_ops t rule (kr_id row) ps"
      "build_rule_key (pr_rule_name rule) seen = (kr_rule_key row, seen')" unfolding rule_added_def by blast
    have t: "norm_ok t" "extends s t" "addr_names t = addr_names s" "ns_rules t = ns_rules s @ [row]"
      using r(1) by (simp_all add: adds_rule_def)
    have any: "has_key t ''addr:any''" "has_key t ''service:any''" "list_all rule_ok rules"
      using Cons.prems(2-4) extends_has_key [OF t(2)] by simp_all
    note rows = rows_ok_step [OF Cons.prems(1,5) r(1-3)]
    show "runs (fold_r materialize_rule rules (seen', t)) (\<lambda>(seen', u). norm_ok u \<and> extends s u \<and> addr_names u = addr_names s \<and>
      rows_ok u (old @ rule # rules) \<and>
      map kr_rule_key (ns_rules u) = map kr_rule_key (ns_rules s) @ rule_keys (map pr_rule_name (rule # rules)) seen)"
      by (rule runs_mono [OF Cons.IH [OF t(1) any rows, of seen']])
        (use t(3,4) r(4) extends_trans [OF t(2)] in auto)
  qed
qed simp


section \<open>The whole normalization\<close>

definition parsed_ok :: "string parsed_config \<Rightarrow> bool" where
  "parsed_ok p \<longleftrightarrow>
     list_all address_header_ok (pc_address_objects p) \<and> list_all service_header_ok (pc_service_objects p) \<and>
     list_all rule_ok (pc_rules p) \<and> list_all (\<lambda>r. base_name (pr_rule_name r)) (pc_rules p)"

lemma initial_ok: "inj ids \<Longrightarrow> norm_ok (initial_state ids clock ncode version source)"
  by (simp add: initial_state_def norm_ok_def objects_ok_def zones_ok_def members_ok_def operands_ok_def traces_ok_def ids_ok_def)

lemma sentinels_ok:
  assumes "norm_ok s"
  shows "runs (register_sentinel_objects s) (\<lambda>t. steady s t \<and> has_key t ''addr:any'' \<and> has_key t ''service:any'')"
proof -
  have wf: "object_wf (object_create i snap ''addr:any'' OF_ADDR OK_ANY_ADDR ''any'')"
    "object_wf (object_create i snap ''service:any'' OF_SERVICE OK_ANY_SERVICE ''any'')"
    "builder_key ''service:any''" for i snap
    by (simp_all add: object_wf_defs builder_key_def)
  show ?thesis
    unfolding register_sentinel_objects_def runs_bind
  proof (rule runs_mono [OF register_new_steady [OF assms _ wf(1)]])
    fix t assume "steady s t \<and> has_key t (ko_object_key (object_create (fresh_id s) (ns_snapshot_id s) ''addr:any'' OF_ADDR OK_ANY_ADDR ''any''))"
    then have t: "steady s t" "has_key t ''addr:any''" by simp_all
    show "runs (register_new (object_create (fresh_id t) (ns_snapshot_id t) ''service:any'' OF_SERVICE OK_ANY_SERVICE ''any'') t)
        (\<lambda>t. steady s t \<and> has_key t ''addr:any'' \<and> has_key t ''service:any'')"
      by (rule runs_mono [OF register_new_steady [OF steadyD(1) [OF t(1)] _ wf(2)]])
        (use wf(3) steady_trans [OF t(1)] extends_has_key [OF steadyD(2) t(2)] in auto)
  qed simp_all
qed

lemma address_headers_fold:
  assumes "norm_ok s" "list_all address_header_ok items"
  shows "runs (fold_r materialize_address_object items s) (\<lambda>t. norm_ok t \<and> extends s t \<and> ns_rules t = ns_rules s \<and>
    ns_operands t = ns_operands s \<and> addr_names t = po_name ` set items \<union> addr_names s)"
  using assms
proof (induction items arbitrary: s)
  case (Cons item items)
  have "address_header_ok item" using Cons.prems(2) by simp
  show ?case unfolding fold_r.simps runs_bind
    by (rule runs_mono [OF address_header_step [OF Cons.prems(1) \<open>address_header_ok item\<close>]], elim conjE,
        rule runs_mono [OF Cons.IH])
      (use Cons.prems(2) extends_trans in auto)
qed simp

lemma headers_steady:
  assumes "norm_ok s" "parsed_ok p"
  shows "runs (bind_r (fold_r materialize_address_group (pc_address_objects p) s) (\<lambda>s.
     bind_r (fold_r materialize_service_object (pc_service_objects p) s) (\<lambda>s.
     bind_r (fold_r materialize_service_group (pc_service_objects p) s) (\<lambda>s.
       fold_r materialize_protocol_group (pc_service_objects p) s)))) (steady s)"
proof -
  have item: "x \<in> set (pc_address_objects p) \<Longrightarrow> address_header_ok x" "y \<in> set (pc_service_objects p) \<Longrightarrow> service_header_ok y" for x y
    using assms(2) by (auto simp: parsed_ok_def list_all_iff)
  have folds: "runs (fold_r materialize_address_group (pc_address_objects p) t) (steady t)"
    "runs (fold_r materialize_service_object (pc_service_objects p) t) (steady t)"
    "runs (fold_r materialize_service_group (pc_service_objects p) t) (steady t)"
    "runs (fold_r materialize_protocol_group (pc_service_objects p) t) (steady t)" if "norm_ok t" for t
    using steadyD(1) item that
    by (auto intro!: steady_fold address_group_steady service_header_steady service_groups_steady)
  show ?thesis
    by (rule runs_steady [OF folds(1) [OF assms(1)]], rule runs_steady [OF folds(2) [OF steadyD(1)]], assumption,
        rule runs_steady [OF folds(3) [OF steadyD(1)]], assumption, rule folds(4) [OF steadyD(1)])
qed


text \<open>What a finished normalization holds.\<close>

definition finished :: "(nat \<Rightarrow> uuid) \<Rightarrow> string parsed_config \<Rightarrow> norm_state \<Rightarrow> bool" where
  "finished ids p t \<longleftrightarrow>
     norm_ok t \<and> ns_ids t = ids \<and> addr_names t = po_name ` set (pc_address_objects p) \<and> rows_ok t (pc_rules p) \<and>
     map kr_rule_key (ns_rules t) = rule_keys (map pr_rule_name (pc_rules p)) []"

lemma normalize_state_ok:
  assumes "inj ids" "parsed_ok p"
  shows "runs (normalize_state p (initial_state ids clock ncode version source))
    (\<lambda>t. finished ids p t \<and> extends (initial_state ids clock ncode version source) t)"
proof -
  let ?s = "initial_state ids clock ncode version source"
  have s: "addr_names ?s = {}" "ns_rules ?s = []" "ns_operands ?s = []" "ns_ids ?s = ids"
    by (simp_all add: initial_state_def addr_names_def has_key_def)
  have ok: "list_all address_header_ok (pc_address_objects p)" "list_all rule_ok (pc_rules p)"
    using assms(2) by (simp_all add: parsed_ok_def)
  have eq: "normalize_state p ?s = bind_r (register_sentinel_objects ?s) (\<lambda>s.
      bind_r (fold_r materialize_address_object (pc_address_objects p) s) (\<lambda>s.
      bind_r (bind_r (fold_r materialize_address_group (pc_address_objects p) s) (\<lambda>s.
        bind_r (fold_r materialize_service_object (pc_service_objects p) s) (\<lambda>s.
        bind_r (fold_r materialize_service_group (pc_service_objects p) s) (\<lambda>s.
        fold_r materialize_protocol_group (pc_service_objects p) s)))) (\<lambda>s.
      bind_r (fold_r materialize_rule (pc_rules p) ([], s)) (\<lambda>(_, s). Inr s))))"
  proof -
    have assoc: "bind_r (bind_r m f) g = bind_r m (\<lambda>x. bind_r (f x) g)" for m :: "exc + 'x" and f :: "'x \<Rightarrow> exc + 'y" and g :: "'y \<Rightarrow> exc + 'z"
      by (cases m) simp_all
    show ?thesis by (simp only: normalize_state_def assoc)
  qed
  show ?thesis unfolding eq
  proof (subst runs_bind, rule runs_mono [OF sentinels_ok [OF initial_ok [OF assms(1)]]], subst runs_bind, elim conjE)
    fix t assume t: "steady ?s t" "has_key t ''addr:any''" "has_key t ''service:any''"
    show "runs (fold_r materialize_address_object (pc_address_objects p) t) (\<lambda>s.
        runs (bind_r (bind_r (fold_r materialize_address_group (pc_address_objects p) s) (\<lambda>s.
          bind_r (fold_r materialize_service_object (pc_service_objects p) s) (\<lambda>s.
          bind_r (fold_r materialize_service_group (pc_service_objects p) s) (\<lambda>s.
          fold_r materialize_protocol_group (pc_service_objects p) s)))) (\<lambda>s.
        bind_r (fold_r materialize_rule (pc_rules p) ([], s)) (\<lambda>(_, s). Inr s)))
        (\<lambda>t. finished ids p t \<and> extends ?s t))"
    proof (rule runs_mono [OF address_headers_fold [OF steadyD(1) [OF t(1)] ok(1)]], subst runs_bind, elim conjE,
        rule runs_mono [OF headers_steady [OF _ assms(2)]], assumption, subst runs_bind)
      fix u v assume u: "norm_ok u" "extends t u" "ns_rules u = ns_rules t" "ns_operands u = ns_operands t"
        "addr_names u = po_name ` set (pc_address_objects p) \<union> addr_names t" and v: "steady u v"
      have ext: "extends t v" "extends ?s v" using u(2) steadyD(2) [OF v] steadyD(2) [OF t(1)] extends_trans by blast+
      have v': "norm_ok v" "has_key v ''addr:any''" "has_key v ''service:any''" "rows_ok v []" "ns_rules v = []"
        "addr_names v = po_name ` set (pc_address_objects p)"
        using t u v s extends_has_key [OF ext(1)] by (simp_all add: steady_def rows_ok_def)
      show "runs (fold_r materialize_rule (pc_rules p) ([], v)) (\<lambda>x. runs (case x of (_, s) \<Rightarrow> Inr s)
          (\<lambda>t. finished ids p t \<and> extends ?s t))"
        by (rule runs_mono [OF rules_fold [OF v'(1-3) ok(2) v'(4)]])
          (use v'(5,6) s(4) extends_trans [OF ext(2)] extends_ids(1) [OF ext(2)] extends_ids(1) in \<open>auto simp: finished_def\<close>)
    qed
  qed
qed


section \<open>The command\<close>

lemma map_of_id_set:
  assumes "norm_ok s"
  shows "map ko_id (map snd (ns_objects_by_id s)) = map fst (ns_objects_by_id s)"
    "map_of (ns_objects_by_id s) i = Some x \<longleftrightarrow> x \<in> set (map snd (ns_objects_by_id s)) \<and> ko_id x = i"
proof -
  have d: "distinct (map fst (ns_objects_by_id s))"
    and o: "\<And>i x. map_of (ns_objects_by_id s) i = Some x \<Longrightarrow> ko_id x = i"
    using norm_okD(3) [OF assms] unfolding objects_ok_def ids_ok_def by blast+
  have k: "ko_id x = i" if "(i, x) \<in> set (ns_objects_by_id s)" for i x
    using o map_of_is_SomeI [OF d that] by blast
  show "map ko_id (map snd (ns_objects_by_id s)) = map fst (ns_objects_by_id s)" using k by auto
  show "map_of (ns_objects_by_id s) i = Some x \<longleftrightarrow> x \<in> set (map snd (ns_objects_by_id s)) \<and> ko_id x = i"
    using k d by (force simp: map_of_eq_Some_iff)
qed

lemma family_id_row: "norm_ok s \<Longrightarrow> family_id s fam i \<Longrightarrow> \<exists>x \<in> set (sv_objects (command_of s)). ko_id x = i \<and> ko_object_family x = fam"
  unfolding family_id_def command_of_def using map_of_id_set(2) by fastforce

lemma zone_named_row: "zone_named s name i \<Longrightarrow> \<exists>z \<in> set (sv_zones (command_of s)). kz_id z = i \<and> kz_name z = name"
  unfolding zone_named_def command_of_def by (auto dest!: map_of_SomeD intro: rev_bexI)

lemma zone_id_row: "zone_id s i \<Longrightarrow> i \<in> kz_id ` set (sv_zones (command_of s))"
  unfolding zone_id_def command_of_def by (force dest!: map_of_SomeD)

text \<open>Ids of a command are unique and its references resolved.\<close>

definition command_ok :: "uuid set \<Rightarrow> save_command \<Rightarrow> bool" where
  "command_ok is cmd \<longleftrightarrow>
     (\<forall>xs \<in> {map kz_id (sv_zones cmd), map ko_id (sv_objects cmd), map km_id (sv_object_members cmd), map kr_id (sv_rules cmd),
        map kp_id (sv_operands cmd), map ki_id (sv_issues cmd)}. distinct xs \<and> set xs \<subseteq> is) \<and>
     (\<forall>m \<in> set (sv_object_members cmd). km_parent_object_id m \<in> ko_id ` set (sv_objects cmd) \<and>
        km_child_object_id m \<in> ko_id ` set (sv_objects cmd)) \<and>
     (\<forall>p \<in> set (sv_operands cmd). kp_rule_id p \<in> kr_id ` set (sv_rules cmd) \<and>
        ((\<exists>z. kp_target_zone_id p = Some z \<and> kp_target_object_id p = None \<and> z \<in> kz_id ` set (sv_zones cmd)) \<or>
         (\<exists>i. kp_target_zone_id p = None \<and> kp_target_object_id p = Some i \<and> i \<in> ko_id ` set (sv_objects cmd))))"

lemma ids_ok_range: "ids_ok s is \<Longrightarrow> distinct is \<and> set is \<subseteq> range (ns_ids s)"
  by (auto simp: ids_ok_def)

lemma norm_command_ok:
  assumes "norm_ok s"
  shows "command_ok (range (ns_ids s)) (command_of s)"
  unfolding command_ok_def
proof (intro conjI)
  note k = norm_okD [OF assms]
  have o: "map ko_id (sv_objects (command_of s)) = map fst (ns_objects_by_id s)"
    "map kz_id (sv_zones (command_of s)) = map (kz_id \<circ> snd) (ns_zones_by_key s)"
    using map_of_id_set(1) [OF assms] by (simp_all add: command_of_def)
  have r: "sv_object_members (command_of s) = ns_object_members s" "sv_rules (command_of s) = ns_rules s"
    "sv_operands (command_of s) = ns_operands s" "sv_issues (command_of s) = ns_issues s"
    by (simp_all add: command_of_def)
  show "\<forall>xs \<in> {map kz_id (sv_zones (command_of s)), map ko_id (sv_objects (command_of s)),
      map km_id (sv_object_members (command_of s)), map kr_id (sv_rules (command_of s)),
      map kp_id (sv_operands (command_of s)), map ki_id (sv_issues (command_of s))}. distinct xs \<and> set xs \<subseteq> range (ns_ids s)"
    unfolding o r using k ids_ok_range
    by (simp only: objects_ok_def zones_ok_def members_ok_def operands_ok_def ball_simps) blast
  have row: "i \<in> ko_id ` set (sv_objects (command_of s))" if "family_id s fam i" for fam i
    using family_id_row [OF assms that] by blast
  show "\<forall>m \<in> set (sv_object_members (command_of s)). km_parent_object_id m \<in> ko_id ` set (sv_objects (command_of s)) \<and>
      km_child_object_id m \<in> ko_id ` set (sv_objects (command_of s))"
    using k(5) row unfolding r members_ok_def member_ok_def by blast
  show "\<forall>p \<in> set (sv_operands (command_of s)). kp_rule_id p \<in> kr_id ` set (sv_rules (command_of s)) \<and>
      ((\<exists>z. kp_target_zone_id p = Some z \<and> kp_target_object_id p = None \<and> z \<in> kz_id ` set (sv_zones (command_of s))) \<or>
       (\<exists>i. kp_target_zone_id p = None \<and> kp_target_object_id p = Some i \<and> i \<in> ko_id ` set (sv_objects (command_of s))))"
    using k(7) row zone_id_row unfolding r operands_ok_def norm_operand_ok_def by (metis (no_types, lifting))
qed

text \<open>The rows of one rule.\<close>

definition operand_rows :: "save_command \<Rightarrow> canonical_rule \<Rightarrow> rule_role \<Rightarrow> canonical_operand list" where
  "operand_rows cmd row role = with_role role (filter (\<lambda>p. kp_rule_id p = kr_id row) (sv_operands cmd))"

definition zone_imported :: "save_command \<Rightarrow> string option \<Rightarrow> canonical_operand list \<Rightarrow> bool" where
  "zone_imported cmd zone ps \<longleftrightarrow>
     (if truthy zone
      then \<exists>z \<in> set (sv_zones cmd). map kp_target_zone_id ps = [Some (kz_id z)] \<and> kz_name z = str_of zone
      else ps = [])"

definition address_imported :: "string set \<Rightarrow> save_command \<Rightarrow> string \<Rightarrow> canonical_operand list \<Rightarrow> bool" where
  "address_imported names cmd ref ps \<longleftrightarrow>
     (\<exists>x \<in> set (sv_objects cmd). map kp_target_object_id ps = [Some (ko_id x)] \<and> denotes names ref x)"

definition rule_imported :: "string set \<Rightarrow> save_command \<Rightarrow> parsed_access_rule \<Rightarrow> canonical_rule \<Rightarrow> bool" where
  "rule_imported names cmd rule row \<longleftrightarrow>
     row_fields rule row \<and>
     zone_imported cmd (pr_src_zone rule) (operand_rows cmd row RO_SRC_ZONE) \<and>
     zone_imported cmd (pr_dst_zone rule) (operand_rows cmd row RO_DST_ZONE) \<and>
     address_imported names cmd (pr_src_ref rule) (operand_rows cmd row RO_SRC_OBJECT) \<and>
     address_imported names cmd (pr_dst_ref rule) (operand_rows cmd row RO_DST_OBJECT) \<and>
     operand_rows cmd row RO_SERVICE \<noteq> [] \<and>
     (\<forall>p \<in> set (operand_rows cmd row RO_SERVICE). \<exists>x \<in> set (sv_objects cmd).
        kp_target_object_id p = Some (ko_id x) \<and> ko_object_family x = OF_SERVICE)"

lemma zone_ops_imported: "zone_ops s zone ps \<Longrightarrow> zone_imported (command_of s) zone ps"
  unfolding zone_ops_def zone_imported_def using zone_named_row by (auto split: if_splits) metis

lemma addr_ops_imported: "norm_ok s \<Longrightarrow> addr_targets s ref ps \<Longrightarrow> address_imported (addr_names s) (command_of s) ref ps"
  unfolding addr_targets_def address_imported_def found_def command_of_def using map_of_id_set(2) by fastforce

lemma rule_ops_imported:
  assumes "norm_ok s" "row_fields rule row"
    "rule_ops s rule (kr_id row) (filter (\<lambda>p. kp_rule_id p = kr_id row) (ns_operands s))"
  shows "rule_imported (addr_names s) (command_of s) rule row"
proof -
  have r: "operand_rows (command_of s) row role = with_role role (filter (\<lambda>p. kp_rule_id p = kr_id row) (ns_operands s))" for role
    by (simp add: operand_rows_def command_of_def)
  have serv: "\<exists>x \<in> set (sv_objects (command_of s)). kp_target_object_id p = Some (ko_id x) \<and> ko_object_family x = OF_SERVICE"
    if "service_targets s ps" "p \<in> set ps" for p ps
    using that family_id_row [OF assms(1)] unfolding service_targets_def service_id_def by metis
  show ?thesis
    unfolding rule_imported_def r
    using assms(2,3) zone_ops_imported addr_ops_imported [OF assms(1)] serv unfolding rule_ops_def by blast
qed

lemma normalize_imports:
  assumes "inj ids" "parsed_ok p"
  shows "\<exists>cmd trs. normalize_config ids clock ncode version source p = Inr (cmd, trs) \<and>
    sv_source_snapshot_id cmd = source \<and> sv_normalizer_code cmd = ncode \<and> sv_normalizer_version cmd = version \<and>
    command_ok (range ids) cmd \<and> distinct (map kr_rule_key (sv_rules cmd)) \<and>
    list_all2 (rule_imported (po_name ` set (pc_address_objects p)) cmd) (pc_rules p) (sv_rules cmd) \<and>
    distinct (map tr_id trs) \<and> tr_id ` set trs \<subseteq> range ids \<and> (\<forall>t \<in> set trs. trace_ok t \<and> tr_source_snapshot_id t = source)"
proof -
  from runs_D [OF normalize_state_ok [OF assms, of clock ncode version source]] obtain s where
    s: "normalize_state p (initial_state ids clock ncode version source) = Inr s" "finished ids p s"
    "extends (initial_state ids clock ncode version source) s" by blast
  from s(2) have f: "norm_ok s" "ns_ids s = ids" "addr_names s = po_name ` set (pc_address_objects p)" "rows_ok s (pc_rules p)"
    "map kr_rule_key (ns_rules s) = rule_keys (map pr_rule_name (pc_rules p)) []" by (simp_all add: finished_def)
  have "\<forall>n \<in> set (map pr_rule_name (pc_rules p)). base_name n" using assms(2) by (auto simp: parsed_ok_def list_all_iff)
  then have "distinct (map kr_rule_key (ns_rules s))" using rule_keys_distinct by (simp add: f(5))
  moreover have "list_all2 (rule_imported (po_name ` set (pc_address_objects p)) (command_of s)) (pc_rules p) (ns_rules s)"
    using f(4) unfolding rows_ok_def f(3) [symmetric]
    by (rule list.rel_mono_strong) (use rule_ops_imported [OF f(1)] in blast)
  moreover have "ns_source_snapshot_id s = source" using s(3) by (simp add: extends_def initial_state_def)
  then have "distinct (map tr_id (ns_trace_records s)) \<and> tr_id ` set (ns_trace_records s) \<subseteq> range ids \<and>
      (\<forall>t \<in> set (ns_trace_records s). trace_ok t \<and> tr_source_snapshot_id t = source)"
    using norm_okD(9) [OF f(1)] f(2) by (auto simp: traces_ok_def ids_ok_def)
  ultimately show ?thesis
    using s(1,3) norm_command_ok [OF f(1)] f(2)
    by (intro exI [of _ "command_of s"] exI [of _ "ns_trace_records s"])
      (simp add: normalize_config_def command_of_def extends_def initial_state_def)
qed



section \<open>Saving the command\<close>

text \<open>With new ids and a new source text a command of the normalizer is stored, or refused for the type of
  a value.\<close>

definition new_ids :: "canonical_db \<Rightarrow> (nat \<Rightarrow> uuid) \<Rightarrow> bool" where
  "new_ids db ids \<longleftrightarrow>
     inj ids \<and> range ids \<inter> (kz_id ` set (db_zones db) \<union> ko_id ` set (db_objects db) \<union>
       km_id ` set (db_members db) \<union> kr_id ` set (db_rules db) \<union> kp_id ` set (db_operands db) \<union> ki_id ` set (db_issues db)) = {}"

lemma fresh_in: "distinct (map f xs) \<Longrightarrow> set (map f xs) \<subseteq> A \<Longrightarrow> A \<inter> f ` set ys = {} \<Longrightarrow> fresh_ids f xs ys"
  by (auto simp: fresh_ids_def list_all_iff)

lemma command_saved:
  assumes "command_ok (range ids) cmd" "new_ids db ids" "i \<notin> snapshot_ids db" "sv_source_snapshot_id cmd \<in> set (db_sources db)"
    and "(sv_source_snapshot_id cmd, sv_normalizer_code cmd, sv_normalizer_version cmd) \<notin> snapshot_key ` set (db_snapshots db)"
  shows "save_linked i cmd db (after_save i now cmd db)"
proof -
  have n: "range ids \<inter> kz_id ` set (db_zones db) = {}" "range ids \<inter> ko_id ` set (db_objects db) = {}"
    "range ids \<inter> km_id ` set (db_members db) = {}" "range ids \<inter> kr_id ` set (db_rules db) = {}"
    "range ids \<inter> kp_id ` set (db_operands db) = {}" "range ids \<inter> ki_id ` set (db_issues db) = {}"
    using assms(2) unfolding new_ids_def by blast+
  have rows: "ko_id ` set (db_objects (after_save i now cmd db)) = ko_id ` set (db_objects db) \<union> ko_id ` set (sv_objects cmd)"
    "kz_id ` set (db_zones (after_save i now cmd db)) = kz_id ` set (db_zones db) \<union> kz_id ` set (sv_zones cmd)"
    "kr_id ` set (db_rules (after_save i now cmd db)) = kr_id ` set (db_rules db) \<union> kr_id ` set (sv_rules cmd)"
    by (simp_all add: image_Un image_image)
  note ok = assms(1) [unfolded command_ok_def]
  have "fresh_ids kz_id (sv_zones cmd) (db_zones db)" "fresh_ids ko_id (sv_objects cmd) (db_objects db)"
    "fresh_ids km_id (sv_object_members cmd) (db_members db)" "fresh_ids kr_id (sv_rules cmd) (db_rules db)"
    "fresh_ids kp_id (sv_operands cmd) (db_operands db)" "fresh_ids ki_id (sv_issues cmd) (db_issues db)"
    by (rule fresh_in [OF _ _ n(1)] fresh_in [OF _ _ n(2)] fresh_in [OF _ _ n(3)] fresh_in [OF _ _ n(4)]
        fresh_in [OF _ _ n(5)] fresh_in [OF _ _ n(6)]; use ok in blast)+
  moreover have "km_parent_object_id ` set (sv_object_members cmd) \<subseteq> ko_id ` set (db_objects (after_save i now cmd db))"
    "km_child_object_id ` set (sv_object_members cmd) \<subseteq> ko_id ` set (db_objects (after_save i now cmd db))"
    "kp_rule_id ` set (sv_operands cmd) \<subseteq> kr_id ` set (db_rules (after_save i now cmd db))"
    unfolding rows using ok by blast+
  moreover have "operand_target_ok (after_save i now cmd db) p" if "p \<in> set (sv_operands cmd)" for p
    using ok that unfolding operand_target_ok_def rows by fastforce
  ultimately show ?thesis
    unfolding save_linked_def using assms(3-5) by blast
qed

end
