(* ===== verification/Asa_Properties.thy ===== *)
theory Asa_Properties
  imports Asa_Acl_Facts Asa_Import
begin

text \<open>
  The properties of the import of Cisco ASA configurations: what the parser reads from a text and what
  the normalizer makes of it.
\<close>

section \<open>A sample configuration\<close>

text \<open>A host, a group over it and a network, and three rules as the parser returns them.\<close>

definition asa_header :: "string \<Rightarrow> parsed_object_type \<Rightarrow> str_dict \<Rightarrow> string list \<Rightarrow> int \<Rightarrow> string parsed_object" where
  "asa_header name kind d members line =
     \<lparr>po_name = name, po_kind = kind, po_payload = \<lparr>py_fields = d, py_members = members, py_raw_lines = []\<rparr>,
      po_source_line = line, po_source_line_end = line + 1, po_source_fragment = name\<rparr>"

definition asa_rule :: "string \<Rightarrow> string \<Rightarrow> string \<Rightarrow> string option \<Rightarrow> string \<Rightarrow> int \<Rightarrow> parsed_access_rule" where
  "asa_rule protocol src dst service name order =
     \<lparr>pr_acl_name = ''OUT'', pr_rule_name = name, pr_action = ''PERMIT'', pr_protocol = protocol, pr_src_ref = src,
      pr_dst_ref = dst, pr_service_ref = service, pr_enabled = True, pr_order = order, pr_line_start = order + 5,
      pr_line_end = order + 5, pr_src_zone = Some ''inside'', pr_dst_zone = None, pr_unresolved_zone = False,
      pr_binding_type = AB_INTERFACE, pr_zone_inference = ZI_DIRECTIONAL, pr_time_range = None, pr_log = False,
      pr_operand_kind = PK_LITERAL, pr_protocol_group_ref = None, pr_protocol_number = None,
      pr_usage_type = AU_FIREWALL_POLICY, pr_crypto_map_name = None, pr_crypto_map_seq = None, pr_raw_line_text = name,
      pr_binding_context_key = ''interface'', pr_binding_interface = Some ''inside'', pr_binding_direction = Some ''in''\<rparr>"

definition asa_parsed :: "string parsed_config" where
  "asa_parsed =
     \<lparr>pc_address_objects =
        [asa_header ''H'' PT_ADDRESS [(''type'', ''host''), (''ip'', ''10.0.0.1'')] [] 1,
         asa_header ''G'' PT_ADDRESS_GROUP [] [''H'', ''net:10.1.0.0/255.255.0.0''] 3],
      pc_service_objects = [],
      pc_rules = [asa_rule ''tcp'' ''G'' ''host:10.0.0.9'' (Some ''443'') ''OUT:1'' 1,
        asa_rule ''ospf'' ''any'' ''H'' None ''OUT:2'' 2],
      pc_crypto_map_links = []\<rparr>"

lemma asa_parsed_ok: "parsed_ok asa_parsed"
proof -
  have ok: "list_all address_header_ok (pc_address_objects asa_parsed)" "list_all rule_ok (pc_rules asa_parsed)"
    "map pr_rule_name (pc_rules asa_parsed) = [''OUT:1'', ''OUT:2'']" by code_simp+
  have n: "nat_str 1 = ''1''" "nat_str 2 = ''2''" by code_simp+
  have "base_name ''OUT:1''" unfolding base_name_def
    by (intro exI [of _ "''OUT''"] exI [of _ 1]) (simp only: n append_Cons append_Nil)
  moreover have "base_name ''OUT:2''" unfolding base_name_def
    by (intro exI [of _ "''OUT''"] exI [of _ 2]) (simp only: n append_Cons append_Nil)
  ultimately have "list_all base_name (map pr_rule_name (pc_rules asa_parsed))" unfolding ok(3) by simp
  then have "list_all (\<lambda>r. base_name (pr_rule_name r)) (pc_rules asa_parsed)" by (simp add: list.pred_map comp_def)
  moreover have "pc_service_objects asa_parsed = []" by (simp add: asa_parsed_def)
  ultimately show ?thesis using ok(1,2) by (simp add: parsed_ok_def)
qed

definition asa_ace :: ace where
  "asa_ace =
     \<lparr>ace_acl = ''OUT'', ace_action = ''permit'', ace_protocol = AP_NAME ''tcp'', ace_src = EP_HOST ''10.0.0.1'',
      ace_dst = EP_NET ''10.1.0.0'' ''255.255.0.0'', ace_service = AS_PORT ''neq'' ''23'', ace_log = True,
      ace_time_range = Some ''WORK'', ace_inactive = True\<rparr>"

lemma asa_ace_ok: "ace_ok asa_ace"
  by code_simp


section \<open>Parsing\<close>

text \<open>C22 The tree of a configuration is exactly its indentation: the lines that count, in order, each
  under the nearest line above it with a smaller indent; and the source span of a line is the line with
  the block of deeper lines that follows it.  The walk always ends.\<close>

theorem tree_and_spans_exact:
  "build_tree raw = spec_tree (kept_lines (numbered_lines raw)) \<and>
   list_all (\<lambda>i.
     let ls = kept_lines (numbered_lines raw); e = block_end (map cl_indent ls) i in
     span_of (build_tree raw) i = Inr \<lparr>ss_line_start = cl_line_no (ls ! i), ss_line_end = cl_line_no (ls ! (e - 1)),
       ss_fragment = join [CHR 0x0A] (map cl_text (drop i (take e ls)))\<rparr>) [0..<length (build_tree raw)]"
  using build_nodes [of raw] span_of_block [of _ raw] by (simp add: list_all_iff Let_def)




text \<open>C18 The operator of a port condition is lost: lines that differ only in it (equal, less, greater,
  not equal) are read as the same line, so a rule for every port but one becomes a rule for this port.\<close>

theorem port_operator_lost:
  assumes "ace_ok a" "ace_service a = AS_PORT operator p" "operator2 \<in> port_operators"
  shows "parse_acl_line (ace_line (a\<lparr>ace_service := AS_PORT operator2 p\<rparr>)) = parse_acl_line (ace_line a)"
proof -
  have words: "list_all (\<lambda>w. w \<noteq> [] \<and> list_all (\<lambda>c. \<not> is_space c) w) [''eq'', ''lt'', ''gt'', ''neq'']"
    "list_all (\<lambda>w. lower w = w) [''eq'', ''lt'', ''gt'', ''neq'']" by code_simp+
  have "operator2 \<in> set [''eq'', ''lt'', ''gt'', ''neq'']" using assms(3) by (simp add: port_operators_def)
  with words have o: "operator2 \<noteq> []" "list_all (\<lambda>c. \<not> is_space c) operator2" "lower operator2 = operator2"
    unfolding list_all_iff by blast+
  have m: "operator2 \<notin> modifier_words" using assms(3) by (auto simp: port_operators_def modifier_words_def)
  have "ace_ok (a\<lparr>ace_service := AS_PORT operator2 p\<rparr>)"
    using assms o m by (auto simp: ace_ok_def ace_words_def)
  moreover have "parsed_ace (a\<lparr>ace_service := AS_PORT operator2 p\<rparr>) = parsed_ace a"
    using assms(2) by (simp add: parsed_ace_def ace_service_ref_def split: ace_protocol.split)
  ultimately show ?thesis using line_parsed assms(1) by metis
qed

theorem port_operator_lost_witness:
  "parse_acl_line (ace_line (asa_ace\<lparr>ace_service := AS_PORT ''eq'' ''23''\<rparr>)) = parse_acl_line (ace_line asa_ace)"
  using port_operator_lost [OF asa_ace_ok, of "''neq''" "''23''" "''eq''"] by (simp add: asa_ace_def port_operators_def)


section \<open>Normalizing\<close>

text \<open>C19 A rule for one of the protocols that the parser knows and the service builder does not (igmp,
  eigrp, ospf, pim, sctp) gets the service of all traffic, and nothing is recorded about it.\<close>

theorem routing_protocol_widened:
  assumes "pr_operand_kind rule = PK_LITERAL" "pr_service_ref rule = None"
    and "pr_protocol rule \<in> {''igmp'', ''eigrp'', ''ospf'', ''pim'', ''sctp''}"
    and "map_of (ns_objects_by_key s) ''service:any'' = Some i"
  shows "pr_protocol rule \<in> set known_literal_protocols \<and> ensure_service_for_rule rule s = Inr (i, s)"
proof -
  let ?ps = "[''igmp'', ''eigrp'', ''ospf'', ''pim'', ''sctp'']"
  have ps: "list_all (\<lambda>p. lower p = p) ?ps" "list_all (\<lambda>p. \<not> is_digits p) ?ps" by code_simp+
  have p: "pr_protocol rule \<in> set ?ps" using assms(3) by simp
  with ps have l: "lower (pr_protocol rule) = pr_protocol rule" "\<not> is_digits (pr_protocol rule)"
    unfolding list_all_iff by blast+
  have "build_service_from_payload f snap (pr_protocol rule) k [(''protocol'', pr_protocol rule)] = None" for f snap k
    using p l by (auto simp: build_service_from_payload_def str_of_def)
  with assms l show ?thesis
    by (auto simp: known_literal_protocols_def ensure_service_for_rule_def ensure_service_object_from_ref_def
        truthy_def str_of_def ensure_default_service_def any_service_def id_of_key_def Let_def)
qed

definition asa_state :: norm_state where
  "asa_state = (case register_sentinel_objects (initial_state id int ''cisco'' ''1'' 70) of Inr s \<Rightarrow> s)"

theorem routing_protocol_widened_witness:
  "pr_protocol (pc_rules asa_parsed ! 1) = ''ospf'' \<and>
   ensure_service_for_rule (pc_rules asa_parsed ! 1) asa_state = Inr (2, asa_state)"
proof -
  have r: "pr_operand_kind (pc_rules asa_parsed ! 1) = PK_LITERAL \<and> pr_service_ref (pc_rules asa_parsed ! 1) = None \<and>
      pr_protocol (pc_rules asa_parsed ! 1) = ''ospf''" by code_simp
  have i: "map_of (ns_objects_by_key asa_state) ''service:any'' = Some 2" by code_simp
  from routing_protocol_widened [of "pc_rules asa_parsed ! 1" asa_state 2] r i show ?thesis by simp
qed

text \<open>C3 Normalizing a parsed configuration never fails and imports it exactly: one rule per parsed rule, in
  order, with its action, flags and priority and with a key of its own; its zones are the zones named;
  source and destination are the one object that each reference denotes (the object of everything only for
  \<open>any\<close>, a host or network with its address, a named object, or an unresolved one), and there is at
  least one service.  Ids are unique and references resolved, and traces have valid lines.\<close>

theorem import_exact:
  assumes "inj ids" "parsed_ok p"
  shows "\<exists>cmd trs. normalize_config ids clock ncode version source p = Inr (cmd, trs) \<and>
    command_ok (range ids) cmd \<and> distinct (map kr_rule_key (sv_rules cmd)) \<and>
    list_all2 (rule_imported (po_name ` set (pc_address_objects p)) cmd) (pc_rules p) (sv_rules cmd) \<and>
    list_all trace_ok trs"
  using normalize_imports [OF assms] by (fastforce simp: list_all_iff)

theorem import_exact_witness:
  "\<exists>cmd trs. normalize_config id int ''asa'' ''1'' 70 asa_parsed = Inr (cmd, trs) \<and>
    distinct (map kr_rule_key (sv_rules cmd)) \<and> list_all2 (rule_imported {''H'', ''G''} cmd) (pc_rules asa_parsed) (sv_rules cmd)"
proof -
  have n: "po_name ` set (pc_address_objects asa_parsed) = {''H'', ''G''}" by (simp add: asa_parsed_def asa_header_def)
  from import_exact [OF inj_on_id asa_parsed_ok, of int "''asa''" "''1''" 70] show ?thesis unfolding n by blast
qed

lemma long_acl_name:
  assumes "list_all2 (rule_imported names cmd) rules (sv_rules cmd)" "rule \<in> set rules" "64 < length (pr_acl_name rule)"
  shows "\<not> command_fits inet cmd"
proof -
  from assms(1,2) obtain row where "row \<in> set (sv_rules cmd)" "kr_section row = Some (pr_acl_name rule)"
    unfolding list_all2_conv_all_nth in_set_conv_nth rule_imported_def row_fields_def by metis
  with assms(3) have "\<not> list_all rule_fits (sv_rules cmd)"
    by (auto simp: list_all_iff rule_fits_def null_or_def string_fits_def intro!: bexI [of _ row])
  then show ?thesis by (simp add: command_fits_def)
qed

text \<open>C11 An import is stored, or refused for the type of a value: with new ids, for a known source text that
  was not normalized this way before, the command of the normalizer violates no constraint of the tables.
  If its values fit their columns the snapshot is stored and reads back, in whatever order the database
  returns its rows; otherwise the save reports the table that refuses a value, and nothing is stored.  It is
  always refused when a rule comes from an access list whose name, which the parser and the normalizer
  accept, has more than 64 characters.\<close>

theorem import_stored:
  assumes "db_ok db" "new_ids db ids" "i \<notin> snapshot_ids db" "parsed_ok p" "source \<in> set (db_sources db)"
    and "(source, ncode, version) \<notin> snapshot_key ` set (db_snapshots db)"
  shows "\<exists>cmd trs. normalize_config ids clock ncode version source p = Inr (cmd, trs) \<and>
    (if command_fits (db_inet db) cmd
     then \<exists>db'. save_canonical_snapshot reread i now cmd db = (Inr (i, True), db') \<and> db_ok db' \<and>
       (\<forall>db2. same_rows db' db2 \<longrightarrow>
         (\<exists>g. get_canonical_snapshot db2 i = Inr g \<and> graph_reads (db_inet db) i now cmd g))
     else save_canonical_snapshot reread i now cmd db = (Inl (DataError (misfit (db_inet db) cmd)), db)) \<and>
    ((\<exists>rule \<in> set (pc_rules p). 64 < length (pr_acl_name rule)) \<longrightarrow> \<not> command_fits (db_inet db) cmd)"
proof -
  from assms(2) have "inj ids" by (simp add: new_ids_def)
  from normalize_imports [OF this assms(4), of clock ncode version source] obtain cmd trs where
    c: "normalize_config ids clock ncode version source p = Inr (cmd, trs)" "command_ok (range ids) cmd"
    "sv_source_snapshot_id cmd = source" "sv_normalizer_code cmd = ncode" "sv_normalizer_version cmd = version"
    "list_all2 (rule_imported (po_name ` set (pc_address_objects p)) cmd) (pc_rules p) (sv_rules cmd)" by blast
  have l: "save_linked i cmd db (after_save i now cmd db)"
    by (rule command_saved [OF c(2) assms(2,3)]) (use assms(5,6) c(3-5) in simp_all)
  note sv = save_linked_result [OF l, of reread]
  show ?thesis
  proof (cases "command_fits (db_inet db) cmd")
    case True
    then have st: "save_canonical_snapshot reread i now cmd db = (Inr (i, True), after_save i now cmd db)" by (simp add: sv)
    with True c(1) save_keeps_db_ok [OF assms(1) st] saved_graph [OF assms(1) l] long_acl_name [OF c(6)]
    show ?thesis by auto
  next
    case False
    with c(1) show ?thesis by (simp add: sv)
  qed
qed

definition asa_inet :: "string \<Rightarrow> string option" where
  "asa_inet s = map_option ipv4_text (parse_ipv4 s)"

definition asa_single :: "string \<Rightarrow> string parsed_config" where
  "asa_single acl =
     \<lparr>pc_address_objects = [], pc_service_objects = [],
      pc_rules = [(asa_rule ''tcp'' ''any'' ''any'' (Some ''443'') ''OUT:1'' 1)\<lparr>pr_acl_name := acl\<rparr>], pc_crypto_map_links = []\<rparr>"

definition asa_long_name :: string where
  "asa_long_name = replicate 65 CHR ''A''"

lemma asa_single_ok: "parsed_ok (asa_single ''OUT'')" "parsed_ok (asa_single asa_long_name)"
proof -
  have "list_all rule_ok (pc_rules (asa_single ''OUT''))" "list_all rule_ok (pc_rules (asa_single asa_long_name))"
    by code_simp+
  moreover have "nat_str 1 = ''1''" by code_simp
  then have "base_name ''OUT:1''" unfolding base_name_def
    by (intro exI [of _ "''OUT''"] exI [of _ 1]) (simp only: append_Cons append_Nil)
  ultimately show "parsed_ok (asa_single ''OUT'')" "parsed_ok (asa_single asa_long_name)"
    by (simp_all add: parsed_ok_def asa_single_def asa_rule_def)
qed

definition asa_import :: "string \<Rightarrow> exc + save_command \<times> trace_record list" where
  "asa_import acl = normalize_config id int ''asa'' ''1'' 70 (asa_single acl)"

lemma asa_import_fits: "case asa_import ''OUT'' of Inr (cmd, _) \<Rightarrow> command_fits asa_inet cmd | _ \<Rightarrow> False"
  by code_simp

lemma asa_empty_db:
  "new_ids (empty_db asa_inet [70]) id" "60 \<notin> snapshot_ids (empty_db asa_inet [70])" "70 \<in> set (db_sources (empty_db asa_inet [70]))"
  "(70, ''asa'', ''1'') \<notin> snapshot_key ` set (db_snapshots (empty_db asa_inet [70]))" "db_inet (empty_db asa_inet [70]) = asa_inet"
  by (simp_all add: new_ids_def empty_db_def snapshot_ids_def)

definition asa_reread :: "canonical_db \<Rightarrow> save_command \<Rightarrow> exc + canonical_snapshot option" where
  "asa_reread db cmd = Inl (ValueError ''aborted'')"

theorem import_stored_witness:
  "(\<exists>cmd trs db'. asa_import ''OUT'' = Inr (cmd, trs) \<and>
     save_canonical_snapshot asa_reread 60 5 cmd (empty_db asa_inet [70]) = (Inr (60, True), db') \<and>
     (\<exists>g. get_canonical_snapshot db' 60 = Inr g \<and> graph_reads asa_inet 60 5 cmd g)) \<and>
   (\<exists>cmd trs table. asa_import asa_long_name = Inr (cmd, trs) \<and>
     save_canonical_snapshot asa_reread 60 5 cmd (empty_db asa_inet [70]) = (Inl (DataError table), empty_db asa_inet [70]))"
proof (rule conjI)
  note st = import_stored [OF empty_db_ok asa_empty_db(1,2) _ asa_empty_db(3,4), of _ int asa_reread 5,
      unfolded asa_empty_db(5)]
  from st [OF asa_single_ok(1), folded asa_import_def] obtain cmd trs where
    c: "asa_import ''OUT'' = Inr (cmd, trs)" "if command_fits asa_inet cmd
     then \<exists>db'. save_canonical_snapshot asa_reread 60 5 cmd (empty_db asa_inet [70]) = (Inr (60, True), db') \<and> db_ok db' \<and>
       (\<forall>db2. same_rows db' db2 \<longrightarrow> (\<exists>g. get_canonical_snapshot db2 60 = Inr g \<and> graph_reads asa_inet 60 5 cmd g))
     else save_canonical_snapshot asa_reread 60 5 cmd (empty_db asa_inet [70]) =
       (Inl (DataError (misfit asa_inet cmd)), empty_db asa_inet [70])"
    by (elim exE conjE)
  from c(1) asa_import_fits have "command_fits asa_inet cmd" by simp
  moreover have "same_rows db db" for db by (simp add: same_rows_def)
  ultimately show "\<exists>cmd trs db'. asa_import ''OUT'' = Inr (cmd, trs) \<and>
     save_canonical_snapshot asa_reread 60 5 cmd (empty_db asa_inet [70]) = (Inr (60, True), db') \<and>
     (\<exists>g. get_canonical_snapshot db' 60 = Inr g \<and> graph_reads asa_inet 60 5 cmd g)"
    using c by (metis (full_types))
  have "\<exists>rule \<in> set (pc_rules (asa_single asa_long_name)). 64 < length (pr_acl_name rule)"
    by (simp add: asa_single_def asa_long_name_def)
  with st [OF asa_single_ok(2), folded asa_import_def] show "\<exists>cmd trs table. asa_import asa_long_name = Inr (cmd, trs) \<and>
     save_canonical_snapshot asa_reread 60 5 cmd (empty_db asa_inet [70]) = (Inl (DataError table), empty_db asa_inet [70])"
    by auto
qed

end
