(* ===== verification/Spec2Isabelle.thy ===== *)
theory Spec2Isabelle
  imports Execute_Properties Catalog_Properties Value_Properties Mapping_Run_Properties
    Projection_Properties Canonical_Properties Asa_Properties
begin

text \<open>
  The SD-WAN policy migrator translates the rules of a foreign firewall into policies of an SD-WAN
  product.  A parsed configuration is a \<^emph>\<open>canonical snapshot\<close> (zones, address objects, services and
  rules); the \<^emph>\<open>mapping\<close> module matches its objects with the objects of the SD-WAN catalog, lets the
  operator resolve what is missing or ambiguous, and keeps a mapping scope in the runtime cache; the
  \<^emph>\<open>execute\<close> module reads the mapped rules, compares them with the rules that the server has, and
  pushes the new ones.  The backend is \<open>src/src/app\<close>; paths below are relative to it.

  \<^bold>\<open>Conventions.\<close>  A call that may raise is a sum, \<open>Inl\<close> with an exception of \<open>Errors\<close> and its
  message, \<open>Inr\<close> with the value; a call that may also not return (cursor pagination against an
  arbitrary server) has the type \<open>'a result\<close>, where \<open>None\<close> is not returning.  Dictionaries whose
  order matters are association lists.  State is passed explicitly: the runtime cache, and the server
  as a state of any type that is only seen through the records of its requests (\<open>csp_api\<close>,
  \<open>mapping_api\<close>).  Text is ASCII, IPv4 addresses are 32-bit words.  Ids, times and digests
  (\<open>uuid4\<close>, \<open>datetime.now\<close>, SHA-256) are parameters.

  \<^bold>\<open>Theories.\<close>
    \<^item> \<open>Prelude\<close>, \<open>Py_Text\<close>, \<open>Errors\<close>, \<open>Ipv4\<close>: error and dictionary combinators with
      their lemma collections, Python's text operations and \<open>repr\<close>, exceptions, \<open>ipaddress\<close>.
    \<^item> \<open>Json_Hash\<close>: \<open>core/hashers.py\<close>.
    \<^item> \<open>Sdwan_Models\<close>, \<open>Csp_Client\<close>, \<open>Catalog_Gateway\<close>, \<open>Address_Groups\<close>:
      \<open>integrations/sdwan_csp_api\<close>: catalog models and fingerprint, paginated and chunked requests,
      conversion of the catalog, expansion of address groups.
    \<^item> \<open>Ttl_Store\<close>: \<open>infrastructure/cache/ttl_store.py\<close>.  The cache class of the library is a
      parameter with its documented laws (locale \<open>ttl_cache\<close>, interpreted by an instance that keeps
      deadlines); the store satisfies the port's contract \<open>runtime_cache_store\<close>, which the two
      repositories are proved against.
    \<^item> \<open>Rule_Values\<close>, \<open>Coverage\<close>, \<open>Rule_Resolution\<close>, \<open>Rules_Comparer\<close>: \<open>modules/execute/services\<close>:
      values of rules, the packets they denote, coverage, resolution of ids, comparison.
    \<^item> \<open>Execute_Plan\<close>, \<open>Execute_Gateway\<close>, \<open>Execute_Push\<close>, \<open>Push_Once\<close>, \<open>Execute_Prepare\<close>:
      plans with their repository, the policy gateway, the push as a sequence of atomic segments
      between awaits (so that pushes interleave), preparation of plans.
    \<^item> \<open>Mapping_Domain\<close>, \<open>Mapping_Matchers\<close>, \<open>Mapping_Results\<close>: \<open>modules/mapping/domain\<close> and
      \<open>services/mapping_objects\<close>: entities with their transitions, catalog indexes, matchers, results.
    \<^item> \<open>Canonical_Groups\<close>, \<open>Mapping_Rules\<close>: \<open>services/mapping_rules\<close>: the two group indexes (one
      model over the record \<open>group_ops\<close>), the results index, the rules builder, display indexes.
    \<^item> \<open>Mapping_Store\<close>, \<open>Mapping_Gateway\<close>, \<open>Mapping_Use_Cases\<close>, \<open>Mapping_Assign\<close>: the repository,
      the gateway that creates objects, and the use cases of \<open>modules/mapping/application\<close>.
    \<^item> \<open>Mapping_Reader\<close>: \<open>modules/execute/adapters/mapping_reader.py\<close>.
    \<^item> \<open>Mapping_Steps\<close>, \<open>Mapping_Run\<close>: the use cases as a step relation with its invariant, and the
      module from mapping to what the execute module reads.
    \<^item> \<open>Mapping_Projection\<close>, \<open>Projection_Facts\<close>, \<open>Projection_Total\<close>:
      \<open>application/get_mapping_scope_rules_projection.py\<close>: the rules of a scope for the interface.
    \<^item> \<open>Canonical_Domain\<close>, \<open>Canonical_Tables\<close>, \<open>Canonical_Scope\<close>, \<open>Canonical_Reader\<close>:
      \<open>modules/canonical\<close> and its reader in the mapping module: entities, the database tables with their
      column types, constraints and queries, expansion of groups, use cases.
    \<^item> \<open>Canonical_Expansion\<close>, \<open>Canonical_Store\<close>, \<open>Canonical_Facts\<close>, \<open>Canonical_Mapping\<close>:
      their proofs: the expansion against the interface \<open>object_source\<close>, the invariant of the tables
      and what a save stores, what readers get, and that it can be mapped.
    \<^item> \<open>Asa_Tree\<close>, \<open>Asa_Config\<close>, \<open>Asa_Index\<close>, \<open>Asa_Acl\<close>, \<open>Asa_Objects\<close>:
      \<open>modules/imports/cisco_asa/parsing\<close>: the tree of a configuration, what the parser returns, the
      index of stanzas with zones and usage of access lists, access-list lines, object headers.
    \<^item> \<open>Asa_State\<close>, \<open>Asa_Services\<close>, \<open>Asa_Members\<close>, \<open>Asa_Normalizer\<close>:
      \<open>adapters/normalizer\<close> of the same module: the state, the builders of services, references and
      members of groups, rules with their operands, issues and traces.
    \<^item> \<open>Asa_Acl_Facts\<close>, \<open>Asa_Invariant\<close>, \<open>Asa_Steps\<close>, \<open>Asa_Service_Steps\<close>,
      \<open>Asa_Rule_Steps\<close>, \<open>Asa_Import\<close>: their proofs: the language of access-list lines, the invariant
      of the normalizer, one lemma per step, and the whole run up to the command that is saved.
    \<^item> \<open>Execute_Samples\<close>, \<open>Mapping_Samples\<close>: small data on which the properties are exercised.
    \<^item> \<open>Value_Properties\<close>, \<open>Catalog_Properties\<close>, \<open>Execute_Properties\<close>, \<open>Mapping_Properties\<close>,
      \<open>Mapping_Run_Properties\<close>, \<open>Projection_Properties\<close>, \<open>Canonical_Properties\<close>,
      \<open>Asa_Properties\<close>: the properties, each with an example where its hypotheses hold.

  \<^bold>\<open>What is shown.\<close>
    \<^item> Values and rules (\<open>Value_Properties\<close>): comparison decides inclusion of addresses and traffic;
      groups resolve to exactly their members and a cycle is an error.
    \<^item> Catalog (\<open>Catalog_Properties\<close>): pagination ends with a complete chain of pages, and group
      expansion finds every object.
    \<^item> Execution (\<open>Execute_Properties\<close>): a covered or exact match is sound for packets; plans are stored,
      prepared against one catalog, and read back; pushes send only new rules, once when sequential and
      twice when interleaved.
    \<^item> Mapping (\<open>Mapping_Properties\<close>, \<open>Mapping_Run_Properties\<close>): automatic results are decided by
      value and mean the same addresses; scope rules refine the canonical rules; the cache invariant of
      all use cases, the round trip of a scope, and the translation up to what is executed.
    \<^item> Projection (\<open>Projection_Properties\<close>): it is always built and agrees with what is executed.
    \<^item> Canonical module (\<open>Canonical_Properties\<close>): the tables stay consistent, a snapshot reads back in
      whatever order rows are returned, pages make up the list, filters find what they should, and stored
      rules can be mapped.
    \<^item> Import (\<open>Asa_Properties\<close>): trees and spans are exactly the indentation; of an access-list line
      nothing is lost, outside the cases stated; normalization never fails and imports every rule; its
      command is stored unless a value does not fit its column.

  \<^bold>\<open>Bounds.\<close>  Group walks recurse on the remaining depth (three levels for canonical groups, as
  \<open>MAX_GROUP_DEPTH\<close>; the gateway's levels as \<open>MAX_GROUPS_DEPTH\<close>), so no fuel is needed.  Cursor
  pagination is a \<open>partial_function\<close> whose termination is proved from the cursors that the loop
  refuses to see twice; so are the walks over canonical groups and over the tree of a configuration, with
  proofs that they always return.

  \<^bold>\<open>Simplifications.\<close>  A use case of the mapping module runs at one time: an entry does not expire
  between two cache operations of one use case, and two mapping use cases do not interleave (pushes
  do).  A save of a snapshot is one transaction.  Addresses of the type \<open>INET\<close> are kept as the text
  that the driver's objects print.  Logging is left out.

  \<^bold>\<open>Not modelled.\<close>  HTTP transport, routers and response schemas, dependency injection and the session
  of the database (I/O and third-party code); the cryptography of CSP profiles; the Streamlit front end;
  the upload of a configuration, its tables and those of the trace, and the traversal of a whole text by
  the parser (the parser's results are the input of the normalizer, under \<open>parsed_ok\<close>); the limits of
  the interpreter on recursion and on the digits of \<open>int()\<close>; text that is not ASCII.
\<close>

end
